(* ===== verification/Vauxr_Prelude.thy ===== *)
theory Vauxr_Prelude
  imports Complex_Main "HOL-Library.AList"
begin

text \<open>
  What the component theories share: the types that stand for Python values (text, bytes, clock
  readings, dictionaries), the few string operations and regular expressions the server uses, and
  the state-and-exception actions in which every method with side effects is written.

  \<^item> Text is \<^typ>\<open>string\<close>, a list of code points below 256. Every
    pattern the server matches is ASCII; code points above 255 and lone surrogates are outside
    the model.
  \<^item> Clock readings (\<open>time.time()\<close>, \<open>time.monotonic()\<close>) are rationals;
    rounding of floating point sums is not modelled.
  \<^item> A dictionary is an association list with unique keys in insertion order, which is the
    order Python iterates it in; assignment is \<^const>\<open>AList.update\<close> (an
    existing key keeps its place, a new key goes last), \<open>del\<close> and \<open>pop\<close>
    are \<^const>\<open>AList.delete\<close>.
  \<^item> An exception keeps the changes made before it was raised, as in Python: an action
    returns a result or an exception together with the state it leaves.
\<close>

named_theorems action_simps "equations that run the state-and-exception actions"
named_theorems run_defs "operations that the run of an example unfolds"
named_theorems text_simps "unfolding of the character classes and string patterns"

type_synonym time = rat
type_synonym ('k, 'v) dict = "('k \<times> 'v) list"


section \<open>Text\<close>

definition char_between :: "nat \<Rightarrow> nat \<Rightarrow> char \<Rightarrow> bool" where
  "char_between lo hi c \<longleftrightarrow> lo \<le> of_char c \<and> (of_char c :: nat) \<le> hi"

definition is_digit :: "char \<Rightarrow> bool" where
  "is_digit c \<longleftrightarrow> char_between 48 57 c"

definition is_lower :: "char \<Rightarrow> bool" where
  "is_lower c \<longleftrightarrow> char_between 97 122 c"

definition is_upper :: "char \<Rightarrow> bool" where
  "is_upper c \<longleftrightarrow> char_between 65 90 c"

definition is_alnum :: "char \<Rightarrow> bool" where
  "is_alnum c \<longleftrightarrow> is_digit c \<or> is_lower c \<or> is_upper c"

definition is_hex :: "char \<Rightarrow> bool" where
  "is_hex c \<longleftrightarrow> is_digit c \<or> char_between 97 102 c"

definition is_ascii :: "string \<Rightarrow> bool" where
  "is_ascii s \<longleftrightarrow> list_all (\<lambda>c. (of_char c :: nat) < 128) s"

text \<open>\<open>str.isspace\<close> on one character below 256.\<close>

definition is_space :: "char \<Rightarrow> bool" where
  "is_space c \<longleftrightarrow> char_between 9 13 c \<or> char_between 28 32 c \<or> of_char c = (133 :: nat)
     \<or> of_char c = (160 :: nat)"

definition lstrip :: "string \<Rightarrow> string" where
  "lstrip s = dropWhile is_space s"

definition rstrip :: "string \<Rightarrow> string" where
  "rstrip s = rev (dropWhile is_space (rev s))"

definition strip :: "string \<Rightarrow> string" where
  "strip s = rstrip (lstrip s)"

definition starts_with :: "string \<Rightarrow> string \<Rightarrow> bool" where
  "starts_with p s \<longleftrightarrow> take (length p) s = p"

text \<open>The identifier pattern \<open>[A-Za-z0-9][A-Za-z0-9_.:-]{0,127}\<close>.\<close>

definition ident_char :: "char \<Rightarrow> bool" where
  "ident_char c \<longleftrightarrow> is_alnum c \<or> c \<in> set ''_.:-''"

definition is_ident :: "string \<Rightarrow> bool" where
  "is_ident s \<longleftrightarrow> s \<noteq> [] \<and> is_alnum (hd s) \<and> length s \<le> 128 \<and> list_all ident_char (tl s)"

lemmas char_class_defs [text_simps] =
  char_between_def is_digit_def is_lower_def is_upper_def is_alnum_def is_hex_def

lemma hex_alnum: "is_hex c \<Longrightarrow> is_alnum c"
  by (auto simp: char_class_defs)

lemma hex_ident_char: "is_hex c \<Longrightarrow> ident_char c"
  by (auto simp: ident_char_def hex_alnum)

lemma dropWhile_idem [simp]: "dropWhile P (dropWhile P xs) = dropWhile P xs"
  by (induction xs) auto

lemma rstrip_idem [simp]: "rstrip (rstrip s) = rstrip s"
  by (simp add: rstrip_def)

lemma dropWhile_eq_self: "xs = [] \<or> \<not> P (hd xs) \<Longrightarrow> dropWhile P xs = xs"
  by (cases xs) auto

lemma rstrip_prefix: "\<exists>t. s = rstrip s @ t"
proof -
  have "rev s = takeWhile is_space (rev s) @ dropWhile is_space (rev s)" by simp
  then have "s = rev (dropWhile is_space (rev s)) @ rev (takeWhile is_space (rev s))"
    by (metis rev_append rev_rev_ident)
  then show ?thesis by (auto simp: rstrip_def)
qed

lemma strip_idem [simp]: "strip (strip s) = strip s"
proof -
  let ?l = "dropWhile is_space s"
  obtain t where t: "?l = rstrip ?l @ t" using rstrip_prefix by blast
  have "rstrip ?l = [] \<or> \<not> is_space (hd (rstrip ?l))"
    by (metis append_is_Nil_conv hd_append2 hd_dropWhile t)
  then show ?thesis
    by (simp add: strip_def lstrip_def dropWhile_eq_self)
qed

text \<open>\<open>n.to_bytes\<close>/\<open>token_hex\<close>: the \<open>n\<close> lowest hexadecimal digits of a number.\<close>

definition hex_digit :: "int \<Rightarrow> char" where
  "hex_digit x = ''0123456789abcdef'' ! nat (x mod 16)"

fun hex_digits :: "nat \<Rightarrow> int \<Rightarrow> string" where
  "hex_digits 0 x = []"
| "hex_digits (Suc n) x = hex_digits n (x div 16) @ [hex_digit x]"

lemma length_hex_digits [simp]: "length (hex_digits n x) = n"
  by (induction n arbitrary: x) auto

lemma hex_digit_is_hex [simp]: "is_hex (hex_digit x)"
proof -
  have "nat (x mod 16) < length ''0123456789abcdef''"
    using pos_mod_bound [of 16 x] by simp
  then have "''0123456789abcdef'' ! nat (x mod 16) \<in> set ''0123456789abcdef''"
    by (rule nth_mem)
  then show ?thesis
    unfolding hex_digit_def by (auto simp: char_class_defs)
qed

lemma hex_digits_are_hex [simp]: "list_all is_hex (hex_digits n x)"
  by (induction n arbitrary: x) auto


section \<open>Dictionaries\<close>

definition dict_get :: "('k, 'v) dict \<Rightarrow> 'k \<Rightarrow> 'v option" where
  "dict_get d k = map_of d k"

definition dict_put :: "'k \<Rightarrow> 'v \<Rightarrow> ('k, 'v) dict \<Rightarrow> ('k, 'v) dict" where
  "dict_put k v d = AList.update k v d"

definition dict_pop :: "'k \<Rightarrow> ('k, 'v) dict \<Rightarrow> ('k, 'v) dict" where
  "dict_pop k d = AList.delete k d"

definition dict_keys :: "('k, 'v) dict \<Rightarrow> 'k list" where
  "dict_keys d = map fst d"

definition dict_values :: "('k, 'v) dict \<Rightarrow> 'v list" where
  "dict_values d = map snd d"

text \<open>Mutating every row of a dictionary in iteration order keeps its keys.\<close>

definition dict_map :: "('v \<Rightarrow> 'w) \<Rightarrow> ('k, 'v) dict \<Rightarrow> ('k, 'w) dict" where
  "dict_map f d = map (\<lambda>(k, v). (k, f v)) d"

definition dict_filter :: "('k \<times> 'v \<Rightarrow> bool) \<Rightarrow> ('k, 'v) dict \<Rightarrow> ('k, 'v) dict" where
  "dict_filter P d = filter P d"

definition is_dict :: "('k, 'v) dict \<Rightarrow> bool" where
  "is_dict d \<longleftrightarrow> distinct (dict_keys d)"

lemma dict_get_put [simp]: "dict_get (dict_put k v d) k' = (if k' = k then Some v else dict_get d k')"
  by (simp add: dict_get_def dict_put_def update_conv')

lemma dict_get_pop [simp]: "dict_get (dict_pop k d) k' = (if k' = k then None else dict_get d k')"
  by (simp add: dict_get_def dict_pop_def delete_conv')

lemma dict_get_map [simp]: "dict_get (dict_map f d) k = map_option f (dict_get d k)"
  by (induction d) (auto simp: dict_get_def dict_map_def)

lemma dict_keys_map [simp]: "dict_keys (dict_map f d) = dict_keys d"
  by (induction d) (auto simp: dict_map_def dict_keys_def)

lemma is_dict_empty [simp]: "is_dict []"
  by (simp add: is_dict_def dict_keys_def)

lemma is_dict_put [simp]: "is_dict d \<Longrightarrow> is_dict (dict_put k v d)"
  by (simp add: is_dict_def dict_keys_def dict_put_def distinct_update)

lemma is_dict_pop [simp]: "is_dict d \<Longrightarrow> is_dict (dict_pop k d)"
  by (simp add: is_dict_def dict_keys_def dict_pop_def distinct_delete)

lemma is_dict_map [simp]: "is_dict (dict_map f d) = is_dict d"
  by (simp add: is_dict_def)

lemma is_dict_filter [simp]: "is_dict d \<Longrightarrow> is_dict (dict_filter P d)"
  by (simp add: is_dict_def dict_keys_def dict_filter_def distinct_map_filter)

lemma dict_get_in: "dict_get d k = Some v \<Longrightarrow> (k, v) \<in> set d"
  by (simp add: dict_get_def map_of_SomeD)

lemma dict_get_iff: "is_dict d \<Longrightarrow> dict_get d k = Some v \<longleftrightarrow> (k, v) \<in> set d"
  by (simp add: is_dict_def dict_keys_def dict_get_def)

lemma dict_get_None: "dict_get d k = None \<longleftrightarrow> k \<notin> set (dict_keys d)"
  by (simp add: dict_get_def dict_keys_def map_of_eq_None_iff)

lemma set_dict_put: "set (dict_put k v d) \<subseteq> insert (k, v) (set d)"
  by (induction d) (auto simp: dict_put_def)

lemma dict_put_mem: "(k, v) \<in> set (dict_put k v d)"
  by (metis dict_get_in dict_get_put)

lemma set_dict_put_iff:
  "is_dict d \<Longrightarrow> (k', v') \<in> set (dict_put k v d) \<longleftrightarrow>
     (if k' = k then v' = v else (k', v') \<in> set d)"
  by (auto simp flip: dict_get_iff)

lemma set_dict_pop: "set (dict_pop k d) = {(k', v) \<in> set d. k' \<noteq> k}"
  by (auto simp: dict_pop_def AList.delete_eq)

lemma set_dict_map: "set (dict_map f d) = (\<lambda>(k, v). (k, f v)) ` set d"
  by (auto simp: dict_map_def)

lemma set_dict_filter [simp]: "set (dict_filter P d) = {x \<in> set d. P x}"
  by (simp add: dict_filter_def)

lemma length_dict_map [simp]: "length (dict_map f d) = length d"
  by (simp add: dict_map_def)

lemma length_dict_put:
  "length (dict_put k v d) = (if k \<in> set (dict_keys d) then length d else Suc (length d))"
  by (induction d) (auto simp: dict_put_def dict_keys_def)

lemma length_dict_pop_le [simp]: "length (dict_pop k d) \<le> length d"
  by (simp add: dict_pop_def length_delete_le)


section \<open>Actions: state, results and exceptions\<close>

type_synonym ('s, 'e, 'a) action = "'s \<Rightarrow> ('e + 'a) \<times> 's"

definition ret :: "'a \<Rightarrow> ('s, 'e, 'a) action" where
  "ret x = (\<lambda>s. (Inr x, s))"

definition raise :: "'e \<Rightarrow> ('s, 'e, 'a) action" where
  "raise e = (\<lambda>s. (Inl e, s))"

definition bnd :: "('s, 'e, 'a) action \<Rightarrow> ('a \<Rightarrow> ('s, 'e, 'b) action) \<Rightarrow> ('s, 'e, 'b) action" where
  "bnd m k = (\<lambda>s. case m s of (Inl e, t) \<Rightarrow> (Inl e, t) | (Inr x, t) \<Rightarrow> k x t)"

definition andthen :: "('s, 'e, 'a) action \<Rightarrow> ('s, 'e, 'b) action \<Rightarrow> ('s, 'e, 'b) action" where
  "andthen m k = bnd m (\<lambda>_. k)"

definition reads :: "('s \<Rightarrow> 'a) \<Rightarrow> ('s, 'e, 'a) action" where
  "reads f = (\<lambda>s. (Inr (f s), s))"

definition modifies :: "('s \<Rightarrow> 's) \<Rightarrow> ('s, 'e, unit) action" where
  "modifies f = (\<lambda>s. (Inr (), f s))"

text \<open>The result of a pure computation that may fail.\<close>

definition lift_result :: "'e + 'a \<Rightarrow> ('s, 'e, 'a) action" where
  "lift_result r = (case r of Inl e \<Rightarrow> raise e | Inr x \<Rightarrow> ret x)"

text \<open>\<open>if c: raise e\<close>\<close>

definition raise_if :: "bool \<Rightarrow> 'e \<Rightarrow> ('s, 'e, unit) action" where
  "raise_if c e = (if c then raise e else ret ())"

text \<open>\<open>if c: m\<close>\<close>

definition when_do :: "bool \<Rightarrow> ('s, 'e, unit) action \<Rightarrow> ('s, 'e, unit) action" where
  "when_do c m = (if c then m else ret ())"

text \<open>\<open>try: m / except E: h\<close>, where \<open>h\<close> gets every exception and re-raises what it does not handle.\<close>

definition try_except :: "('s, 'e, 'a) action \<Rightarrow> ('e \<Rightarrow> ('s, 'e, 'a) action) \<Rightarrow> ('s, 'e, 'a) action" where
  "try_except m h = (\<lambda>s. case m s of (Inl e, t) \<Rightarrow> h e t | (Inr x, t) \<Rightarrow> (Inr x, t))"

fun for_each :: "'x list \<Rightarrow> ('x \<Rightarrow> ('s, 'e, unit) action) \<Rightarrow> ('s, 'e, unit) action" where
  "for_each [] f = ret ()"
| "for_each (x # xs) f = andthen (f x) (for_each xs f)"

lemmas action_defs = ret_def raise_def bnd_def andthen_def reads_def modifies_def raise_if_def
  when_do_def try_except_def

lemma run_ret [action_simps]: "ret x s = (Inr x, s)"
  by (simp add: ret_def)

lemma run_raise [action_simps]: "raise e s = (Inl e, s)"
  by (simp add: raise_def)

lemma run_reads [action_simps]: "reads f s = (Inr (f s), s)"
  by (simp add: reads_def)

lemma run_modifies [action_simps]: "modifies f s = (Inr (), f s)"
  by (simp add: modifies_def)

lemma run_bnd [action_simps]:
  "bnd m k s = (case m s of (Inl e, t) \<Rightarrow> (Inl e, t) | (Inr x, t) \<Rightarrow> k x t)"
  by (simp add: bnd_def)

lemma run_andthen [action_simps]:
  "andthen m k s = (case m s of (Inl e, t) \<Rightarrow> (Inl e, t) | (Inr x, t) \<Rightarrow> k t)"
  by (simp add: andthen_def bnd_def)

lemma run_raise_if [action_simps]: "raise_if c e s = (if c then (Inl e, s) else (Inr (), s))"
  by (simp add: raise_if_def ret_def raise_def)

lemma run_lift_result [action_simps]: "lift_result r s = (r, s)"
  by (cases r) (simp_all add: lift_result_def ret_def raise_def)

lemma run_when_do [action_simps]: "when_do c m s = (if c then m s else (Inr (), s))"
  by (simp add: when_do_def ret_def)

lemma run_try_except [action_simps]:
  "try_except m h s = (case m s of (Inl e, t) \<Rightarrow> h e t | (Inr x, t) \<Rightarrow> (Inr x, t))"
  by (simp add: try_except_def)


text \<open>
  With these congruences the simplifier runs an action step by step: a continuation is looked at
  only when the result and the state it gets are known.
\<close>

lemma run_cong_bnd: "bnd m k = bnd m k"
  by (rule refl)

lemma run_cong_andthen: "andthen m k = andthen m k"
  by (rule refl)

lemma run_cong_try: "try_except m h = try_except m h"
  by (rule refl)

lemma run_cong_when: "c = c' \<Longrightarrow> when_do c m = when_do c' m"
  by simp

lemmas run_congs = run_cong_bnd run_cong_andthen run_cong_try run_cong_when


subsection \<open>Relations every action respects\<close>

text \<open>
  \<open>obeys R m\<close>: whatever \<open>m\<close> returns or raises, the state it leaves is related by \<open>R\<close>
  to the state it started in. For a reflexive and transitive \<open>R\<close> the property is closed under
  the ways the code composes actions, which is how "every operation keeps ..." is proved for a
  handler from its parts.
\<close>

definition obeys :: "('s \<Rightarrow> 's \<Rightarrow> bool) \<Rightarrow> ('s, 'e, 'a) action \<Rightarrow> bool" where
  "obeys R m \<longleftrightarrow> (\<forall>s. R s (snd (m s)))"

named_theorems obeys_intros "how a step relation is inherited by composed actions"

locale step_relation =
  fixes R :: "'s \<Rightarrow> 's \<Rightarrow> bool"
  assumes R_refl: "R s s"
    and R_trans: "R s t \<Longrightarrow> R t u \<Longrightarrow> R s u"
begin

lemma obeys_ret: "obeys R (ret x)"
  by (simp add: obeys_def ret_def R_refl)

lemma obeys_raise: "obeys R (raise e)"
  by (simp add: obeys_def raise_def R_refl)

lemma obeys_reads: "obeys R (reads f)"
  by (simp add: obeys_def reads_def R_refl)

lemma obeys_raise_if: "obeys R (raise_if c e)"
  by (simp add: obeys_def run_raise_if R_refl)

lemma obeys_bnd: "obeys R m \<Longrightarrow> (\<And>x. obeys R (k x)) \<Longrightarrow> obeys R (bnd m k)"
  unfolding obeys_def bnd_def
  by (auto split: prod.split sum.split) (metis R_trans snd_conv)+

lemma obeys_andthen: "obeys R m \<Longrightarrow> obeys R k \<Longrightarrow> obeys R (andthen m k)"
  by (simp add: andthen_def obeys_bnd)

lemma obeys_when_do: "(c \<Longrightarrow> obeys R m) \<Longrightarrow> obeys R (when_do c m)"
  by (simp add: when_do_def obeys_ret)

lemma obeys_try_except: "obeys R m \<Longrightarrow> (\<And>e. obeys R (h e)) \<Longrightarrow> obeys R (try_except m h)"
  unfolding obeys_def try_except_def
  by (auto split: prod.split sum.split) (metis R_trans snd_conv)+

lemma obeys_if: "(c \<Longrightarrow> obeys R m) \<Longrightarrow> (\<not> c \<Longrightarrow> obeys R n) \<Longrightarrow> obeys R (if c then m else n)"
  by simp

lemma obeys_option:
  "(v = None \<Longrightarrow> obeys R m) \<Longrightarrow> (\<And>x. v = Some x \<Longrightarrow> obeys R (k x)) \<Longrightarrow> obeys R (case v of None \<Rightarrow> m | Some x \<Rightarrow> k x)"
  by (cases v) auto

lemma obeys_sum:
  "(\<And>x. v = Inl x \<Longrightarrow> obeys R (m x)) \<Longrightarrow> (\<And>x. v = Inr x \<Longrightarrow> obeys R (k x)) \<Longrightarrow>
   obeys R (case v of Inl x \<Rightarrow> m x | Inr x \<Rightarrow> k x)"
  by (cases v) auto

lemma obeys_prod:
  "(\<And>x y. v = (x, y) \<Longrightarrow> obeys R (k x y)) \<Longrightarrow> obeys R (case v of (x, y) \<Rightarrow> k x y)"
  by (cases v) auto

lemma obeys_for_each: "(\<And>x. x \<in> set xs \<Longrightarrow> obeys R (f x)) \<Longrightarrow> obeys R (for_each xs f)"
  by (induction xs) (auto intro: obeys_ret obeys_andthen)

lemmas obeys_rules = obeys_ret obeys_raise obeys_reads obeys_raise_if obeys_bnd obeys_andthen
  obeys_when_do obeys_try_except obeys_if obeys_option obeys_sum obeys_prod obeys_for_each

end

text \<open>An invariant is the step relation "if it held before, it holds after".\<close>

definition keeping :: "('s \<Rightarrow> bool) \<Rightarrow> 's \<Rightarrow> 's \<Rightarrow> bool" where
  "keeping I s t \<longleftrightarrow> (I s \<longrightarrow> I t)"

interpretation invariant_step: step_relation "keeping I" for I
  by unfold_locales (auto simp: keeping_def)

lemma obeys_keepingD: "obeys (keeping I) m \<Longrightarrow> I s \<Longrightarrow> I (snd (m s))"
  by (auto simp: obeys_def keeping_def)


subsection \<open>Triples\<close>

text \<open>
  \<open>triple P m Q X\<close>: from a state with \<open>P\<close>, either \<open>m\<close> returns and \<open>Q\<close> holds of
  its result and the state it leaves, or it raises and \<open>X\<close> holds of the exception and that
  state. Handlers whose steps depend on what an earlier step read are verified with these rules.
\<close>

definition triple :: "('s \<Rightarrow> bool) \<Rightarrow> ('s, 'e, 'a) action \<Rightarrow> ('a \<Rightarrow> 's \<Rightarrow> bool) \<Rightarrow> ('e \<Rightarrow> 's \<Rightarrow> bool) \<Rightarrow> bool" where
  "triple P m Q X \<longleftrightarrow> (\<forall>s. P s \<longrightarrow> (case m s of (Inl e, t) \<Rightarrow> X e t | (Inr x, t) \<Rightarrow> Q x t))"

named_theorems triple_rules "one rule for each way actions are composed"

lemma tripleD_Inr: "triple P m Q X \<Longrightarrow> P s \<Longrightarrow> m s = (Inr x, t) \<Longrightarrow> Q x t"
  by (auto simp: triple_def)

lemma tripleD_Inl: "triple P m Q X \<Longrightarrow> P s \<Longrightarrow> m s = (Inl e, t) \<Longrightarrow> X e t"
  by (auto simp: triple_def)

lemma tripleI:
  "(\<And>s x t. P s \<Longrightarrow> m s = (Inr x, t) \<Longrightarrow> Q x t) \<Longrightarrow> (\<And>s e t. P s \<Longrightarrow> m s = (Inl e, t) \<Longrightarrow> X e t) \<Longrightarrow>
   triple P m Q X"
  by (auto simp: triple_def split: prod.splits sum.splits)

lemma triple_conseq:
  "triple P' m Q' X' \<Longrightarrow> (\<And>s. P s \<Longrightarrow> P' s) \<Longrightarrow> (\<And>x s. Q' x s \<Longrightarrow> Q x s) \<Longrightarrow> (\<And>e s. X' e s \<Longrightarrow> X e s) \<Longrightarrow>
   triple P m Q X"
  unfolding triple_def by (auto split: prod.splits sum.splits) blast+

lemma triple_pre: "triple P' m Q X \<Longrightarrow> (\<And>s. P s \<Longrightarrow> P' s) \<Longrightarrow> triple P m Q X"
  by (erule triple_conseq)

lemma triple_ret [triple_rules]: "(\<And>s. P s \<Longrightarrow> Q x s) \<Longrightarrow> triple P (ret x) Q X"
  by (simp add: triple_def ret_def)

lemma triple_raise [triple_rules]: "(\<And>s. P s \<Longrightarrow> X e s) \<Longrightarrow> triple P (raise e) Q X"
  by (simp add: triple_def raise_def)

lemma triple_bnd:
  assumes m: "triple P m R X" and k: "\<And>x. triple (R x) (k x) Q X"
  shows "triple P (bnd m k) Q X"
  unfolding triple_def
proof (intro allI impI)
  fix s assume "P s"
  then show "case bnd m k s of (Inl e, t) \<Rightarrow> X e t | (Inr x, t) \<Rightarrow> Q x t"
    using m k by (cases "m s"; cases "fst (m s)") (fastforce simp: triple_def bnd_def)+
qed

lemma triple_bnd_reads [triple_rules]:
  "(\<And>x. triple (\<lambda>s. P s \<and> f s = x) (k x) Q X) \<Longrightarrow> triple P (bnd (reads f) k) Q X"
  by (simp add: triple_def bnd_def reads_def)

lemma triple_andthen: "triple P m (\<lambda>_. R) X \<Longrightarrow> triple R k Q X \<Longrightarrow> triple P (andthen m k) Q X"
  unfolding andthen_def by (rule triple_bnd)

lemma triple_reads [triple_rules]: "(\<And>s. P s \<Longrightarrow> Q (f s) s) \<Longrightarrow> triple P (reads f) Q X"
  by (simp add: triple_def reads_def)

lemma triple_modifies [triple_rules]: "(\<And>s. P s \<Longrightarrow> Q () (f s)) \<Longrightarrow> triple P (modifies f) Q X"
  by (simp add: triple_def modifies_def)

lemma triple_modifies_then [triple_rules]:
  "(\<And>s. P s \<Longrightarrow> R (f s)) \<Longrightarrow> triple R k Q X \<Longrightarrow> triple P (andthen (modifies f) k) Q X"
  by (rule triple_andthen [where R = R]) (auto intro: triple_modifies)

lemma triple_raise_if_then [triple_rules]:
  "(\<And>s. P s \<Longrightarrow> c \<Longrightarrow> X e s) \<Longrightarrow> (\<not> c \<Longrightarrow> triple P k Q X) \<Longrightarrow> triple P (andthen (raise_if c e) k) Q X"
  by (simp add: triple_def andthen_def bnd_def raise_if_def raise_def ret_def)

lemma triple_raise_if [triple_rules]:
  "(\<And>s. P s \<Longrightarrow> c \<Longrightarrow> X e s) \<Longrightarrow> (\<And>s. P s \<Longrightarrow> \<not> c \<Longrightarrow> Q () s) \<Longrightarrow> triple P (raise_if c e) Q X"
  by (simp add: triple_def raise_if_def raise_def ret_def)

lemma triple_if [triple_rules]:
  "(c \<Longrightarrow> triple P a Q X) \<Longrightarrow> (\<not> c \<Longrightarrow> triple P b Q X) \<Longrightarrow> triple P (if c then a else b) Q X"
  by simp

lemma triple_when_do:
  "(c \<Longrightarrow> triple P m (\<lambda>_. Q ()) X) \<Longrightarrow> (\<And>s. \<not> c \<Longrightarrow> P s \<Longrightarrow> Q () s) \<Longrightarrow> triple P (when_do c m) Q X"
  by (simp add: when_do_def triple_def ret_def)

lemma triple_option [triple_rules]:
  "(v = None \<Longrightarrow> triple P n Q X) \<Longrightarrow> (\<And>x. v = Some x \<Longrightarrow> triple P (k x) Q X) \<Longrightarrow>
   triple P (case v of None \<Rightarrow> n | Some x \<Rightarrow> k x) Q X"
  by (cases v) auto

lemma triple_try:
  assumes m: "triple P m Q Y" and h: "\<And>e. triple (Y e) (h e) Q X"
  shows "triple P (try_except m h) Q X"
  unfolding triple_def
proof (intro allI impI)
  fix s assume "P s"
  then show "case try_except m h s of (Inl e, t) \<Rightarrow> X e t | (Inr x, t) \<Rightarrow> Q x t"
    using m h by (cases "m s"; cases "fst (m s)") (fastforce simp: triple_def try_except_def)+
qed

lemma triple_same: "(case r of (Inl e, t) \<Rightarrow> I t | (Inr x, t) \<Rightarrow> I t) = I (snd r)"
  by (simp split: prod.split sum.split)

lemma triple_sameI: "(\<And>s. P s \<Longrightarrow> I (snd (m s))) \<Longrightarrow> triple P m (\<lambda>_. I) (\<lambda>_. I)"
  by (simp only: triple_def triple_same) blast

lemma triple_sameD: "triple P m (\<lambda>_. I) (\<lambda>_. I) \<Longrightarrow> P s \<Longrightarrow> I (snd (m s))"
  by (simp only: triple_def triple_same)

lemma triple_iff_keeping: "triple I m (\<lambda>_. I) (\<lambda>_. I) \<longleftrightarrow> obeys (keeping I) m"
  by (simp only: triple_def obeys_def keeping_def triple_same)

end
