(* ===== verification/Json_Value.thy ===== *)
theory Json_Value
  imports Vauxr_Prelude
begin

text \<open>
  Parsed JSON, as \<open>json.load\<close> gives it before the \<open>object_pairs_hook\<close>, and the checks
  the persisted schemas are built from (\<open>config_files.unique_object\<close>,
  \<open>enrollment_schema.hex_string\<close> and \<open>timestamp\<close>). A Python \<open>bool\<close>, \<open>int\<close> and
  \<open>float\<close> are three constructors, so \<open>type(v) is int\<close> is a match on one of them;
  the non-finite floats that \<open>json.load\<close> accepts are \<open>JNonFinite\<close>. Objects keep the
  order of their keys and may repeat one, which is what \<open>unique_object\<close> rejects.
\<close>

datatype nonfinite = Infinity | Minus_infinity | Not_a_number

datatype json =
    JNull
  | JBool bool
  | JInt int
  | JFloat rat
  | JNonFinite nonfinite
  | JStr string
  | JList "json list"
  | JObj "(string \<times> json) list"

section \<open>Access\<close>

text \<open>\<open>value.get(key)\<close> on a dictionary; \<open>None\<close> for a missing key or a value that is no dictionary.\<close>

fun jget :: "json \<Rightarrow> string \<Rightarrow> json option" where
  "jget (JObj kvs) k = map_of kvs k"
| "jget _ k = None"

fun is_obj :: "json \<Rightarrow> bool" where
  "is_obj (JObj _) = True"
| "is_obj _ = False"

fun obj_pairs :: "json \<Rightarrow> (string \<times> json) list" where
  "obj_pairs (JObj kvs) = kvs"
| "obj_pairs _ = []"

fun list_items :: "json \<Rightarrow> json list" where
  "list_items (JList xs) = xs"
| "list_items _ = []"

fun is_list :: "json \<Rightarrow> bool" where
  "is_list (JList _) = True"
| "is_list _ = False"

fun is_str :: "json \<Rightarrow> bool" where
  "is_str (JStr _) = True"
| "is_str _ = False"

fun str_value :: "json \<Rightarrow> string" where
  "str_value (JStr s) = s"
| "str_value _ = []"

fun is_int :: "json \<Rightarrow> bool" where
  "is_int (JInt _) = True"
| "is_int _ = False"

fun int_value :: "json \<Rightarrow> int" where
  "int_value (JInt n) = n"
| "int_value _ = 0"

fun is_bool :: "json \<Rightarrow> bool" where
  "is_bool (JBool _) = True"
| "is_bool _ = False"

fun bool_value :: "json \<Rightarrow> bool" where
  "bool_value (JBool b) = b"
| "bool_value _ = False"

fun num_value :: "json \<Rightarrow> rat" where
  "num_value (JInt n) = of_int n"
| "num_value (JFloat r) = r"
| "num_value _ = 0"

text \<open>\<open>value[key]\<close>, where the caller has established that the key is there.\<close>

definition jat :: "json \<Rightarrow> string \<Rightarrow> json" where
  "jat j k = (case jget j k of None \<Rightarrow> JNull | Some v \<Rightarrow> v)"

definition jkeys :: "json \<Rightarrow> string list" where
  "jkeys j = map fst (obj_pairs j)"

definition has_key :: "json \<Rightarrow> string \<Rightarrow> bool" where
  "has_key j k \<longleftrightarrow> k \<in> set (jkeys j)"

text \<open>\<open>value.keys() == {...}\<close> and \<open>value.keys() <= {...}\<close>\<close>

definition keys_are :: "json \<Rightarrow> string list \<Rightarrow> bool" where
  "keys_are j ks \<longleftrightarrow> is_obj j \<and> set (jkeys j) = set ks"

definition keys_within :: "json \<Rightarrow> string list \<Rightarrow> bool" where
  "keys_within j ks \<longleftrightarrow> is_obj j \<and> set (jkeys j) \<subseteq> set ks"

text \<open>The truth value of a Python object, as \<open>not value\<close> and \<open>value or other\<close> read it.\<close>

fun truthy :: "json \<Rightarrow> bool" where
  "truthy JNull \<longleftrightarrow> False"
| "truthy (JBool b) \<longleftrightarrow> b"
| "truthy (JInt n) \<longleftrightarrow> n \<noteq> 0"
| "truthy (JFloat r) \<longleftrightarrow> r \<noteq> 0"
| "truthy (JNonFinite _) \<longleftrightarrow> True"
| "truthy (JStr s) \<longleftrightarrow> s \<noteq> []"
| "truthy (JList xs) \<longleftrightarrow> xs \<noteq> []"
| "truthy (JObj kvs) \<longleftrightarrow> kvs \<noteq> []"

text \<open>What \<open>json.load\<close> makes of a document without the hook: the last value of a repeated key wins.\<close>

fun last_wins :: "json \<Rightarrow> json" where
  "last_wins (JObj kvs) = JObj (fold (\<lambda>(k, v). dict_put k v) (map (\<lambda>(k, v). (k, last_wins v)) kvs) [])"
| "last_wins (JList xs) = JList (map last_wins xs)"
| "last_wins j = j"


section \<open>Schema checks\<close>

text \<open>\<open>unique_object\<close>: no object of the document repeats a key.\<close>

fun unique_json :: "json \<Rightarrow> bool" where
  "unique_json (JObj kvs) \<longleftrightarrow> distinct (map fst kvs) \<and> (\<forall>kv \<in> set kvs. unique_json (snd kv))"
| "unique_json (JList xs) \<longleftrightarrow> (\<forall>x \<in> set xs. unique_json x)"
| "unique_json _ \<longleftrightarrow> True"

definition is_hex_text :: "nat \<Rightarrow> string \<Rightarrow> bool" where
  "is_hex_text n s \<longleftrightarrow> length s = n \<and> list_all is_hex s"

definition hex_string :: "json \<Rightarrow> nat \<Rightarrow> bool" where
  "hex_string v n \<longleftrightarrow> (case v of JStr s \<Rightarrow> is_hex_text n s | _ \<Rightarrow> False)"

definition timestamp :: "json \<Rightarrow> bool" where
  "timestamp v \<longleftrightarrow> (case v of JInt n \<Rightarrow> 0 \<le> n | JFloat r \<Rightarrow> 0 \<le> r | _ \<Rightarrow> False)"

text \<open>\<open>type(v) is int and lo <= v <= hi\<close>\<close>

definition int_within :: "json \<Rightarrow> int \<Rightarrow> int \<Rightarrow> bool" where
  "int_within v lo hi \<longleftrightarrow> (case v of JInt n \<Rightarrow> lo \<le> n \<and> n \<le> hi | _ \<Rightarrow> False)"

text \<open>\<open>v in (...)\<close> for a tuple or set of strings\<close>

definition str_among :: "json \<Rightarrow> string list \<Rightarrow> bool" where
  "str_among v ss \<longleftrightarrow> (case v of JStr s \<Rightarrow> s \<in> set ss | _ \<Rightarrow> False)"

definition str_that :: "(string \<Rightarrow> bool) \<Rightarrow> json \<Rightarrow> bool" where
  "str_that P v \<longleftrightarrow> (case v of JStr s \<Rightarrow> P s | _ \<Rightarrow> False)"

lemma hex_string_JStr [simp]: "hex_string (JStr s) n \<longleftrightarrow> is_hex_text n s"
  by (simp add: hex_string_def)

lemma timestamp_JFloat [simp]: "timestamp (JFloat r) \<longleftrightarrow> 0 \<le> r"
  by (simp add: timestamp_def)

lemma timestamp_JInt [simp]: "timestamp (JInt n) \<longleftrightarrow> 0 \<le> n"
  by (simp add: timestamp_def)

lemma int_within_JInt [simp]: "int_within (JInt n) lo hi \<longleftrightarrow> lo \<le> n \<and> n \<le> hi"
  by (simp add: int_within_def)

lemma str_among_JStr [simp]: "str_among (JStr s) ss \<longleftrightarrow> s \<in> set ss"
  by (simp add: str_among_def)

lemma str_that_JStr [simp]: "str_that P (JStr s) \<longleftrightarrow> P s"
  by (simp add: str_that_def)

lemma is_hex_text_hex_digits [simp]: "is_hex_text n (hex_digits n x)"
  by (simp add: is_hex_text_def)

lemma is_hex_text_ident: "is_hex_text n s \<Longrightarrow> 0 < n \<Longrightarrow> n \<le> 128 \<Longrightarrow> is_ident s"
  by (cases s) (auto simp: is_hex_text_def is_ident_def hex_alnum hex_ident_char list_all_iff)

section \<open>Writing typed state as JSON and reading it back\<close>

text \<open>An object whose optional fields are left out when they are \<^const>\<open>None\<close>.\<close>

definition obj_of :: "(string \<times> json option) list \<Rightarrow> json" where
  "obj_of fs = JObj (List.map_filter (\<lambda>(k, v). map_option (Pair k) v) fs)"

definition enc_dict :: "('a \<Rightarrow> json) \<Rightarrow> (string, 'a) dict \<Rightarrow> json" where
  "enc_dict f d = JObj (map (\<lambda>(k, v). (k, f v)) d)"

definition dec_dict :: "(json \<Rightarrow> 'a) \<Rightarrow> json \<Rightarrow> (string, 'a) dict" where
  "dec_dict g j = map (\<lambda>(k, v). (k, g v)) (obj_pairs j)"

definition enc_list :: "('a \<Rightarrow> json) \<Rightarrow> 'a list \<Rightarrow> json" where
  "enc_list f xs = JList (map f xs)"

definition dec_list :: "(json \<Rightarrow> 'a) \<Rightarrow> json \<Rightarrow> 'a list" where
  "dec_list g j = map g (list_items j)"

lemma obj_of_Cons:
  "obj_pairs (obj_of ((k, v) # fs)) = (case v of None \<Rightarrow> [] | Some x \<Rightarrow> [(k, x)]) @ obj_pairs (obj_of fs)"
  by (simp add: obj_of_def split: option.split)

lemma jget_obj_of [simp]:
  assumes "distinct (map fst fs)"
  shows "jget (obj_of fs) k = (case map_of fs k of None \<Rightarrow> None | Some v \<Rightarrow> v)"
proof -
  have "map_of (obj_pairs (obj_of fs)) k = (case map_of fs k of None \<Rightarrow> None | Some v \<Rightarrow> v)"
    using assms
  proof (induction fs)
    case Nil
    then show ?case by (simp add: obj_of_def)
  next
    case (Cons kv fs)
    obtain k' v where kv: "kv = (k', v)" by (cases kv)
    have "map_of fs k' = None" using Cons.prems kv by (simp add: map_of_eq_None_iff)
    then show ?case
      using Cons kv by (cases v) (simp_all add: obj_of_Cons split: option.splits)
  qed
  then show ?thesis by (simp add: obj_of_def)
qed

lemma is_obj_obj_of [simp]: "is_obj (obj_of fs)"
  by (simp add: obj_of_def)

lemma in_jkeys_obj_of: "k \<in> set (jkeys (obj_of fs)) \<longleftrightarrow> (\<exists>v. (k, Some v) \<in> set fs)"
proof (induction fs)
  case Nil
  then show ?case by (simp add: jkeys_def obj_of_def)
next
  case (Cons kv fs)
  then show ?case
    by (cases kv; cases "snd kv") (auto simp: jkeys_def obj_of_Cons)
qed

lemma has_key_obj_of [simp]:
  assumes "distinct (map fst fs)"
  shows "has_key (obj_of fs) k \<longleftrightarrow> (case map_of fs k of None \<Rightarrow> False | Some v \<Rightarrow> v \<noteq> None)"
proof -
  have "map_of fs k = Some (Some v) \<longleftrightarrow> (k, Some v) \<in> set fs" for v
    using assms by simp
  then show ?thesis
    by (auto simp: has_key_def in_jkeys_obj_of split: option.splits)
qed

lemma keys_within_obj_of [simp]:
  "keys_within (obj_of fs) ks \<longleftrightarrow> list_all (\<lambda>(k, v). v \<noteq> None \<longrightarrow> k \<in> set ks) fs"
  by (fastforce simp: keys_within_def subset_iff in_jkeys_obj_of list_all_iff)

lemma distinct_jkeys_obj_of: "distinct (map fst fs) \<Longrightarrow> distinct (jkeys (obj_of fs))"
proof (induction fs)
  case Nil
  then show ?case by (simp add: jkeys_def obj_of_def)
next
  case (Cons kv fs)
  obtain k v where kv: "kv = (k, v)" by (cases kv)
  have "k \<notin> set (jkeys (obj_of fs))"
    using Cons.prems kv by (force simp: in_jkeys_obj_of)
  then show ?case
    using Cons kv by (cases v) (auto simp: jkeys_def obj_of_Cons)
qed

lemma unique_obj_of:
  "unique_json (obj_of fs) \<longleftrightarrow>
     distinct (jkeys (obj_of fs)) \<and> list_all (\<lambda>(k, v). pred_option unique_json v) fs"
proof -
  have "unique_json (JObj kvs) \<longleftrightarrow> distinct (map fst kvs) \<and> list_all (\<lambda>kv. unique_json (snd kv)) kvs" for kvs
    by (simp add: list_all_iff)
  moreover have "list_all (\<lambda>kv. unique_json (snd kv)) (obj_pairs (obj_of fs))
      \<longleftrightarrow> list_all (\<lambda>(k, v). pred_option unique_json v) fs"
    by (induction fs) (auto simp: obj_of_Cons obj_of_def split: option.splits)
  ultimately show ?thesis
    by (simp add: jkeys_def) (simp add: obj_of_def)
qed

lemma dec_enc_dict [simp]: "(\<And>v. g (f v) = v) \<Longrightarrow> dec_dict g (enc_dict f d) = d"
  by (induction d) (auto simp: dec_dict_def enc_dict_def)

lemma dec_enc_list [simp]: "(\<And>v. g (f v) = v) \<Longrightarrow> dec_list g (enc_list f xs) = xs"
  by (induction xs) (auto simp: dec_list_def enc_list_def)

lemma is_obj_enc_dict [simp]: "is_obj (enc_dict f d)"
  by (simp add: enc_dict_def)

lemma is_list_enc_list [simp]: "is_list (enc_list f xs)"
  by (simp add: enc_list_def)

lemma list_items_enc_list [simp]: "list_items (enc_list f xs) = map f xs"
  by (simp add: enc_list_def)

lemma obj_pairs_enc_dict [simp]: "obj_pairs (enc_dict f d) = dict_map f d"
  by (simp add: enc_dict_def dict_map_def)

lemma jget_enc_dict [simp]: "jget (enc_dict f d) k = map_option f (dict_get d k)"
  by (simp add: enc_dict_def flip: dict_get_map dict_map_def) (simp add: dict_get_def dict_map_def)

lemma jkeys_enc_dict [simp]: "jkeys (enc_dict f d) = dict_keys d"
  by (simp add: jkeys_def dict_keys_def dict_map_def case_prod_beta comp_def)

lemma unique_enc_dict [simp]:
  "unique_json (enc_dict f d) \<longleftrightarrow> is_dict d \<and> (\<forall>kv \<in> set d. unique_json (f (snd kv)))"
  by (auto simp: enc_dict_def is_dict_def dict_keys_def case_prod_beta comp_def)

lemma unique_enc_list [simp]: "unique_json (enc_list f xs) \<longleftrightarrow> (\<forall>x \<in> set xs. unique_json (f x))"
  by (simp add: enc_list_def)

section \<open>What a check says of the value read\<close>

lemma hex_string_value: "hex_string v n \<Longrightarrow> is_hex_text n (str_value v)"
  by (auto simp: hex_string_def split: json.splits)

lemma timestamp_value: "timestamp v \<Longrightarrow> 0 \<le> num_value v"
  by (auto simp: timestamp_def split: json.splits)

lemma int_within_value: "int_within v lo hi \<Longrightarrow> lo \<le> int_value v \<and> int_value v \<le> hi"
  by (auto simp: int_within_def split: json.splits)

lemma str_that_value: "str_that P v \<Longrightarrow> P (str_value v)"
  by (auto simp: str_that_def split: json.splits)

lemma str_among_value: "str_among v ss \<Longrightarrow> v = JStr (str_value v) \<and> str_value v \<in> set ss"
  by (auto simp: str_among_def split: json.splits)

lemma str_among_obtain:
  assumes "str_among v (map f xs)"
  obtains x where "v = JStr (f x)" and "x \<in> set xs"
  using assms by (auto simp: str_among_def split: json.splits)

lemma timestamp_int_value: "timestamp v \<Longrightarrow> is_int v \<Longrightarrow> 0 \<le> int_value v"
  by (auto simp: timestamp_def split: json.splits)

lemmas check_values = hex_string_value timestamp_value int_within_value str_that_value str_among_value
  timestamp_int_value

lemma length_dec_dict [simp]: "length (dec_dict g j) = length (jkeys j)"
  by (simp add: dec_dict_def jkeys_def)

lemma list_all_dec_dict:
  "list_all (\<lambda>(k, row). P k row) (obj_pairs j) \<Longrightarrow> (\<And>k row. P k row \<Longrightarrow> Q k (g row)) \<Longrightarrow>
   list_all (\<lambda>(k, v). Q k v) (dec_dict g j)"
  by (auto simp: list_all_iff dec_dict_def)

lemma list_all_dec_list:
  "list_all P (list_items j) \<Longrightarrow> (\<And>x. P x \<Longrightarrow> Q (g x)) \<Longrightarrow> list_all Q (dec_list g j)"
  by (auto simp: list_all_iff dec_list_def)

lemma length_dec_list [simp]: "length (dec_list g j) = length (list_items j)"
  by (simp add: dec_list_def)

lemma dict_get_dec_dict [simp]: "dict_get (dec_dict g j) k = map_option g (jget j k)"
proof -
  have "map_of (map (\<lambda>(k, v). (k, g v)) kvs) k = map_option g (map_of kvs k)" for kvs
    by (induction kvs) auto
  then show ?thesis by (cases j) (simp_all add: dict_get_def dec_dict_def)
qed

lemma is_dict_dec_dict: "unique_json j \<Longrightarrow> is_dict (dec_dict g j)"
  by (cases j) (auto simp: is_dict_def dict_keys_def dec_dict_def case_prod_beta comp_def)

lemma unique_jat: "unique_json j \<Longrightarrow> unique_json (jat j k)"
  by (cases j) (auto simp: jat_def split: option.splits dest!: map_of_SomeD)

lemma has_key_jget: "has_key j k \<longleftrightarrow> jget j k \<noteq> None"
  by (cases j) (auto simp: has_key_def jkeys_def map_of_eq_None_iff)

lemma jget_jat: "jget j k = Some v \<Longrightarrow> jat j k = v"
  by (simp add: jat_def)

lemma keys_within_has_key: "keys_within j ks \<Longrightarrow> k \<notin> set ks \<Longrightarrow> jget j k = None"
  using has_key_jget [of j k] by (auto simp: keys_within_def has_key_def)

end
