(* ===== verification/Owner_Schema.thy ===== *)
theory Owner_Schema
  imports Json_Value
begin

text \<open>
  The owner namespace of the credential snapshot: the state \<open>auth/owner.py\<close> keeps, how it is
  written as JSON, and \<open>auth/store.py: validate_owner_state\<close>, which every load and every write
  goes through. The empty dictionary (before the first \<open>initialize\<close>) is \<^const>\<open>None\<close>; a
  key that is absent from the dictionary is a field that is \<^const>\<open>None\<close>.
\<close>

section \<open>State\<close>

datatype owner_mode = Unclaimed | Recovery | Generated | Environment

record owner_pending =
  op_verifier :: string
  op_ack :: string
  op_expires :: time

record owner_sessions =
  os_origin :: string
  os_entries :: "(string, time) dict"

record owner_state =
  ow_mode :: owner_mode
  ow_generation :: string
  ow_verifier :: "string option"
  ow_claim :: "string option"
  ow_claim_expires :: "time option"
  ow_claim_attempts :: "int option"
  ow_pending :: "owner_pending option"
  ow_attempts :: "time list option"
  ow_sessions :: "owner_sessions option"

definition mode_name :: "owner_mode \<Rightarrow> string" where
  "mode_name m = (case m of Unclaimed \<Rightarrow> ''unclaimed'' | Recovery \<Rightarrow> ''recovery''
     | Generated \<Rightarrow> ''generated'' | Environment \<Rightarrow> ''environment'')"

definition mode_of_name :: "string \<Rightarrow> owner_mode" where
  "mode_of_name s = (if s = ''generated'' then Generated else if s = ''environment'' then Environment
     else if s = ''recovery'' then Recovery else Unclaimed)"

definition is_active_mode :: "owner_mode \<Rightarrow> bool" where
  "is_active_mode m \<longleftrightarrow> m = Generated \<or> m = Environment"


section \<open>Validation of the persisted document\<close>

definition valid_owner_pending :: "json \<Rightarrow> bool" where
  "valid_owner_pending p \<longleftrightarrow> keys_are p [''verifier'', ''ack'', ''expires'']
     \<and> hex_string (jat p ''verifier'') 64 \<and> hex_string (jat p ''ack'') 64
     \<and> timestamp (jat p ''expires'')"

definition valid_owner_sessions :: "bool \<Rightarrow> json \<Rightarrow> bool" where
  "valid_owner_sessions active s \<longleftrightarrow>
     keys_are s [''origin'', ''entries''] \<and> hex_string (jat s ''origin'') 64
     \<and> is_obj (jat s ''entries'')
     \<and> length (jkeys (jat s ''entries'')) \<le> 100
     \<and> (active \<or> jkeys (jat s ''entries'') = [])
     \<and> list_all (\<lambda>(k, row). is_hex_text 64 k \<and> keys_are row [''expires''] \<and> timestamp (jat row ''expires''))
          (obj_pairs (jat s ''entries''))"

definition validate_owner_state :: "json \<Rightarrow> bool" where
  "validate_owner_state state \<longleftrightarrow> state = JObj [] \<or>
     (is_obj state
      \<and> list_all (has_key state) [''version'', ''mode'', ''generation'']
      \<and> keys_within state [''version'', ''mode'', ''generation'', ''verifier'', ''claim'',
           ''claim_expires'', ''claim_attempts'', ''pending'', ''attempts'', ''sessions'']
      \<and> jat state ''version'' = JInt 1
      \<and> str_among (jat state ''mode'') [''unclaimed'', ''recovery'', ''generated'', ''environment'']
      \<and> hex_string (jat state ''generation'') 32
      \<and> (let active = str_among (jat state ''mode'') [''generated'', ''environment''] in
           (if active
            then hex_string (jat state ''verifier'') 64
                 \<and> keys_within state [''version'', ''mode'', ''generation'', ''verifier'', ''attempts'', ''sessions'']
            else \<not> has_key state ''verifier'')
           \<and> (has_key state ''claim'' \<longrightarrow>
                hex_string (jat state ''claim'') 64 \<and> \<not> has_key state ''pending''
                \<and> has_key state ''claim_expires'' \<and> has_key state ''claim_attempts'')
           \<and> (has_key state ''claim_expires'' \<longrightarrow> timestamp (jat state ''claim_expires''))
           \<and> (has_key state ''claim_attempts'' \<longrightarrow> int_within (jat state ''claim_attempts'') 0 5)
           \<and> (has_key state ''pending'' \<longrightarrow> valid_owner_pending (jat state ''pending''))
           \<and> (has_key state ''sessions'' \<longrightarrow> valid_owner_sessions active (jat state ''sessions''))
           \<and> (has_key state ''attempts'' \<longrightarrow>
                is_list (jat state ''attempts'') \<and> length (list_items (jat state ''attempts'')) \<le> 10
                \<and> list_all timestamp (list_items (jat state ''attempts'')))))"


section \<open>The JSON form of a typed state\<close>

definition enc_owner_pending :: "owner_pending \<Rightarrow> json" where
  "enc_owner_pending p = JObj [(''verifier'', JStr (op_verifier p)), (''ack'', JStr (op_ack p)),
     (''expires'', JFloat (op_expires p))]"

definition enc_owner_sessions :: "owner_sessions \<Rightarrow> json" where
  "enc_owner_sessions s = JObj [(''origin'', JStr (os_origin s)),
     (''entries'', enc_dict (\<lambda>t. JObj [(''expires'', JFloat t)]) (os_entries s))]"

definition enc_owner :: "owner_state option \<Rightarrow> json" where
  "enc_owner st = (case st of None \<Rightarrow> JObj [] | Some s \<Rightarrow>
     obj_of [(''version'', Some (JInt 1)), (''mode'', Some (JStr (mode_name (ow_mode s)))),
       (''generation'', Some (JStr (ow_generation s))),
       (''verifier'', map_option JStr (ow_verifier s)),
       (''claim'', map_option JStr (ow_claim s)),
       (''claim_expires'', map_option JFloat (ow_claim_expires s)),
       (''claim_attempts'', map_option JInt (ow_claim_attempts s)),
       (''pending'', map_option enc_owner_pending (ow_pending s)),
       (''attempts'', map_option (enc_list JFloat) (ow_attempts s)),
       (''sessions'', map_option enc_owner_sessions (ow_sessions s))])"

definition dec_owner_pending :: "json \<Rightarrow> owner_pending" where
  "dec_owner_pending j = \<lparr>op_verifier = str_value (jat j ''verifier''), op_ack = str_value (jat j ''ack''),
     op_expires = num_value (jat j ''expires'')\<rparr>"

definition dec_owner_sessions :: "json \<Rightarrow> owner_sessions" where
  "dec_owner_sessions j = \<lparr>os_origin = str_value (jat j ''origin''),
     os_entries = dec_dict (\<lambda>r. num_value (jat r ''expires'')) (jat j ''entries'')\<rparr>"

definition dec_owner :: "json \<Rightarrow> owner_state option" where
  "dec_owner j = (if j = JObj [] then None else Some
     \<lparr>ow_mode = mode_of_name (str_value (jat j ''mode'')),
      ow_generation = str_value (jat j ''generation''),
      ow_verifier = map_option str_value (jget j ''verifier''),
      ow_claim = map_option str_value (jget j ''claim''),
      ow_claim_expires = map_option num_value (jget j ''claim_expires''),
      ow_claim_attempts = map_option int_value (jget j ''claim_attempts''),
      ow_pending = map_option dec_owner_pending (jget j ''pending''),
      ow_attempts = map_option (dec_list num_value) (jget j ''attempts''),
      ow_sessions = map_option dec_owner_sessions (jget j ''sessions'')\<rparr>)"

text \<open>What the validator demands, said of the typed state.\<close>

definition ok_owner_pending :: "owner_pending \<Rightarrow> bool" where
  "ok_owner_pending p \<longleftrightarrow> is_hex_text 64 (op_verifier p) \<and> is_hex_text 64 (op_ack p) \<and> 0 \<le> op_expires p"

definition ok_owner_sessions :: "bool \<Rightarrow> owner_sessions \<Rightarrow> bool" where
  "ok_owner_sessions active s \<longleftrightarrow> is_hex_text 64 (os_origin s) \<and> length (os_entries s) \<le> 100
     \<and> (active \<or> os_entries s = []) \<and> list_all (\<lambda>(k, t). is_hex_text 64 k \<and> 0 \<le> t) (os_entries s)"

definition ok_owner :: "owner_state option \<Rightarrow> bool" where
  "ok_owner st = (case st of None \<Rightarrow> True | Some s \<Rightarrow>
     is_hex_text 32 (ow_generation s)
     \<and> (if is_active_mode (ow_mode s)
        then (case ow_verifier s of None \<Rightarrow> False | Some v \<Rightarrow> is_hex_text 64 v)
             \<and> ow_claim s = None \<and> ow_claim_expires s = None \<and> ow_claim_attempts s = None
             \<and> ow_pending s = None
        else ow_verifier s = None)
     \<and> (case ow_claim s of None \<Rightarrow> True | Some c \<Rightarrow>
          is_hex_text 64 c \<and> ow_pending s = None \<and> ow_claim_expires s \<noteq> None \<and> ow_claim_attempts s \<noteq> None)
     \<and> pred_option (\<lambda>t. 0 \<le> t) (ow_claim_expires s)
     \<and> pred_option (\<lambda>n. 0 \<le> n \<and> n \<le> 5) (ow_claim_attempts s)
     \<and> pred_option ok_owner_pending (ow_pending s)
     \<and> pred_option (ok_owner_sessions (is_active_mode (ow_mode s))) (ow_sessions s)
     \<and> pred_option (\<lambda>ts. length ts \<le> 10 \<and> list_all (\<lambda>t. 0 \<le> t) ts) (ow_attempts s))"


section \<open>The two forms agree\<close>

lemma mode_of_mode_name [simp]: "mode_of_name (mode_name m) = m"
  by (cases m) (simp_all add: mode_of_name_def mode_name_def)

lemma dec_enc_owner_pending [simp]: "dec_owner_pending (enc_owner_pending p) = p"
  by (simp add: dec_owner_pending_def enc_owner_pending_def jat_def)

lemma dec_enc_owner_sessions [simp]: "dec_owner_sessions (enc_owner_sessions s) = s"
  by (simp add: dec_owner_sessions_def enc_owner_sessions_def jat_def)

lemma enc_owner_Some_nonempty [simp]: "enc_owner (Some s) \<noteq> JObj []"
proof
  assume "enc_owner (Some s) = JObj []"
  then have "jget (enc_owner (Some s)) ''version'' = None" by simp
  then show False by (simp add: enc_owner_def)
qed

lemma dec_enc_owner [simp]: "dec_owner (enc_owner st) = st"
proof (cases st)
  case None
  then show ?thesis by (simp add: enc_owner_def dec_owner_def)
next
  case (Some s)
  have "enc_owner st \<noteq> JObj []" using Some by simp
  then show ?thesis
    using Some
    by (simp add: dec_owner_def) (simp add: enc_owner_def jat_def option.map_comp comp_def option.map_ident)
qed

lemma valid_enc_owner_pending [simp]: "valid_owner_pending (enc_owner_pending p) = ok_owner_pending p"
  by (auto simp: valid_owner_pending_def enc_owner_pending_def ok_owner_pending_def keys_are_def jkeys_def jat_def)

lemma valid_enc_owner_sessions [simp]:
  "valid_owner_sessions active (enc_owner_sessions s) = ok_owner_sessions active s"
  by (auto simp: valid_owner_sessions_def enc_owner_sessions_def ok_owner_sessions_def keys_are_def
      jkeys_def jat_def enc_dict_def list_all_iff case_prod_beta)

lemma active_mode_name:
  "mode_name m \<in> set [''generated'', ''environment''] \<longleftrightarrow> is_active_mode m"
  "mode_name m \<in> set [''unclaimed'', ''recovery'', ''generated'', ''environment'']"
  by (cases m; simp add: mode_name_def is_active_mode_def)+

lemma validate_enc_owner [simp]: "validate_owner_state (enc_owner st) = ok_owner st"
proof (cases st)
  case None
  then show ?thesis by (simp add: validate_owner_state_def enc_owner_def ok_owner_def)
next
  case (Some s)
  let ?j = "enc_owner (Some s)"
  have keys: "list_all (has_key ?j) [''version'', ''mode'', ''generation'']"
    by (simp add: enc_owner_def)
  have within: "keys_within ?j [''version'', ''mode'', ''generation'', ''verifier'', ''claim'',
           ''claim_expires'', ''claim_attempts'', ''pending'', ''attempts'', ''sessions'']"
    by (simp add: enc_owner_def)
  have active: "str_among (jat ?j ''mode'') [''generated'', ''environment''] = is_active_mode (ow_mode s)"
    using active_mode_name(1) [of "ow_mode s"] by (simp add: enc_owner_def jat_def)
  have mode: "str_among (jat ?j ''mode'') [''unclaimed'', ''recovery'', ''generated'', ''environment'']"
    using active_mode_name(2) [of "ow_mode s"] by (simp add: enc_owner_def jat_def)
  have fields: "jat ?j ''version'' = JInt 1" "hex_string (jat ?j ''generation'') 32 = is_hex_text 32 (ow_generation s)"
    "is_obj ?j"
    by (simp_all add: enc_owner_def jat_def)
  have act_keys: "keys_within ?j [''version'', ''mode'', ''generation'', ''verifier'', ''attempts'', ''sessions'']
      \<longleftrightarrow> ow_claim s = None \<and> ow_claim_expires s = None \<and> ow_claim_attempts s = None \<and> ow_pending s = None"
    by (auto simp: enc_owner_def)
  have ver: "hex_string (jat ?j ''verifier'') 64 = (case ow_verifier s of None \<Rightarrow> False | Some v \<Rightarrow> is_hex_text 64 v)"
    "has_key ?j ''verifier'' \<longleftrightarrow> ow_verifier s \<noteq> None"
    by (auto simp: enc_owner_def jat_def hex_string_def split: option.splits)
  have claim: "(has_key ?j ''claim'' \<longrightarrow>
                hex_string (jat ?j ''claim'') 64 \<and> \<not> has_key ?j ''pending''
                \<and> has_key ?j ''claim_expires'' \<and> has_key ?j ''claim_attempts'')
      \<longleftrightarrow> (case ow_claim s of None \<Rightarrow> True | Some c \<Rightarrow>
          is_hex_text 64 c \<and> ow_pending s = None \<and> ow_claim_expires s \<noteq> None \<and> ow_claim_attempts s \<noteq> None)"
    by (cases "ow_claim s") (simp_all add: enc_owner_def jat_def)
  have rest: "(has_key ?j ''claim_expires'' \<longrightarrow> timestamp (jat ?j ''claim_expires'')) = pred_option (\<lambda>t. 0 \<le> t) (ow_claim_expires s)"
    "(has_key ?j ''claim_attempts'' \<longrightarrow> int_within (jat ?j ''claim_attempts'') 0 5) = pred_option (\<lambda>n. 0 \<le> n \<and> n \<le> 5) (ow_claim_attempts s)"
    "(has_key ?j ''pending'' \<longrightarrow> valid_owner_pending (jat ?j ''pending'')) = pred_option ok_owner_pending (ow_pending s)"
    "(has_key ?j ''sessions'' \<longrightarrow> valid_owner_sessions a (jat ?j ''sessions'')) = pred_option (ok_owner_sessions a) (ow_sessions s)"
    "(has_key ?j ''attempts'' \<longrightarrow> is_list (jat ?j ''attempts'') \<and> length (list_items (jat ?j ''attempts'')) \<le> 10
        \<and> list_all timestamp (list_items (jat ?j ''attempts''))) = pred_option (\<lambda>ts. length ts \<le> 10 \<and> list_all (\<lambda>t. 0 \<le> t) ts) (ow_attempts s)"
    for a
        apply (cases "ow_claim_expires s"; simp add: enc_owner_def jat_def)
       apply (cases "ow_claim_attempts s"; simp add: enc_owner_def jat_def)
      apply (cases "ow_pending s"; simp add: enc_owner_def jat_def)
     apply (cases "ow_sessions s"; simp add: enc_owner_def jat_def)
    apply (cases "ow_attempts s"; simp add: enc_owner_def jat_def list_all_iff)
    done
  show ?thesis
    unfolding Some validate_owner_state_def Let_def active act_keys ver claim rest ok_owner_def option.case
    using keys within mode fields by auto
qed

section \<open>Reading a validated document gives a valid state\<close>

lemma dec_owner_pending_ok: "valid_owner_pending j \<Longrightarrow> ok_owner_pending (dec_owner_pending j)"
  by (auto simp: valid_owner_pending_def ok_owner_pending_def dec_owner_pending_def check_values)

lemma dec_owner_sessions_ok: "valid_owner_sessions active j \<Longrightarrow> ok_owner_sessions active (dec_owner_sessions j)"
  by (auto simp: valid_owner_sessions_def ok_owner_sessions_def dec_owner_sessions_def check_values
      dec_dict_def jkeys_def list_all_iff)

lemma mode_of_name_active:
  "str_among v [''unclaimed'', ''recovery'', ''generated'', ''environment''] \<Longrightarrow>
   is_active_mode (mode_of_name (str_value v)) = str_among v [''generated'', ''environment'']"
  by (auto simp: str_among_def mode_of_name_def is_active_mode_def split: json.splits)

lemma dec_owner_ok:
  assumes v: "validate_owner_state j"
  shows "ok_owner (dec_owner j)"
proof (cases "j = JObj []")
  case True
  then show ?thesis by (simp add: dec_owner_def ok_owner_def)
next
  case False
  note v = v [unfolded validate_owner_state_def Let_def]
  let ?act = "str_among (jat j ''mode'') [''generated'', ''environment'']"
  have act: "is_active_mode (mode_of_name (str_value (jat j ''mode''))) = ?act"
    using v False by (intro mode_of_name_active) simp
  have gen: "is_hex_text 32 (str_value (jat j ''generation''))"
    using v False by (simp add: check_values)
  have opt: "(has_key j k \<longrightarrow> P (jat j k)) \<Longrightarrow> pred_option P (jget j k)" for k P
    by (cases "jget j k") (simp_all add: has_key_jget jget_jat)
  have map: "pred_option P (jget j k) \<Longrightarrow> (\<And>x. P x \<Longrightarrow> Q (g x)) \<Longrightarrow> pred_option Q (map_option g (jget j k))" for k P and Q :: "'a \<Rightarrow> bool" and g
    by (cases "jget j k") auto
  have fields: "pred_option timestamp (jget j ''claim_expires'')"
    "pred_option (\<lambda>v. int_within v 0 5) (jget j ''claim_attempts'')"
    "pred_option valid_owner_pending (jget j ''pending'')"
    "pred_option (valid_owner_sessions ?act) (jget j ''sessions'')"
    "pred_option (\<lambda>v. is_list v \<and> length (list_items v) \<le> 10 \<and> list_all timestamp (list_items v)) (jget j ''attempts'')"
    by (rule opt, use v False in simp)+
  have active: "case map_option str_value (jget j ''verifier'') of None \<Rightarrow> False | Some t \<Rightarrow> is_hex_text 64 t"
    "jget j ''claim'' = None" "jget j ''claim_expires'' = None" "jget j ''claim_attempts'' = None"
    "jget j ''pending'' = None" if ?act
  proof -
    have "hex_string (jat j ''verifier'') 64" and
      ks: "keys_within j [''version'', ''mode'', ''generation'', ''verifier'', ''attempts'', ''sessions'']"
      using v False that by simp_all
    then show "case map_option str_value (jget j ''verifier'') of None \<Rightarrow> False | Some t \<Rightarrow> is_hex_text 64 t"
      by (auto simp: jat_def hex_string_def split: option.splits json.splits)
    show "jget j ''claim'' = None" "jget j ''claim_expires'' = None" "jget j ''claim_attempts'' = None"
      "jget j ''pending'' = None"
      by (rule keys_within_has_key [OF ks]; simp)+
  qed
  have inactive: "jget j ''verifier'' = None" if "\<not> ?act"
    using v False that by (simp add: has_key_jget)
  have claim: "pred_option (\<lambda>c. hex_string c 64 \<and> jget j ''pending'' = None \<and> jget j ''claim_expires'' \<noteq> None
      \<and> jget j ''claim_attempts'' \<noteq> None) (jget j ''claim'')"
    by (rule opt, use v False in \<open>simp add: has_key_jget\<close>)
  have times: "list_all (\<lambda>t. 0 \<le> t) (dec_list num_value v)" if "list_all timestamp (list_items v)" for v
    using that by (rule list_all_dec_list) (rule timestamp_value)
  have typed: "pred_option (\<lambda>t. 0 \<le> t) (map_option num_value (jget j ''claim_expires''))"
    "pred_option (\<lambda>n. 0 \<le> n \<and> n \<le> 5) (map_option int_value (jget j ''claim_attempts''))"
    "pred_option ok_owner_pending (map_option dec_owner_pending (jget j ''pending''))"
    "pred_option (ok_owner_sessions ?act) (map_option dec_owner_sessions (jget j ''sessions''))"
    "pred_option (\<lambda>ts. length ts \<le> 10 \<and> list_all (\<lambda>t. 0 \<le> t) ts) (map_option (dec_list num_value) (jget j ''attempts''))"
        apply (rule map [OF fields(1)], erule timestamp_value)
       apply (rule map [OF fields(2)], erule int_within_value)
      apply (rule map [OF fields(3)], erule dec_owner_pending_ok)
     apply (rule map [OF fields(4)], erule dec_owner_sessions_ok)
    apply (rule map [OF fields(5)], simp add: times)
    done
  have verifier: "if ?act
      then (case map_option str_value (jget j ''verifier'') of None \<Rightarrow> False | Some t \<Rightarrow> is_hex_text 64 t)
        \<and> jget j ''claim'' = None \<and> jget j ''claim_expires'' = None \<and> jget j ''claim_attempts'' = None
        \<and> jget j ''pending'' = None
      else jget j ''verifier'' = None"
    using active inactive by simp
  have claimed: "case map_option str_value (jget j ''claim'') of None \<Rightarrow> True | Some c \<Rightarrow>
      is_hex_text 64 c \<and> jget j ''pending'' = None \<and> jget j ''claim_expires'' \<noteq> None
        \<and> jget j ''claim_attempts'' \<noteq> None"
    using claim by (cases "jget j ''claim''") (simp_all add: hex_string_value)
  from False have dec: "dec_owner j = Some (the (dec_owner j))" by (simp add: dec_owner_def)
  have sel: "ow_mode (the (dec_owner j)) = mode_of_name (str_value (jat j ''mode''))"
    "ow_generation (the (dec_owner j)) = str_value (jat j ''generation'')"
    "ow_verifier (the (dec_owner j)) = map_option str_value (jget j ''verifier'')"
    "ow_claim (the (dec_owner j)) = map_option str_value (jget j ''claim'')"
    "ow_claim_expires (the (dec_owner j)) = map_option num_value (jget j ''claim_expires'')"
    "ow_claim_attempts (the (dec_owner j)) = map_option int_value (jget j ''claim_attempts'')"
    "ow_pending (the (dec_owner j)) = map_option dec_owner_pending (jget j ''pending'')"
    "ow_attempts (the (dec_owner j)) = map_option (dec_list num_value) (jget j ''attempts'')"
    "ow_sessions (the (dec_owner j)) = map_option dec_owner_sessions (jget j ''sessions'')"
    using False by (simp_all add: dec_owner_def)
  have "ok_owner (Some (the (dec_owner j)))"
    unfolding ok_owner_def option.case sel act map_option_is_None
    using gen typed verifier claimed by (simp only: simp_thms if_True if_False split: if_split_asm if_split)
  then show ?thesis using dec by simp
qed

end
