(* ===== verification/Auth_Policy.thy ===== *)
theory Auth_Policy
  imports Json_Value
begin

text \<open>
  \<open>auth/policy.py\<close>: roles, operations, principals and the one function that decides what a
  principal may do. An operation that no grant lists is never allowed.
\<close>

datatype role = OWNER | INTEGRATION | DEVICE

datatype operation =
    DEVICES_LIST | DEVICE_CONFIG | SPEECH_CONFIG | ANNOUNCE | CONTROL | PLAYBACK
  | FIRMWARE_INITIATE | FIRMWARE_DELIVERY_MINT | FIRMWARE_READ | FIRMWARE_PUBLISH
  | AGENT_LIST | AGENT_CONFIG
  | CREDENTIAL_CREATE | CREDENTIAL_DISCLOSE | CREDENTIAL_ROTATE | CREDENTIAL_REVOKE
  | SERVER_MANAGE | OWNER_ADMIN | WEBHOOK_CONFIG | PAIR_INITIATE | PAIR_APPROVE
  | DEVICE_CONNECT | DEVICE_AUDIO | DEVICE_CONTROL | DEVICE_BUTTON | REALTIME_OFFER
  | AGENT_CONNECT | VOICE_RESPONSE

record principal =
  pr_role :: role
  pr_subject :: string
  pr_credential_id :: string
  pr_generation :: string

definition role_name :: "role \<Rightarrow> string" where
  "role_name r = (case r of OWNER \<Rightarrow> ''owner'' | INTEGRATION \<Rightarrow> ''integration'' | DEVICE \<Rightarrow> ''device'')"

text \<open>\<open>Role(value)\<close> raises \<open>ValueError\<close> for any other string.\<close>

definition role_of_name :: "string \<Rightarrow> role option" where
  "role_of_name s = (if s = ''owner'' then Some OWNER else if s = ''integration'' then Some INTEGRATION
     else if s = ''device'' then Some DEVICE else None)"

definition device_grants :: "operation list" where
  "device_grants = [DEVICE_CONNECT, DEVICE_AUDIO, DEVICE_CONTROL, DEVICE_BUTTON, REALTIME_OFFER]"

definition integration_grants :: "operation list" where
  "integration_grants = [DEVICES_LIST, ANNOUNCE, CONTROL, PLAYBACK, FIRMWARE_INITIATE,
     FIRMWARE_DELIVERY_MINT, PAIR_INITIATE, PAIR_APPROVE, AGENT_CONNECT, VOICE_RESPONSE]"

definition owner_grants :: "operation list" where
  "owner_grants = [DEVICES_LIST, DEVICE_CONFIG, SPEECH_CONFIG, ANNOUNCE, CONTROL, PLAYBACK,
     FIRMWARE_INITIATE, FIRMWARE_READ, FIRMWARE_DELIVERY_MINT, FIRMWARE_PUBLISH, AGENT_LIST,
     AGENT_CONFIG, CREDENTIAL_CREATE, CREDENTIAL_DISCLOSE, CREDENTIAL_ROTATE, CREDENTIAL_REVOKE,
     SERVER_MANAGE, OWNER_ADMIN, WEBHOOK_CONFIG, PAIR_INITIATE, PAIR_APPROVE]"

definition unshipped :: "operation list" where
  "unshipped = [PLAYBACK, FIRMWARE_PUBLISH, SERVER_MANAGE, OWNER_ADMIN, CREDENTIAL_CREATE,
     CREDENTIAL_DISCLOSE, CREDENTIAL_ROTATE, CREDENTIAL_REVOKE]"

text \<open>
  \<open>allowed(principal, operation, resource=..., physical_verified=...)\<close>. A missing or unknown
  operation is \<^const>\<open>None\<close>, and so is a resource that is absent or no string.
\<close>

definition allowed :: "principal option \<Rightarrow> operation option \<Rightarrow> string option \<Rightarrow> bool \<Rightarrow> bool" where
  "allowed p oper res physical_verified =
     (case (p, oper) of
        (Some pr, Some opn) \<Rightarrow>
          if pr_role pr = DEVICE
          then opn = FIRMWARE_READ
               \<or> (opn \<in> set device_grants
                   \<and> (case res of None \<Rightarrow> False | Some r \<Rightarrow> r \<noteq> [] \<and> r = pr_subject pr))
          else
            (let grants = (if pr_role pr = OWNER then owner_grants
                           else if pr_role pr = INTEGRATION then integration_grants else [])
             in opn \<in> set grants \<and> (opn \<notin> {PAIR_INITIATE, PAIR_APPROVE} \<or> physical_verified))
      | _ \<Rightarrow> False)"

definition http_operations :: "(string, operation) dict" where
  "http_operations =
    [(''list_devices'', DEVICES_LIST), (''update_device'', DEVICE_CONFIG), (''announce'', ANNOUNCE),
     (''device_command'', CONTROL), (''list_agents'', AGENT_LIST), (''create_agent'', CREDENTIAL_CREATE),
     (''delete_agent'', CREDENTIAL_REVOKE), (''activate_agent'', AGENT_CONFIG),
     (''rotate_token'', CREDENTIAL_ROTATE), (''list_webhooks'', WEBHOOK_CONFIG),
     (''get_webhook_configuration'', WEBHOOK_CONFIG), (''create_webhook'', WEBHOOK_CONFIG),
     (''update_webhook'', WEBHOOK_CONFIG), (''delete_webhook'', WEBHOOK_CONFIG),
     (''duplicate_webhook'', WEBHOOK_CONFIG), (''mint_firmware_delivery'', FIRMWARE_DELIVERY_MINT),
     (''serve_firmware'', FIRMWARE_READ)]"

definition ws_operations :: "(string, operation) dict" where
  "ws_operations =
    [(''hello'', DEVICE_CONNECT), (''voice.start'', DEVICE_AUDIO), (''voice.end'', DEVICE_AUDIO),
     (''abort'', DEVICE_CONTROL), (''realtime.start'', DEVICE_AUDIO),
     (''realtime.media_ready'', DEVICE_CONTROL), (''realtime.pause'', DEVICE_CONTROL),
     (''realtime.resume'', DEVICE_CONTROL), (''realtime.stop'', DEVICE_CONTROL),
     (''device.button'', DEVICE_BUTTON)]"

lemma role_of_role_name [simp]: "role_of_name (role_name r) = Some r"
  by (cases r) (simp_all add: role_of_name_def role_name_def)

lemma role_name_of [simp]: "role_of_name s = Some r \<Longrightarrow> role_name r = s"
  by (auto simp: role_of_name_def role_name_def split: if_splits)

lemma role_name_inj [simp]: "role_name r = role_name r' \<longleftrightarrow> r = r'"
  by (metis role_of_role_name option.inject)

lemma allowed_None [simp]: "\<not> allowed None oper res pv" "\<not> allowed p None res pv"
  by (simp_all add: allowed_def split: option.splits)

lemma allowed_device:
  "pr_role p = DEVICE \<Longrightarrow>
   allowed (Some p) (Some oper) res pv \<longleftrightarrow>
     oper = FIRMWARE_READ \<or> (oper \<in> set device_grants \<and> res = Some (pr_subject p) \<and> pr_subject p \<noteq> [])"
  by (auto simp: allowed_def split: option.splits)

lemma allowed_owner:
  "pr_role p = OWNER \<Longrightarrow>
   allowed (Some p) (Some oper) res pv \<longleftrightarrow>
     oper \<in> set owner_grants \<and> (oper \<in> {PAIR_INITIATE, PAIR_APPROVE} \<longrightarrow> pv)"
  by (auto simp: allowed_def Let_def)

lemma allowed_integration:
  "pr_role p = INTEGRATION \<Longrightarrow>
   allowed (Some p) (Some oper) res pv \<longleftrightarrow>
     oper \<in> set integration_grants \<and> (oper \<in> {PAIR_INITIATE, PAIR_APPROVE} \<longrightarrow> pv)"
  by (auto simp: allowed_def Let_def)

lemma ws_operation_is_device_grant:
  "dict_get ws_operations t = Some oper \<Longrightarrow> oper \<in> set device_grants"
  by (auto simp: dict_get_def ws_operations_def device_grants_def split: if_splits)

lemma device_grants_exclusive:
  "oper \<in> set device_grants \<Longrightarrow> oper \<notin> set owner_grants \<and> oper \<notin> set integration_grants"
  by (auto simp: device_grants_def owner_grants_def integration_grants_def)

lemma role_cases: "pr_role p = OWNER \<or> pr_role p = INTEGRATION \<or> pr_role p = DEVICE"
  by (cases "pr_role p") auto

section \<open>The authority as its clients see it\<close>

text \<open>
  The server asks two things of the credential store: whom a token stands for, and whether a principal it
  met before still stands. A token is never resolved to a principal that does not stand.
\<close>

locale credential_authority =
  fixes resolve :: "'w \<Rightarrow> 't \<Rightarrow> principal option"
    and stands :: "'w \<Rightarrow> principal option \<Rightarrow> bool"
  assumes resolved_stands: "resolve w t = Some p \<Longrightarrow> stands w (Some p)"
    and nobody_stands_not: "\<not> stands w None"
begin

lemma stands_somebody: "stands w p \<Longrightarrow> \<exists>q. p = Some q"
  using nobody_stands_not by (cases p) auto

text \<open>A client that holds a principal that fell cannot go on by presenting another token.\<close>

lemma fallen_stays_out:
  assumes "\<not> stands w held"
  shows "\<not> (stands w (if presented then resolve w t else held) \<and> (held = None \<or> (if presented then resolve w t else held) = held)) \<or> held = None"
  using assms nobody_stands_not by auto

lemma not_standing_is_nobody: "\<not> stands w (resolve w t) \<Longrightarrow> resolve w t = None"
  using resolved_stands by (cases "resolve w t") auto

end

end
