(* ===== verification/Enrollment_Schema.thy ===== *)
theory Enrollment_Schema
  imports Auth_Policy
begin

text \<open>
  \<open>provisioning/enrollment_schema.py\<close>: the enrollment namespace of the credential snapshot, its
  JSON form and its validator. The status \<open>expired\<close> is only ever computed from the clock
  (\<open>Enrollment._status\<close>); the validator refuses it in a stored row.
\<close>

datatype device_kind = Physical | Browser

datatype enr_status =
    Challenge | Ready | Initiated | Approved | Consumed | Denied | Cancelled | Failed | Stale | Expired

record enr_row =
  er_request_id :: string
  er_server_id :: string
  er_origin :: string
  er_kind :: device_kind
  er_public_key :: string
  er_device_id :: string
  er_nonce :: string
  er_expires_at :: int
  er_owner_generation :: string
  er_display_name :: string
  er_state :: enr_status
  er_attempts :: int
  er_code_hash :: string
  er_initiator :: "principal option"
  er_approver :: "principal option"

record enr_state =
  es_server_id :: string
  es_requests :: "(string, enr_row) dict"
  es_attempts :: "time list"

definition MAX_REQUESTS :: nat where "MAX_REQUESTS = 64"
definition ENROLLMENT_TTL :: int where "ENROLLMENT_TTL = 300"

definition kind_name :: "device_kind \<Rightarrow> string" where
  "kind_name k = (case k of Physical \<Rightarrow> ''physical'' | Browser \<Rightarrow> ''browser'')"

definition kind_of_name :: "string \<Rightarrow> device_kind" where
  "kind_of_name s = (if s = ''browser'' then Browser else Physical)"

definition status_table :: "(enr_status \<times> string) list" where
  "status_table = [(Challenge, ''challenge''), (Ready, ''ready''), (Initiated, ''initiated''),
     (Approved, ''approved''), (Consumed, ''consumed''), (Denied, ''denied''),
     (Cancelled, ''cancelled''), (Failed, ''failed''), (Stale, ''stale''), (Expired, ''expired'')]"

definition status_name :: "enr_status \<Rightarrow> string" where
  "status_name s = the (map_of status_table s)"

definition status_of_name :: "string \<Rightarrow> enr_status" where
  "status_of_name t = (case map_of (map prod.swap status_table) t of None \<Rightarrow> Expired | Some s \<Rightarrow> s)"

text \<open>\<open>STATES\<close> of the schema: every status but \<open>expired\<close>.\<close>

definition stored_statuses :: "enr_status list" where
  "stored_statuses = [Challenge, Ready, Initiated, Approved, Consumed, Denied, Cancelled, Failed, Stale]"

text \<open>\<open>enrollment.TERMINAL\<close>\<close>

definition enr_terminal :: "enr_status \<Rightarrow> bool" where
  "enr_terminal s \<longleftrightarrow> s \<in> {Consumed, Denied, Cancelled, Failed, Expired, Stale}"

definition enr_display_char :: "char \<Rightarrow> bool" where
  "enr_display_char c \<longleftrightarrow> is_alnum c \<or> c \<in> set '' _.-''"

definition enr_display_name :: "string \<Rightarrow> bool" where
  "enr_display_name s \<longleftrightarrow> 1 \<le> length s \<and> length s \<le> 64 \<and> list_all enr_display_char s"

definition http_origin :: "string \<Rightarrow> bool" where
  "http_origin s \<longleftrightarrow> starts_with ''http://'' s \<or> starts_with ''https://'' s"


section \<open>The validator\<close>

definition valid_actor :: "bool \<Rightarrow> json \<Rightarrow> bool" where
  "valid_actor browser actor \<longleftrightarrow> actor = JNull \<or>
     (keys_are actor [''role'', ''subject'', ''credential_id'', ''credential_generation'']
      \<and> str_among (jat actor ''role'') [''owner'', ''integration'']
      \<and> list_all (\<lambda>(k, v). str_that (\<lambda>s. length s \<le> 128) v) (obj_pairs actor)
      \<and> (browser \<longrightarrow> jat actor ''role'' = JStr ''owner'')
      \<and> (if jat actor ''role'' = JStr ''owner''
         then jat actor ''subject'' = JStr ''owner'' \<and> jat actor ''credential_generation'' = JStr []
              \<and> hex_string (jat actor ''credential_id'') 32
         else hex_string (jat actor ''credential_generation'') 64))"

definition enr_row_keys :: "string list" where
  "enr_row_keys = [''version'', ''request_id'', ''server_id'', ''origin'', ''kind'', ''public_key'',
     ''device_id'', ''nonce'', ''expires_at'', ''owner_generation'', ''display_name'',
     ''state'', ''attempts'', ''code_hash'', ''initiator'', ''approver'']"

definition valid_enr_row :: "json \<Rightarrow> string \<Rightarrow> json \<Rightarrow> bool" where
  "valid_enr_row server_id key row \<longleftrightarrow>
     keys_are row enr_row_keys
     \<and> jat row ''request_id'' = JStr key \<and> is_hex_text 32 key
     \<and> jat row ''version'' = JInt 1
     \<and> jat row ''server_id'' = server_id
     \<and> str_that http_origin (jat row ''origin'')
     \<and> str_that (\<lambda>s. length s \<le> 256 \<and> is_ascii s) (jat row ''origin'')
     \<and> str_among (jat row ''kind'') [''physical'', ''browser'']
     \<and> hex_string (jat row ''public_key'') 64 \<and> hex_string (jat row ''nonce'') 64
     \<and> str_that is_ident (jat row ''device_id'')
     \<and> timestamp (jat row ''expires_at'') \<and> is_int (jat row ''expires_at'')
     \<and> hex_string (jat row ''owner_generation'') 32
     \<and> str_that enr_display_name (jat row ''display_name'')
     \<and> str_among (jat row ''state'') (map status_name stored_statuses)
     \<and> int_within (jat row ''attempts'') 0 5
     \<and> (jat row ''code_hash'' = JStr [] \<or> hex_string (jat row ''code_hash'') 64)
     \<and> (jat row ''state'' = JStr ''challenge'' \<or> hex_string (jat row ''code_hash'') 64)
     \<and> valid_actor (jat row ''kind'' = JStr ''browser'') (jat row ''initiator'')
     \<and> valid_actor (jat row ''kind'' = JStr ''browser'') (jat row ''approver'')
     \<and> (str_among (jat row ''state'') [''initiated'', ''approved'', ''consumed''] \<longrightarrow> jat row ''initiator'' \<noteq> JNull)
     \<and> (str_among (jat row ''state'') [''approved'', ''consumed''] \<longrightarrow> jat row ''approver'' \<noteq> JNull)"

definition validate_enrollment :: "json \<Rightarrow> bool" where
  "validate_enrollment state \<longleftrightarrow> state = JObj [] \<or>
     (keys_are state [''version'', ''server_id'', ''requests'', ''attempts'']
      \<and> jat state ''version'' = JInt 1
      \<and> hex_string (jat state ''server_id'') 32
      \<and> is_list (jat state ''attempts'') \<and> length (list_items (jat state ''attempts'')) \<le> 60
      \<and> list_all timestamp (list_items (jat state ''attempts''))
      \<and> is_obj (jat state ''requests'') \<and> length (jkeys (jat state ''requests'')) \<le> MAX_REQUESTS
      \<and> list_all (\<lambda>(k, row). valid_enr_row (jat state ''server_id'') k row) (obj_pairs (jat state ''requests'')))"


section \<open>The JSON form\<close>

text \<open>\<open>dataclasses.asdict(principal)\<close>\<close>

definition enc_actor :: "principal option \<Rightarrow> json" where
  "enc_actor a = (case a of None \<Rightarrow> JNull | Some p \<Rightarrow>
     JObj [(''role'', JStr (role_name (pr_role p))), (''subject'', JStr (pr_subject p)),
       (''credential_id'', JStr (pr_credential_id p)), (''credential_generation'', JStr (pr_generation p))])"

definition dec_actor :: "json \<Rightarrow> principal option" where
  "dec_actor j = (if j = JNull then None else Some
     \<lparr>pr_role = (case role_of_name (str_value (jat j ''role'')) of None \<Rightarrow> DEVICE | Some r \<Rightarrow> r),
      pr_subject = str_value (jat j ''subject''),
      pr_credential_id = str_value (jat j ''credential_id''),
      pr_generation = str_value (jat j ''credential_generation'')\<rparr>)"

definition enc_enr_row :: "enr_row \<Rightarrow> json" where
  "enc_enr_row r = JObj
    [(''version'', JInt 1), (''request_id'', JStr (er_request_id r)), (''server_id'', JStr (er_server_id r)),
     (''origin'', JStr (er_origin r)), (''kind'', JStr (kind_name (er_kind r))),
     (''public_key'', JStr (er_public_key r)), (''device_id'', JStr (er_device_id r)),
     (''nonce'', JStr (er_nonce r)), (''expires_at'', JInt (er_expires_at r)),
     (''owner_generation'', JStr (er_owner_generation r)), (''display_name'', JStr (er_display_name r)),
     (''state'', JStr (status_name (er_state r))), (''attempts'', JInt (er_attempts r)),
     (''code_hash'', JStr (er_code_hash r)), (''initiator'', enc_actor (er_initiator r)),
     (''approver'', enc_actor (er_approver r))]"

definition dec_enr_row :: "json \<Rightarrow> enr_row" where
  "dec_enr_row j =
    \<lparr>er_request_id = str_value (jat j ''request_id''), er_server_id = str_value (jat j ''server_id''),
     er_origin = str_value (jat j ''origin''), er_kind = kind_of_name (str_value (jat j ''kind'')),
     er_public_key = str_value (jat j ''public_key''), er_device_id = str_value (jat j ''device_id''),
     er_nonce = str_value (jat j ''nonce''), er_expires_at = int_value (jat j ''expires_at''),
     er_owner_generation = str_value (jat j ''owner_generation''),
     er_display_name = str_value (jat j ''display_name''),
     er_state = status_of_name (str_value (jat j ''state'')), er_attempts = int_value (jat j ''attempts''),
     er_code_hash = str_value (jat j ''code_hash''), er_initiator = dec_actor (jat j ''initiator''),
     er_approver = dec_actor (jat j ''approver'')\<rparr>"

definition enc_enrollment :: "enr_state option \<Rightarrow> json" where
  "enc_enrollment st = (case st of None \<Rightarrow> JObj [] | Some s \<Rightarrow>
     JObj [(''version'', JInt 1), (''server_id'', JStr (es_server_id s)),
       (''requests'', enc_dict enc_enr_row (es_requests s)), (''attempts'', enc_list JFloat (es_attempts s))])"

definition dec_enrollment :: "json \<Rightarrow> enr_state option" where
  "dec_enrollment j = (if j = JObj [] then None else Some
     \<lparr>es_server_id = str_value (jat j ''server_id''),
      es_requests = dec_dict dec_enr_row (jat j ''requests''),
      es_attempts = dec_list num_value (jat j ''attempts'')\<rparr>)"


section \<open>What the validator demands of typed state\<close>

definition ok_actor :: "device_kind \<Rightarrow> principal option \<Rightarrow> bool" where
  "ok_actor k a = (case a of None \<Rightarrow> True | Some p \<Rightarrow>
     length (pr_subject p) \<le> 128 \<and> length (pr_credential_id p) \<le> 128 \<and> length (pr_generation p) \<le> 128
     \<and> (case pr_role p of
          OWNER \<Rightarrow> pr_subject p = ''owner'' \<and> pr_generation p = [] \<and> is_hex_text 32 (pr_credential_id p)
        | INTEGRATION \<Rightarrow> k = Physical \<and> is_hex_text 64 (pr_generation p)
        | DEVICE \<Rightarrow> False))"

definition ok_enr_row :: "string \<Rightarrow> string \<Rightarrow> enr_row \<Rightarrow> bool" where
  "ok_enr_row server_id key r \<longleftrightarrow>
     er_request_id r = key \<and> is_hex_text 32 key \<and> er_server_id r = server_id
     \<and> http_origin (er_origin r) \<and> length (er_origin r) \<le> 256 \<and> is_ascii (er_origin r)
     \<and> is_hex_text 64 (er_public_key r) \<and> is_hex_text 64 (er_nonce r)
     \<and> is_ident (er_device_id r) \<and> 0 \<le> er_expires_at r \<and> is_hex_text 32 (er_owner_generation r)
     \<and> enr_display_name (er_display_name r) \<and> er_state r \<noteq> Expired
     \<and> 0 \<le> er_attempts r \<and> er_attempts r \<le> 5
     \<and> (er_code_hash r = [] \<or> is_hex_text 64 (er_code_hash r))
     \<and> (er_state r = Challenge \<or> is_hex_text 64 (er_code_hash r))
     \<and> ok_actor (er_kind r) (er_initiator r) \<and> ok_actor (er_kind r) (er_approver r)
     \<and> (er_state r \<in> {Initiated, Approved, Consumed} \<longrightarrow> er_initiator r \<noteq> None)
     \<and> (er_state r \<in> {Approved, Consumed} \<longrightarrow> er_approver r \<noteq> None)"

definition ok_enrollment :: "enr_state option \<Rightarrow> bool" where
  "ok_enrollment st = (case st of None \<Rightarrow> True | Some s \<Rightarrow>
     is_hex_text 32 (es_server_id s)
     \<and> length (es_attempts s) \<le> 60 \<and> list_all (\<lambda>t. 0 \<le> t) (es_attempts s)
     \<and> length (es_requests s) \<le> MAX_REQUESTS
     \<and> list_all (\<lambda>(k, r). ok_enr_row (es_server_id s) k r) (es_requests s))"


section \<open>The two forms agree\<close>

lemma status_of_status_name [simp]: "status_of_name (status_name s) = s"
  by (cases s) (simp_all add: status_of_name_def status_name_def status_table_def)

lemma status_name_inj [simp]: "status_name s = status_name t \<longleftrightarrow> s = t"
  by (metis status_of_status_name)

lemma kind_of_kind_name [simp]: "kind_of_name (kind_name k) = k"
  by (cases k) (simp_all add: kind_of_name_def kind_name_def)

lemma kind_name_simps [simp]:
  "kind_name k = ''browser'' \<longleftrightarrow> k = Browser"
  "kind_name k \<in> set [''physical'', ''browser'']"
  by (cases k; simp add: kind_name_def)+

lemma status_name_literals:
  "status_name s = ''challenge'' \<longleftrightarrow> s = Challenge"
  "status_name s \<in> set [''initiated'', ''approved'', ''consumed''] \<longleftrightarrow> s \<in> {Initiated, Approved, Consumed}"
  "status_name s \<in> set [''approved'', ''consumed''] \<longleftrightarrow> s \<in> {Approved, Consumed}"
  "status_name s \<in> set (map status_name stored_statuses) \<longleftrightarrow> s \<noteq> Expired"
  by (cases s; simp add: status_name_def status_table_def stored_statuses_def)+

lemma dec_enc_actor [simp]: "dec_actor (enc_actor a) = a"
  by (cases a) (simp_all add: enc_actor_def dec_actor_def jat_def)

lemma valid_enc_actor [simp]: "valid_actor (k = Browser) (enc_actor a) = ok_actor k a"
proof (cases a)
  case None
  then show ?thesis by (simp add: valid_actor_def enc_actor_def ok_actor_def)
next
  case (Some p)
  then show ?thesis
    by (cases "pr_role p"; cases k)
      (auto simp: valid_actor_def enc_actor_def ok_actor_def keys_are_def jkeys_def jat_def role_name_def)
qed

lemma enc_actor_null [simp]: "enc_actor a = JNull \<longleftrightarrow> a = None"
  by (cases a) (simp_all add: enc_actor_def)

lemma dec_enc_enr_row [simp]: "dec_enr_row (enc_enr_row r) = r"
  by (simp add: dec_enr_row_def enc_enr_row_def jat_def)

lemma dec_enc_enrollment [simp]: "dec_enrollment (enc_enrollment st) = st"
  by (cases st) (simp_all add: dec_enrollment_def enc_enrollment_def jat_def)

lemma enc_enr_row_fields:
  "jkeys (enc_enr_row r) = enr_row_keys" "is_obj (enc_enr_row r)"
  "jat (enc_enr_row r) ''version'' = JInt 1"
  "jat (enc_enr_row r) ''request_id'' = JStr (er_request_id r)"
  "jat (enc_enr_row r) ''server_id'' = JStr (er_server_id r)"
  "jat (enc_enr_row r) ''origin'' = JStr (er_origin r)"
  "jat (enc_enr_row r) ''kind'' = JStr (kind_name (er_kind r))"
  "jat (enc_enr_row r) ''public_key'' = JStr (er_public_key r)"
  "jat (enc_enr_row r) ''device_id'' = JStr (er_device_id r)"
  "jat (enc_enr_row r) ''nonce'' = JStr (er_nonce r)"
  "jat (enc_enr_row r) ''expires_at'' = JInt (er_expires_at r)"
  "jat (enc_enr_row r) ''owner_generation'' = JStr (er_owner_generation r)"
  "jat (enc_enr_row r) ''display_name'' = JStr (er_display_name r)"
  "jat (enc_enr_row r) ''state'' = JStr (status_name (er_state r))"
  "jat (enc_enr_row r) ''attempts'' = JInt (er_attempts r)"
  "jat (enc_enr_row r) ''code_hash'' = JStr (er_code_hash r)"
  "jat (enc_enr_row r) ''initiator'' = enc_actor (er_initiator r)"
  "jat (enc_enr_row r) ''approver'' = enc_actor (er_approver r)"
  by (simp_all add: enc_enr_row_def jat_def jkeys_def enr_row_keys_def)

lemma valid_enc_enr_row [simp]:
  "valid_enr_row (JStr sid) key (enc_enr_row r) = ok_enr_row sid key r"
  unfolding valid_enr_row_def ok_enr_row_def keys_are_def enc_enr_row_fields json.inject str_that_JStr
    str_among_JStr hex_string_JStr int_within_JInt timestamp_JInt is_int.simps kind_name_simps
    valid_enc_actor enc_actor_null status_name_literals
  by (simp only: simp_thms conj_assoc kind_name_simps enc_enr_row_fields)

lemma validate_enc_enrollment [simp]: "validate_enrollment (enc_enrollment st) = ok_enrollment st"
  by (cases st)
    (simp_all add: validate_enrollment_def enc_enrollment_def ok_enrollment_def keys_are_def jkeys_def
      jat_def list_all_iff dict_map_def enc_dict_def case_prod_beta)

section \<open>Reading a validated document gives a valid state\<close>

lemma dec_actor_ok:
  assumes "valid_actor b j" and "k = (if b then Browser else Physical)"
  shows "ok_actor k (dec_actor j)"
proof (cases "j = JNull")
  case True
  then show ?thesis by (simp add: ok_actor_def dec_actor_def)
next
  case False
  have len: "length (str_value (jat j key)) \<le> 128" for key
  proof (cases "jget j key")
    case None
    then show ?thesis by (simp add: jat_def)
  next
    case (Some v)
    then have "(key, v) \<in> set (obj_pairs j)" by (cases j) (auto dest: map_of_SomeD)
    then have "str_that (\<lambda>s. length s \<le> 128) v"
      using assms False by (auto simp: valid_actor_def list_all_iff)
    from str_that_value [OF this] show ?thesis using Some by (simp add: jget_jat)
  qed
  have role: "jat j ''role'' = JStr ''owner'' \<or> jat j ''role'' = JStr ''integration''"
    using assms False by (auto simp: valid_actor_def str_among_def split: json.splits)
  then show ?thesis
    using assms False len
    by (auto simp: valid_actor_def ok_actor_def dec_actor_def role_of_name_def check_values split: if_splits)
qed

lemma dec_enr_row_ok:
  assumes "valid_enr_row sid key row"
  shows "ok_enr_row (str_value sid) key (dec_enr_row row)"
proof -
  note conj = assms [unfolded valid_enr_row_def]
  have ki: "str_among (jat row ''kind'') [''physical'', ''browser'']" using conj by (elim conjE)
  have sta: "str_among (jat row ''state'') (map status_name stored_statuses)" using conj by (elim conjE)
  have "str_among (jat row ''kind'') (map kind_name [Physical, Browser])"
    using ki by (simp add: kind_name_def)
  then have kind: "kind_of_name (str_value (jat row ''kind'')) = (if jat row ''kind'' = JStr ''browser'' then Browser else Physical)"
    by (rule str_among_obtain) auto
  obtain s where s: "jat row ''state'' = JStr (status_name s)" "s \<noteq> Expired"
    using sta by (rule str_among_obtain) (auto simp: stored_statuses_def)
  have st: "status_of_name (str_value (jat row ''state'')) = s" by (simp add: s)
  have lit: "jat row ''state'' = JStr ''challenge'' \<longleftrightarrow> s = Challenge"
    "str_among (jat row ''state'') [''initiated'', ''approved'', ''consumed''] \<longleftrightarrow> s \<in> {Initiated, Approved, Consumed}"
    "str_among (jat row ''state'') [''approved'', ''consumed''] \<longleftrightarrow> s \<in> {Approved, Consumed}"
    using status_name_literals [of s] unfolding s by simp_all
  have act: "ok_actor (kind_of_name (str_value (jat row ''kind''))) (dec_actor (jat row ''initiator''))"
    "ok_actor (kind_of_name (str_value (jat row ''kind''))) (dec_actor (jat row ''approver''))"
    unfolding kind using assms by (auto simp: valid_enr_row_def intro!: dec_actor_ok)
  have null: "dec_actor (jat row a) = None \<longleftrightarrow> jat row a = JNull" for a
    by (simp add: dec_actor_def)
  have ids: "str_value (jat row ''request_id'') = key" "str_value (jat row ''server_id'') = str_value sid"
    using assms by (simp_all add: valid_enr_row_def)
  have v: "is_hex_text 32 key" "str_that http_origin (jat row ''origin'')"
    "str_that (\<lambda>s. length s \<le> 256 \<and> is_ascii s) (jat row ''origin'')"
    "hex_string (jat row ''public_key'') 64" "hex_string (jat row ''nonce'') 64"
    "str_that is_ident (jat row ''device_id'')" "timestamp (jat row ''expires_at'')"
    "is_int (jat row ''expires_at'')" "hex_string (jat row ''owner_generation'') 32"
    "str_that enr_display_name (jat row ''display_name'')" "int_within (jat row ''attempts'') 0 5"
    using assms by (simp_all add: valid_enr_row_def)
  note facts = v(1) str_that_value [OF v(2)] str_that_value [OF v(3)] hex_string_value [OF v(4)]
    hex_string_value [OF v(5)] str_that_value [OF v(6)] timestamp_int_value [OF v(7,8)]
    hex_string_value [OF v(9)] str_that_value [OF v(10)] int_within_value [OF v(11)]
  have ch: "jat row ''code_hash'' = JStr [] \<or> hex_string (jat row ''code_hash'') 64" using conj by (elim conjE)
  have chs: "jat row ''state'' = JStr ''challenge'' \<or> hex_string (jat row ''code_hash'') 64" using conj by (elim conjE)
  have code: "str_value (jat row ''code_hash'') = [] \<or> is_hex_text 64 (str_value (jat row ''code_hash''))"
    using ch by (auto dest: hex_string_value)
  have codes: "s = Challenge \<or> is_hex_text 64 (str_value (jat row ''code_hash''))"
    using chs unfolding lit by (auto dest: hex_string_value)
  have "str_among (jat row ''state'') [''initiated'', ''approved'', ''consumed''] \<longrightarrow> jat row ''initiator'' \<noteq> JNull"
    using conj by (elim conjE)
  moreover have "str_among (jat row ''state'') [''approved'', ''consumed''] \<longrightarrow> jat row ''approver'' \<noteq> JNull"
    using conj by (elim conjE)
  ultimately have actors: "s \<in> {Initiated, Approved, Consumed} \<longrightarrow> dec_actor (jat row ''initiator'') \<noteq> None"
    "s \<in> {Approved, Consumed} \<longrightarrow> dec_actor (jat row ''approver'') \<noteq> None"
    unfolding lit null by simp_all
  show ?thesis
    unfolding ok_enr_row_def dec_enr_row_def enr_row.simps st null ids
    using facts code codes actors act s(2) unfolding null by (elim conjE, intro conjI) (rule refl | assumption)+
qed

lemma dec_enrollment_ok: "validate_enrollment j \<Longrightarrow> ok_enrollment (dec_enrollment j)"
  by (auto simp: validate_enrollment_def ok_enrollment_def dec_enrollment_def check_values
      intro!: list_all_dec_list list_all_dec_dict dec_enr_row_ok)

end
