(* ===== verification/Lifecycle_Schema.thy ===== *)
theory Lifecycle_Schema
  imports Enrollment_Schema
begin

text \<open>
  \<open>provisioning/lifecycle_schema.py\<close>: rotation, revocation and recovery operations, the
  verifiers that are blocked for ever (tombstones), the key bindings of enrolled devices and the
  recoveries in progress; the validator of that namespace and the reserved-space bound
  \<open>has_capacity\<close>.
\<close>

definition LIMIT :: nat where "LIMIT = 1024"
definition OPERATION_LIMIT :: nat where "OPERATION_LIMIT = 3 * LIMIT"
definition TOMBSTONE_LIMIT :: nat where "TOMBSTONE_LIMIT = 65536"

datatype lc_action = Rotate | Revoke | Recover
datatype lc_status = Op_queued | Op_pending | Op_delivered | Op_acknowledged | Op_completed | Op_expired | Op_revoked

record lc_row =
  lr_operation_id :: string
  lr_role :: role
  lr_subject :: string
  lr_action :: lc_action
  lr_state :: lc_status
  lr_expires_at :: time
  lr_overlap_until :: time
  lr_credential_id :: string
  lr_old_ids :: "string list"
  lr_owner_generation :: string
  lr_origin :: string

record lc_binding =
  lb_public_key :: string
  lb_kind :: device_kind

record lc_recovery =
  rc_operation_id :: string
  rc_request_id :: string

record lc_state =
  ls_operations :: "(string, lc_row) dict"
  ls_blocked :: "string list"
  ls_bindings :: "(string, lc_binding) dict"
  ls_recovery :: "(string, lc_recovery) dict"

definition empty_lifecycle :: lc_state where
  "empty_lifecycle = \<lparr>ls_operations = [], ls_blocked = [], ls_bindings = [], ls_recovery = []\<rparr>"

definition action_name :: "lc_action \<Rightarrow> string" where
  "action_name a = (case a of Rotate \<Rightarrow> ''rotate'' | Revoke \<Rightarrow> ''revoke'' | Recover \<Rightarrow> ''recover'')"

definition action_of_name :: "string \<Rightarrow> lc_action" where
  "action_of_name s = (if s = ''rotate'' then Rotate else if s = ''revoke'' then Revoke else Recover)"

definition lc_status_name :: "lc_status \<Rightarrow> string" where
  "lc_status_name s = (case s of Op_queued \<Rightarrow> ''queued'' | Op_pending \<Rightarrow> ''pending''
     | Op_delivered \<Rightarrow> ''delivered'' | Op_acknowledged \<Rightarrow> ''acknowledged''
     | Op_completed \<Rightarrow> ''completed'' | Op_expired \<Rightarrow> ''expired'' | Op_revoked \<Rightarrow> ''revoked'')"

definition lc_statuses :: "lc_status list" where
  "lc_statuses = [Op_queued, Op_pending, Op_delivered, Op_acknowledged, Op_completed, Op_expired, Op_revoked]"

definition lc_status_of_name :: "string \<Rightarrow> lc_status" where
  "lc_status_of_name t = (case find (\<lambda>s. lc_status_name s = t) lc_statuses of None \<Rightarrow> Op_expired | Some s \<Rightarrow> s)"

text \<open>\<open>lifecycle_schema.TERMINAL\<close>\<close>

definition lc_terminal :: "lc_status \<Rightarrow> bool" where
  "lc_terminal s \<longleftrightarrow> s \<in> {Op_completed, Op_expired, Op_revoked}"


section \<open>The validator\<close>

definition lc_row_keys :: "string list" where
  "lc_row_keys = [''operation_id'', ''role'', ''subject'', ''action'', ''state'', ''expires_at'',
     ''overlap_until'', ''credential_id'', ''old_ids'', ''owner_generation'', ''origin'']"

definition valid_lc_row :: "string \<Rightarrow> json \<Rightarrow> bool" where
  "valid_lc_row key row \<longleftrightarrow>
     is_hex_text 32 key \<and> keys_are row lc_row_keys \<and> jat row ''operation_id'' = JStr key
     \<and> str_among (jat row ''state'') (map lc_status_name lc_statuses)
     \<and> str_among (jat row ''action'') [''rotate'', ''revoke'', ''recover'']
     \<and> str_among (jat row ''role'') [''device'', ''integration'']
     \<and> str_that (\<lambda>s. 1 \<le> length s \<and> length s \<le> 128) (jat row ''subject'')
     \<and> timestamp (jat row ''expires_at'') \<and> timestamp (jat row ''overlap_until'')
     \<and> is_str (jat row ''credential_id'')
     \<and> is_list (jat row ''old_ids'') \<and> length (list_items (jat row ''old_ids'')) \<le> LIMIT
     \<and> list_all (str_that is_ident) (list_items (jat row ''old_ids''))
     \<and> hex_string (jat row ''owner_generation'') 32 \<and> is_str (jat row ''origin'')
     \<and> \<not> num_value (jat row ''overlap_until'') > num_value (jat row ''expires_at'')
     \<and> (str_among (jat row ''state'') [''delivered'', ''acknowledged'', ''completed''] \<longrightarrow>
          hex_string (jat row ''credential_id'') 32)
     \<and> (jat row ''action'' = JStr ''revoke'' \<longrightarrow> jat row ''state'' = JStr ''revoked'')"

definition valid_binding :: "string \<Rightarrow> json \<Rightarrow> bool" where
  "valid_binding subject row \<longleftrightarrow> keys_are row [''public_key'', ''kind'']
     \<and> hex_string (jat row ''public_key'') 64 \<and> str_among (jat row ''kind'') [''physical'', ''browser'']
     \<and> is_ident subject"

definition valid_recovery :: "json \<Rightarrow> string \<Rightarrow> json \<Rightarrow> bool" where
  "valid_recovery state subject row \<longleftrightarrow>
     has_key (jat state ''bindings'') subject \<and> keys_are row [''operation_id'', ''request_id'']
     \<and> is_str (jat row ''operation_id'')
     \<and> has_key (jat state ''operations'') (str_value (jat row ''operation_id''))
     \<and> (jat row ''request_id'' = JStr [] \<or> hex_string (jat row ''request_id'') 32)
     \<and> (let operation = jat (jat state ''operations'') (str_value (jat row ''operation_id'')) in
         jat operation ''subject'' = JStr subject \<and> jat operation ''role'' = JStr ''device''
         \<and> jat operation ''action'' = JStr ''recover'')"

definition validate_lifecycle :: "json \<Rightarrow> bool" where
  "validate_lifecycle state \<longleftrightarrow> state = JObj [] \<or>
     (keys_are state [''version'', ''operations'', ''blocked'', ''bindings'', ''recovery'']
      \<and> jat state ''version'' = JInt 1
      \<and> is_list (jat state ''blocked'') \<and> length (list_items (jat state ''blocked'')) \<le> TOMBSTONE_LIMIT
      \<and> list_all (\<lambda>v. hex_string v 64) (list_items (jat state ''blocked''))
      \<and> distinct (list_items (jat state ''blocked''))
      \<and> is_obj (jat state ''operations'') \<and> length (jkeys (jat state ''operations'')) \<le> OPERATION_LIMIT
      \<and> is_obj (jat state ''bindings'') \<and> length (jkeys (jat state ''bindings'')) \<le> LIMIT
      \<and> is_obj (jat state ''recovery'') \<and> length (jkeys (jat state ''recovery'')) \<le> LIMIT
      \<and> list_all (\<lambda>(k, row). valid_lc_row k row) (obj_pairs (jat state ''operations''))
      \<and> list_all (\<lambda>(k, row). valid_binding k row) (obj_pairs (jat state ''bindings''))
      \<and> list_all (\<lambda>(k, row). valid_recovery state k row) (obj_pairs (jat state ''recovery'')))"

text \<open>
  \<open>has_capacity(state, digests)\<close>: one tombstone is reserved for every admitted verifier and one
  operation for every liability (an unblocked verifier or an unfinished operation).
\<close>

definition unfinished :: "lc_state \<Rightarrow> nat" where
  "unfinished st = length (filter (\<lambda>r. \<not> lc_terminal (lr_state r)) (dict_values (ls_operations st)))"

definition has_capacity :: "lc_state \<Rightarrow> string list \<Rightarrow> bool" where
  "has_capacity st digests \<longleftrightarrow>
     length digests \<le> LIMIT
     \<and> card (set (ls_blocked st) \<union> set digests) \<le> TOMBSTONE_LIMIT
     \<and> length (ls_operations st) + card (set digests - set (ls_blocked st)) + unfinished st \<le> OPERATION_LIMIT"


section \<open>The JSON form\<close>

definition enc_lc_row :: "lc_row \<Rightarrow> json" where
  "enc_lc_row r = JObj
    [(''operation_id'', JStr (lr_operation_id r)), (''role'', JStr (role_name (lr_role r))),
     (''subject'', JStr (lr_subject r)), (''action'', JStr (action_name (lr_action r))),
     (''state'', JStr (lc_status_name (lr_state r))), (''expires_at'', JFloat (lr_expires_at r)),
     (''overlap_until'', JFloat (lr_overlap_until r)), (''credential_id'', JStr (lr_credential_id r)),
     (''old_ids'', enc_list JStr (lr_old_ids r)), (''owner_generation'', JStr (lr_owner_generation r)),
     (''origin'', JStr (lr_origin r))]"

definition dec_lc_row :: "json \<Rightarrow> lc_row" where
  "dec_lc_row j =
    \<lparr>lr_operation_id = str_value (jat j ''operation_id''),
     lr_role = (case role_of_name (str_value (jat j ''role'')) of None \<Rightarrow> OWNER | Some r \<Rightarrow> r),
     lr_subject = str_value (jat j ''subject''),
     lr_action = action_of_name (str_value (jat j ''action'')),
     lr_state = lc_status_of_name (str_value (jat j ''state'')),
     lr_expires_at = num_value (jat j ''expires_at''), lr_overlap_until = num_value (jat j ''overlap_until''),
     lr_credential_id = str_value (jat j ''credential_id''),
     lr_old_ids = dec_list str_value (jat j ''old_ids''),
     lr_owner_generation = str_value (jat j ''owner_generation''), lr_origin = str_value (jat j ''origin'')\<rparr>"

definition enc_binding :: "lc_binding \<Rightarrow> json" where
  "enc_binding b = JObj [(''public_key'', JStr (lb_public_key b)), (''kind'', JStr (kind_name (lb_kind b)))]"

definition dec_binding :: "json \<Rightarrow> lc_binding" where
  "dec_binding j = \<lparr>lb_public_key = str_value (jat j ''public_key''),
     lb_kind = kind_of_name (str_value (jat j ''kind''))\<rparr>"

definition enc_recovery :: "lc_recovery \<Rightarrow> json" where
  "enc_recovery r = JObj [(''operation_id'', JStr (rc_operation_id r)), (''request_id'', JStr (rc_request_id r))]"

definition dec_recovery :: "json \<Rightarrow> lc_recovery" where
  "dec_recovery j = \<lparr>rc_operation_id = str_value (jat j ''operation_id''),
     rc_request_id = str_value (jat j ''request_id'')\<rparr>"

definition enc_lifecycle :: "lc_state option \<Rightarrow> json" where
  "enc_lifecycle st = (case st of None \<Rightarrow> JObj [] | Some s \<Rightarrow>
     JObj [(''version'', JInt 1), (''operations'', enc_dict enc_lc_row (ls_operations s)),
       (''blocked'', enc_list JStr (ls_blocked s)), (''bindings'', enc_dict enc_binding (ls_bindings s)),
       (''recovery'', enc_dict enc_recovery (ls_recovery s))])"

definition dec_lifecycle :: "json \<Rightarrow> lc_state option" where
  "dec_lifecycle j = (if j = JObj [] then None else Some
     \<lparr>ls_operations = dec_dict dec_lc_row (jat j ''operations''),
      ls_blocked = dec_list str_value (jat j ''blocked''),
      ls_bindings = dec_dict dec_binding (jat j ''bindings''),
      ls_recovery = dec_dict dec_recovery (jat j ''recovery'')\<rparr>)"


section \<open>What the validator demands of typed state\<close>

definition ok_lc_row :: "string \<Rightarrow> lc_row \<Rightarrow> bool" where
  "ok_lc_row key r \<longleftrightarrow>
     is_hex_text 32 key \<and> lr_operation_id r = key \<and> lr_role r \<noteq> OWNER
     \<and> 1 \<le> length (lr_subject r) \<and> length (lr_subject r) \<le> 128
     \<and> 0 \<le> lr_expires_at r \<and> 0 \<le> lr_overlap_until r
     \<and> length (lr_old_ids r) \<le> LIMIT \<and> list_all is_ident (lr_old_ids r)
     \<and> is_hex_text 32 (lr_owner_generation r)
     \<and> lr_overlap_until r \<le> lr_expires_at r
     \<and> (lr_state r \<in> {Op_delivered, Op_acknowledged, Op_completed} \<longrightarrow> is_hex_text 32 (lr_credential_id r))
     \<and> (lr_action r = Revoke \<longrightarrow> lr_state r = Op_revoked)"

definition ok_binding :: "string \<Rightarrow> lc_binding \<Rightarrow> bool" where
  "ok_binding subject b \<longleftrightarrow> is_ident subject \<and> is_hex_text 64 (lb_public_key b)"

definition ok_recovery :: "lc_state \<Rightarrow> string \<Rightarrow> lc_recovery \<Rightarrow> bool" where
  "ok_recovery st subject r \<longleftrightarrow>
     dict_get (ls_bindings st) subject \<noteq> None
     \<and> (rc_request_id r = [] \<or> is_hex_text 32 (rc_request_id r))
     \<and> (case dict_get (ls_operations st) (rc_operation_id r) of None \<Rightarrow> False
        | Some oper \<Rightarrow> lr_subject oper = subject \<and> lr_role oper = DEVICE \<and> lr_action oper = Recover)"

definition ok_lc_state :: "lc_state \<Rightarrow> bool" where
  "ok_lc_state st \<longleftrightarrow>
     length (ls_blocked st) \<le> TOMBSTONE_LIMIT \<and> distinct (ls_blocked st)
     \<and> list_all (is_hex_text 64) (ls_blocked st)
     \<and> length (ls_operations st) \<le> OPERATION_LIMIT \<and> length (ls_bindings st) \<le> LIMIT
     \<and> length (ls_recovery st) \<le> LIMIT
     \<and> list_all (\<lambda>(k, r). ok_lc_row k r) (ls_operations st)
     \<and> list_all (\<lambda>(k, b). ok_binding k b) (ls_bindings st)
     \<and> list_all (\<lambda>(k, r). ok_recovery st k r) (ls_recovery st)"

definition ok_lifecycle :: "lc_state option \<Rightarrow> bool" where
  "ok_lifecycle st = (case st of None \<Rightarrow> True | Some s \<Rightarrow> ok_lc_state s)"


section \<open>The two forms agree\<close>

lemma action_of_action_name [simp]: "action_of_name (action_name a) = a"
  by (cases a) (simp_all add: action_of_name_def action_name_def)

lemma lc_status_of_status_name [simp]: "lc_status_of_name (lc_status_name s) = s"
  by (cases s) (simp_all add: lc_status_of_name_def lc_status_name_def lc_statuses_def)

lemma lc_status_name_inj [simp]: "lc_status_name s = lc_status_name t \<longleftrightarrow> s = t"
  by (metis lc_status_of_status_name)

lemma dec_enc_lc_row [simp]: "dec_lc_row (enc_lc_row r) = r"
  by (simp add: dec_lc_row_def enc_lc_row_def jat_def)

lemma dec_enc_binding [simp]: "dec_binding (enc_binding b) = b"
  by (simp add: dec_binding_def enc_binding_def jat_def)

lemma dec_enc_recovery [simp]: "dec_recovery (enc_recovery r) = r"
  by (simp add: dec_recovery_def enc_recovery_def jat_def)

lemma dec_enc_lifecycle [simp]: "dec_lifecycle (enc_lifecycle st) = st"
  by (cases st) (simp_all add: dec_lifecycle_def enc_lifecycle_def jat_def)

lemma lc_name_literals:
  "lc_status_name s \<in> set (map lc_status_name lc_statuses)"
  "lc_status_name s \<in> set [''delivered'', ''acknowledged'', ''completed''] \<longleftrightarrow>
     s \<in> {Op_delivered, Op_acknowledged, Op_completed}"
  "lc_status_name s = ''revoked'' \<longleftrightarrow> s = Op_revoked"
  by (cases s; simp add: lc_status_name_def lc_statuses_def)+

lemma action_name_literals:
  "action_name a \<in> set [''rotate'', ''revoke'', ''recover'']"
  "action_name a = ''revoke'' \<longleftrightarrow> a = Revoke" "action_name a = ''recover'' \<longleftrightarrow> a = Recover"
  by (cases a; simp add: action_name_def)+

lemma role_name_literals:
  "role_name r \<in> set [''device'', ''integration''] \<longleftrightarrow> r \<noteq> OWNER"
  "role_name r = ''device'' \<longleftrightarrow> r = DEVICE"
  by (cases r; simp add: role_name_def)+

lemma enc_lc_row_fields:
  "jkeys (enc_lc_row r) = lc_row_keys" "is_obj (enc_lc_row r)"
  "jat (enc_lc_row r) ''operation_id'' = JStr (lr_operation_id r)"
  "jat (enc_lc_row r) ''role'' = JStr (role_name (lr_role r))"
  "jat (enc_lc_row r) ''subject'' = JStr (lr_subject r)"
  "jat (enc_lc_row r) ''action'' = JStr (action_name (lr_action r))"
  "jat (enc_lc_row r) ''state'' = JStr (lc_status_name (lr_state r))"
  "jat (enc_lc_row r) ''expires_at'' = JFloat (lr_expires_at r)"
  "jat (enc_lc_row r) ''overlap_until'' = JFloat (lr_overlap_until r)"
  "jat (enc_lc_row r) ''credential_id'' = JStr (lr_credential_id r)"
  "jat (enc_lc_row r) ''old_ids'' = enc_list JStr (lr_old_ids r)"
  "jat (enc_lc_row r) ''owner_generation'' = JStr (lr_owner_generation r)"
  "jat (enc_lc_row r) ''origin'' = JStr (lr_origin r)"
  by (simp_all add: enc_lc_row_def jat_def jkeys_def lc_row_keys_def)

lemma list_all_str_that [simp]: "list_all (str_that P) (map JStr xs) = list_all P xs"
  by (simp add: list_all_iff)

lemma list_all_hex_string [simp]: "list_all (\<lambda>v. hex_string v n) (map JStr xs) = list_all (is_hex_text n) xs"
  by (simp add: list_all_iff)

lemma inj_JStr [simp]: "inj_on JStr A"
  by (simp add: inj_on_def)

lemma valid_enc_lc_row [simp]: "valid_lc_row key (enc_lc_row r) = ok_lc_row key r"
  unfolding valid_lc_row_def ok_lc_row_def keys_are_def enc_lc_row_fields json.inject str_that_JStr
    str_among_JStr hex_string_JStr timestamp_JFloat num_value.simps list_items_enc_list length_map
    list_all_str_that lc_name_literals action_name_literals role_name_literals
  by (simp only: simp_thms conj_assoc enc_lc_row_fields lc_name_literals action_name_literals
      is_list_enc_list is_str.simps not_less)

lemma valid_enc_binding [simp]: "valid_binding k (enc_binding b) = ok_binding k b"
  by (cases "lb_kind b")
    (auto simp: valid_binding_def enc_binding_def ok_binding_def keys_are_def jkeys_def jat_def kind_name_def)

lemma jat_enc_dict:
  "jat (enc_dict f d) k = (case dict_get d k of None \<Rightarrow> JNull | Some v \<Rightarrow> f v)"
  by (simp add: jat_def split: option.split)

lemma has_key_enc_dict [simp]: "has_key (enc_dict f d) k \<longleftrightarrow> dict_get d k \<noteq> None"
  by (simp add: has_key_def dict_get_None)

lemma valid_enc_recovery [simp]:
  "valid_recovery (enc_lifecycle (Some s)) k (enc_recovery r) = ok_recovery s k r"
proof -
  have st: "jat (enc_lifecycle (Some s)) ''bindings'' = enc_dict enc_binding (ls_bindings s)"
    "jat (enc_lifecycle (Some s)) ''operations'' = enc_dict enc_lc_row (ls_operations s)"
    by (simp_all add: enc_lifecycle_def jat_def)
  have rc: "keys_are (enc_recovery r) [''operation_id'', ''request_id'']"
    "jat (enc_recovery r) ''operation_id'' = JStr (rc_operation_id r)"
    "jat (enc_recovery r) ''request_id'' = JStr (rc_request_id r)"
    by (simp_all add: enc_recovery_def jat_def keys_are_def jkeys_def)
  show ?thesis
    by (cases "dict_get (ls_operations s) (rc_operation_id r)")
      (auto simp: valid_recovery_def ok_recovery_def st rc jat_enc_dict enc_lc_row_fields
        role_name_literals action_name_literals Let_def)
qed

lemma validate_enc_lifecycle [simp]: "validate_lifecycle (enc_lifecycle st) = ok_lifecycle st"
proof (cases st)
  case None
  then show ?thesis by (simp add: validate_lifecycle_def enc_lifecycle_def ok_lifecycle_def)
next
  case (Some s)
  have fields: "jat (enc_lifecycle (Some s)) ''version'' = JInt 1"
    "jat (enc_lifecycle (Some s)) ''blocked'' = enc_list JStr (ls_blocked s)"
    "jat (enc_lifecycle (Some s)) ''bindings'' = enc_dict enc_binding (ls_bindings s)"
    "jat (enc_lifecycle (Some s)) ''operations'' = enc_dict enc_lc_row (ls_operations s)"
    "jat (enc_lifecycle (Some s)) ''recovery'' = enc_dict enc_recovery (ls_recovery s)"
    "keys_are (enc_lifecycle (Some s)) [''version'', ''operations'', ''blocked'', ''bindings'', ''recovery'']"
    "enc_lifecycle (Some s) \<noteq> JObj []"
    by (simp_all add: enc_lifecycle_def jat_def keys_are_def jkeys_def)
  have lists: "list_all (\<lambda>(k, row). valid_lc_row k row) (obj_pairs (enc_dict enc_lc_row d)) = list_all (\<lambda>(k, r). ok_lc_row k r) d"
    "list_all (\<lambda>(k, row). valid_binding k row) (obj_pairs (enc_dict enc_binding b)) = list_all (\<lambda>(k, r). ok_binding k r) b"
    "list_all (\<lambda>(k, row). valid_recovery (enc_lifecycle (Some s)) k row) (obj_pairs (enc_dict enc_recovery c))
      = list_all (\<lambda>(k, r). ok_recovery s k r) c" for d b c
    by (auto simp: list_all_iff dict_map_def)
  show ?thesis
    unfolding Some validate_lifecycle_def fields lists ok_lifecycle_def ok_lc_state_def option.case
    using fields(6,7) by (auto simp: distinct_map dict_keys_def)
qed


section \<open>Capacity\<close>

lemma unfinished_le: "unfinished st \<le> length (ls_operations st)"
  by (simp add: unfinished_def dict_values_def le_trans [OF length_filter_le])

lemma unfinished_pos: "r \<in> set (dict_values (ls_operations st)) \<Longrightarrow> \<not> lc_terminal (lr_state r) \<Longrightarrow> 0 < unfinished st"
  by (auto simp: unfinished_def filter_empty_conv)

section \<open>Reading a validated document gives a valid state\<close>

lemma dec_lc_row_ok:
  assumes "valid_lc_row key row"
  shows "ok_lc_row key (dec_lc_row row)"
proof -
  note conj = assms [unfolded valid_lc_row_def]
  have st: "str_among (jat row ''state'') (map lc_status_name lc_statuses)" using conj by (elim conjE)
  have ac: "str_among (jat row ''action'') [''rotate'', ''revoke'', ''recover'']" using conj by (elim conjE)
  have ro: "str_among (jat row ''role'') [''device'', ''integration'']" using conj by (elim conjE)
  obtain s where s: "jat row ''state'' = JStr (lc_status_name s)"
    using st by (rule str_among_obtain)
  have "str_among (jat row ''action'') (map action_name [Rotate, Revoke, Recover])"
    "str_among (jat row ''role'') (map role_name [DEVICE, INTEGRATION])"
    using ac ro by (simp_all add: action_name_def role_name_def)
  then obtain a r where a: "jat row ''action'' = JStr (action_name a)"
    and r: "jat row ''role'' = JStr (role_name r)" "r \<noteq> OWNER"
    by (elim str_among_obtain) auto
  have del: "str_among (jat row ''state'') [''delivered'', ''acknowledged'', ''completed''] \<longleftrightarrow>
      s \<in> {Op_delivered, Op_acknowledged, Op_completed}"
    using lc_name_literals(2) [of s] unfolding s by simp
  have rev: "a = Revoke \<longrightarrow> s = Op_revoked"
    using assms by (simp add: valid_lc_row_def s a action_name_literals lc_name_literals)
  have v: "is_hex_text 32 key" "jat row ''operation_id'' = JStr key"
    "str_that (\<lambda>s. 1 \<le> length s \<and> length s \<le> 128) (jat row ''subject'')"
    "timestamp (jat row ''expires_at'')" "timestamp (jat row ''overlap_until'')"
    "length (list_items (jat row ''old_ids'')) \<le> LIMIT"
    "list_all (str_that is_ident) (list_items (jat row ''old_ids''))"
    "hex_string (jat row ''owner_generation'') 32"
    "num_value (jat row ''overlap_until'') \<le> num_value (jat row ''expires_at'')"
    using assms by (simp_all add: valid_lc_row_def not_less)
  have ids: "list_all is_ident (dec_list str_value (jat row ''old_ids''))"
    using v(7) by (rule list_all_dec_list) (rule str_that_value)
  have cred: "s \<in> {Op_delivered, Op_acknowledged, Op_completed} \<longrightarrow> is_hex_text 32 (str_value (jat row ''credential_id''))"
    using assms unfolding valid_lc_row_def del by (simp add: hex_string_value)
  show ?thesis
    unfolding ok_lc_row_def dec_lc_row_def lc_row.simps s a r str_value.simps
      lc_status_of_status_name action_of_action_name
    using v str_that_value [OF v(3)] timestamp_value [OF v(4)] timestamp_value [OF v(5)]
      hex_string_value [OF v(8)] ids cred rev r by simp
qed

lemma dec_binding_ok: "valid_binding k row \<Longrightarrow> ok_binding k (dec_binding row)"
  by (auto simp: valid_binding_def ok_binding_def dec_binding_def check_values)

lemma dec_recovery_ok:
  assumes "valid_recovery state k row"
  shows "ok_recovery (the (dec_lifecycle state)) k (dec_recovery row)"
proof (cases "state = JObj []")
  case True
  then show ?thesis using assms by (simp add: valid_recovery_def has_key_def jat_def jkeys_def)
next
  case False
  let ?i = "str_value (jat row ''operation_id'')"
  have k: "jget (jat state ''bindings'') k \<noteq> None" "jget (jat state ''operations'') ?i \<noteq> None"
    using assms by (simp_all add: valid_recovery_def has_key_jget)
  then obtain v where v: "jget (jat state ''operations'') ?i = Some v" by auto
  then have o: "jat (jat state ''operations'') ?i = v" by (simp add: jget_jat)
  have "jat v ''subject'' = JStr k" "jat v ''role'' = JStr ''device''" "jat v ''action'' = JStr ''recover''"
    using assms by (simp_all add: valid_recovery_def o Let_def)
  then show ?thesis
    using assms False k v
    by (auto simp: ok_recovery_def dec_lifecycle_def dec_recovery_def dec_lc_row_def role_of_name_def
        action_of_name_def valid_recovery_def check_values)
qed

lemma dec_lifecycle_ok:
  assumes v: "validate_lifecycle j"
  shows "ok_lifecycle (dec_lifecycle j)"
proof (cases "j = JObj []")
  case True
  then show ?thesis by (simp add: dec_lifecycle_def ok_lifecycle_def)
next
  case False
  let ?s = "the (dec_lifecycle j)"
  have s: "dec_lifecycle j = Some ?s" using False by (simp add: dec_lifecycle_def)
  have f: "ls_operations ?s = dec_dict dec_lc_row (jat j ''operations'')"
    "ls_blocked ?s = dec_list str_value (jat j ''blocked'')"
    "ls_bindings ?s = dec_dict dec_binding (jat j ''bindings'')"
    "ls_recovery ?s = dec_dict dec_recovery (jat j ''recovery'')"
    using False by (simp_all add: dec_lifecycle_def)
  have hex: "list_all (\<lambda>v. hex_string v 64) (list_items (jat j ''blocked''))"
    and dis: "distinct (list_items (jat j ''blocked''))"
    using v False by (simp_all add: validate_lifecycle_def)
  have "inj_on str_value (set (list_items (jat j ''blocked'')))"
  proof (rule inj_onI)
    have str: "v = JStr (str_value v)" if "v \<in> set (list_items (jat j ''blocked''))" for v
      using hex that by (cases v) (auto simp: list_all_iff hex_string_def)
    fix x y
    assume "x \<in> set (list_items (jat j ''blocked''))" "y \<in> set (list_items (jat j ''blocked''))"
      and "str_value x = str_value y"
    then show "x = y" using str by metis
  qed
  then have dist: "distinct (ls_blocked ?s)"
    unfolding f dec_list_def using dis by (simp add: distinct_map)
  have "list_all (is_hex_text 64) (ls_blocked ?s)"
    unfolding f using hex by (rule list_all_dec_list) (simp add: check_values)
  moreover have "list_all (\<lambda>(k, r). ok_lc_row k r) (ls_operations ?s)"
    unfolding f by (rule list_all_dec_dict [where P = valid_lc_row])
      (use v False in \<open>simp add: validate_lifecycle_def\<close>, rule dec_lc_row_ok)
  moreover have "list_all (\<lambda>(k, b). ok_binding k b) (ls_bindings ?s)"
    unfolding f by (rule list_all_dec_dict [where P = valid_binding])
      (use v False in \<open>simp add: validate_lifecycle_def\<close>, rule dec_binding_ok)
  moreover have "list_all (\<lambda>(k, r). ok_recovery ?s k r) (ls_recovery ?s)"
    unfolding f(4) by (rule list_all_dec_dict [where P = "valid_recovery j"])
      (use v False in \<open>simp add: validate_lifecycle_def\<close>, rule dec_recovery_ok)
  ultimately have "ok_lc_state ?s"
    using v False dist f by (simp add: ok_lc_state_def validate_lifecycle_def)
  then have "ok_lifecycle (Some ?s)"
    by (simp add: ok_lifecycle_def)
  then show ?thesis using s by simp
qed

end
