(* ===== verification/Integration_Schema.thy ===== *)
theory Integration_Schema
  imports Lifecycle_Schema
begin

text \<open>
  \<open>provisioning/integration_schema.py\<close>: the integration enrollments of the credential snapshot,
  their JSON form and their validator.
\<close>

datatype int_status =
    In_pending | In_approved | In_delivered | In_completed | In_denied | In_cancelled | In_failed
  | In_expired | In_stale | In_revoked

record int_row =
  ir_request_id :: string
  ir_server_id :: string
  ir_origin :: string
  ir_agent_id :: string
  ir_display_name :: string
  ir_expires_at :: int
  ir_state :: int_status
  ir_secret_hash :: string
  ir_code_hash :: string
  ir_owner_generation :: string
  ir_attempts :: int
  ir_credential_id :: string
  ir_created_at :: time

type_synonym int_state = "(string, int_row) dict"

definition int_status_name :: "int_status \<Rightarrow> string" where
  "int_status_name s = (case s of In_pending \<Rightarrow> ''pending'' | In_approved \<Rightarrow> ''approved''
     | In_delivered \<Rightarrow> ''delivered'' | In_completed \<Rightarrow> ''completed'' | In_denied \<Rightarrow> ''denied''
     | In_cancelled \<Rightarrow> ''cancelled'' | In_failed \<Rightarrow> ''failed'' | In_expired \<Rightarrow> ''expired''
     | In_stale \<Rightarrow> ''stale'' | In_revoked \<Rightarrow> ''revoked'')"

definition int_statuses :: "int_status list" where
  "int_statuses = [In_pending, In_approved, In_delivered, In_completed, In_denied, In_cancelled,
     In_failed, In_expired, In_stale, In_revoked]"

definition int_status_of_name :: "string \<Rightarrow> int_status" where
  "int_status_of_name t = (case find (\<lambda>s. int_status_name s = t) int_statuses of None \<Rightarrow> In_expired | Some s \<Rightarrow> s)"

definition int_terminal :: "int_status \<Rightarrow> bool" where
  "int_terminal s \<longleftrightarrow> s \<notin> {In_pending, In_approved, In_delivered}"

definition int_display_char :: "char \<Rightarrow> bool" where
  "int_display_char c \<longleftrightarrow> is_alnum c \<or> c \<in> set '' ._()-''"

definition int_display_name :: "string \<Rightarrow> bool" where
  "int_display_name s \<longleftrightarrow> s \<noteq> [] \<and> is_alnum (hd s) \<and> length s \<le> 64 \<and> list_all int_display_char (tl s)"

definition int_row_keys :: "string list" where
  "int_row_keys = [''request_id'', ''server_id'', ''origin'', ''agent_id'', ''display_name'',
     ''expires_at'', ''state'', ''secret_hash'', ''code_hash'', ''owner_generation'', ''attempts'',
     ''credential_id'', ''created_at'']"

definition valid_int_row :: "string \<Rightarrow> json \<Rightarrow> bool" where
  "valid_int_row key row \<longleftrightarrow>
     keys_are row int_row_keys \<and> is_hex_text 32 key \<and> jat row ''request_id'' = JStr key
     \<and> jat row ''agent_id'' = JStr (''int_'' @ key)
     \<and> str_among (jat row ''state'') (map int_status_name int_statuses)
     \<and> hex_string (jat row ''server_id'') 32 \<and> is_str (jat row ''origin'')
     \<and> str_that int_display_name (jat row ''display_name'')
     \<and> hex_string (jat row ''secret_hash'') 64 \<and> hex_string (jat row ''code_hash'') 64
     \<and> hex_string (jat row ''owner_generation'') 32
     \<and> int_within (jat row ''attempts'') 0 5
     \<and> timestamp (jat row ''expires_at'') \<and> timestamp (jat row ''created_at'')
     \<and> (jat row ''credential_id'' = JStr [] \<or> hex_string (jat row ''credential_id'') 32)
     \<and> (str_among (jat row ''state'') [''delivered'', ''completed''] \<longrightarrow> jat row ''credential_id'' \<noteq> JStr [])"

definition validate_integration :: "json \<Rightarrow> bool" where
  "validate_integration state \<longleftrightarrow> state = JObj [] \<or>
     (keys_are state [''version'', ''requests''] \<and> jat state ''version'' = JInt 1
      \<and> is_obj (jat state ''requests'') \<and> length (jkeys (jat state ''requests'')) \<le> LIMIT
      \<and> list_all (\<lambda>(k, row). valid_int_row k row) (obj_pairs (jat state ''requests'')))"

definition enc_int_row :: "int_row \<Rightarrow> json" where
  "enc_int_row r = JObj
    [(''request_id'', JStr (ir_request_id r)), (''server_id'', JStr (ir_server_id r)),
     (''origin'', JStr (ir_origin r)), (''agent_id'', JStr (ir_agent_id r)),
     (''display_name'', JStr (ir_display_name r)), (''expires_at'', JInt (ir_expires_at r)),
     (''state'', JStr (int_status_name (ir_state r))), (''secret_hash'', JStr (ir_secret_hash r)),
     (''code_hash'', JStr (ir_code_hash r)), (''owner_generation'', JStr (ir_owner_generation r)),
     (''attempts'', JInt (ir_attempts r)), (''credential_id'', JStr (ir_credential_id r)),
     (''created_at'', JFloat (ir_created_at r))]"

text \<open>
  The server only ever writes integer deadlines (the client's \<open>expires_at\<close> is checked to be an
  \<open>int\<close>), so a fractional deadline, which only a hand-edited file could hold, is read as its floor.
\<close>

definition dec_int_row :: "json \<Rightarrow> int_row" where
  "dec_int_row j =
    \<lparr>ir_request_id = str_value (jat j ''request_id''), ir_server_id = str_value (jat j ''server_id''),
     ir_origin = str_value (jat j ''origin''), ir_agent_id = str_value (jat j ''agent_id''),
     ir_display_name = str_value (jat j ''display_name''), ir_expires_at = \<lfloor>num_value (jat j ''expires_at'')\<rfloor>,
     ir_state = int_status_of_name (str_value (jat j ''state'')),
     ir_secret_hash = str_value (jat j ''secret_hash''), ir_code_hash = str_value (jat j ''code_hash''),
     ir_owner_generation = str_value (jat j ''owner_generation''), ir_attempts = int_value (jat j ''attempts''),
     ir_credential_id = str_value (jat j ''credential_id''), ir_created_at = num_value (jat j ''created_at'')\<rparr>"

definition enc_integration :: "int_state option \<Rightarrow> json" where
  "enc_integration st = (case st of None \<Rightarrow> JObj [] | Some d \<Rightarrow>
     JObj [(''version'', JInt 1), (''requests'', enc_dict enc_int_row d)])"

definition dec_integration :: "json \<Rightarrow> int_state option" where
  "dec_integration j = (if j = JObj [] then None else Some (dec_dict dec_int_row (jat j ''requests'')))"

definition ok_int_row :: "string \<Rightarrow> int_row \<Rightarrow> bool" where
  "ok_int_row key r \<longleftrightarrow>
     is_hex_text 32 key \<and> ir_request_id r = key \<and> ir_agent_id r = ''int_'' @ key
     \<and> is_hex_text 32 (ir_server_id r) \<and> int_display_name (ir_display_name r)
     \<and> is_hex_text 64 (ir_secret_hash r) \<and> is_hex_text 64 (ir_code_hash r)
     \<and> is_hex_text 32 (ir_owner_generation r) \<and> 0 \<le> ir_attempts r \<and> ir_attempts r \<le> 5
     \<and> 0 \<le> ir_expires_at r \<and> 0 \<le> ir_created_at r
     \<and> (ir_credential_id r = [] \<or> is_hex_text 32 (ir_credential_id r))
     \<and> (ir_state r \<in> {In_delivered, In_completed} \<longrightarrow> ir_credential_id r \<noteq> [])"

definition ok_integration :: "int_state option \<Rightarrow> bool" where
  "ok_integration st = (case st of None \<Rightarrow> True | Some d \<Rightarrow>
     length d \<le> LIMIT \<and> list_all (\<lambda>(k, r). ok_int_row k r) d)"

lemma int_status_of_status_name [simp]: "int_status_of_name (int_status_name s) = s"
  by (cases s) (simp_all add: int_status_of_name_def int_status_name_def int_statuses_def)

lemma int_status_name_inj [simp]: "int_status_name s = int_status_name t \<longleftrightarrow> s = t"
  by (metis int_status_of_status_name)

lemma int_name_literals:
  "int_status_name s \<in> set (map int_status_name int_statuses)"
  "int_status_name s \<in> set [''delivered'', ''completed''] \<longleftrightarrow> s \<in> {In_delivered, In_completed}"
  by (cases s; simp add: int_status_name_def int_statuses_def)+

lemma dec_enc_int_row [simp]: "dec_int_row (enc_int_row r) = r"
  by (simp add: dec_int_row_def enc_int_row_def jat_def)

lemma dec_enc_integration [simp]: "dec_integration (enc_integration st) = st"
  by (cases st) (simp_all add: dec_integration_def enc_integration_def jat_def)

lemma enc_int_row_fields:
  "jkeys (enc_int_row r) = int_row_keys" "is_obj (enc_int_row r)"
  "jat (enc_int_row r) ''request_id'' = JStr (ir_request_id r)"
  "jat (enc_int_row r) ''server_id'' = JStr (ir_server_id r)"
  "jat (enc_int_row r) ''origin'' = JStr (ir_origin r)"
  "jat (enc_int_row r) ''agent_id'' = JStr (ir_agent_id r)"
  "jat (enc_int_row r) ''display_name'' = JStr (ir_display_name r)"
  "jat (enc_int_row r) ''expires_at'' = JInt (ir_expires_at r)"
  "jat (enc_int_row r) ''state'' = JStr (int_status_name (ir_state r))"
  "jat (enc_int_row r) ''secret_hash'' = JStr (ir_secret_hash r)"
  "jat (enc_int_row r) ''code_hash'' = JStr (ir_code_hash r)"
  "jat (enc_int_row r) ''owner_generation'' = JStr (ir_owner_generation r)"
  "jat (enc_int_row r) ''attempts'' = JInt (ir_attempts r)"
  "jat (enc_int_row r) ''credential_id'' = JStr (ir_credential_id r)"
  "jat (enc_int_row r) ''created_at'' = JFloat (ir_created_at r)"
  by (simp_all add: enc_int_row_def jat_def jkeys_def int_row_keys_def)

lemma valid_enc_int_row [simp]: "valid_int_row key (enc_int_row r) = ok_int_row key r"
  unfolding valid_int_row_def ok_int_row_def keys_are_def enc_int_row_fields json.inject str_that_JStr
    str_among_JStr hex_string_JStr timestamp_JFloat timestamp_JInt int_within_JInt int_name_literals
  by (simp only: simp_thms conj_assoc enc_int_row_fields int_name_literals is_str.simps)

lemma validate_enc_integration [simp]: "validate_integration (enc_integration st) = ok_integration st"
  by (cases st)
    (simp_all add: validate_integration_def enc_integration_def ok_integration_def keys_are_def jkeys_def
      jat_def list_all_iff dict_map_def enc_dict_def case_prod_beta)

section \<open>Reading a validated document gives a valid state\<close>

lemma dec_int_row_ok:
  assumes "valid_int_row key row"
  shows "ok_int_row key (dec_int_row row)"
proof -
  obtain s where s: "jat row ''state'' = JStr (int_status_name s)"
  proof -
    have "str_among (jat row ''state'') (map int_status_name int_statuses)"
      using assms unfolding valid_int_row_def by (elim conjE)
    then show thesis using that by (rule str_among_obtain)
  qed
  have del: "str_among (jat row ''state'') [''delivered'', ''completed''] \<longleftrightarrow> s \<in> {In_delivered, In_completed}"
    using int_name_literals(2) [of s] unfolding s by simp
  have v: "is_hex_text 32 key" "jat row ''request_id'' = JStr key" "jat row ''agent_id'' = JStr (''int_'' @ key)"
    "hex_string (jat row ''server_id'') 32" "str_that int_display_name (jat row ''display_name'')"
    "hex_string (jat row ''secret_hash'') 64" "hex_string (jat row ''code_hash'') 64"
    "hex_string (jat row ''owner_generation'') 32" "int_within (jat row ''attempts'') 0 5"
    "timestamp (jat row ''expires_at'')" "timestamp (jat row ''created_at'')"
    "jat row ''credential_id'' = JStr [] \<or> hex_string (jat row ''credential_id'') 32"
    "s \<in> {In_delivered, In_completed} \<longrightarrow> jat row ''credential_id'' \<noteq> JStr []"
    using assms unfolding valid_int_row_def del by simp_all
  have cred: "str_value (jat row ''credential_id'') = [] \<or> is_hex_text 32 (str_value (jat row ''credential_id''))"
    using v(12) by (auto simp: hex_string_value)
  have "str_value (jat row ''credential_id'') = [] \<Longrightarrow> jat row ''credential_id'' = JStr []"
    using v(12) by (cases "jat row ''credential_id''") (auto simp: hex_string_def)
  then have held: "s \<in> {In_delivered, In_completed} \<longrightarrow> str_value (jat row ''credential_id'') \<noteq> []"
    using v(13) by blast
  show ?thesis
    unfolding ok_int_row_def dec_int_row_def int_row.simps s str_value.simps int_status_of_status_name v(2,3)
    using v(1) hex_string_value [OF v(4)] str_that_value [OF v(5)] hex_string_value [OF v(6)]
      hex_string_value [OF v(7)] hex_string_value [OF v(8)] int_within_value [OF v(9)]
      timestamp_value [OF v(10)] timestamp_value [OF v(11)] cred held by simp
qed

lemma dec_integration_ok: "validate_integration j \<Longrightarrow> ok_integration (dec_integration j)"
  by (auto simp: validate_integration_def ok_integration_def dec_integration_def
      intro!: list_all_dec_dict dec_int_row_ok)

end
