(* ===== verification/Config_Files.thy ===== *)
theory Config_Files
  imports Json_Value
begin

text \<open>
  \<open>config_files.py\<close> and \<open>auth/store.py: atomic_private_json\<close>: a JSON document on disk, how it is
  read, and the durable write by rename. Both writers have three outcomes: the new document is in
  place; an \<open>OSError\<close> left the old one; or the rename happened and the directory \<open>fsync\<close> failed,
  so the caller gets an \<open>OSError\<close> although the new document is what the next read sees.
\<close>

datatype exn =
    ValueError
  | ConfigError string
  | RuntimeError string
  | OSError
  | OverflowError
  | TypeError
  | AttributeError
  | IndexError
  | KeyError
  | EnrollmentError string
  | OwnerError string

datatype doc_file = No_file | Not_readable | Not_utf8 | Not_json | Doc json

datatype write_outcome = Write_ok | Write_failed | Write_visible_fsync_failed

text \<open>\<open>path.exists()\<close>\<close>

definition doc_exists :: "doc_file \<Rightarrow> bool" where
  "doc_exists f \<longleftrightarrow> f \<noteq> No_file"

text \<open>\<open>read_json\<close>: one diagnostic for text that is not JSON or repeats a key, one for an unreadable file.\<close>

definition read_json :: "doc_file \<Rightarrow> exn + json" where
  "read_json f = (case f of
     Doc j \<Rightarrow> if unique_json j then Inr j else Inl (ConfigError ''$'')
   | Not_json \<Rightarrow> Inl (ConfigError ''$'')
   | Not_utf8 \<Rightarrow> Inl (ConfigError ''$'')
   | Not_readable \<Rightarrow> Inl (ConfigError ''$'')
   | No_file \<Rightarrow> Inl (ConfigError ''$''))"

text \<open>
  \<open>open\<close> and \<open>json.load\<close> under \<open>except (OSError, json.JSONDecodeError)\<close>: \<^term>\<open>Inr None\<close> is the handled
  failure. A file that is not UTF-8 raises \<open>UnicodeDecodeError\<close>, a \<open>ValueError\<close> this does not catch.
\<close>

definition load_lenient :: "doc_file \<Rightarrow> exn + json option" where
  "load_lenient f = (case f of
     Doc j \<Rightarrow> Inr (Some (last_wins j))
   | Not_utf8 \<Rightarrow> Inl ValueError
   | _ \<Rightarrow> Inr None)"

text \<open>\<open>write_json\<close> and \<open>atomic_private_json\<close>: what the file holds afterwards and whether the write raised.\<close>

definition write_json :: "write_outcome \<Rightarrow> doc_file \<Rightarrow> json \<Rightarrow> (exn + unit) \<times> doc_file" where
  "write_json oc f j = (case oc of
     Write_ok \<Rightarrow> (Inr (), Doc j)
   | Write_failed \<Rightarrow> (Inl OSError, f)
   | Write_visible_fsync_failed \<Rightarrow> (Inl OSError, Doc j))"

text \<open>Python equality of parsed JSON: numbers compare by value, objects ignore the order of keys.\<close>

definition num_view :: "json \<Rightarrow> rat option" where
  "num_view j = (case j of JBool b \<Rightarrow> Some (if b then 1 else 0) | JInt n \<Rightarrow> Some (of_int n)
     | JFloat r \<Rightarrow> Some r | _ \<Rightarrow> None)"

function (sequential) same_json :: "json \<Rightarrow> json \<Rightarrow> bool" where
  "same_json (JObj a) (JObj b) \<longleftrightarrow> length a = length b \<and>
     (\<forall>kv \<in> set a. case map_of b (fst kv) of None \<Rightarrow> False | Some w \<Rightarrow> same_json (snd kv) w)"
| "same_json (JList xs) (JList ys) \<longleftrightarrow> length xs = length ys \<and>
     (\<forall>xy \<in> set (zip xs ys). same_json (fst xy) (snd xy))"
| "same_json (JStr s) (JStr t) \<longleftrightarrow> s = t"
| "same_json JNull JNull \<longleftrightarrow> True"
| "same_json (JNonFinite x) (JNonFinite y) \<longleftrightarrow> x = y \<and> x \<noteq> Not_a_number"
| "same_json x y \<longleftrightarrow> num_view x \<noteq> None \<and> num_view x = num_view y"
  by pat_completeness auto
termination
proof (relation "measure (\<lambda>(x, _). size x)")
  show "((snd kv, w), JObj a, JObj b) \<in> measure (\<lambda>(x, _). size x)" if "kv \<in> set a" for kv w a and b :: "(string \<times> json) list"
    using that by (induction a) auto
  show "((fst xy, snd xy), JList xs, JList ys) \<in> measure (\<lambda>(x, _). size x)" if "xy \<in> set (zip xs ys)" for xy xs ys
  proof -
    have "fst xy \<in> set xs" using that by (metis prod.collapse set_zip_leftD)
    then have "size (fst xy) < Suc (size_list size xs)" by (induction xs) auto
    then show ?thesis by (simp add: case_prod_beta)
  qed
qed simp

text \<open>
  \<open>update_json(path, change)\<close>: read (an absent file is the empty object), apply the change, write
  when the result differs or there was no file.
\<close>

definition update_json :: "write_outcome \<Rightarrow> (json \<Rightarrow> exn + json) \<Rightarrow> doc_file \<Rightarrow> (exn + json) \<times> doc_file \<times> bool" where
  "update_json oc change f =
     (case (if doc_exists f then read_json f else Inr (JObj [])) of
        Inl e \<Rightarrow> (Inl e, f, False)
      | Inr data \<Rightarrow>
          if \<not> is_obj data then (Inl (ConfigError ''$''), f, False)
          else (case change data of
                  Inl e \<Rightarrow> (Inl e, f, False)
                | Inr result \<Rightarrow>
                    if \<not> same_json result data \<or> \<not> doc_exists f
                    then (case write_json oc f result of
                            (Inl e, g) \<Rightarrow> (Inl e, g, True)
                          | (Inr _, g) \<Rightarrow> (Inr result, g, True))
                    else (Inr result, f, False)))"

text \<open>The file after an update is the old one, untouched, or exactly what the change produced.\<close>

lemma update_json_file:
  assumes "update_json oc change f = (r, g, wrote)"
  shows "g = f \<or> (\<exists>data result. change data = Inr result \<and> g = Doc result)"
  using assms
  by (auto simp: update_json_def write_json_def split: if_splits sum.splits write_outcome.splits)

lemma update_json_ok:
  assumes "update_json oc change f = (Inr result, g, wrote)"
  shows "\<exists>data. change data = Inr result \<and> (g = Doc result \<or> (g = f \<and> same_json result data \<and> f = Doc data))"
  using assms
  by (auto simp: update_json_def write_json_def doc_exists_def read_json_def
      split: if_splits sum.splits write_outcome.splits doc_file.splits)

end
