(* ===== verification/Agent_Documents.thy ===== *)
theory Agent_Documents
  imports Config_Files
begin

text \<open>
  The data of \<open>agents/registry.py\<close>: an agent, and the document \<open>agents.json\<close> with its strict
  decoder and its encoder. A document that breaks a rule is a \<open>ConfigError\<close> naming the field.
\<close>

datatype agent_type = Openclaw | Openclaw_direct

record agent =
  ag_id :: string
  ag_name :: string
  ag_type :: agent_type
  ag_active :: bool
  ag_created_at :: string
  ag_builtin :: "bool option"
  ag_integration :: bool

definition agent_type_name :: "agent_type \<Rightarrow> string" where
  "agent_type_name t = (case t of Openclaw \<Rightarrow> ''openclaw'' | Openclaw_direct \<Rightarrow> ''openclaw-direct'')"

definition nonempty_str :: "json \<Rightarrow> bool" where
  "nonempty_str v \<longleftrightarrow> str_that (\<lambda>s. s \<noteq> []) v"

definition valid_agent_row :: "json \<Rightarrow> bool" where
  "valid_agent_row row \<longleftrightarrow>
     is_obj row
     \<and> list_all (has_key row) [''id'', ''name'', ''type'', ''createdAt'']
     \<and> keys_within row [''id'', ''name'', ''type'', ''createdAt'', ''builtin'', ''integration'']
     \<and> nonempty_str (jat row ''id'') \<and> nonempty_str (jat row ''name'') \<and> nonempty_str (jat row ''createdAt'')
     \<and> str_among (jat row ''type'') [''openclaw'', ''openclaw-direct'']
     \<and> (has_key row ''integration'' \<longrightarrow> is_bool (jat row ''integration''))
     \<and> (has_key row ''builtin'' \<longrightarrow> is_bool (jat row ''builtin''))
     \<and> (jat row ''type'' = JStr ''openclaw-direct'') = (jat row ''id'' = JStr ''openclaw-direct'')
     \<and> (jat row ''type'' = JStr ''openclaw-direct'' \<longrightarrow>
          jat row ''builtin'' = JBool True \<and> jat row ''integration'' \<noteq> JBool True)"

definition dec_agent :: "string \<Rightarrow> json \<Rightarrow> agent" where
  "dec_agent act row =
    \<lparr>ag_id = str_value (jat row ''id''), ag_name = str_value (jat row ''name''),
     ag_type = (if jat row ''type'' = JStr ''openclaw-direct'' then Openclaw_direct else Openclaw),
     ag_active = (str_value (jat row ''id'') = act), ag_created_at = str_value (jat row ''createdAt''),
     ag_builtin = map_option bool_value (jget row ''builtin''),
     ag_integration = bool_value (jat row ''integration'')\<rparr>"

definition decode_agents :: "json \<Rightarrow> exn + agent list \<times> string" where
  "decode_agents data =
    (if \<not> (keys_are data [''version'', ''agents'', ''active_agent''] \<and> jat data ''version'' = JInt 1)
     then Inl (ConfigError ''$'')
     else if \<not> (is_list (jat data ''agents'') \<and> is_str (jat data ''active_agent''))
     then Inl (ConfigError ''agents/active_agent'')
     else if \<not> list_all valid_agent_row (list_items (jat data ''agents''))
     then Inl (ConfigError ''agents[]'')
     else
       (let act = str_value (jat data ''active_agent'');
            agents = map (dec_agent act) (list_items (jat data ''agents''))
        in if \<not> distinct (map ag_id agents) \<or> (act \<noteq> [] \<and> act \<notin> set (map ag_id agents))
           then Inl (ConfigError ''active_agent/agents'')
           else Inr (agents, act)))"

definition enc_agent :: "agent \<Rightarrow> json" where
  "enc_agent a = obj_of
    [(''id'', Some (JStr (ag_id a))), (''name'', Some (JStr (ag_name a))),
     (''type'', Some (JStr (agent_type_name (ag_type a)))), (''createdAt'', Some (JStr (ag_created_at a))),
     (''builtin'', map_option JBool (ag_builtin a)), (''integration'', Some (JBool (ag_integration a)))]"

definition encode_agents :: "agent list \<Rightarrow> string \<Rightarrow> json" where
  "encode_agents agents act = JObj [(''version'', JInt 1), (''agents'', enc_list enc_agent agents),
     (''active_agent'', JStr act)]"

text \<open>What the decoder accepts, said of typed agents.\<close>

definition ok_agent :: "agent \<Rightarrow> bool" where
  "ok_agent a \<longleftrightarrow> ag_id a \<noteq> [] \<and> ag_name a \<noteq> [] \<and> ag_created_at a \<noteq> []
     \<and> (ag_type a = Openclaw_direct \<longleftrightarrow> ag_id a = ''openclaw-direct'')
     \<and> (ag_type a = Openclaw_direct \<longrightarrow> ag_builtin a = Some True \<and> \<not> ag_integration a)"

definition ok_agents :: "agent list \<Rightarrow> string \<Rightarrow> bool" where
  "ok_agents agents act \<longleftrightarrow> list_all ok_agent agents \<and> distinct (map ag_id agents)
     \<and> (act \<noteq> [] \<longrightarrow> act \<in> set (map ag_id agents))"

text \<open>The \<open>active\<close> flag is not stored; reading sets it from \<open>active_agent\<close>.\<close>

definition mark_active :: "string \<Rightarrow> agent \<Rightarrow> agent" where
  "mark_active act a = a\<lparr>ag_active := (ag_id a = act)\<rparr>"

lemma valid_enc_agent [simp]: "valid_agent_row (enc_agent a) = ok_agent a"
  by (cases "ag_type a"; cases "ag_builtin a")
    (auto simp: valid_agent_row_def enc_agent_def ok_agent_def nonempty_str_def jat_def agent_type_name_def)

lemma dec_enc_agent [simp]: "dec_agent act (enc_agent a) = mark_active act a"
  by (cases "ag_type a"; cases "ag_builtin a")
    (simp_all add: dec_agent_def enc_agent_def jat_def agent_type_name_def mark_active_def)

lemma ag_id_mark_active [simp]: "ag_id (mark_active act a) = ag_id a"
  by (simp add: mark_active_def)

lemma decode_encode_agents:
  "decode_agents (encode_agents agents act) =
     (if ok_agents agents act then Inr (map (mark_active act) agents, act)
      else decode_agents (encode_agents agents act))"
proof (cases "ok_agents agents act")
  case True
  have "keys_are (encode_agents agents act) [''version'', ''agents'', ''active_agent'']"
    "jat (encode_agents agents act) ''version'' = JInt 1"
    "jat (encode_agents agents act) ''agents'' = enc_list enc_agent agents"
    "jat (encode_agents agents act) ''active_agent'' = JStr act"
    by (simp_all add: encode_agents_def jat_def keys_are_def jkeys_def)
  then show ?thesis
    using True by (auto simp: decode_agents_def ok_agents_def list_all_iff comp_def image_comp)
qed simp

lemma decode_agents_okD:
  assumes "decode_agents data = Inr (agents, act)"
  shows "distinct (map ag_id agents)" and "act \<noteq> [] \<Longrightarrow> act \<in> set (map ag_id agents)"
    and "\<forall>a \<in> set agents. ag_active a \<longleftrightarrow> ag_id a = act"
  using assms by (auto simp: decode_agents_def Let_def dec_agent_def comp_def split: if_splits)

lemma dec_agent_ok:
  assumes "valid_agent_row row"
  shows "ok_agent (dec_agent act row)"
proof -
  obtain i n c t where "jat row ''id'' = JStr i" "i \<noteq> []" "jat row ''name'' = JStr n" "n \<noteq> []"
    "jat row ''createdAt'' = JStr c" "c \<noteq> []" "jat row ''type'' = JStr t"
    using assms
    by (auto simp: valid_agent_row_def nonempty_str_def str_that_def str_among_def split: json.splits)
  moreover have "jget row ''builtin'' = Some (JBool True)" if "jat row ''builtin'' = JBool True"
    using that by (auto simp: jat_def split: option.splits)
  moreover have "jat row ''integration'' \<noteq> JBool True \<Longrightarrow> \<not> bool_value (jat row ''integration'')"
    by (cases "jat row ''integration''") auto
  ultimately show ?thesis
    using assms by (auto simp: valid_agent_row_def ok_agent_def dec_agent_def)
qed

lemma decode_agents_ok: "decode_agents data = Inr (agents, act) \<Longrightarrow> ok_agents agents act"
  by (auto simp: decode_agents_def ok_agents_def Let_def list_all_iff dec_agent_ok split: if_splits)

end
