(* ===== verification/Credential_Store.thy ===== *)
theory Credential_Store
  imports Owner_Schema Integration_Schema Agent_Documents
begin

text \<open>
  \<open>auth/store.py\<close>: the credential snapshot in memory (\<open>snapshot\<close>, the attributes of
  \<open>CredentialStore\<close>), the file \<open>authz.json\<close> behind it, and the operations that keep the two
  in step: \<open>load\<close>, \<open>transaction\<close>, \<open>replace\<close>, \<open>save_owner\<close>, \<open>save_enrollment\<close>; then the
  questions every transport asks, \<open>authenticate\<close>, \<open>current\<close> and \<open>usable\<close>.

  The \<open>world\<close> record holds what these methods read and write: the snapshot, the two
  files, the routing table that \<open>agents/registry.py\<close> publishes, the clock, the random source
  (\<open>w_entropy k\<close> is the \<open>k\<close>-th draw, \<open>w_drawn\<close> how many were made), the outcome of each coming
  disk write (\<open>w_faults\<close>; an exhausted list means the write succeeds), the two attributes of
  \<open>auth/owner.py: OwnerAuth\<close> (\<open>w_override\<close>, the verifier of \<open>OPERATOR_TOKEN\<close>, and \<open>w_origin\<close>), and three
  functions that are C libraries: SHA-256 and HMAC-SHA-256 (hexadecimal digests of byte strings)
  and Ed25519 verification. The clock does not move inside one operation.
\<close>

section \<open>Data\<close>

record credential =
  cr_id :: string
  cr_role :: role
  cr_subject :: string
  cr_verifier :: string
  cr_enabled :: bool

record snapshot =
  sn_records :: "credential list"
  sn_owner :: "owner_state option"
  sn_enrollment :: "enr_state option"
  sn_lifecycle :: "lc_state option"
  sn_integration :: "int_state option"

record world =
  w_store :: snapshot
  w_transaction :: bool
  w_authz :: doc_file
  w_agents_file :: doc_file
  w_agents :: "agent list"
  w_active_agent :: string
  w_agents_loaded :: bool
  w_now :: time
  w_entropy :: "nat \<Rightarrow> int"
  w_drawn :: nat
  w_faults :: "write_outcome list"
  w_sha256 :: "string \<Rightarrow> string"
  w_hmac :: "string \<Rightarrow> string \<Rightarrow> string"
  w_ed25519 :: "string \<Rightarrow> string \<Rightarrow> string \<Rightarrow> bool"
  w_override :: "string option"
  w_origin :: string
  w_direct_url :: bool
  w_device_id_length :: nat

type_synonym 'a op = "(world, exn, 'a) action"

definition empty_snapshot :: snapshot where
  "empty_snapshot = \<lparr>sn_records = [], sn_owner = None, sn_enrollment = None, sn_lifecycle = None,
     sn_integration = None\<rparr>"

definition lifecycle_of :: "snapshot \<Rightarrow> lc_state" where
  "lifecycle_of s = (case sn_lifecycle s of None \<Rightarrow> empty_lifecycle | Some l \<Rightarrow> l)"

definition enrollment_requests :: "snapshot \<Rightarrow> (string, enr_row) dict" where
  "enrollment_requests s = (case sn_enrollment s of None \<Rightarrow> [] | Some e \<Rightarrow> es_requests e)"

definition integration_requests :: "snapshot \<Rightarrow> int_state" where
  "integration_requests s = (case sn_integration s of None \<Rightarrow> [] | Some d \<Rightarrow> d)"

definition blocked_of :: "snapshot \<Rightarrow> string list" where
  "blocked_of s = ls_blocked (lifecycle_of s)"

text \<open>\<open>owner.get("generation")\<close> and \<open>owner.get("mode") in ("generated", "environment")\<close>\<close>

definition owner_generation :: "snapshot \<Rightarrow> string option" where
  "owner_generation s = map_option ow_generation (sn_owner s)"

definition owner_active :: "snapshot \<Rightarrow> bool" where
  "owner_active s = (case sn_owner s of None \<Rightarrow> False | Some o' \<Rightarrow> is_active_mode (ow_mode o'))"


section \<open>Secrets\<close>

text \<open>\<open>str.encode("utf-8")\<close> of code points below 256.\<close>

definition utf8 :: "string \<Rightarrow> string" where
  "utf8 s = concat (map (\<lambda>c. let n = (of_char c :: nat) in
      if n < 128 then [c] else [char_of (192 + n div 64), char_of (128 + n mod 64)]) s)"

definition token_verifier :: "(string \<Rightarrow> string) \<Rightarrow> string \<Rightarrow> string" where
  "token_verifier sha token = sha (utf8 token)"

definition cred_generation :: "(string \<Rightarrow> string) \<Rightarrow> credential \<Rightarrow> string" where
  "cred_generation sha r = sha (''vauxr:credential-generation:v1'' @ [CHR 0x00] @ cr_verifier r)"

definition draw :: "int op" where
  "draw = (\<lambda>w. (Inr (w_entropy w (w_drawn w)), w\<lparr>w_drawn := Suc (w_drawn w)\<rparr>))"

text \<open>\<open>secrets.token_hex(n)\<close>, \<open>secrets.token_urlsafe(n)\<close> (for 24 and 32 bytes) and \<open>secrets.randbelow(n)\<close>\<close>

definition token_hex :: "nat \<Rightarrow> string op" where
  "token_hex n = bnd draw (\<lambda>x. ret (hex_digits (2 * n) x))"

definition b64_digit :: "int \<Rightarrow> char" where
  "b64_digit x = ''ABCDEFGHIJKLMNOPQRSTUVWXYZabcdefghijklmnopqrstuvwxyz0123456789-_'' ! nat (x mod 64)"

fun b64_digits :: "nat \<Rightarrow> int \<Rightarrow> string" where
  "b64_digits 0 x = []"
| "b64_digits (Suc n) x = b64_digits n (x div 64) @ [b64_digit x]"

definition token_urlsafe32 :: "string op" where
  "token_urlsafe32 = bnd draw (\<lambda>x. ret (b64_digits 43 (x * 4)))"

definition token_urlsafe24 :: "string op" where
  "token_urlsafe24 = bnd draw (\<lambda>x. ret (b64_digits 32 x))"

definition randbelow :: "int \<Rightarrow> int op" where
  "randbelow n = bnd draw (\<lambda>x. ret (x mod n))"


section \<open>Credentials and their checks\<close>

text \<open>\<open>Credential.__post_init__\<close>\<close>

definition ok_credential :: "credential \<Rightarrow> bool" where
  "ok_credential r \<longleftrightarrow> is_ident (cr_id r) \<and> is_ident (cr_subject r) \<and> is_hex_text 64 (cr_verifier r)"

text \<open>\<open>CredentialStore._validate\<close>\<close>

definition valid_records :: "credential list \<Rightarrow> bool" where
  "valid_records rs \<longleftrightarrow>
     distinct (map cr_id rs) \<and> distinct (map cr_verifier rs)
     \<and> card (set (map cr_subject (filter (\<lambda>r. cr_role r = OWNER) rs))) \<le> 1
     \<and> (\<forall>r \<in> set rs. \<forall>r' \<in> set rs. cr_subject r = cr_subject r' \<longrightarrow> cr_role r = cr_role r')"

definition record_by_id :: "credential list \<Rightarrow> string \<Rightarrow> credential option" where
  "record_by_id rs i = find (\<lambda>r. cr_id r = i) (rev rs)"

text \<open>\<open>_validate_integrations\<close>\<close>

definition valid_integration_bindings :: "int_state \<Rightarrow> credential list \<Rightarrow> bool" where
  "valid_integration_bindings reqs rs \<longleftrightarrow>
     list_all (\<lambda>row. ir_credential_id row = [] \<or>
       (case record_by_id rs (ir_credential_id row) of None \<Rightarrow> False
        | Some r \<Rightarrow> cr_role r = INTEGRATION \<and> cr_subject r = ir_agent_id row))
     (dict_values reqs)"

text \<open>Everything \<open>load\<close> and \<open>replace\<close> demand of a snapshot.\<close>

definition valid_snapshot :: "snapshot \<Rightarrow> bool" where
  "valid_snapshot s \<longleftrightarrow>
     list_all ok_credential (sn_records s) \<and> valid_records (sn_records s)
     \<and> ok_owner (sn_owner s) \<and> ok_enrollment (sn_enrollment s) \<and> ok_lifecycle (sn_lifecycle s)
     \<and> ok_integration (sn_integration s)
     \<and> valid_integration_bindings (integration_requests s) (sn_records s)
     \<and> has_capacity (lifecycle_of s) (map cr_verifier (sn_records s))"


section \<open>The document\<close>

definition enc_credential :: "credential \<Rightarrow> json" where
  "enc_credential r = JObj [(''id'', JStr (cr_id r)), (''role'', JStr (role_name (cr_role r))),
     (''subject'', JStr (cr_subject r)), (''verifier'', JStr (cr_verifier r)), (''enabled'', JBool (cr_enabled r))]"

text \<open>\<open>Credential(**{**row, "role": Role(row["role"])})\<close>; every failure is one of the caught exceptions.\<close>

definition dec_credential :: "json \<Rightarrow> credential option" where
  "dec_credential row =
    (if list_all (has_key row) [''id'', ''role'', ''subject'', ''verifier'']
        \<and> keys_within row [''id'', ''role'', ''subject'', ''verifier'', ''enabled'']
        \<and> is_str (jat row ''id'') \<and> is_str (jat row ''role'') \<and> is_str (jat row ''subject'')
        \<and> is_str (jat row ''verifier'') \<and> (has_key row ''enabled'' \<longrightarrow> is_bool (jat row ''enabled''))
     then (case role_of_name (str_value (jat row ''role'')) of None \<Rightarrow> None
           | Some role \<Rightarrow>
               (let r = \<lparr>cr_id = str_value (jat row ''id''), cr_role = role,
                         cr_subject = str_value (jat row ''subject''),
                         cr_verifier = str_value (jat row ''verifier''),
                         cr_enabled = (if has_key row ''enabled'' then bool_value (jat row ''enabled'') else True)\<rparr>
                in if ok_credential r then Some r else None))
     else None)"

text \<open>The rows a \<open>for row in data["credentials"]\<close> visits, whatever JSON value it is given.\<close>

definition credential_rows :: "json \<Rightarrow> json list option" where
  "credential_rows j = (case j of JList xs \<Rightarrow> Some xs | JObj kvs \<Rightarrow> Some (map (\<lambda>kv. JStr (fst kv)) kvs)
     | JStr s \<Rightarrow> Some (map (\<lambda>c. JStr [c]) s) | _ \<Rightarrow> None)"

fun all_some :: "'a option list \<Rightarrow> 'a list option" where
  "all_some [] = Some []"
| "all_some (None # xs) = None"
| "all_some (Some x # xs) = map_option (Cons x) (all_some xs)"

definition dec_credentials :: "json \<Rightarrow> credential list option" where
  "dec_credentials j = (case credential_rows j of None \<Rightarrow> None | Some rows \<Rightarrow> all_some (map dec_credential rows))"

definition version_keys :: "int \<Rightarrow> string list" where
  "version_keys v = take (nat v + 1) [''version'', ''credentials'', ''owner'', ''enrollment'', ''lifecycle'', ''integration'']"

text \<open>\<open>data.get(key, {})\<close>\<close>

definition get_or_empty :: "json \<Rightarrow> string \<Rightarrow> json" where
  "get_or_empty j k = (case jget j k of None \<Rightarrow> JObj [] | Some v \<Rightarrow> v)"

definition parse_snapshot :: "json \<Rightarrow> exn + snapshot" where
  "parse_snapshot data =
    (let v = int_value (jat data ''version'');
         owner = get_or_empty data ''owner''; enrollment = get_or_empty data ''enrollment'';
         lifecycle = get_or_empty data ''lifecycle''; integration = get_or_empty data ''integration''
     in if \<not> (is_obj data \<and> int_within (jat data ''version'') 1 5 \<and> keys_are data (version_keys v))
        then Inl (ConfigError ''$'')
        else case dec_credentials (jat data ''credentials'') of
          None \<Rightarrow> Inl (ConfigError ''credentials'')
        | Some rs \<Rightarrow>
            if \<not> valid_records rs then Inl (ConfigError ''credentials'')
            else if \<not> validate_owner_state owner then Inl (ConfigError ''owner'')
            else if \<not> validate_enrollment enrollment then Inl (ConfigError ''enrollment'')
            else if \<not> validate_lifecycle lifecycle then Inl (ConfigError ''lifecycle'')
            else if \<not> validate_integration integration then Inl (ConfigError ''integration'')
            else
              (let s = \<lparr>sn_records = rs, sn_owner = dec_owner owner, sn_enrollment = dec_enrollment enrollment,
                        sn_lifecycle = dec_lifecycle lifecycle, sn_integration = dec_integration integration\<rparr>
               in if (v = 5 \<and> sn_integration s = None)
                     \<or> \<not> valid_integration_bindings (integration_requests s) rs
                     \<or> \<not> has_capacity (lifecycle_of s) (map cr_verifier rs)
                     \<or> (v = 4 \<and> sn_lifecycle s = None) \<or> (v = 3 \<and> sn_enrollment s = None)
                  then Inl (ConfigError ''integration'')
                  else Inr s))"

text \<open>The payload \<open>replace\<close> writes: the version says which namespaces follow.\<close>

definition payload :: "snapshot \<Rightarrow> json" where
  "payload s =
    (let base = [(''credentials'', enc_list enc_credential (sn_records s)), (''owner'', enc_owner (sn_owner s))];
         enr = [(''enrollment'', enc_enrollment (sn_enrollment s))];
         lc = [(''lifecycle'', enc_lifecycle (sn_lifecycle s))];
         int = [(''integration'', enc_integration (sn_integration s))]
     in if sn_integration s \<noteq> None then JObj ((''version'', JInt 5) # base @ enr @ lc @ int)
        else if sn_lifecycle s \<noteq> None then JObj ((''version'', JInt 4) # base @ enr @ lc)
        else if sn_enrollment s \<noteq> None then JObj ((''version'', JInt 3) # base @ enr)
        else JObj ((''version'', JInt 2) # base))"


section \<open>Loading\<close>

text \<open>
  What the file says: nothing when it is absent; otherwise a valid snapshot or a \<open>ConfigError\<close>
  naming the section.
\<close>

definition read_snapshot :: "doc_file \<Rightarrow> exn + snapshot" where
  "read_snapshot f = (if \<not> doc_exists f then Inr empty_snapshot else
     case read_json f of Inl e \<Rightarrow> Inl e | Inr data \<Rightarrow> parse_snapshot data)"

text \<open>\<open>load\<close>: a failed load leaves the empty snapshot, never stale access.\<close>

definition load :: "unit op" where
  "load = (\<lambda>w. case read_snapshot (w_authz w) of
     Inl e \<Rightarrow> (Inl e, w\<lparr>w_store := empty_snapshot\<rparr>)
   | Inr s \<Rightarrow> (Inr (), w\<lparr>w_store := s\<rparr>))"

text \<open>\<open>transaction\<close>: re-entrant; the outermost one reloads the file first.\<close>

definition transaction :: "'a op \<Rightarrow> 'a op" where
  "transaction m = (\<lambda>w.
     if w_transaction w then m w
     else case load w of
       (Inl e, w1) \<Rightarrow> (Inl e, w1)
     | (Inr _, w1) \<Rightarrow> (case m (w1\<lparr>w_transaction := True\<rparr>) of (r, w2) \<Rightarrow> (r, w2\<lparr>w_transaction := False\<rparr>)))"


section \<open>Who may act\<close>

text \<open>\<open>usable(record)\<close>: enabled, not blocked, no unfinished enrollment or lapsed replacement behind it.\<close>

definition op_withholds :: "time \<Rightarrow> credential \<Rightarrow> lc_row \<Rightarrow> bool" where
  "op_withholds now r row \<longleftrightarrow>
     (lr_state row = Op_delivered \<and> lr_overlap_until row \<le> now \<and> cr_id r \<in> set (lr_old_ids row))
     \<or> (lr_credential_id row = cr_id r \<and> lr_action row \<in> {Rotate, Recover}
         \<and> (lr_state row \<in> {Op_expired, Op_revoked}
             \<or> (lr_state row = Op_delivered \<and> lr_overlap_until row \<le> now)))"

definition usable :: "time \<Rightarrow> snapshot \<Rightarrow> credential \<Rightarrow> bool" where
  "usable now s r \<longleftrightarrow>
     cr_enabled r \<and> cr_verifier r \<notin> set (blocked_of s)
     \<and> (\<forall>row \<in> set (dict_values (integration_requests s)).
          \<not> (ir_credential_id row = cr_id r \<and> ir_state row \<noteq> In_completed))
     \<and> (\<forall>row \<in> set (dict_values (ls_operations (lifecycle_of s))). \<not> op_withholds now r row)"

definition principal_of :: "(string \<Rightarrow> string) \<Rightarrow> credential \<Rightarrow> principal" where
  "principal_of sha r = \<lparr>pr_role = cr_role r, pr_subject = cr_subject r, pr_credential_id = cr_id r,
     pr_generation = cred_generation sha r\<rparr>"

text \<open>\<open>authenticate(token)\<close>, where the token is whatever JSON value a request carried.\<close>

definition authenticate :: "world \<Rightarrow> json \<Rightarrow> principal option" where
  "authenticate w token = (case token of
     JStr t \<Rightarrow>
       if t = [] \<or> length t > 512 then None
       else map_option (principal_of (w_sha256 w))
         (find (\<lambda>r. token_verifier (w_sha256 w) t = cr_verifier r \<and> usable (w_now w) (w_store w) r)
            (sn_records (w_store w)))
   | _ \<Rightarrow> None)"

definition current :: "world \<Rightarrow> principal option \<Rightarrow> bool" where
  "current w p = (case p of None \<Rightarrow> False | Some pr \<Rightarrow>
     list_ex (\<lambda>r. principal_of (w_sha256 w) r = pr \<and> usable (w_now w) (w_store w) r) (sn_records (w_store w)))"

text \<open>\<open>integration_agent_valid(row)\<close>\<close>

definition integration_agent_valid :: "time \<Rightarrow> snapshot \<Rightarrow> int_row \<Rightarrow> bool" where
  "integration_agent_valid now s row \<longleftrightarrow>
     ir_credential_id row \<noteq> [] \<and> ir_state row = In_completed
     \<and> list_ex (\<lambda>r. cr_role r = INTEGRATION \<and> cr_subject r = ir_agent_id row \<and> usable now s r) (sn_records s)"

definition valid_agent_ids :: "time \<Rightarrow> snapshot \<Rightarrow> string list" where
  "valid_agent_ids now s =
     map ir_agent_id (filter (integration_agent_valid now s) (dict_values (integration_requests s)))"


section \<open>Writing\<close>

definition next_fault :: "world \<Rightarrow> write_outcome" where
  "next_fault w = (case w_faults w of [] \<Rightarrow> Write_ok | oc # _ \<Rightarrow> oc)"

definition write_authz :: "json \<Rightarrow> unit op" where
  "write_authz j = (\<lambda>w. case write_json (next_fault w) (w_authz w) j of
     (r, f) \<Rightarrow> (r, w\<lparr>w_authz := f, w_faults := tl (w_faults w)\<rparr>))"

text \<open>\<open>update_json\<close> on \<open>agents.json\<close>, with the write outcome taken from the world.\<close>

definition update_agents_file :: "(json \<Rightarrow> exn + json) \<Rightarrow> json op" where
  "update_agents_file change = (\<lambda>w. case update_json (next_fault w) change (w_agents_file w) of
     (r, f, wrote) \<Rightarrow> (r, w\<lparr>w_agents_file := f, w_faults := (if wrote then tl (w_faults w) else w_faults w)\<rparr>))"

text \<open>\<open>agents/registry._publish\<close>\<close>

definition publish_agents :: "json \<Rightarrow> unit op" where
  "publish_agents data = (\<lambda>w. case decode_agents data of
     Inl e \<Rightarrow> (Inl e, w)
   | Inr (agents, act) \<Rightarrow> (Inr (), w\<lparr>w_agents := agents, w_active_agent := act, w_agents_loaded := True\<rparr>))"

text \<open>\<open>agents/registry.retire_invalid\<close>: routing entries whose authority is gone leave the table.\<close>

definition retire_change :: "string list \<Rightarrow> json \<Rightarrow> exn + json" where
  "retire_change valid_ids data = (case decode_agents data of
     Inl e \<Rightarrow> Inl e
   | Inr (agents, act) \<Rightarrow>
       (let retained = filter (\<lambda>a. \<not> ag_integration a \<or> ag_id a \<in> set valid_ids) agents
        in Inr (encode_agents retained (if act \<in> set (map ag_id retained) then act else []))))"

definition retire_invalid :: "unit op" where
  "retire_invalid =
     bnd (reads w_agents_file) (\<lambda>f.
       if \<not> doc_exists f then ret ()
       else bnd (reads (\<lambda>w. valid_agent_ids (w_now w) (w_store w))) (\<lambda>ids.
              bnd (update_agents_file (retire_change ids)) publish_agents))"

definition set_records :: "credential list \<Rightarrow> world \<Rightarrow> world" where
  "set_records rs w = w\<lparr>w_store := (w_store w)\<lparr>sn_records := rs\<rparr>\<rparr>"

definition set_owner :: "owner_state option \<Rightarrow> world \<Rightarrow> world" where
  "set_owner st w = w\<lparr>w_store := (w_store w)\<lparr>sn_owner := st\<rparr>\<rparr>"

definition set_enrollment :: "enr_state option \<Rightarrow> world \<Rightarrow> world" where
  "set_enrollment st w = w\<lparr>w_store := (w_store w)\<lparr>sn_enrollment := st\<rparr>\<rparr>"

definition set_lifecycle :: "lc_state option \<Rightarrow> world \<Rightarrow> world" where
  "set_lifecycle st w = w\<lparr>w_store := (w_store w)\<lparr>sn_lifecycle := st\<rparr>\<rparr>"

definition set_integration :: "int_state option \<Rightarrow> world \<Rightarrow> world" where
  "set_integration st w = w\<lparr>w_store := (w_store w)\<lparr>sn_integration := st\<rparr>\<rparr>"

text \<open>A record keeps role, subject and verifier for as long as its ID is used.\<close>

definition ids_immutable :: "credential list \<Rightarrow> credential list \<Rightarrow> bool" where
  "ids_immutable old new \<longleftrightarrow>
     (\<forall>r \<in> set new. case record_by_id old (cr_id r) of None \<Rightarrow> True
        | Some p \<Rightarrow> cr_role p = cr_role r \<and> cr_subject p = cr_subject r \<and> cr_verifier p = cr_verifier r)"

text \<open>\<open>except OSError\<close> of \<open>replace\<close>: memory follows the file that is visible, then the write error is raised again.\<close>

definition after_write_error :: "exn \<Rightarrow> unit op" where
  "after_write_error e =
     (if e = OSError
      then andthen load
             (andthen (try_except retire_invalid (\<lambda>e'. if e' = OSError then ret () else raise e')) (raise e))
      else raise e)"

definition replace_records :: "credential list \<Rightarrow> unit op" where
  "replace_records rs =
     bnd (reads w_store) (\<lambda>s.
       andthen (raise_if (\<not> valid_records rs) ValueError)
       (andthen (raise_if (\<not> ids_immutable (sn_records s) rs) ValueError)
       (andthen (raise_if (\<not> validate_owner_state (enc_owner (sn_owner s))) ValueError)
       (andthen (raise_if (\<not> validate_enrollment (enc_enrollment (sn_enrollment s))) ValueError)
       (andthen (raise_if (\<not> validate_lifecycle (enc_lifecycle (sn_lifecycle s))) ValueError)
       (andthen (raise_if (\<not> validate_integration (enc_integration (sn_integration s))) ValueError)
       (andthen (raise_if (\<not> valid_integration_bindings (integration_requests s) rs) ValueError)
       (andthen (raise_if (\<not> has_capacity (lifecycle_of s) (map cr_verifier rs)) (EnrollmentError ''capacity''))
       (andthen (try_except (write_authz (payload (s\<lparr>sn_records := rs\<rparr>))) after_write_error)
       (andthen (modifies (set_records rs)) retire_invalid))))))))))"

text \<open>\<open>try: ... except BaseException: self.load(); raise\<close>\<close>

definition or_reload :: "'a op \<Rightarrow> 'a op" where
  "or_reload m = try_except m (\<lambda>e. andthen load (raise e))"

definition save_owner :: "owner_state option \<Rightarrow> unit op" where
  "save_owner st =
     bnd (reads w_transaction) (\<lambda>active.
       andthen (raise_if (\<not> active) (RuntimeError ''Owner writes require a store transaction''))
       (andthen (raise_if (\<not> validate_owner_state (enc_owner st)) ValueError)
       (andthen (modifies (set_owner st))
       (or_reload (bnd (reads (\<lambda>w. sn_records (w_store w))) replace_records)))))"

definition save_enrollment :: "enr_state option \<Rightarrow> credential list option \<Rightarrow> unit op" where
  "save_enrollment st rs =
     bnd (reads w_transaction) (\<lambda>active.
       andthen (raise_if (\<not> active) (RuntimeError ''Enrollment writes require a store transaction''))
       (andthen (raise_if (\<not> validate_enrollment (enc_enrollment st)) ValueError)
       (andthen (modifies (set_enrollment st))
       (or_reload (bnd (reads (\<lambda>w. sn_records (w_store w)))
          (\<lambda>held. replace_records (case rs of None \<Rightarrow> held | Some rs' \<Rightarrow> rs')))))))"


section \<open>The document and the snapshot\<close>

text \<open>No dictionary of the snapshot repeats a key, as in Python.\<close>

definition dicts_ok :: "snapshot \<Rightarrow> bool" where
  "dicts_ok s \<longleftrightarrow>
     (case sn_owner s of None \<Rightarrow> True | Some o' \<Rightarrow>
        (case ow_sessions o' of None \<Rightarrow> True | Some ss \<Rightarrow> is_dict (os_entries ss)))
     \<and> is_dict (enrollment_requests s)
     \<and> is_dict (ls_operations (lifecycle_of s)) \<and> is_dict (ls_bindings (lifecycle_of s))
     \<and> is_dict (ls_recovery (lifecycle_of s)) \<and> is_dict (integration_requests s)"

definition wf_snapshot :: "snapshot \<Rightarrow> bool" where
  "wf_snapshot s \<longleftrightarrow> valid_snapshot s \<and> dicts_ok s"

lemma dec_enc_credential [simp]: "ok_credential r \<Longrightarrow> dec_credential (enc_credential r) = Some r"
  by (simp add: dec_credential_def enc_credential_def has_key_def jkeys_def jat_def keys_within_def Let_def ok_credential_def)

lemma all_some_map: "(\<And>x. x \<in> set xs \<Longrightarrow> f x = Some (g x)) \<Longrightarrow> all_some (map f xs) = Some (map g xs)"
  by (induction xs) auto

lemma dec_enc_credentials [simp]:
  "list_all ok_credential rs \<Longrightarrow> dec_credentials (enc_list enc_credential rs) = Some rs"
  using all_some_map [of rs "\<lambda>r. dec_credential (enc_credential r)" id]
  by (simp add: dec_credentials_def credential_rows_def enc_list_def list_all_iff comp_def)

lemma dec_owner_empty [simp]: "dec_owner (JObj []) = None"
  by (simp add: dec_owner_def)

lemma dec_enrollment_empty [simp]: "dec_enrollment (JObj []) = None"
  by (simp add: dec_enrollment_def)

lemma dec_lifecycle_empty [simp]: "dec_lifecycle (JObj []) = None"
  by (simp add: dec_lifecycle_def)

lemma dec_integration_empty [simp]: "dec_integration (JObj []) = None"
  by (simp add: dec_integration_def)

lemma validate_empty [simp]: "validate_enrollment (JObj [])" "validate_lifecycle (JObj [])"
  "validate_integration (JObj [])" "validate_owner_state (JObj [])"
  by (simp_all add: validate_enrollment_def validate_lifecycle_def validate_integration_def validate_owner_state_def)

definition payload_version :: "snapshot \<Rightarrow> int" where
  "payload_version s = (if sn_integration s \<noteq> None then 5 else if sn_lifecycle s \<noteq> None then 4
     else if sn_enrollment s \<noteq> None then 3 else 2)"

lemma payload_fields:
  "is_obj (payload s)"
  "jat (payload s) ''version'' = JInt (payload_version s)"
  "keys_are (payload s) (version_keys (payload_version s))"
  "jat (payload s) ''credentials'' = enc_list enc_credential (sn_records s)"
  "get_or_empty (payload s) ''owner'' = enc_owner (sn_owner s)"
  "dec_enrollment (get_or_empty (payload s) ''enrollment'') = sn_enrollment s"
  "dec_lifecycle (get_or_empty (payload s) ''lifecycle'') = sn_lifecycle s"
  "dec_integration (get_or_empty (payload s) ''integration'') = sn_integration s"
  "ok_enrollment (sn_enrollment s) \<Longrightarrow> validate_enrollment (get_or_empty (payload s) ''enrollment'')"
  "ok_lifecycle (sn_lifecycle s) \<Longrightarrow> validate_lifecycle (get_or_empty (payload s) ''lifecycle'')"
  "ok_integration (sn_integration s) \<Longrightarrow> validate_integration (get_or_empty (payload s) ''integration'')"
  by (auto simp: payload_def payload_version_def jat_def keys_are_def jkeys_def version_keys_def
      get_or_empty_def Let_def take_Cons' eval_nat_numeral)

lemma snapshot_eta [simp]:
  "\<lparr>sn_records = sn_records s, sn_owner = sn_owner s, sn_enrollment = sn_enrollment s,
    sn_lifecycle = sn_lifecycle s, sn_integration = sn_integration s\<rparr> = s"
  by simp

lemma payload_version_cases:
  "1 \<le> payload_version s" "payload_version s \<le> 5"
  "payload_version s = 5 \<longleftrightarrow> sn_integration s \<noteq> None"
  "payload_version s = 4 \<Longrightarrow> sn_lifecycle s \<noteq> None"
  "payload_version s = 3 \<Longrightarrow> sn_enrollment s \<noteq> None"
  by (auto simp: payload_version_def split: if_splits)

lemma parse_payload:
  assumes "valid_snapshot s"
  shows "parse_snapshot (payload s) = Inr s"
proof -
  have "\<not> (payload_version s = 5 \<and> sn_integration s = None)" "\<not> (payload_version s = 4 \<and> sn_lifecycle s = None)"
    "\<not> (payload_version s = 3 \<and> sn_enrollment s = None)"
    using payload_version_cases [of s] by auto
  then show ?thesis
    using assms unfolding valid_snapshot_def parse_snapshot_def payload_fields Let_def int_value.simps
    by (simp add: payload_fields payload_version_cases del: not_None_eq)
qed

lemma unique_enc_owner: "(case st of None \<Rightarrow> True | Some o' \<Rightarrow>
     (case ow_sessions o' of None \<Rightarrow> True | Some ss \<Rightarrow> is_dict (os_entries ss))) \<Longrightarrow> unique_json (enc_owner st)"
  by (cases st; cases "ow_sessions (the st)"; cases "ow_pending (the st)"; cases "ow_attempts (the st)")
    (auto simp: enc_owner_def unique_obj_of distinct_jkeys_obj_of enc_owner_sessions_def enc_owner_pending_def
      option.pred_map comp_def option.pred_True)

lemma unique_payload:
  assumes "dicts_ok s"
  shows "unique_json (payload s)"
proof -
  have "unique_json (enc_credential r)" for r by (simp add: enc_credential_def)
  moreover have "unique_json (enc_actor a)" for a by (cases a) (simp_all add: enc_actor_def)
  then have "unique_json (enc_enr_row r)" for r by (simp add: enc_enr_row_def)
  then have "unique_json (enc_enrollment (sn_enrollment s))"
    using assms by (cases "sn_enrollment s") (simp_all add: enc_enrollment_def dicts_ok_def enrollment_requests_def)
  moreover have "unique_json (enc_lc_row r)" "unique_json (enc_binding b)" "unique_json (enc_recovery c)" for r b c
    by (simp_all add: enc_lc_row_def enc_binding_def enc_recovery_def)
  then have "unique_json (enc_lifecycle (sn_lifecycle s))"
    using assms by (cases "sn_lifecycle s") (simp_all add: enc_lifecycle_def dicts_ok_def lifecycle_of_def)
  moreover have "unique_json (enc_int_row r)" for r by (simp add: enc_int_row_def)
  then have "unique_json (enc_integration (sn_integration s))"
    using assms by (cases "sn_integration s") (simp_all add: enc_integration_def dicts_ok_def integration_requests_def)
  moreover have "unique_json (enc_owner (sn_owner s))"
    using assms by (intro unique_enc_owner) (simp add: dicts_ok_def)
  ultimately show ?thesis
    by (simp add: payload_def Let_def)
qed

text \<open>What was written is what the next load, in this process or another, publishes.\<close>

lemma read_written_snapshot: "wf_snapshot s \<Longrightarrow> read_snapshot (Doc (payload s)) = Inr s"
  by (simp add: read_snapshot_def doc_exists_def read_json_def wf_snapshot_def unique_payload parse_payload)

end
