(* ===== verification/Store_Laws.thy ===== *)
theory Store_Laws
  imports Credential_Store
begin

text \<open>
  What the credential store promises its callers. Every load publishes a well-formed snapshot or
  none at all; after any outcome of a write, successful, refused or torn by an \<open>OSError\<close>, the
  snapshot in memory is the one the visible file holds; a credential that is blocked, disabled,
  unfinished or superseded never authenticates.
\<close>

named_theorems store_simps "what the store operations change"


lemma run_cong_transaction: "transaction m = transaction m"
  by (rule refl)

lemma run_cong_reload: "or_reload m = or_reload m"
  by (rule refl)

lemmas store_run_congs = run_congs run_cong_transaction run_cong_reload

lemmas [run_defs] = action_simps transaction_def load_def or_reload_def replace_records_def save_owner_def
  save_enrollment_def write_authz_def write_json_def next_fault_def retire_invalid_def doc_exists_def
  update_agents_file_def publish_agents_def set_records_def set_owner_def set_enrollment_def set_lifecycle_def
  set_integration_def token_hex_def draw_def token_urlsafe24_def token_urlsafe32_def randbelow_def

section \<open>Every load publishes a well-formed snapshot\<close>

lemma all_some_SomeD: "all_some (map f xs) = Some ys \<Longrightarrow> y \<in> set ys \<Longrightarrow> \<exists>x \<in> set xs. f x = Some y"
proof (induction xs arbitrary: ys)
  case (Cons x xs)
  then show ?case by (cases "f x") auto
qed simp

lemma dec_credential_ok: "dec_credential j = Some r \<Longrightarrow> ok_credential r"
  by (auto simp: dec_credential_def Let_def split: if_splits option.splits)

lemma dec_credentials_ok: "dec_credentials j = Some rs \<Longrightarrow> list_all ok_credential rs"
  by (auto simp: dec_credentials_def list_all_iff dest!: all_some_SomeD dec_credential_ok split: option.splits)

lemma unique_get_or_empty: "unique_json j \<Longrightarrow> unique_json (get_or_empty j k)"
  using unique_jat [of j k] by (auto simp: get_or_empty_def jat_def split: option.splits)

lemma dicts_ok_dec:
  assumes "unique_json o'" "unique_json e" "unique_json l" "unique_json i"
  shows "dicts_ok \<lparr>sn_records = rs, sn_owner = dec_owner o', sn_enrollment = dec_enrollment e,
           sn_lifecycle = dec_lifecycle l, sn_integration = dec_integration i\<rparr>"
proof -
  have sessions: "is_dict (os_entries ss)" if "jget o' ''sessions'' = Some s" "ss = dec_owner_sessions s" for s ss
    using assms(1) that unique_jat [of o' "''sessions''"] unique_jat [of s "''entries''"]
    by (simp add: dec_owner_sessions_def is_dict_dec_dict jget_jat)
  have "case dec_owner o' of None \<Rightarrow> True | Some ow \<Rightarrow>
      (case ow_sessions ow of None \<Rightarrow> True | Some ss \<Rightarrow> is_dict (os_entries ss))"
    by (auto simp: dec_owner_def sessions split: option.splits)
  moreover have "is_dict (dec_dict g (jat j k))" if "unique_json j" for g :: "json \<Rightarrow> 'z" and j k
    using that by (simp add: is_dict_dec_dict unique_jat)
  ultimately show ?thesis
    using assms
    by (simp add: dicts_ok_def enrollment_requests_def lifecycle_of_def integration_requests_def
        dec_enrollment_def dec_lifecycle_def dec_integration_def empty_lifecycle_def is_dict_dec_dict unique_jat)
qed

lemma parse_snapshot_wf:
  assumes p: "parse_snapshot data = Inr s" and u: "unique_json data"
  shows "wf_snapshot s"
proof -
  from p obtain rs where rs: "dec_credentials (jat data ''credentials'') = Some rs" "valid_records rs"
    and v: "validate_owner_state (get_or_empty data ''owner'')" "validate_enrollment (get_or_empty data ''enrollment'')"
      "validate_lifecycle (get_or_empty data ''lifecycle'')" "validate_integration (get_or_empty data ''integration'')"
    and s: "s = \<lparr>sn_records = rs, sn_owner = dec_owner (get_or_empty data ''owner''),
        sn_enrollment = dec_enrollment (get_or_empty data ''enrollment''),
        sn_lifecycle = dec_lifecycle (get_or_empty data ''lifecycle''),
        sn_integration = dec_integration (get_or_empty data ''integration'')\<rparr>"
    and b: "valid_integration_bindings (integration_requests s) rs" "has_capacity (lifecycle_of s) (map cr_verifier rs)"
    by (auto simp: parse_snapshot_def Let_def split: if_splits option.splits)
  have "valid_snapshot s"
    using rs(2) b dec_credentials_ok [OF rs(1)] dec_owner_ok [OF v(1)] dec_enrollment_ok [OF v(2)]
      dec_lifecycle_ok [OF v(3)] dec_integration_ok [OF v(4)]
    by (simp add: valid_snapshot_def s)
  moreover have "dicts_ok s"
    unfolding s using u by (intro dicts_ok_dec unique_get_or_empty)
  ultimately show ?thesis by (simp add: wf_snapshot_def)
qed

lemma wf_empty_snapshot [simp]: "wf_snapshot empty_snapshot"
  by (simp add: wf_snapshot_def valid_snapshot_def empty_snapshot_def dicts_ok_def valid_records_def
      ok_owner_def ok_enrollment_def ok_lifecycle_def ok_integration_def valid_integration_bindings_def
      integration_requests_def enrollment_requests_def lifecycle_of_def empty_lifecycle_def has_capacity_def
      unfinished_def dict_values_def TOMBSTONE_LIMIT_def OPERATION_LIMIT_def LIMIT_def)

lemma read_snapshot_wf: "read_snapshot f = Inr s \<Longrightarrow> wf_snapshot s"
  by (auto simp: read_snapshot_def read_json_def parse_snapshot_wf split: if_splits sum.splits doc_file.splits)


section \<open>What the routing table cannot touch\<close>

text \<open>Everything of the world except the routing table and the queue of write outcomes.\<close>

definition authority :: "world \<Rightarrow> world" where
  "authority w = w\<lparr>w_agents_file := No_file, w_agents := [], w_active_agent := [], w_agents_loaded := False,
     w_faults := []\<rparr>"

definition same_authority :: "world \<Rightarrow> world \<Rightarrow> bool" where
  "same_authority w w' \<longleftrightarrow> authority w' = authority w"

interpretation authority_step: step_relation same_authority
  by unfold_locales (auto simp: same_authority_def)

lemma same_authority_fields:
  assumes "same_authority w w'"
  shows "w_store w' = w_store w" "w_authz w' = w_authz w" "w_transaction w' = w_transaction w"
    "w_now w' = w_now w" "w_entropy w' = w_entropy w" "w_drawn w' = w_drawn w" "w_sha256 w' = w_sha256 w"
    "w_hmac w' = w_hmac w" "w_ed25519 w' = w_ed25519 w" "w_override w' = w_override w" "w_origin w' = w_origin w"
    "w_direct_url w' = w_direct_url w" "w_device_id_length w' = w_device_id_length w"
  using assms by (cases w; cases w'; simp add: same_authority_def authority_def)+

lemma update_agents_file_authority: "obeys same_authority (update_agents_file change)"
  by (simp add: obeys_def update_agents_file_def same_authority_def authority_def split: prod.split)

lemma publish_agents_authority: "obeys same_authority (publish_agents data)"
  by (simp add: obeys_def publish_agents_def same_authority_def authority_def split: sum.split prod.split)

lemma retire_invalid_authority: "obeys same_authority retire_invalid"
  unfolding retire_invalid_def
  by (intro authority_step.obeys_rules update_agents_file_authority publish_agents_authority)

lemma same_authority_authenticate:
  assumes "same_authority w w'"
  shows "authenticate w' t = authenticate w t" and "current w' p = current w p"
  unfolding authenticate_def current_def same_authority_fields [OF assms] by (rule refl)+


section \<open>The outcomes of a write\<close>

text \<open>The snapshot in memory is the one the file holds, or empty because the file is not readable.\<close>

definition follows_file :: "world \<Rightarrow> bool" where
  "follows_file w \<longleftrightarrow> (case read_snapshot (w_authz w) of
     Inl _ \<Rightarrow> w_store w = empty_snapshot | Inr s \<Rightarrow> w_store w = s)"

definition rewritten :: "world \<Rightarrow> credential list \<Rightarrow> snapshot" where
  "rewritten w rs = (w_store w)\<lparr>sn_records := rs\<rparr>"

text \<open>The checks \<open>replace\<close> makes before it writes.\<close>

definition admits :: "world \<Rightarrow> credential list \<Rightarrow> bool" where
  "admits w rs \<longleftrightarrow> (let s = w_store w in
     valid_records rs \<and> ids_immutable (sn_records s) rs \<and> ok_owner (sn_owner s)
     \<and> ok_enrollment (sn_enrollment s) \<and> ok_lifecycle (sn_lifecycle s) \<and> ok_integration (sn_integration s)
     \<and> valid_integration_bindings (integration_requests s) rs
     \<and> has_capacity (lifecycle_of s) (map cr_verifier rs))"

lemma admits_valid: "admits w rs \<Longrightarrow> list_all ok_credential rs \<Longrightarrow> valid_snapshot (rewritten w rs)"
  by (simp add: admits_def rewritten_def valid_snapshot_def Let_def lifecycle_of_def integration_requests_def)

lemma load_follows: "follows_file (snd (load w))"
  by (simp add: load_def follows_file_def split: sum.split)

lemma load_frame:
  "w_authz (snd (load w)) = w_authz w" "w_transaction (snd (load w)) = w_transaction w"
  "w_now (snd (load w)) = w_now w" "w_sha256 (snd (load w)) = w_sha256 w"
  "w_faults (snd (load w)) = w_faults w"
  by (simp_all add: load_def split: sum.split)

lemma follows_file_authority:
  assumes "same_authority w w'"
  shows "follows_file w' \<longleftrightarrow> follows_file w"
  unfolding follows_file_def same_authority_fields [OF assms] by (rule refl)

lemma after_write_error_follows: "follows_file (snd (after_write_error OSError w))"
  and after_write_error_raises: "\<exists>e'. fst (after_write_error e w) = Inl e'"
  and after_write_error_authz: "w_authz (snd (after_write_error e w)) = w_authz w"
proof -
  let ?h = "try_except retire_invalid (\<lambda>e'. if e' = OSError then ret () else raise e')"
  have h: "obeys same_authority ?h"
    by (intro authority_step.obeys_rules retire_invalid_authority)
  have h_step: "same_authority v (snd (?h v))" for v
    using h by (simp add: obeys_def)
  have shape: "after_write_error e w = (if e \<noteq> OSError then (Inl e, w) else
      (case load w of (Inl e', v) \<Rightarrow> (Inl e', v)
       | (Inr _, v) \<Rightarrow> (case ?h v of (Inl e', u) \<Rightarrow> (Inl e', u) | (Inr _, u) \<Rightarrow> (Inl e, u))))" for e
    by (cases "e = OSError") (simp_all only: after_write_error_def run_andthen run_raise simp_thms if_True if_False refl)
  obtain r v where l: "load w = (r, v)" by (cases "load w")
  obtain q u where hv: "?h v = (q, u)" by (cases "?h v")
  have step: "same_authority v u" using h_step [of v] by (simp only: hv snd_conv)
  have v: "follows_file v" "w_authz v = w_authz w"
    using load_follows [of w] load_frame(1) [of w] by (simp_all add: l)
  have u: "follows_file u" "w_authz u = w_authz w"
    using v follows_file_authority [OF step] same_authority_fields(2) [OF step] by simp_all
  have out: "after_write_error e w = (if e \<noteq> OSError then (Inl e, w) else
      (case r of Inl e' \<Rightarrow> (Inl e', v) | Inr _ \<Rightarrow> (case q of Inl e' \<Rightarrow> (Inl e', u) | Inr _ \<Rightarrow> (Inl e, u))))" for e
    unfolding shape l prod.case hv by (simp only: prod.case hv split: sum.split)
  show "follows_file (snd (after_write_error OSError w))"
    unfolding out using u v by (simp split: sum.split)
  show "\<exists>e'. fst (after_write_error e w) = Inl e'"
    unfolding out by (simp split: sum.split)
  show "w_authz (snd (after_write_error e w)) = w_authz w"
    unfolding out using u v by (simp split: sum.split)
qed

text \<open>
  The four outcomes of \<open>replace\<close>. Only the first returns; in every case memory does not run ahead
  of the file.
\<close>

lemma replace_records_outcome:
  assumes run: "replace_records rs w = (r, w')"
  obtains
    (committed) "r = Inr ()" "admits w rs" "w_store w' = rewritten w rs"
      "w_authz w' = Doc (payload (rewritten w rs))"
  | (refused) e where "r = Inl e" and "\<not> admits w rs" and "w' = w"
  | (routing) e where "r = Inl e" and "admits w rs" and "w_store w' = rewritten w rs"
      and "w_authz w' = Doc (payload (rewritten w rs))"
  | (torn) e where "r = Inl e" and "admits w rs" and "follows_file w'"
      and "w_authz w' = w_authz w \<or> w_authz w' = Doc (payload (rewritten w rs))"
proof (cases "admits w rs")
  case False
  then have "\<exists>e. r = Inl e \<and> w' = w"
    using run by (auto simp: replace_records_def admits_def action_simps Let_def split: if_splits)
  then show thesis using False that(2) by blast
next
  case True
  let ?new = "rewritten w rs"
  obtain r0 w0 where wr: "write_authz (payload ?new) w = (r0, w0)" by (cases "write_authz (payload ?new) w")
  have go: "(case (case r0 of Inl e \<Rightarrow> after_write_error e w0 | Inr x \<Rightarrow> (Inr x, w0)) of
      (Inl e, t) \<Rightarrow> (Inl e, t) | (Inr _, t) \<Rightarrow> andthen (modifies (set_records rs)) retire_invalid t) = (r, w')"
    using run True wr
    by (simp add: replace_records_def admits_def action_simps Let_def rewritten_def split: sum.splits)
  show thesis
  proof (cases r0)
    case (Inl e)
    then have e: "e = OSError" and authz: "w_authz w0 = w_authz w \<or> w_authz w0 = Doc (payload ?new)"
      using wr by (auto simp: write_authz_def write_json_def split: prod.splits write_outcome.splits)
    have "after_write_error e w0 = (r, w')"
      using go Inl after_write_error_raises [of e w0] by (auto split: sum.splits prod.splits)
    then show thesis
      using that(4) True authz after_write_error_raises [of e w0] after_write_error_follows [of w0]
        after_write_error_authz [of e w0] e by (metis fst_conv snd_conv)
  next
    case (Inr u)
    have w0: "w_store w0 = w_store w" "w_authz w0 = Doc (payload ?new)"
      using wr Inr by (auto simp: write_authz_def write_json_def split: prod.splits write_outcome.splits)
    have "retire_invalid (set_records rs w0) = (r, w')" using go Inr by (simp add: action_simps)
    then have "same_authority (set_records rs w0) w'"
      using retire_invalid_authority unfolding obeys_def by (metis snd_conv)
    from same_authority_fields [OF this] have "w_store w' = ?new" "w_authz w' = Doc (payload ?new)"
      using w0 by (simp_all add: set_records_def rewritten_def)
    then show thesis using that(1,3) True by (cases r) auto
  qed
qed


section \<open>The environment of a request\<close>

text \<open>No operation moves the clock, changes the libraries or the configuration.\<close>

definition environment :: "world \<Rightarrow> world" where
  "environment w = w\<lparr>w_store := empty_snapshot, w_transaction := False, w_authz := No_file, w_drawn := 0,
     w_origin := [], w_agents_file := No_file, w_agents := [], w_active_agent := [], w_agents_loaded := False,
     w_faults := []\<rparr>"

definition same_environment :: "world \<Rightarrow> world \<Rightarrow> bool" where
  "same_environment w w' \<longleftrightarrow> environment w' = environment w"

interpretation environment_step: step_relation same_environment
  by unfold_locales (auto simp: same_environment_def)

lemma same_environment_fields:
  assumes "same_environment w w'"
  shows "w_now w' = w_now w" "w_entropy w' = w_entropy w" "w_sha256 w' = w_sha256 w" "w_hmac w' = w_hmac w"
    "w_ed25519 w' = w_ed25519 w" "w_override w' = w_override w" "w_direct_url w' = w_direct_url w"
    "w_device_id_length w' = w_device_id_length w"
  using assms by (cases w; cases w'; simp add: same_environment_def environment_def)+

named_theorems environment_rules "operations that leave the environment alone"

lemma same_authority_environment: "same_authority w w' \<Longrightarrow> same_environment w w'"
  by (cases w; cases w'; simp add: same_environment_def environment_def same_authority_def authority_def)

lemma environment_retire_invalid [environment_rules]: "obeys same_environment retire_invalid"
  using retire_invalid_authority same_authority_environment by (auto simp: obeys_def)

lemma environment_load [environment_rules]: "obeys same_environment load"
  by (simp add: obeys_def load_def same_environment_def environment_def split: sum.split)

lemma environment_draw [environment_rules]: "obeys same_environment draw"
  by (simp add: obeys_def draw_def same_environment_def environment_def)

lemma environment_write_authz [environment_rules]: "obeys same_environment (write_authz j)"
  by (simp add: obeys_def write_authz_def same_environment_def environment_def split: prod.split)

lemma environment_update_agents_file [environment_rules]: "obeys same_environment (update_agents_file change)"
  by (simp add: obeys_def update_agents_file_def same_environment_def environment_def split: prod.split)

lemma environment_publish_agents [environment_rules]: "obeys same_environment (publish_agents data)"
  by (simp add: obeys_def publish_agents_def same_environment_def environment_def split: sum.split prod.split)

lemma environment_set [environment_rules]:
  "obeys same_environment (modifies (set_records rs))" "obeys same_environment (modifies (set_owner o'))"
  "obeys same_environment (modifies (set_enrollment e))" "obeys same_environment (modifies (set_lifecycle l))"
  "obeys same_environment (modifies (set_integration i))"
  by (simp_all add: obeys_def modifies_def same_environment_def environment_def set_records_def set_owner_def
      set_enrollment_def set_lifecycle_def set_integration_def)

lemma environment_after_write_error [environment_rules]: "obeys same_environment (after_write_error e)"
  unfolding after_write_error_def by (intro environment_step.obeys_rules environment_rules)

lemma environment_replace_records [environment_rules]: "obeys same_environment (replace_records rs)"
  unfolding replace_records_def
  by (intro environment_step.obeys_rules environment_rules)

lemma environment_or_reload [environment_rules]: "obeys same_environment m \<Longrightarrow> obeys same_environment (or_reload m)"
  unfolding or_reload_def by (intro environment_step.obeys_rules environment_rules)

lemma environment_save_owner [environment_rules]: "obeys same_environment (save_owner st)"
  unfolding save_owner_def by (intro environment_step.obeys_rules environment_rules)

lemma environment_save_enrollment [environment_rules]: "obeys same_environment (save_enrollment st rs)"
  unfolding save_enrollment_def by (intro environment_step.obeys_rules environment_rules)

lemma environment_transaction [environment_rules]:
  assumes "obeys same_environment m"
  shows "obeys same_environment (transaction m)"
proof -
  have m: "same_environment w (snd (m w))" for w using assms by (simp add: obeys_def)
  have flag: "same_environment w (w'\<lparr>w_transaction := b\<rparr>) = same_environment w w'"
    "same_environment (w\<lparr>w_transaction := b\<rparr>) w' = same_environment w w'" for w w' b
    by (simp_all add: same_environment_def environment_def)
  have l: "same_environment w (snd (load w))" for w using environment_load by (simp add: obeys_def)
  have "same_environment w (snd (transaction m w))" for w
    using m [of w] l [of w] m [of "(snd (load w))\<lparr>w_transaction := True\<rparr>"]
    by (auto simp: transaction_def flag split: prod.splits sum.splits
        intro: environment_step.R_trans [of w "snd (load w)"])
  then show ?thesis by (simp add: obeys_def)
qed


section \<open>The store never forgets\<close>

text \<open>
  \<open>guarded B C\<close>: the file is a document the next load accepts, it blocks every verifier of \<open>B\<close> and
  holds every credential of \<open>C\<close> (its ID, role, subject and verifier), and so does memory. Every
  operation of the server keeps this for every \<open>B\<close> and \<open>C\<close>: no write makes the store unreadable,
  a tombstone is for ever, and a credential ID never changes its meaning.
\<close>

definition identity :: "credential \<Rightarrow> string \<times> role \<times> string \<times> string" where
  "identity r = (cr_id r, cr_role r, cr_subject r, cr_verifier r)"

type_synonym identities = "(string \<times> role \<times> string \<times> string) set"

definition remembers :: "string set \<Rightarrow> identities \<Rightarrow> snapshot \<Rightarrow> bool" where
  "remembers B C s \<longleftrightarrow> B \<subseteq> set (blocked_of s) \<and> C \<subseteq> identity ` set (sn_records s)"

definition shaped :: "snapshot \<Rightarrow> bool" where
  "shaped s \<longleftrightarrow> list_all ok_credential (sn_records s) \<and> dicts_ok s"

text \<open>SHA-256 digests are 64 hexadecimal digits.\<close>

definition hash_ok :: "world \<Rightarrow> bool" where
  "hash_ok w \<longleftrightarrow> (\<forall>x. is_hex_text 64 (w_sha256 w x))"

definition durable :: "string set \<Rightarrow> identities \<Rightarrow> world \<Rightarrow> bool" where
  "durable B C w \<longleftrightarrow> hash_ok w \<and> (\<exists>s. read_snapshot (w_authz w) = Inr s \<and> remembers B C s)"

definition guarded :: "string set \<Rightarrow> identities \<Rightarrow> world \<Rightarrow> bool" where
  "guarded B C w \<longleftrightarrow> durable B C w \<and> shaped (w_store w) \<and> remembers B C (w_store w)"

text \<open>At the start of a request: outside a transaction nothing is asked of memory, which is reloaded.\<close>

definition entry :: "string set \<Rightarrow> identities \<Rightarrow> world \<Rightarrow> bool" where
  "entry B C w \<longleftrightarrow> durable B C w \<and> (w_transaction w \<longrightarrow> guarded B C w)"

lemma guarded_durable: "guarded B C w \<Longrightarrow> durable B C w"
  by (simp add: guarded_def)

lemma guarded_entry: "guarded B C w \<Longrightarrow> entry B C w"
  by (simp add: entry_def guarded_def)

lemma hash_ok_verifier: "hash_ok w \<Longrightarrow> is_hex_text 64 (token_verifier (w_sha256 w) t)"
  by (simp add: hash_ok_def token_verifier_def)

lemma guarded_flag [simp]: "guarded B C (w\<lparr>w_transaction := b\<rparr>) = guarded B C w"
  by (simp add: guarded_def durable_def hash_ok_def)

lemma guarded_drawn [simp]: "guarded B C (w\<lparr>w_drawn := n\<rparr>) = guarded B C w"
  by (simp add: guarded_def durable_def hash_ok_def)

lemma guarded_same_authority:
  assumes "same_authority w w'"
  shows "guarded B C w' = guarded B C w"
  unfolding guarded_def durable_def hash_ok_def same_authority_fields [OF assms] by (rule refl)

lemma read_snapshot_shaped: "read_snapshot f = Inr s \<Longrightarrow> shaped s"
  using read_snapshot_wf [of f s] by (simp add: wf_snapshot_def shaped_def valid_snapshot_def)

lemma durable_load: "durable B C w \<Longrightarrow> \<exists>w'. load w = (Inr (), w') \<and> guarded B C w'
    \<and> w_transaction w' = w_transaction w"
  by (auto simp: durable_def load_def guarded_def hash_ok_def dest: read_snapshot_shaped)

lemma follows_file_guarded: "follows_file w \<Longrightarrow> durable B C w \<Longrightarrow> guarded B C w"
  by (auto simp: durable_def follows_file_def guarded_def dest: read_snapshot_shaped)

lemma triple_load: "triple (durable B C) load (\<lambda>_. guarded B C) (\<lambda>_. guarded B C)"
  by (auto simp: triple_def dest: durable_load)

lemma triple_reload [triple_rules]:
  "triple (guarded B C) load (\<lambda>_. guarded B C) (\<lambda>_. guarded B C)"
  by (rule triple_pre [OF triple_load]) (rule guarded_durable)

lemma triple_draw [triple_rules]: "triple (guarded B C) draw (\<lambda>_. guarded B C) X"
  by (simp add: triple_def draw_def)

lemma triple_transaction:
  assumes "triple (guarded B C) m (\<lambda>_. guarded B C) (\<lambda>_. guarded B C)"
  shows "triple (entry B C) (transaction m) (\<lambda>_. guarded B C) (\<lambda>_. guarded B C)"
proof -
  have step: "guarded B C w \<Longrightarrow> guarded B C (snd (m w))" for w
    using triple_sameD [OF assms] .
  have "guarded B C (snd (transaction m w))" if "entry B C w" for w
  proof (cases "w_transaction w")
    case True
    then show ?thesis using that step by (simp add: transaction_def entry_def)
  next
    case False
    have "durable B C w" using that by (simp add: entry_def)
    from durable_load [OF this] obtain w' where "load w = (Inr (), w')" "guarded B C w'" by blast
    then show ?thesis
      using step [of "w'\<lparr>w_transaction := True\<rparr>"] False
      by (cases "m (w'\<lparr>w_transaction := True\<rparr>)") (simp add: transaction_def)
  qed
  then show ?thesis by (intro triple_sameI) simp_all
qed

lemma rewritten_guarded:
  assumes g: "guarded B C w" and a: "admits w rs" and rs: "list_all ok_credential rs" "C \<subseteq> identity ` set rs"
  shows "read_snapshot (Doc (payload (rewritten w rs))) = Inr (rewritten w rs)"
    and "shaped (rewritten w rs)" and "remembers B C (rewritten w rs)"
proof -
  have "dicts_ok (rewritten w rs)"
    using g by (simp add: guarded_def shaped_def rewritten_def dicts_ok_def enrollment_requests_def
        lifecycle_of_def integration_requests_def)
  then show "read_snapshot (Doc (payload (rewritten w rs))) = Inr (rewritten w rs)"
    and "shaped (rewritten w rs)"
    using admits_valid [OF a rs(1)] rs by (simp_all add: read_written_snapshot wf_snapshot_def shaped_def rewritten_def)
  show "remembers B C (rewritten w rs)"
    using g rs by (simp add: guarded_def remembers_def rewritten_def blocked_of_def lifecycle_of_def)
qed

definition holds_credentials :: "identities \<Rightarrow> credential list \<Rightarrow> bool" where
  "holds_credentials C rs \<longleftrightarrow> list_all ok_credential rs \<and> C \<subseteq> identity ` set rs"

lemma guarded_holds: "guarded B C w \<Longrightarrow> holds_credentials C (sn_records (w_store w))"
  by (simp add: guarded_def shaped_def remembers_def holds_credentials_def)

lemma hash_ok_environment: "same_environment w w' \<Longrightarrow> hash_ok w' = hash_ok w"
  unfolding hash_ok_def by (simp only: same_environment_fields)

lemma triple_replace_records:
  "triple (\<lambda>w. guarded B C w \<and> holds_credentials C rs) (replace_records rs) (\<lambda>_. guarded B C) (\<lambda>_. guarded B C)"
proof -
  have "guarded B C (snd (replace_records rs w))" if g: "guarded B C w" and h: "holds_credentials C rs" for w
  proof -
    obtain r w' where run: "replace_records rs w = (r, w')" by (cases "replace_records rs w")
    have env: "same_environment w w'"
      using environment_replace_records run unfolding obeys_def by (metis snd_conv)
    then have hash: "hash_ok w'"
      using g hash_ok_environment by (auto simp: guarded_def durable_def)
    have old: "\<exists>s. read_snapshot (w_authz w) = Inr s \<and> remembers B C s"
      using g by (simp add: guarded_def durable_def)
    from run have "guarded B C w'"
    proof (cases rule: replace_records_outcome)
      case committed
      then show ?thesis
        using rewritten_guarded [OF g] h hash by (simp add: guarded_def durable_def holds_credentials_def)
    next
      case refused
      then show ?thesis using g by simp
    next
      case routing
      then show ?thesis
        using rewritten_guarded [OF g] h hash by (simp add: guarded_def durable_def holds_credentials_def)
    next
      case torn
      then have "durable B C w'"
        using rewritten_guarded [OF g] h hash old by (auto simp: durable_def holds_credentials_def)
      then show ?thesis using torn follows_file_guarded by blast
    qed
    then show ?thesis by (simp add: run)
  qed
  then show ?thesis by (intro triple_sameI) simp_all
qed

lemma triple_or_reload:
  assumes "triple P m (\<lambda>_. guarded B C) (\<lambda>_. guarded B C)"
  shows "triple P (or_reload m) (\<lambda>_. guarded B C) (\<lambda>_. guarded B C)"
  unfolding or_reload_def
  by (rule triple_try [OF assms], rule triple_andthen [OF triple_reload], rule triple_raise)


subsection \<open>Changes to the memory image\<close>

definition owner_dicts :: "owner_state option \<Rightarrow> bool" where
  "owner_dicts st \<longleftrightarrow> (case st of None \<Rightarrow> True | Some o' \<Rightarrow>
     (case ow_sessions o' of None \<Rightarrow> True | Some ss \<Rightarrow> is_dict (os_entries ss)))"

definition enrollment_dicts :: "enr_state option \<Rightarrow> bool" where
  "enrollment_dicts st \<longleftrightarrow> (case st of None \<Rightarrow> True | Some e \<Rightarrow> is_dict (es_requests e))"

definition lifecycle_dicts :: "lc_state \<Rightarrow> bool" where
  "lifecycle_dicts l \<longleftrightarrow> is_dict (ls_operations l) \<and> is_dict (ls_bindings l) \<and> is_dict (ls_recovery l)"

lemma is_dict_requests [simp]:
  "is_dict (case st of None \<Rightarrow> [] | Some e \<Rightarrow> es_requests e) = enrollment_dicts st"
  by (simp add: enrollment_dicts_def split: option.split)

lemma dicts_ok_parts:
  "dicts_ok s \<longleftrightarrow> owner_dicts (sn_owner s) \<and> enrollment_dicts (sn_enrollment s)
     \<and> lifecycle_dicts (lifecycle_of s) \<and> is_dict (integration_requests s)"
  by (auto simp: dicts_ok_def owner_dicts_def enrollment_requests_def lifecycle_dicts_def)

lemma guarded_parts:
  assumes "guarded B C w"
  shows "owner_dicts (sn_owner (w_store w))" "enrollment_dicts (sn_enrollment (w_store w))"
    "lifecycle_dicts (lifecycle_of (w_store w))" "is_dict (integration_requests (w_store w))"
    "holds_credentials C (sn_records (w_store w))" "B \<subseteq> set (ls_blocked (lifecycle_of (w_store w)))"
    "hash_ok w"
  using assms guarded_holds [OF assms]
  by (simp_all add: guarded_def shaped_def dicts_ok_parts remembers_def blocked_of_def durable_def)

lemma guarded_iff:
  "guarded B C w \<longleftrightarrow> durable B C w \<and> owner_dicts (sn_owner (w_store w))
     \<and> enrollment_dicts (sn_enrollment (w_store w)) \<and> lifecycle_dicts (lifecycle_of (w_store w))
     \<and> is_dict (integration_requests (w_store w)) \<and> holds_credentials C (sn_records (w_store w))
     \<and> B \<subseteq> set (ls_blocked (lifecycle_of (w_store w)))"
  by (auto simp: guarded_def shaped_def dicts_ok_parts remembers_def blocked_of_def holds_credentials_def)

lemma guarded_set_owner: "guarded B C w \<Longrightarrow> owner_dicts st \<Longrightarrow> guarded B C (set_owner st w)"
  by (simp add: guarded_iff set_owner_def durable_def hash_ok_def lifecycle_of_def integration_requests_def)

lemma guarded_set_enrollment: "guarded B C w \<Longrightarrow> enrollment_dicts st \<Longrightarrow> guarded B C (set_enrollment st w)"
  by (simp add: guarded_iff set_enrollment_def durable_def hash_ok_def lifecycle_of_def integration_requests_def)

lemma guarded_set_lifecycle:
  "guarded B C w \<Longrightarrow> lifecycle_dicts l \<Longrightarrow> B \<subseteq> set (ls_blocked l) \<Longrightarrow> guarded B C (set_lifecycle (Some l) w)"
  by (simp add: guarded_iff set_lifecycle_def durable_def hash_ok_def lifecycle_of_def integration_requests_def)

lemma guarded_set_integration: "guarded B C w \<Longrightarrow> is_dict d \<Longrightarrow> guarded B C (set_integration (Some d) w)"
  by (simp add: guarded_iff set_integration_def durable_def hash_ok_def lifecycle_of_def integration_requests_def)

lemma guarded_set_records: "guarded B C w \<Longrightarrow> holds_credentials C rs \<Longrightarrow> guarded B C (set_records rs w)"
  by (simp add: guarded_iff set_records_def durable_def hash_ok_def lifecycle_of_def integration_requests_def)

lemmas guarded_sets = guarded_set_owner guarded_set_enrollment guarded_set_lifecycle
  guarded_set_integration guarded_set_records

lemma triple_save_owner [triple_rules]:
  "owner_dicts st \<Longrightarrow> triple (guarded B C) (save_owner st) (\<lambda>_. guarded B C) (\<lambda>_. guarded B C)"
  unfolding save_owner_def
  apply (rule triple_bnd_reads, rule triple_raise_if_then, simp)
  apply (rule triple_raise_if_then, simp)
  apply (rule triple_modifies_then [where R = "guarded B C"], simp add: guarded_set_owner)
  apply (rule triple_or_reload, rule triple_bnd_reads)
  apply (rule triple_pre [OF triple_replace_records])
  apply (auto simp: guarded_holds)
  done

lemma triple_save_enrollment [triple_rules]:
  assumes "enrollment_dicts st" and "pred_option (holds_credentials C) rs"
  shows "triple (guarded B C) (save_enrollment st rs) (\<lambda>_. guarded B C) (\<lambda>_. guarded B C)"
  unfolding save_enrollment_def
  apply (rule triple_bnd_reads, rule triple_raise_if_then, simp)
  apply (rule triple_raise_if_then, simp)
  apply (rule triple_modifies_then [where R = "guarded B C"], simp add: guarded_set_enrollment assms)
  apply (rule triple_or_reload, rule triple_bnd_reads)
  apply (rule triple_pre [OF triple_replace_records])
  using assms apply (auto simp: guarded_holds split: option.split)
  done


subsection \<open>Operations that keep the store guarded\<close>

abbreviation keeps :: "string set \<Rightarrow> identities \<Rightarrow> 'a op \<Rightarrow> bool" where
  "keeps B C m \<equiv> obeys (keeping (guarded B C)) m"

lemma keeps_reads_fact:
  assumes "\<And>w. guarded B C w \<Longrightarrow> F (f w)" and "\<And>x. F x \<Longrightarrow> keeps B C (k x)"
  shows "keeps B C (bnd (reads f) k)"
  using assms by (auto simp: obeys_def keeping_def bnd_def reads_def)

lemma keeps_reads_owner:
  "(\<And>x. owner_dicts x \<Longrightarrow> keeps B C (k x)) \<Longrightarrow> keeps B C (bnd (reads (\<lambda>w. sn_owner (w_store w))) k)"
  by (rule keeps_reads_fact [where F = owner_dicts]) (auto simp: guarded_parts)

lemma keeps_reads_store:
  "(\<And>s. shaped s \<Longrightarrow> remembers B C s \<Longrightarrow> keeps B C (k s)) \<Longrightarrow> keeps B C (bnd (reads w_store) k)"
  by (rule keeps_reads_fact [where F = "\<lambda>s. shaped s \<and> remembers B C s"]) (auto simp: guarded_def)

lemma keeps_reads_records:
  "(\<And>rs. holds_credentials C rs \<Longrightarrow> keeps B C (k rs)) \<Longrightarrow> keeps B C (bnd (reads (\<lambda>w. sn_records (w_store w))) k)"
  by (rule keeps_reads_fact [where F = "holds_credentials C"]) (auto simp: guarded_holds)

lemma keeps_draw: "keeps B C draw"
  by (simp add: obeys_def keeping_def draw_def)

lemma keeps_token_hex:
  assumes "\<And>t. is_hex_text (2 * n) t \<Longrightarrow> keeps B C (k t)"
  shows "keeps B C (bnd (token_hex n) k)"
proof -
  have "keeps B C (bnd draw (\<lambda>x. k (hex_digits (2 * n) x)))"
    using assms by (intro invariant_step.obeys_bnd keeps_draw) simp
  moreover have "bnd (token_hex n) k = bnd draw (\<lambda>x. k (hex_digits (2 * n) x))"
    by (rule ext) (simp add: token_hex_def action_simps draw_def)
  ultimately show ?thesis by simp
qed

lemma keeps_urlsafe: "keeps B C token_urlsafe24" "keeps B C token_urlsafe32"
  unfolding token_urlsafe24_def token_urlsafe32_def
  by (intro invariant_step.obeys_rules keeps_draw)+

lemma keeps_modifies: "(\<And>w. guarded B C w \<Longrightarrow> guarded B C (f w)) \<Longrightarrow> keeps B C (modifies f)"
  by (simp add: obeys_def keeping_def modifies_def)

lemma keeps_replace_records: "holds_credentials C rs \<Longrightarrow> keeps B C (replace_records rs)"
  using triple_sameD [OF triple_replace_records, of B C _ rs] by (auto simp: obeys_def keeping_def)

lemma keeps_load: "keeps B C load"
  using triple_reload [of B C] by (simp only: triple_iff_keeping)

lemma keeps_or_reload: "keeps B C m \<Longrightarrow> keeps B C (or_reload m)"
  unfolding or_reload_def by (intro invariant_step.obeys_rules keeps_load)

lemma keeps_transaction: "keeps B C m \<Longrightarrow> keeps B C (transaction m)"
  using triple_sameD [OF triple_transaction [of B C m]] guarded_entry
  by (auto simp: triple_iff_keeping obeys_def keeping_def)

lemma keeps_save_owner: "owner_dicts st \<Longrightarrow> keeps B C (save_owner st)"
  using triple_save_owner [of st B C] by (simp add: triple_iff_keeping)

lemma keeps_save_enrollment:
  "enrollment_dicts st \<Longrightarrow> pred_option (holds_credentials C) rs \<Longrightarrow> keeps B C (save_enrollment st rs)"
  using triple_save_enrollment [of st C rs B] by (simp add: triple_iff_keeping)

lemma keeps_let: "(\<And>x. x = v \<Longrightarrow> keeps B C (k x)) \<Longrightarrow> keeps B C (let x = v in k x)"
  by (simp add: Let_def)

lemmas keeps_rules = keeps_reads_owner keeps_reads_store keeps_reads_records keeps_token_hex keeps_urlsafe
  keeps_replace_records keeps_load keeps_or_reload keeps_transaction keeps_let invariant_step.obeys_rules

text \<open>A request starts from a readable file and ends guarded.\<close>

lemma keeps_request: "keeps B C m \<Longrightarrow> entry B C w \<Longrightarrow> guarded B C (snd (transaction m w))"
  using triple_sameD [OF triple_transaction [of B C m]] by (simp add: triple_iff_keeping)


section \<open>Who authenticates\<close>

lemma find_SomeD: "find P xs = Some x \<Longrightarrow> x \<in> set xs \<and> P x"
  by (induction xs) (auto split: if_splits)

lemma authenticate_SomeD:
  assumes "authenticate w (JStr t) = Some p"
  obtains r where "r \<in> set (sn_records (w_store w))" and "p = principal_of (w_sha256 w) r"
    and "cr_verifier r = token_verifier (w_sha256 w) t" and "usable (w_now w) (w_store w) r"
  using assms
  by (auto simp: authenticate_def split: if_splits dest!: find_SomeD)

lemma authenticate_current: "authenticate w t = Some p \<Longrightarrow> current w (Some p)"
  by (cases t) (auto simp: authenticate_def current_def list_ex_iff split: if_splits dest!: find_SomeD)

text \<open>The credential store is such an authority.\<close>

interpretation store_authority: credential_authority authenticate current
  by unfold_locales (auto simp: authenticate_current, simp add: current_def)

lemma blocked_not_usable: "cr_verifier r \<in> set (blocked_of s) \<Longrightarrow> \<not> usable now s r"
  by (simp add: usable_def)

lemma load_guarded:
  assumes "load w0 = (Inr (), w)" and "hash_ok w0"
  shows "guarded (set (blocked_of (w_store w))) (identity ` set (sn_records (w_store w))) w"
proof -
  have r: "read_snapshot (w_authz w0) = Inr (w_store w)" and w: "w_authz w = w_authz w0" "w_sha256 w = w_sha256 w0"
    using assms(1) load_frame [of w0] by (auto simp: load_def split: sum.splits)
  then show ?thesis
    using assms(2) read_snapshot_shaped [OF r] by (simp add: guarded_def durable_def remembers_def hash_ok_def)
qed

end
