(* ===== verification/Wire_Text.thy ===== *)
theory Wire_Text
  imports Vauxr_Prelude
begin

text \<open>
  The text forms that signed or hashed data takes: \<open>str(int)\<close>, \<open>bytes.fromhex\<close>, \<open>str.upper\<close>,
  \<open>json.dumps(..., ensure_ascii=True, separators=(",", ":"))\<close> of a list of texts and integers,
  and \<open>datetime.fromtimestamp(t, tz=UTC).isoformat()\<close>; with the injectivity that makes a
  transcript mean one list of fields only.
\<close>

section \<open>Integers\<close>

definition digit :: "int \<Rightarrow> char" where
  "digit n = ''0123456789'' ! nat (n mod 10)"

function nat_text :: "int \<Rightarrow> string" where
  "nat_text n = (if n < 10 then [digit n] else nat_text (n div 10) @ [digit n])"
  by auto
termination by (relation "measure nat") auto

declare nat_text.simps [simp del]

definition int_text :: "int \<Rightarrow> string" where
  "int_text n = (if n < 0 then ''-'' @ nat_text (- n) else nat_text n)"

definition digit_value :: "char \<Rightarrow> int" where
  "digit_value c = int (of_char c) - 48"

fun digits_value :: "int \<Rightarrow> string \<Rightarrow> int" where
  "digits_value acc [] = acc"
| "digits_value acc (c # cs) = digits_value (10 * acc + digit_value c) cs"

lemma digit_cases: "0 \<le> n \<Longrightarrow> n < 10 \<Longrightarrow> n = 0 \<or> n = 1 \<or> n = 2 \<or> n = 3 \<or> n = 4 \<or> n = 5 \<or> n = 6 \<or> n = 7 \<or> n = 8 \<or> n = (9::int)"
  by arith

lemma digit_value_digit: "digit_value (digit n) = n mod 10"
proof -
  have "digit n = digit (n mod 10)" by (simp add: digit_def)
  moreover have "digit_value (digit k) = k" if "0 \<le> k" "k < 10" for k :: int
    using digit_cases [OF that] by (elim disjE) (simp_all add: digit_def digit_value_def)
  ultimately show ?thesis by simp
qed

lemma is_digit_digit: "is_digit (digit n)"
proof -
  have "digit n = digit (n mod 10)" by (simp add: digit_def)
  moreover have "is_digit (digit k)" if "0 \<le> k" "k < 10" for k :: int
    using digit_cases [OF that] by (elim disjE) (simp_all add: digit_def is_digit_def char_between_def)
  ultimately show ?thesis by simp
qed

lemma nat_text_digits: "list_all is_digit (nat_text n)"
  by (induction n rule: nat_text.induct) (subst nat_text.simps, simp add: is_digit_digit)

lemma nat_text_nonempty [simp]: "nat_text n \<noteq> []"
  by (subst nat_text.simps) simp

lemma digits_value_append: "digits_value acc (xs @ ys) = digits_value (digits_value acc xs) ys"
  by (induction xs arbitrary: acc) auto

lemma digits_value_nat_text: "0 \<le> n \<Longrightarrow> digits_value 0 (nat_text n) = n"
proof (induction n rule: nat_text.induct)
  case (1 n)
  then show ?case
    by (subst nat_text.simps) (auto simp: digits_value_append digit_value_digit)
qed

lemma nat_text_no_minus: "hd (nat_text k) \<noteq> CHR ''-''"
  using nat_text_digits [of k] nat_text_nonempty [of k]
  by (cases "nat_text k") (auto simp: is_digit_def char_between_def)

lemma hd_int_text: "hd (int_text n) = CHR ''-'' \<longleftrightarrow> n < 0"
  by (simp add: int_text_def nat_text_no_minus)

lemma nat_text_inj: "0 \<le> m \<Longrightarrow> 0 \<le> n \<Longrightarrow> nat_text m = nat_text n \<Longrightarrow> m = n"
  by (drule arg_cong [where f = "digits_value 0"]) (simp add: digits_value_nat_text)

lemma int_text_inj:
  assumes eq: "int_text m = int_text n"
  shows "m = n"
proof (cases "m < 0")
  case True
  then have n: "n < 0" using eq hd_int_text [of m] hd_int_text [of n] by simp
  then have "nat_text (- m) = nat_text (- n)" using eq True by (simp add: int_text_def)
  then have "- m = - n" using True n by (intro nat_text_inj) simp_all
  then show ?thesis by simp
next
  case False
  then have n: "\<not> n < 0" using eq hd_int_text [of m] hd_int_text [of n] by simp
  then have "nat_text m = nat_text n" using eq False by (simp add: int_text_def)
  then show ?thesis using False n by (intro nat_text_inj) simp_all
qed

section \<open>Hexadecimal\<close>

definition hex_value :: "char \<Rightarrow> nat" where
  "hex_value c = (if is_digit c then of_char c - 48 else of_char c - 87)"

text \<open>\<open>bytes.fromhex\<close> of lower-case digits\<close>

fun unhex :: "string \<Rightarrow> string" where
  "unhex (a # b # cs) = char_of (16 * hex_value a + hex_value b) # unhex cs"
| "unhex _ = []"

definition upper :: "string \<Rightarrow> string" where
  "upper s = map (\<lambda>c. if is_lower c then char_of (of_char c - (32 :: nat)) else c) s"

lemma hex_value_bound: "is_hex c \<Longrightarrow> hex_value c < 16"
  by (auto simp: hex_value_def char_class_defs)

lemma hex_value_inj: "is_hex a \<Longrightarrow> is_hex b \<Longrightarrow> hex_value a = hex_value b \<Longrightarrow> a = b"
proof -
  have minus: "k \<le> x \<Longrightarrow> k \<le> y \<Longrightarrow> x - k = y - k \<Longrightarrow> x = y" for k x y :: nat by simp
  assume h: "is_hex a" "is_hex b" "hex_value a = hex_value b"
  then have "(of_char a :: nat) = of_char b"
    using minus [of 48 "of_char a" "of_char b"] minus [of 87 "of_char a" "of_char b"]
    by (auto simp: hex_value_def char_class_defs split: if_splits)
  then show "a = b" by (metis char_of_char)
qed

lemma two_digits:
  fixes a a' b b' :: nat
  assumes "b < 16" and "b' < 16" and "16 * a + b = 16 * a' + b'"
  shows "a = a' \<and> b = b'"
proof -
  have "(16 * a + b) div 16 = a" "(16 * a' + b') div 16 = a'"
    using assms(1,2) by simp_all
  then have "a = a'" using assms(3) by simp
  then show ?thesis using assms(3) by simp
qed

lemma unhex_inj:
  "list_all is_hex s \<Longrightarrow> list_all is_hex t \<Longrightarrow> even (length s) \<Longrightarrow> even (length t) \<Longrightarrow> unhex s = unhex t \<Longrightarrow> s = t"
proof (induction s arbitrary: t rule: unhex.induct)
  case (1 a b cs)
  then obtain a' b' cs' where t: "t = a' # b' # cs'"
    by (cases t rule: unhex.cases) auto
  have bd: "hex_value x < 16" if "x \<in> {a, b, a', b'}" for x
    using 1 that t hex_value_bound by auto
  have "(of_char (char_of (16 * hex_value a + hex_value b)) :: nat) = of_char (char_of (16 * hex_value a' + hex_value b'))"
    using 1 t by simp
  then have "16 * hex_value a + hex_value b = 16 * hex_value a' + hex_value b'"
    using bd [of a] bd [of b] bd [of a'] bd [of b'] by simp
  then have "hex_value a = hex_value a'" "hex_value b = hex_value b'"
    using two_digits [of "hex_value b" "hex_value b'"] bd [of b] bd [of b'] by blast+
  then have "a = a'" "b = b'" using 1 t hex_value_inj by simp_all
  moreover have "cs = cs'" using 1 t by simp
  ultimately show ?case using t by simp
qed (case_tac t rule: unhex.cases; simp)+


section \<open>JSON text\<close>

text \<open>One character of a JSON text with \<open>ensure_ascii\<close>.\<close>

definition json_char :: "char \<Rightarrow> string" where
  "json_char c =
    (if c = CHR 0x22 then [CHR 0x5C, CHR 0x22]
     else if c = CHR 0x5C then [CHR 0x5C, CHR 0x5C]
     else if c = CHR 0x0A then [CHR 0x5C, CHR ''n'']
     else if c = CHR 0x0D then [CHR 0x5C, CHR ''r'']
     else if c = CHR 0x09 then [CHR 0x5C, CHR ''t'']
     else if c = CHR 0x0C then [CHR 0x5C, CHR ''f'']
     else if c = CHR 0x08 then [CHR 0x5C, CHR ''b'']
     else if char_between 32 126 c then [c]
     else CHR 0x5C # ''u00'' @ [hex_digit (int (of_char c) div 16), hex_digit (int (of_char c))])"

definition json_text :: "string \<Rightarrow> string" where
  "json_text s = CHR 0x22 # concat (map json_char s) @ [CHR 0x22]"

datatype scalar = Text string | Whole int

fun scalar_text :: "scalar \<Rightarrow> string" where
  "scalar_text (Text s) = json_text s"
| "scalar_text (Whole n) = int_text n"

fun comma_joined :: "string list \<Rightarrow> string" where
  "comma_joined [] = []"
| "comma_joined [s] = s"
| "comma_joined (s # t # ts) = s @ CHR '','' # comma_joined (t # ts)"

definition json_array :: "scalar list \<Rightarrow> string" where
  "json_array xs = CHR ''['' # comma_joined (map scalar_text xs) @ '']''"

text \<open>Reading one character back, which shows that no two texts are written alike.\<close>

fun unjson :: "string \<Rightarrow> (char \<times> string) option" where
  "unjson [] = None"
| "unjson (c # cs) =
    (if c = CHR 0x22 then None
     else if c \<noteq> CHR 0x5C then Some (c, cs)
     else (case cs of
       [] \<Rightarrow> None
     | d # ds \<Rightarrow>
         if d = CHR ''n'' then Some (CHR 0x0A, ds)
         else if d = CHR ''r'' then Some (CHR 0x0D, ds)
         else if d = CHR ''t'' then Some (CHR 0x09, ds)
         else if d = CHR ''f'' then Some (CHR 0x0C, ds)
         else if d = CHR ''b'' then Some (CHR 0x08, ds)
         else if d = CHR ''u'' then
           (case ds of _ # _ # h # l # rest \<Rightarrow> Some (char_of (16 * hex_value h + hex_value l), rest) | _ \<Rightarrow> None)
         else Some (d, ds)))"

lemma hex_value_digit: "hex_value (hex_digit n) = nat (n mod 16)"
proof -
  have cases: "k = 0 \<or> k = 1 \<or> k = 2 \<or> k = 3 \<or> k = 4 \<or> k = 5 \<or> k = 6 \<or> k = 7 \<or> k = 8 \<or> k = 9 \<or> k = 10
      \<or> k = 11 \<or> k = 12 \<or> k = 13 \<or> k = 14 \<or> k = (15 :: int)" if "0 \<le> k" "k < 16" for k
    using that by arith
  have "hex_digit n = hex_digit (n mod 16)" by (simp add: hex_digit_def)
  moreover have "hex_value (hex_digit k) = nat k" if "0 \<le> k" "k < 16" for k
    using cases [OF that] by (elim disjE) (simp_all add: hex_digit_def hex_value_def is_digit_def char_between_def)
  ultimately show ?thesis by simp
qed

lemma unjson_char: "unjson (json_char c @ rest) = Some (c, rest)"
proof (cases "c \<in> {CHR 0x22, CHR 0x5C, CHR 0x0A, CHR 0x0D, CHR 0x09, CHR 0x0C, CHR 0x08} \<or> char_between 32 126 c")
  case True
  then show ?thesis by (elim disjE insertE) (simp_all add: json_char_def)
next
  case False
  let ?n = "of_char c :: nat"
  have "hex_value (hex_digit (int ?n div 16)) = ?n div 16" "hex_value (hex_digit (int ?n)) = ?n mod 16"
    using nat_of_char_less_256 [of c]
    by (simp_all add: hex_value_digit nat_div_distrib nat_mod_distrib less_mult_imp_div_less)
  then have "16 * hex_value (hex_digit (int ?n div 16)) + hex_value (hex_digit (int ?n)) = ?n"
    by simp
  then show ?thesis using False by (simp add: json_char_def)
qed

lemma json_text_prefix:
  "concat (map json_char s) @ CHR 0x22 # r = concat (map json_char t) @ CHR 0x22 # r' \<Longrightarrow> s = t \<and> r = r'"
proof (induction s arbitrary: t)
  case Nil
  show ?case
  proof (cases t)
    case (Cons c t')
    then have "unjson (CHR 0x22 # r) = Some (c, concat (map json_char t') @ CHR 0x22 # r')"
      using Nil unjson_char [of c] by simp
    then show ?thesis by simp
  qed (use Nil in simp)
next
  case (Cons c s)
  have step: "unjson (concat (map json_char (c # s)) @ CHR 0x22 # r) = Some (c, concat (map json_char s) @ CHR 0x22 # r)"
    for c s r using unjson_char [of c] by simp
  show ?case
  proof (cases t)
    case Nil
    then have "unjson (CHR 0x22 # r') = Some (c, concat (map json_char s) @ CHR 0x22 # r)"
      using Cons.prems step [of c s r] by simp
    then show ?thesis by simp
  next
    case (Cons d t')
    then have "Some (c, concat (map json_char s) @ CHR 0x22 # r) = Some (d, concat (map json_char t') @ CHR 0x22 # r')"
      using Cons.prems step [of c s r] step [of d t' r'] by (simp only:)
    then show ?thesis using Cons Cons.IH [of t'] by simp
  qed
qed

definition ends_scalar :: "char \<Rightarrow> bool" where
  "ends_scalar c \<longleftrightarrow> c = CHR '','' \<or> c = CHR '']''"

lemma int_text_chars: "list_all (\<lambda>c. \<not> ends_scalar c \<and> c \<noteq> CHR 0x22) (int_text n)"
proof -
  have "list_all (\<lambda>c. \<not> ends_scalar c \<and> c \<noteq> CHR 0x22) (nat_text k)" for k
    using nat_text_digits [of k]
    by (rule list.pred_mono_strong) (auto simp: ends_scalar_def is_digit_def char_between_def)
  then show ?thesis by (simp add: int_text_def ends_scalar_def)
qed

lemma int_text_prefix:
  assumes "int_text m @ d # r = int_text n @ e # q" and "ends_scalar d" and "ends_scalar e"
  shows "m = n \<and> d = e \<and> r = q"
proof -
  have t: "takeWhile (\<lambda>c. \<not> ends_scalar c) (int_text k @ x # y) = int_text k" if "ends_scalar x" for k x y
    using int_text_chars [of k] that by (subst takeWhile_append2) (auto simp: list_all_iff)
  have "int_text m = int_text n" using t [OF assms(2)] t [OF assms(3)] assms(1) by metis
  then show ?thesis using assms(1) int_text_inj [of m n] by simp
qed

lemma int_text_hd: "int_text n @ x \<noteq> CHR 0x22 # y"
proof
  assume a: "int_text n @ x = CHR 0x22 # y"
  have "int_text n \<noteq> []" by (simp add: int_text_def)
  then have "CHR 0x22 \<in> set (int_text n)" using a by (cases "int_text n") auto
  then show False using int_text_chars [of n] by (auto simp: list_all_iff)
qed

lemma scalar_text_prefix:
  assumes "scalar_text a @ d # r = scalar_text b @ e # q" and "ends_scalar d" and "ends_scalar e"
  shows "a = b \<and> d = e \<and> r = q"
proof (cases a; cases b)
  fix s t assume ab: "a = Text s" "b = Text t"
  then have "concat (map json_char s) @ CHR 0x22 # d # r = concat (map json_char t) @ CHR 0x22 # e # q"
    using assms(1) by (simp add: json_text_def)
  then show ?thesis using json_text_prefix ab by blast
next
  fix m n assume "a = Whole m" "b = Whole n"
  then show ?thesis using assms int_text_prefix by simp
next
  fix s n assume "a = Text s" "b = Whole n"
  then show ?thesis using assms int_text_hd [of n "e # q"] by (simp add: json_text_def) metis
next
  fix s n assume "a = Whole n" "b = Text s"
  then show ?thesis using assms int_text_hd [of n "d # r"] by (simp add: json_text_def)
qed

lemma comma_joined_prefix:
  "xs \<noteq> [] \<Longrightarrow> ys \<noteq> [] \<Longrightarrow>
   comma_joined (map scalar_text xs) @ CHR '']'' # r = comma_joined (map scalar_text ys) @ CHR '']'' # q \<Longrightarrow> xs = ys \<and> r = q"
proof (induction xs arbitrary: ys)
  case (Cons a xs)
  then obtain b ys' where ys: "ys = b # ys'" by (cases ys) auto
  have shape: "\<exists>d t. comma_joined (map scalar_text (c # cs)) @ CHR '']'' # z = scalar_text c @ d # t \<and> ends_scalar d
      \<and> (cs = [] \<longrightarrow> d = CHR '']'' \<and> t = z)
      \<and> (cs \<noteq> [] \<longrightarrow> d = CHR '','' \<and> t = comma_joined (map scalar_text cs) @ CHR '']'' # z)" for c cs z
    by (cases cs) (auto simp: ends_scalar_def)
  obtain d t where l: "comma_joined (map scalar_text (a # xs)) @ CHR '']'' # r = scalar_text a @ d # t" "ends_scalar d"
    and xs: "xs = [] \<longrightarrow> d = CHR '']'' \<and> t = r" "xs \<noteq> [] \<longrightarrow> d = CHR '','' \<and> t = comma_joined (map scalar_text xs) @ CHR '']'' # r"
    using shape [of a xs r] by (elim exE conjE)
  obtain e u where r: "comma_joined (map scalar_text (b # ys')) @ CHR '']'' # q = scalar_text b @ e # u" "ends_scalar e"
    and ys': "ys' = [] \<longrightarrow> e = CHR '']'' \<and> u = q" "ys' \<noteq> [] \<longrightarrow> e = CHR '','' \<and> u = comma_joined (map scalar_text ys') @ CHR '']'' # q"
    using shape [of b ys' q] by (elim exE conjE)
  have eq: "scalar_text a @ d # t = scalar_text b @ e # u"
    using Cons.prems(3) l(1) r(1) ys by (simp only:)
  have "a = b" "d = e" "t = u" using scalar_text_prefix [OF eq l(2) r(2)] by simp_all
  then show ?case using xs ys' ys Cons.IH [of ys'] by (cases "xs = []"; cases "ys' = []") auto
qed simp

text \<open>No two lists of fields have the same wire form.\<close>

lemma json_array_inj: "xs \<noteq> [] \<Longrightarrow> ys \<noteq> [] \<Longrightarrow> json_array xs = json_array ys \<Longrightarrow> xs = ys"
  using comma_joined_prefix [of xs ys "[]" "[]"] by (simp add: json_array_def)


section \<open>Dates\<close>

definition padded :: "nat \<Rightarrow> int \<Rightarrow> string" where
  "padded k n = (let t = nat_text n in replicate (k - length t) CHR ''0'' @ t)"

definition round_half_even :: "rat \<Rightarrow> int" where
  "round_half_even x = (let f = \<lfloor>x\<rfloor>; r = x - of_int f in
     if r < 1 / 2 then f else if r > 1 / 2 then f + 1 else if even f then f else f + 1)"

text \<open>Year, month and day of a number of days since 1970-01-01 (proleptic Gregorian calendar).\<close>

definition civil_date :: "int \<Rightarrow> int \<times> int \<times> int" where
  "civil_date days =
    (let z = days + 719468; era = z div 146097; doe = z mod 146097;
         yoe = (doe - doe div 1460 + doe div 36524 - doe div 146096) div 365;
         doy = doe - (365 * yoe + yoe div 4 - yoe div 100);
         mp = (5 * doy + 2) div 153; d = doy - (153 * mp + 2) div 5 + 1;
         m = (if mp < 10 then mp + 3 else mp - 9); y = yoe + era * 400
     in (if m \<le> 2 then y + 1 else y, m, d))"

text \<open>\<open>datetime.fromtimestamp(t, tz=UTC).isoformat()\<close>\<close>

definition iso_utc :: "time \<Rightarrow> string" where
  "iso_utc t =
    (let us = round_half_even (t * 1000000); secs = us div 1000000; frac = us mod 1000000;
         (y, m, d) = civil_date (secs div 86400); sod = secs mod 86400
     in padded 4 y @ ''-'' @ padded 2 m @ ''-'' @ padded 2 d @ ''T'' @ padded 2 (sod div 3600) @ '':''
        @ padded 2 (sod div 60 mod 60) @ '':'' @ padded 2 (sod mod 60)
        @ (if frac = 0 then [] else ''.'' @ padded 6 frac) @ ''+00:00'')"

lemma iso_utc_examples:
  "iso_utc 0 = ''1970-01-01T00:00:00+00:00''" "iso_utc (1709164800 + 1 / 2) = ''2024-02-29T00:00:00.500000+00:00''"
  by code_simp+

end
