(* ===== verification/Example_World.thy ===== *)
theory Example_World
  imports Store_Laws Wire_Text
begin

text \<open>
  A concrete world for the witnesses: a fresh server with an empty data directory, a small stand-in
  for the hash and signature libraries, and scripted secrets; and a server that holds one device
  credential.
\<close>

definition demo_hash :: "string \<Rightarrow> string" where
  "demo_hash s = hex_digits 64 (foldl (\<lambda>a c. a * 256 + of_char c) 1 s)"

definition demo_verify :: "string \<Rightarrow> string \<Rightarrow> string \<Rightarrow> bool" where
  "demo_verify key sig msg \<longleftrightarrow> sig = unhex (demo_hash (key @ msg)) @ unhex (demo_hash (msg @ key))"

definition demo_world :: world where
  "demo_world = \<lparr>w_store = empty_snapshot, w_transaction = False, w_authz = No_file, w_agents_file = No_file,
     w_agents = [], w_active_agent = [], w_agents_loaded = False, w_now = 1000,
     w_entropy = (\<lambda>k. int k * 7919 + 12345), w_drawn = 0, w_faults = [], w_sha256 = demo_hash,
     w_hmac = (\<lambda>key msg. demo_hash (key @ msg)), w_ed25519 = demo_verify, w_override = None,
     w_origin = ''http://localhost:8080'', w_direct_url = False, w_device_id_length = 8\<rparr>"

definition demo_credential :: "bool \<Rightarrow> credential" where
  "demo_credential en = \<lparr>cr_id = ''c1'', cr_role = DEVICE, cr_subject = ''dev_1'',
     cr_verifier = demo_hash (utf8 ''vx_dev_token''), cr_enabled = en\<rparr>"

definition demo_owner :: owner_state where
  "demo_owner = \<lparr>ow_mode = Generated, ow_generation = hex_digits 32 7, ow_verifier = Some (demo_hash ''key''),
     ow_claim = None, ow_claim_expires = None, ow_claim_attempts = None, ow_pending = None,
     ow_attempts = None, ow_sessions = None\<rparr>"

definition demo_snapshot :: "bool \<Rightarrow> string list \<Rightarrow> snapshot" where
  "demo_snapshot en blocked = \<lparr>sn_records = [demo_credential en], sn_owner = Some demo_owner,
     sn_enrollment = None, sn_lifecycle = Some (empty_lifecycle\<lparr>ls_blocked := blocked\<rparr>), sn_integration = None\<rparr>"

text \<open>The world of a server whose file holds a snapshot, before the server has loaded it.\<close>

definition stored :: "snapshot \<Rightarrow> world" where
  "stored s = demo_world\<lparr>w_authz := Doc (payload s)\<rparr>"

definition running :: "snapshot \<Rightarrow> world" where
  "running s = demo_world\<lparr>w_authz := Doc (payload s), w_store := s\<rparr>"

lemma demo_hash_hex [simp]: "is_hex_text 64 (demo_hash x)"
  by (simp add: demo_hash_def)

lemma demo_hash_ok [simp]: "hash_ok demo_world" "hash_ok (stored s)" "hash_ok (running s)"
  by (simp_all add: hash_ok_def demo_world_def stored_def running_def)

lemma load_stored: "wf_snapshot s \<Longrightarrow> load (stored s) = (Inr (), running s)"
  by (simp add: load_def stored_def running_def read_written_snapshot)

lemma running_simps [simp]:
  "w_store (running s) = s" "w_sha256 (running s) = demo_hash" "w_now (running s) = 1000"
  "w_authz (running s) = Doc (payload s)" "w_transaction (running s) = False"
  by (simp_all add: running_def demo_world_def)

lemma demo_snapshot_simps [simp]:
  "sn_records (demo_snapshot en b) = [demo_credential en]" "sn_owner (demo_snapshot en b) = Some demo_owner"
  "sn_enrollment (demo_snapshot en b) = None" "blocked_of (demo_snapshot en b) = b"
  "sn_integration (demo_snapshot en b) = None"
  by (simp_all add: demo_snapshot_def blocked_of_def lifecycle_of_def)

lemmas snapshot_checks = wf_snapshot_def valid_snapshot_def dicts_ok_def valid_records_def ok_owner_def is_active_mode_def
  ok_enrollment_def ok_lifecycle_def ok_lc_state_def ok_integration_def valid_integration_bindings_def
  integration_requests_def enrollment_requests_def dict_values_def has_capacity_def lifecycle_of_def
  empty_lifecycle_def TOMBSTONE_LIMIT_def LIMIT_def OPERATION_LIMIT_def unfinished_def

lemma ok_demo_record [simp]:
  "is_hex_text 64 v \<Longrightarrow>
   ok_credential \<lparr>cr_id = ''c1'', cr_role = DEVICE, cr_subject = ''dev_1'', cr_verifier = v, cr_enabled = en\<rparr>"
  by (simp add: ok_credential_def is_ident_def is_alnum_def char_class_defs ident_char_def)

lemma ok_demo_credential [simp]: "ok_credential (demo_credential en)"
  by (simp add: demo_credential_def)

lemma wf_demo_snapshot [simp]: "blocked = [] \<or> blocked = [demo_hash x] \<Longrightarrow> wf_snapshot (demo_snapshot en blocked)"
  by (auto simp: snapshot_checks demo_snapshot_def demo_owner_def demo_credential_def card_insert_if)

end
