(* ===== verification/Agent_Registry.thy ===== *)
theory Agent_Registry
  imports Example_World
begin

text \<open>
  \<open>agents/registry.py\<close>: the routing table behind \<open>agents.json\<close>. The table in memory
  (\<open>w_agents\<close>, \<open>w_active_agent\<close>) is what the last published document says; whether an entry
  may be used is asked of the credential store each time.
\<close>

definition direct_agent :: "bool \<Rightarrow> agent" where
  "direct_agent act = \<lparr>ag_id = ''openclaw-direct'', ag_name = ''OpenClaw Direct'', ag_type = Openclaw_direct,
     ag_active = act, ag_created_at = ''1970-01-01T00:00:00+00:00'', ag_builtin = Some True,
     ag_integration = False\<rparr>"

text \<open>The two changes \<open>load\<close> may make: add the builtin agent to a table, or write the first table.\<close>

definition add_direct :: "string \<Rightarrow> bool \<Rightarrow> json \<Rightarrow> exn + json" where
  "add_direct act none_held data = (case decode_agents data of
     Inl e \<Rightarrow> Inl e
   | Inr (agents, _) \<Rightarrow> Inr (encode_agents (agents @ [direct_agent False])
       (if act \<noteq> [] then act else if none_held then ''openclaw-direct'' else [])))"

definition first_table :: "bool \<Rightarrow> json \<Rightarrow> exn + json" where
  "first_table direct data = (if data \<noteq> JObj [] then Inr data else
     Inr (if direct then encode_agents [direct_agent True] ''openclaw-direct'' else encode_agents [] []))"

definition reset_agents :: "world \<Rightarrow> world" where
  "reset_agents w = w\<lparr>w_agents_loaded := False, w_agents := [], w_active_agent := []\<rparr>"

definition registry_load :: "unit op" where
  "registry_load =
     andthen (modifies reset_agents)
     (bnd (reads w_agents_file) (\<lambda>f. bnd (reads w_direct_url) (\<lambda>direct.
        if doc_exists f
        then bnd (lift_result (read_json f)) (\<lambda>data. bnd (lift_result (decode_agents data)) (\<lambda>(agents, act).
               bnd (if direct \<and> ''openclaw-direct'' \<notin> set (map ag_id agents)
                    then update_agents_file (add_direct act (agents = []))
                    else ret data) publish_agents))
        else bnd (update_agents_file (first_table direct)) publish_agents)))"

definition ensure_loaded :: "unit op" where
  "ensure_loaded = bnd (reads w_agents_loaded) (\<lambda>loaded. when_do (\<not> loaded) registry_load)"

text \<open>\<open>_valid(agent)\<close>: the builtin agent needs a configured URL, an enrolled one a completed enrollment with a usable credential.\<close>

definition agent_valid :: "world \<Rightarrow> agent \<Rightarrow> bool" where
  "agent_valid w a =
     (if ag_type a = Openclaw_direct then w_direct_url w
      else if \<not> ag_integration a then True
      else list_ex (\<lambda>row. ir_agent_id row = ag_id a \<and> integration_agent_valid (w_now w) (w_store w) row)
             (dict_values (integration_requests (w_store w))))"

definition visible_agents :: "world \<Rightarrow> agent list" where
  "visible_agents w = map (mark_active (w_active_agent w)) (filter (agent_valid w) (w_agents w))"

definition get_all :: "agent list op" where
  "get_all = andthen ensure_loaded (reads visible_agents)"

definition get_by_id :: "string \<Rightarrow> agent option op" where
  "get_by_id i = bnd get_all (\<lambda>agents. ret (find (\<lambda>a. ag_id a = i) agents))"

definition get_active :: "agent option op" where
  "get_active = bnd get_all (\<lambda>agents. ret (find ag_active agents))"

text \<open>\<open>validate_authority()\<close>\<close>

definition validate_authority :: "unit op" where
  "validate_authority =
     bnd (reads (\<lambda>w. (valid_agent_ids (w_now w) (w_store w), map ag_id (filter ag_integration (w_agents w)),
                      w_active_agent w))) (\<lambda>(expected, recorded, act).
       andthen (raise_if (\<not> set expected \<subseteq> set recorded) (ConfigError ''agents''))
       (when_do (act \<noteq> [])
          (bnd get_active (\<lambda>a. raise_if (a = None) (ConfigError ''active_agent'')))))"

text \<open>\<open>_commit(change)\<close>: after a write error the table follows the document that is visible.\<close>

definition commit_agents :: "(json \<Rightarrow> exn + json) \<Rightarrow> unit op" where
  "commit_agents change =
     bnd (try_except (update_agents_file change)
            (\<lambda>e. if e = OSError
                 then bnd (reads w_agents_file) (\<lambda>f. bnd (lift_result (read_json f)) (\<lambda>data.
                        andthen (publish_agents data) (raise e)))
                 else raise e))
         publish_agents"

definition register_change :: "agent \<Rightarrow> json \<Rightarrow> exn + json" where
  "register_change a data = (case decode_agents data of
     Inl e \<Rightarrow> Inl e
   | Inr (agents, act) \<Rightarrow>
       if ag_id a \<in> set (map ag_id agents) then Inr data
       else Inr (encode_agents (agents @ [a\<lparr>ag_active := False\<rparr>]) act))"

definition register :: "agent \<Rightarrow> unit op" where
  "register a = andthen ensure_loaded (commit_agents (register_change a))"

definition activate_change :: "world \<Rightarrow> string \<Rightarrow> json \<Rightarrow> exn + json" where
  "activate_change w i data = (case decode_agents data of
     Inl e \<Rightarrow> Inl e
   | Inr (agents, _) \<Rightarrow>
       (case find (\<lambda>a. ag_id a = i) agents of
          None \<Rightarrow> Inr data
        | Some target \<Rightarrow> if agent_valid w target then Inr (encode_agents agents i) else Inr data))"

definition activate :: "string \<Rightarrow> bool op" where
  "activate i = bnd (get_by_id i) (\<lambda>found.
     if found = None then ret False
     else bnd (reads (\<lambda>w. activate_change w i)) (\<lambda>change.
            andthen (commit_agents change) (reads (\<lambda>w. w_active_agent w = i))))"

definition remove_change :: "string \<Rightarrow> json \<Rightarrow> exn + json" where
  "remove_change i data = (case decode_agents data of
     Inl e \<Rightarrow> Inl e
   | Inr (agents, act) \<Rightarrow> Inr (encode_agents (filter (\<lambda>a. ag_id a \<noteq> i) agents) (if act = i then [] else act)))"

definition remove_agent :: "string \<Rightarrow> bool op" where
  "remove_agent i = bnd (get_by_id i) (\<lambda>found.
     if (case found of None \<Rightarrow> True | Some a \<Rightarrow> ag_builtin a = Some True) then ret False
     else andthen (commit_agents (remove_change i)) (ret True))"


section \<open>No routing operation touches authority\<close>

lemma lift_result_obeys:
  "obeys same_authority (lift_result r)" "obeys same_environment (lift_result r)"
  unfolding lift_result_def by (rule authority_step.obeys_rules environment_step.obeys_rules)+

lemma reset_agents_authority: "obeys same_authority (modifies reset_agents)"
  by (simp add: obeys_def modifies_def reset_agents_def same_authority_def authority_def)

lemmas routing_rules = lift_result_obeys(1) reset_agents_authority update_agents_file_authority
  publish_agents_authority authority_step.obeys_rules

lemma registry_load_authority: "obeys same_authority registry_load"
  unfolding registry_load_def by (rule routing_rules)+

lemma ensure_loaded_authority: "obeys same_authority ensure_loaded"
  unfolding ensure_loaded_def by (rule registry_load_authority routing_rules)+

lemma get_all_authority: "obeys same_authority get_all" "obeys same_authority (get_by_id i)" "obeys same_authority get_active"
  unfolding get_by_id_def get_active_def get_all_def
  by (rule ensure_loaded_authority routing_rules)+

lemma commit_agents_authority: "obeys same_authority (commit_agents change)"
  unfolding commit_agents_def by (rule routing_rules)+

lemma registry_authority:
  "obeys same_authority (register a)" "obeys same_authority (activate i)" "obeys same_authority (remove_agent i)"
  "obeys same_authority validate_authority"
  unfolding register_def activate_def remove_agent_def validate_authority_def
  by (rule ensure_loaded_authority get_all_authority commit_agents_authority routing_rules)+

lemma same_authority_keeps:
  assumes "obeys same_authority m"
  shows "keeps B C m"
proof -
  have "guarded B C (snd (m w)) = guarded B C w" for w
    using assms by (intro guarded_same_authority) (simp add: obeys_def)
  then show ?thesis by (simp add: obeys_def keeping_def)
qed

lemmas keeps_registry = registry_authority [THEN same_authority_keeps] get_all_authority [THEN same_authority_keeps]
  registry_load_authority [THEN same_authority_keeps] retire_invalid_authority [THEN same_authority_keeps]

end
