(* ===== verification/Credential_Lifecycle.thy ===== *)
theory Credential_Lifecycle
  imports Agent_Registry "HOL-Library.List_Lexorder" "HOL-Library.Char_ord"
begin

text \<open>
  \<open>provisioning/lifecycle.py\<close>: rotation, revocation and recovery of a subject's credentials.
  Every handler works on a copy of the lifecycle namespace and commits it together with the records
  and the approvals it invalidates; \<open>plan_control\<close>, \<open>sweep_rows\<close> and \<open>retire_ids\<close> are what
  the handlers compute before they save.
\<close>

definition QUEUE_SECONDS :: time where "QUEUE_SECONDS = 86400"
definition OVERLAP_SECONDS :: time where "OVERLAP_SECONDS = 300"


section \<open>Parts the handlers share\<close>

text \<open>\<open>sorted(...)\<close> of a set of strings\<close>

definition sorted_texts :: "string list \<Rightarrow> string list" where
  "sorted_texts xs = sort (remdups xs)"

text \<open>\<open>_retire(state, ids, records)\<close>: block the verifiers for ever and disable the records.\<close>

definition retire_ids :: "lc_state \<Rightarrow> string list \<Rightarrow> credential list \<Rightarrow> exn + lc_state \<times> credential list" where
  "retire_ids st ids rs =
    (let blocked = remdups (ls_blocked st @ map cr_verifier (filter (\<lambda>r. cr_id r \<in> set ids) rs))
     in if length blocked > TOMBSTONE_LIMIT then Inl (EnrollmentError ''capacity'')
        else Inr (st\<lparr>ls_blocked := sorted_texts blocked\<rparr>,
                  map (\<lambda>r. if cr_id r \<in> set ids then r\<lparr>cr_enabled := False\<rparr> else r) rs))"

text \<open>\<open>row["code_hash"] or "0" * 64\<close>\<close>

definition code_or_zero :: "string \<Rightarrow> string" where
  "code_or_zero h = (if h = [] then replicate 64 CHR ''0'' else h)"

definition make_stale :: "enr_row \<Rightarrow> enr_row" where
  "make_stale r = r\<lparr>er_state := Stale, er_code_hash := code_or_zero (er_code_hash r)\<rparr>"

definition approved_by :: "string list \<Rightarrow> enr_row \<Rightarrow> bool" where
  "approved_by ids r \<longleftrightarrow> list_ex (\<lambda>a. case a of None \<Rightarrow> False | Some p \<Rightarrow> pr_credential_id p \<in> set ids)
     [er_initiator r, er_approver r]"

definition map_requests :: "(enr_row \<Rightarrow> enr_row) \<Rightarrow> enr_state option \<Rightarrow> enr_state option" where
  "map_requests f st = map_option (\<lambda>e. e\<lparr>es_requests := dict_map f (es_requests e)\<rparr>) st"

text \<open>\<open>_invalidate_approvals(ids)\<close>\<close>

definition invalidate_approvals :: "string list \<Rightarrow> enr_state option \<Rightarrow> enr_state option" where
  "invalidate_approvals ids = map_requests (\<lambda>r.
     if \<not> enr_terminal (er_state r) \<and> approved_by ids r then make_stale r else r)"

text \<open>\<open>_save(state, records, enrollment)\<close>\<close>

definition save_lifecycle :: "lc_state \<Rightarrow> credential list \<Rightarrow> enr_state option option \<Rightarrow> unit op" where
  "save_lifecycle st rs enr =
     andthen (modifies (set_lifecycle (Some st)))
     (andthen (case enr of None \<Rightarrow> ret () | Some e \<Rightarrow> modifies (set_enrollment e))
     (or_reload (replace_records rs)))"

text \<open>\<open>Credential(id, role, subject, verifier, enabled)\<close>: the constructor's own checks.\<close>

definition new_credential :: "string \<Rightarrow> role \<Rightarrow> string \<Rightarrow> string \<Rightarrow> bool \<Rightarrow> credential op" where
  "new_credential i ro subj v en =
    (let r = \<lparr>cr_id = i, cr_role = ro, cr_subject = subj, cr_verifier = v, cr_enabled = en\<rparr>
     in if ok_credential r then ret r else raise ValueError)"

text \<open>The owner's browser session: the epoch of the owner state is its credential ID.\<close>

definition is_owner :: "snapshot \<Rightarrow> principal \<Rightarrow> bool" where
  "is_owner s p \<longleftrightarrow> pr_role p = OWNER \<and> pr_subject p = ''owner''
     \<and> owner_generation s = Some (pr_credential_id p) \<and> owner_active s"


section \<open>Maintenance\<close>

type_synonym sweep_acc = "lc_state \<times> credential list \<times> string list \<times> bool"

definition set_operation :: "string \<Rightarrow> lc_row \<Rightarrow> lc_state \<Rightarrow> lc_state" where
  "set_operation k r st = st\<lparr>ls_operations := dict_put k r (ls_operations st)\<rparr>"

definition lapsed :: "time \<Rightarrow> snapshot \<Rightarrow> string \<Rightarrow> lc_row \<Rightarrow> bool" where
  "lapsed now s origin r \<longleftrightarrow>
     min (lr_expires_at r) (if lr_overlap_until r = 0 then lr_expires_at r else lr_overlap_until r) \<le> now
     \<or> owner_generation s \<noteq> Some (lr_owner_generation r) \<or> lr_origin r \<noteq> origin"

definition sweep_row :: "time \<Rightarrow> snapshot \<Rightarrow> string \<Rightarrow> string \<times> lc_row \<Rightarrow> sweep_acc \<Rightarrow> exn + sweep_acc" where
  "sweep_row now s origin kr acc =
    (case (kr, acc) of ((k, r), (st, rs, retired, changed)) \<Rightarrow>
       if lc_terminal (lr_state r) then Inr acc
       else if lr_state r = Op_acknowledged
       then Inr (set_operation k (r\<lparr>lr_state := Op_completed\<rparr>) st, rs, retired, True)
       else if lapsed now s origin r
       then (let ids = lr_credential_id r # (if lr_state r = Op_delivered then lr_old_ids r else [])
             in case retire_ids st ids rs of
                  Inl e \<Rightarrow> Inl e
                | Inr (st', rs') \<Rightarrow>
                    Inr (set_operation k (r\<lparr>lr_state := Op_expired\<rparr>) st', rs', retired @ ids, True))
       else Inr acc)"

fun sweep_rows :: "time \<Rightarrow> snapshot \<Rightarrow> string \<Rightarrow> (string \<times> lc_row) list \<Rightarrow> sweep_acc \<Rightarrow> exn + sweep_acc" where
  "sweep_rows now s origin [] acc = Inr acc"
| "sweep_rows now s origin (kr # rest) acc =
    (case sweep_row now s origin kr acc of Inl e \<Rightarrow> Inl e | Inr acc' \<Rightarrow> sweep_rows now s origin rest acc')"

text \<open>Recovery pointers whose operation is finished go; a pointer without operation is a \<open>KeyError\<close>.\<close>

definition recovery_finished :: "lc_state \<Rightarrow> lc_recovery \<Rightarrow> bool" where
  "recovery_finished st rc = (case dict_get (ls_operations st) (rc_operation_id rc) of
     None \<Rightarrow> False | Some r \<Rightarrow> lc_terminal (lr_state r))"

definition clear_recovery :: "sweep_acc \<Rightarrow> exn + sweep_acc" where
  "clear_recovery acc = (case acc of (st, rs, retired, changed) \<Rightarrow>
     if \<not> list_all (\<lambda>rc. dict_get (ls_operations st) (rc_operation_id rc) \<noteq> None) (dict_values (ls_recovery st))
     then Inl KeyError
     else (let kept = dict_filter (\<lambda>(_, rc). \<not> recovery_finished st rc) (ls_recovery st)
           in Inr (st\<lparr>ls_recovery := kept\<rparr>, rs, retired, changed \<or> kept \<noteq> ls_recovery st)))"

definition plan_sweep :: "time \<Rightarrow> snapshot \<Rightarrow> string \<Rightarrow> exn + sweep_acc" where
  "plan_sweep now s origin =
    (case sweep_rows now s origin (ls_operations (lifecycle_of s)) (lifecycle_of s, sn_records s, [], False) of
       Inl e \<Rightarrow> Inl e | Inr acc \<Rightarrow> clear_recovery acc)"

definition lc_sweep :: "string \<Rightarrow> unit op" where
  "lc_sweep origin = transaction
     (bnd (reads w_store) (\<lambda>s. bnd (reads w_now) (\<lambda>now.
        bnd (lift_result (plan_sweep now s origin)) (\<lambda>(st, rs, retired, changed).
          when_do changed (save_lifecycle st rs (Some (invalidate_approvals retired (sn_enrollment s))))))))"


section \<open>Owner control\<close>

definition lc_public :: "lc_row \<Rightarrow> json" where
  "lc_public r = JObj [(''version'', JInt 1), (''operation_id'', JStr (lr_operation_id r)),
     (''role'', JStr (role_name (lr_role r))), (''subject'', JStr (lr_subject r)),
     (''action'', JStr (action_name (lr_action r))), (''state'', JStr (lc_status_name (lr_state r))),
     (''expires_at'', JFloat (lr_expires_at r)), (''overlap_until'', JFloat (lr_overlap_until r)),
     (''credential_id'', JStr (lr_credential_id r))]"

definition matching_records :: "role \<Rightarrow> string \<Rightarrow> credential list \<Rightarrow> credential list" where
  "matching_records ro subj rs = filter (\<lambda>r. cr_role r = ro \<and> cr_subject r = subj) rs"

definition active_operations :: "string \<Rightarrow> lc_state \<Rightarrow> lc_row list" where
  "active_operations subj st =
     filter (\<lambda>r. lr_subject r = subj \<and> \<not> lc_terminal (lr_state r)) (dict_values (ls_operations st))"

definition revoke_active :: "string \<Rightarrow> lc_row \<Rightarrow> lc_row" where
  "revoke_active subj r =
     (if lr_subject r = subj \<and> \<not> lc_terminal (lr_state r) then r\<lparr>lr_state := Op_revoked\<rparr> else r)"

text \<open>What a new operation commits: the lifecycle namespace, the records, the approvals (when touched), the row.\<close>

definition new_operation :: "time \<Rightarrow> snapshot \<Rightarrow> string \<Rightarrow> lc_action \<Rightarrow> string \<Rightarrow> role \<Rightarrow> string \<Rightarrow> string \<Rightarrow> lc_row" where
  "new_operation now s origin act oid ro subj gen =
     \<lparr>lr_operation_id = oid, lr_role = ro, lr_subject = subj, lr_action = act, lr_state = Op_queued,
      lr_expires_at = now + QUEUE_SECONDS, lr_overlap_until = 0, lr_credential_id = [],
      lr_old_ids = map cr_id (matching_records ro subj (sn_records s)), lr_owner_generation = gen,
      lr_origin = origin\<rparr>"

definition stale_device :: "string \<Rightarrow> enr_row \<Rightarrow> enr_row" where
  "stale_device subj r = (if er_device_id r = subj \<and> \<not> enr_terminal (er_state r) then make_stale r else r)"

definition plan_operation ::
  "time \<Rightarrow> snapshot \<Rightarrow> lc_action \<Rightarrow> string \<Rightarrow> string \<Rightarrow> lc_row \<Rightarrow>
   exn + lc_state \<times> credential list \<times> enr_state option option \<times> lc_row" where
  "plan_operation now s act oid subj row =
    (let st = lifecycle_of s
     in if act = Rotate
        then Inr (set_operation oid row st, sn_records s, None, row)
        else (let ids = lr_old_ids row in
              case retire_ids st ids (sn_records s) of
                Inl e \<Rightarrow> Inl e
              | Inr (st1, rs) \<Rightarrow>
                  (let enr = map_requests (stale_device subj) (invalidate_approvals ids (sn_enrollment s));
                       st2 = st1\<lparr>ls_operations := dict_map (revoke_active subj) (ls_operations st1),
                                 ls_recovery := dict_pop subj (ls_recovery st1)\<rparr>;
                       row' = (if act = Revoke then row\<lparr>lr_state := Op_revoked\<rparr>
                               else row\<lparr>lr_expires_at := now + OVERLAP_SECONDS\<rparr>);
                       st3 = (if act = Revoke then st2
                              else st2\<lparr>ls_recovery := dict_put subj \<lparr>rc_operation_id = oid, rc_request_id = []\<rparr> (ls_recovery st2)\<rparr>)
                   in Inr (set_operation oid row' st3, rs, Some enr, row'))))"

text \<open>\<open>_control(state, action, body)\<close>, from the state read to what is to be saved (nothing, for a retry).\<close>

definition liability :: "snapshot \<Rightarrow> role \<Rightarrow> string \<Rightarrow> bool" where
  "liability s ro subj \<longleftrightarrow> active_operations subj (lifecycle_of s) \<noteq> []
     \<or> list_ex (\<lambda>r. cr_verifier r \<notin> set (blocked_of s)) (matching_records ro subj (sn_records s))"

definition plan_control ::
  "time \<Rightarrow> snapshot \<Rightarrow> string \<Rightarrow> lc_action \<Rightarrow> json \<Rightarrow>
   exn + (lc_state \<times> credential list \<times> enr_state option option) option \<times> lc_row" where
  "plan_control now s origin act body =
    (if \<not> str_among (jat body ''role'') [''device'', ''integration''] \<or> \<not> is_str (jat body ''subject'')
     then Inl (EnrollmentError ''invalid_request'')
     else
      (let ro = (if jat body ''role'' = JStr ''device'' then DEVICE else INTEGRATION);
           subj = str_value (jat body ''subject''); oid = str_value (jat body ''operation_id'');
           st = lifecycle_of s; matching = matching_records ro subj (sn_records s);
           active = active_operations subj st
       in case dict_get (ls_operations st) oid of
            Some ex \<Rightarrow>
              if lr_action ex \<noteq> act \<or> lr_role ex \<noteq> ro \<or> lr_subject ex \<noteq> subj
              then Inl (EnrollmentError ''conflict'') else Inr (None, ex)
          | None \<Rightarrow>
              if matching = [] then Inl (EnrollmentError ''not_found'')
              else if length (ls_operations st) \<ge> LIMIT \<and> \<not> (act = Revoke \<and> liability s ro subj)
              then Inl (EnrollmentError ''capacity'')
              else if act = Rotate \<and> (active \<noteq> [] \<or> \<not> list_ex (usable now s) matching)
              then Inl (EnrollmentError ''conflict'')
              else if act = Recover \<and> (ro \<noteq> DEVICE \<or> dict_get (ls_bindings st) subj = None)
              then Inl (EnrollmentError ''recovery_unavailable'')
              else (case owner_generation s of
                      None \<Rightarrow> Inl KeyError
                    | Some gen \<Rightarrow>
                        (case plan_operation now s act oid subj (new_operation now s origin act oid ro subj gen) of
                           Inl e \<Rightarrow> Inl e
                         | Inr (st', rs, enr, row) \<Rightarrow> Inr (Some (st', rs, enr), row)))))"

definition lc_control :: "string \<Rightarrow> lc_action \<Rightarrow> json \<Rightarrow> json op" where
  "lc_control origin act body =
     bnd (reads w_store) (\<lambda>s. bnd (reads w_now) (\<lambda>now.
       bnd (lift_result (plan_control now s origin act body)) (\<lambda>(change, row).
         andthen (case change of None \<Rightarrow> ret () | Some (st, rs, enr) \<Rightarrow> save_lifecycle st rs enr)
                 (ret (lc_public row)))))"


section \<open>Requests\<close>

definition lc_fields :: "(string, string list) dict" where
  "lc_fields = [(''rotate'', [''operation_id'', ''role'', ''subject'']),
     (''revoke'', [''operation_id'', ''role'', ''subject'']),
     (''recover'', [''operation_id'', ''role'', ''subject'']),
     (''status'', [''operation_id'']), (''poll'', []), (''deliver'', [''operation_id'']),
     (''ack'', [''operation_id'', ''saved''])]"

definition lc_poll :: "principal \<Rightarrow> json op" where
  "lc_poll p =
     bnd (reads w_store) (\<lambda>s.
       andthen (raise_if (pr_role p = OWNER) (EnrollmentError ''forbidden''))
       (case find (\<lambda>(k, r). lr_role r = pr_role p \<and> lr_subject r = pr_subject p \<and> lr_action r = Rotate
                      \<and> \<not> lc_terminal (lr_state r)) (ls_operations (lifecycle_of s)) of
          None \<Rightarrow> ret (JObj [(''version'', JInt 1), (''state'', JStr ''idle'')])
        | Some (k, r) \<Rightarrow>
            if lr_state r = Op_queued
            then (let r' = r\<lparr>lr_state := Op_pending\<rparr> in
                  andthen (save_lifecycle (set_operation k r' (lifecycle_of s)) (sn_records s) None)
                          (ret (lc_public r')))
            else ret (lc_public r)))"

definition lc_ack :: "principal \<Rightarrow> json \<Rightarrow> string \<Rightarrow> lc_row \<Rightarrow> json op" where
  "lc_ack p body k r =
     bnd (reads w_store) (\<lambda>s.
       andthen (raise_if (jat body ''saved'' \<noteq> JBool True \<or> pr_credential_id p \<noteq> lr_credential_id r)
                  (EnrollmentError ''invalid_ack''))
       (if lr_state r \<in> {Op_acknowledged, Op_completed} then ret (lc_public r)
        else andthen (raise_if (lr_state r \<noteq> Op_delivered) (EnrollmentError ''unavailable''))
          (bnd (lift_result (retire_ids (lifecycle_of s) (lr_old_ids r) (sn_records s))) (\<lambda>(st, rs).
             (let r' = r\<lparr>lr_state := Op_acknowledged\<rparr> in
              andthen (save_lifecycle (set_operation k r' st) rs
                         (Some (invalidate_approvals (lr_old_ids r) (sn_enrollment s))))
                      (ret (lc_public r')))))))"

definition lc_deliver :: "principal \<Rightarrow> string \<Rightarrow> lc_row \<Rightarrow> json op" where
  "lc_deliver p k r =
     bnd (reads w_store) (\<lambda>s. bnd (reads w_now) (\<lambda>now.
       andthen (raise_if (lr_state r \<noteq> Op_pending \<or> lr_action r \<noteq> Rotate) (EnrollmentError ''unavailable''))
       (andthen (raise_if (length (sn_records s) \<ge> LIMIT) (EnrollmentError ''capacity''))
       (bnd token_urlsafe32 (\<lambda>secret.
          (let token = ''vx_'' @ (if pr_role p = DEVICE then ''dev_'' else ''int_'') @ secret in
           bnd (token_hex 16) (\<lambda>i. bnd (reads (\<lambda>w. token_verifier (w_sha256 w) token)) (\<lambda>v.
           bnd (new_credential i (pr_role p) (pr_subject p) v True) (\<lambda>c.
             (let r' = r\<lparr>lr_state := Op_delivered, lr_credential_id := i,
                         lr_overlap_until := min (now + OVERLAP_SECONDS) (lr_expires_at r)\<rparr> in
              andthen (save_lifecycle (set_operation k r' (lifecycle_of s)) (sn_records s @ [c]) None)
                (ret (JObj (obj_pairs (lc_public r') @
                       [(''credential'', JStr token), (''save_required'', JBool True)])))))))))))))"

definition lc_execute :: "string \<Rightarrow> string \<Rightarrow> json \<Rightarrow> (world \<Rightarrow> principal option) \<Rightarrow> json op" where
  "lc_execute origin action body resolve =
     andthen (raise_if (case dict_get lc_fields action of None \<Rightarrow> True | Some ks \<Rightarrow> \<not> keys_are body ks)
                (EnrollmentError ''invalid_request''))
     (andthen (raise_if (action \<noteq> ''poll'' \<and> \<not> hex_string (jat body ''operation_id'') 32)
                (EnrollmentError ''invalid_request''))
     (transaction
        (andthen (lc_sweep origin)
        (bnd (reads resolve) (\<lambda>who.
           case who of
             None \<Rightarrow> raise (EnrollmentError ''unauthorized'')
           | Some p \<Rightarrow>
         bnd (reads (\<lambda>w. is_owner (w_store w) p)) (\<lambda>owner.
         bnd (reads (\<lambda>w. current w (Some p))) (\<lambda>live.
           andthen (raise_if (\<not> owner \<and> \<not> live) (EnrollmentError ''unauthorized''))
           (if action \<in> {''rotate'', ''revoke'', ''recover''}
            then andthen (raise_if (\<not> owner) (EnrollmentError ''forbidden'')) (lc_control origin (action_of_name action) body)
            else if action = ''poll'' then lc_poll p
            else bnd (reads (\<lambda>w. dict_get (ls_operations (lifecycle_of (w_store w))) (str_value (jat body ''operation_id'')))) (\<lambda>found.
                 case found of
                   None \<Rightarrow> raise (EnrollmentError ''not_found'')
                 | Some r \<Rightarrow>
                     (let k = str_value (jat body ''operation_id'');
                          own = (pr_role p = lr_role r \<and> pr_subject p = lr_subject r) in
                      andthen (raise_if (\<not> own \<and> \<not> (owner \<and> action = ''status'')) (EnrollmentError ''forbidden''))
                      (if action = ''status'' then ret (lc_public r)
                       else if action = ''ack'' then lc_ack p body k r
                       else lc_deliver p k r)))))))))))"


section \<open>Called by the enrollment\<close>

definition bind_enrollment :: "enr_row \<Rightarrow> unit op" where
  "bind_enrollment row =
     bnd (reads w_store) (\<lambda>s.
       (let st = lifecycle_of s; held = dict_get (ls_bindings st) (er_device_id row);
            binding = \<lparr>lb_public_key = er_public_key row, lb_kind = er_kind row\<rparr> in
        andthen (raise_if (held = None \<and> length (ls_bindings st) \<ge> LIMIT) (EnrollmentError ''capacity''))
        (andthen (raise_if (held \<noteq> None \<and> held \<noteq> Some binding) (EnrollmentError ''already_owned''))
        (modifies (set_lifecycle (Some (st\<lparr>ls_bindings := dict_put (er_device_id row) binding (ls_bindings st)\<rparr>)))))))"

definition replace_enrollment_credential :: "enr_row \<Rightarrow> credential \<Rightarrow> credential list op" where
  "replace_enrollment_credential row c =
     andthen (bind_enrollment row)
     (bnd (reads w_store) (\<lambda>s.
        bnd (lift_result (retire_ids (lifecycle_of s)
               (map cr_id (matching_records DEVICE (er_device_id row) (sn_records s))) (sn_records s))) (\<lambda>(st, rs).
          andthen (modifies (set_lifecycle (Some st))) (ret (rs @ [c])))))"


section \<open>The store stays guarded\<close>

definition sound_parts :: "string set \<Rightarrow> identities \<Rightarrow> lc_state \<Rightarrow> credential list \<Rightarrow> bool" where
  "sound_parts B C st rs \<longleftrightarrow> lifecycle_dicts st \<and> B \<subseteq> set (ls_blocked st) \<and> holds_credentials C rs"

lemma set_sorted_texts [simp]: "set (sorted_texts xs) = set xs"
  by (simp add: sorted_texts_def)

lemma length_sorted_texts [simp]: "length (sorted_texts xs) = card (set xs)"
  by (simp add: sorted_texts_def length_remdups_card_conv)

lemma distinct_sorted_texts [simp]: "distinct (sorted_texts xs)"
  by (simp add: sorted_texts_def)

lemma retire_ids_Inr:
  assumes "retire_ids st ids rs = Inr (st', rs')"
  shows "st' = st\<lparr>ls_blocked := ls_blocked st'\<rparr>"
    and "set (ls_blocked st') = set (ls_blocked st) \<union> cr_verifier ` {r \<in> set rs. cr_id r \<in> set ids}"
    and "rs' = map (\<lambda>r. if cr_id r \<in> set ids then r\<lparr>cr_enabled := False\<rparr> else r) rs"
    and "distinct (ls_blocked st')" and "length (ls_blocked st') \<le> TOMBSTONE_LIMIT"
  using assms
  by (auto simp: retire_ids_def Let_def length_remdups_card_conv split: if_splits)

lemma identity_enabled [simp]: "identity (r\<lparr>cr_enabled := b\<rparr>) = identity r"
  by (simp add: identity_def)

lemma ok_credential_enabled [simp]: "ok_credential (r\<lparr>cr_enabled := b\<rparr>) = ok_credential r"
  by (simp add: ok_credential_def)

lemma holds_credentials_map:
  assumes "\<And>r. identity (f r) = identity r" and "\<And>r. ok_credential r \<Longrightarrow> ok_credential (f r)"
  shows "holds_credentials C rs \<Longrightarrow> holds_credentials C (map f rs)"
  using assms by (auto simp: holds_credentials_def list_all_iff image_image)

lemma holds_credentials_append [simp]:
  "holds_credentials C rs \<Longrightarrow> ok_credential c \<Longrightarrow> holds_credentials C (rs @ [c])"
  by (auto simp: holds_credentials_def)

lemma retire_sound:
  assumes "sound_parts B C st rs" and "retire_ids st ids rs = Inr (st', rs')"
  shows "sound_parts B C st' rs'"
proof -
  note r = retire_ids_Inr [OF assms(2)]
  have "lifecycle_dicts st'"
    using assms(1) r(1) by (metis (no_types, lifting) lc_state.ext_inject lc_state.surjective lc_state.update_convs(2)
        lifecycle_dicts_def sound_parts_def)
  moreover have "holds_credentials C rs'"
    unfolding r(3) using assms(1) by (intro holds_credentials_map) (simp_all add: sound_parts_def)
  ultimately show ?thesis using assms(1) r(2) by (auto simp: sound_parts_def)
qed

lemma sound_set_operation [simp]: "sound_parts B C (set_operation k r st) rs = sound_parts B C st rs"
  if "is_dict (ls_operations st)"
  using that by (auto simp: sound_parts_def set_operation_def lifecycle_dicts_def)

lemma sound_dict: "sound_parts B C st rs \<Longrightarrow> is_dict (ls_operations st)"
  by (simp add: sound_parts_def lifecycle_dicts_def)

lemma sound_store: "shaped s \<Longrightarrow> remembers B C s \<Longrightarrow> sound_parts B C (lifecycle_of s) (sn_records s)"
  by (simp add: sound_parts_def shaped_def remembers_def dicts_ok_parts blocked_of_def holds_credentials_def)

lemma sweep_row_sound:
  "sweep_row now s origin kr acc = Inr acc' \<Longrightarrow> sound_parts B C (fst acc) (fst (snd acc)) \<Longrightarrow>
   sound_parts B C (fst acc') (fst (snd acc'))"
  by (auto simp: sweep_row_def Let_def sound_dict dest: retire_sound split: prod.splits if_splits sum.splits)

lemma sweep_rows_sound:
  "sweep_rows now s origin krs acc = Inr acc' \<Longrightarrow> sound_parts B C (fst acc) (fst (snd acc)) \<Longrightarrow>
   sound_parts B C (fst acc') (fst (snd acc'))"
proof (induction krs arbitrary: acc)
  case (Cons kr krs)
  then show ?case
    by (auto split: sum.splits dest: sweep_row_sound [where B = B and C = C])
qed simp

lemma plan_sweep_sound:
  assumes "plan_sweep now s origin = Inr (st, rs, retired, changed)" and "shaped s" and "remembers B C s"
  shows "sound_parts B C st rs"
proof -
  obtain acc where a: "sweep_rows now s origin (ls_operations (lifecycle_of s)) (lifecycle_of s, sn_records s, [], False) = Inr acc"
    and c: "clear_recovery acc = Inr (st, rs, retired, changed)"
    using assms(1) by (auto simp: plan_sweep_def split: sum.splits)
  have "sound_parts B C (fst acc) (fst (snd acc))"
    using sweep_rows_sound [OF a] sound_store [OF assms(2,3)] by simp
  then show ?thesis
    using c by (auto simp: clear_recovery_def Let_def sound_parts_def lifecycle_dicts_def split: prod.splits if_splits)
qed

lemma enrollment_dicts_map [simp]: "enrollment_dicts (map_requests f e) = enrollment_dicts e"
  by (cases e) (simp_all add: map_requests_def enrollment_dicts_def)

lemma enrollment_dicts_invalidate [simp]: "enrollment_dicts (invalidate_approvals ids e) = enrollment_dicts e"
  by (simp add: invalidate_approvals_def)

lemma shaped_enrollment: "shaped s \<Longrightarrow> enrollment_dicts (sn_enrollment s)"
  by (simp add: shaped_def dicts_ok_parts)

lemma keeps_save_lifecycle:
  "sound_parts B C st rs \<Longrightarrow> pred_option enrollment_dicts enr \<Longrightarrow> keeps B C (save_lifecycle st rs enr)"
  unfolding save_lifecycle_def
  by (rule keeps_modifies guarded_set_lifecycle guarded_set_enrollment keeps_rules | simp add: sound_parts_def)+

lemma keeps_lift_result: "(\<And>x. v = Inr x \<Longrightarrow> keeps B C (k x)) \<Longrightarrow> keeps B C (bnd (lift_result v) k)"
  by (cases v) (auto simp: lift_result_def obeys_def keeping_def bnd_def raise_def ret_def)

lemma keeps_new_credential:
  assumes "\<And>c. ok_credential c \<Longrightarrow> keeps B C (k c)"
  shows "keeps B C (bnd (new_credential i ro subj v en) k)"
  using assms by (auto simp: new_credential_def Let_def obeys_def keeping_def bnd_def raise_def ret_def)

lemmas lifecycle_keeps = keeps_lift_result keeps_new_credential keeps_rules

lemma keeps_lc_sweep: "keeps B C (lc_sweep origin)"
  unfolding lc_sweep_def
  by (rule lifecycle_keeps keeps_save_lifecycle | auto simp: shaped_enrollment dest: plan_sweep_sound)+

lemma sound_parts_update:
  "sound_parts B C (st\<lparr>ls_recovery := d, ls_operations := q\<rparr>) rs \<longleftrightarrow>
     is_dict d \<and> is_dict q \<and> is_dict (ls_bindings st) \<and> B \<subseteq> set (ls_blocked st) \<and> holds_credentials C rs"
  "sound_parts B C (st\<lparr>ls_operations := q, ls_recovery := d\<rparr>) rs \<longleftrightarrow>
     is_dict d \<and> is_dict q \<and> is_dict (ls_bindings st) \<and> B \<subseteq> set (ls_blocked st) \<and> holds_credentials C rs"
  by (auto simp: sound_parts_def lifecycle_dicts_def)

lemma plan_operation_sound:
  assumes "plan_operation now s act oid subj row = Inr (st, rs, enr, row')" and "shaped s" and "remembers B C s"
  shows "sound_parts B C st rs" and "pred_option enrollment_dicts enr"
proof -
  note sd = sound_store [OF assms(2,3)]
  have "sound_parts B C st rs \<and> pred_option enrollment_dicts enr"
  proof (cases "act = Rotate")
    case True
    then show ?thesis using assms(1) sd by (auto simp: plan_operation_def Let_def sound_dict)
  next
    case False
    then obtain st1 rs1 where r: "retire_ids (lifecycle_of s) (lr_old_ids row) (sn_records s) = Inr (st1, rs1)"
      using assms(1) by (auto simp: plan_operation_def Let_def split: sum.splits)
    have "sound_parts B C st1 rs1" using retire_sound [OF sd r] .
    then show ?thesis
      using assms False r shaped_enrollment [OF assms(2)]
      by (auto simp: plan_operation_def Let_def set_operation_def sound_parts_def lifecycle_dicts_def split: if_splits)
  qed
  then show "sound_parts B C st rs" and "pred_option enrollment_dicts enr" by simp_all
qed

lemma plan_control_sound:
  assumes "plan_control now s origin act body = Inr (Some (st, rs, enr), row)" and "shaped s" and "remembers B C s"
  shows "sound_parts B C st rs" and "pred_option enrollment_dicts enr"
  using assms plan_operation_sound [OF _ assms(2,3)]
  by (auto simp: plan_control_def Let_def split: if_splits option.splits sum.splits prod.splits)

lemma keeps_lc_control: "keeps B C (lc_control origin act body)"
  unfolding lc_control_def
  by (rule lifecycle_keeps keeps_save_lifecycle | auto dest: plan_control_sound)+


lemma sound_set: "sound_parts B C st rs \<Longrightarrow> sound_parts B C (set_operation k r st) rs"
  using sound_dict [of B C st rs] by simp

lemma keeps_lc_poll: "keeps B C (lc_poll p)"
  unfolding lc_poll_def
  by (rule lifecycle_keeps keeps_save_lifecycle sound_set sound_store | assumption | simp)+

lemma retire_store_sound:
  "retire_ids (lifecycle_of s) ids (sn_records s) = Inr (st, rs) \<Longrightarrow> shaped s \<Longrightarrow> remembers B C s \<Longrightarrow> sound_parts B C st rs"
  using retire_sound sound_store by blast

lemma keeps_lc_ack: "keeps B C (lc_ack p body k r)"
  unfolding lc_ack_def
  by (rule lifecycle_keeps keeps_save_lifecycle sound_set retire_store_sound | assumption
      | simp add: shaped_enrollment)+

lemma sound_append: "sound_parts B C st rs \<Longrightarrow> ok_credential c \<Longrightarrow> sound_parts B C st (rs @ [c])"
  by (simp add: sound_parts_def)

lemma keeps_lc_deliver: "keeps B C (lc_deliver p k r)"
  unfolding lc_deliver_def
  by (rule lifecycle_keeps keeps_save_lifecycle sound_append sound_set sound_store | assumption | simp)+

lemma keeps_lc_execute: "keeps B C (lc_execute origin action body resolve)"
  unfolding lc_execute_def
  by (rule keeps_lc_sweep keeps_lc_control keeps_lc_poll keeps_lc_ack keeps_lc_deliver lifecycle_keeps)+

lemma keeps_bind_enrollment: "keeps B C (bind_enrollment row)"
proof -
  have "keeps B C (modifies (set_lifecycle (Some (lifecycle_of s\<lparr>ls_bindings := dict_put k b (ls_bindings (lifecycle_of s))\<rparr>))))"
    if "shaped s" "remembers B C s" for s k b
    using sound_store [OF that]
    by (intro keeps_modifies guarded_set_lifecycle) (simp_all add: sound_parts_def lifecycle_dicts_def)
  then show ?thesis
    unfolding bind_enrollment_def Let_def by (intro keeps_reads_store invariant_step.obeys_rules)
qed

lemma triple_replace_enrollment_credential:
  assumes "ok_credential c"
  shows "triple (guarded B C) (replace_enrollment_credential row c)
    (\<lambda>rs w. guarded B C w \<and> holds_credentials C rs) (\<lambda>_. guarded B C)"
proof -
  have "triple (guarded B C) (bind_enrollment row) (\<lambda>_. guarded B C) (\<lambda>_. guarded B C)"
    by (simp add: triple_iff_keeping keeps_bind_enrollment)
  moreover have "triple (guarded B C) (bnd (reads w_store) (\<lambda>s.
        bnd (lift_result (retire_ids (lifecycle_of s)
               (map cr_id (matching_records DEVICE (er_device_id row) (sn_records s))) (sn_records s))) (\<lambda>(st, rs).
          andthen (modifies (set_lifecycle (Some st))) (ret (rs @ [c])))))
      (\<lambda>rs w. guarded B C w \<and> holds_credentials C rs) (\<lambda>_. guarded B C)"
  proof (rule tripleI)
    fix w x w'
    assume g: "guarded B C w" and "bnd (reads w_store) (\<lambda>s.
        bnd (lift_result (retire_ids (lifecycle_of s)
               (map cr_id (matching_records DEVICE (er_device_id row) (sn_records s))) (sn_records s))) (\<lambda>(st, rs).
          andthen (modifies (set_lifecycle (Some st))) (ret (rs @ [c])))) w = (Inr x, w')"
    then obtain st rs where r: "retire_ids (lifecycle_of (w_store w))
        (map cr_id (matching_records DEVICE (er_device_id row) (sn_records (w_store w)))) (sn_records (w_store w)) = Inr (st, rs)"
      and x: "x = rs @ [c]" "w' = set_lifecycle (Some st) w"
      by (auto simp: action_simps lift_result_def split: sum.splits prod.splits)
    have "sound_parts B C st rs"
      using retire_store_sound [OF r] g by (simp add: guarded_def)
    then show "guarded B C w' \<and> holds_credentials C x"
      using g assms x by (auto simp: sound_parts_def guarded_set_lifecycle)
  next
    fix w e w'
    assume "guarded B C w" and "bnd (reads w_store) (\<lambda>s.
        bnd (lift_result (retire_ids (lifecycle_of s)
               (map cr_id (matching_records DEVICE (er_device_id row) (sn_records s))) (sn_records s))) (\<lambda>(st, rs).
          andthen (modifies (set_lifecycle (Some st))) (ret (rs @ [c])))) w = (Inl e, w')"
    then show "guarded B C w'"
      by (auto simp: action_simps lift_result_def split: sum.splits prod.splits)
  qed
  ultimately show ?thesis
    unfolding replace_enrollment_credential_def by (rule triple_andthen)
qed

end
