(* ===== verification/Enrollment.thy ===== *)
theory Enrollment
  imports Credential_Lifecycle
begin

text \<open>
  \<open>provisioning/enrollment.py\<close>: a device proves its key, gets a four-digit code, a controller
  initiates and approves with that code, and the device redeems one credential. Every step that a
  wrong signature or code can reach is charged against five attempts.
\<close>

section \<open>Transcripts and codes\<close>

text \<open>\<open>transcript(row, action)\<close>\<close>

definition binding_fields :: "enr_row \<Rightarrow> scalar list" where
  "binding_fields r = [Whole 1, Text (er_request_id r), Text (er_server_id r), Text (er_origin r),
     Text (kind_name (er_kind r)), Text (er_public_key r), Text (er_device_id r), Text (er_nonce r),
     Whole (er_expires_at r), Text (er_owner_generation r), Text (er_display_name r)]"

definition transcript :: "enr_row \<Rightarrow> string \<Rightarrow> string" where
  "transcript r action = json_array (Text ''vauxr-enrollment'' # Text action # binding_fields r)"

definition code_digest :: "(string \<Rightarrow> string) \<Rightarrow> enr_row \<Rightarrow> string \<Rightarrow> string" where
  "code_digest sha r code = sha (transcript r ''code'' @ CHR 0x0A # code)"

text \<open>\<open>f"{n:04d}"\<close>\<close>

definition four_digits :: "int \<Rightarrow> string" where
  "four_digits n = padded 4 n"

definition is_code :: "string \<Rightarrow> bool" where
  "is_code c \<longleftrightarrow> length c = 4 \<and> list_all is_digit c"


section \<open>The state of a request\<close>

definition actor_current :: "world \<Rightarrow> principal option \<Rightarrow> bool" where
  "actor_current w a = (case a of None \<Rightarrow> False | Some p \<Rightarrow>
     if pr_role p = OWNER
     then owner_active (w_store w) \<and> owner_generation (w_store w) = Some (pr_credential_id p)
     else current w (Some p))"

text \<open>\<open>_status(row)\<close>: what the row says, unless the clock or a change of authority overtook it.\<close>

definition enr_status_of :: "world \<Rightarrow> string \<Rightarrow> enr_row \<Rightarrow> enr_status" where
  "enr_status_of w origin r =
    (if enr_terminal (er_state r) then er_state r
     else if of_int (er_expires_at r) \<le> w_now w then Expired
     else if owner_generation (w_store w) \<noteq> Some (er_owner_generation r) \<or> er_origin r \<noteq> origin
             \<or> (er_initiator r \<noteq> None \<and> \<not> actor_current w (er_initiator r))
             \<or> (er_approver r \<noteq> None \<and> \<not> actor_current w (er_approver r))
     then Stale
     else er_state r)"

definition enr_public :: "world \<Rightarrow> string \<Rightarrow> enr_row \<Rightarrow> json" where
  "enr_public w origin r = JObj [(''request_id'', JStr (er_request_id r)), (''device_id'', JStr (er_device_id r)),
     (''kind'', JStr (kind_name (er_kind r))), (''display_name'', JStr (er_display_name r)),
     (''status'', JStr (status_name (enr_status_of w origin r))), (''expires_at'', JInt (er_expires_at r))]"

text \<open>\<open>_state()\<close>: the namespace, created on first use; rows overtaken by a change of authority are stored as stale.\<close>

definition overtaken :: "world \<Rightarrow> string \<Rightarrow> enr_row \<Rightarrow> bool" where
  "overtaken w origin r \<longleftrightarrow> \<not> enr_terminal (er_state r) \<and> enr_status_of w origin r = Stale"

definition enr_state_op :: "string \<Rightarrow> enr_state op" where
  "enr_state_op origin =
     bnd (reads (\<lambda>w. sn_enrollment (w_store w))) (\<lambda>held.
     bnd (case held of
            Some e \<Rightarrow> ret e
          | None \<Rightarrow> bnd (token_hex 16) (\<lambda>i. ret \<lparr>es_server_id = i, es_requests = [], es_attempts = []\<rparr>)) (\<lambda>e.
     bnd (reads (\<lambda>w. overtaken w origin)) (\<lambda>gone.
       (let e' = e\<lparr>es_requests := dict_map (\<lambda>r. if gone r then make_stale r else r) (es_requests e)\<rparr> in
        andthen (when_do (list_ex gone (dict_values (es_requests e))) (save_enrollment (Some e') None))
                (ret e')))))"

definition put_request :: "enr_row \<Rightarrow> enr_state \<Rightarrow> enr_state" where
  "put_request r e = e\<lparr>es_requests := dict_put (er_request_id r) r (es_requests e)\<rparr>"

definition enr_rate_limit :: "string \<Rightarrow> unit op" where
  "enr_rate_limit origin = transaction
     (bnd (enr_state_op origin) (\<lambda>e. bnd (reads w_now) (\<lambda>now.
        (let attempts = filter (\<lambda>t. now - t < 60) (es_attempts e) in
         andthen (raise_if (length attempts \<ge> 60) (EnrollmentError ''rate_limited''))
                 (save_enrollment (Some (e\<lparr>es_attempts := attempts @ [now]\<rparr>)) None)))))"

text \<open>\<open>initialize()\<close>: store what changed while the server was down; consumed rows keep their key binding.\<close>

definition enr_initialize :: "string \<Rightarrow> unit op" where
  "enr_initialize origin = transaction
     (andthen (bnd (enr_state_op origin) (\<lambda>_. ret ()))
     (bnd (reads (\<lambda>w. filter (\<lambda>r. er_state r = Consumed) (dict_values (enrollment_requests (w_store w))))) (\<lambda>rows.
        andthen (for_each rows bind_enrollment)
        (bnd (reads (\<lambda>w. sn_lifecycle (w_store w))) (\<lambda>l.
           when_do (l \<noteq> None) (bnd (reads (\<lambda>w. sn_records (w_store w))) replace_records))))))"


section \<open>Controllers, proofs and failures\<close>

definition controller :: "(world \<Rightarrow> principal option) \<Rightarrow> device_kind \<Rightarrow> principal op" where
  "controller resolve k =
     bnd (reads resolve) (\<lambda>who. case who of
       None \<Rightarrow> raise (EnrollmentError ''unauthorized'')
     | Some p \<Rightarrow>
         bnd (reads (\<lambda>w. current w (Some p))) (\<lambda>live. bnd (reads (\<lambda>w. actor_current w (Some p))) (\<lambda>owner_live.
           if (pr_role p \<noteq> OWNER \<and> pr_role p \<noteq> INTEGRATION)
              \<or> (pr_role p = INTEGRATION \<and> \<not> live) \<or> (pr_role p = OWNER \<and> \<not> owner_live)
              \<or> (k = Browser \<and> pr_role p \<noteq> OWNER)
           then raise (EnrollmentError ''forbidden'') else ret p)))"

definition charge :: "enr_row \<Rightarrow> enr_row" where
  "charge r = (let n = min 5 (er_attempts r + 1) in
     if n = 5 then r\<lparr>er_attempts := n, er_state := Failed, er_code_hash := code_or_zero (er_code_hash r)\<rparr>
     else r\<lparr>er_attempts := n\<rparr>)"

text \<open>\<open>_failure(state, row)\<close> always raises; a row that is over is not charged.\<close>

definition enr_failure :: "string \<Rightarrow> enr_state \<Rightarrow> enr_row \<Rightarrow> 'a op" where
  "enr_failure origin e r =
     bnd (reads (\<lambda>w. enr_status_of w origin r)) (\<lambda>s.
       andthen (raise_if (enr_terminal s) (EnrollmentError ''invalid_proof''))
       (andthen (save_enrollment (Some (put_request (charge r) e)) None)
                (raise (EnrollmentError ''invalid_proof''))))"

definition signature_holds :: "world \<Rightarrow> enr_row \<Rightarrow> string \<Rightarrow> json \<Rightarrow> bool" where
  "signature_holds w r action sig \<longleftrightarrow> hex_string sig 128
     \<and> w_ed25519 w (unhex (er_public_key r)) (unhex (str_value sig)) (transcript r action)"

definition check_signature :: "string \<Rightarrow> enr_state \<Rightarrow> enr_row \<Rightarrow> string \<Rightarrow> json \<Rightarrow> unit op" where
  "check_signature origin e r action sig =
     bnd (reads (\<lambda>w. signature_holds w r action sig)) (\<lambda>ok. if ok then ret () else enr_failure origin e r)"


section \<open>Ownership of an identity\<close>

definition binding_of :: "enr_row \<Rightarrow> lc_binding" where
  "binding_of r = \<lparr>lb_public_key = er_public_key r, lb_kind = er_kind r\<rparr>"

definition unowned_error :: "snapshot \<Rightarrow> enr_row \<Rightarrow> exn option" where
  "unowned_error s r =
    (if length (sn_records s) \<ge> 1024 then Some (EnrollmentError ''capacity'')
     else case dict_get (ls_bindings (lifecycle_of s)) (er_device_id r) of
       Some b \<Rightarrow> if b \<noteq> binding_of r then Some (EnrollmentError ''already_owned'') else None
     | None \<Rightarrow> if list_ex (\<lambda>c. cr_subject c = er_device_id r) (sn_records s)
               then Some (EnrollmentError ''already_owned'') else None)"

definition check_unowned :: "enr_row \<Rightarrow> unit op" where
  "check_unowned r = bnd (reads w_store) (\<lambda>s. case unowned_error s r of None \<Rightarrow> ret () | Some e \<Rightarrow> raise e)"

text \<open>\<open>_device_id(body)\<close>: the identity this key already has, or one derived from it.\<close>

definition device_id_for :: "world \<Rightarrow> string \<Rightarrow> device_kind \<Rightarrow> exn + string" where
  "device_id_for w key k =
    (let binding = \<lparr>lb_public_key = key, lb_kind = k\<rparr>;
         existing = map fst (filter (\<lambda>(_, b). b = binding) (ls_bindings (lifecycle_of (w_store w))));
         waiting = map er_device_id (filter (\<lambda>r. er_public_key r = key \<and> er_kind r = k)
                     (dict_values (enrollment_requests (w_store w))))
     in case existing of
          _ # _ # _ \<Rightarrow> Inl (EnrollmentError ''conflict'')
        | [i] \<Rightarrow> Inr i
        | [] \<Rightarrow> (case waiting of i # _ \<Rightarrow> Inr i
                 | [] \<Rightarrow> Inr (''dev_'' @ take (w_device_id_length w) (w_sha256 w (unhex key)))))"


section \<open>A new request\<close>

definition point_recovery :: "string \<Rightarrow> string \<Rightarrow> lc_state \<Rightarrow> exn + lc_state" where
  "point_recovery device request st = (case dict_get (ls_recovery st) device of
     None \<Rightarrow> Inr st
   | Some rc \<Rightarrow>
       (case dict_get (ls_operations st) (rc_operation_id rc) of
          None \<Rightarrow> Inl KeyError
        | Some r \<Rightarrow> Inr (set_operation (rc_operation_id rc) (r\<lparr>lr_state := Op_pending\<rparr>)
            (st\<lparr>ls_recovery := dict_put device (rc\<lparr>rc_request_id := request\<rparr>) (ls_recovery st)\<rparr>))))"

definition binding_json :: "enr_row \<Rightarrow> json" where
  "binding_json r = JObj [(''version'', JInt 1), (''request_id'', JStr (er_request_id r)),
     (''server_id'', JStr (er_server_id r)), (''origin'', JStr (er_origin r)),
     (''kind'', JStr (kind_name (er_kind r))), (''public_key'', JStr (er_public_key r)),
     (''device_id'', JStr (er_device_id r)), (''nonce'', JStr (er_nonce r)),
     (''expires_at'', JInt (er_expires_at r)), (''owner_generation'', JStr (er_owner_generation r)),
     (''display_name'', JStr (er_display_name r))]"

definition enr_request :: "string \<Rightarrow> enr_state \<Rightarrow> json \<Rightarrow> json op" where
  "enr_request origin e body =
     andthen (raise_if (\<not> str_among (jat body ''kind'') [''physical'', ''browser''] \<or> \<not> hex_string (jat body ''public_key'') 64
                \<or> \<not> str_that enr_display_name (jat body ''display_name'')) (EnrollmentError ''invalid_request''))
     (bnd (reads w_store) (\<lambda>s. bnd (reads w_now) (\<lambda>time.
       andthen (raise_if (origin = [] \<or> length origin > 256 \<or> \<not> is_ascii origin \<or> \<not> owner_active s)
                  (EnrollmentError ''unavailable''))
       (let now = \<lfloor>time\<rfloor>; live = dict_filter (\<lambda>(_, r). er_expires_at r > now) (es_requests e);
            k = kind_of_name (str_value (jat body ''kind'')); key = str_value (jat body ''public_key'') in
        andthen (raise_if (length live \<ge> MAX_REQUESTS) (EnrollmentError ''capacity''))
        (bnd (token_hex 16) (\<lambda>i. bnd (token_hex 32) (\<lambda>nonce.
         case owner_generation s of
           None \<Rightarrow> raise KeyError
         | Some gen \<Rightarrow>
         bnd (reads (\<lambda>w. device_id_for w key k)) (\<lambda>device. bnd (lift_result device) (\<lambda>d.
           (let r = \<lparr>er_request_id = i, er_server_id = es_server_id e, er_origin = origin, er_kind = k,
                     er_public_key = key, er_device_id = d, er_nonce = nonce, er_expires_at = now + ENROLLMENT_TTL,
                     er_owner_generation = gen, er_display_name = str_value (jat body ''display_name''),
                     er_state = Challenge, er_attempts = 0, er_code_hash = [], er_initiator = None,
                     er_approver = None\<rparr> in
            andthen (check_unowned r)
            (bnd (reads (\<lambda>w. list_ex (\<lambda>o'. er_device_id o' = d \<and> \<not> enr_terminal (enr_status_of w origin o')) (dict_values live))) (\<lambda>busy.
             andthen (raise_if busy (EnrollmentError ''conflict''))
             (bnd (reads (\<lambda>w. sn_lifecycle (w_store w))) (\<lambda>l.
             andthen (case l of None \<Rightarrow> ret () | Some st \<Rightarrow>
                        when_do (dict_get (ls_recovery st) d \<noteq> None)
                          (bnd (lift_result (point_recovery d i st)) (\<lambda>st'. modifies (set_lifecycle (Some st')))))
             (andthen (save_enrollment (Some (put_request r (e\<lparr>es_requests := live\<rparr>))) None)
                      (ret (binding_json r)))))))))))))))))"


section \<open>Redeeming\<close>

text \<open>The operation a recovery waits for is delivered with the credential just issued.\<close>

definition deliver_recovery :: "string \<Rightarrow> string \<Rightarrow> lc_state \<Rightarrow> exn + lc_state \<times> string option" where
  "deliver_recovery device cred st = (case dict_get (ls_recovery st) device of
     None \<Rightarrow> Inr (st, None)
   | Some rc \<Rightarrow>
       (case dict_get (ls_operations st) (rc_operation_id rc) of
          None \<Rightarrow> Inl KeyError
        | Some r \<Rightarrow> Inr (set_operation (rc_operation_id rc) (r\<lparr>lr_state := Op_delivered, lr_credential_id := cred,
            lr_overlap_until := lr_expires_at r\<rparr>) st, Some (rc_operation_id rc))))"

definition enr_redeem :: "string \<Rightarrow> enr_state \<Rightarrow> enr_row \<Rightarrow> json op" where
  "enr_redeem origin e r =
     andthen (check_unowned r)
     (bnd token_urlsafe32 (\<lambda>secret.
       (let token = ''vx_dev_'' @ secret in
        bnd (token_hex 16) (\<lambda>i. bnd (reads (\<lambda>w. token_verifier (w_sha256 w) token)) (\<lambda>v.
        bnd (new_credential i DEVICE (er_device_id r) v True) (\<lambda>c.
        bnd (replace_enrollment_credential r c) (\<lambda>rs.
        bnd (reads (\<lambda>w. lifecycle_of (w_store w))) (\<lambda>st.
        bnd (lift_result (deliver_recovery (er_device_id r) i st)) (\<lambda>(st', recovered).
          andthen (modifies (set_lifecycle (Some st')))
          (andthen (save_enrollment (Some (put_request (r\<lparr>er_state := Consumed\<rparr>) e)) (Some rs))
          (ret (JObj ([(''version'', JInt 1), (''status'', JStr ''consumed''), (''device_id'', JStr (er_device_id r)),
                       (''credential_id'', JStr i), (''device_token'', JStr token)]
                      @ (case recovered of None \<Rightarrow> [] | Some oid \<Rightarrow>
                           [(''operation_id'', JStr oid), (''save_required'', JBool True)]))))))))))))))"

definition enr_result :: "enr_row \<Rightarrow> json" where
  "enr_result r = JObj [(''status'', JStr (status_name (er_state r))), (''device_id'', JStr (er_device_id r))]"

text \<open>\<open>initiate\<close> and \<open>approve\<close>: the controller repeats the code that the device showed.\<close>

definition enr_confirm :: "string \<Rightarrow> enr_state \<Rightarrow> enr_row \<Rightarrow> bool \<Rightarrow> principal \<Rightarrow> json \<Rightarrow> json op" where
  "enr_confirm origin e r approving p code =
     bnd (reads (\<lambda>w. enr_status_of w origin r)) (\<lambda>status.
     andthen (raise_if (status \<noteq> (if approving then Initiated else Ready)) (EnrollmentError ''unavailable''))
     (bnd (reads (\<lambda>w. str_that (\<lambda>c. is_code c \<and> code_digest (w_sha256 w) r c = er_code_hash r) code)) (\<lambda>ok.
      andthen (if ok then ret () else enr_failure origin e r)
      (andthen (raise_if (\<not> (if er_kind r = Physical
                             then allowed (Some p) (Some (if approving then PAIR_APPROVE else PAIR_INITIATE)) None True
                             else pr_role p = OWNER)) (EnrollmentError ''forbidden''))
      (andthen (check_unowned r)
       (let r' = (if approving then r\<lparr>er_approver := Some p, er_state := Approved\<rparr>
                  else r\<lparr>er_initiator := Some p, er_state := Initiated\<rparr>) in
        andthen (save_enrollment (Some (put_request r' e)) None) (ret (enr_result r'))))))))"


section \<open>Requests\<close>

definition enr_fields :: "(string, string list) dict" where
  "enr_fields = [(''request'', [''kind'', ''public_key'', ''display_name'']),
     (''prove'', [''request_id'', ''signature'']), (''redeem'', [''request_id'', ''signature'']),
     (''cancel'', [''request_id'', ''signature'']), (''status'', [''request_id'', ''signature'']),
     (''initiate'', [''request_id'', ''code'']), (''approve'', [''request_id'', ''code'']),
     (''deny'', [''request_id'']), (''list'', [])]"

text \<open>What is done with a row that is not over, once its controller or its signature was checked.\<close>

definition enr_act :: "string \<Rightarrow> string \<Rightarrow> enr_state \<Rightarrow> enr_row \<Rightarrow> enr_status \<Rightarrow> principal option \<Rightarrow> json \<Rightarrow> json op" where
  "enr_act origin action e r status who body =
    (if action = ''prove'' \<and> status = Challenge
     then bnd (randbelow 10000) (\<lambda>n.
          bnd (reads (\<lambda>w. code_digest (w_sha256 w) r (four_digits n))) (\<lambda>digest.
            andthen (save_enrollment (Some (put_request (r\<lparr>er_state := Ready, er_code_hash := digest\<rparr>) e)) None)
              (ret (JObj [(''version'', JInt 1), (''status'', JStr ''ready''), (''code'', JStr (four_digits n)),
                          (''expires_at'', JInt (er_expires_at r))]))))
     else if action = ''initiate'' \<or> action = ''approve''
     then (case who of None \<Rightarrow> raise (EnrollmentError ''unauthorized'')
           | Some p \<Rightarrow> enr_confirm origin e r (action = ''approve'') p (jat body ''code''))
     else if action = ''redeem'' \<and> status = Approved then enr_redeem origin e r
     else if action = ''cancel'' \<or> action = ''deny''
     then (let r' = r\<lparr>er_state := (if action = ''cancel'' then Cancelled else Denied),
                      er_code_hash := code_or_zero (er_code_hash r)\<rparr> in
           andthen (save_enrollment (Some (put_request r' e)) None) (ret (enr_result r')))
     else raise (EnrollmentError ''unavailable''))"

definition enr_execute :: "string \<Rightarrow> string \<Rightarrow> json \<Rightarrow> (world \<Rightarrow> principal option) \<Rightarrow> json op" where
  "enr_execute origin action body resolve =
     andthen (raise_if (case dict_get enr_fields action of None \<Rightarrow> True | Some ks \<Rightarrow> \<not> keys_are body ks)
                (EnrollmentError ''invalid_request''))
     (transaction
       (andthen (lc_sweep origin)
       (bnd (enr_state_op origin) (\<lambda>e.
        if action = ''request''
        then andthen (when_do (jat body ''kind'' = JStr ''browser'')
                        (bnd (controller resolve Browser) (\<lambda>_. ret ())))
                     (enr_request origin e body)
        else if action = ''list''
        then bnd (controller resolve Physical) (\<lambda>p.
             bnd (reads (\<lambda>w. enr_public w origin)) (\<lambda>pub.
               ret (JObj [(''version'', JInt 1), (''requests'', JList (map pub
                     (filter (\<lambda>r. pr_role p = OWNER \<or> er_kind r = Physical) (dict_values (es_requests e)))))])))
        else andthen (raise_if (\<not> hex_string (jat body ''request_id'') 32) (EnrollmentError ''invalid_request''))
             (case dict_get (es_requests e) (str_value (jat body ''request_id'')) of
                None \<Rightarrow> raise (EnrollmentError ''not_found'')
              | Some r \<Rightarrow>
                  bnd (if action \<in> {''initiate'', ''approve'', ''deny''}
                       then bnd (controller resolve (er_kind r)) (\<lambda>p. ret (Some p)) else ret None) (\<lambda>who.
                  bnd (reads (\<lambda>w. enr_status_of w origin r)) (\<lambda>status.
                    if action = ''status''
                    then andthen (check_signature origin e r action (jat body ''signature''))
                           (reads (\<lambda>w. enr_public w origin r))
                    else andthen (raise_if (enr_terminal status) (EnrollmentError ''unavailable''))
                         (andthen (when_do (action \<in> {''prove'', ''redeem'', ''cancel''})
                                     (check_signature origin e r action (jat body ''signature'')))
                           (enr_act origin action e r status who body)))))))))"


section \<open>The store stays guarded\<close>

definition enr_ok :: "enr_state \<Rightarrow> bool" where
  "enr_ok e \<longleftrightarrow> is_dict (es_requests e)"

lemma enr_ok_Some: "enrollment_dicts (Some e) = enr_ok e"
  by (simp add: enrollment_dicts_def enr_ok_def)

lemma enr_ok_put [simp]: "enr_ok e \<Longrightarrow> enr_ok (put_request r e)"
  by (simp add: enr_ok_def put_request_def)

lemma enr_ok_attempts [simp]: "enr_ok (e\<lparr>es_attempts := ts\<rparr>) = enr_ok e"
  by (simp add: enr_ok_def)

lemma keeps_save_requests: "enr_ok e \<Longrightarrow> keeps B C (save_enrollment (Some e) None)"
  by (rule keeps_save_enrollment) (simp_all add: enr_ok_Some)

lemma keeps_bnd_result:
  assumes "triple (guarded B C) m (\<lambda>x w. guarded B C w \<and> F x) (\<lambda>_. guarded B C)"
    and "\<And>x. F x \<Longrightarrow> keeps B C (k x)"
  shows "keeps B C (bnd m k)"
proof -
  have "guarded B C (snd (bnd m k w))" if g: "guarded B C w" for w
  proof (cases "m w")
    case (Pair r t)
    show ?thesis
    proof (cases r)
      case (Inl e)
      then show ?thesis using Pair tripleD_Inl [OF assms(1) g] by (simp add: bnd_def)
    next
      case (Inr x)
      then have "guarded B C t \<and> F x" using Pair tripleD_Inr [OF assms(1) g] by simp
      then show ?thesis using Pair Inr assms(2) [of x] by (simp add: bnd_def obeys_keepingD)
    qed
  qed
  then show ?thesis by (simp add: obeys_def keeping_def)
qed

lemma keeps_tripleI:
  assumes "keeps B C m" and "\<And>w. P w \<Longrightarrow> guarded B C w" and "\<And>x w. guarded B C w \<Longrightarrow> Q x w"
  shows "triple P m Q (\<lambda>_. guarded B C)"
proof -
  have "triple (guarded B C) m (\<lambda>_. guarded B C) (\<lambda>_. guarded B C)"
    using assms(1) by (simp only: triple_iff_keeping)
  then show ?thesis by (rule triple_conseq) (simp_all add: assms)
qed

lemma triple_enr_state_op: "triple (guarded B C) (enr_state_op origin) (\<lambda>e w. guarded B C w \<and> enr_ok e) (\<lambda>_. guarded B C)"
proof -
  have first: "triple (\<lambda>w. guarded B C w \<and> sn_enrollment (w_store w) = held)
      (case held of Some e \<Rightarrow> ret e
       | None \<Rightarrow> bnd (token_hex 16) (\<lambda>i. ret \<lparr>es_server_id = i, es_requests = [], es_attempts = []\<rparr>))
      (\<lambda>e w. guarded B C w \<and> enr_ok e) (\<lambda>_. guarded B C)" for held
  proof (cases held)
    case None
    then show ?thesis
      by (auto simp: triple_def action_simps token_hex_def draw_def enr_ok_def)
  next
    case (Some e)
    then show ?thesis
      using guarded_parts(2) by (auto simp: triple_def ret_def enr_ok_Some) (metis enr_ok_Some)
  qed
  have second: "triple (\<lambda>w. (guarded B C w \<and> enr_ok e) \<and> overtaken w origin = gone)
      (let e' = e\<lparr>es_requests := dict_map (\<lambda>r. if gone r then make_stale r else r) (es_requests e)\<rparr> in
        andthen (when_do (list_ex gone (dict_values (es_requests e))) (save_enrollment (Some e') None)) (ret e'))
      (\<lambda>e w. guarded B C w \<and> enr_ok e) (\<lambda>_. guarded B C)" for e gone
  proof (cases "enr_ok e")
    case True
    then have e': "enr_ok (e\<lparr>es_requests := dict_map f (es_requests e)\<rparr>)" for f by (simp add: enr_ok_def)
    show ?thesis
      unfolding Let_def
      by (rule triple_andthen [where R = "guarded B C"], rule keeps_tripleI)
        (auto intro!: invariant_step.obeys_when_do keeps_save_requests triple_ret simp: e')
  qed (simp add: triple_def)
  show ?thesis
    unfolding enr_state_op_def
    by (rule triple_bnd_reads, rule triple_bnd [OF first], rule triple_bnd_reads, rule second)
qed

lemma keeps_enr_state_op: "(\<And>e. enr_ok e \<Longrightarrow> keeps B C (k e)) \<Longrightarrow> keeps B C (bnd (enr_state_op origin) k)"
  by (rule keeps_bnd_result [OF triple_enr_state_op])

lemma keeps_enr_failure: "enr_ok e \<Longrightarrow> keeps B C (enr_failure origin e r)"
  unfolding enr_failure_def by (rule keeps_save_requests invariant_step.obeys_rules | simp)+

lemma keeps_check_signature: "enr_ok e \<Longrightarrow> keeps B C (check_signature origin e r action sig)"
  unfolding check_signature_def by (rule keeps_enr_failure invariant_step.obeys_rules | assumption)+

lemma keeps_check_unowned: "keeps B C (check_unowned r)"
  unfolding check_unowned_def by (rule invariant_step.obeys_rules)+

lemma keeps_controller: "keeps B C (controller resolve k)"
  unfolding controller_def by (rule invariant_step.obeys_rules)+

lemma keeps_randbelow: "keeps B C (randbelow n)"
  unfolding randbelow_def by (rule keeps_draw invariant_step.obeys_rules)+

lemmas enrollment_keeps = keeps_enr_state_op keeps_save_requests keeps_enr_failure keeps_check_signature
  keeps_check_unowned keeps_controller keeps_randbelow keeps_bind_enrollment keeps_lc_sweep lifecycle_keeps

lemma keeps_enr_rate_limit: "keeps B C (enr_rate_limit origin)"
  unfolding enr_rate_limit_def by (rule enrollment_keeps | simp)+

lemma keeps_enr_initialize: "keeps B C (enr_initialize origin)"
  unfolding enr_initialize_def by (rule enrollment_keeps | assumption)+

lemma point_recovery_sound:
  "point_recovery d i st = Inr st' \<Longrightarrow> lifecycle_dicts st \<Longrightarrow> B \<subseteq> set (ls_blocked st) \<Longrightarrow>
   lifecycle_dicts st' \<and> B \<subseteq> set (ls_blocked st')"
  by (auto simp: point_recovery_def set_operation_def lifecycle_dicts_def split: option.splits)

lemma deliver_recovery_sound:
  "deliver_recovery d i st = Inr (st', x) \<Longrightarrow> lifecycle_dicts st \<Longrightarrow> B \<subseteq> set (ls_blocked st) \<Longrightarrow>
   lifecycle_dicts st' \<and> B \<subseteq> set (ls_blocked st')"
  by (auto simp: deliver_recovery_def set_operation_def lifecycle_dicts_def split: option.splits)

lemma keeps_reads_lifecycle_opt:
  assumes "\<And>l. pred_option (\<lambda>st. lifecycle_dicts st \<and> B \<subseteq> set (ls_blocked st)) l \<Longrightarrow> keeps B C (k l)"
  shows "keeps B C (bnd (reads (\<lambda>w. sn_lifecycle (w_store w))) k)"
  by (rule keeps_reads_fact [where F = "pred_option (\<lambda>st. lifecycle_dicts st \<and> B \<subseteq> set (ls_blocked st))", OF _ assms])
    (use guarded_parts(3,6) [of B C] in \<open>fastforce simp: option.pred_set lifecycle_of_def\<close>)

lemma keeps_reads_lifecycle:
  assumes "\<And>st. lifecycle_dicts st \<and> B \<subseteq> set (ls_blocked st) \<Longrightarrow> keeps B C (k st)"
  shows "keeps B C (bnd (reads (\<lambda>w. lifecycle_of (w_store w))) k)"
  by (rule keeps_reads_fact [where F = "\<lambda>st. lifecycle_dicts st \<and> B \<subseteq> set (ls_blocked st)", OF _ assms])
    (auto dest: guarded_parts(3,6))

lemma keeps_set_lifecycle:
  "lifecycle_dicts st \<and> B \<subseteq> set (ls_blocked st) \<Longrightarrow> keeps B C (modifies (set_lifecycle (Some st)))"
  by (rule keeps_modifies) (simp add: guarded_set_lifecycle)


lemma enr_ok_filter [simp]: "enr_ok e \<Longrightarrow> enr_ok (e\<lparr>es_requests := dict_filter P (es_requests e)\<rparr>)"
  by (simp add: enr_ok_def)

lemma keeps_point_recovery:
  assumes "pred_option (\<lambda>st. lifecycle_dicts st \<and> B \<subseteq> set (ls_blocked st)) l"
  shows "keeps B C (case l of None \<Rightarrow> ret () | Some st \<Rightarrow> when_do (dict_get (ls_recovery st) d \<noteq> None)
           (bnd (lift_result (point_recovery d i st)) (\<lambda>st'. modifies (set_lifecycle (Some st')))))"
proof (cases l)
  case None
  then show ?thesis by (simp add: invariant_step.obeys_ret)
next
  case (Some st)
  have "keeps B C (bnd (lift_result (point_recovery d i st)) (\<lambda>st'. modifies (set_lifecycle (Some st'))))"
    using assms Some point_recovery_sound [of d i st _ B]
    by (intro keeps_lift_result keeps_set_lifecycle) auto
  then show ?thesis using Some by (simp add: invariant_step.obeys_when_do)
qed

lemma keeps_enr_request: "enr_ok e \<Longrightarrow> keeps B C (enr_request origin e body)"
  unfolding enr_request_def
  by (rule keeps_point_recovery keeps_reads_lifecycle_opt enrollment_keeps | assumption | simp)+

lemma keeps_replace_enrollment_credential:
  assumes "ok_credential c" and "\<And>rs. holds_credentials C rs \<Longrightarrow> keeps B C (k rs)"
  shows "keeps B C (bnd (replace_enrollment_credential r c) k)"
  by (rule keeps_bnd_result [OF triple_replace_enrollment_credential [OF assms(1)] assms(2)])

lemma keeps_commit_redeem:
  "enr_ok e \<Longrightarrow> holds_credentials C rs \<Longrightarrow> keeps B C (save_enrollment (Some (put_request r e)) (Some rs))"
  by (rule keeps_save_enrollment) (simp_all add: enr_ok_Some)

lemma keeps_deliver_recovery:
  assumes "lifecycle_dicts st \<and> B \<subseteq> set (ls_blocked st)"
    and "\<And>st' x. lifecycle_dicts st' \<and> B \<subseteq> set (ls_blocked st') \<Longrightarrow> keeps B C (k st' x)"
  shows "keeps B C (bnd (lift_result (deliver_recovery d i st)) (\<lambda>(st', x). k st' x))"
  using assms deliver_recovery_sound [of d i st _ _ B] by (intro keeps_lift_result) auto

lemma keeps_enr_redeem: "enr_ok e \<Longrightarrow> keeps B C (enr_redeem origin e r)"
  unfolding enr_redeem_def
  by (rule keeps_deliver_recovery keeps_commit_redeem keeps_set_lifecycle keeps_replace_enrollment_credential
      keeps_reads_lifecycle enrollment_keeps | assumption)+

lemma keeps_enr_confirm: "enr_ok e \<Longrightarrow> keeps B C (enr_confirm origin e r approving p code)"
  unfolding enr_confirm_def by (rule enrollment_keeps enr_ok_put | assumption)+

lemma keeps_enr_act: "enr_ok e \<Longrightarrow> keeps B C (enr_act origin action e r status who body)"
  unfolding enr_act_def by (rule keeps_enr_redeem keeps_enr_confirm enrollment_keeps enr_ok_put | assumption)+

lemma keeps_enr_execute: "keeps B C (enr_execute origin action body resolve)"
  unfolding enr_execute_def
  by (rule keeps_enr_request keeps_enr_act enrollment_keeps | assumption)+

end
