(* ===== verification/Integration.thy ===== *)
theory Integration
  imports Enrollment
begin

text \<open>
  \<open>provisioning/integration.py\<close>: a plugin asks for a credential with a secret of its own, the owner
  approves it by the code both derive, the credential is delivered disabled, and the plugin's
  acknowledgement enables it together with the completed enrollment.
\<close>

definition INTEGRATION_TTL :: time where "INTEGRATION_TTL = 300"

definition user_code :: "(string \<Rightarrow> string) \<Rightarrow> string \<Rightarrow> string \<Rightarrow> int \<Rightarrow> string" where
  "user_code sha request secret expires =
     upper (take 8 (sha (''vauxr-integration-code-v1'' @ [CHR 0x00] @ unhex (request @ secret) @ int_text expires)))"

definition int_public_fields :: "int_row \<Rightarrow> (string \<times> json) list" where
  "int_public_fields r = [(''request_id'', JStr (ir_request_id r)), (''server_id'', JStr (ir_server_id r)),
     (''origin'', JStr (ir_origin r)), (''agent_id'', JStr (ir_agent_id r)),
     (''display_name'', JStr (ir_display_name r)), (''expires_at'', JInt (ir_expires_at r)),
     (''state'', JStr (int_status_name (ir_state r)))]"

definition int_public :: "int_row \<Rightarrow> json" where
  "int_public r = JObj ((''version'', JInt 1) # int_public_fields r)"

text \<open>\<open>_save(state, records)\<close>\<close>

definition save_integration :: "int_state \<Rightarrow> credential list option \<Rightarrow> unit op" where
  "save_integration d rs =
     andthen (modifies (set_integration (Some d)))
     (or_reload (bnd (reads (\<lambda>w. sn_records (w_store w)))
        (\<lambda>held. replace_records (case rs of None \<Rightarrow> held | Some rs' \<Rightarrow> rs'))))"

definition agent_of_row :: "int_row \<Rightarrow> agent" where
  "agent_of_row r = \<lparr>ag_id = ir_agent_id r, ag_name = ir_display_name r, ag_type = Openclaw, ag_active = False,
     ag_created_at = iso_utc (ir_created_at r), ag_builtin = None, ag_integration = True\<rparr>"

definition held_credential :: "snapshot \<Rightarrow> int_row \<Rightarrow> credential option" where
  "held_credential s r = find (\<lambda>c. cr_id c = ir_credential_id r) (sn_records s)"

text \<open>\<open>_retire(credential)\<close>, which changes the store in memory; the caller saves.\<close>

definition int_retire :: "credential \<Rightarrow> unit op" where
  "int_retire c =
     bnd (reads w_store) (\<lambda>s.
       bnd (lift_result (retire_ids (lifecycle_of s) [cr_id c] (sn_records s))) (\<lambda>(st, rs).
         andthen (modifies (set_records rs)) (modifies (set_lifecycle (Some st)))))"


section \<open>Maintenance\<close>

definition all_blocked :: "snapshot \<Rightarrow> int_row \<Rightarrow> bool" where
  "all_blocked s r \<longleftrightarrow>
     (let matching = filter (\<lambda>c. cr_subject c = ir_agent_id r) (sn_records s)
      in matching \<noteq> [] \<and> list_all (\<lambda>c. cr_verifier c \<in> set (blocked_of s)) matching)"

text \<open>What an unfinished row turns into, if anything.\<close>

definition int_overtaken :: "time \<Rightarrow> snapshot \<Rightarrow> string \<Rightarrow> int_row \<Rightarrow> int_status option" where
  "int_overtaken now s origin r =
    (if (case held_credential s r of None \<Rightarrow> False | Some c \<Rightarrow> cr_verifier c \<in> set (blocked_of s)) then Some In_revoked
     else if of_int (ir_expires_at r) \<le> now then Some In_expired
     else if owner_generation s \<noteq> Some (ir_owner_generation r) \<or> ir_origin r \<noteq> origin then Some In_stale
     else None)"

fun int_sweep_rows :: "string \<Rightarrow> (string \<times> int_row) list \<Rightarrow> int_state \<Rightarrow> bool \<Rightarrow> (int_state \<times> bool) op" where
  "int_sweep_rows origin [] d changed = ret (d, changed)"
| "int_sweep_rows origin ((k, r) # rows) d changed =
     bnd (reads w_store) (\<lambda>s. bnd (reads w_now) (\<lambda>now.
       if ir_state r = In_completed
       then (if all_blocked s r
             then int_sweep_rows origin rows (dict_put k (r\<lparr>ir_state := In_revoked\<rparr>) d) True
             else int_sweep_rows origin rows d changed)
       else if int_terminal (ir_state r) then int_sweep_rows origin rows d changed
       else (case int_overtaken now s origin r of
               None \<Rightarrow> int_sweep_rows origin rows d changed
             | Some t \<Rightarrow>
                 andthen (case held_credential s r of None \<Rightarrow> ret () | Some c \<Rightarrow> int_retire c)
                         (int_sweep_rows origin rows (dict_put k (r\<lparr>ir_state := t\<rparr>) d) True))))"

definition int_sweep :: "string \<Rightarrow> unit op" where
  "int_sweep origin = transaction
     (bnd (reads (\<lambda>w. integration_requests (w_store w))) (\<lambda>d.
        bnd (int_sweep_rows origin d d False) (\<lambda>(d', changed). when_do changed (save_integration d' None))))"


section \<open>Requests\<close>

definition int_fields :: "(string, string list) dict" where
  "int_fields = [(''request'', [''request_id'', ''request_secret'', ''origin'', ''display_name'', ''expires_at'']),
     (''status'', [''request_id'', ''request_secret'']), (''deliver'', [''request_id'', ''request_secret'']),
     (''cancel'', [''request_id'', ''request_secret'']),
     (''ack'', [''request_id'', ''request_secret'', ''credential'', ''saved'']),
     (''list'', []), (''approve'', [''request_id'', ''user_code'']), (''deny'', [''request_id''])]"

definition is_native :: "string \<Rightarrow> bool" where
  "is_native action \<longleftrightarrow> action \<in> {''request'', ''status'', ''deliver'', ''cancel'', ''ack''}"

text \<open>The rows a new request leaves: issued ones and those whose deadline has not passed.\<close>

definition prune_requests :: "time \<Rightarrow> int_state \<Rightarrow> int_state" where
  "prune_requests now d = dict_filter (\<lambda>(_, r). ir_credential_id r \<noteq> [] \<or> of_int (ir_expires_at r) > now) d"

definition unissued :: "int_state \<Rightarrow> nat" where
  "unissued d = length (filter (\<lambda>r. ir_credential_id r = []) (dict_values d))"

definition int_request_valid :: "string \<Rightarrow> json \<Rightarrow> bool" where
  "int_request_valid origin body \<longleftrightarrow> jat body ''origin'' = JStr origin
     \<and> str_that int_display_name (jat body ''display_name'') \<and> is_int (jat body ''expires_at'')"

definition int_new_request :: "string \<Rightarrow> int_state \<Rightarrow> json \<Rightarrow> int_row op" where
  "int_new_request origin d body =
     bnd (reads w_store) (\<lambda>s. bnd (reads w_now) (\<lambda>now.
       (let i = str_value (jat body ''request_id''); secret = str_value (jat body ''request_secret'');
            expires = int_value (jat body ''expires_at''); live = prune_requests now d in
        andthen (raise_if (\<not> (now < of_int expires \<and> of_int expires \<le> now + INTEGRATION_TTL)) (EnrollmentError ''unavailable''))
        (andthen (raise_if (unissued live \<ge> 64) (EnrollmentError ''capacity''))
        (andthen (raise_if (\<not> owner_active s) (EnrollmentError ''unavailable''))
        (andthen (raise_if (length live \<ge> LIMIT) (EnrollmentError ''capacity''))
        (bnd (enr_state_op origin) (\<lambda>e.
         andthen (modifies (set_enrollment (Some e)))
         (bnd (reads (\<lambda>w. (token_verifier (w_sha256 w) secret,
                           token_verifier (w_sha256 w) (user_code (w_sha256 w) i secret expires)))) (\<lambda>(sh, ch).
          case owner_generation s of
            None \<Rightarrow> raise KeyError
          | Some gen \<Rightarrow>
              (let r = \<lparr>ir_request_id = i, ir_server_id = es_server_id e, ir_origin = origin, ir_agent_id = ''int_'' @ i,
                        ir_display_name = str_value (jat body ''display_name''), ir_expires_at = expires,
                        ir_state = In_pending, ir_secret_hash = sh, ir_code_hash = ch, ir_owner_generation = gen,
                        ir_attempts = 0, ir_credential_id = [], ir_created_at = now\<rparr> in
               andthen (save_integration (dict_put i r live) None) (ret r))))))))))))"

definition int_approve :: "int_state \<Rightarrow> int_row \<Rightarrow> json \<Rightarrow> json op" where
  "int_approve d r code =
     andthen (raise_if (ir_state r \<noteq> In_pending \<and> ir_state r \<noteq> In_approved) (EnrollmentError ''unavailable''))
     (bnd (reads (\<lambda>w. str_that (\<lambda>c. length c = 8 \<and> ir_code_hash r = token_verifier (w_sha256 w) c) code)) (\<lambda>ok.
        if \<not> ok
        then (let n = ir_attempts r + 1;
                  r' = r\<lparr>ir_attempts := n, ir_state := (if n \<ge> 5 then In_failed else ir_state r)\<rparr> in
              andthen (save_integration (dict_put (ir_request_id r) r' d) None) (raise (EnrollmentError ''invalid_code'')))
        else (let r' = r\<lparr>ir_state := In_approved\<rparr> in
              andthen (save_integration (dict_put (ir_request_id r) r' d) None) (ret (int_public r')))))"

definition int_close :: "int_state \<Rightarrow> int_row \<Rightarrow> int_status \<Rightarrow> json op" where
  "int_close d r target =
     (if ir_state r = target then ret (int_public r)
      else andthen (raise_if (int_terminal (ir_state r)) (EnrollmentError ''unavailable''))
        (bnd (reads w_store) (\<lambda>s.
           (let r' = r\<lparr>ir_state := target\<rparr> in
            andthen (case held_credential s r of None \<Rightarrow> ret () | Some c \<Rightarrow> int_retire c)
            (andthen (save_integration (dict_put (ir_request_id r) r' d) None) (ret (int_public r')))))))"

definition int_deliver :: "int_state \<Rightarrow> int_row \<Rightarrow> json op" where
  "int_deliver d r =
     andthen (raise_if (ir_state r \<noteq> In_approved) (EnrollmentError ''unavailable''))
     (bnd token_urlsafe32 (\<lambda>secret.
       (let token = ''vx_int_'' @ secret in
        bnd (token_hex 16) (\<lambda>i. bnd (reads (\<lambda>w. token_verifier (w_sha256 w) token)) (\<lambda>v.
        bnd (new_credential i INTEGRATION (ir_agent_id r) v False) (\<lambda>c.
          (let r' = r\<lparr>ir_state := In_delivered, ir_credential_id := i\<rparr> in
           bnd (reads (\<lambda>w. sn_records (w_store w))) (\<lambda>held.
           andthen (save_integration (dict_put (ir_request_id r) r' d) (Some (held @ [c])))
             (ret (JObj ((''version'', JInt 1) # int_public_fields r' @
                 [(''credential'', JStr token), (''credential_id'', JStr i), (''save_required'', JBool True)])))))))))))"

definition enable_record :: "string \<Rightarrow> credential list \<Rightarrow> credential list" where
  "enable_record i rs = map (\<lambda>c. if cr_id c = i then c\<lparr>cr_enabled := True\<rparr> else c) rs"

definition int_ack :: "int_state \<Rightarrow> int_row \<Rightarrow> json \<Rightarrow> json op" where
  "int_ack d r body =
     andthen (raise_if (jat body ''saved'' \<noteq> JBool True \<or> \<not> str_that (\<lambda>t. length t \<le> 512) (jat body ''credential''))
                (EnrollmentError ''invalid_ack''))
     (bnd (reads w_store) (\<lambda>s. bnd (reads (\<lambda>w. token_verifier (w_sha256 w) (str_value (jat body ''credential'')))) (\<lambda>v.
        case held_credential s r of
          None \<Rightarrow> raise (EnrollmentError ''invalid_ack'')
        | Some c \<Rightarrow>
            andthen (raise_if (cr_verifier c \<noteq> v \<or> cr_verifier c \<in> set (blocked_of s)) (EnrollmentError ''invalid_ack''))
            (if ir_state r = In_completed then andthen (register (agent_of_row r)) (ret (int_public r))
             else andthen (raise_if (ir_state r \<noteq> In_delivered) (EnrollmentError ''unavailable''))
               (andthen (register (agent_of_row r))
                (bnd (reads (\<lambda>w. sn_records (w_store w))) (\<lambda>held.
                 (let r' = r\<lparr>ir_state := In_completed\<rparr> in
                  andthen (save_integration (dict_put (ir_request_id r) r' d) (Some (enable_record (cr_id c) held)))
                    (ret (int_public r'))))))))))"

definition int_execute :: "string \<Rightarrow> string \<Rightarrow> json \<Rightarrow> (world \<Rightarrow> principal option) \<Rightarrow> json op" where
  "int_execute origin action body resolve =
     andthen (raise_if (case dict_get int_fields action of None \<Rightarrow> True | Some ks \<Rightarrow> \<not> keys_are body ks)
                (EnrollmentError ''invalid_request''))
     (andthen (raise_if (action \<noteq> ''list'' \<and> \<not> hex_string (jat body ''request_id'') 32) (EnrollmentError ''invalid_request''))
     (andthen (raise_if (is_native action \<and> \<not> hex_string (jat body ''request_secret'') 64) (EnrollmentError ''invalid_request''))
     (transaction
       (andthen (int_sweep origin)
       (bnd (reads (\<lambda>w. integration_requests (w_store w))) (\<lambda>d.
        andthen (when_do (\<not> is_native action)
                   (bnd (reads resolve) (\<lambda>who. bnd (reads w_store) (\<lambda>s.
                      case who of None \<Rightarrow> raise (EnrollmentError ''unauthorized'')
                      | Some p \<Rightarrow> raise_if (\<not> is_owner s p) (EnrollmentError ''forbidden'')))))
        (if action = ''list''
         then ret (JObj [(''version'', JInt 1), (''requests'', JList (map int_public (dict_values d)))])
         else
          (let i = str_value (jat body ''request_id''); held = dict_get d i in
           andthen (raise_if (action = ''request'' \<and> \<not> int_request_valid origin body) (EnrollmentError ''invalid_request''))
           (bnd (if action = ''request'' \<and> held = None then bnd (int_new_request origin d body) (\<lambda>r. ret (Some r)) else ret held) (\<lambda>found.
            case found of
              None \<Rightarrow> raise (EnrollmentError ''not_found'')
            | Some r \<Rightarrow>
                bnd (reads (\<lambda>w. token_verifier (w_sha256 w) (str_value (jat body ''request_secret'')))) (\<lambda>sh.
                bnd (reads (\<lambda>w. user_code (w_sha256 w) i (str_value (jat body ''request_secret''))
                                  (int_value (jat body ''expires_at'')))) (\<lambda>code.
                andthen (raise_if (is_native action \<and> ir_secret_hash r \<noteq> sh) (EnrollmentError ''unauthorized''))
                (if action = ''request''
                 then andthen (raise_if (JStr (ir_display_name r) \<noteq> jat body ''display_name'' \<or> JStr (ir_origin r) \<noteq> jat body ''origin''
                                  \<or> JInt (ir_expires_at r) \<noteq> jat body ''expires_at'') (EnrollmentError ''conflict''))
                        (ret (JObj ((''version'', JInt 1) # int_public_fields r @ [(''user_code'', JStr code)])))
                 else if action = ''status'' then ret (int_public r)
                 else if action = ''ack'' then int_ack d r body
                 else if action = ''approve'' then int_approve d r (jat body ''user_code'')
                 else if action = ''deny'' then int_close d r In_denied
                 else if action = ''cancel'' then int_close d r In_cancelled
                 else int_deliver d r)))))))))))))"


section \<open>The store stays guarded\<close>

lemma keeps_save_integration:
  assumes "is_dict d" and "pred_option (holds_credentials C) rs"
  shows "keeps B C (save_integration d rs)"
  unfolding save_integration_def
  by (intro invariant_step.obeys_andthen keeps_modifies guarded_set_integration keeps_or_reload
      keeps_reads_records keeps_replace_records)
    (use assms in \<open>auto split: option.split\<close>)

lemma keeps_int_retire: "keeps B C (int_retire c)"
proof -
  have "keeps B C (andthen (modifies (set_records rs)) (modifies (set_lifecycle (Some st))))"
    if "sound_parts B C st rs" for st rs
    using that by (intro invariant_step.obeys_andthen keeps_modifies guarded_sets) (simp_all add: sound_parts_def)
  then show ?thesis
    unfolding int_retire_def
    by (intro keeps_reads_store keeps_lift_result invariant_step.obeys_prod) (auto dest: retire_store_sound)
qed

lemma triple_int_sweep_rows:
  "is_dict d \<Longrightarrow> triple (guarded B C) (int_sweep_rows origin rows d changed)
     (\<lambda>x w. guarded B C w \<and> is_dict (fst x)) (\<lambda>_. guarded B C)"
proof (induction rows arbitrary: d changed)
  case Nil
  then show ?case by (simp add: triple_def ret_def)
next
  case (Cons kr rows)
  obtain k r where kr: "kr = (k, r)" by (cases kr)
  have sub: "triple P (int_sweep_rows origin rows d' c') (\<lambda>x w. guarded B C w \<and> is_dict (fst x)) (\<lambda>_. guarded B C)"
    if "is_dict d'" "\<And>w. P w \<Longrightarrow> guarded B C w" for P d' c'
    using Cons.IH [OF that(1)] that(2) by (rule triple_pre)
  have retire: "triple P (case h of None \<Rightarrow> ret () | Some c \<Rightarrow> int_retire c) (\<lambda>_. guarded B C) (\<lambda>_. guarded B C)"
    if "\<And>w. P w \<Longrightarrow> guarded B C w" for P h
    using that by (intro keeps_tripleI invariant_step.obeys_option keeps_int_retire invariant_step.obeys_ret) auto
  show ?case
    unfolding kr int_sweep_rows.simps
    by (rule triple_bnd_reads triple_if triple_option triple_andthen [where R = "guarded B C"] sub retire
        | simp add: Cons.prems)+
qed

lemma keeps_reads_integration:
  assumes "\<And>d. is_dict d \<Longrightarrow> keeps B C (k d)"
  shows "keeps B C (bnd (reads (\<lambda>w. integration_requests (w_store w))) k)"
  by (rule keeps_reads_fact [where F = is_dict, OF _ assms]) (auto dest: guarded_parts)

lemma keeps_int_sweep: "keeps B C (int_sweep origin)"
proof -
  have "keeps B C (bnd (int_sweep_rows origin d d False) (\<lambda>(d', changed). when_do changed (save_integration d' None)))"
    if "is_dict d" for d
    by (rule keeps_bnd_result [OF triple_int_sweep_rows [OF that]])
      (auto simp: case_prod_beta intro!: invariant_step.obeys_when_do keeps_save_integration)
  then show ?thesis
    unfolding int_sweep_def by (intro keeps_transaction keeps_reads_integration)
qed


lemma is_dict_prune [simp]: "is_dict d \<Longrightarrow> is_dict (prune_requests now d)"
  by (simp add: prune_requests_def)

lemma keeps_set_enrollment: "enr_ok e \<Longrightarrow> keeps B C (modifies (set_enrollment (Some e)))"
  by (rule keeps_modifies) (simp add: guarded_set_enrollment enr_ok_Some)

lemma keeps_save_rows: "is_dict d \<Longrightarrow> keeps B C (save_integration (dict_put k r d) None)"
  by (rule keeps_save_integration) simp_all

lemma keeps_save_rows_records:
  "is_dict d \<Longrightarrow> holds_credentials C rs \<Longrightarrow> keeps B C (save_integration (dict_put k r d) (Some rs))"
  by (rule keeps_save_integration) simp_all

lemma holds_enable: "holds_credentials C rs \<Longrightarrow> holds_credentials C (enable_record i rs)"
  unfolding enable_record_def by (rule holds_credentials_map) simp_all

lemmas integration_keeps = keeps_int_sweep keeps_int_retire keeps_set_enrollment keeps_save_rows
  keeps_save_rows_records holds_enable holds_credentials_append is_dict_prune keeps_registry enrollment_keeps

lemma keeps_int_new_request: "is_dict d \<Longrightarrow> keeps B C (int_new_request origin d body)"
  unfolding int_new_request_def Let_def by (rule integration_keeps | assumption)+

lemma keeps_int_approve: "is_dict d \<Longrightarrow> keeps B C (int_approve d r code)"
  unfolding int_approve_def by (rule integration_keeps | assumption)+

lemma keeps_int_close: "is_dict d \<Longrightarrow> keeps B C (int_close d r target)"
  unfolding int_close_def by (rule integration_keeps | assumption)+

lemma keeps_int_deliver: "is_dict d \<Longrightarrow> keeps B C (int_deliver d r)"
  unfolding int_deliver_def by (rule integration_keeps | assumption)+

lemma keeps_int_ack: "is_dict d \<Longrightarrow> keeps B C (int_ack d r body)"
  unfolding int_ack_def by (rule integration_keeps | assumption)+

lemma keeps_int_execute: "keeps B C (int_execute origin action body resolve)"
  unfolding int_execute_def Let_def
  by (rule keeps_reads_integration keeps_int_new_request keeps_int_approve keeps_int_close keeps_int_deliver
      keeps_int_ack integration_keeps | assumption)+

end
