(* ===== verification/Owner_Auth.thy ===== *)
theory Owner_Auth
  imports Example_World
begin

text \<open>
  \<open>auth/owner.py: OwnerAuth\<close>: claiming the server with a console code, saving the operator token,
  logging in, browser sessions, and the transport origin every session is bound to. Each operation
  is one store transaction over the owner namespace of the snapshot.
\<close>

definition CLAIM_SECONDS :: time where "CLAIM_SECONDS = 300"
definition SESSION_SECONDS :: time where "SESSION_SECONDS = 30 * 24 * 60 * 60"

record session =
  se_generation :: string
  se_expires :: time
  se_csrf :: string


section \<open>Secrets\<close>

definition generate_token :: "string op" where
  "generate_token = bnd token_urlsafe32 (\<lambda>t. ret (''vx_op_'' @ t))"

text \<open>\<open>TOKEN_PATTERN\<close>: \<open>vx_op_[A-Za-z0-9_-]{43}\<close>\<close>

definition is_operator_token :: "string \<Rightarrow> bool" where
  "is_operator_token t \<longleftrightarrow> starts_with ''vx_op_'' t \<and> length t = 49
     \<and> list_all (\<lambda>c. is_alnum c \<or> c \<in> set ''_-'') (drop 6 t)"

text \<open>\<open>environment_token()\<close>, given what the environment holds.\<close>

definition environment_token :: "string option \<Rightarrow> exn + string option" where
  "environment_token var = (case var of None \<Rightarrow> Inr None
     | Some t \<Rightarrow> if is_operator_token t then Inr (Some t) else Inl ValueError)"

definition hash_of :: "string \<Rightarrow> string op" where
  "hash_of t = reads (\<lambda>w. token_verifier (w_sha256 w) t)"

definition csrf_of :: "world \<Rightarrow> string \<Rightarrow> string" where
  "csrf_of w cookie = w_hmac w (utf8 cookie) ''vauxr:owner-csrf:v1''"

text \<open>\<open>_matches(secret, digest)\<close>\<close>

definition secret_matches :: "world \<Rightarrow> json \<Rightarrow> string option \<Rightarrow> bool" where
  "secret_matches w secret digest = (case (secret, digest) of
     (JStr t, Some d) \<Rightarrow> 0 < length t \<and> length t \<le> 512 \<and> token_verifier (w_sha256 w) t = d
   | _ \<Rightarrow> False)"


section \<open>Authority and its origin\<close>

definition fresh_owner :: "owner_mode \<Rightarrow> string \<Rightarrow> owner_state" where
  "fresh_owner m g = \<lparr>ow_mode = m, ow_generation = g, ow_verifier = None, ow_claim = None,
     ow_claim_expires = None, ow_claim_attempts = None, ow_pending = None, ow_attempts = None,
     ow_sessions = None\<rparr>"

text \<open>\<open>_save_authority(state)\<close>: a change of authority drops every session and keeps the origin they are bound to.\<close>

definition drop_sessions :: "owner_state option \<Rightarrow> owner_state \<Rightarrow> owner_state" where
  "drop_sessions held st = (case held of None \<Rightarrow> st | Some o' \<Rightarrow>
     (case ow_sessions o' of None \<Rightarrow> st
      | Some ss \<Rightarrow> st\<lparr>ow_sessions := Some \<lparr>os_origin = os_origin ss, os_entries = []\<rparr>\<rparr>))"

definition save_authority :: "owner_state \<Rightarrow> unit op" where
  "save_authority st = bnd (reads (\<lambda>w. sn_owner (w_store w))) (\<lambda>held. save_owner (Some (drop_sessions held st)))"

definition session_origin :: "owner_state option \<Rightarrow> string option" where
  "session_origin held = (case held of None \<Rightarrow> None | Some o' \<Rightarrow> map_option os_origin (ow_sessions o'))"

definition bind_origin :: "string \<Rightarrow> unit op" where
  "bind_origin origin = transaction
     (bnd (reads (\<lambda>w. sn_owner (w_store w))) (\<lambda>held. bnd (hash_of origin) (\<lambda>digest.
        andthen
          (when_do (session_origin held \<noteq> Some digest)
            (case held of
               None \<Rightarrow> raise ValueError
             | Some st \<Rightarrow> save_owner (Some (st\<lparr>ow_sessions := Some \<lparr>os_origin = digest, os_entries = []\<rparr>\<rparr>))))
          (modifies (\<lambda>w. w\<lparr>w_origin := origin\<rparr>)))))"

definition initialize :: "unit op" where
  "initialize = transaction
     (bnd (reads (\<lambda>w. sn_owner (w_store w))) (\<lambda>held. bnd (reads w_override) (\<lambda>override.
        andthen
          (case override of
             Some v \<Rightarrow>
               when_do (map_option ow_mode held \<noteq> Some Environment \<or> Option.bind held ow_verifier \<noteq> Some v)
                 (bnd (token_hex 16) (\<lambda>g. save_authority ((fresh_owner Environment g)\<lparr>ow_verifier := Some v\<rparr>)))
           | None \<Rightarrow>
               if map_option ow_mode held = Some Environment
               then bnd (token_hex 16) (\<lambda>g. save_authority (fresh_owner Recovery g))
               else when_do (held = None) (bnd (token_hex 16) (\<lambda>g. save_authority (fresh_owner Unclaimed g))))
          (bnd (reads (\<lambda>w. (w_origin w, sn_owner (w_store w)))) (\<lambda>(origin, now_held).
             when_do (origin \<noteq> [] \<or> session_origin now_held = None) (bind_origin origin))))))"

text \<open>\<open>status()\<close>: the mode and whether the environment manages the token.\<close>

definition owner_status :: "(owner_mode \<times> bool) op" where
  "owner_status = transaction (reads (\<lambda>w. case sn_owner (w_store w) of
     None \<Rightarrow> (Unclaimed, False) | Some st \<Rightarrow> (ow_mode st, ow_mode st = Environment)))"


section \<open>Claiming\<close>

definition mode_or_unclaimed :: "owner_state option \<Rightarrow> owner_mode" where
  "mode_or_unclaimed held = (case held of None \<Rightarrow> Unclaimed | Some st \<Rightarrow> ow_mode st)"

definition pending_expires :: "owner_state option \<Rightarrow> time" where
  "pending_expires held = (case held of None \<Rightarrow> 0 | Some st \<Rightarrow>
     (case ow_pending st of None \<Rightarrow> 0 | Some p \<Rightarrow> op_expires p))"

definition console_claim :: "bool \<Rightarrow> string op" where
  "console_claim recover = transaction
     (bnd (reads (\<lambda>w. sn_owner (w_store w))) (\<lambda>held. bnd (reads w_override) (\<lambda>override. bnd (reads w_now) (\<lambda>now.
        andthen (raise_if (override \<noteq> None \<or> map_option ow_mode held = Some Environment) (OwnerError ''environment''))
        (andthen (raise_if (\<not> recover \<and> pending_expires held > now) (OwnerError ''awaiting_acknowledgement''))
        (andthen (raise_if (\<not> recover \<and> mode_or_unclaimed held \<noteq> Unclaimed) (OwnerError ''already_claimed''))
        (bnd token_urlsafe24 (\<lambda>code. bnd (token_hex 16) (\<lambda>g. bnd (hash_of code) (\<lambda>digest.
           andthen (save_authority ((fresh_owner (if recover then Recovery else Unclaimed) g)
                      \<lparr>ow_claim := Some digest, ow_claim_expires := Some (now + CLAIM_SECONDS), ow_claim_attempts := Some 0\<rparr>))
                   (ret code)))))))))))"

definition recent :: "time \<Rightarrow> time list \<Rightarrow> time list" where
  "recent now ts = filter (\<lambda>t. now - t < 60) ts"

definition or_empty :: "'a list option \<Rightarrow> 'a list" where
  "or_empty v = (case v of None \<Rightarrow> [] | Some xs \<Rightarrow> xs)"

definition owner_rate_limit :: "unit op" where
  "owner_rate_limit = transaction
     (bnd (reads (\<lambda>w. sn_owner (w_store w))) (\<lambda>held. bnd (reads w_now) (\<lambda>now.
        (let attempts = recent now (case held of None \<Rightarrow> [] | Some st \<Rightarrow> or_empty (ow_attempts st)) in
         andthen (raise_if (length attempts \<ge> 10) (OwnerError ''rate_limited''))
         (case held of
            None \<Rightarrow> raise ValueError
          | Some st \<Rightarrow> save_owner (Some (st\<lparr>ow_attempts := Some (attempts @ [now])\<rparr>)))))))"

definition claim_valid :: "world \<Rightarrow> json \<Rightarrow> owner_state option \<Rightarrow> bool" where
  "claim_valid w code held = (case held of None \<Rightarrow> False | Some st \<Rightarrow>
     (ow_mode st = Unclaimed \<or> ow_mode st = Recovery)
     \<and> (case ow_claim_expires st of None \<Rightarrow> 0 | Some t \<Rightarrow> t) > w_now w
     \<and> (case ow_claim_attempts st of None \<Rightarrow> 0 | Some n \<Rightarrow> n) < 5
     \<and> secret_matches w code (ow_claim st))"

definition claim :: "json \<Rightarrow> (string \<times> string) op" where
  "claim code = transaction
     (bnd (reads (\<lambda>w. sn_owner (w_store w))) (\<lambda>held. bnd (reads (\<lambda>w. claim_valid w code held)) (\<lambda>valid.
        case held of
          None \<Rightarrow> raise (OwnerError ''invalid_claim'')
        | Some st \<Rightarrow>
            if \<not> valid
            then andthen
                   (when_do (ow_claim st \<noteq> None)
                     (save_owner (Some (st\<lparr>ow_claim_attempts :=
                        Some (min 5 ((case ow_claim_attempts st of None \<Rightarrow> 0 | Some n \<Rightarrow> n) + 1))\<rparr>))))
                   (raise (OwnerError ''invalid_claim''))
            else bnd generate_token (\<lambda>token. bnd token_urlsafe32 (\<lambda>ack.
                 bnd (hash_of token) (\<lambda>tv. bnd (hash_of ack) (\<lambda>av. bnd (reads w_now) (\<lambda>now.
                   andthen (save_owner (Some (st\<lparr>ow_claim := None,
                              ow_pending := Some \<lparr>op_verifier = tv, op_ack = av, op_expires = now + CLAIM_SECONDS\<rparr>\<rparr>)))
                           (ret (token, ack))))))))))"

definition acknowledge :: "json \<Rightarrow> json \<Rightarrow> unit op" where
  "acknowledge ack saved = transaction
     (bnd (reads (\<lambda>w. sn_owner (w_store w))) (\<lambda>held. bnd (reads w_now) (\<lambda>now.
      bnd (reads (\<lambda>w. secret_matches w ack (Option.bind held (\<lambda>st. map_option op_ack (ow_pending st))))) (\<lambda>known.
        andthen (raise_if (saved \<noteq> JBool True \<or> pending_expires held \<le> now \<or> \<not> known)
                  (OwnerError ''invalid_acknowledgement''))
        (case held of
           None \<Rightarrow> raise KeyError
         | Some st \<Rightarrow>
             (case ow_pending st of
                None \<Rightarrow> raise KeyError
              | Some p \<Rightarrow> save_authority ((fresh_owner Generated (ow_generation st))\<lparr>ow_verifier := Some (op_verifier p)\<rparr>)))))))"


section \<open>Sessions\<close>

text \<open>\<open>_sessions(state)\<close>: the entries, provided they belong to this origin.\<close>

definition bound_sessions :: "world \<Rightarrow> owner_state \<Rightarrow> owner_sessions option" where
  "bound_sessions w st = (case ow_sessions st of None \<Rightarrow> None | Some ss \<Rightarrow>
     if os_origin ss = token_verifier (w_sha256 w) (w_origin w) then Some ss else None)"

definition login :: "json \<Rightarrow> (string \<times> session) op" where
  "login token = transaction
     (bnd (reads (\<lambda>w. sn_owner (w_store w))) (\<lambda>held.
        case held of
          None \<Rightarrow> raise (OwnerError ''invalid_login'')
        | Some st \<Rightarrow>
      bnd (reads (\<lambda>w. secret_matches w token (ow_verifier st))) (\<lambda>known.
      bnd (reads (\<lambda>w. bound_sessions w st)) (\<lambda>bound. bnd (reads w_now) (\<lambda>now.
        andthen (raise_if (\<not> is_active_mode (ow_mode st) \<or> \<not> known) (OwnerError ''invalid_login''))
        (case bound of
           None \<Rightarrow> raise (OwnerError ''invalid_login'')
         | Some ss \<Rightarrow>
             (let entries = dict_filter (\<lambda>(_, t). t > now) (os_entries ss) in
              andthen (raise_if (length entries \<ge> 100) (OwnerError ''rate_limited''))
              (bnd token_urlsafe32 (\<lambda>cookie. bnd (hash_of cookie) (\<lambda>key.
               bnd (reads (\<lambda>w. \<lparr>se_generation = ow_generation st, se_expires = now + SESSION_SECONDS,
                                  se_csrf = csrf_of w cookie\<rparr>)) (\<lambda>sess.
                 andthen (save_owner (Some (st\<lparr>ow_sessions :=
                            Some (ss\<lparr>os_entries := dict_put key (now + SESSION_SECONDS) entries\<rparr>)\<rparr>)))
                   (ret (cookie, sess)))))))))))))"

text \<open>What \<open>session(cookie)\<close> answers once the store is loaded.\<close>

definition session_of :: "world \<Rightarrow> string \<Rightarrow> (principal \<times> session) option" where
  "session_of w cookie =
    (if cookie = [] \<or> length cookie > 512 then None else
     case sn_owner (w_store w) of None \<Rightarrow> None | Some st \<Rightarrow>
       if \<not> is_active_mode (ow_mode st) then None else
       (case bound_sessions w st of None \<Rightarrow> None | Some ss \<Rightarrow>
          (case dict_get (os_entries ss) (token_verifier (w_sha256 w) cookie) of None \<Rightarrow> None | Some t \<Rightarrow>
             if t \<le> w_now w then None
             else Some (\<lparr>pr_role = OWNER, pr_subject = ''owner'', pr_credential_id = ow_generation st, pr_generation = []\<rparr>,
                        \<lparr>se_generation = ow_generation st, se_expires = t, se_csrf = csrf_of w cookie\<rparr>))))"

definition owner_session :: "string \<Rightarrow> (principal \<times> session) option op" where
  "owner_session cookie =
    (if cookie = [] \<or> length cookie > 512 then ret None else transaction (reads (\<lambda>w. session_of w cookie)))"

definition logout :: "string \<Rightarrow> unit op" where
  "logout cookie = transaction
     (bnd (reads (\<lambda>w. sn_owner (w_store w))) (\<lambda>held.
        case held of
          None \<Rightarrow> raise (OwnerError ''invalid_login'')
        | Some st \<Rightarrow>
      bnd (reads (\<lambda>w. bound_sessions w st)) (\<lambda>bound. bnd (hash_of cookie) (\<lambda>key.
        case bound of
          None \<Rightarrow> raise (OwnerError ''invalid_login'')
        | Some ss \<Rightarrow>
            when_do (dict_get (os_entries ss) key \<noteq> None)
              (save_owner (Some (st\<lparr>ow_sessions := Some (ss\<lparr>os_entries := dict_pop key (os_entries ss)\<rparr>)\<rparr>)))))))"


section \<open>The store stays guarded\<close>

lemma owner_dicts_fresh [simp]: "owner_dicts (Some (fresh_owner m g))"
  by (simp add: owner_dicts_def fresh_owner_def)

lemma owner_dicts_update [simp]:
  "owner_dicts (Some (st\<lparr>ow_verifier := a\<rparr>)) = owner_dicts (Some st)"
  "owner_dicts (Some (st\<lparr>ow_claim := a\<rparr>)) = owner_dicts (Some st)"
  "owner_dicts (Some (st\<lparr>ow_claim_expires := t\<rparr>)) = owner_dicts (Some st)"
  "owner_dicts (Some (st\<lparr>ow_claim_attempts := n\<rparr>)) = owner_dicts (Some st)"
  "owner_dicts (Some (st\<lparr>ow_pending := p\<rparr>)) = owner_dicts (Some st)"
  "owner_dicts (Some (st\<lparr>ow_attempts := ts\<rparr>)) = owner_dicts (Some st)"
  "owner_dicts (Some (st\<lparr>ow_sessions := Some ss\<rparr>)) = is_dict (os_entries ss)"
  by (simp_all add: owner_dicts_def)

lemma owner_dicts_drop [simp]: "owner_dicts (Some st) \<Longrightarrow> owner_dicts (Some (drop_sessions held st))"
  by (simp add: drop_sessions_def split: option.split)

lemma owner_dicts_sessions: "owner_dicts (Some st) \<Longrightarrow> bound_sessions w st = Some ss \<Longrightarrow> is_dict (os_entries ss)"
  by (auto simp: owner_dicts_def bound_sessions_def split: option.splits if_splits)

lemma keeps_save_authority: "owner_dicts (Some st) \<Longrightarrow> keeps B C (save_authority st)"
  unfolding save_authority_def by (rule keeps_reads_owner, rule keeps_save_owner) simp

lemma keeps_generate_token: "keeps B C generate_token"
  unfolding generate_token_def by (rule keeps_rules)+

lemma keeps_hash_of: "keeps B C (hash_of t)"
  unfolding hash_of_def by (rule keeps_rules)

lemma keeps_reads_bound:
  assumes "owner_dicts (Some st)" and "\<And>b. pred_option (\<lambda>ss. is_dict (os_entries ss)) b \<Longrightarrow> keeps B C (k b)"
  shows "keeps B C (bnd (reads (\<lambda>w. bound_sessions w st)) k)"
  using assms owner_dicts_sessions [OF assms(1)]
  by (intro keeps_reads_fact [where F = "pred_option (\<lambda>ss. is_dict (os_entries ss))"]) (auto simp: option.pred_set)

lemmas owner_keeps = keeps_save_owner keeps_save_authority keeps_generate_token keeps_hash_of keeps_rules

lemma guarded_origin [simp]: "guarded B C (w\<lparr>w_origin := x\<rparr>) = guarded B C w"
  by (simp add: guarded_def durable_def hash_ok_def)

lemma keeps_bind_origin: "keeps B C (bind_origin origin)"
  unfolding bind_origin_def by (rule keeps_modifies owner_keeps | simp)+

lemma keeps_initialize: "keeps B C initialize"
  unfolding initialize_def by (rule keeps_bind_origin owner_keeps | simp add: case_prod_beta)+

lemma keeps_console_claim: "keeps B C (console_claim recover)"
  unfolding console_claim_def by (rule owner_keeps | simp)+

lemma keeps_owner_rate_limit: "keeps B C owner_rate_limit"
  unfolding owner_rate_limit_def by (rule owner_keeps | simp)+

lemma keeps_claim: "keeps B C (claim code)"
  unfolding claim_def by (rule owner_keeps | simp)+

lemma keeps_acknowledge: "keeps B C (acknowledge ack saved)"
  unfolding acknowledge_def by (rule owner_keeps | simp)+

lemma keeps_login: "keeps B C (login token)"
  unfolding login_def by (rule keeps_reads_bound owner_keeps | simp)+

lemma keeps_owner_session: "keeps B C (owner_session cookie)"
  unfolding owner_session_def by (rule owner_keeps | simp)+

lemma keeps_logout: "keeps B C (logout cookie)"
  unfolding logout_def by (rule keeps_reads_bound owner_keeps | simp)+

end
