(* ===== verification/Server_Authority.thy ===== *)
theory Server_Authority
  imports Integration Owner_Auth
begin

text \<open>
  The credential side of the server as one transition system: every request that can change the
  credential snapshot, the maintenance sweeps, a reload, the clock, any choice of outcomes for the
  coming disk writes, and the console process (\<open>auth/cli.py\<close>), which shares only the file. What
  holds of every reachable state is proved by rule induction from the per-operation lemmas of the
  components.
\<close>

inductive server_step :: "string \<Rightarrow> world \<Rightarrow> world \<Rightarrow> bool" for origin where
  tick: "w_now w \<le> t \<Longrightarrow> server_step origin w (w\<lparr>w_now := t\<rparr>)"
| faults: "server_step origin w (w\<lparr>w_faults := fs\<rparr>)"
| reload: "server_step origin w (snd (load w))"
| owner_start: "server_step origin w (snd (initialize w))"
| owner_bind: "server_step origin w (snd (bind_origin o' w))"
| owner_console: "server_step origin w (snd (console_claim recover w))"
| owner_limit: "server_step origin w (snd (owner_rate_limit w))"
| owner_claim: "server_step origin w (snd (claim code w))"
| owner_save: "server_step origin w (snd (acknowledge ack saved w))"
| owner_login: "server_step origin w (snd (login token w))"
| owner_cookie: "server_step origin w (snd (owner_session cookie w))"
| owner_logout: "server_step origin w (snd (logout cookie w))"
| lifecycle_request: "server_step origin w (snd (lc_execute origin action body resolve w))"
| lifecycle_sweep: "server_step origin w (snd (lc_sweep origin w))"
| enrollment_start: "server_step origin w (snd (enr_initialize origin w))"
| enrollment_limit: "server_step origin w (snd (enr_rate_limit origin w))"
| enrollment_request: "server_step origin w (snd (enr_execute origin action body resolve w))"
| integration_request: "server_step origin w (snd (int_execute origin action body resolve w))"
| integration_sweep: "server_step origin w (snd (int_sweep origin w))"
| routing_load: "server_step origin w (snd (registry_load w))"
| routing_activate: "server_step origin w (snd (activate i w))"
| routing_remove: "server_step origin w (snd (remove_agent i w))"
| other_process: "\<not> w_transaction v \<Longrightarrow> w_authz v = w_authz w \<Longrightarrow> w_sha256 v = w_sha256 w \<Longrightarrow>
    server_step origin w (w\<lparr>w_authz := w_authz (snd (console_claim recover v))\<rparr>)"

inductive_cases server_stepE: "server_step origin w w'"

abbreviation server_run :: "string \<Rightarrow> world \<Rightarrow> world \<Rightarrow> bool" where
  "server_run origin \<equiv> (server_step origin)\<^sup>*\<^sup>*"

text \<open>What the console process does to the file keeps it durable, whatever that process had in memory.\<close>

lemma console_durable:
  assumes "durable B C w" and "\<not> w_transaction v" and "w_authz v = w_authz w" and "w_sha256 v = w_sha256 w"
  shows "guarded B C (snd (console_claim recover v))"
proof -
  have "keeps B C m \<Longrightarrow> guarded B C (snd (transaction m v))" for m :: "string op"
  proof (erule keeps_request)
    have "durable B C v" using assms by (simp add: durable_def hash_ok_def)
    then show "entry B C v" using assms(2) by (simp add: entry_def)
  qed
  moreover have "\<exists>m. console_claim recover = transaction m \<and> keeps B C m"
    unfolding console_claim_def
    by (intro exI conjI) (rule refl, (rule owner_keeps | simp)+)
  ultimately show ?thesis by auto
qed

lemma console_same_hash: "w_sha256 (snd (console_claim recover v)) = w_sha256 v"
proof -
  have "obeys same_environment (console_claim recover)"
    unfolding console_claim_def save_authority_def token_hex_def token_urlsafe24_def hash_of_def
    by (intro environment_step.obeys_rules environment_rules)
  then have "same_environment v (snd (console_claim recover v))" by (simp add: obeys_def)
  then show ?thesis by (rule same_environment_fields)
qed

lemma server_step_guarded:
  assumes "server_step origin w w'" and g: "guarded B C w"
  shows "guarded B C w'"
  using assms(1)
proof cases
  case (tick t)
  then show ?thesis using g by (simp add: guarded_def durable_def hash_ok_def)
next
  case (faults fs)
  then show ?thesis using g by (simp add: guarded_def durable_def hash_ok_def)
next
  case (other_process v recover)
  have d: "guarded B C (snd (console_claim recover v))"
    by (rule console_durable [OF guarded_durable [OF g] other_process(2-4)])
  have h: "w_sha256 (snd (console_claim recover v)) = w_sha256 w"
    using console_same_hash other_process(4) by simp
  then have "durable B C (w\<lparr>w_authz := w_authz (snd (console_claim recover v))\<rparr>)"
    using d by (simp add: guarded_def durable_def hash_ok_def)
  then show ?thesis using g other_process(1) by (simp add: guarded_def)
qed (use g in \<open>simp_all add: obeys_keepingD keeps_load keeps_initialize keeps_bind_origin keeps_console_claim
      keeps_owner_rate_limit keeps_claim keeps_acknowledge keeps_login keeps_owner_session keeps_logout
      keeps_lc_execute keeps_lc_sweep keeps_enr_initialize keeps_enr_rate_limit keeps_enr_execute
      keeps_int_execute keeps_int_sweep keeps_registry\<close>)

lemma server_run_guarded: "server_run origin w w' \<Longrightarrow> guarded B C w \<Longrightarrow> guarded B C w'"
  by (induction rule: rtranclp_induct) (auto intro: server_step_guarded)


section \<open>What holds after any run\<close>

text \<open>C1: a tombstone is for ever. Whatever requests, reloads, clock readings and disk failures
  follow, a bearer token whose verifier was blocked when the server loaded its store never
  authenticates again, and the file on disk still blocks it.\<close>

theorem tombstones_are_for_ever:
  assumes "load w0 = (Inr (), w)" and "hash_ok w0" and "server_run origin w w'"
    and "v \<in> set (blocked_of (w_store w))" and "token_verifier (w_sha256 w') t = v"
  shows "authenticate w' (JStr t) = None
    \<and> (\<exists>s. read_snapshot (w_authz w') = Inr s \<and> v \<in> set (blocked_of s))"
proof -
  have "guarded (set (blocked_of (w_store w))) (identity ` set (sn_records (w_store w))) w'"
    using server_run_guarded assms(3) load_guarded [OF assms(1,2)] by blast
  then have mem: "v \<in> set (blocked_of (w_store w'))"
    and disk: "\<exists>s. read_snapshot (w_authz w') = Inr s \<and> v \<in> set (blocked_of s)"
    using assms(4) by (auto simp: guarded_def remembers_def durable_def)
  have "authenticate w' (JStr t) = None"
  proof (rule ccontr)
    assume "authenticate w' (JStr t) \<noteq> None"
    then obtain p where "authenticate w' (JStr t) = Some p" by auto
    then show False
      using mem assms(5) by (elim authenticate_SomeD) (simp add: blocked_not_usable)
  qed
  then show ?thesis using disk by simp
qed

theorem tombstones_are_for_ever_witness:
  "authenticate ((running (demo_snapshot True [demo_hash (utf8 ''vx_dev_token'')]))\<lparr>w_now := 5000\<rparr>) (JStr ''vx_dev_token'') = None"
proof -
  let ?s = "demo_snapshot True [demo_hash (utf8 ''vx_dev_token'')]"
  have "server_run [] (running ?s) ((running ?s)\<lparr>w_now := 5000\<rparr>)"
    by (rule r_into_rtranclp, rule server_step.tick) simp
  from tombstones_are_for_ever [OF load_stored demo_hash_ok(2) this, of "demo_hash (utf8 ''vx_dev_token'')" "''vx_dev_token''"]
  show ?thesis
    by (simp add: token_verifier_def)
qed

text \<open>C4: the credential file stays usable. After any run from a successful load, whatever writes
  failed or were torn, the file is one that the next start accepts, every namespace of it passes
  its validator and no dictionary repeats a key.\<close>

theorem store_stays_readable:
  assumes "load w0 = (Inr (), w)" and "hash_ok w0" and "server_run origin w w'"
  shows "\<exists>s. read_snapshot (w_authz w') = Inr s \<and> wf_snapshot s"
proof -
  have "durable (set (blocked_of (w_store w))) (identity ` set (sn_records (w_store w))) w'"
    using server_run_guarded assms(3) load_guarded [OF assms(1,2)] guarded_durable by blast
  then show ?thesis by (auto simp: durable_def dest: read_snapshot_wf)
qed

theorem store_stays_readable_witness:
  "\<exists>s. read_snapshot (w_authz (snd (load (running (demo_snapshot True []))))) = Inr s \<and> wf_snapshot s"
proof -
  have "server_run [] (running (demo_snapshot True [])) (snd (load (running (demo_snapshot True []))))"
    by (rule r_into_rtranclp, rule server_step.reload)
  then show ?thesis
    using store_stays_readable [OF load_stored [of "demo_snapshot True []"] demo_hash_ok(2)] by simp
qed

text \<open>C5: a credential ID never changes its meaning. Every credential of the loaded store is still in
  the file after any run, with the same role, subject and verifier, and no other record of the file
  has its ID.\<close>

theorem credential_ids_are_permanent:
  assumes "load w0 = (Inr (), w)" and "hash_ok w0" and "server_run origin w w'"
    and "r \<in> set (sn_records (w_store w))"
  shows "\<exists>s. read_snapshot (w_authz w') = Inr s \<and> identity r \<in> identity ` set (sn_records s)
    \<and> (\<forall>q \<in> set (sn_records s). cr_id q = cr_id r \<longrightarrow> identity q = identity r)"
proof -
  have "durable (set (blocked_of (w_store w))) (identity ` set (sn_records (w_store w))) w'"
    using server_run_guarded assms(3) load_guarded [OF assms(1,2)] guarded_durable by blast
  then obtain s where s: "read_snapshot (w_authz w') = Inr s" "identity r \<in> identity ` set (sn_records s)"
    using assms(4) by (auto simp: durable_def remembers_def)
  then obtain r' where r': "r' \<in> set (sn_records s)" "identity r' = identity r" by auto
  have "distinct (map cr_id (sn_records s))"
    using read_snapshot_wf [OF s(1)] by (simp add: wf_snapshot_def valid_snapshot_def valid_records_def)
  then have "q = r'" if "q \<in> set (sn_records s)" "cr_id q = cr_id r" for q
    using that r' by (auto simp: distinct_map inj_on_def identity_def)
  then show ?thesis using s r'(2) by blast
qed

theorem credential_ids_are_permanent_witness:
  "\<exists>s. read_snapshot (w_authz (snd (load (running (demo_snapshot True []))))) = Inr s
    \<and> identity (demo_credential True) \<in> identity ` set (sn_records s)
    \<and> (\<forall>q \<in> set (sn_records s). cr_id q = cr_id (demo_credential True) \<longrightarrow> identity q = identity (demo_credential True))"
proof -
  have "server_run [] (running (demo_snapshot True [])) (snd (load (running (demo_snapshot True []))))"
    by (rule r_into_rtranclp, rule server_step.reload)
  moreover have "demo_credential True \<in> set (sn_records (w_store (running (demo_snapshot True []))))"
    by simp
  ultimately show ?thesis
    using credential_ids_are_permanent [OF load_stored [of "demo_snapshot True []"] demo_hash_ok(2)] by simp
qed

end
