(* ===== verification/Speech_Catalog.thy ===== *)
theory Speech_Catalog
  imports Config_Files Wire_Text
begin

text \<open>
  \<open>speech/models.py\<close> and \<open>speech/catalog.py\<close>: the speech providers. A provider in \<open>speech.json\<close> is
  an arbitrary JSON object until \<open>parse_backends\<close> has accepted it; the Python constructor call and
  \<open>validate_backend\<close> are two checks with one diagnostic, here \<open>backend_of\<close> and
  \<open>validate_backend\<close>.
\<close>

record backend =
  bk_id :: string
  bk_kind :: string
  bk_adapter :: string
  bk_model :: string
  bk_host :: string
  bk_port :: int
  bk_voices :: "string list"

record selection =
  sel_stt :: backend
  sel_tts :: backend
  sel_voice :: string

text \<open>\<open>_ADAPTERS\<close>\<close>

definition adapters_of :: "string \<Rightarrow> string list" where
  "adapters_of kind =
    (if kind = ''stt'' then [''wyoming'', ''whisper'', ''parakeet-v3'']
     else if kind = ''tts'' then [''wyoming'', ''piper'', ''kokoro'', ''openai'']
     else if kind = ''realtime'' then [''openai-live'']
     else [])"

definition validate_backend :: "backend \<Rightarrow> bool" where
  "validate_backend b \<longleftrightarrow>
     bk_adapter b \<in> set (adapters_of (bk_kind b))
     \<and> bk_id b \<noteq> [] \<and> bk_model b \<noteq> [] \<and> bk_host b \<noteq> []
     \<and> 1 \<le> bk_port b \<and> bk_port b \<le> 65535
     \<and> \<not> (bk_kind b \<in> {''tts'', ''realtime''} \<and> bk_voices b = [])
     \<and> list_all (\<lambda>v. v \<noteq> []) (bk_voices b)
     \<and> distinct (bk_voices b)
     \<and> \<not> (bk_adapter b = ''openai-live'' \<and> (bk_host b \<noteq> ''api.openai.com'' \<or> bk_port b \<noteq> 443))"

definition backend_fields :: "string list" where
  "backend_fields = [''id'', ''kind'', ''adapter'', ''model'', ''host'', ''port'']"

text \<open>\<open>Backend(**{**item, "voices": tuple(item.get("voices", []))})\<close> and the type tests of \<open>validate_backend\<close>.\<close>

definition backend_of :: "json \<Rightarrow> backend option" where
  "backend_of item =
    (let voices = (case jget item ''voices'' of None \<Rightarrow> JList [] | Some v \<Rightarrow> v) in
     if is_obj item \<and> is_list voices
        \<and> keys_within item (''voices'' # backend_fields)
        \<and> list_all (has_key item) backend_fields
        \<and> list_all (\<lambda>k. is_str (jat item k)) [''id'', ''kind'', ''adapter'', ''model'', ''host'']
        \<and> is_int (jat item ''port'')
        \<and> list_all is_str (list_items voices)
     then Some \<lparr> bk_id = str_value (jat item ''id''), bk_kind = str_value (jat item ''kind''),
                 bk_adapter = str_value (jat item ''adapter''), bk_model = str_value (jat item ''model''),
                 bk_host = str_value (jat item ''host''), bk_port = int_value (jat item ''port''),
                 bk_voices = map str_value (list_items voices) \<rparr>
     else None)"

text \<open>\<open>asdict\<close>, with the tuple as the array that is persisted.\<close>

definition enc_backend :: "backend \<Rightarrow> json" where
  "enc_backend b = JObj [
     (''id'', JStr (bk_id b)), (''kind'', JStr (bk_kind b)), (''adapter'', JStr (bk_adapter b)),
     (''model'', JStr (bk_model b)), (''host'', JStr (bk_host b)), (''port'', JInt (bk_port b)),
     (''voices'', enc_list JStr (bk_voices b))]"

text \<open>The loop of \<open>parse_backends\<close>; \<open>i\<close> is the index the diagnostic names.\<close>

fun parse_items :: "int \<Rightarrow> json list \<Rightarrow> exn + backend list" where
  "parse_items i [] = Inr []"
| "parse_items i (item # items) =
    (case backend_of item of
       None \<Rightarrow> Inl (ConfigError (''providers['' @ int_text i @ '']''))
     | Some b \<Rightarrow>
         if \<not> validate_backend b then Inl (ConfigError (''providers['' @ int_text i @ '']''))
         else (case parse_items (i + 1) items of Inl e \<Rightarrow> Inl e | Inr bs \<Rightarrow> Inr (b # bs)))"

definition parse_backends :: "json \<Rightarrow> exn + backend list" where
  "parse_backends raw =
    (if \<not> is_list raw \<or> \<not> (1 \<le> length (list_items raw) \<and> length (list_items raw) \<le> 32)
     then Inl (ConfigError ''providers'')
     else (case parse_items 0 (list_items raw) of
             Inl e \<Rightarrow> Inl e
           | Inr bs \<Rightarrow> if \<not> distinct (map bk_id bs) then Inl (ConfigError ''providers'') else Inr bs))"

text \<open>The two Wyoming endpoints and the voice come from the configuration.\<close>

definition openai_voices :: "string list" where
  "openai_voices = [''marin'', ''cedar'', ''alloy'', ''ash'', ''ballad'', ''coral'', ''echo'', ''fable'',
     ''nova'', ''onyx'', ''sage'', ''shimmer'', ''verse'']"

definition shipped_backends :: "string \<times> int \<Rightarrow> string \<times> int \<Rightarrow> string \<Rightarrow> backend list" where
  "shipped_backends stt tts voice = [
     \<lparr> bk_id = ''whisper'', bk_kind = ''stt'', bk_adapter = ''whisper'', bk_model = ''legacy-whisper'',
       bk_host = fst stt, bk_port = snd stt, bk_voices = [] \<rparr>,
     \<lparr> bk_id = ''piper'', bk_kind = ''tts'', bk_adapter = ''piper'', bk_model = voice,
       bk_host = fst tts, bk_port = snd tts, bk_voices = [voice] \<rparr>,
     \<lparr> bk_id = ''parakeet-v3'', bk_kind = ''stt'', bk_adapter = ''parakeet-v3'', bk_model = ''parakeet-v3'',
       bk_host = ''parakeet'', bk_port = 10300, bk_voices = [] \<rparr>,
     \<lparr> bk_id = ''kokoro'', bk_kind = ''tts'', bk_adapter = ''kokoro'', bk_model = ''kokoro'',
       bk_host = ''kokoro'', bk_port = 10200, bk_voices = [''af_heart''] \<rparr>,
     \<lparr> bk_id = ''openai-tts'', bk_kind = ''tts'', bk_adapter = ''openai'', bk_model = ''gpt-4o-mini-tts'',
       bk_host = ''api.openai.com'', bk_port = 443, bk_voices = openai_voices \<rparr>,
     \<lparr> bk_id = ''openai-live'', bk_kind = ''realtime'', bk_adapter = ''openai-live'', bk_model = ''gpt-live-1'',
       bk_host = ''api.openai.com'', bk_port = 443, bk_voices = [''marin'', ''cedar''] \<rparr>]"

definition load_backends :: "doc_file \<Rightarrow> string \<times> int \<Rightarrow> string \<times> int \<Rightarrow> string \<Rightarrow> exn + backend list" where
  "load_backends f stt tts voice =
    (if \<not> doc_exists f then Inr (shipped_backends stt tts voice)
     else (case read_json f of
             Inl e \<Rightarrow> Inl e
           | Inr data \<Rightarrow> if \<not> is_obj data then Inl (ConfigError ''$'') else parse_backends (jat data ''providers'')))"


section \<open>What an accepted provider is, and that a written one is accepted\<close>

lemma backend_of_enc [simp]: "backend_of (enc_backend b) = Some b"
  by (simp add: backend_of_def enc_backend_def keys_within_def has_key_def jkeys_def jat_def
      backend_fields_def list_all_iff comp_def)

lemma parse_items_enc: "list_all validate_backend bs \<Longrightarrow> parse_items i (map enc_backend bs) = Inr bs"
  by (induction bs arbitrary: i) auto

lemma parse_items_valid: "parse_items i items = Inr bs \<Longrightarrow> list_all validate_backend bs"
  by (induction i items arbitrary: bs rule: parse_items.induct) (auto split: option.splits if_splits sum.splits)

lemma parse_backends_valid:
  assumes "parse_backends raw = Inr bs"
  shows "list_all validate_backend bs" and "distinct (map bk_id bs)" and "bs \<noteq> []"
proof -
  have bs: "parse_items 0 (list_items raw) = Inr bs" "distinct (map bk_id bs)" "1 \<le> length (list_items raw)"
    using assms by (simp_all add: parse_backends_def split: if_splits sum.splits)
  show "list_all validate_backend bs" using parse_items_valid [OF bs(1)] .
  show "distinct (map bk_id bs)" by (rule bs(2))
  show "bs \<noteq> []" using bs(1,3) by (cases "list_items raw") (auto split: option.splits if_splits sum.splits)
qed

lemma parse_backends_enc:
  assumes "list_all validate_backend bs" and "distinct (map bk_id bs)" and "bs \<noteq> []" and "length bs \<le> 32"
  shows "parse_backends (enc_list enc_backend bs) = Inr bs"
  using assms parse_items_enc [of bs 0] by (cases bs) (auto simp: parse_backends_def)

lemma shipped_backends_ids: "distinct (map bk_id (shipped_backends stt tts voice))"
  by (simp add: shipped_backends_def)

lemma shipped_backends_valid:
  "voice \<noteq> [] \<Longrightarrow> fst stt \<noteq> [] \<Longrightarrow> fst tts \<noteq> [] \<Longrightarrow> 1 \<le> snd stt \<Longrightarrow> snd stt \<le> 65535 \<Longrightarrow> 1 \<le> snd tts \<Longrightarrow> snd tts \<le> 65535 \<Longrightarrow>
   list_all validate_backend (shipped_backends stt tts voice)"
  by (simp add: shipped_backends_def validate_backend_def adapters_of_def openai_voices_def)

end
