(* ===== verification/Speech_Store.thy ===== *)
theory Speech_Store
  imports Speech_Catalog
begin

text \<open>
  \<open>speech/store.py\<close>: the speech selections of the server and of each device, kept in \<open>speech.json\<close>.
  The selections stay the dictionaries the code keeps, so they are JSON here too. The record is
  extended by the device registry, which shares the process with it.
\<close>

record speech_state =
  ss_file :: doc_file
  ss_backends :: "(string, backend) dict"
  ss_defaults :: json
  ss_devices :: json
  ss_faults :: "write_outcome list"

type_synonym ('z, 'a) speech_op = "('z speech_state_scheme, exn, 'a) action"

definition selection_fields :: "string list" where
  "selection_fields = [''stt_backend'', ''tts_backend'', ''voices'', ''mode'', ''realtime_backend'', ''realtime_voice'']"

text \<open>\<open>{**a, **b}\<close> and \<open>value.get(key, default)\<close>\<close>

definition merged :: "json \<Rightarrow> json \<Rightarrow> json" where
  "merged a b = JObj (fold (\<lambda>(k, v). dict_put k v) (obj_pairs b) (obj_pairs a))"

definition get_or :: "json \<Rightarrow> string \<Rightarrow> json \<Rightarrow> json" where
  "get_or j k d = (case jget j k of None \<Rightarrow> d | Some v \<Rightarrow> v)"

definition put_key :: "string \<Rightarrow> json \<Rightarrow> json \<Rightarrow> json" where
  "put_key k v j = JObj (dict_put k v (obj_pairs j))"

definition pop_key :: "string \<Rightarrow> json \<Rightarrow> json" where
  "pop_key k j = JObj (dict_pop k (obj_pairs j))"


section \<open>Validation of a document\<close>

text \<open>A provider reference of the given kind; a voice of its TTS provider.\<close>

definition references :: "(string, backend) dict \<Rightarrow> json \<Rightarrow> string \<Rightarrow> bool" where
  "references B v kind \<longleftrightarrow> (case v of
     JStr i \<Rightarrow> (case dict_get B i of None \<Rightarrow> False | Some b \<Rightarrow> bk_kind b = kind)
   | _ \<Rightarrow> False)"

definition voice_belongs :: "(string, backend) dict \<Rightarrow> string \<times> json \<Rightarrow> bool" where
  "voice_belongs B pv \<longleftrightarrow> (case dict_get B (fst pv) of
     None \<Rightarrow> False
   | Some b \<Rightarrow> bk_kind b = ''tts'' \<and> str_among (snd pv) (bk_voices b))"

definition reference_keys :: "(string \<times> string) list" where
  "reference_keys = [(''stt_backend'', ''stt''), (''tts_backend'', ''tts''), (''realtime_backend'', ''realtime'')]"

text \<open>\<open>_validate_effective\<close>\<close>

definition validate_effective :: "(string, backend) dict \<Rightarrow> json \<Rightarrow> string \<Rightarrow> exn option" where
  "validate_effective B settings field =
    (let provider = jat settings ''realtime_backend'' in
     if jget settings ''mode'' = Some (JStr ''realtime'') \<and> \<not> truthy provider
     then Some (ConfigError (field @ ''.realtime_backend''))
     else if truthy provider
     then (case provider of
             JStr i \<Rightarrow> (case dict_get B i of
                 None \<Rightarrow> Some KeyError
               | Some b \<Rightarrow> if str_among (jat settings ''realtime_voice'') (bk_voices b) then None
                           else Some (ConfigError (field @ ''.realtime_voice'')))
           | _ \<Rightarrow> Some KeyError)
     else None)"

text \<open>\<open>_validate_settings\<close>: the defaults, and with \<open>override\<close> the selections of one device.\<close>

definition validate_settings :: "(string, backend) dict \<Rightarrow> json \<Rightarrow> string \<Rightarrow> bool \<Rightarrow> exn option" where
  "validate_settings B settings field override =
    (if \<not> keys_within settings selection_fields then Some (ConfigError field)
     else if \<not> override \<and> \<not> list_all (has_key settings) [''stt_backend'', ''tts_backend'', ''voices'', ''mode'']
     then Some (ConfigError field)
     else case find (\<lambda>(k, kind). has_key settings k \<and> \<not> references B (jat settings k) kind) reference_keys of
       Some (k, _) \<Rightarrow> Some (ConfigError (field @ ''.'' @ k))
     | None \<Rightarrow>
         if has_key settings ''mode'' \<and> \<not> str_among (jat settings ''mode'') [''standard'', ''realtime'']
         then Some (ConfigError (field @ ''.mode''))
         else let voices = get_or settings ''voices'' (JObj []) in
           if \<not> is_obj voices \<or> \<not> list_all (voice_belongs B) (obj_pairs voices)
           then Some (ConfigError (field @ ''.voices''))
           else if has_key settings ''realtime_voice'' \<and> \<not> is_str (jat settings ''realtime_voice'')
           then Some (ConfigError (field @ ''.realtime_voice''))
           else if \<not> override then validate_effective B settings field
           else None)"

fun validate_devices :: "(string, backend) dict \<Rightarrow> json \<Rightarrow> json list \<Rightarrow> exn option" where
  "validate_devices B defaults [] = None"
| "validate_devices B defaults (settings # rest) =
    (case validate_settings B settings ''devices.*'' True of
       Some e \<Rightarrow> Some e
     | None \<Rightarrow> (case validate_effective B (merged defaults settings) ''devices.*'' of
                  Some e \<Rightarrow> Some e
                | None \<Rightarrow> validate_devices B defaults rest))"

definition raise_some :: "'e option \<Rightarrow> ('s, 'e, unit) action" where
  "raise_some e = (case e of None \<Rightarrow> ret () | Some x \<Rightarrow> raise x)"

definition bad_header :: "json \<Rightarrow> bool" where
  "bad_header data \<longleftrightarrow> \<not> is_obj data \<or> set (jkeys data) \<noteq> {''version'', ''providers'', ''defaults'', ''devices''}
     \<or> jat data ''version'' \<noteq> JInt 1"

text \<open>\<open>_load\<close>. The fields are assigned before the settings are validated, as in the code.\<close>

definition load_speech :: "json \<Rightarrow> ('z, unit) speech_op" where
  "load_speech data =
     andthen (raise_if (bad_header data) (ConfigError ''$''))
     (bnd (lift_result (parse_backends (jat data ''providers''))) (\<lambda>bs.
      andthen (modifies (\<lambda>s. s\<lparr>ss_backends := map (\<lambda>b. (bk_id b, b)) bs\<rparr>))
      (andthen (modifies (\<lambda>s. s\<lparr>ss_defaults := jat data ''defaults'', ss_devices := jat data ''devices''\<rparr>))
      (andthen (raise_if (\<not> is_obj (jat data ''defaults'') \<or> \<not> is_obj (jat data ''devices''))
                         (ConfigError ''defaults/devices''))
      (bnd (reads (\<lambda>s. (ss_backends s, ss_defaults s, ss_devices s))) (\<lambda>(B, defaults, devices).
       andthen (raise_some (validate_settings B defaults ''defaults'' False))
               (raise_some (validate_devices B defaults (map snd (obj_pairs devices))))))))))"


section \<open>Reading a selection\<close>

definition lookup_backend :: "(string, backend) dict \<Rightarrow> json \<Rightarrow> exn + backend" where
  "lookup_backend B v = (case v of
     JStr i \<Rightarrow> (case dict_get B i of None \<Rightarrow> Inl KeyError | Some b \<Rightarrow> Inr b)
   | JList _ \<Rightarrow> Inl TypeError
   | JObj _ \<Rightarrow> Inl TypeError
   | _ \<Rightarrow> Inl KeyError)"

definition override_of :: "'z speech_state_scheme \<Rightarrow> string \<Rightarrow> json" where
  "override_of s device = get_or (ss_devices s) device (JObj [])"

definition pick_backend :: "'z speech_state_scheme \<Rightarrow> json \<Rightarrow> string \<Rightarrow> exn + backend" where
  "pick_backend s override k = (case jget (ss_defaults s) k of
     None \<Rightarrow> Inl KeyError
   | Some d \<Rightarrow> lookup_backend (ss_backends s) (get_or override k d))"

definition pick_voice :: "'z speech_state_scheme \<Rightarrow> json \<Rightarrow> backend \<Rightarrow> exn + json" where
  "pick_voice s override tts =
    (let own = get_or override ''voices'' (JObj []) in
     if \<not> is_obj own then Inl AttributeError
     else case jget (ss_defaults s) ''voices'' of
       None \<Rightarrow> Inl KeyError
     | Some shared \<Rightarrow>
         if \<not> is_obj shared then Inl AttributeError
         else if bk_voices tts = [] then Inl IndexError
         else Inr (get_or own (bk_id tts) (get_or shared (bk_id tts) (JStr (hd (bk_voices tts))))))"

text \<open>\<open>SpeechStore.resolve\<close>\<close>

definition resolve_speech :: "'z speech_state_scheme \<Rightarrow> string \<Rightarrow> exn + selection" where
  "resolve_speech s device =
    (let override = override_of s device in
     case pick_backend s override ''stt_backend'' of
       Inl e \<Rightarrow> Inl e
     | Inr stt \<Rightarrow> (case pick_backend s override ''tts_backend'' of
         Inl e \<Rightarrow> Inl e
       | Inr tts \<Rightarrow>
           if bk_kind stt \<noteq> ''stt'' \<or> bk_kind tts \<noteq> ''tts'' then Inl ValueError
           else (case pick_voice s override tts of
               Inl e \<Rightarrow> Inl e
             | Inr voice \<Rightarrow>
                 if \<not> str_among voice (bk_voices tts) then Inl ValueError
                 else Inr \<lparr> sel_stt = stt, sel_tts = tts, sel_voice = str_value voice \<rparr>)))"

record voice_view =
  vv_mode :: json
  vv_backend :: string
  vv_model :: string
  vv_voice :: json

text \<open>\<open>SpeechStore.voice_settings\<close>\<close>

definition voice_settings :: "'z speech_state_scheme \<Rightarrow> string \<Rightarrow> exn + voice_view" where
  "voice_settings s device =
    (let settings = merged (ss_defaults s) (override_of s device);
         wanted = get_or settings ''realtime_backend'' (JStr []);
         provider = (case wanted of JStr i \<Rightarrow> dict_get (ss_backends s) i | _ \<Rightarrow> None) in
     if is_list wanted \<or> is_obj wanted then Inl TypeError
     else case jget settings ''mode'' of
       None \<Rightarrow> Inl KeyError
     | Some mode \<Rightarrow> Inr \<lparr> vv_mode = mode,
         vv_backend = (case provider of None \<Rightarrow> [] | Some b \<Rightarrow> bk_id b),
         vv_model = (case provider of None \<Rightarrow> [] | Some b \<Rightarrow> bk_model b),
         vv_voice = get_or settings ''realtime_voice'' (JStr []) \<rparr>)"


section \<open>Changing a selection\<close>

text \<open>The start state of \<open>object.__new__(SpeechStore)\<close>, before \<open>_load\<close> has given it fields.\<close>

definition candidate :: speech_state where
  "candidate = \<lparr> ss_file = No_file, ss_backends = [], ss_defaults = JNull, ss_devices = JNull, ss_faults = [] \<rparr>"

text \<open>The inner loop over the voices of a patch, and one field of the patch.\<close>

definition patch_voice :: "bool \<Rightarrow> string \<times> json \<Rightarrow> json \<Rightarrow> json" where
  "patch_voice device bv voices =
    (if snd bv = JNull \<and> device then pop_key (fst bv) voices else put_key (fst bv) (snd bv) voices)"

definition patch_field :: "bool \<Rightarrow> string \<Rightarrow> json \<Rightarrow> json \<Rightarrow> exn + json" where
  "patch_field device k v target =
    (if k \<notin> set selection_fields then Inl ValueError
     else if v = JNull \<and> device then Inr (pop_key k target)
     else if k = ''voices'' then
       (if \<not> is_obj v then Inl ValueError
        else Inr (put_key ''voices'' (fold (patch_voice device) (obj_pairs v) (get_or target ''voices'' (JObj []))) target))
     else Inr (put_key k v target))"

fun patch_fields :: "bool \<Rightarrow> (string \<times> json) list \<Rightarrow> json \<Rightarrow> exn + json" where
  "patch_fields device [] target = Inr target"
| "patch_fields device ((k, v) # rest) target =
    (case patch_field device k v target of Inl e \<Rightarrow> Inl e | Inr t \<Rightarrow> patch_fields device rest t)"

text \<open>\<open>change(data)\<close>: build and validate a separate candidate.\<close>

definition speech_change :: "json \<Rightarrow> string option \<Rightarrow> json \<Rightarrow> exn + json" where
  "speech_change patch device data =
    (case load_speech data candidate of
       (Inl e, _) \<Rightarrow> Inl e
     | (Inr _, c) \<Rightarrow>
         (let target = (case device of None \<Rightarrow> ss_defaults c | Some d \<Rightarrow> get_or (ss_devices c) d (JObj [])) in
          case patch_fields (device \<noteq> None) (obj_pairs patch) target of
            Inl e \<Rightarrow> Inl e
          | Inr t \<Rightarrow>
              (let defaults = (case device of None \<Rightarrow> t | Some _ \<Rightarrow> ss_defaults c);
                   devices = (case device of
                       None \<Rightarrow> ss_devices c
                     | Some d \<Rightarrow> if \<not> truthy t then pop_key d (ss_devices c) else put_key d t (ss_devices c));
                   result = put_key ''devices'' devices (put_key ''defaults'' defaults data) in
               case load_speech result c of (Inl e, _) \<Rightarrow> Inl e | (Inr _, _) \<Rightarrow> Inr result)))"

definition next_outcome :: "'z speech_state_scheme \<Rightarrow> write_outcome" where
  "next_outcome s = (case ss_faults s of [] \<Rightarrow> Write_ok | oc # _ \<Rightarrow> oc)"

definition update_speech_file :: "(json \<Rightarrow> exn + json) \<Rightarrow> ('z, json) speech_op" where
  "update_speech_file change = (\<lambda>s. case update_json (next_outcome s) change (ss_file s) of
     (r, f, wrote) \<Rightarrow> (r, s\<lparr>ss_file := f, ss_faults := (if wrote then tl (ss_faults s) else ss_faults s)\<rparr>))"

text \<open>\<open>SpeechStore.update\<close>\<close>

definition update_speech :: "json \<Rightarrow> string option \<Rightarrow> ('z, unit) speech_op" where
  "update_speech patch device =
     andthen (raise_if (\<not> is_obj patch) (ConfigError ''selection''))
     (bnd (try_except (update_speech_file (speech_change patch device))
             (\<lambda>e. if e = OSError
                  then andthen (bnd (reads ss_file) (\<lambda>f. bnd (lift_result (read_json f)) load_speech)) (raise OSError)
                  else raise e))
          load_speech)"

text \<open>\<open>SpeechStore.__init__\<close>: the first document, written when there is none.\<close>

definition first_of_kind :: "backend list \<Rightarrow> string \<Rightarrow> backend option" where
  "first_of_kind bs kind = find (\<lambda>b. bk_kind b = kind) bs"

definition initial_document :: "backend list \<Rightarrow> json" where
  "initial_document bs =
    (let wanted = (\<lambda>kind. case first_of_kind bs kind of None \<Rightarrow> JNull | Some b \<Rightarrow> JStr (bk_id b));
         voices = map (\<lambda>b. (bk_id b, JStr (hd (bk_voices b)))) (filter (\<lambda>b. bk_kind b = ''tts'') bs) in
     JObj [(''version'', JInt 1), (''providers'', enc_list enc_backend bs),
           (''defaults'', JObj ([(''mode'', JStr ''standard''), (''stt_backend'', wanted ''stt''),
               (''tts_backend'', wanted ''tts''), (''voices'', JObj voices)]
             @ (case first_of_kind bs ''realtime'' of
                  None \<Rightarrow> []
                | Some b \<Rightarrow> [(''realtime_backend'', JStr (bk_id b)), (''realtime_voice'', JStr (hd (bk_voices b)))]))),
           (''devices'', JObj [])])"

definition open_speech :: "backend list \<Rightarrow> ('z, unit) speech_op" where
  "open_speech bs =
     bnd (reads ss_file) (\<lambda>f.
       if doc_exists f then bnd (lift_result (read_json f)) load_speech
       else andthen (raise_if (\<not> list_all validate_backend bs) ValueError)
            (andthen (load_speech (initial_document bs))
            (bnd (update_speech_file (\<lambda>existing. Inr (if truthy existing then existing else initial_document bs)))
                 load_speech)))"

text \<open>\<open>SpeechStore.view\<close>; \<open>configured\<close> says whether realtime is enabled and the provider key is set.\<close>

definition backend_view :: "backend \<Rightarrow> json" where
  "backend_view b = JObj (filter (\<lambda>(k, v). k \<notin> {''host'', ''port''}) (obj_pairs (enc_backend b)))"

definition effective_view :: "exn + selection \<Rightarrow> exn + json \<times> json" where
  "effective_view chosen = (case chosen of
     Inl e \<Rightarrow> if e \<in> {KeyError, ValueError}
              then Inr (JNull, JStr ''Selected backend or voice is no longer configured'') else Inl e
   | Inr sel \<Rightarrow> Inr (JObj [(''stt_backend'', JStr (bk_id (sel_stt sel))), (''tts_backend'', JStr (bk_id (sel_tts sel))),
       (''voice_id'', JStr (sel_voice sel))], JNull))"

definition speech_view :: "bool \<Rightarrow> 'z speech_state_scheme \<Rightarrow> string option \<Rightarrow> exn + json" where
  "speech_view configured s device =
    (let d = (case device of None \<Rightarrow> [] | Some x \<Rightarrow> x) in
     case effective_view (resolve_speech s d) of
       Inl e \<Rightarrow> Inl e
     | Inr (effective, error) \<Rightarrow> (case voice_settings s d of
         Inl e \<Rightarrow> Inl e
       | Inr v \<Rightarrow> Inr (JObj [
           (''voice'', JObj [(''mode'', vv_mode v), (''realtime_backend'', JStr (vv_backend v)),
              (''realtime_model'', JStr (vv_model v)), (''realtime_voice'', vv_voice v)]),
           (''realtime'', JObj [(''voices'', case dict_get (ss_backends s) (vv_backend v) of
                 None \<Rightarrow> JList [] | Some b \<Rightarrow> enc_list JStr (bk_voices b)),
              (''configured'', JBool configured)]),
           (''defaults'', ss_defaults s),
           (''overrides'', case device of None \<Rightarrow> JObj [] | Some x \<Rightarrow> get_or (ss_devices s) x (JObj [])),
           (''effective'', effective), (''error'', error),
           (''backends'', enc_list backend_view (dict_values (ss_backends s)))])))"

end
