(* ===== verification/Device_Config.thy ===== *)
theory Device_Config
  imports Config_Files Speech_Store
begin

text \<open>
  \<open>devices/config.py\<close>: the settings of a device in \<open>devices.json\<close>. A \<open>DeviceConfig\<close> dictionary is a
  record whose absent keys are \<^const>\<open>None\<close>; the order of its keys is not modelled. The error texts of
  the strict button parser are the values of a datatype.
\<close>

datatype button_action =
    Say_prompt string
  | Say_announce string
  | Run_command string "int option"
  | Call_webhook string

record device_config =
  dc_pipeline :: "string option"
  dc_transport :: "string option"
  dc_name :: "string option"
  dc_voice :: "bool option"
  dc_follow_up :: "string option"
  dc_rate :: "int option"
  dc_barge_in :: "bool option"
  dc_buttons :: "(string, button_action) dict option"

definition no_config :: device_config where
  "no_config = \<lparr> dc_pipeline = None, dc_transport = None, dc_name = None, dc_voice = None, dc_follow_up = None,
     dc_rate = None, dc_barge_in = None, dc_buttons = None \<rparr>"

section \<open>Modes\<close>

definition pipeline_mode :: "device_config option \<Rightarrow> string" where
  "pipeline_mode cfg = (case cfg of
     Some c \<Rightarrow> if dc_pipeline c = Some ''realtime'' then ''realtime'' else ''standard''
   | None \<Rightarrow> ''standard'')"

definition transport_mode :: "device_config option \<Rightarrow> string" where
  "transport_mode cfg = (case cfg of
     Some c \<Rightarrow> if dc_transport c = Some ''websocket'' then ''websocket'' else ''webrtc''
   | None \<Rightarrow> ''webrtc'')"

definition voice_mode :: "device_config option \<Rightarrow> string" where
  "voice_mode cfg = (if transport_mode cfg = ''websocket'' then ''websocket''
     else if pipeline_mode cfg = ''realtime'' then ''realtime'' else ''webrtc'')"

definition voice_mode_patch :: "string \<Rightarrow> device_config" where
  "voice_mode_patch mode =
    (if mode = ''websocket'' then
       no_config\<lparr>dc_transport := Some ''websocket'', dc_pipeline := Some ''standard'', dc_barge_in := Some False\<rparr>
     else if mode = ''realtime'' then no_config\<lparr>dc_transport := Some ''webrtc'', dc_pipeline := Some ''realtime''\<rparr>
     else no_config\<lparr>dc_transport := Some ''webrtc'', dc_pipeline := Some ''standard''\<rparr>)"

text \<open>\<open>barge_in_enabled\<close>\<close>

definition barge_in_enabled :: "device_config option \<Rightarrow> bool" where
  "barge_in_enabled cfg = (case cfg of None \<Rightarrow> True
     | Some c \<Rightarrow> (case dc_barge_in c of None \<Rightarrow> True | Some b \<Rightarrow> b))"


section \<open>Button actions\<close>

definition valid_gestures :: "string list" where
  "valid_gestures = [''double_press'', ''triple_press'', ''long_press'']"

definition valid_action_kinds :: "string list" where
  "valid_action_kinds = [''none'', ''prompt'', ''announce'', ''command'', ''webhook'']"

definition valid_button_commands :: "string list" where
  "valid_button_commands = [''set_volume'', ''mute'', ''unmute'', ''reboot'']"

definition known_fields :: "string list" where
  "known_fields = [''transport_mode'', ''name'', ''voice'', ''follow_up_mode'', ''output_sample_rate'', ''barge_in'', ''button_actions'']"

definition valid_follow_up_modes :: "string list" where
  "valid_follow_up_modes = [''auto'', ''always'', ''never'']"

datatype button_error =
    Action_not_object
  | Bad_kind
  | Text_required string
  | Bad_command
  | Bad_volume
  | Webhook_required
  | Actions_not_object
  | Bad_gesture
  | In_gesture string button_error

text \<open>A field that must hold a string with something other than white space.\<close>

definition nonblank :: "json \<Rightarrow> string \<Rightarrow> string option" where
  "nonblank raw k = (case jget raw k of
     Some (JStr s) \<Rightarrow> if strip s = [] then None else Some (strip s)
   | _ \<Rightarrow> None)"

definition parse_command :: "json \<Rightarrow> button_error + button_action option" where
  "parse_command raw = (case jget raw ''command'' of
     Some (JStr command) \<Rightarrow>
       if command \<notin> set valid_button_commands then Inl Bad_command
       else if command = ''set_volume'' then
         (case jget raw ''volume'' of
            Some (JInt volume) \<Rightarrow>
              if 0 \<le> volume \<and> volume \<le> 100 then Inr (Some (Run_command command (Some volume))) else Inl Bad_volume
          | _ \<Rightarrow> Inl Bad_volume)
       else Inr (Some (Run_command command None))
   | _ \<Rightarrow> Inl Bad_command)"

text \<open>\<open>parse_button_action\<close>: an error, or the action (\<open>None\<close> for \<open>kind: none\<close>).\<close>

definition parse_button_action :: "json \<Rightarrow> button_error + button_action option" where
  "parse_button_action raw =
    (if \<not> is_obj raw then Inl Action_not_object
     else case jget raw ''kind'' of
       Some (JStr kind) \<Rightarrow>
         if kind \<notin> set valid_action_kinds then Inl Bad_kind
         else if kind = ''none'' then Inr None
         else if kind = ''prompt'' then
           (case nonblank raw ''text'' of None \<Rightarrow> Inl (Text_required kind) | Some t \<Rightarrow> Inr (Some (Say_prompt t)))
         else if kind = ''announce'' then
           (case nonblank raw ''text'' of None \<Rightarrow> Inl (Text_required kind) | Some t \<Rightarrow> Inr (Some (Say_announce t)))
         else if kind = ''command'' then parse_command raw
         else
           (case nonblank raw ''webhook_id'' of None \<Rightarrow> Inl Webhook_required | Some i \<Rightarrow> Inr (Some (Call_webhook i)))
     | _ \<Rightarrow> Inl Bad_kind)"

fun parse_gestures :: "(string \<times> json) list \<Rightarrow> (string, button_action) dict \<Rightarrow> button_error + (string, button_action) dict" where
  "parse_gestures [] out = Inr out"
| "parse_gestures ((gesture, value) # rest) out =
    (if gesture \<notin> set valid_gestures then Inl Bad_gesture
     else case parse_button_action value of
       Inl e \<Rightarrow> Inl (In_gesture gesture e)
     | Inr None \<Rightarrow> parse_gestures rest out
     | Inr (Some a) \<Rightarrow> parse_gestures rest (dict_put gesture a out))"

definition parse_button_actions :: "json \<Rightarrow> button_error + (string, button_action) dict" where
  "parse_button_actions raw = (if \<not> is_obj raw then Inl Actions_not_object else parse_gestures (obj_pairs raw) [])"

text \<open>\<open>sanitize_button_actions\<close>: what the strict parser would refuse is dropped.\<close>

fun sanitize_gestures :: "(string \<times> json) list \<Rightarrow> (string, button_action) dict \<Rightarrow> (string, button_action) dict" where
  "sanitize_gestures [] out = out"
| "sanitize_gestures ((gesture, value) # rest) out =
    (if gesture \<notin> set valid_gestures then sanitize_gestures rest out
     else case parse_button_action value of
       Inl e \<Rightarrow> sanitize_gestures rest out
     | Inr None \<Rightarrow> sanitize_gestures rest out
     | Inr (Some a) \<Rightarrow> sanitize_gestures rest (dict_put gesture a out))"

definition sanitize_button_actions :: "json \<Rightarrow> (string, button_action) dict" where
  "sanitize_button_actions raw = (if \<not> is_obj raw then [] else sanitize_gestures (obj_pairs raw) [])"


section \<open>Reading the file\<close>

text \<open>\<open>isinstance(value, (int, float)) and value > 0\<close> for a value that is no boolean, then \<open>int(value)\<close>.\<close>

definition positive_rate :: "json \<Rightarrow> exn + int option" where
  "positive_rate v = (case v of
     JInt n \<Rightarrow> Inr (if 0 < n then Some n else None)
   | JFloat r \<Rightarrow> Inr (if 0 < r then Some \<lfloor>r\<rfloor> else None)
   | JNonFinite Infinity \<Rightarrow> Inl OverflowError
   | _ \<Rightarrow> Inr None)"

text \<open>One key of \<open>_sanitize_entry\<close>.\<close>

definition sanitize_field :: "string \<Rightarrow> json \<Rightarrow> device_config \<Rightarrow> exn + device_config" where
  "sanitize_field key v cfg =
    (if key = ''transport_mode'' then
       Inr (cfg\<lparr>dc_transport := Some (if v = JStr ''websocket'' then ''websocket'' else ''webrtc'')\<rparr>)
     else if key = ''name'' \<and> is_str v then Inr (cfg\<lparr>dc_name := Some (str_value v)\<rparr>)
     else if key = ''voice'' \<and> is_bool v then Inr (cfg\<lparr>dc_voice := Some (bool_value v)\<rparr>)
     else if key = ''follow_up_mode'' then
       Inr (cfg\<lparr>dc_follow_up := Some (if str_among v valid_follow_up_modes then str_value v else ''auto'')\<rparr>)
     else if key = ''barge_in'' then
       Inr (cfg\<lparr>dc_barge_in := Some (if is_bool v then bool_value v else True)\<rparr>)
     else if key = ''output_sample_rate'' then
       (case positive_rate v of
          Inl e \<Rightarrow> Inl e
        | Inr None \<Rightarrow> Inr cfg
        | Inr (Some n) \<Rightarrow> Inr (cfg\<lparr>dc_rate := Some n\<rparr>))
     else if key = ''button_actions'' then
       (let actions = sanitize_button_actions v in
        Inr (if actions = [] then cfg else cfg\<lparr>dc_buttons := Some actions\<rparr>))
     else Inr cfg)"

fun sanitize_fields :: "(string \<times> json) list \<Rightarrow> device_config \<Rightarrow> exn + device_config" where
  "sanitize_fields [] cfg = Inr cfg"
| "sanitize_fields ((key, v) # rest) cfg =
    (case sanitize_field key v cfg of Inl e \<Rightarrow> Inl e | Inr c \<Rightarrow> sanitize_fields rest c)"

definition sanitize_entry :: "json \<Rightarrow> exn + device_config" where
  "sanitize_entry raw = (if \<not> is_obj raw then Inr no_config else sanitize_fields (obj_pairs raw) no_config)"

fun sanitize_all :: "(string \<times> json) list \<Rightarrow> exn + (string, device_config) dict" where
  "sanitize_all [] = Inr []"
| "sanitize_all ((device, entry) # rest) =
    (case sanitize_entry entry of
       Inl e \<Rightarrow> Inl e
     | Inr c \<Rightarrow> (case sanitize_all rest of Inl e \<Rightarrow> Inl e | Inr cs \<Rightarrow> Inr ((device, c) # cs)))"

text \<open>\<open>_DISPLAY_NAME_CONTROLS\<close> on code points below 256, each of which is one UTF-16 unit.\<close>

definition name_control :: "char \<Rightarrow> bool" where
  "name_control c \<longleftrightarrow> char_between 0 31 c \<or> char_between 127 159 c"

definition valid_display_name :: "string \<Rightarrow> bool" where
  "valid_display_name s \<longleftrightarrow> \<not> list_ex name_control s \<and> length s \<le> 128"

text \<open>The checks of the strict reader, one key and one entry.\<close>

definition valid_setting :: "string \<Rightarrow> json \<Rightarrow> bool" where
  "valid_setting key v =
    (if key = ''transport_mode'' then str_among v [''websocket'', ''webrtc'']
     else if key = ''name'' then str_that valid_display_name v
     else if key = ''voice'' \<or> key = ''barge_in'' then is_bool v
     else if key = ''follow_up_mode'' then str_among v valid_follow_up_modes
     else if key = ''output_sample_rate'' then is_int v \<and> 0 < int_value v
     else if key = ''button_actions'' then (case parse_button_actions v of Inl _ \<Rightarrow> False | Inr _ \<Rightarrow> True)
     else True)"

fun strict_error :: "json list \<Rightarrow> exn option" where
  "strict_error [] = None"
| "strict_error (entry # rest) =
    (if \<not> keys_within entry known_fields then Some (ConfigError ''devices.*'')
     else case find (\<lambda>(k, v). \<not> valid_setting k v) (obj_pairs entry) of
       Some (k, _) \<Rightarrow> Some (ConfigError (''devices.*.'' @ k))
     | None \<Rightarrow> strict_error rest)"

text \<open>\<open>load_device_configs\<close>, lenient and strict. The strict reader writes \<open>{}\<close> when there is no file.\<close>

definition load_device_configs :: "doc_file \<Rightarrow> exn + (string, device_config) dict" where
  "load_device_configs f =
    (if \<not> doc_exists f then Inr []
     else case load_lenient f of
       Inl e \<Rightarrow> Inl e
     | Inr None \<Rightarrow> Inr []
     | Inr (Some parsed) \<Rightarrow> if \<not> is_obj parsed then Inr [] else sanitize_all (obj_pairs parsed))"

definition load_strict :: "write_outcome \<Rightarrow> doc_file \<Rightarrow> (exn + (string, device_config) dict) \<times> doc_file" where
  "load_strict oc f =
    (if \<not> doc_exists f then
       (case write_json oc f (JObj []) of (Inl e, g) \<Rightarrow> (Inl e, g) | (Inr _, g) \<Rightarrow> (Inr [], g))
     else case read_json f of
       Inl e \<Rightarrow> (Inl e, f)
     | Inr parsed \<Rightarrow>
         if \<not> is_obj parsed then (Inl (ConfigError ''$''), f)
         else case strict_error (map snd (obj_pairs parsed)) of
           Some e \<Rightarrow> (Inl e, f)
         | None \<Rightarrow> (sanitize_all (obj_pairs parsed), f))"

text \<open>\<open>load_device_display_name\<close>: \<open>except (OSError, ValueError)\<close> covers every unreadable file.\<close>

definition load_device_display_name :: "doc_file \<Rightarrow> string \<Rightarrow> string option" where
  "load_device_display_name f device =
    (case f of
       Doc j \<Rightarrow> (case jget (last_wins j) device of
           None \<Rightarrow> None
         | Some entry \<Rightarrow> (case jget entry ''name'' of
             Some (JStr name) \<Rightarrow>
               if list_ex name_control name then None
               else if length name \<le> 128 then (if strip name = [] then None else Some (strip name)) else None
           | _ \<Rightarrow> None))
     | _ \<Rightarrow> None)"


section \<open>Writing the file\<close>

definition enc_action :: "button_action \<Rightarrow> json" where
  "enc_action a = (case a of
     Say_prompt t \<Rightarrow> JObj [(''kind'', JStr ''prompt''), (''text'', JStr t)]
   | Say_announce t \<Rightarrow> JObj [(''kind'', JStr ''announce''), (''text'', JStr t)]
   | Run_command c v \<Rightarrow> obj_of [(''kind'', Some (JStr ''command'')), (''command'', Some (JStr c)), (''volume'', map_option JInt v)]
   | Call_webhook i \<Rightarrow> JObj [(''kind'', JStr ''webhook''), (''webhook_id'', JStr i)])"

definition enc_config :: "device_config \<Rightarrow> json" where
  "enc_config c = obj_of [
     (''transport_mode'', map_option JStr (dc_transport c)), (''name'', map_option JStr (dc_name c)),
     (''voice'', map_option JBool (dc_voice c)), (''follow_up_mode'', map_option JStr (dc_follow_up c)),
     (''output_sample_rate'', map_option JInt (dc_rate c)), (''barge_in'', map_option JBool (dc_barge_in c)),
     (''button_actions'', map_option (enc_dict enc_action) (dc_buttons c))]"

text \<open>\<open>save_device_configs\<close>: the pipeline mode is not part of the file.\<close>

definition saved_configs :: "(string, device_config) dict \<Rightarrow> json" where
  "saved_configs configs = enc_dict enc_config configs"

end
