(* ===== verification/Wire_Frames.thy ===== *)
theory Wire_Frames
  imports Vauxr_Prelude "HOL-Library.Word"
begin

text \<open>
  \<open>protocol.py\<close> and \<open>utils.make_binary_frame\<close>: the binary frames of the device connection,
  \<open>[type][sequence, big-endian][payload]\<close>. A byte is an 8-bit word; the type and the sequence number
  are Python integers until they are written. The JSON text frames are \<open>json.loads\<close> and
  \<open>json.dumps\<close> on a whole message and are not modelled here.
\<close>

unbundle bit_operations_syntax

type_synonym byte = "8 word"

datatype range_error = Type_out_of_range int | Sequence_out_of_range int

record binary_frame =
  bf_type :: int
  bf_seq :: int
  bf_payload :: "byte list"

text \<open>\<open>FrameType\<close> and \<open>JSON_FIRST_BYTE\<close>\<close>

definition MIC_AUDIO :: int where "MIC_AUDIO = 1"
definition TTS_AUDIO :: int where "TTS_AUDIO = 2"
definition PUSH_AUDIO :: int where "PUSH_AUDIO = 3"
definition JSON_FIRST_BYTE :: byte where "JSON_FIRST_BYTE = 0x7B"

text \<open>\<open>is_text_frame\<close>\<close>

fun is_text_frame :: "byte list \<Rightarrow> bool" where
  "is_text_frame [] = False"
| "is_text_frame (b # bs) =
    (if b \<in> {0x09, 0x0A, 0x0D, 0x20} then is_text_frame bs else b = JSON_FIRST_BYTE)"

text \<open>\<open>int.from_bytes(two bytes, "big")\<close> and \<open>seq.to_bytes(2, "big")\<close>\<close>

definition of_big_endian :: "byte \<Rightarrow> byte \<Rightarrow> int" where
  "of_big_endian hi lo = uint hi * 256 + uint lo"

definition to_big_endian :: "int \<Rightarrow> byte list" where
  "to_big_endian n = [word_of_int (n div 256), word_of_int n]"

definition parse_binary_frame :: "byte list \<Rightarrow> binary_frame option" where
  "parse_binary_frame data = (case data of
     t # hi # lo # payload \<Rightarrow> Some \<lparr> bf_type = uint t, bf_seq = of_big_endian hi lo, bf_payload = payload \<rparr>
   | _ \<Rightarrow> None)"

definition make_binary_frame :: "int \<Rightarrow> int \<Rightarrow> byte list \<Rightarrow> range_error + byte list" where
  "make_binary_frame msg_type seq payload =
    (if \<not> (0 \<le> msg_type \<and> msg_type \<le> 0xFF) then Inl (Type_out_of_range msg_type)
     else if \<not> (0 \<le> seq \<and> seq \<le> 0xFFFF) then Inl (Sequence_out_of_range seq)
     else Inr ([word_of_int msg_type] @ to_big_endian seq @ payload))"

text \<open>The sequence step \<open>(seq + 1) & 0xFFFF\<close> of \<open>devices/registry.next_seq\<close> and of the cold-wake input.\<close>

definition seq_after :: "int \<Rightarrow> int" where
  "seq_after n = (n + 1) AND 0xFFFF"

lemma seq_after_mod: "seq_after n = (n + 1) mod 65536"
proof -
  have "(n + 1) AND 0xFFFF = take_bit 16 (n + 1)"
    by (simp add: take_bit_eq_mask mask_eq_exp_minus_1)
  then show ?thesis by (simp add: seq_after_def take_bit_eq_mod)
qed

lemma seq_after_range: "0 \<le> seq_after n" "seq_after n \<le> 0xFFFF"
  using pos_mod_bound [of 65536 "n + 1"] by (simp_all add: seq_after_mod)

lemma seq_after_iterate: "(seq_after ^^ k) n = (if k = 0 then n else (n + int k) mod 65536)"
proof (induction k)
  case (Suc k)
  then show ?case by (cases "k = 0") (simp_all add: seq_after_mod mod_simps algebra_simps)
qed simp

lemma big_endian_to: "0 \<le> n \<Longrightarrow> n \<le> 0xFFFF \<Longrightarrow> of_big_endian (word_of_int (n div 256)) (word_of_int n) = n"
  by (simp add: of_big_endian_def uint_word_of_int)

lemma big_endian_of: "to_big_endian (of_big_endian hi lo) = [hi, lo]"
proof -
  have l: "0 \<le> uint lo" "uint lo < 256" and h: "0 \<le> uint hi" "uint hi < 256"
    using uint_lt2p [of lo] uint_lt2p [of hi] by simp_all
  have "(uint hi * 256 + uint lo) div 256 = uint hi" using l by simp
  moreover have "word_of_int (uint hi * 256 + uint lo) = lo"
  proof -
    have "(256 :: byte) = 0" by simp
    then have "hi * 256 + lo = lo" by (metis add_0 mult_zero_right)
    then show ?thesis by simp
  qed
  ultimately show ?thesis by (simp add: to_big_endian_def of_big_endian_def)
qed

lemma parse_of_make:
  "make_binary_frame t n p = Inr bs \<Longrightarrow> parse_binary_frame bs = Some \<lparr> bf_type = t, bf_seq = n, bf_payload = p \<rparr>"
  using big_endian_to [of n]
  by (auto simp: make_binary_frame_def parse_binary_frame_def to_big_endian_def uint_word_of_int mod_pos_pos_trivial
      split: if_splits)

lemma make_of_parse:
  assumes "parse_binary_frame bs = Some f"
  shows "make_binary_frame (bf_type f) (bf_seq f) (bf_payload f) = Inr bs"
proof -
  obtain t hi lo p where bs: "bs = t # hi # lo # p" and f: "f = \<lparr> bf_type = uint t, bf_seq = of_big_endian hi lo, bf_payload = p \<rparr>"
    using assms by (auto simp: parse_binary_frame_def split: list.splits)
  have b: "0 \<le> uint x \<and> uint x \<le> 255" for x :: byte
    using uint_lt2p [of x] by simp
  then have "0 \<le> of_big_endian hi lo" "of_big_endian hi lo \<le> 65535"
    using b [of hi] b [of lo] unfolding of_big_endian_def by linarith+
  then show ?thesis
    using b [of t] big_endian_of [of hi lo] by (simp add: make_binary_frame_def bs f)
qed

text \<open>C10: the binary frame codec loses nothing, in both directions: parsing a built frame gives back type,
  sequence and payload, every byte string of at least three bytes is the frame built from its parse, and
  only shorter ones are dropped.\<close>

theorem frame_roundtrip:
  "(\<forall>t n p bs. make_binary_frame t n p = Inr bs \<longrightarrow> parse_binary_frame bs = Some \<lparr> bf_type = t, bf_seq = n, bf_payload = p \<rparr>)
   \<and> (\<forall>bs f. parse_binary_frame bs = Some f \<longrightarrow> make_binary_frame (bf_type f) (bf_seq f) (bf_payload f) = Inr bs)
   \<and> (\<forall>bs. parse_binary_frame bs = None \<longleftrightarrow> length bs < 3)"
proof (intro conjI allI impI)
  fix bs
  show "parse_binary_frame bs = None \<longleftrightarrow> length bs < 3"
    by (cases bs; cases "tl bs"; cases "tl (tl bs)") (auto simp: parse_binary_frame_def)
qed (simp_all add: parse_of_make make_of_parse)

theorem frame_roundtrip_witness:
  "parse_binary_frame [2, 1, 2, 9, 8] = Some \<lparr> bf_type = 2, bf_seq = 258, bf_payload = [9, 8] \<rparr>
   \<and> make_binary_frame 2 258 [9, 8] = Inr [2, 1, 2, 9, 8]"
proof -
  have p: "parse_binary_frame [2, 1, 2, 9, 8] = Some \<lparr> bf_type = 2, bf_seq = 258, bf_payload = [9, 8] \<rparr>"
    by (simp add: parse_binary_frame_def of_big_endian_def)
  then show ?thesis using frame_roundtrip by fastforce
qed

end
