(* ===== verification/Device_Registry.thy ===== *)
theory Device_Registry
  imports Device_Config Wire_Frames
begin

text \<open>
  \<open>devices/registry.py\<close>: the live connections and the settings of the devices, routed through
  \<open>devices.json\<close> and, for the pipeline mode, through the speech selections. A socket and an
  \<open>asyncio.Event\<close> are opaque identities; setting an event adds it to \<open>dv_aborted\<close>. The write
  outcomes of both files come from the one list of the speech state.
\<close>

datatype connection_state = Idle | Listening | Processing | Speaking | Offline

record device_entry =
  de_id :: string
  de_name :: string
  de_ws :: nat
  de_state :: connection_state
  de_last_seen :: time
  de_seq :: int
  de_abort :: "nat option"
  de_config :: device_config
  de_rate :: "int option"
  de_platform :: "string option"
  de_fw :: "string option"

record device_world = speech_state +
  dv_file :: doc_file
  dv_configs :: "(string, device_config) dict"
  dv_loaded :: bool
  dv_entries :: "(string, device_entry) dict"
  dv_now :: time
  dv_aborted :: "nat set"

type_synonym 'a device_op = "(device_world, exn, 'a) action"

section \<open>Settings\<close>

text \<open>\<open>{**c, **d}\<close> on device settings.\<close>

definition orelse :: "'a option \<Rightarrow> 'a option \<Rightarrow> 'a option" where
  "orelse x y = (case x of None \<Rightarrow> y | Some _ \<Rightarrow> x)"

definition merge_config :: "device_config \<Rightarrow> device_config \<Rightarrow> device_config" where
  "merge_config c d = \<lparr> dc_pipeline = orelse (dc_pipeline d) (dc_pipeline c),
     dc_transport = orelse (dc_transport d) (dc_transport c), dc_name = orelse (dc_name d) (dc_name c),
     dc_voice = orelse (dc_voice d) (dc_voice c), dc_follow_up = orelse (dc_follow_up d) (dc_follow_up c),
     dc_rate = orelse (dc_rate d) (dc_rate c), dc_barge_in = orelse (dc_barge_in d) (dc_barge_in c),
     dc_buttons = orelse (dc_buttons d) (dc_buttons c) \<rparr>"

text \<open>Python equality of two settings dictionaries and of two maps of them.\<close>

definition same_dict :: "('v \<Rightarrow> 'v \<Rightarrow> bool) \<Rightarrow> (string, 'v) dict \<Rightarrow> (string, 'v) dict \<Rightarrow> bool" where
  "same_dict eq a b \<longleftrightarrow> length a = length b
     \<and> list_all (\<lambda>(k, v). case dict_get b k of None \<Rightarrow> False | Some w \<Rightarrow> eq v w) a"

definition same_config :: "device_config \<Rightarrow> device_config \<Rightarrow> bool" where
  "same_config c d \<longleftrightarrow> c\<lparr>dc_buttons := None\<rparr> = d\<lparr>dc_buttons := None\<rparr>
     \<and> (case (dc_buttons c, dc_buttons d) of
          (None, None) \<Rightarrow> True
        | (Some a, Some b) \<Rightarrow> same_dict (=) a b
        | _ \<Rightarrow> False)"

text \<open>\<open>_ensure_configs_loaded\<close> and \<open>load_configs\<close>\<close>

definition ensure_configs_loaded :: "unit device_op" where
  "ensure_configs_loaded = bnd (reads (\<lambda>w. w)) (\<lambda>w. when_do (\<not> dv_loaded w)
     (bnd (lift_result (load_device_configs (dv_file w))) (\<lambda>cs. modifies (\<lambda>w. w\<lparr>dv_configs := cs, dv_loaded := True\<rparr>))))"

definition load_configs :: "bool \<Rightarrow> unit device_op" where
  "load_configs strict =
     bnd (if strict
          then (\<lambda>w. case load_strict (next_outcome w) (dv_file w) of
                  (r, f) \<Rightarrow> (r, w\<lparr>dv_file := f, ss_faults := (if doc_exists (dv_file w) then ss_faults w else tl (ss_faults w))\<rparr>))
          else (\<lambda>w. (load_device_configs (dv_file w), w)))
         (\<lambda>cs. modifies (\<lambda>w. w\<lparr>dv_configs := cs, dv_loaded := True\<rparr>))"

text \<open>\<open>get_config_for\<close>, once the settings are loaded; the validated mode is a string.\<close>

definition config_of :: "device_world \<Rightarrow> string \<Rightarrow> device_config" where
  "config_of w device = (case dict_get (dv_configs w) device of None \<Rightarrow> no_config | Some c \<Rightarrow> c)"

definition config_for :: "device_world \<Rightarrow> string \<Rightarrow> exn + device_config" where
  "config_for w device =
    (case voice_settings w device of
       Inl e \<Rightarrow> Inl e
     | Inr v \<Rightarrow>
         if vv_mode v = JStr ''realtime'' \<or> has_key (override_of w device) ''mode''
         then Inr ((config_of w device)\<lparr>dc_pipeline := Some (str_value (vv_mode v))\<rparr>)
         else Inr (config_of w device))"

definition get_config_for :: "string \<Rightarrow> device_config device_op" where
  "get_config_for device = andthen ensure_configs_loaded (bnd (reads (\<lambda>w. config_for w device)) lift_result)"

definition save_configs :: "(string, device_config) dict \<Rightarrow> unit device_op" where
  "save_configs configs = (\<lambda>w. case write_json (next_outcome w) (dv_file w) (saved_configs configs) of
     (r, f) \<Rightarrow> (r, w\<lparr>dv_file := f, ss_faults := tl (ss_faults w)\<rparr>))"

text \<open>\<open>entry.config = ...\<close> for a device that is connected\<close>

definition refresh_entry :: "string \<Rightarrow> device_config \<Rightarrow> unit device_op" where
  "refresh_entry device cfg = modifies (\<lambda>w. case dict_get (dv_entries w) device of
     None \<Rightarrow> w
   | Some e \<Rightarrow> w\<lparr>dv_entries := dict_put device (e\<lparr>de_config := cfg\<rparr>) (dv_entries w)\<rparr>)"

definition set_config :: "string \<Rightarrow> device_config \<Rightarrow> device_world \<Rightarrow> device_world" where
  "set_config device cfg w = w\<lparr>dv_configs := dict_put device cfg (dv_configs w)\<rparr>"

definition mode_patch :: "string option \<Rightarrow> json" where
  "mode_patch mode = JObj [(''mode'', case mode of None \<Rightarrow> JNull | Some m \<Rightarrow> JStr m)]"

text \<open>\<open>speech.devices.get(device_id, {}).get("mode")\<close>\<close>

definition previous_mode :: "device_world \<Rightarrow> string \<Rightarrow> string option" where
  "previous_mode w device = (case jget (override_of w device) ''mode'' of Some (JStr m) \<Rightarrow> Some m | _ \<Rightarrow> None)"

text \<open>The \<open>except OSError\<close> of \<open>update_config\<close>.\<close>

definition after_save_error :: "string \<Rightarrow> device_config \<Rightarrow> string option \<Rightarrow> device_config \<Rightarrow> (string, device_config) dict \<Rightarrow> unit device_op" where
  "after_save_error device patch previous cfg updated =
     bnd (reads dv_file) (\<lambda>f. bnd (lift_result (load_device_configs f)) (\<lambda>committed.
     andthen
       (if same_dict same_config committed updated then modifies (set_config device cfg)
        else when_do (dc_pipeline patch \<noteq> None) (update_speech (mode_patch previous) (Some device)))
     (andthen (bnd (reads (\<lambda>w. dict_get (dv_entries w) device)) (\<lambda>entry.
        case entry of None \<Rightarrow> ret () | Some _ \<Rightarrow> bnd (get_config_for device) (refresh_entry device)))
     (raise OSError))))"

definition update_config :: "string \<Rightarrow> device_config \<Rightarrow> device_config device_op" where
  "update_config device patch =
     andthen ensure_configs_loaded
     (bnd (reads (\<lambda>w. previous_mode w device)) (\<lambda>previous.
      andthen (case dc_pipeline patch of None \<Rightarrow> ret () | Some m \<Rightarrow> update_speech (mode_patch (Some m)) (Some device))
      (bnd (reads (\<lambda>w. (merge_config (config_of w device) (patch\<lparr>dc_pipeline := None\<rparr>), dv_configs w))) (\<lambda>(cfg, configs).
       andthen (try_except (save_configs (dict_put device cfg configs))
                  (\<lambda>e. if e = OSError then after_save_error device patch previous cfg (dict_put device cfg configs) else raise e))
       (andthen (modifies (set_config device cfg))
       (bnd (get_config_for device) (\<lambda>result. andthen (refresh_entry device result) (ret result))))))))"


section \<open>Connections\<close>

text \<open>\<open>abort_active_turn\<close>\<close>

definition abort_active_turn :: "string \<Rightarrow> device_world \<Rightarrow> device_world" where
  "abort_active_turn device w = (case dict_get (dv_entries w) device of
     None \<Rightarrow> w
   | Some e \<Rightarrow> (case de_abort e of
       None \<Rightarrow> w
     | Some ev \<Rightarrow> w\<lparr>dv_aborted := insert ev (dv_aborted w), dv_entries := dict_put device (e\<lparr>de_abort := None\<rparr>) (dv_entries w)\<rparr>))"

definition name_or :: "string option \<Rightarrow> string option \<Rightarrow> string option" where
  "name_or x y = (case x of Some s \<Rightarrow> if s = [] then y else x | None \<Rightarrow> y)"

definition new_entry :: "string \<Rightarrow> nat \<Rightarrow> string option \<Rightarrow> device_config \<Rightarrow> device_entry option \<Rightarrow> time \<Rightarrow> device_entry" where
  "new_entry device ws name cfg prev now =
     \<lparr> de_id = device,
       de_name = (case name_or name (name_or (dc_name cfg) (name_or (map_option de_name prev) None)) of
                    None \<Rightarrow> device | Some n \<Rightarrow> n),
       de_ws = ws, de_state = Idle, de_last_seen = now, de_seq = 0, de_abort = None, de_config = cfg,
       de_rate = (case prev of None \<Rightarrow> None | Some p \<Rightarrow> de_rate p),
       de_platform = (case prev of None \<Rightarrow> None | Some p \<Rightarrow> de_platform p),
       de_fw = (case prev of None \<Rightarrow> None | Some p \<Rightarrow> de_fw p) \<rparr>"

definition register_device :: "string \<Rightarrow> nat \<Rightarrow> string option \<Rightarrow> device_entry device_op" where
  "register_device device ws name =
     andthen (modifies (abort_active_turn device))
     (andthen ensure_configs_loaded
     (bnd (get_config_for device) (\<lambda>cfg.
      bnd (reads (\<lambda>w. new_entry device ws name cfg (dict_get (dv_entries w) device) (dv_now w))) (\<lambda>e.
      andthen (modifies (\<lambda>w. w\<lparr>dv_entries := dict_put device e (dv_entries w)\<rparr>)) (ret e)))))"

definition unregister_device :: "string \<Rightarrow> nat option \<Rightarrow> device_world \<Rightarrow> device_world" where
  "unregister_device device ws w = (case dict_get (dv_entries w) device of
     None \<Rightarrow> w
   | Some e \<Rightarrow>
       if ws \<noteq> None \<and> ws \<noteq> Some (de_ws e) then w
       else (let v = abort_active_turn device w in v\<lparr>dv_entries := dict_pop device (dv_entries v)\<rparr>))"

definition change_entry :: "string \<Rightarrow> (device_entry \<Rightarrow> device_entry) \<Rightarrow> device_world \<Rightarrow> device_world" where
  "change_entry device f w = (case dict_get (dv_entries w) device of
     None \<Rightarrow> w
   | Some e \<Rightarrow> w\<lparr>dv_entries := dict_put device (f e) (dv_entries w)\<rparr>)"

definition set_hello_info :: "string \<Rightarrow> string option \<Rightarrow> string option \<Rightarrow> device_world \<Rightarrow> device_world" where
  "set_hello_info device platform fw = change_entry device (\<lambda>e.
     e\<lparr>de_platform := name_or platform (de_platform e), de_fw := name_or fw (de_fw e)\<rparr>)"

definition set_state :: "string \<Rightarrow> connection_state \<Rightarrow> device_world \<Rightarrow> device_world" where
  "set_state device st w = change_entry device (\<lambda>e. e\<lparr>de_state := st, de_last_seen := dv_now w\<rparr>) w"

text \<open>\<open>isinstance(raw, (int, float)) and raw > 0\<close>, where a boolean is an int, then \<open>int(raw)\<close>.\<close>

definition announced_rate :: "json \<Rightarrow> exn + int option" where
  "announced_rate v = (case v of JBool b \<Rightarrow> Inr (if b then Some 1 else None) | _ \<Rightarrow> positive_rate v)"

definition platform_rate :: "string \<Rightarrow> int option" where
  "platform_rate p = (if p = ''satellite1'' then Some 48000 else if p = ''waveshare'' then Some 16000 else None)"

definition resolve_output_sample_rate :: "json \<Rightarrow> device_config option \<Rightarrow> string option \<Rightarrow> exn + int option" where
  "resolve_output_sample_rate msg config platform =
    (let raw = (if truthy (jat msg ''output_sample_rate'') then jat msg ''output_sample_rate'' else jat msg ''sample_rate'') in
     case announced_rate raw of
       Inl e \<Rightarrow> Inl e
     | Inr (Some n) \<Rightarrow> Inr (Some n)
     | Inr None \<Rightarrow>
         (case (case config of None \<Rightarrow> None | Some c \<Rightarrow> dc_rate c) of
            Some n \<Rightarrow> if 0 < n then Inr (Some n) else Inr (case platform of None \<Rightarrow> None | Some p \<Rightarrow> platform_rate p)
          | None \<Rightarrow> Inr (case platform of None \<Rightarrow> None | Some p \<Rightarrow> platform_rate p)))"

definition apply_output_sample_rate :: "string \<Rightarrow> json \<Rightarrow> string option \<Rightarrow> int option device_op" where
  "apply_output_sample_rate device msg platform =
     bnd (reads (\<lambda>w. dict_get (dv_entries w) device)) (\<lambda>entry. case entry of
       None \<Rightarrow> ret None
     | Some e \<Rightarrow>
         bnd (lift_result (resolve_output_sample_rate msg (Some (de_config e)) (orelse platform (de_platform e)))) (\<lambda>rate.
         andthen (case rate of None \<Rightarrow> ret () | Some _ \<Rightarrow> modifies (change_entry device (\<lambda>e. e\<lparr>de_rate := rate\<rparr>)))
                 (ret rate)))"

text \<open>\<open>next_seq\<close>: the new number and the world it is stored in; 0 for an unknown device.\<close>

definition next_seq :: "string \<Rightarrow> device_world \<Rightarrow> int \<times> device_world" where
  "next_seq device w = (case dict_get (dv_entries w) device of
     None \<Rightarrow> (0, w)
   | Some e \<Rightarrow> (let n = seq_after (de_seq e) in
       (n, w\<lparr>dv_entries := dict_put device (e\<lparr>de_seq := n\<rparr>) (dv_entries w)\<rparr>)))"

end
