(* ===== verification/Speech_Laws.thy ===== *)
theory Speech_Laws
  imports Speech_Store
begin

text \<open>
  What a loaded \<open>speech.json\<close> guarantees (every device resolves to a usable selection) and what an
  update does to the file and to the snapshot in memory, whichever way it ends.
\<close>

section \<open>Loading\<close>

type_synonym speech_parts = "(string, backend) dict \<times> json \<times> json"

definition parts_of :: "'z speech_state_scheme \<Rightarrow> speech_parts" where
  "parts_of s = (ss_backends s, ss_defaults s, ss_devices s)"

definition set_parts :: "speech_parts \<Rightarrow> 'z speech_state_scheme \<Rightarrow> 'z speech_state_scheme" where
  "set_parts P s = (case P of (B, defaults, devices) \<Rightarrow>
     s\<lparr>ss_backends := B, ss_defaults := defaults, ss_devices := devices\<rparr>)"

text \<open>What \<open>_load\<close> does as a function of the document: the parts it assigns, and its verdict on them.\<close>

definition document_parts :: "json \<Rightarrow> exn + speech_parts" where
  "document_parts data =
    (if bad_header data then Inl (ConfigError ''$'')
     else case parse_backends (jat data ''providers'') of
       Inl e \<Rightarrow> Inl e
     | Inr bs \<Rightarrow> Inr (map (\<lambda>b. (bk_id b, b)) bs, jat data ''defaults'', jat data ''devices''))"

definition parts_error :: "speech_parts \<Rightarrow> exn option" where
  "parts_error P = (case P of (B, defaults, devices) \<Rightarrow>
     if \<not> is_obj defaults \<or> \<not> is_obj devices then Some (ConfigError ''defaults/devices'')
     else case validate_settings B defaults ''defaults'' False of
       Some e \<Rightarrow> Some e
     | None \<Rightarrow> validate_devices B defaults (map snd (obj_pairs devices)))"

lemma run_raise_some [action_simps]: "raise_some e s = ((case e of None \<Rightarrow> Inr () | Some x \<Rightarrow> Inl x), s)"
  by (simp add: raise_some_def ret_def raise_def split: option.split)

lemma load_speech_run:
  "load_speech data s = (case document_parts data of
     Inl e \<Rightarrow> (Inl e, s)
   | Inr P \<Rightarrow> (case parts_error P of Some e \<Rightarrow> (Inl e, set_parts P s) | None \<Rightarrow> (Inr (), set_parts P s)))"
proof (cases "bad_header data")
  case True
  then show ?thesis by (simp add: load_speech_def document_parts_def action_simps)
next
  case False
  then show ?thesis
    by (cases "parse_backends (jat data ''providers'')")
      (simp_all add: load_speech_def document_parts_def parts_error_def set_parts_def action_simps split: option.split)
qed

text \<open>A document is accepted with its parts.\<close>

definition accepted :: "json \<Rightarrow> speech_parts \<Rightarrow> bool" where
  "accepted data P \<longleftrightarrow> document_parts data = Inr P \<and> parts_error P = None"

lemma load_speech_accepted: "load_speech data s = (Inr (), t) \<longleftrightarrow> (\<exists>P. accepted data P \<and> t = set_parts P s)"
  by (auto simp: load_speech_run accepted_def split: sum.split option.split)

lemma load_speech_rejected: "load_speech data s = (Inl e, t) \<Longrightarrow> \<not> accepted data P"
  by (auto simp: load_speech_run accepted_def split: sum.splits option.splits)

lemma parts_of_set_parts [simp]: "parts_of (set_parts P s) = P"
  by (simp add: parts_of_def set_parts_def split: prod.split)

lemma set_parts_file [simp]: "ss_file (set_parts P s) = ss_file s" "ss_faults (set_parts P s) = ss_faults s"
  by (simp_all add: set_parts_def split: prod.split)

section \<open>What an accepted document guarantees\<close>

text \<open>The registry of providers: every entry is valid and stored under its own ID.\<close>

definition sound_registry :: "(string, backend) dict \<Rightarrow> bool" where
  "sound_registry B \<longleftrightarrow> (\<forall>i b. dict_get B i = Some b \<longrightarrow> bk_id b = i \<and> validate_backend b)"

lemma accepted_registry:
  assumes "accepted data (B, defaults, devices)"
  shows "sound_registry B"
proof -
  obtain bs where bs: "parse_backends (jat data ''providers'') = Inr bs" "B = map (\<lambda>b. (bk_id b, b)) bs"
    using assms by (auto simp: accepted_def document_parts_def split: if_splits sum.splits)
  then have "bk_id b = i \<and> validate_backend b" if "dict_get B i = Some b" for i b
    using parse_backends_valid(1) [OF bs(1)] dict_get_in [OF that] by (auto simp: list_all_iff)
  then show ?thesis by (simp add: sound_registry_def)
qed

definition sound_settings :: "(string, backend) dict \<Rightarrow> json \<Rightarrow> bool \<Rightarrow> bool" where
  "sound_settings B settings override \<longleftrightarrow>
     (\<forall>k kind v. (k, kind) \<in> set reference_keys \<longrightarrow> jget settings k = Some v \<longrightarrow> references B v kind)
     \<and> is_obj (get_or settings ''voices'' (JObj []))
     \<and> (\<forall>p v. jget (get_or settings ''voices'' (JObj [])) p = Some v \<longrightarrow> voice_belongs B (p, v))
     \<and> (\<forall>v. jget settings ''mode'' = Some v \<longrightarrow> v = JStr ''standard'' \<or> v = JStr ''realtime'')
     \<and> (\<not> override \<longrightarrow> (\<forall>k \<in> {''stt_backend'', ''tts_backend'', ''voices'', ''mode''}. jget settings k \<noteq> None))"

lemma jget_pairs: "jget j k = Some v \<Longrightarrow> (k, v) \<in> set (obj_pairs j)"
  by (cases j) (auto dest: map_of_SomeD)

lemma validate_settings_sound:
  assumes "validate_settings B settings field override = None"
  shows "sound_settings B settings override"
proof -
  let ?voices = "get_or settings ''voices'' (JObj [])"
  have f: "find (\<lambda>(k, kind). has_key settings k \<and> \<not> references B (jat settings k) kind) reference_keys = None"
    and o: "\<not> override \<longrightarrow> list_all (has_key settings) [''stt_backend'', ''tts_backend'', ''voices'', ''mode'']"
    and m: "has_key settings ''mode'' \<longrightarrow> str_among (jat settings ''mode'') [''standard'', ''realtime'']"
    and v: "is_obj ?voices" "list_all (voice_belongs B) (obj_pairs ?voices)"
    using assms by (auto simp: validate_settings_def Let_def split: if_splits option.splits)
  have "references B v kind" if "(k, kind) \<in> set reference_keys" "jget settings k = Some v" for k kind v
    using f that by (fastforce simp: find_None_iff has_key_jget jat_def)
  moreover have "voice_belongs B (p, w)" if "jget ?voices p = Some w" for p w
    using v(2) jget_pairs [OF that] by (auto simp: list_all_iff)
  moreover have "w = JStr ''standard'' \<or> w = JStr ''realtime''" if "jget settings ''mode'' = Some w" for w
    using m that by (auto simp: has_key_jget jat_def dest!: str_among_value)
  ultimately show ?thesis
    using v(1) o by (auto simp: sound_settings_def has_key_jget)
qed

lemma validate_devices_in:
  "validate_devices B defaults rows = None \<Longrightarrow> row \<in> set rows \<Longrightarrow>
   validate_settings B row ''devices.*'' True = None \<and> validate_effective B (merged defaults row) ''devices.*'' = None"
  by (induction B defaults rows rule: validate_devices.induct) (auto split: option.splits)

lemma merged_empty [simp]: "is_obj defaults \<Longrightarrow> merged defaults (JObj []) = defaults"
  by (cases defaults) (simp_all add: merged_def)


text \<open>The settings in force for a device: its override row, when it has one, and the merged settings.\<close>

lemma accepted_settings:
  assumes "accepted data (B, defaults, devices)"
  shows "sound_settings B defaults False" and "sound_settings B (get_or devices d (JObj [])) True"
    and "\<exists>field. validate_effective B (merged defaults (get_or devices d (JObj []))) field = None"
proof -
  have o: "is_obj defaults" and v: "validate_settings B defaults ''defaults'' False = None"
    and dv: "validate_devices B defaults (map snd (obj_pairs devices)) = None"
    using assms by (auto simp: accepted_def parts_error_def split: if_splits option.splits)
  show "sound_settings B defaults False" using validate_settings_sound [OF v] .
  have e: "validate_effective B defaults ''defaults'' = None"
    using v by (simp add: validate_settings_def Let_def split: if_splits option.splits prod.splits)
  show "sound_settings B (get_or devices d (JObj [])) True"
  proof (cases "jget devices d")
    case None
    then show ?thesis by (simp add: get_or_def sound_settings_def)
  next
    case (Some row)
    then have "row \<in> set (map snd (obj_pairs devices))" using jget_pairs by force
    then have "sound_settings B row True" using validate_devices_in [OF dv] validate_settings_sound by blast
    then show ?thesis using Some by (simp add: get_or_def)
  qed
  show "\<exists>field. validate_effective B (merged defaults (get_or devices d (JObj []))) field = None"
  proof (cases "jget devices d")
    case None
    then show ?thesis using e o by (auto simp: get_or_def)
  next
    case (Some row)
    then have "row \<in> set (map snd (obj_pairs devices))" using jget_pairs by force
    then show ?thesis using Some validate_devices_in [OF dv] by (auto simp: get_or_def)
  qed
qed

lemma references_lookup:
  "references B v kind \<Longrightarrow> \<exists>b. lookup_backend B v = Inr b \<and> bk_kind b = kind \<and> dict_get B (bk_id b) = Some b \<or> \<not> sound_registry B"
  by (auto simp: references_def lookup_backend_def sound_registry_def split: json.splits option.splits)

lemma pick_backend_sound:
  assumes "sound_registry (ss_backends s)" and "sound_settings (ss_backends s) (ss_defaults s) False"
    and "sound_settings (ss_backends s) override True" and "(k, kind) \<in> set reference_keys" and "k \<in> {''stt_backend'', ''tts_backend''}"
  obtains b where "pick_backend s override k = Inr b" and "bk_kind b = kind" and "dict_get (ss_backends s) (bk_id b) = Some b"
proof -
  obtain d where d: "jget (ss_defaults s) k = Some d"
    using assms(2,5) by (auto simp: sound_settings_def)
  then have "references (ss_backends s) (get_or override k d) kind"
    using assms(2-4) by (auto simp: sound_settings_def get_or_def split: option.split)
  then show ?thesis
    using references_lookup assms(1) d that by (fastforce simp: pick_backend_def)
qed

lemma pick_voice_sound:
  assumes "sound_registry (ss_backends s)" and "sound_settings (ss_backends s) (ss_defaults s) False"
    and "sound_settings (ss_backends s) override True"
    and b: "dict_get (ss_backends s) (bk_id b) = Some b" "bk_kind b = ''tts''"
  obtains v where "pick_voice s override b = Inr (JStr v)" and "v \<in> set (bk_voices b)"
proof -
  obtain shared where sh: "jget (ss_defaults s) ''voices'' = Some shared" and so: "is_obj shared"
    using assms(2) by (auto simp: sound_settings_def get_or_def split: option.splits)
  have ne: "bk_voices b \<noteq> []" using assms(1) b by (auto simp: sound_registry_def validate_backend_def)
  have belongs: "str_among v (bk_voices b)"
    if "jget (get_or o' ''voices'' (JObj [])) (bk_id b) = Some v" "sound_settings (ss_backends s) o' w" for o' v w
    using that b by (fastforce simp: sound_settings_def voice_belongs_def)
  let ?v = "get_or (get_or override ''voices'' (JObj [])) (bk_id b) (get_or shared (bk_id b) (JStr (hd (bk_voices b))))"
  have "str_among ?v (bk_voices b)"
    using belongs [OF _ assms(3)] belongs [OF _ assms(2)] ne sh
    by (auto simp: get_or_def split: option.split)
  moreover have "pick_voice s override b = Inr ?v"
    using assms(3) sh so ne by (simp add: pick_voice_def sound_settings_def Let_def)
  ultimately show ?thesis using that by (auto dest!: str_among_value)
qed

definition usable_selection :: "'z speech_state_scheme \<Rightarrow> selection \<Rightarrow> bool" where
  "usable_selection s sel \<longleftrightarrow>
     dict_get (ss_backends s) (bk_id (sel_stt sel)) = Some (sel_stt sel) \<and> bk_kind (sel_stt sel) = ''stt''
     \<and> dict_get (ss_backends s) (bk_id (sel_tts sel)) = Some (sel_tts sel) \<and> bk_kind (sel_tts sel) = ''tts''
     \<and> sel_voice sel \<in> set (bk_voices (sel_tts sel))"

lemma resolve_loaded:
  assumes "accepted data (parts_of s)"
  shows "\<exists>sel. resolve_speech s d = Inr sel \<and> usable_selection s sel"
proof -
  have a: "accepted data (ss_backends s, ss_defaults s, ss_devices s)" using assms by (simp add: parts_of_def)
  note R = accepted_registry [OF a] and D = accepted_settings(1) [OF a]
  have O: "sound_settings (ss_backends s) (override_of s d) True"
    using accepted_settings(2) [OF a] by (simp add: override_of_def)
  obtain stt where stt: "pick_backend s (override_of s d) ''stt_backend'' = Inr stt" "bk_kind stt = ''stt''"
    "dict_get (ss_backends s) (bk_id stt) = Some stt"
    by (rule pick_backend_sound [OF R D O, of "''stt_backend''" "''stt''"]) (simp_all add: reference_keys_def)
  obtain tts where tts: "pick_backend s (override_of s d) ''tts_backend'' = Inr tts" "bk_kind tts = ''tts''"
    "dict_get (ss_backends s) (bk_id tts) = Some tts"
    by (rule pick_backend_sound [OF R D O, of "''tts_backend''" "''tts''"]) (simp_all add: reference_keys_def)
  obtain v where "pick_voice s (override_of s d) tts = Inr (JStr v)" "v \<in> set (bk_voices tts)"
    by (rule pick_voice_sound [OF R D O tts(3,2)])
  then show ?thesis
    using stt tts by (simp add: resolve_speech_def usable_selection_def Let_def)
qed

text \<open>Merging and updating objects.\<close>

lemma jget_obj [simp]: "jget (JObj kvs) k = dict_get kvs k"
  by (simp add: dict_get_def)

lemma jget_is_pairs: "is_obj j \<Longrightarrow> jget j k = dict_get (obj_pairs j) k"
  by (cases j) (simp_all add: dict_get_def)

lemma dict_get_fold_put:
  "is_dict d \<Longrightarrow> dict_get (fold (\<lambda>(k, v). dict_put k v) d e) k = (case dict_get d k of None \<Rightarrow> dict_get e k | Some v \<Rightarrow> Some v)"
proof (induction d arbitrary: e)
  case (Cons kv d)
  obtain k' v where kv: "kv = (k', v)" by (cases kv)
  then have "dict_get d k' = None" "is_dict d"
    using Cons.prems by (auto simp: is_dict_def dict_get_None dict_keys_def)
  moreover have "dict_get (kv # d) k = (if k = k' then Some v else dict_get d k)"
    by (simp add: kv dict_get_def)
  ultimately show ?case using Cons.IH kv by (auto split: option.split)
qed (simp add: dict_get_def)

lemma is_dict_fold_put: "is_dict e \<Longrightarrow> is_dict (fold (\<lambda>(k, v). dict_put k v) d e)"
  by (induction d arbitrary: e) auto

lemma jget_merged:
  "is_obj a \<Longrightarrow> is_dict (obj_pairs b) \<Longrightarrow>
   jget (merged a b) k = (case dict_get (obj_pairs b) k of None \<Rightarrow> jget a k | Some v \<Rightarrow> Some v)"
  unfolding merged_def jget_obj jget_is_pairs [of a] by (simp add: dict_get_fold_put)

lemma unique_pairs: "unique_json j \<Longrightarrow> is_dict (obj_pairs j)"
  by (cases j) (simp_all add: is_dict_def dict_keys_def)

lemma unique_get_or: "unique_json j \<Longrightarrow> unique_json d \<Longrightarrow> unique_json (get_or j k d)"
  by (cases j) (auto simp: get_or_def dict_get_def split: option.splits dest!: map_of_SomeD)

text \<open>A device in realtime mode has a realtime provider and one of its voices.\<close>

lemma voice_settings_loaded:
  assumes a: "accepted data (parts_of s)" and u: "unique_json (ss_devices s)"
  shows "\<exists>v. voice_settings s d = Inr v \<and> vv_mode v \<in> {JStr ''standard'', JStr ''realtime''}
    \<and> (vv_mode v = JStr ''realtime'' \<longrightarrow>
        (\<exists>b. dict_get (ss_backends s) (vv_backend v) = Some b \<and> bk_kind b = ''realtime''
           \<and> vv_model v = bk_model b \<and> str_among (vv_voice v) (bk_voices b)))"
proof -
  let ?B = "ss_backends s" and ?d = "ss_defaults s" and ?o = "override_of s d"
  have a': "accepted data (?B, ?d, ss_devices s)" using a by (simp add: parts_of_def)
  have obj: "is_obj ?d" using a' by (auto simp: accepted_def parts_error_def split: if_splits)
  have dict: "is_dict (obj_pairs ?o)"
    unfolding override_of_def by (rule unique_pairs, rule unique_get_or [OF u]) simp
  define m where "m = merged ?d ?o"
  have o: "sound_settings ?B ?o True" using accepted_settings(2) [OF a'] by (simp add: override_of_def)
  have ds: "sound_settings ?B ?d False" using accepted_settings(1) [OF a'] .
  have get: "jget m k = (case jget ?o k of None \<Rightarrow> jget ?d k | Some v \<Rightarrow> Some v)" for k
    using jget_merged [OF obj dict] by (cases "is_obj ?o"; cases ?o) (simp_all add: m_def dict_get_def)
  obtain mode where mode: "jget m ''mode'' = Some mode" "mode \<in> {JStr ''standard'', JStr ''realtime''}"
    using o ds get [of "''mode''"] by (cases "jget ?o ''mode''") (auto simp: sound_settings_def)
  have ref: "references ?B v ''realtime''" if "jget m ''realtime_backend'' = Some v" for v
    using o ds get [of "''realtime_backend''"] that
    by (cases "jget ?o ''realtime_backend''") (auto simp: sound_settings_def reference_keys_def)
  obtain field where eff: "validate_effective ?B m field = None"
    using accepted_settings(3) [OF a', of d] by (auto simp: m_def override_of_def)
  show ?thesis
  proof (cases "jget m ''realtime_backend''")
    case None
    then have "mode \<noteq> JStr ''realtime''"
      using eff mode by (auto simp: validate_effective_def jat_def)
    then show ?thesis
      using None mode by (auto simp: voice_settings_def get_or_def Let_def simp flip: m_def)
  next
    case (Some p)
    then obtain i b where b: "p = JStr i" "dict_get ?B i = Some b" "bk_kind b = ''realtime''"
      using ref by (auto simp: references_def split: json.splits option.splits)
    then have i: "bk_id b = i" "i \<noteq> []"
      using accepted_registry [OF a'] by (auto simp: sound_registry_def validate_backend_def)
    then have "str_among (jat m ''realtime_voice'') (bk_voices b)"
      using eff Some b by (auto simp: validate_effective_def jat_def [of m "''realtime_backend''"] split: if_splits)
    then show ?thesis
      using Some mode b i by (auto simp: voice_settings_def get_or_def jat_def str_among_def Let_def simp flip: m_def split: option.splits)
  qed
qed



section \<open>What an update leaves on disk and in memory\<close>

lemma update_json_outcome:
  assumes "update_json oc change (Doc j) = (r, g, wrote)" and "unique_json j"
  shows "(\<exists>e. r = Inl e \<and> g = Doc j) \<or> (\<exists>result. change j = Inr result \<and>
     (r = Inl OSError \<and> g = Doc result \<or> r = Inr result \<and> g = Doc result
      \<or> r = Inr result \<and> g = Doc j \<and> same_json result j))"
proof (cases "change j")
  case (Inl e)
  then show ?thesis using assms
    by (auto simp: update_json_def doc_exists_def read_json_def split: if_splits dest: sym)
next
  case (Inr result)
  then show ?thesis using assms
    by (cases oc) (auto simp: update_json_def doc_exists_def read_json_def write_json_def split: if_splits)
qed

lemma unique_put_key: "unique_json j \<Longrightarrow> unique_json v \<Longrightarrow> unique_json (put_key k v j)"
proof -
  assume j: "unique_json j" and v: "unique_json v"
  have "is_dict (dict_put k v (obj_pairs j))" using unique_pairs [OF j] by simp
  moreover have "\<forall>kv \<in> set (obj_pairs j). unique_json (snd kv)" using j by (cases j) auto
  then have "\<forall>kv \<in> set (dict_put k v (obj_pairs j)). unique_json (snd kv)"
    using v set_dict_put [of k v "obj_pairs j"] by fastforce
  ultimately show ?thesis by (simp add: put_key_def is_dict_def dict_keys_def)
qed

lemma unique_pop_key: "unique_json j \<Longrightarrow> unique_json (pop_key k j)"
proof -
  assume j: "unique_json j"
  have "is_dict (dict_pop k (obj_pairs j))" using unique_pairs [OF j] by simp
  moreover have "\<forall>kv \<in> set (obj_pairs j). unique_json (snd kv)" using j by (cases j) auto
  then have "\<forall>kv \<in> set (dict_pop k (obj_pairs j)). unique_json (snd kv)"
    by (auto simp: set_dict_pop)
  ultimately show ?thesis by (simp add: pop_key_def is_dict_def dict_keys_def)
qed

lemma unique_fold_voice:
  "unique_json voices \<Longrightarrow> \<forall>bv \<in> set bvs. unique_json (snd bv) \<Longrightarrow> unique_json (fold (patch_voice device) bvs voices)"
proof (induction bvs arbitrary: voices)
  case (Cons bv bvs)
  then have "unique_json (patch_voice device bv voices)"
    by (simp add: patch_voice_def unique_put_key unique_pop_key)
  then show ?case using Cons by simp
qed simp

lemma unique_rows: "unique_json j \<Longrightarrow> \<forall>kv \<in> set (obj_pairs j). unique_json (snd kv)"
  by (cases j) auto

lemma unique_patch_field:
  "patch_field device k v target = Inr t \<Longrightarrow> unique_json target \<Longrightarrow> unique_json v \<Longrightarrow> unique_json t"
  by (auto simp: patch_field_def split: if_splits
      intro!: unique_put_key unique_pop_key unique_fold_voice unique_get_or dest: unique_rows)

lemma unique_patch_fields:
  "patch_fields device kvs target = Inr t \<Longrightarrow> unique_json target \<Longrightarrow> \<forall>kv \<in> set kvs. unique_json (snd kv) \<Longrightarrow> unique_json t"
  by (induction device kvs target rule: patch_fields.induct) (auto split: sum.splits intro: unique_patch_field)

lemma accepted_fields: "accepted data P \<Longrightarrow> \<exists>B. P = (B, jat data ''defaults'', jat data ''devices'')"
  by (auto simp: accepted_def document_parts_def split: if_splits sum.splits)

text \<open>The change in terms of what is accepted.\<close>

lemma speech_change_Inr:
  assumes "speech_change patch device data = Inr result"
  obtains B defaults devices t defaults' devices' P where "accepted data (B, defaults, devices)"
    and "patch_fields (device \<noteq> None) (obj_pairs patch)
          (case device of None \<Rightarrow> defaults | Some d \<Rightarrow> get_or devices d (JObj [])) = Inr t"
    and "defaults' = (case device of None \<Rightarrow> t | Some _ \<Rightarrow> defaults)"
    and "devices' = (case device of None \<Rightarrow> devices
          | Some d \<Rightarrow> if \<not> truthy t then pop_key d devices else put_key d t devices)"
    and "result = put_key ''devices'' devices' (put_key ''defaults'' defaults' data)"
    and "accepted result P"
proof -
  obtain c where c: "load_speech data candidate = (Inr (), c)"
    using assms by (auto simp: speech_change_def split: prod.splits sum.splits)
  then obtain B defaults devices where P: "accepted data (B, defaults, devices)" "c = set_parts (B, defaults, devices) candidate"
    using load_speech_accepted by (metis prod_cases3)
  have f: "ss_defaults c = defaults" "ss_devices c = devices" using P(2) by (simp_all add: set_parts_def)
  obtain t where t: "patch_fields (device \<noteq> None) (obj_pairs patch)
        (case device of None \<Rightarrow> ss_defaults c | Some d \<Rightarrow> get_or (ss_devices c) d (JObj [])) = Inr t"
    using assms c by (auto simp: speech_change_def Let_def split: sum.splits prod.splits)
  have res: "result = put_key ''devices'' (case device of None \<Rightarrow> ss_devices c
          | Some d \<Rightarrow> if \<not> truthy t then pop_key d (ss_devices c) else put_key d t (ss_devices c))
        (put_key ''defaults'' (case device of None \<Rightarrow> t | Some _ \<Rightarrow> ss_defaults c) data)"
    using assms c t by (simp add: speech_change_def Let_def split: sum.splits prod.splits)
  have "\<exists>c'. load_speech result c = (Inr (), c')"
    using assms c t by (simp add: speech_change_def Let_def split: sum.splits prod.splits)
  then obtain P where acc: "accepted result P" using load_speech_accepted by blast
  show ?thesis
    by (rule that [OF P(1) t [unfolded f] refl refl res [unfolded f] acc])
qed


lemma unique_speech_change:
  assumes "speech_change patch device data = Inr result" and u: "unique_json data" "unique_json patch"
  shows "unique_json result"
  using assms(1)
proof (rule speech_change_Inr)
  fix B defaults devices t defaults' devices' P
  assume a: "accepted data (B, defaults, devices)"
    and t: "patch_fields (device \<noteq> None) (obj_pairs patch)
        (case device of None \<Rightarrow> defaults | Some d \<Rightarrow> get_or devices d (JObj [])) = Inr t"
    and d': "defaults' = (case device of None \<Rightarrow> t | Some _ \<Rightarrow> defaults)"
    and v': "devices' = (case device of None \<Rightarrow> devices
          | Some d \<Rightarrow> if \<not> truthy t then pop_key d devices else put_key d t devices)"
    and r: "result = put_key ''devices'' devices' (put_key ''defaults'' defaults' data)"
  have parts: "unique_json defaults" "unique_json devices"
    using accepted_fields [OF a] unique_jat u(1) by auto
  have "unique_json t"
    by (rule unique_patch_fields [OF t])
      (use parts u(2) in \<open>auto intro!: unique_get_or dest: unique_rows split: option.split\<close>)
  then show "unique_json result"
    using parts u(1) unfolding r d' v'
    by (intro unique_put_key) (auto intro: unique_put_key unique_pop_key split: option.split)
qed

text \<open>The file is one the next start accepts, and memory shows the file's document, or one equal to it.\<close>

definition speech_settled :: "'z speech_state_scheme \<Rightarrow> bool" where
  "speech_settled s \<longleftrightarrow> (\<exists>j P j'. ss_file s = Doc j \<and> unique_json j \<and> accepted j P
     \<and> unique_json j' \<and> accepted j' (parts_of s) \<and> (j' = j \<or> same_json j' j))"

lemma settledI:
  "ss_file s = Doc j \<Longrightarrow> unique_json j \<Longrightarrow> accepted j P \<Longrightarrow> parts_of s = P \<Longrightarrow> speech_settled s"
  unfolding speech_settled_def by blast

lemma load_accepted: "accepted j P \<Longrightarrow> load_speech j s = (Inr (), set_parts P s)"
  using load_speech_accepted by blast

text \<open>
  The states an update can end in: nothing happened but a consumed write outcome, the file was
  reloaded, or the result of the change is in memory and (unless it equals the old document) on disk.
\<close>

lemma update_speech_cases:
  assumes j: "ss_file s = Doc j" "unique_json j" "accepted j P" and u: "unique_json patch"
  obtains (kept) fs where "snd (update_speech patch device s) = s\<lparr>ss_faults := fs\<rparr>"
  | (reloaded) fs where "snd (update_speech patch device s) = set_parts P (s\<lparr>ss_faults := fs\<rparr>)"
  | (changed) fs result Q where "speech_change patch device j = Inr result" "accepted result Q"
      "snd (update_speech patch device s) = set_parts Q (s\<lparr>ss_file := Doc result, ss_faults := fs\<rparr>)"
  | (equal) fs result Q where "speech_change patch device j = Inr result" "accepted result Q" "same_json result j"
      "snd (update_speech patch device s) = set_parts Q (s\<lparr>ss_faults := fs\<rparr>)"
proof (cases "is_obj patch")
  case False
  then have "snd (update_speech patch device s) = s\<lparr>ss_faults := ss_faults s\<rparr>"
    by (simp add: update_speech_def action_simps)
  then show ?thesis by (rule kept)
next
  case True
  obtain r g wrote where o: "update_json (next_outcome s) (speech_change patch device) (Doc j) = (r, g, wrote)"
    by (metis prod_cases3)
  define fs where "fs = (if wrote then tl (ss_faults s) else ss_faults s)"
  have run: "update_speech_file (speech_change patch device) s = (r, s\<lparr>ss_file := g, ss_faults := fs\<rparr>)"
    using o j(1) by (simp add: update_speech_file_def fs_def)
  have same: "s\<lparr>ss_file := Doc j\<rparr> = s" using j(1) by simp
  consider (failed) e where "r = Inl e" "g = Doc j"
    | (applied) result where "speech_change patch device j = Inr result"
       "r = Inl OSError \<and> g = Doc result \<or> r = Inr result \<and> g = Doc result \<or> r = Inr result \<and> g = Doc j \<and> same_json result j"
    using update_json_outcome [OF o j(2)] by blast
  then show ?thesis
  proof cases
    case (failed e)
    show ?thesis
    proof (cases "e = OSError")
      case True
      then have "snd (update_speech patch device s) = set_parts P (s\<lparr>ss_faults := fs\<rparr>)"
        using \<open>is_obj patch\<close> failed run j by (simp add: update_speech_def action_simps read_json_def load_accepted same)
      then show ?thesis by (rule reloaded)
    next
      case False
      then have "snd (update_speech patch device s) = s\<lparr>ss_faults := fs\<rparr>"
        using \<open>is_obj patch\<close> failed run same by (simp add: update_speech_def action_simps)
      then show ?thesis by (rule kept)
    qed
  next
    case (applied result)
    obtain Q where Q: "accepted result Q" using applied(1) by (rule speech_change_Inr) auto
    show ?thesis
      using applied(2)
    proof (elim disjE conjE)
      assume "r = Inl OSError" "g = Doc result"
      then show ?thesis
        using True run unique_speech_change [OF applied(1) j(2) u]
        by (intro changed [OF applied(1) Q]) (simp add: update_speech_def action_simps read_json_def load_accepted [OF Q])
    next
      assume "r = Inr result" "g = Doc result"
      then show ?thesis
        using True run by (intro changed [OF applied(1) Q]) (simp add: update_speech_def action_simps load_accepted [OF Q])
    next
      assume "r = Inr result" "g = Doc j" "same_json result j"
      then show ?thesis
        using True run same by (intro equal [OF applied(1) Q]) (simp_all add: update_speech_def action_simps load_accepted [OF Q])
    qed
  qed
qed


lemma update_speech_settled:
  assumes s: "speech_settled s" and u: "unique_json patch"
  shows "speech_settled (snd (update_speech patch device s))"
proof -
  obtain j P j' where j: "ss_file s = Doc j" "unique_json j" "accepted j P"
    and j': "unique_json j'" "accepted j' (parts_of s)" "j' = j \<or> same_json j' j"
    using s unfolding speech_settled_def by blast
  from j u show ?thesis
  proof (rule update_speech_cases [where patch = patch and device = device])
    fix fs assume "snd (update_speech patch device s) = s\<lparr>ss_faults := fs\<rparr>"
    then show ?thesis using j j' by (simp add: speech_settled_def parts_of_def del: split_paired_Ex) blast
  next
    fix fs assume "snd (update_speech patch device s) = set_parts P (s\<lparr>ss_faults := fs\<rparr>)"
    then show ?thesis using j by (intro settledI [of _ j P]) simp_all
  next
    fix fs result Q
    assume "speech_change patch device j = Inr result" "accepted result Q"
      "snd (update_speech patch device s) = set_parts Q (s\<lparr>ss_file := Doc result, ss_faults := fs\<rparr>)"
    then show ?thesis using unique_speech_change [OF _ j(2) u] by (intro settledI [of _ result Q]) simp_all
  next
    fix fs result Q
    assume a: "speech_change patch device j = Inr result" "accepted result Q" "same_json result j"
      and f: "snd (update_speech patch device s) = set_parts Q (s\<lparr>ss_faults := fs\<rparr>)"
    show ?thesis
      unfolding speech_settled_def f set_parts_file parts_of_set_parts
      using a j unique_speech_change [OF a(1) j(2) u]
      by (intro exI [of _ j] exI [of _ P] exI [of _ result]) simp
  qed
qed



section \<open>Properties\<close>

text \<open>A store on the shipped providers, with the realtime mode chosen for one device.\<close>

definition demo_backends :: "backend list" where
  "demo_backends = shipped_backends (''whisper'', 10300) (''piper'', 10200) ''amy''"

definition demo_speech :: json where
  "demo_speech = put_key ''devices'' (JObj [(''kitchen'', JObj [(''mode'', JStr ''realtime'')])]) (initial_document demo_backends)"

definition demo_speech_parts :: speech_parts where
  "demo_speech_parts = (map (\<lambda>b. (bk_id b, b)) demo_backends, jat demo_speech ''defaults'', jat demo_speech ''devices'')"

lemma demo_parts_ok: "parts_error demo_speech_parts = None"
  by code_simp

lemma demo_unique: "unique_json demo_speech"
  by code_simp

lemma demo_providers: "jat demo_speech ''providers'' = enc_list enc_backend demo_backends"
  by code_simp

lemma demo_header: "\<not> bad_header demo_speech"
  by code_simp

lemma demo_accepted: "accepted demo_speech demo_speech_parts"
proof -
  have "parse_backends (jat demo_speech ''providers'') = Inr demo_backends"
    unfolding demo_providers
    by (rule parse_backends_enc)
      (simp_all add: demo_backends_def shipped_backends_valid shipped_backends_ids, simp_all add: shipped_backends_def)
  then show ?thesis
    using demo_parts_ok demo_header by (simp add: accepted_def document_parts_def demo_speech_parts_def)
qed

text \<open>A store that loaded \<open>speech.json\<close> can serve every device: whatever the device ID, the effective
  selection is an STT provider and a TTS provider of the registry, of those kinds, and a voice that the
  TTS provider has. The error branch of \<open>view\<close> is unreachable for it.\<close>

theorem every_device_resolves:
  assumes "load_speech data s = (Inr (), t)"
  shows "\<exists>sel. resolve_speech t d = Inr sel \<and> usable_selection t sel"
proof -
  obtain P where "accepted data P" "t = set_parts P s" using assms load_speech_accepted by blast
  then show ?thesis using resolve_loaded [of data t d] by simp
qed

theorem every_device_resolves_witness:
  "\<exists>sel. resolve_speech (snd (load_speech demo_speech candidate)) ''kitchen'' = Inr sel
     \<and> usable_selection (snd (load_speech demo_speech candidate)) sel"
  by (rule every_device_resolves [of demo_speech candidate]) (simp add: load_accepted [OF demo_accepted])

text \<open>A device whose effective mode is realtime has a configured realtime provider and a voice of
  that provider, after any load of a document with unique keys.\<close>

theorem realtime_mode_is_configured:
  assumes "load_speech data s = (Inr (), t)" and "unique_json data"
    and "voice_settings t d = Inr v" and "vv_mode v = JStr ''realtime''"
  shows "\<exists>b. dict_get (ss_backends t) (vv_backend v) = Some b \<and> bk_kind b = ''realtime''
     \<and> vv_model v = bk_model b \<and> str_among (vv_voice v) (bk_voices b)"
proof -
  obtain P where P: "accepted data P" "t = set_parts P s" using assms(1) load_speech_accepted by blast
  then obtain B where "P = (B, jat data ''defaults'', jat data ''devices'')" using accepted_fields by blast
  then have "unique_json (ss_devices t)" using P(2) unique_jat [OF assms(2)] by (simp add: set_parts_def)
  then show ?thesis using voice_settings_loaded [of data t d] P assms(3,4) by auto
qed

theorem realtime_mode_is_configured_witness:
  "\<exists>b. dict_get (ss_backends (snd (load_speech demo_speech candidate))) ''openai-live'' = Some b \<and> bk_kind b = ''realtime''
     \<and> ''gpt-live-1'' = bk_model b \<and> str_among (JStr ''marin'') (bk_voices b)"
proof -
  let ?t = "snd (load_speech demo_speech candidate)"
  have t: "?t = set_parts demo_speech_parts candidate" by (simp add: load_accepted [OF demo_accepted])
  have "voice_settings ?t ''kitchen'' = Inr \<lparr> vv_mode = JStr ''realtime'', vv_backend = ''openai-live'',
      vv_model = ''gpt-live-1'', vv_voice = JStr ''marin'' \<rparr>"
    unfolding t by code_simp
  from realtime_mode_is_configured [OF _ demo_unique this, of candidate] show ?thesis
    by (simp add: load_accepted [OF demo_accepted])
qed

definition demo_speech_state :: speech_state where
  "demo_speech_state = \<lparr> ss_file = Doc demo_speech, ss_backends = fst demo_speech_parts,
     ss_defaults = fst (snd demo_speech_parts), ss_devices = snd (snd demo_speech_parts),
     ss_faults = [Write_visible_fsync_failed] \<rparr>"

lemma demo_speech_state: "ss_file demo_speech_state = Doc demo_speech" "parts_of demo_speech_state = demo_speech_parts"
  by (simp_all add: demo_speech_state_def parts_of_def)

text \<open>C7: an update, however it ends (a bad patch, a selection that fails validation, a disk write that
  fails or is torn), leaves a file the next start accepts, memory showing that document, and every
  device with a usable selection.\<close>

theorem update_keeps_speech_usable:
  assumes "speech_settled s" and "unique_json patch"
  shows "speech_settled (snd (update_speech patch device s))
     \<and> (\<exists>sel. resolve_speech (snd (update_speech patch device s)) d = Inr sel
       \<and> usable_selection (snd (update_speech patch device s)) sel)"
proof -
  have settled: "speech_settled (snd (update_speech patch device s))"
    by (rule update_speech_settled [OF assms])
  then show ?thesis
    unfolding speech_settled_def using resolve_loaded by blast
qed

theorem update_keeps_speech_usable_witness:
  "speech_settled (snd (update_speech (JObj [(''mode'', JStr ''standard'')]) (Some ''kitchen'') demo_speech_state))"
  using update_keeps_speech_usable [OF settledI [OF demo_speech_state(1) demo_unique demo_accepted demo_speech_state(2)],
      of "JObj [(''mode'', JStr ''standard'')]" "Some ''kitchen''"]
  by simp

lemma other_device_change:
  assumes "speech_change patch (Some d) j = Inr result" and "accepted j P" and "accepted result Q" and "d' \<noteq> d"
  obtains B defaults devices devices' where "P = (B, defaults, devices)" and "Q = (B, defaults, devices')"
    and "get_or devices' d' (JObj []) = get_or devices d' (JObj [])"
  using assms(1)
proof (rule speech_change_Inr)
  fix B defaults devices t defaults' devices' R
  assume a: "accepted j (B, defaults, devices)"
    and d: "defaults' = (case Some d of None \<Rightarrow> t | Some _ \<Rightarrow> defaults)"
    and v: "devices' = (case Some d of None \<Rightarrow> devices
          | Some d \<Rightarrow> if \<not> truthy t then pop_key d devices else put_key d t devices)"
    and r: "result = put_key ''devices'' devices' (put_key ''defaults'' defaults' j)"
  have obj: "is_obj devices" "is_obj j"
    using a by (auto simp: accepted_def parts_error_def document_parts_def bad_header_def split: if_splits)
  have P: "P = (B, defaults, devices)" using a assms(2) by (simp add: accepted_def)
  have jat: "jat result ''providers'' = jat j ''providers''" "jat result ''defaults'' = defaults"
      "jat result ''devices'' = devices'"
    using obj(2) accepted_fields [OF a] unfolding r
    by (auto simp: put_key_def jat_def jget_is_pairs [of j] d simp flip: dict_get_def)
  have pj: "document_parts j = Inr (B, defaults, devices)" "document_parts result = Inr Q"
    using a assms(3) by (simp_all add: accepted_def)
  then have Q: "Q = (B, defaults, devices')"
    by (auto simp: document_parts_def jat split: if_splits sum.splits)
  have "jget devices' d' = jget devices d'"
    using obj(1) assms(4) by (auto simp: v put_key_def pop_key_def jget_is_pairs [of devices] simp flip: dict_get_def)
  then have "get_or devices' d' (JObj []) = get_or devices d' (JObj [])" by (simp add: get_or_def)
  then show ?thesis using that P Q by blast
qed

text \<open>An update of one device never changes what another device resolves to.\<close>

theorem update_is_per_device:
  assumes "ss_file s = Doc j" and "unique_json j" and "accepted j (parts_of s)" and "unique_json patch" and "d' \<noteq> d"
  shows "resolve_speech (snd (update_speech patch (Some d) s)) d' = resolve_speech s d'"
proof -
  have same: "resolve_speech t d' = resolve_speech s d'"
    if "parts_of t = (B, defaults, devices')" "parts_of s = (B, defaults, devices)"
      "get_or devices' d' (JObj []) = get_or devices d' (JObj [])" for t B defaults devices devices'
  proof -
    have e: "ss_backends t = ss_backends s" "ss_defaults t = ss_defaults s"
      using that(1,2) by (simp_all add: parts_of_def)
    have p: "pick_backend t o' k = pick_backend s o' k" "pick_voice t o' b = pick_voice s o' b" for o' k b
      unfolding pick_backend_def pick_voice_def e by (rule refl)+
    have q: "override_of t d' = override_of s d'" using that by (simp add: parts_of_def override_of_def)
    show ?thesis unfolding resolve_speech_def p q by (rule refl)
  qed
  have kept: "resolve_speech t d' = resolve_speech s d'" if "parts_of t = parts_of s" for t
  proof -
    obtain B defaults devices where p: "parts_of s = (B, defaults, devices)" by (rule prod_cases3)
    then have "parts_of t = (B, defaults, devices)" using that by simp
    then show ?thesis by (rule same [OF _ p refl])
  qed
  have changed: "resolve_speech t d' = resolve_speech s d'"
    if "speech_change patch (Some d) j = Inr result" and "accepted result Q" and "parts_of t = Q" for result Q t
  proof (rule other_device_change [OF that(1) assms(3) that(2) assms(5)])
    fix B defaults devices devices'
    assume p: "parts_of s = (B, defaults, devices)" "Q = (B, defaults, devices')"
      "get_or devices' d' (JObj []) = get_or devices d' (JObj [])"
    show ?thesis by (rule same [OF _ p(1,3)]) (simp add: that(3) p(2))
  qed
  from assms(1-4) show ?thesis
  proof (rule update_speech_cases [where device = "Some d"])
    fix fs assume f: "snd (update_speech patch (Some d) s) = s\<lparr>ss_faults := fs\<rparr>"
    show ?thesis unfolding f by (rule kept) (simp add: parts_of_def)
  next
    fix fs assume f: "snd (update_speech patch (Some d) s) = set_parts (parts_of s) (s\<lparr>ss_faults := fs\<rparr>)"
    show ?thesis unfolding f by (rule kept) simp
  next
    fix fs result Q
    assume c: "speech_change patch (Some d) j = Inr result" "accepted result Q"
      and f: "snd (update_speech patch (Some d) s) = set_parts Q (s\<lparr>ss_file := Doc result, ss_faults := fs\<rparr>)"
    show ?thesis unfolding f by (rule changed [OF c]) simp
  next
    fix fs result Q
    assume c: "speech_change patch (Some d) j = Inr result" "accepted result Q"
      and f: "snd (update_speech patch (Some d) s) = set_parts Q (s\<lparr>ss_faults := fs\<rparr>)"
    show ?thesis unfolding f by (rule changed [OF c]) simp
  qed
qed

theorem update_is_per_device_witness:
  "resolve_speech (snd (update_speech (JObj [(''mode'', JStr ''standard'')]) (Some ''kitchen'') demo_speech_state)) ''hall''
     = resolve_speech demo_speech_state ''hall''"
  by (rule update_is_per_device [of _ demo_speech])
    (simp_all add: demo_speech_state demo_unique demo_accepted)

end
