(* ===== verification/Device_Laws.thy ===== *)
theory Device_Laws
  imports Device_Registry Speech_Laws
begin

text \<open>
  The settings of a device survive being written and read back, what is read is always valid, and the
  registry keeps memory and disk together and its connections apart.
\<close>

section \<open>Written settings are read back\<close>

definition ok_action :: "button_action \<Rightarrow> bool" where
  "ok_action a \<longleftrightarrow> (case a of
     Say_prompt t \<Rightarrow> t \<noteq> [] \<and> strip t = t
   | Say_announce t \<Rightarrow> t \<noteq> [] \<and> strip t = t
   | Run_command c v \<Rightarrow> c \<in> set valid_button_commands
       \<and> (case v of None \<Rightarrow> c \<noteq> ''set_volume'' | Some n \<Rightarrow> c = ''set_volume'' \<and> 0 \<le> n \<and> n \<le> 100)
   | Call_webhook i \<Rightarrow> i \<noteq> [] \<and> strip i = i)"

definition ok_buttons :: "(string, button_action) dict \<Rightarrow> bool" where
  "ok_buttons d \<longleftrightarrow> is_dict d \<and> list_all (\<lambda>(g, a). g \<in> set valid_gestures \<and> ok_action a) d"

definition ok_fields :: "device_config \<Rightarrow> bool" where
  "ok_fields c \<longleftrightarrow> pred_option (\<lambda>t. t = ''websocket'' \<or> t = ''webrtc'') (dc_transport c)
     \<and> pred_option (\<lambda>m. m \<in> set valid_follow_up_modes) (dc_follow_up c)
     \<and> pred_option (\<lambda>n. 0 \<le> n) (dc_rate c)
     \<and> pred_option (\<lambda>b. b \<noteq> [] \<and> ok_buttons b) (dc_buttons c)"

definition ok_config :: "device_config \<Rightarrow> bool" where
  "ok_config c \<longleftrightarrow> ok_fields c \<and> dc_rate c \<noteq> Some 0"

lemma parse_enc_action: "ok_action a \<Longrightarrow> parse_button_action (enc_action a) = Inr (Some a)"
  by (cases a)
    (auto simp: ok_action_def enc_action_def parse_button_action_def parse_command_def nonblank_def
      valid_action_kinds_def valid_button_commands_def split: option.splits)

lemma nonblank_SomeD: "nonblank raw k = Some t \<Longrightarrow> t \<noteq> [] \<and> strip t = t"
  by (auto simp: nonblank_def split: option.splits json.splits if_splits)

lemma parse_command_ok: "parse_command raw = Inr (Some a) \<Longrightarrow> ok_action a"
  by (auto simp: parse_command_def ok_action_def split: if_splits option.splits json.splits)

lemma ok_action_text [simp]:
  "ok_action (Say_prompt t) \<longleftrightarrow> t \<noteq> [] \<and> strip t = t"
  "ok_action (Say_announce t) \<longleftrightarrow> t \<noteq> [] \<and> strip t = t"
  "ok_action (Call_webhook t) \<longleftrightarrow> t \<noteq> [] \<and> strip t = t"
  by (simp_all add: ok_action_def)

lemma parse_action_ok: "parse_button_action raw = Inr (Some a) \<Longrightarrow> ok_action a"
  by (auto simp: parse_button_action_def split: if_splits option.splits json.splits
      dest: nonblank_SomeD parse_command_ok)

lemma sanitize_enc_gestures:
  "list_all (\<lambda>(g, a). g \<in> set valid_gestures \<and> ok_action a) d \<Longrightarrow>
   sanitize_gestures (dict_map enc_action d) out = fold (\<lambda>(g, a). dict_put g a) d out"
  by (induction d arbitrary: out) (auto simp: dict_map_def parse_enc_action)

lemma fold_put_append:
  "distinct (map fst (out @ d)) \<Longrightarrow> fold (\<lambda>(k, v). dict_put k v) d out = out @ d"
proof (induction d arbitrary: out)
  case (Cons kv d)
  obtain k v where kv: "kv = (k, v)" by (cases kv)
  have "dict_put k v out = out @ [(k, v)]"
    using Cons.prems kv by (induction out) (auto simp: dict_put_def)
  then show ?case using Cons kv by simp
qed simp

lemma sanitize_enc_buttons: "ok_buttons d \<Longrightarrow> sanitize_button_actions (enc_dict enc_action d) = d"
  using fold_put_append [of "[]" d]
  by (simp add: sanitize_button_actions_def ok_buttons_def sanitize_enc_gestures is_dict_def dict_keys_def)

lemma ok_buttons_put:
  assumes "ok_buttons d" and "g \<in> set valid_gestures" and "ok_action a"
  shows "ok_buttons (dict_put g a d)"
proof -
  have "list_all (\<lambda>(g, a). g \<in> set valid_gestures \<and> ok_action a) (dict_put g a d)"
    using assms set_dict_put [of g a d] by (fastforce simp: ok_buttons_def list_all_iff)
  then show ?thesis using assms(1) by (simp add: ok_buttons_def)
qed

lemma sanitize_gestures_ok: "ok_buttons out \<Longrightarrow> ok_buttons (sanitize_gestures kvs out)"
  by (induction kvs out rule: sanitize_gestures.induct)
    (simp_all add: ok_buttons_put parse_action_ok split: sum.split option.split)

lemma sanitize_buttons_ok: "ok_buttons (sanitize_button_actions raw)"
proof -
  have "ok_buttons []" by (simp add: ok_buttons_def)
  then show ?thesis by (simp add: sanitize_button_actions_def sanitize_gestures_ok)
qed

lemma sanitize_fields_append:
  "sanitize_fields (xs @ ys) c = (case sanitize_fields xs c of Inl e \<Rightarrow> Inl e | Inr d \<Rightarrow> sanitize_fields ys d)"
  by (induction xs c rule: sanitize_fields.induct) (auto split: sum.split)

lemma follow_up_literal: "str_among (JStr m) valid_follow_up_modes \<longleftrightarrow> m \<in> set valid_follow_up_modes"
  by simp

lemma sanitize_enc_entry:
  assumes "ok_config c"
  shows "sanitize_entry (enc_config c) = Inr (c\<lparr>dc_pipeline := None\<rparr>)"
proof -
  have step: "sanitize_fields (obj_pairs (obj_of ((k, v) # fs))) d =
      (case v of None \<Rightarrow> sanitize_fields (obj_pairs (obj_of fs)) d
       | Some x \<Rightarrow> (case sanitize_field k x d of Inl e \<Rightarrow> Inl e | Inr d' \<Rightarrow> sanitize_fields (obj_pairs (obj_of fs)) d'))" for k v fs d
    by (simp add: obj_of_Cons split: option.split)
  have nil: "obj_pairs (obj_of []) = []" by (simp add: obj_of_def)
  obtain p t n v f r b u where c: "c = \<lparr> dc_pipeline = p, dc_transport = t, dc_name = n, dc_voice = v, dc_follow_up = f,
      dc_rate = r, dc_barge_in = b, dc_buttons = u \<rparr>" by (cases c)
  have t: "t = None \<or> t = Some ''websocket'' \<or> t = Some ''webrtc''"
    using assms by (cases t) (auto simp: ok_config_def ok_fields_def c)
  have f: "f = None \<or> (\<exists>m. f = Some m \<and> m \<in> set valid_follow_up_modes)"
    using assms by (cases f) (auto simp: ok_config_def ok_fields_def c)
  have r: "r = None \<or> (\<exists>m. r = Some m \<and> 0 < m)"
    using assms by (cases r) (auto simp: ok_config_def ok_fields_def c)
  have u: "u = None \<or> (\<exists>d. u = Some d \<and> d \<noteq> [] \<and> ok_buttons d)"
    using assms by (cases u) (auto simp: ok_config_def ok_fields_def c)
  note field = step sanitize_field_def Let_def
  have s1: "sanitize_fields (obj_pairs (obj_of ((''transport_mode'', map_option JStr t) # fs))) d
      = sanitize_fields (obj_pairs (obj_of fs)) (d\<lparr>dc_transport := t\<rparr>)" if "dc_transport d = None" for fs d
    using t that by (cases d) (auto simp: field)
  have s2: "sanitize_fields (obj_pairs (obj_of ((''name'', map_option JStr n) # fs))) d
      = sanitize_fields (obj_pairs (obj_of fs)) (d\<lparr>dc_name := n\<rparr>)" if "dc_name d = None" for fs d
    using that by (cases d; cases n) (auto simp: field)
  have s3: "sanitize_fields (obj_pairs (obj_of ((''voice'', map_option JBool v) # fs))) d
      = sanitize_fields (obj_pairs (obj_of fs)) (d\<lparr>dc_voice := v\<rparr>)" if "dc_voice d = None" for fs d
    using that by (cases d; cases v) (auto simp: field)
  have s4: "sanitize_fields (obj_pairs (obj_of ((''follow_up_mode'', map_option JStr f) # fs))) d
      = sanitize_fields (obj_pairs (obj_of fs)) (d\<lparr>dc_follow_up := f\<rparr>)" if "dc_follow_up d = None" for fs d
    using that f by (cases d) (auto simp: field)
  have s5: "sanitize_fields (obj_pairs (obj_of ((''output_sample_rate'', map_option JInt r) # fs))) d
      = sanitize_fields (obj_pairs (obj_of fs)) (d\<lparr>dc_rate := r\<rparr>)" if "dc_rate d = None" for fs d
    using that r by (cases d) (auto simp: field positive_rate_def)
  have s6: "sanitize_fields (obj_pairs (obj_of ((''barge_in'', map_option JBool b) # fs))) d
      = sanitize_fields (obj_pairs (obj_of fs)) (d\<lparr>dc_barge_in := b\<rparr>)" if "dc_barge_in d = None" for fs d
    using that by (cases d; cases b) (auto simp: field)
  have s7: "sanitize_fields (obj_pairs (obj_of ((''button_actions'', map_option (enc_dict enc_action) u) # fs))) d
      = sanitize_fields (obj_pairs (obj_of fs)) (d\<lparr>dc_buttons := u\<rparr>)" if "dc_buttons d = None" for fs d
    using that u by (cases d) (auto simp: field sanitize_enc_buttons)
  have "sanitize_fields (obj_pairs (enc_config c)) no_config = Inr (c\<lparr>dc_pipeline := None\<rparr>)"
    unfolding enc_config_def c device_config.simps
    by (simp add: s1 s2 s3 s4 s5 s6 s7 nil no_config_def)
  then show ?thesis by (simp add: sanitize_entry_def enc_config_def)
qed


lemma last_wins_unique: "unique_json j \<Longrightarrow> last_wins j = j"
proof (induction j rule: last_wins.induct)
  case (1 kvs)
  then have "last_wins (snd kv) = snd kv" if "kv \<in> set kvs" for kv
    using that by (cases kv) auto
  then have "map (\<lambda>(k, v). (k, last_wins v)) kvs = kvs" by (intro map_idI) auto
  then show ?case using 1(2) fold_put_append [of "[]" kvs] by simp
next
  case (2 xs)
  then show ?case by (simp add: map_idI)
qed simp_all

lemma unique_optional [simp]:
  "pred_option unique_json (map_option JInt x)" "pred_option unique_json (map_option JStr y)"
  "pred_option unique_json (map_option JBool z)"
  by (cases x; cases y; cases z; simp)+

lemma unique_saved_configs:
  assumes "is_dict cs" and "list_all (\<lambda>(d, c). ok_config c) cs"
  shows "unique_json (saved_configs cs)"
proof -
  have a: "unique_json (enc_action a)" for a
    by (cases a) (simp_all add: enc_action_def unique_obj_of distinct_jkeys_obj_of)
  have "pred_option unique_json (map_option (enc_dict enc_action) (dc_buttons c))" if "ok_config c" for c
    using that a by (cases "dc_buttons c") (simp_all add: ok_config_def ok_fields_def ok_buttons_def)
  then have "unique_json (enc_config c)" if "ok_config c" for c
    using that by (simp add: enc_config_def unique_obj_of distinct_jkeys_obj_of)
  then show ?thesis using assms by (auto simp: saved_configs_def list_all_iff)
qed

lemma sanitize_all_saved:
  "list_all (\<lambda>(d, c). ok_config c) cs \<Longrightarrow>
   sanitize_all (dict_map enc_config cs) = Inr (dict_map (\<lambda>c. c\<lparr>dc_pipeline := None\<rparr>) cs)"
  by (induction cs) (auto simp: dict_map_def sanitize_enc_entry)

lemma load_saved:
  assumes "is_dict cs" and "list_all (\<lambda>(d, c). ok_config c) cs"
  shows "load_device_configs (Doc (saved_configs cs)) = Inr (dict_map (\<lambda>c. c\<lparr>dc_pipeline := None\<rparr>) cs)"
  using last_wins_unique [OF unique_saved_configs [OF assms]] sanitize_all_saved [OF assms(2)]
  by (simp add: load_device_configs_def doc_exists_def load_lenient_def) (simp add: saved_configs_def)

section \<open>What is read is valid\<close>

lemma sanitize_field_ok:
  assumes "sanitize_field k v c = Inr d" and "ok_fields c"
  shows "ok_fields d"
proof -
  have f: "str_among v valid_follow_up_modes \<Longrightarrow> str_value v \<in> set valid_follow_up_modes"
    using str_among_value by blast
  have a: "''auto'' \<in> set valid_follow_up_modes" by (simp add: valid_follow_up_modes_def)
  have r: "positive_rate v = Inr (Some n) \<Longrightarrow> 0 \<le> n" for n
    by (auto simp: positive_rate_def split: json.splits if_splits nonfinite.splits)
  show ?thesis
    using assms f a r sanitize_buttons_ok [of v]
    by (auto simp: sanitize_field_def ok_fields_def Let_def split: if_splits sum.splits option.splits)
qed

lemma sanitize_fields_ok: "sanitize_fields kvs c = Inr d \<Longrightarrow> ok_fields c \<Longrightarrow> ok_fields d"
  by (induction kvs c rule: sanitize_fields.induct) (auto split: sum.splits intro: sanitize_field_ok)

lemma ok_no_config: "ok_fields no_config"
  by (simp add: ok_fields_def no_config_def)

lemma sanitize_entry_ok: "sanitize_entry raw = Inr c \<Longrightarrow> ok_fields c"
  using sanitize_fields_ok [OF _ ok_no_config] by (auto simp: sanitize_entry_def ok_no_config split: if_splits)

lemma sanitize_all_ok:
  "sanitize_all kvs = Inr cs \<Longrightarrow> list_all (\<lambda>(d, c). ok_fields c) cs \<and> dict_keys cs = dict_keys kvs"
  by (induction kvs arbitrary: cs rule: sanitize_all.induct)
    (auto simp: dict_keys_def dest: sanitize_entry_ok split: sum.splits)

lemma last_wins_dict: "is_dict (obj_pairs (last_wins j))"
  by (cases j) (simp_all add: is_dict_fold_put)

lemma load_device_configs_cases:
  "load_device_configs f = Inr cs \<Longrightarrow> cs = [] \<or> (\<exists>j. f = Doc j \<and> sanitize_all (obj_pairs (last_wins j)) = Inr cs)"
  by (cases f) (simp_all add: load_device_configs_def load_lenient_def doc_exists_def split: if_splits)

lemma load_device_configs_ok:
  assumes "load_device_configs f = Inr cs"
  shows "is_dict cs \<and> list_all (\<lambda>(d, c). ok_fields c) cs"
  using load_device_configs_cases [OF assms]
proof (elim disjE exE conjE)
  fix j assume "sanitize_all (obj_pairs (last_wins j)) = Inr cs"
  then show ?thesis using sanitize_all_ok last_wins_dict [of j] by (simp add: is_dict_def)
qed simp

end
