(* ===== verification/Registry_Laws.thy ===== *)
theory Registry_Laws
  imports Device_Laws
begin

text \<open>
  \<open>devices/registry.py\<close>: an update of the settings of a device keeps what the server has in memory and
  what the next start will read together, whichever way its two writes end; a reconnect and the close
  of the socket it replaced do not disturb each other.
\<close>

section \<open>Memory and disk\<close>

type_synonym device_part = "bool \<times> (string, device_config) dict \<times> doc_file"

definition device_part :: "device_world \<Rightarrow> device_part" where
  "device_part w = (dv_loaded w, dv_configs w, dv_file w)"

definition stored_config :: "device_config \<Rightarrow> bool" where
  "stored_config c \<longleftrightarrow> ok_config c \<and> dc_pipeline c = None"

definition agreeing :: "(string, device_config) dict \<Rightarrow> doc_file \<Rightarrow> bool" where
  "agreeing configs f \<longleftrightarrow> is_dict configs \<and> list_all (\<lambda>(d, c). stored_config c) configs
     \<and> (\<exists>cs. load_device_configs f = Inr cs \<and> same_dict same_config cs configs)"

definition settled_devices :: "device_world \<Rightarrow> bool" where
  "settled_devices w \<longleftrightarrow> dv_loaded w \<and> agreeing (dv_configs w) (dv_file w)"

lemma same_dict_refl: "is_dict a \<Longrightarrow> (\<And>k v. (k, v) \<in> set a \<Longrightarrow> eq v v) \<Longrightarrow> same_dict eq a a"
  by (auto simp: same_dict_def list_all_iff simp flip: dict_get_iff)

lemma same_config_refl: "pred_option is_dict (dc_buttons c) \<Longrightarrow> same_config c c"
  by (cases "dc_buttons c") (auto simp: same_config_def intro: same_dict_refl)

lemma stored_same: "stored_config c \<Longrightarrow> same_config c c"
  by (rule same_config_refl) (cases "dc_buttons c"; simp add: stored_config_def ok_config_def ok_fields_def ok_buttons_def)

lemma stored_load:
  assumes "is_dict cs" and "list_all (\<lambda>(d, c). stored_config c) cs"
  shows "load_device_configs (Doc (saved_configs cs)) = Inr cs"
proof -
  have "list_all (\<lambda>(d, c). ok_config c) cs"
    using assms(2) by (auto simp: stored_config_def elim!: list.pred_mono_strong)
  moreover have "dict_map (\<lambda>c. c\<lparr>dc_pipeline := None\<rparr>) cs = cs"
    using assms(2) by (auto simp: dict_map_def stored_config_def list_all_iff intro!: map_idI)
  ultimately show ?thesis using load_saved [OF assms(1)] by simp
qed

lemma agreeing_saved:
  "is_dict cs \<Longrightarrow> list_all (\<lambda>(d, c). stored_config c) cs \<Longrightarrow> agreeing cs (Doc (saved_configs cs))"
  using stored_load [of cs] by (auto simp: agreeing_def list_all_iff intro!: same_dict_refl stored_same)

text \<open>The merged settings of an update.\<close>

lemma merged_stored:
  assumes "stored_config c" and "ok_config p"
  shows "stored_config (merge_config c (p\<lparr>dc_pipeline := None\<rparr>))"
  using assms
  by (auto simp: stored_config_def ok_config_def ok_fields_def merge_config_def orelse_def split: option.split)

lemma stored_no_config: "stored_config no_config"
  by (simp add: stored_config_def ok_config_def ok_no_config) (simp add: no_config_def)

lemma config_of_stored: "list_all (\<lambda>(d, c). stored_config c) (dv_configs w) \<Longrightarrow> stored_config (config_of w d)"
  by (auto simp: config_of_def stored_no_config list_all_iff split: option.split dest!: dict_get_in)

lemma put_stored:
  assumes "list_all (\<lambda>(d, c). stored_config c) cs" and "stored_config c"
  shows "list_all (\<lambda>(d, c). stored_config c) (dict_put d c cs)"
  using assms set_dict_put [of d c cs] by (fastforce simp: list_all_iff)

section \<open>The parts of an update\<close>

definition same_more :: "'z speech_state_scheme \<Rightarrow> 'z speech_state_scheme \<Rightarrow> bool" where
  "same_more s t \<longleftrightarrow> speech_state.more t = speech_state.more s"

interpretation speech_frame: step_relation same_more
  by unfold_locales (auto simp: same_more_def)

lemma speech_frame_basic:
  "obeys same_more (lift_result r)" "obeys same_more (raise_some e)" "obeys same_more (update_speech_file c)"
  by (auto simp: obeys_def same_more_def action_simps update_speech_file_def split: prod.split)

lemma frame_load_speech: "obeys same_more (load_speech data)"
  unfolding load_speech_def
  by (intro speech_frame.obeys_rules speech_frame_basic) (auto simp: obeys_def same_more_def action_simps)

lemma frame_update_speech: "obeys same_more (update_speech patch device)"
  unfolding update_speech_def
  by (intro speech_frame.obeys_rules speech_frame_basic frame_load_speech)

lemma device_part_speech: "device_part (snd (update_speech patch device w)) = device_part w"
proof -
  have "same_more w (snd (update_speech patch device w))"
    using frame_update_speech by (auto simp: obeys_def)
  then show ?thesis
    by (cases w; cases "snd (update_speech patch device w)") (simp add: same_more_def device_part_def)
qed

text \<open>Actions that leave the settings and their file alone, once the settings are loaded.\<close>

abbreviation part_is :: "device_part \<Rightarrow> device_world \<Rightarrow> bool" where
  "part_is d w \<equiv> device_part w = d \<and> fst d"

lemma part_ensure: "triple (part_is d) ensure_configs_loaded (\<lambda>_. part_is d) (\<lambda>_. part_is d)"
  by (auto simp: triple_def ensure_configs_loaded_def action_simps device_part_def)

lemma part_get_config: "triple (part_is d) (get_config_for device) (\<lambda>_. part_is d) (\<lambda>_. part_is d)"
  by (auto simp: triple_def get_config_for_def ensure_configs_loaded_def action_simps device_part_def split: sum.split)

lemma part_refresh: "triple (part_is d) (refresh_entry device cfg) (\<lambda>_. part_is d) (\<lambda>_. part_is d)"
  by (auto simp: triple_def refresh_entry_def action_simps device_part_def split: option.split)

lemma part_speech: "triple (part_is d) (update_speech patch device) (\<lambda>_. part_is d) (\<lambda>_. part_is d)"
  by (rule triple_sameI) (simp add: device_part_speech)

lemma part_save:
  "triple (part_is (True, configs, f)) (save_configs updated)
     (\<lambda>_. part_is (True, configs, Doc (saved_configs updated)))
     (\<lambda>e w. e = OSError \<and> (part_is (True, configs, f) w \<or> part_is (True, configs, Doc (saved_configs updated)) w))"
  by (auto simp: triple_def save_configs_def write_json_def device_part_def split: write_outcome.split)

lemma part_set_config:
  "triple (part_is (True, configs, f)) (modifies (set_config device cfg)) (\<lambda>_. part_is (True, dict_put device cfg configs, f)) X"
  by (auto simp: triple_def action_simps set_config_def device_part_def)

definition good_part :: "device_part \<Rightarrow> bool" where
  "good_part d \<longleftrightarrow> (case d of (loaded, configs, f) \<Rightarrow> loaded \<and> agreeing configs f)"

lemma settled_part: "settled_devices w \<longleftrightarrow> good_part (device_part w)"
  by (simp add: settled_devices_def good_part_def device_part_def)

text \<open>An action that leaves the part alone keeps the settings settled.\<close>

abbreviation keeps_settled :: "'a device_op \<Rightarrow> bool" where
  "keeps_settled m \<equiv> triple settled_devices m (\<lambda>_. settled_devices) (\<lambda>_. settled_devices)"

lemma settled_from:
  assumes "\<And>d. triple (part_is d) m (\<lambda>_. part_is d) (\<lambda>_. part_is d)"
  shows "keeps_settled m"
proof (rule triple_sameI)
  fix w assume w: "settled_devices w"
  then have "fst (device_part w)" by (simp add: settled_part good_part_def split: prod.splits)
  then have "part_is (device_part w) (snd (m w))"
    by (intro triple_sameD [OF assms]) simp
  then show "settled_devices (snd (m w))" using w by (simp add: settled_part)
qed

lemmas settled_ensure = settled_from [OF part_ensure]
lemmas settled_get_config = settled_from [OF part_get_config]
lemmas settled_refresh = settled_from [OF part_refresh]
lemmas settled_speech = settled_from [OF part_speech]

lemma settled_raise: "triple settled_devices (raise e) Q (\<lambda>_. settled_devices)"
  by (rule triple_raise)

lemma settled_ret: "keeps_settled (ret x)"
  by (rule triple_ret)

lemma after_save_error_settled:
  assumes a: "agreeing configs f" and u: "is_dict updated" "list_all (\<lambda>(d, c). stored_config c) updated"
    and cfg: "updated = dict_put device cfg configs" and g: "g = f \<or> g = Doc (saved_configs updated)"
  shows "triple (part_is (True, configs, g)) (after_save_error device patch previous cfg updated)
    (\<lambda>_ _. False) (\<lambda>_. settled_devices)"
proof -
  obtain cs where cs: "load_device_configs g = Inr cs"
    "(g = f \<and> same_dict same_config cs configs) \<or> (g = Doc (saved_configs updated) \<and> cs = updated)"
    using a g stored_load [OF u] by (auto simp: agreeing_def)
  have refl: "same_dict same_config updated updated"
    using u(2) by (intro same_dict_refl [OF u(1)] stored_same) (auto simp: list_all_iff)
  have put: "triple (part_is (True, configs, g)) (modifies (set_config device cfg)) (\<lambda>_. settled_devices) (\<lambda>_. settled_devices)"
    if "same_dict same_config cs updated"
  proof -
    have "agreeing updated g" using that cs(1) u by (auto simp: agreeing_def)
    then have "good_part (True, dict_put device cfg configs, g)" using cfg by (simp add: good_part_def)
    then show ?thesis by (intro triple_conseq [OF part_set_config]) (auto simp: settled_part)
  qed
  have keep: "triple (part_is (True, configs, g)) (when_do c (update_speech q d)) (\<lambda>_. settled_devices) (\<lambda>_. settled_devices)"
    if "\<not> same_dict same_config cs updated" for c q d
  proof -
    have "agreeing configs g" using that cs refl a by (auto simp: agreeing_def)
    then have "good_part (True, configs, g)" by (simp add: good_part_def)
    then have "part_is (True, configs, g) w \<Longrightarrow> settled_devices w" for w by (simp add: settled_part)
    then show ?thesis
      unfolding when_do_def by (intro triple_if) (rule triple_pre [OF settled_speech] triple_pre [OF settled_ret], assumption)+
  qed
  have change: "triple (part_is (True, configs, g))
      (if same_dict same_config cs updated then modifies (set_config device cfg)
       else when_do (dc_pipeline patch \<noteq> None) (update_speech (mode_patch previous) (Some device)))
      (\<lambda>_. settled_devices) (\<lambda>_. settled_devices)"
    by (rule triple_if) (erule put, erule keep)
  have rest: "triple settled_devices (andthen (bnd (reads (\<lambda>w. dict_get (dv_entries w) device)) (\<lambda>entry.
        case entry of None \<Rightarrow> ret () | Some _ \<Rightarrow> bnd (get_config_for device) (refresh_entry device)))
     (raise OSError :: unit device_op)) (\<lambda>_ _. False) (\<lambda>_. settled_devices)"
    by (intro triple_andthen [where R = settled_devices] settled_raise triple_bnd [where R = "\<lambda>_. settled_devices"]
        triple_reads triple_option settled_ret settled_get_config settled_refresh)
  have known: "bnd (lift_result (Inr cs)) k = k cs" for k :: "_ \<Rightarrow> unit device_op"
    by (rule ext) (simp add: action_simps)
  show ?thesis
    unfolding after_save_error_def
  proof (rule triple_bnd_reads)
    fix x
    show "triple (\<lambda>w. part_is (True, configs, g) w \<and> dv_file w = x)
     (bnd (lift_result (load_device_configs x)) (\<lambda>committed.
       andthen (if same_dict same_config committed updated then modifies (set_config device cfg)
          else when_do (dc_pipeline patch \<noteq> None) (update_speech (mode_patch previous) (Some device)))
        (andthen (bnd (reads (\<lambda>w. dict_get (dv_entries w) device)) (\<lambda>entry.
          case entry of None \<Rightarrow> ret () | Some _ \<Rightarrow> bnd (get_config_for device) (refresh_entry device)))
        (raise OSError :: unit device_op)))) (\<lambda>_ _. False) (\<lambda>_. settled_devices)"
    proof (cases "x = g")
      case True
      show ?thesis
        unfolding True cs(1) by (subst known, rule triple_pre [OF triple_andthen [OF change rest]]) simp
    next
      case False
      then show ?thesis by (auto simp: triple_def device_part_def)
    qed
  qed
qed

lemma triple_or: "triple P m Q X \<Longrightarrow> triple P' m Q X \<Longrightarrow> triple (\<lambda>s. P s \<or> P' s) m Q X"
  by (auto simp: triple_def)

lemma triple_assuming: "(c \<Longrightarrow> triple P m Q X) \<Longrightarrow> triple (\<lambda>s. c \<and> P s) m Q X"
  by (auto simp: triple_def)

lemma commit_settled:
  assumes a: "agreeing configs f" and c: "stored_config cfg"
  shows "triple (part_is (True, configs, f))
     (andthen (try_except (save_configs (dict_put device cfg configs))
                (\<lambda>e. if e = OSError then after_save_error device patch previous cfg (dict_put device cfg configs) else raise e))
      (andthen (modifies (set_config device cfg))
       (bnd (get_config_for device) (\<lambda>result. andthen (refresh_entry device result) (ret result)))))
     (\<lambda>_. settled_devices) (\<lambda>_. settled_devices)"
proof -
  define updated where "updated = dict_put device cfg configs"
  have u: "is_dict updated" "list_all (\<lambda>(d, c). stored_config c) updated"
    using a put_stored [OF _ c, of configs device] unfolding updated_def agreeing_def by (blast intro: is_dict_put)+
  have good: "good_part (True, dict_put device cfg configs, Doc (saved_configs updated))"
    using agreeing_saved [OF u] by (simp add: good_part_def updated_def)
  have handler: "triple (\<lambda>w. e = OSError \<and> (part_is (True, configs, f) w \<or> part_is (True, configs, Doc (saved_configs updated)) w))
      (if e = OSError then after_save_error device patch previous cfg updated else raise e)
      (\<lambda>_. part_is (True, configs, Doc (saved_configs updated))) (\<lambda>_. settled_devices)" for e
    using triple_or [OF after_save_error_settled [OF a u updated_def, of f patch previous]
        after_save_error_settled [OF a u updated_def, of "Doc (saved_configs updated)" patch previous]]
    by (intro triple_assuming) (auto elim: triple_conseq)
  have saved: "triple (part_is (True, configs, f))
      (try_except (save_configs updated) (\<lambda>e. if e = OSError then after_save_error device patch previous cfg updated else raise e))
      (\<lambda>_. part_is (True, configs, Doc (saved_configs updated))) (\<lambda>_. settled_devices)"
    by (rule triple_try [OF part_save handler])
  have "triple (part_is (True, configs, Doc (saved_configs updated))) (modifies (set_config device cfg))
      (\<lambda>_. settled_devices) (\<lambda>_. settled_devices)"
    by (rule triple_conseq [OF part_set_config]) (use good in \<open>auto simp: settled_part\<close>)
  then show ?thesis
    unfolding updated_def [symmetric]
    by (intro triple_andthen [OF saved] triple_andthen [where R = settled_devices] triple_bnd [OF settled_get_config]
        settled_refresh settled_ret)
qed

lemma update_config_settled:
  assumes p: "ok_config patch"
  shows "keeps_settled (update_config device patch)"
proof -
  have mode: "keeps_settled (case dc_pipeline patch of None \<Rightarrow> ret () | Some m \<Rightarrow> update_speech (mode_patch (Some m)) (Some device))"
    by (rule triple_option) (rule settled_ret settled_speech)+
  have commit: "triple (\<lambda>w. settled_devices w \<and> (merge_config (config_of w device) (patch\<lparr>dc_pipeline := None\<rparr>), dv_configs w) = (cfg, configs))
     (andthen (try_except (save_configs (dict_put device cfg configs))
                (\<lambda>e. if e = OSError then after_save_error device patch previous cfg (dict_put device cfg configs) else raise e))
      (andthen (modifies (set_config device cfg))
       (bnd (get_config_for device) (\<lambda>result. andthen (refresh_entry device result) (ret result)))))
     (\<lambda>_. settled_devices) (\<lambda>_. settled_devices)" (is "triple ?P ?m _ _") for previous cfg configs
    unfolding triple_def [of ?P]
  proof (intro allI impI)
    fix w assume w: "?P w"
    then have a: "agreeing configs (dv_file w)" by (auto simp: settled_devices_def)
    have "stored_config cfg"
      using w p merged_stored config_of_stored [of w device] by (auto simp: settled_devices_def agreeing_def)
    from commit_settled [OF a this] have "triple (part_is (True, configs, dv_file w)) ?m (\<lambda>_. settled_devices) (\<lambda>_. settled_devices)" .
    moreover have "part_is (True, configs, dv_file w) w" using w by (simp add: device_part_def settled_devices_def)
    ultimately show "case ?m w of (Inl e, t) \<Rightarrow> settled_devices t | (Inr x, t) \<Rightarrow> settled_devices t"
      by (simp add: triple_def)
  qed
  show ?thesis
    unfolding update_config_def
  proof (rule triple_andthen [OF settled_ensure], rule triple_bnd_reads, rule triple_andthen)
    fix x
    show "triple (\<lambda>w. settled_devices w \<and> previous_mode w device = x)
      (case dc_pipeline patch of None \<Rightarrow> ret () | Some m \<Rightarrow> update_speech (mode_patch (Some m)) (Some device))
      (\<lambda>_. settled_devices) (\<lambda>_. settled_devices)"
      by (rule triple_pre [OF mode]) simp
  qed (rule triple_bnd_reads, use commit in \<open>auto split: prod.split\<close>)
qed



section \<open>Properties\<close>

text \<open>Settings survive a restart: what \<open>save_device_configs\<close> writes is read back as the same map of
  settings, for every map of well-formed settings; only the pipeline mode, which belongs to the speech
  selections, is left out.\<close>

theorem settings_survive_a_restart:
  assumes "is_dict cs" and "list_all (\<lambda>(d, c). ok_config c) cs"
  shows "load_device_configs (Doc (saved_configs cs)) = Inr (dict_map (\<lambda>c. c\<lparr>dc_pipeline := None\<rparr>) cs)"
  by (rule load_saved [OF assms])

definition demo_config :: device_config where
  "demo_config = no_config\<lparr>dc_name := Some ''Kitchen'', dc_rate := Some 48000, dc_barge_in := Some False,
     dc_buttons := Some [(''long_press'', Say_prompt ''Good morning''), (''double_press'', Run_command ''set_volume'' (Some 40))]\<rparr>"

lemma demo_config_ok: "stored_config demo_config"
proof -
  have "strip ''Good morning'' = ''Good morning''" by code_simp
  then show ?thesis
    by (simp add: stored_config_def ok_config_def ok_fields_def demo_config_def no_config_def ok_buttons_def
        ok_action_def is_dict_def dict_keys_def valid_gestures_def valid_button_commands_def)
qed

theorem settings_survive_a_restart_witness:
  "load_device_configs (Doc (saved_configs [(''kitchen'', demo_config)])) = Inr [(''kitchen'', demo_config)]"
proof -
  have "list_all (\<lambda>(d, c). ok_config c) [(''kitchen'', demo_config)]" "dc_pipeline demo_config = None"
    using demo_config_ok by (simp_all add: stored_config_def)
  from settings_survive_a_restart [OF _ this(1)] this(2) show ?thesis
    by (simp add: dict_map_def is_dict_def dict_keys_def)
qed



text \<open>A rate between 0 and 1 passes the check \<open>value > 0\<close> before it is truncated: it is kept as 0, which the
  strict reader refuses once it has been written.\<close>

theorem fractional_rate_is_kept_as_zero:
  "load_device_configs (Doc (JObj [(''hall'', JObj [(''output_sample_rate'', JFloat (1 / 2))])]))
     = Inr [(''hall'', no_config\<lparr>dc_rate := Some 0\<rparr>)]
   \<and> load_strict Write_ok (Doc (saved_configs [(''hall'', no_config\<lparr>dc_rate := Some 0\<rparr>)]))
     = (Inl (ConfigError ''devices.*.output_sample_rate''), Doc (saved_configs [(''hall'', no_config\<lparr>dc_rate := Some 0\<rparr>)]))"
  by code_simp

text \<open>An update of the settings of a device keeps memory and disk together: whether it returns, fails on
  the speech selection, or loses or tears one of its writes, the settings in memory are the ones the next
  start would read from \<open>devices.json\<close>.\<close>

theorem update_config_keeps_memory_and_disk:
  assumes "settled_devices w" and "ok_config patch"
  shows "settled_devices (snd (update_config device patch w))"
  using triple_sameD [OF update_config_settled [OF assms(2)] assms(1)] .

definition demo_devices :: device_world where
  "demo_devices = speech_state.extend demo_speech_state
     (device_world.fields (Doc (saved_configs [(''kitchen'', demo_config)])) [(''kitchen'', demo_config)] True [] 100 {})"

lemma demo_settled: "settled_devices demo_devices"
proof -
  have "agreeing [(''kitchen'', demo_config)] (Doc (saved_configs [(''kitchen'', demo_config)]))"
    by (rule agreeing_saved) (use demo_config_ok in \<open>simp_all add: is_dict_def dict_keys_def\<close>)
  then show ?thesis by (simp add: settled_devices_def demo_devices_def device_world.defs speech_state.defs)
qed

theorem update_config_keeps_memory_and_disk_witness:
  "settled_devices (snd (update_config ''kitchen'' (no_config\<lparr>dc_rate := Some 16000\<rparr>) demo_devices))"
  by (rule update_config_keeps_memory_and_disk [OF demo_settled])
    (simp add: ok_config_def ok_fields_def no_config_def)

text \<open>Choosing a voice mode works: on top of any settings, the patch for a mode gives settings whose
  mode it is.\<close>

theorem voice_mode_patch_sets_mode:
  "voice_mode (Some (merge_config c (voice_mode_patch ''websocket''))) = ''websocket''
   \<and> voice_mode (Some (merge_config c (voice_mode_patch ''realtime''))) = ''realtime''
   \<and> voice_mode (Some (merge_config c (voice_mode_patch ''webrtc''))) = ''webrtc''
   \<and> \<not> barge_in_enabled (Some (merge_config c (voice_mode_patch ''websocket'')))"
  by (simp add: voice_mode_def transport_mode_def pipeline_mode_def merge_config_def voice_mode_patch_def
      orelse_def no_config_def barge_in_enabled_def)

lemma get_config_for_entries: "dv_entries (snd (get_config_for d w)) = dv_entries w" "dv_aborted (snd (get_config_for d w)) = dv_aborted w"
  by (auto simp: get_config_for_def ensure_configs_loaded_def action_simps split: sum.split)

lemma reconnect_facts:
  assumes "register_device d ws name w = (Inr e, w')"
  shows "dict_get (dv_entries w') d = Some e \<and> de_ws e = ws \<and> de_state e = Idle \<and> de_seq e = 0 \<and> de_abort e = None
    \<and> (\<forall>old. old \<noteq> ws \<longrightarrow> unregister_device d (Some old) w' = w')
    \<and> (\<forall>p ev. dict_get (dv_entries w) d = Some p \<longrightarrow> de_abort p = Some ev \<longrightarrow> ev \<in> dv_aborted w')"
proof -
  let ?v = "abort_active_turn d w"
  have ab: "ev \<in> dv_aborted ?v" if "dict_get (dv_entries w) d = Some p" "de_abort p = Some ev" for p ev
    using that by (simp add: abort_active_turn_def)
  obtain u where u: "ensure_configs_loaded ?v = (Inr (), u)" "dv_aborted u = dv_aborted ?v"
    using assms by (auto simp: register_device_def ensure_configs_loaded_def action_simps split: prod.splits sum.splits if_splits)
  obtain cfg x where g: "get_config_for d u = (Inr cfg, x)"
    using assms u by (auto simp: register_device_def action_simps split: prod.splits sum.splits)
  have x: "dv_aborted x = dv_aborted ?v" using get_config_for_entries(2) [of d u] g u(2) by simp
  have e: "e = new_entry d ws name cfg (dict_get (dv_entries x) d) (dv_now x)"
    and w': "w' = x\<lparr>dv_entries := dict_put d e (dv_entries x)\<rparr>"
    using assms u g by (auto simp: register_device_def action_simps)
  show ?thesis
    using ab x by (auto simp: w' unregister_device_def) (simp_all add: e new_entry_def)
qed

text \<open>C9: a reconnect wins over the close of the socket it replaced: after a registration the late
  \<open>unregister\<close> of any other socket changes nothing, the device starts a new idle session with sequence 0
  and no turn, and the turn of the old session has been aborted.\<close>

theorem reconnect_survives_late_close:
  assumes "register_device d ws name w = (Inr e, w')"
  shows "dict_get (dv_entries w') d = Some e \<and> de_ws e = ws \<and> de_state e = Idle \<and> de_seq e = 0 \<and> de_abort e = None
    \<and> (\<forall>old. old \<noteq> ws \<longrightarrow> unregister_device d (Some old) w' = w')
    \<and> (\<forall>p ev. dict_get (dv_entries w) d = Some p \<longrightarrow> de_abort p = Some ev \<longrightarrow> ev \<in> dv_aborted w')"
  using reconnect_facts [OF assms] .


lemma demo_config_for: "\<exists>c. config_for demo_devices d = Inr c"
proof -
  have "accepted demo_speech (parts_of demo_devices)"
    using demo_accepted by (simp add: demo_devices_def speech_state.defs parts_of_def demo_speech_state_def)
  moreover have "unique_json (ss_devices demo_devices)"
    using unique_jat [OF demo_unique, of "''devices''"]
    by (simp add: demo_devices_def speech_state.defs demo_speech_state_def demo_speech_parts_def)
  ultimately obtain v where "voice_settings demo_devices d = Inr v" using voice_settings_loaded by blast
  then show ?thesis by (simp add: config_for_def)
qed

theorem reconnect_survives_late_close_witness:
  "\<exists>e w'. register_device ''kitchen'' 7 None demo_devices = (Inr e, w') \<and> de_ws e = 7
     \<and> unregister_device ''kitchen'' (Some 3) w' = w'"
proof -
  have l: "dv_loaded demo_devices" "dv_entries demo_devices = []"
    by (simp_all add: demo_devices_def device_world.defs speech_state.defs)
  obtain c where "config_for demo_devices ''kitchen'' = Inr c" using demo_config_for by blast
  then have "\<exists>e w'. register_device ''kitchen'' 7 None demo_devices = (Inr e, w')"
    using l by (simp add: register_device_def action_simps ensure_configs_loaded_def get_config_for_def
        abort_active_turn_def dict_get_def)
  then obtain e w' where r: "register_device ''kitchen'' 7 None demo_devices = (Inr e, w')" by blast
  then show ?thesis using reconnect_survives_late_close [OF r] by auto
qed

lemma next_seq_entry:
  assumes "dict_get (dv_entries w) d = Some e"
  shows "next_seq d w = (seq_after (de_seq e), w\<lparr>dv_entries := dict_put d (e\<lparr>de_seq := seq_after (de_seq e)\<rparr>) (dv_entries w)\<rparr>)"
  using assms by (simp add: next_seq_def Let_def)

lemma next_seq_iterate:
  assumes "dict_get (dv_entries w) d = Some e"
  shows "dict_get (dv_entries (((\<lambda>w. snd (next_seq d w)) ^^ k) w)) d = Some (e\<lparr>de_seq := (seq_after ^^ k) (de_seq e)\<rparr>)"
  by (induction k) (simp_all add: assms next_seq_entry)

text \<open>The sequence numbers of a connected device count 1, 2, ... modulo 65536 from the start of its
  session, so the audio frame that carries one is never refused as out of range, and the device reads the
  number back from it.\<close>

theorem sequence_numbers_wrap:
  assumes "dict_get (dv_entries w) d = Some e" and "de_seq e = 0"
  shows "\<exists>n bs. fst (next_seq d (((\<lambda>w. snd (next_seq d w)) ^^ k) w)) = n \<and> n = (int k + 1) mod 65536
    \<and> make_binary_frame TTS_AUDIO n payload = Inr bs
    \<and> parse_binary_frame bs = Some \<lparr> bf_type = TTS_AUDIO, bf_seq = n, bf_payload = payload \<rparr>"
proof -
  let ?n = "(int k + 1) mod 65536"
  have "fst (next_seq d (((\<lambda>w. snd (next_seq d w)) ^^ k) w)) = seq_after ((seq_after ^^ k) 0)"
    using next_seq_entry [OF next_seq_iterate [OF assms(1)]] assms(2) by simp
  also have "\<dots> = ?n" using seq_after_iterate [of "Suc k" 0] by (simp add: add.commute)
  finally have n: "fst (next_seq d (((\<lambda>w. snd (next_seq d w)) ^^ k) w)) = ?n" .
  have "0 \<le> ?n" "?n \<le> 65535" using pos_mod_bound [of 65536 "int k + 1"] by simp_all
  then obtain bs where "make_binary_frame TTS_AUDIO ?n payload = Inr bs"
    by (simp add: make_binary_frame_def TTS_AUDIO_def)
  then show ?thesis using n parse_of_make by blast
qed

theorem sequence_numbers_wrap_witness:
  "\<exists>w. fst (next_seq ''kitchen'' (((\<lambda>w. snd (next_seq ''kitchen'' w)) ^^ 65535) w)) = 0"
proof (rule exI)
  let ?w = "demo_devices\<lparr>dv_entries := [(''kitchen'', new_entry ''kitchen'' 1 None no_config None 100)]\<rparr>"
  have e: "dict_get (dv_entries ?w) ''kitchen'' = Some (new_entry ''kitchen'' 1 None no_config None 100)"
    by (simp add: dict_get_def)
  have z: "de_seq (new_entry ''kitchen'' 1 None no_config None 100) = 0" by (simp add: new_entry_def)
  have "(int 65535 + 1) mod 65536 = 0" by simp
  then show "fst (next_seq ''kitchen'' (((\<lambda>w. snd (next_seq ''kitchen'' w)) ^^ 65535) ?w)) = 0"
    using sequence_numbers_wrap [OF e z, of 65535] by metis
qed

definition cleared :: device_config where
  "cleared = demo_config\<lparr>dc_buttons := Some []\<rparr>"

lemma cleared_read: "load_device_configs (Doc (saved_configs [(''kitchen'', cleared)])) = Inr [(''kitchen'', demo_config\<lparr>dc_buttons := None\<rparr>)]"
  by code_simp

text \<open>
  Clearing the actions of a device stores an empty map in memory, which the reader drops, so the settings
  read back after a write that replaced the file and then failed differ from the ones meant: the handler
  takes the write for lost and keeps the old actions, although the file has none.
\<close>

theorem cleared_buttons_come_back:
  "dv_configs (snd (update_config ''kitchen'' (no_config\<lparr>dc_buttons := Some []\<rparr>) demo_devices)) = [(''kitchen'', demo_config)]
   \<and> load_device_configs (dv_file (snd (update_config ''kitchen'' (no_config\<lparr>dc_buttons := Some []\<rparr>) demo_devices)))
     = Inr [(''kitchen'', demo_config\<lparr>dc_buttons := None\<rparr>)]"
proof -
  have d: "dv_loaded demo_devices" "dv_entries demo_devices = []" "dv_configs demo_devices = [(''kitchen'', demo_config)]"
      "ss_faults demo_devices = [Write_visible_fsync_failed]"
    by (simp_all add: demo_devices_def device_world.defs speech_state.defs demo_speech_state_def)
  have m: "merge_config (config_of demo_devices ''kitchen'') ((no_config\<lparr>dc_buttons := Some []\<rparr>)\<lparr>dc_pipeline := None\<rparr>) = cleared"
    by (simp add: config_of_def d dict_get_def merge_config_def orelse_def no_config_def demo_config_def cleared_def)
  have p: "dict_put ''kitchen'' cleared [(''kitchen'', demo_config)] = [(''kitchen'', cleared)]"
    by (simp add: dict_put_def)
  have n: "\<not> same_dict same_config [(''kitchen'', demo_config\<lparr>dc_buttons := None\<rparr>)] [(''kitchen'', cleared)]"
    by (simp add: same_dict_def dict_get_def same_config_def cleared_def)
  have "snd (update_config ''kitchen'' (no_config\<lparr>dc_buttons := Some []\<rparr>) demo_devices)
     = demo_devices\<lparr>dv_file := Doc (saved_configs [(''kitchen'', cleared)]), ss_faults := []\<rparr>"
    using d m n by (simp add: update_config_def after_save_error_def action_simps ensure_configs_loaded_def p
        save_configs_def next_outcome_def write_json_def cleared_read no_config_def dict_get_def cong: run_congs)
  then show ?thesis using d cleared_read by simp
qed

end
