(* ===== verification/Reply_Text.thy ===== *)
theory Reply_Text
  imports Vauxr_Prelude "HOL-Library.Sublist"
begin

text \<open>
  The text of a reply on its way to speech: the follow-up tag and the follow-up decision of
  \<open>pipeline.py\<close>, \<open>idle_segmenter.py\<close> and \<open>segment_queue.py\<close>. Timers and tasks are events: \<open>Idle_fires\<close>
  is the timer callback, and the worker of the queue takes, finishes and ends as separate steps. The
  full-width question mark is outside the text model.
\<close>

section \<open>The follow-up tag\<close>

definition follow_up_tag :: string where
  "follow_up_tag = ''[[follow_up]]''"

fun contains :: "string \<Rightarrow> string \<Rightarrow> bool" where
  "contains t [] \<longleftrightarrow> t = []"
| "contains t (c # s) \<longleftrightarrow> starts_with t (c # s) \<or> contains t s"

text \<open>\<open>_FOLLOW_UP_RE.sub(" ", text)\<close> for the pattern \<open>\s*\[\[follow_up\]\]\s*\<close>, from the left.\<close>

function sub_tag :: "string \<Rightarrow> string" where
  "sub_tag s =
    (if s = [] then []
     else if starts_with follow_up_tag (lstrip s) then CHR '' '' # sub_tag (lstrip (drop (length follow_up_tag) (lstrip s)))
     else hd s # sub_tag (tl s))"
  by pat_completeness auto
termination
proof (relation "measure length")
  fix s assume s: "s \<noteq> []" and t: "starts_with follow_up_tag (lstrip s)"
  have l: "length (lstrip r) \<le> length r" for r by (simp add: lstrip_def length_dropWhile_le)
  have "length (lstrip (drop (length follow_up_tag) (lstrip s))) \<le> length (lstrip s) - length follow_up_tag"
    using l [of "drop (length follow_up_tag) (lstrip s)"] by simp
  moreover have "0 < length (lstrip s)" "0 < length follow_up_tag"
    using t by (auto simp: starts_with_def follow_up_tag_def)
  ultimately show "(lstrip (drop (length follow_up_tag) (lstrip s)), s) \<in> measure length"
    using l [of s] unfolding in_measure by linarith
qed simp_all

declare sub_tag.simps [simp del]

definition strip_follow_up_tag :: "string \<Rightarrow> string" where
  "strip_follow_up_tag s = strip (sub_tag s)"

definition strip_follow_up_tag_inline :: "string \<Rightarrow> string" where
  "strip_follow_up_tag_inline s = sub_tag s"

record follow_up_result =
  fu_follow :: bool
  fu_text :: string

definition ends_with :: "string \<Rightarrow> string \<Rightarrow> bool" where
  "ends_with t s \<longleftrightarrow> starts_with (rev t) (rev s)"

definition resolve_follow_up :: "string \<Rightarrow> string \<Rightarrow> follow_up_result" where
  "resolve_follow_up full_reply mode =
    (let trimmed = strip full_reply in
     if mode = ''always'' then \<lparr> fu_follow = True, fu_text = strip_follow_up_tag trimmed \<rparr>
     else if mode = ''never'' then \<lparr> fu_follow = False, fu_text = strip_follow_up_tag trimmed \<rparr>
     else if contains follow_up_tag trimmed then \<lparr> fu_follow = True, fu_text = strip_follow_up_tag trimmed \<rparr>
     else if ends_with ''?'' (rstrip trimmed) then \<lparr> fu_follow = True, fu_text = trimmed \<rparr>
     else \<lparr> fu_follow = False, fu_text = trimmed \<rparr>)"

lemma starts_with_prefix: "starts_with t s \<longleftrightarrow> prefix t s"
  by (metis append_eq_conv_conj append_take_drop_id prefix_def starts_with_def)

lemma contains_sublist: "contains t s \<longleftrightarrow> sublist t s"
  by (induction s) (auto simp: starts_with_prefix sublist_Cons_right)

lemma tag_chars: "c \<in> set follow_up_tag \<Longrightarrow> \<not> is_space c"
  by (auto simp: follow_up_tag_def is_space_def char_between_def)

text \<open>A prefix of the substituted text without white space is a prefix of the text itself.\<close>

lemma prefix_sub_tag:
  "prefix t (sub_tag s) \<Longrightarrow> list_all (\<lambda>c. \<not> is_space c) t \<Longrightarrow> prefix t s"
proof (induction s arbitrary: t rule: sub_tag.induct)
  case (1 s)
  show ?case
  proof (cases t)
    case (Cons c t')
    have sp: "is_space CHR '' ''" by (simp add: is_space_def char_between_def)
    have s: "s \<noteq> []" using 1(3) Cons by (auto simp: sub_tag.simps [of s])
    have n: "\<not> starts_with follow_up_tag (lstrip s)"
      using 1(3,4) Cons sp s by (auto simp: sub_tag.simps [of s] split: if_splits)
    then have "c = hd s" "prefix t' (sub_tag (tl s))"
      using 1(3) Cons s by (auto simp: sub_tag.simps [of s])
    then have "prefix t' (tl s)" using 1(2) [OF s n] 1(4) Cons by simp
    then show ?thesis using Cons s \<open>c = hd s\<close> by (cases s) auto
  qed simp
qed

lemma tag_no_space: "list_all (\<lambda>c. \<not> is_space c) follow_up_tag"
  by (simp add: list_all_iff tag_chars)

lemma sub_tag_clean: "\<not> sublist follow_up_tag (sub_tag s)"
proof (induction s rule: sub_tag.induct)
  case (1 s)
  have ne: "follow_up_tag \<noteq> []" by (simp add: follow_up_tag_def)
  show ?case
  proof (cases "s = []")
    case True
    then show ?thesis using ne by (simp add: sub_tag.simps)
  next
    case False
    show ?thesis
    proof (cases "starts_with follow_up_tag (lstrip s)")
      case True
      have "\<not> prefix follow_up_tag (CHR '' '' # r)" for r
        by (simp add: follow_up_tag_def)
      then show ?thesis using 1(1) [OF False True] True False by (simp add: sub_tag.simps [of s] sublist_Cons_right)
    next
      case no: False
      have "\<not> prefix follow_up_tag (sub_tag s)"
      proof
        assume "prefix follow_up_tag (sub_tag s)"
        then have p: "prefix follow_up_tag s" using prefix_sub_tag tag_no_space by blast
        then have "\<not> is_space (hd s)" using ne tag_chars [of "hd follow_up_tag"] by (auto simp: prefix_def)
        then have "lstrip s = s" using False by (cases s) (simp_all add: lstrip_def)
        then show False using no p by (simp add: starts_with_prefix)
      qed
      then show ?thesis using 1(2) [OF False no] no False
        by (simp add: sub_tag.simps [of s] sublist_Cons_right)
    qed
  qed
qed

lemma sublist_strip: "sublist (strip s) s"
proof -
  obtain t where "lstrip s = strip s @ t" using rstrip_prefix [of "lstrip s"] by (auto simp: strip_def)
  moreover have "s = takeWhile is_space s @ lstrip s" by (simp add: lstrip_def)
  ultimately have "s = takeWhile is_space s @ strip s @ t" by simp
  then show ?thesis unfolding sublist_def by blast
qed

lemma strip_tag_clean: "\<not> sublist follow_up_tag (strip_follow_up_tag s)"
  using sub_tag_clean [of s] sublist_strip [of "sub_tag s"]
  unfolding strip_follow_up_tag_def by (meson sublist_order.order_trans)

lemma resolved_text_clean: "\<not> contains follow_up_tag (fu_text (resolve_follow_up reply mode))"
  using strip_tag_clean [of "strip reply"] by (auto simp: resolve_follow_up_def Let_def contains_sublist)

text \<open>The follow-up tag is never part of a reply: in every follow-up mode the text that is recorded and
  spoken does not contain it, \<open>always\<close> and \<open>never\<close> decide alone, and in \<open>auto\<close> a tag anywhere in the reply
  asks for a follow-up.\<close>

theorem follow_up_tag_never_in_reply:
  "\<not> contains follow_up_tag (fu_text (resolve_follow_up reply mode))
   \<and> fu_follow (resolve_follow_up reply ''always'') \<and> \<not> fu_follow (resolve_follow_up reply ''never'')
   \<and> (contains follow_up_tag (strip reply) \<longrightarrow> fu_follow (resolve_follow_up reply ''auto''))"
  using resolved_text_clean by (auto simp: resolve_follow_up_def Let_def)

theorem follow_up_tag_never_in_reply_witness:
  "fu_follow (resolve_follow_up ''Shall I? [[follow_up]]'' ''auto'')
   \<and> \<not> contains follow_up_tag (fu_text (resolve_follow_up ''Shall I? [[follow_up]]'' ''auto''))"
proof -
  have "contains follow_up_tag (strip ''Shall I? [[follow_up]]'')" by code_simp
  then show ?thesis using follow_up_tag_never_in_reply by blast
qed



section \<open>The idle segmenter\<close>

text \<open>The timer is the deadline it was armed for; the callbacks are the outputs of a step.\<close>

record segmenter =
  sg_pause :: time
  sg_idle :: bool
  sg_buffer :: string
  sg_ended :: bool
  sg_timer :: "time option"

datatype segment_output = Segment string | Stream_end "string option"

definition new_segmenter :: "int \<Rightarrow> segmenter" where
  "new_segmenter idle_pause_ms = \<lparr> sg_pause = of_int idle_pause_ms / 1000, sg_idle = 0 < idle_pause_ms,
     sg_buffer = [], sg_ended = False, sg_timer = None \<rparr>"

definition seg_push :: "time \<Rightarrow> string \<Rightarrow> segmenter \<Rightarrow> segmenter" where
  "seg_push now text g =
    (if sg_ended g \<or> text = [] then g
     else let h = g\<lparr>sg_buffer := sg_buffer g @ text\<rparr> in
       if sg_idle g then h\<lparr>sg_timer := Some (now + sg_pause g)\<rparr> else h)"

definition seg_end :: "segmenter \<Rightarrow> segmenter \<times> segment_output list" where
  "seg_end g =
    (if sg_ended g then (g, [])
     else let h = g\<lparr>sg_ended := True, sg_timer := None\<rparr> in
       if sg_buffer g \<noteq> [] then (h\<lparr>sg_buffer := []\<rparr>, [Stream_end (Some (sg_buffer g))]) else (h, [Stream_end None]))"

definition seg_abort :: "segmenter \<Rightarrow> segmenter" where
  "seg_abort g = (if sg_ended g then g else g\<lparr>sg_ended := True, sg_timer := None, sg_buffer := []\<rparr>)"

definition seg_flush :: "segmenter \<Rightarrow> segmenter \<times> segment_output list" where
  "seg_flush g =
    (let h = g\<lparr>sg_timer := None\<rparr> in
     if sg_ended g \<or> sg_buffer g = [] then (h, []) else (h\<lparr>sg_buffer := []\<rparr>, [Segment (sg_buffer g)]))"

text \<open>Events in time order; the timer callback runs only when its deadline has come.\<close>

datatype segment_event = Delta time string | Idle_fires time | Reply_end | Reply_abort

fun seg_step :: "segment_event \<Rightarrow> segmenter \<Rightarrow> segmenter \<times> segment_output list" where
  "seg_step (Delta now text) g = (seg_push now text g, [])"
| "seg_step (Idle_fires now) g =
     (case sg_timer g of None \<Rightarrow> (g, []) | Some due \<Rightarrow> if due \<le> now then seg_flush g else (g, []))"
| "seg_step Reply_end g = seg_end g"
| "seg_step Reply_abort g = (seg_abort g, [])"

fun seg_run :: "segment_event list \<Rightarrow> segmenter \<Rightarrow> segmenter \<times> segment_output list" where
  "seg_run [] g = (g, [])"
| "seg_run (e # es) g = (case seg_step e g of (h, out) \<Rightarrow> (case seg_run es h of (k, later) \<Rightarrow> (k, out @ later)))"

fun delta_text :: "segment_event list \<Rightarrow> string" where
  "delta_text [] = []"
| "delta_text (Delta _ t # es) = t @ delta_text es"
| "delta_text (_ # es) = delta_text es"

fun output_text :: "segment_output list \<Rightarrow> string" where
  "output_text [] = []"
| "output_text (Segment t # os) = t @ output_text os"
| "output_text (Stream_end None # os) = output_text os"
| "output_text (Stream_end (Some t) # os) = t @ output_text os"

definition no_end :: "segment_event \<Rightarrow> bool" where
  "no_end e \<longleftrightarrow> e \<noteq> Reply_end \<and> e \<noteq> Reply_abort"

definition is_segment :: "segment_output \<Rightarrow> bool" where
  "is_segment o' \<longleftrightarrow> (case o' of Segment t \<Rightarrow> t \<noteq> [] | Stream_end _ \<Rightarrow> False)"

lemma output_text_append: "output_text (a @ b) = output_text a @ output_text b"
  by (induction a rule: output_text.induct) auto

lemma seg_run_open:
  "list_all no_end es \<Longrightarrow> \<not> sg_ended g \<Longrightarrow> seg_run es g = (h, out) \<Longrightarrow>
   \<not> sg_ended h \<and> sg_buffer g @ delta_text es = output_text out @ sg_buffer h \<and> list_all is_segment out"
proof (induction es g arbitrary: h out rule: seg_run.induct)
  case (2 e es g)
  obtain g' o1 where s: "seg_step e g = (g', o1)" by (cases "seg_step e g")
  obtain o2 where r: "seg_run es g' = (h, o2)" and out: "out = o1 @ o2"
    using 2(4) s by (auto split: prod.splits)
  have "\<not> sg_ended g' \<and> sg_buffer g @ delta_text [e] = output_text o1 @ sg_buffer g' \<and> list_all is_segment o1"
    using 2(2,3) s
    by (cases e) (auto simp: no_end_def seg_push_def seg_flush_def is_segment_def Let_def split: option.splits if_splits)
  moreover have "delta_text (e # es) = delta_text [e] @ delta_text es" by (cases e) auto
  ultimately show ?case
    using 2(1) [OF s [symmetric], of h o2] 2(2) r out by (auto simp: output_text_append) (metis append_assoc)
qed simp

lemma seg_ended_silent: "sg_ended g \<Longrightarrow> snd (seg_run es g) = []"
proof (induction es g rule: seg_run.induct)
  case (2 e es g)
  have "sg_ended (fst (seg_step e g)) \<and> snd (seg_step e g) = []"
    using 2(2) by (cases e) (auto simp: seg_push_def seg_end_def seg_abort_def seg_flush_def Let_def split: option.split)
  then show ?case using 2(1) by (auto split: prod.split)
qed simp

lemma seg_run_append:
  "seg_run (xs @ ys) g = (case seg_run xs g of (h, a) \<Rightarrow> (case seg_run ys h of (k, b) \<Rightarrow> (k, a @ b)))"
  by (induction xs arbitrary: g) (auto split: prod.split)

lemma segments_whole:
  assumes "list_all no_end es" and "seg_run (es @ Reply_end # later) (new_segmenter pause) = (h, out)"
  shows "\<exists>segs final. out = segs @ [Stream_end final] \<and> list_all is_segment segs \<and> final \<noteq> Some []
    \<and> output_text out = delta_text es"
proof -
  let ?g = "new_segmenter pause"
  obtain k a where k: "seg_run es ?g = (k, a)" by (cases "seg_run es ?g")
  have open_k: "\<not> sg_ended k" "delta_text es = output_text a @ sg_buffer k" "list_all is_segment a"
    using seg_run_open [OF assms(1) _ k] by (simp_all add: new_segmenter_def)
  define final where "final = (if sg_buffer k = [] then None else Some (sg_buffer k))"
  obtain m where e: "seg_end k = (m, [Stream_end final])" "sg_ended m"
    using open_k(1) by (cases "sg_buffer k = []") (auto simp: seg_end_def Let_def final_def)
  have "out = a @ [Stream_end final] @ snd (seg_run later m)"
    using assms(2) k e(1) by (auto simp: seg_run_append split: prod.splits)
  then have out: "out = a @ [Stream_end final]" using seg_ended_silent [OF e(2)] by simp
  then have "output_text out = delta_text es"
    using open_k(2) by (simp add: output_text_append final_def)
  moreover have "final \<noteq> Some []" by (simp add: final_def)
  ultimately show ?thesis using out open_k(3) by blast
qed

text \<open>The idle segmenter passes a reply on whole: whatever pauses cut it, the segments and the final
  one are, joined in order, exactly the text pushed before the end; the end is reported once, as the last
  output, and no segment is empty.\<close>

theorem segments_are_the_reply:
  assumes "list_all no_end es" and "seg_run (es @ Reply_end # later) (new_segmenter pause) = (h, out)"
  shows "\<exists>segs final. out = segs @ [Stream_end final] \<and> list_all is_segment segs \<and> final \<noteq> Some []
    \<and> output_text out = delta_text es"
  using segments_whole [OF assms] .

theorem segments_are_the_reply_witness:
  "output_text (snd (seg_run ([Delta 0 ''Hello '', Idle_fires 1, Delta 2 ''there''] @ [Reply_end]) (new_segmenter 1000))) = ''Hello there''"
proof -
  obtain h out where "seg_run ([Delta 0 ''Hello '', Idle_fires 1, Delta 2 ''there''] @ [Reply_end]) (new_segmenter 1000) = (h, out)"
    by fastforce
  then show ?thesis
    using segments_are_the_reply [of "[Delta 0 ''Hello '', Idle_fires 1, Delta 2 ''there'']" "[]" 1000 h out]
    by (auto simp: no_end_def)
qed

end
