(* ===== verification/Reply_Speech.thy ===== *)
theory Reply_Speech
  imports Reply_Text
begin

text \<open>
  \<open>segment_queue.py\<close> and its use in \<open>pipeline._route_via_agent\<close>: the segments of a reply, without the
  follow-up tag, are queued for one worker that speaks them one after the other. A turn of the worker
  runs from the head of its loop to the start of a synthesis, to a wait or to its end;
  \<open>Synth_done\<close> is the end of the synthesis it waits for.
\<close>

section \<open>The queue\<close>

record segment_queue =
  qu_items :: "string list"
  qu_closed :: bool
  qu_aborted :: bool
  qu_busy :: "string option"
  qu_ended :: bool
  qu_spoken :: "string list"
  qu_errors :: nat

definition empty_queue :: segment_queue where
  "empty_queue = \<lparr> qu_items = [], qu_closed = False, qu_aborted = False, qu_busy = None, qu_ended = False,
     qu_spoken = [], qu_errors = 0 \<rparr>"

definition queue_push :: "string \<Rightarrow> segment_queue \<Rightarrow> segment_queue" where
  "queue_push segment q = (if qu_closed q \<or> segment = [] then q else q\<lparr>qu_items := qu_items q @ [segment]\<rparr>)"

definition queue_close :: "segment_queue \<Rightarrow> segment_queue" where
  "queue_close q = q\<lparr>qu_closed := True\<rparr>"

definition queue_worker :: "segment_queue \<Rightarrow> segment_queue" where
  "queue_worker q =
    (if qu_ended q \<or> qu_busy q \<noteq> None then q
     else if qu_aborted q then q\<lparr>qu_ended := True\<rparr>
     else case qu_items q of
       [] \<Rightarrow> if qu_closed q then q\<lparr>qu_ended := True\<rparr> else q
     | segment # rest \<Rightarrow> q\<lparr>qu_items := rest, qu_busy := Some segment, qu_spoken := qu_spoken q @ [segment]\<rparr>)"

definition queue_synth_done :: "bool \<Rightarrow> segment_queue \<Rightarrow> segment_queue" where
  "queue_synth_done ok q = (if qu_busy q = None then q
     else q\<lparr>qu_busy := None, qu_errors := (if ok then qu_errors q else Suc (qu_errors q))\<rparr>)"


section \<open>A reply from the agent\<close>

text \<open>\<open>on_segment_flush\<close> and \<open>on_segment_end\<close>\<close>

definition speak_segment :: "string \<Rightarrow> segment_queue \<Rightarrow> segment_queue" where
  "speak_segment text q =
    (let cleaned = strip_follow_up_tag_inline text in if cleaned \<noteq> [] then queue_push cleaned q else q)"

fun on_output :: "segment_output \<Rightarrow> segment_queue \<Rightarrow> segment_queue" where
  "on_output (Segment t) q = speak_segment t q"
| "on_output (Stream_end (Some t)) q = queue_close (speak_segment t q)"
| "on_output (Stream_end None) q = queue_close q"

datatype reply_event =
    Agent segment_event
  | Worker_turn
  | Synth_done bool
  | Abort_set
  | Abort_seen

text \<open>
  The listener of the turn; an error of the agent and an abort of the turn close the queue. The abort flag
  is seen by the worker at once (\<open>Abort_set\<close>) and by the callback of the turn later (\<open>Abort_seen\<close>).
\<close>

fun reply_step :: "reply_event \<Rightarrow> segmenter \<times> segment_queue \<Rightarrow> segmenter \<times> segment_queue" where
  "reply_step (Agent e) (g, q) =
     (case seg_step e g of (h, out) \<Rightarrow>
        (h, let r = fold on_output out q in if e = Reply_abort \<and> \<not> sg_ended g then queue_close r else r))"
| "reply_step Worker_turn (g, q) = (g, queue_worker q)"
| "reply_step (Synth_done ok) (g, q) = (g, queue_synth_done ok q)"
| "reply_step Abort_set (g, q) = (g, q\<lparr>qu_aborted := True\<rparr>)"
| "reply_step Abort_seen (g, q) = (seg_abort g, if sg_ended g then q else queue_close q)"

definition reply_run :: "reply_event list \<Rightarrow> segmenter \<times> segment_queue \<Rightarrow> segmenter \<times> segment_queue" where
  "reply_run es gq = fold reply_step es gq"

fun agent_events :: "reply_event list \<Rightarrow> segment_event list" where
  "agent_events [] = []"
| "agent_events (Agent e # es) = e # agent_events es"
| "agent_events (_ # es) = agent_events es"

section \<open>What is spoken\<close>

definition pushed_text :: "string \<Rightarrow> string list" where
  "pushed_text t = (if sub_tag t = [] then [] else [sub_tag t])"

fun pushed :: "segment_output list \<Rightarrow> string list" where
  "pushed [] = []"
| "pushed (Segment t # os) = pushed_text t @ pushed os"
| "pushed (Stream_end (Some t) # os) = pushed_text t @ pushed os"
| "pushed (Stream_end None # os) = pushed os"

text \<open>A run without errors and aborts: what was passed on is spoken or waiting, in order.\<close>

definition calm :: "reply_event \<Rightarrow> bool" where
  "calm e \<longleftrightarrow> e \<notin> {Abort_set, Abort_seen, Agent Reply_abort}"

definition in_queue :: "segment_output list \<Rightarrow> segmenter \<times> segment_queue \<Rightarrow> bool" where
  "in_queue out gq \<longleftrightarrow> (case gq of (g, q) \<Rightarrow>
     qu_spoken q @ qu_items q = pushed out \<and> \<not> qu_aborted q \<and> qu_closed q = sg_ended g
     \<and> (qu_ended q \<longrightarrow> qu_closed q \<and> qu_items q = []))"

lemma pushed_append: "pushed (a @ b) = pushed a @ pushed b"
  by (induction a rule: pushed.induct) auto

lemma speak_segment_open:
  "\<not> qu_closed q \<Longrightarrow> speak_segment t q = q\<lparr>qu_items := qu_items q @ pushed_text t\<rparr>"
  by (simp add: speak_segment_def queue_push_def pushed_text_def strip_follow_up_tag_inline_def)

lemma seg_step_outputs:
  assumes "seg_step e g = (h, out)" and "e \<noteq> Reply_abort"
  shows "(out = [] \<and> sg_ended h = sg_ended g) \<or> (\<exists>t. out = [Segment t] \<and> \<not> sg_ended g \<and> \<not> sg_ended h)
    \<or> (\<exists>f. out = [Stream_end f] \<and> \<not> sg_ended g \<and> sg_ended h)"
  using assms
  by (cases e) (auto simp: seg_push_def seg_end_def seg_flush_def Let_def split: option.splits if_splits)

lemma in_queue_step:
  assumes "in_queue out (g, q)" and "calm e"
  shows "in_queue (out @ (case e of Agent a \<Rightarrow> snd (seg_step a g) | _ \<Rightarrow> [])) (reply_step e (g, q))"
proof (cases e)
  case (Agent a)
  obtain h o' where s: "seg_step a g = (h, o')" by (cases "seg_step a g")
  have "a \<noteq> Reply_abort" using assms(2) Agent by (simp add: calm_def)
  from seg_step_outputs [OF s this] show ?thesis
  proof (elim disjE exE conjE)
    assume "o' = []" "sg_ended h = sg_ended g"
    then show ?thesis using assms(1) Agent s \<open>a \<noteq> Reply_abort\<close> by (auto simp: in_queue_def)
  next
    fix t assume "o' = [Segment t]" "\<not> sg_ended g" "\<not> sg_ended h"
    then show ?thesis using assms(1) Agent s \<open>a \<noteq> Reply_abort\<close>
      by (auto simp: in_queue_def speak_segment_open pushed_append)
  next
    fix f assume "o' = [Stream_end f]" "\<not> sg_ended g" "sg_ended h"
    then show ?thesis using assms(1) Agent s \<open>a \<noteq> Reply_abort\<close>
      by (cases f) (auto simp: in_queue_def speak_segment_open pushed_append queue_close_def)
  qed
qed (use assms in \<open>auto simp: in_queue_def queue_worker_def queue_synth_done_def calm_def split: list.split\<close>)

lemma in_queue_run:
  "in_queue out (g, q) \<Longrightarrow> list_all calm es \<Longrightarrow>
   in_queue (out @ snd (seg_run (agent_events es) g)) (reply_run es (g, q))
   \<and> fst (reply_run es (g, q)) = fst (seg_run (agent_events es) g)"
proof (induction es arbitrary: out g q)
  case (Cons e es)
  obtain g' q' where s: "reply_step e (g, q) = (g', q')" by (cases "reply_step e (g, q)")
  have step: "in_queue (out @ (case e of Agent a \<Rightarrow> snd (seg_step a g) | _ \<Rightarrow> [])) (g', q')"
    using in_queue_step [OF Cons.prems(1), of e] Cons.prems(2) s by simp
  have run: "reply_run (e # es) (g, q) = reply_run es (g', q')" using s by (simp add: reply_run_def)
  have calm: "calm e" "list_all calm es" using Cons.prems(2) by simp_all
  note IH = Cons.IH [OF step calm(2)]
  show ?case
  proof (cases e)
    case (Agent a)
    obtain h o' where "seg_step a g = (h, o')" by (cases "seg_step a g")
    then show ?thesis using IH Agent s run by (auto split: prod.splits)
  qed (use IH calm(1) s run in \<open>auto simp: calm_def\<close>)
qed (simp add: reply_run_def)

lemma sub_tag_id: "\<not> sublist follow_up_tag s \<Longrightarrow> sub_tag s = s"
proof (induction s rule: sub_tag.induct)
  case (1 s)
  show ?case
  proof (cases "s = []")
    case False
    have "sublist (lstrip s) s" unfolding lstrip_def by (metis suffix_dropWhile suffix_imp_sublist)
    then have n: "\<not> starts_with follow_up_tag (lstrip s)"
      using 1(3) by (meson prefix_imp_sublist starts_with_prefix sublist_order.order_trans)
    have "sublist (tl s) s" by (metis suffix_imp_sublist suffix_tl)
    then have "\<not> sublist follow_up_tag (tl s)" using 1(3) by (meson sublist_order.order_trans)
    then show ?thesis using 1(2) [OF False n] n False by (simp add: sub_tag.simps [of s])
  qed (simp add: sub_tag.simps)
qed

lemma pushed_whole:
  "\<not> sublist follow_up_tag (output_text out) \<Longrightarrow> concat (pushed out) = output_text out"
proof (induction out rule: pushed.induct)
  case (2 t os)
  then have "\<not> sublist follow_up_tag t" "\<not> sublist follow_up_tag (output_text os)"
    by (auto simp: sublist_append)
  then show ?case using 2 by (simp add: pushed_text_def sub_tag_id)
next
  case (3 t os)
  then have "\<not> sublist follow_up_tag t" "\<not> sublist follow_up_tag (output_text os)"
    by (auto simp: sublist_append)
  then show ?case using 3 by (simp add: pushed_text_def sub_tag_id)
qed simp_all

lemma spoken_whole:
  assumes "list_all calm es" and "agent_events es = before @ Reply_end # later" and "list_all no_end before"
    and "reply_run es (new_segmenter pause, empty_queue) = (g, q)" and "qu_ended q"
    and "\<not> contains follow_up_tag (delta_text before)"
  shows "concat (qu_spoken q) = delta_text before"
proof -
  let ?g = "new_segmenter pause"
  have start: "in_queue [] (?g, empty_queue)"
    by (simp add: in_queue_def empty_queue_def new_segmenter_def)
  obtain h out where out: "seg_run (before @ Reply_end # later) ?g = (h, out)"
    by (cases "seg_run (before @ Reply_end # later) ?g")
  have "in_queue out (g, q)" using in_queue_run [OF start assms(1)] assms(2,4) out by auto
  then have "qu_spoken q = pushed out" using assms(5) by (auto simp: in_queue_def)
  moreover have "output_text out = delta_text before"
    using segments_whole [OF assms(3) out] by blast
  ultimately show ?thesis using pushed_whole assms(6) by (simp add: contains_sublist)
qed

text \<open>An agent reply is spoken whole: however the deltas, the pauses that cut them and the turns of the
  speech worker interleave, once the reply has ended and the worker with it, the spoken segments joined
  in order are the text of the reply, when that has no follow-up tag in it.\<close>

theorem reply_is_spoken_whole:
  assumes "list_all calm es" and "agent_events es = before @ Reply_end # later" and "list_all no_end before"
    and "reply_run es (new_segmenter pause, empty_queue) = (g, q)" and "qu_ended q"
    and "\<not> contains follow_up_tag (delta_text before)"
  shows "concat (qu_spoken q) = delta_text before"
  using spoken_whole [OF assms] .

definition demo_reply :: "reply_event list" where
  "demo_reply = [Agent (Delta 0 ''Hello ''), Worker_turn, Agent (Idle_fires 2), Worker_turn, Agent (Delta 3 ''you''),
     Synth_done True, Agent Reply_end, Worker_turn, Synth_done False, Worker_turn]"

theorem reply_is_spoken_whole_witness:
  "concat (qu_spoken (snd (reply_run demo_reply (new_segmenter 1000, empty_queue)))) = ''Hello you''"
proof -
  obtain g q where run: "reply_run demo_reply (new_segmenter 1000, empty_queue) = (g, q)"
    by (cases "reply_run demo_reply (new_segmenter 1000, empty_queue)")
  have e: "agent_events demo_reply = [Delta 0 ''Hello '', Idle_fires 2, Delta 3 ''you''] @ Reply_end # []"
    by (simp add: demo_reply_def)
  have "qu_ended (snd (reply_run demo_reply (new_segmenter 1000, empty_queue)))"
    by (simp add: demo_reply_def reply_run_def new_segmenter_def empty_queue_def seg_push_def seg_flush_def seg_end_def
        queue_worker_def queue_synth_done_def speak_segment_def queue_push_def queue_close_def
        strip_follow_up_tag_inline_def sub_tag.simps starts_with_def follow_up_tag_def lstrip_def is_space_def char_between_def)
  then have "qu_ended q" using run by simp
  moreover have "\<not> contains follow_up_tag (delta_text [Delta 0 ''Hello '', Idle_fires 2, Delta 3 ''you''])"
    by code_simp
  ultimately show ?thesis
    using reply_is_spoken_whole [OF _ e _ run] run by (simp add: demo_reply_def calm_def no_end_def)
qed

text \<open>The speech worker is serial and stops on an abort: a step starts at most one synthesis, only when no
  other is running, never once the turn is aborted or the worker has ended, and always with the oldest
  segment of the queue.\<close>

theorem one_synthesis_at_a_time:
  assumes "reply_step e (g, q) = (g', q')" and "qu_spoken q' \<noteq> qu_spoken q"
  shows "qu_busy q = None \<and> \<not> qu_aborted q \<and> \<not> qu_ended q
    \<and> qu_items q = hd (qu_items q) # qu_items q'
    \<and> qu_spoken q' = qu_spoken q @ [hd (qu_items q)] \<and> qu_busy q' = Some (hd (qu_items q))"
proof (cases e)
  case (Agent a)
  have "qu_spoken (on_output o' r) = qu_spoken r" for o' r
    by (cases "(o', r)" rule: on_output.cases) (auto simp: speak_segment_def queue_push_def queue_close_def Let_def)
  then have "qu_spoken (fold on_output out r) = qu_spoken r" for out r
    by (induction out arbitrary: r) auto
  then have "qu_spoken q' = qu_spoken q"
    using assms(1) Agent by (auto simp: queue_close_def Let_def split: prod.splits if_splits)
  then show ?thesis using assms(2) by simp
qed (use assms in \<open>auto simp: queue_worker_def queue_synth_done_def queue_close_def split: if_splits list.splits\<close>)

theorem one_synthesis_at_a_time_witness:
  "qu_busy (queue_worker (empty_queue\<lparr>qu_items := [''one'', ''two'']\<rparr>)) = Some ''one''"
proof -
  let ?q = "empty_queue\<lparr>qu_items := [''one'', ''two'']\<rparr>"
  have "reply_step Worker_turn (new_segmenter 0, ?q) = (new_segmenter 0, queue_worker ?q)" by simp
  moreover have "qu_spoken (queue_worker ?q) \<noteq> qu_spoken ?q" by (simp add: queue_worker_def empty_queue_def)
  ultimately show ?thesis using one_synthesis_at_a_time by fastforce
qed

text \<open>
  The tag is removed from each segment on its own, so a pause of the agent inside it sends its two halves
  to speech.
\<close>

theorem split_tag_is_spoken:
  "qu_items (snd (reply_run [Agent (Delta 0 ''Bye [[follow''), Agent (Idle_fires 2), Agent (Delta 3 ''_up]]''), Agent Reply_end]
     (new_segmenter 1000, empty_queue))) = [''Bye [[follow'', ''_up]]'']"
  by (simp add: reply_run_def new_segmenter_def empty_queue_def seg_push_def seg_flush_def seg_end_def
      speak_segment_def queue_push_def queue_close_def
      strip_follow_up_tag_inline_def sub_tag.simps starts_with_def follow_up_tag_def lstrip_def is_space_def char_between_def)

end
