(* ===== verification/Voice_Turn.thy ===== *)
theory Voice_Turn
  imports Reply_Speech Config_Files Wire_Frames
begin

text \<open>
  \<open>pipeline.py\<close>: one turn of a device, from its audio or text to \<open>audio.end\<close>. What the turn waits for
  (speech recognition, the agent, the synthesizer, the socket) is its environment, a record of answers;
  \<open>tw_clock\<close> counts the awaits, and the turn may be aborted in any of them. A message is recorded with
  the abort flag at the moment it was handed to the socket. \<open>tw_tasks\<close> are the messages of tasks of
  their own, which are sent at some later time. The text of an exception is not modelled.
\<close>

datatype device_msg =
    Transcript_msg string
  | Error_msg string string
  | Audio_start int
  | Audio_frame "byte list"
  | Audio_end bool

datatype synth_event = Rate int | Chunk "byte list"

text \<open>The events of the wait for an agent's reply.\<close>

datatype turn_event =
    On_delta time string
  | On_end
  | On_error string
  | Pause_over time
  | Worker
  | Speech_rate int
  | Speech_chunk "byte list"
  | Speech_over bool
  | Abort_flag
  | Abort_callback
  | Response_timeout

record turn_env =
  te_aborts :: "nat \<Rightarrow> bool"
  te_closed :: "nat \<Rightarrow> bool"
  te_reset :: "nat \<Rightarrow> bool"
  te_fenced :: bool
  te_selected :: "exn option"
  te_transcribe :: "string + string"
  te_agent :: "string option"
  te_client :: bool
  te_chat :: "string \<Rightarrow> string list \<times> string option"
  te_takes :: bool
  te_events :: "turn_event list"
  te_pause :: int
  te_mode :: string
  te_speech :: "string \<Rightarrow> synth_event list \<times> bool"

record turn_world =
  tw_clock :: nat
  tw_abort :: bool
  tw_seq :: int
  tw_sent :: "(bool \<times> device_msg) list"
  tw_tasks :: "device_msg list"
  tw_recorded :: "(bool \<times> string \<times> string) list"
  tw_completed :: bool
  tw_failed :: bool
  tw_retained :: bool
  tw_waiting :: bool

type_synonym 'a turn_op = "(turn_world, exn, 'a) action"

definition new_turn :: turn_world where
  "new_turn = \<lparr> tw_clock = 0, tw_abort = False, tw_seq = 0, tw_sent = [], tw_tasks = [], tw_recorded = [],
     tw_completed = False, tw_failed = False, tw_retained = False, tw_waiting = False \<rparr>"

section \<open>Sending\<close>

text \<open>\<open>ws.closed\<close>, of the socket or of the \<open>_VoiceTurnOutput\<close> around it.\<close>

definition output_closed :: "turn_env \<Rightarrow> turn_world \<Rightarrow> bool" where
  "output_closed E w \<longleftrightarrow> te_closed E (tw_clock w) \<or> te_fenced E \<and> tw_abort w"

definition is_error :: "device_msg \<Rightarrow> bool" where
  "is_error m \<longleftrightarrow> (case m of Error_msg _ _ \<Rightarrow> True | _ \<Rightarrow> False)"

definition handed :: "turn_env \<Rightarrow> device_msg \<Rightarrow> turn_world \<Rightarrow> turn_world" where
  "handed E m w = (if te_reset E (tw_clock w) then w else w\<lparr>tw_sent := tw_sent w @ [(tw_abort w, m)]\<rparr>)"

definition emit_json :: "turn_env \<Rightarrow> device_msg \<Rightarrow> turn_world \<Rightarrow> turn_world" where
  "emit_json E m w = (if output_closed E w then w
     else handed E m (w\<lparr>tw_failed := tw_failed w \<or> te_fenced E \<and> is_error m\<rparr>))"

text \<open>\<open>_send_binary\<close>: the frame is built with the next number of the device.\<close>

definition emit_audio :: "turn_env \<Rightarrow> byte list \<Rightarrow> turn_world \<Rightarrow> turn_world" where
  "emit_audio E payload w = (if output_closed E w then w
     else let n = seq_after (tw_seq w); v = w\<lparr>tw_seq := n\<rparr> in
       case make_binary_frame TTS_AUDIO n payload of Inl _ \<Rightarrow> v | Inr frame \<Rightarrow> handed E (Audio_frame frame) v)"

definition ticked :: "turn_env \<Rightarrow> turn_world \<Rightarrow> turn_world" where
  "ticked E w = w\<lparr>tw_clock := Suc (tw_clock w), tw_abort := tw_abort w \<or> te_aborts E (tw_clock w)\<rparr>"

definition pause_op :: "turn_env \<Rightarrow> unit turn_op" where
  "pause_op E = modifies (ticked E)"

definition send_json :: "turn_env \<Rightarrow> device_msg \<Rightarrow> unit turn_op" where
  "send_json E m = andthen (modifies (emit_json E m)) (pause_op E)"

definition send_binary :: "turn_env \<Rightarrow> byte list \<Rightarrow> unit turn_op" where
  "send_binary E c = andthen (modifies (emit_audio E c)) (pause_op E)"

definition send_audio_end :: "turn_env \<Rightarrow> bool \<Rightarrow> unit turn_op" where
  "send_audio_end E follow = send_json E (Audio_end follow)"

definition record_turn :: "string \<Rightarrow> string \<Rightarrow> turn_world \<Rightarrow> turn_world" where
  "record_turn user assistant w =
     w\<lparr>tw_recorded := tw_recorded w @ [(tw_abort w, user, assistant)], tw_completed := True\<rparr>"

definition unless_aborted :: "unit turn_op \<Rightarrow> unit turn_op" where
  "unless_aborted m = bnd (reads tw_abort) (\<lambda>a. when_do (\<not> a) m)"

section \<open>Speaking a text\<close>

definition spawn :: "device_msg \<Rightarrow> turn_world \<Rightarrow> turn_world" where
  "spawn m w = w\<lparr>tw_tasks := tw_tasks w @ [m]\<rparr>"

text \<open>\<open>async for chunk in synthesize(...)\<close>; False is the early return of an abort.\<close>

fun play :: "turn_env \<Rightarrow> synth_event list \<Rightarrow> bool \<Rightarrow> bool turn_op" where
  "play E [] started = andthen (pause_op E) (ret True)"
| "play E (Rate r # es) started =
     andthen (when_do (\<not> started) (modifies (spawn (Audio_start r)))) (play E es True)"
| "play E (Chunk c # es) started =
     andthen (pause_op E) (bnd (reads tw_abort) (\<lambda>a.
       if a then ret False else andthen (send_binary E c) (play E es started)))"

definition synthesize_and_send :: "turn_env \<Rightarrow> string \<Rightarrow> unit turn_op" where
  "synthesize_and_send E text =
    (if text = [] then ret ()
     else bnd (play E (fst (te_speech E text)) False) (\<lambda>whole.
       when_do (whole \<and> snd (te_speech E text))
         (send_json E (Error_msg ''TTS_ERROR'' ''Selected speech provider unavailable''))))"

definition error_fallback :: string where
  "error_fallback = ''Sorry, I couldn't reach the backend. Please try again later.''"

definition synthesize_error_message :: "turn_env \<Rightarrow> unit turn_op" where
  "synthesize_error_message E = andthen (play E (fst (te_speech E error_fallback)) False) (ret ())"

section \<open>The two routes\<close>

definition backend_error :: "turn_env \<Rightarrow> (bool \<Rightarrow> unit turn_op) \<Rightarrow> string \<Rightarrow> unit turn_op" where
  "backend_error E send_end message =
     andthen (send_json E (Error_msg ''BACKEND_ERROR'' message))
     (andthen (synthesize_error_message E)
     (unless_aborted (send_end False)))"

text \<open>The deltas of a direct chat are cumulative, the last is the reply.\<close>

definition route_direct :: "turn_env \<Rightarrow> (bool \<Rightarrow> unit turn_op) \<Rightarrow> string \<Rightarrow> unit turn_op" where
  "route_direct E send_end transcript =
     andthen (pause_op E)
     (case te_chat E transcript of
        (deltas, Some err) \<Rightarrow> backend_error E send_end err
      | (deltas, None) \<Rightarrow> unless_aborted
          (let result = resolve_follow_up (last ([] # deltas)) (te_mode E) in
           andthen (synthesize_and_send E (fu_text result))
           (unless_aborted
             (andthen (modifies (record_turn transcript (fu_text result))) (send_end (fu_follow result))))))"

datatype agent_result = Replied string | Agent_failed string | Timed_out

record agent_turn =
  at_seg :: segmenter
  at_queue :: segment_queue
  at_text :: string
  at_started :: bool
  at_result :: "agent_result option"

definition new_agent_turn :: "int \<Rightarrow> agent_turn" where
  "new_agent_turn idle_pause_ms = \<lparr> at_seg = new_segmenter idle_pause_ms, at_queue = empty_queue, at_text = [],
     at_started = False, at_result = None \<rparr>"

text \<open>The response is settled with an error: the segmenter is aborted and the queue closed.\<close>

definition settle :: "agent_result \<Rightarrow> agent_turn \<Rightarrow> agent_turn" where
  "settle r t = (if at_result t \<noteq> None then t
     else t\<lparr>at_seg := seg_abort (at_seg t), at_queue := queue_close (at_queue t), at_result := Some r\<rparr>)"

text \<open>The listener, the timer of the segmenter, the worker of the queue and the synthesizer it runs.\<close>

fun turn_step :: "turn_env \<Rightarrow> turn_event \<Rightarrow> agent_turn \<times> turn_world \<Rightarrow> agent_turn \<times> turn_world" where
  "turn_step E (On_delta now text) (t, w) =
     (if at_result t \<noteq> None then t else t\<lparr>at_text := at_text t @ text, at_seg := seg_push now text (at_seg t)\<rparr>, w)"
| "turn_step E On_end (t, w) =
     (if at_result t \<noteq> None then t
      else case seg_end (at_seg t) of (g, out) \<Rightarrow>
        t\<lparr>at_seg := g, at_queue := fold on_output out (at_queue t), at_result := Some (Replied (at_text t))\<rparr>, w)"
| "turn_step E (On_error message) (t, w) = (settle (Agent_failed message) t, w)"
| "turn_step E (Pause_over now) (t, w) =
     (case seg_step (Idle_fires now) (at_seg t) of (g, out) \<Rightarrow>
        t\<lparr>at_seg := g, at_queue := fold on_output out (at_queue t)\<rparr>, w)"
| "turn_step E Worker (t, w) = (t\<lparr>at_queue := queue_worker (at_queue t)\<rparr>, w)"
| "turn_step E (Speech_rate r) (t, w) =
     (if qu_busy (at_queue t) = None \<or> at_started t then (t, w)
      else (t\<lparr>at_started := True\<rparr>, spawn (Audio_start r) w))"
| "turn_step E (Speech_chunk c) (t, w) =
     (if qu_busy (at_queue t) = None then (t, w)
      else if tw_abort w then (t\<lparr>at_queue := queue_synth_done True (at_queue t)\<rparr>, w)
      else (t, emit_audio E c w))"
| "turn_step E (Speech_over ok) (t, w) =
     (t\<lparr>at_queue := queue_synth_done ok (at_queue t)\<rparr>,
      if qu_busy (at_queue t) \<noteq> None \<and> \<not> ok
      then spawn (Error_msg ''TTS_ERROR'' ''Selected speech provider unavailable'') w else w)"
| "turn_step E Abort_flag (t, w) = (t\<lparr>at_queue := (at_queue t)\<lparr>qu_aborted := True\<rparr>\<rparr>, w\<lparr>tw_abort := True\<rparr>)"
| "turn_step E Abort_callback (t, w) = (settle (Agent_failed ''Aborted'') t, w)"
| "turn_step E Response_timeout (t, w) = (settle Timed_out t, w)"

definition turn_run :: "turn_env \<Rightarrow> turn_event list \<Rightarrow> agent_turn \<times> turn_world \<Rightarrow> agent_turn \<times> turn_world" where
  "turn_run E es tw = fold (turn_step E) es tw"

text \<open>\<open>_route_via_agent\<close> after \<open>response_done\<close> has been settled and the queue has ended.\<close>

definition conclude :: "turn_env \<Rightarrow> (bool \<Rightarrow> unit turn_op) \<Rightarrow> string \<Rightarrow> agent_result \<Rightarrow> unit turn_op" where
  "conclude E send_end transcript r = unless_aborted (case r of
     Timed_out \<Rightarrow> backend_error E send_end ''Agent response timeout after 300s''
   | Agent_failed message \<Rightarrow> backend_error E send_end message
   | Replied full \<Rightarrow>
       (let result = resolve_follow_up full (te_mode E) in
        andthen (modifies (record_turn transcript (fu_text result))) (send_end (fu_follow result))))"

definition route_agent :: "turn_env \<Rightarrow> (bool \<Rightarrow> unit turn_op) \<Rightarrow> string \<Rightarrow> unit turn_op" where
  "route_agent E send_end transcript =
    (if \<not> te_takes E then
       andthen (send_json E (Error_msg ''NO_AGENT'' ''Active agent not connected'')) (unless_aborted (send_end False))
     else
       bnd (\<lambda>w. case turn_run E (te_events E) ((new_agent_turn (te_pause E))\<lparr>at_queue := empty_queue\<lparr>qu_aborted := tw_abort w\<rparr>\<rparr>, w)
              of (t, v) \<Rightarrow> (Inr t, v)) (\<lambda>t.
       case at_result t of
         Some r \<Rightarrow> if qu_ended (at_queue t) then conclude E send_end transcript r
                   else modifies (\<lambda>w. w\<lparr>tw_waiting := True\<rparr>)
       | None \<Rightarrow> modifies (\<lambda>w. w\<lparr>tw_waiting := True\<rparr>)))"

section \<open>A turn\<close>

definition run_text_turn :: "turn_env \<Rightarrow> (bool \<Rightarrow> unit turn_op) \<Rightarrow> string \<Rightarrow> unit turn_op" where
  "run_text_turn E send_end transcript_text =
    (case te_selected E of
       Some e \<Rightarrow> raise e
     | None \<Rightarrow> unless_aborted
         (let text = strip transcript_text in
          if text = [] then send_end False
          else andthen (send_json E (Transcript_msg text)) (unless_aborted
            (case te_agent E of
               Some ty \<Rightarrow>
                 if ty = ''openclaw-direct'' \<and> te_client E then route_direct E send_end text
                 else if ty \<noteq> ''openclaw-direct'' then
                   andthen (modifies (\<lambda>w. w\<lparr>tw_retained := True\<rparr>))
                   (andthen (route_agent E send_end text) (modifies (\<lambda>w. w\<lparr>tw_retained := False\<rparr>)))
                 else andthen (send_json E (Error_msg ''NO_AGENT'' ''No active agent configured'')) (send_end False)
             | None \<Rightarrow> andthen (send_json E (Error_msg ''NO_AGENT'' ''No active agent configured'')) (send_end False)))))"

definition run_voice_turn :: "turn_env \<Rightarrow> unit turn_op" where
  "run_voice_turn E = unless_aborted
    (case te_selected E of
       Some e \<Rightarrow> send_json E (Error_msg ''STT_ERROR'' [])
     | None \<Rightarrow> andthen (pause_op E)
         (case te_transcribe E of
            Inl err \<Rightarrow> send_json E (Error_msg ''STT_ERROR'' err)
          | Inr transcript \<Rightarrow> unless_aborted
              (if strip transcript = [] then send_audio_end E False
               else run_text_turn E (send_audio_end E) transcript)))"

end
