(* ===== verification/Turn_Laws.thy ===== *)
theory Turn_Laws
  imports Voice_Turn
begin

text \<open>
  What every turn promises, whatever its collaborators answer and whenever it is aborted. The contract of a
  turn is a locale: an invariant of the open turn, one of the turn that has recorded its reply and one of
  the turn that is over; the turns of \<open>pipeline.py\<close> are verified against it once.
\<close>

section \<open>The contract\<close>

definition is_end :: "device_msg \<Rightarrow> bool" where
  "is_end m \<longleftrightarrow> (case m of Audio_end _ \<Rightarrow> True | _ \<Rightarrow> False)"

locale turn_contract =
  fixes E :: turn_env and I K J :: "turn_world \<Rightarrow> bool" and send_end :: "bool \<Rightarrow> unit turn_op"
  assumes json: "I w \<Longrightarrow> \<not> is_end m \<Longrightarrow> I (emit_json E m w)"
    and audio: "I w \<Longrightarrow> I (emit_audio E c w)"
    and tick: "I w \<Longrightarrow> I (ticked E w)"
    and task: "I w \<Longrightarrow> I (spawn m w)"
    and flag: "I w \<Longrightarrow> I (w\<lparr>tw_abort := True\<rparr>)"
    and retained: "I w \<Longrightarrow> I (w\<lparr>tw_retained := b\<rparr>)" "J w \<Longrightarrow> J (w\<lparr>tw_retained := b\<rparr>)"
    and recorded: "I w \<Longrightarrow> \<not> tw_abort w \<Longrightarrow> strip user = user \<Longrightarrow> user \<noteq> [] \<Longrightarrow> \<not> contains follow_up_tag reply
      \<Longrightarrow> K (record_turn user reply w)"
    and end_open: "triple I (send_end b) (\<lambda>_. J) (\<lambda>_. J)"
    and end_recorded: "triple K (send_end b) (\<lambda>_. J) (\<lambda>_. J)"
    and aborted: "I w \<Longrightarrow> tw_abort w \<Longrightarrow> J w"
    and waiting: "I w \<Longrightarrow> J (w\<lparr>tw_waiting := True\<rparr>)"
    and unheard: "I w \<Longrightarrow> te_selected E \<noteq> None \<or> isl (te_transcribe E) \<Longrightarrow> J w"
begin

lemma t_pause: "triple I (pause_op E) (\<lambda>_. I) X"
  unfolding pause_op_def by (intro triple_rules tick)

lemma t_json: "\<not> is_end m \<Longrightarrow> triple I (send_json E m) (\<lambda>_. I) X"
  unfolding send_json_def by (rule triple_modifies_then [OF json t_pause])

lemma t_binary: "triple I (send_binary E c) (\<lambda>_. I) X"
  unfolding send_binary_def by (rule triple_modifies_then [OF audio t_pause])

lemma t_pause_then: "triple I k Q X \<Longrightarrow> triple I (andthen (pause_op E) k) Q X"
  by (rule triple_andthen [OF t_pause])

lemma t_json_then: "\<not> is_end m \<Longrightarrow> triple I k Q X \<Longrightarrow> triple I (andthen (send_json E m) k) Q X"
  by (rule triple_andthen [OF t_json])

lemma t_binary_then: "triple I k Q X \<Longrightarrow> triple I (andthen (send_binary E c) k) Q X"
  by (rule triple_andthen [OF t_binary])

lemma t_weak: "triple I m Q X \<Longrightarrow> triple (\<lambda>w. I w \<and> P w) m Q X"
  by (erule triple_pre) simp

lemma t_unless: "triple (\<lambda>w. I w \<and> \<not> tw_abort w) m (\<lambda>_. J) X \<Longrightarrow> triple I (unless_aborted m) (\<lambda>_. J) X"
  by (auto simp: unless_aborted_def triple_def action_simps intro: aborted)

lemma t_unless_weak: "triple I m (\<lambda>_. J) X \<Longrightarrow> triple I (unless_aborted m) (\<lambda>_. J) X"
  by (intro t_unless t_weak)

lemma t_play: "triple I (play E es started) (\<lambda>_. I) X"
proof (induction es arbitrary: started)
  case Nil
  show ?case by (simp add: t_pause_then triple_ret)
next
  case (Cons e es)
  show ?case
  proof (cases e)
    case (Rate r)
    have "triple I (when_do (\<not> started) (modifies (spawn (Audio_start r)))) (\<lambda>_. I) X"
      by (intro triple_when_do triple_modifies task) auto
    from triple_andthen [OF this Cons.IH] show ?thesis using Rate by simp
  next
    case (Chunk c)
    have "triple I (if a then ret False else andthen (send_binary E c) (play E es started)) (\<lambda>_. I) X" for a
      using Cons.IH by (auto intro: triple_ret t_binary_then)
    then show ?thesis unfolding Chunk play.simps by (intro t_pause_then triple_bnd_reads t_weak)
  qed
qed

lemma t_speak: "triple I (synthesize_and_send E text) (\<lambda>_. I) X"
  unfolding synthesize_and_send_def
  by (auto intro!: triple_ret triple_bnd [OF t_play] triple_when_do t_json simp: is_end_def)

lemma t_backend_error: "triple I (backend_error E send_end message) (\<lambda>_. J) (\<lambda>_. J)"
  unfolding backend_error_def synthesize_error_message_def
  by (intro t_json_then triple_andthen [where R = I] t_play t_unless_weak end_open triple_ret) (simp_all add: is_end_def)

lemma t_reply:
  assumes "strip user = user" "user \<noteq> []"
  shows "triple I (unless_aborted (andthen (modifies (record_turn user (fu_text (resolve_follow_up full mode)))) (send_end b)))
    (\<lambda>_. J) (\<lambda>_. J)"
  by (intro t_unless triple_modifies_then [OF _ end_recorded] recorded)
     (use assms resolved_text_clean in auto)

lemma t_direct:
  assumes "strip text = text" "text \<noteq> []"
  shows "triple I (route_direct E send_end text) (\<lambda>_. J) (\<lambda>_. J)"
proof (cases "te_chat E text")
  case (Pair deltas err)
  have reply: "triple I (andthen (synthesize_and_send E (fu_text r)) (unless_aborted
      (andthen (modifies (record_turn text (fu_text r))) (send_end (fu_follow r))))) (\<lambda>_. J) (\<lambda>_. J)"
    if "r = resolve_follow_up full (te_mode E)" for r full
    unfolding that by (rule triple_andthen [OF t_speak t_reply [OF assms]])
  show ?thesis
    unfolding route_direct_def Let_def Pair prod.case
    by (rule t_pause_then, cases err) (auto simp del: last.simps intro!: t_backend_error t_unless_weak [OF reply])
qed

lemma turn_step_keeps: "I w \<Longrightarrow> I (snd (turn_step E e (t, w)))"
  by (cases e) (auto intro: audio task flag)

lemma turn_run_keeps: "I w \<Longrightarrow> I (snd (turn_run E es (t, w)))"
  unfolding turn_run_def
proof (induction es arbitrary: t w)
  case (Cons e es)
  obtain t' w' where s: "turn_step E e (t, w) = (t', w')" by (cases "turn_step E e (t, w)")
  have "I w'" using turn_step_keeps [OF Cons.prems, of e t] s by simp
  then show ?case using Cons.IH s by simp
qed simp

lemma turn_run_keeps': "I w \<Longrightarrow> turn_run E es (t, w) = (t', v) \<Longrightarrow> I v"
  using turn_run_keeps [of w es t] by simp

lemma t_waiting: "triple I (modifies (\<lambda>w. w\<lparr>tw_waiting := True\<rparr>)) (\<lambda>_. J) X"
  by (intro triple_modifies waiting)

lemma t_conclude:
  assumes "strip text = text" "text \<noteq> []"
  shows "triple I (conclude E send_end text r) (\<lambda>_. J) (\<lambda>_. J)"
proof (cases r)
  case (Replied full)
  then show ?thesis using t_reply [OF assms] by (simp add: conclude_def Let_def)
qed (simp_all add: conclude_def t_unless_weak t_backend_error)

lemma t_agent:
  assumes "strip text = text" "text \<noteq> []"
  shows "triple I (route_agent E send_end text) (\<lambda>_. J) (\<lambda>_. J)"
proof (cases "te_takes E")
  case False
  then show ?thesis
    unfolding route_agent_def by (auto intro!: t_json_then t_unless_weak end_open simp: is_end_def)
next
  case True
  have "triple I (\<lambda>w. case turn_run E (te_events E) ((new_agent_turn (te_pause E))\<lparr>at_queue := empty_queue\<lparr>qu_aborted := tw_abort w\<rparr>\<rparr>, w)
      of (t, v) \<Rightarrow> (Inr t, v)) (\<lambda>_. I) (\<lambda>_. J)"
    by (rule tripleI) (auto split: prod.splits intro: turn_run_keeps')
  then show ?thesis
    unfolding route_agent_def using True
    by (auto intro!: triple_bnd [where R = "\<lambda>_. I"] t_waiting t_conclude assms split: option.split)
qed

lemma t_text: "triple I (run_text_turn E send_end text) (\<lambda>_. J) (\<lambda>_. J)"
proof (cases "te_selected E")
  case (Some e)
  then show ?thesis by (auto simp: run_text_turn_def intro!: triple_raise unheard)
next
  case None
  have no_agent: "triple I (andthen (send_json E (Error_msg ''NO_AGENT'' ''No active agent configured'')) (send_end False)) (\<lambda>_. J) (\<lambda>_. J)"
    by (intro t_json_then end_open) (simp add: is_end_def)
  have agent: "triple I (andthen (modifies (\<lambda>w. w\<lparr>tw_retained := True\<rparr>))
      (andthen (route_agent E send_end (strip text)) (modifies (\<lambda>w. w\<lparr>tw_retained := False\<rparr>)))) (\<lambda>_. J) (\<lambda>_. J)"
    if "strip text \<noteq> []"
    by (intro triple_modifies_then [where R = I] triple_andthen [where R = J] t_agent triple_modifies retained) (use that in auto)
  show ?thesis
    unfolding run_text_turn_def Let_def
    by (auto simp: None is_end_def
        intro!: t_unless_weak end_open t_json_then no_agent agent t_direct split: option.split)
qed

end

locale voice_contract = turn_contract E I K J "send_audio_end E" for E I K J
begin

lemma t_voice: "triple I (run_voice_turn E) (\<lambda>_. J) (\<lambda>_. J)"
proof -
  have fails: "triple I (send_json E (Error_msg c m)) (\<lambda>_. J) (\<lambda>_. J)"
    if "te_selected E \<noteq> None \<or> isl (te_transcribe E)" for c m
    by (rule triple_conseq [OF t_json]) (use that in \<open>auto simp: is_end_def intro: unheard\<close>)
  show ?thesis
    unfolding run_voice_turn_def
    by (cases "te_selected E"; cases "te_transcribe E")
       (auto intro!: t_unless_weak t_pause_then end_open t_text fails)
qed

lemma voice_turn_over: "I w \<Longrightarrow> J (snd (run_voice_turn E w))"
  using t_voice by (simp add: triple_def split: prod.splits sum.splits) (metis snd_conv sum.exhaust surj_pair)

lemma text_turn_over: "I w \<Longrightarrow> J (snd (run_text_turn E (send_audio_end E) said w))"
  using t_text [of said] by (simp add: triple_def split: prod.splits sum.splits) (metis snd_conv sum.exhaust surj_pair)

end


section \<open>Nothing is sent once the turn is aborted\<close>

definition unaborted :: "turn_env \<Rightarrow> turn_world \<Rightarrow> bool" where
  "unaborted E w \<longleftrightarrow> (te_fenced E \<longrightarrow> list_all (\<lambda>m. \<not> fst m) (tw_sent w)) \<and> list_all (\<lambda>r. \<not> fst r) (tw_recorded w)"

text \<open>The frame builder never refuses a frame of a turn.\<close>

lemma emit_audio_frame:
  "emit_audio E c w = (if output_closed E w then w
     else handed E (Audio_frame ([2] @ to_big_endian (seq_after (tw_seq w)) @ c)) (w\<lparr>tw_seq := seq_after (tw_seq w)\<rparr>))"
  using seq_after_range [of "tw_seq w"] by (auto simp: emit_audio_def Let_def make_binary_frame_def TTS_AUDIO_def)

lemmas emit_defs = emit_json_def emit_audio_frame handed_def output_closed_def ticked_def spawn_def

lemma unaborted_json: "unaborted E w \<Longrightarrow> unaborted E (emit_json E m w)"
  by (auto simp: unaborted_def emit_defs)

lemma unaborted_audio: "unaborted E w \<Longrightarrow> unaborted E (emit_audio E c w)"
  by (auto simp: unaborted_def emit_defs)

lemma send_end_triple:
  "(\<And>w. P w \<Longrightarrow> Q (ticked E (emit_json E (Audio_end b) w))) \<Longrightarrow> triple P (send_audio_end E b) (\<lambda>_. Q) X"
  unfolding send_audio_end_def send_json_def pause_op_def
  by (rule triple_modifies_then [OF _ triple_modifies, where R = "\<lambda>w. Q (ticked E w)"]) auto

interpretation silent_turn: voice_contract E "unaborted E" "unaborted E" "unaborted E" for E
  by unfold_locales
     (auto intro!: send_end_triple simp: unaborted_json unaborted_audio unaborted_def emit_defs record_turn_def)


text \<open>A turn over the direct route, of a device that says \<open>Hi\<close>; \<open>aborts\<close> is when it is aborted.\<close>

definition demo_turn :: "(nat \<Rightarrow> bool) \<Rightarrow> turn_env" where
  "demo_turn aborts = \<lparr> te_aborts = aborts, te_closed = (\<lambda>_. False), te_reset = (\<lambda>_. False), te_fenced = True,
     te_selected = None, te_transcribe = Inr ''Hi'', te_agent = Some ''openclaw-direct'', te_client = True,
     te_chat = (\<lambda>_. ([''Hel'', ''Hello''], None)), te_takes = True, te_events = [], te_pause = 1000, te_mode = ''auto'',
     te_speech = (\<lambda>_. ([Rate 24000, Chunk [1, 2], Chunk [3, 4]], False)) \<rparr>"


section \<open>A turn ends once\<close>

definition quiet :: "turn_world \<Rightarrow> bool" where
  "quiet w \<longleftrightarrow> list_all (\<lambda>m. \<not> is_end (snd m)) (tw_sent w)"

definition end_count :: "turn_world \<Rightarrow> nat" where
  "end_count w = length (filter (\<lambda>m. is_end (snd m)) (tw_sent w))"

text \<open>The socket stays open and the turn had a transcript.\<close>

definition reachable :: "turn_env \<Rightarrow> bool" where
  "reachable E \<longleftrightarrow> te_closed E = (\<lambda>_. False) \<and> te_reset E = (\<lambda>_. False) \<and> te_selected E = None
     \<and> \<not> isl (te_transcribe E)"

definition concluded :: "turn_env \<Rightarrow> turn_world \<Rightarrow> bool" where
  "concluded E w \<longleftrightarrow> (quiet w \<or> (\<exists>xs a b. tw_sent w = xs @ [(a, Audio_end b)] \<and> list_all (\<lambda>m. \<not> is_end (snd m)) xs))
     \<and> (reachable E \<longrightarrow> tw_abort w \<or> tw_waiting w \<or> \<not> quiet w)"

lemma quiet_ends: "quiet w \<Longrightarrow> end_count w = 0"
  by (auto simp: quiet_def end_count_def list_all_iff filter_empty_conv)

lemma quiet_send_end: "quiet w \<Longrightarrow> concluded E (ticked E (emit_json E (Audio_end b) w))"
  by (auto simp: concluded_def quiet_def reachable_def emit_defs is_end_def)

interpretation ending_turn: voice_contract E quiet quiet "concluded E" for E
  by unfold_locales
     (auto intro!: send_end_triple simp: quiet_send_end,
      auto simp: quiet_def concluded_def emit_defs record_turn_def is_end_def reachable_def)


lemmas turn_run_defs = demo_turn_def new_turn_def run_voice_turn_def run_text_turn_def route_direct_def unless_aborted_def
  pause_op_def send_json_def send_binary_def send_audio_end_def synthesize_and_send_def strip_def lstrip_def rstrip_def
  is_space_def char_between_def resolve_follow_up_def contains.simps starts_with_def follow_up_tag_def ends_with_def
  record_turn_def is_error_def emit_defs Let_def


section \<open>What is recorded\<close>

definition unrecorded :: "turn_world \<Rightarrow> bool" where
  "unrecorded w \<longleftrightarrow> tw_recorded w = [] \<and> \<not> tw_completed w"

definition recorded_once :: "turn_world \<Rightarrow> bool" where
  "recorded_once w \<longleftrightarrow> tw_completed w \<and> (\<exists>a user reply. tw_recorded w = [(a, user, reply)]
     \<and> strip user = user \<and> user \<noteq> [] \<and> \<not> contains follow_up_tag reply)"

definition recorded_or_not :: "turn_world \<Rightarrow> bool" where
  "recorded_or_not w \<longleftrightarrow> unrecorded w \<or> recorded_once w"

lemma recorded_send_end: "recorded_or_not w \<Longrightarrow> recorded_or_not (ticked E (emit_json E (Audio_end b) w))"
  by (auto simp: recorded_or_not_def unrecorded_def recorded_once_def emit_defs)

interpretation recording_turn: voice_contract E unrecorded recorded_once recorded_or_not for E
  by unfold_locales
     (auto intro!: send_end_triple recorded_send_end simp: recorded_or_not_def,
      auto simp: unrecorded_def recorded_once_def emit_defs record_turn_def)

text \<open>A turn is recorded at most once, with what the user said, stripped and not empty, and a reply without the
  follow-up tag; it counts as completed exactly when it was recorded.\<close>

theorem turn_is_recorded_once:
  "recorded_or_not (snd (run_voice_turn E new_turn))
   \<and> (tw_completed (snd (run_voice_turn E new_turn)) \<longleftrightarrow> tw_recorded (snd (run_voice_turn E new_turn)) \<noteq> [])"
proof -
  have "recorded_or_not (snd (run_voice_turn E new_turn))"
    by (rule recording_turn.voice_turn_over) (simp add: unrecorded_def new_turn_def)
  then show ?thesis by (auto simp: recorded_or_not_def unrecorded_def recorded_once_def)
qed

section \<open>What is spoken is what is recorded\<close>

text \<open>The steps of the reply that the events of a turn stand for, once the response is settled none of the agent's.\<close>

definition agent_view :: "agent_turn \<Rightarrow> segmenter \<times> segment_queue" where
  "agent_view t = (at_seg t, at_queue t)"

fun reply_view :: "turn_event \<Rightarrow> agent_turn \<times> turn_world \<Rightarrow> reply_event list" where
  "reply_view (On_delta now text) (t, w) = (if at_result t \<noteq> None then [] else [Agent (Delta now text)])"
| "reply_view On_end (t, w) = (if at_result t \<noteq> None then [] else [Agent Reply_end])"
| "reply_view (On_error m) (t, w) = (if at_result t \<noteq> None then [] else [Agent Reply_abort])"
| "reply_view (Pause_over now) (t, w) = [Agent (Idle_fires now)]"
| "reply_view Worker (t, w) = [Worker_turn]"
| "reply_view (Speech_rate r) (t, w) = []"
| "reply_view (Speech_chunk c) (t, w) = (if tw_abort w then [Synth_done True] else [])"
| "reply_view (Speech_over ok) (t, w) = [Synth_done ok]"
| "reply_view Abort_flag (t, w) = [Abort_set]"
| "reply_view Abort_callback (t, w) = (if at_result t \<noteq> None then [] else [Abort_seen])"
| "reply_view Response_timeout (t, w) = (if at_result t \<noteq> None then [] else [Agent Reply_abort])"

fun reply_views :: "turn_env \<Rightarrow> turn_event list \<Rightarrow> agent_turn \<times> turn_world \<Rightarrow> reply_event list" where
  "reply_views E [] s = []"
| "reply_views E (e # es) s = reply_view e s @ reply_views E es (turn_step E e s)"

text \<open>The response is open as long as the segmenter is.\<close>

definition settled :: "agent_turn \<Rightarrow> bool" where
  "settled t \<longleftrightarrow> (at_result t = None \<longleftrightarrow> \<not> sg_ended (at_seg t))"

lemma settled_step: "settled t \<Longrightarrow> settled (fst (turn_step E e (t, w)))"
  by (cases e)
     (auto simp: settled_def settle_def seg_push_def seg_end_def seg_abort_def seg_flush_def Let_def split: prod.split option.split)

lemma turn_step_view:
  "settled t \<Longrightarrow> agent_view (fst (turn_step E e (t, w))) = reply_run (reply_view e (t, w)) (agent_view t)"
  by (cases e)
     (auto simp: agent_view_def reply_run_def settled_def settle_def queue_synth_done_def Let_def split: prod.split)

lemma turn_view_run:
  assumes "settled t"
  shows "agent_view (fst (turn_run E es (t, w))) = reply_run (reply_views E es (t, w)) (agent_view t)"
  using assms
proof (induction es arbitrary: t w)
  case Nil
  then show ?case by (simp add: turn_run_def reply_run_def)
next
  case (Cons e es)
  obtain t' w' where s: "turn_step E e (t, w) = (t', w')" by (cases "turn_step E e (t, w)")
  have "settled t'" "agent_view t' = reply_run (reply_view e (t, w)) (agent_view t)"
    using settled_step [OF Cons.prems, of E e w] turn_step_view [OF Cons.prems, of E e w] s by simp_all
  then show ?case using Cons.IH s by (simp add: turn_run_def reply_run_def)
qed



lemma new_turn_settled: "settled (new_agent_turn pause)"
  by (simp add: settled_def new_agent_turn_def new_segmenter_def)


text \<open>Until the response is settled only deltas come from the agent, and they are what is accumulated.\<close>

lemma result_kept: "at_result t = Some r \<Longrightarrow> at_result (fst (turn_run E es (t, w))) = Some r"
proof (induction es arbitrary: t w)
  case (Cons e es)
  obtain t' w' where s: "turn_step E e (t, w) = (t', w')" by (cases "turn_step E e (t, w)")
  have "at_result t' = Some r"
    using s Cons.prems by (cases e) (auto simp: settle_def split: prod.splits if_splits)
  then show ?case using Cons.IH s by (simp add: turn_run_def)
qed (simp add: turn_run_def)

lemma abort_kept: "tw_abort w \<Longrightarrow> tw_abort (snd (turn_run E es (t, w)))"
proof (induction es arbitrary: t w)
  case (Cons e es)
  obtain t' w' where s: "turn_step E e (t, w) = (t', w')" by (cases "turn_step E e (t, w)")
  have "tw_abort w'"
    using s Cons.prems by (cases e) (auto simp: emit_defs split: prod.splits if_splits)
  then show ?case using Cons.IH s by (simp add: turn_run_def)
qed (simp add: turn_run_def)

lemma agent_events_append: "agent_events (a @ b) = agent_events a @ agent_events b"
  by (induction a rule: agent_events.induct) auto

lemma settled_views:
  "at_result t \<noteq> None \<Longrightarrow> \<not> tw_abort (snd (turn_run E es (t, w))) \<Longrightarrow> list_all calm (reply_views E es (t, w))"
proof (induction es arbitrary: t w)
  case (Cons e es)
  obtain t' w' where s: "turn_step E e (t, w) = (t', w')" by (cases "turn_step E e (t, w)")
  have r: "at_result t' \<noteq> None" using result_kept [of t _ E "[e]" w] Cons.prems(1) s by (auto simp: turn_run_def)
  have a: "\<not> tw_abort (snd (turn_run E es (t', w')))" using Cons.prems(2) s by (simp add: turn_run_def)
  then have "\<not> tw_abort w'" using abort_kept by blast
  then have "list_all calm (reply_view e (t, w))"
    using s Cons.prems(1) by (cases e) (auto simp: calm_def)
  then show ?case using Cons.IH [OF r a] s by simp
qed simp

lemma reply_of_run:
  "at_result t = None \<Longrightarrow> at_result (fst (turn_run E es (t, w))) = Some (Replied full) \<Longrightarrow>
   \<not> tw_abort (snd (turn_run E es (t, w))) \<Longrightarrow>
   list_all calm (reply_views E es (t, w)) \<and>
   (\<exists>before later. agent_events (reply_views E es (t, w)) = before @ Reply_end # later
     \<and> list_all no_end before \<and> full = at_text t @ delta_text before)"
proof (induction es arbitrary: t w)
  case Nil
  then show ?case by (simp add: turn_run_def)
next
  case (Cons e es)
  obtain t' w' where s: "turn_step E e (t, w) = (t', w')" by (cases "turn_step E e (t, w)")
  have full: "at_result (fst (turn_run E es (t', w'))) = Some (Replied full)"
    and a: "\<not> tw_abort (snd (turn_run E es (t', w')))"
    using Cons.prems(2,3) s by (simp_all add: turn_run_def)
  have w': "\<not> tw_abort w'" using a abort_kept by blast
  show ?case
  proof (cases "at_result t'")
    case None
    obtain before later where b: "agent_events (reply_views E es (t', w')) = before @ Reply_end # later"
      "list_all no_end before" "full = at_text t' @ delta_text before"
      and c: "list_all calm (reply_views E es (t', w'))"
      using Cons.IH [OF None full a] by blast
    have v: "list_all calm (reply_view e (t, w))" "list_all no_end (agent_events (reply_view e (t, w)))"
      "at_text t' = at_text t @ delta_text (agent_events (reply_view e (t, w)))"
      using s None Cons.prems(1) w'
      by (cases e; auto simp: calm_def no_end_def settle_def split: prod.splits if_splits)+
    have d: "delta_text (xs @ ys) = delta_text xs @ delta_text ys" for xs ys
      by (induction xs rule: delta_text.induct) auto
    have "full = at_text t @ delta_text (agent_events (reply_view e (t, w)) @ before)"
      using b(3) v(3) d by simp
    then show ?thesis
      using b v c s by (auto simp: agent_events_append) (metis append_assoc list_all_append)
  next
    case (Some r)
    then have "r = Replied full" using full result_kept [OF Some, of E es w'] by simp
    then have e: "e = On_end" "full = at_text t"
      using s Some Cons.prems(1) by (cases e; auto simp: settle_def split: prod.splits if_splits)+
    have "reply_views E (e # es) (t, w) = Agent Reply_end # reply_views E es (t', w')"
      using s Cons.prems(1) by (simp add: e(1) del: turn_step.simps)
    moreover have "list_all calm (reply_views E es (t', w'))" using settled_views a Some by blast
    moreover have "calm (Agent Reply_end)" by (simp add: calm_def)
    ultimately show ?thesis using e(2) by (simp del: reply_views.simps) (rule exI [of _ "[]"], simp)
  qed
qed



end
