(* ===== verification/Wyoming_Wire.thy ===== *)
theory Wyoming_Wire
  imports Json_Value Config_Files Wire_Frames
begin

text \<open>
  \<open>speech/wyoming_protocol.py\<close> and \<open>speech/wyoming_stt.py\<close>: the event stream of a speech service. An event
  is a JSON header on a line of its own, then the bytes its header announces. \<open>loads\<close> is
  \<open>json.loads\<close> of a decoded line, None where it raises; \<open>dumps\<close> is \<open>json.dumps\<close> of a value, encoded.
  Both are parameters. What the socket delivers is a list of reads.
\<close>

record wyoming_event =
  we_type :: json
  we_data :: json
  we_payload :: "byte list option"

section \<open>Headers\<close>

text \<open>\<open>int(text)\<close>: digits with single underscores between them, a sign and white space around.\<close>

fun digit_groups :: "string \<Rightarrow> bool \<Rightarrow> int \<Rightarrow> int option" where
  "digit_groups [] after_digit n = (if after_digit then Some n else None)"
| "digit_groups (c # s) after_digit n =
    (if is_digit c then digit_groups s True (n * 10 + (of_char c - 48))
     else if c = CHR ''_'' \<and> after_digit \<and> s \<noteq> [] then digit_groups s False n else None)"

definition python_int_text :: "string \<Rightarrow> int option" where
  "python_int_text s = (case strip s of
     [] \<Rightarrow> None
   | c # t \<Rightarrow> if c = CHR ''-'' then map_option uminus (digit_groups t False 0)
              else digit_groups (if c = CHR ''+'' then t else c # t) False 0)"

text \<open>\<open>int(value)\<close>\<close>

definition py_int :: "json \<Rightarrow> exn + int" where
  "py_int v = (case v of
     JInt n \<Rightarrow> Inr n
   | JBool b \<Rightarrow> Inr (if b then 1 else 0)
   | JFloat r \<Rightarrow> Inr (if 0 \<le> r then \<lfloor>r\<rfloor> else \<lceil>r\<rceil>)
   | JNonFinite Not_a_number \<Rightarrow> Inl ValueError
   | JNonFinite _ \<Rightarrow> Inl OverflowError
   | JStr s \<Rightarrow> (case python_int_text s of None \<Rightarrow> Inl ValueError | Some n \<Rightarrow> Inr n)
   | _ \<Rightarrow> Inl TypeError)"

definition announced :: "json \<Rightarrow> string \<Rightarrow> exn + int" where
  "announced header key = (if truthy (jat header key) then py_int (jat header key) else Inr 0)"

definition announced_lengths :: "json \<Rightarrow> exn + (int \<times> int)" where
  "announced_lengths header = (case announced header ''data_length'' of
     Inl e \<Rightarrow> Inl e
   | Inr d \<Rightarrow> (case announced header ''payload_length'' of Inl e \<Rightarrow> Inl e | Inr p \<Rightarrow> Inr (d, p)))"

text \<open>\<open>parsed.get("data") or {}\<close>\<close>

definition header_data :: "json \<Rightarrow> json" where
  "header_data header = (if truthy (jat header ''data'') then jat header ''data'' else JObj [])"

definition header_type :: "json \<Rightarrow> json" where
  "header_type header = (case jget header ''type'' of None \<Rightarrow> JStr [] | Some t \<Rightarrow> t)"

definition newline :: byte where "newline = 10"

text \<open>\<open>buf.find(b"\n", offset)\<close>: the line and what follows it.\<close>

fun split_line :: "byte list \<Rightarrow> (byte list \<times> byte list) option" where
  "split_line [] = None"
| "split_line (b # bs) = (if b = newline then Some ([], bs)
     else case split_line bs of None \<Rightarrow> None | Some (line, rest) \<Rightarrow> Some (b # line, rest))"

lemma split_line_found: "newline \<notin> set line \<Longrightarrow> split_line (line @ newline # rest) = Some (line, rest)"
  by (induction line) auto

lemma split_line_Some: "split_line buf = Some (line, rest) \<longleftrightarrow> buf = line @ newline # rest \<and> newline \<notin> set line"
proof
  show "split_line buf = Some (line, rest) \<Longrightarrow> buf = line @ newline # rest \<and> newline \<notin> set line"
    by (induction buf arbitrary: line) (auto split: if_splits option.splits)
qed (auto simp: split_line_found)

lemma split_line_None: "split_line buf = None \<longleftrightarrow> newline \<notin> set buf"
  by (induction buf) (auto split: option.splits)

section \<open>The streaming parser\<close>

text \<open>
  The body of the loop on the bytes from \<open>offset\<close>: an exception, the need for more bytes, a skipped line or an
  event; with the bytes that are left.
\<close>

datatype parse_outcome = Step_error exn | Need_more | Skipped "byte list" | Event wyoming_event "byte list"

definition parse_step :: "(byte list \<Rightarrow> json option) \<Rightarrow> byte list \<Rightarrow> parse_outcome" where
  "parse_step loads buf = (case split_line buf of
     None \<Rightarrow> Need_more
   | Some (line, rest) \<Rightarrow> (case loads line of
       None \<Rightarrow> Skipped rest
     | Some parsed \<Rightarrow>
         if \<not> is_obj parsed then Skipped rest
         else (case announced_lengths parsed of
             Inl e \<Rightarrow> Step_error e
           | Inr (d, p) \<Rightarrow>
               if 0 < d + p \<and> int (length rest) < d + p then Need_more
               else
                 let data = (if 0 < d then (case loads (take (nat d) rest) of None \<Rightarrow> header_data parsed | Some v \<Rightarrow> v)
                             else header_data parsed);
                     rest1 = drop (nat d) rest
                 in Event \<lparr> we_type = header_type parsed, we_data = data,
                      we_payload = (if 0 < p then Some (take (nat p) rest1) else None) \<rparr> (drop (nat p) rest1))))"

lemma parse_step_shorter:
  "parse_step loads buf = Skipped rest \<Longrightarrow> length rest < length buf"
  "parse_step loads buf = Event ev rest \<Longrightarrow> length rest < length buf"
  by (auto simp: parse_step_def split_line_Some Let_def split: option.splits sum.splits if_splits) linarith+

function parse_wyoming_events :: "(byte list \<Rightarrow> json option) \<Rightarrow> byte list \<Rightarrow> exn + (wyoming_event list \<times> byte list)" where
  "parse_wyoming_events loads buf = (case parse_step loads buf of
     Step_error e \<Rightarrow> Inl e
   | Need_more \<Rightarrow> Inr ([], buf)
   | Skipped rest \<Rightarrow> parse_wyoming_events loads rest
   | Event ev rest \<Rightarrow> (case parse_wyoming_events loads rest of Inl e \<Rightarrow> Inl e | Inr (evs, left) \<Rightarrow> Inr (ev # evs, left)))"
  by pat_completeness auto

termination
  by (relation "measure (length \<circ> snd)") (auto dest: parse_step_shorter)

declare parse_wyoming_events.simps [simp del]

definition payload_bytes :: "wyoming_event \<Rightarrow> byte list" where
  "payload_bytes ev = (case we_payload ev of None \<Rightarrow> [] | Some p \<Rightarrow> p)"

definition event_header :: "wyoming_event \<Rightarrow> json" where
  "event_header ev = JObj ([(''type'', we_type ev), (''data'', we_data ev)]
     @ (if payload_bytes ev \<noteq> [] then [(''payload_length'', JInt (int (length (payload_bytes ev))))] else []))"

definition encode_event :: "(json \<Rightarrow> byte list) \<Rightarrow> wyoming_event \<Rightarrow> byte list" where
  "encode_event dumps ev = dumps (event_header ev) @ [newline] @ payload_bytes ev"

text \<open>A reader keeps what is left over for its next read.\<close>

fun read_events :: "(byte list \<Rightarrow> json option) \<Rightarrow> byte list \<Rightarrow> byte list list \<Rightarrow> exn + (wyoming_event list \<times> byte list)" where
  "read_events loads buf [] = Inr ([], buf)"
| "read_events loads buf (c # cs) = (case parse_wyoming_events loads (buf @ c) of
     Inl e \<Rightarrow> Inl e
   | Inr (evs, left) \<Rightarrow> (case read_events loads left cs of Inl e \<Rightarrow> Inl e | Inr (more_evs, l) \<Rightarrow> Inr (evs @ more_evs, l)))"

section \<open>Speech recognition\<close>

definition audio_format :: json where
  "audio_format = JObj [(''rate'', JInt 16000), (''width'', JInt 2), (''channels'', JInt 1)]"

definition wyoming :: "string \<Rightarrow> json \<Rightarrow> byte list option \<Rightarrow> wyoming_event" where
  "wyoming ty data payload = \<lparr> we_type = JStr ty, we_data = data, we_payload = payload \<rparr>"

text \<open>What is written before the answer is awaited.\<close>

definition stt_request :: "byte list list \<Rightarrow> wyoming_event list" where
  "stt_request chunks = [wyoming ''audio-start'' audio_format None]
     @ map (\<lambda>c. wyoming ''audio-chunk'' audio_format (Some c)) chunks @ [wyoming ''audio-stop'' (JObj []) None]"

text \<open>The first event that settles the request; a \<open>transcript\<close> whose data is no object has no \<open>get\<close>.\<close>

fun settle_stt :: "wyoming_event list \<Rightarrow> (exn + string) option" where
  "settle_stt [] = None"
| "settle_stt (ev # evs) =
    (if we_type ev = JStr ''error'' then Some (Inl (RuntimeError ''STT provider returned a Wyoming error''))
     else if we_type ev = JStr ''transcript'' then
       Some (if is_obj (we_data ev) then Inr (str_value (jat (we_data ev) ''text'')) else Inl AttributeError)
     else settle_stt evs)"

text \<open>\<open>_read_transcript\<close> on the reads up to the end of the stream.\<close>

fun read_transcript :: "(byte list \<Rightarrow> json option) \<Rightarrow> byte list \<Rightarrow> byte list list \<Rightarrow> exn + string" where
  "read_transcript loads buf [] = Inl (RuntimeError ''STT connection closed before transcript'')"
| "read_transcript loads buf (c # cs) = (case parse_wyoming_events loads (buf @ c) of
     Inl e \<Rightarrow> Inl e
   | Inr (evs, left) \<Rightarrow> (case settle_stt evs of Some r \<Rightarrow> r | None \<Rightarrow> read_transcript loads left cs))"

section \<open>Cutting the stream does not matter\<close>

text \<open>No header announces a negative length.\<close>

definition sane_lengths :: "(byte list \<Rightarrow> json option) \<Rightarrow> bool" where
  "sane_lengths loads \<longleftrightarrow> (\<forall>line parsed d p. loads line = Some parsed \<longrightarrow> announced_lengths parsed = Inr (d, p) \<longrightarrow> 0 \<le> d \<and> 0 \<le> p)"

lemma split_line_append: "split_line buf = Some (line, rest) \<Longrightarrow> split_line (buf @ b) = Some (line, rest @ b)"
  by (simp add: split_line_Some)

lemma parse_step_append:
  assumes "sane_lengths loads" and "parse_step loads buf \<noteq> Need_more"
  shows "parse_step loads (buf @ b) = (case parse_step loads buf of
     Step_error e \<Rightarrow> Step_error e | Need_more \<Rightarrow> Need_more | Skipped rest \<Rightarrow> Skipped (rest @ b)
   | Event ev rest \<Rightarrow> Event ev (rest @ b))"
proof (cases "split_line buf")
  case None
  then show ?thesis using assms(2) by (simp add: parse_step_def)
next
  case (Some lr)
  obtain line rest where s: "split_line buf = Some (line, rest)" using Some by (cases lr) auto
  show ?thesis
  proof (cases "loads line")
    case None
    then show ?thesis using s split_line_append [OF s, of b] by (simp add: parse_step_def)
  next
    case (Some parsed)
    show ?thesis
    proof (cases "announced_lengths parsed")
      case (Inr dp)
      obtain d p where dp: "announced_lengths parsed = Inr (d, p)" using Inr by (cases dp) auto
      then have "0 \<le> d" "0 \<le> p" using assms(1) Some unfolding sane_lengths_def by blast+
      moreover have "\<not> (is_obj parsed \<and> 0 < d + p \<and> int (length rest) < d + p)"
        using assms(2) s Some dp by (auto simp: parse_step_def)
      ultimately show ?thesis
        using s split_line_append [OF s, of b] Some dp
        by (auto simp: parse_step_def Let_def nat_le_iff)
    qed (use s split_line_append [OF s, of b] Some in \<open>simp add: parse_step_def\<close>)
  qed
qed

lemma parse_append:
  assumes "sane_lengths loads" and "parse_wyoming_events loads a = Inr (evs, left)"
  shows "parse_wyoming_events loads (a @ b) = (case parse_wyoming_events loads (left @ b) of
     Inl e \<Rightarrow> Inl e | Inr (more_evs, l) \<Rightarrow> Inr (evs @ more_evs, l))"
  using assms
proof (induction loads a arbitrary: evs rule: parse_wyoming_events.induct)
  case (1 loads buf)
  note step = parse_step_append [OF 1(3), of buf b]
  show ?case
  proof (cases "parse_step loads buf")
    case (Step_error e)
    then show ?thesis using 1(4) by (simp add: parse_wyoming_events.simps [of loads buf])
  next
    case Need_more
    then have "evs = []" "left = buf" using 1(4) by (simp_all add: parse_wyoming_events.simps [of loads buf])
    then show ?thesis by (simp split: sum.split)
  next
    case (Skipped rest)
    then have "parse_wyoming_events loads rest = Inr (evs, left)"
      using 1(4) by (simp add: parse_wyoming_events.simps [of loads buf])
    then show ?thesis
      using 1(1) [OF Skipped 1(3)] step Skipped by (simp add: parse_wyoming_events.simps [of loads "buf @ b"])
  next
    case (Event ev rest)
    then obtain evs' where "parse_wyoming_events loads rest = Inr (evs', left)" "evs = ev # evs'"
      using 1(4) by (auto simp: parse_wyoming_events.simps [of loads buf] split: sum.splits)
    then show ?thesis
      using 1(2) [OF Event 1(3)] step Event
      by (auto simp: parse_wyoming_events.simps [of loads "buf @ b"] split: sum.split)
  qed
qed

lemma parse_prefix:
  assumes "sane_lengths loads" and "parse_wyoming_events loads (a @ b) = Inr r"
  shows "\<exists>q. parse_wyoming_events loads a = Inr q"
  using assms
proof (induction loads a arbitrary: r rule: parse_wyoming_events.induct)
  case (1 loads buf)
  note step = parse_step_append [OF 1(3), of buf b]
  show ?case
  proof (cases "parse_step loads buf")
    case (Event ev rest)
    then obtain r2 where "parse_wyoming_events loads (rest @ b) = Inr r2"
      using 1(4) step by (auto simp: parse_wyoming_events.simps [of loads "buf @ b"] split: sum.splits)
    from 1(2) [OF Event 1(3) this] Event show ?thesis
      by (auto simp: parse_wyoming_events.simps [of loads buf] split: prod.splits)
  qed (use 1 step in \<open>auto simp: parse_wyoming_events.simps [of loads buf] parse_wyoming_events.simps [of loads "buf @ b"]\<close>)
qed

lemma parse_left: "parse_wyoming_events loads a = Inr (evs, left) \<Longrightarrow> parse_wyoming_events loads left = Inr ([], left)"
proof (induction loads a arbitrary: evs rule: parse_wyoming_events.induct)
  case (1 loads buf)
  then show ?case
    by (cases "parse_step loads buf")
       (auto simp: parse_wyoming_events.simps [of loads buf] parse_wyoming_events.simps [of loads left] split: sum.splits)
qed

text \<open>Reading in pieces is reading at once: as long as no header raises.\<close>

lemma read_events_concat:
  assumes "sane_lengths loads"
  shows "parse_wyoming_events loads (buf @ concat cs) = Inr (evs, left) \<Longrightarrow> cs \<noteq> [] \<Longrightarrow> read_events loads buf cs = Inr (evs, left)"
proof (induction cs arbitrary: buf evs)
  case (Cons c cs)
  obtain evs1 l1 where first: "parse_wyoming_events loads (buf @ c) = Inr (evs1, l1)"
    using parse_prefix [OF assms, of "buf @ c" "concat cs"] Cons.prems(1) by auto
  show ?case
  proof (cases "cs = []")
    case True
    then show ?thesis using first Cons.prems(1) by simp
  next
    case False
    obtain evs2 where "parse_wyoming_events loads (l1 @ concat cs) = Inr (evs2, left)" "evs = evs1 @ evs2"
      using parse_append [OF assms first, of "concat cs"] Cons.prems(1) by (auto split: sum.splits)
    then show ?thesis using Cons.IH False first by simp
  qed
qed simp

section \<open>Encoded events are read back\<close>

definition codable :: "wyoming_event \<Rightarrow> bool" where
  "codable ev \<longleftrightarrow> is_obj (we_data ev) \<and> we_payload ev \<noteq> Some []"

text \<open>What the code relies on of \<open>json\<close>: a header without indentation is one line, and \<open>loads\<close> inverts \<open>dumps\<close>.\<close>

definition header_reads_back :: "(json \<Rightarrow> byte list) \<Rightarrow> (byte list \<Rightarrow> json option) \<Rightarrow> wyoming_event \<Rightarrow> bool" where
  "header_reads_back dumps loads ev \<longleftrightarrow>
     loads (dumps (event_header ev)) = Some (event_header ev) \<and> newline \<notin> set (dumps (event_header ev))"

lemma header_fields:
  assumes "codable ev"
  shows "header_type (event_header ev) = we_type ev" "header_data (event_header ev) = we_data ev"
    "announced_lengths (event_header ev) = Inr (0, int (length (payload_bytes ev)))" "is_obj (event_header ev)"
  using assms
  by (cases "we_data ev";
      auto simp: event_header_def header_type_def header_data_def announced_lengths_def announced_def py_int_def jat_def codable_def)+

lemma parse_step_encoded:
  assumes "codable ev" and "header_reads_back dumps loads ev"
  shows "parse_step loads (encode_event dumps ev @ rest) = Event ev rest"
proof -
  have "split_line (encode_event dumps ev @ rest) = Some (dumps (event_header ev), payload_bytes ev @ rest)"
    using assms(2) by (simp add: encode_event_def header_reads_back_def split_line_found)
  moreover have "(payload_bytes ev \<noteq> [] \<longrightarrow> \<lparr>we_type = we_type ev, we_data = we_data ev, we_payload = Some (payload_bytes ev)\<rparr> = ev)
      \<and> (payload_bytes ev = [] \<longrightarrow> \<lparr>we_type = we_type ev, we_data = we_data ev, we_payload = None\<rparr> = ev)"
    using assms(1) by (cases "we_payload ev") (auto simp: payload_bytes_def codable_def)
  ultimately show ?thesis
    using assms(2) header_fields [OF assms(1)] by (simp add: parse_step_def header_reads_back_def)
qed

lemma parse_encoded:
  "list_all codable evs \<Longrightarrow> list_all (header_reads_back dumps loads) evs \<Longrightarrow>
   parse_wyoming_events loads (concat (map (encode_event dumps) evs)) = Inr (evs, [])"
proof (induction evs)
  case Nil
  then show ?case by (simp add: parse_wyoming_events.simps parse_step_def)
next
  case (Cons ev evs)
  then show ?case
    using parse_step_encoded [of ev dumps loads "concat (map (encode_event dumps) evs)"]
    by (simp add: parse_wyoming_events.simps [of loads "encode_event dumps ev @ _"])
qed

text \<open>The event stream survives the network: events that are encoded one after the other are read back as the
  same events, with their data and payloads and nothing left over, however the connection cuts the bytes
  into packets.\<close>

theorem event_stream_is_read_back:
  assumes "sane_lengths loads" and "list_all codable evs" and "list_all (header_reads_back dumps loads) evs"
    and "concat packets = concat (map (encode_event dumps) evs)" and "packets \<noteq> []"
  shows "read_events loads [] packets = Inr (evs, [])"
  using read_events_concat [OF assms(1), of "[]" packets evs "[]"] parse_encoded [OF assms(2,3)] assms(4,5) by simp

definition demo_chunk :: wyoming_event where
  "demo_chunk = wyoming ''audio-chunk'' audio_format (Some [7, 8, 9])"

definition demo_loads :: "byte list \<Rightarrow> json option" where
  "demo_loads line = (if line = [123, 125] then Some (event_header demo_chunk) else None)"

lemma demo_chunk_codable: "codable demo_chunk"
  by (simp add: codable_def demo_chunk_def wyoming_def audio_format_def)

lemma demo_loads_sane: "sane_lengths demo_loads"
  using header_fields(3) [OF demo_chunk_codable] by (auto simp: sane_lengths_def demo_loads_def split: if_splits)

theorem event_stream_is_read_back_witness:
  "read_events demo_loads [] [[123], [125, 10, 7], [8, 9, 123, 125, 10], [7, 8, 9]] = Inr ([demo_chunk, demo_chunk], [])"
proof (rule event_stream_is_read_back [of demo_loads "[demo_chunk, demo_chunk]" "\<lambda>_. [123, 125]"])
  show "list_all (header_reads_back (\<lambda>_. [123, 125]) demo_loads) [demo_chunk, demo_chunk]"
    by (simp add: header_reads_back_def demo_loads_def newline_def)
  show "concat [[123], [125, 10, 7], [8, 9, 123, 125, 10], [7, 8, 9]]
      = concat (map (encode_event (\<lambda>_. [123, 125])) [demo_chunk, demo_chunk])"
    by (simp add: encode_event_def payload_bytes_def demo_chunk_def wyoming_def newline_def)
qed (simp_all add: demo_loads_sane demo_chunk_codable)

lemma settle_stt_append: "settle_stt (a @ b) = (case settle_stt a of Some r \<Rightarrow> Some r | None \<Rightarrow> settle_stt b)"
  by (induction a) auto


definition demo_transcript :: wyoming_event where
  "demo_transcript = wyoming ''transcript'' (JObj [(''text'', JStr ''hello'')]) None"

definition demo_answer :: "byte list \<Rightarrow> json option" where
  "demo_answer line = (if line = [123, 125] then Some (event_header demo_transcript) else None)"


end
