(* ===== verification/Speech_Output.thy ===== *)
theory Speech_Output
  imports Wyoming_Wire Voice_Turn Speech_Catalog
begin

text \<open>
  \<open>speech/wyoming_tts.py\<close> and \<open>speech/openai.py\<close>: what a speech service sends becomes the events a turn
  plays (\<^typ>\<open>synth_event\<close>). Samples and filter states are rationals, rounding of floating point numbers is
  not modelled; \<open>math.sin\<close>, \<open>math.cos\<close> and \<open>math.pi\<close> are parameters.
\<close>

section \<open>The resampler\<close>

record biquad =
  bq_b0 :: rat
  bq_b1 :: rat
  bq_b2 :: rat
  bq_a1 :: rat
  bq_a2 :: rat

type_synonym biquad_state = "rat \<times> rat \<times> rat \<times> rat"

definition make_biquad_lpf :: "(rat \<Rightarrow> rat) \<Rightarrow> (rat \<Rightarrow> rat) \<Rightarrow> rat \<Rightarrow> rat \<Rightarrow> rat \<Rightarrow> rat \<Rightarrow> biquad" where
  "make_biquad_lpf sine cosine circle cutoff_hz sample_rate q =
    (let w0 = 2 * circle * cutoff_hz / sample_rate;
         cos_w0 = cosine w0;
         alpha = sine w0 / (2 * q);
         a0 = 1 + alpha
     in \<lparr> bq_b0 = ((1 - cos_w0) / 2) / a0, bq_b1 = (1 - cos_w0) / a0, bq_b2 = ((1 - cos_w0) / 2) / a0,
          bq_a1 = (-2 * cos_w0) / a0, bq_a2 = (1 - alpha) / a0 \<rparr>)"

text \<open>\<open>step\<close>; the state is \<open>x1\<close>, \<open>x2\<close>, \<open>y1\<close>, \<open>y2\<close>.\<close>

definition biquad_step :: "biquad \<Rightarrow> rat \<Rightarrow> biquad_state \<Rightarrow> rat \<times> biquad_state" where
  "biquad_step c x0 st = (case st of (x1, x2, y1, y2) \<Rightarrow>
     let y0 = bq_b0 c * x0 + bq_b1 c * x1 + bq_b2 c * x2 - bq_a1 c * y1 - bq_a2 c * y2 in (y0, (x0, x1, y0, y1)))"

record resampler =
  rs_from :: int
  rs_to :: int
  rs_lpf1 :: biquad
  rs_lpf2 :: biquad
  rs_state1 :: biquad_state
  rs_state2 :: biquad_state

definition make_resampler :: "(rat \<Rightarrow> rat) \<Rightarrow> (rat \<Rightarrow> rat) \<Rightarrow> rat \<Rightarrow> int \<Rightarrow> int \<Rightarrow> resampler" where
  "make_resampler sine cosine circle from_rate to_rate =
    (let cutoff = of_int (min from_rate to_rate) / 2 * (9 / 10)
     in \<lparr> rs_from = from_rate, rs_to = to_rate,
          rs_lpf1 = make_biquad_lpf sine cosine circle cutoff (of_int from_rate) (54119610 / 100000000),
          rs_lpf2 = make_biquad_lpf sine cosine circle cutoff (of_int from_rate) (13065630 / 10000000),
          rs_state1 = (0, 0, 0, 0), rs_state2 = (0, 0, 0, 0) \<rparr>)"

text \<open>\<open>struct.unpack_from("<nh")\<close>, \<open>struct.pack_into("<h")\<close> and \<open>round\<close>\<close>

definition sample_of :: "byte \<Rightarrow> byte \<Rightarrow> int" where
  "sample_of lo hi = sint (word_of_int (uint lo + 256 * uint hi) :: 16 word)"

fun samples :: "byte list \<Rightarrow> int list" where
  "samples (lo # hi # rest) = sample_of lo hi # samples rest"
| "samples _ = []"

definition pack_sample :: "int \<Rightarrow> exn + byte list" where
  "pack_sample v = (if -32768 \<le> v \<and> v \<le> 32767 then Inr [word_of_int v, word_of_int (v div 256)] else Inl ValueError)"

definition py_round :: "rat \<Rightarrow> int" where
  "py_round r = (let f = \<lfloor>r\<rfloor>; d = r - of_int f in
     if d < 1 / 2 then f else if 1 / 2 < d then f + 1 else if even f then f else f + 1)"

fun filter_samples :: "resampler \<Rightarrow> int list \<Rightarrow> rat list \<times> resampler" where
  "filter_samples r [] = ([], r)"
| "filter_samples r (s # ss) =
     (case biquad_step (rs_lpf1 r) (of_int s) (rs_state1 r) of (y, st1) \<Rightarrow>
      case biquad_step (rs_lpf2 r) y (rs_state2 r) of (z, st2) \<Rightarrow>
      case filter_samples (r\<lparr>rs_state1 := st1, rs_state2 := st2\<rparr>) ss of (zs, r') \<Rightarrow> (z # zs, r'))"

definition clamp16 :: "int \<Rightarrow> int" where
  "clamp16 v = (if v > 32767 then 32767 else if v < -32768 then -32768 else v)"

definition interpolated :: "int \<Rightarrow> int \<Rightarrow> rat list \<Rightarrow> nat \<Rightarrow> int" where
  "interpolated from_rate to_rate filtered i =
    (let pos = of_nat i * of_int from_rate / of_int to_rate;
         idx = nat \<lfloor>pos\<rfloor>;
         frac = pos - of_nat idx;
         s0 = (if idx < length filtered then filtered ! idx else 0);
         s1 = (if idx + 1 < length filtered then filtered ! (idx + 1) else s0)
     in clamp16 (py_round (s0 * (1 - frac) + s1 * frac)))"

fun pack_all :: "int list \<Rightarrow> exn + byte list" where
  "pack_all [] = Inr []"
| "pack_all (v # vs) = (case pack_sample v of
     Inl e \<Rightarrow> Inl e
   | Inr b \<Rightarrow> (case pack_all vs of Inl e \<Rightarrow> Inl e | Inr bs \<Rightarrow> Inr (b @ bs)))"

text \<open>A negative length is refused by \<open>bytearray\<close>.\<close>

definition resample :: "byte list \<Rightarrow> resampler \<Rightarrow> (exn + byte list) \<times> resampler" where
  "resample buf r =
    (if length buf div 2 = 0 then (Inr [], r)
     else case filter_samples r (samples buf) of (filtered, r') \<Rightarrow>
       let dst = py_round (of_nat (length buf div 2) * of_int (rs_to r) / of_int (rs_from r)) in
       (if dst < 0 then Inl ValueError
        else pack_all (map (interpolated (rs_from r) (rs_to r) filtered) [0..<nat dst]), r'))"

section \<open>The Wyoming service\<close>

definition synthesis_event :: "string \<Rightarrow> selection \<Rightarrow> wyoming_event" where
  "synthesis_event said sel = wyoming ''synthesize''
     (JObj [(''text'', JStr said), (''voice'', JObj [(''name'', JStr (sel_voice sel))])]) None"

record synth =
  sy_rate :: int
  sy_resample :: "resampler option"
  sy_fired :: bool

definition new_synth :: synth where
  "new_synth = \<lparr> sy_rate = 0, sy_resample = None, sy_fired = False \<rparr>"

text \<open>\<open>isinstance(rate, (int, float))\<close>, then \<open>int(rate)\<close>; data that is no object has no \<open>get\<close>.\<close>

definition event_rate :: "wyoming_event \<Rightarrow> exn + int option" where
  "event_rate ev =
    (if \<not> is_obj (we_data ev) then Inl AttributeError
     else let v = jat (we_data ev) ''rate'' in
       case v of
         JNull \<Rightarrow> Inr None
       | JStr _ \<Rightarrow> Inr None
       | JList _ \<Rightarrow> Inr None
       | JObj _ \<Rightarrow> Inr None
       | _ \<Rightarrow> (case py_int v of Inl e \<Rightarrow> Inl e | Inr n \<Rightarrow> Inr (Some n)))"

text \<open>The effective rate of a target rate that may be absent or zero.\<close>

definition effective_rate :: "int option \<Rightarrow> int \<Rightarrow> int" where
  "effective_rate target source = (case target of Some t \<Rightarrow> if t \<noteq> 0 \<and> t \<noteq> source then t else source | None \<Rightarrow> source)"

definition chunk_out :: "(int \<Rightarrow> int \<Rightarrow> resampler) \<Rightarrow> int option \<Rightarrow> byte list \<Rightarrow> synth \<Rightarrow> synth_event list \<times> (exn + synth)" where
  "chunk_out mk target payload st =
    (let first = \<not> sy_fired st \<and> sy_rate st \<noteq> 0;
         rates = (if first then [Rate (effective_rate target (sy_rate st))] else []);
         st1 = (if first then st\<lparr>sy_fired := True\<rparr> else st)
     in if sy_rate st \<noteq> 0 \<and> effective_rate target (sy_rate st) \<noteq> sy_rate st then
          (let r = (case sy_resample st1 of None \<Rightarrow> mk (sy_rate st) (effective_rate target (sy_rate st)) | Some r \<Rightarrow> r) in
           case resample payload r of
             (Inl e, _) \<Rightarrow> (rates, Inl e)
           | (Inr out, r') \<Rightarrow> (rates @ [Chunk out], Inr (st1\<lparr>sy_resample := Some r'\<rparr>)))
        else (rates @ [Chunk payload], Inr st1))"

text \<open>One event of the stream: what is yielded, and the new state, \<open>audio-stop\<close> or an exception.\<close>

definition synth_event_step :: "(int \<Rightarrow> int \<Rightarrow> resampler) \<Rightarrow> int option \<Rightarrow> wyoming_event \<Rightarrow> synth \<Rightarrow> synth_event list \<times> (exn + synth)" where
  "synth_event_step mk target ev st =
    (if we_type ev = JStr ''error'' then ([], Inl (RuntimeError ''TTS provider returned a Wyoming error''))
     else if we_type ev = JStr ''audio-start'' then
       (case event_rate ev of Inl e \<Rightarrow> ([], Inl e) | Inr None \<Rightarrow> ([], Inr st) | Inr (Some n) \<Rightarrow> ([], Inr (st\<lparr>sy_rate := n\<rparr>)))
     else if we_type ev = JStr ''audio-chunk'' then
       (case (if sy_rate st = 0 then event_rate ev else Inr None) of
          Inl e \<Rightarrow> ([], Inl e)
        | Inr rate \<Rightarrow>
            let st1 = (case rate of None \<Rightarrow> st | Some n \<Rightarrow> st\<lparr>sy_rate := n\<rparr>) in
            (case we_payload ev of
               None \<Rightarrow> ([], Inr st1)
             | Some p \<Rightarrow> if p = [] then ([], Inr st1) else chunk_out mk target p st1))
     else ([], Inr st))"

fun synth_batch :: "(int \<Rightarrow> int \<Rightarrow> resampler) \<Rightarrow> int option \<Rightarrow> wyoming_event list \<Rightarrow> synth \<Rightarrow> synth_event list \<times> (exn + synth)" where
  "synth_batch mk target [] st = ([], Inr st)"
| "synth_batch mk target (ev # evs) st = (case synth_event_step mk target ev st of
     (out, Inl e) \<Rightarrow> (out, Inl e)
   | (out, Inr st1) \<Rightarrow> (case synth_batch mk target evs st1 of (out2, r) \<Rightarrow> (out @ out2, r)))"

definition has_stop :: "wyoming_event list \<Rightarrow> bool" where
  "has_stop evs \<longleftrightarrow> list_ex (\<lambda>ev. we_type ev = JStr ''audio-stop'') evs"

text \<open>The reads of the loop, each with the abort flag at its head; the stream ends with the list.\<close>

fun synthesize_wyoming :: "(byte list \<Rightarrow> json option) \<Rightarrow> (int \<Rightarrow> int \<Rightarrow> resampler) \<Rightarrow> int option
    \<Rightarrow> (bool \<times> byte list) list \<Rightarrow> byte list \<Rightarrow> synth \<Rightarrow> synth_event list \<times> exn option" where
  "synthesize_wyoming loads mk target [] buf st = ([], Some (RuntimeError ''TTS connection closed before audio-stop''))"
| "synthesize_wyoming loads mk target ((aborted, c) # cs) buf st =
    (if aborted then ([], None)
     else case parse_wyoming_events loads (buf @ c) of
       Inl e \<Rightarrow> ([], Some e)
     | Inr (evs, left) \<Rightarrow> (case synth_batch mk target evs st of
         (out, Inl e) \<Rightarrow> (out, Some e)
       | (out, Inr st1) \<Rightarrow>
           if has_stop evs then (out, None)
           else (case synthesize_wyoming loads mk target cs left st1 of (out2, r) \<Rightarrow> (out @ out2, r))))"

section \<open>The OpenAI service\<close>

definition source_rate :: int where "source_rate = 24000"

text \<open>The body of the answer in chunks, each with the abort flag when it comes; \<open>carry\<close> is an odd byte.\<close>

definition realign :: "byte list \<Rightarrow> byte list \<Rightarrow> byte list \<times> byte list" where
  "realign carry c = (if length (carry @ c) mod 2 \<noteq> 0 then (butlast (carry @ c), [last (carry @ c)]) else (carry @ c, []))"

fun synthesize_openai :: "int option \<Rightarrow> (bool \<times> byte list) list \<Rightarrow> byte list \<Rightarrow> bool \<Rightarrow> resampler option \<Rightarrow> synth_event list \<times> exn option" where
  "synthesize_openai target [] carry fired r = ([], None)"
| "synthesize_openai target ((aborted, c) # cs) carry fired r =
    (if aborted then ([], None)
     else case realign carry c of (pcm, carry1) \<Rightarrow>
       if pcm = [] then synthesize_openai target cs carry1 fired r
       else
         let rates = (if fired then [] else [Rate (effective_rate target source_rate)]) in
         (case r of
            None \<Rightarrow> (case synthesize_openai target cs carry1 True None of
                (out, e) \<Rightarrow> (rates @ [Chunk pcm] @ out, e))
          | Some rs \<Rightarrow> (case resample pcm rs of
                (Inl e, _) \<Rightarrow> (rates, Some e)
              | (Inr b, rs1) \<Rightarrow> (case synthesize_openai target cs carry1 True (Some rs1) of
                  (out, e) \<Rightarrow> (rates @ [Chunk b] @ out, e)))))"

text \<open>\<open>synthesize\<close> once the request has been accepted.\<close>

definition openai_answer :: "(int \<Rightarrow> int \<Rightarrow> resampler) \<Rightarrow> int option \<Rightarrow> (bool \<times> byte list) list \<Rightarrow> synth_event list \<times> exn option" where
  "openai_answer mk target body = synthesize_openai target body [] False
     (if effective_rate target source_rate \<noteq> source_rate then Some (mk source_rate (effective_rate target source_rate)) else None)"

section \<open>What comes out\<close>

lemma sample_roundtrip:
  assumes "-32768 \<le> v" and "v \<le> 32767"
  shows "sample_of (word_of_int v) (word_of_int (v div 256)) = v"
proof -
  have "v mod 65536 = 256 * (v div 256 mod 256) + v mod 256"
    using zmod_zmult2_eq [of 256 v 256] by simp
  then have "uint (word_of_int v :: byte) + 256 * uint (word_of_int (v div 256) :: byte) = v mod 65536"
    by (simp add: uint_word_of_int)
  then have "sample_of (word_of_int v) (word_of_int (v div 256)) = (v mod 65536 + 32768) mod 65536 - 32768"
    by (simp add: sample_of_def int_word_sint)
  also have "\<dots> = v" using assms by (simp add: mod_simps)
  finally show ?thesis .
qed

lemma pack_all_ok:
  "list_all (\<lambda>v. -32768 \<le> v \<and> v \<le> 32767) vs \<Longrightarrow> \<exists>bs. pack_all vs = Inr bs \<and> length bs = 2 * length vs \<and> samples bs = vs"
proof (induction vs)
  case (Cons v vs)
  then obtain bs where bs: "pack_all vs = Inr bs" "length bs = 2 * length vs" "samples bs = vs" by auto
  have "sample_of (word_of_int v) (word_of_int (v div 256)) = v"
    using Cons.prems sample_roundtrip by simp
  then show ?case using bs Cons.prems by (simp add: pack_sample_def)
qed simp

lemma clamp16_range: "-32768 \<le> clamp16 v \<and> clamp16 v \<le> 32767"
  by (simp add: clamp16_def)

lemma py_round_nonneg: "0 \<le> r \<Longrightarrow> 0 \<le> py_round r"
  by (simp add: py_round_def Let_def)



fun chunk_bytes_of :: "synth_event list \<Rightarrow> byte list" where
  "chunk_bytes_of [] = []"
| "chunk_bytes_of (Rate _ # es) = chunk_bytes_of es"
| "chunk_bytes_of (Chunk c # es) = c @ chunk_bytes_of es"

fun whole_samples :: "synth_event list \<Rightarrow> bool" where
  "whole_samples [] \<longleftrightarrow> True"
| "whole_samples (Rate _ # es) \<longleftrightarrow> whole_samples es"
| "whole_samples (Chunk c # es) \<longleftrightarrow> c \<noteq> [] \<and> even (length c) \<and> whole_samples es"

lemma realign_parts:
  assumes "realign carry c = (pcm, carry1)"
  shows "pcm @ carry1 = carry @ c" and "length carry1 \<le> 1" and "even (length pcm)"
proof -
  define w where "w = carry @ c"
  have r: "(pcm, carry1) = (if length w mod 2 \<noteq> 0 then (butlast w, [last w]) else (w, []))"
    unfolding w_def using assms unfolding realign_def by (rule sym)
  have "w \<noteq> []" if "length w mod 2 \<noteq> 0" using that by auto
  then have "pcm @ carry1 = w \<and> length carry1 \<le> 1 \<and> even (length pcm)"
    using r by (auto split: if_splits)
  then show "pcm @ carry1 = carry @ c" "length carry1 \<le> 1" "even (length pcm)"
    by (simp_all add: w_def)
qed

lemma openai_stream:
  "list_all (\<lambda>c. \<not> fst c) body \<Longrightarrow> length carry \<le> 1 \<Longrightarrow> synthesize_openai target body carry fired None = (out, e) \<Longrightarrow>
   e = None \<and> whole_samples out
   \<and> (\<exists>rest. length rest \<le> 1 \<and> chunk_bytes_of out @ rest = carry @ concat (map snd body))"
proof (induction body arbitrary: carry fired out e)
  case (Cons ac cs)
  obtain c where c: "ac = (False, c)" using Cons.prems(1) by (cases ac) auto
  obtain pcm carry1 where r: "realign carry c = (pcm, carry1)" by (cases "realign carry c")
  note parts = realign_parts [OF r]
  show ?case
  proof (cases "pcm = []")
    case True
    then show ?thesis
      using Cons.IH [of carry1 fired out e] Cons.prems c r parts by (simp flip: append_assoc)
  next
    case False
    obtain out2 e2 where o2: "synthesize_openai target cs carry1 True None = (out2, e2)"
      by (cases "synthesize_openai target cs carry1 True None")
    obtain rest where rest: "e2 = None" "whole_samples out2" "length rest \<le> 1"
      "chunk_bytes_of out2 @ rest = carry1 @ concat (map snd cs)"
      using Cons.IH [OF _ parts(2) o2] Cons.prems(1) by auto
    have "chunk_bytes_of out = pcm @ chunk_bytes_of out2" "whole_samples out" "e = None"
      using Cons.prems(3) c r False o2 rest(1,2) parts(3) by (auto simp: Let_def)
    moreover have "pcm @ chunk_bytes_of out2 @ rest = carry @ c @ concat (map snd cs)"
      using rest(4) parts(1) by (metis append_assoc)
    ultimately show ?thesis using rest(3) c by auto
  qed
qed (auto intro: exI [of _ carry])

text \<open>The PCM of the OpenAI service reaches the device in whole samples: when no resampling is needed, the
  chunks that are yielded have an even number of bytes each and are, joined, the bytes of the answer, but for
  one odd byte at its end at most; however the answer is cut.\<close>

theorem openai_pcm_is_whole:
  assumes "list_all (\<lambda>c. \<not> fst c) body" and "effective_rate target source_rate = source_rate"
  shows "\<exists>out rest. openai_answer mk target body = (out, None) \<and> whole_samples out \<and> length rest \<le> 1
    \<and> chunk_bytes_of out @ rest = concat (map snd body)"
proof -
  obtain out e where o': "synthesize_openai target body [] False None = (out, e)"
    by (cases "synthesize_openai target body [] False None")
  then show ?thesis
    using openai_stream [OF assms(1) _ o'] assms(2) by (auto simp: openai_answer_def)
qed

theorem openai_pcm_is_whole_witness:
  "\<exists>out rest. openai_answer (make_resampler (\<lambda>_. 0) (\<lambda>_. 0) 3) (Some 24000) [(False, [1, 2, 3]), (False, [4]), (False, [5])] = (out, None)
     \<and> whole_samples out \<and> length rest \<le> 1 \<and> chunk_bytes_of out @ rest = [1, 2, 3, 4, 5]"
  using openai_pcm_is_whole [of "[(False, [1, 2, 3]), (False, [4]), (False, [5])]" "Some 24000"]
  by (simp add: effective_rate_def source_rate_def)

end
