(* ===== verification/Event_Machine.thy ===== *)
theory Event_Machine
  imports Main
begin

text \<open>
  The contract between a component that runs on events and whoever reasons about its runs: a step that keeps an
  invariant, for the events that are allowed or for all of them, or that moves along an order. Every run of such a
  component is the \<open>fold\<close> of its step; what holds of runs is proved here once and interpreted where the step is defined.
\<close>

locale guarded_machine =
  fixes step :: "'e \<Rightarrow> 's \<Rightarrow> 's" and allowed :: "'e \<Rightarrow> bool" and inv :: "'s \<Rightarrow> bool"
  assumes step_keeps: "inv s \<Longrightarrow> allowed e \<Longrightarrow> inv (step e s)"
begin

lemma run_keeps: "inv s \<Longrightarrow> list_all allowed es \<Longrightarrow> inv (fold step es s)"
  by (induction es arbitrary: s) (simp_all add: step_keeps)

end

locale event_machine =
  fixes step :: "'e \<Rightarrow> 's \<Rightarrow> 's" and inv :: "'s \<Rightarrow> bool"
  assumes each_step: "inv s \<Longrightarrow> inv (step e s)"

sublocale event_machine \<subseteq> guarded: guarded_machine step "\<lambda>_. True" inv
  by unfold_locales (rule each_step)

context event_machine
begin

lemma every_run: "inv s \<Longrightarrow> inv (fold step es s)"
  by (rule guarded.run_keeps) (simp_all add: list_all_iff)

end

locale event_order =
  fixes step :: "'e \<Rightarrow> 's \<Rightarrow> 's" and rel :: "'s \<Rightarrow> 's \<Rightarrow> bool"
  assumes order_refl: "rel s s" and order_trans: "rel s t \<Longrightarrow> rel t u \<Longrightarrow> rel s u" and order_step: "rel s (step e s)"

sublocale event_order \<subseteq> reached: event_machine step "rel s" for s
  by unfold_locales (rule order_trans [OF _ order_step])

context event_order
begin

lemma run_order: "rel s (fold step es s)"
  by (rule reached.every_run) (rule order_refl)

end

end
