(* ===== verification/Realtime_Session.thy ===== *)
theory Realtime_Session
  imports Reply_Text Device_Registry
begin

text \<open>
  \<open>realtime/session.py\<close>, class \<open>RealtimeSession\<close>: the turn control of one WebRTC peer. The media pipeline
  itself is Pipecat and not modelled; its callbacks are the operations here. \<open>owns\<close> is
  \<open>_owns_control()\<close>, which the manager decides. A message that is sent leaves a \<open>flight\<close>: what runs
  after its await. \<open>se_taken\<close> is the history of the ends taken from the queue, \<open>se_states\<close> that of
  \<open>registry.set_state\<close>.
\<close>

datatype control_msg =
    Control_end bool
  | Control_transcript string
  | Control_error string
  | Control_speech_start
  | Control_audio_start
  | Control_ready

record pending_end =
  pe_follow :: bool
  pe_audio :: bool
  pe_media :: "nat option"

record flight =
  fl_follow :: bool
  fl_resume :: bool
  fl_input :: int
  fl_activity :: int
  fl_drains :: bool

record peer_session =
  se_closed :: bool
  se_ended :: bool
  se_ready :: bool
  se_last :: time
  se_pending :: "pending_end list"
  se_media :: "(nat, string) dict"
  se_drained :: "nat list"
  se_credits :: nat
  se_speaking :: nat
  se_timer :: bool
  se_awaiting :: bool
  se_barged :: bool
  se_turn_active :: bool
  se_paused :: bool
  se_generation :: int
  se_input :: int
  se_activity :: int
  se_strict :: bool
  se_sent :: "control_msg list"
  se_flights :: "flight list"
  se_taken :: "pending_end list"
  se_states :: "connection_state list"

definition new_session :: "time \<Rightarrow> peer_session" where
  "new_session now = \<lparr> se_closed = False, se_ended = False, se_ready = False, se_last = now, se_pending = [],
     se_media = [], se_drained = [], se_credits = 0, se_speaking = 0, se_timer = False, se_awaiting = False,
     se_barged = False, se_turn_active = False, se_paused = False, se_generation = 0, se_input = 0,
     se_activity = 0, se_strict = False, se_sent = [], se_flights = [], se_taken = [], se_states = [] \<rparr>"

definition is_peer_live :: "peer_session \<Rightarrow> bool" where
  "is_peer_live s \<longleftrightarrow> se_ready s \<and> \<not> se_closed s"

definition touch_activity :: "time \<Rightarrow> peer_session \<Rightarrow> peer_session" where
  "touch_activity now s = s\<lparr>se_last := now\<rparr>"

section \<open>Sending\<close>

definition set_input_expected :: "bool \<Rightarrow> peer_session \<Rightarrow> peer_session" where
  "set_input_expected expected s = s\<lparr>se_input := se_input s + 1,
     se_activity := (if expected then se_activity s + 1 else se_activity s)\<rparr>"

definition set_mic_paused :: "time \<Rightarrow> bool \<Rightarrow> peer_session \<Rightarrow> peer_session" where
  "set_mic_paused now paused s =
    (let t = set_input_expected (\<not> paused) (s\<lparr>se_paused := paused\<rparr>) in
     if paused then t\<lparr>se_turn_active := False\<rparr> else touch_activity now t)"

definition send_control :: "bool \<Rightarrow> control_msg \<Rightarrow> peer_session \<Rightarrow> peer_session" where
  "send_control owns m s = (if se_closed s \<or> se_ended s \<or> \<not> owns then s else s\<lparr>se_sent := se_sent s @ [m]\<rparr>)"

text \<open>\<open>_send_audio_end\<close> up to its await; \<open>drains\<close> when \<open>_drain_ends\<close> goes on after it.\<close>

definition start_audio_end :: "bool \<Rightarrow> bool \<Rightarrow> bool \<Rightarrow> bool \<Rightarrow> peer_session \<Rightarrow> peer_session" where
  "start_audio_end owns follow resume drains s =
    (if se_closed s \<or> se_ended s \<or> \<not> owns then s
     else let t = set_input_expected True s in
       t\<lparr>se_sent := se_sent t @ [Control_end follow],
         se_flights := se_flights t @ [\<lparr> fl_follow = follow, fl_resume = resume, fl_input = se_input t,
           fl_activity = se_activity t, fl_drains = drains \<rparr>]\<rparr>)"

text \<open>The rest of it; \<open>delivered\<close> is the answer of the socket, \<open>same\<close> that the device still has that socket.\<close>

definition finish_audio_end :: "time \<Rightarrow> bool \<Rightarrow> bool \<Rightarrow> bool \<Rightarrow> flight \<Rightarrow> peer_session \<Rightarrow> peer_session" where
  "finish_audio_end now owns delivered same f s =
    (if \<not> delivered \<or> fl_activity f \<noteq> se_activity s \<or> se_closed s \<or> se_ended s \<or> \<not> owns \<or> \<not> same then s
     else
       let s1 = (if fl_resume f \<and> fl_follow f \<and> fl_input f = se_input s then set_mic_paused now False s else s);
           s2 = (if \<not> fl_follow f \<and> fl_input f = se_input s1 then set_input_expected False s1 else s1)
       in s2\<lparr>se_states := se_states s2 @ [if fl_follow f \<and> \<not> se_paused s2 then Listening else Idle]\<rparr>)"

section \<open>Deferred ends\<close>

definition release_media :: "nat option \<Rightarrow> peer_session \<Rightarrow> peer_session" where
  "release_media m s = (case m of None \<Rightarrow> s
   | Some k \<Rightarrow> s\<lparr>se_drained := filter (\<lambda>x. x \<noteq> k) (se_drained s), se_media := dict_pop k (se_media s)\<rparr>)"

text \<open>Whether the end at the head of the queue may be sent.\<close>

definition end_ready :: "pending_end \<Rightarrow> peer_session \<Rightarrow> bool" where
  "end_ready e s \<longleftrightarrow> (case pe_media e of
     Some k \<Rightarrow> k \<in> set (se_drained s)
   | None \<Rightarrow> pe_audio e \<longrightarrow> 0 < se_credits s)"

definition take_end :: "pending_end \<Rightarrow> peer_session \<Rightarrow> peer_session" where
  "take_end e s = release_media (pe_media e) (s\<lparr>
     se_credits := (if pe_media e = None \<and> pe_audio e then se_credits s - 1 else se_credits s),
     se_pending := tl (se_pending s), se_taken := se_taken s @ [e]\<rparr>)"

text \<open>A barge-in is consumed by the first end after it, which then keeps the device listening.\<close>

definition emit_end :: "pending_end \<Rightarrow> peer_session \<Rightarrow> peer_session" where
  "emit_end e s = start_audio_end True (pe_follow e \<or> se_barged s) False True (s\<lparr>se_barged := False\<rparr>)"

text \<open>\<open>_drain_ends\<close>: up to the await of the first end it sends, or to its end.\<close>

function drain_ends :: "bool \<Rightarrow> peer_session \<Rightarrow> peer_session" where
  "drain_ends owns s =
    (case se_pending s of
       [] \<Rightarrow> s
     | e # _ \<Rightarrow>
         if se_ended s \<or> se_closed s \<or> \<not> end_ready e s then s
         else if \<not> owns then drain_ends owns (take_end e s)
         else emit_end e (take_end e s))"
  by pat_completeness auto
termination
  by (relation "measure (\<lambda>(owns, s). length (se_pending s))")
     (auto simp: take_end_def release_media_def split: option.split)

declare drain_ends.simps [simp del]

definition schedule_drain_timer :: "peer_session \<Rightarrow> peer_session" where
  "schedule_drain_timer s = s\<lparr>se_timer := True\<rparr>"

definition cancel_drain_timer :: "peer_session \<Rightarrow> peer_session" where
  "cancel_drain_timer s = s\<lparr>se_timer := False\<rparr>"

definition reply_active :: "peer_session \<Rightarrow> bool" where
  "reply_active s \<longleftrightarrow> 0 < se_speaking s \<or> se_timer s"

definition turns_suppressed :: "bool \<Rightarrow> peer_session \<Rightarrow> bool" where
  "turns_suppressed barge_in s \<longleftrightarrow> se_awaiting s \<or> se_paused s \<or> \<not> barge_in \<and> reply_active s"

definition apply_vad_profile :: "bool \<Rightarrow> peer_session \<Rightarrow> peer_session" where
  "apply_vad_profile barge_in s = s\<lparr>se_strict := (barge_in \<and> reply_active s)\<rparr>"

definition on_interruption :: "peer_session \<Rightarrow> peer_session" where
  "on_interruption s = (if reply_active s then s\<lparr>se_barged := True\<rparr> else s)"

text \<open>\<open>_on_turn_complete\<close>; the turn is recorded by the manager.\<close>

definition on_turn_complete :: "time \<Rightarrow> bool \<Rightarrow> bool \<Rightarrow> string \<Rightarrow> int option \<Rightarrow> nat option \<Rightarrow> peer_session \<Rightarrow> peer_session" where
  "on_turn_complete now owns follow reply generation media s =
    (if se_closed s \<or> se_ended s then s
     else
       let s1 = touch_activity now s;
           has_audio = (strip reply \<noteq> []);
           s2 = (if generation = None \<or> generation = Some (se_generation s1)
                 then s1\<lparr>se_awaiting := False, se_turn_active := False\<rparr> else s1);
           s3 = s2\<lparr>se_pending := se_pending s2 @ [\<lparr> pe_follow = follow, pe_audio = has_audio, pe_media = media \<rparr>]\<rparr>;
           s4 = (if has_audio \<and> se_speaking s3 = 0 then schedule_drain_timer s3 else s3)
       in drain_ends owns s4)"

definition on_turn_skipped :: "time \<Rightarrow> peer_session \<Rightarrow> peer_session" where
  "on_turn_skipped now s = touch_activity now (s\<lparr>se_turn_active := False\<rparr>)"

definition on_bot_started :: "bool \<Rightarrow> peer_session \<Rightarrow> peer_session" where
  "on_bot_started barge_in s =
     apply_vad_profile barge_in (cancel_drain_timer (s\<lparr>se_speaking := Suc (se_speaking s), se_awaiting := False\<rparr>))"

definition on_bot_stopped :: "bool \<Rightarrow> peer_session \<Rightarrow> peer_session" where
  "on_bot_stopped barge_in s =
    (let t = s\<lparr>se_speaking := se_speaking s - 1\<rparr> in
     apply_vad_profile barge_in (if se_speaking t = 0 then schedule_drain_timer t else t))"

text \<open>\<open>_drain_after_idle\<close> after its sleep.\<close>

definition drain_after_idle :: "bool \<Rightarrow> bool \<Rightarrow> peer_session \<Rightarrow> peer_session" where
  "drain_after_idle owns barge_in s =
    (let t = apply_vad_profile barge_in (s\<lparr>se_timer := False\<rparr>) in
     if se_closed t \<or> se_speaking t \<noteq> 0 then t
     else if \<not> list_ex (\<lambda>e. pe_audio e \<and> pe_media e = None) (se_pending t) then t
     else drain_ends owns (t\<lparr>se_credits := Suc (se_credits t)\<rparr>))"

text \<open>\<open>_MediaCompletion.output_drained\<close>\<close>

definition output_drained :: "bool \<Rightarrow> nat \<Rightarrow> peer_session \<Rightarrow> peer_session" where
  "output_drained owns k s =
    (if k \<in> set (dict_keys (se_media s)) \<and> \<not> se_closed s
     then drain_ends owns (s\<lparr>se_drained := (if k \<in> set (se_drained s) then se_drained s else se_drained s @ [k])\<rparr>)
     else s)"

section \<open>Start and end of a session\<close>

text \<open>\<open>close\<close> up to its teardowns, and after they have all succeeded.\<close>

definition close_begin :: "peer_session \<Rightarrow> peer_session" where
  "close_begin s = (if se_closed s then s else cancel_drain_timer (s\<lparr>se_closed := True\<rparr>))"

definition close_finish :: "peer_session \<Rightarrow> peer_session" where
  "close_finish s = s\<lparr>se_media := [], se_drained := filter (\<lambda>k. k \<notin> set (dict_keys (se_media s))) (se_drained s), se_pending := []\<rparr>"

text \<open>\<open>_agent_turn_complete_callback\<close>: the identity of the turn's media, None when the session is retired.\<close>

definition agent_turn_callback :: "string option \<Rightarrow> nat \<Rightarrow> peer_session \<Rightarrow> nat option \<times> peer_session" where
  "agent_turn_callback active k s =
    (if se_closed s then (None, s)
     else case active of
       None \<Rightarrow> (None, close_begin s)
     | Some a \<Rightarrow>
         if list_ex (\<lambda>origin. origin \<noteq> a) (dict_values (se_media s)) then (None, close_begin s)
         else (Some k, s\<lparr>se_media := dict_put k a (se_media s)\<rparr>))"

definition notify_ended :: "bool \<Rightarrow> peer_session \<Rightarrow> peer_session" where
  "notify_ended owns s =
    (if se_ended s then s
     else let t = cancel_drain_timer (s\<lparr>se_ended := True, se_pending := [], se_credits := 0\<rparr>) in
       if \<not> owns then t else t\<lparr>se_sent := se_sent t @ [Control_end False]\<rparr>)"

definition finish_notify :: "bool \<Rightarrow> bool \<Rightarrow> peer_session \<Rightarrow> peer_session" where
  "finish_notify owns same s = (if owns \<and> same then s\<lparr>se_states := se_states s @ [Idle]\<rparr> else s)"

text \<open>\<open>_safety_backstop\<close>: how long it sleeps next, None when the session is reaped.\<close>

definition safety_backstop :: "time \<Rightarrow> peer_session \<Rightarrow> time option" where
  "safety_backstop now s = (let remaining = 600 - (now - se_last s) in if remaining \<le> 0 then None else Some (min 30 remaining))"

definition release_failed_turn :: "bool \<Rightarrow> peer_session \<Rightarrow> peer_session" where
  "release_failed_turn owns s = (if se_closed s then s else start_audio_end owns False False False s)"

definition seed_user_text :: "time \<Rightarrow> bool \<Rightarrow> string \<Rightarrow> peer_session \<Rightarrow> peer_session" where
  "seed_user_text now owns said s = send_control owns (Control_transcript said)
     ((touch_activity now s)\<lparr>se_generation := se_generation s + 1, se_awaiting := True\<rparr>)"

text \<open>\<open>seed_text_turn\<close>; \<open>ready\<close> is whether the pipeline became ready in time.\<close>

definition seed_text_turn :: "time \<Rightarrow> bool \<Rightarrow> bool \<Rightarrow> string \<Rightarrow> peer_session \<Rightarrow> peer_session" where
  "seed_text_turn now owns ready said s =
    (let t = strip said in
     if t = [] then release_failed_turn owns s
     else if se_closed s then s
     else if \<not> ready then release_failed_turn owns s
     else if \<not> is_peer_live s then release_failed_turn owns s
     else seed_user_text now owns t s)"

section \<open>Events\<close>

datatype session_event =
    Turn_complete time bool bool string "int option" "nat option"
  | Turn_skipped time
  | Bot_started bool
  | Bot_stopped bool
  | Idle_timer bool bool
  | Interruption
  | Drained bool nat
  | New_agent_turn "string option" nat
  | Send_done nat time bool bool bool
  | Mic_paused time bool
  | Seed time bool bool string
  | Prompt_end bool bool
  | Notify_ended bool
  | Notify_done bool bool
  | Close_begin
  | Close_finish

text \<open>\<open>Send_done i\<close> is the end of the await of the \<open>i\<close>-th message on its way.\<close>

fun session_step :: "session_event \<Rightarrow> peer_session \<Rightarrow> peer_session" where
  "session_step (Turn_complete now owns follow reply g m) s = on_turn_complete now owns follow reply g m s"
| "session_step (Turn_skipped now) s = on_turn_skipped now s"
| "session_step (Bot_started barge_in) s = on_bot_started barge_in s"
| "session_step (Bot_stopped barge_in) s = on_bot_stopped barge_in s"
| "session_step (Idle_timer owns barge_in) s = (if se_timer s then drain_after_idle owns barge_in s else s)"
| "session_step Interruption s = on_interruption s"
| "session_step (Drained owns k) s = output_drained owns k s"
| "session_step (New_agent_turn active k) s = (if k \<in> set (dict_keys (se_media s)) then s else snd (agent_turn_callback active k s))"
| "session_step (Send_done i now owns delivered same) s =
     (if i < length (se_flights s) then
        let f = se_flights s ! i;
            t = finish_audio_end now owns delivered same f (s\<lparr>se_flights := take i (se_flights s) @ drop (Suc i) (se_flights s)\<rparr>)
        in if fl_drains f then drain_ends owns t else t
      else s)"
| "session_step (Mic_paused now paused) s = set_mic_paused now paused s"
| "session_step (Seed now owns ready said) s = seed_text_turn now owns ready said s"
| "session_step (Prompt_end owns follow) s = start_audio_end owns follow True False s"
| "session_step (Notify_ended owns) s = notify_ended owns s"
| "session_step (Notify_done owns same) s = finish_notify owns same s"
| "session_step Close_begin s = close_begin s"
| "session_step Close_finish s = (if se_closed s then close_finish s else s)"

definition session_run :: "session_event list \<Rightarrow> peer_session \<Rightarrow> peer_session" where
  "session_run es s = fold session_step es s"

section \<open>Ends follow playback\<close>

text \<open>The turns that were completed in a run, in order.\<close>

fun completion :: "session_event \<Rightarrow> peer_session \<Rightarrow> pending_end list" where
  "completion (Turn_complete now owns follow reply g m) s = (if se_closed s \<or> se_ended s then []
     else [\<lparr> pe_follow = follow, pe_audio = strip reply \<noteq> [], pe_media = m \<rparr>])"
| "completion _ s = []"

fun completions :: "session_event list \<Rightarrow> peer_session \<Rightarrow> pending_end list" where
  "completions [] s = []"
| "completions (e # es) s = completion e s @ completions es (session_step e s)"

fun drained_media :: "session_event list \<Rightarrow> nat list" where
  "drained_media [] = []"
| "drained_media (Drained _ k # es) = k # drained_media es"
| "drained_media (_ # es) = drained_media es"

fun idle_timers :: "session_event list \<Rightarrow> nat" where
  "idle_timers [] = 0"
| "idle_timers (Idle_timer _ _ # es) = Suc (idle_timers es)"
| "idle_timers (_ # es) = idle_timers es"

definition by_credit :: "pending_end \<Rightarrow> bool" where
  "by_credit e \<longleftrightarrow> pe_audio e \<and> pe_media e = None"

definition deferral :: "pending_end list \<Rightarrow> nat set \<Rightarrow> nat \<Rightarrow> peer_session \<Rightarrow> bool" where
  "deferral done_turns acks timers s \<longleftrightarrow>
     (\<not> se_closed s \<and> \<not> se_ended s \<longrightarrow> se_taken s @ se_pending s = done_turns)
     \<and> prefix (se_taken s) done_turns
     \<and> set (se_drained s) \<subseteq> acks \<and> (\<forall>e \<in> set (se_taken s). \<forall>k. pe_media e = Some k \<longrightarrow> k \<in> acks)
     \<and> length (filter by_credit (se_taken s)) + se_credits s \<le> timers"

lemmas session_defs = touch_activity_def set_input_expected_def set_mic_paused_def send_control_def start_audio_end_def
  finish_audio_end_def schedule_drain_timer_def cancel_drain_timer_def apply_vad_profile_def on_interruption_def
  on_turn_skipped_def on_bot_started_def on_bot_stopped_def close_begin_def close_finish_def agent_turn_callback_def
  notify_ended_def finish_notify_def release_failed_turn_def seed_user_text_def seed_text_turn_def

lemma deferral_frame:
  assumes "deferral T A n s" and "se_pending t = se_pending s" "se_taken t = se_taken s" "se_drained t = se_drained s"
    "se_credits t = se_credits s" "se_closed s \<Longrightarrow> se_closed t" "se_ended s \<Longrightarrow> se_ended t"
  shows "deferral T A n t"
  using assms by (auto simp: deferral_def)

lemma take_end_frame [simp]:
  "se_closed (take_end e s) = se_closed s" "se_ended (take_end e s) = se_ended s"
  "se_pending (take_end e s) = tl (se_pending s)" "se_taken (take_end e s) = se_taken s @ [e]"
  by (simp_all add: take_end_def release_media_def split: option.split)

lemma deferral_take:
  assumes d: "deferral T A n s" and p: "se_pending s = e # rest" and live: "\<not> se_ended s" "\<not> se_closed s" and r: "end_ready e s"
  shows "deferral T A n (take_end e s)"
proof -
  have "set (se_drained (take_end e s)) \<subseteq> set (se_drained s)"
    by (auto simp: take_end_def release_media_def split: option.split)
  moreover have "length (filter by_credit (se_taken s @ [e])) + se_credits (take_end e s) \<le> n"
    using d r by (auto simp: deferral_def by_credit_def end_ready_def take_end_def release_media_def split: option.splits)
  moreover have T: "se_taken s @ e # rest = T" using d live p by (simp add: deferral_def)
  moreover have "prefix (se_taken s @ [e]) T" unfolding T [symmetric] by simp
  ultimately show ?thesis
    using d r p by (auto simp: deferral_def end_ready_def simp del: filter_append split: option.splits)
qed

lemma deferral_drain: "deferral T A n s \<Longrightarrow> deferral T A n (drain_ends owns s)"
proof (induction owns s rule: drain_ends.induct)
  case (1 owns s)
  show ?case
  proof (cases "se_pending s")
    case Nil
    then show ?thesis using 1(2) by (simp add: drain_ends.simps [of owns s])
  next
    case (Cons e rest)
    show ?thesis
    proof (cases "se_ended s \<or> se_closed s \<or> \<not> end_ready e s")
      case True
      then show ?thesis using 1(2) Cons by (simp add: drain_ends.simps [of owns s])
    next
      case False
      then have t: "deferral T A n (take_end e s)" using deferral_take [OF 1(2) Cons] by blast
      have "deferral T A n (emit_end e (take_end e s))"
        by (rule deferral_frame [OF t]) (auto simp: emit_end_def session_defs Let_def)
      then show ?thesis using 1(1) [OF Cons False] t False Cons by (simp add: drain_ends.simps [of owns s])
    qed
  qed
qed

lemma deferral_step:
  assumes d: "deferral T A n s"
  shows "deferral (T @ completion e s) (A \<union> set (drained_media [e])) (n + idle_timers [e]) (session_step e s)"
proof (cases e)
  case (Turn_complete now owns follow reply g m)
  show ?thesis
  proof (cases "se_closed s \<or> se_ended s")
    case True
    then show ?thesis using d Turn_complete by (auto simp: on_turn_complete_def)
  next
    case False
    have "deferral (T @ completion e s) A n
        (let s1 = touch_activity now s;
             s2 = (if g = None \<or> g = Some (se_generation s1) then s1\<lparr>se_awaiting := False, se_turn_active := False\<rparr> else s1);
             s3 = s2\<lparr>se_pending := se_pending s2 @ [\<lparr> pe_follow = follow, pe_audio = strip reply \<noteq> [], pe_media = m \<rparr>]\<rparr>
         in if strip reply \<noteq> [] \<and> se_speaking s3 = 0 then schedule_drain_timer s3 else s3)"
      using d False Turn_complete by (auto simp: deferral_def session_defs Let_def)
    from deferral_drain [OF this, of owns] show ?thesis
      using False Turn_complete by (simp add: on_turn_complete_def Let_def)
  qed
next
  case (Idle_timer owns barge_in)
  let ?t = "apply_vad_profile barge_in (s\<lparr>se_timer := False\<rparr>)"
  have "deferral T A (Suc n) s" using d by (simp add: deferral_def)
  then have t: "deferral T A (Suc n) ?t" by (rule deferral_frame) (simp_all add: session_defs)
  have "deferral T A (Suc n) (?t\<lparr>se_credits := Suc (se_credits ?t)\<rparr>)"
    using d by (simp add: deferral_def session_defs)
  from deferral_drain [OF this, of owns] t have "deferral T A (Suc n) (drain_after_idle owns barge_in s)"
    by (simp add: drain_after_idle_def Let_def)
  then show ?thesis using Idle_timer d by (auto simp: deferral_def)
next
  case (Drained owns k)
  have a: "deferral T (insert k A) n s" using d by (auto simp: deferral_def)
  have "deferral T (insert k A) n (s\<lparr>se_drained := (if k \<in> set (se_drained s) then se_drained s else se_drained s @ [k])\<rparr>)"
    using d by (auto simp: deferral_def)
  from deferral_drain [OF this, of owns] a show ?thesis
    using Drained by (simp add: output_drained_def)
next
  case (Send_done i now owns delivered same)
  let ?f = "se_flights s ! i"
  let ?t = "finish_audio_end now owns delivered same ?f (s\<lparr>se_flights := take i (se_flights s) @ drop (Suc i) (se_flights s)\<rparr>)"
  have "deferral T A n ?t" by (rule deferral_frame [OF d]) (auto simp: session_defs Let_def)
  then show ?thesis using d Send_done by (auto simp: Let_def intro: deferral_drain)
next
  case (Notify_ended owns)
  then show ?thesis using d by (auto simp: deferral_def session_defs Let_def)
next
  case Close_finish
  then show ?thesis using d by (auto simp: deferral_def session_defs)
qed (use d in \<open>auto intro!: deferral_frame [OF d] simp: session_defs Let_def split: option.split\<close>)

lemma deferral_run:
  "deferral T A n s \<Longrightarrow>
   deferral (T @ completions es s) (A \<union> set (drained_media es)) (n + idle_timers es) (session_run es s)"
proof (induction es arbitrary: T A n s)
  case (Cons e es)
  have "drained_media (e # es) = drained_media [e] @ drained_media es" "idle_timers (e # es) = idle_timers [e] + idle_timers es"
    by (cases e; simp)+
  then show ?case
    using Cons.IH [OF deferral_step [OF Cons.prems, of e]] by (simp add: session_run_def Un_assoc add.assoc)
qed (simp add: session_run_def)



end
