(* ===== verification/Cold_Wake.thy ===== *)
theory Cold_Wake
  imports Event_Machine Wire_Frames "HOL-Library.Sublist"
begin

text \<open>
  \<open>realtime/startup.py\<close> and \<open>realtime/startup_input.py\<close>: the cutover of one cold wake from PCM sent over
  the WebSocket to frames from RTP. The drain is a coroutine: \<open>su_drain\<close> is where it waits, and one
  \<open>drain_turn\<close> runs it from there to its next \<open>await\<close>; every other event may come in between. The
  resampler is a parameter; what the pipeline was given is \<open>su_out\<close>, and \<open>su_failed\<close> are the
  failures reported to the owner.
\<close>

record audio_frame =
  af_audio :: "byte list"
  af_rate :: int

datatype drain =
    No_drain
  | Resampling "byte list"
  | Feeding "byte list list" int
  | Consuming audio_frame
  | Drain_done

record startup =
  su_id :: int
  su_rate :: int
  su_closed :: bool
  su_complete :: bool
  su_ready :: bool
  su_drained :: bool
  su_next :: int
  su_ws :: "byte list"
  su_rtp :: "audio_frame list"
  su_bytes :: int
  su_bound :: bool
  su_drain :: drain
  su_out :: "audio_frame list"
  su_failed :: "string list"

definition MAX_AUDIO_SECONDS :: int where "MAX_AUDIO_SECONDS = 15"

definition new_startup :: "int \<Rightarrow> int \<Rightarrow> startup option" where
  "new_startup i rate = (if rate \<noteq> 16000 \<and> rate \<noteq> 24000 then None
     else Some \<lparr> su_id = i, su_rate = rate, su_closed = False, su_complete = False, su_ready = False,
       su_drained = False, su_next = 0, su_ws = [], su_rtp = [], su_bytes = 0, su_bound = False,
       su_drain = No_drain, su_out = [], su_failed = [] \<rparr>)"

text \<open>\<open>close\<close> cancels a drain that is waiting; the one that calls it has ended already.\<close>

definition close_startup :: "startup \<Rightarrow> startup" where
  "close_startup s = s\<lparr>su_closed := True, su_ws := [], su_rtp := [], su_bytes := 0,
     su_drain := (if su_drain s = No_drain then No_drain else Drain_done)\<rparr>"

definition fail_startup :: "string \<Rightarrow> startup \<Rightarrow> startup" where
  "fail_startup code s = (if su_closed s then s
     else (close_startup s)\<lparr>su_failed := su_failed s @ [code]\<rparr>)"

definition audio_limit :: int where
  "audio_limit = MAX_AUDIO_SECONDS * 24000 * 2"

text \<open>\<open>_reserve\<close>: whether there was room, and the state it leaves. Frames carry a positive sample rate.\<close>

definition reserve :: "nat \<Rightarrow> int \<Rightarrow> startup \<Rightarrow> bool \<times> startup" where
  "reserve n rate s =
    (let t = s\<lparr>su_bytes := su_bytes s + int n * 24000 div rate\<rparr> in
     if su_bytes t > audio_limit then (False, fail_startup ''REALTIME_STARTUP_OVERFLOW'' t) else (True, t))"

definition append_ws :: "int \<Rightarrow> byte list \<Rightarrow> startup \<Rightarrow> startup" where
  "append_ws sequence pcm s =
    (if su_closed s \<or> su_complete s then s
     else if sequence \<noteq> su_next s \<or> pcm = [] \<or> length pcm mod 2 \<noteq> 0 then fail_startup ''REALTIME_STARTUP_SEQUENCE'' s
     else case reserve (length pcm) 16000 s of
       (False, t) \<Rightarrow> t
     | (True, t) \<Rightarrow> t\<lparr>su_ws := su_ws t @ pcm, su_next := seq_after (su_next t)\<rparr>)"

text \<open>True means that the cutover owns the frame.\<close>

definition append_rtp :: "audio_frame \<Rightarrow> startup \<Rightarrow> bool \<times> startup" where
  "append_rtp frame s =
    (if su_closed s then (True, s)
     else if su_drained s then (False, s)
     else case reserve (length (af_audio frame)) (af_rate frame) s of
       (False, t) \<Rightarrow> (True, t)
     | (True, t) \<Rightarrow> (True, t\<lparr>su_rtp := su_rtp t @ [frame]\<rparr>))"

text \<open>\<open>_maybe_drain\<close> creates the task; its first lines run at its first turn.\<close>

definition maybe_drain :: "startup \<Rightarrow> startup" where
  "maybe_drain s =
    (if \<not> su_closed s \<and> \<not> su_drained s \<and> su_complete s \<and> su_ready s \<and> su_bound s \<and> su_drain s = No_drain
     then s\<lparr>su_drain := Resampling (su_ws s)\<rparr> else s)"

definition finish_ws :: "int \<Rightarrow> int \<Rightarrow> startup \<Rightarrow> bool \<times> startup" where
  "finish_ws startup_id next_seq s =
    (if su_closed s \<or> startup_id \<noteq> su_id s then (False, s)
     else if next_seq \<noteq> su_next s then (False, fail_startup ''REALTIME_STARTUP_SEQUENCE'' s)
     else (True, maybe_drain (s\<lparr>su_complete := True\<rparr>)))"

definition bind_consumer :: "startup \<Rightarrow> startup" where
  "bind_consumer s = maybe_drain (s\<lparr>su_bound := True\<rparr>)"

definition provider_ready :: "startup \<Rightarrow> startup" where
  "provider_ready s = maybe_drain (s\<lparr>su_ready := True\<rparr>)"

text \<open>\<open>for offset in range(0, len(pcm), chunk_bytes)\<close>\<close>

function cut :: "nat \<Rightarrow> byte list \<Rightarrow> byte list list" where
  "cut n pcm = (if pcm = [] \<or> n = 0 then [] else take n pcm # cut n (drop n pcm))"
  by pat_completeness auto
termination by (relation "measure (length \<circ> snd)") auto

declare cut.simps [simp del]

definition chunk_bytes :: "int \<Rightarrow> nat" where
  "chunk_bytes rate = nat (rate * 2 * 20 div 1000)"

definition ws_frame :: "int \<Rightarrow> byte list \<Rightarrow> audio_frame" where
  "ws_frame rate c = \<lparr> af_audio = c, af_rate = rate \<rparr>"

text \<open>The loop over the RTP frames, up to its next \<open>await\<close>, and the release of the live input after it.\<close>

definition rtp_loop :: "startup \<Rightarrow> startup" where
  "rtp_loop s = (case su_rtp s of
     f # fs \<Rightarrow> if su_closed s then s\<lparr>su_drain := Drain_done\<rparr>
       else s\<lparr>su_rtp := fs, su_out := su_out s @ [f], su_drain := Consuming f\<rparr>
   | [] \<Rightarrow> if su_closed s then s\<lparr>su_drain := Drain_done\<rparr>
       else s\<lparr>su_drained := True, su_drain := Drain_done\<rparr>)"

text \<open>The loop over the chunks of the WebSocket PCM; \<open>n\<close> is the length of all of it.\<close>

definition feed_loop :: "byte list list \<Rightarrow> int \<Rightarrow> startup \<Rightarrow> startup" where
  "feed_loop cs n s = (case cs of
     c # rest \<Rightarrow> if su_closed s then s\<lparr>su_drain := Drain_done\<rparr>
       else s\<lparr>su_out := su_out s @ [ws_frame (su_rate s) c], su_drain := Feeding rest n\<rparr>
   | [] \<Rightarrow> rtp_loop (s\<lparr>su_bytes := su_bytes s - n * 24000 div su_rate s\<rparr>))"

definition resampled :: "(byte list \<Rightarrow> int \<Rightarrow> byte list) \<Rightarrow> int \<Rightarrow> byte list \<Rightarrow> byte list" where
  "resampled resample rate pcm = (if pcm \<noteq> [] \<and> rate \<noteq> 16000 then resample pcm rate else pcm)"

definition drain_turn :: "(byte list \<Rightarrow> int \<Rightarrow> byte list) \<Rightarrow> startup \<Rightarrow> startup" where
  "drain_turn resample s = (case su_drain s of
     No_drain \<Rightarrow> s
   | Drain_done \<Rightarrow> s
   | Resampling pcm \<Rightarrow>
       (let out = resampled resample (su_rate s) pcm in
        feed_loop (cut (chunk_bytes (su_rate s)) out) (int (length out)) (s\<lparr>su_ws := []\<rparr>))
   | Feeding cs n \<Rightarrow> feed_loop cs n s
   | Consuming f \<Rightarrow> rtp_loop (s\<lparr>su_bytes := su_bytes s - int (length (af_audio f)) * 24000 div af_rate f\<rparr>))"

text \<open>The events of a cutover; \<open>Drain_error\<close> is an exception from the resampler or the pipeline.\<close>

datatype startup_event =
    Ws_pcm int "byte list"
  | Rtp_pcm audio_frame
  | Ws_end int int
  | Bind_pipeline
  | Ready_provider
  | Drain_turn
  | Drain_error
  | Startup_timeout
  | Close_event

fun startup_step :: "(byte list \<Rightarrow> int \<Rightarrow> byte list) \<Rightarrow> startup_event \<Rightarrow> startup \<Rightarrow> startup" where
  "startup_step R (Ws_pcm n pcm) s = append_ws n pcm s"
| "startup_step R (Rtp_pcm f) s = snd (append_rtp f s)"
| "startup_step R (Ws_end i n) s = snd (finish_ws i n s)"
| "startup_step R Bind_pipeline s = bind_consumer s"
| "startup_step R Ready_provider s = provider_ready s"
| "startup_step R Drain_turn s = drain_turn R s"
| "startup_step R Drain_error s =
     (if su_drain s \<in> {No_drain, Drain_done} then s else fail_startup ''REALTIME_STARTUP_FAILED'' s)"
| "startup_step R Startup_timeout s =
     (if su_drained s then s else fail_startup ''REALTIME_STARTUP_TIMEOUT'' s)"
| "startup_step R Close_event s = close_startup s"

definition startup_run :: "(byte list \<Rightarrow> int \<Rightarrow> byte list) \<Rightarrow> startup_event list \<Rightarrow> startup \<Rightarrow> startup" where
  "startup_run R es s = fold (startup_step R) es s"

text \<open>
  \<open>StartupInput.process_frame\<close>: the frames it pushes on. A start frame is pushed before the cutover is
  bound, an audio frame the cutover owns is not pushed at all.
\<close>

datatype pipeline_frame = Start_frame | Cancel_frame | End_frame | Input_audio audio_frame | Other_frame nat

definition startup_input :: "pipeline_frame \<Rightarrow> bool \<Rightarrow> startup option \<Rightarrow> startup option \<times> pipeline_frame list" where
  "startup_input frame downstream startup = (case startup of
     None \<Rightarrow> (None, [frame])
   | Some s \<Rightarrow>
       if \<not> downstream then (Some s, [frame])
       else (case frame of
           Cancel_frame \<Rightarrow> (Some (close_startup s), [frame])
         | End_frame \<Rightarrow> (Some (close_startup s), [frame])
         | Input_audio f \<Rightarrow> (case append_rtp f s of (owned, t) \<Rightarrow> (Some t, if owned then [] else [frame]))
         | Start_frame \<Rightarrow> (Some (provider_ready (bind_consumer s)), [frame])
         | Other_frame _ \<Rightarrow> (Some s, [frame])))"

section \<open>What a run does to what it was given\<close>

text \<open>
  Beside the state, the PCM and the RTP frames the cutover has taken over so far. An event adds to them
  when its step did.
\<close>

type_synonym taken = "byte list \<times> audio_frame list"

fun take_over :: "startup_event \<Rightarrow> startup \<Rightarrow> taken \<Rightarrow> taken" where
  "take_over (Ws_pcm n pcm) s (ws, rtp) = (if su_closed s \<or> su_complete s then (ws, rtp) else (ws @ pcm, rtp))"
| "take_over (Rtp_pcm f) s (ws, rtp) = (if su_drained s \<or> su_closed s then (ws, rtp) else (ws, rtp @ [f]))"
| "take_over e s t = t"

fun tracked_run :: "(byte list \<Rightarrow> int \<Rightarrow> byte list) \<Rightarrow> startup_event list \<Rightarrow> startup \<times> taken \<Rightarrow> startup \<times> taken" where
  "tracked_run R [] st = st"
| "tracked_run R (e # es) (s, t) = tracked_run R es (startup_step R e s, take_over e s t)"

lemma tracked_run_state: "fst (tracked_run R es (s, t)) = startup_run R es s"
  by (induction es arbitrary: s t) (simp_all add: startup_run_def)

definition ws_frames :: "(byte list \<Rightarrow> int \<Rightarrow> byte list) \<Rightarrow> int \<Rightarrow> byte list \<Rightarrow> audio_frame list" where
  "ws_frames R rate ws = map (ws_frame rate) (cut (chunk_bytes rate) (resampled R rate ws))"

text \<open>Where everything taken over is while the cutover is open.\<close>

definition in_order :: "(byte list \<Rightarrow> int \<Rightarrow> byte list) \<Rightarrow> startup \<Rightarrow> taken \<Rightarrow> bool" where
  "in_order R s t \<longleftrightarrow> (case t of (ws, rtp) \<Rightarrow> \<not> su_closed s \<longrightarrow>
     (case su_drain s of
        No_drain \<Rightarrow> su_ws s = ws \<and> su_rtp s = rtp \<and> su_out s = [] \<and> \<not> su_drained s
      | Resampling pcm \<Rightarrow> pcm = ws \<and> su_complete s \<and> su_rtp s = rtp \<and> su_out s = [] \<and> \<not> su_drained s
      | Feeding cs n \<Rightarrow> su_complete s \<and> su_rtp s = rtp \<and> \<not> su_drained s
          \<and> su_out s @ map (ws_frame (su_rate s)) cs = ws_frames R (su_rate s) ws
      | Consuming f \<Rightarrow> su_complete s \<and> \<not> su_drained s
          \<and> (\<exists>gone. su_out s = ws_frames R (su_rate s) ws @ gone \<and> gone @ su_rtp s = rtp)
      | Drain_done \<Rightarrow> su_complete s \<and> su_drained s \<and> su_rtp s = []
          \<and> su_out s = ws_frames R (su_rate s) ws @ rtp))"

lemmas startup_defs = append_ws_def append_rtp_def finish_ws_def bind_consumer_def provider_ready_def
  maybe_drain_def reserve_def fail_startup_def close_startup_def drain_turn_def

lemma in_order_closed [simp]: "su_closed s \<Longrightarrow> in_order R s t"
  by (cases t) (simp add: in_order_def)

lemma in_order_rtp_loop:
  assumes "su_complete s" and "\<not> su_drained s"
    and "su_out s = ws_frames R (su_rate s) ws @ gone" and "gone @ su_rtp s = rtp"
  shows "in_order R (rtp_loop s) (ws, rtp)"
proof (cases "su_rtp s")
  case Nil
  then show ?thesis using assms by (simp add: rtp_loop_def in_order_def)
next
  case (Cons f fs)
  then have "(gone @ [f]) @ fs = rtp" using assms(4) by simp
  then show ?thesis using assms Cons by (auto simp: rtp_loop_def in_order_def)
qed

lemma in_order_feed_loop:
  assumes "su_complete s" and "\<not> su_drained s" and "su_rtp s = rtp"
    and "su_out s @ map (ws_frame (su_rate s)) cs = ws_frames R (su_rate s) ws"
  shows "in_order R (feed_loop cs n s) (ws, rtp)"
proof (cases cs)
  case Nil
  then show ?thesis
    using assms by (auto simp: feed_loop_def intro!: in_order_rtp_loop [where gone = "[]"])
next
  case (Cons c rest)
  then show ?thesis using assms by (auto simp: feed_loop_def in_order_def)
qed

lemma in_order_step:
  assumes "in_order R s t"
  shows "in_order R (startup_step R e s) (take_over e s t)"
proof (cases "su_closed s")
  case True
  have "su_closed (startup_step R e s)"
    using True by (cases e) (auto simp: startup_defs rtp_loop_def feed_loop_def Let_def split: list.split drain.split)
  then show ?thesis by simp
next
  case False
  obtain ws rtp where t: "t = (ws, rtp)" by (cases t)
  note inv = assms [unfolded t in_order_def, simplified False, simplified]
  show ?thesis
  proof (cases e)
    case Drain_turn
    show ?thesis
    proof (cases "su_drain s")
      case (Resampling pcm)
      then show ?thesis
        using inv Drain_turn t by (auto simp: drain_turn_def Let_def ws_frames_def intro!: in_order_feed_loop)
    next
      case (Feeding cs n)
      then show ?thesis using inv Drain_turn t by (auto simp: drain_turn_def intro!: in_order_feed_loop)
    next
      case (Consuming f)
      then show ?thesis using inv Drain_turn t by (auto simp: drain_turn_def intro!: in_order_rtp_loop)
    qed (use assms Drain_turn t in \<open>simp_all add: drain_turn_def\<close>)
  qed (use inv False t in \<open>auto simp: startup_defs in_order_def Let_def split: drain.splits if_splits\<close>)
qed

lemma in_order_run:
  "in_order R s t \<Longrightarrow> in_order R (fst (tracked_run R es (s, t))) (snd (tracked_run R es (s, t)))"
  by (induction es arbitrary: s t) (simp_all add: in_order_step)


section \<open>The bound on what is held\<close>

definition positive_frames :: "startup \<Rightarrow> bool" where
  "positive_frames s \<longleftrightarrow> 0 < su_rate s \<and> list_all (\<lambda>f. 0 < af_rate f) (su_rtp s)
     \<and> (case su_drain s of Consuming f \<Rightarrow> 0 < af_rate f | Feeding _ n \<Rightarrow> 0 \<le> n | _ \<Rightarrow> True)"

definition bounded_startup :: "startup \<Rightarrow> bool" where
  "bounded_startup s \<longleftrightarrow> positive_frames s \<and> su_bytes s \<le> audio_limit"

fun positive_event :: "startup_event \<Rightarrow> bool" where
  "positive_event (Rtp_pcm f) \<longleftrightarrow> 0 < af_rate f"
| "positive_event _ \<longleftrightarrow> True"

lemma audio_limit_nonneg: "0 \<le> audio_limit"
  by (simp add: audio_limit_def MAX_AUDIO_SECONDS_def)

lemma bounded_close: "bounded_startup s \<Longrightarrow> bounded_startup (close_startup s)"
  using audio_limit_nonneg
  by (auto simp: bounded_startup_def positive_frames_def close_startup_def split: drain.splits)

lemma bounded_fail: "0 < su_rate s \<Longrightarrow> bounded_startup s \<or> \<not> su_closed s \<Longrightarrow> bounded_startup (fail_startup code s)"
  using audio_limit_nonneg
  by (auto simp: fail_startup_def bounded_startup_def positive_frames_def close_startup_def split: drain.splits)

lemma bounded_reserve:
  assumes "bounded_startup s" and "\<not> su_closed s"
  shows "bounded_startup (snd (reserve n rate s))"
proof -
  let ?t = "s\<lparr>su_bytes := su_bytes s + int n * 24000 div rate\<rparr>"
  have "0 < su_rate ?t" "\<not> su_closed ?t" "positive_frames ?t"
    using assms by (simp_all add: bounded_startup_def positive_frames_def)
  then show ?thesis
    using bounded_fail [of ?t] by (auto simp: reserve_def Let_def bounded_startup_def)
qed

lemma bounded_rtp_loop: "bounded_startup s \<Longrightarrow> bounded_startup (rtp_loop s)"
  by (auto simp: rtp_loop_def bounded_startup_def positive_frames_def split: list.split)

lemma bounded_feed_loop:
  assumes "bounded_startup s" and "0 \<le> n"
  shows "bounded_startup (feed_loop cs n s)"
proof (cases cs)
  case Nil
  have "0 \<le> n * 24000 div su_rate s"
    using assms by (simp add: bounded_startup_def positive_frames_def pos_imp_zdiv_nonneg_iff)
  then have "bounded_startup (s\<lparr>su_bytes := su_bytes s - n * 24000 div su_rate s\<rparr>)"
    using assms by (simp add: bounded_startup_def positive_frames_def)
  then show ?thesis using Nil by (simp add: feed_loop_def bounded_rtp_loop)
qed (use assms in \<open>simp add: feed_loop_def bounded_startup_def positive_frames_def\<close>)

lemma bounded_maybe_drain: "bounded_startup s \<Longrightarrow> bounded_startup (maybe_drain s)"
  by (simp add: maybe_drain_def bounded_startup_def positive_frames_def)

lemma bounded_flags:
  "bounded_startup (s\<lparr>su_complete := a\<rparr>) = bounded_startup s" "bounded_startup (s\<lparr>su_bound := a\<rparr>) = bounded_startup s"
  "bounded_startup (s\<lparr>su_ready := a\<rparr>) = bounded_startup s" "bounded_startup (s\<lparr>su_ws := w, su_next := n\<rparr>) = bounded_startup s"
  "bounded_startup (s\<lparr>su_ws := w\<rparr>) = bounded_startup s"
  by (simp_all add: bounded_startup_def positive_frames_def)

lemma bounded_rtp: "bounded_startup s \<Longrightarrow> 0 < af_rate f \<Longrightarrow> bounded_startup (s\<lparr>su_rtp := su_rtp s @ [f]\<rparr>)"
  by (simp add: bounded_startup_def positive_frames_def)

lemma bounded_consumed:
  assumes "bounded_startup s" and "su_drain s = Consuming f"
  shows "bounded_startup (s\<lparr>su_bytes := su_bytes s - int (length (af_audio f)) * 24000 div af_rate f\<rparr>)"
proof -
  have "0 \<le> int (length (af_audio f)) * 24000 div af_rate f"
    using assms by (simp add: bounded_startup_def positive_frames_def pos_imp_zdiv_nonneg_iff)
  then show ?thesis using assms by (simp add: bounded_startup_def positive_frames_def)
qed

lemma bounded_step:
  assumes b: "bounded_startup s" and e: "positive_event e"
  shows "bounded_startup (startup_step R e s)"
proof -
  have rate: "0 < su_rate s" using b by (simp add: bounded_startup_def positive_frames_def)
  show ?thesis
  proof (cases e)
    case (Ws_pcm n pcm)
    then show ?thesis
      using b rate bounded_fail [of s] bounded_reserve [of s "length pcm" 16000]
      by (auto simp: append_ws_def bounded_flags split: prod.split bool.split)
  next
    case (Rtp_pcm f)
    then show ?thesis
      using b e bounded_reserve [of s "length (af_audio f)" "af_rate f"]
      by (auto simp: append_rtp_def intro!: bounded_rtp split: prod.split bool.split)
  next
    case (Ws_end i n)
    then show ?thesis
      using b rate bounded_fail [of s] by (auto simp: finish_ws_def bounded_flags intro!: bounded_maybe_drain)
  next
    case Drain_turn
    then show ?thesis
      using b
      by (auto simp: drain_turn_def Let_def bounded_flags bounded_consumed
          intro!: bounded_feed_loop bounded_rtp_loop split: drain.split)
        (simp add: bounded_startup_def positive_frames_def)
  qed (use b rate bounded_fail [of s] in \<open>auto simp: bind_consumer_def provider_ready_def bounded_flags bounded_close
      intro!: bounded_maybe_drain\<close>)
qed

interpretation cutover: guarded_machine "startup_step R" positive_event bounded_startup for R
  by unfold_locales (rule bounded_step)

lemma bounded_run: "bounded_startup s \<Longrightarrow> list_all positive_event es \<Longrightarrow> bounded_startup (startup_run R es s)"
  unfolding startup_run_def by (rule cutover.run_keeps)

section \<open>The drain ends\<close>

lemma rtp_loop_ends:
  "\<not> su_closed s \<Longrightarrow> \<exists>k. su_drained ((drain_turn R ^^ k) (rtp_loop s))"
proof (induction "su_rtp s" arbitrary: s)
  case Nil
  then show ?case by (intro exI [of _ 0]) (simp add: rtp_loop_def flip: Nil.hyps)
next
  case (Cons f fs)
  let ?t = "s\<lparr>su_rtp := fs, su_out := su_out s @ [f], su_drain := Consuming f\<rparr>"
  let ?u = "?t\<lparr>su_bytes := su_bytes ?t - int (length (af_audio f)) * 24000 div af_rate f\<rparr>"
  have loop: "rtp_loop s = ?t" using Cons.hyps(2) Cons.prems by (simp add: rtp_loop_def flip: Cons.hyps(2))
  have turn: "drain_turn R ?t = rtp_loop ?u" by (simp add: drain_turn_def)
  obtain k where "su_drained ((drain_turn R ^^ k) (rtp_loop ?u))"
    using Cons.hyps(1) [of ?u] Cons.prems by auto
  then have "su_drained ((drain_turn R ^^ Suc k) (rtp_loop s))"
    unfolding funpow_Suc_right comp_apply loop turn .
  then show ?case by blast
qed

lemma feed_loop_ends:
  "\<not> su_closed s \<Longrightarrow> \<exists>k. su_drained ((drain_turn R ^^ k) (feed_loop cs n s))"
proof (induction cs arbitrary: s)
  case Nil
  then show ?case by (simp add: feed_loop_def rtp_loop_ends)
next
  case (Cons c cs)
  let ?t = "s\<lparr>su_out := su_out s @ [ws_frame (su_rate s) c], su_drain := Feeding cs n\<rparr>"
  have loop: "feed_loop (c # cs) n s = ?t" using Cons.prems by (simp add: feed_loop_def)
  have turn: "drain_turn R ?t = feed_loop cs n ?t" by (simp add: drain_turn_def)
  obtain k where "su_drained ((drain_turn R ^^ k) (feed_loop cs n ?t))"
    using Cons.IH [of ?t] Cons.prems by auto
  then have "su_drained ((drain_turn R ^^ Suc k) (feed_loop (c # cs) n s))"
    unfolding funpow_Suc_right comp_apply loop turn .
  then show ?case by blast
qed

section \<open>Properties\<close>

lemma rate_kept: "su_rate (startup_step R e s) = su_rate s"
  by (cases e) (auto simp: startup_defs rtp_loop_def feed_loop_def Let_def split: list.split drain.split)

lemma rate_kept_run: "su_rate (startup_run R es s) = su_rate s"
  by (induction es arbitrary: s) (simp_all add: startup_run_def rate_kept)

text \<open>C11: the cutover of a cold wake loses, repeats and reorders nothing: while it is open, what the
  pipeline was given is a prefix of the resampled WebSocket PCM followed by the RTP frames in the order
  they came, whatever the interleaving of packets, readiness and drain; once it has drained it is all of it.\<close>

theorem cold_wake_keeps_order:
  assumes "new_startup i rate = Some s0" and "tracked_run R es (s0, ([], [])) = (s, (ws, rtp))" and "\<not> su_closed s"
  shows "prefix (su_out s) (ws_frames R rate ws @ rtp) \<and> (su_drained s \<longrightarrow> su_out s = ws_frames R rate ws @ rtp)"
proof -
  have i: "in_order R s0 ([], [])" and r: "su_rate s0 = rate"
    using assms(1) by (auto simp: new_startup_def in_order_def split: if_splits)
  have "s = startup_run R es s0" using tracked_run_state [of R es s0 "([], [])"] assms(2) by simp
  then have rate: "su_rate s = rate" using rate_kept_run r by simp
  have "in_order R s (ws, rtp)" using in_order_run [OF i, of es] assms(2) by simp
  then show ?thesis
    using assms(3) rate by (auto simp: in_order_def prefix_def split: drain.splits) (metis append_assoc)+
qed

definition demo_events :: "startup_event list" where
  "demo_events = [Bind_pipeline, Ws_pcm 0 [1, 2], Rtp_pcm \<lparr> af_audio = [5, 6], af_rate = 16000 \<rparr>, Ws_pcm 1 [3, 4],
     Ready_provider, Ws_end 7 2, Drain_turn, Rtp_pcm \<lparr> af_audio = [7, 8], af_rate = 16000 \<rparr>, Drain_turn, Drain_turn, Drain_turn]"

definition demo_startup :: startup where
  "demo_startup = the (new_startup 7 16000)"

lemma demo_startup: "new_startup 7 16000 = Some demo_startup"
  by (simp add: demo_startup_def new_startup_def)

theorem cold_wake_keeps_order_witness:
  "\<exists>s ws rtp. tracked_run (\<lambda>p _. p) demo_events (demo_startup, ([], [])) = (s, (ws, rtp)) \<and> su_drained s
     \<and> su_out s = ws_frames (\<lambda>p _. p) 16000 [1, 2, 3, 4] @ [\<lparr> af_audio = [5, 6], af_rate = 16000 \<rparr>, \<lparr> af_audio = [7, 8], af_rate = 16000 \<rparr>]"
proof -
  have run: "\<exists>s. tracked_run (\<lambda>p _. p) demo_events (demo_startup, ([], [])) = (s, ([1, 2, 3, 4],
      [\<lparr> af_audio = [5, 6], af_rate = 16000 \<rparr>, \<lparr> af_audio = [7, 8], af_rate = 16000 \<rparr>])) \<and> su_drained s \<and> \<not> su_closed s"
    by (simp add: demo_events_def demo_startup_def new_startup_def startup_defs Let_def audio_limit_def MAX_AUDIO_SECONDS_def
        seq_after_mod feed_loop_def rtp_loop_def resampled_def chunk_bytes_def cut.simps)
  then show ?thesis using cold_wake_keeps_order [OF demo_startup] by blast
qed

text \<open>The audio held during a cold wake is bounded: in every state of every run the accounted bytes are at
  most fifteen seconds of 24 kHz mono, since an append that would go over it fails the wake.\<close>

theorem cold_wake_is_bounded:
  assumes "new_startup i rate = Some s0" and "list_all positive_event es"
  shows "su_bytes (startup_run R es s0) \<le> 720000"
proof -
  have "bounded_startup s0"
    using assms(1) by (auto simp: new_startup_def bounded_startup_def positive_frames_def audio_limit_def MAX_AUDIO_SECONDS_def
        split: if_splits)
  then show ?thesis
    using bounded_run [OF _ assms(2)] by (auto simp: bounded_startup_def audio_limit_def MAX_AUDIO_SECONDS_def)
qed

theorem cold_wake_is_bounded_witness:
  "su_bytes (startup_run (\<lambda>p _. p) demo_events demo_startup) \<le> 720000"
  by (rule cold_wake_is_bounded [OF demo_startup]) (simp add: demo_events_def)

text \<open>C12: a cold wake ends: once the WebSocket segment is complete, the pipeline bound and the provider ready,
  finitely many turns of the drain release the live input.\<close>

theorem cold_wake_drains:
  assumes "\<not> su_closed s" and "\<not> su_drained s" and "su_drain s = No_drain"
    and "su_complete s" and "su_ready s" and "su_bound s"
  shows "\<exists>k. su_drained ((drain_turn R ^^ k) (maybe_drain s))"
proof -
  let ?m = "maybe_drain s"
  have m: "su_drain ?m = Resampling (su_ws s)" "\<not> su_closed ?m" using assms by (simp_all add: maybe_drain_def)
  let ?out = "resampled R (su_rate ?m) (su_ws s)"
  have "drain_turn R ?m = feed_loop (cut (chunk_bytes (su_rate ?m)) ?out) (int (length ?out)) (?m\<lparr>su_ws := []\<rparr>)"
    using m(1) by (simp add: drain_turn_def Let_def)
  moreover have opened: "\<not> su_closed (?m\<lparr>su_ws := []\<rparr>)" using m(2) by simp
  from feed_loop_ends [OF opened] obtain k where "su_drained ((drain_turn R ^^ k)
      (feed_loop (cut (chunk_bytes (su_rate ?m)) ?out) (int (length ?out)) (?m\<lparr>su_ws := []\<rparr>)))"
    by blast
  ultimately have "su_drained ((drain_turn R ^^ Suc k) ?m)" by (simp add: funpow_Suc_right del: funpow.simps)
  then show ?thesis by blast
qed


theorem cold_wake_drains_witness:
  "\<exists>k. su_drained ((drain_turn (\<lambda>p _. p) ^^ k) (maybe_drain (demo_startup\<lparr>su_ws := [1, 2], su_complete := True, su_ready := True, su_bound := True\<rparr>)))"
  by (rule cold_wake_drains) (simp_all add: demo_startup_def new_startup_def)

end
