(* ===== verification/Realtime_Manager.thy ===== *)
theory Realtime_Manager
  imports Event_Machine Realtime_Session Cold_Wake
begin

text \<open>
  \<open>realtime/session.py\<close>, class \<open>RealtimeManager\<close>: the conversation log, the wakes of the devices and the
  sessions that belong to them. Wake generations, startups and sessions are objects with an identity; a
  new one gets the number \<open>rm_next\<close>. A coroutine is cut at its awaits: what it captured before one is a
  value that its next part gets, and any operation may run in between.
\<close>

section \<open>The conversation log\<close>

datatype chat_role = User | Assistant

record chat_message =
  cm_role :: chat_role
  cm_text :: string

text \<open>\<open>messages[-1]["content"] = text\<close> when the last message has the role, else \<open>append\<close>\<close>

definition put_message :: "chat_role \<Rightarrow> string \<Rightarrow> chat_message list \<Rightarrow> chat_message list" where
  "put_message r t ms = (if ms \<noteq> [] \<and> cm_role (last ms) = r then butlast ms @ [(last ms)\<lparr>cm_text := t\<rparr>]
     else ms @ [\<lparr> cm_role = r, cm_text = t \<rparr>])"

definition log_turn :: "string \<Rightarrow> string \<Rightarrow> chat_message list \<Rightarrow> chat_message list" where
  "log_turn user_text assistant_text ms =
    (let u = strip user_text; a = strip (strip_follow_up_tag assistant_text);
         with_user = (if u \<noteq> [] then put_message User u ms else ms)
     in if a \<noteq> [] then put_message Assistant a with_user else with_user)"

section \<open>The manager\<close>

record peer =
  pr_session :: peer_session
  pr_startup :: "nat option"
  pr_wake :: "nat option"
  pr_ws :: "nat option"

record manager =
  rm_next :: nat
  rm_live :: "string list"
  rm_startups :: "(string, nat) dict"
  rm_device_wakes :: "(string, nat) dict"
  rm_sessions :: "(string, nat) dict"
  rm_preroll :: "(string, byte list) dict"
  rm_cold :: "string list"
  rm_log :: "(string, chat_message list) dict"
  rm_wakes :: "(string, nat) dict"
  rm_peers :: "(nat, peer) dict"
  rm_cutovers :: "(nat, startup) dict"
  rm_devices :: device_world

definition empty_manager :: "device_world \<Rightarrow> manager" where
  "empty_manager w = \<lparr> rm_next = 0, rm_live = [], rm_startups = [], rm_device_wakes = [], rm_sessions = [],
     rm_preroll = [], rm_cold = [], rm_log = [], rm_wakes = [], rm_peers = [], rm_cutovers = [], rm_devices = w \<rparr>"

definition device_ws :: "manager \<Rightarrow> string \<Rightarrow> nat option" where
  "device_ws m device = map_option de_ws (dict_get (dv_entries (rm_devices m)) device)"

definition device_state :: "string \<Rightarrow> connection_state \<Rightarrow> manager \<Rightarrow> manager" where
  "device_state device st m = m\<lparr>rm_devices := set_state device st (rm_devices m)\<rparr>"

definition record_turn_log :: "string \<Rightarrow> string \<Rightarrow> string \<Rightarrow> manager \<Rightarrow> manager" where
  "record_turn_log device user_text assistant_text m =
    (if strip user_text = [] \<and> strip (strip_follow_up_tag assistant_text) = [] then m
     else m\<lparr>rm_log := dict_put device
       (log_turn user_text assistant_text (case dict_get (rm_log m) device of None \<Rightarrow> [] | Some ms \<Rightarrow> ms)) (rm_log m)\<rparr>)"

definition context_messages :: "manager \<Rightarrow> string \<Rightarrow> chat_message list" where
  "context_messages m device = (case dict_get (rm_log m) device of None \<Rightarrow> [] | Some ms \<Rightarrow> ms)"

subsection \<open>Buffered audio of a cold wake\<close>

definition max_preroll_bytes :: nat where "max_preroll_bytes = 16000 * 2 * 10"

definition list_insert :: "'a \<Rightarrow> 'a list \<Rightarrow> 'a list" where
  "list_insert x xs = (if x \<in> set xs then xs else xs @ [x])"

definition begin_preroll :: "string \<Rightarrow> manager \<Rightarrow> manager" where
  "begin_preroll device m = m\<lparr>rm_next := Suc (rm_next m), rm_wakes := dict_put device (rm_next m) (rm_wakes m),
     rm_preroll := dict_put device [] (rm_preroll m), rm_cold := list_insert device (rm_cold m)\<rparr>"

definition add_preroll :: "string \<Rightarrow> byte list \<Rightarrow> manager \<Rightarrow> manager" where
  "add_preroll device pcm m = (case dict_get (rm_preroll m) device of
     None \<Rightarrow> m
   | Some buf \<Rightarrow> if length buf < max_preroll_bytes then m\<lparr>rm_preroll := dict_put device (buf @ pcm) (rm_preroll m)\<rparr> else m)"

definition take_preroll :: "string \<Rightarrow> manager \<Rightarrow> byte list \<times> manager" where
  "take_preroll device m = (case dict_get (rm_preroll m) device of
     None \<Rightarrow> ([], m)
   | Some buf \<Rightarrow> (buf, m\<lparr>rm_preroll := dict_pop device (rm_preroll m)\<rparr>))"

subsection \<open>Sessions\<close>

definition peer_of_device :: "manager \<Rightarrow> string \<Rightarrow> peer option" where
  "peer_of_device m device = (case dict_get (rm_sessions m) device of None \<Rightarrow> None | Some i \<Rightarrow> dict_get (rm_peers m) i)"

definition has_live_session :: "manager \<Rightarrow> string \<Rightarrow> bool" where
  "has_live_session m device \<longleftrightarrow> (case peer_of_device m device of None \<Rightarrow> False | Some p \<Rightarrow> is_peer_live (pr_session p))"

definition change_session :: "nat \<Rightarrow> (peer_session \<Rightarrow> peer_session) \<Rightarrow> manager \<Rightarrow> manager" where
  "change_session i f m = (case dict_get (rm_peers m) i of
     None \<Rightarrow> m
   | Some p \<Rightarrow> m\<lparr>rm_peers := dict_put i (p\<lparr>pr_session := f (pr_session p)\<rparr>) (rm_peers m)\<rparr>)"

text \<open>\<open>RealtimeSession._owns_control\<close>\<close>

definition owns_control :: "manager \<Rightarrow> string \<Rightarrow> nat \<Rightarrow> bool" where
  "owns_control m device i \<longleftrightarrow> dict_get (rm_sessions m) device = Some i \<and>
     (case dict_get (rm_peers m) i of
        None \<Rightarrow> False
      | Some p \<Rightarrow>
          (pr_wake p = None \<or> dict_get (rm_device_wakes m) device = pr_wake p \<and> device_ws m device = pr_ws p)
          \<and> (pr_startup p = None \<or> dict_get (rm_startups m) device = pr_startup p \<and> device_ws m device = pr_ws p))"

definition set_peer_paused :: "time \<Rightarrow> string \<Rightarrow> bool \<Rightarrow> manager \<Rightarrow> manager" where
  "set_peer_paused now device paused m = (case dict_get (rm_sessions m) device of
     None \<Rightarrow> m
   | Some i \<Rightarrow> change_session i (set_mic_paused now paused) m)"

definition close_cutover :: "nat \<Rightarrow> manager \<Rightarrow> manager" where
  "close_cutover k m = (case dict_get (rm_cutovers m) k of
     None \<Rightarrow> m
   | Some s \<Rightarrow> m\<lparr>rm_cutovers := dict_put k (close_startup s) (rm_cutovers m)\<rparr>)"

text \<open>\<open>RealtimeSession.close\<close>: before its teardowns and after they succeeded.\<close>

definition peer_close_begin :: "nat \<Rightarrow> manager \<Rightarrow> manager" where
  "peer_close_begin i m = (case dict_get (rm_peers m) i of
     None \<Rightarrow> m
   | Some p \<Rightarrow> change_session i close_begin (case pr_startup p of None \<Rightarrow> m | Some k \<Rightarrow> close_cutover k m))"

definition peer_close_finish :: "string \<Rightarrow> nat \<Rightarrow> manager \<Rightarrow> manager" where
  "peer_close_finish device i m = (case dict_get (rm_peers m) i of
     None \<Rightarrow> m
   | Some p \<Rightarrow>
       (let a = change_session i close_finish m;
            b = (if dict_get (rm_sessions a) device = Some i then a\<lparr>rm_sessions := dict_pop device (rm_sessions a)\<rparr> else a)
        in if pr_startup p \<noteq> None \<and> dict_get (rm_startups b) device = pr_startup p
           then b\<lparr>rm_startups := dict_pop device (rm_startups b)\<rparr> else b))"

subsection \<open>Wakes\<close>

definition begin_startup :: "string \<Rightarrow> startup \<Rightarrow> bool \<Rightarrow> manager \<Rightarrow> manager" where
  "begin_startup device s live m =
    (let a = (case dict_get (rm_startups m) device of None \<Rightarrow> m | Some k \<Rightarrow> close_cutover k m);
         k = rm_next a; wake = Suc k in
     a\<lparr>rm_next := Suc wake, rm_cutovers := dict_put k s (rm_cutovers a),
       rm_wakes := dict_put device wake (rm_wakes a), rm_device_wakes := dict_put device wake (rm_device_wakes a),
       rm_startups := dict_put device k (rm_startups a),
       rm_live := (if live then list_insert device (rm_live a) else filter (\<lambda>d. d \<noteq> device) (rm_live a))\<rparr>)"

definition can_accept_offer :: "manager \<Rightarrow> string \<Rightarrow> bool" where
  "can_accept_offer m device \<longleftrightarrow> dict_get (rm_preroll m) device \<noteq> None \<or> dict_get (rm_sessions m) device \<noteq> None
     \<or> device \<in> set (rm_live m) \<or> dict_get (rm_device_wakes m) device \<noteq> None"

text \<open>\<open>_stop_wake\<close>: what it captures, and its part after the session was closed.\<close>

record pending_stop =
  ps_device :: string
  ps_session :: "nat option"
  ps_wake :: "nat option"
  ps_ws :: "nat option"

definition stop_begin :: "string \<Rightarrow> manager \<Rightarrow> pending_stop \<times> manager" where
  "stop_begin device m =
    (let a = (case dict_get (rm_startups m) device of None \<Rightarrow> m | Some k \<Rightarrow> close_cutover k m) in
     (\<lparr> ps_device = device, ps_session = dict_get (rm_sessions m) device, ps_wake = dict_get (rm_wakes m) device,
        ps_ws = device_ws m device \<rparr>,
      case dict_get (rm_sessions m) device of None \<Rightarrow> a | Some i \<Rightarrow> peer_close_begin i a))"

definition same_wake :: "pending_stop \<Rightarrow> manager \<Rightarrow> bool" where
  "same_wake p m \<longleftrightarrow> (dict_get (rm_sessions m) (ps_device p) = None \<or> dict_get (rm_sessions m) (ps_device p) = ps_session p)
     \<and> dict_get (rm_wakes m) (ps_device p) = ps_wake p \<and> device_ws m (ps_device p) = ps_ws p"

definition stop_clear :: "pending_stop \<Rightarrow> manager \<Rightarrow> manager" where
  "stop_clear p m = (let d = ps_device p in
     m\<lparr>rm_startups := dict_pop d (rm_startups m), rm_wakes := dict_pop d (rm_wakes m),
       rm_device_wakes := dict_pop d (rm_device_wakes m), rm_live := filter (\<lambda>x. x \<noteq> d) (rm_live m),
       rm_preroll := dict_pop d (rm_preroll m), rm_cold := filter (\<lambda>x. x \<noteq> d) (rm_cold m)\<rparr>)"

text \<open>The last part, after the notice to the device when there is one.\<close>

definition stop_idle :: "pending_stop \<Rightarrow> manager \<Rightarrow> manager" where
  "stop_idle p m = (let d = ps_device p in
     if (dict_get (rm_sessions m) d = None \<or> dict_get (rm_sessions m) d = ps_session p)
        \<and> dict_get (rm_wakes m) d = None \<and> device_ws m d = ps_ws p
     then device_state d Idle m else m)"

definition stop_finish :: "pending_stop \<Rightarrow> manager \<Rightarrow> manager" where
  "stop_finish p m = (if \<not> same_wake p m then m else stop_idle p (stop_clear p m))"

text \<open>\<open>abort_wake\<close> only goes on for the wake it was called for.\<close>

definition abort_wake_begin :: "string \<Rightarrow> nat option \<Rightarrow> manager \<Rightarrow> pending_stop option \<times> manager" where
  "abort_wake_begin device expected m = (if dict_get (rm_wakes m) device \<noteq> expected then (None, m)
     else case stop_begin device m of (p, a) \<Rightarrow> (Some p, a))"

text \<open>\<open>stop_all\<close>: the devices it stops.\<close>

definition stop_all_devices :: "manager \<Rightarrow> string set" where
  "stop_all_devices m = set (dict_keys (rm_sessions m)) \<union> set (dict_keys (rm_preroll m)) \<union> set (rm_live m)
     \<union> set (dict_keys (rm_device_wakes m))"

subsection \<open>The end of a button prompt\<close>

definition prompt_end_begin :: "string \<Rightarrow> bool \<Rightarrow> manager \<Rightarrow> (nat option \<times> nat option) option \<times> manager" where
  "prompt_end_begin device follow m = (case dict_get (rm_sessions m) device of
     Some i \<Rightarrow> (None, change_session i (start_audio_end (owns_control m device i) follow True False) m)
   | None \<Rightarrow> (Some (device_ws m device, dict_get (rm_wakes m) device), m))"

definition prompt_end_finish :: "string \<Rightarrow> bool \<Rightarrow> bool \<Rightarrow> nat option \<times> nat option \<Rightarrow> manager \<Rightarrow> manager" where
  "prompt_end_finish device follow delivered seen m =
    (if delivered \<and> dict_get (rm_sessions m) device = None \<and> dict_get (rm_wakes m) device = snd seen \<and> device_ws m device = fst seen
     then device_state device (if follow then Listening else Idle) m else m)"

subsection \<open>Offers\<close>

text \<open>
  \<open>handle_offer\<close>. It captures the wake first; the lock, the handshake of Pipecat, the close of an
  existing session and the start of the new one are awaits.
\<close>

record offer =
  of_device :: string
  of_wake :: "nat option"
  of_startup :: "nat option"

definition offer_begin :: "string \<Rightarrow> int option \<Rightarrow> manager \<Rightarrow> offer option" where
  "offer_begin device startup_id m =
    (let o' = \<lparr> of_device = device, of_wake = dict_get (rm_wakes m) device, of_startup = dict_get (rm_startups m) device \<rparr> in
     case dict_get (rm_startups m) device of
       None \<Rightarrow> Some o'
     | Some k \<Rightarrow> (case dict_get (rm_cutovers m) k of
         None \<Rightarrow> None
       | Some s \<Rightarrow> if su_closed s \<or> startup_id \<noteq> Some (su_id s) then None else Some o'))"

definition offer_current :: "offer \<Rightarrow> manager \<Rightarrow> bool" where
  "offer_current f m \<longleftrightarrow> dict_get (rm_wakes m) (of_device f) = of_wake f \<and> can_accept_offer m (of_device f)"

text \<open>The session of the device already belongs to its startup.\<close>

definition already_connected :: "string \<Rightarrow> manager \<Rightarrow> bool" where
  "already_connected device m \<longleftrightarrow> dict_get (rm_startups m) device \<noteq> None
     \<and> (case peer_of_device m device of None \<Rightarrow> False | Some p \<Rightarrow> pr_startup p = dict_get (rm_startups m) device)"

definition offer_locked :: "offer \<Rightarrow> manager \<Rightarrow> bool" where
  "offer_locked f m \<longleftrightarrow> offer_current f m \<and> \<not> already_connected (of_device f) m"

text \<open>\<open>_on_connection\<close>: a conflict, the existing session that has to be closed first, or the new one.\<close>

definition offer_connect :: "offer \<Rightarrow> manager \<Rightarrow> nat option option" where
  "offer_connect f m =
    (if \<not> offer_current f m \<or> already_connected (of_device f) m then None
     else Some (dict_get (rm_sessions m) (of_device f)))"

definition new_peer :: "time \<Rightarrow> string \<Rightarrow> manager \<Rightarrow> peer" where
  "new_peer now device m = \<lparr> pr_session = new_session now, pr_startup = dict_get (rm_startups m) device,
     pr_wake = dict_get (rm_device_wakes m) device, pr_ws = device_ws m device \<rparr>"

text \<open>After the close of an existing session only the wake is compared again.\<close>

definition offer_admit :: "time \<Rightarrow> offer \<Rightarrow> manager \<Rightarrow> nat option \<times> manager" where
  "offer_admit now f m =
    (if dict_get (rm_wakes m) (of_device f) \<noteq> of_wake f then (None, m)
     else (Some (rm_next m), m\<lparr>rm_next := Suc (rm_next m), rm_peers := dict_put (rm_next m) (new_peer now (of_device f) m) (rm_peers m),
       rm_sessions := dict_put (of_device f) (rm_next m) (rm_sessions m)\<rparr>))"

text \<open>After \<open>session.start\<close>: kept, or closed when the wake was superseded or the start failed.\<close>

definition fail_cutover :: "string \<Rightarrow> nat \<Rightarrow> manager \<Rightarrow> manager" where
  "fail_cutover code k m = (case dict_get (rm_cutovers m) k of
     None \<Rightarrow> m
   | Some s \<Rightarrow> m\<lparr>rm_cutovers := dict_put k (fail_startup code s) (rm_cutovers m)\<rparr>)"

definition offer_started :: "bool \<Rightarrow> offer \<Rightarrow> nat \<Rightarrow> manager \<Rightarrow> manager" where
  "offer_started ok f i m =
    (if \<not> ok then peer_close_begin i
       (case dict_get (rm_peers m) i of
          Some p \<Rightarrow> (case pr_startup p of None \<Rightarrow> m | Some k \<Rightarrow> fail_cutover ''REALTIME_STARTUP_FAILED'' k m)
        | None \<Rightarrow> m)
     else if \<not> offer_current f m then peer_close_begin i m
     else m\<lparr>rm_sessions := dict_put (of_device f) i (rm_sessions m)\<rparr>)"

section \<open>The log alternates\<close>

fun alternating :: "chat_message list \<Rightarrow> bool" where
  "alternating (a # b # ms) \<longleftrightarrow> cm_role a \<noteq> cm_role b \<and> alternating (b # ms)"
| "alternating _ \<longleftrightarrow> True"

definition clean_message :: "chat_message \<Rightarrow> bool" where
  "clean_message c \<longleftrightarrow> cm_text c \<noteq> [] \<and> strip (cm_text c) = cm_text c
     \<and> (cm_role c = Assistant \<longrightarrow> \<not> contains follow_up_tag (cm_text c))"

definition good_log :: "chat_message list \<Rightarrow> bool" where
  "good_log ms \<longleftrightarrow> alternating ms \<and> list_all clean_message ms"

lemma alternating_snoc:
  "alternating (ms @ [c]) \<longleftrightarrow> alternating ms \<and> (ms \<noteq> [] \<longrightarrow> cm_role (last ms) \<noteq> cm_role c)"
  by (induction ms rule: alternating.induct) auto

lemma put_message_good:
  assumes "good_log ms" and "clean_message \<lparr> cm_role = r, cm_text = t \<rparr>"
  shows "good_log (put_message r t ms)"
proof (cases "ms \<noteq> [] \<and> cm_role (last ms) = r")
  case True
  define c where "c = last ms"
  have ms: "ms = butlast ms @ [c]" using True by (simp add: c_def)
  have eq: "(last ms)\<lparr>cm_text := t\<rparr> = \<lparr> cm_role = r, cm_text = t \<rparr>" using True by (cases "last ms") simp
  have "alternating (butlast ms @ [\<lparr> cm_role = r, cm_text = t \<rparr>])" "list_all clean_message (butlast ms)"
    using assms(1) True ms unfolding good_log_def by (metis alternating_snoc c_def chat_message.select_convs(1) list_all_append)+
  then show ?thesis using assms(2) True by (simp add: good_log_def put_message_def eq)
next
  case False
  then show ?thesis using assms by (auto simp: good_log_def put_message_def alternating_snoc)
qed

lemma log_turn_good: "good_log ms \<Longrightarrow> good_log (log_turn user assistant ms)"
proof -
  assume g: "good_log ms"
  have "\<not> contains follow_up_tag (strip (strip_follow_up_tag assistant))"
    using strip_tag_clean [of assistant] sublist_strip [of "strip_follow_up_tag assistant"]
    unfolding contains_sublist by (meson sublist_order.order_trans)
  then show ?thesis
    using g by (auto simp: log_turn_def Let_def clean_message_def intro!: put_message_good)
qed

definition log_turns :: "(string \<times> string) list \<Rightarrow> string \<Rightarrow> manager \<Rightarrow> manager" where
  "log_turns turns device m = fold (\<lambda>(u, a). record_turn_log device u a) turns m"

text \<open>The conversation that a model gets as context is well formed: however turns are recorded, whole,
  interrupted or silent, the messages of a device alternate between user and assistant, none is blank, and no
  follow-up tag is left in what the assistant said.\<close>

theorem conversation_alternates:
  assumes "good_log (context_messages m device)"
  shows "good_log (context_messages (log_turns turns device m) device)"
  using assms
proof (induction turns arbitrary: m)
  case (Cons ua turns)
  obtain u a where ua: "ua = (u, a)" by (cases ua)
  have "good_log (context_messages (record_turn_log device u a m) device)"
    using Cons.prems log_turn_good by (auto simp: context_messages_def record_turn_log_def split: option.splits)
  then show ?case using Cons.IH ua by (simp add: log_turns_def)
qed (simp add: log_turns_def)

theorem conversation_alternates_witness:
  "\<forall>w. good_log (context_messages (log_turns [(''Hi'', ''Hello [[follow_up]]''), (''Wait'', []), (''Stop'', ''Ok'')] ''d''
     (empty_manager w)) ''d'')"
  by (rule allI, rule conversation_alternates) (simp add: context_messages_def empty_manager_def good_log_def dict_get_def)

section \<open>A new wake takes over\<close>

text \<open>The operations of other coroutines, in any order.\<close>

datatype manager_event =
    Record_turn string string string
  | Begin_preroll string
  | Add_preroll string "byte list"
  | Take_preroll string
  | Peer_paused time string bool
  | Begin_startup string startup bool
  | Stop_begin string
  | Stop_finish pending_stop
  | Peer_event nat session_event
  | Peer_close nat
  | Peer_closed string nat
  | Prompt_end_begin string bool
  | Prompt_end_finish string bool bool "nat option \<times> nat option"
  | Offer_admit time offer
  | Offer_started bool offer nat
  | Device_event "device_world \<Rightarrow> device_world"

fun manager_step :: "manager_event \<Rightarrow> manager \<Rightarrow> manager" where
  "manager_step (Record_turn d u a) m = record_turn_log d u a m"
| "manager_step (Begin_preroll d) m = begin_preroll d m"
| "manager_step (Add_preroll d pcm) m = add_preroll d pcm m"
| "manager_step (Take_preroll d) m = snd (take_preroll d m)"
| "manager_step (Peer_paused now d paused) m = set_peer_paused now d paused m"
| "manager_step (Begin_startup d s live) m = begin_startup d s live m"
| "manager_step (Stop_begin d) m = snd (stop_begin d m)"
| "manager_step (Stop_finish p) m = stop_finish p m"
| "manager_step (Peer_event i e) m = change_session i (session_step e) m"
| "manager_step (Peer_close i) m = peer_close_begin i m"
| "manager_step (Peer_closed d i) m = peer_close_finish d i m"
| "manager_step (Prompt_end_begin d follow) m = snd (prompt_end_begin d follow m)"
| "manager_step (Prompt_end_finish d follow ok seen) m = prompt_end_finish d follow ok seen m"
| "manager_step (Offer_admit now f) m = snd (offer_admit now f m)"
| "manager_step (Offer_started ok f i) m = offer_started ok f i m"
| "manager_step (Device_event f) m = m\<lparr>rm_devices := f (rm_devices m)\<rparr>"

definition manager_run :: "manager_event list \<Rightarrow> manager \<Rightarrow> manager" where
  "manager_run es m = fold manager_step es m"

text \<open>Every identity that is in use is older than the next one.\<close>

definition used_ids :: "manager \<Rightarrow> nat set" where
  "used_ids m = set (dict_values (rm_wakes m)) \<union> set (dict_values (rm_device_wakes m)) \<union> set (dict_values (rm_startups m))
     \<union> {w. \<exists>p \<in> set (dict_values (rm_peers m)). pr_wake p = Some w \<or> pr_startup p = Some w}"

definition fresh_ids :: "manager \<Rightarrow> bool" where
  "fresh_ids m \<longleftrightarrow> (\<forall>w \<in> used_ids m. w < rm_next m)"

lemma values_put: "set (dict_values (dict_put k v d)) \<subseteq> insert v (set (dict_values d))"
  using set_dict_put [of k v d] by (auto simp: dict_values_def)

lemma values_pop: "set (dict_values (dict_pop k d)) \<subseteq> set (dict_values d)"
  by (auto simp: dict_values_def set_dict_pop)

lemma values_get: "dict_get d k = Some v \<Longrightarrow> v \<in> set (dict_values d)"
  by (force simp: dict_values_def dest: dict_get_in)

text \<open>An operation uses identities that were in use or that it has just taken.\<close>

definition grows :: "manager \<Rightarrow> manager \<Rightarrow> bool" where
  "grows m n \<longleftrightarrow> rm_next m \<le> rm_next n \<and> used_ids n \<subseteq> used_ids m \<union> {rm_next m..<rm_next n}"

lemma grows_refl [simp]: "grows m m"
  by (simp add: grows_def)

lemma grows_trans: "grows m n \<Longrightarrow> grows n k \<Longrightarrow> grows m k"
  unfolding grows_def by (auto 0 4 dest: subsetD)

lemma grows_fresh: "grows m n \<Longrightarrow> fresh_ids m \<Longrightarrow> fresh_ids n"
  unfolding grows_def fresh_ids_def by (force dest: subsetD)

lemma grows_frame:
  assumes "rm_next n = rm_next m" and "set (dict_values (rm_wakes n)) \<subseteq> set (dict_values (rm_wakes m))"
    and "set (dict_values (rm_device_wakes n)) \<subseteq> set (dict_values (rm_device_wakes m))"
    and "set (dict_values (rm_startups n)) \<subseteq> set (dict_values (rm_startups m))" and "rm_peers n = rm_peers m"
  shows "grows m n"
  using assms by (auto simp: grows_def used_ids_def)

lemma grows_change_session: "grows m (change_session i f m)"
proof (cases "dict_get (rm_peers m) i")
  case (Some p)
  have "pr_wake q = Some w \<or> pr_startup q = Some w \<Longrightarrow>
      q \<in> set (dict_values (dict_put i (p\<lparr>pr_session := f (pr_session p)\<rparr>) (rm_peers m))) \<Longrightarrow>
      \<exists>p \<in> set (dict_values (rm_peers m)). pr_wake p = Some w \<or> pr_startup p = Some w" for q w
    using values_get [OF Some] by (auto dest!: subsetD [OF values_put])
  then show ?thesis using Some by (auto simp: change_session_def grows_def used_ids_def)
qed (simp add: change_session_def)

lemma grows_cutover: "grows m (close_cutover k m)" "grows m (fail_cutover c k m)"
  by (auto simp: close_cutover_def fail_cutover_def split: option.split intro!: grows_frame)

lemma grows_close_begin: "grows m (peer_close_begin i m)"
  by (auto simp: peer_close_begin_def split: option.split
      intro: grows_change_session grows_trans [OF grows_cutover(1) grows_change_session])

lemma grows_close_finish: "grows m (peer_close_finish d i m)"
proof -
  let ?a = "change_session i close_finish m"
  have "grows ?a (?a\<lparr>rm_sessions := x\<rparr>)" "grows ?a (?a\<lparr>rm_startups := dict_pop d (rm_startups ?a)\<rparr>)"
    "grows ?a (?a\<lparr>rm_sessions := x, rm_startups := dict_pop d (rm_startups ?a)\<rparr>)" for x
    by (auto intro!: grows_frame dest: subsetD [OF values_pop])
  then show ?thesis
    by (auto simp: peer_close_finish_def Let_def split: option.split intro: grows_trans [OF grows_change_session] grows_change_session)
qed

lemma grows_stop_begin: "grows m (snd (stop_begin d m))"
  by (auto simp: stop_begin_def Let_def split: option.split
      intro: grows_cutover grows_close_begin grows_trans [OF grows_cutover(1) grows_close_begin])

lemma grows_stop_finish: "grows m (stop_finish p m)"
proof -
  have "grows m (stop_clear p m)"
    by (auto simp: stop_clear_def Let_def intro!: grows_frame dest: subsetD [OF values_pop])
  moreover have "grows n (stop_idle p n)" for n
    by (auto simp: stop_idle_def device_state_def Let_def intro!: grows_frame)
  ultimately show ?thesis by (auto simp: stop_finish_def intro: grows_trans)
qed

lemma grows_begin_startup: "grows m (begin_startup d s live m)"
proof -
  let ?a = "case dict_get (rm_startups m) d of None \<Rightarrow> m | Some k \<Rightarrow> close_cutover k m"
  have "grows m ?a" by (auto split: option.split intro: grows_cutover)
  moreover have "grows ?a (begin_startup d s live m)"
    unfolding begin_startup_def Let_def grows_def used_ids_def
    by (auto dest!: subsetD [OF values_put])
  ultimately show ?thesis by (rule grows_trans)
qed

lemma grows_offer_admit: "grows m (snd (offer_admit now f m))"
proof -
  have new: "pr_wake p = Some w \<or> pr_startup p = Some w \<Longrightarrow> p = new_peer now (of_device f) m \<Longrightarrow> w \<in> used_ids m" for p w
    by (auto simp: new_peer_def used_ids_def dest: values_get)
  show ?thesis
    using new unfolding offer_admit_def grows_def
    by (auto simp: used_ids_def dest!: subsetD [OF values_put])
qed

lemma grows_step: "grows m (manager_step e m)"
proof (cases e)
  case (Prompt_end_begin d follow)
  then show ?thesis by (auto simp: prompt_end_begin_def split: option.split intro: grows_change_session)
next
  case (Begin_preroll d)
  then show ?thesis by (auto simp: begin_preroll_def grows_def used_ids_def dest!: subsetD [OF values_put])
next
  case (Offer_started ok f i)
  then show ?thesis
    by (auto simp: offer_started_def split: option.split
        intro: grows_close_begin grows_trans [OF grows_cutover(2) grows_close_begin] grows_frame)
qed (auto simp: record_turn_log_def add_preroll_def take_preroll_def set_peer_paused_def prompt_end_finish_def device_state_def
    split: option.split intro!: grows_begin_startup grows_stop_begin grows_stop_finish grows_change_session
      grows_close_begin grows_close_finish grows_offer_admit grows_frame)

interpretation identities: event_order manager_step grows
  by unfold_locales (rule grows_refl, rule grows_trans, assumption+, rule grows_step)

lemma grows_run: "grows m (manager_run es m)"
  unfolding manager_run_def by (rule identities.run_order)

lemma begin_startup_wake:
  "\<exists>k \<ge> rm_next m. dict_get (rm_wakes (begin_startup d s live m)) d = Some k \<and> dict_get (rm_device_wakes (begin_startup d s live m)) d = Some k
    \<and> (\<exists>j \<ge> rm_next m. dict_get (rm_startups (begin_startup d s live m)) d = Some j)"
  by (auto simp: begin_startup_def close_cutover_def Let_def split: option.split)


definition demo_wake :: "device_world \<Rightarrow> manager" where
  "demo_wake w = snd (offer_admit 0 \<lparr> of_device = ''d'', of_wake = Some 1, of_startup = Some 0 \<rparr>
     (begin_startup ''d'' demo_startup False (empty_manager w)))"


end
