(* ===== verification/Device_Connection.thy ===== *)
theory Device_Connection
  imports Realtime_Manager Store_Laws
begin

text \<open>
  \<open>server.py\<close>: one device WebSocket, from its first message to its close. \<open>cn_m\<close> is what it shares with
  the other connections (registry, settings, realtime manager); the credential store is the argument \<open>A\<close>
  of a step. A handler is cut at the awaits of \<open>RealtimeManager.stop\<close>: \<open>cn_wait\<close> is the stop it waits for and
  what it goes on with, and no other message of the socket is handled meanwhile. The device name of a
  message counts when it is a string.
\<close>

datatype talk_state = Talk_idle | Talk_listening | Talk_processing

record rt_config =
  rc_enabled :: bool
  rc_host :: string
  rc_stun :: string
  rc_offer_path :: string
  rc_origin :: string
  rc_openai_key :: bool
  rc_browser :: "string \<Rightarrow> bool"

record policy =
  po_offer_url :: string
  po_stun :: string
  po_voice_source :: string

datatype ws_out =
    Out_error string
  | Out_ready
  | Out_armed
  | Out_hello string "policy option"

text \<open>A voice turn that was started as a task.\<close>

record started_turn =
  sd_abort :: nat
  sd_chunks :: "byte list list"
  sd_selection :: "selection option"
  sd_rate :: "int option"

datatype continuation =
    Go_on_dispatch json
  | Go_on_realtime json
  | Go_on_reject
  | Go_on_unregister
  | Go_on_nothing

record connection =
  cn_m :: manager
  cn_ws :: nat
  cn_open :: bool
  cn_out :: "ws_out list"
  cn_state :: talk_state
  cn_device :: "string option"
  cn_principal :: "principal option"
  cn_retained :: bool
  cn_chunks :: "byte list list"
  cn_rate :: "int option"
  cn_selection :: "selection option"
  cn_realtime :: bool
  cn_media :: bool
  cn_turn :: int
  cn_startup :: "nat option"
  cn_wait :: "(pending_stop \<times> continuation) option"
  cn_stops :: "pending_stop list"
  cn_gone :: bool
  cn_turns :: "started_turn list"
  cn_buttons :: "(string \<times> string \<times> string) list"

type_synonym 'a conn_op = "(connection, exn, 'a) action"

definition new_connection :: "nat \<Rightarrow> manager \<Rightarrow> connection" where
  "new_connection ws m = \<lparr> cn_m = m, cn_ws = ws, cn_open = True, cn_out = [], cn_state = Talk_idle, cn_device = None,
     cn_principal = None, cn_retained = False, cn_chunks = [], cn_rate = None, cn_selection = None, cn_realtime = False,
     cn_media = False, cn_turn = 0, cn_startup = None, cn_wait = None, cn_stops = [], cn_gone = False, cn_turns = [], cn_buttons = [] \<rparr>"

section \<open>Effects\<close>

definition reply :: "ws_out \<Rightarrow> unit conn_op" where
  "reply out = modifies (\<lambda>c. if cn_open c then c\<lparr>cn_out := cn_out c @ [out]\<rparr> else c)"

definition close_socket :: "unit conn_op" where
  "close_socket = modifies (\<lambda>c. c\<lparr>cn_open := False\<rparr>)"

definition with_manager :: "(manager \<Rightarrow> manager) \<Rightarrow> connection \<Rightarrow> connection" where
  "with_manager f c = c\<lparr>cn_m := f (cn_m c)\<rparr>"

definition with_devices :: "(device_world \<Rightarrow> device_world) \<Rightarrow> connection \<Rightarrow> connection" where
  "with_devices f = with_manager (\<lambda>m. m\<lparr>rm_devices := f (rm_devices m)\<rparr>)"

text \<open>A device operation, which may raise.\<close>

definition on_devices :: "'a device_op \<Rightarrow> 'a conn_op" where
  "on_devices m = (\<lambda>c. case m (rm_devices (cn_m c)) of (r, w) \<Rightarrow> (r, with_devices (\<lambda>_. w) c))"

text \<open>\<open>registry.get(device_id)\<close> is this socket's entry.\<close>

definition entry_is_mine :: "connection \<Rightarrow> bool" where
  "entry_is_mine c \<longleftrightarrow> (case cn_device c of None \<Rightarrow> False | Some d \<Rightarrow> device_ws (cn_m c) d = Some (cn_ws c))"

definition msg_string :: "json \<Rightarrow> string \<Rightarrow> string option" where
  "msg_string msg key = (case jget msg key of Some (JStr s) \<Rightarrow> Some s | _ \<Rightarrow> None)"

definition msg_int :: "json \<Rightarrow> string \<Rightarrow> int option" where
  "msg_int msg key = (case jget msg key of Some (JInt n) \<Rightarrow> Some n | _ \<Rightarrow> None)"

section \<open>Authorization of a message\<close>

definition message_principal :: "world \<Rightarrow> connection \<Rightarrow> json \<Rightarrow> principal option" where
  "message_principal A c msg = (if has_key msg ''token'' then authenticate A (jat msg ''token'') else cn_principal c)"

definition message_resource :: "connection \<Rightarrow> json \<Rightarrow> string option" where
  "message_resource c msg = (if has_key msg ''device_id'' then msg_string msg ''device_id'' else cn_device c)"

definition message_valid :: "world \<Rightarrow> connection \<Rightarrow> json \<Rightarrow> bool" where
  "message_valid A c msg =
    (let p = message_principal A c msg; r = message_resource c msg in
     current A p \<and> allowed p (dict_get ws_operations (str_value (jat msg ''type''))) r False
     \<and> (cn_principal c = None \<or> p = cn_principal c) \<and> (cn_device c = None \<or> r = cn_device c)
     \<and> (cn_principal c \<noteq> None \<longrightarrow> entry_is_mine c))"

definition refuse :: "string \<Rightarrow> bool conn_op" where
  "refuse code = andthen (reply (Out_error code)) (andthen close_socket (ret False))"

definition authorize_message :: "world \<Rightarrow> json \<Rightarrow> bool conn_op" where
  "authorize_message A msg = bnd (reads (\<lambda>c. c)) (\<lambda>c.
     if \<not> message_valid A c msg then
       refuse (if current A (message_principal A c msg) then ''FORBIDDEN'' else ''UNAUTHORIZED'')
     else if cn_principal c \<noteq> None then ret True
     else if msg_string msg ''type'' \<notin> {Some ''hello'', Some ''voice.start'', Some ''realtime.start''} then refuse ''FORBIDDEN''
     else andthen (modifies (\<lambda>c. c\<lparr>cn_principal := message_principal A c msg, cn_device := message_resource c msg, cn_retained := True\<rparr>))
            (ret True))"

section \<open>Handlers\<close>

text \<open>\<open>ctx.device_id\<close>, which is set once a message was authorized\<close>

definition my_device :: "connection \<Rightarrow> string" where
  "my_device c = (case cn_device c of None \<Rightarrow> [] | Some d \<Rightarrow> d)"

definition announce_rate :: "json \<Rightarrow> string option \<Rightarrow> unit conn_op" where
  "announce_rate msg platform = bnd (reads my_device) (\<lambda>d.
     bnd (on_devices (apply_output_sample_rate d msg platform)) (\<lambda>rate.
     case rate of None \<Rightarrow> ret () | Some _ \<Rightarrow> modifies (\<lambda>c. c\<lparr>cn_rate := rate\<rparr>)))"

definition register_me :: "string option \<Rightarrow> unit conn_op" where
  "register_me name = bnd (reads (\<lambda>c. (my_device c, cn_ws c))) (\<lambda>(d, ws).
     andthen (on_devices (register_device d ws name)) (ret ()))"

definition my_config :: "device_config conn_op" where
  "my_config = bnd (reads my_device) (\<lambda>d. on_devices (get_config_for d))"

definition caps_webrtc :: "json \<Rightarrow> bool" where
  "caps_webrtc msg \<longleftrightarrow> JStr ''webrtc'' \<in> set (list_items (jat msg ''caps''))"

definition hello :: "rt_config \<Rightarrow> json \<Rightarrow> unit conn_op" where
  "hello R msg = bnd my_config (\<lambda>cfg.
     let mode = pipeline_mode (Some cfg);
         webrtc_ok = (transport_mode (Some cfg) = ''webrtc'' \<and> rc_enabled R \<and> caps_webrtc msg \<and> rc_host R \<noteq> []);
         platform = msg_string msg ''platform''
     in bnd (reads my_device) (\<lambda>d.
        andthen (when_do (d \<noteq> [])
          (andthen (register_me None)
          (andthen (modifies (with_devices (set_hello_info d platform (msg_string msg ''fw_version''))))
          (announce_rate msg platform))))
        (reply (Out_hello mode
          (if webrtc_ok then Some \<lparr> po_offer_url = rc_origin R @ rc_offer_path R, po_stun = rc_stun R,
             po_voice_source = (if mode = ''realtime'' then ''live_voice_settings'' else ''speech_settings'') \<rparr>
           else None)))))"

definition voice_start :: "json \<Rightarrow> unit conn_op" where
  "voice_start msg = bnd (reads my_device) (\<lambda>d.
     andthen (modifies (with_devices (abort_active_turn d)))
     (andthen (modifies (\<lambda>c. c\<lparr>cn_turn := cn_turn c + 1, cn_chunks := []\<rparr>))
     (bnd (reads (\<lambda>c. resolve_speech (rm_devices (cn_m c)) d)) (\<lambda>sel. case sel of
        Inl e \<Rightarrow>
          if e = KeyError \<or> e = ValueError
          then andthen (reply (Out_error ''SPEECH_UNAVAILABLE'')) (modifies (\<lambda>c. c\<lparr>cn_state := Talk_idle\<rparr>))
          else raise e
      | Inr s \<Rightarrow>
          andthen (modifies (\<lambda>c. c\<lparr>cn_selection := Some s, cn_state := Talk_listening\<rparr>))
          (andthen (register_me (msg_string msg ''name''))
          (andthen (announce_rate msg None)
          (andthen (modifies (with_devices (set_state d Listening)))
          (reply Out_ready))))))))"

text \<open>\<open>_voice_end\<close>: the turn is a task of its own, its abort event a new identity.\<close>

definition start_turn :: "connection \<Rightarrow> connection" where
  "start_turn c =
    (let ev = rm_next (cn_m c); d = my_device c;
         m = (cn_m c)\<lparr>rm_next := Suc ev, rm_devices := change_entry d (\<lambda>e. e\<lparr>de_abort := Some ev\<rparr>) (rm_devices (cn_m c))\<rparr>
     in c\<lparr>cn_m := m, cn_chunks := [],
          cn_turns := cn_turns c @ [\<lparr> sd_abort = ev, sd_chunks = cn_chunks c, sd_selection = cn_selection c, sd_rate = cn_rate c \<rparr>]\<rparr>)"

definition voice_end :: "unit conn_op" where
  "voice_end = bnd (reads (\<lambda>c. c)) (\<lambda>c.
     if cn_state c \<noteq> Talk_listening \<or> cn_device c = None then reply (Out_error ''INVALID_STATE'')
     else andthen (modifies (\<lambda>c. c\<lparr>cn_state := Talk_processing\<rparr>))
       (andthen (modifies (with_devices (set_state (my_device c) Processing)))
       (modifies start_turn)))"

text \<open>The \<open>finally\<close> of a turn: only the turn that still owns the connection of the device clears it.\<close>

definition turn_over :: "nat \<Rightarrow> connection \<Rightarrow> connection" where
  "turn_over ev c = (case dict_get (dv_entries (rm_devices (cn_m c))) (my_device c) of
     None \<Rightarrow> c
   | Some e \<Rightarrow>
       if de_abort e = Some ev then
         with_devices (\<lambda>w. change_entry (my_device c) (\<lambda>e. e\<lparr>de_abort := None\<rparr>) (set_state (my_device c) Idle w))
           (c\<lparr>cn_state := Talk_idle\<rparr>)
       else c)"

definition voice_abort :: "connection \<Rightarrow> connection" where
  "voice_abort c =
    (let a = c\<lparr>cn_turn := cn_turn c + 1\<rparr> in
     case cn_device a of
       None \<Rightarrow> a
     | Some d \<Rightarrow> if d = [] then a
         else (with_devices (\<lambda>w. set_state d Idle (abort_active_turn d w)) a)\<lparr>cn_state := Talk_idle, cn_chunks := []\<rparr>)"

text \<open>\<open>await manager.stop(device_id)\<close>, then \<open>k\<close>\<close>

definition await_stop :: "continuation \<Rightarrow> connection \<Rightarrow> connection" where
  "await_stop k c = (case stop_begin (my_device c) (cn_m c) of (p, m) \<Rightarrow> c\<lparr>cn_m := m, cn_wait := Some (p, k)\<rparr>)"

text \<open>the same in a task of its own\<close>

definition spawn_stop :: "connection \<Rightarrow> connection" where
  "spawn_stop c = (case stop_begin (my_device c) (cn_m c) of (p, m) \<Rightarrow> c\<lparr>cn_m := m, cn_stops := cn_stops c @ [p]\<rparr>)"

definition realtime_stop :: "continuation \<Rightarrow> connection \<Rightarrow> connection" where
  "realtime_stop k c = (if my_device c = [] then c
     else await_stop k ((voice_abort c)\<lparr>cn_realtime := False, cn_media := False, cn_startup := None\<rparr>))"

text \<open>\<open>_realtime_start\<close> up to its stop of what ran before\<close>

definition realtime_start :: "rt_config \<Rightarrow> json \<Rightarrow> unit conn_op" where
  "realtime_start R msg = bnd my_config (\<lambda>cfg. bnd (reads my_device) (\<lambda>d.
     let explicit_live = (jget msg ''mode'' = Some (JStr ''live''));
         transport = transport_mode (Some cfg);
         browser_live = (explicit_live \<and> transport = ''websocket'' \<and> rc_browser R d)
     in if \<not> (rc_enabled R \<and> rc_host R \<noteq> [] \<and> (transport = ''webrtc'' \<or> browser_live)) then reply (Out_error ''REALTIME_UNAVAILABLE'')
        else
          andthen (modifies (\<lambda>c. c\<lparr>cn_realtime := True\<rparr>))
          (andthen (register_me (msg_string msg ''name''))
          (andthen (announce_rate msg None)
          (bnd (reads (\<lambda>c. c)) (\<lambda>c.
             if (case cn_startup c of None \<Rightarrow> False
                 | Some k \<Rightarrow> (case dict_get (rm_cutovers (cn_m c)) k of None \<Rightarrow> False
                     | Some s \<Rightarrow> \<not> su_closed s \<and> msg_int msg ''startup_id'' = Some (su_id s)))
             then reply Out_ready
             else if has_live_session (cn_m c) d \<and> \<not> has_key msg ''startup_id'' then
               andthen (modifies (\<lambda>c. with_devices (set_state d Listening) (c\<lparr>cn_media := True\<rparr>))) (reply Out_ready)
             else bnd my_config (\<lambda>cfg2.
               if (explicit_live \<or> pipeline_mode (Some cfg2) = ''realtime'')
                  \<and> ((case voice_settings (rm_devices (cn_m c)) d of Inr v \<Rightarrow> vv_mode v \<noteq> JStr ''realtime'' | Inl _ \<Rightarrow> False) \<or> \<not> rc_openai_key R)
               then andthen (modifies (\<lambda>c. c\<lparr>cn_realtime := False\<rparr>)) (reply (Out_error ''REALTIME_UNAVAILABLE''))
               else modifies (\<lambda>c. await_stop (Go_on_realtime msg) (c\<lparr>cn_startup := None\<rparr>)))))))))"

text \<open>and after it; the startup object is new.\<close>

definition realtime_armed :: "world \<Rightarrow> json \<Rightarrow> unit conn_op" where
  "realtime_armed A msg = bnd (reads (\<lambda>c. c)) (\<lambda>c.
     if \<not> current A (cn_principal c) \<or> \<not> entry_is_mine c then close_socket
     else
       let d = my_device c; explicit_live = (jget msg ''mode'' = Some (JStr ''live'')) in
       andthen (modifies (\<lambda>c. c\<lparr>cn_realtime := True\<rparr>))
       (if explicit_live then
          andthen (modifies (with_manager (\<lambda>m. m\<lparr>rm_live := list_insert d (rm_live m)\<rparr>)))
          (andthen (modifies (\<lambda>c. with_devices (set_state d Listening) (c\<lparr>cn_media := True\<rparr>)))
          (reply Out_armed))
        else
          andthen (modifies (\<lambda>c. c\<lparr>cn_media := False\<rparr>))
          (case msg_int msg ''startup_id'' of
             None \<Rightarrow> modifies (realtime_stop Go_on_reject)
           | Some n \<Rightarrow>
               if \<not> (0 < n \<and> n \<le> 0xFFFFFFFF) then modifies (realtime_stop Go_on_reject)
               else bnd my_config (\<lambda>cfg.
                 let live = (pipeline_mode (Some cfg) = ''realtime'') in
                 case new_startup n (if live then 24000 else 16000) of
                   None \<Rightarrow> raise ValueError
                 | Some s \<Rightarrow>
                     andthen (modifies (\<lambda>c. with_manager (begin_startup d s live) (c\<lparr>cn_startup :=
                         Some (case dict_get (rm_startups (begin_startup d s live (cn_m c))) d of None \<Rightarrow> 0 | Some k \<Rightarrow> k)\<rparr>)))
                     (andthen (modifies (\<lambda>c. with_devices (set_state d Listening) (c\<lparr>cn_chunks := [], cn_state := Talk_listening\<rparr>)))
                     (reply Out_ready))))))"

text \<open>\<open>failed\<close>, the callback of the startup \<open>k\<close>\<close>

definition startup_failed :: "nat \<Rightarrow> string \<Rightarrow> connection \<Rightarrow> connection" where
  "startup_failed k code c =
    (if cn_startup c \<noteq> Some k \<or> dict_get (rm_startups (cn_m c)) (my_device c) \<noteq> Some k \<or> \<not> entry_is_mine c then c
     else spawn_stop ((voice_abort (if cn_open c then c\<lparr>cn_out := cn_out c @ [Out_error code]\<rparr> else c))
       \<lparr>cn_realtime := False, cn_media := False, cn_startup := None\<rparr>))"

definition device_button :: "json \<Rightarrow> unit conn_op" where
  "device_button msg = modifies (\<lambda>c. case cn_device c of
     None \<Rightarrow> c
   | Some d \<Rightarrow> if d = [] then c
       else c\<lparr>cn_buttons := cn_buttons c @ [(d,
         (case msg_string msg ''button'' of None \<Rightarrow> ''action'' | Some b \<Rightarrow> b),
         (case msg_string msg ''gesture'' of None \<Rightarrow> [] | Some g \<Rightarrow> g))]\<rparr>)"

text \<open>\<open>realtime.media_ready\<close>\<close>

definition media_ready :: "json \<Rightarrow> connection \<Rightarrow> connection" where
  "media_ready msg c = (case (cn_startup c, msg_int msg ''startup_id'', msg_int msg ''next_seq'') of
     (Some k, Some i, Some n) \<Rightarrow>
       (case dict_get (rm_cutovers (cn_m c)) k of
          None \<Rightarrow> c
        | Some s \<Rightarrow> (case finish_ws i n s of (ok, t) \<Rightarrow>
            with_manager (\<lambda>m. m\<lparr>rm_cutovers := dict_put k t (rm_cutovers m)\<rparr>) (if ok then c\<lparr>cn_media := True\<rparr> else c)))
   | _ \<Rightarrow> c)"

definition pause_mic :: "time \<Rightarrow> bool \<Rightarrow> connection \<Rightarrow> connection" where
  "pause_mic now paused c = (if my_device c = [] then c else with_manager (set_peer_paused now (my_device c) paused) c)"

text \<open>\<open>handle_text\<close> once the message is authorized and a dead realtime session was stopped\<close>

definition dispatch :: "rt_config \<Rightarrow> time \<Rightarrow> json \<Rightarrow> unit conn_op" where
  "dispatch R now msg = bnd (reads cn_realtime) (\<lambda>realtime.
    let ty = str_value (jat msg ''type'') in
    if ty = ''hello'' then hello R msg
    else if ty = ''voice.start'' then (if realtime then ret () else voice_start msg)
    else if ty = ''voice.end'' then (if realtime then ret () else voice_end)
    else if ty = ''abort'' then modifies (if realtime then realtime_stop Go_on_nothing else voice_abort)
    else if ty = ''realtime.start'' then realtime_start R msg
    else if ty = ''realtime.media_ready'' then modifies (media_ready msg)
    else if ty = ''realtime.pause'' then modifies (pause_mic now True)
    else if ty = ''realtime.resume'' then modifies (pause_mic now False)
    else if ty = ''realtime.stop'' then modifies (realtime_stop Go_on_nothing)
    else if ty = ''device.button'' then device_button msg
    else reply (Out_error ''UNKNOWN_MESSAGE''))"

definition handle_text :: "world \<Rightarrow> rt_config \<Rightarrow> time \<Rightarrow> json option \<Rightarrow> unit conn_op" where
  "handle_text A R now parsed = (case parsed of
     None \<Rightarrow> reply (Out_error ''INVALID_MESSAGE'')
   | Some msg \<Rightarrow>
       if msg_string msg ''type'' = None then reply (Out_error ''INVALID_MESSAGE'')
       else bnd (authorize_message A msg) (\<lambda>ok.
         if \<not> ok then ret ()
         else bnd (reads (\<lambda>c. cn_media c \<and> \<not> has_live_session (cn_m c) (my_device c))) (\<lambda>dead.
           if dead \<and> msg_string msg ''type'' \<in> {Some ''voice.start'', Some ''voice.end''}
           then modifies (realtime_stop (Go_on_dispatch msg))
           else dispatch R now msg)))"

definition handle_binary :: "world \<Rightarrow> byte list \<Rightarrow> connection \<Rightarrow> connection" where
  "handle_binary A data c =
    (if \<not> current A (cn_principal c) \<or> \<not> allowed (cn_principal c) (Some DEVICE_AUDIO) (cn_device c) False then c
     else case data of
       t # hi # lo # pcm \<Rightarrow>
         if uint t \<noteq> MIC_AUDIO then c
         else (case cn_startup c of
             Some k \<Rightarrow>
               if cn_realtime c then
                 (case dict_get (rm_cutovers (cn_m c)) k of
                    None \<Rightarrow> c
                  | Some s \<Rightarrow> with_manager (\<lambda>m. m\<lparr>rm_cutovers := dict_put k (append_ws (of_big_endian hi lo) pcm s) (rm_cutovers m)\<rparr>) c)
               else if cn_state c = Talk_listening then c\<lparr>cn_chunks := cn_chunks c @ [pcm]\<rparr> else c
           | None \<Rightarrow> if cn_state c = Talk_listening \<and> \<not> cn_realtime c then c\<lparr>cn_chunks := cn_chunks c @ [pcm]\<rparr> else c)
     | _ \<Rightarrow> c)"

text \<open>\<open>close_revoked\<close>, when the credential of the socket is revoked: its teardowns run side by side.\<close>

definition unregister_me :: "connection \<Rightarrow> connection" where
  "unregister_me c = with_devices (unregister_device (my_device c) (Some (cn_ws c))) c"

definition close_revoked :: "connection \<Rightarrow> connection" where
  "close_revoked c =
    (let a = c\<lparr>cn_open := False\<rparr>; d = my_device c in
     if device_ws (cn_m c) d = None \<or> entry_is_mine c then
       let b = unregister_me (with_devices (abort_active_turn d) a) in
       if cn_realtime c then spawn_stop b else b
     else a)"

text \<open>The \<open>finally\<close> of the socket\<close>

definition disconnect :: "connection \<Rightarrow> connection" where
  "disconnect c =
    (let a = c\<lparr>cn_open := False, cn_retained := False, cn_gone := True\<rparr>; d = my_device c in
     if d \<noteq> [] \<and> (device_ws (cn_m c) d = None \<or> entry_is_mine c) then
       let b = with_devices (abort_active_turn d) a in
       if cn_realtime c then await_stop Go_on_unregister b else unregister_me b
     else a)"

section \<open>The life of a connection\<close>

datatype conn_event =
    Text_msg time "json option"
  | Binary_msg "byte list"
  | Stop_done time
  | Teardown_done nat
  | Startup_failed nat string
  | Turn_over nat
  | Revoked
  | Socket_closed
  | Elsewhere "manager \<Rightarrow> manager"

definition resume :: "world \<Rightarrow> rt_config \<Rightarrow> time \<Rightarrow> continuation \<Rightarrow> unit conn_op" where
  "resume A R now k = (case k of
     Go_on_dispatch msg \<Rightarrow> dispatch R now msg
   | Go_on_realtime msg \<Rightarrow> realtime_armed A msg
   | Go_on_reject \<Rightarrow> reply (Out_error ''REALTIME_STARTUP_REQUIRED'')
   | Go_on_unregister \<Rightarrow> modifies unregister_me
   | Go_on_nothing \<Rightarrow> ret ())"

text \<open>When a handler has ended, with an exception or on a closed socket, the \<open>finally\<close> runs.\<close>

definition settle_socket :: "connection \<Rightarrow> connection" where
  "settle_socket c = (if \<not> cn_open c \<and> cn_wait c = None \<and> \<not> cn_gone c then disconnect c else c)"

definition run_handler :: "unit conn_op \<Rightarrow> connection \<Rightarrow> connection" where
  "run_handler m c = (case m c of (Inl e, d) \<Rightarrow> settle_socket (d\<lparr>cn_open := False\<rparr>) | (Inr _, d) \<Rightarrow> settle_socket d)"

fun conn_step :: "world \<Rightarrow> rt_config \<Rightarrow> conn_event \<Rightarrow> connection \<Rightarrow> connection" where
  "conn_step A R (Text_msg now parsed) c =
     (if \<not> cn_open c \<or> cn_wait c \<noteq> None then c else run_handler (handle_text A R now parsed) c)"
| "conn_step A R (Binary_msg data) c =
     (if \<not> cn_open c \<or> cn_wait c \<noteq> None then c
      else if \<not> entry_is_mine c \<or> \<not> current A (cn_principal c) then settle_socket (c\<lparr>cn_open := False\<rparr>)
      else handle_binary A data c)"
| "conn_step A R (Stop_done now) c =
     (case cn_wait c of
        None \<Rightarrow> c
      | Some (p, k) \<Rightarrow> run_handler (resume A R now k) (with_manager (stop_finish p) (c\<lparr>cn_wait := None\<rparr>)))"
| "conn_step A R (Teardown_done i) c =
     (if i < length (cn_stops c)
      then with_manager (stop_finish (cn_stops c ! i)) (c\<lparr>cn_stops := take i (cn_stops c) @ drop (Suc i) (cn_stops c)\<rparr>) else c)"
| "conn_step A R (Startup_failed k code) c = startup_failed k code c"
| "conn_step A R (Turn_over ev) c = (if ev \<in> sd_abort ` set (cn_turns c) then turn_over ev c else c)"
| "conn_step A R Revoked c = (if cn_retained c then close_revoked c else c)"
| "conn_step A R Socket_closed c = settle_socket (c\<lparr>cn_open := False\<rparr>)"
| "conn_step A R (Elsewhere f) c = with_manager f c"

end
