(* ===== verification/Connection_Laws.thy ===== *)
theory Connection_Laws
  imports Event_Machine Device_Connection Device_Laws Example_World
begin

text \<open>
  What holds of every device connection: it acts for one device only, the one its credential names, and a
  revoked credential ends what it can do.
\<close>

section \<open>Only the own device\<close>

definition entry_of :: "device_world \<Rightarrow> string \<Rightarrow> device_entry option" where
  "entry_of w d = dict_get (dv_entries w) d"

definition others :: "string \<Rightarrow> device_world \<Rightarrow> device_world \<Rightarrow> bool" where
  "others d w v \<longleftrightarrow> (\<forall>x. x \<noteq> d \<longrightarrow> entry_of v x = entry_of w x)"

interpretation other_devices: step_relation "others d" for d
  by unfold_locales (auto simp: others_def)

lemma others_refl [simp]: "others d w w"
  by (simp add: others_def)

lemma others_entries: "dv_entries v = dv_entries w \<Longrightarrow> others d w v"
  by (simp add: others_def entry_of_def)

lemma others_trans: "others d w v \<Longrightarrow> others d v u \<Longrightarrow> others d w u"
  by (simp add: others_def)

lemma others_change_entry: "others d w (change_entry d f w)"
  by (auto simp: others_def entry_of_def change_entry_def split: option.split)

lemma others_set_state: "others d w (set_state d st w)"
  unfolding set_state_def by (rule others_change_entry)

lemma others_hello_info: "others d w (set_hello_info d p f w)"
  unfolding set_hello_info_def by (rule others_change_entry)

lemma others_abort: "others d w (abort_active_turn d w)"
  by (auto simp: others_def entry_of_def abort_active_turn_def split: option.split)

lemma others_unregister: "others d w (unregister_device d ws w)"
  using others_abort [of d w] by (auto simp: others_def entry_of_def unregister_device_def Let_def split: option.split)

lemma others_ensure: "obeys (others d) ensure_configs_loaded"
  unfolding ensure_configs_loaded_def
  by (intro other_devices.obeys_rules) (auto simp: obeys_def lift_result_def ret_def raise_def modifies_def split: sum.split intro: others_entries)

lemma others_lift: "obeys (others d) (lift_result r)"
  by (auto simp: obeys_def run_lift_result)

lemma others_get_config: "obeys (others d) (get_config_for x)"
  unfolding get_config_for_def by (intro other_devices.obeys_rules others_ensure others_lift)

lemma others_register: "obeys (others d) (register_device d ws name)"
  unfolding register_device_def
  by (intro other_devices.obeys_rules others_ensure others_get_config)
     (auto simp: obeys_def modifies_def others_abort, auto simp: others_def entry_of_def)

lemma others_rate: "obeys (others d) (apply_output_sample_rate d msg p)"
  unfolding apply_output_sample_rate_def
  by (intro other_devices.obeys_rules others_lift) (auto simp: obeys_def modifies_def ret_def intro: others_change_entry split: option.split)

text \<open>
  A connection that acts for \<open>d\<close>: its pending stops are those of \<open>d\<close> too. What such a connection does keeps
  it bound, and leaves the registry entries of the other devices alone.
\<close>

definition mine :: "string \<Rightarrow> connection \<Rightarrow> bool" where
  "mine d c \<longleftrightarrow> cn_principal c \<noteq> None \<and> cn_device c = Some d
     \<and> (\<forall>p \<in> set (cn_stops c). ps_device p = d) \<and> (\<forall>p k. cn_wait c = Some (p, k) \<longrightarrow> ps_device p = d)"

definition own_device :: "string \<Rightarrow> connection \<Rightarrow> connection \<Rightarrow> bool" where
  "own_device d c e \<longleftrightarrow> (mine d c \<longrightarrow> mine d e \<and> cn_principal e = cn_principal c
     \<and> others d (rm_devices (cn_m c)) (rm_devices (cn_m e)))"

lemma mine_device: "mine d c \<Longrightarrow> my_device c = d"
  by (simp add: mine_def my_device_def)

interpretation own: step_relation "own_device d" for d
  by unfold_locales (auto simp: own_device_def intro: others_trans)

lemma own_reads_then: "(\<And>c. mine d c \<Longrightarrow> obeys (own_device d) (k (f c))) \<Longrightarrow> obeys (own_device d) (bnd (reads f) k)"
  unfolding obeys_def bnd_def reads_def own_device_def by auto

lemma own_modifies: "(\<And>c. mine d c \<Longrightarrow> own_device d c (f c)) \<Longrightarrow> obeys (own_device d) (modifies f)"
  by (auto simp: obeys_def modifies_def own_device_def)

lemma mine_frame [simp]:
  "mine d (c\<lparr>cn_m := m\<rparr>) = mine d c" "mine d (with_devices g c) = mine d c" "mine d (with_manager h c) = mine d c"
  by (simp_all add: mine_def with_devices_def with_manager_def)

lemma own_on_devices:
  assumes "obeys (others d) m"
  shows "obeys (own_device d) (on_devices m)"
  using assms by (auto simp: obeys_def on_devices_def own_device_def with_devices_def with_manager_def split: prod.split)
    (metis snd_conv)

lemma own_with_devices: "(\<And>w. others d w (f w)) \<Longrightarrow> own_device d c (with_devices f c)"
  by (simp add: own_device_def) (simp add: with_devices_def with_manager_def)

lemma own_with_manager: "(\<And>m. others d (rm_devices m) (rm_devices (f m))) \<Longrightarrow> own_device d c (with_manager f c)"
  by (simp add: own_device_def) (simp add: with_manager_def)

lemma mine_fields [simp]:
  "mine d (e\<lparr>cn_state := s\<rparr>) = mine d e" "mine d (e\<lparr>cn_chunks := x\<rparr>) = mine d e"
  "mine d (e\<lparr>cn_rate := r\<rparr>) = mine d e" "mine d (e\<lparr>cn_selection := l\<rparr>) = mine d e"
  "mine d (e\<lparr>cn_realtime := b\<rparr>) = mine d e" "mine d (e\<lparr>cn_media := b\<rparr>) = mine d e"
  "mine d (e\<lparr>cn_turn := t\<rparr>) = mine d e" "mine d (e\<lparr>cn_startup := u\<rparr>) = mine d e"
  "mine d (e\<lparr>cn_open := b\<rparr>) = mine d e" "mine d (e\<lparr>cn_retained := b\<rparr>) = mine d e"
  "mine d (e\<lparr>cn_gone := b\<rparr>) = mine d e" "mine d (e\<lparr>cn_out := os\<rparr>) = mine d e"
  "mine d (e\<lparr>cn_turns := ts\<rparr>) = mine d e" "mine d (e\<lparr>cn_buttons := bs\<rparr>) = mine d e"
  by (simp_all add: mine_def)

lemma own_fields [simp]:
  "own_device d c (e\<lparr>cn_state := s\<rparr>) = own_device d c e" "own_device d c (e\<lparr>cn_chunks := x\<rparr>) = own_device d c e"
  "own_device d c (e\<lparr>cn_rate := r\<rparr>) = own_device d c e" "own_device d c (e\<lparr>cn_selection := l\<rparr>) = own_device d c e"
  "own_device d c (e\<lparr>cn_realtime := b\<rparr>) = own_device d c e" "own_device d c (e\<lparr>cn_media := b\<rparr>) = own_device d c e"
  "own_device d c (e\<lparr>cn_turn := t\<rparr>) = own_device d c e" "own_device d c (e\<lparr>cn_startup := u\<rparr>) = own_device d c e"
  "own_device d c (e\<lparr>cn_open := b\<rparr>) = own_device d c e" "own_device d c (e\<lparr>cn_retained := b\<rparr>) = own_device d c e"
  "own_device d c (e\<lparr>cn_gone := b\<rparr>) = own_device d c e" "own_device d c (e\<lparr>cn_out := os\<rparr>) = own_device d c e"
  "own_device d c (e\<lparr>cn_turns := ts\<rparr>) = own_device d c e" "own_device d c (e\<lparr>cn_buttons := bs\<rparr>) = own_device d c e"
  by (simp_all add: own_device_def)

lemma own_refl [simp]: "own_device d c c"
  by (simp add: own_device_def)

lemma own_trans: "own_device d c e \<Longrightarrow> own_device d e f \<Longrightarrow> own_device d c f"
  by (rule own.R_trans)

lemma own_reply: "obeys (own_device d) (reply out)"
  unfolding reply_def by (rule own_modifies) simp

text \<open>The realtime manager only touches the registry through \<open>device_state\<close>.\<close>

lemma devices_frame [simp]:
  "rm_devices (change_session i f m) = rm_devices m" "rm_devices (close_cutover k m) = rm_devices m"
  "rm_devices (begin_startup d s live m) = rm_devices m" "rm_devices (set_peer_paused now d b m) = rm_devices m"
  "rm_devices (stop_clear p m) = rm_devices m"
  by (auto simp: change_session_def close_cutover_def begin_startup_def set_peer_paused_def stop_clear_def Let_def split: option.split)

lemma devices_close_begin [simp]: "rm_devices (peer_close_begin i m) = rm_devices m"
  by (auto simp: peer_close_begin_def split: option.split)

lemma devices_stop_begin [simp]: "rm_devices (snd (stop_begin d m)) = rm_devices m"
  by (auto simp: stop_begin_def Let_def split: option.split)

lemma others_stop_finish: "ps_device p = d \<Longrightarrow> others d (rm_devices m) (rm_devices (stop_finish p m))"
  by (auto simp: stop_finish_def stop_idle_def device_state_def Let_def intro!: others_set_state)

lemma stop_beginD: "stop_begin d m = (p, n) \<Longrightarrow> ps_device p = d \<and> rm_devices n = rm_devices m"
  using devices_stop_begin [of d m] by (auto simp: stop_begin_def Let_def)

section \<open>The handlers\<close>

lemma own_await_stop: "own_device d c (await_stop k c)"
  by (auto simp: await_stop_def own_device_def mine_def my_device_def split: prod.splits dest!: stop_beginD)

lemma own_spawn_stop: "own_device d c (spawn_stop c)"
  by (auto simp: spawn_stop_def own_device_def mine_def my_device_def split: prod.splits dest!: stop_beginD)

lemma others_abort_idle: "others d w (set_state d st (abort_active_turn d w))"
  by (rule others_trans [OF others_abort others_set_state])

lemmas own_then = own_trans [OF _ own_with_devices] own_trans [OF _ own_with_manager]
  own_trans [OF _ own_await_stop] own_trans [OF _ own_spawn_stop]

lemma own_cases: "(mine d c \<Longrightarrow> own_device d c e) \<Longrightarrow> own_device d c e"
  by (auto simp: own_device_def)

lemma own_voice_abort: "own_device d c (voice_abort c)"
  by (rule own_cases) (auto simp: voice_abort_def Let_def mine_def intro!: own_then(1) others_abort_idle)

lemma own_realtime_stop: "own_device d c (realtime_stop k c)"
  by (auto simp: realtime_stop_def own_voice_abort intro!: own_then(3))

lemma own_my_config: "obeys (own_device d) my_config"
  unfolding my_config_def by (intro own.obeys_rules own_on_devices others_get_config)

lemma own_register_me: "obeys (own_device d) (register_me name)"
  unfolding register_me_def
  by (rule own_reads_then) (auto simp: mine_device intro!: own.obeys_rules own_on_devices others_register)

lemma own_announce_rate: "obeys (own_device d) (announce_rate msg pf)"
  unfolding announce_rate_def
  by (rule own_reads_then) (auto simp: mine_device intro!: own.obeys_rules own_on_devices others_rate own_modifies split: option.split)

lemma own_hello: "obeys (own_device d) (hello R msg)"
  unfolding hello_def Let_def
  by (rule own.obeys_bnd [OF own_my_config], rule own_reads_then)
     (auto simp: mine_device intro!: own.obeys_rules own_register_me own_announce_rate own_reply own_modifies own_with_devices others_hello_info)

lemma own_voice_start: "obeys (own_device d) (voice_start msg)"
  unfolding voice_start_def
  by (rule own_reads_then)
     (auto simp: mine_device intro!: own.obeys_rules own_register_me own_announce_rate own_reply own_modifies own_with_devices
        others_abort others_set_state split: sum.split)

lemma own_start_turn: "own_device d c (start_turn c)"
  by (rule own_cases) (auto simp: start_turn_def Let_def own_device_def mine_device others_change_entry)

lemma own_voice_end: "obeys (own_device d) voice_end"
  unfolding voice_end_def
  by (rule own_reads_then)
     (auto simp: mine_device intro!: own.obeys_rules own_reply own_modifies own_with_devices own_start_turn others_set_state)

lemma own_turn_over: "own_device d c (turn_over ev c)"
  by (rule own_cases)
     (auto simp: turn_over_def mine_device split: option.split intro!: own_then(1) others_trans [OF others_set_state others_change_entry])

lemma own_realtime_start: "obeys (own_device d) (realtime_start R msg)"
  unfolding realtime_start_def Let_def
  by (rule own.obeys_bnd [OF own_my_config], rule own_reads_then)
     (auto simp: mine_device intro!: own.obeys_rules own_reply own_register_me own_announce_rate own_my_config own_modifies own_then
        others_set_state)

lemma own_realtime_armed: "obeys (own_device d) (realtime_armed A msg)"
  unfolding realtime_armed_def Let_def close_socket_def
  by (rule own_reads_then)
     (auto simp: mine_device intro!: own.obeys_rules own_reply own_my_config own_modifies own_then own_with_manager
        own_realtime_stop others_set_state split: option.split)

lemma own_startup_failed: "own_device d c (startup_failed k code c)"
  by (auto simp: startup_failed_def intro!: own_then own_trans [OF _ own_voice_abort])

lemma own_device_button: "obeys (own_device d) (device_button msg)"
  unfolding device_button_def by (rule own_modifies) (auto split: option.split)

lemma own_media_ready: "own_device d c (media_ready msg c)"
  by (auto simp: media_ready_def split: option.split prod.split intro!: own_then)

lemma own_pause_mic: "own_device d c (pause_mic now b c)"
  by (auto simp: pause_mic_def intro!: own_with_manager)

lemma own_dispatch: "obeys (own_device d) (dispatch R now msg)"
  unfolding dispatch_def Let_def
  by (intro own.obeys_rules own_hello own_voice_start own_voice_end own_modifies own_realtime_start own_device_button own_reply)
     (auto simp: own_realtime_stop own_voice_abort own_media_ready own_pause_mic)

lemma own_authorize: "obeys (own_device d) (authorize_message A msg)"
  unfolding authorize_message_def refuse_def close_socket_def
  by (rule own_reads_then) (auto simp: mine_def intro!: own.obeys_rules own_reply own_modifies)

lemma own_handle_text: "obeys (own_device d) (handle_text A R now parsed)"
  unfolding handle_text_def
  by (intro own.obeys_rules own_authorize own_reply own_modifies own_dispatch own_realtime_stop)

lemma own_handle_binary: "own_device d c (handle_binary A data c)"
  by (auto simp: handle_binary_def split: list.split option.split intro!: own_with_manager)

lemma own_unregister_me: "own_device d c (unregister_me c)"
  by (rule own_cases) (auto simp: unregister_me_def mine_device intro!: own_with_devices others_unregister)

lemma own_close_revoked: "own_device d c (close_revoked c)"
  by (rule own_cases)
     (auto simp: close_revoked_def Let_def mine_device intro!: own_then own_trans [OF _ own_unregister_me] others_abort)

lemma own_disconnect: "own_device d c (disconnect c)"
  by (rule own_cases)
     (auto simp: disconnect_def Let_def mine_device intro!: own_then own_trans [OF _ own_unregister_me] others_abort)

lemma own_settle: "own_device d c (settle_socket c)"
  by (simp add: settle_socket_def own_disconnect)

lemma own_settled: "own_device d c e \<Longrightarrow> own_device d c (settle_socket e)"
  by (rule own_trans [OF _ own_settle])

lemma own_run_handler:
  assumes "obeys (own_device d) m"
  shows "own_device d c (run_handler m c)"
proof -
  have m: "own_device d c (snd (m c))" using assms by (simp add: obeys_def)
  hence "own_device d c (settle_socket (snd (m c)))" "own_device d c (settle_socket ((snd (m c))\<lparr>cn_open := False\<rparr>))"
    by (simp_all add: own_settled)
  thus ?thesis by (auto simp: run_handler_def split: prod.split sum.split)
qed

lemma own_resume: "obeys (own_device d) (resume A R now k)"
  unfolding resume_def
  by (cases k) (auto intro!: own.obeys_rules own_dispatch own_realtime_armed own_reply own_modifies own_unregister_me)

section \<open>Every step of a connection\<close>

definition fresh :: "connection \<Rightarrow> bool" where
  "fresh c \<longleftrightarrow> cn_principal c = None \<and> cn_device c = None \<and> cn_wait c = None \<and> cn_stops c = [] \<and> cn_startup c = None
     \<and> cn_turns c = [] \<and> \<not> cn_retained c"

definition bound_to :: "principal \<Rightarrow> connection \<Rightarrow> bool" where
  "bound_to p c \<longleftrightarrow> cn_principal c = Some p \<and> pr_role p = DEVICE \<and> pr_subject p \<noteq> [] \<and> mine (pr_subject p) c"

definition conn_ok :: "connection \<Rightarrow> bool" where
  "conn_ok c \<longleftrightarrow> fresh c \<or> (\<exists>p. bound_to p c)"

lemma conn_okE:
  assumes "conn_ok c"
  obtains (fresh) "fresh c" | (bound) p where "bound_to p c"
  using assms by (auto simp: conn_ok_def)

lemma ws_operation_not_firmware: "dict_get ws_operations t \<noteq> Some FIRMWARE_READ"
  by (auto simp: dict_get_def ws_operations_def split: if_splits)

lemma message_binds:
  assumes "message_valid A c msg"
  obtains p where "message_principal A c msg = Some p" "pr_role p = DEVICE" "pr_subject p \<noteq> []"
    "message_resource c msg = Some (pr_subject p)" "current A (Some p)"
proof -
  from assms obtain p where p: "message_principal A c msg = Some p" "current A (Some p)"
      and a: "allowed (Some p) (dict_get ws_operations (str_value (jat msg ''type''))) (message_resource c msg) False"
    by (auto simp: message_valid_def Let_def current_def split: option.splits)
  from a obtain oper where oper: "dict_get ws_operations (str_value (jat msg ''type'')) = Some oper"
    by (cases "dict_get ws_operations (str_value (jat msg ''type''))") auto
  note g = ws_operation_is_device_grant [OF oper] device_grants_exclusive [OF ws_operation_is_device_grant [OF oper]]
  have "pr_role p = DEVICE" using role_cases [of p] a g oper by (auto simp: allowed_owner allowed_integration)
  with a g oper ws_operation_not_firmware [of "str_value (jat msg ''type'')"] show ?thesis
    by (intro that [OF p(1) _ _ _ p(2)]) (auto simp: allowed_device)
qed

text \<open>The first message of a socket binds it, or closes it.\<close>

lemma authorize_fresh:
  assumes "fresh c"
  obtains (refused) code where "authorize_message A msg c = (Inr False, (if cn_open c then c\<lparr>cn_out := cn_out c @ [Out_error code]\<rparr> else c)\<lparr>cn_open := False\<rparr>)"
  | (bound) p where "authorize_message A msg c = (Inr True, c\<lparr>cn_principal := Some p, cn_device := Some (pr_subject p), cn_retained := True\<rparr>)"
      "bound_to p (c\<lparr>cn_principal := Some p, cn_device := Some (pr_subject p), cn_retained := True\<rparr>)" "current A (Some p)"
proof (cases "message_valid A c msg \<and> msg_string msg ''type'' \<in> {Some ''hello'', Some ''voice.start'', Some ''realtime.start''}")
  case True
  then obtain p where p: "message_principal A c msg = Some p" "pr_role p = DEVICE" "pr_subject p \<noteq> []"
    "message_resource c msg = Some (pr_subject p)" "current A (Some p)" by (blast elim: message_binds)
  show ?thesis
  proof (rule bound)
    show "authorize_message A msg c = (Inr True, c\<lparr>cn_principal := Some p, cn_device := Some (pr_subject p), cn_retained := True\<rparr>)"
      using True p assms by (auto simp: authorize_message_def fresh_def action_simps)
    show "bound_to p (c\<lparr>cn_principal := Some p, cn_device := Some (pr_subject p), cn_retained := True\<rparr>)"
      using p assms by (simp add: bound_to_def mine_def fresh_def)
  qed (rule p(5))
next
  case False
  then show ?thesis using assms
    by (cases "message_valid A c msg")
       (auto simp: authorize_message_def fresh_def refuse_def reply_def close_socket_def action_simps intro!: refused)
qed

lemma fresh_settle: "fresh c \<Longrightarrow> fresh (settle_socket c) \<and> cn_m (settle_socket c) = cn_m c"
  by (simp add: settle_socket_def disconnect_def my_device_def fresh_def Let_def)

lemma fresh_fields [simp]:
  "fresh (c\<lparr>cn_open := b\<rparr>) = fresh c" "fresh (c\<lparr>cn_out := os\<rparr>) = fresh c" "fresh (with_manager f c) = fresh c"
  by (simp_all add: fresh_def with_manager_def)

text \<open>What a step may do: the connection stays as it is, or becomes bound, or stays bound to the same device.\<close>

definition local_step :: "world \<Rightarrow> connection \<Rightarrow> connection \<Rightarrow> bool" where
  "local_step A c e \<longleftrightarrow> (fresh c \<and> fresh e \<and> rm_devices (cn_m e) = rm_devices (cn_m c))
     \<or> (\<exists>p. bound_to p e \<and> (fresh c \<and> current A (Some p) \<or> bound_to p c) \<and> others (pr_subject p) (rm_devices (cn_m c)) (rm_devices (cn_m e)))"

lemma local_bound: "bound_to p c \<Longrightarrow> own_device (pr_subject p) c e \<Longrightarrow> local_step A c e"
  by (auto simp: local_step_def bound_to_def own_device_def)

lemma local_fresh: "fresh c \<Longrightarrow> fresh e \<Longrightarrow> rm_devices (cn_m e) = rm_devices (cn_m c) \<Longrightarrow> local_step A c e"
  by (simp add: local_step_def)

lemma local_fresh_text:
  assumes "fresh c" "cn_open c"
  shows "local_step A c (run_handler (handle_text A R now parsed) c)"
proof (cases "\<exists>msg. parsed = Some msg \<and> msg_string msg ''type'' \<noteq> None")
  case False
  then have "handle_text A R now parsed = reply (Out_error ''INVALID_MESSAGE'')" by (auto simp: handle_text_def split: option.split)
  with assms show ?thesis using fresh_settle [of "c\<lparr>cn_out := cn_out c @ [Out_error ''INVALID_MESSAGE'']\<rparr>"]
    by (auto simp: run_handler_def reply_def action_simps intro!: local_fresh)
next
  case True
  then obtain msg where msg: "parsed = Some msg" "msg_string msg ''type'' \<noteq> None" by blast
  let ?k = "bnd (reads (\<lambda>c. cn_media c \<and> \<not> has_live_session (cn_m c) (my_device c))) (\<lambda>dead.
     if dead \<and> msg_string msg ''type'' \<in> {Some ''voice.start'', Some ''voice.end''}
     then modifies (realtime_stop (Go_on_dispatch msg)) else dispatch R now msg)"
  have k: "obeys (own_device d) ?k" for d
    by (intro own.obeys_rules own_modifies own_dispatch own_realtime_stop)
  have run: "handle_text A R now parsed c = bnd (authorize_message A msg) (\<lambda>ok. if \<not> ok then ret () else ?k) c"
    using msg by (auto simp: handle_text_def)
  from assms(1) show ?thesis
  proof (cases rule: authorize_fresh [of c A msg])
    case (refused code)
    with assms show ?thesis using fresh_settle [of "c\<lparr>cn_out := cn_out c @ [Out_error code], cn_open := False\<rparr>"]
      by (auto simp: run_handler_def run run_bnd run_ret intro!: local_fresh)
  next
    case (bound p)
    let ?c = "c\<lparr>cn_principal := Some p, cn_device := Some (pr_subject p), cn_retained := True\<rparr>"
    have "run_handler (handle_text A R now parsed) c = run_handler ?k ?c"
      by (simp add: run_handler_def run run_bnd bound(1))
    moreover from own_run_handler [OF k] have "own_device (pr_subject p) ?c (run_handler ?k ?c)" .
    ultimately show ?thesis using bound(2,3) assms(1) by (auto simp: local_step_def own_device_def bound_to_def)
  qed
qed

definition elsewhere :: "conn_event \<Rightarrow> bool" where
  "elsewhere e \<longleftrightarrow> (case e of Elsewhere _ \<Rightarrow> True | _ \<Rightarrow> False)"

lemma local_conn_step:
  assumes "conn_ok c" "\<not> elsewhere e"
  shows "local_step A c (conn_step A R e c)"
  using assms(1)
proof (cases rule: conn_okE)
  case fresh
  note f = local_fresh [OF fresh] fresh
  have "local_step A c c" using f by simp
  moreover have "local_step A c (settle_socket (c\<lparr>cn_open := False\<rparr>))"
    using fresh_settle [of "c\<lparr>cn_open := False\<rparr>"] f by simp
  ultimately show ?thesis using fresh assms(2) local_fresh_text [OF fresh]
    by (cases e) (auto simp: elsewhere_def entry_is_mine_def fresh_def startup_failed_def)
next
  case (bound p)
  let ?d = "pr_subject p"
  have "own_device ?d c (conn_step A R e c)"
  proof (cases e)
    case (Text_msg now parsed)
    then show ?thesis using own_run_handler [OF own_handle_text] by simp
  next
    case (Binary_msg x)
    then show ?thesis by (simp add: own_handle_binary own_settled)
  next
    case (Stop_done now)
    show ?thesis
    proof (cases "cn_wait c")
      case (Some pk)
      obtain q k where q: "pk = (q, k)" by (cases pk)
      have "ps_device q = ?d" using bound Some q by (auto simp: bound_to_def mine_def)
      moreover have "own_device ?d c (c\<lparr>cn_wait := None\<rparr>)" by (auto simp: own_device_def mine_def)
      ultimately have "own_device ?d c (with_manager (stop_finish q) (c\<lparr>cn_wait := None\<rparr>))"
        using own_then(2) others_stop_finish by blast
      from own_trans [OF this own_run_handler [OF own_resume]] show ?thesis using Some Stop_done q by simp
    qed (simp add: Stop_done)
  next
    case (Teardown_done i)
    have "own_device ?d c (with_manager (stop_finish (cn_stops c ! i)) (c\<lparr>cn_stops := take i (cn_stops c) @ drop (Suc i) (cn_stops c)\<rparr>))"
      if "i < length (cn_stops c)"
    proof (rule own_then(2))
      show "own_device ?d c (c\<lparr>cn_stops := take i (cn_stops c) @ drop (Suc i) (cn_stops c)\<rparr>)"
        by (auto simp: own_device_def mine_def dest!: in_set_takeD in_set_dropD)
    qed (use bound that in \<open>auto simp: bound_to_def mine_def intro!: others_stop_finish\<close>)
    then show ?thesis using Teardown_done by simp
  qed (use assms(2) in \<open>simp_all add: elsewhere_def own_startup_failed own_turn_over own_close_revoked own_settled\<close>)
  with bound show ?thesis by (rule local_bound)
qed

section \<open>Runs\<close>

text \<open>The credential store and the configuration may differ from step to step.\<close>

definition conn_run :: "(world \<times> rt_config \<times> conn_event) list \<Rightarrow> connection \<Rightarrow> connection" where
  "conn_run es c = fold (\<lambda>(A, R, e). conn_step A R e) es c"

lemma conn_ok_step: "conn_ok c \<Longrightarrow> conn_ok (conn_step A R e c)"
proof (cases "elsewhere e")
  case True
  moreover assume "conn_ok c"
  ultimately show ?thesis by (cases e) (auto simp: elsewhere_def conn_ok_def bound_to_def, simp add: with_manager_def)
next
  case False
  moreover assume "conn_ok c"
  ultimately show ?thesis using local_conn_step [of c e A R] by (auto simp: local_step_def conn_ok_def)
qed

interpretation connection: event_machine "\<lambda>(A, R, e). conn_step A R e" conn_ok
  by unfold_locales (auto intro: conn_ok_step)

lemma conn_ok_run: "conn_ok c \<Longrightarrow> conn_ok (conn_run es c)"
  unfolding conn_run_def by (rule connection.every_run)

lemma conn_ok_new: "conn_ok (new_connection ws m)"
  by (simp add: conn_ok_def fresh_def new_connection_def)

text \<open>C20: A device socket acts for one device. Once a message of it was authorized, with a credential that was then
  current, its principal is a DEVICE credential and the device it acts for is the subject of that credential; neither
  ever changes. No message, binary frame, stop, callback, revocation or close of the socket changes the registry entry
  of any other device.\<close>

theorem connection_serves_one_device:
  assumes "c = conn_run es (new_connection ws m)" and "\<not> elsewhere e"
  shows "(\<forall>p. cn_principal c = Some p \<longrightarrow> pr_role p = DEVICE \<and> cn_device c = Some (pr_subject p)
            \<and> cn_principal (conn_step A R e c) = Some p \<and> cn_device (conn_step A R e c) = cn_device c)
     \<and> (\<forall>p. cn_principal c = None \<and> cn_principal (conn_step A R e c) = Some p \<longrightarrow> current A (Some p))
     \<and> (\<forall>x. cn_device (conn_step A R e c) \<noteq> Some x \<longrightarrow>
            entry_of (rm_devices (cn_m (conn_step A R e c))) x = entry_of (rm_devices (cn_m c)) x)"
proof -
  have "local_step A c (conn_step A R e c)"
    using local_conn_step [OF conn_ok_run [OF conn_ok_new]] assms by blast
  thus ?thesis by (auto simp: local_step_def fresh_def bound_to_def mine_def others_def entry_of_def)
qed

section \<open>Revocation\<close>

lemma refused_when_not_current:
  assumes "cn_principal c \<noteq> None" "\<not> current A (cn_principal c)"
  shows "\<not> message_valid A c msg"
  using store_authority.fallen_stays_out [OF assms(2), of "has_key msg ''token''" "jat msg ''token''"] assms(1)
  by (auto simp: message_valid_def message_principal_def Let_def)

lemma refused_text:
  assumes "conn_ok c" "cn_principal c = Some p" "\<not> current A (Some p)" "cn_open c" "cn_wait c = None"
    and "msg_string msg ''type'' \<noteq> None"
  obtains code where "conn_step A R (Text_msg now (Some msg)) c
    = settle_socket (c\<lparr>cn_out := cn_out c @ [Out_error code], cn_open := False\<rparr>)"
proof -
  have "\<not> message_valid A c msg" by (rule refused_when_not_current) (use assms in auto)
  then show thesis using assms(2-) that
    by (auto simp: handle_text_def authorize_message_def refuse_def reply_def close_socket_def run_handler_def action_simps)
qed


section \<open>A worked run\<close>

definition demo_registry :: device_world where
  "demo_registry = \<lparr> ss_file = No_file, ss_backends = [],
     ss_defaults = JObj [(''mode'', JStr ''standard'')], ss_devices = JObj [], ss_faults = [],
     dv_file = No_file, dv_configs = [], dv_loaded = True, dv_entries = [], dv_now = 0, dv_aborted = {} \<rparr>"

definition demo_rt :: rt_config where
  "demo_rt = \<lparr> rc_enabled = True, rc_host = ''192.168.1.2'', rc_stun = [], rc_offer_path = ''/offer'', rc_origin = ''http://localhost'',
     rc_openai_key = True, rc_browser = (\<lambda>_. False) \<rparr>"

definition demo_hello :: json where
  "demo_hello = JObj [(''type'', JStr ''hello''), (''token'', JStr ''vx_dev_token''), (''device_id'', JStr ''dev_1''),
     (''caps'', JList [JStr ''webrtc''])]"

definition demo_connected :: connection where
  "demo_connected = conn_run [(running (demo_snapshot True []), demo_rt, Text_msg 0 (Some demo_hello))]
     (new_connection 7 (empty_manager demo_registry))"

abbreviation demo_principal :: principal where
  "demo_principal \<equiv> principal_of demo_hash (demo_credential True)"

lemma demo_token: "authenticate (running (demo_snapshot True [])) (JStr ''vx_dev_token'') = Some demo_principal"
  by (simp add: authenticate_def usable_def token_verifier_def integration_requests_def dict_values_def lifecycle_of_def
      demo_snapshot_def demo_credential_def blocked_of_def empty_lifecycle_def)

lemma demo_stale: "\<not> current (running (demo_snapshot False [])) (Some demo_principal)"
  by (simp add: current_def usable_def demo_credential_def)

lemma demo_current: "current (running (demo_snapshot True [])) (Some demo_principal)"
  by (rule authenticate_current [OF demo_token])

lemma demo_principal_simps: "pr_role demo_principal = DEVICE" "pr_subject demo_principal = ''dev_1''"
  by (simp_all add: principal_of_def demo_credential_def)

lemma demo_hello_keys: "has_key demo_hello ''token''" "jat demo_hello ''token'' = JStr ''vx_dev_token''" "has_key demo_hello ''device_id''"
  "msg_string demo_hello ''type'' = Some ''hello''" "msg_string demo_hello ''device_id'' = Some ''dev_1''" "jat demo_hello ''type'' = JStr ''hello''"
  by (simp_all add: demo_hello_def has_key_def jkeys_def jat_def msg_string_def dict_get_def)

lemma demo_valid: "cn_principal c = None \<Longrightarrow> cn_device c = None \<Longrightarrow> message_valid (running (demo_snapshot True [])) c demo_hello"
  by (simp add: message_valid_def Let_def message_principal_def message_resource_def demo_hello_keys demo_token demo_current
      allowed_device demo_principal_simps ws_operations_def dict_get_def device_grants_def)

definition plain_devices :: "device_world \<Rightarrow> bool" where
  "plain_devices w \<longleftrightarrow> dv_loaded w \<and> dv_configs w = [] \<and> ss_backends w = [] \<and> ss_defaults w = JObj [(''mode'', JStr ''standard'')] \<and> ss_devices w = JObj []"

lemma demo_config:
  assumes "plain_devices w"
  shows "get_config_for d w = (Inr no_config, w)"
proof -
  have "voice_settings w d = Inr \<lparr> vv_mode = JStr ''standard'', vv_backend = [], vv_model = [], vv_voice = JStr [] \<rparr>"
    using assms by (simp add: plain_devices_def voice_settings_def merged_def override_of_def get_or_def Let_def)
       (simp add: dict_get_def split: option.split)
  hence "config_for w d = Inr no_config"
    using assms by (simp add: plain_devices_def config_for_def config_of_def override_of_def get_or_def has_key_def jkeys_def dict_get_def)
  thus ?thesis using assms by (simp add: plain_devices_def get_config_for_def ensure_configs_loaded_def action_simps)
qed

lemma demo_plain: "plain_devices demo_registry" "plain_devices (w\<lparr>dv_entries := es\<rparr>) = plain_devices w" "plain_devices (w\<lparr>dv_aborted := b\<rparr>) = plain_devices w"
  by (simp_all add: plain_devices_def demo_registry_def)

abbreviation demo_bound :: connection where
  "demo_bound \<equiv> (new_connection 7 (empty_manager demo_registry))\<lparr>cn_principal := Some demo_principal,
     cn_device := Some ''dev_1'', cn_retained := True\<rparr>"

lemma demo_authorized: "authorize_message (running (demo_snapshot True [])) demo_hello (new_connection 7 (empty_manager demo_registry)) = (Inr True, demo_bound)"
proof -
  have "message_valid (running (demo_snapshot True [])) (new_connection 7 (empty_manager demo_registry)) demo_hello"
    by (rule demo_valid) (simp_all add: new_connection_def)
  then show ?thesis
    by (simp add: authorize_message_def action_simps demo_hello_keys message_principal_def message_resource_def demo_token new_connection_def)
qed

lemma demo_registered: "register_device ''dev_1'' 7 name demo_registry
   = (Inr (new_entry ''dev_1'' 7 name no_config None 0), demo_registry\<lparr>dv_entries := [(''dev_1'', new_entry ''dev_1'' 7 name no_config None 0)]\<rparr>)"
proof -
  have "abort_active_turn ''dev_1'' demo_registry = demo_registry" by (simp add: abort_active_turn_def demo_registry_def dict_get_def)
  moreover have "ensure_configs_loaded demo_registry = (Inr (), demo_registry)" by (simp add: ensure_configs_loaded_def action_simps demo_registry_def)
  moreover have "dict_get (dv_entries demo_registry) ''dev_1'' = None" "dv_now demo_registry = 0" "dict_put x y (dv_entries demo_registry) = [(x, y)]" for x y
    by (simp_all add: demo_registry_def dict_get_def dict_put_def)
  ultimately show ?thesis
    by (simp add: register_device_def action_simps demo_config demo_plain)
qed

lemma demo_modes: "pipeline_mode (Some no_config) = ''standard''" "transport_mode (Some no_config) = ''webrtc''"
  by code_simp+

lemma demo_hello_optional: "msg_string demo_hello ''platform'' = None" "msg_string demo_hello ''fw_version'' = None"
  by code_simp+

lemma demo_caps: "caps_webrtc demo_hello"
  by code_simp

lemma demo_rate: "resolve_output_sample_rate demo_hello (Some no_config) None = Inr None"
  by code_simp

lemma demo_hello_run:
  "\<exists>c. hello demo_rt demo_hello demo_bound = (Inr (), c) \<and> cn_principal c = Some demo_principal \<and> cn_device c = Some ''dev_1''
     \<and> cn_open c \<and> cn_wait c = None \<and> (\<exists>pol. cn_out c = [Out_hello ''standard'' (Some pol)] \<and> po_offer_url pol = ''http://localhost/offer'')"
  by (simp add: hello_def my_config_def on_devices_def action_simps my_device_def new_connection_def empty_manager_def demo_config demo_plain
      register_me_def demo_registered with_devices_def with_manager_def Let_def demo_modes demo_hello_optional
      announce_rate_def apply_output_sample_rate_def set_hello_info_def change_entry_def dict_get_def dict_put_def new_entry_def demo_rate demo_caps
      orelse_def name_or_def demo_rt_def reply_def cong: run_congs)

lemma demo_new: "\<not> cn_media (new_connection ws m)" "\<not> cn_realtime (new_connection ws m)"
  by (simp_all add: new_connection_def)

lemma demo_connected: "cn_principal demo_connected = Some demo_principal" "cn_device demo_connected = Some ''dev_1''"
  "cn_open demo_connected" "cn_wait demo_connected = None" "\<exists>pol. cn_out demo_connected = [Out_hello ''standard'' (Some pol)]"
proof -
  obtain c where c: "hello demo_rt demo_hello demo_bound = (Inr (), c)" "cn_principal c = Some demo_principal"
    "cn_device c = Some ''dev_1''" "cn_open c" "cn_wait c = None" "\<exists>pol. cn_out c = [Out_hello ''standard'' (Some pol)]"
    using demo_hello_run by blast
  have "handle_text (running (demo_snapshot True [])) demo_rt 0 (Some demo_hello) (new_connection 7 (empty_manager demo_registry)) = (Inr (), c)"
    by (simp add: handle_text_def demo_hello_keys run_bnd demo_authorized run_reads dispatch_def c(1) demo_new)
  hence "demo_connected = c" using c(4)
    by (simp add: demo_connected_def conn_run_def run_handler_def settle_socket_def) (simp add: new_connection_def)
  with c show "cn_principal demo_connected = Some demo_principal" "cn_device demo_connected = Some ''dev_1''"
    "cn_open demo_connected" "cn_wait demo_connected = None" "\<exists>pol. cn_out demo_connected = [Out_hello ''standard'' (Some pol)]" by simp_all
qed

theorem connection_serves_one_device_witness:
  "cn_device (conn_step (running (demo_snapshot True [])) demo_rt (Text_msg 5 (Some demo_hello)) demo_connected) = Some ''dev_1''
   \<and> entry_of (rm_devices (cn_m (conn_step (running (demo_snapshot True [])) demo_rt (Text_msg 5 (Some demo_hello)) demo_connected))) ''dev_2''
     = entry_of (rm_devices (cn_m demo_connected)) ''dev_2''"
proof -
  have "\<not> elsewhere (Text_msg 5 (Some demo_hello))" by (simp add: elsewhere_def)
  note s = connection_serves_one_device [OF demo_connected_def this, of "running (demo_snapshot True [])" demo_rt]
  have d: "cn_device (conn_step (running (demo_snapshot True [])) demo_rt (Text_msg 5 (Some demo_hello)) demo_connected) = Some ''dev_1''"
    using s [THEN conjunct1, rule_format, OF demo_connected(1)] demo_connected(2) by argo
  have "Some ''dev_1'' \<noteq> Some ''dev_2''" by simp
  with s [THEN conjunct2, THEN conjunct2, rule_format, of "''dev_2''"] show ?thesis unfolding d by blast
qed


section \<open>The audio of a turn\<close>

text \<open>A socket that hears a turn: its credential stands, and it is not in realtime mode.\<close>

definition hearing :: "world \<Rightarrow> connection \<Rightarrow> bool" where
  "hearing A c \<longleftrightarrow> cn_open c \<and> cn_wait c = None \<and> cn_state c = Talk_listening \<and> \<not> cn_realtime c \<and> \<not> cn_media c \<and> entry_is_mine c
     \<and> current A (cn_principal c) \<and> (\<exists>p. cn_principal c = Some p \<and> pr_role p = DEVICE \<and> cn_device c = Some (pr_subject p) \<and> pr_subject p \<noteq> [])"

lemma hearing_chunks [simp]: "hearing A (c\<lparr>cn_chunks := x\<rparr>) = hearing A c"
  by (simp add: hearing_def entry_is_mine_def cong: option.case_cong)

definition mic_frame :: "byte \<times> byte \<times> byte list \<Rightarrow> conn_event" where
  "mic_frame f = (case f of (hi, lo, pcm) \<Rightarrow> Binary_msg (word_of_int MIC_AUDIO # hi # lo # pcm))"

definition voice_end_msg :: json where
  "voice_end_msg = JObj [(''type'', JStr ''voice.end'')]"

lemma hear_frame:
  assumes "hearing A c"
  shows "conn_step A R (mic_frame (hi, lo, pcm)) c = c\<lparr>cn_chunks := cn_chunks c @ [pcm]\<rparr>"
  using assms by (auto simp: hearing_def mic_frame_def handle_binary_def allowed_device device_grants_def MIC_AUDIO_def split: option.split)

lemma hear_frames: "hearing A c \<Longrightarrow> conn_run (map (\<lambda>f. (A, R, mic_frame f)) fs) c = c\<lparr>cn_chunks := cn_chunks c @ map (snd \<circ> snd) fs\<rparr>"
proof (induction fs arbitrary: c)
  case (Cons f fs)
  obtain hi lo pcm where f: "f = (hi, lo, pcm)" by (cases f)
  have "hearing A (c\<lparr>cn_chunks := cn_chunks c @ [pcm]\<rparr>)" using Cons.prems by simp
  from Cons.IH [OF this] show ?case using hear_frame [OF Cons.prems, of R hi lo pcm] by (simp add: conn_run_def f)
qed (simp add: conn_run_def)

lemma voice_end_keys: "msg_string voice_end_msg ''type'' = Some ''voice.end''" "\<not> has_key voice_end_msg ''token''"
  "\<not> has_key voice_end_msg ''device_id''" "jat voice_end_msg ''type'' = JStr ''voice.end''"
  by (simp_all add: voice_end_msg_def msg_string_def has_key_def jkeys_def jat_def)

lemma hear_end:
  assumes "hearing A c"
  shows "\<exists>ev. cn_turns (conn_step A R (Text_msg now (Some voice_end_msg)) c) = cn_turns c @
      [\<lparr> sd_abort = ev, sd_chunks = cn_chunks c, sd_selection = cn_selection c, sd_rate = cn_rate c \<rparr>]
    \<and> cn_state (conn_step A R (Text_msg now (Some voice_end_msg)) c) = Talk_processing
    \<and> cn_chunks (conn_step A R (Text_msg now (Some voice_end_msg)) c) = []
    \<and> cn_out (conn_step A R (Text_msg now (Some voice_end_msg)) c) = cn_out c"
proof -
  have "message_valid A c voice_end_msg" using assms
    by (auto simp: hearing_def message_valid_def Let_def message_principal_def message_resource_def voice_end_keys allowed_device
        ws_operations_def dict_get_def device_grants_def)
  then have "authorize_message A voice_end_msg c = (Inr True, c)" using assms
    by (auto simp: hearing_def authorize_message_def action_simps)
  then show ?thesis using assms
    by (auto simp: hearing_def handle_text_def voice_end_keys run_handler_def dispatch_def voice_end_def action_simps start_turn_def
        Let_def settle_socket_def with_devices_def with_manager_def)
qed

text \<open>A standard turn gets exactly the microphone audio the socket sent for it: while a socket listens with a current
  credential, every microphone frame is kept in order, and \<open>voice.end\<close> starts one turn with these chunks, the selection
  made at \<open>voice.start\<close> and the announced rate, leaves nothing behind for the next turn and answers nothing.\<close>

theorem turn_gets_its_audio:
  assumes "hearing A c"
    and "e = conn_run (map (\<lambda>f. (A, R, mic_frame f)) fs @ [(A, R, Text_msg now (Some voice_end_msg))]) c"
  shows "(\<exists>ev. cn_turns e = cn_turns c @ [\<lparr> sd_abort = ev, sd_chunks = cn_chunks c @ map (snd \<circ> snd) fs,
            sd_selection = cn_selection c, sd_rate = cn_rate c \<rparr>])
     \<and> cn_chunks e = [] \<and> cn_state e = Talk_processing \<and> cn_out e = cn_out c"
proof -
  let ?c = "c\<lparr>cn_chunks := cn_chunks c @ map (snd \<circ> snd) fs\<rparr>"
  have "hearing A ?c" using assms(1) by simp
  from hear_end [OF this, of R now] show ?thesis
    using hear_frames [OF assms(1), of R fs] by (simp add: assms(2) conn_run_def del: conn_step.simps)
qed

definition demo_listening :: connection where
  "demo_listening = (demo_bound\<lparr>cn_state := Talk_listening,
     cn_m := empty_manager (demo_registry\<lparr>dv_entries := [(''dev_1'', new_entry ''dev_1'' 7 None no_config None 0)]\<rparr>)\<rparr>)"

theorem turn_gets_its_audio_witness:
  "\<exists>ev. cn_turns (conn_run (map (\<lambda>f. (running (demo_snapshot True []), demo_rt, mic_frame f)) [(0, 0, [1, 2]), (0, 1, [3, 4])]
       @ [(running (demo_snapshot True []), demo_rt, Text_msg 3 (Some voice_end_msg))]) demo_listening)
     = [\<lparr> sd_abort = ev, sd_chunks = [[1, 2], [3, 4]], sd_selection = None, sd_rate = None \<rparr>]"
proof -
  have "hearing (running (demo_snapshot True [])) demo_listening"
    by (simp add: hearing_def demo_listening_def demo_current demo_principal_simps new_connection_def entry_is_mine_def device_ws_def
        empty_manager_def dict_get_def new_entry_def)
  moreover have "cn_turns demo_listening = []" "cn_chunks demo_listening = []" "cn_selection demo_listening = None" "cn_rate demo_listening = None"
    by (simp_all add: demo_listening_def new_connection_def)
  ultimately show ?thesis
    using turn_gets_its_audio [OF _ refl, of "running (demo_snapshot True [])" demo_listening demo_rt "[(0, 0, [1, 2]), (0, 1, [3, 4])]" 3]
    by simp
qed

end
