(* ===== verification/Agent_Server.thy ===== *)
theory Agent_Server
  imports Agent_Registry
begin

text \<open>
  \<open>agents/server.py\<close>: the sockets of the agent plugins. Sockets, listeners, media turns and requests have
  identities; \<open>as_calls\<close> is the trace of what was handed to the listeners of the devices and \<open>as_cancelled\<close>
  the media turns whose event was set. The credential store and the routing table, which other parts
  change at any time, are the argument \<open>A\<close> of each operation. Waiting for a kicked socket to close and for
  an answer are awaits; a send to an open socket is not.
\<close>

datatype agent_out =
    Agent_error string
  | Agent_ready string string
  | Agent_transcript string string "string option"
  | Agent_request string string string string json "string option"

record agent_conn =
  ac_open :: bool
  ac_authenticated :: bool
  ac_agent :: "agent option"
  ac_principal :: "principal option"
  ac_retained :: bool
  ac_joining :: bool
  ac_answered :: bool
  ac_gone :: bool
  ac_out :: "agent_out list"

datatype request_answer = Waiting | Failed | Result json

record agent_call =
  rq_conn :: nat
  rq_device :: string
  rq_answer :: request_answer

datatype listener_call =
    On_delta nat string string string
  | On_end nat string string
  | On_error nat string string json
  | On_revoked nat string

record agent_server =
  as_conns :: "(nat, agent_conn) dict"
  as_current :: "(string, nat) dict"
  as_listeners :: "(string, nat) dict"
  as_origin :: "(string, string) dict"
  as_requests :: "(string, agent_call) dict"
  as_media :: "(nat, string) dict"
  as_authorities :: "(nat, principal) dict"
  as_cancelled :: "nat list"
  as_calls :: "listener_call list"

definition empty_server :: agent_server where
  "empty_server = \<lparr> as_conns = [], as_current = [], as_listeners = [], as_origin = [], as_requests = [], as_media = [],
     as_authorities = [], as_cancelled = [], as_calls = [] \<rparr>"

definition new_agent_conn :: agent_conn where
  "new_agent_conn = \<lparr> ac_open = True, ac_authenticated = False, ac_agent = None, ac_principal = None, ac_retained = False,
     ac_joining = False, ac_answered = False, ac_gone = False, ac_out = [] \<rparr>"

section \<open>The routing table\<close>

text \<open>\<open>get_active\<close> and \<open>get_by_id\<close> once the table is loaded\<close>

definition active_agent :: "world \<Rightarrow> agent option" where
  "active_agent A = find ag_active (visible_agents A)"

definition agent_by_id :: "world \<Rightarrow> string \<Rightarrow> agent option" where
  "agent_by_id A i = find (\<lambda>a. ag_id a = i) (visible_agents A)"

lemma active_agent_read: "w_agents_loaded A \<Longrightarrow> get_active A = (Inr (active_agent A), A)"
  by (simp add: get_active_def get_all_def ensure_loaded_def active_agent_def action_simps)

lemma agent_by_id_read: "w_agents_loaded A \<Longrightarrow> get_by_id i A = (Inr (agent_by_id A i), A)"
  by (simp add: get_by_id_def get_all_def ensure_loaded_def agent_by_id_def action_simps)

section \<open>Sockets\<close>

definition change_conn :: "nat \<Rightarrow> (agent_conn \<Rightarrow> agent_conn) \<Rightarrow> agent_server \<Rightarrow> agent_server" where
  "change_conn i f s = (case dict_get (as_conns s) i of None \<Rightarrow> s | Some c \<Rightarrow> s\<lparr>as_conns := dict_put i (f c) (as_conns s)\<rparr>)"

definition agent_send :: "nat \<Rightarrow> agent_out \<Rightarrow> agent_server \<Rightarrow> agent_server" where
  "agent_send i out = change_conn i (\<lambda>c. if ac_open c then c\<lparr>ac_out := ac_out c @ [out]\<rparr> else c)"

definition agent_close :: "nat \<Rightarrow> agent_server \<Rightarrow> agent_server" where
  "agent_close i = change_conn i (\<lambda>c. c\<lparr>ac_open := False\<rparr>)"

text \<open>The connection of an agent that may be used now\<close>

definition usable_conn :: "world \<Rightarrow> string \<Rightarrow> agent_server \<Rightarrow> nat option" where
  "usable_conn A agent s = (case dict_get (as_current s) agent of
     None \<Rightarrow> None
   | Some i \<Rightarrow> (case dict_get (as_conns s) i of
       None \<Rightarrow> None
     | Some c \<Rightarrow> if ac_open c \<and> current A (ac_principal c) then Some i else None))"

section \<open>What the pipeline calls\<close>

definition is_active_connected :: "world \<Rightarrow> agent_server \<Rightarrow> bool" where
  "is_active_connected A s = (case active_agent A of
     None \<Rightarrow> False
   | Some a \<Rightarrow> ag_type a = Openclaw_direct \<or> usable_conn A (ag_id a) s \<noteq> None)"

definition send_transcript :: "world \<Rightarrow> string option \<Rightarrow> string \<Rightarrow> string \<Rightarrow> agent_server \<Rightarrow> bool \<times> agent_server" where
  "send_transcript A name device said s = (case active_agent A of
     None \<Rightarrow> (False, s)
   | Some a \<Rightarrow>
       if ag_type a = Openclaw_direct then (False, s)
       else (case usable_conn A (ag_id a) s of
           None \<Rightarrow> (False, s)
         | Some i \<Rightarrow> (True, agent_send i (Agent_transcript device said name) s)))"

text \<open>\<open>realtime_request\<close> up to its wait, None when it raises; \<open>rid\<close> is the fresh request ID.\<close>

definition request_begin :: "world \<Rightarrow> string \<Rightarrow> string option \<Rightarrow> string \<Rightarrow> string \<Rightarrow> string \<Rightarrow> string \<Rightarrow> json \<Rightarrow> agent_server \<Rightarrow> agent_server option" where
  "request_begin A rid name agent device sess oper args s =
    (if (case active_agent A of None \<Rightarrow> True | Some a \<Rightarrow> ag_id a \<noteq> agent) then None
     else (case usable_conn A agent s of
         None \<Rightarrow> None
       | Some i \<Rightarrow> Some (agent_send i (Agent_request rid device sess oper args name)
           (s\<lparr>as_requests := dict_put rid \<lparr> rq_conn = i, rq_device = device, rq_answer = Waiting \<rparr> (as_requests s)\<rparr>))))"

text \<open>The \<open>finally\<close> of the wait: an answer, a timeout or a cancellation\<close>

definition request_end :: "string \<Rightarrow> agent_server \<Rightarrow> agent_server" where
  "request_end rid s = s\<lparr>as_requests := dict_pop rid (as_requests s)\<rparr>"

definition retain_media_turn :: "string \<Rightarrow> nat \<Rightarrow> agent_server \<Rightarrow> agent_server option" where
  "retain_media_turn agent turn s =
    (if dict_get (as_media s) turn \<noteq> None then None
     else
       let t = s\<lparr>as_media := dict_put turn agent (as_media s)\<rparr> in
       Some (case dict_get (as_current s) agent of
           None \<Rightarrow> t
         | Some i \<Rightarrow> (case dict_get (as_conns s) i of
             None \<Rightarrow> t
           | Some c \<Rightarrow> (case ac_principal c of
               None \<Rightarrow> t
             | Some p \<Rightarrow> t\<lparr>as_authorities := dict_put turn p (as_authorities t)\<rparr>))))"

definition release_media_turn :: "nat \<Rightarrow> agent_server \<Rightarrow> agent_server" where
  "release_media_turn turn s = s\<lparr>as_media := dict_pop turn (as_media s), as_authorities := dict_pop turn (as_authorities s)\<rparr>"

text \<open>\<open>close_revoked\<close> of a media turn\<close>

definition media_revoked :: "nat \<Rightarrow> agent_server \<Rightarrow> agent_server" where
  "media_revoked turn s = (if dict_get (as_media s) turn = None then s else s\<lparr>as_cancelled := as_cancelled s @ [turn]\<rparr>)"

definition add_response_listener :: "world \<Rightarrow> string \<Rightarrow> nat \<Rightarrow> agent_server \<Rightarrow> agent_server" where
  "add_response_listener A device l s = s\<lparr>as_listeners := dict_put device l (as_listeners s),
     as_origin := dict_put device (case active_agent A of None \<Rightarrow> [] | Some a \<Rightarrow> ag_id a) (as_origin s)\<rparr>"

definition remove_response_listener :: "string \<Rightarrow> nat option \<Rightarrow> agent_server \<Rightarrow> agent_server" where
  "remove_response_listener device l s =
    (if l \<noteq> None \<and> dict_get (as_listeners s) device \<noteq> l then s
     else s\<lparr>as_listeners := dict_pop device (as_listeners s), as_origin := dict_pop device (as_origin s)\<rparr>)"

section \<open>Authentication\<close>

definition agent_refused :: "world \<Rightarrow> json \<Rightarrow> bool" where
  "agent_refused A token \<longleftrightarrow> (case authenticate A token of
     None \<Rightarrow> True
   | Some p \<Rightarrow> \<not> allowed (Some p) (Some AGENT_CONNECT) None False \<or> agent_by_id A (pr_subject p) = None)"

text \<open>\<open>_handle_auth\<close> up to the close of the connection it replaces\<close>

definition handle_auth :: "world \<Rightarrow> json \<Rightarrow> nat \<Rightarrow> agent_server \<Rightarrow> agent_server" where
  "handle_auth A token i s =
    (if agent_refused A token then
       agent_close i (agent_send i (Agent_error (if authenticate A token = None then ''UNAUTHORIZED'' else ''FORBIDDEN''))
         (change_conn i (\<lambda>c. c\<lparr>ac_answered := True\<rparr>) s))
     else
       let p = authenticate A token;
           a = (case p of None \<Rightarrow> None | Some pr \<Rightarrow> agent_by_id A (pr_subject pr));
           t = change_conn i (\<lambda>c. c\<lparr>ac_principal := p, ac_authenticated := True, ac_agent := a, ac_retained := True, ac_joining := True\<rparr>) s
       in (case a of None \<Rightarrow> t | Some ag \<Rightarrow> (case dict_get (as_current t) (ag_id ag) of
             None \<Rightarrow> t
           | Some j \<Rightarrow> if j = i then t else agent_close j t)))"

text \<open>and the rest of it\<close>

definition finish_auth :: "world \<Rightarrow> nat \<Rightarrow> agent_server \<Rightarrow> agent_server" where
  "finish_auth A i s = (case dict_get (as_conns s) i of
     None \<Rightarrow> s
   | Some c \<Rightarrow>
       if \<not> ac_joining c then s
       else
         let t = change_conn i (\<lambda>c. c\<lparr>ac_joining := False, ac_answered := True\<rparr>) s in
         if \<not> current A (ac_principal c) \<or> \<not> ac_open c then agent_close i t
         else (case ac_agent c of
             None \<Rightarrow> t
           | Some a \<Rightarrow> agent_send i (Agent_ready (ag_id a) (ag_name a)) (t\<lparr>as_current := dict_put (ag_id a) i (as_current t)\<rparr>)))"

definition auth_timeout :: "nat \<Rightarrow> agent_server \<Rightarrow> agent_server" where
  "auth_timeout i s = (case dict_get (as_conns s) i of
     None \<Rightarrow> s
   | Some c \<Rightarrow> if ac_answered c \<or> ac_authenticated c \<or> ac_gone c then s
       else agent_close i (agent_send i (Agent_error ''AUTH_TIMEOUT'') s))"

section \<open>Messages\<close>

definition answer_types :: "string list" where
  "answer_types = [''agent.response.delta'', ''agent.response.end'', ''agent.response.error'', ''agent.realtime.result'']"

definition may_answer :: "world \<Rightarrow> nat \<Rightarrow> agent_conn \<Rightarrow> agent_server \<Rightarrow> bool" where
  "may_answer A i c s \<longleftrightarrow> current A (ac_principal c) \<and> allowed (ac_principal c) (Some VOICE_RESPONSE) None False
     \<and> (case (ac_agent c, ac_principal c, active_agent A) of
          (Some a, Some p, Some act) \<Rightarrow> pr_subject p = ag_id a \<and> ag_id act = ag_id a \<and> dict_get (as_current s) (ag_id a) = Some i
        | _ \<Rightarrow> False)"

definition json_string :: "json \<Rightarrow> string \<Rightarrow> string option" where
  "json_string msg key = (case jget msg key of Some (JStr t) \<Rightarrow> Some t | _ \<Rightarrow> None)"

text \<open>\<open>agent.realtime.result\<close>; a request ID that is no string finds nothing or ends the handler.\<close>

definition realtime_result :: "json \<Rightarrow> nat \<Rightarrow> agent_server \<Rightarrow> agent_server" where
  "realtime_result msg i s =
    (let key = (case jget msg ''requestId'' of None \<Rightarrow> JStr [] | Some j \<Rightarrow> j) in
     case key of
       JStr rid \<Rightarrow> (case dict_get (as_requests s) rid of
           None \<Rightarrow> s
         | Some q \<Rightarrow>
             if rq_conn q \<noteq> i \<or> json_string msg ''deviceId'' \<noteq> Some (rq_device q) \<or> rq_answer q \<noteq> Waiting then s
             else if (case jget msg ''error'' of None \<Rightarrow> False | Some e \<Rightarrow> truthy e)
               then s\<lparr>as_requests := dict_put rid (q\<lparr>rq_answer := Failed\<rparr>) (as_requests s)\<rparr>
             else (case jget msg ''result'' of
                 Some (JObj r) \<Rightarrow> s\<lparr>as_requests := dict_put rid (q\<lparr>rq_answer := Result (JObj r)\<rparr>) (as_requests s)\<rparr>
               | _ \<Rightarrow> s))
     | JList _ \<Rightarrow> agent_close i s
     | JObj _ \<Rightarrow> agent_close i s
     | _ \<Rightarrow> s)"

definition agent_response :: "json \<Rightarrow> agent \<Rightarrow> agent_server \<Rightarrow> agent_server" where
  "agent_response msg a s = (case (json_string msg ''deviceId'', json_string msg ''runId'') of
     (Some device, Some run) \<Rightarrow>
       (case dict_get (as_listeners s) device of
          None \<Rightarrow> s
        | Some l \<Rightarrow>
            if dict_get (as_origin s) device \<noteq> Some (ag_id a) then s
            else if json_string msg ''type'' = Some ''agent.response.delta'' then
              (case json_string msg ''text'' of None \<Rightarrow> s | Some t \<Rightarrow> s\<lparr>as_calls := as_calls s @ [On_delta l device run t]\<rparr>)
            else if json_string msg ''type'' = Some ''agent.response.end'' then s\<lparr>as_calls := as_calls s @ [On_end l device run]\<rparr>
            else s\<lparr>as_calls := as_calls s @ [On_error l device run
              (case jget msg ''message'' of None \<Rightarrow> JStr ''Agent error'' | Some m \<Rightarrow> m)]\<rparr>)
   | _ \<Rightarrow> s)"

definition handle_authenticated :: "world \<Rightarrow> json \<Rightarrow> nat \<Rightarrow> agent_conn \<Rightarrow> agent_server \<Rightarrow> agent_server" where
  "handle_authenticated A msg i c s =
    (if \<not> may_answer A i c s \<or> (case json_string msg ''type'' of None \<Rightarrow> True | Some t \<Rightarrow> t \<notin> set answer_types) then
       agent_close i (agent_send i (Agent_error (if current A (ac_principal c) then ''FORBIDDEN'' else ''UNAUTHORIZED'')) s)
     else if json_string msg ''type'' = Some ''agent.realtime.result'' then realtime_result msg i s
     else (case ac_agent c of None \<Rightarrow> s | Some a \<Rightarrow> agent_response msg a s))"

text \<open>One text frame of a socket whose handler is at its read; \<open>parsed\<close> is what \<open>json.loads\<close> gave.\<close>

definition agent_frame :: "world \<Rightarrow> json option \<Rightarrow> nat \<Rightarrow> agent_server \<Rightarrow> agent_server" where
  "agent_frame A parsed i s = (case dict_get (as_conns s) i of
     None \<Rightarrow> s
   | Some c \<Rightarrow>
       if \<not> ac_open c \<or> ac_joining c \<or> ac_gone c then s
       else (case parsed of
           None \<Rightarrow> agent_send i (Agent_error ''INVALID_MESSAGE'') s
         | Some msg \<Rightarrow>
             if \<not> is_obj msg then s
             else if ac_authenticated c then handle_authenticated A msg i c s
             else if json_string msg ''type'' = Some ''agent.auth''
               then handle_auth A (case jget msg ''token'' of None \<Rightarrow> JStr [] | Some j \<Rightarrow> j) i s
             else agent_send i (Agent_error ''UNAUTHORIZED'') s))"

text \<open>The \<open>finally\<close> of a socket\<close>

definition agent_gone :: "nat \<Rightarrow> agent_server \<Rightarrow> agent_server" where
  "agent_gone i s = (case dict_get (as_conns s) i of
     None \<Rightarrow> s
   | Some c \<Rightarrow>
       if ac_joining c then s
       else
         let t = change_conn i (\<lambda>c. c\<lparr>ac_open := False, ac_retained := False, ac_answered := True, ac_gone := True\<rparr>) s in
         (case ac_agent c of
            Some a \<Rightarrow> if ac_authenticated c \<and> dict_get (as_current t) (ag_id a) = Some i
              then t\<lparr>as_current := dict_pop (ag_id a) (as_current t)\<rparr> else t
          | None \<Rightarrow> t))"

text \<open>\<open>close_revoked\<close> of a socket: the listeners of the agent are told.\<close>

definition agent_revoked :: "nat \<Rightarrow> agent_server \<Rightarrow> agent_server" where
  "agent_revoked i s = (case dict_get (as_conns s) i of
     None \<Rightarrow> s
   | Some c \<Rightarrow>
       if \<not> ac_retained c then s
       else
         let t = agent_close i s in
         (case ac_agent c of
            None \<Rightarrow> t
          | Some a \<Rightarrow>
              if dict_get (as_current t) (ag_id a) = Some i
              then t\<lparr>as_current := dict_pop (ag_id a) (as_current t),
                as_calls := as_calls t @ map (\<lambda>(d, l). On_revoked l d)
                  (filter (\<lambda>(d, l). dict_get (as_origin t) d = Some (ag_id a)) (as_listeners t))\<rparr>
              else t))"

definition agent_connected :: "nat \<Rightarrow> agent_server \<Rightarrow> agent_server" where
  "agent_connected i s = (if dict_get (as_conns s) i = None then s\<lparr>as_conns := dict_put i new_agent_conn (as_conns s)\<rparr> else s)"

end
