(* ===== verification/Agent_Laws.thy ===== *)
theory Agent_Laws
  imports Agent_Server
begin

text \<open>
  What an agent socket can bring about: only the connection of the active agent, with a credential that
  stands, reaches a listener or answers a request, and only those that were set up for this agent.
\<close>

section \<open>Runs\<close>

text \<open>One step of the server. Nothing orders the steps; the authority \<open>A\<close> may differ from step to step.\<close>

inductive agent_event :: "world \<Rightarrow> agent_server \<Rightarrow> agent_server \<Rightarrow> bool" for A where
  connects: "agent_event A s (agent_connected i s)"
| frame: "agent_event A s (agent_frame A parsed i s)"
| joins: "agent_event A s (finish_auth A i s)"
| times_out: "agent_event A s (auth_timeout i s)"
| leaves: "agent_event A s (agent_gone i s)"
| revoked: "agent_event A s (agent_revoked i s)"
| speaks: "agent_event A s (snd (send_transcript A name device said s))"
| asks: "dict_get (as_requests s) rid = None \<Longrightarrow> request_begin A rid name agent device sess oper args s = Some t \<Longrightarrow> agent_event A s t"
| asked: "agent_event A s (request_end rid s)"
| listens: "agent_event A s (add_response_listener A device l s)"
| stops_listening: "agent_event A s (remove_response_listener device lo s)"
| retains: "retain_media_turn agent turn s = Some t \<Longrightarrow> agent_event A s t"
| releases: "agent_event A s (release_media_turn turn s)"
| cancels: "agent_event A s (media_revoked turn s)"

inductive agent_run :: "agent_server \<Rightarrow> bool" where
  start: "agent_run empty_server"
| step: "agent_run s \<Longrightarrow> agent_event A s t \<Longrightarrow> agent_run t"

inductive_cases agent_event_cases: "agent_event A s t"

section \<open>What each operation leaves alone\<close>

lemma change_conn_frame [simp]:
  "as_calls (change_conn i f s) = as_calls s" "as_current (change_conn i f s) = as_current s"
  "as_listeners (change_conn i f s) = as_listeners s" "as_origin (change_conn i f s) = as_origin s"
  "as_requests (change_conn i f s) = as_requests s"
  by (simp_all add: change_conn_def split: option.split)

lemma dict_get_change_conn: "dict_get (as_conns (change_conn i f s)) j
    = (if j = i then map_option f (dict_get (as_conns s) i) else dict_get (as_conns s) j)"
  by (simp add: change_conn_def split: option.split)

lemma agent_send_frame [simp]:
  "as_calls (agent_send i x s) = as_calls s" "as_current (agent_send i x s) = as_current s"
  "as_listeners (agent_send i x s) = as_listeners s" "as_origin (agent_send i x s) = as_origin s"
  "as_requests (agent_send i x s) = as_requests s"
  by (simp_all add: agent_send_def)

lemma agent_close_frame [simp]:
  "as_calls (agent_close i s) = as_calls s" "as_current (agent_close i s) = as_current s"
  "as_listeners (agent_close i s) = as_listeners s" "as_origin (agent_close i s) = as_origin s"
  "as_requests (agent_close i s) = as_requests s"
  by (simp_all add: agent_close_def)

lemma realtime_result_frame [simp]:
  "as_calls (realtime_result msg i s) = as_calls s" "as_current (realtime_result msg i s) = as_current s"
  "as_listeners (realtime_result msg i s) = as_listeners s" "as_origin (realtime_result msg i s) = as_origin s"
  by (simp_all add: realtime_result_def Let_def split: json.split option.split)

lemma handle_auth_frame [simp]:
  "as_calls (handle_auth A token i s) = as_calls s" "as_current (handle_auth A token i s) = as_current s"
  "as_listeners (handle_auth A token i s) = as_listeners s" "as_origin (handle_auth A token i s) = as_origin s"
  "as_requests (handle_auth A token i s) = as_requests s"
  by (simp_all add: handle_auth_def Let_def split: option.split)

lemma agent_response_frame [simp]:
  "as_conns (agent_response msg a s) = as_conns s" "as_current (agent_response msg a s) = as_current s"
  "as_listeners (agent_response msg a s) = as_listeners s" "as_origin (agent_response msg a s) = as_origin s"
  "as_requests (agent_response msg a s) = as_requests s"
  by (simp_all add: agent_response_def split: option.split)

lemmas agent_op_defs = agent_connected_def finish_auth_def auth_timeout_def agent_gone_def send_transcript_def
  request_begin_def request_end_def add_response_listener_def remove_response_listener_def retain_media_turn_def
  release_media_turn_def media_revoked_def handle_auth_def

section \<open>Connections\<close>

text \<open>An authenticated socket has the agent its INTEGRATION credential names.\<close>

definition authenticated_ok :: "agent_conn \<Rightarrow> bool" where
  "authenticated_ok c \<longleftrightarrow> (ac_authenticated c \<longrightarrow> (\<exists>p a. ac_principal c = Some p \<and> ac_agent c = Some a
     \<and> pr_role p = INTEGRATION \<and> pr_subject p = ag_id a))"

definition conns_ok :: "agent_server \<Rightarrow> bool" where
  "conns_ok s \<longleftrightarrow> (\<forall>i c. dict_get (as_conns s) i = Some c \<longrightarrow> authenticated_ok c)"

lemma conns_ok_change:
  "conns_ok s \<Longrightarrow> (\<And>c. dict_get (as_conns s) i = Some c \<Longrightarrow> authenticated_ok c \<Longrightarrow> authenticated_ok (f c)) \<Longrightarrow> conns_ok (change_conn i f s)"
  unfolding conns_ok_def by (auto simp: dict_get_change_conn)

lemma conns_ok_send [simp]: "conns_ok s \<Longrightarrow> conns_ok (agent_send i x s)"
  unfolding agent_send_def by (rule conns_ok_change) (auto simp: authenticated_ok_def)

lemma conns_ok_close [simp]: "conns_ok s \<Longrightarrow> conns_ok (agent_close i s)"
  unfolding agent_close_def by (rule conns_ok_change) (auto simp: authenticated_ok_def)

lemma conns_ok_frame [simp]:
  "conns_ok (s\<lparr>as_current := x\<rparr>) = conns_ok s" "conns_ok (s\<lparr>as_calls := y\<rparr>) = conns_ok s"
  "conns_ok (s\<lparr>as_requests := q\<rparr>) = conns_ok s" "conns_ok (s\<lparr>as_listeners := l\<rparr>) = conns_ok s"
  "conns_ok (s\<lparr>as_origin := g\<rparr>) = conns_ok s" "conns_ok (s\<lparr>as_media := m\<rparr>) = conns_ok s"
  "conns_ok (s\<lparr>as_authorities := a\<rparr>) = conns_ok s" "conns_ok (s\<lparr>as_cancelled := b\<rparr>) = conns_ok s"
  by (simp_all add: conns_ok_def)

lemma agent_by_id_id: "agent_by_id A i = Some a \<Longrightarrow> ag_id a = i"
  by (auto simp: agent_by_id_def dest: find_SomeD)

lemma not_refused:
  assumes "\<not> agent_refused A token"
  obtains p a where "authenticate A token = Some p" "agent_by_id A (pr_subject p) = Some a" "pr_role p = INTEGRATION"
    "pr_subject p = ag_id a" "current A (Some p)"
proof -
  from assms obtain p a where p: "authenticate A token = Some p" "agent_by_id A (pr_subject p) = Some a"
    and al: "allowed (Some p) (Some AGENT_CONNECT) None False"
    by (auto simp: agent_refused_def split: option.splits)
  have "pr_role p = INTEGRATION"
    using role_cases [of p] al by (auto simp: allowed_owner allowed_device owner_grants_def device_grants_def)
  with p show ?thesis
    by (intro that [OF p _ _ store_authority.resolved_stands [OF p(1)]]) (simp_all add: agent_by_id_id)
qed

lemma conns_ok_auth: "conns_ok s \<Longrightarrow> conns_ok (handle_auth A token i s)"
proof (cases "agent_refused A token")
  case True
  assume "conns_ok s"
  then have "conns_ok (change_conn i (\<lambda>c. c\<lparr>ac_answered := True\<rparr>) s)"
    by (rule conns_ok_change) (simp add: authenticated_ok_def)
  with True show ?thesis by (simp add: handle_auth_def)
next
  case False
  then obtain p a where pa: "authenticate A token = Some p" "agent_by_id A (pr_subject p) = Some a" "pr_role p = INTEGRATION"
    "pr_subject p = ag_id a" by (rule not_refused)
  assume "conns_ok s"
  then have "conns_ok (change_conn i (\<lambda>c. c\<lparr>ac_principal := Some p, ac_authenticated := True, ac_agent := Some a, ac_retained := True, ac_joining := True\<rparr>) s)"
    by (rule conns_ok_change) (use pa in \<open>simp add: authenticated_ok_def\<close>)
  then show ?thesis using False pa by (simp add: handle_auth_def Let_def split: option.split)
qed

lemma conns_ok_result: "conns_ok s \<Longrightarrow> conns_ok (realtime_result msg i s)"
  by (auto simp: realtime_result_def Let_def split: json.split option.split)

lemma conns_ok_response: "conns_ok s \<Longrightarrow> conns_ok (agent_response msg a s)"
  by (auto simp: agent_response_def split: option.split)

lemma conns_ok_agent_frame: "conns_ok s \<Longrightarrow> conns_ok (agent_frame A parsed i s)"
  by (auto simp: agent_frame_def handle_authenticated_def conns_ok_result conns_ok_response conns_ok_auth split: option.split)

lemma conns_ok_step: "agent_event A s t \<Longrightarrow> conns_ok s \<Longrightarrow> conns_ok t"
proof (induction rule: agent_event.induct)
  case (connects s i)
  then show ?case by (auto simp: agent_connected_def conns_ok_def authenticated_ok_def new_agent_conn_def)
next
  case (joins s i)
  moreover from joins have "conns_ok (change_conn i (\<lambda>c. c\<lparr>ac_joining := False, ac_answered := True\<rparr>) s)"
    by (rule conns_ok_change) (simp add: authenticated_ok_def)
  ultimately show ?case by (auto simp: finish_auth_def Let_def split: option.split)
next
  case (leaves s i)
  moreover from leaves have "conns_ok (change_conn i (\<lambda>c. c\<lparr>ac_open := False, ac_retained := False, ac_answered := True, ac_gone := True\<rparr>) s)"
    by (rule conns_ok_change) (simp add: authenticated_ok_def)
  ultimately show ?case by (auto simp: agent_gone_def Let_def split: option.split)
next
  case (asks s rid name agent device sess oper args t)
  then show ?case by (auto simp: request_begin_def split: option.splits if_splits)
next
  case (retains agent turn s t)
  then show ?case by (auto simp: retain_media_turn_def Let_def split: option.splits if_splits)
qed (auto simp: conns_ok_agent_frame auth_timeout_def agent_revoked_def send_transcript_def request_end_def add_response_listener_def
    remove_response_listener_def release_media_turn_def media_revoked_def Let_def split: option.split)

lemma conns_ok_run: "agent_run s \<Longrightarrow> conns_ok s"
  by (induction rule: agent_run.induct) (auto intro: conns_ok_step, simp add: conns_ok_def empty_server_def dict_get_def)

lemma listeners_dict_step: "agent_event A s t \<Longrightarrow> is_dict (as_listeners s) \<Longrightarrow> is_dict (as_listeners t)"
proof (induction rule: agent_event.induct)
  case (frame s parsed i)
  then show ?case
    by (simp add: agent_frame_def handle_authenticated_def split: option.split)
next
  case (asks s rid name agent device sess oper args t)
  then show ?case by (auto simp: request_begin_def split: option.splits if_splits)
next
  case (retains agent turn s t)
  then show ?case by (auto simp: retain_media_turn_def Let_def split: option.splits if_splits)
qed (auto simp: agent_connected_def finish_auth_def auth_timeout_def agent_gone_def agent_revoked_def send_transcript_def request_end_def
    add_response_listener_def remove_response_listener_def release_media_turn_def media_revoked_def Let_def split: option.split)

lemma listeners_dict_run: "agent_run s \<Longrightarrow> is_dict (as_listeners s)"
  by (induction rule: agent_run.induct) (auto intro: listeners_dict_step simp: empty_server_def)

section \<open>Who reaches a listener\<close>

fun call_device :: "listener_call \<Rightarrow> string" where
  "call_device (On_delta l d run t) = d"
| "call_device (On_end l d run) = d"
| "call_device (On_error l d run m) = d"
| "call_device (On_revoked l d) = d"

fun call_listener :: "listener_call \<Rightarrow> nat" where
  "call_listener (On_delta l d run t) = l"
| "call_listener (On_end l d run) = l"
| "call_listener (On_error l d run m) = l"
| "call_listener (On_revoked l d) = l"

fun is_revocation :: "listener_call \<Rightarrow> bool" where
  "is_revocation (On_revoked l d) = True"
| "is_revocation _ = False"

text \<open>The socket \<open>i\<close> may speak for an agent: the agent is the active one, its current connection is this one, and
  the credential of the socket stands and is the agent's.\<close>

definition speaks_for :: "world \<Rightarrow> agent_server \<Rightarrow> nat \<Rightarrow> string \<Rightarrow> bool" where
  "speaks_for A s i agent \<longleftrightarrow> (\<exists>c p act. dict_get (as_conns s) i = Some c \<and> ac_open c \<and> ac_principal c = Some p \<and> current A (Some p)
     \<and> pr_role p = INTEGRATION \<and> pr_subject p = agent \<and> dict_get (as_current s) agent = Some i
     \<and> active_agent A = Some act \<and> ag_id act = agent)"

definition call_ok :: "world \<Rightarrow> agent_server \<Rightarrow> listener_call \<Rightarrow> bool" where
  "call_ok A s x \<longleftrightarrow> dict_get (as_listeners s) (call_device x) = Some (call_listener x)
     \<and> (\<exists>agent. dict_get (as_origin s) (call_device x) = Some agent \<and> (is_revocation x \<or> (\<exists>i. speaks_for A s i agent)))"

lemma may_answer_speaks:
  assumes "conns_ok s" "dict_get (as_conns s) i = Some c" "ac_open c" "ac_authenticated c" "may_answer A i c s" "ac_agent c = Some a"
  shows "speaks_for A s i (ag_id a)"
proof -
  obtain p where p: "ac_principal c = Some p" "pr_role p = INTEGRATION" "pr_subject p = ag_id a"
    using assms(1,2,4,6) unfolding conns_ok_def authenticated_ok_def by fastforce
  with assms show ?thesis
    by (auto simp: speaks_for_def may_answer_def split: option.splits)
qed

lemma response_calls:
  assumes "speaks_for A s i (ag_id a)"
  shows "\<exists>new. as_calls (agent_response msg a s) = as_calls s @ new \<and> list_all (call_ok A s) new"
proof (cases "as_calls (agent_response msg a s) = as_calls s")
  case False
  with assms show ?thesis
    by (auto simp: agent_response_def call_ok_def split: option.splits if_splits)
qed (auto intro: exI [of _ "[]"])

lemma same_calls: "as_calls t = as_calls s \<Longrightarrow> \<exists>new. as_calls t = as_calls s @ new \<and> list_all (call_ok A s) new"
  by (auto intro: exI [of _ "[]"])

text \<open>What a text frame can come to: nothing for the devices, a result for a request, or a response for a listener.\<close>

lemma frame_cases:
  obtains (same) "as_calls (agent_frame A parsed i s) = as_calls s" "as_requests (agent_frame A parsed i s) = as_requests s"
  | (result) c msg where "dict_get (as_conns s) i = Some c" "ac_open c" "ac_authenticated c" "may_answer A i c s"
      "agent_frame A parsed i s = realtime_result msg i s"
  | (response) c msg a where "dict_get (as_conns s) i = Some c" "ac_open c" "ac_authenticated c" "may_answer A i c s"
      "ac_agent c = Some a" "agent_frame A parsed i s = agent_response msg a s"
proof (cases "\<exists>c msg. dict_get (as_conns s) i = Some c \<and> parsed = Some msg \<and> is_obj msg \<and> ac_open c \<and> \<not> ac_joining c \<and> \<not> ac_gone c \<and> ac_authenticated c")
  case False
  then show ?thesis by (intro same) (auto simp add: agent_frame_def split: option.split)
next
  case True
  then obtain c msg where c: "dict_get (as_conns s) i = Some c" "ac_open c" "ac_authenticated c"
    and f: "agent_frame A parsed i s = handle_authenticated A msg i c s"
    by (auto simp: agent_frame_def)
  show ?thesis
  proof (cases "may_answer A i c s \<and> (case json_string msg ''type'' of None \<Rightarrow> False | Some t \<Rightarrow> t \<in> set answer_types)")
    case False
    then have "handle_authenticated A msg i c s = agent_close i (agent_send i (Agent_error (if current A (ac_principal c) then ''FORBIDDEN'' else ''UNAUTHORIZED'')) s)"
      by (auto simp: handle_authenticated_def split: option.splits)
    then show ?thesis using f by (intro same) simp_all
  next
    case True
    then have h: "handle_authenticated A msg i c s = (if json_string msg ''type'' = Some ''agent.realtime.result'' then realtime_result msg i s
        else (case ac_agent c of None \<Rightarrow> s | Some a \<Rightarrow> agent_response msg a s))"
      by (auto simp: handle_authenticated_def split: option.splits)
    obtain a where a: "ac_agent c = Some a" using True by (auto simp: may_answer_def split: option.splits)
    show ?thesis
    proof (cases "json_string msg ''type'' = Some ''agent.realtime.result''")
      case True
      with h f have "agent_frame A parsed i s = realtime_result msg i s" by simp
      then show ?thesis using c \<open>may_answer A i c s \<and> _\<close> by (intro result) auto
    next
      case False
      with h f a have "agent_frame A parsed i s = agent_response msg a s" by simp
      then show ?thesis using c a \<open>may_answer A i c s \<and> _\<close> by (intro response) auto
    qed
  qed
qed

lemma may_answer_agent: "may_answer A i c s \<Longrightarrow> \<exists>a. ac_agent c = Some a"
  by (auto simp: may_answer_def split: option.splits)

lemma frame_calls:
  assumes "conns_ok s"
  shows "\<exists>new. as_calls (agent_frame A parsed i s) = as_calls s @ new \<and> list_all (call_ok A s) new"
proof (cases rule: frame_cases [of A parsed i s])
  case (response c msg a)
  show ?thesis unfolding response(6) by (rule response_calls [OF may_answer_speaks [OF assms response(1-5)]])
next
  case (result c msg)
  show ?thesis unfolding result(5) by (rule same_calls) simp
qed (rule same_calls)

lemma revoked_calls:
  assumes "is_dict (as_listeners s)"
  shows "\<exists>new. as_calls (agent_revoked i s) = as_calls s @ new \<and> list_all (call_ok A s) new"
proof (cases "as_calls (agent_revoked i s) = as_calls s")
  case False
  then show ?thesis using dict_get_iff [OF assms]
    by (auto simp: agent_revoked_def Let_def call_ok_def list_all_iff split: option.splits if_splits)
qed (rule same_calls)

lemma event_calls:
  assumes "agent_event A s t" "conns_ok s" "is_dict (as_listeners s)"
  shows "\<exists>new. as_calls t = as_calls s @ new \<and> list_all (call_ok A s) new"
  using assms
proof (induction rule: agent_event.induct)
  case (frame s parsed i)
  then show ?case by (simp add: frame_calls)
next
  case (revoked s i)
  then show ?case by (simp add: revoked_calls)
next
  case (asks s rid name agent device sess oper args t)
  then show ?case by (intro same_calls) (auto simp: request_begin_def split: option.splits if_splits)
next
  case (retains agent turn s t)
  then show ?case by (intro same_calls) (auto simp: retain_media_turn_def Let_def split: option.splits if_splits)
qed (rule same_calls; auto simp: agent_connected_def finish_auth_def auth_timeout_def agent_gone_def send_transcript_def request_end_def
    add_response_listener_def remove_response_listener_def release_media_turn_def media_revoked_def Let_def split: option.split)+

text \<open>C23: What reaches the listener of a device is for the listener that is registered now, and comes from the agent that
  was active when it was registered: it was sent over the connection of that agent, which is still the active one, by a
  socket whose INTEGRATION credential names the agent and is current at that moment; the only other thing a listener
  hears is that this agent was revoked. Nothing that was handed over is taken back or changed.\<close>

theorem answers_come_from_the_active_agent:
  assumes "agent_run s" and "agent_event A s t"
  shows "\<exists>new. as_calls t = as_calls s @ new \<and> (\<forall>x \<in> set new. dict_get (as_listeners s) (call_device x) = Some (call_listener x)
     \<and> (\<exists>agent. dict_get (as_origin s) (call_device x) = Some agent \<and> (is_revocation x \<or> (\<exists>i. speaks_for A s i agent))))"
  using event_calls [OF assms(2) conns_ok_run [OF assms(1)] listeners_dict_run [OF assms(1)]]
  by (simp add: list_all_iff call_ok_def)

section \<open>Answers to requests\<close>

definition answer_ok :: "world \<Rightarrow> agent_server \<Rightarrow> agent_server \<Rightarrow> bool" where
  "answer_ok A s t \<longleftrightarrow> (\<forall>rid q. dict_get (as_requests s) rid = Some q \<longrightarrow>
     dict_get (as_requests t) rid = None \<or> dict_get (as_requests t) rid = Some q
     \<or> rq_answer q = Waiting \<and> (\<exists>agent. speaks_for A s (rq_conn q) agent)
       \<and> (\<exists>x. dict_get (as_requests t) rid = Some (q\<lparr>rq_answer := x\<rparr>)))"

lemma answer_same: "as_requests t = as_requests s \<Longrightarrow> answer_ok A s t"
  by (simp add: answer_ok_def)

lemma result_answers:
  assumes "speaks_for A s i agent"
  shows "answer_ok A s (realtime_result msg i s)"
proof (cases "case jget msg ''requestId'' of None \<Rightarrow> JStr [] | Some j \<Rightarrow> j")
  case (JStr rid)
  show ?thesis
  proof (cases "dict_get (as_requests s) rid")
    case None
    then show ?thesis using JStr by (simp add: realtime_result_def answer_same)
  next
    case (Some q)
    have "as_requests (realtime_result msg i s) = as_requests s
        \<or> rq_conn q = i \<and> rq_answer q = Waiting \<and> (\<exists>x. as_requests (realtime_result msg i s) = dict_put rid (q\<lparr>rq_answer := x\<rparr>) (as_requests s))"
      using JStr Some by (auto simp: realtime_result_def split: option.split json.split)
    then show ?thesis using assms Some by (auto simp: answer_ok_def split: if_splits)
  qed
qed (simp_all add: realtime_result_def answer_same)

lemma frame_answers:
  assumes "conns_ok s"
  shows "answer_ok A s (agent_frame A parsed i s)"
proof (cases rule: frame_cases [of A parsed i s])
  case (result c msg)
  obtain a where "ac_agent c = Some a" using may_answer_agent [OF result(4)] by blast
  show ?thesis unfolding result(5) by (rule result_answers [OF may_answer_speaks [OF assms result(1-4) \<open>ac_agent c = Some a\<close>]])
next
  case (response c msg a)
  show ?thesis unfolding response(6) by (rule answer_same) simp
qed (rule answer_same)

lemma event_answers:
  assumes "agent_event A s t" "conns_ok s"
  shows "answer_ok A s t"
  using assms
proof (induction rule: agent_event.induct)
  case (frame s parsed i)
  then show ?case by (simp add: frame_answers)
next
  case (asks s rid name agent device sess oper args t)
  then show ?case by (auto simp: request_begin_def answer_ok_def split: option.splits if_splits)
next
  case (asked s rid)
  then show ?case by (auto simp: request_end_def answer_ok_def)
next
  case (retains agent turn s t)
  then show ?case by (intro answer_same) (auto simp: retain_media_turn_def Let_def split: option.splits if_splits)
qed (rule answer_same; auto simp: agent_connected_def finish_auth_def auth_timeout_def agent_gone_def agent_revoked_def send_transcript_def
    add_response_listener_def remove_response_listener_def release_media_turn_def media_revoked_def Let_def split: option.split)+

text \<open>A realtime request is answered at most once, and only over the connection it was sent on: while it is pending
  no step changes which connection and device it is for, and its answer changes only from waiting to a result, when that
  connection speaks for the active agent with a credential that stands.\<close>

theorem request_is_answered_once:
  assumes "agent_run s" and "agent_event A s t" and "dict_get (as_requests s) rid = Some q" and "dict_get (as_requests t) rid = Some r"
  shows "rq_conn r = rq_conn q \<and> rq_device r = rq_device q
    \<and> (rq_answer r = rq_answer q \<or> rq_answer q = Waiting \<and> (\<exists>agent. speaks_for A s (rq_conn q) agent))"
proof -
  have "r = q \<or> rq_answer q = Waiting \<and> (\<exists>agent. speaks_for A s (rq_conn q) agent) \<and> (\<exists>x. r = q\<lparr>rq_answer := x\<rparr>)"
    using event_answers [OF assms(2) conns_ok_run [OF assms(1)], unfolded answer_ok_def, rule_format, OF assms(3)] assms(4) by auto
  thus ?thesis by auto
qed

section \<open>A worked run\<close>

definition demo_integration :: credential where
  "demo_integration = \<lparr>cr_id = ''c2'', cr_role = INTEGRATION, cr_subject = ''claw'',
     cr_verifier = demo_hash (utf8 ''vx_agent_token''), cr_enabled = True\<rparr>"

definition demo_agent :: agent where
  "demo_agent = \<lparr>ag_id = ''claw'', ag_name = ''Claw'', ag_type = Openclaw, ag_active = True,
     ag_created_at = ''2024-01-01T00:00:00+00:00'', ag_builtin = None, ag_integration = False\<rparr>"

definition agent_world :: world where
  "agent_world = demo_world\<lparr>w_store := (empty_snapshot\<lparr>sn_records := [demo_integration]\<rparr>), w_agents := [demo_agent],
     w_active_agent := ''claw'', w_agents_loaded := True\<rparr>"

abbreviation claw_principal :: principal where
  "claw_principal \<equiv> principal_of demo_hash demo_integration"

lemma claw_token: "authenticate agent_world (JStr ''vx_agent_token'') = Some claw_principal"
  by (simp add: authenticate_def usable_def token_verifier_def integration_requests_def dict_values_def lifecycle_of_def
      agent_world_def demo_world_def demo_integration_def blocked_of_def empty_lifecycle_def empty_snapshot_def)

lemma claw_current: "current agent_world (Some claw_principal)"
  by (rule store_authority.resolved_stands [OF claw_token])

lemma claw_agents: "visible_agents agent_world = [demo_agent]"
  by (simp add: visible_agents_def agent_world_def agent_valid_def demo_agent_def mark_active_def)

lemma claw_known: "agent_by_id agent_world ''claw'' = Some demo_agent" "active_agent agent_world = Some demo_agent"
  by (simp_all add: agent_by_id_def active_agent_def claw_agents demo_agent_def)

lemma claw_principal_simps: "pr_role claw_principal = INTEGRATION" "pr_subject claw_principal = ''claw''"
  by (simp_all add: principal_of_def demo_integration_def)

definition claw_conn :: agent_conn where
  "claw_conn = \<lparr> ac_open = True, ac_authenticated = True, ac_agent = Some demo_agent, ac_principal = Some claw_principal, ac_retained = True,
     ac_joining = False, ac_answered = True, ac_gone = False, ac_out = [Agent_ready ''claw'' ''Claw''] \<rparr>"

definition claw_server :: agent_server where
  "claw_server = empty_server\<lparr>as_conns := [(7, claw_conn)], as_current := [(''claw'', 7)],
     as_listeners := [(''dev_1'', 9)], as_origin := [(''dev_1'', ''claw'')]\<rparr>"

lemma claw_run: "agent_run claw_server"
proof -
  let ?j = "claw_conn\<lparr>ac_joining := True, ac_answered := False, ac_out := []\<rparr>"
  have 1: "agent_run (empty_server\<lparr>as_conns := [(7, new_agent_conn)]\<rparr>)"
    using agent_run.step [OF agent_run.start agent_event.connects [of agent_world _ 7]]
    by (simp add: agent_connected_def empty_server_def dict_get_def dict_put_def)
  have "agent_frame agent_world (Some (JObj [(''type'', JStr ''agent.auth''), (''token'', JStr ''vx_agent_token'')])) 7
      (empty_server\<lparr>as_conns := [(7, new_agent_conn)]\<rparr>) = empty_server\<lparr>as_conns := [(7, ?j)]\<rparr>"
    by (simp add: agent_frame_def new_agent_conn_def dict_get_def json_string_def handle_auth_def agent_refused_def claw_token
        claw_principal_simps claw_known allowed_integration integration_grants_def change_conn_def dict_put_def claw_conn_def empty_server_def)
  with agent_run.step [OF 1 agent_event.frame] have 2: "agent_run (empty_server\<lparr>as_conns := [(7, ?j)]\<rparr>)" by metis
  have "finish_auth agent_world 7 (empty_server\<lparr>as_conns := [(7, ?j)]\<rparr>) = empty_server\<lparr>as_conns := [(7, claw_conn)], as_current := [(''claw'', 7)]\<rparr>"
    by (simp add: finish_auth_def dict_get_def claw_conn_def claw_current change_conn_def agent_send_def dict_put_def demo_agent_def empty_server_def)
  with agent_run.step [OF 2 agent_event.joins] have 3: "agent_run (empty_server\<lparr>as_conns := [(7, claw_conn)], as_current := [(''claw'', 7)]\<rparr>)" by metis
  have "add_response_listener agent_world ''dev_1'' 9 (empty_server\<lparr>as_conns := [(7, claw_conn)], as_current := [(''claw'', 7)]\<rparr>) = claw_server"
    by (simp add: add_response_listener_def claw_known claw_server_def empty_server_def dict_put_def demo_agent_def)
  with agent_run.step [OF 3 agent_event.listens] show ?thesis by metis
qed

theorem answers_come_from_the_active_agent_witness:
  "dict_get (as_origin claw_server) ''dev_1'' = Some ''claw''
   \<and> as_calls (agent_frame agent_world (Some (JObj [(''type'', JStr ''agent.response.delta''), (''deviceId'', JStr ''dev_1''),
        (''runId'', JStr ''r1''), (''text'', JStr ''Hi'')])) 7 claw_server) = [On_delta 9 ''dev_1'' ''r1'' ''Hi'']
   \<and> (\<exists>i. speaks_for agent_world claw_server i ''claw'')"
proof -
  let ?m = "JObj [(''type'', JStr ''agent.response.delta''), (''deviceId'', JStr ''dev_1''), (''runId'', JStr ''r1''), (''text'', JStr ''Hi'')]"
  let ?t = "agent_frame agent_world (Some ?m) 7 claw_server"
  have may: "may_answer agent_world 7 claw_conn claw_server"
    by (simp add: may_answer_def claw_conn_def claw_current claw_principal_simps allowed_integration integration_grants_def claw_known
        claw_server_def demo_agent_def dict_get_def)
  have conn: "dict_get (as_conns claw_server) 7 = Some claw_conn" by (simp add: claw_server_def dict_get_def)
  have resp: "agent_response ?m demo_agent claw_server = claw_server\<lparr>as_calls := [On_delta 9 ''dev_1'' ''r1'' ''Hi'']\<rparr>"
    by (simp add: agent_response_def json_string_def claw_server_def dict_get_def demo_agent_def empty_server_def)
  have "?t = agent_response ?m demo_agent claw_server"
    by (simp add: agent_frame_def conn handle_authenticated_def may json_string_def answer_types_def) (simp add: claw_conn_def)
  with resp have calls: "as_calls ?t = [On_delta 9 ''dev_1'' ''r1'' ''Hi'']" by simp
  have origin: "dict_get (as_origin claw_server) ''dev_1'' = Some ''claw''" "as_calls claw_server = []"
    by (simp_all add: claw_server_def dict_get_def empty_server_def)
  show ?thesis
    using answers_come_from_the_active_agent [OF claw_run agent_event.frame [of agent_world claw_server "Some ?m" 7]] calls origin by auto
qed

definition claw_asking :: agent_server where
  "claw_asking = claw_server\<lparr>as_requests := [(''q1'', \<lparr> rq_conn = 7, rq_device = ''dev_1'', rq_answer = Waiting \<rparr>)],
     as_conns := [(7, claw_conn\<lparr>ac_out := ac_out claw_conn @ [Agent_request ''q1'' ''dev_1'' ''s'' ''connect'' (JObj []) None]\<rparr>)]\<rparr>"

lemma claw_asking_run: "agent_run claw_asking"
proof -
  have "request_begin agent_world ''q1'' None ''claw'' ''dev_1'' ''s'' ''connect'' (JObj []) claw_server = Some claw_asking"
    by (simp add: request_begin_def claw_known usable_conn_def claw_server_def claw_asking_def dict_get_def dict_put_def claw_conn_def
        claw_current demo_agent_def agent_send_def change_conn_def empty_server_def)
  moreover have "dict_get (as_requests claw_server) ''q1'' = None" by (simp add: claw_server_def empty_server_def dict_get_def)
  ultimately show ?thesis using agent_run.step [OF claw_run agent_event.asks] by blast
qed

theorem request_is_answered_once_witness:
  "dict_get (as_requests (realtime_result (JObj [(''requestId'', JStr ''q1''), (''deviceId'', JStr ''dev_1''), (''result'', JObj [])]) 7 claw_asking)) ''q1''
     = Some \<lparr> rq_conn = 7, rq_device = ''dev_1'', rq_answer = Result (JObj []) \<rparr>
   \<and> (\<exists>agent. speaks_for agent_world claw_asking 7 agent)"
proof -
  let ?m = "JObj [(''requestId'', JStr ''q1''), (''deviceId'', JStr ''dev_1''), (''result'', JObj []), (''type'', JStr ''agent.realtime.result'')]"
  let ?n = "JObj [(''requestId'', JStr ''q1''), (''deviceId'', JStr ''dev_1''), (''result'', JObj [])]"
  let ?c = "claw_conn\<lparr>ac_out := ac_out claw_conn @ [Agent_request ''q1'' ''dev_1'' ''s'' ''connect'' (JObj []) None]\<rparr>"
  have may: "may_answer agent_world 7 ?c claw_asking"
    by (simp add: may_answer_def claw_conn_def claw_current claw_principal_simps allowed_integration integration_grants_def claw_known
        claw_asking_def claw_server_def demo_agent_def dict_get_def)
  have conn: "dict_get (as_conns claw_asking) 7 = Some ?c" by (simp add: claw_asking_def dict_get_def)
  have frame: "agent_frame agent_world (Some ?m) 7 claw_asking = realtime_result ?m 7 claw_asking"
    by (simp add: agent_frame_def conn handle_authenticated_def may json_string_def answer_types_def) (simp add: claw_conn_def)
  have before: "dict_get (as_requests claw_asking) ''q1'' = Some \<lparr> rq_conn = 7, rq_device = ''dev_1'', rq_answer = Waiting \<rparr>"
    by (simp add: claw_asking_def dict_get_def)
  have after: "dict_get (as_requests (realtime_result k 7 claw_asking)) ''q1'' = Some \<lparr> rq_conn = 7, rq_device = ''dev_1'', rq_answer = Result (JObj []) \<rparr>"
    if "k = ?m \<or> k = ?n" for k
    using that by (auto simp: realtime_result_def before json_string_def Let_def)
  have "\<exists>agent. speaks_for agent_world claw_asking 7 agent"
    using request_is_answered_once [OF claw_asking_run agent_event.frame [of agent_world claw_asking "Some ?m" 7] before] after [of ?m] frame
    by auto
  with after [of ?n] show ?thesis by simp
qed

end
