(* ===== verification/Transcript_Relay.thy ===== *)
theory Transcript_Relay
  imports Vauxr_Prelude "HOL-Library.Sublist"
begin

text \<open>
  \<open>realtime/transcript.py\<close>: the bounded queue between a realtime session and the browser that shows its
  transcript. The task of the relay runs from one await, a send, to the next; \<open>re_delivered\<close> is the trace of
  the messages the socket took. The durations that \<open>metrics\<close> reports are left out.
\<close>

record transcript_msg =
  tm_role :: string
  tm_text :: string
  tm_turn :: string
  tm_final :: bool

record relay =
  re_pending :: "transcript_msg list"
  re_inflight :: "transcript_msg option"
  re_task :: bool
  re_closed :: bool
  re_coalesced :: nat
  re_failures :: nat
  re_delivered :: "transcript_msg list"

definition relay_limit :: nat where "relay_limit = 64"

definition text_limit :: nat where "text_limit = 6000"

definition new_relay :: relay where
  "new_relay = \<lparr> re_pending = [], re_inflight = None, re_task = False, re_closed = False, re_coalesced = 0,
     re_failures = 0, re_delivered = [] \<rparr>"

text \<open>\<open>text[-TEXT_LIMIT:]\<close> keeps the end of the text.\<close>

definition snapshot_msg :: "string \<Rightarrow> string \<Rightarrow> string \<Rightarrow> bool \<Rightarrow> transcript_msg" where
  "snapshot_msg role said turn final =
     \<lparr> tm_role = role, tm_text = drop (length said - text_limit) said, tm_turn = turn, tm_final = final \<rparr>"

definition relay_failed :: "relay \<Rightarrow> relay" where
  "relay_failed r = (if re_closed r then r
     else r\<lparr>re_closed := True, re_failures := re_failures r + 1, re_pending := []\<rparr>)"

definition may_coalesce :: "transcript_msg list \<Rightarrow> string \<Rightarrow> bool" where
  "may_coalesce pending turn \<longleftrightarrow> pending \<noteq> [] \<and> tm_turn (last pending) = turn \<and> \<not> tm_final (last pending)"

definition relay_enqueue :: "string \<Rightarrow> string \<Rightarrow> string \<Rightarrow> bool \<Rightarrow> relay \<Rightarrow> relay" where
  "relay_enqueue role said turn final r =
    (let m = snapshot_msg role said turn final in
     if re_closed r then r
     else if may_coalesce (re_pending r) turn then
       r\<lparr>re_pending := butlast (re_pending r) @ [m], re_coalesced := re_coalesced r + 1, re_task := True\<rparr>
     else if length (re_pending r) < relay_limit then r\<lparr>re_pending := re_pending r @ [m], re_task := True\<rparr>
     else relay_failed r)"

text \<open>The task up to its next send, or to its end\<close>

definition relay_turn :: "relay \<Rightarrow> relay" where
  "relay_turn r = (if \<not> re_task r \<or> re_inflight r \<noteq> None then r
     else (case re_pending r of
         [] \<Rightarrow> r\<lparr>re_task := False\<rparr>
       | m # ms \<Rightarrow> r\<lparr>re_pending := ms, re_inflight := Some m\<rparr>))"

text \<open>A send is over: the socket took the message, or refused it, failed or was too slow.\<close>

definition send_ended :: "bool \<Rightarrow> relay \<Rightarrow> relay" where
  "send_ended ok r = (case re_inflight r of
     None \<Rightarrow> r
   | Some m \<Rightarrow>
       if ok then relay_turn (r\<lparr>re_inflight := None, re_delivered := re_delivered r @ [m]\<rparr>)
       else relay_failed (r\<lparr>re_inflight := None, re_task := False\<rparr>))"

text \<open>\<open>close\<close> up to its wait, and the cancellation after it\<close>

definition relay_close :: "relay \<Rightarrow> relay" where
  "relay_close r = r\<lparr>re_closed := True\<rparr>"

definition relay_cancel :: "relay \<Rightarrow> relay" where
  "relay_cancel r = r\<lparr>re_closed := True, re_task := False, re_inflight := None, re_pending := []\<rparr>"

datatype relay_event =
    Enqueue string string string bool
  | Task_runs
  | Send_over bool
  | Relay_close
  | Relay_cancel

fun relay_step :: "relay_event \<Rightarrow> relay \<Rightarrow> relay" where
  "relay_step (Enqueue role said turn final) r = relay_enqueue role said turn final r"
| "relay_step Task_runs r = relay_turn r"
| "relay_step (Send_over ok) r = send_ended ok r"
| "relay_step Relay_close r = relay_close r"
| "relay_step Relay_cancel r = relay_cancel r"

definition relay_run :: "relay_event list \<Rightarrow> relay \<Rightarrow> relay" where
  "relay_run es r = fold relay_step es r"

lemma relay_run_simps [simp]:
  "relay_run [] r = r"
  "relay_run (e # es) r = relay_run es (relay_step e r)"
  "relay_run (es @ fs) r = relay_run fs (relay_run es r)"
  by (simp_all add: relay_run_def)

section \<open>What the browser is shown\<close>

text \<open>The updates the session reported, as the messages they would be\<close>

fun offered :: "relay_event list \<Rightarrow> transcript_msg list" where
  "offered [] = []"
| "offered (Enqueue role said turn final # es) = snapshot_msg role said turn final # offered es"
| "offered (_ # es) = offered es"

lemma offered_append [simp]: "offered (es @ fs) = offered es @ offered fs"
  by (induction es rule: offered.induct) auto

definition finals :: "transcript_msg list \<Rightarrow> transcript_msg list" where
  "finals ms = filter tm_final ms"

lemma finals_simps [simp]:
  "finals [] = []" "finals (m # ms) = (if tm_final m then m # finals ms else finals ms)"
  "finals (xs @ ys) = finals xs @ finals ys"
  by (simp_all add: finals_def)

text \<open>What has been shown, what is being sent, and what the task will still send\<close>

definition on_way :: "relay \<Rightarrow> transcript_msg list" where
  "on_way r = re_delivered r @ (case re_inflight r of None \<Rightarrow> [] | Some m \<Rightarrow> [m]) @ (if re_task r then re_pending r else [])"

definition shows_all :: "transcript_msg list \<Rightarrow> transcript_msg list \<Rightarrow> bool" where
  "shows_all offs ms \<longleftrightarrow> finals ms = finals offs \<and> (offs \<noteq> [] \<longrightarrow> ms \<noteq> [] \<and> last ms = last offs)"

definition relay_ok :: "transcript_msg list \<Rightarrow> relay \<Rightarrow> bool" where
  "relay_ok offs r \<longleftrightarrow> subseq (on_way r) offs \<and> prefix (finals (on_way r)) (finals offs)
     \<and> (\<not> re_closed r \<longrightarrow> shows_all offs (on_way r) \<and> (re_pending r \<noteq> [] \<longrightarrow> re_task r))
     \<and> length (re_pending r) \<le> relay_limit \<and> (re_inflight r \<noteq> None \<longrightarrow> re_task r)
     \<and> re_failures r \<le> (if re_closed r then 1 else 0)"

lemma relay_ok_new: "relay_ok [] new_relay"
  by (simp add: relay_ok_def new_relay_def on_way_def shows_all_def)

lemma relay_ok_shorter:
  assumes "relay_ok offs r" and "prefix (on_way t) (on_way r)" and "re_closed t"
    and "length (re_pending t) \<le> relay_limit" and "re_inflight t \<noteq> None \<longrightarrow> re_task t" and "re_failures t \<le> 1"
  shows "relay_ok offs t"
proof -
  obtain zs where "on_way r = on_way t @ zs" using assms(2) by (auto simp: prefix_def)
  then have "prefix (finals (on_way t)) (finals (on_way r))" by simp
  then show ?thesis using assms unfolding relay_ok_def
    by (auto intro: subseq_order.trans [OF prefix_imp_subseq] prefix_order.trans)
qed

lemma relay_ok_more: "relay_ok offs r \<Longrightarrow> re_closed r \<Longrightarrow> relay_ok (offs @ ms) r"
  by (auto simp: relay_ok_def prefix_def intro: subseq_order.trans [of _ offs])

lemma relay_ok_failed:
  assumes "relay_ok offs r" and "\<not> re_closed r"
  shows "relay_ok offs (relay_failed r)"
  by (rule relay_ok_shorter [OF assms(1)]) (use assms in \<open>auto simp: relay_failed_def on_way_def relay_ok_def\<close>)

lemma relay_ok_turn:
  assumes "relay_ok offs r"
  shows "relay_ok offs (relay_turn r)"
proof -
  have "on_way (relay_turn r) = on_way r"
    by (auto simp: relay_turn_def on_way_def split: list.split)
  then show ?thesis using assms
    by (auto simp: relay_ok_def relay_turn_def split: list.splits if_splits)
qed

lemma relay_ok_send:
  assumes "relay_ok offs r"
  shows "relay_ok offs (send_ended ok r)"
proof (cases "re_inflight r")
  case None
  then show ?thesis using assms by (simp add: send_ended_def)
next
  case (Some m)
  show ?thesis
  proof (cases ok)
    case True
    have "on_way (r\<lparr>re_inflight := None, re_delivered := re_delivered r @ [m]\<rparr>) = on_way r"
      by (simp add: on_way_def Some)
    then have "relay_ok offs (r\<lparr>re_inflight := None, re_delivered := re_delivered r @ [m]\<rparr>)"
      using assms by (simp add: relay_ok_def)
    then show ?thesis using True by (simp add: send_ended_def Some relay_ok_turn)
  next
    case False
    show ?thesis
      by (rule relay_ok_shorter [OF assms])
        (use assms False in \<open>auto simp: send_ended_def Some relay_failed_def on_way_def relay_ok_def\<close>)
  qed
qed

lemma relay_ok_put:
  assumes "relay_ok offs r" and "\<not> re_closed r" and "re_pending t = before @ [m]" and "re_pending r = before @ rest"
    and "finals rest = []" and "length (before @ [m]) \<le> relay_limit" and "re_task t"
    and "re_inflight t = re_inflight r" "re_delivered t = re_delivered r" "re_closed t = re_closed r" "re_failures t = re_failures r"
  shows "relay_ok (offs @ [m]) t"
proof -
  define ms where "ms = re_delivered r @ (case re_inflight r of None \<Rightarrow> [] | Some m \<Rightarrow> [m]) @ before"
  have new: "on_way t = ms @ [m]" using assms by (simp add: on_way_def ms_def)
  have old: "on_way r = ms @ rest" using assms(1,2,4) by (auto simp: on_way_def ms_def relay_ok_def)
  have "subseq ms offs" using assms(1) old
    by (metis relay_ok_def prefixI prefix_imp_subseq subseq_order.trans)
  then have "subseq (on_way t) (offs @ [m])" by (simp add: new list_emb_append_mono)
  moreover have "finals (on_way r) = finals offs" using assms(1,2) by (simp add: relay_ok_def shows_all_def)
  then have "finals (on_way t) = finals (offs @ [m])" using assms(5) by (simp add: new old)
  ultimately show ?thesis using assms by (simp add: relay_ok_def shows_all_def new)
qed

lemma relay_ok_enqueue:
  assumes "relay_ok offs r"
  shows "relay_ok (offs @ [snapshot_msg role said turn final]) (relay_enqueue role said turn final r)"
proof -
  let ?m = "snapshot_msg role said turn final"
  consider (closed) "re_closed r"
    | (tail) "\<not> re_closed r" "may_coalesce (re_pending r) turn"
    | (room) "\<not> re_closed r" "\<not> may_coalesce (re_pending r) turn" "length (re_pending r) < relay_limit"
    | (full) "\<not> re_closed r" "\<not> may_coalesce (re_pending r) turn" "\<not> length (re_pending r) < relay_limit"
    by blast
  then show ?thesis
  proof cases
    case closed
    then show ?thesis using assms by (simp add: relay_enqueue_def Let_def relay_ok_more)
  next
    case tail
    then have "re_pending r = butlast (re_pending r) @ [last (re_pending r)]" "finals [last (re_pending r)] = []"
      by (simp_all add: may_coalesce_def)
    moreover have "length (butlast (re_pending r) @ [?m]) \<le> relay_limit"
      using assms tail by (auto simp: relay_ok_def may_coalesce_def)
    ultimately show ?thesis using tail
      by (intro relay_ok_put [OF assms tail(1), where before = "butlast (re_pending r)" and rest = "[last (re_pending r)]"])
        (auto simp: relay_enqueue_def Let_def)
  next
    case room
    then show ?thesis
      by (intro relay_ok_put [OF assms room(1), where before = "re_pending r" and rest = "[]"])
        (auto simp: relay_enqueue_def Let_def)
  next
    case full
    then have "relay_ok (offs @ [?m]) (relay_failed r)"
      using relay_ok_more [OF relay_ok_failed [OF assms]] by (simp add: relay_failed_def)
    then show ?thesis using full by (simp add: relay_enqueue_def Let_def)
  qed
qed

lemma relay_ok_step: "relay_ok offs r \<Longrightarrow> relay_ok (offs @ offered [e]) (relay_step e r)"
proof (cases e)
  case Relay_close
  assume "relay_ok offs r"
  then show ?thesis using Relay_close
    by (auto simp: relay_close_def intro!: relay_ok_shorter [of offs r]) (auto simp: relay_ok_def on_way_def split: if_splits)
next
  case Relay_cancel
  assume "relay_ok offs r"
  then show ?thesis using Relay_cancel
    by (auto simp: relay_cancel_def intro!: relay_ok_shorter [of offs r]) (auto simp: relay_ok_def on_way_def split: if_splits)
qed (simp_all add: relay_ok_enqueue relay_ok_turn relay_ok_send)

lemma relay_ok_run: "relay_ok offs r \<Longrightarrow> relay_ok (offs @ offered es) (relay_run es r)"
proof (induction es arbitrary: offs r)
  case (Cons e es)
  have "relay_ok ((offs @ offered [e]) @ offered es) (relay_run es (relay_step e r))"
    by (rule Cons.IH) (rule relay_ok_step [OF Cons.prems])
  moreover have "offered (e # es) = offered [e] @ offered es" using offered_append [of "[e]" es] by simp
  ultimately show ?case by simp
qed simp

lemma relay_runs_ok: "relay_ok (offered es) (relay_run es new_relay)"
  using relay_ok_run [OF relay_ok_new, of es] by simp

section \<open>Nothing final is lost\<close>

text \<open>Whatever updates a session reports and however the sends end, what the browser was shown is a selection of
  the reported updates in their order, and the finals among them are the first finals reported: none is skipped,
  overtaken or repeated. While the relay has not failed and is not closed, shown, in flight and waiting together hold
  every final and end with the newest update. It never holds more than its limit, and fails at most once.\<close>

theorem transcript_keeps_finals:
  assumes "relay_run es new_relay = r"
  shows "subseq (re_delivered r) (offered es) \<and> prefix (finals (re_delivered r)) (finals (offered es))
    \<and> (\<not> re_closed r \<longrightarrow> finals (on_way r) = finals (offered es)
         \<and> (offered es \<noteq> [] \<longrightarrow> on_way r \<noteq> [] \<and> last (on_way r) = last (offered es)))
    \<and> length (re_pending r) \<le> 64 \<and> re_failures r \<le> 1"
proof (intro conjI)
  have ok: "relay_ok (offered es) r" using relay_runs_ok assms by blast
  have shown: "prefix (re_delivered r) (on_way r)" by (simp add: on_way_def)
  then obtain zs where zs: "on_way r = re_delivered r @ zs" by (auto simp: prefix_def)
  show "subseq (re_delivered r) (offered es)"
    using ok shown by (meson relay_ok_def prefix_imp_subseq subseq_order.trans)
  have "prefix (finals (re_delivered r)) (finals (on_way r))" by (simp add: zs)
  then show "prefix (finals (re_delivered r)) (finals (offered es))"
    using ok by (meson relay_ok_def prefix_order.trans)
  show "\<not> re_closed r \<longrightarrow> finals (on_way r) = finals (offered es)
      \<and> (offered es \<noteq> [] \<longrightarrow> on_way r \<noteq> [] \<and> last (on_way r) = last (offered es))"
    using ok by (simp add: relay_ok_def shows_all_def)
  show "length (re_pending r) \<le> 64" "re_failures r \<le> 1"
    using ok by (simp_all add: relay_ok_def relay_limit_def split: if_splits)
qed

definition demo_updates :: "relay_event list" where
  "demo_updates = [Enqueue ''user'' ''He'' ''u1'' False, Enqueue ''user'' ''Hello'' ''u1'' True, Task_runs,
     Enqueue ''assistant'' ''Hi'' ''a1'' False, Enqueue ''assistant'' ''Hi there'' ''a1'' False, Send_over True]"

lemma transcript_keeps_finals_witness:
  "\<not> re_closed (relay_run demo_updates new_relay)
   \<and> map tm_text (on_way (relay_run demo_updates new_relay)) = [''Hello'', ''Hi there'']
   \<and> finals (on_way (relay_run demo_updates new_relay)) = finals (offered demo_updates)
   \<and> length (re_pending (relay_run demo_updates new_relay)) \<le> 64"
proof -
  note keeps = transcript_keeps_finals [of demo_updates "relay_run demo_updates new_relay", OF refl]
  have "\<not> re_closed (relay_run demo_updates new_relay)"
    "map tm_text (on_way (relay_run demo_updates new_relay)) = [''Hello'', ''Hi there'']"
    by (code_simp, code_simp)
  then show ?thesis using keeps by blast
qed

section \<open>It catches up\<close>

lemma good_send: "re_task r \<Longrightarrow> re_inflight r = Some m \<Longrightarrow>
   send_ended True r = (case re_pending r of
      [] \<Rightarrow> r\<lparr>re_inflight := None, re_delivered := re_delivered r @ [m], re_task := False\<rparr>
    | n # ms \<Rightarrow> r\<lparr>re_inflight := Some n, re_delivered := re_delivered r @ [m], re_pending := ms\<rparr>)"
  by (simp add: send_ended_def relay_turn_def split: list.split)

lemma good_sends_drain:
  assumes "re_task r" and "re_inflight r = Some m" and "re_pending r = ms"
  shows "relay_run (replicate (Suc (length ms)) (Send_over True)) r =
    r\<lparr>re_inflight := None, re_delivered := re_delivered r @ m # ms, re_pending := [], re_task := False\<rparr>"
  using assms
proof (induction ms arbitrary: r m)
  case Nil
  then show ?case by (simp add: good_send)
next
  case (Cons n ms)
  let ?t = "r\<lparr>re_inflight := Some n, re_delivered := re_delivered r @ [m], re_pending := ms\<rparr>"
  have "send_ended True r = ?t" using Cons.prems by (simp add: good_send)
  then have "relay_run (replicate (Suc (length (n # ms))) (Send_over True)) r = relay_run (replicate (Suc (length ms)) (Send_over True)) ?t"
    by simp
  also have "\<dots> = ?t\<lparr>re_inflight := None, re_delivered := re_delivered ?t @ n # ms, re_pending := [], re_task := False\<rparr>"
    using Cons.prems by (intro Cons.IH) auto
  finally show ?case by simp
qed

text \<open>A relay that is open catches up: once the session reports nothing more and as many sends succeed as messages
  are on their way, it is idle, and the browser has been shown every final and, last, the newest update.\<close>

theorem transcript_catches_up:
  assumes "r = relay_run es new_relay" and "\<not> re_closed r"
    and "t = relay_run (Task_runs # replicate (length (on_way r) - length (re_delivered r)) (Send_over True)) r"
  shows "re_pending t = [] \<and> re_inflight t = None \<and> \<not> re_task t \<and> finals (re_delivered t) = finals (offered es)
    \<and> (offered es \<noteq> [] \<longrightarrow> re_delivered t \<noteq> [] \<and> last (re_delivered t) = last (offered es))"
proof -
  have ok: "relay_ok (offered es) r" using relay_runs_ok assms(1) by simp
  have idle: "re_pending t = [] \<and> re_inflight t = None \<and> \<not> re_task t \<and> re_delivered t = on_way r"
  proof (cases "re_inflight r")
    case (Some m)
    then have "re_task r" using ok by (simp add: relay_ok_def)
    moreover have "relay_turn r = r" by (simp add: relay_turn_def Some)
    ultimately show ?thesis using good_sends_drain [of r m "re_pending r"] Some
      by (simp add: assms(3) on_way_def)
  next
    case None
    show ?thesis
    proof (cases "re_pending r")
      case Nil
      then show ?thesis using None by (auto simp: assms(3) on_way_def relay_turn_def)
    next
      case (Cons m ms)
      then have "re_task r" using ok assms(2) by (simp add: relay_ok_def)
      then have "relay_turn r = r\<lparr>re_pending := ms, re_inflight := Some m\<rparr>" using None Cons by (simp add: relay_turn_def)
      then show ?thesis using good_sends_drain [of "r\<lparr>re_pending := ms, re_inflight := Some m\<rparr>" m ms] \<open>re_task r\<close> None Cons
        by (simp add: assms(3) on_way_def)
    qed
  qed
  moreover have "shows_all (offered es) (on_way r)" using ok assms(2) by (simp add: relay_ok_def)
  ultimately show ?thesis by (simp add: shows_all_def)
qed

lemma transcript_catches_up_witness:
  "finals (re_delivered (relay_run (demo_updates @ [Task_runs, Send_over True]) new_relay)) = finals (offered demo_updates)
   \<and> map tm_text (re_delivered (relay_run (demo_updates @ [Task_runs, Send_over True]) new_relay)) = [''Hello'', ''Hi there'']"
proof -
  let ?r = "relay_run demo_updates new_relay"
  have "\<not> re_closed ?r" "length (on_way ?r) - length (re_delivered ?r) = 1" by (code_simp, code_simp)
  then have "finals (re_delivered (relay_run (Task_runs # replicate 1 (Send_over True)) ?r)) = finals (offered demo_updates)"
    using transcript_catches_up [of ?r demo_updates, OF refl _ refl] by simp
  then show ?thesis by (simp del: relay_step.simps) code_simp
qed

end
