(* ===== verification/Firmware_Delivery.thy ===== *)
theory Firmware_Delivery
  imports Event_Machine Wire_Text
begin

text \<open>
  \<open>devices/firmware.py\<close>: delivery links for firmware images. A link is a token that names one file, works
  once and for 120 seconds. The hash of tokens, the files of the firmware directory and the clock are arguments;
  \<open>fw_minted\<close> and \<open>fw_served\<close> are the history. The streaming of an opened file is not modelled.
\<close>

definition firmware_ttl :: time where "firmware_ttl = 120"

definition max_tokens :: nat where "max_tokens = 128"

text \<open>\<open>_NAME\<close>: a name of letters, digits, dots, underscores and dashes, then \<open>.bin\<close>\<close>

definition name_char :: "char \<Rightarrow> bool" where
  "name_char c \<longleftrightarrow> is_alnum c \<or> c = CHR ''.'' \<or> c = CHR ''_'' \<or> c = CHR ''-''"

definition firmware_name :: "string \<Rightarrow> bool" where
  "firmware_name n \<longleftrightarrow> 4 < length n \<and> drop (length n - 4) n = ''.bin'' \<and> list_all name_char (take (length n - 4) n)"

text \<open>\<open>_open\<close>: whether a name can be opened; \<open>files\<close> are the regular files of the directory.\<close>

definition can_open :: "(string \<Rightarrow> bool) \<Rightarrow> string \<Rightarrow> bool" where
  "can_open files n \<longleftrightarrow> firmware_name n \<and> files n"

record firmware =
  fw_entries :: "(string, string \<times> time) dict"
  fw_minted :: "(string \<times> string \<times> time) list"
  fw_served :: "(string \<times> string \<times> time) list"

definition no_deliveries :: firmware where
  "no_deliveries = \<lparr> fw_entries = [], fw_minted = [], fw_served = [] \<rparr>"

datatype delivery_answer = Not_found | At_capacity | Delivery_url string | File string

definition delivery_url :: "string \<Rightarrow> string \<Rightarrow> string \<Rightarrow> string" where
  "delivery_url origin token n = origin @ ''/firmware-delivery/'' @ token @ ''/'' @ n"

definition drop_expired :: "time \<Rightarrow> (string, string \<times> time) dict \<Rightarrow> (string, string \<times> time) dict" where
  "drop_expired now entries = dict_filter (\<lambda>(k, n, deadline). \<not> deadline \<le> now) entries"

definition mint :: "(string \<Rightarrow> string) \<Rightarrow> (string \<Rightarrow> bool) \<Rightarrow> string \<Rightarrow> time \<Rightarrow> string \<Rightarrow> string \<Rightarrow> firmware \<Rightarrow> delivery_answer \<times> firmware" where
  "mint sha files origin now token n w =
    (if \<not> can_open files n then (Not_found, w)
     else
       let entries = drop_expired now (fw_entries w) in
       if max_tokens \<le> length entries then (At_capacity, w\<lparr>fw_entries := entries\<rparr>)
       else (Delivery_url (delivery_url origin token n),
         w\<lparr>fw_entries := dict_put (sha token) (n, now + firmware_ttl) entries, fw_minted := fw_minted w @ [(sha token, n, now)]\<rparr>))"

text \<open>\<open>download\<close>: the token is spent whatever comes of it.\<close>

definition download :: "(string \<Rightarrow> string) \<Rightarrow> (string \<Rightarrow> bool) \<Rightarrow> time \<Rightarrow> string \<Rightarrow> string \<Rightarrow> firmware \<Rightarrow> delivery_answer \<times> firmware" where
  "download sha files now token n w =
    (let spent = w\<lparr>fw_entries := dict_pop (sha token) (fw_entries w)\<rparr> in
     case dict_get (fw_entries w) (sha token) of
       None \<Rightarrow> (Not_found, spent)
     | Some (m, deadline) \<Rightarrow>
         if m \<noteq> n \<or> deadline \<le> now \<or> \<not> can_open files n then (Not_found, spent)
         else (File n, spent\<lparr>fw_served := fw_served w @ [(sha token, n, now)]\<rparr>))"

datatype delivery_event =
    Mint time string string
  | Download time string string

fun delivery_step :: "(string \<Rightarrow> string) \<Rightarrow> (string \<Rightarrow> bool) \<Rightarrow> string \<Rightarrow> delivery_event \<Rightarrow> firmware \<Rightarrow> firmware" where
  "delivery_step sha files origin (Mint now token n) w = snd (mint sha files origin now token n w)"
| "delivery_step sha files origin (Download now token n) w = snd (download sha files now token n w)"

definition delivery_run :: "(string \<Rightarrow> string) \<Rightarrow> (string \<Rightarrow> bool) \<Rightarrow> string \<Rightarrow> delivery_event list \<Rightarrow> firmware \<Rightarrow> firmware" where
  "delivery_run sha files origin es w = fold (delivery_step sha files origin) es w"

section \<open>A link works once\<close>

text \<open>The mints and downloads of one token.\<close>

definition uses :: "string \<Rightarrow> (string \<times> string \<times> time) list \<Rightarrow> nat" where
  "uses k hs = length (filter (\<lambda>(key, _). key = k) hs)"

lemma uses_append [simp]: "uses k (hs @ gs) = uses k hs + uses k gs" "uses k [] = 0" "uses k [(a, b)] = (if a = k then 1 else 0)"
  by (simp_all add: uses_def)

definition entries_ok :: "(string \<times> string \<times> time) list \<Rightarrow> (string \<times> string \<times> time) list \<Rightarrow> (string, string \<times> time) dict \<Rightarrow> bool" where
  "entries_ok minted served es \<longleftrightarrow> is_dict es \<and> length es \<le> max_tokens
     \<and> (\<forall>k n deadline. dict_get es k = Some (n, deadline) \<longrightarrow> firmware_name n \<and> (\<exists>t. (k, n, t) \<in> set minted \<and> deadline = t + firmware_ttl))
     \<and> (\<forall>k. uses k served + (if dict_get es k = None then 0 else 1) \<le> uses k minted)"

definition served_ok :: "(string \<times> string \<times> time) list \<Rightarrow> (string \<times> string \<times> time) list \<Rightarrow> bool" where
  "served_ok minted served \<longleftrightarrow> (\<forall>k n now. (k, n, now) \<in> set served \<longrightarrow> firmware_name n \<and> (\<exists>t. (k, n, t) \<in> set minted \<and> now < t + firmware_ttl))"

definition deliveries_ok :: "firmware \<Rightarrow> bool" where
  "deliveries_ok w \<longleftrightarrow> entries_ok (fw_minted w) (fw_served w) (fw_entries w) \<and> served_ok (fw_minted w) (fw_served w)"

lemma fewer_entries:
  assumes "entries_ok M S es" "is_dict fs" "set fs \<subseteq> set es" "length fs \<le> length es"
  shows "entries_ok M S fs"
proof -
  have get: "dict_get es k = Some v" if "dict_get fs k = Some v" for k v
    using that assms(1,2,3) dict_get_iff [of fs k v] dict_get_iff [of es k v] by (auto simp: entries_ok_def)
  have "uses k S + (if dict_get fs k = None then 0 else 1) \<le> uses k M" for k
  proof (cases "dict_get fs k")
    case None
    then show ?thesis using assms(1) by (auto simp: entries_ok_def intro: le_trans [OF le_add1])
  next
    case (Some v)
    then show ?thesis using assms(1) get [OF Some] by (auto simp: entries_ok_def dest!: spec [of _ k])
  qed
  moreover have "\<forall>k n deadline. dict_get fs k = Some (n, deadline) \<longrightarrow> firmware_name n \<and> (\<exists>t. (k, n, t) \<in> set M \<and> deadline = t + firmware_ttl)"
    using assms(1) get unfolding entries_ok_def by blast
  ultimately show ?thesis using assms by (auto simp: entries_ok_def)
qed

lemma entries_ok_dict: "entries_ok M S es \<Longrightarrow> is_dict es"
  by (simp add: entries_ok_def)

lemma entries_ok_pop: "entries_ok M S es \<Longrightarrow> entries_ok M S (dict_pop k es)"
  by (rule fewer_entries [where es = es]) (auto simp: entries_ok_dict set_dict_pop)

lemma entries_ok_expired: "entries_ok M S es \<Longrightarrow> entries_ok M S (drop_expired now es)"
  unfolding drop_expired_def
  by (rule fewer_entries [where es = es]) (auto simp: entries_ok_dict, simp add: dict_filter_def)

lemma entries_ok_budget: "entries_ok M S es \<Longrightarrow> uses k S \<le> uses k M"
  by (auto simp: entries_ok_def intro: le_trans [OF le_add1])

lemma entries_ok_mint:
  assumes "entries_ok M S es" "length es < max_tokens" "firmware_name n"
  shows "entries_ok (M @ [(k, n, now)]) S (dict_put k (n, now + firmware_ttl) es)"
proof -
  have "uses j S + (if dict_get (dict_put k (n, now + firmware_ttl) es) j = None then 0 else 1) \<le> uses j (M @ [(k, n, now)])" for j
  proof (cases "j = k")
    case True
    then show ?thesis using entries_ok_budget [OF assms(1), of k] by simp
  next
    case False
    then show ?thesis using assms(1) by (simp add: entries_ok_def)
  qed
  then show ?thesis using assms by (auto simp: entries_ok_def length_dict_put)
qed

lemma entries_ok_serve:
  assumes "entries_ok M S es" "dict_get es k = Some v"
  shows "entries_ok M (S @ [(k, n, now)]) (dict_pop k es)"
proof -
  have p: "entries_ok M S (dict_pop k es)" by (rule entries_ok_pop [OF assms(1)])
  have "uses j (S @ [(k, n, now)]) + (if dict_get (dict_pop k es) j = None then 0 else 1) \<le> uses j M" for j
    using assms by (auto simp: entries_ok_def dest!: spec [of _ j])
  with p show ?thesis by (auto simp: entries_ok_def)
qed

lemma deliveries_ok_mint: "deliveries_ok w \<Longrightarrow> deliveries_ok (snd (mint sha files origin now token n w))"
  using entries_ok_expired [of "fw_minted w" "fw_served w" "fw_entries w" now]
  by (auto simp: deliveries_ok_def mint_def Let_def can_open_def served_ok_def intro!: entries_ok_mint) blast

lemma deliveries_ok_download: "deliveries_ok w \<Longrightarrow> deliveries_ok (snd (download sha files now token n w))"
proof (cases "fst (download sha files now token n w) = Not_found")
  case True
  moreover assume "deliveries_ok w"
  ultimately show ?thesis
    by (auto simp: deliveries_ok_def download_def Let_def entries_ok_pop split: option.splits prod.splits if_splits)
next
  case False
  then obtain deadline where d: "dict_get (fw_entries w) (sha token) = Some (n, deadline)" "now < deadline"
      "snd (download sha files now token n w) = w\<lparr>fw_entries := dict_pop (sha token) (fw_entries w), fw_served := fw_served w @ [(sha token, n, now)]\<rparr>"
    by (auto simp: download_def Let_def split: option.splits prod.splits if_splits)
  assume ok: "deliveries_ok w"
  then have e: "entries_ok (fw_minted w) (fw_served w) (fw_entries w)" by (simp add: deliveries_ok_def)
  have "firmware_name n \<and> (\<exists>t. (sha token, n, t) \<in> set (fw_minted w) \<and> deadline = t + firmware_ttl)"
    using e d(1) unfolding entries_ok_def by blast
  then have "served_ok (fw_minted w) (fw_served w @ [(sha token, n, now)])"
    using ok d(2) by (auto simp: deliveries_ok_def served_ok_def)
  with entries_ok_serve [OF e d(1)] d(3) show ?thesis by (simp add: deliveries_ok_def)
qed

lemma deliveries_ok_step: "deliveries_ok w \<Longrightarrow> deliveries_ok (delivery_step sha files origin e w)"
  by (cases e) (simp_all add: deliveries_ok_mint deliveries_ok_download)

interpretation deliveries: event_machine "delivery_step sha files origin" deliveries_ok for sha files origin
  by unfold_locales (rule deliveries_ok_step)

lemma deliveries_ok_run: "deliveries_ok w \<Longrightarrow> deliveries_ok (delivery_run sha files origin es w)"
  unfolding delivery_run_def by (rule deliveries.every_run)

lemma deliveries_ok_start: "deliveries_ok no_deliveries"
  by (simp add: deliveries_ok_def entries_ok_def served_ok_def no_deliveries_def dict_get_def)

text \<open>C24: A delivery link works at most once. In every run of mints and downloads a token serves no more often than it was
  minted, it only serves the file it was minted for, less than 120 seconds after that, under a plain name of the
  firmware directory, and at most 128 tokens are outstanding.\<close>

theorem firmware_links_work_once:
  assumes "w = delivery_run sha files origin es no_deliveries"
  shows "(\<forall>k. uses k (fw_served w) \<le> uses k (fw_minted w)) \<and> length (fw_entries w) \<le> 128
     \<and> (\<forall>k n now. (k, n, now) \<in> set (fw_served w) \<longrightarrow> firmware_name n \<and> (\<exists>t. (k, n, t) \<in> set (fw_minted w) \<and> now < t + 120))"
proof -
  have ok: "deliveries_ok w" unfolding assms by (rule deliveries_ok_run [OF deliveries_ok_start])
  then have "uses k (fw_served w) \<le> uses k (fw_minted w)" for k
    by (auto simp: deliveries_ok_def entries_ok_def intro: le_trans [OF le_add1])
  with ok show ?thesis by (simp add: deliveries_ok_def entries_ok_def served_ok_def max_tokens_def firmware_ttl_def)
qed

definition demo_deliveries :: "delivery_event list" where
  "demo_deliveries = [Mint 10 ''t'' ''esp.bin'', Download 20 ''t'' ''esp.bin'', Download 21 ''t'' ''esp.bin'']"

lemma demo_deliveries_served:
  "fw_served (delivery_run (\<lambda>t. t) (\<lambda>_. True) [] demo_deliveries no_deliveries) = [(''t'', ''esp.bin'', 20)]"
  by code_simp

theorem firmware_links_work_once_witness:
  "length (fw_entries (delivery_run (\<lambda>t. t) (\<lambda>_. True) [] demo_deliveries no_deliveries)) \<le> 128
   \<and> (\<exists>t. (''t'', ''esp.bin'', t) \<in> set (fw_minted (delivery_run (\<lambda>t. t) (\<lambda>_. True) [] demo_deliveries no_deliveries)) \<and> 20 < t + 120)"
  using firmware_links_work_once [OF refl, of "\<lambda>t. t" "\<lambda>_. True" "[]" demo_deliveries]
  unfolding demo_deliveries_served by auto

end
