(* ===== verification/Openclaw_Client.thy ===== *)
theory Openclaw_Client
  imports Json_Value Wire_Text
begin

text \<open>
  \<open>agents/openclaw.py\<close>: the client of the OpenClaw gateway. The reader handles one message at a time; the task
  that waits for the answer to \<open>connect\<close>, the reconnect task and a caller of \<open>connect()\<close> go on in events of
  their own. Signing the connect request and storing the device token are not modelled. \<open>str\<close> and \<open>json.dumps\<close>
  are parameters.
\<close>

record python_text =
  py_str :: "json \<Rightarrow> string"
  py_dumps :: "json \<Rightarrow> string"

datatype outcome = Unsettled | Ended | Failed_with string

datatype request_kind = For_connect | For_chat nat

datatype handshake = No_handshake | Handshaking | Handshake_over bool

datatype reconnect_task = No_task | Sleeping nat | Connecting

record chat_call =
  cc_request :: outcome
  cc_reply :: outcome
  cc_deltas :: "string list"
  cc_raised :: bool

record gateway =
  oc_reader :: bool
  oc_socket :: bool
  oc_connected :: bool
  oc_should :: bool
  oc_delay :: nat
  oc_task :: reconnect_task
  oc_calling :: bool
  oc_handshake :: handshake
  oc_req :: int
  oc_pending :: "(string, request_kind) dict"
  oc_connects :: "(string, outcome) dict"
  oc_chats :: "(json, nat) dict"
  oc_calls :: "(nat, chat_call) dict"
  oc_sent :: "(string \<times> string) list"

definition new_gateway :: gateway where
  "new_gateway = \<lparr> oc_reader = False, oc_socket = False, oc_connected = False, oc_should = True, oc_delay = 1, oc_task = No_task,
     oc_calling = False, oc_handshake = No_handshake, oc_req = 0, oc_pending = [], oc_connects = [], oc_chats = [],
     oc_calls = [], oc_sent = [] \<rparr>"

definition next_req :: "gateway \<Rightarrow> int" where
  "next_req g = (oc_req g + 1) mod 100000"

definition change_call :: "nat \<Rightarrow> (chat_call \<Rightarrow> chat_call) \<Rightarrow> gateway \<Rightarrow> gateway" where
  "change_call n f g = (case dict_get (oc_calls g) n of None \<Rightarrow> g | Some c \<Rightarrow> g\<lparr>oc_calls := dict_put n (f c) (oc_calls g)\<rparr>)"

text \<open>A future is settled once.\<close>

definition settle_once :: "outcome \<Rightarrow> outcome \<Rightarrow> outcome" where
  "settle_once new old = (if old = Unsettled then new else old)"

definition end_request :: "outcome \<Rightarrow> chat_call \<Rightarrow> chat_call" where
  "end_request out c = c\<lparr>cc_request := settle_once out (cc_request c)\<rparr>"

definition end_reply :: "outcome \<Rightarrow> chat_call \<Rightarrow> chat_call" where
  "end_reply out c = c\<lparr>cc_reply := settle_once out (cc_reply c)\<rparr>"

text \<open>What \<open>chat()\<close> comes to\<close>

definition chat_result :: "chat_call \<Rightarrow> outcome" where
  "chat_result c = (if cc_raised c then Failed_with ''send failed''
     else case cc_request c of
       Unsettled \<Rightarrow> Unsettled
     | Ended \<Rightarrow> cc_reply c
     | Failed_with e \<Rightarrow> if cc_reply c = Unsettled then Failed_with e else cc_reply c)"

section \<open>Calls\<close>

text \<open>\<open>chat()\<close> up to its wait; \<open>sent\<close> is whether the socket takes the request, which it never does once it is gone.\<close>

definition start_chat :: "nat \<Rightarrow> bool \<Rightarrow> gateway \<Rightarrow> gateway option" where
  "start_chat n sent g =
    (if \<not> oc_connected g \<or> \<not> oc_socket g then None
     else
       let rid = int_text (next_req g) in
       Some (g\<lparr>oc_req := next_req g, oc_pending := dict_put rid (For_chat n) (oc_pending g),
         oc_calls := dict_put n \<lparr> cc_request = Unsettled, cc_reply = Unsettled, cc_deltas = [], cc_raised = \<not> (sent \<and> oc_reader g) \<rparr> (oc_calls g),
         oc_sent := (if sent then oc_sent g @ [(rid, ''chat.send'')] else oc_sent g)\<rparr>))"

text \<open>\<open>connect()\<close> up to the wait for the handshake, when the socket opens or not\<close>

definition open_socket :: "gateway \<Rightarrow> gateway" where
  "open_socket g = g\<lparr>oc_should := True, oc_reader := True, oc_socket := True, oc_handshake := Handshaking\<rparr>"

definition socket_refused :: "gateway \<Rightarrow> gateway" where
  "socket_refused g = g\<lparr>oc_should := True\<rparr>"

definition hs_settle :: "bool \<Rightarrow> handshake \<Rightarrow> handshake" where
  "hs_settle ok h = (if h = Handshaking then Handshake_over ok else h)"

text \<open>The futures that are failed when the socket is gone\<close>

definition disconnected :: outcome where
  "disconnected = Failed_with ''OpenClaw disconnected''"

definition fail_call :: "gateway \<Rightarrow> nat \<Rightarrow> chat_call \<Rightarrow> chat_call" where
  "fail_call g n c =
    (let c1 = (if For_chat n \<in> set (dict_values (oc_pending g)) then end_request disconnected c else c)
     in if n \<in> set (dict_values (oc_chats g)) then end_reply disconnected c1 else c1)"

definition fail_all :: "gateway \<Rightarrow> gateway" where
  "fail_all g = g\<lparr>oc_calls := map (\<lambda>(n, c). (n, fail_call g n c)) (oc_calls g),
     oc_connects := map (\<lambda>(r, out). (r, if r \<in> set (dict_keys (oc_pending g)) then settle_once disconnected out else out)) (oc_connects g),
     oc_pending := [], oc_chats := []\<rparr>"

text \<open>The \<open>finally\<close> of \<open>_reader_loop\<close>\<close>

definition reader_ends :: "gateway \<Rightarrow> gateway" where
  "reader_ends g =
    (if \<not> oc_reader g then g
     else
       let a = (fail_all (g\<lparr>oc_reader := False, oc_connected := False\<rparr>))\<lparr>oc_handshake := hs_settle False (oc_handshake g)\<rparr> in
       if \<not> oc_should g then a
       else
         let b = a\<lparr>oc_delay := min (oc_delay g * 2) 30\<rparr> in
         if oc_task g \<noteq> No_task then b else b\<lparr>oc_task := Sleeping (oc_delay g)\<rparr>)"

text \<open>\<open>_teardown\<close>: the reader is cancelled, its \<open>finally\<close> runs next.\<close>

definition gateway_close :: "gateway \<Rightarrow> gateway" where
  "gateway_close g = (reader_ends (fail_all (g\<lparr>oc_should := False, oc_connected := False\<rparr>)))\<lparr>oc_socket := False\<rparr>"

definition handshake_timeout :: "gateway \<Rightarrow> gateway" where
  "handshake_timeout g = (if oc_handshake g \<noteq> Handshaking then g else (reader_ends (fail_all (g\<lparr>oc_connected := False\<rparr>)))\<lparr>oc_socket := False\<rparr>)"

text \<open>The caller of \<open>connect()\<close> goes on once the handshake is over; the reconnect task is done then.\<close>

definition connect_returns :: "gateway \<Rightarrow> gateway" where
  "connect_returns g = (case oc_handshake g of
     Handshake_over ok \<Rightarrow> g\<lparr>oc_handshake := No_handshake, oc_calling := False, oc_task := (if oc_task g = Connecting then No_task else oc_task g)\<rparr>
   | _ \<Rightarrow> g)"

text \<open>\<open>_reconnect_after\<close> when its sleep is over; \<open>opened\<close> is whether the socket opens.\<close>

definition reconnect_wakes :: "bool \<Rightarrow> gateway \<Rightarrow> gateway" where
  "reconnect_wakes opened g = (case oc_task g of
     Sleeping d \<Rightarrow>
       if \<not> oc_should g then g\<lparr>oc_task := No_task\<rparr>
       else if opened then open_socket (g\<lparr>oc_task := Connecting\<rparr>)
       else socket_refused (g\<lparr>oc_task := No_task\<rparr>)
   | _ \<Rightarrow> g)"

definition first_connect :: "bool \<Rightarrow> gateway \<Rightarrow> gateway" where
  "first_connect opened g = (if opened then open_socket (g\<lparr>oc_calling := True\<rparr>) else socket_refused g)"

section \<open>Messages\<close>

definition field_or :: "json \<Rightarrow> string \<Rightarrow> json" where
  "field_or j key = (case jget j key of None \<Rightarrow> JObj [] | Some v \<Rightarrow> if truthy v then v else JObj [])"

text \<open>\<open>str(msg["id"])\<close>, when it can be the ID of a request\<close>

definition id_text :: "json \<Rightarrow> string option" where
  "id_text j = (case j of JStr t \<Rightarrow> Some t | JInt n \<Rightarrow> Some (int_text n) | _ \<Rightarrow> None)"

definition on_challenge :: "json \<Rightarrow> gateway \<Rightarrow> gateway" where
  "on_challenge msg g = (case jget (field_or msg ''payload'') ''nonce'' of
     Some (JStr nonce) \<Rightarrow>
       let rid = int_text (next_req g) in
       g\<lparr>oc_req := next_req g, oc_pending := dict_put rid For_connect (oc_pending g),
         oc_connects := dict_put rid Unsettled (oc_connects g), oc_sent := oc_sent g @ [(rid, ''connect'')]\<rparr>
   | _ \<Rightarrow> g)"

text \<open>The hook of \<open>chat.send\<close>: the run is routed to the call before any other message is read.\<close>

definition install_run :: "nat \<Rightarrow> json \<Rightarrow> gateway \<Rightarrow> gateway" where
  "install_run n body g =
    (let run = (case jget body ''runId'' of None \<Rightarrow> JNull | Some j \<Rightarrow> j) in
     if \<not> truthy run then change_call n (\<lambda>c. end_request Ended (end_reply (Failed_with ''No runId in chat.send response'') c)) g
     else if is_list run \<or> is_obj run then change_call n (end_request (Failed_with ''unhashable'')) g
     else change_call n (end_request Ended) (g\<lparr>oc_chats := dict_put run n (oc_chats g)\<rparr>))"

definition error_text :: "python_text \<Rightarrow> json \<Rightarrow> string" where
  "error_text py msg = ''OpenClaw error: '' @ (case jget (field_or msg ''error'') ''message'' of
     None \<Rightarrow> py_dumps py msg
   | Some (JStr t) \<Rightarrow> if t = [] then py_dumps py msg else t
   | Some j \<Rightarrow> if truthy j then py_str py j else py_dumps py msg)"

definition chat_error :: "python_text \<Rightarrow> json \<Rightarrow> string" where
  "chat_error py body = (case jget body ''errorMessage'' of
     None \<Rightarrow> ''Chat error''
   | Some (JStr t) \<Rightarrow> if t = [] then ''Chat error'' else t
   | Some j \<Rightarrow> if truthy j then py_str py j else ''Chat error'')"

definition on_response :: "python_text \<Rightarrow> json \<Rightarrow> gateway \<Rightarrow> gateway" where
  "on_response py msg g = (case id_text (jat msg ''id'') of
     None \<Rightarrow> g
   | Some rid \<Rightarrow> (case dict_get (oc_pending g) rid of
       None \<Rightarrow> g
     | Some kind \<Rightarrow>
         let a = g\<lparr>oc_pending := dict_pop rid (oc_pending g)\<rparr>;
             refused = (jget msg ''ok'' = Some (JBool False));
             body = (if is_obj (field_or msg ''payload'') then field_or msg ''payload'' else JObj [])
         in case kind of
           For_connect \<Rightarrow> a\<lparr>oc_connects := dict_put rid (if refused then Failed_with (error_text py msg) else Ended) (oc_connects a)\<rparr>
         | For_chat n \<Rightarrow> if refused then change_call n (end_request (Failed_with (error_text py msg))) a else install_run n body a))"

definition chat_delta :: "json \<Rightarrow> string option" where
  "chat_delta body = (let m = field_or body ''message'' in
     if \<not> is_obj m then None
     else Some (case jget m ''content'' of
       Some (JList (x # _)) \<Rightarrow> (case jget x ''text'' of Some (JStr t) \<Rightarrow> t | _ \<Rightarrow> [])
     | _ \<Rightarrow> []))"

definition on_chat_event :: "python_text \<Rightarrow> json \<Rightarrow> gateway \<Rightarrow> gateway" where
  "on_chat_event py msg g =
    (let body = field_or msg ''payload'' in
     case (if is_obj body then jget body ''runId'' else None) of
       Some (JStr run) \<Rightarrow> (case dict_get (oc_chats g) (JStr run) of
           None \<Rightarrow> g
         | Some n \<Rightarrow>
             let gone = g\<lparr>oc_chats := dict_pop (JStr run) (oc_chats g)\<rparr> in
             if jget body ''state'' = Some (JStr ''delta'') then
               (case chat_delta body of
                  None \<Rightarrow> reader_ends g
                | Some t \<Rightarrow> if t = [] then g else change_call n (\<lambda>c. c\<lparr>cc_deltas := cc_deltas c @ [t]\<rparr>) g)
             else if jget body ''state'' \<in> {Some (JStr ''final''), Some (JStr ''aborted'')} then change_call n (end_reply Ended) gone
             else if jget body ''state'' = Some (JStr ''error'') then change_call n (end_reply (Failed_with (chat_error py body))) gone
             else g)
     | _ \<Rightarrow> g)"

definition on_message :: "python_text \<Rightarrow> json \<Rightarrow> gateway \<Rightarrow> gateway" where
  "on_message py msg g =
    (if \<not> oc_reader g \<or> \<not> is_obj msg then g
     else if jget msg ''type'' = Some (JStr ''event'') \<and> jget msg ''event'' = Some (JStr ''connect.challenge'') then on_challenge msg g
     else if jget msg ''type'' = Some (JStr ''res'') \<and> jat msg ''id'' \<noteq> JNull then on_response py msg g
     else if jget msg ''type'' = Some (JStr ''event'') \<and> jget msg ''event'' = Some (JStr ''chat'') then on_chat_event py msg g
     else g)"

text \<open>\<open>_await_connect\<close> once its answer is there; \<open>pairing\<close> tells whether the error says that pairing is required.\<close>

definition connect_answered :: "(string \<Rightarrow> bool) \<Rightarrow> string \<Rightarrow> gateway \<Rightarrow> gateway" where
  "connect_answered pairing rid g = (case dict_get (oc_connects g) rid of
     None \<Rightarrow> g
   | Some Unsettled \<Rightarrow> g
   | Some Ended \<Rightarrow> g\<lparr>oc_connects := dict_pop rid (oc_connects g), oc_connected := True, oc_delay := 1,
       oc_handshake := hs_settle True (oc_handshake g)\<rparr>
   | Some (Failed_with e) \<Rightarrow> g\<lparr>oc_connects := dict_pop rid (oc_connects g), oc_handshake := hs_settle (pairing e) (oc_handshake g)\<rparr>)"

section \<open>Runs\<close>

datatype gateway_event =
    First_connect bool
  | Gateway_message json
  | Socket_gone
  | Handshake_timeout
  | Connect_answered string
  | Connect_returns
  | Reconnect_wakes bool
  | Start_chat nat bool
  | Gateway_close

fun gateway_step :: "python_text \<Rightarrow> (string \<Rightarrow> bool) \<Rightarrow> gateway_event \<Rightarrow> gateway \<Rightarrow> gateway" where
  "gateway_step py pairing (First_connect opened) g = (if oc_reader g \<or> oc_task g \<noteq> No_task then g else first_connect opened g)"
| "gateway_step py pairing (Gateway_message msg) g = on_message py msg g"
| "gateway_step py pairing Socket_gone g = reader_ends g"
| "gateway_step py pairing Handshake_timeout g = handshake_timeout g"
| "gateway_step py pairing (Connect_answered rid) g = connect_answered pairing rid g"
| "gateway_step py pairing Connect_returns g = connect_returns g"
| "gateway_step py pairing (Reconnect_wakes opened) g = reconnect_wakes opened g"
| "gateway_step py pairing (Start_chat n sent) g = (case start_chat n sent g of None \<Rightarrow> g | Some h \<Rightarrow> h)"
| "gateway_step py pairing Gateway_close g = gateway_close g"

definition gateway_run :: "python_text \<Rightarrow> (string \<Rightarrow> bool) \<Rightarrow> gateway_event list \<Rightarrow> gateway \<Rightarrow> gateway" where
  "gateway_run py pairing es g = fold (gateway_step py pairing) es g"

text \<open>Request IDs count modulo 100000, and the gateway gives every run an ID of its own: no ID is taken that is still in use.\<close>

definition run_of :: "json \<Rightarrow> json" where
  "run_of msg = (case jget (field_or msg ''payload'') ''runId'' of None \<Rightarrow> JNull | Some j \<Rightarrow> j)"

fun no_clash :: "gateway_event \<Rightarrow> gateway \<Rightarrow> bool" where
  "no_clash (Start_chat n sent) g = (dict_get (oc_calls g) n = None \<and> dict_get (oc_pending g) (int_text (next_req g)) = None)"
| "no_clash (Gateway_message msg) g = (dict_get (oc_pending g) (int_text (next_req g)) = None
     \<and> (jget msg ''type'' = Some (JStr ''res'') \<longrightarrow> dict_get (oc_chats g) (run_of msg) = None))"
| "no_clash _ g = True"

fun no_clashes :: "python_text \<Rightarrow> (string \<Rightarrow> bool) \<Rightarrow> gateway_event list \<Rightarrow> gateway \<Rightarrow> bool" where
  "no_clashes py pairing [] g = True"
| "no_clashes py pairing (e # es) g = (no_clash e g \<and> no_clashes py pairing es (gateway_step py pairing e g))"

section \<open>Every chat comes to an end\<close>

definition waiting_ok :: "gateway \<Rightarrow> nat \<Rightarrow> chat_call \<Rightarrow> bool" where
  "waiting_ok g n c \<longleftrightarrow> (chat_result c = Unsettled \<longrightarrow> oc_reader g \<and>
     (cc_request c = Unsettled \<and> (\<exists>rid. dict_get (oc_pending g) rid = Some (For_chat n))
      \<or> cc_request c = Ended \<and> cc_reply c = Unsettled \<and> (\<exists>run. dict_get (oc_chats g) run = Some n)))"

definition chats_ok :: "gateway \<Rightarrow> bool" where
  "chats_ok g \<longleftrightarrow> (\<forall>n c. dict_get (oc_calls g) n = Some c \<longrightarrow> waiting_ok g n c)"

lemma settle_once_settled: "settle_once new old = Unsettled \<longleftrightarrow> new = Unsettled \<and> old = Unsettled"
  by (simp add: settle_once_def)

lemma settled_stays:
  "out \<noteq> Unsettled \<Longrightarrow> chat_result c \<noteq> Unsettled \<Longrightarrow> chat_result (end_request out c) \<noteq> Unsettled"
  "out \<noteq> Unsettled \<Longrightarrow> chat_result c \<noteq> Unsettled \<Longrightarrow> chat_result (end_reply out c) \<noteq> Unsettled"
  by (auto simp: chat_result_def end_request_def end_reply_def settle_once_def split: outcome.splits if_splits)

lemma disconnected_settled [simp]: "disconnected \<noteq> Unsettled"
  by (simp add: disconnected_def)

lemma dict_get_map_key: "dict_get (map (\<lambda>(k, v). (k, f k v)) d) k = map_option (f k) (dict_get d k)"
  by (induction d) (auto simp: dict_get_def)

lemma dict_get_values: "dict_get d k = Some v \<Longrightarrow> v \<in> set (dict_values d)"
  by (auto simp: dict_values_def dest!: dict_get_in intro: rev_image_eqI)

lemma fail_call_settles:
  assumes "waiting_ok g n c"
  shows "chat_result (fail_call g n c) \<noteq> Unsettled"
proof (cases "chat_result c = Unsettled")
  case False
  then show ?thesis by (simp add: fail_call_def Let_def settled_stays)
next
  case True
  then have raised: "\<not> cc_raised c" by (auto simp: chat_result_def)
  from assms True consider (asked) rid where "cc_request c = Unsettled" "dict_get (oc_pending g) rid = Some (For_chat n)"
    | (running) run where "cc_request c = Ended" "dict_get (oc_chats g) run = Some n"
    by (auto simp: waiting_ok_def)
  then show ?thesis
  proof cases
    case asked
    then have "For_chat n \<in> set (dict_values (oc_pending g))" by (blast intro: dict_get_values)
    moreover have "chat_result (end_request disconnected c) \<noteq> Unsettled"
      using asked(1) raised by (auto simp: chat_result_def end_request_def settle_once_def disconnected_def)
    ultimately show ?thesis by (simp add: fail_call_def Let_def settled_stays)
  next
    case running
    then have "n \<in> set (dict_values (oc_chats g))" by (blast intro: dict_get_values)
    then show ?thesis using running(1) raised
      by (auto simp: fail_call_def Let_def chat_result_def end_request_def end_reply_def settle_once_def disconnected_def)
  qed
qed

definition all_settled :: "gateway \<Rightarrow> bool" where
  "all_settled g \<longleftrightarrow> (\<forall>n c. dict_get (oc_calls g) n = Some c \<longrightarrow> chat_result c \<noteq> Unsettled)"

lemma fail_all_settles: "chats_ok g \<Longrightarrow> all_settled (fail_all g)"
  by (auto simp: all_settled_def fail_all_def dict_get_map_key chats_ok_def fail_call_settles)

lemma settled_ok: "all_settled g \<Longrightarrow> chats_ok g"
  by (simp add: all_settled_def chats_ok_def waiting_ok_def)

lemma settled_fail_all: "all_settled g \<Longrightarrow> all_settled (fail_all g)"
  by (rule fail_all_settles [OF settled_ok])

lemma chats_ok_frame:
  "chats_ok g \<Longrightarrow> oc_calls h = oc_calls g \<Longrightarrow> oc_pending h = oc_pending g \<Longrightarrow> oc_chats h = oc_chats g \<Longrightarrow> oc_reader g \<longrightarrow> oc_reader h \<Longrightarrow> chats_ok h"
  by (simp add: chats_ok_def waiting_ok_def)

lemma settled_frame: "all_settled g \<Longrightarrow> oc_calls h = oc_calls g \<Longrightarrow> all_settled h"
  by (simp add: all_settled_def)

lemma chats_ok_waiting: "chats_ok g \<Longrightarrow> chats_ok (g\<lparr>oc_reader := True\<rparr>)"
  by (auto simp: chats_ok_def waiting_ok_def)

lemma reader_ends_settles: "chats_ok g \<Longrightarrow> oc_reader g \<Longrightarrow> all_settled (reader_ends g)"
  using fail_all_settles [of g]
  by (auto simp: all_settled_def reader_ends_def Let_def fail_all_def dict_get_map_key fail_call_def)

lemma reader_ends_ok: "chats_ok g \<Longrightarrow> chats_ok (reader_ends g)"
  by (cases "oc_reader g") (auto dest: settled_ok [OF reader_ends_settles], simp add: reader_ends_def)

lemma reader_ends_keeps_settled: "all_settled g \<Longrightarrow> all_settled (reader_ends g)"
  by (cases "oc_reader g") (auto dest: reader_ends_settles [OF settled_ok], simp add: reader_ends_def)

lemma change_call_ok:
  assumes "chats_ok g" "\<And>c. dict_get (oc_calls g) n = Some c \<Longrightarrow> waiting_ok h n (f c)"
    and "oc_calls h = oc_calls g" "oc_reader h = oc_reader g"
    and "\<And>m rid. m \<noteq> n \<Longrightarrow> dict_get (oc_pending g) rid = Some (For_chat m) \<Longrightarrow> \<exists>r. dict_get (oc_pending h) r = Some (For_chat m)"
    and "\<And>m run. m \<noteq> n \<Longrightarrow> dict_get (oc_chats g) run = Some m \<Longrightarrow> \<exists>r. dict_get (oc_chats h) r = Some m"
  shows "chats_ok (change_call n f h)"
proof -
  have frame: "waiting_ok (change_call n f h) m c = waiting_ok h m c" for m c
    by (simp add: waiting_ok_def change_call_def split: option.split)
  have "waiting_ok h m c" if "m \<noteq> n" "dict_get (oc_calls g) m = Some c" for m c
    using assms(1,4) that assms(5,6) [OF that(1)] unfolding chats_ok_def waiting_ok_def by metis
  moreover have "m \<noteq> n" if "dict_get (oc_calls g) n = None" "dict_get (oc_calls g) m = Some c" for m c using that by auto
  ultimately show ?thesis using assms(2,3) unfolding chats_ok_def frame
    by (auto simp: change_call_def split: option.splits if_splits)
qed

lemma chats_ok_more:
  assumes "chats_ok g" "oc_calls h = oc_calls g" "oc_reader h = oc_reader g"
    and "\<And>m rid. dict_get (oc_pending g) rid = Some (For_chat m) \<Longrightarrow> \<exists>r. dict_get (oc_pending h) r = Some (For_chat m)"
    and "\<And>m run. dict_get (oc_chats g) run = Some m \<Longrightarrow> \<exists>r. dict_get (oc_chats h) r = Some m"
  shows "chats_ok h"
  using assms unfolding chats_ok_def waiting_ok_def by metis

lemma waiting_end_request:
  assumes "waiting_ok g n c" "out \<noteq> Unsettled" "out \<noteq> Ended" "oc_reader h = oc_reader g" "oc_chats h = oc_chats g"
  shows "waiting_ok h n (end_request out c)"
  using assms settled_stays(1) [OF assms(2), of c]
  by (auto simp: waiting_ok_def chat_result_def end_request_def settle_once_def split: outcome.splits if_splits)

lemma waiting_end_reply:
  assumes "waiting_ok g n c" "out \<noteq> Unsettled" "oc_reader h = oc_reader g" "oc_pending h = oc_pending g"
  shows "waiting_ok h n (end_reply out c)"
  using assms settled_stays(2) [OF assms(2), of c]
  by (auto simp: waiting_ok_def chat_result_def end_reply_def settle_once_def split: outcome.splits if_splits)

lemma waiting_delta: "waiting_ok g n (c\<lparr>cc_deltas := ds\<rparr>) = waiting_ok g n c"
  by (cases "cc_request c") (simp_all add: waiting_ok_def chat_result_def)

lemma popped_pending:
  "dict_get (oc_pending g) rid = Some k \<Longrightarrow> k \<noteq> For_chat m \<Longrightarrow> dict_get (oc_pending g) r = Some (For_chat m)
   \<Longrightarrow> \<exists>r. dict_get (dict_pop rid (oc_pending g)) r = Some (For_chat m)"
  by (intro exI [of _ r]) auto

lemma popped_chats:
  "dict_get (oc_chats g) run = Some n \<Longrightarrow> m \<noteq> n \<Longrightarrow> dict_get (oc_chats g) r = Some m \<Longrightarrow> \<exists>r. dict_get (dict_pop run (oc_chats g)) r = Some m"
  by (intro exI [of _ r]) auto

lemma chats_ok_challenge:
  assumes "chats_ok g" "dict_get (oc_pending g) (int_text (next_req g)) = None"
  shows "chats_ok (on_challenge msg g)"
proof (cases "jget (field_or msg ''payload'') ''nonce''")
  case (Some j)
  have "\<exists>r. dict_get (dict_put (int_text (next_req g)) For_connect (oc_pending g)) r = Some (For_chat m)"
    if "dict_get (oc_pending g) rid = Some (For_chat m)" for m rid
    using that assms(2) by (intro exI [of _ rid]) auto
  with Some assms(1) show ?thesis
    by (cases j) (auto simp: on_challenge_def Let_def intro!: chats_ok_more [OF assms(1)])
qed (simp add: on_challenge_def assms(1))

lemma waiting_install:
  assumes "waiting_ok g n c" "oc_reader g" "dict_get (oc_chats h) run = Some n" "oc_reader h"
  shows "waiting_ok h n (end_request Ended c)"
  using assms by (auto simp: waiting_ok_def chat_result_def end_request_def settle_once_def split: outcome.splits if_splits)

lemma waiting_no_run:
  assumes "out \<noteq> Unsettled"
  shows "waiting_ok h n (end_request Ended (end_reply out c))"
  using assms by (auto simp: waiting_ok_def chat_result_def end_request_def end_reply_def settle_once_def split: outcome.splits if_splits)

lemma chats_ok_install:
  assumes "chats_ok g" "oc_reader g" "dict_get (oc_pending g) rid = Some (For_chat n)"
    and "dict_get (oc_chats g) (case jget body ''runId'' of None \<Rightarrow> JNull | Some j \<Rightarrow> j) = None"
  shows "chats_ok (install_run n body (g\<lparr>oc_pending := dict_pop rid (oc_pending g)\<rparr>))"
proof -
  let ?h = "g\<lparr>oc_pending := dict_pop rid (oc_pending g)\<rparr>"
  let ?run = "case jget body ''runId'' of None \<Rightarrow> JNull | Some j \<Rightarrow> j"
  have pend: "\<exists>r. dict_get (oc_pending ?h) r = Some (For_chat m)" if "m \<noteq> n" "dict_get (oc_pending g) r = Some (For_chat m)" for m r
    using popped_pending [OF assms(3) _ that(2)] that(1) by simp
  have ok: "waiting_ok g n c" if "dict_get (oc_calls g) n = Some c" for c using assms(1) that by (simp add: chats_ok_def)
  have 1: "chats_ok (change_call n (\<lambda>c. end_request Ended (end_reply (Failed_with ''No runId in chat.send response'') c)) ?h)"
    by (rule change_call_ok [OF assms(1)]) (use pend in \<open>auto intro: waiting_no_run\<close>)
  have 2: "chats_ok (change_call n (end_request (Failed_with ''unhashable'')) ?h)"
    by (rule change_call_ok [OF assms(1)]) (use pend in \<open>auto intro: waiting_end_request [OF ok]\<close>)
  have 3: "chats_ok (change_call n (end_request Ended) (?h\<lparr>oc_chats := dict_put ?run n (oc_chats g)\<rparr>))"
  proof (rule change_call_ok [OF assms(1)])
    show "waiting_ok (?h\<lparr>oc_chats := dict_put ?run n (oc_chats g)\<rparr>) n (end_request Ended c)" if "dict_get (oc_calls g) n = Some c" for c
      by (rule waiting_install [OF ok [OF that] assms(2)]) (use assms(2) in auto)
    show "\<exists>r. dict_get (oc_chats (?h\<lparr>oc_chats := dict_put ?run n (oc_chats g)\<rparr>)) r = Some m" if "dict_get (oc_chats g) r = Some m" for m r
      using that assms(4) by (intro exI [of _ r]) auto
  qed (use pend in auto)
  show ?thesis using 1 2 3 by (simp add: install_run_def Let_def)
qed

lemma chats_ok_response:
  assumes "chats_ok g" "oc_reader g" "dict_get (oc_chats g) (run_of msg) = None"
  shows "chats_ok (on_response py msg g)"
proof (cases "id_text (jat msg ''id'')")
  case (Some rid)
  show ?thesis
  proof (cases "dict_get (oc_pending g) rid")
    case None
    then show ?thesis using Some assms(1) by (simp add: on_response_def)
  next
    case pending: (Some k)
    show ?thesis
    proof (cases k)
      case For_connect
      have "chats_ok (g\<lparr>oc_pending := dict_pop rid (oc_pending g), oc_connects := x\<rparr>)" for x
        by (rule chats_ok_more [OF assms(1)]) (use popped_pending [OF pending] For_connect in auto)
      with Some pending For_connect show ?thesis by (simp add: on_response_def Let_def)
    next
      case (For_chat n)
      let ?body = "if is_obj (field_or msg ''payload'') then field_or msg ''payload'' else JObj []"
      have no_run: "dict_get (oc_chats g) (case jget ?body ''runId'' of None \<Rightarrow> JNull | Some j \<Rightarrow> j) = None"
      proof (cases "is_obj (field_or msg ''payload'')")
        case True
        then show ?thesis using assms(3) by (simp add: run_of_def)
      next
        case False
        then have "jget (field_or msg ''payload'') ''runId'' = None" by (cases "field_or msg ''payload''") auto
        then show ?thesis using assms(3) False by (simp add: run_of_def)
      qed
      have ok: "waiting_ok g n c" if "dict_get (oc_calls g) n = Some c" for c using assms(1) that by (simp add: chats_ok_def)
      have "chats_ok (change_call n (end_request (Failed_with e)) (g\<lparr>oc_pending := dict_pop rid (oc_pending g)\<rparr>))" for e
        by (rule change_call_ok [OF assms(1)]) (use popped_pending [OF pending] For_chat in \<open>auto intro: waiting_end_request [OF ok]\<close>)
      moreover have "chats_ok (install_run n ?body (g\<lparr>oc_pending := dict_pop rid (oc_pending g)\<rparr>))"
        by (rule chats_ok_install [OF assms(1,2) _ no_run]) (use pending For_chat in simp)
      ultimately show ?thesis using Some pending For_chat by (simp add: on_response_def Let_def)
    qed
  qed
qed (simp add: on_response_def assms(1))

lemma chats_ok_event:
  assumes "chats_ok g" "oc_reader g"
  shows "chats_ok (on_chat_event py msg g)"
proof (cases "\<exists>run n. is_obj (field_or msg ''payload'') \<and> jget (field_or msg ''payload'') ''runId'' = Some (JStr run) \<and> dict_get (oc_chats g) (JStr run) = Some n")
  case False
  then show ?thesis using assms(1) by (auto simp: on_chat_event_def Let_def split: option.split json.split)
next
  case True
  then obtain run n where r: "is_obj (field_or msg ''payload'')" "jget (field_or msg ''payload'') ''runId'' = Some (JStr run)"
    and n: "dict_get (oc_chats g) (JStr run) = Some n" by blast
  have ok: "waiting_ok g n c" if "dict_get (oc_calls g) n = Some c" for c using assms(1) that by (simp add: chats_ok_def)
  have "chats_ok (change_call n (\<lambda>c. c\<lparr>cc_deltas := cc_deltas c @ [t]\<rparr>) g)" for t
    by (rule change_call_ok [OF assms(1)]) (auto simp: waiting_delta ok)
  moreover have "chats_ok (change_call n (end_reply out) (g\<lparr>oc_chats := dict_pop (JStr run) (oc_chats g)\<rparr>))" if "out \<noteq> Unsettled" for out
    by (rule change_call_ok [OF assms(1)]) (use popped_chats [OF n] that in \<open>auto intro: waiting_end_reply [OF ok]\<close>)
  ultimately show ?thesis using r n assms(1) reader_ends_ok [OF assms(1)]
    by (auto simp: on_chat_event_def Let_def split: option.split)
qed

lemma chats_ok_start:
  assumes "chats_ok g" "start_chat n sent g = Some h" "dict_get (oc_calls g) n = None" "dict_get (oc_pending g) (int_text (next_req g)) = None"
  shows "chats_ok h"
proof -
  let ?rid = "int_text (next_req g)"
  have h: "oc_pending h = dict_put ?rid (For_chat n) (oc_pending g)" "oc_chats h = oc_chats g" "oc_reader h = oc_reader g"
    "oc_calls h = dict_put n \<lparr> cc_request = Unsettled, cc_reply = Unsettled, cc_deltas = [], cc_raised = \<not> (sent \<and> oc_reader g) \<rparr> (oc_calls g)"
    using assms(2) by (auto simp: start_chat_def Let_def split: if_splits)
  have "waiting_ok h m c" if "dict_get (oc_calls g) m = Some c" for m c
  proof -
    have "\<exists>r. dict_get (oc_pending h) r = Some (For_chat m)" if "dict_get (oc_pending g) r = Some (For_chat m)" for r
      using that assms(4) h(1) by (intro exI [of _ r]) auto
    with assms(1) that h(2,3) show ?thesis unfolding chats_ok_def waiting_ok_def by metis
  qed
  moreover have "waiting_ok h n \<lparr> cc_request = Unsettled, cc_reply = Unsettled, cc_deltas = [], cc_raised = \<not> (sent \<and> oc_reader g) \<rparr>"
    using h by (auto simp: waiting_ok_def chat_result_def intro!: exI [of _ ?rid])
  ultimately show ?thesis by (auto simp: chats_ok_def h(4))
qed

lemma chats_ok_message:
  assumes "chats_ok g" "no_clash (Gateway_message msg) g"
  shows "chats_ok (on_message py msg g)"
  using assms chats_ok_challenge [OF assms(1)] chats_ok_response [OF assms(1)] chats_ok_event [OF assms(1)]
  by (auto simp: on_message_def)

lemma gateway_close_ok: "chats_ok g \<Longrightarrow> chats_ok (gateway_close g)"
proof -
  assume "chats_ok g"
  then have "chats_ok (g\<lparr>oc_should := False, oc_connected := False\<rparr>)" by (rule chats_ok_frame) simp_all
  then have "all_settled (fail_all (g\<lparr>oc_should := False, oc_connected := False\<rparr>))" by (rule fail_all_settles)
  from reader_ends_keeps_settled [OF this] show ?thesis
    by (auto simp: gateway_close_def intro!: settled_ok elim: settled_frame)
qed

lemma handshake_timeout_ok: "chats_ok g \<Longrightarrow> chats_ok (handshake_timeout g)"
proof -
  assume ok: "chats_ok g"
  then have "chats_ok (g\<lparr>oc_connected := False\<rparr>)" by (rule chats_ok_frame) simp_all
  then have "all_settled (fail_all (g\<lparr>oc_connected := False\<rparr>))" by (rule fail_all_settles)
  from reader_ends_keeps_settled [OF this] show ?thesis using ok
    by (auto simp: handshake_timeout_def intro!: settled_ok elim: settled_frame)
qed

lemma chats_ok_step: "chats_ok g \<Longrightarrow> no_clash e g \<Longrightarrow> chats_ok (gateway_step py pairing e g)"
proof (induction e)
  case (First_connect opened)
  then show ?case by (auto simp: first_connect_def open_socket_def socket_refused_def intro: chats_ok_frame)
next
  case (Gateway_message msg)
  then show ?case using chats_ok_message by simp
next
  case (Connect_answered rid)
  then show ?case by (auto simp: connect_answered_def intro: chats_ok_frame split: option.split outcome.split)
next
  case Connect_returns
  then show ?case by (auto simp: connect_returns_def intro: chats_ok_frame split: handshake.split)
next
  case (Reconnect_wakes opened)
  then show ?case by (auto simp: reconnect_wakes_def open_socket_def socket_refused_def intro: chats_ok_frame split: reconnect_task.split)
next
  case (Start_chat n sent)
  then show ?case using chats_ok_start by (auto split: option.split)
qed (simp_all add: reader_ends_ok gateway_close_ok handshake_timeout_ok)

lemma chats_ok_run: "chats_ok g \<Longrightarrow> no_clashes py pairing es g \<Longrightarrow> chats_ok (gateway_run py pairing es g)"
  by (induction es arbitrary: g) (auto simp: gateway_run_def chats_ok_step)

text \<open>C22: No chat waits for ever: in every run in which no request ID and no run ID is given while it is in use, a call of
  \<open>chat()\<close> that has no outcome yet is either waiting for its response or for the end of its run while the reader is
  alive; once the socket is gone, the handshake timed out or the client was closed, every call has its outcome.\<close>

theorem chat_never_hangs:
  assumes "no_clashes py pairing es new_gateway" and "g = gateway_run py pairing es new_gateway" and "dict_get (oc_calls g) n = Some c"
  shows "(chat_result c = Unsettled \<longrightarrow> oc_reader g
        \<and> ((\<exists>rid. dict_get (oc_pending g) rid = Some (For_chat n)) \<or> (\<exists>run. dict_get (oc_chats g) run = Some n)))
     \<and> (\<not> oc_reader g \<longrightarrow> chat_result c \<noteq> Unsettled)"
proof -
  have "chats_ok g" unfolding assms(2)
    by (rule chats_ok_run [OF _ assms(1)]) (simp add: chats_ok_def new_gateway_def dict_get_def)
  with assms(3) show ?thesis by (auto simp: chats_ok_def waiting_ok_def)
qed

section \<open>A reconnect that fails is the last one\<close>

text \<open>Nothing is left that could open a socket.\<close>

definition given_up :: "gateway \<Rightarrow> bool" where
  "given_up g \<longleftrightarrow> \<not> oc_reader g \<and> oc_task g = No_task"

fun from_outside :: "gateway_event \<Rightarrow> bool" where
  "from_outside (First_connect opened) \<longleftrightarrow> True"
| "from_outside _ \<longleftrightarrow> False"

lemma given_up_step: "given_up g \<Longrightarrow> \<not> from_outside e \<Longrightarrow> given_up (gateway_step py pairing e g)"
  by (cases e) (auto simp: given_up_def on_message_def reader_ends_def handshake_timeout_def fail_all_def connect_answered_def
      connect_returns_def reconnect_wakes_def start_chat_def gateway_close_def Let_def split: option.split outcome.split handshake.split)

text \<open>The reconnect task tries once: when the gateway refuses the socket at that attempt, the client has no socket and no
  task, and whatever happens later, short of a new call of \<open>connect()\<close> from outside, it never has one again.\<close>

theorem refused_reconnect_is_final:
  assumes "oc_task g = Sleeping d" and "\<not> oc_reader g" and "list_all (\<lambda>e. \<not> from_outside e) es"
  shows "\<not> oc_reader (gateway_run py pairing es (gateway_step py pairing (Reconnect_wakes False) g))"
proof -
  have "given_up (gateway_step py pairing (Reconnect_wakes False) g)"
    using assms(1,2) by (simp add: given_up_def reconnect_wakes_def socket_refused_def)
  then have "given_up (gateway_run py pairing es (gateway_step py pairing (Reconnect_wakes False) g))"
    using assms(3)
  proof (induction es arbitrary: g rule: rev_induct)
    case (snoc e es)
    then show ?case using given_up_step by (simp add: gateway_run_def del: gateway_step.simps)
  qed (simp add: gateway_run_def)
  then show ?thesis by (simp add: given_up_def)
qed

text \<open>The same when the socket opens but is gone before the handshake is over.\<close>

lemma broken_handshake_is_final:
  assumes "oc_task g = Connecting" "oc_handshake g = Handshaking" "oc_reader g"
  shows "given_up (gateway_run py pairing [Socket_gone, Connect_returns] g)"
  using assms by (simp add: given_up_def gateway_run_def reader_ends_def fail_all_def Let_def hs_settle_def connect_returns_def)

definition demo_py :: python_text where
  "demo_py = \<lparr> py_str = (\<lambda>_. []), py_dumps = (\<lambda>_. []) \<rparr>"

definition demo_chat :: "gateway_event list" where
  "demo_chat = [First_connect True,
     Gateway_message (JObj [(''type'', JStr ''event''), (''event'', JStr ''connect.challenge''), (''payload'', JObj [(''nonce'', JStr ''n'')])]),
     Gateway_message (JObj [(''type'', JStr ''res''), (''id'', JStr ''1''), (''ok'', JBool True)]),
     Connect_answered ''1'', Connect_returns, Start_chat 0 True,
     Gateway_message (JObj [(''type'', JStr ''res''), (''id'', JStr ''2''), (''ok'', JBool True), (''payload'', JObj [(''runId'', JStr ''r'')])]),
     Gateway_message (JObj [(''type'', JStr ''event''), (''event'', JStr ''chat''),
       (''payload'', JObj [(''runId'', JStr ''r''), (''state'', JStr ''delta''), (''message'', JObj [(''content'', JList [JObj [(''text'', JStr ''Hi'')]])])])]),
     Socket_gone]"

lemma demo_chat_clash: "no_clashes demo_py (\<lambda>_. False) demo_chat new_gateway"
  by code_simp

lemma demo_chat_call: "dict_get (oc_calls (gateway_run demo_py (\<lambda>_. False) demo_chat new_gateway)) 0
    = Some \<lparr> cc_request = Ended, cc_reply = disconnected, cc_deltas = [''Hi''], cc_raised = False \<rparr>"
  "oc_reader (gateway_run demo_py (\<lambda>_. False) demo_chat new_gateway) = False"
  by code_simp+

theorem chat_never_hangs_witness:
  "chat_result \<lparr> cc_request = Ended, cc_reply = disconnected, cc_deltas = [''Hi''], cc_raised = False \<rparr> \<noteq> Unsettled
   \<and> \<not> oc_reader (gateway_run demo_py (\<lambda>_. False) demo_chat new_gateway)"
  using chat_never_hangs [OF demo_chat_clash refl demo_chat_call(1)] demo_chat_call(2) by blast

theorem refused_reconnect_is_final_witness:
  "\<not> oc_reader (gateway_run demo_py (\<lambda>_. False) [Connect_returns, Reconnect_wakes True]
     (gateway_step demo_py (\<lambda>_. False) (Reconnect_wakes False) (gateway_run demo_py (\<lambda>_. False) demo_chat new_gateway)))"
proof (rule refused_reconnect_is_final)
  show "oc_task (gateway_run demo_py (\<lambda>_. False) demo_chat new_gateway) = Sleeping 1" by code_simp
qed (simp_all add: demo_chat_call)

end
