(* ===== verification/Agent_Reply.thy ===== *)
theory Agent_Reply
  imports Event_Machine Reply_Speech
begin

text \<open>
  \<open>realtime/llm.py\<close>: a user turn of a realtime session is routed to the agent and its answer is handed on as
  frames for speech. The turn coroutine and the pump of its segments run from one await to the next; a turn
  is cancelled from outside when the user interrupts. Frames pushed and completions reported are traces.
\<close>

section \<open>The context\<close>

datatype message_content = Plain string | Parts "string option list" | Other_content

record ctx_message =
  cm_role :: string
  cm_content :: message_content

fun join_words :: "string list \<Rightarrow> string" where
  "join_words [] = []"
| "join_words [w] = w"
| "join_words (w # ws) = w @ '' '' @ join_words ws"

text \<open>A part that is no dict is \<open>None\<close>, one without text is empty.\<close>

fun latest_of :: "ctx_message list \<Rightarrow> string" where
  "latest_of [] = []"
| "latest_of (m # ms) =
    (if cm_role m \<noteq> ''user'' then latest_of ms
     else case cm_content m of
       Plain t \<Rightarrow> strip t
     | Parts ps \<Rightarrow> strip (join_words (filter (\<lambda>t. t \<noteq> []) (List.map_filter (\<lambda>p. p) ps)))
     | Other_content \<Rightarrow> latest_of ms)"

definition latest_user_text :: "ctx_message list \<Rightarrow> string" where
  "latest_user_text ctx = latest_of (rev ctx)"

definition count_user_messages :: "ctx_message list \<Rightarrow> nat" where
  "count_user_messages ctx = length (filter (\<lambda>m. cm_role m = ''user'') ctx)"

section \<open>A turn\<close>

datatype llm_frame = Frame_start | Frame_text string | Frame_end bool | Frame_error string

datatype agent_item = Item_delta string | Item_end | Item_error string

datatype turn_phase = Reading | Closing | Turn_over | Turn_dropped

record llm_turn =
  lt_sentence :: bool
  lt_drained :: bool
  lt_seg :: segmenter
  lt_items :: "agent_item list"
  lt_out :: "string option list"
  lt_pump :: bool
  lt_frames :: "llm_frame list"
  lt_text :: string
  lt_error :: "string option"
  lt_cancelled :: bool
  lt_phase :: turn_phase
  lt_done :: "(bool \<times> string) list"

text \<open>What a turn finds when it is routed: the segmentation of the device, whether the session still wants it, whether
  the agent took the transcript, and whether the completion tracks the drain of the output\<close>

record turn_setup =
  ts_sentence :: bool
  ts_idle :: bool
  ts_pause :: int
  ts_retired :: bool
  ts_sent :: bool
  ts_drained :: bool

definition push_frame :: "llm_frame \<Rightarrow> llm_turn \<Rightarrow> llm_turn" where
  "push_frame f t = t\<lparr>lt_frames := lt_frames t @ [f]\<rparr>"

definition emit_segment :: "string \<Rightarrow> llm_turn \<Rightarrow> llm_turn" where
  "emit_segment raw t = (let spoken = strip_follow_up_tag_inline raw in
     if spoken = [] then t else t\<lparr>lt_out := lt_out t @ [Some spoken]\<rparr>)"

fun on_segmenter :: "segment_output \<Rightarrow> llm_turn \<Rightarrow> llm_turn" where
  "on_segmenter (Segment raw) t = emit_segment raw t"
| "on_segmenter (Stream_end final) t =
     (let u = (case final of None \<Rightarrow> t | Some raw \<Rightarrow> emit_segment raw t) in u\<lparr>lt_out := lt_out u @ [None]\<rparr>)"

text \<open>The turn once the pump has ended: the end of the response, then the error or the completion. An empty error
  message counts as no error here.\<close>

definition finish_turn :: "string \<Rightarrow> llm_turn \<Rightarrow> llm_turn" where
  "finish_turn mode t =
    (let u = push_frame (Frame_end (lt_drained t)) (t\<lparr>lt_phase := Turn_over\<rparr>) in
     if lt_cancelled t then u
     else case lt_error t of
       Some (c # e) \<Rightarrow> push_frame (Frame_error (c # e)) (u\<lparr>lt_done := lt_done u @ [(False, [])]\<rparr>)
     | _ \<Rightarrow> let r = resolve_follow_up (lt_text t) mode in u\<lparr>lt_done := lt_done u @ [(fu_follow r, fu_text r)]\<rparr>)"

text \<open>The \<open>finally\<close> up to the wait for the pump\<close>

definition close_turn :: "string \<Rightarrow> llm_turn \<Rightarrow> llm_turn" where
  "close_turn mode t =
    (if lt_sentence t then finish_turn mode t
     else
       let u = (if lt_error t \<noteq> None then t\<lparr>lt_seg := seg_abort (lt_seg t), lt_out := lt_out t @ [None]\<rparr> else t)
       in if lt_pump u then u\<lparr>lt_phase := Closing\<rparr> else finish_turn mode u)"

definition new_llm_turn :: "turn_setup \<Rightarrow> llm_turn" where
  "new_llm_turn S = \<lparr> lt_sentence = ts_sentence S, lt_drained = ts_drained S,
     lt_seg = new_segmenter (if ts_idle S then ts_pause S else 0), lt_items = [], lt_out = [],
     lt_pump = \<not> ts_sentence S, lt_frames = [Frame_start], lt_text = [], lt_error = None, lt_cancelled = False,
     lt_phase = Reading, lt_done = [] \<rparr>"

definition not_connected :: string where
  "not_connected = ''Active agent not connected (openclaw-direct is not supported in realtime)''"

definition begin_turn :: "string \<Rightarrow> turn_setup \<Rightarrow> llm_turn" where
  "begin_turn mode S = (if ts_sent S then new_llm_turn S else close_turn mode ((new_llm_turn S)\<lparr>lt_error := Some not_connected\<rparr>))"

text \<open>\<open>_run_turn\<close> up to its first read: the frames of a turn that is not routed, or the routed text and its turn;
  and the count of user messages that is remembered\<close>

datatype routed = Skipped "llm_frame list" | Retired "llm_frame list" | Routed string llm_turn

definition empty_response :: "llm_frame list" where
  "empty_response = [Frame_start, Frame_end False]"

definition run_turn :: "string \<Rightarrow> turn_setup \<Rightarrow> ctx_message list \<Rightarrow> nat \<Rightarrow> routed \<times> nat" where
  "run_turn mode S ctx known =
    (let said = latest_user_text ctx; n = count_user_messages ctx in
     if said = [] then (Skipped empty_response, known)
     else if n \<le> known then (Skipped empty_response, known)
     else if ts_retired S then (Retired [Frame_start, Frame_end False], n)
     else (Routed said (begin_turn mode S), n))"

definition take_item :: "string \<Rightarrow> time \<Rightarrow> llm_turn \<Rightarrow> llm_turn" where
  "take_item mode now t =
    (if lt_phase t \<noteq> Reading then t
     else case lt_items t of
       [] \<Rightarrow> t
     | Item_delta d # rest \<Rightarrow>
         let u = t\<lparr>lt_items := rest, lt_text := lt_text t @ d\<rparr> in
         if lt_sentence t then (let spoken = strip_follow_up_tag_inline d in if spoken = [] then u else push_frame (Frame_text spoken) u)
         else u\<lparr>lt_seg := seg_push now d (lt_seg u)\<rparr>
     | Item_end # rest \<Rightarrow>
         let u = t\<lparr>lt_items := rest\<rparr> in
         close_turn mode (if lt_sentence t then u
           else (case seg_end (lt_seg u) of (g, out) \<Rightarrow> fold on_segmenter out (u\<lparr>lt_seg := g\<rparr>)))
     | Item_error e # rest \<Rightarrow> close_turn mode (t\<lparr>lt_items := rest, lt_error := Some e\<rparr>))"

definition response_timeout :: "string \<Rightarrow> llm_turn \<Rightarrow> llm_turn" where
  "response_timeout mode t =
    (if lt_phase t \<noteq> Reading then t else close_turn mode (t\<lparr>lt_error := Some ''Agent response timeout after 300s''\<rparr>))"

definition idle_over :: "time \<Rightarrow> llm_turn \<Rightarrow> llm_turn" where
  "idle_over now t = (case seg_step (Idle_fires now) (lt_seg t) of (g, out) \<Rightarrow> fold on_segmenter out (t\<lparr>lt_seg := g\<rparr>))"

definition pump_segment :: "string \<Rightarrow> llm_turn \<Rightarrow> llm_turn" where
  "pump_segment mode t =
    (if \<not> lt_pump t then t
     else case lt_out t of
       [] \<Rightarrow> t
     | Some s # rest \<Rightarrow> push_frame (Frame_text s) (t\<lparr>lt_out := rest\<rparr>)
     | None # rest \<Rightarrow>
         let u = t\<lparr>lt_out := rest, lt_pump := False\<rparr> in
         if lt_phase t = Closing then finish_turn mode u else u)"

text \<open>An interruption cancels the turn in its wait: for the agent, and the \<open>finally\<close> runs; or for the pump, which
  is cancelled with it.\<close>

definition cancel_turn :: "string \<Rightarrow> llm_turn \<Rightarrow> llm_turn" where
  "cancel_turn mode t = (case lt_phase t of
     Reading \<Rightarrow> close_turn mode (t\<lparr>lt_cancelled := True\<rparr>)
   | Closing \<Rightarrow> t\<lparr>lt_cancelled := True, lt_phase := Turn_dropped, lt_pump := False\<rparr>
   | _ \<Rightarrow> t)"

datatype llm_event =
    Agent_says agent_item
  | Take_item time
  | Response_timeout
  | Idle_over time
  | Pump_runs
  | Cancelled

text \<open>The listener is registered until the \<open>finally\<close>.\<close>

fun llm_step :: "string \<Rightarrow> llm_event \<Rightarrow> llm_turn \<Rightarrow> llm_turn" where
  "llm_step mode (Agent_says i) t = (if lt_phase t = Reading then t\<lparr>lt_items := lt_items t @ [i]\<rparr> else t)"
| "llm_step mode (Take_item now) t = take_item mode now t"
| "llm_step mode Response_timeout t = response_timeout mode t"
| "llm_step mode (Idle_over now) t = idle_over now t"
| "llm_step mode Pump_runs t = pump_segment mode t"
| "llm_step mode Cancelled t = cancel_turn mode t"

definition llm_run :: "string \<Rightarrow> llm_event list \<Rightarrow> llm_turn \<Rightarrow> llm_turn" where
  "llm_run mode es t = fold (llm_step mode) es t"

lemma llm_run_simps [simp]:
  "llm_run mode [] t = t" "llm_run mode (e # es) t = llm_run mode es (llm_step mode e t)"
  by (simp_all add: llm_run_def)

section \<open>The shape of a turn\<close>

definition waiting_text :: "string option list \<Rightarrow> string list" where
  "waiting_text out = List.map_filter (\<lambda>x. x) out"

lemma waiting_text_simps [simp]:
  "waiting_text [] = []" "waiting_text (None # out) = waiting_text out" "waiting_text (Some t # out) = t # waiting_text out"
  "waiting_text (a @ b) = waiting_text a @ waiting_text b"
  by (simp_all add: waiting_text_def List.map_filter_def)

text \<open>What has been emitted by a turn without error: the texts pushed and waiting are those of the outputs of its
  segmentation so far, and the pump will see one end, after them.\<close>

definition whole_so_far :: "string list \<Rightarrow> llm_turn \<Rightarrow> bool" where
  "whole_so_far xs t \<longleftrightarrow> (\<exists>outs. xs @ waiting_text (lt_out t) = pushed outs
     \<and> lt_text t = output_text outs @ sg_buffer (lt_seg t)
     \<and> (lt_phase t = Reading \<longrightarrow> None \<notin> set (lt_out t) \<and> \<not> sg_ended (lt_seg t))
     \<and> (lt_phase t = Closing \<longrightarrow> sg_ended (lt_seg t) \<and> sg_buffer (lt_seg t) = [] \<and> (\<exists>ys. lt_out t = ys @ [None] \<and> None \<notin> set ys))
     \<and> (lt_phase t = Turn_over \<longrightarrow> sg_buffer (lt_seg t) = [] \<and> lt_out t = []))"

definition tail_of :: "bool \<Rightarrow> bool \<Rightarrow> string option \<Rightarrow> llm_frame list" where
  "tail_of drained cancelled error = Frame_end drained # (if cancelled then []
     else case error of Some (c # e) \<Rightarrow> [Frame_error (c # e)] | _ \<Rightarrow> [])"

definition result_of :: "string \<Rightarrow> bool \<Rightarrow> string option \<Rightarrow> string \<Rightarrow> (bool \<times> string) list" where
  "result_of mode cancelled error said = (if cancelled then []
     else case error of Some (c # e) \<Rightarrow> [(False, [])]
     | _ \<Rightarrow> [(fu_follow (resolve_follow_up said mode), fu_text (resolve_follow_up said mode))])"

abbreviation turn_tail :: "llm_turn \<Rightarrow> llm_frame list" where
  "turn_tail t \<equiv> tail_of (lt_drained t) (lt_cancelled t) (lt_error t)"

abbreviation turn_result :: "string \<Rightarrow> llm_turn \<Rightarrow> (bool \<times> string) list" where
  "turn_result mode t \<equiv> result_of mode (lt_cancelled t) (lt_error t) (lt_text t)"

definition turn_ok :: "string \<Rightarrow> llm_turn \<Rightarrow> bool" where
  "turn_ok mode t \<longleftrightarrow> (\<exists>xs. lt_frames t = Frame_start # map Frame_text xs @ (if lt_phase t = Turn_over then turn_tail t else [])
       \<and> (lt_error t = None \<and> \<not> lt_cancelled t \<longrightarrow> whole_so_far xs t))
     \<and> lt_done t = (if lt_phase t = Turn_over then turn_result mode t else [])
     \<and> (lt_phase t = Closing \<longrightarrow> lt_pump t)
     \<and> (lt_pump t = (\<not> lt_sentence t \<and> (lt_phase t = Reading \<or> lt_phase t = Closing)))
     \<and> (lt_sentence t \<longrightarrow> lt_out t = [] \<and> sg_buffer (lt_seg t) = [] \<and> lt_phase t \<noteq> Closing)
     \<and> (lt_phase t = Reading \<longrightarrow> \<not> lt_cancelled t \<and> lt_error t = None)
     \<and> (lt_phase t = Closing \<and> lt_error t \<noteq> None \<longrightarrow> None \<in> set (lt_out t) \<and> sg_ended (lt_seg t))
     \<and> (lt_phase t = Turn_dropped \<longrightarrow> lt_cancelled t)"

lemma turn_ok_new: "turn_ok mode (new_llm_turn S)"
  by (auto simp: turn_ok_def new_llm_turn_def whole_so_far_def new_segmenter_def intro!: exI [of _ "[]"])

lemma finish_turn_is:
  "finish_turn mode t = t\<lparr>lt_phase := Turn_over, lt_frames := lt_frames t @ turn_tail t, lt_done := lt_done t @ turn_result mode t\<rparr>"
  by (auto simp: finish_turn_def push_frame_def tail_of_def result_of_def Let_def split: option.split list.split)

lemma pushed_text_emit: "emit_segment raw t = t\<lparr>lt_out := lt_out t @ map Some (pushed_text raw)\<rparr>"
  by (simp add: emit_segment_def pushed_text_def strip_follow_up_tag_inline_def Let_def)

lemma waiting_text_map [simp]: "waiting_text (map Some ts) = ts"
  by (induction ts) auto

lemma on_segments_out:
  "fold on_segmenter out t = t\<lparr>lt_out := lt_out t @ concat (map (\<lambda>x. case x of Segment r \<Rightarrow> map Some (pushed_text r)
     | Stream_end f \<Rightarrow> (case f of None \<Rightarrow> [] | Some r \<Rightarrow> map Some (pushed_text r)) @ [None]) out)\<rparr>"
  by (induction out arbitrary: t) (auto simp: pushed_text_emit Let_def split: segment_output.split option.split)

lemma turn_ok_closed_error:
  assumes "turn_ok mode t" and "lt_phase t = Reading"
  shows "turn_ok mode (close_turn mode (t\<lparr>lt_items := items, lt_error := Some e\<rparr>))"
  using assms by (auto simp: turn_ok_def close_turn_def Let_def finish_turn_is seg_abort_def)

lemma turn_ok_cancel:
  assumes "turn_ok mode t"
  shows "turn_ok mode (cancel_turn mode t)"
  using assms by (auto simp: turn_ok_def cancel_turn_def close_turn_def Let_def finish_turn_is split: turn_phase.split)

lemma idle_fires_cases:
  "(\<exists>g. seg_step (Idle_fires now) h = (g, []) \<and> sg_buffer g = sg_buffer h \<and> sg_ended g = sg_ended h)
   \<or> (\<exists>g. seg_step (Idle_fires now) h = (g, [Segment (sg_buffer h)]) \<and> sg_buffer g = [] \<and> \<not> sg_ended g
        \<and> \<not> sg_ended h \<and> sg_buffer h \<noteq> [])"
  by (auto simp: seg_flush_def Let_def split: option.split)

lemma turn_ok_idle:
  assumes "turn_ok mode t"
  shows "turn_ok mode (idle_over now t)"
proof -
  from idle_fires_cases [of now "lt_seg t"] show ?thesis
  proof (elim disjE exE conjE)
    fix g
    assume g: "seg_step (Idle_fires now) (lt_seg t) = (g, [])" "sg_buffer g = sg_buffer (lt_seg t)" "sg_ended g = sg_ended (lt_seg t)"
    then have "idle_over now t = t\<lparr>lt_seg := g\<rparr>" by (simp add: idle_over_def)
    moreover have "whole_so_far xs (t\<lparr>lt_seg := g\<rparr>) = whole_so_far xs t" for xs
      using g(2,3) by (simp add: whole_so_far_def)
    ultimately show ?thesis using assms g(2,3) by (auto simp: turn_ok_def)
  next
    fix g
    assume g: "seg_step (Idle_fires now) (lt_seg t) = (g, [Segment (sg_buffer (lt_seg t))])" "sg_buffer g = []" "\<not> sg_ended g"
      "\<not> sg_ended (lt_seg t)" "sg_buffer (lt_seg t) \<noteq> []"
    let ?b = "sg_buffer (lt_seg t)"
    have i: "idle_over now t = t\<lparr>lt_seg := g, lt_out := lt_out t @ map Some (pushed_text ?b)\<rparr>"
      using g(1) by (simp add: idle_over_def pushed_text_emit)
    have "whole_so_far xs (idle_over now t)" if "whole_so_far xs t" for xs
    proof -
      from that obtain outs where "xs @ waiting_text (lt_out t) = pushed outs" "lt_text t = output_text outs @ ?b"
        by (auto simp: whole_so_far_def)
      then have "xs @ waiting_text (lt_out (idle_over now t)) = pushed (outs @ [Segment ?b])"
        "lt_text t = output_text (outs @ [Segment ?b]) @ sg_buffer g"
        using g(2) by (simp_all add: i pushed_append output_text_append)
      then show ?thesis using that g unfolding whole_so_far_def i
        by (intro exI [of _ "outs @ [Segment ?b]"]) auto
    qed
    moreover have "\<not> lt_sentence t" using assms g(5) by (auto simp: turn_ok_def)
    ultimately show ?thesis using assms g(4) by (auto simp: turn_ok_def i)
  qed
qed

lemma turn_ok_texts:
  "turn_ok mode t \<Longrightarrow> lt_phase t \<noteq> Turn_over \<Longrightarrow>
   \<exists>xs. lt_frames t = Frame_start # map Frame_text xs \<and> (lt_error t = None \<and> \<not> lt_cancelled t \<longrightarrow> whole_so_far xs t)"
  by (simp add: turn_ok_def)

lemma turn_ok_pump:
  assumes "turn_ok mode t"
  shows "turn_ok mode (pump_segment mode t)"
proof (cases "lt_pump t")
  case False
  then show ?thesis using assms by (simp add: pump_segment_def)
next
  case True
  then have ph: "lt_phase t = Reading \<or> lt_phase t = Closing" "\<not> lt_sentence t" using assms by (auto simp: turn_ok_def)
  have "lt_phase t \<noteq> Turn_over" using ph(1) by auto
  then obtain xs where xs: "lt_frames t = Frame_start # map Frame_text xs" "lt_error t = None \<and> \<not> lt_cancelled t \<longrightarrow> whole_so_far xs t"
    using turn_ok_texts [OF assms] by blast
  show ?thesis
  proof (cases "lt_out t")
    case Nil
    then show ?thesis using assms True by (simp add: pump_segment_def)
  next
    case (Cons x rest)
    show ?thesis
    proof (cases x)
      case (Some s)
      let ?u = "t\<lparr>lt_out := rest, lt_frames := lt_frames t @ [Frame_text s]\<rparr>"
      have p: "pump_segment mode t = ?u" using True Cons Some by (simp add: pump_segment_def push_frame_def)
      have "lt_error t = None \<and> \<not> lt_cancelled t \<longrightarrow> whole_so_far (xs @ [s]) ?u"
      proof
        assume "lt_error t = None \<and> \<not> lt_cancelled t"
        then have w: "whole_so_far xs t" using xs(2) by blast
        then have "lt_phase t = Closing \<Longrightarrow> \<exists>ys. rest = ys @ [None] \<and> None \<notin> set ys"
          using Cons Some by (auto simp: whole_so_far_def Cons_eq_append_conv)
        then show "whole_so_far (xs @ [s]) ?u" using w Cons Some ph by (auto simp: whole_so_far_def)
      qed
      then show ?thesis using assms ph xs(1) Cons Some unfolding p turn_ok_def
        by (auto intro!: exI [of _ "xs @ [s]"])
    next
      case None
      show ?thesis
      proof (cases "lt_phase t = Closing")
        case True
        have p: "pump_segment mode t = finish_turn mode (t\<lparr>lt_out := rest, lt_pump := False\<rparr>)"
          using \<open>lt_pump t\<close> Cons None True by (simp add: pump_segment_def Let_def)
        have "lt_error t = None \<and> \<not> lt_cancelled t \<longrightarrow> rest = [] \<and> whole_so_far xs (finish_turn mode (t\<lparr>lt_out := rest, lt_pump := False\<rparr>))"
          using xs(2) Cons None True by (auto simp: whole_so_far_def finish_turn_is append_eq_Cons_conv Cons_eq_append_conv)
        then show ?thesis using assms ph xs(1) True unfolding p turn_ok_def by (auto simp: finish_turn_is intro!: exI [of _ xs])
      next
        case False
        then have "lt_phase t = Reading" using ph by simp
        then have "whole_so_far xs t" using assms xs by (auto simp: turn_ok_def)
        then show ?thesis using Cons None \<open>lt_phase t = Reading\<close> by (simp add: whole_so_far_def)
      qed
    qed
  qed
qed

lemma turn_ok_reading:
  assumes "turn_ok mode t" and "lt_phase t = Reading"
  obtains xs outs where "lt_frames t = Frame_start # map Frame_text xs" "xs @ waiting_text (lt_out t) = pushed outs"
    "lt_text t = output_text outs @ sg_buffer (lt_seg t)" "None \<notin> set (lt_out t)" "\<not> sg_ended (lt_seg t)"
proof -
  obtain xs where xs: "lt_frames t = Frame_start # map Frame_text xs" "lt_error t = None \<and> \<not> lt_cancelled t \<longrightarrow> whole_so_far xs t"
    using turn_ok_texts [OF assms(1)] assms(2) by (metis turn_phase.distinct(3))
  moreover have "lt_error t = None \<and> \<not> lt_cancelled t" using assms by (simp add: turn_ok_def)
  ultimately show ?thesis using that assms(2) by (auto simp: whole_so_far_def)
qed

lemma turn_ok_delta:
  assumes "turn_ok mode t" and "lt_phase t = Reading" and "lt_items t = Item_delta d # rest"
  shows "turn_ok mode (take_item mode now t)"
proof -
  obtain xs outs where xs: "lt_frames t = Frame_start # map Frame_text xs" "xs @ waiting_text (lt_out t) = pushed outs"
    "lt_text t = output_text outs @ sg_buffer (lt_seg t)" "None \<notin> set (lt_out t)" "\<not> sg_ended (lt_seg t)"
    by (rule turn_ok_reading [OF assms(1,2)])
  show ?thesis
  proof (cases "lt_sentence t")
    case True
    then have t: "lt_out t = []" "sg_buffer (lt_seg t) = []" using assms(1) by (auto simp: turn_ok_def)
    have s: "take_item mode now t = t\<lparr>lt_items := rest, lt_text := lt_text t @ d, lt_frames := lt_frames t @ map Frame_text (pushed_text d)\<rparr>"
      using assms(2,3) True by (simp add: take_item_def push_frame_def pushed_text_def strip_follow_up_tag_inline_def Let_def)
    have "whole_so_far (xs @ pushed_text d) (take_item mode now t)"
      using xs t assms(2) unfolding whole_so_far_def s
      by (intro exI [of _ "outs @ [Segment d]"]) (simp add: pushed_append output_text_append)
    then show ?thesis using assms xs(1) True unfolding turn_ok_def s by (auto intro!: exI [of _ "xs @ pushed_text d"])
  next
    case False
    have s: "take_item mode now t = t\<lparr>lt_items := rest, lt_text := lt_text t @ d, lt_seg := seg_push now d (lt_seg t)\<rparr>"
      using assms(2,3) False by (simp add: take_item_def Let_def)
    have g: "sg_buffer (seg_push now d (lt_seg t)) = sg_buffer (lt_seg t) @ d" "\<not> sg_ended (seg_push now d (lt_seg t))"
      using xs(5) by (auto simp: seg_push_def Let_def)
    have "whole_so_far xs (take_item mode now t)"
      using xs assms(2) g unfolding whole_so_far_def s by (intro exI [of _ outs]) simp
    then show ?thesis using assms(1,2) xs(1) False unfolding turn_ok_def s by auto
  qed
qed

lemma turn_ok_end:
  assumes "turn_ok mode t" and "lt_phase t = Reading" and "lt_items t = Item_end # rest"
  shows "turn_ok mode (take_item mode now t)"
proof -
  obtain xs outs where xs: "lt_frames t = Frame_start # map Frame_text xs" "xs @ waiting_text (lt_out t) = pushed outs"
    "lt_text t = output_text outs @ sg_buffer (lt_seg t)" "None \<notin> set (lt_out t)" "\<not> sg_ended (lt_seg t)"
    by (rule turn_ok_reading [OF assms(1,2)])
  have t: "lt_error t = None" "lt_pump t = (\<not> lt_sentence t)" using assms(1,2) by (auto simp: turn_ok_def)
  show ?thesis
  proof (cases "lt_sentence t")
    case True
    then have o: "lt_out t = []" "sg_buffer (lt_seg t) = []" using assms(1) by (auto simp: turn_ok_def)
    have s: "take_item mode now t = finish_turn mode (t\<lparr>lt_items := rest\<rparr>)"
      using assms(2,3) True by (simp add: take_item_def close_turn_def Let_def)
    have "whole_so_far xs (take_item mode now t)"
      using xs o unfolding whole_so_far_def s by (intro exI [of _ outs]) (simp add: finish_turn_is)
    then show ?thesis using assms(1,2) xs(1) True unfolding turn_ok_def s by (auto simp: finish_turn_is intro!: exI [of _ xs])
  next
    case False
    define b where "b = sg_buffer (lt_seg t)"
    define final where "final = (if b = [] then None else Some b)"
    obtain g where g: "seg_end (lt_seg t) = (g, [Stream_end final])" "sg_ended g" "sg_buffer g = []"
      using xs(5) by (cases "b = []") (auto simp: seg_end_def Let_def final_def b_def)
    have s: "take_item mode now t = t\<lparr>lt_items := rest, lt_seg := g,
        lt_out := lt_out t @ (if b = [] then [] else map Some (pushed_text b)) @ [None], lt_phase := Closing\<rparr>"
      using assms(2,3) False t g(1) by (simp add: take_item_def close_turn_def Let_def final_def pushed_text_emit)
    have "whole_so_far xs (take_item mode now t)"
      using xs g unfolding whole_so_far_def s
      by (intro exI [of _ "outs @ [Stream_end final]"]) (auto simp: pushed_append output_text_append final_def b_def [symmetric])
    then show ?thesis using assms(1,2) xs(1) False t g unfolding turn_ok_def s by auto
  qed
qed

lemma turn_ok_step: "turn_ok mode t \<Longrightarrow> turn_ok mode (llm_step mode e t)"
proof (cases e)
  case (Agent_says i)
  assume "turn_ok mode t"
  moreover have "whole_so_far xs (t\<lparr>lt_items := items\<rparr>) = whole_so_far xs t" for xs items by (simp add: whole_so_far_def)
  ultimately show ?thesis using Agent_says by (auto simp: turn_ok_def)
next
  case (Take_item now)
  assume ok: "turn_ok mode t"
  have "turn_ok mode (take_item mode now t)"
  proof (cases "lt_phase t = Reading")
    case True
    show ?thesis
    proof (cases "lt_items t")
      case (Cons i rest)
      show ?thesis
      proof (cases i)
        case (Item_error m)
        have "turn_ok mode (close_turn mode (t\<lparr>lt_items := rest, lt_error := Some m\<rparr>))"
          by (rule turn_ok_closed_error [OF ok True])
        then show ?thesis using True Cons Item_error by (simp add: take_item_def)
      qed (use turn_ok_delta turn_ok_end ok True Cons in blast)+
    qed (use ok in \<open>simp add: take_item_def\<close>)
  qed (use ok in \<open>simp add: take_item_def\<close>)
  then show ?thesis using Take_item by simp
next
  case Response_timeout
  assume ok: "turn_ok mode t"
  show ?thesis using turn_ok_closed_error [OF ok, where items = "lt_items t"] ok Response_timeout
    by (simp add: response_timeout_def)
qed (simp_all add: turn_ok_cancel turn_ok_idle turn_ok_pump)

interpretation llm_turn: event_machine "llm_step mode" "turn_ok mode" for mode
  by unfold_locales (rule turn_ok_step)

lemma turn_ok_run: "turn_ok mode t \<Longrightarrow> turn_ok mode (llm_run mode es t)"
  unfolding llm_run_def by (rule llm_turn.every_run)

lemma turn_ok_begin: "turn_ok mode (begin_turn mode S)"
proof -
  have "turn_ok mode (close_turn mode ((new_llm_turn S)\<lparr>lt_items := [], lt_error := Some not_connected\<rparr>))"
    by (rule turn_ok_closed_error [OF turn_ok_new]) (simp add: new_llm_turn_def)
  moreover have "(new_llm_turn S)\<lparr>lt_items := [], lt_error := Some not_connected\<rparr> = (new_llm_turn S)\<lparr>lt_error := Some not_connected\<rparr>"
    by (simp add: new_llm_turn_def)
  ultimately show ?thesis using turn_ok_new by (auto simp: begin_turn_def)
qed

section \<open>What the agent said\<close>

fun items_said :: "llm_event list \<Rightarrow> agent_item list" where
  "items_said [] = []"
| "items_said (Agent_says i # es) = i # items_said es"
| "items_said (_ # es) = items_said es"

definition said_ok :: "agent_item list \<Rightarrow> llm_turn \<Rightarrow> bool" where
  "said_ok said t \<longleftrightarrow>
     (lt_phase t = Reading \<longrightarrow> (\<exists>ds. said = map Item_delta ds @ lt_items t \<and> lt_text t = concat ds))
   \<and> (lt_phase t \<noteq> Reading \<and> lt_error t = None \<and> \<not> lt_cancelled t \<longrightarrow>
        (\<exists>ds rest. said = map Item_delta ds @ Item_end # rest \<and> lt_text t = concat ds))"

lemma emit_frame [simp]:
  "lt_phase (fold on_segmenter out t) = lt_phase t" "lt_items (fold on_segmenter out t) = lt_items t"
  "lt_text (fold on_segmenter out t) = lt_text t" "lt_error (fold on_segmenter out t) = lt_error t"
  "lt_cancelled (fold on_segmenter out t) = lt_cancelled t" "lt_drained (fold on_segmenter out t) = lt_drained t"
  "lt_sentence (fold on_segmenter out t) = lt_sentence t" "lt_pump (fold on_segmenter out t) = lt_pump t"
  by (simp_all add: on_segments_out)

lemma push_frame_simps [simp]:
  "lt_phase (push_frame f t) = lt_phase t" "lt_items (push_frame f t) = lt_items t" "lt_text (push_frame f t) = lt_text t"
  "lt_error (push_frame f t) = lt_error t" "lt_cancelled (push_frame f t) = lt_cancelled t" "lt_drained (push_frame f t) = lt_drained t"
  by (simp_all add: push_frame_def)

lemma close_turn_frame [simp]:
  "lt_phase (close_turn mode t) \<noteq> Reading" "lt_text (close_turn mode t) = lt_text t" "lt_error (close_turn mode t) = lt_error t"
  "lt_cancelled (close_turn mode t) = lt_cancelled t" "lt_drained (close_turn mode t) = lt_drained t"
  by (simp_all add: close_turn_def finish_turn_is Let_def)

lemma drained_step: "lt_drained (llm_step mode e t) = lt_drained t"
  by (cases e) (auto simp: take_item_def response_timeout_def idle_over_def pump_segment_def cancel_turn_def finish_turn_is Let_def
      split: list.split agent_item.split turn_phase.split prod.split option.split)

lemma drained_run: "lt_drained (llm_run mode es t) = lt_drained t"
  by (induction es arbitrary: t) (simp_all add: drained_step)

lemma said_ok_take:
  assumes "said_ok said t"
  shows "said_ok said (take_item mode now t)"
proof (cases "lt_phase t = Reading")
  case True
  then obtain ds where ds: "said = map Item_delta ds @ lt_items t" "lt_text t = concat ds" using assms by (auto simp: said_ok_def)
  show ?thesis
  proof (cases "lt_items t")
    case Nil
    then show ?thesis using assms by (simp add: take_item_def)
  next
    case (Cons i rest)
    show ?thesis
    proof (cases i)
      case (Item_delta d)
      have "lt_phase (take_item mode now t) = Reading" "lt_items (take_item mode now t) = rest" "lt_text (take_item mode now t) = concat (ds @ [d])"
        using True Cons Item_delta ds(2) by (simp_all add: take_item_def Let_def)
      moreover have "said = map Item_delta (ds @ [d]) @ rest" using ds(1) Cons Item_delta by simp
      ultimately show ?thesis unfolding said_ok_def by blast
    next
      case Item_end
      then have "lt_phase (take_item mode now t) \<noteq> Reading" "lt_text (take_item mode now t) = concat ds"
        using True Cons ds(2) by (simp_all add: take_item_def Let_def split: prod.split)
      then show ?thesis using ds(1) Cons Item_end unfolding said_ok_def by blast
    next
      case (Item_error e)
      then have "lt_phase (take_item mode now t) \<noteq> Reading" "lt_error (take_item mode now t) = Some e"
        using True Cons by (simp_all add: take_item_def)
      then show ?thesis by (simp add: said_ok_def)
    qed
  qed
qed (use assms in \<open>simp add: take_item_def\<close>)

lemma said_ok_step: "said_ok said t \<Longrightarrow> said_ok (said @ items_said [e]) (llm_step mode e t)"
proof (cases e)
  case (Agent_says i)
  assume ok: "said_ok said t"
  show ?thesis
  proof (cases "lt_phase t = Reading")
    case False
    have "\<exists>ds' rest'. (map Item_delta ds @ Item_end # rest) @ [i] = map Item_delta ds' @ Item_end # rest' \<and> concat ds = concat ds'" for ds rest
      by (intro exI [of _ ds] exI [of _ "rest @ [i]"]) simp
    then show ?thesis using ok Agent_says False unfolding said_ok_def by fastforce
  qed (use ok Agent_says in \<open>auto simp: said_ok_def\<close>)
next
  case (Pump_runs)
  assume "said_ok said t"
  then show ?thesis using Pump_runs
    by (auto simp: said_ok_def pump_segment_def finish_turn_is Let_def split: list.split option.split)
qed (auto simp: said_ok_take, auto simp: said_ok_def response_timeout_def idle_over_def cancel_turn_def split: turn_phase.split prod.split)

lemma said_ok_run: "said_ok said t \<Longrightarrow> said_ok (said @ items_said es) (llm_run mode es t)"
proof (induction es arbitrary: said t)
  case (Cons e es)
  have "said_ok ((said @ items_said [e]) @ items_said es) (llm_run mode es (llm_step mode e t))"
    by (rule Cons.IH) (rule said_ok_step [OF Cons.prems])
  moreover have "items_said (e # es) = items_said [e] @ items_said es" by (cases e) auto
  ultimately show ?case by simp
qed simp

section \<open>A reply is handed on whole\<close>


definition demo_setup :: turn_setup where
  "demo_setup = \<lparr> ts_sentence = False, ts_idle = True, ts_pause = 1000, ts_retired = False, ts_sent = True, ts_drained = True \<rparr>"

definition demo_llm :: "llm_event list" where
  "demo_llm = [Agent_says (Item_delta ''Hello ''), Take_item 0, Idle_over 2, Agent_says (Item_delta ''you''), Pump_runs,
     Take_item 3, Agent_says Item_end, Take_item 4, Pump_runs, Pump_runs]"


section \<open>A turn ends, unless it is interrupted\<close>

lemma pump_drains:
  assumes "lt_phase t = Closing" and "lt_pump t" and "None \<in> set (lt_out t)"
  shows "lt_phase (llm_run mode (replicate (length (lt_out t)) Pump_runs) t) = Turn_over"
  using assms
proof (induction "lt_out t" arbitrary: t)
  case (Cons x rest)
  have over: "lt_phase (llm_run mode (replicate n Pump_runs) u) = Turn_over" if "lt_phase u = Turn_over" "\<not> lt_pump u" for n u
    using that by (induction n) (simp_all add: pump_segment_def)
  show ?case
  proof (cases x)
    case None
    then have "lt_phase (pump_segment mode t) = Turn_over" "\<not> lt_pump (pump_segment mode t)"
      using Cons.prems Cons.hyps(2) [symmetric] by (simp_all add: pump_segment_def finish_turn_is Let_def)
    then show ?thesis using Cons.hyps(2) [symmetric] over by simp
  next
    case (Some s)
    let ?u = "push_frame (Frame_text s) (t\<lparr>lt_out := rest\<rparr>)"
    have "pump_segment mode t = ?u" using Cons.prems Cons.hyps(2) [symmetric] Some by (simp add: pump_segment_def)
    moreover have "lt_phase (llm_run mode (replicate (length (lt_out ?u)) Pump_runs) ?u) = Turn_over"
      using Cons.hyps(1) [of ?u] Cons.hyps(2) [symmetric] Cons.prems Some by (simp add: push_frame_def)
    ultimately show ?thesis using Cons.hyps(2) [symmetric] by (simp add: push_frame_def)
  qed
qed simp

lemma pump_finds_end:
  assumes "turn_ok mode t" and "lt_phase t = Closing" and "\<not> lt_cancelled t"
  shows "None \<in> set (lt_out t)"
proof (cases "lt_error t")
  case None
  obtain xs where "lt_error t = None \<and> \<not> lt_cancelled t \<longrightarrow> whole_so_far xs t"
    using turn_ok_texts [OF assms(1)] assms(2) by auto
  then show ?thesis using assms(2,3) None by (auto simp: whole_so_far_def)
next
  case (Some e)
  then show ?thesis using assms by (simp add: turn_ok_def)
qed

text \<open>C27: A realtime turn that is not interrupted always ends: whatever the agent says or does not say, once the answer is
  too late the pump needs as many turns as segments wait. Then one end has been pushed after the start and the texts,
  followed by the error if there was one, and the completion has been reported exactly once.\<close>

theorem uninterrupted_turn_ends:
  assumes "t = llm_run mode es (begin_turn mode S)" and "\<not> lt_cancelled t"
    and "u = llm_step mode Response_timeout t"
    and "v = llm_run mode (replicate (length (lt_out u)) Pump_runs) u"
  shows "lt_phase v = Turn_over \<and> length (lt_done v) = 1
    \<and> (\<exists>texts. lt_frames v = Frame_start # map Frame_text texts @ turn_tail v)"
proof -
  have ok: "turn_ok mode t" unfolding assms(1) by (intro turn_ok_run turn_ok_begin)
  have cancelled: "\<not> lt_cancelled u" using assms(2) by (simp add: assms(3) response_timeout_def)
  have oku: "turn_ok mode u" unfolding assms(3) by (rule turn_ok_step [OF ok])
  have keep: "lt_cancelled (llm_run mode (replicate n Pump_runs) w) = lt_cancelled w" for n w
    by (induction n arbitrary: w) (auto simp: pump_segment_def finish_turn_is Let_def split: list.split option.split)
  have "lt_phase u \<noteq> Reading" by (simp add: assms(3) response_timeout_def)
  moreover have "lt_phase u \<noteq> Turn_dropped" using oku cancelled by (simp add: turn_ok_def)
  ultimately consider "lt_phase u = Closing" | "lt_phase u = Turn_over" by (cases "lt_phase u") auto
  then have over: "lt_phase v = Turn_over"
  proof cases
    case 1
    then have "lt_pump u" using oku by (simp add: turn_ok_def)
    then show ?thesis unfolding assms(4) using pump_drains [OF 1] pump_finds_end [OF oku 1 cancelled] by blast
  next
    case 2
    then have "\<not> lt_pump u" using oku by (simp add: turn_ok_def)
    then have "llm_run mode (replicate n Pump_runs) u = u" for n by (induction n) (simp_all add: pump_segment_def)
    then show ?thesis using 2 by (simp add: assms(4))
  qed
  have "turn_ok mode v" unfolding assms(4) by (rule turn_ok_run [OF oku])
  moreover have "\<not> lt_cancelled v" using cancelled by (simp add: assms(4) keep)
  ultimately show ?thesis using over by (auto simp: turn_ok_def result_of_def split: option.split list.split)
qed

lemma uninterrupted_turn_ends_witness:
  "\<exists>u. u = llm_step ''auto'' Response_timeout (llm_run ''auto'' [Agent_says (Item_delta ''Hel''), Take_item 0] (begin_turn ''auto'' demo_setup))
     \<and> lt_phase (llm_run ''auto'' (replicate (length (lt_out u)) Pump_runs) u) = Turn_over"
proof -
  let ?t = "llm_run ''auto'' [Agent_says (Item_delta ''Hel''), Take_item 0] (begin_turn ''auto'' demo_setup)"
  have "\<not> lt_cancelled ?t" by code_simp
  then show ?thesis using uninterrupted_turn_ends [OF refl _ refl refl, of "''auto''" _ demo_setup] by blast
qed

section \<open>An interrupted turn does not\<close>

text \<open>A turn whose pump waits for an end that nobody will send\<close>

definition hangs :: "llm_turn \<Rightarrow> bool" where
  "hangs t \<longleftrightarrow> lt_phase t = Closing \<and> lt_pump t \<and> \<not> sg_ended (lt_seg t) \<and> None \<notin> set (lt_out t)
     \<and> (\<forall>b. Frame_end b \<notin> set (lt_frames t)) \<and> lt_done t = []"

lemma hangs_step: "hangs t \<Longrightarrow> e \<noteq> Cancelled \<Longrightarrow> hangs (llm_step mode e t)"
proof (cases e)
  case (Idle_over now)
  assume "hangs t"
  then show ?thesis using Idle_over idle_fires_cases [of now "lt_seg t"]
    by (elim disjE exE conjE) (auto simp: hangs_def idle_over_def pushed_text_emit)
next
  case Pump_runs
  assume "hangs t"
  then show ?thesis using Pump_runs
    by (auto simp: hangs_def pump_segment_def push_frame_def split: list.split option.split)
qed (auto simp: hangs_def take_item_def response_timeout_def)

lemma hangs_run: "hangs t \<Longrightarrow> Cancelled \<notin> set es \<Longrightarrow> hangs (llm_run mode es t)"
  by (induction es arbitrary: t) (auto simp: hangs_step)

text \<open>An interruption leaves a turn hanging. When a turn whose segments a pump hands on is cancelled while it waits for
  the agent, its clean-up waits for a pump that nobody ends: unless it is cancelled once more, no event brings it to
  its end, the end of the response is never pushed and no completion is reported.\<close>

theorem interrupted_turn_hangs:
  assumes "t = llm_run mode es (begin_turn mode S)" and "lt_phase t = Reading" and "\<not> lt_sentence t"
    and "Cancelled \<notin> set later" and "u = llm_run mode (Cancelled # later) t"
  shows "lt_phase u = Closing \<and> (\<forall>b. Frame_end b \<notin> set (lt_frames u)) \<and> lt_done u = []"
proof -
  have ok: "turn_ok mode t" unfolding assms(1) by (intro turn_ok_run turn_ok_begin)
  obtain xs outs where f: "lt_frames t = Frame_start # map Frame_text xs" "None \<notin> set (lt_out t)" "\<not> sg_ended (lt_seg t)"
    using turn_ok_reading [OF ok assms(2)] by metis
  have p: "lt_pump t" "lt_error t = None" "lt_done t = []" using ok assms(2,3) by (simp_all add: turn_ok_def)
  have "hangs (llm_step mode Cancelled t)"
    using f p assms(2,3) by (auto simp: hangs_def cancel_turn_def close_turn_def Let_def)
  then show ?thesis using hangs_run [OF _ assms(4)] by (auto simp: assms(5) hangs_def)
qed

lemma interrupted_turn_hangs_witness:
  "lt_phase (llm_run ''auto'' (Cancelled # [Agent_says Item_end, Take_item 5, Response_timeout, Idle_over 9, Pump_runs, Pump_runs])
     (llm_run ''auto'' [Agent_says (Item_delta ''Hel''), Take_item 0] (begin_turn ''auto'' demo_setup))) = Closing"
proof -
  let ?t = "llm_run ''auto'' [Agent_says (Item_delta ''Hel''), Take_item 0] (begin_turn ''auto'' demo_setup)"
  have t: "lt_phase ?t = Reading" "\<not> lt_sentence ?t" by (code_simp, code_simp)
  have "Cancelled \<notin> set [Agent_says Item_end, Take_item 5, Response_timeout, Idle_over 9, Pump_runs, Pump_runs]" by simp
  from interrupted_turn_hangs [OF refl t this refl] show ?thesis by (rule conjunct1)
qed

text \<open>The tag is removed from each delta on its own when sentences are cut downstream: two halves of it are spoken.\<close>

lemma split_tag_is_pushed:
  "lt_frames (llm_run ''auto'' [Agent_says (Item_delta ''[[follow''), Agent_says (Item_delta ''_up]]''), Agent_says Item_end,
      Take_item 0, Take_item 0, Take_item 0] (new_llm_turn (demo_setup\<lparr>ts_sentence := True\<rparr>)))
   = [Frame_start, Frame_text ''[[follow'', Frame_text ''_up]]'', Frame_end True]"
  by code_simp

text \<open>An error of the agent with an empty message completes the turn as if the reply had ended.\<close>

lemma empty_error_is_an_end:
  "lt_done (llm_run ''never'' [Agent_says (Item_delta ''Half''), Agent_says (Item_error []), Take_item 0, Take_item 0, Pump_runs]
     (new_llm_turn demo_setup)) = [(False, ''Half'')]"
  by code_simp

section \<open>Each user message is routed once\<close>

lemma routed_is_new:
  "run_turn mode S ctx known = (Routed said t, n) \<Longrightarrow> known < n \<and> n = count_user_messages ctx \<and> said = latest_user_text ctx \<and> said \<noteq> []"
  by (auto simp: run_turn_def Let_def split: if_splits)

lemma skipped_is_balanced:
  "run_turn mode S ctx known = (Skipped fs, n) \<Longrightarrow> fs = [Frame_start, Frame_end False] \<and> n = known"
  by (auto simp: run_turn_def Let_def empty_response_def split: if_splits)

end
