(* ===== verification/Webhooks.thy ===== *)
theory Webhooks
  imports Device_Laws Wire_Text
begin

text \<open>
  \<open>web/webhooks.py\<close>: the named webhooks of \<open>webhooks.json\<close>. The fresh ID of a new webhook is an argument, the
  outcomes of the writes come from \<open>hk_faults\<close>, and what \<open>urlparse\<close> and \<open>json.loads\<close> make of a text are parameters.
\<close>

record webhook =
  wh_id :: string
  wh_name :: string
  wh_url :: string
  wh_auth :: string
  wh_body :: "json option"

record hook_state =
  hk_file :: doc_file
  hk_list :: "webhook list"
  hk_loaded :: bool
  hk_faults :: "write_outcome list"

type_synonym 'a hook_op = "(hook_state, exn, 'a) action"

definition no_hooks :: hook_state where
  "no_hooks = \<lparr> hk_file = No_file, hk_list = [], hk_loaded = False, hk_faults = [] \<rparr>"

section \<open>The file\<close>

text \<open>An empty authorization and an empty or absent body are left out.\<close>

definition body_given :: "webhook \<Rightarrow> bool" where
  "body_given h \<longleftrightarrow> (case wh_body h of None \<Rightarrow> False | Some b \<Rightarrow> truthy b)"

definition saved_hook :: "webhook \<Rightarrow> json" where
  "saved_hook h = JObj ([(''id'', JStr (wh_id h)), (''name'', JStr (wh_name h)), (''url'', JStr (wh_url h))]
     @ (if wh_auth h = [] then [] else [(''authorization'', JStr (wh_auth h))])
     @ (case wh_body h of Some b \<Rightarrow> (if truthy b then [(''body'', b)] else []) | None \<Rightarrow> []))"

definition saved_hooks :: "webhook list \<Rightarrow> json" where
  "saved_hooks hs = JObj [(''webhooks'', JList (map saved_hook hs))]"

definition hook_outcome :: "hook_state \<Rightarrow> write_outcome" where
  "hook_outcome s = (case hk_faults s of [] \<Rightarrow> Write_ok | oc # _ \<Rightarrow> oc)"

definition save_hooks :: "unit hook_op" where
  "save_hooks = (\<lambda>s. case write_json (hook_outcome s) (hk_file s) (saved_hooks (hk_list s)) of
     (r, f) \<Rightarrow> (r, s\<lparr>hk_file := f, hk_faults := tl (hk_faults s)\<rparr>))"

text \<open>An entry without the three texts is skipped.\<close>

definition read_hook :: "json \<Rightarrow> webhook option" where
  "read_hook item = (case (jget item ''id'', jget item ''name'', jget item ''url'') of
     (Some (JStr i), Some (JStr n), Some (JStr u)) \<Rightarrow>
       Some \<lparr> wh_id = i, wh_name = n, wh_url = u,
         wh_auth = (case jget item ''authorization'' of Some (JStr a) \<Rightarrow> a | _ \<Rightarrow> []),
         wh_body = (case jget item ''body'' of Some (JObj b) \<Rightarrow> Some (JObj b) | _ \<Rightarrow> None) \<rparr>
   | _ \<Rightarrow> None)"

definition hook_entries :: "json option \<Rightarrow> json list" where
  "hook_entries raw = (case raw of
     Some (JList xs) \<Rightarrow> xs
   | Some j \<Rightarrow> (case jget j ''webhooks'' of Some (JList xs) \<Rightarrow> xs | _ \<Rightarrow> [])
   | None \<Rightarrow> [])"

definition read_hooks :: "doc_file \<Rightarrow> exn + webhook list" where
  "read_hooks f = (case load_lenient f of
     Inl e \<Rightarrow> Inl e
   | Inr raw \<Rightarrow> Inr (List.map_filter read_hook (hook_entries raw)))"

definition load_hooks :: "unit hook_op" where
  "load_hooks = bnd (reads (\<lambda>s. read_hooks (hk_file s))) (\<lambda>r. bnd (lift_result r) (\<lambda>hs.
     modifies (\<lambda>s. s\<lparr>hk_list := hs, hk_loaded := True\<rparr>)))"

definition ensure_hooks :: "unit hook_op" where
  "ensure_hooks = bnd (reads hk_loaded) (\<lambda>loaded. when_do (\<not> loaded) load_hooks)"

section \<open>Operations\<close>

definition all_hooks :: "webhook list hook_op" where
  "all_hooks = andthen ensure_hooks (reads hk_list)"

definition find_hook :: "string \<Rightarrow> webhook list \<Rightarrow> webhook option" where
  "find_hook i hs = find (\<lambda>h. wh_id h = i) hs"

definition get_hook :: "string \<Rightarrow> webhook option hook_op" where
  "get_hook i = andthen ensure_hooks (reads (\<lambda>s. find_hook i (hk_list s)))"

definition validate_url :: "(string \<Rightarrow> string \<times> string) \<Rightarrow> string \<Rightarrow> bool" where
  "validate_url urlparse u = (case urlparse u of (scheme, netloc) \<Rightarrow>
     scheme \<in> {''http'', ''https''} \<and> netloc \<noteq> [])"

definition parse_body :: "(string \<Rightarrow> json option) \<Rightarrow> json \<Rightarrow> string + json option" where
  "parse_body loads v =
    (let object = (\<lambda>j. if is_obj j then Inr (Some j) else Inl ''body must be a JSON object'') in
     case v of
       JNull \<Rightarrow> Inr None
     | JStr t \<Rightarrow> if strip t = [] then Inr None
         else (case loads t of None \<Rightarrow> Inl ''body must be valid JSON'' | Some j \<Rightarrow> object j)
     | _ \<Rightarrow> object v)"

definition create_hook :: "string \<Rightarrow> string \<Rightarrow> string \<Rightarrow> string \<Rightarrow> json option \<Rightarrow> webhook hook_op" where
  "create_hook i name url auth body =
    (let h = \<lparr> wh_id = i, wh_name = strip name, wh_url = strip url, wh_auth = strip auth, wh_body = body \<rparr> in
     andthen ensure_hooks (andthen (modifies (\<lambda>s. s\<lparr>hk_list := hk_list s @ [h]\<rparr>)) (andthen save_hooks (ret h))))"

text \<open>\<open>None\<close> leaves a field as it is; the body is patched with a value or cleared.\<close>

definition patched :: "string option \<Rightarrow> string option \<Rightarrow> string option \<Rightarrow> json option option \<Rightarrow> webhook \<Rightarrow> webhook" where
  "patched name url auth body h = h\<lparr>
     wh_name := (case name of None \<Rightarrow> wh_name h | Some t \<Rightarrow> strip t),
     wh_url := (case url of None \<Rightarrow> wh_url h | Some t \<Rightarrow> strip t),
     wh_auth := (case auth of None \<Rightarrow> wh_auth h | Some t \<Rightarrow> strip t),
     wh_body := (case body of None \<Rightarrow> wh_body h | Some b \<Rightarrow> b)\<rparr>"

fun change_first :: "string \<Rightarrow> (webhook \<Rightarrow> webhook) \<Rightarrow> webhook list \<Rightarrow> webhook list" where
  "change_first i f [] = []"
| "change_first i f (h # hs) = (if wh_id h = i then f h # hs else h # change_first i f hs)"

definition update_hook :: "string \<Rightarrow> string option \<Rightarrow> string option \<Rightarrow> string option \<Rightarrow> json option option \<Rightarrow> webhook option hook_op" where
  "update_hook i name url auth body =
     bnd (get_hook i) (\<lambda>found. case found of
       None \<Rightarrow> ret None
     | Some h \<Rightarrow> andthen (modifies (\<lambda>s. s\<lparr>hk_list := change_first i (patched name url auth body) (hk_list s)\<rparr>))
         (andthen save_hooks (ret (Some (patched name url auth body h)))))"

definition remove_hook :: "string \<Rightarrow> bool hook_op" where
  "remove_hook i = andthen ensure_hooks (bnd (reads (\<lambda>s. length (hk_list s))) (\<lambda>before.
     andthen (modifies (\<lambda>s. s\<lparr>hk_list := filter (\<lambda>h. wh_id h \<noteq> i) (hk_list s)\<rparr>))
     (bnd (reads (\<lambda>s. length (hk_list s))) (\<lambda>now.
        if now = before then ret False else andthen save_hooks (ret True)))))"

section \<open>Copies\<close>

definition copy_name :: "string \<Rightarrow> nat \<Rightarrow> string" where
  "copy_name name n = name @ '' copy '' @ int_text (int n)"

lemma copy_name_inj: "copy_name name m = copy_name name n \<longleftrightarrow> m = n"
  by (auto simp: copy_name_def dest: int_text_inj)

text \<open>The loop of \<open>_unique_copy_name\<close> ends because the names in use are finitely many.\<close>

function free_copy :: "string \<Rightarrow> string list \<Rightarrow> nat \<Rightarrow> string" where
  "free_copy name taken n = (if copy_name name n \<notin> set taken then copy_name name n else free_copy name taken (Suc n))"
  by auto
termination
proof (relation "measure (\<lambda>(name, taken, n). card {m. n \<le> m \<and> copy_name name m \<in> set taken})")
  fix name n and taken :: "string list"
  assume "\<not> copy_name name n \<notin> set taken"
  then have "{m. n \<le> m \<and> copy_name name m \<in> set taken} = insert n {m. Suc n \<le> m \<and> copy_name name m \<in> set taken}"
    by (auto simp: Suc_le_eq le_less)
  moreover have "finite {m. Suc n \<le> m \<and> copy_name name m \<in> set taken}"
    by (rule finite_subset [OF _ finite_vimageI [of "set taken" "copy_name name"]])
      (auto simp: inj_def copy_name_inj)
  ultimately show "((name, taken, Suc n), name, taken, n) \<in> measure (\<lambda>(name, taken, n). card {m. n \<le> m \<and> copy_name name m \<in> set taken})"
    by simp
qed simp

declare free_copy.simps [simp del]

definition unique_copy_name :: "string \<Rightarrow> string list \<Rightarrow> string" where
  "unique_copy_name name taken = (if name @ '' copy'' \<notin> set taken then name @ '' copy'' else free_copy name taken 2)"

definition duplicate_hook :: "string \<Rightarrow> string \<Rightarrow> webhook option hook_op" where
  "duplicate_hook fresh i = bnd (get_hook i) (\<lambda>found. case found of
     None \<Rightarrow> ret None
   | Some h \<Rightarrow> bnd (reads (\<lambda>s. unique_copy_name (wh_name h) (map wh_name (hk_list s)))) (\<lambda>name.
       bnd (create_hook fresh name (wh_url h) (wh_auth h) (wh_body h)) (\<lambda>c. ret (Some c))))"

text \<open>What the HTTP API shows\<close>

definition public_hook :: "webhook \<Rightarrow> json" where
  "public_hook h = JObj [(''id'', JStr (wh_id h)), (''name'', JStr (wh_name h)), (''has_url'', JBool (wh_url h \<noteq> [])),
     (''has_authorization'', JBool (wh_auth h \<noteq> [])), (''has_body'', JBool (body_given h))]"

lemma free_copy_free: "free_copy name taken n \<notin> set taken \<and> (\<exists>m \<ge> n. free_copy name taken n = copy_name name m)"
proof (induction name taken n rule: free_copy.induct)
  case (1 name taken n)
  then show ?case
    by (cases "copy_name name n \<in> set taken") (auto simp: free_copy.simps [of name taken n] dest: Suc_leD)
qed

lemma unique_copy_name_free: "unique_copy_name name taken \<notin> set taken"
  using free_copy_free [of name taken 2] by (simp add: unique_copy_name_def)

section \<open>What a restart reads\<close>

definition hook_ok :: "webhook \<Rightarrow> bool" where
  "hook_ok h \<longleftrightarrow> (case wh_body h of None \<Rightarrow> True | Some b \<Rightarrow> is_obj b \<and> unique_json b)"

text \<open>An empty body is no body.\<close>

definition normal_hook :: "webhook \<Rightarrow> webhook" where
  "normal_hook h = (if body_given h then h else h\<lparr>wh_body := None\<rparr>)"

lemma unique_last_wins: "unique_json (last_wins j)"
proof (induction j rule: last_wins.induct)
  case (1 kvs)
  have "is_dict (fold (\<lambda>(k, v). dict_put k v) xs d) \<and> (\<forall>kv \<in> set (fold (\<lambda>(k, v). dict_put k v) xs d). unique_json (snd kv))"
    if "is_dict d" "\<forall>kv \<in> set d. unique_json (snd kv)" "\<forall>kv \<in> set xs. unique_json (snd kv)" for xs and d :: "(string, json) dict"
    using that
  proof (induction xs arbitrary: d)
    case (Cons x xs)
    have "\<forall>kv \<in> set (dict_put (fst x) (snd x) d). unique_json (snd kv)"
      using Cons.prems set_dict_put [of "fst x" "snd x" d] by auto
    then show ?case using Cons.IH [of "dict_put (fst x) (snd x) d"] Cons.prems by (simp add: case_prod_beta)
  qed simp
  moreover have "\<forall>kv \<in> set (map (\<lambda>(k, v). (k, last_wins v)) kvs). unique_json (snd kv)" using 1 by auto
  ultimately have "is_dict (fold (\<lambda>(k, v). dict_put k v) (map (\<lambda>(k, v). (k, last_wins v)) kvs) [])
    \<and> (\<forall>kv \<in> set (fold (\<lambda>(k, v). dict_put k v) (map (\<lambda>(k, v). (k, last_wins v)) kvs) []). unique_json (snd kv))"
    by (metis empty_iff empty_set is_dict_empty)
  then show ?case by (simp only: last_wins.simps unique_json.simps is_dict_def dict_keys_def) simp
qed auto

lemma unique_fields: "unique_json j \<Longrightarrow> jget j k = Some v \<Longrightarrow> unique_json v"
  by (cases j) (auto dest: map_of_SomeD)

lemma read_hook_ok: "unique_json item \<Longrightarrow> read_hook item = Some h \<Longrightarrow> hook_ok h"
  by (auto simp: read_hook_def hook_ok_def split: option.splits json.splits dest: unique_fields)

lemma entry_unique: "unique_json j \<Longrightarrow> x \<in> set (hook_entries (Some j)) \<Longrightarrow> unique_json x"
proof (cases j)
  case (JObj kvs)
  assume j: "unique_json j" and x: "x \<in> set (hook_entries (Some j))"
  then obtain v where v: "jget j ''webhooks'' = Some v" using JObj by (cases "jget j ''webhooks''") (auto simp: hook_entries_def)
  then have "unique_json v" using unique_fields j by blast
  then show ?thesis using x v JObj by (cases v) (auto simp: hook_entries_def)
qed (auto simp: hook_entries_def)

lemma read_hooks_ok:
  assumes "read_hooks f = Inr hs"
  shows "list_all hook_ok hs"
proof -
  obtain raw where raw: "load_lenient f = Inr raw" "hs = List.map_filter read_hook (hook_entries raw)"
    using assms by (auto simp: read_hooks_def split: sum.splits)
  have "unique_json j" if "raw = Some j" for j
    using raw(1) that unique_last_wins by (auto simp: load_lenient_def split: doc_file.splits)
  then have "\<forall>x \<in> set (hook_entries raw). unique_json x"
    using entry_unique by (cases raw) (auto simp: hook_entries_def)
  then show ?thesis by (auto simp: raw(2) list_all_iff List.map_filter_def read_hook_ok)
qed

lemma read_saved_hook: "hook_ok h \<Longrightarrow> read_hook (saved_hook h) = Some (normal_hook h)"
  by (cases h, cases "wh_body h")
    (auto simp: read_hook_def saved_hook_def normal_hook_def body_given_def hook_ok_def split: json.splits)

lemma unique_saved_hook: "hook_ok h \<Longrightarrow> unique_json (saved_hook h)"
  by (auto simp: saved_hook_def hook_ok_def split: option.splits)

lemma read_saved_hooks:
  assumes "list_all hook_ok hs"
  shows "read_hooks (Doc (saved_hooks hs)) = Inr (map normal_hook hs)"
proof -
  have "unique_json (saved_hooks hs)" using assms by (auto simp: saved_hooks_def list_all_iff unique_saved_hook)
  moreover have "List.map_filter read_hook (map saved_hook hs) = map normal_hook hs"
    using assms by (induction hs) (simp_all add: List.map_filter_def read_saved_hook)
  moreover have "hook_entries (Some (saved_hooks hs)) = map saved_hook hs" by (simp add: hook_entries_def saved_hooks_def)
  ultimately show ?thesis by (simp add: read_hooks_def load_lenient_def last_wins_unique)
qed

lemma normal_hook_idem [simp]: "normal_hook (normal_hook h) = normal_hook h"
  by (simp add: normal_hook_def body_given_def)

lemma normal_hook_ok: "hook_ok h \<Longrightarrow> hook_ok (normal_hook h)"
  by (simp add: normal_hook_def hook_ok_def)

text \<open>The webhooks in memory are, up to empty bodies, what the next start reads.\<close>

definition in_step :: "hook_state \<Rightarrow> bool" where
  "in_step s \<longleftrightarrow> list_all hook_ok (hk_list s)
     \<and> (hk_loaded s \<longrightarrow> (\<exists>hs. read_hooks (hk_file s) = Inr hs \<and> map normal_hook hs = map normal_hook (hk_list s)))
     \<and> Write_failed \<notin> set (hk_faults s)"

lemma in_step_save:
  assumes "list_all hook_ok (hk_list s)" and "Write_failed \<notin> set (hk_faults s)"
  shows "in_step (snd (save_hooks s))"
proof -
  have "hook_outcome s \<noteq> Write_failed" using assms(2) by (auto simp: hook_outcome_def split: list.split)
  then have "hk_file (snd (save_hooks s)) = Doc (saved_hooks (hk_list s))"
    by (auto simp: save_hooks_def write_json_def split: write_outcome.split)
  moreover have "hk_list (snd (save_hooks s)) = hk_list s" "hk_faults (snd (save_hooks s)) = tl (hk_faults s)"
    by (auto simp: save_hooks_def split: prod.split)
  moreover have "Write_failed \<notin> set (tl (hk_faults s))" using assms(2) by (cases "hk_faults s") auto
  ultimately show ?thesis using assms read_saved_hooks by (simp add: in_step_def comp_def)
qed

lemma in_step_ensure:
  assumes "in_step s"
  shows "in_step (snd (ensure_hooks s)) \<and> (fst (ensure_hooks s) = Inr () \<longrightarrow> hk_loaded (snd (ensure_hooks s)))"
  using assms
  by (auto simp: ensure_hooks_def load_hooks_def action_simps in_step_def read_hooks_ok split: sum.split cong: run_congs)

lemma hook_ok_patched: "hook_ok h \<Longrightarrow> (\<forall>b. body = Some (Some b) \<longrightarrow> is_obj b \<and> unique_json b) \<Longrightarrow> hook_ok (patched name url auth body h)"
  by (auto simp: hook_ok_def patched_def split: option.splits)

lemma change_first_ok: "list_all hook_ok hs \<Longrightarrow> (\<And>h. hook_ok h \<Longrightarrow> hook_ok (f h)) \<Longrightarrow> list_all hook_ok (change_first i f hs)"
  by (induction hs) auto

text \<open>A change of the list followed by a save\<close>

lemma in_step_change:
  assumes "\<And>hs. list_all hook_ok hs \<Longrightarrow> list_all hook_ok (f hs)"
  shows "obeys (keeping in_step) (andthen (modifies (\<lambda>s. s\<lparr>hk_list := f (hk_list s)\<rparr>)) (andthen save_hooks (ret x)))"
proof -
  have "in_step (snd (save_hooks (s\<lparr>hk_list := f (hk_list s)\<rparr>)))" if "in_step s" for s
    using that assms by (intro in_step_save) (auto simp: in_step_def)
  then show ?thesis
    by (auto simp: obeys_def keeping_def action_simps split: sum.split prod.split) (metis snd_conv)+
qed

datatype hook_request =
    Create string string string string "json option"
  | Patch string "string option" "string option" "string option" "json option option"
  | Remove string
  | Duplicate string string
  | Reload

text \<open>The bodies come from \<open>parse_body\<close>: objects, with unique keys.\<close>

definition request_ok :: "hook_request \<Rightarrow> bool" where
  "request_ok q \<longleftrightarrow> (case q of
     Create _ _ _ _ (Some b) \<Rightarrow> is_obj b \<and> unique_json b
   | Patch _ _ _ _ (Some (Some b)) \<Rightarrow> is_obj b \<and> unique_json b
   | _ \<Rightarrow> True)"

fun hook_exec :: "hook_request \<Rightarrow> hook_state \<Rightarrow> hook_state" where
  "hook_exec (Create i name url auth body) s = snd (create_hook i name url auth body s)"
| "hook_exec (Patch i name url auth body) s = snd (update_hook i name url auth body s)"
| "hook_exec (Remove i) s = snd (remove_hook i s)"
| "hook_exec (Duplicate fresh i) s = snd (duplicate_hook fresh i s)"
| "hook_exec Reload s = snd (load_hooks s)"

lemma keeps_ensure: "obeys (keeping in_step) ensure_hooks"
  using in_step_ensure by (simp add: obeys_def keeping_def)

lemmas hook_keeps_rules = invariant_step.obeys_rules keeps_ensure

lemma keeps_get: "obeys (keeping in_step) (get_hook i)"
  by (simp add: get_hook_def hook_keeps_rules)

lemma get_hook_finds: "get_hook i s = (Inr r, t) \<Longrightarrow> r = find_hook i (hk_list t)"
  by (auto simp: get_hook_def action_simps split: prod.splits sum.splits)

lemma find_hook_in: "find_hook i hs = Some h \<Longrightarrow> h \<in> set hs \<and> wh_id h = i"
  by (auto simp: find_hook_def find_Some_iff)

lemma keeps_create:
  assumes "\<forall>b. body = Some b \<longrightarrow> is_obj b \<and> unique_json b"
  shows "obeys (keeping in_step) (create_hook i name url auth body)"
proof -
  have "hook_ok \<lparr> wh_id = i, wh_name = strip name, wh_url = strip url, wh_auth = strip auth, wh_body = body \<rparr>"
    using assms by (simp add: hook_ok_def split: option.split)
  then show ?thesis unfolding create_hook_def Let_def
    by (intro invariant_step.obeys_andthen keeps_ensure in_step_change) simp
qed

lemma keeps_update:
  assumes "\<forall>b. body = Some (Some b) \<longrightarrow> is_obj b \<and> unique_json b"
  shows "obeys (keeping in_step) (update_hook i name url auth body)"
  unfolding update_hook_def
  by (intro invariant_step.obeys_bnd keeps_get invariant_step.obeys_option invariant_step.obeys_ret in_step_change change_first_ok
      hook_ok_patched [OF _ assms])

lemma keeps_remove: "obeys (keeping in_step) (remove_hook i)"
proof -
  have "in_step (snd (remove_hook i s))" if "in_step s" for s
  proof -
    obtain r t where e: "ensure_hooks s = (r, t)" by fastforce
    have t: "in_step t" using obeys_keepingD [OF keeps_ensure that] e by simp
    show ?thesis
    proof (cases r)
      case (Inl x)
      then show ?thesis using e t by (simp add: remove_hook_def action_simps)
    next
      case (Inr x)
      let ?keep = "filter (\<lambda>h. wh_id h \<noteq> i) (hk_list t)"
      show ?thesis
      proof (cases "length ?keep = length (hk_list t)")
        case True
        then have "?keep = hk_list t" by (metis filter_id_conv filter_True length_filter_less nless_le)
        then have "t\<lparr>hk_list := ?keep\<rparr> = t" by simp
        then show ?thesis using e t Inr True by (simp add: remove_hook_def action_simps)
      next
        case False
        have "in_step (snd (save_hooks (t\<lparr>hk_list := ?keep\<rparr>)))"
          using t by (intro in_step_save) (auto simp: in_step_def list_all_iff)
        then show ?thesis using e Inr False
          by (auto simp: remove_hook_def action_simps split: sum.split prod.split cong: run_congs)
      qed
    qed
  qed
  then show ?thesis by (simp add: obeys_def keeping_def)
qed

lemma duplicate_in_step:
  assumes "in_step s"
  shows "in_step (snd (duplicate_hook fresh i s))"
proof -
  obtain r t where e: "get_hook i s = (r, t)" by fastforce
  have t: "in_step t" using obeys_keepingD [OF keeps_get assms] e by (metis snd_conv)
  have ok: "hook_ok h" if "r = Inr (Some h)" for h
    using find_hook_in [OF get_hook_finds [OF e [unfolded that], symmetric]] t by (auto simp: in_step_def list_all_iff)
  show ?thesis
  proof (cases "\<exists>h. r = Inr (Some h)")
    case True
    then obtain h where h: "r = Inr (Some h)" by blast
    have "\<forall>b. wh_body h = Some b \<longrightarrow> is_obj b \<and> unique_json b" using ok [OF h] by (simp add: hook_ok_def split: option.splits)
    then have "in_step (snd (create_hook fresh (unique_copy_name (wh_name h) (map wh_name (hk_list t))) (wh_url h) (wh_auth h) (wh_body h) t))"
      by (intro obeys_keepingD [OF keeps_create] t)
    then show ?thesis
      by (cases "create_hook fresh (unique_copy_name (wh_name h) (map wh_name (hk_list t))) (wh_url h) (wh_auth h) (wh_body h) t")
        (simp add: duplicate_hook_def run_bnd run_reads run_ret e h split: sum.split)
  next
    case False
    then have "duplicate_hook fresh i s = (case r of Inl x \<Rightarrow> (Inl x, t) | Inr _ \<Rightarrow> (Inr None, t))"
      by (auto simp: duplicate_hook_def run_bnd run_ret e split: sum.split option.split)
    then show ?thesis using t by (simp split: sum.split)
  qed
qed

lemma in_step_exec: "in_step s \<Longrightarrow> request_ok q \<Longrightarrow> in_step (hook_exec q s)"
proof (cases q)
  case Reload
  assume "in_step s"
  then show ?thesis using Reload
    by (auto simp: load_hooks_def action_simps in_step_def read_hooks_ok split: sum.split cong: run_congs)
qed (auto simp: request_ok_def split: option.splits intro!: obeys_keepingD [OF keeps_create] obeys_keepingD [OF keeps_update]
    obeys_keepingD [OF keeps_remove] duplicate_in_step)

text \<open>The webhooks survive a restart. After any sequence of requests and reloads, whatever the file held at first and
  as long as no write failed before its rename, reading the file gives the webhooks in memory, every field of them, an
  empty body counting as none; and every body is an object.\<close>

theorem webhooks_survive_a_restart:
  assumes "hk_list s = []" and "\<not> hk_loaded s" and "Write_failed \<notin> set (hk_faults s)" and "list_all request_ok qs"
    and "t = fold hook_exec qs s" and "hk_loaded t"
  shows "\<exists>hs. read_hooks (hk_file t) = Inr hs \<and> map normal_hook hs = map normal_hook (hk_list t)
    \<and> (\<forall>h \<in> set (hk_list t). \<forall>b. wh_body h = Some b \<longrightarrow> is_obj b)"
proof -
  have "in_step s" using assms by (simp add: in_step_def)
  then have "in_step t" unfolding assms(5) using assms(4) by (induction qs arbitrary: s) (simp_all add: in_step_exec)
  moreover from this have "is_obj b" if "h \<in> set (hk_list t)" "wh_body h = Some b" for h b
    using that by (fastforce simp: in_step_def list_all_iff hook_ok_def)
  ultimately show ?thesis using assms(6) by (auto simp: in_step_def)
qed

definition demo_hooks :: "hook_request list" where
  "demo_hooks = [Create ''wh_a'' ''Lamp '' ''http://ha/lamp'' ''Bearer x'' (Some (JObj [(''on'', JBool True)])),
     Duplicate ''wh_b'' ''wh_a'', Patch ''wh_a'' None (Some ''http://ha/l2'') (Some []) None, Reload]"

lemma webhooks_survive_a_restart_witness:
  "\<exists>hs. read_hooks (hk_file (fold hook_exec demo_hooks no_hooks)) = Inr hs
     \<and> map normal_hook hs = map normal_hook (hk_list (fold hook_exec demo_hooks no_hooks))"
proof -
  have "list_all request_ok demo_hooks" by (simp add: demo_hooks_def request_ok_def)
  moreover have "hk_loaded (fold hook_exec demo_hooks no_hooks)" by code_simp
  ultimately show ?thesis
    using webhooks_survive_a_restart [of no_hooks demo_hooks, OF _ _ _ _ refl] by (auto simp: no_hooks_def)
qed

section \<open>Copies have names of their own\<close>

lemma strip_between: "s \<noteq> [] \<Longrightarrow> \<not> is_space (hd s) \<Longrightarrow> \<not> is_space (last s) \<Longrightarrow> strip s = s"
  by (simp add: strip_def lstrip_def rstrip_def dropWhile_eq_self hd_rev)

lemma stripped_hd:
  assumes "strip s = s" and "s \<noteq> []"
  shows "\<not> is_space (hd s)"
proof
  assume space: "is_space (hd s)"
  obtain c r where s: "s = c # r" using assms(2) by (cases s) auto
  have "length (strip s) \<le> length (lstrip s)"
    by (simp add: strip_def rstrip_def length_dropWhile_le le_trans [OF length_dropWhile_le])
  also have "\<dots> \<le> length r" using space s by (simp add: lstrip_def length_dropWhile_le)
  finally show False using assms(1) s by simp
qed

lemma digit_no_space: "is_digit c \<Longrightarrow> \<not> is_space c"
  by (auto simp: is_digit_def char_between_def is_space_def)

lemma copy_name_end: "\<not> is_space (last (copy_name name n))"
proof -
  have "int_text (int n) = nat_text (int n)" by (simp add: int_text_def)
  moreover have "is_digit (last (nat_text (int n)))"
    using nat_text_digits [of "int n"] nat_text_nonempty [of "int n"] by (auto simp: list_all_iff)
  ultimately show ?thesis by (simp add: copy_name_def digit_no_space)
qed

lemma unique_copy_name_stripped:
  assumes "strip name = name" and "name \<noteq> []"
  shows "strip (unique_copy_name name taken) = unique_copy_name name taken"
proof -
  have "\<exists>rest. unique_copy_name name taken = name @ rest"
    using free_copy_free [of name taken 2] by (auto simp: unique_copy_name_def copy_name_def)
  then have "unique_copy_name name taken \<noteq> []" "hd (unique_copy_name name taken) = hd name"
    using assms(2) by auto
  moreover have "\<not> is_space (last (unique_copy_name name taken))"
  proof (cases "name @ '' copy'' \<notin> set taken")
    case True
    then show ?thesis by (simp add: unique_copy_name_def) code_simp
  qed (use free_copy_free [of name taken 2] copy_name_end in \<open>auto simp: unique_copy_name_def\<close>)
  ultimately show ?thesis using strip_between stripped_hd [OF assms] by metis
qed

text \<open>Duplicating a webhook always ends, and gives a copy that differs from the original in its ID and name only, is put
  after the others, which stay as they are, and has a name no other webhook has.\<close>

theorem copies_have_their_own_name:
  assumes "duplicate_hook fresh i s = (Inr (Some c), t)" and "hk_loaded s"
    and "\<forall>h \<in> set (hk_list s). wh_name h \<noteq> [] \<and> strip (wh_name h) = wh_name h \<and> strip (wh_url h) = wh_url h \<and> strip (wh_auth h) = wh_auth h"
  shows "\<exists>h. find_hook i (hk_list s) = Some h \<and> hk_list t = hk_list s @ [c] \<and> wh_name c \<notin> wh_name ` set (hk_list s)
    \<and> c = h\<lparr>wh_id := fresh, wh_name := wh_name c\<rparr>"
proof -
  have e: "ensure_hooks s = (Inr (), s)" using assms(2) by (simp add: ensure_hooks_def action_simps)
  then have g: "get_hook i s = (Inr (find_hook i (hk_list s)), s)" by (simp add: get_hook_def action_simps)
  then obtain h where h: "find_hook i (hk_list s) = Some h"
    using assms(1) by (cases "find_hook i (hk_list s)") (auto simp: duplicate_hook_def action_simps)
  have st: "wh_name h \<noteq> []" "strip (wh_name h) = wh_name h" "strip (wh_url h) = wh_url h" "strip (wh_auth h) = wh_auth h"
    using assms(3) find_hook_in [OF h] by auto
  let ?name = "unique_copy_name (wh_name h) (map wh_name (hk_list s))"
  have "c = \<lparr> wh_id = fresh, wh_name = strip ?name, wh_url = wh_url h, wh_auth = wh_auth h, wh_body = wh_body h \<rparr> \<and> hk_list t = hk_list s @ [c]"
    using assms(1) g h e st
    by (auto simp: duplicate_hook_def create_hook_def save_hooks_def Let_def action_simps split: sum.splits prod.splits)
  moreover have "strip ?name = ?name" by (rule unique_copy_name_stripped [OF st(2,1)])
  moreover have "?name \<notin> wh_name ` set (hk_list s)" using unique_copy_name_free [of "wh_name h" "map wh_name (hk_list s)"] by simp
  ultimately show ?thesis using h by auto
qed

definition lamp_hook :: webhook where
  "lamp_hook = \<lparr> wh_id = ''wh_a'', wh_name = ''Lamp'', wh_url = ''http://ha/lamp'', wh_auth = ''Bearer x'', wh_body = None \<rparr>"

definition lamp_hooks :: hook_state where
  "lamp_hooks = no_hooks\<lparr>hk_loaded := True, hk_list := [lamp_hook, lamp_hook\<lparr>wh_id := ''wh_b'', wh_name := ''Lamp copy''\<rparr>]\<rparr>"

lemma copies_have_their_own_name_witness:
  "\<exists>c t. duplicate_hook ''wh_c'' ''wh_a'' lamp_hooks = (Inr (Some c), t) \<and> wh_name c = ''Lamp copy 2''
     \<and> hk_list t = hk_list lamp_hooks @ [c] \<and> c = lamp_hook\<lparr>wh_id := ''wh_c'', wh_name := ''Lamp copy 2''\<rparr>"
proof -
  have "(case duplicate_hook ''wh_c'' ''wh_a'' lamp_hooks of (Inr (Some c), t) \<Rightarrow> wh_name c = ''Lamp copy 2'' | _ \<Rightarrow> False)" by code_simp
  then obtain c t where d: "duplicate_hook ''wh_c'' ''wh_a'' lamp_hooks = (Inr (Some c), t)" "wh_name c = ''Lamp copy 2''"
    by (auto split: prod.splits sum.splits option.splits)
  have ok: "hk_loaded lamp_hooks" "\<forall>h \<in> set (hk_list lamp_hooks). wh_name h \<noteq> [] \<and> strip (wh_name h) = wh_name h
      \<and> strip (wh_url h) = wh_url h \<and> strip (wh_auth h) = wh_auth h" "find_hook ''wh_a'' (hk_list lamp_hooks) = Some lamp_hook"
    by (code_simp, code_simp, code_simp)
  show ?thesis using copies_have_their_own_name [OF d(1) ok(1,2)] d ok(3) by auto
qed

text \<open>A change is made in memory before it is saved, so a write that fails leaves it there: the caller gets an error, but
  the webhook is used until the next start, which does not know it.\<close>

lemma failed_create_stays:
  "create_hook i name url auth body s = (r, t) \<Longrightarrow> hk_loaded s \<Longrightarrow> hk_faults s = Write_failed # fs \<Longrightarrow>
   r = Inl OSError \<and> hk_file t = hk_file s \<and> length (hk_list t) = length (hk_list s) + 1"
  by (auto simp: create_hook_def ensure_hooks_def save_hooks_def hook_outcome_def write_json_def Let_def action_simps)

end
