(* ===== verification/Button_Actions.thy ===== *)
theory Button_Actions
  imports Webhooks Registry_Laws "HOL-Library.Sublist"
begin

text \<open>
  \<open>buttons.py\<close>: what a gesture on the action button of a device does. The settings of the device and the webhooks
  are those of the registry and of \<open>webhooks.json\<close>; the HTTP client, the speech service and the text turn of the
  pipeline are the environment, their results events of an announcement or the end of a prompt. Sockets and abort
  events are identities.
\<close>

datatype button_effect =
    Post_hook string json "(string \<times> string) list"
  | Control nat string "int option"

datatype button_task = No_more | Announce string nat | Prompt string nat nat

record button_world =
  bt_devices :: device_world
  bt_hooks :: hook_state
  bt_closed :: "nat set"
  bt_effects :: "button_effect list"

section \<open>Webhooks and commands\<close>

definition press_payload :: "string \<Rightarrow> string \<Rightarrow> string \<Rightarrow> json" where
  "press_payload device button gesture = JObj [(''type'', JStr ''vauxr.button_press''), (''device_id'', JStr device),
     (''button'', JStr button), (''gesture'', JStr gesture)]"

definition hook_payload :: "webhook \<Rightarrow> string \<Rightarrow> string \<Rightarrow> string \<Rightarrow> json" where
  "hook_payload h device button gesture = (case wh_body h of
     Some b \<Rightarrow> if truthy b then b else press_payload device button gesture
   | None \<Rightarrow> press_payload device button gesture)"

definition hook_headers :: "webhook \<Rightarrow> (string \<times> string) list" where
  "hook_headers h = (''Content-Type'', ''application/json'') # (if wh_auth h = [] then [] else [(''Authorization'', wh_auth h)])"

text \<open>Whatever the request comes to is only logged.\<close>

definition dispatch_webhook :: "string \<Rightarrow> string \<Rightarrow> string \<Rightarrow> string \<Rightarrow> button_world \<Rightarrow> button_world" where
  "dispatch_webhook device button gesture i w = (case get_hook i (bt_hooks w) of
     (Inr (Some h), s) \<Rightarrow> w\<lparr>bt_hooks := s, bt_effects := bt_effects w @ [Post_hook (wh_url h) (hook_payload h device button gesture) (hook_headers h)]\<rparr>
   | (_, s) \<Rightarrow> w\<lparr>bt_hooks := s\<rparr>)"

definition send_effect :: "nat \<Rightarrow> button_effect \<Rightarrow> button_world \<Rightarrow> button_world" where
  "send_effect ws e w = (if ws \<in> bt_closed w then w else w\<lparr>bt_effects := bt_effects w @ [e]\<rparr>)"

definition dispatch_command :: "string \<Rightarrow> string \<Rightarrow> int option \<Rightarrow> button_world \<Rightarrow> button_world" where
  "dispatch_command device command volume w = (case dict_get (dv_entries (bt_devices w)) device of
     None \<Rightarrow> w
   | Some e \<Rightarrow>
       if command = [] then w
       else send_effect (de_ws e) (Control (de_ws e) command
         (if command = ''set_volume'' then Some (case volume of None \<Rightarrow> 0 | Some v \<Rightarrow> v) else None)) w)"

section \<open>Announcements and prompts\<close>

definition busy :: "device_entry \<Rightarrow> bool" where
  "busy e \<longleftrightarrow> de_state e \<in> {Listening, Processing}"

definition dispatch_announce :: "string \<Rightarrow> string \<Rightarrow> button_world \<Rightarrow> button_task \<times> button_world" where
  "dispatch_announce device said w =
    (if strip said = [] then (No_more, w)
     else case dict_get (dv_entries (bt_devices w)) device of
       None \<Rightarrow> (No_more, w)
     | Some e \<Rightarrow> (if busy e then No_more else Announce (strip said) (de_ws e), w))"

text \<open>A prompt takes the device before its first await; \<open>fresh\<close> is its abort event.\<close>

definition dispatch_prompt :: "nat \<Rightarrow> string \<Rightarrow> string \<Rightarrow> button_world \<Rightarrow> button_task \<times> button_world" where
  "dispatch_prompt fresh device said w =
    (if strip said = [] then (No_more, w)
     else case dict_get (dv_entries (bt_devices w)) device of
       None \<Rightarrow> (No_more, w)
     | Some e \<Rightarrow>
         if busy e then (No_more, w)
         else (Prompt (strip said) (de_ws e) fresh,
           w\<lparr>bt_devices := change_entry device (\<lambda>e. e\<lparr>de_abort := Some fresh\<rparr>) (set_state device Processing (bt_devices w))\<rparr>))"

text \<open>The \<open>finally\<close> of a prompt; an entry carries the event of a prompt only if it is the one the prompt was given.\<close>

definition prompt_over :: "nat \<Rightarrow> string \<Rightarrow> device_world \<Rightarrow> device_world" where
  "prompt_over own device v = (case dict_get (dv_entries v) device of
     None \<Rightarrow> v
   | Some e \<Rightarrow>
       if de_abort e \<noteq> Some own then v
       else
         let u = change_entry device (\<lambda>e. e\<lparr>de_abort := None\<rparr>) v in
         if de_state e = Processing then set_state device Idle u else u)"

text \<open>\<open>send_audio_end\<close>: whether the end of the playback is passed on to the realtime manager\<close>

definition prompt_may_end :: "nat \<Rightarrow> string \<Rightarrow> device_world \<Rightarrow> bool" where
  "prompt_may_end own device v \<longleftrightarrow> (case dict_get (dv_entries v) device of
     None \<Rightarrow> False
   | Some e \<Rightarrow> de_abort e = Some own \<and> own \<notin> dv_aborted v)"

text \<open>\<open>handle_device_button\<close> with the settings that \<open>get_config_for\<close> gave\<close>

definition handle_button :: "nat \<Rightarrow> string \<Rightarrow> string \<Rightarrow> string \<Rightarrow> device_config \<Rightarrow> button_world \<Rightarrow> button_task \<times> button_world" where
  "handle_button fresh device button gesture cfg w =
    (if gesture \<notin> set valid_gestures then (No_more, w)
     else case (case dc_buttons cfg of None \<Rightarrow> None | Some acts \<Rightarrow> dict_get acts gesture) of
       None \<Rightarrow> (No_more, w)
     | Some (Call_webhook i) \<Rightarrow> (No_more, dispatch_webhook device button gesture i w)
     | Some (Say_announce t) \<Rightarrow> dispatch_announce device t w
     | Some (Run_command c v) \<Rightarrow> (No_more, dispatch_command device c v w)
     | Some (Say_prompt t) \<Rightarrow> dispatch_prompt fresh device t w)"

definition device_pressed :: "nat \<Rightarrow> string \<Rightarrow> string \<Rightarrow> string \<Rightarrow> button_world \<Rightarrow> (exn + button_task) \<times> button_world" where
  "device_pressed fresh device button gesture w =
    (if gesture \<notin> set valid_gestures then (Inr No_more, w)
     else case get_config_for device (bt_devices w) of
       (Inl e, v) \<Rightarrow> (Inl e, w\<lparr>bt_devices := v\<rparr>)
     | (Inr cfg, v) \<Rightarrow> (case handle_button fresh device button gesture cfg (w\<lparr>bt_devices := v\<rparr>) of (t, u) \<Rightarrow> (Inr t, u)))"

section \<open>The sound of an announcement\<close>

datatype announce_msg = Sound_start int | Sound_frame "byte list" | Sound_error | Sound_end

record announcement =
  an_device :: string
  an_ws :: nat
  an_start :: "int option"
  an_rated :: bool
  an_over :: bool
  an_open :: bool
  an_handed :: "announce_msg list"
  an_sent :: "announce_msg list"

definition new_announcement :: "string \<Rightarrow> nat \<Rightarrow> announcement" where
  "new_announcement device ws = \<lparr> an_device = device, an_ws = ws, an_start = None, an_rated = False, an_over = False,
     an_open = True, an_handed = [], an_sent = [] \<rparr>"

text \<open>What is handed to the socket is sent while it is open.\<close>

definition sound :: "announce_msg \<Rightarrow> announcement \<Rightarrow> announcement" where
  "sound m a = a\<lparr>an_handed := an_handed a @ [m], an_sent := (if an_open a then an_sent a @ [m] else an_sent a)\<rparr>"

text \<open>
  The speech service reports its rate, which starts a task that sends \<open>audio.start\<close>, gives a chunk, fails or ends;
  the task runs; the socket closes. A chunk goes out under the next sequence number of the device.
\<close>

datatype announce_event = Rate_known int | Chunk_given "byte list" | Speech_failed | Speech_over | Start_task | Socket_closed

definition announce_chunk :: "byte list \<Rightarrow> announcement \<times> device_world \<Rightarrow> announcement \<times> device_world" where
  "announce_chunk pcm aw = (case aw of (a, v) \<Rightarrow> case next_seq (an_device a) v of (n, u) \<Rightarrow>
     (case make_binary_frame 3 n pcm of
        Inl _ \<Rightarrow> ((sound Sound_end (sound Sound_error a))\<lparr>an_over := True\<rparr>, u)
      | Inr bs \<Rightarrow> (sound (Sound_frame bs) a, u)))"

fun announce_step :: "announce_event \<Rightarrow> announcement \<times> device_world \<Rightarrow> announcement \<times> device_world" where
  "announce_step (Rate_known r) (a, v) = (if an_over a \<or> an_rated a then a else a\<lparr>an_rated := True, an_start := Some r\<rparr>, v)"
| "announce_step (Chunk_given pcm) (a, v) = (if an_over a then (a, v) else announce_chunk pcm (a, v))"
| "announce_step Speech_failed (a, v) = (if an_over a then a else (sound Sound_end (sound Sound_error a))\<lparr>an_over := True\<rparr>, v)"
| "announce_step Speech_over (a, v) = (if an_over a then a else (sound Sound_end a)\<lparr>an_over := True\<rparr>, v)"
| "announce_step Start_task (a, v) = (case an_start a of None \<Rightarrow> a | Some r \<Rightarrow> (sound (Sound_start r) a)\<lparr>an_start := None\<rparr>, v)"
| "announce_step Socket_closed (a, v) = (a\<lparr>an_open := False\<rparr>, v)"

definition announce_run :: "announce_event list \<Rightarrow> announcement \<times> device_world \<Rightarrow> announcement \<times> device_world" where
  "announce_run es av = fold announce_step es av"

section \<open>Laws\<close>

definition is_sound :: "announce_msg \<Rightarrow> bool" where
  "is_sound m \<longleftrightarrow> m \<noteq> Sound_error \<and> m \<noteq> Sound_end"

definition is_start :: "announce_msg \<Rightarrow> bool" where
  "is_start m \<longleftrightarrow> (case m of Sound_start _ \<Rightarrow> True | _ \<Rightarrow> False)"

text \<open>Sounds, then, once it is over, perhaps an error, the end, and a late start\<close>

definition handed_ok :: "bool \<Rightarrow> announce_msg list \<Rightarrow> bool" where
  "handed_ok over ms \<longleftrightarrow> (\<exists>sounds errs late. list_all is_sound sounds \<and> errs \<in> {[], [Sound_error]} \<and> list_all is_start late
     \<and> ms = sounds @ (if over then errs @ [Sound_end] @ late else []))"

definition announce_ok :: "announcement \<Rightarrow> bool" where
  "announce_ok a \<longleftrightarrow> prefix (an_sent a) (an_handed a) \<and> (an_open a \<longrightarrow> an_sent a = an_handed a)
     \<and> handed_ok (an_over a) (an_handed a)
     \<and> length (filter is_start (an_handed a)) + (if an_start a = None then 0 else 1) \<le> (if an_rated a then 1 else 0)"

lemma handed_open: "handed_ok False ms \<longleftrightarrow> list_all is_sound ms"
  unfolding handed_ok_def by (auto intro: exI [of _ "[]"])

lemma handed_end:
  assumes "list_all is_sound ms" and "errs \<in> {[], [Sound_error]}"
  shows "handed_ok True (ms @ errs @ [Sound_end])"
  unfolding handed_ok_def using assms by (intro exI [of _ ms] exI [of _ errs] exI [of _ "[]"]) simp

lemma handed_start:
  assumes "handed_ok over ms"
  shows "handed_ok over (ms @ [Sound_start r])"
proof (cases over)
  case True
  obtain sounds errs late where "list_all is_sound sounds" "errs \<in> {[], [Sound_error]}" "list_all is_start late"
    "ms = sounds @ errs @ [Sound_end] @ late" using assms True by (auto simp: handed_ok_def)
  then show ?thesis unfolding handed_ok_def
    by (intro exI [of _ sounds] exI [of _ errs] exI [of _ "late @ [Sound_start r]"]) (simp add: True is_start_def)
next
  case False
  then show ?thesis using assms by (simp add: handed_open is_sound_def)
qed

lemma announce_ok_new: "announce_ok (new_announcement d ws)"
  by (simp add: announce_ok_def new_announcement_def handed_open)

lemma announce_ok_sound:
  assumes "announce_ok a" and "\<not> an_over a" and "is_sound m" and "\<not> is_start m"
  shows "announce_ok (sound m a)"
  using assms by (auto simp: announce_ok_def sound_def handed_open)

lemma announce_ok_end:
  assumes "announce_ok a" and "\<not> an_over a" and "b = a \<or> b = sound Sound_error a"
  shows "announce_ok ((sound Sound_end b)\<lparr>an_over := True\<rparr>)"
proof -
  have "list_all is_sound (an_handed a)" using assms(1,2) by (simp add: announce_ok_def handed_open)
  then have "handed_ok True (an_handed b @ [Sound_end])"
    using assms(3) handed_end [of "an_handed a" "[]"] handed_end [of "an_handed a" "[Sound_error]"] by (auto simp: sound_def)
  then show ?thesis using assms by (auto simp: announce_ok_def sound_def is_start_def split: if_splits)
qed

lemma announce_ok_start:
  assumes "announce_ok a" and "an_start a = Some r"
  shows "announce_ok ((sound (Sound_start r) a)\<lparr>an_start := None\<rparr>)"
  using assms handed_start [of "an_over a" "an_handed a" r] by (auto simp: announce_ok_def sound_def is_start_def split: if_splits)

lemma announce_ok_step: "announce_ok a \<Longrightarrow> announce_ok (fst (announce_step e (a, v)))"
proof (cases e)
  case (Rate_known r)
  assume "announce_ok a"
  then show ?thesis using Rate_known by (auto simp: announce_ok_def split: if_splits)
next
  case (Chunk_given pcm)
  assume "announce_ok a"
  then show ?thesis using Chunk_given
    by (auto simp: announce_chunk_def announce_ok_end announce_ok_sound is_sound_def is_start_def split: prod.split sum.split)
next
  case Start_task
  assume "announce_ok a"
  then show ?thesis using Start_task by (auto simp: announce_ok_start split: option.split)
next
  case Socket_closed
  assume "announce_ok a"
  then show ?thesis using Socket_closed by (auto simp: announce_ok_def)
qed (auto simp: announce_ok_end)

lemma announce_ok_run: "announce_ok a \<Longrightarrow> announce_ok (fst (announce_run es (a, v)))"
proof (induction es arbitrary: a v)
  case (Cons e es)
  obtain b u where s: "announce_step e (a, v) = (b, u)" by fastforce
  then have "announce_ok b" using announce_ok_step [OF Cons.prems, of e v] by simp
  then show ?case using Cons.IH [of b u] s by (simp add: announce_run_def)
qed (simp add: announce_run_def)

text \<open>An announcement ends once: whatever the speech service does, what is handed to the socket is frames and at most one
  start, then, once it is over, an error at most, exactly one end, and nothing after it but a start whose task was late;
  the device gets all of it, or what came before its socket closed.\<close>

theorem announcement_ends_once:
  assumes "announce_run es (new_announcement device ws, v) = (a, u)"
  shows "prefix (an_sent a) (an_handed a) \<and> (an_open a \<longrightarrow> an_sent a = an_handed a)
    \<and> (\<exists>sounds errs late. list_all is_sound sounds \<and> errs \<in> {[], [Sound_error]} \<and> list_all is_start late
         \<and> an_handed a = sounds @ (if an_over a then errs @ [Sound_end] @ late else []))
    \<and> length (filter is_start (an_handed a)) \<le> 1"
proof -
  have ok: "announce_ok a" using announce_ok_run [OF announce_ok_new, of es device ws v] assms by simp
  then have "length (filter is_start (an_handed a)) \<le> 1" by (simp add: announce_ok_def split: if_splits)
  with ok show ?thesis by (simp add: announce_ok_def handed_ok_def)
qed

text \<open>The start is sent by a task of its own, so a chunk that is there at once goes out before it.\<close>

lemma start_may_be_late:
  assumes "dict_get (dv_entries v) device = None"
  shows "map is_start (an_sent (fst (announce_run [Rate_known 24000, Chunk_given [1, 2], Speech_over, Start_task]
     (new_announcement device 7, v)))) = [False, False, True]"
  using assms
  by (simp add: announce_run_def announce_chunk_def next_seq_def make_binary_frame_def new_announcement_def sound_def is_start_def)

lemma change_entry_get: "dict_get (dv_entries (change_entry d f v)) k = (if k = d then map_option f (dict_get (dv_entries v) d) else dict_get (dv_entries v) k)"
  by (simp add: change_entry_def split: option.split)


definition kitchen_entry :: device_entry where
  "kitchen_entry = new_entry ''dev_1'' 7 None no_config None 0"

definition kitchen_buttons :: button_world where
  "kitchen_buttons = \<lparr> bt_devices = demo_devices\<lparr>dv_entries := [(''dev_1'', kitchen_entry)], dv_aborted := {}\<rparr>, bt_hooks = no_hooks,
     bt_closed = {}, bt_effects = [] \<rparr>"


text \<open>A webhook is called with its own body, or else with the press, and with its authorization if it has one.\<close>

lemma press_calls_its_webhook:
  assumes "gesture \<in> set valid_gestures" and "dc_buttons cfg = Some acts" and "dict_get acts gesture = Some (Call_webhook i)"
    and "hk_loaded (bt_hooks w)"
  shows "bt_effects (snd (handle_button fresh device button gesture cfg w)) = bt_effects w @
    (case find_hook i (hk_list (bt_hooks w)) of None \<Rightarrow> []
     | Some h \<Rightarrow> [Post_hook (wh_url h) (hook_payload h device button gesture) (hook_headers h)])"
  using assms
  by (simp add: handle_button_def dispatch_webhook_def get_hook_def ensure_hooks_def action_simps split: option.split)

end
