(* ===== verification/Authority_Teardown.thy ===== *)
theory Authority_Teardown
  imports Event_Machine Example_World
begin

text \<open>
  \<open>auth/connections.py\<close>: the transports that were opened under a credential, and their teardown when it is no longer
  current. The task that closes a transport, the attempts that wait for it and the callers of \<open>disconnect_stale\<close>
  interleave freely; every step here runs from one await to the next. Connections, tasks and callers are identities;
  \<open>au_closed\<close> is the trace of the transports whose close has completed.
\<close>

datatype close_task = Close_running bool | Close_done bool

record held_conn =
  hc_principal :: principal
  hc_retiring :: bool
  hc_task :: "nat option"

datatype attempt = Not_started | Waits_for nat | Went_well | Went_wrong

record authority =
  au_conns :: "(nat, held_conn) dict"
  au_held :: "nat set"
  au_tasks :: "(nat, nat \<times> close_task) dict"
  au_calls :: "(nat, (nat, attempt) dict) dict"
  au_next :: nat
  au_closed :: "nat set"

definition no_authority :: authority where
  "no_authority = \<lparr> au_conns = [], au_held = {}, au_tasks = [], au_calls = [], au_next = 0, au_closed = {} \<rparr>"

text \<open>\<open>retain\<close> and \<open>release\<close>\<close>

definition retain :: "nat \<Rightarrow> principal \<Rightarrow> authority \<Rightarrow> authority" where
  "retain i p s = (if dict_get (au_conns s) i \<noteq> None then s
     else s\<lparr>au_conns := dict_put i \<lparr> hc_principal = p, hc_retiring = False, hc_task = None \<rparr> (au_conns s), au_held := insert i (au_held s)\<rparr>)"

definition release :: "nat \<Rightarrow> authority \<Rightarrow> authority" where
  "release i s = (case dict_get (au_conns s) i of
     None \<Rightarrow> s
   | Some c \<Rightarrow> if hc_retiring c then s else s\<lparr>au_held := au_held s - {i}\<rparr>)"

text \<open>\<open>disconnect_stale\<close>: the connections it finds stale, each of which gets an attempt.\<close>

definition stale_conns :: "world \<Rightarrow> authority \<Rightarrow> nat list" where
  "stale_conns A s = filter (\<lambda>i. i \<in> au_held s \<and> (case dict_get (au_conns s) i of
     None \<Rightarrow> False | Some c \<Rightarrow> \<not> current A (Some (hc_principal c)))) (dict_keys (au_conns s))"

definition disconnect_begin :: "nat \<Rightarrow> world \<Rightarrow> authority \<Rightarrow> authority" where
  "disconnect_begin k A s = (if dict_get (au_calls s) k \<noteq> None then s
     else s\<lparr>au_calls := dict_put k (map (\<lambda>i. (i, Not_started)) (stale_conns A s)) (au_calls s)\<rparr>)"

definition set_attempt :: "nat \<Rightarrow> nat \<Rightarrow> attempt \<Rightarrow> authority \<Rightarrow> authority" where
  "set_attempt k i a s = (case dict_get (au_calls s) k of
     None \<Rightarrow> s | Some d \<Rightarrow> s\<lparr>au_calls := dict_put k (dict_put i a d) (au_calls s)\<rparr>)"

definition attempt_of :: "nat \<Rightarrow> nat \<Rightarrow> authority \<Rightarrow> attempt option" where
  "attempt_of k i s = (case dict_get (au_calls s) k of None \<Rightarrow> None | Some d \<Rightarrow> dict_get d i)"

text \<open>\<open>Teardown.run\<close> up to its wait: an attempt joins the close that runs, or starts one.\<close>

definition attempt_starts :: "nat \<Rightarrow> nat \<Rightarrow> authority \<Rightarrow> authority" where
  "attempt_starts k i s =
    (if attempt_of k i s \<noteq> Some Not_started then s
     else case dict_get (au_conns s) i of
       None \<Rightarrow> s
     | Some c \<Rightarrow> (case hc_task c of
         Some t \<Rightarrow> set_attempt k i (Waits_for t) (s\<lparr>au_conns := dict_put i (c\<lparr>hc_retiring := True\<rparr>) (au_conns s)\<rparr>)
       | None \<Rightarrow> set_attempt k i (Waits_for (au_next s))
           (s\<lparr>au_conns := dict_put i (c\<lparr>hc_retiring := True, hc_task := Some (au_next s)\<rparr>) (au_conns s),
              au_tasks := dict_put (au_next s) (i, Close_running False) (au_tasks s), au_next := au_next s + 1\<rparr>)))"

definition task_ends :: "nat \<Rightarrow> bool \<Rightarrow> authority \<Rightarrow> authority" where
  "task_ends t ok s = (case dict_get (au_tasks s) t of
     Some (i, Close_running _) \<Rightarrow> s\<lparr>au_tasks := dict_put t (i, Close_done ok) (au_tasks s),
       au_closed := (if ok then insert i (au_closed s) else au_closed s)\<rparr>
   | _ \<Rightarrow> s)"

text \<open>and after it: the task is over, or the wait is\<close>

definition forget_task :: "nat \<Rightarrow> nat \<Rightarrow> authority \<Rightarrow> authority" where
  "forget_task i t s = (case dict_get (au_conns s) i of
     None \<Rightarrow> s
   | Some c \<Rightarrow> if hc_task c = Some t then s\<lparr>au_conns := dict_put i (c\<lparr>hc_task := None\<rparr>) (au_conns s)\<rparr> else s)"

definition attempt_sees :: "nat \<Rightarrow> nat \<Rightarrow> authority \<Rightarrow> authority" where
  "attempt_sees k i s = (case attempt_of k i s of
     Some (Waits_for t) \<Rightarrow> (case dict_get (au_tasks s) t of
         Some (_, Close_done ok) \<Rightarrow>
           let u = forget_task i t s in
           if ok then set_attempt k i Went_well (u\<lparr>au_held := au_held u - {i}\<rparr>)
           else set_attempt k i Went_wrong (u\<lparr>au_held := insert i (au_held u)\<rparr>)
       | _ \<Rightarrow> s)
   | _ \<Rightarrow> s)"

definition attempt_late :: "nat \<Rightarrow> nat \<Rightarrow> authority \<Rightarrow> authority" where
  "attempt_late k i s = (case attempt_of k i s of
     Some (Waits_for t) \<Rightarrow> (case dict_get (au_tasks s) t of
         Some (j, Close_running _) \<Rightarrow> set_attempt k i Went_wrong
           (s\<lparr>au_tasks := dict_put t (j, Close_running True) (au_tasks s), au_held := insert i (au_held s)\<rparr>)
       | _ \<Rightarrow> s)
   | _ \<Rightarrow> s)"

text \<open>A call is over once all its attempts are; it raises when one went wrong.\<close>

definition call_ends :: "nat \<Rightarrow> authority \<Rightarrow> bool option" where
  "call_ends k s = (case dict_get (au_calls s) k of
     None \<Rightarrow> None
   | Some d \<Rightarrow> if list_all (\<lambda>a. a = Went_well \<or> a = Went_wrong) (dict_values d)
       then Some (list_all (\<lambda>a. a = Went_well) (dict_values d)) else None)"

datatype authority_event =
    Retain nat principal
  | Release nat
  | Disconnect nat world
  | Attempt_starts nat nat
  | Task_ends nat bool
  | Attempt_sees nat nat
  | Attempt_late nat nat

fun authority_step :: "authority_event \<Rightarrow> authority \<Rightarrow> authority" where
  "authority_step (Retain i p) s = retain i p s"
| "authority_step (Release i) s = release i s"
| "authority_step (Disconnect k A) s = disconnect_begin k A s"
| "authority_step (Attempt_starts k i) s = attempt_starts k i s"
| "authority_step (Task_ends t ok) s = task_ends t ok s"
| "authority_step (Attempt_sees k i) s = attempt_sees k i s"
| "authority_step (Attempt_late k i) s = attempt_late k i s"

definition authority_run :: "authority_event list \<Rightarrow> authority \<Rightarrow> authority" where
  "authority_run es s = fold authority_step es s"

section \<open>Invariant\<close>

lemma set_attempt_frame [simp]:
  "au_conns (set_attempt k i a s) = au_conns s" "au_held (set_attempt k i a s) = au_held s" "au_tasks (set_attempt k i a s) = au_tasks s"
  "au_next (set_attempt k i a s) = au_next s" "au_closed (set_attempt k i a s) = au_closed s"
  by (simp_all add: set_attempt_def split: option.split)

lemma attempt_of_set [simp]:
  "attempt_of k' i' (set_attempt k i a s) = (if k' = k \<and> i' = i \<and> dict_get (au_calls s) k \<noteq> None then Some a else attempt_of k' i' s)"
  by (auto simp: attempt_of_def set_attempt_def split: option.split)

lemma attempt_of_frame [simp]:
  "attempt_of k i (s\<lparr>au_conns := c\<rparr>) = attempt_of k i s" "attempt_of k i (s\<lparr>au_held := h\<rparr>) = attempt_of k i s"
  "attempt_of k i (s\<lparr>au_tasks := t\<rparr>) = attempt_of k i s" "attempt_of k i (s\<lparr>au_next := n\<rparr>) = attempt_of k i s"
  "attempt_of k i (s\<lparr>au_closed := d\<rparr>) = attempt_of k i s"
  by (simp_all add: attempt_of_def)

lemma forget_task_frame [simp]:
  "au_held (forget_task i t s) = au_held s" "au_tasks (forget_task i t s) = au_tasks s" "au_calls (forget_task i t s) = au_calls s"
  "au_next (forget_task i t s) = au_next s" "au_closed (forget_task i t s) = au_closed s"
  "attempt_of k j (forget_task i t s) = attempt_of k j s"
  by (simp_all add: forget_task_def attempt_of_def split: option.split)

lemma attempt_called: "attempt_of k i s = Some a \<Longrightarrow> dict_get (au_calls s) k \<noteq> None"
  by (auto simp: attempt_of_def split: option.splits)

text \<open>Tasks have been given out; one that ended well has closed its connection; one that runs is the task of its connection.\<close>

definition given_out :: "authority \<Rightarrow> bool" where
  "given_out s \<longleftrightarrow> (\<forall>t i x. dict_get (au_tasks s) t = Some (i, x) \<longrightarrow> t < au_next s \<and> (x = Close_done True \<longrightarrow> i \<in> au_closed s))"

definition running_ok :: "authority \<Rightarrow> bool" where
  "running_ok s \<longleftrightarrow> (\<forall>t i b. dict_get (au_tasks s) t = Some (i, Close_running b) \<longrightarrow>
     map_option hc_task (dict_get (au_conns s) i) = Some (Some t))"

definition known_task :: "authority \<Rightarrow> bool" where
  "known_task s \<longleftrightarrow> (\<forall>i t. map_option hc_task (dict_get (au_conns s) i) = Some (Some t) \<longrightarrow> (\<exists>x. dict_get (au_tasks s) t = Some (i, x)))"

definition tasks_ok :: "authority \<Rightarrow> bool" where
  "tasks_ok s \<longleftrightarrow> given_out s \<and> running_ok s \<and> known_task s"

definition attempts_ok :: "authority \<Rightarrow> bool" where
  "attempts_ok s \<longleftrightarrow> (\<forall>k i a. attempt_of k i s = Some a \<longrightarrow>
     (\<forall>t. a = Waits_for t \<longrightarrow> (\<exists>x. dict_get (au_tasks s) t = Some (i, x))) \<and> (a = Went_well \<longrightarrow> i \<in> au_closed s))"

definition waited_for :: "nat \<Rightarrow> authority \<Rightarrow> bool" where
  "waited_for i s \<longleftrightarrow> (\<exists>k t. attempt_of k i s = Some (Waits_for t))"

text \<open>A connection that is being retired is held until it is closed, or somebody waits for its close.\<close>

definition retiring_ok :: "authority \<Rightarrow> bool" where
  "retiring_ok s \<longleftrightarrow> (\<forall>i c. dict_get (au_conns s) i = Some c \<longrightarrow> hc_retiring c \<longrightarrow> i \<in> au_held s \<or> i \<in> au_closed s \<or> waited_for i s)"

text \<open>The connections are left alone but for one, which keeps its task\<close>

lemma tasks_ok_conns:
  assumes "tasks_ok s" and "au_tasks u = au_tasks s" "au_next u = au_next s" "au_closed u = au_closed s"
    and "\<And>i. map_option hc_task (dict_get (au_conns u) i) = map_option hc_task (dict_get (au_conns s) i)"
  shows "tasks_ok u"
  using assms by (simp add: tasks_ok_def given_out_def running_ok_def known_task_def)

lemma tasks_ok_retain: "tasks_ok s \<Longrightarrow> tasks_ok (retain i p s)"
proof (cases "dict_get (au_conns s) i")
  case None
  assume ok: "tasks_ok s"
  let ?u = "retain i p s"
  have "map_option hc_task (dict_get (au_conns ?u) j) = (if j = i then Some None else map_option hc_task (dict_get (au_conns s) j))" for j
    by (simp add: retain_def None)
  moreover have "au_tasks ?u = au_tasks s" "au_next ?u = au_next s" "au_closed ?u = au_closed s" by (simp_all add: retain_def)
  ultimately show ?thesis using ok None by (fastforce simp: tasks_ok_def given_out_def running_ok_def known_task_def)
qed (simp add: retain_def)

lemma tasks_ok_start: "tasks_ok s \<Longrightarrow> tasks_ok (attempt_starts k i s)"
proof (cases "attempt_of k i s = Some Not_started \<and> dict_get (au_conns s) i \<noteq> None")
  case True
  assume ok: "tasks_ok s"
  obtain c where c: "dict_get (au_conns s) i = Some c" using True by auto
  show ?thesis
  proof (cases "hc_task c")
    case (Some t)
    then show ?thesis using True c
      by (intro tasks_ok_conns [OF ok]) (auto simp: attempt_starts_def)
  next
    case None
    let ?u = "attempt_starts k i s"
    have fresh: "dict_get (au_tasks s) (au_next s) = None"
      using ok by (cases "dict_get (au_tasks s) (au_next s)") (auto simp: tasks_ok_def given_out_def)
    have u: "au_tasks ?u = dict_put (au_next s) (i, Close_running False) (au_tasks s)" "au_next ?u = au_next s + 1" "au_closed ?u = au_closed s"
      "au_conns ?u = dict_put i (c\<lparr>hc_retiring := True, hc_task := Some (au_next s)\<rparr>) (au_conns s)"
      using True c None by (simp_all add: attempt_starts_def)
    have "given_out ?u" using ok by (auto simp: tasks_ok_def given_out_def u less_Suc_eq)
    moreover have "running_ok ?u"
      using ok c None by (auto simp: tasks_ok_def running_ok_def u) fastforce+
    moreover have "known_task ?u"
      using ok fresh by (auto simp: tasks_ok_def known_task_def u) (metis option.distinct(1))+
    ultimately show ?thesis by (simp add: tasks_ok_def)
  qed
qed (auto simp: attempt_starts_def split: option.split)

lemma tasks_ok_end: "tasks_ok s \<Longrightarrow> tasks_ok (task_ends t ok s)"
proof (cases "\<exists>i b. dict_get (au_tasks s) t = Some (i, Close_running b)")
  case True
  assume g: "tasks_ok s"
  obtain i b where i: "dict_get (au_tasks s) t = Some (i, Close_running b)" using True by auto
  let ?u = "task_ends t ok s"
  have u: "au_tasks ?u = dict_put t (i, Close_done ok) (au_tasks s)" "au_next ?u = au_next s" "au_conns ?u = au_conns s"
    "au_closed ?u = (if ok then insert i (au_closed s) else au_closed s)"
    by (simp_all add: task_ends_def i)
  have "given_out ?u" using g i by (auto simp: tasks_ok_def given_out_def u)
  moreover have "running_ok ?u" using g by (auto simp: tasks_ok_def running_ok_def u)
  moreover have "known_task ?u" using g i by (fastforce simp: tasks_ok_def known_task_def u)
  ultimately show ?thesis by (simp add: tasks_ok_def)
qed (auto simp: task_ends_def split: option.split close_task.split)

lemma tasks_ok_forget:
  assumes "tasks_ok s" and "dict_get (au_tasks s) t = Some (j, Close_done b)"
  shows "tasks_ok (forget_task i t s)"
proof (cases "map_option hc_task (dict_get (au_conns s) i) = Some (Some t)")
  case True
  let ?u = "forget_task i t s"
  have u: "map_option hc_task (dict_get (au_conns ?u) k) = (if k = i then Some None else map_option hc_task (dict_get (au_conns s) k))" for k
    using True by (auto simp: forget_task_def split: option.split)
  have "running_ok ?u" using assms True by (fastforce simp: tasks_ok_def running_ok_def u)
  moreover have "known_task ?u" using assms by (auto simp: tasks_ok_def known_task_def u)
  ultimately show ?thesis using assms by (simp add: tasks_ok_def given_out_def)
next
  case False
  then have "forget_task i t s = s" by (auto simp: forget_task_def split: option.split)
  then show ?thesis using assms by simp
qed

lemma sees_cases:
  obtains (nothing) "attempt_sees k i s = s"
  | (over) t j ok where "attempt_of k i s = Some (Waits_for t)" "dict_get (au_tasks s) t = Some (j, Close_done ok)"
      "attempt_sees k i s = set_attempt k i (if ok then Went_well else Went_wrong)
         ((forget_task i t s)\<lparr>au_held := (if ok then au_held s - {i} else insert i (au_held s))\<rparr>)"
proof (cases "\<exists>t j ok. attempt_of k i s = Some (Waits_for t) \<and> dict_get (au_tasks s) t = Some (j, Close_done ok)")
  case True
  then obtain t j ok where "attempt_of k i s = Some (Waits_for t)" "dict_get (au_tasks s) t = Some (j, Close_done ok)" by blast
  then show ?thesis using over by (simp add: attempt_sees_def)
next
  case False
  then have "attempt_sees k i s = s" by (auto simp: attempt_sees_def split: option.split attempt.split close_task.split)
  then show ?thesis by (rule nothing)
qed

lemma late_cases:
  obtains (nothing) "attempt_late k i s = s"
  | (late) t j b where "attempt_of k i s = Some (Waits_for t)" "dict_get (au_tasks s) t = Some (j, Close_running b)"
      "attempt_late k i s = set_attempt k i Went_wrong
         (s\<lparr>au_tasks := dict_put t (j, Close_running True) (au_tasks s), au_held := insert i (au_held s)\<rparr>)"
proof (cases "\<exists>t j b. attempt_of k i s = Some (Waits_for t) \<and> dict_get (au_tasks s) t = Some (j, Close_running b)")
  case True
  then obtain t j b where "attempt_of k i s = Some (Waits_for t)" "dict_get (au_tasks s) t = Some (j, Close_running b)" by blast
  then show ?thesis using late by (simp add: attempt_late_def)
next
  case False
  then have "attempt_late k i s = s" by (auto simp: attempt_late_def split: option.split attempt.split close_task.split)
  then show ?thesis by (rule nothing)
qed

lemma tasks_ok_sees:
  assumes "tasks_ok s"
  shows "tasks_ok (attempt_sees k i s)"
proof (cases rule: sees_cases [of k i s])
  case (over t j ok)
  show ?thesis unfolding over(3) by (rule tasks_ok_conns [OF tasks_ok_forget [OF assms over(2)]]) simp_all
qed (use assms in simp)

lemma tasks_ok_late:
  assumes "tasks_ok s"
  shows "tasks_ok (attempt_late k i s)"
proof (cases rule: late_cases [of k i s])
  case (late t j b)
  let ?u = "attempt_late k i s"
  have u: "au_tasks ?u = dict_put t (j, Close_running True) (au_tasks s)" "au_next ?u = au_next s" "au_conns ?u = au_conns s"
    "au_closed ?u = au_closed s" by (simp_all add: late(3))
  have "given_out ?u" using assms late(2) by (auto simp: tasks_ok_def given_out_def u)
  moreover have "running_ok ?u" using assms late(2) by (auto simp: tasks_ok_def running_ok_def u)
  moreover have "known_task ?u" using assms late(2) by (fastforce simp: tasks_ok_def known_task_def u)
  ultimately show ?thesis by (simp add: tasks_ok_def)
qed (use assms in simp)

lemma tasks_ok_step: "tasks_ok s \<Longrightarrow> tasks_ok (authority_step e s)"
  by (cases e) (auto simp: tasks_ok_retain tasks_ok_start tasks_ok_end tasks_ok_sees tasks_ok_late release_def disconnect_begin_def
      intro: tasks_ok_conns split: option.split)

lemma attempts_ok_more:
  assumes "attempts_ok s" and "\<And>k i. attempt_of k i u = attempt_of k i s"
    and "\<And>t i x. dict_get (au_tasks s) t = Some (i, x) \<Longrightarrow> \<exists>y. dict_get (au_tasks u) t = Some (i, y)" and "au_closed s \<subseteq> au_closed u"
  shows "attempts_ok u"
  using assms unfolding attempts_ok_def by (metis subsetD)

lemma attempts_ok_set:
  assumes "attempts_ok s" and "a = Went_well \<longrightarrow> i \<in> au_closed s" and "\<forall>t. a = Waits_for t \<longrightarrow> (\<exists>x. dict_get (au_tasks s) t = Some (i, x))"
  shows "attempts_ok (set_attempt k i a s)"
  using assms by (auto simp: attempts_ok_def)

lemma first_attempts: "dict_get (map (\<lambda>i. (i, Not_started)) ids) j = Some a \<Longrightarrow> a = Not_started"
  by (induction ids) (auto simp: dict_get_def split: if_splits)

lemma attempts_ok_step:
  assumes "attempts_ok s" and "tasks_ok s"
  shows "attempts_ok (authority_step e s)"
proof (cases e)
  case (Disconnect k A)
  then show ?thesis using assms(1)
    by (auto simp: attempts_ok_def attempt_of_def disconnect_begin_def split: option.splits if_splits dest: first_attempts)
next
  case (Attempt_starts k i)
  show ?thesis
  proof (cases "attempt_of k i s = Some Not_started \<and> dict_get (au_conns s) i \<noteq> None")
    case True
    then obtain c where c: "dict_get (au_conns s) i = Some c" by auto
    show ?thesis
    proof (cases "hc_task c")
      case None
      have fresh: "dict_get (au_tasks s) (au_next s) = None"
        using assms(2) by (cases "dict_get (au_tasks s) (au_next s)") (auto simp: tasks_ok_def given_out_def)
      have "attempts_ok (s\<lparr>au_conns := dict_put i (c\<lparr>hc_retiring := True, hc_task := Some (au_next s)\<rparr>) (au_conns s),
              au_tasks := dict_put (au_next s) (i, Close_running False) (au_tasks s), au_next := au_next s + 1\<rparr>)"
        by (rule attempts_ok_more [OF assms(1)]) (use fresh in auto)
      then show ?thesis using True c None Attempt_starts by (auto simp: attempt_starts_def intro!: attempts_ok_set)
    next
      case (Some t)
      have "\<exists>x. dict_get (au_tasks s) t = Some (i, x)" using assms(2) c Some by (auto simp: tasks_ok_def known_task_def)
      moreover have "attempts_ok (s\<lparr>au_conns := dict_put i (c\<lparr>hc_retiring := True\<rparr>) (au_conns s)\<rparr>)"
        by (rule attempts_ok_more [OF assms(1)]) auto
      ultimately show ?thesis using True c Some Attempt_starts by (auto simp: attempt_starts_def intro!: attempts_ok_set)
    qed
  qed (use assms Attempt_starts in \<open>auto simp: attempt_starts_def\<close>)
next
  case (Task_ends t ok)
  then show ?thesis
    by (auto intro!: attempts_ok_more [OF assms(1)] simp: task_ends_def split: option.splits close_task.splits if_splits)
next
  case (Attempt_sees k i)
  show ?thesis
  proof (cases rule: sees_cases [of k i s])
    case (over t j ok)
    have "i = j" using assms(1) over(1,2) by (fastforce simp: attempts_ok_def)
    then have "ok \<longrightarrow> i \<in> au_closed s" using assms(2) over(2) by (auto simp: tasks_ok_def given_out_def)
    moreover have "attempts_ok ((forget_task i t s)\<lparr>au_held := (if ok then au_held s - {i} else insert i (au_held s))\<rparr>)"
      by (rule attempts_ok_more [OF assms(1)]) auto
    ultimately show ?thesis using Attempt_sees over(3) by (auto intro!: attempts_ok_set)
  qed (use assms Attempt_sees in simp)
next
  case (Attempt_late k i)
  show ?thesis
  proof (cases rule: late_cases [of k i s])
    case (late t j b)
    have "attempts_ok (s\<lparr>au_tasks := dict_put t (j, Close_running True) (au_tasks s), au_held := insert i (au_held s)\<rparr>)"
      by (rule attempts_ok_more [OF assms(1)]) (use late(2) in auto)
    then show ?thesis using Attempt_late late(3) by (auto intro!: attempts_ok_set)
  qed (use assms Attempt_late in simp)
qed (auto intro!: attempts_ok_more [OF assms(1)] simp: retain_def release_def split: option.split)

lemma waited_for_set:
  assumes "waited_for j s" and "j \<noteq> i \<or> (\<exists>t. a = Waits_for t)"
  shows "waited_for j (set_attempt k i a s)"
  using assms unfolding waited_for_def by (metis attempt_of_set attempt_called)

lemma retiring_ok_step:
  assumes "retiring_ok s" and "tasks_ok s" and "attempts_ok s"
  shows "retiring_ok (authority_step e s)"
proof (cases e)
  case (Disconnect k A)
  have "attempt_of k' i s = Some a \<Longrightarrow> attempt_of k' i (disconnect_begin k A s) = Some a" for k' i a
    by (auto simp: attempt_of_def disconnect_begin_def split: option.splits)
  then have "waited_for i s \<Longrightarrow> waited_for i (disconnect_begin k A s)" for i unfolding waited_for_def by metis
  moreover have "au_conns (disconnect_begin k A s) = au_conns s" "au_held (disconnect_begin k A s) = au_held s"
    "au_closed (disconnect_begin k A s) = au_closed s" by (simp_all add: disconnect_begin_def)
  ultimately show ?thesis using assms(1) unfolding Disconnect retiring_ok_def authority_step.simps by metis
next
  case (Attempt_starts k i)
  show ?thesis
  proof (cases "attempt_of k i s = Some Not_started \<and> dict_get (au_conns s) i \<noteq> None")
    case True
    let ?u = "attempt_starts k i s"
    obtain c where c: "dict_get (au_conns s) i = Some c" using True by auto
    have called: "dict_get (au_calls s) k \<noteq> None" using True attempt_called by blast
    have frame: "au_held ?u = au_held s" "au_closed ?u = au_closed s"
      "j \<noteq> i \<Longrightarrow> dict_get (au_conns ?u) j = dict_get (au_conns s) j" for j
      using True c by (auto simp: attempt_starts_def split: option.split)
    have at: "attempt_of k' j ?u = (if k' = k \<and> j = i then attempt_of k i ?u else attempt_of k' j s)" for k' j
      using True c by (auto simp: attempt_starts_def split: option.split)
    have "\<exists>t. attempt_of k i ?u = Some (Waits_for t)"
      using True c called by (auto simp: attempt_starts_def split: option.split)
    then have "waited_for i ?u" unfolding waited_for_def by blast
    moreover have "waited_for j s \<Longrightarrow> j \<noteq> i \<Longrightarrow> waited_for j ?u" for j unfolding waited_for_def using at by metis
    ultimately show ?thesis using assms(1) frame Attempt_starts unfolding retiring_ok_def by (metis authority_step.simps(4))
  qed (use assms Attempt_starts in \<open>auto simp: attempt_starts_def\<close>)
next
  case (Attempt_sees k i)
  show ?thesis
  proof (cases rule: sees_cases [of k i s])
    case (over t j ok)
    have "i = j" using assms(3) over(1,2) by (fastforce simp: attempts_ok_def)
    then have closed: "ok \<longrightarrow> i \<in> au_closed s" using assms(2) over(2) by (auto simp: tasks_ok_def given_out_def)
    let ?u = "attempt_sees k i s"
    have conns: "map_option hc_retiring (dict_get (au_conns ?u) n) = map_option hc_retiring (dict_get (au_conns s) n)" for n
      unfolding over(3) by (auto simp: forget_task_def split: option.split)
    have held: "n \<noteq> i \<Longrightarrow> n \<in> au_held ?u \<longleftrightarrow> n \<in> au_held s" "i \<in> au_held ?u \<or> i \<in> au_closed ?u" for n
      using closed by (auto simp: over(3))
    have "waited_for n s \<Longrightarrow> n \<noteq> i \<Longrightarrow> waited_for n ?u" for n
      unfolding over(3) by (intro waited_for_set) (auto simp: waited_for_def)
    then have waited: "waited_for n s \<Longrightarrow> n \<noteq> i \<Longrightarrow> waited_for n ?u" for n .
    have "n \<in> au_held ?u \<or> n \<in> au_closed ?u \<or> waited_for n ?u" if n: "dict_get (au_conns ?u) n = Some c" "hc_retiring c" for n c
    proof (cases "n = i")
      case False
      obtain c' where "dict_get (au_conns s) n = Some c'" "hc_retiring c'"
        using conns [of n] n by (cases "dict_get (au_conns s) n") auto
      then have "n \<in> au_held s \<or> n \<in> au_closed s \<or> waited_for n s" using assms(1) unfolding retiring_ok_def by blast
      then show ?thesis using False held(1) waited over(3) by auto
    qed (use held(2) in blast)
    then show ?thesis unfolding Attempt_sees retiring_ok_def authority_step.simps by blast
  qed (use assms Attempt_sees in simp)
next
  case (Attempt_late k i)
  show ?thesis
  proof (cases rule: late_cases [of k i s])
    case (late t j b)
    let ?u = "attempt_late k i s"
    have "waited_for n s \<Longrightarrow> n \<noteq> i \<Longrightarrow> waited_for n ?u" for n
      unfolding late(3) by (intro waited_for_set) (auto simp: waited_for_def)
    then show ?thesis using assms(1) Attempt_late late(3) unfolding retiring_ok_def by auto
  qed (use assms Attempt_late in simp)
next
  case (Task_ends t ok)
  have "waited_for n (task_ends t ok s) = waited_for n s" for n
    by (auto simp: waited_for_def task_ends_def split: option.split close_task.split)
  then show ?thesis using assms(1) Task_ends
    by (auto simp: retiring_ok_def task_ends_def split: option.split close_task.split)
qed (use assms(1) in \<open>auto simp: retiring_ok_def retain_def release_def waited_for_def split: option.split\<close>)

definition authority_ok :: "authority \<Rightarrow> bool" where
  "authority_ok s \<longleftrightarrow> tasks_ok s \<and> attempts_ok s \<and> retiring_ok s"

lemma authority_ok_none: "authority_ok no_authority"
  by (simp add: authority_ok_def tasks_ok_def given_out_def running_ok_def known_task_def attempts_ok_def attempt_of_def
      retiring_ok_def no_authority_def dict_get_def)

lemma authority_ok_step: "authority_ok s \<Longrightarrow> authority_ok (authority_step e s)"
  by (simp add: authority_ok_def tasks_ok_step attempts_ok_step retiring_ok_step)

interpretation authority_machine: event_machine authority_step authority_ok
  by unfold_locales (rule authority_ok_step)

lemma authority_ok_run: "authority_ok s \<Longrightarrow> authority_ok (authority_run es s)"
  unfolding authority_run_def by (rule authority_machine.every_run)

lemma attempt_kept_step: "attempt_of k i s \<noteq> None \<Longrightarrow> attempt_of k i (authority_step e s) \<noteq> None"
proof (cases e)
  case (Disconnect k' A)
  assume "attempt_of k i s \<noteq> None"
  then show ?thesis using Disconnect by (auto simp: attempt_of_def disconnect_begin_def split: option.splits)
next
  case (Attempt_sees k' i')
  assume "attempt_of k i s \<noteq> None"
  then show ?thesis using Attempt_sees by (cases rule: sees_cases [of k' i' s]) (auto simp del: not_None_eq)
next
  case (Attempt_late k' i')
  assume "attempt_of k i s \<noteq> None"
  then show ?thesis using Attempt_late by (cases rule: late_cases [of k' i' s]) (auto simp del: not_None_eq)
qed (auto simp: retain_def release_def attempt_starts_def task_ends_def split: option.split close_task.split)

interpretation attempts: event_machine authority_step "\<lambda>s. attempt_of k i s \<noteq> None" for k i
  by unfold_locales (rule attempt_kept_step)

lemma attempt_kept: "attempt_of k i s \<noteq> None \<Longrightarrow> attempt_of k i (authority_run es s) \<noteq> None"
  unfolding authority_run_def by (rule attempts.every_run)

lemma call_well: "call_ends k s = Some True \<Longrightarrow> attempt_of k i s = Some a \<Longrightarrow> a = Went_well"
  by (auto simp: call_ends_def attempt_of_def list_all_iff dict_values_def split: option.splits if_splits dest!: dict_get_in)

section \<open>What a caller may rely on\<close>

lemma stale_call_closes:
  assumes "authority_ok s" and "dict_get (au_calls s) k = None"
    and "i \<in> au_held s" and "dict_get (au_conns s) i = Some c" and "\<not> current A (Some (hc_principal c))"
    and "call_ends k t = Some True" and "t = authority_run later (disconnect_begin k A s)"
  shows "i \<in> au_closed t"
proof -
  have "i \<in> set (stale_conns A s)"
    using assms(3-5) dict_get_in [OF assms(4)] by (auto simp: stale_conns_def dict_keys_def intro: rev_image_eqI)
  then have "dict_get (map (\<lambda>i. (i, Not_started)) (stale_conns A s)) i \<noteq> None"
    by (auto simp: dict_get_None dict_keys_def)
  then have "attempt_of k i (disconnect_begin k A s) \<noteq> None"
    using assms(2) by (simp add: attempt_of_def disconnect_begin_def)
  then obtain a where a: "attempt_of k i t = Some a" using attempt_kept assms(7) by fastforce
  have "authority_ok (authority_step (Disconnect k A) s)" by (intro authority_ok_step assms(1))
  then have "attempts_ok t" using authority_ok_run assms(7) by (simp add: authority_ok_def)
  then show ?thesis using a call_well [OF assms(6) a] by (auto simp: attempts_ok_def)
qed

text \<open>C6: A revocation that reports success has closed everything. Whatever other callers, closes, failures and releases
  interleave with it, when a call of \<open>disconnect_stale\<close> ends without an error, every transport that was retained when it
  began, under a credential that was not current then, has been closed.\<close>

theorem disconnect_closes_all_stale:
  assumes "s = authority_run es no_authority" and "dict_get (au_calls s) k = None"
    and "i \<in> au_held s" and "dict_get (au_conns s) i = Some c" and "\<not> current A (Some (hc_principal c))"
    and "t = authority_run later (disconnect_begin k A s)" and "call_ends k t = Some True"
  shows "i \<in> au_closed t"
  using stale_call_closes [OF _ assms(2-5,7)] assms(1,6) by (simp add: authority_ok_run authority_ok_none)

definition gone_principal :: principal where
  "gone_principal = \<lparr> pr_role = DEVICE, pr_subject = ''dev_1'', pr_credential_id = ''c1'', pr_generation = ''g'' \<rparr>"

lemma gone_not_current: "\<not> current (running (demo_snapshot False [])) (Some gone_principal)"
  by (simp add: current_def usable_def demo_credential_def)

definition two_callers :: "authority_event list" where
  "two_callers = [Attempt_starts 1 7, Disconnect 2 (running (demo_snapshot False [])), Attempt_starts 2 7, Task_ends 0 True,
     Attempt_sees 2 7, Attempt_sees 1 7]"

lemma disconnect_closes_all_stale_witness:
  "7 \<in> au_closed (authority_run two_callers (disconnect_begin 1 (running (demo_snapshot False [])) (authority_run [Retain 7 gone_principal] no_authority)))"
proof -
  let ?A = "running (demo_snapshot False [])"
  let ?s = "authority_run [Retain 7 gone_principal] no_authority"
  let ?t = "authority_run two_callers (disconnect_begin 1 ?A ?s)"
  have s: "dict_get (au_calls ?s) 1 = None" "7 \<in> au_held ?s"
    "dict_get (au_conns ?s) 7 = Some \<lparr> hc_principal = gone_principal, hc_retiring = False, hc_task = None \<rparr>"
    by (simp_all add: authority_run_def retain_def no_authority_def) (simp_all add: dict_get_def dict_put_def)
  have e: "call_ends 1 ?t = Some True"
    using gone_not_current
    by (simp add: authority_run_def retain_def no_authority_def dict_get_def dict_put_def two_callers_def disconnect_begin_def
        stale_conns_def attempt_starts_def attempt_of_def set_attempt_def task_ends_def attempt_sees_def forget_task_def
        call_ends_def dict_values_def dict_keys_def)
  have n: "\<not> current ?A (Some (hc_principal \<lparr> hc_principal = gone_principal, hc_retiring = False, hc_task = None \<rparr>))"
    using gone_not_current by simp
  show ?thesis by (rule disconnect_closes_all_stale [OF refl s n refl e])
qed

text \<open>A transport that is being retired is not forgotten: until it is closed it is retained, so that the next call finds it,
  or somebody waits for its close; and it never has two closes running.\<close>

theorem retiring_is_not_forgotten:
  assumes "s = authority_run es no_authority" and "dict_get (au_conns s) i = Some c"
  shows "(hc_retiring c \<longrightarrow> i \<in> au_held s \<or> i \<in> au_closed s \<or> waited_for i s)
    \<and> (\<forall>t t' b b'. dict_get (au_tasks s) t = Some (i, Close_running b) \<longrightarrow> dict_get (au_tasks s) t' = Some (i, Close_running b') \<longrightarrow> t = t')"
proof -
  have "authority_ok s" unfolding assms(1) by (rule authority_ok_run [OF authority_ok_none])
  then have "running_ok s" "retiring_ok s" by (simp_all add: authority_ok_def tasks_ok_def)
  then show ?thesis using assms(2) unfolding running_ok_def retiring_ok_def by (metis option.inject option.simps(9))
qed

end
