(* ===== verification/Pairing_Audio.thy ===== *)
theory Pairing_Audio
  imports Wire_Frames Speech_Laws
begin

text \<open>
  \<open>provisioning/pairing_audio.py\<close>: the two messages a device speaks while it is paired, kept in \<open>config.json\<close>, and
  the proof response that carries them as audio. What synthesis gives for a text is a parameter: the chunks it yields
  and whether it ends without an error, in time. \<open>json.dumps\<close> is one too.
\<close>

definition MEDIA_TYPE :: string where "MEDIA_TYPE = ''application/vnd.vauxr.pairing-audio''"

definition MAX_INTRO_BYTES :: nat where "MAX_INTRO_BYTES = 16000 * 2 * 40"

definition MAX_CODE_BYTES :: nat where "MAX_CODE_BYTES = 16000 * 2 * 20"

record prompts =
  pp_intro :: string
  pp_code :: string

definition default_prompts :: prompts where
  "default_prompts = \<lparr>
     pp_intro = ''Your Vauxr device is now entering pairing mode. Please go to the Vauxr portal. ''
       @ ''Press the action button when you're ready to hear your pairing code.'',
     pp_code = ''Your pairing code is {code}. Press the action button to hear the code again.'' \<rparr>"

section \<open>Texts\<close>

definition slot :: string where "slot = ''{code}''"

text \<open>\<open>text.count("{code}")\<close> and \<open>text.replace("{code}", spoken)\<close>; two slots never overlap.\<close>

function count_slots :: "string \<Rightarrow> nat" where
  "count_slots [] = 0"
| "count_slots (c # cs) = (if starts_with slot (c # cs) then Suc (count_slots (drop 6 (c # cs))) else count_slots cs)"
  by pat_completeness auto
termination by (relation "measure length") auto

function fill_slots :: "string \<Rightarrow> string \<Rightarrow> string" where
  "fill_slots spoken [] = []"
| "fill_slots spoken (c # cs) =
    (if starts_with slot (c # cs) then spoken @ fill_slots spoken (drop 6 (c # cs)) else c # fill_slots spoken cs)"
  by pat_completeness auto
termination by (relation "measure (length \<circ> snd)") auto

definition speakable :: "char \<Rightarrow> bool" where
  "speakable c \<longleftrightarrow> 32 \<le> (of_char c :: nat) \<or> of_char c = (10 :: nat) \<or> of_char c = (9 :: nat)"

definition prompt_text_ok :: "nat \<Rightarrow> string \<Rightarrow> bool" where
  "prompt_text_ok limit t \<longleftrightarrow> strip t \<noteq> [] \<and> length t \<le> limit \<and> list_all speakable t"

definition validate_prompts :: "json \<Rightarrow> exn + prompts" where
  "validate_prompts v =
    (if \<not> keys_are v [''intro'', ''code''] then Inl ValueError
     else case (jat v ''intro'', jat v ''code'') of
       (JStr intro, JStr code) \<Rightarrow>
         if \<not> prompt_text_ok 400 intro \<or> \<not> prompt_text_ok 200 code then Inl ValueError
         else if count_slots code \<noteq> 1 \<or> count_slots intro \<noteq> 0 then Inl ValueError
         else Inr \<lparr> pp_intro = strip intro, pp_code = strip code \<rparr>
     | _ \<Rightarrow> Inl ValueError)"

section \<open>\<open>config.json\<close>\<close>

definition prompts_json :: "prompts \<Rightarrow> json" where
  "prompts_json p = JObj [(''intro'', JStr (pp_intro p)), (''code'', JStr (pp_code p))]"

definition pairing_of :: "json \<Rightarrow> json" where
  "pairing_of data = get_or data ''pairing'' (JObj [])"

definition load_prompts :: "doc_file \<Rightarrow> exn + prompts" where
  "load_prompts f = (case (if doc_exists f then read_json f else Inr (JObj [])) of
     Inl e \<Rightarrow> Inl e
   | Inr data \<Rightarrow>
       if \<not> is_obj data \<or> \<not> is_obj (pairing_of data) then Inl (ConfigError ''pairing'')
       else (case validate_prompts (get_or (pairing_of data) ''prompts'' (prompts_json default_prompts)) of
           Inl _ \<Rightarrow> Inl (ConfigError ''pairing.prompts'') | Inr p \<Rightarrow> Inr p))"

definition with_prompts :: "prompts \<Rightarrow> json \<Rightarrow> exn + json" where
  "with_prompts p data =
    (if \<not> is_obj (pairing_of data) then Inl (ConfigError ''pairing'')
     else Inr (put_key ''pairing'' (put_key ''prompts'' (prompts_json p) (pairing_of data)) data))"

definition save_prompts :: "write_outcome \<Rightarrow> json \<Rightarrow> doc_file \<Rightarrow> (exn + prompts) \<times> doc_file" where
  "save_prompts oc v f = (case validate_prompts v of
     Inl e \<Rightarrow> (Inl e, f)
   | Inr p \<Rightarrow> (case update_json oc (with_prompts p) f of
       (Inl e, g, _) \<Rightarrow> (Inl e, g) | (Inr _, g, _) \<Rightarrow> (Inr p, g)))"

section \<open>Audio\<close>

fun gather :: "nat \<Rightarrow> byte list list \<Rightarrow> byte list \<Rightarrow> byte list option" where
  "gather limit [] pcm = Some pcm"
| "gather limit (c # cs) pcm = (if limit < length pcm + length c then None else gather limit cs (pcm @ c))"

text \<open>\<open>render\<close>: \<open>None\<close> stands for any of its exceptions.\<close>

definition render :: "(string \<Rightarrow> byte list list \<times> bool) \<Rightarrow> nat \<Rightarrow> string \<Rightarrow> byte list option" where
  "render synth limit text1 = (case synth text1 of (chunks, ended) \<Rightarrow>
     (case gather limit chunks [] of
        Some pcm \<Rightarrow> if ended \<and> pcm \<noteq> [] \<and> even (length pcm) then Some pcm else None
      | None \<Rightarrow> None))"

text \<open>\<open>struct.pack("<I", n)\<close>\<close>

definition little_endian :: "nat \<Rightarrow> byte list" where
  "little_endian n = map (\<lambda>k. word_of_nat (n div 256 ^ k)) [0, 1, 2, 3]"

definition envelope_mark :: "byte list" where "envelope_mark = [0x56, 0x50, 0x41, 0x31]"

definition envelope :: "byte list \<Rightarrow> byte list \<Rightarrow> byte list \<Rightarrow> byte list" where
  "envelope metadata intro code =
     envelope_mark @ little_endian (length metadata) @ little_endian (length intro) @ metadata @ intro @ code"

section \<open>The proof response\<close>

definition digit_word :: "char \<Rightarrow> string" where
  "digit_word c = [''zero'', ''one'', ''two'', ''three'', ''four'', ''five'', ''six'', ''seven'', ''eight'', ''nine''] ! (of_char c - 48)"

fun comma_list :: "string list \<Rightarrow> string" where
  "comma_list [] = []"
| "comma_list [w] = w"
| "comma_list (w # ws) = w @ '', '' @ comma_list ws"

definition spoken_code :: "string \<Rightarrow> string" where
  "spoken_code code = comma_list (map digit_word code)"

definition guided :: "json \<Rightarrow> prompts \<Rightarrow> json" where
  "guided result p = put_key ''intro_text'' (JStr (pp_intro p)) (put_key ''guided'' (JBool True) result)"

datatype proof_reply = Plain json | Audio "byte list"

definition usable_prompts :: "doc_file \<Rightarrow> prompts" where
  "usable_prompts f = (case load_prompts f of Inr p \<Rightarrow> p | Inl _ \<Rightarrow> default_prompts)"

text \<open>\<open>busy\<close>: both slots for synthesis are taken; \<open>now\<close>: the clock after synthesis\<close>

definition proof_response ::
    "(json \<Rightarrow> byte list) \<Rightarrow> (string \<Rightarrow> byte list list \<times> bool) \<Rightarrow> bool \<Rightarrow> bool \<Rightarrow> time \<Rightarrow> doc_file \<Rightarrow> json \<Rightarrow> proof_reply" where
  "proof_response dumps synth wants_audio busy now f result =
    (if \<not> wants_audio then Plain result
     else
       let p = usable_prompts f; told = guided result p;
           spoken = spoken_code (str_value (jat result ''code''))
       in if busy then Plain told
          else case render synth MAX_INTRO_BYTES (pp_intro p) of
            None \<Rightarrow> Plain told
          | Some intro \<Rightarrow> (case render synth MAX_CODE_BYTES (fill_slots spoken (pp_code p)) of
              None \<Rightarrow> Plain told
            | Some code \<Rightarrow>
                if num_value (jat result ''expires_at'') \<le> now then Plain told
                else Audio (envelope (dumps told) intro code)))"

section \<open>Saved messages are the ones that are spoken\<close>

lemma slot_no_space: "c \<in> set slot \<Longrightarrow> \<not> is_space c"
  by (auto simp: slot_def is_space_def char_between_def)

lemma length_slot [simp]: "length slot = 6"
  by (simp add: slot_def)

lemma count_slots_lstrip: "count_slots (lstrip s) = count_slots s"
proof (induction s)
  case (Cons c cs)
  have "is_space c \<Longrightarrow> \<not> starts_with slot (c # cs)"
    using slot_no_space by (auto simp: starts_with_def slot_def)
  then show ?case using Cons by (simp add: lstrip_def)
qed (simp add: lstrip_def)

lemma starts_with_spaces:
  assumes "list_all is_space ss"
  shows "starts_with slot (xs @ ss) \<longleftrightarrow> starts_with slot xs"
proof (cases "6 \<le> length xs")
  case False
  have "\<not> starts_with slot xs" using False by (auto simp: starts_with_def dest!: arg_cong [of _ _ length])
  moreover have "\<not> starts_with slot (xs @ ss)"
  proof
    assume a: "starts_with slot (xs @ ss)"
    then have t: "take 6 (xs @ ss) = slot" by (simp add: starts_with_def)
    then have "length xs < length (xs @ ss)" using False by (auto dest!: arg_cong [of _ _ length])
    then have "slot ! length xs = (xs @ ss) ! length xs" using t False by (metis nth_take not_le)
    then have "slot ! length xs \<in> set ss" using \<open>length xs < length (xs @ ss)\<close> by (simp add: nth_append)
    moreover have "slot ! length xs \<in> set slot" using False by simp
    ultimately show False using assms slot_no_space by (auto simp: list_all_iff)
  qed
  ultimately show ?thesis by simp
qed (simp add: starts_with_def)

lemma count_slots_spaces: "list_all is_space ss \<Longrightarrow> count_slots ss = 0"
proof (induction ss)
  case (Cons c cs)
  then have "\<not> starts_with slot (c # cs)"
    using slot_no_space [of c] by (auto simp: starts_with_def slot_def)
  then show ?case using Cons by simp
qed simp

lemma count_slots_append_spaces: "list_all is_space ss \<Longrightarrow> count_slots (xs @ ss) = count_slots xs"
proof (induction xs rule: count_slots.induct)
  case (2 c cs)
  have e: "starts_with slot (c # cs @ ss) = starts_with slot (c # cs)" using starts_with_spaces [of ss "c # cs"] 2(3) by simp
  show ?case
  proof (cases "starts_with slot (c # cs)")
    case True
    then have "6 \<le> length (c # cs)" by (auto simp: starts_with_def dest!: arg_cong [of _ _ length])
    then show ?thesis using 2 True e by simp
  qed (use 2 e in simp)
qed (simp add: count_slots_spaces)

lemma count_slots_strip [simp]: "count_slots (strip s) = count_slots s"
proof -
  have "\<exists>ss. lstrip s = strip s @ ss \<and> list_all is_space ss"
  proof -
    let ?l = "lstrip s"
    have "rev ?l = takeWhile is_space (rev ?l) @ dropWhile is_space (rev ?l)" by simp
    then have "?l = rev (dropWhile is_space (rev ?l)) @ rev (takeWhile is_space (rev ?l))" by (metis rev_append rev_rev_ident)
    moreover have "list_all is_space (rev (takeWhile is_space (rev ?l)))" by (auto simp: list_all_iff dest: set_takeWhileD)
    ultimately show ?thesis by (auto simp: strip_def rstrip_def)
  qed
  then obtain ss where "lstrip s = strip s @ ss" "list_all is_space ss" by auto
  then show ?thesis using count_slots_append_spaces [of ss "strip s"] count_slots_lstrip [of s] by simp
qed

lemma strip_set: "set (strip s) \<subseteq> set s" "length (strip s) \<le> length s"
proof -
  show "set (strip s) \<subseteq> set s" by (auto simp: strip_def rstrip_def lstrip_def dest!: set_dropWhileD)
  have "length (dropWhile is_space (rev (dropWhile is_space s))) \<le> length (dropWhile is_space s)"
    using length_dropWhile_le [of is_space "rev (dropWhile is_space s)"] by simp
  also have "\<dots> \<le> length s" by (rule length_dropWhile_le)
  finally show "length (strip s) \<le> length s" by (simp add: strip_def rstrip_def lstrip_def)
qed

definition prompts_ok :: "prompts \<Rightarrow> bool" where
  "prompts_ok p \<longleftrightarrow> prompt_text_ok 400 (pp_intro p) \<and> prompt_text_ok 200 (pp_code p)
     \<and> count_slots (pp_code p) = 1 \<and> count_slots (pp_intro p) = 0 \<and> strip (pp_intro p) = pp_intro p \<and> strip (pp_code p) = pp_code p"

lemma prompt_text_strip: "prompt_text_ok n t \<Longrightarrow> prompt_text_ok n (strip t)"
  using strip_set [of t] by (auto simp: prompt_text_ok_def list_all_iff)

lemma validated_ok: "validate_prompts v = Inr p \<Longrightarrow> prompts_ok p"
  by (auto simp: validate_prompts_def prompts_ok_def prompt_text_strip split: if_splits json.splits)

lemma validate_written:
  assumes "prompts_ok p" and "jget v ''intro'' = Some (JStr (pp_intro p))" and "jget v ''code'' = Some (JStr (pp_code p))"
    and "keys_are v [''intro'', ''code'']"
  shows "validate_prompts v = Inr p"
  using assms by (simp add: validate_prompts_def prompts_ok_def jat_def)

lemma same_json_obj:
  assumes "same_json (JObj a) b"
  shows "\<exists>kvs. b = JObj kvs \<and> length a = length kvs
    \<and> (\<forall>kv \<in> set a. \<exists>w. map_of kvs (fst kv) = Some w \<and> same_json (snd kv) w)"
  using assms by (cases b) (auto simp: num_view_def split: option.splits)

lemma same_json_str: "same_json (JStr t) b \<Longrightarrow> b = JStr t"
  by (cases b) (auto simp: num_view_def)

lemma validate_same:
  assumes "prompts_ok p" and "same_json (prompts_json p) v"
  shows "validate_prompts v = Inr p"
proof -
  obtain kvs where v: "v = JObj kvs" "length kvs = 2"
    "map_of kvs ''intro'' = Some (JStr (pp_intro p))" "map_of kvs ''code'' = Some (JStr (pp_code p))"
    using same_json_obj [OF assms(2) [unfolded prompts_json_def]] by (auto dest!: same_json_str)
  have "{''intro'', ''code''} \<subseteq> set (map fst kvs)" using v(3,4) by (force dest!: map_of_SomeD)
  moreover have "card (set (map fst kvs)) \<le> card {''intro'', ''code''}"
    using card_length [of "map fst kvs"] v(2) by simp
  ultimately have "set (map fst kvs) = {''intro'', ''code''}" by (intro card_seteq [symmetric] finite_set)
  then have "keys_are v [''intro'', ''code'']" by (simp add: v(1) keys_are_def jkeys_def)
  moreover have "jget v ''intro'' = Some (JStr (pp_intro p))" "jget v ''code'' = Some (JStr (pp_code p))"
    using v(3,4) by (simp_all only: v(1) jget.simps)
  ultimately show ?thesis by (intro validate_written [OF assms(1)])
qed

lemma update_read:
  assumes "update_json oc change f = (Inr result, g, wrote)"
  shows "\<exists>data. unique_json data \<and> is_obj data \<and> (f = Doc data \<or> f = No_file \<and> data = JObj []) \<and> change data = Inr result
    \<and> (g = Doc result \<or> g = Doc data \<and> same_json result data)"
  using assms
  by (cases f) (auto simp: update_json_def write_json_def doc_exists_def read_json_def
      split: if_splits sum.splits write_outcome.splits)

lemma jget_put_key: "jget (put_key k v j) k' = (if k' = k then Some v else jget j k')"
proof -
  have "jget j k' = dict_get (obj_pairs j) k'" by (cases j) (simp_all add: dict_get_def)
  then show ?thesis by (simp add: put_key_def dict_get_def [symmetric])
qed

lemma same_json_jget:
  assumes "same_json j b" and "is_obj j" and "jget j k = Some v"
  shows "\<exists>w. jget b k = Some w \<and> same_json v w"
proof -
  obtain a where a: "j = JObj a" using assms(2) by (cases j) auto
  obtain kvs where "b = JObj kvs" "\<forall>kv \<in> set a. \<exists>w. map_of kvs (fst kv) = Some w \<and> same_json (snd kv) w"
    using same_json_obj [of a b] assms(1) a by auto
  moreover have "(k, v) \<in> set a" using assms(3) a by (auto dest: dict_get_in)
  ultimately show ?thesis by (auto simp: dict_get_def dest!: bspec)
qed

lemma is_obj_put_key [simp]: "is_obj (put_key k v j)"
  by (simp add: put_key_def)

lemma with_prompts_read:
  assumes "with_prompts p data = Inr result" and "unique_json data" and "prompts_ok p"
  shows "load_prompts (Doc result) = Inr p" and "is_obj result"
proof -
  have r: "result = put_key ''pairing'' (put_key ''prompts'' (prompts_json p) (pairing_of data)) data"
    using assms(1) by (auto simp: with_prompts_def split: if_splits)
  have "unique_json (pairing_of data)" unfolding pairing_of_def by (rule unique_get_or [OF assms(2)]) simp
  then have u: "unique_json result" unfolding r by (intro unique_put_key assms(2)) (simp_all add: prompts_json_def)
  have "validate_prompts (prompts_json p) = Inr p"
    by (rule validate_written [OF assms(3)]) (simp_all add: prompts_json_def keys_are_def jkeys_def dict_get_def)
  then show "load_prompts (Doc result) = Inr p"
    using u by (simp add: load_prompts_def doc_exists_def read_json_def r pairing_of_def get_or_def jget_put_key)
  show "is_obj result" by (simp add: r)
qed

lemma with_prompts_unchanged:
  assumes "with_prompts p data = Inr result" and "unique_json data" and "is_obj data" and "prompts_ok p" and "same_json result data"
  shows "load_prompts (Doc data) = Inr p"
proof -
  have r: "result = put_key ''pairing'' (put_key ''prompts'' (prompts_json p) (pairing_of data)) data"
    using assms(1) by (auto simp: with_prompts_def split: if_splits)
  obtain w where w: "jget data ''pairing'' = Some w" "same_json (put_key ''prompts'' (prompts_json p) (pairing_of data)) w"
    using same_json_jget [OF assms(5), of "''pairing''"] by (auto simp: r jget_put_key)
  obtain x where x: "jget w ''prompts'' = Some x" "same_json (prompts_json p) x"
    using same_json_jget [OF w(2), of "''prompts''"] by (auto simp: jget_put_key)
  have "is_obj w" using w(2) by (auto simp: put_key_def dest: same_json_obj)
  then show ?thesis using assms(2,3) w(1) x validate_same [OF assms(4) x(2)]
    by (simp add: load_prompts_def doc_exists_def read_json_def pairing_of_def get_or_def)
qed

text \<open>Pairing messages that were saved are the ones the next pairing speaks: when \<open>save_prompts\<close> returns, the file
  is read back as exactly the messages it returned, they have the documented form with the code slot once in the
  second only, and every other setting of \<open>config.json\<close> is as it was.\<close>

theorem saved_prompts_are_loaded:
  assumes "save_prompts oc v f = (Inr p, g)"
  shows "load_prompts g = Inr p \<and> prompts_ok p
    \<and> (\<exists>old new. (f = Doc old \<or> f = No_file \<and> old = JObj []) \<and> g = Doc new
         \<and> (\<forall>k. k \<noteq> ''pairing'' \<longrightarrow> jget new k = jget old k)
         \<and> (\<forall>k. k \<noteq> ''prompts'' \<longrightarrow> jget (pairing_of new) k = jget (pairing_of old) k))"
proof -
  have v: "validate_prompts v = Inr p"
    using assms by (auto simp: save_prompts_def split: sum.splits prod.splits)
  obtain result wrote where "update_json oc (with_prompts p) f = (Inr result, g, wrote)"
    using assms v by (auto simp: save_prompts_def split: sum.splits prod.splits)
  then obtain data where d: "unique_json data" "is_obj data" "f = Doc data \<or> f = No_file \<and> data = JObj []"
    "with_prompts p data = Inr result" "g = Doc result \<or> g = Doc data \<and> same_json result data"
    using update_read by blast
  note ok = validated_ok [OF v]
  have r: "result = put_key ''pairing'' (put_key ''prompts'' (prompts_json p) (pairing_of data)) data"
    using d(4) by (auto simp: with_prompts_def split: if_splits)
  have same: "k \<noteq> ''pairing'' \<longrightarrow> jget result k = jget data k" "k \<noteq> ''prompts'' \<longrightarrow> jget (pairing_of result) k = jget (pairing_of data) k" for k
    by (auto simp: r jget_put_key pairing_of_def get_or_def)
  from d(5) show ?thesis
  proof
    assume "g = Doc result"
    then show ?thesis using with_prompts_read [OF d(4,1) ok] ok d(3) same by blast
  next
    assume g: "g = Doc data \<and> same_json result data"
    then have "load_prompts g = Inr p" using with_prompts_unchanged [OF d(4,1,2) ok] by simp
    then show ?thesis using ok d(3) g by blast
  qed
qed

definition house_file :: doc_file where
  "house_file = Doc (JObj [(''transcription'', JStr ''on''), (''pairing'', JObj [(''window'', JInt 90)])])"

definition house_messages :: json where
  "house_messages = JObj [(''code'', JStr ''Say {code}''), (''intro'', JStr '' Hello '')]"

lemma saved_prompts_are_loaded_witness:
  "load_prompts (snd (save_prompts Write_ok house_messages house_file)) = Inr \<lparr> pp_intro = ''Hello'', pp_code = ''Say {code}'' \<rparr>"
proof -
  have "save_prompts Write_ok house_messages house_file
    = (Inr \<lparr> pp_intro = ''Hello'', pp_code = ''Say {code}'' \<rparr>, snd (save_prompts Write_ok house_messages house_file))"
    by code_simp
  from saved_prompts_are_loaded [OF this] show ?thesis by simp
qed

section \<open>The envelope is read back\<close>

text \<open>What the format in the comment of \<open>proof_response\<close> says a device makes of an envelope\<close>

definition of_little_endian :: "byte list \<Rightarrow> nat" where
  "of_little_endian bs = foldr (\<lambda>b n. unat b + 256 * n) bs 0"

definition read_envelope :: "byte list \<Rightarrow> (byte list \<times> byte list \<times> byte list) option" where
  "read_envelope bs =
    (let m = of_little_endian (take 4 (drop 4 bs)); n = of_little_endian (take 4 (drop 8 bs)); rest = drop 12 bs in
     if take 4 bs \<noteq> envelope_mark \<or> length rest < m + n then None
     else Some (take m rest, take n (drop m rest), drop (m + n) rest))"

lemma length_little_endian [simp]: "length (little_endian n) = 4"
  by (simp add: little_endian_def)

lemma unat_byte: "unat (word_of_nat n :: byte) = n mod 256"
  by (simp add: unat_of_nat)

lemma little_endian_read: "n < 2 ^ 32 \<Longrightarrow> of_little_endian (little_endian n) = n"
proof -
  assume n: "n < 2 ^ 32"
  have "n div 16777216 < 256" using n by simp
  then have "n div 16777216 mod 256 = n div 16777216" by simp
  moreover have "n div 65536 = n div 65536 mod 256 + 256 * (n div 16777216)"
    using mod_mult_div_eq [of "n div 65536" 256] by (simp add: div_mult2_eq [symmetric])
  moreover have "n div 256 = n div 256 mod 256 + 256 * (n div 65536)"
    using mod_mult_div_eq [of "n div 256" 256] by (simp add: div_mult2_eq [symmetric])
  moreover have "n = n mod 256 + 256 * (n div 256)" by simp
  ultimately show ?thesis by (simp add: of_little_endian_def little_endian_def unat_byte)
qed

lemma envelope_read:
  assumes "length metadata < 2 ^ 32" and "length intro < 2 ^ 32"
  shows "read_envelope (envelope metadata intro code) = Some (metadata, intro, code)"
proof -
  have m: "length envelope_mark = 4" by (simp add: envelope_mark_def)
  then show ?thesis using assms by (simp add: read_envelope_def envelope_def little_endian_read)
qed

lemma gather_bound: "gather limit cs pcm = Some out \<Longrightarrow> length pcm \<le> limit \<Longrightarrow> length out \<le> limit \<and> out = pcm @ concat cs"
proof (induction cs arbitrary: pcm)
  case (Cons c cs)
  have fits: "length (pcm @ c) \<le> limit" and rest: "gather limit cs (pcm @ c) = Some out"
    using Cons.prems(1) by (simp_all split: if_splits)
  from Cons.IH [OF rest fits] show ?case by auto
qed simp

lemma render_ok:
  "render synth limit t = Some pcm \<Longrightarrow> length pcm \<le> limit \<and> pcm \<noteq> [] \<and> even (length pcm) \<and> pcm = concat (fst (synth t))"
  by (auto simp: render_def split: prod.splits option.splits if_splits dest!: gather_bound)

text \<open>The audio of a proof is what the device reads from it: a device that asked for audio and gets an envelope finds
  the metadata, the whole sound of the introduction and the whole sound of the code in it, each a whole number of
  16-bit samples and within its limit, and the code was not over when it was sent.\<close>

theorem pairing_audio_is_read_back:
  assumes "proof_response dumps synth wants busy now f result = Audio bs"
    and "length (dumps (guided result (usable_prompts f))) < 2 ^ 32"
  shows "read_envelope bs = Some (dumps (guided result (usable_prompts f)), concat (fst (synth (pp_intro (usable_prompts f)))),
      concat (fst (synth (fill_slots (spoken_code (str_value (jat result ''code''))) (pp_code (usable_prompts f))))))
    \<and> length (concat (fst (synth (pp_intro (usable_prompts f))))) \<le> MAX_INTRO_BYTES
    \<and> even (length (concat (fst (synth (pp_intro (usable_prompts f))))))
    \<and> now < num_value (jat result ''expires_at'')"
proof -
  let ?p = "usable_prompts f"
  obtain intro code where r: "render synth MAX_INTRO_BYTES (pp_intro ?p) = Some intro"
    "render synth MAX_CODE_BYTES (fill_slots (spoken_code (str_value (jat result ''code''))) (pp_code ?p)) = Some code"
    "bs = envelope (dumps (guided result ?p)) intro code" "now < num_value (jat result ''expires_at'')"
    using assms(1) by (auto simp: proof_response_def Let_def split: if_splits option.splits)
  have "length intro < 2 ^ 32" using conjunct1 [OF render_ok [OF r(1)]] by (simp add: MAX_INTRO_BYTES_def)
  then have e: "read_envelope bs = Some (dumps (guided result ?p), intro, code)"
    unfolding r(3) by (rule envelope_read [OF assms(2)])
  have i: "concat (fst (synth (pp_intro ?p))) = intro" "length intro \<le> MAX_INTRO_BYTES" "even (length intro)"
    using render_ok [OF r(1)] by auto
  have c: "concat (fst (synth (fill_slots (spoken_code (str_value (jat result ''code''))) (pp_code ?p)))) = code"
    using render_ok [OF r(2)] by auto
  show ?thesis unfolding i(1) c using e i(2,3) r(4) by blast
qed

definition proof_result :: json where
  "proof_result = JObj [(''code'', JStr ''07''), (''expires_at'', JInt 50)]"

definition short_sound :: "string \<Rightarrow> byte list list \<times> bool" where
  "short_sound t = ([[1, 2], [3, 4]], True)"

lemma pairing_audio_is_read_back_witness:
  "read_envelope [0x56, 0x50, 0x41, 0x31, 1, 0, 0, 0, 4, 0, 0, 0, 9, 1, 2, 3, 4, 1, 2, 3, 4] = Some ([9], [1, 2, 3, 4], [1, 2, 3, 4])"
proof -
  have "proof_response (\<lambda>j. [9]) short_sound True False 20 No_file proof_result
    = Audio [0x56, 0x50, 0x41, 0x31, 1, 0, 0, 0, 4, 0, 0, 0, 9, 1, 2, 3, 4, 1, 2, 3, 4]"
    by (simp add: proof_response_def render_def short_sound_def proof_result_def MAX_INTRO_BYTES_def MAX_CODE_BYTES_def
        envelope_def envelope_mark_def little_endian_def jat_def dict_get_def)
  from pairing_audio_is_read_back [OF this] show ?thesis by (simp add: short_sound_def)
qed

end
