(* ===== verification/Http_Boundary.thy ===== *)
theory Http_Boundary
  imports Integration Owner_Auth Webhooks Firmware_Delivery Button_Actions Pairing_Audio
begin

text \<open>
  \<open>web/owner.py\<close> and the middlewares of \<open>web/server.py\<close>: which transport a request with owner authority may use, the
  cookie, origin and CSRF rules, the owner endpoints, and how a handler is guarded by a policy operation. A request is
  what \<open>aiohttp\<close> gives of it: header names in lower case (it compares them without case), the peer address as
  \<open>ip_address\<close> reads it, the body as the chunks that arrive. What \<open>json.loads\<close>, \<open>urlparse\<close> and the file system answer
  are components of the application.
\<close>

datatype ip_address = IPv4 "32 word" | IPv6 "128 word"

text \<open>A network and the length of its prefix\<close>

datatype ip_network = Network4 "32 word" nat | Network6 "128 word" nat

definition in_network :: "ip_address \<Rightarrow> ip_network \<Rightarrow> bool" where
  "in_network a n = (case (a, n) of
     (IPv4 x, Network4 y k) \<Rightarrow> drop_bit (32 - k) x = drop_bit (32 - k) y
   | (IPv6 x, Network6 y k) \<Rightarrow> drop_bit (128 - k) x = drop_bit (128 - k) y
   | _ \<Rightarrow> False)"

datatype parsed = Parsed json | Not_a_document | Too_deep

text \<open>What leaves a handler that does not return: an exception of the modelled code, an \<open>HTTPException\<close> of the
  framework, or one of the exceptions of parsing and waiting.\<close>

datatype http_exn = Raised exn | Http_error nat | Json_error | Timed_out | Recursion_error

record http_request =
  rq_method :: string
  rq_path :: string
  rq_query :: string
  rq_secure :: bool
  rq_peer :: "ip_address option option"
  rq_headers :: "(string \<times> string) list"
  rq_cookies :: "(string, string) dict"
  rq_type :: string
  rq_chunks :: "string list"
  rq_stalls :: bool
  rq_json :: "http_exn + json"
  rq_params :: "(string, string) dict"

text \<open>\<open>ap_synth\<close> is what synthesis gives for a text and \<open>ap_synth_busy\<close> whether both of its slots are taken,
  \<open>ap_spoken\<close> what comes of an announcement, \<open>ap_ready\<close> the probe of a speech provider, \<open>ap_torn_down\<close> whether
  \<open>disconnect_stale\<close> (theory \<open>Authority_Teardown\<close>) ends without an error, \<open>ap_fresh\<close> a fresh identifier,
  \<open>ap_images\<close> the regular files of the firmware directory, \<open>ap_kind\<close> and \<open>ap_real\<close> the file system of the portal.\<close>

datatype file_kind = Absent | Directory | Regular

type_synonym file_path = "string list"

record http_app =
  ap_origin :: string
  ap_proxies :: "ip_network list"
  ap_parse :: "string \<Rightarrow> parsed"
  ap_dumps :: "json \<Rightarrow> byte list"
  ap_synth :: "string \<Rightarrow> byte list list \<times> bool"
  ap_synth_busy :: bool
  ap_synth_end :: time
  ap_torn_down :: bool
  ap_spoken :: "string \<Rightarrow> announce_event list"
  ap_ready :: "json \<Rightarrow> json"
  ap_realtime :: bool
  ap_iso :: "time \<Rightarrow> string"
  ap_button_text :: "button_error \<Rightarrow> string"
  ap_urlparse :: "string \<Rightarrow> string \<times> string"
  ap_loads :: "string \<Rightarrow> json option"
  ap_fresh :: string
  ap_clock :: time
  ap_sha :: "string \<Rightarrow> string"
  ap_images :: "string \<Rightarrow> bool"
  ap_portal :: file_path
  ap_kind :: "file_path \<Rightarrow> file_kind"
  ap_real :: "file_path \<Rightarrow> file_path"

record http_world =
  hw_auth :: world
  hw_devices :: device_world
  hw_hooks :: hook_state
  hw_firmware :: firmware
  hw_config :: doc_file
  hw_config_faults :: "write_outcome list"
  hw_sent :: "(nat \<times> json) list"
  hw_shut :: "nat set"

type_synonym 'a http = "(http_world, http_exn, 'a) action"

datatype http_body = Json json | Audio_body "byte list" | File_body file_path | No_body

datatype cookie_change = Keep_cookie | Set_cookie string string bool | Del_cookie string bool

record response =
  rs_status :: nat
  rs_body :: http_body
  rs_headers :: "(string, string) dict"
  rs_cookie :: cookie_change

definition answer :: "nat \<Rightarrow> (string \<times> json) list \<Rightarrow> response" where
  "answer status kvs = \<lparr> rs_status = status, rs_body = Json (JObj kvs), rs_headers = [], rs_cookie = Keep_cookie \<rparr>"

definition failure :: "nat \<Rightarrow> string \<Rightarrow> response" where
  "failure status code = answer status [(''error'', JStr code)]"

definition set_header :: "string \<Rightarrow> string \<Rightarrow> response \<Rightarrow> response" where
  "set_header k v r = r\<lparr>rs_headers := dict_put k v (rs_headers r)\<rparr>"

text \<open>An operation of the credential side, of the device registry and of the webhooks, run by a handler\<close>

definition in_auth :: "'a op \<Rightarrow> 'a http" where
  "in_auth m s = (case m (hw_auth s) of
     (Inl e, w) \<Rightarrow> (Inl (Raised e), s\<lparr>hw_auth := w\<rparr>) | (Inr x, w) \<Rightarrow> (Inr x, s\<lparr>hw_auth := w\<rparr>))"

definition in_devices :: "'a device_op \<Rightarrow> 'a http" where
  "in_devices m s = (case m (hw_devices s) of
     (Inl e, w) \<Rightarrow> (Inl (Raised e), s\<lparr>hw_devices := w\<rparr>) | (Inr x, w) \<Rightarrow> (Inr x, s\<lparr>hw_devices := w\<rparr>))"

definition in_hooks :: "'a hook_op \<Rightarrow> 'a http" where
  "in_hooks m s = (case m (hw_hooks s) of
     (Inl e, w) \<Rightarrow> (Inl (Raised e), s\<lparr>hw_hooks := w\<rparr>) | (Inr x, w) \<Rightarrow> (Inr x, s\<lparr>hw_hooks := w\<rparr>))"

definition headers :: "http_request \<Rightarrow> string \<Rightarrow> string list" where
  "headers rq name = map snd (filter (\<lambda>(k, v). k = name) (rq_headers rq))"

definition header_or :: "http_request \<Rightarrow> string \<Rightarrow> string \<Rightarrow> string" where
  "header_or rq name d = (case headers rq name of [] \<Rightarrow> d | v # _ \<Rightarrow> v)"

section \<open>The transport\<close>

definition COOKIE :: string where "COOKIE = ''__Host-vauxr_owner''"

definition LAN_COOKIE :: string where "LAN_COOKIE = ''vauxr_owner''"

definition is_tls :: "http_app \<Rightarrow> bool" where
  "is_tls app \<longleftrightarrow> starts_with ''https://'' (ap_origin app)"

definition cookie_name :: "http_app \<Rightarrow> string" where
  "cookie_name app = (if is_tls app then COOKIE else LAN_COOKIE)"

definition has_cookie :: "http_request \<Rightarrow> string \<Rightarrow> bool" where
  "has_cookie rq name \<longleftrightarrow> dict_get (rq_cookies rq) name \<noteq> None"

definition cookie_value :: "http_app \<Rightarrow> http_request \<Rightarrow> string" where
  "cookie_value app rq = (case dict_get (rq_cookies rq) (cookie_name app) of None \<Rightarrow> [] | Some v \<Rightarrow> v)"

text \<open>\<open>origin.split("://", 1)[1]\<close>\<close>

fun authority_of :: "string \<Rightarrow> string" where
  "authority_of [] = []"
| "authority_of (c # cs) = (if starts_with ''://'' (c # cs) then drop 3 (c # cs) else authority_of cs)"

definition secure_request :: "http_app \<Rightarrow> http_request \<Rightarrow> bool" where
  "secure_request app rq =
    (if ap_origin app = [] \<or> headers rq ''host'' \<noteq> [authority_of (ap_origin app)] then False
     else if headers rq ''forwarded'' \<noteq> [] then False
     else
       let forwarded = headers rq ''x-forwarded-proto'' in
       if starts_with ''http://'' (ap_origin app) then \<not> rq_secure rq \<and> forwarded = []
       else if rq_secure rq then forwarded = []
       else (case rq_peer rq of
           None \<Rightarrow> False
         | Some peer \<Rightarrow> forwarded = [''https''] \<and>
             (case peer of None \<Rightarrow> False | Some a \<Rightarrow> list_ex (in_network a) (ap_proxies app))))"

section \<open>The owner's middleware\<close>

definition session_principal :: "http_app \<Rightarrow> http_request \<Rightarrow> principal option http" where
  "session_principal app rq =
    (if \<not> secure_request app rq then ret None
     else bnd (in_auth (owner_session (cookie_value app rq))) (\<lambda>r. ret (map_option fst r)))"

definition safe_methods :: "string list" where
  "safe_methods = [''GET'', ''HEAD'', ''OPTIONS'']"

definition ends_in :: "string \<Rightarrow> string \<Rightarrow> bool" where
  "ends_in final s \<longleftrightarrow> starts_with (rev final) (rev s)"

definition owner_path :: "http_request \<Rightarrow> bool" where
  "owner_path rq \<longleftrightarrow> starts_with ''/api/auth/'' (rq_path rq)"

definition same_origin :: "http_app \<Rightarrow> http_request \<Rightarrow> bool" where
  "same_origin app rq \<longleftrightarrow> secure_request app rq
     \<and> \<not> has_cookie rq (if cookie_name app = COOKIE then LAN_COOKIE else COOKIE)
     \<and> length (headers rq ''origin'') \<le> 1
     \<and> (\<forall>v \<in> set (headers rq ''origin''). v = ap_origin app)
     \<and> (rq_method rq \<in> set safe_methods \<or> headers rq ''origin'' = [ap_origin app])"

definition check_csrf :: "http_app \<Rightarrow> http_request \<Rightarrow> unit http" where
  "check_csrf app rq =
     bnd (in_auth (owner_session (cookie_value app rq))) (\<lambda>found.
       raise_if (case found of None \<Rightarrow> True | Some (_, s) \<Rightarrow> header_or rq ''x-csrf-token'' [] \<noteq> se_csrf s) (Http_error 403))"

definition owner_checks :: "http_app \<Rightarrow> http_request \<Rightarrow> unit http" where
  "owner_checks app rq =
     andthen (raise_if (\<not> same_origin app rq) (Http_error 403))
       (when_do (rq_method rq \<notin> set safe_methods \<and> (\<not> owner_path rq \<or> ends_in ''/logout'' (rq_path rq))) (check_csrf app rq))"

text \<open>\<open>isinstance(exc, (OSError, ValueError))\<close>: the errors of JSON and of text are \<open>ValueError\<close>s, \<open>TimeoutError\<close> is an \<open>OSError\<close>.\<close>

definition os_or_value_error :: "http_exn \<Rightarrow> bool" where
  "os_or_value_error e = (case e of
     Raised ValueError \<Rightarrow> True | Raised (ConfigError _) \<Rightarrow> True | Raised OSError \<Rightarrow> True | Json_error \<Rightarrow> True | Timed_out \<Rightarrow> True | _ \<Rightarrow> False)"

definition unstored :: "response \<Rightarrow> response" where
  "unstored r = set_header ''Referrer-Policy'' ''no-referrer'' (set_header ''Cache-Control'' ''no-store'' r)"

definition owner_refusal :: "http_exn \<Rightarrow> response http" where
  "owner_refusal e = (case e of
     Http_error n \<Rightarrow> ret (failure n (if n = 403 then ''forbidden'' else ''invalid_request''))
   | _ \<Rightarrow> if os_or_value_error e then ret (failure 503 ''owner_unavailable'') else raise e)"

definition owner_middleware :: "http_app \<Rightarrow> http_request \<Rightarrow> response http \<Rightarrow> response http" where
  "owner_middleware app rq handler =
    (if \<not> owner_path rq \<and> \<not> has_cookie rq COOKIE \<and> \<not> has_cookie rq LAN_COOKIE then handler
     else bnd (try_except (andthen (owner_checks app rq) handler) owner_refusal) (\<lambda>r. ret (unstored r)))"

section \<open>The owner's endpoints\<close>

text \<open>The body is read until it ends, stalls or grows past 4096 bytes.\<close>

datatype body_read = Whole string | Too_long | Stalled

fun read_body :: "bool \<Rightarrow> string list \<Rightarrow> string \<Rightarrow> body_read" where
  "read_body stalls [] raw = (if stalls then Stalled else Whole raw)"
| "read_body stalls (c # cs) raw = (if 4096 < length (raw @ c) then Too_long else read_body stalls cs (raw @ c))"

definition take_body :: "http_app \<Rightarrow> http_request \<Rightarrow> exn \<Rightarrow> json http" where
  "take_body app rq too_long = (case read_body (rq_stalls rq) (rq_chunks rq) [] of
     Stalled \<Rightarrow> raise Timed_out
   | Too_long \<Rightarrow> raise (Raised too_long)
   | Whole raw \<Rightarrow> (case ap_parse app raw of
       Parsed j \<Rightarrow> ret j | Not_a_document \<Rightarrow> raise Json_error | Too_deep \<Rightarrow> raise Recursion_error))"

text \<open>Without a hook the last value of a repeated key counts (\<open>last_wins\<close>).\<close>

definition action_of :: "http_request \<Rightarrow> string" where
  "action_of rq = (case dict_get (rq_params rq) ''action'' of None \<Rightarrow> [] | Some a \<Rightarrow> a)"

definition session_fields :: "session \<Rightarrow> (string \<times> json) list" where
  "session_fields s = [(''version'', JInt 1), (''csrf_token'', JStr (se_csrf s)), (''expires_at'', JFloat (se_expires s))]"

definition owner_get :: "http_app \<Rightarrow> http_request \<Rightarrow> response http" where
  "owner_get app rq =
    (if action_of rq = ''status'' then
       bnd (in_auth owner_status) (\<lambda>(mode, env). ret (answer 200
         [(''version'', JInt 1), (''state'', JStr (mode_name mode)), (''environment_managed'', JBool env)]))
     else if action_of rq = ''session'' then
       bnd (in_auth (owner_session (cookie_value app rq))) (\<lambda>found. ret (case found of
         Some (_, s) \<Rightarrow> answer 200 (session_fields s) | None \<Rightarrow> failure 401 ''unauthorized''))
     else ret (failure 404 ''not_found''))"

definition owner_action :: "http_app \<Rightarrow> http_request \<Rightarrow> json \<Rightarrow> response http" where
  "owner_action app rq body =
    (if action_of rq = ''claim'' \<and> keys_are body [''code''] then
       bnd (in_auth (claim (jat body ''code''))) (\<lambda>(token, ack). ret (answer 200
         [(''version'', JInt 1), (''operator_token'', JStr token), (''save_acknowledgement'', JStr ack),
          (''expires_in'', JFloat CLAIM_SECONDS), (''save_required'', JBool True)]))
     else if action_of rq = ''save'' \<and> keys_are body [''save_acknowledgement'', ''saved''] then
       andthen (in_auth (acknowledge (jat body ''save_acknowledgement'') (jat body ''saved'')))
         (ret (answer 200 [(''version'', JInt 1), (''state'', JStr ''generated'')]))
     else if action_of rq = ''login'' \<and> keys_are body [''operator_token''] then
       bnd (in_auth (login (jat body ''operator_token''))) (\<lambda>(cookie, s).
         ret ((answer 200 (session_fields s))\<lparr>rs_cookie := Set_cookie (cookie_name app) cookie (cookie_name app = COOKIE)\<rparr>))
     else if action_of rq = ''logout'' \<and> body = JObj [] then
       andthen (in_auth (logout (cookie_value app rq)))
         (ret ((answer 200 [(''version'', JInt 1), (''logged_out'', JBool True)])
           \<lparr>rs_cookie := Del_cookie (cookie_name app) (cookie_name app = COOKIE)\<rparr>))
     else raise (Raised (OwnerError ''invalid_request'')))"

definition owner_post :: "http_app \<Rightarrow> http_request \<Rightarrow> response http" where
  "owner_post app rq =
     andthen (in_auth owner_rate_limit)
     (andthen (raise_if (rq_type rq \<noteq> ''application/json'') (Raised (OwnerError ''invalid_request'')))
     (bnd (take_body app rq (OwnerError ''invalid_request'')) (\<lambda>body.
      andthen (raise_if (\<not> is_obj body) (Raised (OwnerError ''invalid_request'')))
        (owner_action app rq (last_wins body)))))"

definition owner_error :: "http_exn \<Rightarrow> response http" where
  "owner_error e = (case e of
     Raised (OwnerError code) \<Rightarrow> ret (failure (if code = ''rate_limited'' then 429 else 400) code)
   | Json_error \<Rightarrow> ret (failure 400 ''invalid_request'')
   | Timed_out \<Rightarrow> ret (failure 400 ''invalid_request'')
   | _ \<Rightarrow> raise e)"

definition owner_endpoint :: "http_app \<Rightarrow> http_request \<Rightarrow> response http" where
  "owner_endpoint app rq =
    (if rq_query rq \<noteq> [] then ret (failure 400 ''invalid_request'')
     else if rq_method rq \<in> {''GET'', ''HEAD''} then owner_get app rq
     else try_except (owner_post app rq) owner_error)"

section \<open>The policy\<close>

text \<open>\<open>_http_principal\<close>: a session of the owner, or else a bearer token of anybody else\<close>

definition bearer :: "http_request \<Rightarrow> json" where
  "bearer rq = (let h = header_or rq ''authorization'' [] in if starts_with ''Bearer '' h then JStr (drop 7 h) else JNull)"

definition bearer_principal :: "http_request \<Rightarrow> world \<Rightarrow> principal option" where
  "bearer_principal rq w = (case authenticate w (bearer rq) of
     None \<Rightarrow> None | Some p \<Rightarrow> if pr_role p = OWNER then None else Some p)"

definition http_principal :: "http_app \<Rightarrow> http_request \<Rightarrow> principal option http" where
  "http_principal app rq = bnd (session_principal app rq) (\<lambda>p. case p of
     Some _ \<Rightarrow> ret p
   | None \<Rightarrow> reads (\<lambda>s. bearer_principal rq (hw_auth s)))"

definition denied :: "principal option \<Rightarrow> response" where
  "denied p = (if p = None then failure 401 ''unauthorized'' else failure 403 ''forbidden'')"

text \<open>\<open>_require_auth\<close>\<close>

definition require_auth :: "http_app \<Rightarrow> string \<Rightarrow> http_request \<Rightarrow> response http \<Rightarrow> response http" where
  "require_auth app name rq handler = bnd (http_principal app rq) (\<lambda>p.
     if (case p of None \<Rightarrow> False | Some q \<Rightarrow> pr_role q = INTEGRATION) \<and> is_tls app \<and> \<not> secure_request app rq
     then ret (failure 403 ''forbidden'')
     else if \<not> allowed p (dict_get http_operations name) None False then ret (denied p)
     else if (case dict_get http_operations name of None \<Rightarrow> False | Some opn \<Rightarrow> opn \<in> set unshipped)
     then ret (failure 501 ''operation not implemented'')
     else handler)"

definition cors_open :: "http_app \<Rightarrow> http_request \<Rightarrow> bool" where
  "cors_open app rq \<longleftrightarrow>
     \<not> list_ex (\<lambda>p. starts_with p (rq_path rq)) [''/api/auth/'', ''/api/enrollment/'', ''/api/lifecycle/'', ''/api/integrations/'']
     \<and> \<not> has_cookie rq (cookie_name app)"

definition cors_headers :: "http_app \<Rightarrow> http_request \<Rightarrow> response \<Rightarrow> response" where
  "cors_headers app rq r =
     set_header ''Access-Control-Max-Age'' ''86400''
     (set_header ''Access-Control-Allow-Headers'' ''Authorization, Content-Type''
     (set_header ''Access-Control-Allow-Methods'' ''GET, POST, PATCH, DELETE, OPTIONS''
     (if cors_open app rq then set_header ''Access-Control-Allow-Origin'' ''*'' r else r)))"

definition cors_middleware :: "http_app \<Rightarrow> http_request \<Rightarrow> response http \<Rightarrow> response http" where
  "cors_middleware app rq handler =
     bnd (if rq_method rq = ''OPTIONS'' then ret \<lparr> rs_status = 204, rs_body = No_body, rs_headers = [], rs_cookie = Keep_cookie \<rparr>
          else handler)
       (\<lambda>r. ret (cors_headers app rq r))"

text \<open>\<open>policy_middleware\<close>: only the portal files and the handlers with a boundary of their own are reached.\<close>

definition policy_middleware :: "http_request \<Rightarrow> bool \<Rightarrow> bool \<Rightarrow> response http \<Rightarrow> response http" where
  "policy_middleware rq is_static bounded handler =
    (if rq_method rq \<noteq> ''OPTIONS'' \<and> \<not> is_static \<and> \<not> bounded then ret (failure 401 ''unauthorized'') else handler)"

end
