(* ===== verification/Provisioning_Http.thy ===== *)
theory Provisioning_Http
  imports Http_Boundary
begin

text \<open>
  \<open>provisioning/enrollment_http.py\<close>, \<open>lifecycle_http.py\<close> and \<open>integration_http.py\<close>: the endpoints of the three
  services, what they demand of a request before the service sees it, whom they resolve it to, and which answer each
  error becomes. \<open>maintenance\<close> is the task that sweeps once a second.
\<close>

text \<open>The first check of all three\<close>

definition trusted_request :: "http_app \<Rightarrow> http_request \<Rightarrow> bool" where
  "trusted_request app rq \<longleftrightarrow> secure_request app rq \<and> rq_query rq = [] \<and> length (headers rq ''origin'') \<le> 1
     \<and> header_or rq ''origin'' (ap_origin app) = ap_origin app"

definition bad_request :: "http_exn" where
  "bad_request = Raised (EnrollmentError ''invalid_request'')"

text \<open>\<open>unique_object\<close> refuses a repeated key.\<close>

definition take_object :: "http_app \<Rightarrow> http_request \<Rightarrow> json http" where
  "take_object app rq =
     bnd (take_body app rq (EnrollmentError ''invalid_request'')) (\<lambda>j. if unique_json j then ret j else raise bad_request)"

text \<open>Whom a request stands for while the service holds its transaction\<close>

definition resolver :: "http_app \<Rightarrow> http_request \<Rightarrow> world \<Rightarrow> principal option" where
  "resolver app rq w =
    (if cookie_value app rq \<noteq> [] then
       (if secure_request app rq then map_option fst (session_of w (cookie_value app rq)) else None)
     else bearer_principal rq w)"

definition cookie_resolver :: "http_app \<Rightarrow> http_request \<Rightarrow> world \<Rightarrow> principal option" where
  "cookie_resolver app rq w =
    (if cookie_value app rq \<noteq> [] \<and> secure_request app rq then map_option fst (session_of w (cookie_value app rq)) else None)"

text \<open>The answers to errors\<close>

definition error_status :: "string list \<Rightarrow> string \<Rightarrow> nat" where
  "error_status conflicts code =
    (if code = ''unauthorized'' then 401 else if code = ''forbidden'' then 403 else if code = ''not_found'' then 404
     else if code \<in> {''rate_limited'', ''capacity''} then 429
     else if code \<in> set (''conflict'' # ''unavailable'' # conflicts) then 409 else 400)"

definition provisioning_error :: "string list \<Rightarrow> string \<Rightarrow> http_exn \<Rightarrow> response http" where
  "provisioning_error conflicts unavailable e = (case e of
     Raised (EnrollmentError code) \<Rightarrow> ret (failure (error_status conflicts code) code)
   | Json_error \<Rightarrow> ret (failure 400 ''invalid_request'')
   | Timed_out \<Rightarrow> ret (failure 400 ''invalid_request'')
   | Recursion_error \<Rightarrow> ret (failure 400 ''invalid_request'')
   | _ \<Rightarrow> if os_or_value_error e then ret (failure 503 unavailable) else raise e)"

section \<open>Enrollment\<close>

definition enrollment_client_actions :: "string list" where
  "enrollment_client_actions = [''request'', ''prove'', ''redeem'', ''cancel'', ''status'']"

definition in_config :: "(write_outcome \<Rightarrow> doc_file \<Rightarrow> (exn + 'a) \<times> doc_file) \<Rightarrow> 'a http" where
  "in_config m s =
    (let oc = (case hw_config_faults s of [] \<Rightarrow> Write_ok | x # _ \<Rightarrow> x) in
     case m oc (hw_config s) of
       (Inl e, f) \<Rightarrow> (Inl (Raised e), s\<lparr>hw_config := f, hw_config_faults := tl (hw_config_faults s)\<rparr>)
     | (Inr x, f) \<Rightarrow> (Inr x, s\<lparr>hw_config := f, hw_config_faults := tl (hw_config_faults s)\<rparr>))"

text \<open>\<open>except ValueError: raise EnrollmentError("invalid_request") from None\<close>\<close>

definition value_error_is_bad :: "http_exn \<Rightarrow> prompts http" where
  "value_error_is_bad e = (case e of
     Raised ValueError \<Rightarrow> raise bad_request | Raised (ConfigError _) \<Rightarrow> raise bad_request | _ \<Rightarrow> raise e)"

definition resolve_outside :: "http_app \<Rightarrow> http_request \<Rightarrow> principal option http" where
  "resolve_outside app rq =
    (if cookie_value app rq \<noteq> [] then session_principal app rq else reads (\<lambda>s. bearer_principal rq (hw_auth s)))"

definition prompts_request :: "http_app \<Rightarrow> http_request \<Rightarrow> json \<Rightarrow> json http" where
  "prompts_request app rq body =
     bnd (resolve_outside app rq) (\<lambda>p.
     andthen (raise_if (case p of None \<Rightarrow> True | Some q \<Rightarrow> pr_role q \<noteq> OWNER) (Raised (EnrollmentError ''forbidden'')))
     (andthen (raise_if (action_of rq = ''prompts'' \<and> body \<noteq> JObj []) bad_request)
     (bnd (try_except
            (if action_of rq = ''prompts'' then bnd (reads hw_config) (\<lambda>f. case load_prompts f of Inl e \<Rightarrow> raise (Raised e) | Inr p \<Rightarrow> ret p)
             else in_config (\<lambda>oc. save_prompts oc body)) value_error_is_bad)
        (\<lambda>p. ret (prompts_json p)))))"

definition proof_answer :: "http_app \<Rightarrow> http_request \<Rightarrow> doc_file \<Rightarrow> json \<Rightarrow> response" where
  "proof_answer app rq f result =
    (case proof_response (ap_dumps app) (ap_synth app) (header_or rq ''accept'' [] = MEDIA_TYPE) (ap_synth_busy app) (ap_synth_end app) f result of
       Plain j \<Rightarrow> \<lparr> rs_status = 200, rs_body = Json j, rs_headers = [], rs_cookie = Keep_cookie \<rparr>
     | Audio bs \<Rightarrow> \<lparr> rs_status = 200, rs_body = Audio_body bs, rs_headers = [], rs_cookie = Keep_cookie \<rparr>)"

definition json_answer :: "json \<Rightarrow> response" where
  "json_answer j = \<lparr> rs_status = 200, rs_body = Json j, rs_headers = [], rs_cookie = Keep_cookie \<rparr>"

definition enrollment_body :: "http_app \<Rightarrow> http_request \<Rightarrow> response http" where
  "enrollment_body app rq =
     andthen (raise_if (\<not> trusted_request app rq) (Raised (EnrollmentError ''forbidden'')))
     (andthen (in_auth (enr_rate_limit (ap_origin app)))
     (andthen (raise_if (rq_type rq \<noteq> ''application/json'') bad_request)
     (bnd (take_object app rq) (\<lambda>body.
      andthen (raise_if (1 < length (headers rq ''authorization'')) bad_request)
     (andthen (raise_if (header_or rq ''authorization'' [] \<noteq> []
                 \<and> (cookie_value app rq \<noteq> [] \<or> action_of rq \<in> set enrollment_client_actions)) bad_request)
     (bnd (if action_of rq \<in> {''prompts'', ''save-prompts''} then prompts_request app rq body
           else in_auth (enr_execute (ap_origin app) (action_of rq) body (resolver app rq))) (\<lambda>result.
      if action_of rq = ''prove'' then reads (\<lambda>s. proof_answer app rq (hw_config s) result) else ret (json_answer result))))))))"

definition enrollment_endpoint :: "http_app \<Rightarrow> http_request \<Rightarrow> response http" where
  "enrollment_endpoint app rq =
     bnd (try_except (enrollment_body app rq) (provisioning_error [''already_owned''] ''enrollment_unavailable''))
       (\<lambda>r. ret (unstored r))"

section \<open>Credential lifecycle\<close>

definition lifecycle_body :: "http_app \<Rightarrow> http_request \<Rightarrow> response http" where
  "lifecycle_body app rq =
     andthen (raise_if (\<not> trusted_request app rq) (Raised (EnrollmentError ''forbidden'')))
     (andthen (in_auth (enr_rate_limit (ap_origin app)))
     (andthen (raise_if (rq_type rq \<noteq> ''application/json'' \<or> 1 < length (headers rq ''authorization'')) bad_request)
     (andthen (raise_if (header_or rq ''authorization'' [] \<noteq> [] \<and> cookie_value app rq \<noteq> []) bad_request)
     (bnd (take_object app rq) (\<lambda>body.
      bnd (in_auth (lc_execute (ap_origin app) (action_of rq) body (resolver app rq))) (\<lambda>result. ret (json_answer result)))))))"

text \<open>Whatever the answer, transports whose authority is gone are closed before it is given.\<close>

definition lifecycle_endpoint :: "http_app \<Rightarrow> http_request \<Rightarrow> response http" where
  "lifecycle_endpoint app rq =
     bnd (try_except (lifecycle_body app rq) (provisioning_error [''recovery_unavailable''] ''lifecycle_unavailable''))
       (\<lambda>r. ret (unstored (if ap_torn_down app then r else failure 503 ''transport_teardown_unavailable'')))"

text \<open>One round of \<open>maintenance\<close>: errors of the store are passed over.\<close>

definition maintenance :: "http_app \<Rightarrow> unit http" where
  "maintenance app = try_except (andthen (in_auth (lc_sweep (ap_origin app))) (in_auth (int_sweep (ap_origin app))))
     (\<lambda>e. if os_or_value_error e then ret () else raise e)"

section \<open>Integrations\<close>

definition integration_client_actions :: "string list" where
  "integration_client_actions = [''request'', ''status'', ''deliver'', ''cancel'', ''ack'']"

definition integration_body :: "http_app \<Rightarrow> http_request \<Rightarrow> response http" where
  "integration_body app rq =
     andthen (raise_if (\<not> trusted_request app rq) (Raised (EnrollmentError ''forbidden'')))
     (andthen (in_auth (enr_rate_limit (ap_origin app)))
     (andthen (raise_if (rq_type rq \<noteq> ''application/json'') bad_request)
     (bnd (take_object app rq) (\<lambda>body.
      andthen (raise_if (1 < length (headers rq ''authorization'')) bad_request)
     (andthen (raise_if (headers rq ''authorization'' \<noteq> []
                 \<or> cookie_value app rq \<noteq> [] \<and> action_of rq \<in> set integration_client_actions) bad_request)
     (bnd (in_auth (int_execute (ap_origin app) (action_of rq) body (cookie_resolver app rq))) (\<lambda>result.
      ret (json_answer result))))))))"

definition integration_endpoint :: "http_app \<Rightarrow> http_request \<Rightarrow> response http" where
  "integration_endpoint app rq =
     bnd (try_except (integration_body app rq) (provisioning_error [] ''integration_unavailable''))
       (\<lambda>r. ret (unstored r))"

end
