(* ===== verification/Http_Api.thy ===== *)
theory Http_Api
  imports Provisioning_Http
begin

text \<open>
  \<open>web/server.py\<close> and \<open>web/speech.py\<close>: the handlers of the HTTP API, the files of the portal, the table of routes and
  the stack of middlewares a request passes. A handler runs from start to end here: what other tasks do while it waits
  for its body, for speech or for a probe is not interleaved with it.
\<close>

definition param :: "http_request \<Rightarrow> string \<Rightarrow> string" where
  "param rq name = (case dict_get (rq_params rq) name of None \<Rightarrow> [] | Some v \<Rightarrow> v)"

text \<open>\<open>await request.json()\<close> under \<open>except (json.JSONDecodeError, ValueError)\<close>\<close>

definition value_error :: "http_exn \<Rightarrow> bool" where
  "value_error e = (case e of Raised ValueError \<Rightarrow> True | Raised (ConfigError _) \<Rightarrow> True | Json_error \<Rightarrow> True | _ \<Rightarrow> False)"

definition with_object :: "http_request \<Rightarrow> (json \<Rightarrow> response http) \<Rightarrow> response http" where
  "with_object rq k = (case rq_json rq of
     Inl e \<Rightarrow> if value_error e then ret (failure 400 ''invalid JSON'') else raise e
   | Inr body \<Rightarrow> if is_obj body then k body else ret (failure 400 ''invalid JSON''))"

section \<open>Devices\<close>

definition state_text :: "connection_state \<Rightarrow> string" where
  "state_text st = (case st of Idle \<Rightarrow> ''idle'' | Listening \<Rightarrow> ''listening'' | Processing \<Rightarrow> ''processing''
     | Speaking \<Rightarrow> ''speaking'' | Offline \<Rightarrow> ''offline'')"

definition device_fields :: "http_app \<Rightarrow> device_config \<Rightarrow> device_entry \<Rightarrow> json" where
  "device_fields app cfg e = obj_of [
     (''id'', Some (JStr (de_id e))), (''name'', Some (JStr (de_name e))), (''state'', Some (JStr (state_text (de_state e)))),
     (''lastSeen'', Some (JStr (ap_iso app (de_last_seen e)))),
     (''config'', Some (JObj ((''pipeline_mode'', JStr (pipeline_mode (Some cfg))) # (''voice_mode'', JStr (voice_mode (Some cfg)))
         # obj_pairs (enc_config ((de_config e)\<lparr>dc_transport := None\<rparr>))))),
     (''platform'', (case de_platform e of Some (c # cs) \<Rightarrow> Some (JStr (c # cs)) | _ \<Rightarrow> None)),
     (''fw_version'', (case de_fw e of Some (c # cs) \<Rightarrow> Some (JStr (c # cs)) | _ \<Rightarrow> None))]"

definition device_dict :: "http_app \<Rightarrow> device_entry \<Rightarrow> json http" where
  "device_dict app e = bnd (in_devices (get_config_for (de_id e))) (\<lambda>cfg. ret (device_fields app cfg e))"

fun device_dicts :: "http_app \<Rightarrow> device_entry list \<Rightarrow> json list http" where
  "device_dicts app [] = ret []"
| "device_dicts app (e # es) = bnd (device_dict app e) (\<lambda>d. bnd (device_dicts app es) (\<lambda>ds. ret (d # ds)))"

definition list_devices :: "http_app \<Rightarrow> response http" where
  "list_devices app = bnd (reads (\<lambda>s. dict_values (dv_entries (hw_devices s)))) (\<lambda>es.
     bnd (device_dicts app es) (\<lambda>ds. ret (json_answer (JList ds))))"

definition with_device :: "http_request \<Rightarrow> (device_entry \<Rightarrow> response http) \<Rightarrow> response http" where
  "with_device rq k = bnd (reads (\<lambda>s. dict_get (dv_entries (hw_devices s)) (param rq ''device_id''))) (\<lambda>found.
     case found of None \<Rightarrow> ret (failure 404 ''device not found'') | Some e \<Rightarrow> k e)"

text \<open>One field of the patch: absent, taken or refused with its message\<close>

definition take_field :: "json \<Rightarrow> string \<Rightarrow> (json \<Rightarrow> bool) \<Rightarrow> string \<Rightarrow> (json \<Rightarrow> device_config \<Rightarrow> device_config) \<Rightarrow> string + device_config \<Rightarrow> string + device_config" where
  "take_field body key ok message put acc = (case acc of
     Inl e \<Rightarrow> Inl e
   | Inr c \<Rightarrow> (case jget body key of
       None \<Rightarrow> Inr c | Some v \<Rightarrow> if ok v then Inr (put v c) else Inl message))"

definition take_buttons :: "(button_error \<Rightarrow> string) \<Rightarrow> json \<Rightarrow> string + device_config \<Rightarrow> string + device_config" where
  "take_buttons button_text body acc = (case acc of
     Inl e \<Rightarrow> Inl e
   | Inr c \<Rightarrow> (case jget body ''button_actions'' of
       None \<Rightarrow> Inr c
     | Some v \<Rightarrow> (case parse_button_actions v of
         Inl e \<Rightarrow> Inl (button_text e) | Inr acts \<Rightarrow> Inr (c\<lparr>dc_buttons := Some acts\<rparr>))))"

definition device_patch :: "(button_error \<Rightarrow> string) \<Rightarrow> json \<Rightarrow> string + device_config" where
  "device_patch button_text body =
    (case take_buttons button_text body
       (take_field body ''barge_in'' is_bool ''barge_in must be a boolean'' (\<lambda>v c. c\<lparr>dc_barge_in := Some (bool_value v)\<rparr>)
       (take_field body ''follow_up_mode'' (\<lambda>v. str_among v valid_follow_up_modes)
          (''follow_up_mode must be 'auto' | 'always' | 'never'' @ [CHR 0x27]) (\<lambda>v c. c\<lparr>dc_follow_up := Some (str_value v)\<rparr>)
       (take_field body ''voice'' is_bool ''voice must be a boolean'' (\<lambda>v c. c\<lparr>dc_voice := Some (bool_value v)\<rparr>)
       (take_field body ''name'' is_str ''name must be a string'' (\<lambda>v c. c\<lparr>dc_name := Some (str_value v)\<rparr>)
       (take_field body ''pipeline_mode'' (\<lambda>v. str_among v [''standard'', ''realtime''])
          ''pipeline_mode must be standard | realtime'' (\<lambda>v c. c\<lparr>dc_pipeline := Some (str_value v)\<rparr>)
       (take_field body ''voice_mode'' (\<lambda>v. str_among v [''websocket'', ''webrtc'', ''realtime''])
          ''voice_mode must be websocket | webrtc | realtime'' (\<lambda>v c. c) (Inr no_config))))))) of
       Inl e \<Rightarrow> Inl e
     | Inr c \<Rightarrow> Inr (case jget body ''voice_mode'' of
         None \<Rightarrow> c | Some v \<Rightarrow> merge_config c (voice_mode_patch (str_value v))))"

definition update_device :: "http_app \<Rightarrow> http_request \<Rightarrow> response http" where
  "update_device app rq = with_device rq (\<lambda>e. with_object rq (\<lambda>body.
     case device_patch (ap_button_text app) body of
       Inl message \<Rightarrow> ret (failure 400 message)
     | Inr patch \<Rightarrow>
         bnd (try_except (bnd (in_devices (update_config (de_id e) patch)) (\<lambda>c. ret (Some c)))
                (\<lambda>x. if value_error x \<or> x = Raised TypeError then ret None else raise x)) (\<lambda>done.
         case done of
           None \<Rightarrow> ret (failure 400 ''Invalid device speech selection'')
         | Some nxt \<Rightarrow>
             andthen (modifies (\<lambda>s. case dc_name nxt of
                 Some (c # cs) \<Rightarrow> s\<lparr>hw_devices := change_entry (de_id e) (\<lambda>d. d\<lparr>de_name := c # cs\<rparr>) (hw_devices s)\<rparr> | _ \<Rightarrow> s))
             (bnd (reads (\<lambda>s. dict_get (dv_entries (hw_devices s)) (de_id e))) (\<lambda>entry.
                case entry of None \<Rightarrow> raise (Raised KeyError)
                | Some d \<Rightarrow> bnd (device_dict app d) (\<lambda>j. ret (json_answer j)))))))"

text \<open>What the synthesis of the text gives is run to its end (theory \<open>Button_Actions\<close>).\<close>

definition announce :: "http_app \<Rightarrow> http_request \<Rightarrow> response http" where
  "announce app rq = with_device rq (\<lambda>e.
     if de_state e \<in> {Listening, Processing} then ret (failure 409 ''device busy'')
     else (case rq_json rq of
         Inl x \<Rightarrow> if value_error x then ret (failure 400 ''invalid JSON'') else raise x
       | Inr body \<Rightarrow> (case jget body ''text'' of
           Some (JStr (c # cs)) \<Rightarrow>
             bnd (reads (\<lambda>s. announce_run (ap_spoken app (c # cs)) (new_announcement (de_id e) (de_ws e), hw_devices s))) (\<lambda>(a, v).
             andthen (modifies (\<lambda>s. s\<lparr>hw_devices := v\<rparr>))
               (ret (if Sound_error \<in> set (an_handed a) then failure 503 ''Selected speech provider unavailable''
                     else answer 200 [(''ok'', JBool True)])))
         | _ \<Rightarrow> ret (failure 400 ''missing text''))))"

definition valid_commands :: "string list" where
  "valid_commands = [''set_volume'', ''mute'', ''unmute'', ''reboot'', ''ota'', ''set_barge_in'']"

definition device_send_text :: "nat \<Rightarrow> json \<Rightarrow> http_world \<Rightarrow> http_world" where
  "device_send_text ws frame s = (if ws \<in> hw_shut s then s else s\<lparr>hw_sent := hw_sent s @ [(ws, frame)]\<rparr>)"

text \<open>The checks of an \<open>ota\<close> command\<close>

definition ota_error :: "json option \<Rightarrow> string option" where
  "ota_error params = (case Option.bind params (\<lambda>p. jget p ''url'') of
     Some (JStr (c # cs)) \<Rightarrow>
       if starts_with ''http://'' (c # cs) \<or> starts_with ''https://'' (c # cs) then None
       else Some ''ota url must be http:// or https://''
   | _ \<Rightarrow> Some ''ota requires params.url'')"

definition set_barge_in :: "device_entry \<Rightarrow> json option \<Rightarrow> response http" where
  "set_barge_in e params = (case Option.bind params (\<lambda>p. jget p ''enabled'') of
     None \<Rightarrow> ret (failure 400 ''set_barge_in requires params.enabled'')
   | Some (JBool b) \<Rightarrow>
       bnd (in_devices (update_config (de_id e) (no_config\<lparr>dc_barge_in := Some b\<rparr>))) (\<lambda>nxt.
         ret (answer 200 [(''ok'', JBool True), (''barge_in'', JBool (case dc_barge_in nxt of None \<Rightarrow> b | Some x \<Rightarrow> x))]))
   | Some _ \<Rightarrow> ret (failure 400 ''params.enabled must be a boolean''))"

definition send_command :: "device_entry \<Rightarrow> string \<Rightarrow> json option \<Rightarrow> response http" where
  "send_command e cmd params =
     andthen (modifies (device_send_text (de_ws e) (JObj ([(''type'', JStr ''device.control''), (''command'', JStr cmd)]
         @ (case params of None \<Rightarrow> [] | Some p \<Rightarrow> [(''params'', p)])))))
       (ret (answer 200 [(''ok'', JBool True)]))"

definition device_command :: "http_app \<Rightarrow> http_request \<Rightarrow> response http" where
  "device_command app rq = with_device rq (\<lambda>e. (case rq_json rq of
     Inl x \<Rightarrow> if value_error x then ret (failure 400 ''invalid JSON'') else raise x
   | Inr body \<Rightarrow> (case jget body ''command'' of
       Some (JStr cmd) \<Rightarrow>
         if cmd \<notin> set valid_commands then ret (failure 400 (''unknown command: '' @ cmd))
         else
           (let params = jget body ''params'' in
            bnd (http_principal app rq) (\<lambda>p.
            if \<not> allowed p (Some (if cmd = ''ota'' then FIRMWARE_INITIATE else CONTROL)) None False then ret (failure 403 ''forbidden'')
            else if cmd = ''ota'' \<and> ota_error params \<noteq> None then ret (failure 400 (case ota_error params of Some m \<Rightarrow> m | None \<Rightarrow> []))
            else if cmd = ''set_barge_in'' then set_barge_in e params
            else send_command e cmd params))
     | _ \<Rightarrow> ret (failure 400 ''missing command''))))"

section \<open>Agents\<close>

definition agent_fields :: "agent \<Rightarrow> json" where
  "agent_fields a = obj_of [(''id'', Some (JStr (ag_id a))), (''name'', Some (JStr (ag_name a))),
     (''type'', Some (JStr (agent_type_name (ag_type a)))), (''active'', Some (JBool (ag_active a))),
     (''createdAt'', Some (JStr (ag_created_at a))), (''builtin'', map_option JBool (ag_builtin a))]"

definition list_agents :: "response http" where
  "list_agents = bnd (in_auth get_all) (\<lambda>agents. ret (json_answer (JList (map agent_fields agents))))"

definition not_implemented :: "response http" where
  "not_implemented = ret (failure 501 ''operation not implemented'')"

definition activate_agent :: "http_request \<Rightarrow> response http" where
  "activate_agent rq = bnd (in_auth (activate (param rq ''agent_id''))) (\<lambda>found.
     ret (if found then answer 200 [(''ok'', JBool True)] else failure 404 ''agent not found''))"

section \<open>Webhooks\<close>

definition list_webhooks :: "response http" where
  "list_webhooks = bnd (in_hooks all_hooks) (\<lambda>hs. ret (json_answer (JList (map public_hook hs))))"

definition webhook_missing :: response where
  "webhook_missing = failure 404 ''webhook not found''"

definition get_webhook_configuration :: "http_request \<Rightarrow> response http" where
  "get_webhook_configuration rq = bnd (in_hooks (get_hook (param rq ''webhook_id''))) (\<lambda>found. ret (case found of
     None \<Rightarrow> webhook_missing
   | Some h \<Rightarrow> set_header ''Cache-Control'' ''no-store''
       (json_answer (JObj (obj_pairs (public_hook h) @ [(''url'', JStr (wh_url h)), (''body'', case wh_body h of None \<Rightarrow> JNull | Some b \<Rightarrow> b)])))))"

record hook_fields =
  hf_name :: "string option"
  hf_url :: "string option"
  hf_auth :: "string option"
  hf_body :: "json option option"

text \<open>The fields of \<open>_webhook_fields\<close>, in its order\<close>

definition field_name :: "bool \<Rightarrow> json \<Rightarrow> string + string option" where
  "field_name required body =
    (if jget body ''name'' = None \<and> \<not> required then Inr None
     else case jget body ''name'' of
       Some (JStr t) \<Rightarrow> if strip t = [] then Inl ''name is required'' else Inr (Some (strip t))
     | _ \<Rightarrow> Inl ''name is required'')"

definition field_url :: "(string \<Rightarrow> string \<times> string) \<Rightarrow> bool \<Rightarrow> json \<Rightarrow> string + string option" where
  "field_url urlparse required body =
    (if jget body ''url'' = None \<and> \<not> required then Inr None
     else case jget body ''url'' of
       Some (JStr t) \<Rightarrow>
         if strip t = [] then Inl ''url is required''
         else if validate_url urlparse (strip t) then Inr (Some (strip t)) else Inl ''url must be an http:// or https:// URL''
     | _ \<Rightarrow> Inl ''url is required'')"

definition field_auth :: "json \<Rightarrow> string + string option" where
  "field_auth body = (case jget body ''authorization'' of
     None \<Rightarrow> Inr None | Some JNull \<Rightarrow> Inr (Some []) | Some (JStr t) \<Rightarrow> Inr (Some t)
   | Some _ \<Rightarrow> Inl ''authorization must be a string'')"

definition field_body :: "(string \<Rightarrow> json option) \<Rightarrow> json \<Rightarrow> string + json option option" where
  "field_body loads body = (case jget body ''body'' of
     None \<Rightarrow> Inr None | Some v \<Rightarrow> (case parse_body loads v of Inl e \<Rightarrow> Inl e | Inr b \<Rightarrow> Inr (Some b)))"

definition webhook_fields :: "http_app \<Rightarrow> bool \<Rightarrow> json \<Rightarrow> string + hook_fields" where
  "webhook_fields app required body = (case field_name required body of
     Inl e \<Rightarrow> Inl e
   | Inr n \<Rightarrow> (case field_url (ap_urlparse app) required body of
       Inl e \<Rightarrow> Inl e
     | Inr u \<Rightarrow> (case field_auth body of
         Inl e \<Rightarrow> Inl e
       | Inr a \<Rightarrow> (case field_body (ap_loads app) body of
           Inl e \<Rightarrow> Inl e | Inr b \<Rightarrow> Inr \<lparr> hf_name = n, hf_url = u, hf_auth = a, hf_body = b \<rparr>))))"

definition or_blank :: "string option \<Rightarrow> string" where
  "or_blank v = (case v of None \<Rightarrow> [] | Some t \<Rightarrow> t)"

definition create_webhook :: "http_app \<Rightarrow> http_request \<Rightarrow> response http" where
  "create_webhook app rq = with_object rq (\<lambda>body. case webhook_fields app True body of
     Inl message \<Rightarrow> ret (failure 400 message)
   | Inr fs \<Rightarrow>
       bnd (in_hooks (create_hook (ap_fresh app) (or_blank (hf_name fs)) (or_blank (hf_url fs)) (or_blank (hf_auth fs))
              (case hf_body fs of None \<Rightarrow> None | Some b \<Rightarrow> b))) (\<lambda>h.
         ret ((json_answer (public_hook h))\<lparr>rs_status := 201\<rparr>)))"

definition update_webhook :: "http_app \<Rightarrow> http_request \<Rightarrow> response http" where
  "update_webhook app rq = with_object rq (\<lambda>body.
     bnd (in_hooks (get_hook (param rq ''webhook_id''))) (\<lambda>found. case found of
       None \<Rightarrow> ret webhook_missing
     | Some _ \<Rightarrow> (case webhook_fields app False body of
         Inl message \<Rightarrow> ret (failure 400 message)
       | Inr fs \<Rightarrow>
           bnd (in_hooks (update_hook (param rq ''webhook_id'') (hf_name fs) (hf_url fs) (hf_auth fs) (hf_body fs))) (\<lambda>r.
             ret (case r of None \<Rightarrow> webhook_missing | Some h \<Rightarrow> json_answer (public_hook h))))))"

definition delete_webhook :: "http_request \<Rightarrow> response http" where
  "delete_webhook rq = bnd (in_hooks (remove_hook (param rq ''webhook_id''))) (\<lambda>gone.
     ret (if gone then answer 200 [(''ok'', JBool True)] else webhook_missing))"

definition duplicate_webhook :: "http_app \<Rightarrow> http_request \<Rightarrow> response http" where
  "duplicate_webhook app rq = bnd (in_hooks (duplicate_hook (ap_fresh app) (param rq ''webhook_id''))) (\<lambda>r.
     ret (case r of None \<Rightarrow> webhook_missing | Some h \<Rightarrow> (json_answer (public_hook h))\<lparr>rs_status := 201\<rparr>))"

end
