(* ===== verification/Http_Server.thy ===== *)
theory Http_Server
  imports Http_Api
begin

text \<open>
  \<open>web/server.py\<close> continued: the firmware and portal files, the speech settings of \<open>web/speech.py\<close>, the table of
  \<open>attach_http_routes\<close>, and \<open>make_http_app\<close>, the stack of middlewares around every handler.
\<close>

section \<open>Files\<close>

text \<open>An image is a regular file right in the firmware directory.\<close>

definition serve_firmware :: "http_app \<Rightarrow> http_request \<Rightarrow> response http" where
  "serve_firmware app rq =
    (let name = param rq ''filename'' in
     if \<not> firmware_name name \<or> \<not> ap_images app name then ret (failure 404 ''not found'')
     else ret \<lparr> rs_status = 200, rs_body = File_body [''firmware'', name],
       rs_headers = [(''Content-Type'', ''application/octet-stream''),
         (''Content-Disposition'', ''attachment; filename='' @ [CHR 0x22] @ name @ [CHR 0x22])], rs_cookie = Keep_cookie \<rparr>)"

definition private_headers :: "response \<Rightarrow> response" where
  "private_headers r = r\<lparr>rs_headers := [(''Cache-Control'', ''no-store''), (''Referrer-Policy'', ''no-referrer'')]\<rparr>"

definition delivery_response :: "delivery_answer \<Rightarrow> response" where
  "delivery_response a = private_headers (case a of
     Not_found \<Rightarrow> failure 404 ''not found''
   | At_capacity \<Rightarrow> failure 503 ''delivery capacity reached''
   | Delivery_url u \<Rightarrow> answer 201 [(''url'', JStr u), (''expires_in'', JFloat firmware_ttl)]
   | File n \<Rightarrow> \<lparr> rs_status = 200, rs_body = File_body [''firmware'', n], rs_headers = [], rs_cookie = Keep_cookie \<rparr>)"

definition in_firmware :: "(firmware \<Rightarrow> delivery_answer \<times> firmware) \<Rightarrow> response http" where
  "in_firmware m s = (case m (hw_firmware s) of (a, f) \<Rightarrow> (Inr (delivery_response a), s\<lparr>hw_firmware := f\<rparr>))"

definition mint_firmware_delivery :: "http_app \<Rightarrow> http_request \<Rightarrow> response http" where
  "mint_firmware_delivery app rq =
     in_firmware (mint (ap_sha app) (ap_images app) (ap_origin app) (ap_clock app) (ap_fresh app) (param rq ''filename''))"

definition download_firmware_delivery :: "http_app \<Rightarrow> http_request \<Rightarrow> response http" where
  "download_firmware_delivery app rq =
     in_firmware (download (ap_sha app) (ap_images app) (ap_clock app) (param rq ''token'') (param rq ''filename''))"

text \<open>\<open>os.path.normpath\<close> on the segments of an absolute path\<close>

fun norm_path :: "file_path \<Rightarrow> file_path \<Rightarrow> file_path" where
  "norm_path done [] = done"
| "norm_path done (x # xs) =
    (if x = [] \<or> x = ''.'' then norm_path done xs else if x = ''..'' then norm_path (butlast done) xs else norm_path (done @ [x]) xs)"

text \<open>\<open>path.lstrip("/")\<close> and then the segments between slashes\<close>

fun segments :: "string \<Rightarrow> string \<Rightarrow> file_path" where
  "segments [] seg = [seg]"
| "segments (c # cs) seg = (if c = CHR ''/'' then seg # segments cs [] else segments cs (seg @ [c]))"

definition inside :: "file_path \<Rightarrow> file_path \<Rightarrow> bool" where
  "inside base p \<longleftrightarrow> take (length base) p = base"

definition index_of :: "http_app \<Rightarrow> file_path" where
  "index_of app = ap_portal app @ [''index.html'']"

definition portal_candidate :: "http_app \<Rightarrow> http_request \<Rightarrow> file_path" where
  "portal_candidate app rq = norm_path (ap_portal app) (segments (dropWhile (\<lambda>c. c = CHR ''/'') (rq_path rq)) [])"

text \<open>The content type of a portal file is left out.\<close>

definition serve_static :: "http_app \<Rightarrow> http_request \<Rightarrow> response http" where
  "serve_static app rq =
    (if rq_path rq = ''/firmware-delivery'' \<or> starts_with ''/firmware-delivery/'' (rq_path rq)
     then ret (private_headers (failure 404 ''not found''))
     else if rq_path rq = ''/api'' \<or> starts_with ''/api/'' (rq_path rq) then ret (failure 404 ''not found'')
     else if ap_kind app (ap_portal app) \<noteq> Directory then ret (failure 404 ''not found'')
     else
       let candidate = portal_candidate app rq in
       if \<not> inside (ap_real app (ap_portal app)) (ap_real app candidate) then ret (failure 404 ''not found'')
       else
         let chosen = (if ap_kind app candidate = Regular then candidate else index_of app) in
         if ap_kind app chosen = Absent then ret (failure 404 ''not found'')
         else ret \<lparr> rs_status = 200, rs_body = File_body chosen, rs_headers = [], rs_cookie = Keep_cookie \<rparr>)"

section \<open>Speech settings\<close>

definition authorize_speech :: "http_app \<Rightarrow> http_request \<Rightarrow> unit http" where
  "authorize_speech app rq = bnd (http_principal app rq) (\<lambda>p.
     raise_if (\<not> allowed p (Some SPEECH_CONFIG) None False) (Http_error (if p = None then 401 else 403)))"

definition with_readiness :: "(json \<Rightarrow> json) \<Rightarrow> json \<Rightarrow> json" where
  "with_readiness ready view =
     put_key ''backends'' (JList (map (\<lambda>b. put_key ''readiness'' (ready b) b) (list_items (jat view ''backends'')))) view"

definition update_selection :: "http_request \<Rightarrow> string option \<Rightarrow> unit http" where
  "update_selection rq device = (case rq_json rq of
     Inl e \<Rightarrow> raise e | Inr patch \<Rightarrow> in_devices (update_speech patch device))"

definition speech_settings :: "http_app \<Rightarrow> http_request \<Rightarrow> response http" where
  "speech_settings app rq =
    (let device = dict_get (rq_params rq) ''device_id'' in
     bnd (if rq_method rq = ''PATCH''
          then try_except (andthen (update_selection rq device) (ret True))
                 (\<lambda>e. if value_error e \<or> e = Raised TypeError then ret False else raise e)
          else ret True) (\<lambda>good.
       if \<not> good then ret (failure 400 ''Invalid speech selection'')
       else bnd (reads (\<lambda>s. speech_view (ap_realtime app) (hw_devices s) device)) (\<lambda>v. case v of
         Inl e \<Rightarrow> raise (Raised e)
       | Inr j \<Rightarrow> ret (json_answer (with_readiness (ap_ready app) j)))))"

section \<open>Routes\<close>

datatype endpoint =
    List_devices | Update_device | Announce_device | Device_command
  | List_agents | Create_agent | Delete_agent | Activate_agent | Rotate_token
  | List_webhooks | Get_webhook | Create_webhook | Update_webhook | Delete_webhook | Duplicate_webhook
  | Serve_firmware | Mint_delivery | Download_delivery | Speech_settings
  | Owner_api | Enrollment_api | Lifecycle_api | Integration_api | Portal_files | Options_answer | No_route nat

text \<open>\<open>handler.__name__\<close> of the handlers under \<open>_require_auth\<close>\<close>

definition handler_name :: "endpoint \<Rightarrow> string option" where
  "handler_name ep = (case ep of
     List_devices \<Rightarrow> Some ''list_devices'' | Update_device \<Rightarrow> Some ''update_device'' | Announce_device \<Rightarrow> Some ''announce''
   | Device_command \<Rightarrow> Some ''device_command'' | List_agents \<Rightarrow> Some ''list_agents'' | Create_agent \<Rightarrow> Some ''create_agent''
   | Delete_agent \<Rightarrow> Some ''delete_agent'' | Activate_agent \<Rightarrow> Some ''activate_agent'' | Rotate_token \<Rightarrow> Some ''rotate_token''
   | List_webhooks \<Rightarrow> Some ''list_webhooks'' | Get_webhook \<Rightarrow> Some ''get_webhook_configuration''
   | Create_webhook \<Rightarrow> Some ''create_webhook'' | Update_webhook \<Rightarrow> Some ''update_webhook''
   | Delete_webhook \<Rightarrow> Some ''delete_webhook'' | Duplicate_webhook \<Rightarrow> Some ''duplicate_webhook''
   | Serve_firmware \<Rightarrow> Some ''serve_firmware'' | Mint_delivery \<Rightarrow> Some ''mint_firmware_delivery'' | _ \<Rightarrow> None)"

definition handler :: "http_app \<Rightarrow> http_request \<Rightarrow> endpoint \<Rightarrow> response http" where
  "handler app rq ep = (case ep of
     List_devices \<Rightarrow> list_devices app | Update_device \<Rightarrow> update_device app rq | Announce_device \<Rightarrow> announce app rq
   | Device_command \<Rightarrow> device_command app rq | List_agents \<Rightarrow> list_agents | Create_agent \<Rightarrow> not_implemented
   | Delete_agent \<Rightarrow> not_implemented | Activate_agent \<Rightarrow> activate_agent rq | Rotate_token \<Rightarrow> not_implemented
   | List_webhooks \<Rightarrow> list_webhooks | Get_webhook \<Rightarrow> get_webhook_configuration rq
   | Create_webhook \<Rightarrow> create_webhook app rq | Update_webhook \<Rightarrow> update_webhook app rq
   | Delete_webhook \<Rightarrow> delete_webhook rq | Duplicate_webhook \<Rightarrow> duplicate_webhook app rq
   | Serve_firmware \<Rightarrow> serve_firmware app rq | Mint_delivery \<Rightarrow> mint_firmware_delivery app rq
   | Download_delivery \<Rightarrow> download_firmware_delivery app rq | Speech_settings \<Rightarrow> speech_settings app rq
   | Owner_api \<Rightarrow> owner_endpoint app rq | Enrollment_api \<Rightarrow> enrollment_endpoint app rq
   | Lifecycle_api \<Rightarrow> lifecycle_endpoint app rq | Integration_api \<Rightarrow> integration_endpoint app rq
   | Portal_files \<Rightarrow> serve_static app rq
   | Options_answer \<Rightarrow> ret \<lparr> rs_status = 204, rs_body = No_body, rs_headers = [], rs_cookie = Keep_cookie \<rparr>
   | No_route n \<Rightarrow> raise (Http_error n))"

text \<open>\<open>attach_http_routes\<close>: the method of each route; \<open>add_get\<close> also serves \<open>HEAD\<close>, but for the firmware links.\<close>

definition route_methods :: "endpoint \<Rightarrow> string list" where
  "route_methods ep =
    (if ep \<in> {List_devices, List_agents, List_webhooks, Get_webhook, Serve_firmware, Portal_files} then [''GET'', ''HEAD'']
     else if ep = Download_delivery then [''GET'']
     else if ep \<in> {Update_device, Update_webhook} then [''PATCH'']
     else if ep \<in> {Delete_agent, Delete_webhook} then [''DELETE'']
     else if ep = Speech_settings then [''GET'', ''HEAD'', ''PATCH'']
     else if ep = Owner_api then [''GET'', ''HEAD'', ''POST'']
     else if ep = Options_answer then [''OPTIONS'']
     else [''POST''])"

definition boundary :: "endpoint \<Rightarrow> bool" where
  "boundary ep \<longleftrightarrow> handler_name ep \<noteq> None
     \<or> ep \<in> {Download_delivery, Speech_settings, Owner_api, Enrollment_api, Lifecycle_api, Integration_api}"

text \<open>A handler with what decides about it: its policy operation, the owner's authority for the speech settings\<close>

definition under_policy :: "http_app \<Rightarrow> http_request \<Rightarrow> endpoint \<Rightarrow> response http \<Rightarrow> response http" where
  "under_policy app rq ep body = (case handler_name ep of
     Some name \<Rightarrow> require_auth app name rq body
   | None \<Rightarrow> if ep = Speech_settings then andthen (authorize_speech app rq) body else body)"

text \<open>\<open>make_http_app\<close>\<close>

definition through_stack :: "http_app \<Rightarrow> http_request \<Rightarrow> endpoint \<Rightarrow> response http \<Rightarrow> response http" where
  "through_stack app rq ep body =
     owner_middleware app rq (cors_middleware app rq
       (policy_middleware rq (ep = Portal_files) (boundary ep) (under_policy app rq ep body)))"

definition serve :: "http_app \<Rightarrow> http_request \<Rightarrow> endpoint \<Rightarrow> response http" where
  "serve app rq ep = through_stack app rq ep (handler app rq ep)"

end
