(* ===== verification/Http_Laws.thy ===== *)
theory Http_Laws
  imports Http_Server
begin

text \<open>
  What the HTTP boundary guarantees: which requests reach a handler, what owner authority over a cookie demands, and
  what the portal serves.
\<close>

section \<open>The way to a handler\<close>

text \<open>The router hands a request to an endpoint under one of its methods; the owner's paths belong to the owner's API.\<close>

definition routed_to :: "http_request \<Rightarrow> endpoint \<Rightarrow> bool" where
  "routed_to rq ep \<longleftrightarrow> rq_method rq \<in> set (route_methods ep)
     \<and> (owner_path rq \<longrightarrow> ep \<in> {Owner_api, Portal_files, Options_answer})"

definition operation_of :: "endpoint \<Rightarrow> operation option" where
  "operation_of ep = (case handler_name ep of
     Some name \<Rightarrow> dict_get http_operations name
   | None \<Rightarrow> if ep = Speech_settings then Some SPEECH_CONFIG else None)"

lemma in_auth_Inr: "in_auth m s = (Inr x, s') \<Longrightarrow> \<exists>w. m (hw_auth s) = (Inr x, w) \<and> s' = s\<lparr>hw_auth := w\<rparr>"
  by (auto simp: in_auth_def split: prod.splits sum.splits)

lemma bnd_Inr: "bnd m k s = (Inr y, s') \<Longrightarrow> \<exists>x s1. m s = (Inr x, s1) \<and> k x s1 = (Inr y, s')"
  by (auto simp: bnd_def split: prod.splits sum.splits)

lemma session_of_Some:
  "session_of w cookie = Some (p, s) \<Longrightarrow> pr_role p = OWNER \<and> cookie \<noteq> [] \<and> se_csrf s = csrf_of w cookie"
  by (auto simp: session_of_def split: if_splits option.splits)

lemma owner_session_Some:
  assumes "owner_session cookie w = (Inr (Some (p, s)), w')"
  shows "pr_role p = OWNER \<and> cookie \<noteq> [] \<and> se_csrf s = csrf_of w cookie \<and> w_hmac w' = w_hmac w"
proof -
  have cookie: "\<not> (cookie = [] \<or> length cookie > 512)"
    using assms by (auto simp: owner_session_def run_ret)
  obtain v where v: "session_of v cookie = Some (p, s)" "w_hmac v = w_hmac w"
    using assms cookie by (auto simp: owner_session_def transaction_def run_reads load_def split: if_splits sum.splits prod.splits)
  have "w_hmac w' = w_hmac w"
    using assms cookie by (auto simp: owner_session_def transaction_def run_reads load_def split: if_splits sum.splits prod.splits)
  then show ?thesis using session_of_Some [OF v(1)] v(2) by (simp add: csrf_of_def)
qed

text \<open>Whom a request stands for when the policy looks at it\<close>

lemma bearer_principal_Some:
  "bearer_principal rq w = Some p \<Longrightarrow> authenticate w (bearer rq) = Some p \<and> pr_role p \<noteq> OWNER"
  by (auto simp: bearer_principal_def split: option.splits if_splits)

lemma http_principal_Some:
  assumes "http_principal app rq s = (Inr (Some p), s')"
  shows "if pr_role p = OWNER
    then secure_request app rq \<and> cookie_value app rq \<noteq> []
      \<and> (\<exists>sess w. owner_session (cookie_value app rq) (hw_auth s) = (Inr (Some (p, sess)), w))
    else authenticate (hw_auth s') (bearer rq) = Some p"
proof -
  obtain q s1 where q: "session_principal app rq s = (Inr q, s1)"
    and k: "(case q of Some _ \<Rightarrow> ret q | None \<Rightarrow> reads (\<lambda>s. bearer_principal rq (hw_auth s))) s1 = ((Inr (Some p) :: http_exn + principal option), s')"
    using bnd_Inr [OF assms [unfolded http_principal_def]] by blast
  show ?thesis
  proof (cases q)
    case None
    then have "bearer_principal rq (hw_auth s') = Some p" using k by (auto simp: run_reads)
    then show ?thesis using bearer_principal_Some by fastforce
  next
    case (Some r)
    then have p: "r = p" using k by (simp add: run_ret)
    have "secure_request app rq" using q Some by (auto simp: session_principal_def run_ret split: if_splits)
    moreover obtain f s2 where f: "in_auth (owner_session (cookie_value app rq)) s = (Inr f, s2)" "map_option fst f = Some p"
      using q Some p \<open>secure_request app rq\<close>
      by (auto simp: session_principal_def dest!: bnd_Inr) (auto simp: run_ret)
    then obtain sess where "f = Some (p, sess)" by auto
    then have "\<exists>w. owner_session (cookie_value app rq) (hw_auth s) = (Inr (Some (p, sess)), w)"
      using in_auth_Inr [OF f(1)] by auto
    ultimately show ?thesis using owner_session_Some by (metis (no_types))
  qed
qed

lemma under_policy_decides:
  assumes "operation_of ep = Some opn" and "under_policy app rq ep h s \<noteq> under_policy app rq ep h' s"
  shows "\<exists>p s'. http_principal app rq s = (Inr (Some p), s') \<and> allowed (Some p) (Some opn) None False
    \<and> (pr_role p = INTEGRATION \<longrightarrow> is_tls app \<longrightarrow> handler_name ep \<noteq> None \<longrightarrow> secure_request app rq) \<and> opn \<notin> set unshipped"
proof (cases "handler_name ep")
  case None
  then have "ep = Speech_settings" "opn = SPEECH_CONFIG" using assms(1) by (auto simp: operation_of_def split: if_splits)
  then show ?thesis using assms(2)
    by (auto simp: under_policy_def handler_name_def authorize_speech_def andthen_def bnd_def run_raise_if unshipped_def
        split: prod.splits sum.splits if_splits option.splits)
       (metis allowed_None(1) option.exhaust)+
next
  case (Some name)
  have opn: "dict_get http_operations name = Some opn" using assms(1) Some by (simp add: operation_of_def)
  show ?thesis
  proof (cases "http_principal app rq s")
    case (Pair r s')
    then show ?thesis using assms(2) Some opn
      by (cases r) (auto simp: under_policy_def require_auth_def bnd_def run_ret allowed_None split: if_splits option.splits)
  qed
qed

lemma under_policy_options: "rq_method rq = ''OPTIONS'' \<Longrightarrow> cors_middleware app rq m = cors_middleware app rq m'"
  by (simp add: cors_middleware_def)

lemma cors_differs:
  assumes "cors_middleware app rq (policy_middleware rq st bd m) s \<noteq> cors_middleware app rq (policy_middleware rq st bd m') s"
  shows "m s \<noteq> m' s"
  using assms by (auto simp: cors_middleware_def policy_middleware_def bnd_def split: if_splits)

text \<open>The state in which the policy looks at a request: after the checks of the owner's middleware, when it has to make them\<close>

definition owner_bound :: "http_request \<Rightarrow> bool" where
  "owner_bound rq \<longleftrightarrow> owner_path rq \<or> has_cookie rq COOKIE \<or> has_cookie rq LAN_COOKIE"

definition at_policy :: "http_app \<Rightarrow> http_request \<Rightarrow> http_world \<Rightarrow> http_world" where
  "at_policy app rq s = (if owner_bound rq then snd (owner_checks app rq s) else s)"

lemma owner_middleware_differs:
  assumes "owner_middleware app rq m s \<noteq> owner_middleware app rq m' s"
  shows "m (at_policy app rq s) \<noteq> m' (at_policy app rq s) \<and> (owner_bound rq \<longrightarrow> fst (owner_checks app rq s) = Inr ())"
proof (cases "owner_bound rq")
  case False
  then show ?thesis using assms by (simp add: owner_middleware_def owner_bound_def at_policy_def)
next
  case True
  then have "owner_middleware app rq n = bnd (try_except (andthen (owner_checks app rq) n) owner_refusal) (\<lambda>r. ret (unstored r))" for n
    by (auto simp: owner_middleware_def owner_bound_def)
  then have "andthen (owner_checks app rq) m s \<noteq> andthen (owner_checks app rq) m' s"
    using assms by (auto simp: bnd_def try_except_def)
  then show ?thesis using True
    by (auto simp: andthen_def bnd_def at_policy_def split: prod.splits sum.splits)
qed

lemma cookie_is_bound: "cookie_value app rq \<noteq> [] \<Longrightarrow> owner_bound rq"
  by (auto simp: cookie_value_def owner_bound_def has_cookie_def cookie_name_def split: option.splits if_splits)

lemma owner_checks_ok:
  assumes "owner_checks app rq s = (Inr (), s1)"
  shows "same_origin app rq \<and> (rq_method rq \<notin> set safe_methods \<and> \<not> owner_path rq \<longrightarrow>
    header_or rq ''x-csrf-token'' [] = csrf_of (hw_auth s) (cookie_value app rq))"
proof -
  have same: "same_origin app rq" and rest: "when_do (rq_method rq \<notin> set safe_methods \<and> (\<not> owner_path rq \<or> ends_in ''/logout'' (rq_path rq))) (check_csrf app rq) s = (Inr (), s1)"
    using assms by (auto simp: owner_checks_def andthen_def bnd_def run_raise_if split: if_splits)
  have "header_or rq ''x-csrf-token'' [] = csrf_of (hw_auth s) (cookie_value app rq)"
    if unsafe: "rq_method rq \<notin> set safe_methods" "\<not> owner_path rq"
  proof -
    have "check_csrf app rq s = (Inr (), s1)" using rest unsafe by (simp add: run_when_do)
    then obtain f s2 where f: "in_auth (owner_session (cookie_value app rq)) s = (Inr f, s2)"
      and t: "\<not> (case f of None \<Rightarrow> True | Some (_, x) \<Rightarrow> header_or rq ''x-csrf-token'' [] \<noteq> se_csrf x)"
      by (auto simp: check_csrf_def run_raise_if dest!: bnd_Inr split: if_splits)
    obtain p x where px: "f = Some (p, x)" "header_or rq ''x-csrf-token'' [] = se_csrf x" using t by (auto split: option.splits)
    obtain w where "owner_session (cookie_value app rq) (hw_auth s) = (Inr (Some (p, x)), w)" using in_auth_Inr [OF f] px by auto
    from owner_session_Some [OF this] px(2) show ?thesis by simp
  qed
  then show ?thesis using same by blast
qed

section \<open>Handlers run under authority\<close>

lemma reach_of_roles:
  assumes "operation_of ep = Some opn" and "allowed (Some p) (Some opn) None False" and "opn \<notin> set unshipped"
  shows "(pr_role p = DEVICE \<longrightarrow> ep = Serve_firmware)
    \<and> (pr_role p = INTEGRATION \<longrightarrow> ep \<in> {List_devices, Announce_device, Device_command, Mint_delivery})"
  using assms
  by (cases ep) (auto simp: operation_of_def handler_name_def http_operations_def allowed_def dict_get_def integration_grants_def
      unshipped_def)

text \<open>C2: Nothing a handler would do or say depends on a request without authority. If it makes any difference at all, to
  the answer or to the state of the server, which handler stands behind a protected route, then the request is one that
  a live credential or a session of the owner may make: a device reads firmware, an integration lists, announces,
  commands and mints, and over TLS only from the configured origin; everything else takes the owner, who needs the
  cookie over the configured transport and, for a request that is not safe, the exact origin and the CSRF token of that
  cookie.\<close>

theorem handlers_run_under_authority:
  assumes "routed_to rq ep" and "operation_of ep = Some opn"
    and "serve app rq ep s \<noteq> through_stack app rq ep other s"
  shows "\<exists>p v. http_principal app rq (at_policy app rq s) = (Inr (Some p), v) \<and> allowed (Some p) (Some opn) None False
    \<and> (pr_role p \<noteq> OWNER \<longrightarrow> authenticate (hw_auth v) (bearer rq) = Some p)
    \<and> (pr_role p = DEVICE \<longrightarrow> ep = Serve_firmware)
    \<and> (pr_role p = INTEGRATION \<longrightarrow> ep \<in> {List_devices, Announce_device, Device_command, Mint_delivery} \<and> (is_tls app \<longrightarrow> secure_request app rq))
    \<and> (pr_role p = OWNER \<longrightarrow> secure_request app rq \<and> cookie_value app rq \<noteq> []
        \<and> (rq_method rq \<notin> set safe_methods \<longrightarrow> headers rq ''origin'' = [ap_origin app]
             \<and> header_or rq ''x-csrf-token'' [] = csrf_of (hw_auth s) (cookie_value app rq)))"
proof -
  have path: "\<not> owner_path rq" using assms(1,2) by (auto simp: routed_to_def operation_of_def handler_name_def)
  have step: "under_policy app rq ep (handler app rq ep) (at_policy app rq s) \<noteq> under_policy app rq ep other (at_policy app rq s)"
    and checks: "owner_bound rq \<longrightarrow> fst (owner_checks app rq s) = Inr ()"
    using owner_middleware_differs [OF assms(3) [unfolded serve_def through_stack_def]] cors_differs by blast+
  obtain p v where p: "http_principal app rq (at_policy app rq s) = (Inr (Some p), v)" "allowed (Some p) (Some opn) None False"
    "pr_role p = INTEGRATION \<longrightarrow> is_tls app \<longrightarrow> handler_name ep \<noteq> None \<longrightarrow> secure_request app rq" "opn \<notin> set unshipped"
    using under_policy_decides [OF assms(2) step] by blast
  note reach = reach_of_roles [OF assms(2) p(2,4)]
  note who = http_principal_Some [OF p(1)]
  have csrf: "headers rq ''origin'' = [ap_origin app] \<and> header_or rq ''x-csrf-token'' [] = csrf_of (hw_auth s) (cookie_value app rq)"
    if owner: "pr_role p = OWNER" "rq_method rq \<notin> set safe_methods"
  proof -
    have "cookie_value app rq \<noteq> []" using who owner by simp
    then have "fst (owner_checks app rq s) = Inr ()" using checks cookie_is_bound by blast
    then have "owner_checks app rq s = (Inr (), snd (owner_checks app rq s))" by (simp add: prod_eq_iff)
    from owner_checks_ok [OF this] show ?thesis using path owner unfolding same_origin_def by blast
  qed
  have named: "pr_role p = INTEGRATION \<longrightarrow> handler_name ep \<noteq> None" using reach by (auto simp: handler_name_def)
  show ?thesis
  proof (intro exI [of _ p] exI [of _ v] conjI)
    show "pr_role p \<noteq> OWNER \<longrightarrow> authenticate (hw_auth v) (bearer rq) = Some p" using who by simp
    show "pr_role p = INTEGRATION \<longrightarrow> ep \<in> {List_devices, Announce_device, Device_command, Mint_delivery} \<and> (is_tls app \<longrightarrow> secure_request app rq)"
      using p(3) named reach by blast
    show "pr_role p = OWNER \<longrightarrow> secure_request app rq \<and> cookie_value app rq \<noteq> []
        \<and> (rq_method rq \<notin> set safe_methods \<longrightarrow> headers rq ''origin'' = [ap_origin app]
             \<and> header_or rq ''x-csrf-token'' [] = csrf_of (hw_auth s) (cookie_value app rq))"
      using who csrf by simp
  qed (use p reach in blast)+
qed

section \<open>A concrete server\<close>

definition house_app :: http_app where
  "house_app = \<lparr> ap_origin = ''http://localhost:8080'', ap_proxies = [Network4 0x0A000000 8], ap_parse = (\<lambda>_. Not_a_document),
     ap_dumps = (\<lambda>_. []), ap_synth = (\<lambda>_. ([], False)), ap_synth_busy = False, ap_synth_end = 0, ap_torn_down = True,
     ap_spoken = (\<lambda>_. []), ap_ready = (\<lambda>_. JStr ''configured''), ap_realtime = False, ap_iso = (\<lambda>_. []),
     ap_button_text = (\<lambda>_. []), ap_urlparse = (\<lambda>_. (''http'', ''host'')), ap_loads = (\<lambda>_. None), ap_fresh = ''f'',
     ap_clock = 0, ap_sha = (\<lambda>t. t), ap_images = (\<lambda>_. False), ap_portal = [''srv''], ap_kind = (\<lambda>_. Absent), ap_real = (\<lambda>p. p) \<rparr>"

definition session_snapshot :: snapshot where
  "session_snapshot = (demo_snapshot False [])\<lparr>sn_owner := Some (demo_owner\<lparr>ow_sessions :=
     Some \<lparr> os_origin = demo_hash (utf8 ''http://localhost:8080''), os_entries = [(demo_hash (utf8 ''ck''), 9000)] \<rparr>\<rparr>)\<rparr>"

lemma wf_session_snapshot: "wf_snapshot session_snapshot"
  by (simp add: snapshot_checks session_snapshot_def demo_snapshot_def demo_owner_def ok_owner_sessions_def is_dict_def dict_keys_def)

lemma load_running: "wf_snapshot s \<Longrightarrow> load (running s) = (Inr (), running s)"
  by (simp add: load_def running_def read_written_snapshot)

definition house :: http_world where
  "house = \<lparr> hw_auth = running session_snapshot, hw_devices = bt_devices kitchen_buttons, hw_hooks = no_hooks\<lparr>hk_loaded := True\<rparr>,
     hw_firmware = no_deliveries, hw_config = No_file, hw_config_faults = [], hw_sent = [], hw_shut = {} \<rparr>"

definition owner_request :: "string \<Rightarrow> string \<Rightarrow> http_request" where
  "owner_request verb path = \<lparr> rq_method = verb, rq_path = path, rq_query = [], rq_secure = False, rq_peer = None,
     rq_headers = [(''host'', ''localhost:8080''), (''origin'', ''http://localhost:8080''),
       (''x-csrf-token'', demo_hash (utf8 ''ck'' @ ''vauxr:owner-csrf:v1''))],
     rq_cookies = [(''vauxr_owner'', ''ck'')], rq_type = ''application/json'', rq_chunks = [], rq_stalls = False,
     rq_json = Inr (JObj []), rq_params = [(''webhook_id'', ''w1'')] \<rparr>"

definition the_owner :: principal where
  "the_owner = \<lparr> pr_role = OWNER, pr_subject = ''owner'', pr_credential_id = hex_digits 32 7, pr_generation = [] \<rparr>"

lemma running_fields [simp]: "w_origin (running s) = ''http://localhost:8080''" "w_hmac (running s) = (\<lambda>key msg. demo_hash (key @ msg))"
  by (simp_all add: running_def demo_world_def)

lemma owner_session_house:
  "\<exists>x. owner_session ''ck'' (running session_snapshot) = (Inr (Some (the_owner, x)), running session_snapshot)
    \<and> se_csrf x = demo_hash (utf8 ''ck'' @ ''vauxr:owner-csrf:v1'')"
proof -
  have st: "sn_owner session_snapshot = Some (demo_owner\<lparr>ow_sessions :=
     Some \<lparr> os_origin = demo_hash (utf8 ''http://localhost:8080''), os_entries = [(demo_hash (utf8 ''ck''), 9000)] \<rparr>\<rparr>)"
    by (simp add: session_snapshot_def)
  show ?thesis
    by (simp add: owner_session_def transaction_def load_running wf_session_snapshot run_reads session_of_def st bound_sessions_def
        demo_owner_def is_active_mode_def token_verifier_def dict_get_def the_owner_def csrf_of_def)
qed

lemma house_simps [simp]:
  "ap_origin house_app = ''http://localhost:8080''" "hw_auth house = running session_snapshot" "hw_hooks house = no_hooks\<lparr>hk_loaded := True\<rparr>"
  "rq_method (owner_request verb path) = verb" "rq_path (owner_request verb path) = path"
  by (simp_all add: house_app_def house_def owner_request_def)

lemma owner_request_simps [simp]:
  "headers (owner_request verb path) ''origin'' = [''http://localhost:8080'']" "cookie_name house_app = LAN_COOKIE"
  "has_cookie (owner_request verb path) LAN_COOKIE" "\<not> has_cookie (owner_request verb path) COOKIE"
  "cookie_value house_app (owner_request verb path) = ''ck''"
  "header_or (owner_request verb path) ''x-csrf-token'' [] = demo_hash (utf8 ''ck'' @ ''vauxr:owner-csrf:v1'')"
  "secure_request house_app (owner_request verb path)"
  by (simp_all add: headers_def cookie_name_def is_tls_def starts_with_def has_cookie_def dict_get_def LAN_COOKIE_def COOKIE_def
      cookie_value_def header_or_def secure_request_def owner_request_def house_app_def)

lemma cookies_differ [simp]: "LAN_COOKIE \<noteq> COOKIE"
  by (simp add: COOKIE_def LAN_COOKIE_def)

lemma house_session:
  "\<exists>x. in_auth (owner_session ''ck'') house = (Inr (Some (the_owner, x)), house)
    \<and> se_csrf x = demo_hash (utf8 ''ck'' @ ''vauxr:owner-csrf:v1'')"
proof -
  obtain x where x: "owner_session ''ck'' (running session_snapshot) = (Inr (Some (the_owner, x)), running session_snapshot)"
    "se_csrf x = demo_hash (utf8 ''ck'' @ ''vauxr:owner-csrf:v1'')"
    using owner_session_house by blast
  then have "in_auth (owner_session ''ck'') house = (Inr (Some (the_owner, x)), house)"
    by (simp add: in_auth_def house_def)
  then show ?thesis using x(2) by blast
qed

lemma house_principal: "http_principal house_app (owner_request verb path) house = (Inr (Some the_owner), house)"
proof -
  obtain x where "in_auth (owner_session ''ck'') house = (Inr (Some (the_owner, x)), house)" using house_session by blast
  then show ?thesis by (simp add: http_principal_def session_principal_def run_bnd run_ret)
qed

lemma house_checks: "owner_checks house_app (owner_request verb path) house = (Inr (), house)"
proof -
  obtain x where x: "in_auth (owner_session ''ck'') house = (Inr (Some (the_owner, x)), house)"
    "se_csrf x = demo_hash (utf8 ''ck'' @ ''vauxr:owner-csrf:v1'')"
    using house_session by blast
  then have "check_csrf house_app (owner_request verb path) house = (Inr (), house)"
    by (simp add: check_csrf_def run_bnd run_raise_if)
  moreover have "same_origin house_app (owner_request verb path)" by (simp add: same_origin_def)
  ultimately show ?thesis by (simp add: owner_checks_def run_andthen run_raise_if run_when_do)
qed

lemma handlers_run_under_authority_witness:
  "\<exists>p v. http_principal house_app (owner_request ''POST'' ''/api/webhooks/w1/duplicate'') house = (Inr (Some p), v)
    \<and> allowed (Some p) (Some WEBHOOK_CONFIG) None False"
proof -
  let ?rq = "owner_request ''POST'' ''/api/webhooks/w1/duplicate''"
  let ?no = "raise (Http_error 500) :: response http"
  have r: "routed_to ?rq Duplicate_webhook" by (simp add: routed_to_def route_methods_def owner_path_def starts_with_def)
  have opn: "operation_of Duplicate_webhook = Some WEBHOOK_CONFIG"
    by (simp add: operation_of_def handler_name_def http_operations_def dict_get_def)
  have a: "at_policy house_app ?rq house = house" by (simp add: at_policy_def house_checks)
  have "allowed (Some the_owner) (Some WEBHOOK_CONFIG) None False" by (simp add: allowed_def the_owner_def owner_grants_def)
  then have g: "under_policy house_app ?rq Duplicate_webhook h house = h house" for h
    by (simp add: under_policy_def handler_name_def require_auth_def run_bnd house_principal http_operations_def dict_get_def unshipped_def
        the_owner_def)
  have d: "handler house_app ?rq Duplicate_webhook house = (Inr webhook_missing, house)"
    by (simp add: handler_def duplicate_webhook_def run_bnd in_hooks_def duplicate_hook_def get_hook_def ensure_hooks_def run_andthen
        run_reads run_when_do run_ret find_hook_def no_hooks_def house_def)
  have "serve house_app ?rq Duplicate_webhook house \<noteq> through_stack house_app ?rq Duplicate_webhook ?no house"
    by (simp add: serve_def through_stack_def owner_middleware_def cors_middleware_def policy_middleware_def boundary_def
        handler_name_def run_bnd run_try_except run_andthen house_checks g d run_raise run_ret owner_refusal_def)
       (simp add: unstored_def cors_headers_def set_header_def failure_def answer_def webhook_missing_def)
  from handlers_run_under_authority [OF r opn this] show ?thesis unfolding a by blast
qed

section \<open>The files of the portal\<close>

text \<open>An answer is the handler's, or a refusal of the owner's middleware.\<close>

lemma owner_middleware_Inr:
  assumes "owner_middleware app rq m s = (Inr r, s')"
  shows "(\<exists>q. m (at_policy app rq s) = (Inr q, s') \<and> r = (if owner_bound rq then unstored q else q))
    \<or> (\<exists>n c. r = unstored (failure n c) \<and> owner_bound rq)"
proof (cases "owner_bound rq")
  case False
  then show ?thesis using assms by (simp add: owner_middleware_def owner_bound_def at_policy_def)
next
  case True
  then have mw: "bnd (try_except (andthen (owner_checks app rq) m) owner_refusal) (\<lambda>r. ret (unstored r)) s = (Inr r, s')"
    using assms by (auto simp: owner_middleware_def owner_bound_def split: if_splits)
  obtain q t where q: "try_except (andthen (owner_checks app rq) m) owner_refusal s = (Inr q, t)" "r = unstored q" "t = s'"
    using bnd_Inr [OF mw] by (auto simp: run_ret)
  show ?thesis
  proof (cases "andthen (owner_checks app rq) m s")
    case (Pair res u)
    show ?thesis
    proof (cases res)
      case (Inl e)
      then have "owner_refusal e u = (Inr q, t)" using q(1) Pair by (simp add: run_try_except)
      then have "\<exists>n c. q = failure n c"
        by (auto simp: owner_refusal_def run_ret run_raise split: http_exn.splits if_splits)
      then show ?thesis using q(2) True by blast
    next
      case (Inr x)
      then have "andthen (owner_checks app rq) m s = (Inr q, s')" using q(1,3) Pair by (simp add: run_try_except)
      then have "m (at_policy app rq s) = (Inr q, s')"
        using True by (auto simp: andthen_def at_policy_def dest!: bnd_Inr)
      then show ?thesis using q(2) True by simp
    qed
  qed
qed

text \<open>The portal gives out its own files only: whatever path a request names, with dots or through links, an answered
  file is the portal's index or lies, its links followed, in the portal's directory; the paths of the API are not files.\<close>

theorem portal_serves_only_its_files:
  assumes "serve app rq Portal_files s = (Inr r, s')" and "rs_body r = File_body p"
  shows "(p = index_of app \<or> inside (ap_real app (ap_portal app)) (ap_real app p) \<and> ap_kind app p = Regular)
    \<and> \<not> starts_with ''/api/'' (rq_path rq) \<and> s' = at_policy app rq s"
proof -
  let ?m = "cors_middleware app rq (policy_middleware rq (Portal_files = Portal_files) (boundary Portal_files)
      (under_policy app rq Portal_files (handler app rq Portal_files)))"
  have json: "rs_body (unstored (failure n c)) \<noteq> File_body p" for n c
    by (simp add: unstored_def set_header_def failure_def answer_def)
  have mw: "owner_middleware app rq ?m s = (Inr r, s')" using assms(1) by (simp add: serve_def through_stack_def)
  then obtain q where q: "?m (at_policy app rq s) = (Inr q, s')" "r = (if owner_bound rq then unstored q else q)"
    using owner_middleware_Inr json assms(2) by blast
  have fb: "rs_body q = File_body p" using q(2) assms(2) by (simp add: unstored_def set_header_def split: if_splits)
  have "under_policy app rq Portal_files (handler app rq Portal_files) = serve_static app rq"
    by (simp add: under_policy_def handler_name_def handler_def)
  then obtain x where x: "serve_static app rq (at_policy app rq s) = (Inr x, s')" "rs_body x = File_body p"
    using q(1) fb by (auto simp: cors_middleware_def policy_middleware_def cors_headers_def set_header_def run_ret
        dest!: bnd_Inr split: if_splits)
  then show ?thesis
    by (auto simp: serve_static_def Let_def run_ret failure_def answer_def private_headers_def split: if_splits)
qed

lemma portal_serves_only_its_files_witness:
  "inside [''srv''] (norm_path [''srv''] (segments ''a/../b.js'' [])) \<and> inside (ap_real house_app [''srv'']) (ap_real house_app [''srv'', ''b.js''])"
proof -
  let ?app = "house_app\<lparr>ap_kind := (\<lambda>p. if p = [''srv''] then Directory else if p = [''srv'', ''b.js''] then Regular else Absent)\<rparr>"
  let ?rq = "(owner_request ''GET'' ''/a/../b.js'')\<lparr>rq_cookies := []\<rparr>"
  have c: "segments ''a/../b.js'' [] = [''a'', ''..'', ''b.js'']" by simp
  have n: "norm_path [''srv''] [''a'', ''..'', ''b.js''] = [''srv'', ''b.js'']" by simp
  have "portal_candidate ?app ?rq = [''srv'', ''b.js'']"
    by (simp add: portal_candidate_def owner_request_def house_app_def)
  then have "\<exists>r. serve ?app ?rq Portal_files house = (Inr r, house) \<and> rs_body r = File_body [''srv'', ''b.js'']"
    by (simp add: serve_def through_stack_def owner_middleware_def owner_path_def starts_with_def has_cookie_def dict_get_def
        cors_middleware_def policy_middleware_def under_policy_def handler_name_def handler_def serve_static_def run_bnd run_ret Let_def
        inside_def cors_headers_def set_header_def owner_request_def house_app_def)
  then obtain r where "serve ?app ?rq Portal_files house = (Inr r, house)" "rs_body r = File_body [''srv'', ''b.js'']" by blast
  from portal_serves_only_its_files [OF this] show ?thesis
    by (simp add: c n inside_def house_app_def index_of_def)
qed

section \<open>Answers with credentials stay private\<close>

text \<open>\<open>gives P m\<close>: whatever \<open>m\<close> returns has \<open>P\<close>.\<close>

definition gives :: "('a \<Rightarrow> bool) \<Rightarrow> ('s, 'e, 'a) action \<Rightarrow> bool" where
  "gives P m \<longleftrightarrow> (\<forall>s r s'. m s = (Inr r, s') \<longrightarrow> P r)"

lemma gives_D: "gives P m \<Longrightarrow> m s = (Inr r, s') \<Longrightarrow> P r"
  unfolding gives_def by blast

lemma gives_I: "(\<And>s r s'. m s = (Inr r, s') \<Longrightarrow> P r) \<Longrightarrow> gives P m"
  by (simp add: gives_def)

named_theorems gives_rules "what composed actions return"

lemma gives_ret [gives_rules]: "P x \<Longrightarrow> gives P (ret x)"
  by (auto simp: gives_def run_ret)

lemma gives_raise [gives_rules]: "gives P (raise e)"
  by (simp add: gives_def run_raise)

lemma gives_bnd [gives_rules]: "(\<And>x. gives P (k x)) \<Longrightarrow> gives P (bnd m k)"
  by (intro gives_I) (auto dest!: bnd_Inr dest: gives_D)

lemma gives_andthen [gives_rules]: "gives P k \<Longrightarrow> gives P (andthen m k)"
  by (simp add: andthen_def gives_bnd)

lemma gives_try [gives_rules]: "gives P m \<Longrightarrow> (\<And>e. gives P (h e)) \<Longrightarrow> gives P (try_except m h)"
  by (intro gives_I) (auto simp: try_except_def dest: gives_D split: prod.splits sum.splits)

lemma gives_reads [gives_rules]: "(\<And>s. P (f s)) \<Longrightarrow> gives P (reads f)"
  by (auto simp: gives_def run_reads)

lemma gives_if [gives_rules]: "(c \<Longrightarrow> gives P m) \<Longrightarrow> (\<not> c \<Longrightarrow> gives P n) \<Longrightarrow> gives P (if c then m else n)"
  by simp

definition same_site :: "response \<Rightarrow> bool" where
  "same_site r \<longleftrightarrow> dict_get (rs_headers r) ''Access-Control-Allow-Origin'' = None"

definition not_stored :: "response \<Rightarrow> bool" where
  "not_stored r \<longleftrightarrow> dict_get (rs_headers r) ''Cache-Control'' = Some ''no-store''"

lemma header_set [simp]: "dict_get (rs_headers (set_header k v r)) k' = (if k' = k then Some v else dict_get (rs_headers r) k')"
  by (simp add: set_header_def)

lemma unstored_private [simp]: "same_site (unstored r) = same_site r" "not_stored (unstored r)"
  by (simp_all add: same_site_def not_stored_def unstored_def)

lemma same_site_simps [simp]:
  "same_site (answer n kvs)" "same_site (failure n c)" "same_site (json_answer j)" "same_site (proof_answer app rq f j)"
  "same_site (r\<lparr>rs_cookie := d\<rparr>) = same_site r"
  by (simp_all add: same_site_def answer_def failure_def json_answer_def proof_answer_def dict_get_def split: proof_reply.split)

lemma provisioning_error_site: "gives same_site (provisioning_error cs u e)"
  unfolding provisioning_error_def by (cases e) (auto intro!: gives_rules split: exn.split)

lemma provisioning_private:
  assumes "gives same_site m" and "\<And>r. same_site r \<Longrightarrow> same_site (f r)"
  shows "gives (\<lambda>r. same_site r \<and> not_stored r) (bnd (try_except m (provisioning_error cs u)) (\<lambda>r. ret (unstored (f r))))"
proof -
  have "gives same_site (try_except m (provisioning_error cs u))"
    by (intro gives_rules provisioning_error_site assms(1))
  then show ?thesis by (intro gives_I) (auto simp: run_ret dest!: bnd_Inr gives_D intro!: assms(2))
qed

lemma endpoints_private:
  "gives (\<lambda>r. same_site r \<and> not_stored r) (enrollment_endpoint app rq)"
  "gives (\<lambda>r. same_site r \<and> not_stored r) (lifecycle_endpoint app rq)"
  "gives (\<lambda>r. same_site r \<and> not_stored r) (integration_endpoint app rq)"
proof -
  have b: "gives same_site (enrollment_body app rq)" "gives same_site (lifecycle_body app rq)" "gives same_site (integration_body app rq)"
    unfolding enrollment_body_def lifecycle_body_def integration_body_def by (intro gives_rules; simp)+
  show "gives (\<lambda>r. same_site r \<and> not_stored r) (enrollment_endpoint app rq)"
    unfolding enrollment_endpoint_def by (intro provisioning_private b)
  show "gives (\<lambda>r. same_site r \<and> not_stored r) (lifecycle_endpoint app rq)"
    unfolding lifecycle_endpoint_def by (intro provisioning_private b) simp
  show "gives (\<lambda>r. same_site r \<and> not_stored r) (integration_endpoint app rq)"
    unfolding integration_endpoint_def by (intro provisioning_private b)
qed

lemma owner_endpoint_site: "gives same_site (owner_endpoint app rq)"
proof -
  have e: "gives same_site (owner_error e)" for e
    unfolding owner_error_def by (cases e) (auto intro!: gives_rules split: exn.split)
  have a: "gives same_site (owner_action app rq body)" for body
    unfolding owner_action_def by (intro gives_rules) (auto intro!: gives_rules)
  have p: "gives same_site (owner_post app rq)" unfolding owner_post_def by (intro gives_rules a)
  have g: "gives same_site (owner_get app rq)"
    unfolding owner_get_def by (intro gives_rules) (auto intro!: gives_rules split: option.split)
  show ?thesis unfolding owner_endpoint_def by (intro gives_rules e p g) simp
qed

definition credential_path :: "http_request \<Rightarrow> bool" where
  "credential_path rq \<longleftrightarrow> list_ex (\<lambda>p. starts_with p (rq_path rq))
     [''/api/auth/'', ''/api/enrollment/'', ''/api/lifecycle/'', ''/api/integrations/'']"



section \<open>Who changes the pairing messages\<close>

definition same_settings :: "http_world \<Rightarrow> http_world \<Rightarrow> bool" where
  "same_settings s t \<longleftrightarrow> hw_config t = hw_config s"

interpretation settings_step: step_relation same_settings
  by unfold_locales (auto simp: same_settings_def)

named_theorems settings_rules "what leaves the configuration file alone"

lemmas [settings_rules] = settings_step.obeys_rules

lemma settings_auth [settings_rules]: "obeys same_settings (in_auth m)"
  by (auto simp: obeys_def same_settings_def in_auth_def split: prod.split sum.split)

lemma settings_devices [settings_rules]: "obeys same_settings (in_devices m)"
  by (auto simp: obeys_def same_settings_def in_devices_def split: prod.split sum.split)

lemma settings_hooks [settings_rules]: "obeys same_settings (in_hooks m)"
  by (auto simp: obeys_def same_settings_def in_hooks_def split: prod.split sum.split)

lemma settings_firmware [settings_rules]: "obeys same_settings (in_firmware m)"
  by (auto simp: obeys_def same_settings_def in_firmware_def split: prod.split)

lemma settings_modifies: "(\<And>s. hw_config (f s) = hw_config s) \<Longrightarrow> obeys same_settings (modifies f)"
  by (simp add: obeys_def same_settings_def run_modifies)

lemma settings_principal [settings_rules]:
  "obeys same_settings (session_principal app rq)" "obeys same_settings (http_principal app rq)"
  "obeys same_settings (owner_checks app rq)" "obeys same_settings (take_body app rq e)" "obeys same_settings (take_object app rq)"
proof -
  show b: "obeys same_settings (take_body app rq e)" for e
    unfolding take_body_def by (auto intro!: settings_rules split: body_read.split parsed.split)
  show "obeys same_settings (take_object app rq)" unfolding take_object_def by (intro settings_rules b)
  show p: "obeys same_settings (session_principal app rq)" unfolding session_principal_def by (intro settings_rules)
  show "obeys same_settings (http_principal app rq)" unfolding http_principal_def by (intro settings_rules p)
  show "obeys same_settings (owner_checks app rq)" unfolding owner_checks_def check_csrf_def by (intro settings_rules)
qed

lemma settings_error [settings_rules]:
  "obeys same_settings (owner_error e)" "obeys same_settings (owner_refusal e)" "obeys same_settings (provisioning_error cs u e)"
  unfolding owner_error_def owner_refusal_def provisioning_error_def
  by (auto intro!: settings_rules split: http_exn.split exn.split)

lemma settings_with [settings_rules]:
  "(\<And>j. obeys same_settings (k j)) \<Longrightarrow> obeys same_settings (with_object rq k)"
  "(\<And>d. obeys same_settings (kd d)) \<Longrightarrow> obeys same_settings (with_device rq kd)"
  unfolding with_object_def with_device_def by (auto intro!: settings_rules split: sum.split)

lemma settings_device_dict [settings_rules]: "obeys same_settings (device_dict app e)"
  unfolding device_dict_def by (intro settings_rules)

lemma settings_device_dicts [settings_rules]: "obeys same_settings (device_dicts app es)"
  by (induction es) (auto intro!: settings_rules)

lemma settings_handlers:
  "obeys same_settings (list_devices app)" "obeys same_settings (update_device app rq)" "obeys same_settings (announce app rq)"
  "obeys same_settings (device_command app rq)" "obeys same_settings list_agents" "obeys same_settings not_implemented"
  "obeys same_settings (activate_agent rq)" "obeys same_settings list_webhooks" "obeys same_settings (get_webhook_configuration rq)"
  "obeys same_settings (create_webhook app rq)" "obeys same_settings (update_webhook app rq)" "obeys same_settings (delete_webhook rq)"
  "obeys same_settings (duplicate_webhook app rq)"
proof -
  have set1: "obeys same_settings (modifies (\<lambda>s. case n of Some (c # cs) \<Rightarrow> s\<lparr>hw_devices := change_entry i (f c cs) (hw_devices s)\<rparr> | _ \<Rightarrow> s))" for n i f
    by (rule settings_modifies) (auto split: option.split list.split)
  have set2: "obeys same_settings (modifies (hw_devices_update f))" for f by (rule settings_modifies) simp
  have set3: "obeys same_settings (modifies (device_send_text ws j))" for ws j
    by (rule settings_modifies) (simp add: device_send_text_def)
  have bar: "obeys same_settings (set_barge_in e ps)" for e ps
    unfolding set_barge_in_def by (auto intro!: settings_rules split: option.split json.split)
  have cmd: "obeys same_settings (send_command e c ps)" for e c ps unfolding send_command_def by (intro settings_rules set3)
  show "obeys same_settings (list_devices app)" unfolding list_devices_def by (intro settings_rules)
  show "obeys same_settings (update_device app rq)" unfolding update_device_def by (intro settings_rules set1)
  show "obeys same_settings (announce app rq)"
    unfolding announce_def by (auto intro!: settings_rules set2 split: sum.split option.split json.split list.split)
  show "obeys same_settings (device_command app rq)"
    unfolding device_command_def Let_def by (auto intro!: settings_rules bar cmd split: sum.split option.split json.split)
  show "obeys same_settings list_agents" unfolding list_agents_def by (intro settings_rules)
  show "obeys same_settings not_implemented" unfolding not_implemented_def by (intro settings_rules)
  show "obeys same_settings (activate_agent rq)" unfolding activate_agent_def by (intro settings_rules)
  show "obeys same_settings list_webhooks" unfolding list_webhooks_def by (intro settings_rules)
  show "obeys same_settings (get_webhook_configuration rq)" unfolding get_webhook_configuration_def by (intro settings_rules)
  show "obeys same_settings (create_webhook app rq)" unfolding create_webhook_def by (intro settings_rules)
  show "obeys same_settings (update_webhook app rq)" unfolding update_webhook_def by (intro settings_rules)
  show "obeys same_settings (delete_webhook rq)" unfolding delete_webhook_def by (intro settings_rules)
  show "obeys same_settings (duplicate_webhook app rq)" unfolding duplicate_webhook_def by (intro settings_rules)
qed

lemma settings_files:
  "obeys same_settings (serve_firmware app rq)" "obeys same_settings (mint_firmware_delivery app rq)"
  "obeys same_settings (download_firmware_delivery app rq)" "obeys same_settings (serve_static app rq)"
  "obeys same_settings (speech_settings app rq)" "obeys same_settings (authorize_speech app rq)"
proof -
  show "obeys same_settings (serve_firmware app rq)" unfolding serve_firmware_def Let_def by (intro settings_rules)
  show "obeys same_settings (mint_firmware_delivery app rq)" unfolding mint_firmware_delivery_def by (intro settings_rules)
  show "obeys same_settings (download_firmware_delivery app rq)" unfolding download_firmware_delivery_def by (intro settings_rules)
  show "obeys same_settings (serve_static app rq)" unfolding serve_static_def Let_def by (intro settings_rules)
  have "obeys same_settings (update_selection rq d)" for d unfolding update_selection_def by (intro settings_rules)
  then show "obeys same_settings (speech_settings app rq)" unfolding speech_settings_def Let_def by (intro settings_rules)
  show "obeys same_settings (authorize_speech app rq)" unfolding authorize_speech_def by (intro settings_rules)
qed

lemma settings_endpoints:
  "obeys same_settings (owner_endpoint app rq)" "obeys same_settings (lifecycle_endpoint app rq)" "obeys same_settings (integration_endpoint app rq)"
proof -
  have "obeys same_settings (owner_action app rq body)" for body
    unfolding owner_action_def by (intro settings_rules)
  then have "obeys same_settings (owner_post app rq)" unfolding owner_post_def by (intro settings_rules)
  moreover have "obeys same_settings (owner_get app rq)" unfolding owner_get_def by (intro settings_rules)
  ultimately show "obeys same_settings (owner_endpoint app rq)" unfolding owner_endpoint_def by (intro settings_rules)
  show "obeys same_settings (lifecycle_endpoint app rq)" unfolding lifecycle_endpoint_def lifecycle_body_def by (intro settings_rules)
  show "obeys same_settings (integration_endpoint app rq)" unfolding integration_endpoint_def integration_body_def by (intro settings_rules)
qed

lemma settings_enrollment:
  assumes "action_of rq \<noteq> ''save-prompts'' \<or> \<not> secure_request app rq \<or> cookie_value app rq = []"
  shows "obeys same_settings (enrollment_endpoint app rq)"
proof -
  have load: "obeys same_settings (bnd (reads hw_config) (\<lambda>f. case load_prompts f of Inl e \<Rightarrow> raise (Raised e) | Inr p \<Rightarrow> ret p))"
    by (intro settings_rules)
  have bad: "obeys same_settings (value_error_is_bad e)" for e
    unfolding value_error_is_bad_def by (auto intro!: settings_rules split: http_exn.split exn.split)
  have body: "obeys same_settings (enrollment_body app rq)"
  proof (cases "secure_request app rq")
    case False
    then have "enrollment_body app rq = (\<lambda>s. (Inl (Raised (EnrollmentError ''forbidden'')), s))"
      by (simp add: enrollment_body_def fun_eq_iff run_andthen run_raise_if trusted_request_def)
    then show ?thesis by (simp add: obeys_def same_settings_def)
  next
    case True
    have prompts: "obeys same_settings (prompts_request app rq body)" if "action_of rq \<in> {''prompts'', ''save-prompts''}" for body
    proof (cases "action_of rq = ''save-prompts''")
      case False
      have "obeys same_settings (resolve_outside app rq)" unfolding resolve_outside_def by (intro settings_rules)
      moreover have "action_of rq = ''prompts''" using that False by simp
      ultimately show ?thesis unfolding prompts_request_def by (auto intro!: settings_rules load bad)
    next
      case save: True
      then have c: "cookie_value app rq = []" using assms True by simp
      have "fst (prompts_request app rq body s) = Inl (Raised (EnrollmentError ''forbidden'')) \<and> snd (prompts_request app rq body s) = s" for s
        using bearer_principal_Some [of rq "hw_auth s"]
        by (auto simp: prompts_request_def resolve_outside_def c run_bnd run_reads run_andthen run_raise_if split: option.split)
      then show ?thesis by (simp add: obeys_def same_settings_def)
    qed
    show ?thesis unfolding enrollment_body_def by (intro settings_rules prompts)
  qed
  show ?thesis unfolding enrollment_endpoint_def by (intro settings_rules body)
qed

lemma settings_under_policy: "obeys same_settings m \<Longrightarrow> obeys same_settings (under_policy app rq ep m)"
  unfolding under_policy_def require_auth_def by (intro settings_rules settings_files)

lemma settings_handler:
  assumes "ep = Enrollment_api \<Longrightarrow> obeys same_settings (enrollment_endpoint app rq)"
  shows "obeys same_settings (handler app rq ep)"
proof (cases ep)
  case Enrollment_api
  then show ?thesis using assms by (simp add: handler_def)
qed (simp_all add: handler_def settings_handlers settings_files settings_endpoints settings_step.obeys_ret settings_step.obeys_raise)

lemma settings_stack:
  assumes "obeys same_settings m"
  shows "obeys same_settings (through_stack app rq ep m)"
  unfolding through_stack_def owner_middleware_def cors_middleware_def policy_middleware_def
  by (intro settings_rules settings_under_policy assms)

text \<open>A stack that stops at the checks of the owner's middleware leaves the file alone, too.\<close>

lemma stopped_by_checks:
  assumes "owner_bound rq" and "fst (owner_checks app rq s) = Inl e"
  shows "same_settings s (snd (through_stack app rq ep m s))"
proof -
  obtain s1 where c: "owner_checks app rq s = (Inl e, s1)" using assms(2) by (cases "owner_checks app rq s") auto
  have mw: "owner_middleware app rq n = bnd (try_except (andthen (owner_checks app rq) n) owner_refusal) (\<lambda>r. ret (unstored r))" for n
    using assms(1) by (auto simp: owner_middleware_def owner_bound_def)
  have "obeys same_settings (bnd (owner_refusal e) (\<lambda>r. ret (unstored r)))" by (intro settings_rules)
  then have "same_settings s1 (snd (bnd (owner_refusal e) (\<lambda>r. ret (unstored r)) s1))" by (simp add: obeys_def)
  moreover have "obeys same_settings (owner_checks app rq)" by (rule settings_principal)
  then have "same_settings s (snd (owner_checks app rq s))" by (simp add: obeys_def)
  then have "same_settings s s1" by (simp add: c)
  ultimately show ?thesis by (simp add: through_stack_def mw run_bnd run_try_except run_andthen c same_settings_def)
qed


end
