(* ===== verification/Http_Example.thy ===== *)
theory Http_Example
  imports Http_Laws
begin

text \<open>
  A complete request against a concrete server: the owner saves new pairing messages. The enrollment service counts the
  request, the session of the cookie is found, the file is written; the law about who changes the messages is applied.
\<close>

definition open_snapshot :: "time list \<Rightarrow> snapshot" where
  "open_snapshot ts = session_snapshot\<lparr>sn_enrollment := Some \<lparr> es_server_id = hex_digits 32 5, es_requests = [], es_attempts = ts \<rparr>\<rparr>"

lemma wf_open_snapshot: "ts = [] \<or> ts = [1000] \<Longrightarrow> wf_snapshot (open_snapshot ts)"
  by (auto simp: snapshot_checks open_snapshot_def session_snapshot_def demo_snapshot_def demo_owner_def ok_owner_sessions_def is_dict_def
      dict_keys_def)

lemma open_enrollment [simp]:
  "sn_enrollment (open_snapshot ts) = Some \<lparr> es_server_id = hex_digits 32 5, es_requests = [], es_attempts = ts \<rparr>"
  by (simp add: open_snapshot_def)

lemma open_records [simp]: "sn_records (open_snapshot ts) = [demo_credential False]"
  by (simp add: open_snapshot_def session_snapshot_def)

lemma open_same [simp]: "(open_snapshot ts)\<lparr>sn_records := [demo_credential False]\<rparr> = open_snapshot ts"
  by (simp add: open_snapshot_def session_snapshot_def demo_snapshot_def)

lemma open_state: "enr_state_op o1 ((running (open_snapshot []))\<lparr>w_transaction := True\<rparr>)
   = (Inr \<lparr> es_server_id = hex_digits 32 5, es_requests = [], es_attempts = [] \<rparr>, (running (open_snapshot []))\<lparr>w_transaction := True\<rparr>)"
  by (simp add: enr_state_op_def run_bnd run_reads run_ret run_andthen run_when_do Let_def dict_values_def dict_map_def)

lemma open_save: "save_enrollment (Some \<lparr> es_server_id = hex_digits 32 5, es_requests = [], es_attempts = [1000] \<rparr>) None
     ((running (open_snapshot []))\<lparr>w_transaction := True\<rparr>) = (Inr (), (running (open_snapshot [1000]))\<lparr>w_transaction := True\<rparr>)"
proof -
  have wf: "wf_snapshot (open_snapshot [1000])" by (rule wf_open_snapshot) simp
  let ?w = "(running (open_snapshot []))\<lparr>w_transaction := True, w_store := open_snapshot [1000]\<rparr>"
  have set: "set_enrollment (Some \<lparr> es_server_id = hex_digits 32 5, es_requests = [], es_attempts = [1000] \<rparr>)
      ((running (open_snapshot []))\<lparr>w_transaction := True\<rparr>) = ?w"
    by (simp add: set_enrollment_def open_snapshot_def)
  have r: "replace_records [demo_credential False] ?w = (Inr (), (running (open_snapshot [1000]))\<lparr>w_transaction := True\<rparr>)"
    using wf running_fields
    by (simp add: replace_records_def action_simps wf_snapshot_def valid_snapshot_def ids_immutable_def write_authz_def write_json_def
        next_fault_def set_records_def retire_invalid_def running_def demo_world_def doc_exists_def record_by_id_def)
  have v: "validate_enrollment (enc_enrollment (Some \<lparr> es_server_id = hex_digits 32 5, es_requests = [], es_attempts = [1000] \<rparr>))"
    using wf by (simp add: wf_snapshot_def valid_snapshot_def)
  show ?thesis using v by (simp add: save_enrollment_def action_simps set or_reload_def r)
qed

lemma open_rate_limit: "enr_rate_limit ''http://localhost:8080'' (running (open_snapshot [])) = (Inr (), running (open_snapshot [1000]))"
proof -
  have l: "load (running (open_snapshot [])) = (Inr (), running (open_snapshot []))" by (rule load_running [OF wf_open_snapshot]) simp
  show ?thesis
    by (simp add: enr_rate_limit_def transaction_def l run_bnd open_state run_reads run_andthen run_raise_if open_save)
qed

lemma open_session:
  assumes "ts = [] \<or> ts = [1000]"
  shows "\<exists>x. owner_session ''ck'' (running (open_snapshot ts)) = (Inr (Some (the_owner, x)), running (open_snapshot ts))
    \<and> se_csrf x = demo_hash (utf8 ''ck'' @ ''vauxr:owner-csrf:v1'')"
proof -
  have st: "sn_owner (open_snapshot ts) = Some (demo_owner\<lparr>ow_sessions :=
     Some \<lparr> os_origin = demo_hash (utf8 ''http://localhost:8080''), os_entries = [(demo_hash (utf8 ''ck''), 9000)] \<rparr>\<rparr>)"
    by (simp add: open_snapshot_def session_snapshot_def)
  show ?thesis
    by (simp add: owner_session_def transaction_def load_running wf_open_snapshot assms run_reads session_of_def st bound_sessions_def
        demo_owner_def is_active_mode_def token_verifier_def dict_get_def the_owner_def csrf_of_def)
qed

definition open_house :: "time list \<Rightarrow> http_world" where
  "open_house ts = house\<lparr>hw_auth := running (open_snapshot ts), hw_config := house_file\<rparr>"

definition save_request :: http_request where
  "save_request = (owner_request ''POST'' ''/api/enrollment/v1/save-prompts'')
     \<lparr>rq_params := [(''action'', ''save-prompts'')], rq_chunks := [''x'']\<rparr>"

definition save_app :: http_app where
  "save_app = house_app\<lparr>ap_parse := (\<lambda>_. Parsed house_messages)\<rparr>"

lemma save_simps [simp]:
  "headers save_request ''origin'' = [''http://localhost:8080'']"
  "cookie_value save_app rq = cookie_value house_app rq" "cookie_value house_app save_request = ''ck''"
  "secure_request save_app rq = secure_request house_app rq"
  "ap_origin save_app = ap_origin house_app" "rq_query save_request = []" "rq_type save_request = ''application/json''"
  "action_of save_request = ''save-prompts''" "rq_method save_request = ''POST''" "rq_path save_request = ''/api/enrollment/v1/save-prompts''"
  "cookie_name save_app = cookie_name house_app"
  by (simp_all add: save_request_def headers_def cookie_value_def save_app_def secure_request_def cookie_name_def is_tls_def
      action_of_def dict_get_def owner_request_def LAN_COOKIE_def house_app_def starts_with_def)

lemma save_secure [simp]: "secure_request house_app save_request"
  by (simp add: secure_request_def headers_def save_request_def owner_request_def house_app_def starts_with_def)

lemma open_auth:
  assumes "ts = [] \<or> ts = [1000]"
  shows "\<exists>x. in_auth (owner_session ''ck'') (open_house ts) = (Inr (Some (the_owner, x)), open_house ts)
    \<and> se_csrf x = demo_hash (utf8 ''ck'' @ ''vauxr:owner-csrf:v1'')"
proof -
  obtain x where x: "owner_session ''ck'' (running (open_snapshot ts)) = (Inr (Some (the_owner, x)), running (open_snapshot ts))"
    "se_csrf x = demo_hash (utf8 ''ck'' @ ''vauxr:owner-csrf:v1'')"
    using open_session [OF assms] by blast
  then have "in_auth (owner_session ''ck'') (open_house ts) = (Inr (Some (the_owner, x)), open_house ts)"
    by (simp add: in_auth_def open_house_def)
  then show ?thesis using x(2) by blast
qed

lemma save_same_origin: "same_origin save_app save_request"
  by (simp add: same_origin_def)
     (simp add: save_request_def owner_request_def has_cookie_def dict_get_def COOKIE_def)

lemma save_token: "header_or save_request ''x-csrf-token'' [] = demo_hash (utf8 ''ck'' @ ''vauxr:owner-csrf:v1'')"
  by (simp add: header_or_def headers_def save_request_def owner_request_def)

lemma save_checks: "owner_checks save_app save_request (open_house []) = (Inr (), open_house [])"
proof -
  obtain x where x: "in_auth (owner_session ''ck'') (open_house []) = (Inr (Some (the_owner, x)), open_house [])"
    "se_csrf x = demo_hash (utf8 ''ck'' @ ''vauxr:owner-csrf:v1'')"
    using open_auth [of "[]"] by blast
  then have "check_csrf save_app save_request (open_house []) = (Inr (), open_house [])"
    by (simp add: check_csrf_def run_bnd run_raise_if save_token)
  then show ?thesis by (simp add: owner_checks_def run_andthen run_raise_if run_when_do save_same_origin)
qed

lemma save_resolves: "session_principal save_app save_request (open_house [1000]) = (Inr (Some the_owner), open_house [1000])"
proof -
  obtain x where "in_auth (owner_session ''ck'') (open_house [1000]) = (Inr (Some (the_owner, x)), open_house [1000])"
    using open_auth [of "[1000]"] by blast
  then show ?thesis by (simp add: session_principal_def run_bnd run_ret)
qed

lemma save_goes_through:
  "\<exists>r. serve save_app save_request Enrollment_api (open_house []) =
    (Inr r, (open_house [1000])\<lparr>hw_config := snd (save_prompts Write_ok house_messages house_file)\<rparr>)"
proof -
  have limit: "in_auth (enr_rate_limit ''http://localhost:8080'') (open_house []) = (Inr (), open_house [1000])"
    by (simp add: in_auth_def open_house_def open_rate_limit)
  have saved: "save_prompts Write_ok house_messages house_file
    = (Inr \<lparr> pp_intro = ''Hello'', pp_code = ''Say {code}'' \<rparr>, snd (save_prompts Write_ok house_messages house_file))"
    by code_simp
  have conf: "in_config (\<lambda>oc. save_prompts oc house_messages) (open_house [1000]) = (Inr \<lparr> pp_intro = ''Hello'', pp_code = ''Say {code}'' \<rparr>,
      (open_house [1000])\<lparr>hw_config := snd (save_prompts Write_ok house_messages house_file)\<rparr>)"
    by (simp add: in_config_def open_house_def house_def saved [THEN eq_fst_iff [THEN iffD2, OF exI], simplified]) (subst saved, simp)
  have trusted: "trusted_request save_app save_request"
    by (simp add: trusted_request_def header_or_def)
  have obj: "take_object save_app save_request (open_house [1000]) = (Inr house_messages, open_house [1000])"
    by (simp add: take_object_def take_body_def run_bnd run_ret)
       (simp add: save_request_def owner_request_def save_app_def house_messages_def run_ret)
  have noauth: "headers save_request ''authorization'' = []" by (simp add: headers_def save_request_def owner_request_def)
  have owner: "pr_role the_owner = OWNER" by (simp add: the_owner_def)
  have "prompts_request save_app save_request house_messages (open_house [1000]) = (Inr (prompts_json \<lparr> pp_intro = ''Hello'', pp_code = ''Say {code}'' \<rparr>),
      (open_house [1000])\<lparr>hw_config := snd (save_prompts Write_ok house_messages house_file)\<rparr>)"
    by (simp add: prompts_request_def resolve_outside_def run_bnd run_andthen run_raise_if run_try_except save_resolves conf owner run_ret)
  then have "enrollment_body save_app save_request (open_house []) = (Inr (json_answer (prompts_json \<lparr> pp_intro = ''Hello'', pp_code = ''Say {code}'' \<rparr>)),
      (open_house [1000])\<lparr>hw_config := snd (save_prompts Write_ok house_messages house_file)\<rparr>)"
    by (simp add: enrollment_body_def run_bnd run_andthen run_raise_if trusted limit obj noauth header_or_def run_ret)
  then have "\<exists>r. enrollment_endpoint save_app save_request (open_house []) = (Inr r,
      (open_house [1000])\<lparr>hw_config := snd (save_prompts Write_ok house_messages house_file)\<rparr>)"
    by (simp add: enrollment_endpoint_def run_bnd run_try_except run_ret)
  moreover have "has_cookie save_request LAN_COOKIE" by (simp add: has_cookie_def save_request_def owner_request_def dict_get_def LAN_COOKIE_def)
  ultimately show ?thesis
    by (auto simp: serve_def through_stack_def owner_middleware_def cors_middleware_def policy_middleware_def boundary_def handler_name_def
        under_policy_def handler_def run_bnd run_try_except run_andthen save_checks run_ret)
qed


end
