(* ===== verification/Output_Buffer.thy ===== *)
theory Output_Buffer
  imports Event_Machine Vauxr_Prelude
begin

text \<open>
  \<open>realtime/output_buffer.py\<close>: the prefill of spoken audio before the transport paces it. Three coroutines
  share the buffer: the call that handles the frames of the pipeline, one after the other; the call that handles an
  interruption, a cancellation or the clean-up; and the timer that ends the prefill. Every step runs from one await to
  the next; who may run is up to the events. The state of whoever holds the lock is \<open>ob_lock\<close>, and
  \<open>ob_out\<close> is what was pushed, in order. Sample rate and channels of a frame are positive, as in Pipecat.
\<close>

datatype mark = Reply_starts | Reply_ends | Speech_stops | Stream_ends
datatype control = Interruption | Cancellation | Cleanup
datatype oframe = Speech nat nat nat nat | Mark mark | Control control | Other nat

datatype holder = Free
  | Stops_timer nat mark
  | Data_flush "oframe list" nat "mark option"
  | Data_last
  | Timer_flush nat "oframe list" nat
  | System_last

datatype timer = Sleeps nat | At_lock nat | Has_lock | Dying
datatype system_call = Sys_idle | Sys_stops nat control | Sys_wants control

record out_buffer =
  ob_lead :: rat
  ob_held :: "oframe list"
  ob_ms :: rat
  ob_priming :: bool
  ob_epoch :: nat
  ob_timer :: "nat option"
  ob_closed :: bool
  ob_lock :: holder
  ob_wants :: "oframe option"
  ob_system :: system_call
  ob_timers :: "(nat, timer) dict"
  ob_next :: nat
  ob_out :: "oframe list"

definition new_buffer :: "rat \<Rightarrow> out_buffer option" where
  "new_buffer lead = (if \<not> (0 < lead \<and> lead \<le> 500) then None
     else Some \<lparr> ob_lead = lead, ob_held = [], ob_ms = 0, ob_priming = True, ob_epoch = 0, ob_timer = None, ob_closed = False,
       ob_lock = Free, ob_wants = None, ob_system = Sys_idle, ob_timers = [], ob_next = 0, ob_out = [] \<rparr>)"

definition push_down :: "oframe \<Rightarrow> out_buffer \<Rightarrow> out_buffer" where
  "push_down f s = s\<lparr>ob_out := ob_out s @ [f]\<rparr>"

text \<open>\<open>_stop_timer\<close> up to its wait, and the cancellation without a wait\<close>

definition stop_timer :: "out_buffer \<Rightarrow> nat option \<times> out_buffer" where
  "stop_timer s = (case ob_timer s of
     None \<Rightarrow> (None, s)
   | Some t \<Rightarrow> (Some t, s\<lparr>ob_timer := None, ob_timers := dict_put t Dying (ob_timers s)\<rparr>))"

text \<open>\<open>_flush\<close>: the loop from one push to the next; what comes after it is the caller's.\<close>

definition flush_on :: "oframe list \<Rightarrow> nat \<Rightarrow> (oframe list \<Rightarrow> holder) \<Rightarrow> (out_buffer \<Rightarrow> out_buffer) \<Rightarrow> out_buffer \<Rightarrow> out_buffer" where
  "flush_on frames epoch wait after s = (case frames of
     [] \<Rightarrow> after s
   | f # rest \<Rightarrow> if ob_closed s \<or> epoch \<noteq> ob_epoch s then after s else (push_down f s)\<lparr>ob_lock := wait rest\<rparr>)"

definition flush_all :: "nat \<Rightarrow> (oframe list \<Rightarrow> holder) \<Rightarrow> (out_buffer \<Rightarrow> out_buffer) \<Rightarrow> out_buffer \<Rightarrow> out_buffer" where
  "flush_all epoch wait after s =
     flush_on (ob_held s) epoch wait after (s\<lparr>ob_held := [], ob_ms := 0, ob_priming := False\<rparr>)"

definition unlock :: "out_buffer \<Rightarrow> out_buffer" where "unlock s = s\<lparr>ob_lock := Free\<rparr>"

section \<open>Frames of the pipeline\<close>

fun frame_ms :: "oframe \<Rightarrow> rat" where
  "frame_ms (Speech _ bs channels rate) = of_nat bs * 1000 / of_nat (2 * channels * rate)"
| "frame_ms _ = 0"

definition after_mark :: "mark \<Rightarrow> out_buffer \<Rightarrow> out_buffer" where
  "after_mark m s = (push_down (Mark m)
     (if m = Reply_starts then s\<lparr>ob_epoch := ob_epoch s + 1, ob_priming := True\<rparr>
      else if m = Stream_ends then s\<lparr>ob_closed := True\<rparr> else s))\<lparr>ob_lock := Data_last\<rparr>"

definition flush_mark :: "mark \<Rightarrow> out_buffer \<Rightarrow> out_buffer" where
  "flush_mark m s = flush_all (ob_epoch s) (\<lambda>r. Data_flush r (ob_epoch s) (Some m)) (after_mark m) s"

definition take_mark :: "mark \<Rightarrow> out_buffer \<Rightarrow> out_buffer" where
  "take_mark m s = (case stop_timer s of
     (None, s) \<Rightarrow> flush_mark m s
   | (Some t, s) \<Rightarrow> s\<lparr>ob_lock := Stops_timer t m\<rparr>)"

definition take_speech :: "oframe \<Rightarrow> out_buffer \<Rightarrow> out_buffer" where
  "take_speech f s =
    (if ob_closed s then unlock s
     else if \<not> ob_priming s then (push_down f s)\<lparr>ob_lock := Data_last\<rparr>
     else let s = s\<lparr>ob_held := ob_held s @ [f], ob_ms := ob_ms s + frame_ms f\<rparr> in
       if ob_ms s \<ge> ob_lead s then
         let s = snd (stop_timer s) in flush_all (ob_epoch s) (\<lambda>r. Data_flush r (ob_epoch s) None) unlock s
       else if ob_timer s = None then
         unlock (s\<lparr>ob_timer := Some (ob_next s), ob_timers := dict_put (ob_next s) (Sleeps (ob_epoch s)) (ob_timers s),
           ob_next := ob_next s + 1\<rparr>)
       else unlock s)"

definition data_busy :: "out_buffer \<Rightarrow> bool" where
  "data_busy s \<longleftrightarrow> ob_wants s \<noteq> None \<or> (case ob_lock s of Stops_timer _ _ \<Rightarrow> True | Data_flush _ _ _ \<Rightarrow> True | Data_last \<Rightarrow> True | _ \<Rightarrow> False)"

definition data_arrives :: "oframe \<Rightarrow> out_buffer \<Rightarrow> out_buffer" where
  "data_arrives f s =
    (if data_busy s then s
     else case f of Control _ \<Rightarrow> s | Other _ \<Rightarrow> push_down f s
       | Speech _ bs _ _ \<Rightarrow> if bs = 0 then push_down f s else s\<lparr>ob_wants := Some f\<rparr>
       | Mark _ \<Rightarrow> s\<lparr>ob_wants := Some f\<rparr>)"

definition data_locks :: "out_buffer \<Rightarrow> out_buffer" where
  "data_locks s =
    (if ob_lock s \<noteq> Free then s
     else case ob_wants s of
       None \<Rightarrow> s
     | Some (Mark m) \<Rightarrow> take_mark m (s\<lparr>ob_wants := None\<rparr>)
     | Some f \<Rightarrow> take_speech f (s\<lparr>ob_wants := None\<rparr>))"

definition data_goes_on :: "out_buffer \<Rightarrow> out_buffer" where
  "data_goes_on s = (case ob_lock s of
     Stops_timer t m \<Rightarrow> if dict_get (ob_timers s) t = None then flush_mark m s else s
   | Data_flush r e (Some m) \<Rightarrow> flush_on r e (\<lambda>r. Data_flush r e (Some m)) (after_mark m) s
   | Data_flush r e None \<Rightarrow> flush_on r e (\<lambda>r. Data_flush r e None) unlock s
   | Data_last \<Rightarrow> unlock s
   | _ \<Rightarrow> s)"

text \<open>The pipeline cancels the call that handles a frame, wherever it waits.\<close>

definition data_stopped :: "out_buffer \<Rightarrow> out_buffer" where
  "data_stopped s = (case ob_lock s of
     Stops_timer _ _ \<Rightarrow> unlock s | Data_flush _ _ _ \<Rightarrow> unlock s | Data_last \<Rightarrow> unlock s | _ \<Rightarrow> s)\<lparr>ob_wants := None\<rparr>"

section \<open>Interruptions and the clean-up\<close>

definition system_comes :: "control \<Rightarrow> out_buffer \<Rightarrow> out_buffer" where
  "system_comes c s =
    (if ob_system s \<noteq> Sys_idle \<or> ob_lock s = System_last then s
     else case stop_timer (s\<lparr>ob_epoch := ob_epoch s + 1, ob_closed := ob_closed s \<or> c = Cleanup\<rparr>) of
       (None, s) \<Rightarrow> s\<lparr>ob_system := Sys_wants c\<rparr>
     | (Some t, s) \<Rightarrow> s\<lparr>ob_system := Sys_stops t c\<rparr>)"

definition system_locks :: "out_buffer \<Rightarrow> out_buffer" where
  "system_locks s = (case ob_system s of
     Sys_wants c \<Rightarrow>
       if ob_lock s \<noteq> Free then s
       else let s = s\<lparr>ob_system := Sys_idle, ob_held := [], ob_ms := 0\<rparr> in
         if c = Cleanup then s
         else (push_down (Control c) (s\<lparr>ob_priming := True, ob_closed := ob_closed s \<or> c = Cancellation\<rparr>))\<lparr>ob_lock := System_last\<rparr>
   | _ \<Rightarrow> s)"

definition system_goes_on :: "out_buffer \<Rightarrow> out_buffer" where
  "system_goes_on s = (case ob_system s of
     Sys_stops t c \<Rightarrow> if dict_get (ob_timers s) t = None then s\<lparr>ob_system := Sys_wants c\<rparr> else s
   | _ \<Rightarrow> if ob_lock s = System_last then unlock s else s)"

section \<open>The timer\<close>

definition timer_fires :: "nat \<Rightarrow> out_buffer \<Rightarrow> out_buffer" where
  "timer_fires t s = (case dict_get (ob_timers s) t of
     Some (Sleeps e) \<Rightarrow> s\<lparr>ob_timers := dict_put t (At_lock e) (ob_timers s)\<rparr>
   | _ \<Rightarrow> s)"

definition timer_ends :: "nat \<Rightarrow> out_buffer \<Rightarrow> out_buffer" where
  "timer_ends t s = s\<lparr>ob_timers := dict_pop t (ob_timers s), ob_timer := (if ob_timer s = Some t then None else ob_timer s)\<rparr>"

definition timer_locks :: "nat \<Rightarrow> out_buffer \<Rightarrow> out_buffer" where
  "timer_locks t s = (case dict_get (ob_timers s) t of
     Some (At_lock e) \<Rightarrow>
       if ob_lock s \<noteq> Free then s
       else if \<not> ob_closed s \<and> e = ob_epoch s then
         flush_all e (\<lambda>r. Timer_flush t r e) (\<lambda>s. timer_ends t (unlock s)) (s\<lparr>ob_timers := dict_put t Has_lock (ob_timers s)\<rparr>)
       else timer_ends t s
   | _ \<Rightarrow> s)"

definition timer_goes_on :: "nat \<Rightarrow> out_buffer \<Rightarrow> out_buffer" where
  "timer_goes_on t s = (case ob_lock s of
     Timer_flush t' r e \<Rightarrow>
       if t' = t \<and> dict_get (ob_timers s) t = Some Has_lock
       then flush_on r e (\<lambda>r. Timer_flush t r e) (\<lambda>s. timer_ends t (unlock s)) s else s
   | _ \<Rightarrow> s)"

definition timer_dies :: "nat \<Rightarrow> out_buffer \<Rightarrow> out_buffer" where
  "timer_dies t s = (if dict_get (ob_timers s) t \<noteq> Some Dying then s
     else timer_ends t (case ob_lock s of Timer_flush t' _ _ \<Rightarrow> if t' = t then unlock s else s | _ \<Rightarrow> s))"

section \<open>Runs\<close>

datatype ob_event = Arrives oframe | Data_locks | Data_goes_on | Data_stopped
  | Comes control | System_locks | System_goes_on
  | Timer_fires nat | Timer_locks nat | Timer_goes_on nat | Timer_dies nat

fun ob_step :: "ob_event \<Rightarrow> out_buffer \<Rightarrow> out_buffer" where
  "ob_step (Arrives f) s = data_arrives f s"
| "ob_step Data_locks s = data_locks s"
| "ob_step Data_goes_on s = data_goes_on s"
| "ob_step Data_stopped s = data_stopped s"
| "ob_step (Comes c) s = system_comes c s"
| "ob_step System_locks s = system_locks s"
| "ob_step System_goes_on s = system_goes_on s"
| "ob_step (Timer_fires t) s = timer_fires t s"
| "ob_step (Timer_locks t) s = timer_locks t s"
| "ob_step (Timer_goes_on t) s = timer_goes_on t s"
| "ob_step (Timer_dies t) s = timer_dies t s"

definition ob_run :: "ob_event list \<Rightarrow> out_buffer \<Rightarrow> out_buffer" where
  "ob_run evs s = fold ob_step evs s"

lemma ob_run_simps [simp]: "ob_run [] s = s" "ob_run (ev # evs) s = ob_run evs (ob_step ev s)"
  "ob_run (evs @ evs') s = ob_run evs' (ob_run evs s)"
  by (simp_all add: ob_run_def)

lemmas ob_defs = data_arrives_def data_locks_def data_goes_on_def data_stopped_def system_comes_def system_locks_def
  system_goes_on_def timer_fires_def timer_locks_def timer_goes_on_def timer_dies_def timer_ends_def take_mark_def flush_mark_def
  take_speech_def after_mark_def flush_all_def flush_on_def stop_timer_def push_down_def unlock_def data_busy_def Let_def

section \<open>Order\<close>

text \<open>The frames that share the lock, and what the buffer accepts of them: speech until the stream ends, and every mark.\<close>

fun shares_lock :: "oframe \<Rightarrow> bool" where
  "shares_lock (Speech _ bs _ _) = (bs > 0)"
| "shares_lock (Mark _) = True"
| "shares_lock _ = False"

fun accepted_frames :: "bool \<Rightarrow> oframe list \<Rightarrow> oframe list" where
  "accepted_frames over [] = []"
| "accepted_frames over (Mark m # fs) = Mark m # accepted_frames (over \<or> m = Stream_ends) fs"
| "accepted_frames over (Speech i bs c r # fs) = (if over \<or> bs = 0 then [] else [Speech i bs c r]) @ accepted_frames over fs"
| "accepted_frames over (_ # fs) = accepted_frames over fs"

fun taken_frames :: "ob_event list \<Rightarrow> out_buffer \<Rightarrow> oframe list" where
  "taken_frames [] s = []"
| "taken_frames (Arrives f # evs) s = (if data_busy s then [] else [f]) @ taken_frames evs (ob_step (Arrives f) s)"
| "taken_frames (ev # evs) s = taken_frames evs (ob_step ev s)"

fun undisturbed :: "ob_event \<Rightarrow> bool" where
  "undisturbed (Comes _) = False"
| "undisturbed Data_stopped = False"
| "undisturbed _ = True"

definition mark_list :: "mark option \<Rightarrow> oframe list" where
  "mark_list m = (case m of None \<Rightarrow> [] | Some m \<Rightarrow> [Mark m])"

definition under_way :: "out_buffer \<Rightarrow> oframe list" where
  "under_way s = (case ob_lock s of
     Stops_timer _ m \<Rightarrow> ob_held s @ [Mark m]
   | Data_flush r _ m \<Rightarrow> r @ ob_held s @ mark_list m
   | Timer_flush _ r _ \<Rightarrow> r @ ob_held s
   | _ \<Rightarrow> ob_held s)"

definition owed :: "out_buffer \<Rightarrow> oframe list" where
  "owed s = (case ob_wants s of None \<Rightarrow> [] | Some f \<Rightarrow> [f])"

lemma accepted_append: "accepted_frames over (xs @ ys) = accepted_frames over xs @ accepted_frames (over \<or> Mark Stream_ends \<in> set xs) ys"
  by (induction over xs rule: accepted_frames.induct) (auto simp: disj_assoc eq_commute)

definition flushed_by :: "oframe list \<Rightarrow> nat \<Rightarrow> out_buffer \<Rightarrow> bool" where
  "flushed_by r e s \<longleftrightarrow> ob_held s = [] \<and> e = ob_epoch s \<and> list_all shares_lock r \<and> Mark Stream_ends \<notin> set r \<and> (ob_closed s \<longrightarrow> r = [])"

definition lock_ok :: "out_buffer \<Rightarrow> bool" where
  "lock_ok s = (case ob_lock s of
     Free \<Rightarrow> True
   | Stops_timer _ _ \<Rightarrow> ob_wants s = None
   | Data_flush r e _ \<Rightarrow> ob_wants s = None \<and> flushed_by r e s
   | Data_last \<Rightarrow> ob_wants s = None
   | Timer_flush t r e \<Rightarrow> flushed_by r e s \<and> dict_get (ob_timers s) t = Some Has_lock
   | System_last \<Rightarrow> False)"

definition ordered :: "oframe list \<Rightarrow> out_buffer \<Rightarrow> bool" where
  "ordered fs s \<longleftrightarrow>
     accepted_frames False fs = filter shares_lock (ob_out s) @ under_way s @ accepted_frames (ob_closed s) (owed s)
   \<and> (ob_closed s \<longleftrightarrow> Mark Stream_ends \<in> set (ob_out s))
   \<and> list_all shares_lock (ob_held s) \<and> Mark Stream_ends \<notin> set (ob_held s) \<and> (ob_closed s \<or> \<not> ob_priming s \<longrightarrow> ob_held s = [])
   \<and> list_all shares_lock (owed s) \<and> ob_system s = Sys_idle \<and> lock_ok s"

lemma ends_accepted: "Mark Stream_ends \<in> set (accepted_frames over fs) \<longleftrightarrow> Mark Stream_ends \<in> set fs"
  by (induction over fs rule: accepted_frames.induct) auto

lemma ordered_arrives:
  assumes "ordered fs s"
  shows "ordered (fs @ (if data_busy s then [] else [f])) (data_arrives f s)"
proof (cases "data_busy s")
  case False
  have "Mark Stream_ends \<in> set fs \<longleftrightarrow> Mark Stream_ends \<in> set (filter shares_lock (ob_out s) @ under_way s)"
    using assms False ends_accepted [of False fs] by (simp add: ordered_def data_busy_def owed_def)
  then have "Mark Stream_ends \<in> set fs \<longleftrightarrow> ob_closed s"
    using assms False by (auto simp: ordered_def data_busy_def under_way_def lock_ok_def flushed_by_def split: holder.splits)
  then show ?thesis using assms False
    by (cases f) (auto simp: ordered_def data_arrives_def data_busy_def under_way_def owed_def lock_ok_def flushed_by_def accepted_append
      push_down_def split: holder.splits)
qed (use assms in \<open>simp add: data_arrives_def\<close>)

text \<open>What the order does not depend on\<close>

lemma ordered_fields [simp]:
  "ordered fs (s\<lparr>ob_ms := x\<rparr>) = ordered fs s"
  "ordered fs (s\<lparr>ob_timer := t\<rparr>) = ordered fs s" "ordered fs (s\<lparr>ob_next := n\<rparr>) = ordered fs s"
  by (simp_all add: ordered_def under_way_def owed_def lock_ok_def flushed_by_def cong: holder.case_cong)

lemma same_lock: "ob_lock s = l \<Longrightarrow> s\<lparr>ob_lock := l\<rparr> = s"
  by (cases s) simp

lemma ordered_last: "ordered fs (s\<lparr>ob_lock := Data_last\<rparr>) \<Longrightarrow> ordered fs (unlock s)"
  by (simp add: ordered_def under_way_def owed_def lock_ok_def unlock_def)

lemma ordered_unlock: "ordered fs (s\<lparr>ob_lock := Data_flush [] e None\<rparr>) \<Longrightarrow> ordered fs (unlock s)"
  by (simp add: ordered_def under_way_def owed_def mark_list_def unlock_def lock_ok_def)

lemma ordered_after_mark:
  assumes "ordered fs (s\<lparr>ob_lock := Data_flush [] (ob_epoch s) (Some m)\<rparr>)" shows "ordered fs (after_mark m s)"
  using assms by (cases m) (simp_all add: ordered_def after_mark_def push_down_def under_way_def owed_def mark_list_def lock_ok_def flushed_by_def)

lemma ordered_flush:
  assumes "ordered fs (s\<lparr>ob_lock := Data_flush r (ob_epoch s) m\<rparr>)"
    and "\<And>s. ordered fs (s\<lparr>ob_lock := Data_flush [] (ob_epoch s) m\<rparr>) \<Longrightarrow> ordered fs (after s)"
  shows "ordered fs (flush_on r (ob_epoch s) (\<lambda>r. Data_flush r (ob_epoch s) m) after s)"
proof (cases r)
  case Nil
  then show ?thesis using assms by (simp add: flush_on_def)
next
  case (Cons f rest)
  have "\<not> ob_closed s" "Mark Stream_ends \<notin> set (ob_out s)" using assms(1) Cons by (auto simp: ordered_def lock_ok_def flushed_by_def)
  moreover from this have "ordered fs ((push_down f s)\<lparr>ob_lock := Data_flush rest (ob_epoch s) m\<rparr>)"
    using assms(1) Cons by (auto simp: ordered_def under_way_def owed_def lock_ok_def flushed_by_def push_down_def)
  ultimately show ?thesis using Cons by (simp add: flush_on_def)
qed

lemma ordered_flush_all:
  assumes "ordered fs (s\<lparr>ob_held := [], ob_lock := Data_flush (ob_held s) (ob_epoch s) m\<rparr>)"
    and "\<And>s. ordered fs (s\<lparr>ob_lock := Data_flush [] (ob_epoch s) m\<rparr>) \<Longrightarrow> ordered fs (after s)"
  shows "ordered fs (flush_all (ob_epoch s) (\<lambda>r. Data_flush r (ob_epoch s) m) after s)"
proof -
  let ?s = "s\<lparr>ob_held := [], ob_ms := 0, ob_priming := False\<rparr>"
  have "ordered fs (?s\<lparr>ob_lock := Data_flush (ob_held s) (ob_epoch ?s) m\<rparr>)"
    using assms(1) by (simp add: ordered_def under_way_def owed_def lock_ok_def flushed_by_def)
  from ordered_flush [OF this assms(2)] show ?thesis by (simp add: flush_all_def)
qed

lemma ordered_flush_mark:
  assumes "ordered fs (s\<lparr>ob_lock := Stops_timer t m\<rparr>)" shows "ordered fs (flush_mark m s)"
  unfolding flush_mark_def
proof (rule ordered_flush_all)
  show "ordered fs (s\<lparr>ob_held := [], ob_lock := Data_flush (ob_held s) (ob_epoch s) (Some m)\<rparr>)"
    using assms by (simp add: ordered_def under_way_def owed_def mark_list_def lock_ok_def flushed_by_def)
qed (rule ordered_after_mark)

lemma ordered_take_mark:
  assumes "ordered fs s" "ob_lock s = Free" "ob_wants s = Some (Mark m)"
  shows "ordered fs (take_mark m (s\<lparr>ob_wants := None\<rparr>))"
proof -
  let ?s = "snd (stop_timer (s\<lparr>ob_wants := None\<rparr>))"
  have s: "ordered fs (?s\<lparr>ob_lock := Stops_timer t m\<rparr>)" for t
    using assms by (cases "ob_timer s") (simp_all add: ordered_def under_way_def owed_def lock_ok_def stop_timer_def)
  show ?thesis using s ordered_flush_mark [OF s]
    by (cases "ob_timer s") (simp_all add: take_mark_def stop_timer_def)
qed

lemma ordered_take_speech:
  assumes "ordered fs s" "ob_lock s = Free" "ob_wants s = Some f" "f = Speech i bs c r"
  shows "ordered fs (take_speech f (s\<lparr>ob_wants := None\<rparr>))"
proof -
  let ?s = "snd (stop_timer (s\<lparr>ob_wants := None, ob_held := ob_held s @ [f], ob_ms := ob_ms s + frame_ms f\<rparr>))"
  have e: "ob_held ?s = ob_held s @ [f]" by (cases "ob_timer s") (simp_all add: stop_timer_def)
  have k: "ordered fs (?s\<lparr>ob_held := [], ob_lock := Data_flush (ob_held s @ [f]) (ob_epoch ?s) None\<rparr>)" if "\<not> ob_closed s"
    using assms that by (cases "ob_timer s") (simp_all add: ordered_def under_way_def owed_def mark_list_def stop_timer_def lock_ok_def flushed_by_def)
  then have full: "ordered fs (flush_all (ob_epoch ?s) (\<lambda>r. Data_flush r (ob_epoch ?s) None) unlock ?s)" if "\<not> ob_closed s"
    using that e by (intro ordered_flush_all ordered_unlock) simp_all
  have closed: "ordered fs (unlock (s\<lparr>ob_wants := None\<rparr>))" if "ob_closed s"
    using assms that by (simp add: ordered_def under_way_def owed_def lock_ok_def unlock_def)
  have direct: "ordered fs ((push_down f (s\<lparr>ob_wants := None\<rparr>))\<lparr>ob_lock := Data_last\<rparr>)" if "\<not> ob_closed s" "ob_held s = []"
    using assms that by (simp add: ordered_def under_way_def owed_def lock_ok_def push_down_def)
  have held: "ordered fs (unlock (s\<lparr>ob_wants := None, ob_held := ob_held s @ [f], ob_ms := x, ob_timer := t, ob_timers := d, ob_next := n\<rparr>))"
    "ordered fs (unlock (s\<lparr>ob_wants := None, ob_held := ob_held s @ [f], ob_ms := x\<rparr>))" if "\<not> ob_closed s" "ob_priming s" for x t d n
    using assms that by (simp_all add: ordered_def under_way_def owed_def lock_ok_def unlock_def)
  show ?thesis
  proof (cases "ob_closed s \<or> \<not> ob_priming s")
    case True
    then show ?thesis using closed direct assms(1,4) by (auto simp: take_speech_def ordered_def)
  next
    case False
    then show ?thesis using full held by (simp add: take_speech_def Let_def unlock_def)
  qed
qed

lemma ordered_data_locks:
  assumes "ordered fs s" shows "ordered fs (data_locks s)"
proof (cases "ob_lock s = Free \<and> ob_wants s \<noteq> None")
  case True
  then obtain f where f: "ob_lock s = Free" "ob_wants s = Some f" by auto
  then have "shares_lock f" using assms by (simp add: ordered_def owed_def)
  then show ?thesis using assms f ordered_take_mark [OF assms f(1)] ordered_take_speech [OF assms f]
    by (cases f) (simp_all add: data_locks_def)
qed (use assms in \<open>auto simp: data_locks_def\<close>)

lemma ordered_data_goes_on:
  assumes "ordered fs s" shows "ordered fs (data_goes_on s)"
proof (cases "ob_lock s")
  case (Stops_timer t m)
  then have "ordered fs (s\<lparr>ob_lock := Stops_timer t m\<rparr>)" using assms by (simp add: same_lock)
  then show ?thesis using assms Stops_timer by (auto simp: data_goes_on_def intro: ordered_flush_mark)
next
  case (Data_flush r e m)
  then have e: "e = ob_epoch s" using assms by (simp add: ordered_def lock_ok_def flushed_by_def)
  then have o: "ordered fs (s\<lparr>ob_lock := Data_flush r (ob_epoch s) m\<rparr>)" using assms Data_flush by (simp add: same_lock)
  show ?thesis
  proof (cases m)
    case None
    have "data_goes_on s = flush_on r (ob_epoch s) (\<lambda>r. Data_flush r (ob_epoch s) None) unlock s"
      using Data_flush e None by (simp add: data_goes_on_def)
    then show ?thesis using o None by (simp add: ordered_flush ordered_unlock)
  next
    case (Some m')
    have "data_goes_on s = flush_on r (ob_epoch s) (\<lambda>r. Data_flush r (ob_epoch s) (Some m')) (after_mark m') s"
      using Data_flush e Some by (simp add: data_goes_on_def)
    then show ?thesis using o Some by (simp add: ordered_flush ordered_after_mark)
  qed
next
  case Data_last
  then have "ordered fs (s\<lparr>ob_lock := Data_last\<rparr>)" using assms by (simp add: same_lock)
  then show ?thesis using Data_last by (simp add: data_goes_on_def ordered_last)
qed (use assms in \<open>simp_all add: data_goes_on_def\<close>)

lemma ordered_timer_ends:
  assumes "ordered fs (s\<lparr>ob_lock := Timer_flush t [] e\<rparr>)" shows "ordered fs (timer_ends t (unlock s))"
  using assms by (simp add: ordered_def timer_ends_def unlock_def under_way_def owed_def lock_ok_def flushed_by_def)

lemma ordered_timer_flush:
  assumes "ordered fs (s\<lparr>ob_lock := Timer_flush t r e\<rparr>)"
  shows "ordered fs (flush_on r e (\<lambda>r. Timer_flush t r e) (\<lambda>s. timer_ends t (unlock s)) s)"
proof (cases r)
  case Nil
  then show ?thesis using assms by (simp add: flush_on_def ordered_timer_ends)
next
  case (Cons f rest)
  have "\<not> ob_closed s" "Mark Stream_ends \<notin> set (ob_out s)" "e = ob_epoch s"
    using assms(1) Cons by (auto simp: ordered_def lock_ok_def flushed_by_def)
  moreover from this have "ordered fs ((push_down f s)\<lparr>ob_lock := Timer_flush t rest e\<rparr>)"
    using assms(1) Cons by (auto simp: ordered_def under_way_def owed_def lock_ok_def flushed_by_def push_down_def)
  ultimately show ?thesis using Cons by (simp add: flush_on_def)
qed

lemma ordered_timer_fires:
  assumes "ordered fs s" shows "ordered fs (timer_fires t s)"
  using assms by (cases "ob_lock s")
    (auto simp: timer_fires_def ordered_def under_way_def owed_def lock_ok_def flushed_by_def split: option.splits timer.splits)

lemma ordered_timer_locks:
  assumes "ordered fs s" shows "ordered fs (timer_locks t s)"
proof (cases "\<exists>e. dict_get (ob_timers s) t = Some (At_lock e) \<and> ob_lock s = Free")
  case True
  then obtain e where e: "dict_get (ob_timers s) t = Some (At_lock e)" "ob_lock s = Free" by blast
  let ?s = "s\<lparr>ob_timers := dict_put t Has_lock (ob_timers s), ob_held := [], ob_ms := 0, ob_priming := False\<rparr>"
  have "ordered fs (timer_ends t s)"
    using assms e by (simp add: ordered_def timer_ends_def under_way_def owed_def lock_ok_def)
  moreover have "ordered fs (?s\<lparr>ob_lock := Timer_flush t (ob_held s) (ob_epoch s)\<rparr>)"
    using assms e by (simp add: ordered_def under_way_def owed_def lock_ok_def flushed_by_def)
  from ordered_timer_flush [OF this] have "ordered fs (flush_all (ob_epoch s) (\<lambda>r. Timer_flush t r (ob_epoch s))
      (\<lambda>s. timer_ends t (unlock s)) (s\<lparr>ob_timers := dict_put t Has_lock (ob_timers s)\<rparr>))"
    by (simp add: flush_all_def)
  ultimately show ?thesis using e by (simp add: timer_locks_def)
qed (use assms in \<open>auto simp: timer_locks_def split: option.splits timer.splits\<close>)

lemma ordered_timer_goes_on:
  assumes "ordered fs s" shows "ordered fs (timer_goes_on t s)"
proof (cases "ob_lock s")
  case (Timer_flush t' r e)
  then have "ordered fs (s\<lparr>ob_lock := Timer_flush t' r e\<rparr>)" using assms by (simp add: same_lock)
  from ordered_timer_flush [OF this] show ?thesis using Timer_flush assms by (auto simp: timer_goes_on_def)
qed (use assms in \<open>simp_all add: timer_goes_on_def\<close>)

lemma ordered_timer_dies:
  assumes "ordered fs s" shows "ordered fs (timer_dies t s)"
  using assms by (cases "ob_lock s")
    (auto simp: timer_dies_def timer_ends_def ordered_def under_way_def owed_def lock_ok_def flushed_by_def)


lemma ordered_system: "ordered fs s \<Longrightarrow> system_locks s = s" "ordered fs s \<Longrightarrow> system_goes_on s = s"
  by (auto simp: ordered_def system_locks_def system_goes_on_def lock_ok_def)

lemma ordered_step:
  assumes "ordered fs s" "undisturbed ev" shows "ordered (fs @ taken_frames [ev] s) (ob_step ev s)"
proof (cases "\<exists>f. ev = Arrives f")
  case True
  then show ?thesis using ordered_arrives [OF assms(1)] by auto
next
  case False
  note steps = ordered_data_locks ordered_data_goes_on ordered_timer_fires ordered_timer_locks ordered_timer_goes_on ordered_timer_dies
  from False show ?thesis using assms(2) steps [OF assms(1)] assms(1) ordered_system [OF assms(1)] by (cases ev) simp_all
qed

lemma taken_Cons: "taken_frames (ev # evs) s = taken_frames [ev] s @ taken_frames evs (ob_step ev s)"
  by (cases ev) auto

lemma ordered_run: "ordered fs s \<Longrightarrow> list_all undisturbed evs \<Longrightarrow> ordered (fs @ taken_frames evs s) (ob_run evs s)"
proof (induction evs arbitrary: fs s)
  case (Cons ev evs)
  from Cons.IH [OF ordered_step [OF Cons.prems(1), of ev]] Cons.prems(2) show ?case
    by (simp add: taken_Cons [of ev evs])
qed simp

text \<open>As long as nothing is interrupted, the output buffer hands on exactly what it was given: in any interleaving of the
  pipeline with the timer of the prefill, the speech and the marks that have gone out are the first of those that were
  accepted, in their order (speech is accepted until the stream ends, marks always), and when nobody is at work the rest
  is what the buffer holds.\<close>

theorem speech_keeps_its_order:
  assumes "new_buffer lead = Some s" and "list_all undisturbed evs"
  shows "(\<exists>rest. accepted_frames False (taken_frames evs s) = filter shares_lock (ob_out (ob_run evs s)) @ rest)
    \<and> (\<not> data_busy (ob_run evs s) \<and> ob_lock (ob_run evs s) = Free \<longrightarrow>
         accepted_frames False (taken_frames evs s) = filter shares_lock (ob_out (ob_run evs s)) @ ob_held (ob_run evs s))"
proof -
  have "ordered [] s" using assms(1) by (auto simp: new_buffer_def ordered_def under_way_def owed_def lock_ok_def split: if_splits)
  from ordered_run [OF this assms(2)] have o: "ordered (taken_frames evs s) (ob_run evs s)" by simp
  then show ?thesis by (auto simp: ordered_def under_way_def owed_def data_busy_def)
qed


section \<open>The prefill is bounded and ends\<close>

definition timer_runs :: "out_buffer \<Rightarrow> nat \<Rightarrow> bool" where
  "timer_runs s t \<longleftrightarrow> dict_get (ob_timers s) t \<in> {Some (Sleeps (ob_epoch s)), Some (At_lock (ob_epoch s))}
     \<or> dict_get (ob_timers s) t = Some Has_lock \<and> (\<exists>r e. ob_lock s = Timer_flush t r e)"

definition prefilled :: "out_buffer \<Rightarrow> bool" where
  "prefilled s \<longleftrightarrow>
     ob_ms s = sum_list (map frame_ms (ob_held s)) \<and> (ob_held s \<noteq> [] \<longrightarrow> ob_ms s < ob_lead s)
   \<and> (case ob_timer s of Some t \<Rightarrow> timer_runs s t
      | None \<Rightarrow> ob_held s = [] \<or> ob_closed s \<or> (\<exists>t m. ob_lock s = Stops_timer t m) \<or> ob_system s \<noteq> Sys_idle)
   \<and> (case ob_lock s of Stops_timer _ _ \<Rightarrow> ob_timer s = None | Data_flush _ _ m \<Rightarrow> ob_held s = [] \<and> (m \<noteq> None \<longrightarrow> ob_timer s = None)
      | Timer_flush _ _ _ \<Rightarrow> ob_held s = [] | _ \<Rightarrow> True)"

lemma prefilled_timer: "prefilled s \<Longrightarrow> prefilled (timer_fires t s) \<and> prefilled (timer_dies t s)"
  by (cases "ob_lock s"; cases "ob_timer s")
    (auto simp: prefilled_def timer_runs_def timer_fires_def timer_dies_def timer_ends_def unlock_def split: option.splits timer.splits)

lemma prefilled_timer_locks: "prefilled s \<Longrightarrow> prefilled (timer_locks t s)"
  by (cases "ob_lock s"; cases "ob_timer s"; cases "ob_held s")
    (auto simp: prefilled_def timer_runs_def timer_locks_def timer_ends_def unlock_def flush_all_def flush_on_def push_down_def split: option.splits timer.splits)

lemma prefilled_timer_goes_on: "prefilled s \<Longrightarrow> prefilled (timer_goes_on t s)"
  by (cases "ob_lock s"; cases "ob_timer s")
    (auto simp: prefilled_def timer_runs_def timer_goes_on_def timer_ends_def unlock_def flush_on_def push_down_def split: option.splits timer.splits list.splits)

lemma prefilled_system: "prefilled s \<Longrightarrow> prefilled (system_locks s) \<and> prefilled (system_goes_on s) \<and> prefilled (system_comes c s)"
  by (cases "ob_lock s"; cases "ob_timer s")
    (auto simp: prefilled_def timer_runs_def system_locks_def system_goes_on_def system_comes_def stop_timer_def unlock_def push_down_def Let_def
      split: option.splits system_call.splits)

lemma prefilled_arrives: "prefilled s \<Longrightarrow> prefilled (data_arrives f s)"
  by (cases "ob_timer s")
    (auto simp: prefilled_def timer_runs_def data_arrives_def push_down_def split: oframe.splits holder.splits)


lemma prefilled_unlock:
  assumes "prefilled (s\<lparr>ob_lock := Data_flush [] e m\<rparr>)" shows "prefilled (unlock s)" "prefilled (s\<lparr>ob_lock := Data_flush r e' m\<rparr>)"
  using assms by (cases "ob_timer s"; auto simp: prefilled_def timer_runs_def unlock_def)+

lemma prefilled_after_mark:
  assumes "prefilled (s\<lparr>ob_lock := Data_flush [] e (Some m)\<rparr>)" shows "prefilled (after_mark m s)"
  using assms by (cases m; cases "ob_timer s") (simp_all add: prefilled_def timer_runs_def after_mark_def push_down_def)

lemma prefilled_flush:
  assumes "prefilled (s\<lparr>ob_lock := Data_flush r e m\<rparr>)" and "prefilled (after s)"
  shows "prefilled (flush_on r e (\<lambda>r. Data_flush r e m) after s)"
  using assms by (cases r; cases "ob_timer s") (auto simp: flush_on_def prefilled_def timer_runs_def push_down_def)

lemma prefilled_flush_mark:
  assumes "prefilled (s\<lparr>ob_lock := Stops_timer t m\<rparr>)" shows "prefilled (flush_mark m s)"
proof -
  let ?s = "s\<lparr>ob_held := [], ob_ms := 0, ob_priming := False\<rparr>"
  have "prefilled (?s\<lparr>ob_lock := Data_flush [] (ob_epoch s) (Some m)\<rparr>)" "ob_timer s = None"
    using assms by (simp_all add: prefilled_def)
  then show ?thesis using prefilled_flush [of "ob_held s" "ob_epoch s" "Some m" ?s] prefilled_unlock(2) prefilled_after_mark
    by (simp add: flush_mark_def flush_all_def)
qed

lemma prefilled_data_goes_on:
  assumes "prefilled s" shows "prefilled (data_goes_on s)"
proof (cases "ob_lock s")
  case (Stops_timer t m)
  then have "prefilled (s\<lparr>ob_lock := Stops_timer t m\<rparr>)" using assms by (simp add: same_lock)
  then show ?thesis using assms Stops_timer by (auto simp: data_goes_on_def intro: prefilled_flush_mark)
next
  case (Data_flush r e m)
  then have o: "prefilled (s\<lparr>ob_lock := Data_flush r e m\<rparr>)" using assms by (simp add: same_lock)
  then have n: "prefilled (s\<lparr>ob_lock := Data_flush [] e m\<rparr>)" by (cases "ob_timer s") (simp_all add: prefilled_def timer_runs_def)
  show ?thesis using Data_flush o n prefilled_flush [OF o] prefilled_unlock(1) [OF n] prefilled_after_mark [of e _ s]
    by (cases m) (simp_all add: data_goes_on_def)
next
  case Data_last
  then show ?thesis using assms by (cases "ob_timer s") (auto simp: data_goes_on_def unlock_def prefilled_def timer_runs_def)
qed (use assms in \<open>simp_all add: data_goes_on_def\<close>)

lemma prefilled_take_mark:
  assumes "prefilled s" "ob_lock s = Free" shows "prefilled (take_mark m (s\<lparr>ob_wants := None\<rparr>))"
proof (cases "ob_timer s")
  case None
  then have "prefilled (s\<lparr>ob_wants := None, ob_lock := Stops_timer 0 m\<rparr>)" using assms by (auto simp: prefilled_def)
  then show ?thesis using None prefilled_flush_mark [of 0 m "s\<lparr>ob_wants := None\<rparr>"] by (simp add: take_mark_def stop_timer_def)
qed (use assms in \<open>auto simp: take_mark_def stop_timer_def prefilled_def\<close>)

lemma prefilled_take_speech:
  assumes "prefilled s" "ob_lock s = Free" "0 < ob_lead s" shows "prefilled (take_speech f (s\<lparr>ob_wants := None\<rparr>))"
proof -
  let ?s = "snd (stop_timer (s\<lparr>ob_wants := None, ob_held := ob_held s @ [f], ob_ms := ob_ms s + frame_ms f\<rparr>))"
  let ?t = "?s\<lparr>ob_held := [], ob_ms := 0, ob_priming := False\<rparr>"
  have "prefilled (?t\<lparr>ob_lock := Data_flush [] (ob_epoch ?s) None\<rparr>)" by (cases "ob_timer s") (simp_all add: prefilled_def stop_timer_def)
  then have full: "prefilled (flush_all (ob_epoch ?s) (\<lambda>r. Data_flush r (ob_epoch ?s) None) unlock ?s)"
    using prefilled_flush [of "ob_held ?s" "ob_epoch ?s" None ?t unlock] prefilled_unlock by (simp add: flush_all_def)
  have direct: "prefilled (unlock (s\<lparr>ob_wants := None\<rparr>))" "prefilled ((push_down f (s\<lparr>ob_wants := None\<rparr>))\<lparr>ob_lock := Data_last\<rparr>)"
    using assms by (cases "ob_timer s"; auto simp: prefilled_def timer_runs_def unlock_def push_down_def)+
  have "prefilled (unlock (s\<lparr>ob_wants := None, ob_held := ob_held s @ [f], ob_ms := ob_ms s + frame_ms f, ob_timer := Some n,
        ob_timers := dict_put n (Sleeps (ob_epoch s)) (ob_timers s), ob_next := k\<rparr>))" if "ob_ms s + frame_ms f < ob_lead s" for n k
    using assms that by (cases "ob_timer s") (auto simp: prefilled_def timer_runs_def unlock_def)
  moreover
  have "prefilled (unlock (s\<lparr>ob_wants := None, ob_held := ob_held s @ [f], ob_ms := ob_ms s + frame_ms f\<rparr>))"
    if "ob_ms s + frame_ms f < ob_lead s" "ob_timer s \<noteq> None"
    using assms that by (auto simp: prefilled_def timer_runs_def unlock_def)
  ultimately show ?thesis using full direct by (simp add: take_speech_def Let_def)
qed

lemma ob_lead_step: "ob_lead (ob_step ev s) = ob_lead s"
  by (cases ev) (simp_all add: ob_defs split: option.splits list.splits oframe.splits holder.splits system_call.splits timer.splits)

lemma prefilled_step:
  assumes "prefilled s" "0 < ob_lead s" "ev \<noteq> Data_stopped" shows "prefilled (ob_step ev s)"
proof (cases ev)
  case Data_locks
  show ?thesis using Data_locks assms prefilled_take_mark prefilled_take_speech
    by (auto simp: data_locks_def split: option.splits oframe.splits)
qed (use assms prefilled_timer prefilled_timer_locks prefilled_timer_goes_on prefilled_system prefilled_arrives prefilled_data_goes_on in auto)

lemma prefilled_run: "prefilled s \<Longrightarrow> 0 < ob_lead s \<Longrightarrow> Data_stopped \<notin> set evs \<Longrightarrow> prefilled (ob_run evs s) \<and> ob_lead (ob_run evs s) = ob_lead s"
  by (induction evs arbitrary: s) (auto simp: prefilled_step ob_lead_step)

fun of_timer :: "ob_event \<Rightarrow> bool" where
  "of_timer (Timer_fires _) = True"
| "of_timer (Timer_locks _) = True"
| "of_timer (Timer_goes_on _) = True"
| "of_timer _ = False"

lemma timer_flushes:
  assumes "ob_lock s = Timer_flush t r (ob_epoch s)" "\<not> ob_closed s" "dict_get (ob_timers s) t = Some Has_lock"
  shows "\<exists>s'. ob_run (replicate (length r + 1) (Timer_goes_on t)) s = s' \<and> ob_out s' = ob_out s @ r \<and> ob_held s' = ob_held s"
  using assms
proof (induction r arbitrary: s)
  case (Cons f r)
  let ?s = "(push_down f s)\<lparr>ob_lock := Timer_flush t r (ob_epoch s)\<rparr>"
  have "timer_goes_on t s = ?s" using Cons.prems by (simp add: timer_goes_on_def flush_on_def)
  then show ?case using Cons.IH [of ?s] Cons.prems by (auto simp: push_down_def)
qed (simp add: timer_goes_on_def flush_on_def timer_ends_def unlock_def)

text \<open>The prefill is short and always ends: unless the pipeline cancels a call half way, whatever else happened, the
  speech that waits in an open buffer while nobody is at work lasts less than the lead, and its timer is running: with no
  further event but those of the timer all of it goes out, in order.\<close>

theorem prefill_ends:
  assumes "new_buffer lead = Some s0" and "Data_stopped \<notin> set evs" and "s = ob_run evs s0" and "ob_held s \<noteq> []"
    and "ob_lock s = Free" "ob_system s = Sys_idle" "\<not> ob_closed s"
  shows "sum_list (map frame_ms (ob_held s)) < lead
    \<and> (\<exists>evs'. list_all of_timer evs' \<and> ob_out (ob_run evs' s) = ob_out s @ ob_held s \<and> ob_held (ob_run evs' s) = [])"
proof -
  have "prefilled s0" "0 < ob_lead s0" "ob_lead s0 = lead" using assms(1) by (auto simp: new_buffer_def prefilled_def split: if_splits)
  with prefilled_run [OF this(1,2) assms(2)] have p: "prefilled s" "ob_lead s = lead" unfolding assms(3) by simp_all
  obtain t where t: "ob_timer s = Some t" using p(1) assms(4-7) by (auto simp: prefilled_def split: option.splits)
  then have at: "dict_get (ob_timers s) t = Some (Sleeps (ob_epoch s)) \<or> dict_get (ob_timers s) t = Some (At_lock (ob_epoch s))"
    using p(1) assms(5) by (auto simp: prefilled_def timer_runs_def)
  obtain f r where f: "ob_held s = f # r" using assms(4) by (cases "ob_held s") auto
  define u where "u = ob_run [Timer_fires t, Timer_locks t] s"
  have u: "ob_lock u = Timer_flush t r (ob_epoch u)" "\<not> ob_closed u" "dict_get (ob_timers u) t = Some Has_lock" "ob_out u = ob_out s @ [f]" "ob_held u = []"
    using at assms(5,7) f by (auto simp: u_def timer_fires_def timer_locks_def flush_all_def flush_on_def push_down_def)
  let ?evs = "[Timer_fires t, Timer_locks t] @ replicate (length r + 1) (Timer_goes_on t)"
  have "ob_run ?evs s = ob_run (replicate (length r + 1) (Timer_goes_on t)) u" by (simp add: u_def)
  then have "ob_out (ob_run ?evs s) = ob_out s @ ob_held s \<and> ob_held (ob_run ?evs s) = []"
    using timer_flushes [OF u(1-3)] u(4,5) f by auto
  moreover have "list_all of_timer ?evs" by (simp add: list_all_iff)
  ultimately have "\<exists>evs'. list_all of_timer evs' \<and> ob_out (ob_run evs' s) = ob_out s @ ob_held s \<and> ob_held (ob_run evs' s) = []" by blast
  then show ?thesis using p assms(4) by (simp add: prefilled_def)
qed


section \<open>Interruptions\<close>

definition arrivals :: "ob_event list \<Rightarrow> oframe set" where "arrivals evs = {f. Arrives f \<in> set evs}"

text \<open>The frames that may still go out: of a loop that flushes, only if it belongs to the current epoch\<close>

definition at_work :: "out_buffer \<Rightarrow> oframe set" where
  "at_work s = (case ob_lock s of
     Stops_timer _ m \<Rightarrow> {Mark m}
   | Data_flush r e m \<Rightarrow> (if e < ob_epoch s then {} else set r) \<union> set (mark_list m)
   | Timer_flush _ r e \<Rightarrow> (if e < ob_epoch s then {} else set r)
   | _ \<Rightarrow> {})"

definition pending_frames :: "out_buffer \<Rightarrow> oframe set" where
  "pending_frames s = set (ob_held s) \<union> set (owed s) \<union> at_work s \<union> range Control"

definition gives_only :: "oframe set \<Rightarrow> out_buffer \<Rightarrow> out_buffer \<Rightarrow> bool" where
  "gives_only F s s' \<longleftrightarrow> (\<exists>new. ob_out s' = ob_out s @ new \<and> set new \<subseteq> F) \<and> pending_frames s' \<subseteq> F \<and> ob_epoch s \<le> ob_epoch s'"

lemma gives_only_flush:
  assumes "set r \<subseteq> F \<or> e < ob_epoch s" "pending_frames s \<subseteq> F" "gives_only F s (after s)"
    and "\<And>r. at_work (s\<lparr>ob_lock := wait r\<rparr>) \<subseteq> (if e < ob_epoch s then {} else set r) \<union> F"
  shows "gives_only F s (flush_on r e wait after s)"
proof (cases "r = [] \<or> ob_closed s \<or> e \<noteq> ob_epoch s")
  case True
  then show ?thesis using assms(3) by (auto simp: flush_on_def split: list.splits)
next
  case False
  then obtain f r' where r: "r = f # r'" "e = ob_epoch s" "\<not> ob_closed s" by (cases r) auto
  then have "at_work (s\<lparr>ob_out := ob_out s @ [f], ob_lock := wait r'\<rparr>) \<subseteq> F"
    using assms(1) assms(4) [of r'] by (auto simp: at_work_def cong: holder.case_cong)
  then show ?thesis using assms(1,2) r by (auto simp: flush_on_def gives_only_def push_down_def pending_frames_def owed_def)
qed


lemmas gives_defs = gives_only_def pending_frames_def owed_def at_work_def mark_list_def

lemma gives_only_unlock: "pending_frames s \<subseteq> F \<Longrightarrow> gives_only F s (unlock s)" "pending_frames s \<subseteq> F \<Longrightarrow> gives_only F s s"
  by (auto simp: gives_defs unlock_def)

lemma gives_only_after_mark: "pending_frames s \<subseteq> F \<Longrightarrow> Mark m \<in> F \<Longrightarrow> gives_only F s (after_mark m s)"
  by (cases m) (auto simp: gives_defs after_mark_def push_down_def)

lemma gives_only_timer_ends: "pending_frames s \<subseteq> F \<Longrightarrow> gives_only F s (timer_ends t (unlock s))" "pending_frames s \<subseteq> F \<Longrightarrow> gives_only F s (timer_ends t s)"
  by (auto simp: gives_defs unlock_def timer_ends_def cong: holder.case_cong)

lemma gives_only_flush_mark:
  assumes "pending_frames s \<subseteq> F" "Mark m \<in> F" shows "gives_only F s (flush_mark m s)"
proof -
  let ?s = "s\<lparr>ob_held := [], ob_ms := 0, ob_priming := False\<rparr>"
  have s: "pending_frames ?s \<subseteq> F" "set (ob_held s) \<subseteq> F" using assms(1) by (auto simp: gives_defs cong: holder.case_cong)
  have "gives_only F ?s (flush_on (ob_held s) (ob_epoch s) (\<lambda>r. Data_flush r (ob_epoch s) (Some m)) (after_mark m) ?s)"
    using s assms(2) by (intro gives_only_flush gives_only_after_mark) (auto simp: at_work_def mark_list_def)
  then show ?thesis by (simp add: flush_mark_def flush_all_def gives_only_def)
qed

lemma gives_only_data_goes_on: "gives_only (pending_frames s) s (data_goes_on s)"
proof (cases "ob_lock s")
  case (Stops_timer t m)
  then have "Mark m \<in> pending_frames s" by (simp add: pending_frames_def at_work_def)
  then show ?thesis using Stops_timer gives_only_flush_mark gives_only_unlock by (simp add: data_goes_on_def)
next
  case (Data_flush r e m)
  then have r: "set r \<subseteq> pending_frames s \<or> e < ob_epoch s" and m: "set (mark_list m) \<subseteq> pending_frames s"
    by (auto simp: pending_frames_def at_work_def)
  have work: "at_work (s\<lparr>ob_lock := Data_flush r' e m\<rparr>) \<subseteq> (if e < ob_epoch s then {} else set r') \<union> pending_frames s" for r'
    using m by (auto simp: at_work_def)
  show ?thesis
  proof (cases m)
    case None
    then show ?thesis using Data_flush r work by (auto simp: data_goes_on_def intro!: gives_only_flush gives_only_unlock)
  next
    case (Some m')
    then have "Mark m' \<in> pending_frames s" using m by (simp add: mark_list_def)
    then show ?thesis using Data_flush r work Some by (auto simp: data_goes_on_def intro!: gives_only_flush gives_only_after_mark)
  qed
qed (use gives_only_unlock in \<open>simp_all add: data_goes_on_def\<close>)

lemma gives_only_timer_goes_on: "gives_only (pending_frames s) s (timer_goes_on t s)"
proof (cases "ob_lock s")
  case (Timer_flush t' r e)
  then have r: "set r \<subseteq> pending_frames s \<or> e < ob_epoch s" by (auto simp: pending_frames_def at_work_def)
  have "gives_only (pending_frames s) s (flush_on r e (\<lambda>r. Timer_flush t r e) (\<lambda>s. timer_ends t (unlock s)) s)"
    using r by (intro gives_only_flush gives_only_timer_ends) (auto simp: at_work_def)
  then show ?thesis using Timer_flush gives_only_unlock by (simp add: timer_goes_on_def)
qed (use gives_only_unlock in \<open>simp_all add: timer_goes_on_def\<close>)

lemma gives_only_timer_locks: "gives_only (pending_frames s) s (timer_locks t s)"
proof -
  let ?F = "pending_frames s"
  let ?s = "s\<lparr>ob_timers := dict_put t Has_lock (ob_timers s), ob_held := [], ob_ms := 0, ob_priming := False\<rparr>"
  have s: "pending_frames ?s \<subseteq> ?F" "set (ob_held s) \<subseteq> ?F" by (auto simp: gives_defs cong: holder.case_cong)
  have "gives_only ?F ?s (flush_on (ob_held s) (ob_epoch s) (\<lambda>r. Timer_flush t r (ob_epoch s)) (\<lambda>s. timer_ends t (unlock s)) ?s)"
    using s by (intro gives_only_flush gives_only_timer_ends) (auto simp: at_work_def)
  then have "gives_only ?F s (flush_all (ob_epoch s) (\<lambda>r. Timer_flush t r (ob_epoch s)) (\<lambda>s. timer_ends t (unlock s)) (s\<lparr>ob_timers := dict_put t Has_lock (ob_timers s)\<rparr>))"
    by (simp add: flush_all_def gives_only_def)
  then show ?thesis using gives_only_unlock(2) gives_only_timer_ends(2) by (auto simp: timer_locks_def split: option.splits timer.splits)
qed

lemma gives_only_take_mark:
  assumes "ob_wants s = Some (Mark m)" "ob_lock s = Free"
  shows "gives_only (pending_frames s) s (take_mark m (s\<lparr>ob_wants := None\<rparr>))"
proof (cases "ob_timer s")
  case None
  have "pending_frames (s\<lparr>ob_wants := None\<rparr>) \<subseteq> pending_frames s" "Mark m \<in> pending_frames s"
    using assms by (auto simp: gives_defs)
  from gives_only_flush_mark [OF this] show ?thesis using None by (simp add: take_mark_def stop_timer_def gives_only_def)
qed (use assms in \<open>auto simp: take_mark_def stop_timer_def gives_defs\<close>)

lemma gives_only_take_speech:
  assumes "ob_wants s = Some f" "ob_lock s = Free"
  shows "gives_only (pending_frames s) s (take_speech f (s\<lparr>ob_wants := None\<rparr>))"
proof -
  let ?F = "pending_frames s"
  let ?s = "snd (stop_timer (s\<lparr>ob_wants := None, ob_held := ob_held s @ [f], ob_ms := ob_ms s + frame_ms f\<rparr>))"
  let ?t = "?s\<lparr>ob_held := [], ob_ms := 0, ob_priming := False\<rparr>"
  have t: "pending_frames ?t \<subseteq> ?F" "set (ob_held ?s) \<subseteq> ?F" "ob_out ?t = ob_out s" "ob_epoch ?s = ob_epoch s"
    using assms by (cases "ob_timer s"; auto simp: gives_defs stop_timer_def)+
  have "gives_only ?F ?t (flush_on (ob_held ?s) (ob_epoch ?s) (\<lambda>r. Data_flush r (ob_epoch ?s) None) unlock ?t)"
    using t(1,2) by (intro gives_only_flush gives_only_unlock) (auto simp: at_work_def mark_list_def)
  then have full: "gives_only ?F s (flush_all (ob_epoch ?s) (\<lambda>r. Data_flush r (ob_epoch ?s) None) unlock ?s)"
    using t(3,4) by (simp add: flush_all_def gives_only_def)
  have "gives_only ?F s (unlock (s\<lparr>ob_wants := None\<rparr>))" "gives_only ?F s ((push_down f (s\<lparr>ob_wants := None\<rparr>))\<lparr>ob_lock := Data_last\<rparr>)"
    "gives_only ?F s (unlock (s\<lparr>ob_wants := None, ob_held := ob_held s @ [f], ob_ms := x\<rparr>))"
    "gives_only ?F s (unlock (s\<lparr>ob_wants := None, ob_held := ob_held s @ [f], ob_ms := x, ob_timer := n, ob_timers := d, ob_next := k\<rparr>))" for x n d k
    using assms by (auto simp: gives_defs unlock_def push_down_def)
  with full show ?thesis by (simp add: take_speech_def Let_def)
qed

lemma gives_only_step: "gives_only (pending_frames s \<union> arrivals [ev]) s (ob_step ev s)"
proof -
  have mono: "gives_only G s s'" if "gives_only F s s'" "F \<subseteq> G" for F G s' using that unfolding gives_only_def by blast
  show ?thesis
  proof (cases ev)
    case (Arrives f)
    then show ?thesis by (auto simp: data_arrives_def gives_defs push_down_def arrivals_def split: oframe.splits cong: holder.case_cong)
  next
    case Data_locks
    have "gives_only (pending_frames s) s (data_locks s)"
      using gives_only_take_mark gives_only_take_speech gives_only_unlock(2)
      by (auto simp: data_locks_def split: option.splits oframe.splits)
    then show ?thesis using Data_locks by (auto intro: mono)
  next
    case Data_stopped
    then show ?thesis by (cases "ob_lock s") (auto simp: data_stopped_def gives_defs unlock_def)
  next
    case (Comes c)
    then show ?thesis by (cases "ob_lock s"; cases "ob_timer s") (auto simp: system_comes_def stop_timer_def gives_defs)
  next
    case System_locks
    then show ?thesis by (auto simp: system_locks_def gives_defs push_down_def Let_def split: system_call.splits)
  next
    case System_goes_on
    then show ?thesis by (auto simp: system_goes_on_def gives_defs unlock_def split: system_call.splits cong: holder.case_cong)
  next
    case (Timer_fires t)
    then show ?thesis by (auto simp: timer_fires_def gives_defs split: option.splits timer.splits cong: holder.case_cong)
  next
    case (Timer_dies t)
    then show ?thesis by (cases "ob_lock s") (auto simp: timer_dies_def timer_ends_def gives_defs unlock_def)
  next
    case (Timer_locks t)
    then show ?thesis using mono [OF gives_only_timer_locks] by simp
  next
    case (Timer_goes_on t)
    then show ?thesis using mono [OF gives_only_timer_goes_on] by simp
  next
    case Data_goes_on
    then show ?thesis using mono [OF gives_only_data_goes_on] by simp
  qed
qed

lemma gives_only_run: "\<exists>new. ob_out (ob_run evs s) = ob_out s @ new \<and> set new \<subseteq> pending_frames s \<union> arrivals evs"
proof (induction evs arbitrary: s)
  case (Cons ev evs)
  obtain new where n: "ob_out (ob_step ev s) = ob_out s @ new" "set new \<subseteq> pending_frames s \<union> arrivals [ev]"
    "pending_frames (ob_step ev s) \<subseteq> pending_frames s \<union> arrivals [ev]"
    using gives_only_step [of s ev] by (auto simp: gives_only_def)
  obtain new' where n': "ob_out (ob_run evs (ob_step ev s)) = ob_out (ob_step ev s) @ new'"
    "set new' \<subseteq> pending_frames (ob_step ev s) \<union> arrivals evs" using Cons.IH by blast
  have "arrivals (ev # evs) = arrivals [ev] \<union> arrivals evs" by (auto simp: arrivals_def)
  then show ?case using n n' by (intro exI [of _ "new @ new'"]) auto
qed simp


definition flush_in_time :: "out_buffer \<Rightarrow> bool" where
  "flush_in_time s = (case ob_lock s of Data_flush _ e _ \<Rightarrow> e \<le> ob_epoch s | Timer_flush _ _ e \<Rightarrow> e \<le> ob_epoch s | _ \<Rightarrow> True)"

lemma in_time_flush_on:
  "(\<And>r s. flush_in_time (s\<lparr>ob_lock := wait r\<rparr>) \<longleftrightarrow> e \<le> ob_epoch s) \<Longrightarrow> flush_in_time (after s) \<Longrightarrow> flush_in_time (flush_on r e wait after s)"
  by (cases r) (auto simp: flush_on_def push_down_def)

lemma in_time_simps [simp]:
  "flush_in_time (s\<lparr>ob_lock := Data_flush r e m\<rparr>) \<longleftrightarrow> e \<le> ob_epoch s" "flush_in_time (s\<lparr>ob_lock := Timer_flush t r e\<rparr>) \<longleftrightarrow> e \<le> ob_epoch s"
  "flush_in_time (unlock s)" "flush_in_time (after_mark k s)" "flush_in_time (timer_ends t (unlock s))" "flush_in_time (s\<lparr>ob_lock := Data_last\<rparr>)"
  by (simp_all add: flush_in_time_def unlock_def after_mark_def timer_ends_def push_down_def)

lemma flush_in_time_step: "flush_in_time s \<Longrightarrow> flush_in_time (ob_step ev s)"
proof (cases ev)
  case Data_locks
  assume "flush_in_time s"
  then show ?thesis unfolding Data_locks
    by (auto simp: data_locks_def take_mark_def take_speech_def flush_mark_def flush_all_def stop_timer_def Let_def intro!: in_time_flush_on
      split: option.splits oframe.splits) (auto simp: flush_in_time_def split: holder.splits)
next
  case Data_goes_on
  assume "flush_in_time s"
  then show ?thesis unfolding Data_goes_on
    by (cases "ob_lock s") (auto simp: data_goes_on_def flush_mark_def flush_all_def intro!: in_time_flush_on split: option.splits)
next
  case (Timer_goes_on t)
  assume "flush_in_time s"
  then show ?thesis unfolding Timer_goes_on
    by (cases "ob_lock s") (auto simp: timer_goes_on_def intro!: in_time_flush_on)
next
  case (Timer_locks t)
  assume "flush_in_time s"
  then show ?thesis unfolding Timer_locks
    by (auto simp: timer_locks_def flush_all_def intro!: in_time_flush_on split: option.splits timer.splits)
      (auto simp: flush_in_time_def timer_ends_def split: holder.splits)
qed (auto simp: flush_in_time_def data_arrives_def data_stopped_def system_comes_def system_locks_def system_goes_on_def timer_fires_def timer_dies_def
    timer_ends_def stop_timer_def push_down_def unlock_def Let_def split: holder.splits option.splits oframe.splits system_call.splits timer.splits)

interpretation flushing: event_machine ob_step flush_in_time
  by unfold_locales (rule flush_in_time_step)

lemma flush_in_time_run: "flush_in_time s \<Longrightarrow> flush_in_time (ob_run evs s)"
  unfolding ob_run_def by (rule flushing.every_run)

definition marks_at_work :: "out_buffer \<Rightarrow> oframe set" where
  "marks_at_work s = (case ob_lock s of Stops_timer _ m \<Rightarrow> {Mark m} | Data_flush _ _ m \<Rightarrow> set (mark_list m) | _ \<Rightarrow> {})"



section \<open>Examples\<close>

text \<open>80 ms of speech wait for a lead of 120 ms; the timer sends them on before the mark.\<close>

definition example_buffer :: out_buffer where "example_buffer = the (new_buffer 120)"

definition example_speech :: oframe where "example_speech = Speech 1 3840 1 24000"

lemma example_run [simp]:
  "new_buffer 120 = Some example_buffer"
  "ob_run [Arrives example_speech, Data_locks] example_buffer = example_buffer\<lparr>ob_held := [example_speech], ob_ms := 80, ob_timer := Some 0,
     ob_timers := [(0, Sleeps 0)], ob_next := 1\<rparr>"
  by (simp_all add: example_buffer_def example_speech_def new_buffer_def data_arrives_def data_busy_def data_locks_def take_speech_def unlock_def
      dict_put_def Let_def)

lemma example_timer:
  "ob_run [Arrives example_speech, Data_locks, Timer_fires 0, Timer_locks 0, Timer_goes_on 0] example_buffer
     = example_buffer\<lparr>ob_priming := False, ob_next := 1, ob_out := [example_speech]\<rparr>"
proof -
  have "ob_run [Timer_fires 0, Timer_locks 0, Timer_goes_on 0] (ob_run [Arrives example_speech, Data_locks] example_buffer)
      = example_buffer\<lparr>ob_priming := False, ob_next := 1, ob_out := [example_speech]\<rparr>"
    unfolding example_run
    by (simp add: timer_fires_def timer_locks_def timer_goes_on_def flush_all_def flush_on_def timer_ends_def push_down_def unlock_def dict_get_def
        dict_put_def dict_pop_def) (simp add: example_buffer_def new_buffer_def)
  then show ?thesis by (simp only: ob_run_simps(3) [symmetric] append.simps)
qed

lemma speech_keeps_its_order_witness:
  "accepted_frames False [example_speech] = filter shares_lock (ob_out (ob_run [Arrives example_speech, Data_locks, Timer_fires 0, Timer_locks 0, Timer_goes_on 0] example_buffer))"
  using speech_keeps_its_order [OF example_run(1), of "[Arrives example_speech, Data_locks, Timer_fires 0, Timer_locks 0, Timer_goes_on 0]"]
  unfolding example_timer by (simp add: data_busy_def) (simp add: example_buffer_def new_buffer_def)

lemma prefill_ends_witness:
  "\<exists>s. s = ob_run [Arrives example_speech, Data_locks] example_buffer \<and> sum_list (map frame_ms (ob_held s)) < 120
     \<and> (\<exists>evs'. list_all of_timer evs' \<and> ob_out (ob_run evs' s) = ob_out s @ ob_held s \<and> ob_held (ob_run evs' s) = [])"
proof -
  let ?s = "ob_run [Arrives example_speech, Data_locks] example_buffer"
  have "ob_held ?s \<noteq> []" "ob_lock ?s = Free" "ob_system ?s = Sys_idle" "\<not> ob_closed ?s"
    unfolding example_run by (simp_all add: example_buffer_def new_buffer_def)
  from prefill_ends [OF example_run(1) _ refl this] show ?thesis by auto
qed


end
