(* ===== verification/Live_History.thy ===== *)
theory Live_History
  imports Transcript_Relay Wire_Text Speech_Store
begin

text \<open>
  \<open>realtime/live.py\<close>: what a live session keeps of a conversation. Each turn that ends is a fragment with an ID of
  its own; fragments go to the agent's history in batches, under a lock, by the task that a new fragment starts, by a
  consultation of the backend (which waits until the user has finished) and by the end of the session; the browser is
  told through the transcript relay. Every step runs from one await to the next. When a turn opens, grows or ends, and
  its text, comes from the Pipecat base class; a request may be answered, fail or be cancelled. \<open>lh_sent\<close> and
  \<open>lh_saved\<close> are the traces of the batches that were sent and of the fragments that were acknowledged.
\<close>

record fragment =
  fr_id :: string
  fr_role :: string
  fr_text :: string

datatype flush_kind = Flush_later | Flush_consult | Flush_final
datatype flush_state = Half_second | Waits_user | Wants_lock | Records "fragment list"

record live_history =
  lh_session :: string
  lh_sequence :: nat
  lh_turns :: "(string, string) dict"
  lh_user_done :: bool
  lh_finishing :: bool
  lh_fragments :: "fragment list"
  lh_lock :: "nat option"
  lh_task :: "nat option"
  lh_flushers :: "(nat, flush_kind \<times> flush_state) dict"
  lh_next :: nat
  lh_relay :: relay
  lh_closing :: bool
  lh_sent :: "fragment list list"
  lh_saved :: "fragment list"
  lh_consulted :: nat

definition new_history :: "string \<Rightarrow> live_history" where
  "new_history session_id = \<lparr> lh_session = session_id, lh_sequence = 0, lh_turns = [], lh_user_done = True, lh_finishing = False,
     lh_fragments = [], lh_lock = None, lh_task = None, lh_flushers = [], lh_next = 0, lh_relay = new_relay, lh_closing = False,
     lh_sent = [], lh_saved = [], lh_consulted = 0 \<rparr>"

section \<open>Turns\<close>

definition turn_id :: "live_history \<Rightarrow> nat \<Rightarrow> string" where
  "turn_id s n = lh_session s @ ''-'' @ nat_text (int n)"

definition open_turn :: "string \<Rightarrow> live_history \<Rightarrow> live_history" where
  "open_turn role s = s\<lparr>lh_user_done := lh_user_done s \<and> role \<noteq> ''user'', lh_sequence := lh_sequence s + 1,
     lh_turns := dict_put role (turn_id s (lh_sequence s + 1)) (lh_turns s)\<rparr>"

text \<open>The relay; when it fails, the session closes, unless it is finishing anyway.\<close>

definition relays :: "relay_event \<Rightarrow> live_history \<Rightarrow> live_history" where
  "relays ev s = (let r = relay_step ev (lh_relay s) in
     s\<lparr>lh_relay := r, lh_closing := lh_closing s \<or> re_failures r > re_failures (lh_relay s) \<and> \<not> lh_finishing s\<rparr>)"

definition send_snapshot :: "string \<Rightarrow> string \<Rightarrow> bool \<Rightarrow> live_history \<Rightarrow> live_history" where
  "send_snapshot role said final s = (case dict_get (lh_turns s) role of
     None \<Rightarrow> s
   | Some turn \<Rightarrow> relays (Enqueue role said turn final) s)"

definition add_flusher :: "flush_kind \<Rightarrow> flush_state \<Rightarrow> live_history \<Rightarrow> live_history" where
  "add_flusher k st s = s\<lparr>lh_flushers := dict_put (lh_next s) (k, st) (lh_flushers s), lh_next := lh_next s + 1\<rparr>"

definition task_alive :: "live_history \<Rightarrow> bool" where
  "task_alive s \<longleftrightarrow> list_ex (\<lambda>k. dict_get (lh_flushers s) k \<noteq> None) (case lh_task s of None \<Rightarrow> [] | Some k \<Rightarrow> [k])"

definition start_task :: "live_history \<Rightarrow> live_history" where
  "start_task s = (if lh_finishing s \<or> task_alive s then s else (add_flusher Flush_later Half_second s)\<lparr>lh_task := Some (lh_next s)\<rparr>)"

text \<open>\<open>user_turn_done.set()\<close> wakes every consultation that waits for it.\<close>

definition user_finished :: "live_history \<Rightarrow> live_history" where
  "user_finished s = s\<lparr>lh_user_done := True,
     lh_flushers := dict_map (\<lambda>(k, st). (k, if st = Waits_user then Wants_lock else st)) (lh_flushers s)\<rparr>"

definition close_turn_of :: "string \<Rightarrow> live_history \<Rightarrow> live_history" where
  "close_turn_of role s = (let s = s\<lparr>lh_turns := dict_pop role (lh_turns s)\<rparr> in if role = ''user'' then user_finished s else s)"

text \<open>\<open>_end_turn\<close> once the base class has ended the turn; an ended turn without an ID would raise a \<open>KeyError\<close>.\<close>

definition end_turn :: "string \<Rightarrow> string \<Rightarrow> live_history \<Rightarrow> live_history" where
  "end_turn role said s =
    (if said = [] then close_turn_of role s
     else case dict_get (lh_turns s) role of
       None \<Rightarrow> s
     | Some t \<Rightarrow> close_turn_of role (send_snapshot role said True
         (start_task (s\<lparr>lh_fragments := lh_fragments s @ [\<lparr> fr_id = t, fr_role = role, fr_text = said \<rparr>]\<rparr>))))"

section \<open>The history of the agent\<close>

definition batch_limit :: nat where "batch_limit = 64"

definition flusher_ends :: "nat \<Rightarrow> live_history \<Rightarrow> live_history" where
  "flusher_ends k s = s\<lparr>lh_flushers := dict_pop k (lh_flushers s), lh_lock := (if lh_lock s = Some k then None else lh_lock s)\<rparr>"

text \<open>\<open>flush_transcript\<close> with the lock: to the next request, or to its end; the backend is consulted right after it.\<close>

definition flush_loop :: "nat \<Rightarrow> flush_kind \<Rightarrow> live_history \<Rightarrow> live_history" where
  "flush_loop k kind s =
    (if lh_fragments s = [] then flusher_ends k (s\<lparr>lh_consulted := lh_consulted s + (if kind = Flush_consult then 1 else 0)\<rparr>)
     else let batch = take batch_limit (lh_fragments s) in
       s\<lparr>lh_lock := Some k, lh_flushers := dict_put k (kind, Records batch) (lh_flushers s), lh_sent := lh_sent s @ [batch]\<rparr>)"

definition consult_begins :: "live_history \<Rightarrow> live_history" where
  "consult_begins s = add_flusher Flush_consult (if lh_user_done s then Wants_lock else Waits_user) s"

definition half_second_over :: "nat \<Rightarrow> live_history \<Rightarrow> live_history" where
  "half_second_over k s = (case dict_get (lh_flushers s) k of
     Some (kind, Half_second) \<Rightarrow> s\<lparr>lh_flushers := dict_put k (kind, Wants_lock) (lh_flushers s)\<rparr>
   | _ \<Rightarrow> s)"

definition lock_taken :: "nat \<Rightarrow> live_history \<Rightarrow> live_history" where
  "lock_taken k s = (case dict_get (lh_flushers s) k of
     Some (kind, Wants_lock) \<Rightarrow> if lh_lock s = None then flush_loop k kind s else s
   | _ \<Rightarrow> s)"

text \<open>A request was answered, or raised; \<open>_flush_later\<close> closes the session then.\<close>

definition record_ends :: "nat \<Rightarrow> bool \<Rightarrow> live_history \<Rightarrow> live_history" where
  "record_ends k ok s = (case dict_get (lh_flushers s) k of
     Some (kind, Records batch) \<Rightarrow>
       if ok then flush_loop k kind (s\<lparr>lh_fragments := drop (length batch) (lh_fragments s), lh_saved := lh_saved s @ batch\<rparr>)
       else flusher_ends k (s\<lparr>lh_closing := lh_closing s \<or> kind = Flush_later\<rparr>)
   | _ \<Rightarrow> s)"

text \<open>A consultation is cancelled, or the end of the session has waited long enough.\<close>

definition flusher_cancelled :: "nat \<Rightarrow> live_history \<Rightarrow> live_history" where
  "flusher_cancelled k s = (case dict_get (lh_flushers s) k of
     Some (kind, _) \<Rightarrow> if kind = Flush_later then s else flusher_ends k s
   | None \<Rightarrow> s)"

definition finish_begins :: "live_history \<Rightarrow> live_history" where
  "finish_begins s = s\<lparr>lh_finishing := True\<rparr>"

definition finish_flushes :: "live_history \<Rightarrow> live_history" where
  "finish_flushes s = add_flusher Flush_final Wants_lock s"

section \<open>The context of a session\<close>

definition live_instructions :: string where
  "live_instructions = ''Handle casual voice conversation naturally. Consult the backend for personal memory, ''
     @ ''context you lack, deeper reasoning and all actions. Never claim an action succeeded without ''
     @ ''its backend result. Backend results are context for your spoken reply, not another voice. ''
     @ ''If interrupted, listen to the correction. An action may continue after speech stops. ''
     @ ''Do not repeat an action already completed.''"

definition developer :: "json \<Rightarrow> bool" where
  "developer m \<longleftrightarrow> is_obj m \<and> jget m ''role'' = Some (JStr ''developer'')"

text \<open>A physical device takes trailing developer messages as instructions; a message that is no object raises.\<close>

definition physical_messages :: "json list \<Rightarrow> json list option" where
  "physical_messages ms =
    (let trailing = rev (takeWhile developer (rev ms)); before = rev (dropWhile developer (rev ms)) in
     if before \<noteq> [] \<and> \<not> is_obj (last before) then None
     else Some (map (put_key ''role'' (JStr ''system'')) trailing @ before))"

definition live_context :: "bool \<Rightarrow> json \<Rightarrow> json list option" where
  "live_context physical bootstrap =
    (case (get_or bootstrap ''instructions'' (JStr []), get_or bootstrap ''messages'' (JList [])) of
       (JStr i, JList ms) \<Rightarrow>
         if length i > 16000 then None
         else map_option (\<lambda>ms. JObj [(''role'', JStr ''system''), (''content'', JStr (live_instructions @ ''\<newline>'' @ i))] # ms)
           (if physical then physical_messages ms else Some ms)
     | _ \<Rightarrow> None)"

section \<open>Runs\<close>

datatype live_event = Open_turn string | Append_turn string string | End_turn string string | Relay_runs relay_event
  | Consult_begins | Half_second_over nat | Lock_taken nat | Record_ends nat bool | Flusher_cancelled nat | Finish_begins | Finish_flushes

fun live_step :: "live_event \<Rightarrow> live_history \<Rightarrow> live_history" where
  "live_step (Open_turn role) s = open_turn role s"
| "live_step (Append_turn role said) s = send_snapshot role said False s"
| "live_step (End_turn role said) s = end_turn role said s"
| "live_step (Relay_runs ev) s = relays ev s"
| "live_step Consult_begins s = consult_begins s"
| "live_step (Half_second_over k) s = half_second_over k s"
| "live_step (Lock_taken k) s = lock_taken k s"
| "live_step (Record_ends k ok) s = record_ends k ok s"
| "live_step (Flusher_cancelled k) s = flusher_cancelled k s"
| "live_step Finish_begins s = finish_begins s"
| "live_step Finish_flushes s = finish_flushes s"

definition live_run :: "live_event list \<Rightarrow> live_history \<Rightarrow> live_history" where
  "live_run evs s = fold live_step evs s"

lemma live_run_simps [simp]: "live_run [] s = s" "live_run (ev # evs) s = live_run evs (live_step ev s)"
  by (simp_all add: live_run_def)


section \<open>Invariants\<close>

abbreviation all_fragments :: "live_history \<Rightarrow> fragment list" where "all_fragments s \<equiv> lh_saved s @ lh_fragments s"

abbreviation said_by :: "fragment \<Rightarrow> string \<times> string" where "said_by f \<equiv> (fr_role f, fr_text f)"

text \<open>What was said: the turns that ended with a text, in the order they ended\<close>

fun spoken_by :: "live_event \<Rightarrow> live_history \<Rightarrow> (string \<times> string) list" where
  "spoken_by (End_turn role said) s = (if said \<noteq> [] \<and> dict_get (lh_turns s) role \<noteq> None then [(role, said)] else [])"
| "spoken_by _ s = []"

fun spoken :: "live_event list \<Rightarrow> live_history \<Rightarrow> (string \<times> string) list" where
  "spoken [] s = []"
| "spoken (ev # evs) s = spoken_by ev s @ spoken evs (live_step ev s)"

definition ids_ok :: "live_history \<Rightarrow> bool" where
  "ids_ok s \<longleftrightarrow> distinct (map fr_id (all_fragments s)) \<and> fr_id ` set (all_fragments s) \<subseteq> turn_id s ` {..lh_sequence s}
   \<and> (\<forall>role t. dict_get (lh_turns s) role = Some t \<longrightarrow> t \<in> turn_id s ` {..lh_sequence s} \<and> t \<notin> fr_id ` set (all_fragments s)
        \<and> (\<forall>role'. dict_get (lh_turns s) role' = Some t \<longrightarrow> role' = role))"

definition batch_ok :: "fragment list \<Rightarrow> live_history \<Rightarrow> bool" where
  "batch_ok b s \<longleftrightarrow> b \<noteq> [] \<and> length b \<le> batch_limit \<and> prefix b (lh_fragments s)"

definition recording :: "live_history \<Rightarrow> nat \<Rightarrow> fragment list option" where
  "recording s k = (case dict_get (lh_flushers s) k of Some (_, Records b) \<Rightarrow> Some b | _ \<Rightarrow> None)"

definition sent_ok :: "live_history \<Rightarrow> bool" where
  "sent_ok s \<longleftrightarrow> (\<forall>b \<in> set (lh_sent s). b \<noteq> [] \<and> length b \<le> batch_limit \<and> sublist b (all_fragments s))"

definition lock_held :: "live_history \<Rightarrow> bool" where
  "lock_held s \<longleftrightarrow> (case lh_lock s of None \<Rightarrow> recording s = Map.empty | Some k \<Rightarrow> \<exists>b. recording s = [k \<mapsto> b] \<and> batch_ok b s)"

definition flushing_ok :: "live_history \<Rightarrow> bool" where
  "flushing_ok s \<longleftrightarrow> lock_held s \<and> sent_ok s"

lemma held_batch: "flushing_ok s \<Longrightarrow> recording s k = Some b \<Longrightarrow> lh_lock s = Some k \<and> batch_ok b s \<and> recording s = [k \<mapsto> b]"
  by (auto simp: flushing_ok_def lock_held_def split: option.splits if_splits)

lemma flushing_ok_I:
  assumes "flushing_ok s" "recording s' = recording s" "lh_lock s' = lh_lock s" "lh_sent s' = lh_sent s" "lh_saved s' = lh_saved s"
    "lh_fragments s' = lh_fragments s"
  shows "flushing_ok s'"
  using assms by (simp add: flushing_ok_def lock_held_def batch_ok_def sent_ok_def split: option.splits)

definition task_ok :: "live_history \<Rightarrow> bool" where
  "task_ok s \<longleftrightarrow> (lh_fragments s \<noteq> [] \<and> \<not> lh_finishing s \<and> \<not> lh_closing s \<longrightarrow> task_alive s)
   \<and> (\<forall>k kind. lh_task s = Some k \<longrightarrow> dict_get (lh_flushers s) k \<noteq> Some (kind, Waits_user)
        \<and> (\<forall>st. dict_get (lh_flushers s) k = Some (kind, st) \<longrightarrow> kind = Flush_later))
   \<and> (\<forall>k. lh_task s = Some k \<longrightarrow> k < lh_next s) \<and> (\<forall>k. lh_next s \<le> k \<longrightarrow> dict_get (lh_flushers s) k = None)"

definition history_ok :: "(string \<times> string) list \<Rightarrow> live_history \<Rightarrow> bool" where
  "history_ok sp s \<longleftrightarrow> map said_by (all_fragments s) = sp \<and> ids_ok s \<and> flushing_ok s \<and> task_ok s"

lemma turn_id_inj: "turn_id s m = turn_id s n \<longleftrightarrow> m = n"
  using nat_text_inj [of "int m" "int n"] by (auto simp: turn_id_def)

lemma task_alive_iff: "task_alive s \<longleftrightarrow> (\<exists>k e. lh_task s = Some k \<and> dict_get (lh_flushers s) k = Some e)"
  by (auto simp: task_alive_def split: option.splits)

subsection \<open>Identities\<close>

lemma ids_fields [simp]:
  "ids_ok (s\<lparr>lh_user_done := a\<rparr>) = ids_ok s" "ids_ok (s\<lparr>lh_finishing := a\<rparr>) = ids_ok s" "ids_ok (s\<lparr>lh_lock := l\<rparr>) = ids_ok s"
  "ids_ok (s\<lparr>lh_task := l\<rparr>) = ids_ok s" "ids_ok (s\<lparr>lh_flushers := d\<rparr>) = ids_ok s" "ids_ok (s\<lparr>lh_next := n\<rparr>) = ids_ok s"
  "ids_ok (s\<lparr>lh_relay := r\<rparr>) = ids_ok s" "ids_ok (s\<lparr>lh_closing := a\<rparr>) = ids_ok s" "ids_ok (s\<lparr>lh_sent := bs\<rparr>) = ids_ok s"
  "ids_ok (s\<lparr>lh_consulted := n\<rparr>) = ids_ok s"
  by (simp_all add: ids_ok_def turn_id_def)

lemma ids_simps [simp]:
  "ids_ok (relays ev s) = ids_ok s" "ids_ok (send_snapshot role said final s) = ids_ok s" "ids_ok (add_flusher kind st s) = ids_ok s"
  "ids_ok (start_task s) = ids_ok s" "ids_ok (user_finished s) = ids_ok s" "ids_ok (flusher_ends k s) = ids_ok s"
  "ids_ok (flush_loop k kind s) = ids_ok s" "ids_ok (half_second_over k s) = ids_ok s" "ids_ok (lock_taken k s) = ids_ok s"
  "ids_ok (consult_begins s) = ids_ok s" "ids_ok (flusher_cancelled k s) = ids_ok s" "ids_ok (finish_begins s) = ids_ok s"
  "ids_ok (finish_flushes s) = ids_ok s"
  by (auto simp: relays_def send_snapshot_def add_flusher_def start_task_def user_finished_def flusher_ends_def flush_loop_def half_second_over_def
    lock_taken_def consult_begins_def flusher_cancelled_def finish_begins_def finish_flushes_def Let_def split: option.splits flush_state.splits prod.splits)

lemma ids_open_turn:
  assumes "ids_ok s" shows "ids_ok (open_turn role s)"
proof -
  have t: "turn_id (open_turn role s) = turn_id s" by (simp add: open_turn_def turn_id_def fun_eq_iff)
  have new: "turn_id s (lh_sequence s + 1) \<notin> turn_id s ` {..lh_sequence s}" by (auto simp: turn_id_inj)
  have mono: "turn_id s ` {..lh_sequence s} \<subseteq> turn_id s ` {..lh_sequence s + 1}" by auto
  show ?thesis using assms new mono unfolding ids_ok_def t
    by (auto simp: open_turn_def split: if_splits)
qed

lemma ids_close: "ids_ok s \<Longrightarrow> ids_ok (close_turn_of role s)"
  by (auto simp: close_turn_of_def Let_def ids_ok_def turn_id_def user_finished_def split: if_splits)

lemma ids_cong:
  "lh_session s' = lh_session s \<Longrightarrow> lh_sequence s' = lh_sequence s \<Longrightarrow> lh_turns s' = lh_turns s \<Longrightarrow> lh_saved s' = lh_saved s
   \<Longrightarrow> lh_fragments s' = lh_fragments s \<Longrightarrow> ids_ok s' = ids_ok s"
  by (simp add: ids_ok_def turn_id_def)

lemma start_fields [simp]:
  "lh_session (start_task s) = lh_session s" "lh_sequence (start_task s) = lh_sequence s" "lh_turns (start_task s) = lh_turns s"
  "lh_saved (start_task s) = lh_saved s" "lh_fragments (start_task s) = lh_fragments s" "lh_lock (start_task s) = lh_lock s"
  "lh_sent (start_task s) = lh_sent s" "lh_finishing (start_task s) = lh_finishing s" "lh_closing (start_task s) = lh_closing s"
  "lh_consulted (start_task s) = lh_consulted s"
  by (simp_all add: start_task_def add_flusher_def)

lemma send_fields [simp]:
  "lh_session (send_snapshot r t f s) = lh_session s" "lh_sequence (send_snapshot r t f s) = lh_sequence s" "lh_turns (send_snapshot r t f s) = lh_turns s"
  "lh_saved (send_snapshot r t f s) = lh_saved s" "lh_fragments (send_snapshot r t f s) = lh_fragments s" "lh_lock (send_snapshot r t f s) = lh_lock s"
  "lh_sent (send_snapshot r t f s) = lh_sent s" "lh_finishing (send_snapshot r t f s) = lh_finishing s" "lh_task (send_snapshot r t f s) = lh_task s"
  "lh_flushers (send_snapshot r t f s) = lh_flushers s" "lh_next (send_snapshot r t f s) = lh_next s" "lh_consulted (send_snapshot r t f s) = lh_consulted s"
  by (simp_all add: send_snapshot_def relays_def Let_def split: option.splits)

lemma close_fields [simp]:
  "lh_session (close_turn_of r s) = lh_session s" "lh_sequence (close_turn_of r s) = lh_sequence s" "lh_turns (close_turn_of r s) = dict_pop r (lh_turns s)"
  "lh_saved (close_turn_of r s) = lh_saved s" "lh_fragments (close_turn_of r s) = lh_fragments s" "lh_lock (close_turn_of r s) = lh_lock s"
  "lh_sent (close_turn_of r s) = lh_sent s" "lh_finishing (close_turn_of r s) = lh_finishing s" "lh_task (close_turn_of r s) = lh_task s"
  "lh_next (close_turn_of r s) = lh_next s" "lh_closing (close_turn_of r s) = lh_closing s" "lh_consulted (close_turn_of r s) = lh_consulted s"
  by (simp_all add: close_turn_of_def user_finished_def Let_def)

lemma ids_end_turn:
  assumes "ids_ok s" shows "ids_ok (end_turn role said s)"
proof (cases "said = [] \<or> dict_get (lh_turns s) role = None")
  case True
  then show ?thesis using assms ids_close by (auto simp: end_turn_def)
next
  case False
  then obtain t where t: "dict_get (lh_turns s) role = Some t" "said \<noteq> []" by auto
  let ?f = "\<lparr> fr_id = t, fr_role = role, fr_text = said \<rparr>"
  let ?s = "s\<lparr>lh_fragments := lh_fragments s @ [?f], lh_turns := dict_pop role (lh_turns s)\<rparr>"
  have n: "t \<in> turn_id s ` {..lh_sequence s}" "t \<notin> fr_id ` set (all_fragments s)" "\<And>role'. dict_get (lh_turns s) role' = Some t \<Longrightarrow> role' = role"
    using assms t(1) unfolding ids_ok_def by blast+
  have e: "turn_id ?s = turn_id s" by (simp add: turn_id_def fun_eq_iff)
  have "ids_ok ?s" using assms n unfolding ids_ok_def e by (auto dest: n(3))
  moreover have "ids_ok (end_turn role said s) = ids_ok ?s" using t by (intro ids_cong) (simp_all add: end_turn_def)
  ultimately show ?thesis by simp
qed

lemma ids_record_ends:
  assumes "ids_ok s" "flushing_ok s" shows "ids_ok (record_ends k ok s)"
proof (cases "\<exists>kind b. dict_get (lh_flushers s) k = Some (kind, Records b)")
  case True
  then obtain kind b where b: "dict_get (lh_flushers s) k = Some (kind, Records b)" by blast
  then have "recording s k = Some b" by (simp add: recording_def)
  then have "prefix b (lh_fragments s)" using held_batch [OF assms(2)] by (simp add: batch_ok_def)
  then have "lh_saved s @ b @ drop (length b) (lh_fragments s) = all_fragments s" by (auto elim!: prefixE)
  then have "ids_ok (s\<lparr>lh_fragments := drop (length b) (lh_fragments s), lh_saved := lh_saved s @ b\<rparr>)"
    using assms(1) by (simp add: ids_ok_def turn_id_def)
  then show ?thesis using assms(1) b by (simp add: record_ends_def)
qed (use assms in \<open>auto simp: record_ends_def split: option.splits flush_state.splits\<close>)

subsection \<open>The lock and its batch\<close>

lemma flushing_fields [simp]:
  "flushing_ok (s\<lparr>lh_user_done := a\<rparr>) = flushing_ok s" "flushing_ok (s\<lparr>lh_finishing := a\<rparr>) = flushing_ok s" "flushing_ok (s\<lparr>lh_turns := d\<rparr>) = flushing_ok s"
  "flushing_ok (s\<lparr>lh_task := l\<rparr>) = flushing_ok s" "flushing_ok (s\<lparr>lh_next := n\<rparr>) = flushing_ok s" "flushing_ok (s\<lparr>lh_relay := r\<rparr>) = flushing_ok s"
  "flushing_ok (s\<lparr>lh_closing := a\<rparr>) = flushing_ok s" "flushing_ok (s\<lparr>lh_consulted := n\<rparr>) = flushing_ok s" "flushing_ok (s\<lparr>lh_sequence := n\<rparr>) = flushing_ok s"
  by (simp_all add: flushing_ok_def lock_held_def batch_ok_def sent_ok_def recording_def fun_eq_iff cong: option.case_cong)

lemma recording_put:
  "recording (s\<lparr>lh_flushers := dict_put k (kind, st) (lh_flushers s)\<rparr>) = (recording s)(k := (case st of Records b \<Rightarrow> Some b | _ \<Rightarrow> None))"
  by (simp add: recording_def fun_eq_iff)

lemma recording_pop: "recording (s\<lparr>lh_flushers := dict_pop k (lh_flushers s)\<rparr>) = (recording s)(k := None)"
  by (simp add: recording_def fun_eq_iff)

lemma recording_fields [simp]:
  "recording (s\<lparr>lh_lock := l\<rparr>) = recording s" "recording (s\<lparr>lh_sent := bs\<rparr>) = recording s" "recording (s\<lparr>lh_fragments := fs\<rparr>) = recording s"
  "recording (s\<lparr>lh_saved := fs\<rparr>) = recording s" "recording (s\<lparr>lh_consulted := n\<rparr>) = recording s" "recording (s\<lparr>lh_closing := x\<rparr>) = recording s"
  by (simp_all add: recording_def fun_eq_iff)

lemma flushing_put:
  assumes "flushing_ok s" "\<forall>b. st \<noteq> Records b" "recording s k = None"
  shows "flushing_ok (s\<lparr>lh_flushers := dict_put k (kind, st) (lh_flushers s)\<rparr>)"
  by (rule flushing_ok_I [OF assms(1)]) (use assms(2,3) in \<open>simp_all add: recording_put fun_upd_idem split: flush_state.splits\<close>)

lemma flushing_add:
  assumes "flushing_ok s" "task_ok s" "\<forall>b. st \<noteq> Records b" shows "flushing_ok (add_flusher kind st s)"
proof -
  have "recording s (lh_next s) = None" using assms(2) by (simp add: task_ok_def recording_def)
  from flushing_put [OF assms(1,3) this, of kind] show ?thesis by (simp add: add_flusher_def)
qed

lemma flushing_start: "flushing_ok s \<Longrightarrow> task_ok s \<Longrightarrow> flushing_ok (start_task s)"
  using flushing_add [of s Half_second Flush_later] by (simp add: start_task_def)

lemma flushing_user_finished: "flushing_ok s \<Longrightarrow> flushing_ok (user_finished s)"
  by (rule flushing_ok_I) (auto simp: recording_def user_finished_def fun_eq_iff split: option.splits prod.splits flush_state.splits)

lemma flushing_close: "flushing_ok s \<Longrightarrow> flushing_ok (close_turn_of role s)"
  by (simp add: close_turn_of_def Let_def flushing_user_finished)

lemma flushing_send: "flushing_ok (send_snapshot role said final s) = flushing_ok s"
  by (simp add: send_snapshot_def relays_def Let_def split: option.splits)

lemma sublist_more: "sublist xs ys \<Longrightarrow> sublist xs (ys @ zs)"
  by (meson sublist_appendI sublist_append_rightI sublist_order.order.trans)

lemma flushing_more: "flushing_ok s \<Longrightarrow> flushing_ok (s\<lparr>lh_fragments := lh_fragments s @ fs\<rparr>)"
  using sublist_more [of _ "all_fragments s" fs]
  by (auto simp: flushing_ok_def lock_held_def batch_ok_def sent_ok_def split: option.splits)

lemma flushing_ends:
  assumes "flushing_ok s" shows "flushing_ok (flusher_ends k s)"
proof -
  have "recording (flusher_ends k s) = (recording s)(k := None)" by (simp add: recording_def flusher_ends_def fun_eq_iff)
  then show ?thesis using assms
    by (auto simp: flushing_ok_def lock_held_def batch_ok_def sent_ok_def flusher_ends_def split: option.splits)
qed

lemma prefix_take: "prefix (take n xs) xs"
  by (metis append_take_drop_id prefixI)

lemma flushing_loop:
  assumes "sent_ok s" "recording s = Map.empty \<and> lh_lock s = None \<or> (\<exists>b. recording s = [k \<mapsto> b]) \<and> lh_lock s = Some k"
  shows "flushing_ok (flush_loop k kind s)"
proof (cases "lh_fragments s = []")
  case True
  let ?s = "s\<lparr>lh_consulted := lh_consulted s + (if kind = Flush_consult then 1 else 0)\<rparr>"
  have "recording (flusher_ends k ?s) = (recording s)(k := None)"
    by (simp add: recording_def flusher_ends_def fun_eq_iff)
  then have "recording (flusher_ends k ?s) = Map.empty" using assms(2) by auto
  moreover have "lh_lock (flusher_ends k ?s) = None" using assms(2) by (auto simp: flusher_ends_def)
  moreover have "sent_ok (flusher_ends k ?s)" using assms(1) by (simp add: sent_ok_def flusher_ends_def)
  ultimately have "flushing_ok (flusher_ends k ?s)" by (simp add: flushing_ok_def lock_held_def)
  then show ?thesis using True by (simp only: flush_loop_def if_True simp_thms)
next
  case False
  let ?b = "take batch_limit (lh_fragments s)"
  have b: "?b \<noteq> []" "length ?b \<le> batch_limit" "prefix ?b (lh_fragments s)" using False by (simp_all add: batch_limit_def prefix_take)
  have sub: "sublist ?b (all_fragments s)" by (rule sublist_order.order.trans [OF prefix_imp_sublist [OF b(3)] sublist_append_leftI])
  have "recording (flush_loop k kind s) = (recording s)(k \<mapsto> ?b)" using False by (simp add: flush_loop_def Let_def recording_def fun_eq_iff)
  then have "recording (flush_loop k kind s) = [k \<mapsto> ?b]" using assms(2) by auto
  moreover have "sent_ok (flush_loop k kind s)" using assms(1) b sub False by (auto simp: sent_ok_def flush_loop_def Let_def)
  moreover have "lh_lock (flush_loop k kind s) = Some k" "batch_ok ?b (flush_loop k kind s)"
    using False b by (simp_all add: batch_ok_def flush_loop_def Let_def)
  ultimately show ?thesis unfolding flushing_ok_def lock_held_def by auto
qed

lemma record_moves:
  assumes "flushing_ok s" "recording s k = Some b"
  shows "lh_saved s @ b @ drop (length b) (lh_fragments s) = all_fragments s"
  using held_batch [OF assms] by (auto simp: batch_ok_def elim!: prefixE)

lemma flushing_record_ends:
  assumes "flushing_ok s" shows "flushing_ok (record_ends k ok s)"
proof (cases "recording s k")
  case (Some b)
  then obtain kind where b: "dict_get (lh_flushers s) k = Some (kind, Records b)"
    by (auto simp: recording_def split: option.splits prod.splits flush_state.splits)
  note h = held_batch [OF assms Some] record_moves [OF assms Some]
  have "flushing_ok (flush_loop k kind (s\<lparr>lh_fragments := drop (length b) (lh_fragments s), lh_saved := lh_saved s @ b\<rparr>))"
    using assms h by (intro flushing_loop) (auto simp: flushing_ok_def sent_ok_def)
  then show ?thesis using b assms flushing_ends by (simp add: record_ends_def)
next
  case None
  then have "record_ends k ok s = s" by (auto simp: record_ends_def recording_def split: option.splits prod.splits flush_state.splits)
  then show ?thesis using assms by simp
qed


subsection \<open>The task\<close>

lemmas task_defs = task_ok_def task_alive_iff

lemma task_fields:
  "task_ok s \<Longrightarrow> task_ok (s\<lparr>lh_user_done := a\<rparr>)" "task_ok s \<Longrightarrow> task_ok (s\<lparr>lh_turns := d\<rparr>)" "task_ok s \<Longrightarrow> task_ok (s\<lparr>lh_relay := r\<rparr>)"
  "task_ok s \<Longrightarrow> task_ok (s\<lparr>lh_relay := r, lh_closing := lh_closing s \<or> c\<rparr>)" "task_ok s \<Longrightarrow> task_ok (s\<lparr>lh_finishing := True\<rparr>)"
  "task_ok s \<Longrightarrow> task_ok (s\<lparr>lh_saved := fs\<rparr>)" "task_ok s \<Longrightarrow> task_ok (s\<lparr>lh_consulted := n\<rparr>)" "task_ok s \<Longrightarrow> task_ok (s\<lparr>lh_sequence := n\<rparr>)"
  by (auto simp: task_defs)

lemma task_open: "task_ok s \<Longrightarrow> task_ok (open_turn role s)"
  by (auto simp: task_defs open_turn_def)

lemma task_relays: "task_ok s \<Longrightarrow> task_ok (relays ev s)"
  by (simp add: relays_def Let_def task_fields(4))

lemma task_send: "task_ok s \<Longrightarrow> task_ok (send_snapshot role said final s)"
  by (simp add: send_snapshot_def task_relays split: option.splits)

lemma task_add: "task_ok s \<Longrightarrow> task_ok (add_flusher kind st s)"
  by (auto simp: task_ok_def task_alive_def add_flusher_def split: option.splits)

lemma task_start: "task_ok s \<Longrightarrow> task_ok (start_task (s\<lparr>lh_fragments := fs\<rparr>))"
  by (auto simp: task_ok_def task_alive_iff start_task_def add_flusher_def)

lemma task_user_finished: "task_ok s \<Longrightarrow> task_ok (user_finished s)"
  by (auto simp: task_ok_def task_alive_iff user_finished_def split: if_splits)

lemma task_close: "task_ok s \<Longrightarrow> task_ok (close_turn_of role s)"
  by (simp add: close_turn_of_def Let_def task_user_finished task_fields)

lemma task_end_turn: "task_ok s \<Longrightarrow> task_ok (end_turn role said s)"
  by (simp add: end_turn_def task_close task_send task_start split: option.splits)

lemma task_half_second: "task_ok s \<Longrightarrow> task_ok (half_second_over k s)"
  by (auto simp: task_ok_def task_alive_iff half_second_over_def split: option.splits flush_state.splits prod.splits)

lemma task_flusher_ends:
  assumes "task_ok s" "lh_fragments s = [] \<or> lh_closing s \<or> lh_finishing s \<or> (\<exists>kind st. dict_get (lh_flushers s) k = Some (kind, st) \<and> kind \<noteq> Flush_later)"
  shows "task_ok (flusher_ends k s)"
proof -
  have "\<not> lh_closing s \<Longrightarrow> \<not> lh_finishing s \<Longrightarrow> lh_fragments s \<noteq> [] \<Longrightarrow> task_alive (flusher_ends k s)"
  proof -
    assume a: "\<not> lh_closing s" "\<not> lh_finishing s" "lh_fragments s \<noteq> []"
    then obtain j e where j: "lh_task s = Some j" "dict_get (lh_flushers s) j = Some e" using assms(1) by (auto simp: task_ok_def task_alive_iff)
    moreover obtain kind st where "dict_get (lh_flushers s) k = Some (kind, st)" "kind \<noteq> Flush_later" using assms(2) a by blast
    ultimately have "j \<noteq> k" using assms(1) by (auto simp: task_ok_def)
    then show ?thesis using j by (simp add: task_alive_iff flusher_ends_def)
  qed
  then show ?thesis using assms(1) by (auto simp: task_ok_def flusher_ends_def)
qed

lemma task_loop:
  assumes "task_ok s" "dict_get (lh_flushers s) k = Some (kind, st)" "st \<noteq> Waits_user" shows "task_ok (flush_loop k kind s)"
proof (cases "lh_fragments s = []")
  case True
  then show ?thesis using task_flusher_ends [of "s\<lparr>lh_consulted := n\<rparr>" k for n] task_fields(7) [OF assms(1)] by (simp add: flush_loop_def)
next
  case False
  then show ?thesis using assms by (auto simp: task_ok_def task_alive_iff flush_loop_def Let_def)
qed

lemma task_lock_taken: "task_ok s \<Longrightarrow> task_ok (lock_taken k s)"
  using task_loop by (auto simp: lock_taken_def split: option.splits flush_state.splits prod.splits)

lemma task_record_ends:
  assumes "task_ok s" shows "task_ok (record_ends k ok s)"
proof -
  have more: "task_ok (s\<lparr>lh_fragments := drop n (lh_fragments s), lh_saved := fs\<rparr>)" for n fs
    using assms by (auto simp: task_ok_def task_alive_iff)
  have "task_ok (flush_loop k kind (s\<lparr>lh_fragments := drop n (lh_fragments s), lh_saved := fs\<rparr>))"
    if "dict_get (lh_flushers s) k = Some (kind, Records b)" for n fs kind b
    using that by (intro task_loop [where st = "Records b"] more) simp_all
  moreover have "task_ok (flusher_ends k (s\<lparr>lh_closing := lh_closing s \<or> kind = Flush_later\<rparr>))"
    if "dict_get (lh_flushers s) k = Some (kind, Records b)" for kind b
  proof (rule task_flusher_ends)
    show "task_ok (s\<lparr>lh_closing := lh_closing s \<or> kind = Flush_later\<rparr>)" using assms by (auto simp: task_ok_def task_alive_iff)
  qed (use that in auto)
  ultimately show ?thesis using assms by (auto simp: record_ends_def split: option.splits flush_state.splits prod.splits)
qed

lemma task_cancelled: "task_ok s \<Longrightarrow> task_ok (flusher_cancelled k s)"
  using task_flusher_ends by (auto simp: flusher_cancelled_def split: option.splits)


subsection \<open>Steps and runs\<close>

lemma loop_fields [simp]: "lh_saved (flush_loop k kind s) = lh_saved s" "lh_fragments (flush_loop k kind s) = lh_fragments s"
  by (simp_all add: flush_loop_def flusher_ends_def Let_def)

lemma spoken_step:
  assumes "ids_ok s" "flushing_ok s"
  shows "map said_by (all_fragments (live_step ev s)) = map said_by (all_fragments s) @ spoken_by ev s"
proof (cases ev)
  case (End_turn role said)
  then show ?thesis by (auto simp: end_turn_def)
next
  case (Record_ends k ok)
  show ?thesis
  proof (cases "recording s k")
    case (Some b)
    then obtain kind where b: "dict_get (lh_flushers s) k = Some (kind, Records b)"
      by (auto simp: recording_def split: option.splits prod.splits flush_state.splits)
    have "all_fragments (live_step ev s) = all_fragments s"
      using record_moves [OF assms(2) Some] b Record_ends by (simp add: record_ends_def flusher_ends_def)
    then show ?thesis using Record_ends by simp
  next
    case None
    then have "record_ends k ok s = s" by (auto simp: record_ends_def recording_def split: option.splits prod.splits flush_state.splits)
    then show ?thesis using Record_ends by simp
  qed
qed (auto simp: open_turn_def relays_def Let_def consult_begins_def add_flusher_def half_second_over_def lock_taken_def flush_loop_def flusher_ends_def
    flusher_cancelled_def finish_begins_def finish_flushes_def split: option.splits flush_state.splits)

lemma flushing_step:
  assumes "flushing_ok s" "task_ok s" shows "flushing_ok (live_step ev s)"
proof (cases ev)
  case (Open_turn role)
  then show ?thesis using assms by (simp add: open_turn_def)
next
  case (End_turn role said)
  have "flushing_ok (start_task (s\<lparr>lh_fragments := lh_fragments s @ fs\<rparr>))" for fs
  proof (cases "task_alive (s\<lparr>lh_fragments := lh_fragments s @ fs\<rparr>) \<or> lh_finishing s")
    case False
    then have "recording s (lh_next s) = None" using assms(2) by (simp add: task_ok_def recording_def)
    then have "flushing_ok ((s\<lparr>lh_fragments := lh_fragments s @ fs\<rparr>)\<lparr>lh_flushers := dict_put (lh_next s) (Flush_later, Half_second) (lh_flushers s)\<rparr>)"
      using flushing_put [OF flushing_more [OF assms(1), of fs], of Half_second "lh_next s" Flush_later] by simp
    then show ?thesis using False by (simp add: start_task_def add_flusher_def)
  qed (use flushing_more [OF assms(1)] in \<open>auto simp: start_task_def\<close>)
  then show ?thesis using End_turn assms by (auto simp: end_turn_def flushing_close flushing_send split: option.splits)
next
  case (Half_second_over k)
  show ?thesis
  proof (cases "\<exists>kind. dict_get (lh_flushers s) k = Some (kind, Half_second)")
    case True
    then obtain kind where "dict_get (lh_flushers s) k = Some (kind, Half_second)" by blast
    moreover from this have "recording s k = None" by (simp add: recording_def)
    ultimately show ?thesis using Half_second_over flushing_put [OF assms(1)] by (simp add: half_second_over_def)
  next
    case False
    then have "half_second_over k s = s" by (auto simp: half_second_over_def split: option.splits flush_state.splits)
    then show ?thesis using Half_second_over assms by simp
  qed
next
  case (Lock_taken k)
  have "flushing_ok (flush_loop k kind s)" if "lh_lock s = None" for kind
    by (rule flushing_loop) (use assms that in \<open>auto simp: flushing_ok_def lock_held_def\<close>)
  then show ?thesis using Lock_taken assms by (auto simp: lock_taken_def split: option.splits flush_state.splits)
next
  case (Flusher_cancelled k)
  then show ?thesis using assms flushing_ends by (auto simp: flusher_cancelled_def split: option.splits)
qed (use assms in \<open>simp_all add: flushing_send relays_def Let_def consult_begins_def flushing_add flushing_record_ends finish_begins_def finish_flushes_def\<close>)

lemma task_step: "task_ok s \<Longrightarrow> task_ok (live_step ev s)"
  by (cases ev) (simp_all add: task_open task_send task_end_turn task_relays consult_begins_def task_add task_half_second task_lock_taken task_record_ends
    task_cancelled finish_begins_def finish_flushes_def task_fields)

lemma ids_step: "ids_ok s \<Longrightarrow> flushing_ok s \<Longrightarrow> ids_ok (live_step ev s)"
  by (cases ev) (simp_all add: ids_open_turn ids_end_turn ids_record_ends)

lemma history_step:
  assumes "history_ok sp s" shows "history_ok (sp @ spoken_by ev s) (live_step ev s)"
  using assms spoken_step [of s ev] flushing_step [of s ev] task_step [of s ev] ids_step [of s ev] by (simp add: history_ok_def)

lemma history_run: "history_ok sp s \<Longrightarrow> history_ok (sp @ spoken evs s) (live_run evs s)"
proof (induction evs arbitrary: sp s)
  case (Cons ev evs)
  from Cons.IH [OF history_step [OF Cons.prems, of ev]] show ?case by simp
qed simp

lemma history_new: "history_ok [] (new_history session_id)"
  by (simp add: history_ok_def new_history_def ids_ok_def flushing_ok_def lock_held_def sent_ok_def recording_def task_ok_def dict_get_def fun_eq_iff)

lemma consulted_when_empty: "lh_consulted s < lh_consulted (live_step ev s) \<Longrightarrow> lh_fragments (live_step ev s) = []"
  by (cases ev) (auto simp: open_turn_def end_turn_def relays_def Let_def consult_begins_def add_flusher_def half_second_over_def lock_taken_def
    record_ends_def flush_loop_def flusher_ends_def flusher_cancelled_def finish_begins_def finish_flushes_def split: option.splits flush_state.splits if_splits)

text \<open>C35: The agent's history is what was said. However turns, requests, failures, cancellations and consultations
  interleave, the fragments that were acknowledged followed by those that wait are the turns that ended with a text, in
  the order they ended and each under an ID of its own; what is sent is never empty, at most 64 fragments, and a stretch
  of that history, so a batch that is sent again brings the same IDs; and whenever the backend is consulted nothing
  waits: every turn that has ended is in its history.\<close>

theorem history_is_what_was_said:
  fixes evs :: "live_event list" and session_id :: string
  defines "s \<equiv> live_run evs (new_history session_id)"
  shows "map said_by (lh_saved s @ lh_fragments s) = spoken evs (new_history session_id)
    \<and> distinct (map fr_id (lh_saved s @ lh_fragments s))
    \<and> (\<forall>b \<in> set (lh_sent s). b \<noteq> [] \<and> length b \<le> 64 \<and> sublist b (lh_saved s @ lh_fragments s))
    \<and> (lh_consulted s < lh_consulted (live_step ev s) \<longrightarrow>
         map said_by (lh_saved (live_step ev s)) = spoken (evs @ [ev]) (new_history session_id))"
proof -
  have o: "history_ok (spoken evs (new_history session_id)) s" using history_run [OF history_new] unfolding s_def by fastforce
  have spoken_append: "spoken (xs @ [ev]) t = spoken xs t @ spoken_by ev (live_run xs t)" for xs t
    by (induction xs arbitrary: t) simp_all
  have "map said_by (lh_saved (live_step ev s)) = spoken (evs @ [ev]) (new_history session_id)" if "lh_consulted s < lh_consulted (live_step ev s)"
    using history_step [OF o, of ev] consulted_when_empty [OF that] by (simp add: history_ok_def spoken_append s_def)
  with o show ?thesis by (auto simp: history_ok_def ids_ok_def flushing_ok_def sent_ok_def batch_limit_def)
qed


section \<open>Progress\<close>

fun served :: "live_event \<Rightarrow> bool" where
  "served (Half_second_over _) = True"
| "served (Lock_taken _) = True"
| "served (Record_ends _ ok) = ok"
| "served _ = False"

lemma lock_drains:
  assumes "flushing_ok s" "task_ok s" "recording s k = Some b"
  shows "\<exists>n. lh_fragments (live_run (replicate n (Record_ends k True)) s) = [] \<and> lh_saved (live_run (replicate n (Record_ends k True)) s) = all_fragments s"
  using assms
proof (induction "length (lh_fragments s)" arbitrary: s b rule: less_induct)
  case less
  obtain kind where b: "dict_get (lh_flushers s) k = Some (kind, Records b)"
    using less.prems(3) by (auto simp: recording_def split: option.splits prod.splits flush_state.splits)
  let ?r = "s\<lparr>lh_fragments := drop (length b) (lh_fragments s), lh_saved := lh_saved s @ b\<rparr>"
  let ?s = "live_step (Record_ends k True) s"
  have s: "?s = flush_loop k kind ?r" using b by (simp add: record_ends_def)
  note h = held_batch [OF less.prems(1,3)] record_moves [OF less.prems(1,3)]
  have ok: "flushing_ok ?s" "task_ok ?s" using flushing_step [OF less.prems(1,2)] task_step [OF less.prems(2)] by blast+
  show ?case
  proof (cases "drop (length b) (lh_fragments s) = []")
    case True
    then show ?thesis using h s by (intro exI [of _ 1]) simp
  next
    case False
    then have "recording ?s k = Some (take batch_limit (drop (length b) (lh_fragments s)))"
      unfolding s by (simp add: flush_loop_def Let_def recording_def)
    moreover have "length (lh_fragments ?s) < length (lh_fragments s)" using h(1) s False by (auto simp: batch_ok_def intro!: diff_less)
    ultimately obtain n where "lh_fragments (live_run (replicate n (Record_ends k True)) ?s) = []"
      "lh_saved (live_run (replicate n (Record_ends k True)) ?s) = all_fragments ?s"
      using less.hyps ok by blast
    then show ?thesis using h(2) s by (intro exI [of _ "Suc n"]) simp
  qed
qed



lemma history_is_what_was_said_witness:
  "map said_by (lh_saved (live_run [Open_turn ''user'', End_turn ''user'' ''hi'', Consult_begins, Lock_taken 1] (new_history ''s''))
     @ lh_fragments (live_run [Open_turn ''user'', End_turn ''user'' ''hi'', Consult_begins, Lock_taken 1] (new_history ''s''))) = [(''user'', ''hi'')]"
  using history_is_what_was_said [of "[Open_turn ''user'', End_turn ''user'' ''hi'', Consult_begins, Lock_taken 1]" "''s''" "Record_ends 1 True"]
  by (simp add: open_turn_def end_turn_def)

text \<open>A physical device never gets a context that ends in a request to speak, if anything precedes it.\<close>

lemma physical_context_is_quiet:
  assumes "physical_messages ms = Some out" and "out \<noteq> []"
  shows "\<not> developer (last out)"
proof -
  let ?before = "rev (dropWhile developer (rev ms))"
  have o: "out = map (put_key ''role'' (JStr ''system'')) (rev (takeWhile developer (rev ms))) @ ?before"
    using assms(1) by (simp add: physical_messages_def Let_def split: if_splits)
  show ?thesis
  proof (cases "?before = []")
    case True
    then have "\<exists>m. last out = put_key ''role'' (JStr ''system'') m" using o assms(2) by (auto simp: last_map)
    then show ?thesis by (auto simp: developer_def put_key_def dict_get_def [symmetric])
  next
    case False
    then have "last out = hd (dropWhile developer (rev ms))" using o by (simp add: last_rev)
    then show ?thesis using hd_dropWhile [of developer "rev ms"] False by simp
  qed
qed

end
