(* ===== verification/Start_Config.thy ===== *)
theory Start_Config
  imports Pairing_Audio Wire_Text
begin

text \<open>
  What the server reads when it starts: the environment, the origin of the owner (\<open>auth/owner.py\<close>), the TLS settings
  (\<open>tls.py\<close>) and \<open>config.json\<close> (\<open>config.py\<close>), with the document that the first start writes. What \<open>urlsplit\<close>,
  \<open>ipaddress\<close>, \<open>float\<close> and \<open>pathlib\<close> make of a text is a parameter; an absent answer is their \<open>ValueError\<close>.
\<close>

type_synonym env = "(string, string) dict"

record url_parts =
  up_scheme :: string
  up_netloc :: string
  up_path :: string
  up_query :: string
  up_fragment :: string
  up_host :: "string option"
  up_user :: "string option"
  up_password :: "string option"
  up_port :: "int option option"

record text_lib =
  lib_urlsplit :: "string \<Rightarrow> url_parts option"
  lib_address :: "string \<Rightarrow> (nat \<times> string) option"
  lib_network :: "string \<Rightarrow> bool"
  lib_float :: "string \<Rightarrow> json option"
  lib_join :: "string list \<Rightarrow> string"

section \<open>The environment\<close>

definition env_get :: "env \<Rightarrow> string \<Rightarrow> string \<Rightarrow> string" where
  "env_get env name fallback = (case dict_get env name of None \<Rightarrow> fallback | Some v \<Rightarrow> v)"

definition optional :: "env \<Rightarrow> string \<Rightarrow> string \<Rightarrow> string" where
  "optional env name fallback = (let v = env_get env name [] in if v = [] then fallback else v)"

text \<open>\<open>str.lower\<close> below code point 256, and \<open>int(text)\<close>\<close>

definition lower :: "string \<Rightarrow> string" where
  "lower s = map (\<lambda>c. if is_upper c \<or> char_between 192 222 c \<and> of_char c \<noteq> (215 :: nat) then char_of (of_char c + (32 :: nat)) else c) s"

fun int_groups :: "bool \<Rightarrow> int \<Rightarrow> string \<Rightarrow> int option" where
  "int_groups after_digit n [] = (if after_digit then Some n else None)"
| "int_groups after_digit n (c # cs) =
    (if is_digit c then int_groups True (10 * n + digit_value c) cs
     else if c = CHR ''_'' \<and> after_digit then int_groups False n cs else None)"

definition text_int :: "string \<Rightarrow> int option" where
  "text_int s = (case strip s of
     [] \<Rightarrow> None
   | c # cs \<Rightarrow> if c = CHR ''-'' then map_option uminus (int_groups False 0 cs)
       else if c = CHR ''+'' then int_groups False 0 cs else int_groups False 0 (c # cs))"

fun split_text :: "char \<Rightarrow> string \<Rightarrow> string list" where
  "split_text sep [] = [[]]"
| "split_text sep (c # cs) = (if c = sep then [] # split_text sep cs else (c # hd (split_text sep cs)) # tl (split_text sep cs))"

section \<open>Origins\<close>

text \<open>\<open>[a-z0-9](?:[a-z0-9-]{0,61}[a-z0-9])?\<close> and \<open>[0-9]+|0x[0-9a-f]*\<close>\<close>

definition host_char :: "char \<Rightarrow> bool" where
  "host_char c \<longleftrightarrow> is_lower c \<or> is_digit c"

definition dns_label :: "string \<Rightarrow> bool" where
  "dns_label s \<longleftrightarrow> s \<noteq> [] \<and> length s \<le> 63 \<and> host_char (hd s) \<and> host_char (last s) \<and> list_all (\<lambda>c. host_char c \<or> c = CHR ''-'') s"

definition numeric_label :: "string \<Rightarrow> bool" where
  "numeric_label s \<longleftrightarrow> s \<noteq> [] \<and> list_all is_digit s \<or> take 2 s = ''0x'' \<and> list_all is_hex (drop 2 s)"

definition canonical_host :: "text_lib \<Rightarrow> string \<Rightarrow> string option" where
  "canonical_host lib host = (case lib_address lib host of
     Some (version, address) \<Rightarrow> Some (if version = 6 then ''['' @ address @ '']'' else address)
   | None \<Rightarrow>
       if numeric_label (last (split_text CHR ''.'' host)) then None
       else if length host > 253 \<or> \<not> list_all dns_label (split_text CHR ''.'' host) then None
       else Some host)"

definition given :: "string option \<Rightarrow> bool" where
  "given v \<longleftrightarrow> v \<noteq> None \<and> v \<noteq> Some []"

definition default_port :: "string \<Rightarrow> int" where
  "default_port scheme = (if scheme = ''http'' then 80 else 443)"

definition port_suffix :: "int option \<Rightarrow> string" where
  "port_suffix p = (case p of None \<Rightarrow> [] | Some n \<Rightarrow> CHR '':'' # int_text n)"

definition trusted_origin :: "text_lib \<Rightarrow> string \<Rightarrow> string \<Rightarrow> exn + string" where
  "trusted_origin lib value scheme = (case lib_urlsplit lib value of
     None \<Rightarrow> Inl ValueError
   | Some u \<Rightarrow>
       if up_scheme u \<noteq> scheme \<or> \<not> given (up_host u) \<or> given (up_user u) \<or> given (up_password u)
         \<or> up_path u \<noteq> [] \<or> up_query u \<noteq> [] \<or> up_fragment u \<noteq> [] \<or> value \<noteq> scheme @ ''://'' @ up_netloc u then Inl ValueError
       else if CHR ''%'' \<in> set (the (up_host u)) then Inl ValueError
       else (case (canonical_host lib (the (up_host u)), up_port u) of
           (Some host, Some port) \<Rightarrow>
             if up_netloc u \<noteq> host @ port_suffix port \<or> port = Some 0 \<or> port = Some (default_port scheme) then Inl ValueError
             else Inr value
         | _ \<Rightarrow> Inl ValueError))"

definition has_env :: "env \<Rightarrow> string \<Rightarrow> bool" where
  "has_env env name \<longleftrightarrow> dict_get env name \<noteq> None"

definition configured_origin :: "text_lib \<Rightarrow> env \<Rightarrow> exn + string" where
  "configured_origin lib env =
    (if has_env env ''OWNER_HTTPS_ORIGIN'' \<or> has_env env ''OWNER_TRUSTED_PROXIES'' then
       (case trusted_origin lib (env_get env ''OWNER_HTTPS_ORIGIN'' []) ''https'' of
          Inl e \<Rightarrow> Inl e
        | Inr origin \<Rightarrow> (case dict_get env ''OWNER_TRUSTED_PROXIES'' of
            None \<Rightarrow> Inr origin
          | Some raw \<Rightarrow> if list_all (\<lambda>v. lib_network lib (strip v)) (split_text CHR '','' raw) then Inr origin else Inl ValueError))
     else trusted_origin lib (env_get env ''OWNER_HTTP_ORIGIN'' ''http://localhost:8080'') ''http'')"

section \<open>TLS settings\<close>

record tls_config =
  tl_enabled :: bool
  tl_port :: int
  tl_cert :: string
  tl_key :: string
  tl_hostname :: string
  tl_acme :: bool
  tl_domain :: string
  tl_email :: string
  tl_staging :: bool
  tl_state :: string

definition no_tls :: tls_config where
  "no_tls = \<lparr> tl_enabled = False, tl_port = 8443, tl_cert = [], tl_key = [], tl_hostname = [], tl_acme = False, tl_domain = [], tl_email = [],
     tl_staging = False, tl_state = [] \<rparr>"

definition env_flag :: "env \<Rightarrow> string \<Rightarrow> bool option" where
  "env_flag env name = (let v = lower (env_get env name ''0'') in
     if v \<notin> {''0'', ''1'', ''false'', ''true'', ''no'', ''yes''} then None else Some (v \<in> {''1'', ''true'', ''yes''}))"

text \<open>\<open>(?=.{1,253}$)(?:label\.)+[a-z]{2,63}\<close> and \<open>[^\s@]+@[^\s@]+\.[^\s@]+\<close>\<close>

definition acme_domain :: "string \<Rightarrow> bool" where
  "acme_domain d \<longleftrightarrow> length d \<le> 253 \<and> length (split_text CHR ''.'' d) \<ge> 2 \<and> list_all dns_label (butlast (split_text CHR ''.'' d))
     \<and> list_all is_lower (last (split_text CHR ''.'' d)) \<and> 2 \<le> length (last (split_text CHR ''.'' d)) \<and> length (last (split_text CHR ''.'' d)) \<le> 63"

definition email_part :: "string \<Rightarrow> bool" where
  "email_part s \<longleftrightarrow> s \<noteq> [] \<and> list_all (\<lambda>c. \<not> is_space c) s"

definition acme_email :: "string \<Rightarrow> bool" where
  "acme_email s \<longleftrightarrow> (case split_text CHR ''@'' s of
     [user, host] \<Rightarrow> email_part user \<and> email_part host \<and> CHR ''.'' \<in> set (butlast (tl host))
   | _ \<Rightarrow> False)"

definition other_ports :: "env \<Rightarrow> int list option" where
  "other_ports env = (case (text_int (env_get env ''HTTP_PORT'' ''8080''), text_int (env_get env ''WS_PORT'' ''8765'')) of
     (Some a, Some b) \<Rightarrow> Some [a, b] | _ \<Rightarrow> None)"

text \<open>The certificate files: those of the settings, or those that Certbot keeps\<close>

definition certificate_files :: "text_lib \<Rightarrow> env \<Rightarrow> string \<Rightarrow> string \<Rightarrow> bool \<Rightarrow> bool \<Rightarrow> bool \<Rightarrow> (string \<times> string) option" where
  "certificate_files lib env state hostname acme staging tos =
    (let cert = env_get env ''HTTPS_CERT_FILE'' []; key = env_get env ''HTTPS_KEY_FILE'' [];
         domain = env_get env ''ACME_DOMAIN'' []; email = env_get env ''ACME_EMAIL'' [] in
     if acme then
       if cert \<noteq> [] \<or> key \<noteq> [] then None
       else if \<not> acme_domain domain \<or> hostname \<noteq> domain then None
       else if \<not> tos \<or> \<not> acme_email email \<or> starts_with ''-'' email then None
       else Some (lib_join lib [state, ''config'', ''live'', domain, ''fullchain.pem''], lib_join lib [state, ''config'', ''live'', domain, ''privkey.pem''])
     else if cert = [] \<or> key = [] \<or> domain \<noteq> [] \<or> email \<noteq> [] \<or> staging \<or> tos then None
     else Some (cert, key))"

definition enabled_tls :: "text_lib \<Rightarrow> env \<Rightarrow> string \<Rightarrow> bool \<Rightarrow> bool \<Rightarrow> bool \<Rightarrow> tls_config option" where
  "enabled_tls lib env data_dir acme staging tos = (case configured_origin lib env of
     Inl _ \<Rightarrow> None
   | Inr origin \<Rightarrow>
       if \<not> starts_with ''https://'' origin \<or> env_get env ''OWNER_TRUSTED_PROXIES'' [] \<noteq> [] then None
       else (case (text_int (env_get env ''HTTPS_PORT'' ''8443''), other_ports env) of
           (Some port, Some others) \<Rightarrow>
             if \<not> (1 \<le> port \<and> port \<le> 65535) \<or> port \<in> set others then None
             else
               let hostname = (case lib_urlsplit lib origin of None \<Rightarrow> [] | Some u \<Rightarrow> (case up_host u of None \<Rightarrow> [] | Some h \<Rightarrow> h));
                   state = lib_join lib [data_dir, ''acme'', if staging then ''staging'' else ''production''] in
               map_option (\<lambda>(cert, key). \<lparr> tl_enabled = True, tl_port = port, tl_cert = cert, tl_key = key, tl_hostname = hostname, tl_acme = acme,
                   tl_domain = env_get env ''ACME_DOMAIN'' [], tl_email = env_get env ''ACME_EMAIL'' [], tl_staging = staging, tl_state = state \<rparr>)
                 (certificate_files lib env state hostname acme staging tos)
         | _ \<Rightarrow> None))"

definition load_tls_config :: "text_lib \<Rightarrow> env \<Rightarrow> string \<Rightarrow> tls_config option" where
  "load_tls_config lib env data_dir =
    (case (env_flag env ''HTTPS_ENABLED'', env_flag env ''ACME_ROUTE53_ENABLED'', env_flag env ''ACME_STAGING'', env_flag env ''ACME_ACCEPT_TOS'') of
       (Some enabled, Some acme, Some staging, Some tos) \<Rightarrow>
         if \<not> enabled then
           if acme \<or> staging \<or> tos
             \<or> list_ex (\<lambda>n. env_get env n [] \<noteq> []) [''HTTPS_CERT_FILE'', ''HTTPS_KEY_FILE'', ''ACME_DOMAIN'', ''ACME_EMAIL'', ''HTTPS_PORT''] then None
           else Some no_tls
         else enabled_tls lib env data_dir acme staging tos
     | _ \<Rightarrow> None)"


section \<open>\<open>config.json\<close>\<close>

record server_config =
  cf_openclaw_url :: string
  cf_openclaw_token :: string
  cf_device_token :: string
  cf_data_dir :: string
  cf_stt :: "string \<times> int"
  cf_tts :: "string \<times> int"
  cf_tts_voice :: string
  cf_ws_port :: int
  cf_http_port :: int
  cf_idle_ms :: int
  cf_rt_enabled :: bool
  cf_rt_esp32 :: bool
  cf_rt_host :: string
  cf_rt_stun :: string
  cf_rt_offer :: string
  cf_rt_gain :: json
  cf_log_level :: string
  cf_tls :: tls_config
  cf_id_length :: int

text \<open>\<open>speech_env\<close> of \<open>speech/catalog.py\<close>: the name in use, the former one, the default\<close>

definition speech_env :: "env \<Rightarrow> string \<Rightarrow> string \<Rightarrow> string \<Rightarrow> string" where
  "speech_env env name former fallback = optional env name (optional env former fallback)"

fun before_colon :: "string \<Rightarrow> string \<times> string" where
  "before_colon [] = ([], [])"
| "before_colon (c # cs) = (if c = CHR '':'' then ([], cs) else (c # fst (before_colon cs), snd (before_colon cs)))"

definition parse_wyoming_url :: "string \<Rightarrow> exn + string \<times> int" where
  "parse_wyoming_url raw =
    (case before_colon (if starts_with ''tcp://'' raw then drop 6 raw else raw) of
       (host, port) \<Rightarrow> (case text_int port of None \<Rightarrow> Inl ValueError | Some n \<Rightarrow> Inr (host, n)))"

text \<open>\<open>math.isfinite\<close>: an integer that no float can hold raises an \<open>OverflowError\<close>.\<close>

definition float_limit :: int where "float_limit = 2 ^ 1024 - 2 ^ 970"

definition is_finite :: "json \<Rightarrow> exn + bool" where
  "is_finite j = (case j of
     JInt n \<Rightarrow> if \<bar>n\<bar> \<ge> float_limit then Inl OverflowError else Inr True
   | JFloat _ \<Rightarrow> Inr True
   | _ \<Rightarrow> Inr False)"

definition check :: "bool \<Rightarrow> string \<Rightarrow> exn + unit" where
  "check bad name = (if bad then Inl (ConfigError name) else Inr ())"

fun and_then :: "exn + 'a \<Rightarrow> ('a \<Rightarrow> exn + 'b) \<Rightarrow> exn + 'b" where
  "and_then (Inl e) f = Inl e"
| "and_then (Inr x) f = f x"

text \<open>A setting of a section, or of the environment; an environment value that cannot be converted is reported.\<close>

definition setting :: "env \<Rightarrow> json \<Rightarrow> string \<Rightarrow> string \<Rightarrow> string \<Rightarrow> (string \<Rightarrow> json option) \<Rightarrow> exn + json" where
  "setting env section key name fallback convert =
    (if has_key section key then Inr (jat section key)
     else case convert (optional env name fallback) of None \<Rightarrow> Inl (ConfigError name) | Some v \<Rightarrow> Inr v)"

definition as_int :: "string \<Rightarrow> json option" where "as_int s = map_option JInt (text_int s)"

definition as_flag :: "string \<Rightarrow> json option" where
  "as_flag s = (if lower s \<in> {''1'', ''true'', ''yes''} then Some (JBool True)
     else if lower s \<in> {''0'', ''false'', ''no''} then Some (JBool False) else None)"

definition log_levels :: "string list" where "log_levels = [''debug'', ''info'', ''warning'', ''error'', ''critical'']"

definition realtime_keys :: "string list" where
  "realtime_keys = [''enabled'', ''esp32_mode'', ''host'', ''stun_url'', ''offer_path'', ''output_gain_db'']"

definition bad_value :: "json \<Rightarrow> string \<Rightarrow> (json \<Rightarrow> bool) \<Rightarrow> bool" where
  "bad_value section key good \<longleftrightarrow> has_key section key \<and> \<not> good (jat section key)"


definition part :: "json \<Rightarrow> string \<Rightarrow> json" where "part data name = get_or data name (JObj [])"

definition check_sections :: "json \<Rightarrow> exn + unit" where
  "check_sections data =
     and_then (check (\<not> keys_within data [''server'', ''pairing'', ''openclaw'', ''realtime'']) ''$'') (\<lambda>_.
     and_then (check (bad_value data ''server'' is_obj) ''server'') (\<lambda>_.
     and_then (check (bad_value data ''pairing'' is_obj) ''pairing'') (\<lambda>_.
     and_then (check (bad_value data ''openclaw'' is_obj) ''openclaw'') (\<lambda>_.
     check (bad_value data ''realtime'' is_obj) ''realtime''))))"

definition check_server :: "json \<Rightarrow> exn + unit" where
  "check_server server =
     and_then (check (bad_value server ''ws_port'' (\<lambda>j. int_within j 1 65535)) ''server.ws_port'') (\<lambda>_.
     and_then (check (bad_value server ''http_port'' (\<lambda>j. int_within j 1 65535)) ''server.http_port'') (\<lambda>_.
     and_then (check (bad_value server ''streaming_tts_idle_pause_ms'' (\<lambda>j. case j of JInt n \<Rightarrow> 0 \<le> n | _ \<Rightarrow> False))
       ''server.streaming_tts_idle_pause_ms'') (\<lambda>_.
     check (bad_value server ''log_level'' (\<lambda>j. j \<in> JStr ` set log_levels)) ''server.log_level'')))"

definition check_openclaw :: "json \<Rightarrow> exn + unit" where
  "check_openclaw direct = check (\<not> keys_within direct [''url''] \<or> bad_value direct ''url'' is_str) ''openclaw.url''"

definition check_gain :: "json \<Rightarrow> exn + unit" where
  "check_gain realtime =
    (if \<not> has_key realtime ''output_gain_db'' then Inr ()
     else and_then (is_finite (jat realtime ''output_gain_db'')) (\<lambda>ok. check (\<not> ok) ''realtime.output_gain_db''))"

definition check_realtime :: "json \<Rightarrow> exn + unit" where
  "check_realtime realtime =
     and_then (check (\<not> keys_within realtime realtime_keys) ''realtime'') (\<lambda>_.
     and_then (check (bad_value realtime ''enabled'' is_bool) ''realtime.enabled'') (\<lambda>_.
     and_then (check (bad_value realtime ''esp32_mode'' is_bool) ''realtime.esp32_mode'') (\<lambda>_.
     and_then (check (bad_value realtime ''host'' is_str) ''realtime.host'') (\<lambda>_.
     and_then (check (bad_value realtime ''stun_url'' is_str) ''realtime.stun_url'') (\<lambda>_.
     and_then (check (bad_value realtime ''offer_path'' is_str) ''realtime.offer_path'') (\<lambda>_.
     check_gain realtime))))))"

definition check_pairing :: "json \<Rightarrow> exn + unit" where
  "check_pairing pairing =
     and_then (check (\<not> keys_within pairing [''prompts'']) ''pairing'') (\<lambda>_.
     case validate_prompts (get_or pairing ''prompts'' (prompts_json default_prompts)) of
       Inl _ \<Rightarrow> Inl (ConfigError ''pairing.prompts'') | Inr _ \<Rightarrow> Inr ())"


definition check_ports :: "server_config \<Rightarrow> exn + unit" where
  "check_ports c =
     and_then (check (\<not> (1 \<le> cf_ws_port c \<and> cf_ws_port c \<le> 65535) \<or> \<not> (1 \<le> cf_http_port c \<and> cf_http_port c \<le> 65535)) ''server.ws_port/http_port'')
       (\<lambda>_. check (cf_ws_port c = cf_http_port c \<or> tl_enabled (cf_tls c) \<and> tl_port (cf_tls c) \<in> {cf_ws_port c, cf_http_port c}) ''server.ws_port/http_port'')"

definition good_endpoint :: "text_lib \<Rightarrow> string \<Rightarrow> bool" where
  "good_endpoint lib url = (case lib_urlsplit lib url of
     None \<Rightarrow> False
   | Some u \<Rightarrow> up_scheme u \<in> {''ws'', ''wss'', ''http'', ''https''} \<and> given (up_host u) \<and> \<not> given (up_user u) \<and> \<not> given (up_password u))"

definition check_config :: "text_lib \<Rightarrow> server_config \<Rightarrow> exn + unit" where
  "check_config lib c =
     and_then (check_ports c) (\<lambda>_.
     and_then (check (cf_openclaw_url c \<noteq> [] \<and> \<not> good_endpoint lib (cf_openclaw_url c)) ''openclaw.url'') (\<lambda>_.
     and_then (if cf_idle_ms c < 0 then Inr False else is_finite (cf_rt_gain c)) (\<lambda>ok.
     and_then (check (\<not> ok) ''server/realtime'') (\<lambda>_.
     check (lower (cf_log_level c) \<notin> set log_levels) ''server.log_level''))))"

text \<open>The settings in the order they are evaluated\<close>

definition realtime_settings :: "text_lib \<Rightarrow> env \<Rightarrow> json \<Rightarrow> server_config \<Rightarrow> exn + server_config" where
  "realtime_settings lib env realtime c =
     and_then (setting env realtime ''enabled'' ''REALTIME_ENABLED'' ''0'' as_flag) (\<lambda>enabled.
     and_then (setting env realtime ''esp32_mode'' ''REALTIME_ESP32'' ''1'' as_flag) (\<lambda>esp32.
     and_then (setting env realtime ''output_gain_db'' ''REALTIME_OUTPUT_GAIN_DB'' ''6'' (lib_float lib)) (\<lambda>gain.
     Inr (c\<lparr>cf_rt_enabled := enabled = JBool True, cf_rt_esp32 := esp32 = JBool True,
       cf_rt_host := str_value (get_or realtime ''host'' (JStr (optional env ''REALTIME_HOST'' []))),
       cf_rt_stun := str_value (get_or realtime ''stun_url'' (JStr (optional env ''REALTIME_STUN_URL'' ''stun:stun.l.google.com:19302''))),
       cf_rt_offer := str_value (get_or realtime ''offer_path'' (JStr (optional env ''REALTIME_OFFER_PATH'' ''/api/offer''))),
       cf_rt_gain := gain\<rparr>))))"

definition int_of_json :: "json \<Rightarrow> int" where "int_of_json j = (case j of JInt n \<Rightarrow> n | _ \<Rightarrow> 0)"

definition speech_settings_of :: "env \<Rightarrow> server_config \<Rightarrow> exn + server_config" where
  "speech_settings_of env c =
     and_then (parse_wyoming_url (speech_env env ''STT_URL'' ''WHISPER_URL'' ''tcp://whisper:10300'')) (\<lambda>stt.
     and_then (parse_wyoming_url (speech_env env ''TTS_URL'' ''PIPER_URL'' ''tcp://piper:10200'')) (\<lambda>tts.
     Inr (c\<lparr>cf_stt := stt, cf_tts := tts, cf_tts_voice := speech_env env ''TTS_VOICE'' ''PIPER_VOICE'' ''en_US-libritts_r-medium''\<rparr>)))"

definition server_settings :: "env \<Rightarrow> json \<Rightarrow> server_config \<Rightarrow> exn + server_config" where
  "server_settings env server c =
     and_then (setting env server ''ws_port'' ''WS_PORT'' ''8765'' as_int) (\<lambda>ws.
     and_then (setting env server ''http_port'' ''HTTP_PORT'' ''8080'' as_int) (\<lambda>http.
     and_then (setting env server ''streaming_tts_idle_pause_ms'' ''STREAMING_TTS_IDLE_PAUSE_MS'' ''1000'' as_int) (\<lambda>idle.
     Inr (c\<lparr>cf_ws_port := int_of_json ws, cf_http_port := int_of_json http, cf_idle_ms := int_of_json idle\<rparr>))))"

definition last_settings :: "text_lib \<Rightarrow> env \<Rightarrow> json \<Rightarrow> server_config \<Rightarrow> exn + server_config" where
  "last_settings lib env server c =
     (case load_tls_config lib env (optional env ''DATA_DIR'' ''/data'') of
        None \<Rightarrow> Inl ValueError
      | Some tls \<Rightarrow> Inr (c\<lparr>cf_log_level := lower (str_value (get_or server ''log_level'' (JStr (optional env ''LOG_LEVEL'' ''info'')))), cf_tls := tls\<rparr>))"

definition first_settings :: "env \<Rightarrow> json \<Rightarrow> int \<Rightarrow> server_config" where
  "first_settings env direct id_length = \<lparr>
     cf_openclaw_url = str_value (get_or direct ''url'' (JStr (optional env ''OPENCLAW_URL'' []))), cf_openclaw_token = optional env ''OPENCLAW_TOKEN'' [],
     cf_device_token = optional env ''DEVICE_TOKEN'' [], cf_data_dir = optional env ''DATA_DIR'' ''/data'', cf_stt = ([], 0), cf_tts = ([], 0), cf_tts_voice = [],
     cf_ws_port = 0, cf_http_port = 0, cf_idle_ms = 0, cf_rt_enabled = False, cf_rt_esp32 = False, cf_rt_host = [], cf_rt_stun = [], cf_rt_offer = [],
     cf_rt_gain = JNull, cf_log_level = [], cf_tls = no_tls, cf_id_length = id_length \<rparr>"

definition all_settings :: "text_lib \<Rightarrow> env \<Rightarrow> json \<Rightarrow> int \<Rightarrow> exn + server_config" where
  "all_settings lib env data id_length =
     and_then (speech_settings_of env (first_settings env (part data ''openclaw'') id_length)) (\<lambda>c.
     and_then (server_settings env (part data ''server'') c) (\<lambda>c.
     and_then (realtime_settings lib env (part data ''realtime'') c) (\<lambda>c.
     last_settings lib env (part data ''server'') c)))"

definition server_keys :: "string list" where
  "server_keys = [''ws_port'', ''http_port'', ''log_level'', ''streaming_tts_idle_pause_ms'', ''device_id_length'']"

definition check_data :: "env \<Rightarrow> json \<Rightarrow> exn + int" where
  "check_data env data =
     and_then (check_sections data) (\<lambda>_.
     and_then (check (\<not> keys_within (part data ''server'') server_keys) ''server'') (\<lambda>_.
     and_then (setting env (part data ''server'') ''device_id_length'' ''DEVICE_ID_LENGTH'' ''16'' as_int) (\<lambda>n.
     and_then (check (\<not> int_within n 1 64) ''server.device_id_length / DEVICE_ID_LENGTH'') (\<lambda>_.
     and_then (check_server (part data ''server'')) (\<lambda>_.
     and_then (check_openclaw (part data ''openclaw'')) (\<lambda>_.
     and_then (check_realtime (part data ''realtime'')) (\<lambda>_.
     and_then (check_pairing (part data ''pairing'')) (\<lambda>_. Inr (int_of_json n)))))))))"

definition load_config :: "text_lib \<Rightarrow> env \<Rightarrow> doc_file \<Rightarrow> exn + server_config" where
  "load_config lib env f =
     and_then (if doc_exists f then read_json f else Inr (JObj [])) (\<lambda>data.
     and_then (check_data env data) (\<lambda>n.
     and_then (all_settings lib env data n) (\<lambda>c.
     and_then (check_config lib c) (\<lambda>_. Inr c))))"

definition first_document :: "server_config \<Rightarrow> json" where
  "first_document c = JObj [
     (''server'', JObj [(''ws_port'', JInt (cf_ws_port c)), (''http_port'', JInt (cf_http_port c)), (''log_level'', JStr (cf_log_level c)),
        (''streaming_tts_idle_pause_ms'', JInt (cf_idle_ms c))]),
     (''pairing'', JObj [(''prompts'', prompts_json default_prompts)]),
     (''openclaw'', JObj [(''url'', JStr (cf_openclaw_url c))]),
     (''realtime'', JObj [(''enabled'', JBool (cf_rt_enabled c)), (''esp32_mode'', JBool (cf_rt_esp32 c)), (''host'', JStr (cf_rt_host c)),
        (''stun_url'', JStr (cf_rt_stun c)), (''offer_path'', JStr (cf_rt_offer c)), (''output_gain_db'', cf_rt_gain c)])]"

definition initialize_config :: "server_config \<Rightarrow> write_outcome \<Rightarrow> doc_file \<Rightarrow> (exn + unit) \<times> doc_file" where
  "initialize_config c oc f =
    (if doc_exists f then (Inr (), f)
     else case update_json oc (\<lambda>existing. Inr (if obj_pairs existing = [] then first_document c else existing)) f of
       (r, g, _) \<Rightarrow> (map_sum id (\<lambda>_. ()) r, g))"


section \<open>Laws\<close>

lemma and_then_Inr [simp]: "and_then x f = Inr y \<longleftrightarrow> (\<exists>a. x = Inr a \<and> f a = Inr y)"
  by (cases x) auto

lemma check_Inr [simp]: "check bad name = Inr u \<longleftrightarrow> \<not> bad"
  by (simp add: check_def)

lemma int_within_iff: "int_within j lo hi \<longleftrightarrow> (\<exists>n. j = JInt n \<and> lo \<le> n \<and> n \<le> hi)"
  by (cases j) (auto simp: int_within_def)

lemmas settings_defs = all_settings_def speech_settings_of_def server_settings_def realtime_settings_def last_settings_def first_settings_def

subsection \<open>What is loaded is valid\<close>

lemma tls_config_ok:
  assumes "load_tls_config lib env data_dir = Some t" "tl_enabled t"
  shows "1 \<le> tl_port t \<and> tl_port t \<le> 65535 \<and> (tl_acme t \<longrightarrow> acme_domain (tl_domain t) \<and> tl_hostname t = tl_domain t \<and> acme_email (tl_email t))
    \<and> (\<exists>origin. configured_origin lib env = Inr origin \<and> starts_with ''https://'' origin)"
  using assms
  by (auto simp: load_tls_config_def enabled_tls_def certificate_files_def no_tls_def Let_def split: option.splits sum.splits if_splits prod.splits)

text \<open>A configuration that loads can be served: the ports are in range and no two listeners share one, the lengths and
  delays are in range, the log level is a documented one, the OpenClaw endpoint (if any) carries no password, and HTTPS
  is only on with an https origin of the owner and, when Certbot keeps_rest the certificate, for the very domain of it.\<close>

theorem loaded_config_can_be_served:
  assumes "load_config lib env f = Inr c"
  shows "1 \<le> cf_ws_port c \<and> cf_ws_port c \<le> 65535 \<and> 1 \<le> cf_http_port c \<and> cf_http_port c \<le> 65535 \<and> cf_ws_port c \<noteq> cf_http_port c
    \<and> 1 \<le> cf_id_length c \<and> cf_id_length c \<le> 64 \<and> 0 \<le> cf_idle_ms c \<and> is_finite (cf_rt_gain c) = Inr True
    \<and> lower (cf_log_level c) \<in> set log_levels \<and> (cf_openclaw_url c \<noteq> [] \<longrightarrow> good_endpoint lib (cf_openclaw_url c))
    \<and> (tl_enabled (cf_tls c) \<longrightarrow> tl_port (cf_tls c) \<notin> {cf_ws_port c, cf_http_port c} \<and> 1 \<le> tl_port (cf_tls c) \<and> tl_port (cf_tls c) \<le> 65535
         \<and> (tl_acme (cf_tls c) \<longrightarrow> acme_domain (tl_domain (cf_tls c)) \<and> tl_hostname (cf_tls c) = tl_domain (cf_tls c))
         \<and> (\<exists>origin. configured_origin lib env = Inr origin \<and> starts_with ''https://'' origin))"
proof -
  obtain data n where d: "check_data env data = Inr n" "all_settings lib env data n = Inr c" "check_config lib c = Inr ()"
    using assms by (auto simp: load_config_def)
  have n: "1 \<le> n \<and> n \<le> 64" using d(1) by (auto simp: check_data_def int_within_iff int_of_json_def)
  have c: "cf_id_length c = n" "load_tls_config lib env (optional env ''DATA_DIR'' ''/data'') = Some (cf_tls c)"
    using d(2) by (auto simp: settings_defs split: option.splits)
  show ?thesis using d(3) n c tls_config_ok [OF c(2)]
    by (auto simp: check_config_def check_ports_def split: if_splits)
qed

subsection \<open>The first document\<close>

definition persisted :: "string list" where
  "persisted = [''WS_PORT'', ''HTTP_PORT'', ''LOG_LEVEL'', ''STREAMING_TTS_IDLE_PAUSE_MS'', ''OPENCLAW_URL'', ''REALTIME_ENABLED'',
     ''REALTIME_ESP32'', ''REALTIME_HOST'', ''REALTIME_STUN_URL'', ''REALTIME_OFFER_PATH'', ''REALTIME_OUTPUT_GAIN_DB'']"

lemma level_is_lower: "x \<in> set log_levels \<Longrightarrow> lower x = x"
  by (auto simp: log_levels_def lower_def is_upper_def char_between_def)

lemma lower_idem: "lower (lower x) = lower x"
proof -
  have lift: "of_char (char_of (of_char c + (32 :: nat)) :: char) = (of_char c + 32 :: nat)" if "of_char c \<le> (222 :: nat)" for c :: char
    using that by simp
  show ?thesis by (auto simp: lower_def is_upper_def char_between_def lift)
qed

definition keeps_rest :: "env \<Rightarrow> env \<Rightarrow> bool" where
  "keeps_rest env env' \<longleftrightarrow> (\<forall>n. n \<notin> set persisted \<longrightarrow> dict_get env' n = dict_get env n)"

lemma keeps_optional: "keeps_rest env env' \<Longrightarrow> n \<notin> set persisted \<Longrightarrow> optional env' n d = optional env n d"
  by (simp add: keeps_rest_def optional_def env_get_def)

lemma keeps_speech:
  assumes "keeps_rest env env'"
  shows "speech_settings_of env' c = speech_settings_of env c"
  using keeps_optional [OF assms] by (simp add: speech_settings_of_def speech_env_def persisted_def)

lemma first_sections:
  "part (first_document c) ''server'' = JObj [(''ws_port'', JInt (cf_ws_port c)), (''http_port'', JInt (cf_http_port c)), (''log_level'', JStr (cf_log_level c)),
     (''streaming_tts_idle_pause_ms'', JInt (cf_idle_ms c))]"
  "part (first_document c) ''pairing'' = JObj [(''prompts'', prompts_json default_prompts)]"
  "part (first_document c) ''openclaw'' = JObj [(''url'', JStr (cf_openclaw_url c))]"
  "part (first_document c) ''realtime'' = JObj [(''enabled'', JBool (cf_rt_enabled c)), (''esp32_mode'', JBool (cf_rt_esp32 c)), (''host'', JStr (cf_rt_host c)),
     (''stun_url'', JStr (cf_rt_stun c)), (''offer_path'', JStr (cf_rt_offer c)), (''output_gain_db'', cf_rt_gain c)]"
  by (simp_all add: part_def first_document_def get_or_def dict_get_def)

lemma default_prompts_valid: "validate_prompts (prompts_json default_prompts) = Inr default_prompts"
  by code_simp

lemmas first_lookup = has_key_def jkeys_def jat_def get_or_def dict_get_def keys_within_def bad_value_def

lemma empty_part [simp]: "part (JObj []) name = JObj []"
  by (simp add: part_def first_lookup)

lemma first_document_checks:
  assumes "check_config lib c = Inr ()" "cf_log_level c = lower x"
  shows "check_sections (first_document c) = Inr ()" "check_server (part (first_document c) ''server'') = Inr ()"
    "keys_within (part (first_document c) ''server'') server_keys" "check_openclaw (part (first_document c) ''openclaw'') = Inr ()"
    "check_realtime (part (first_document c) ''realtime'') = Inr ()" "check_pairing (part (first_document c) ''pairing'') = Inr ()"
proof -
  have p: "1 \<le> cf_ws_port c" "cf_ws_port c \<le> 65535" "1 \<le> cf_http_port c" "cf_http_port c \<le> 65535" "0 \<le> cf_idle_ms c" "is_finite (cf_rt_gain c) = Inr True"
    "cf_log_level c \<in> set log_levels"
    using assms lower_idem [of x] by (auto simp: check_config_def check_ports_def split: if_splits)
  show "check_sections (first_document c) = Inr ()" by (simp add: check_sections_def first_document_def first_lookup check_def)
  show "check_server (part (first_document c) ''server'') = Inr ()" using p
    by (simp add: check_server_def first_sections first_lookup check_def int_within_iff)
  show "keys_within (part (first_document c) ''server'') server_keys" by (simp add: first_sections first_lookup server_keys_def)
  show "check_openclaw (part (first_document c) ''openclaw'') = Inr ()" by (simp add: check_openclaw_def first_sections first_lookup check_def)
  show "check_realtime (part (first_document c) ''realtime'') = Inr ()" using p(6)
    by (simp add: check_realtime_def first_sections first_lookup check_def  realtime_keys_def check_gain_def)
  show "check_pairing (part (first_document c) ''pairing'') = Inr ()"
    by (simp add: check_pairing_def first_sections first_lookup check_def default_prompts_valid)
qed

lemma first_document_unique: "is_finite (cf_rt_gain c) = Inr True \<Longrightarrow> unique_json (first_document c)"
  by (cases "cf_rt_gain c") (simp_all add: first_document_def prompts_json_def is_finite_def)

text \<open>C38: What the first start writes is what it ran with: when a server without \<open>config.json\<close> has started and written the
  file, every later start reads the same configuration from it, whatever the environment then says of the settings that
  are persisted, as long as the rest of the environment is unchanged and the TLS settings still read the same.\<close>

theorem first_start_is_kept:
  assumes "load_config lib env No_file = Inr c" and "initialize_config c Write_ok No_file = (r, f)" and "keeps_rest env env'"
    and "load_tls_config lib env' (cf_data_dir c) = load_tls_config lib env (cf_data_dir c)"
  shows "r = Inr () \<and> load_config lib env' f = Inr c"
proof -
  obtain n where l: "check_data env (JObj []) = Inr n" "all_settings lib env (JObj []) n = Inr c" "check_config lib c = Inr ()"
    using assms(1) by (auto simp: load_config_def doc_exists_def)
  have fin: "is_finite (cf_rt_gain c) = Inr True" using l(3) by (auto simp: check_config_def split: if_splits)
  obtain x where x: "cf_log_level c = lower x" using l(2) by (auto simp: settings_defs split: option.splits)
  have f: "r = Inr ()" "f = Doc (first_document c)"
    using assms(2) by (auto simp: initialize_config_def update_json_def write_json_def doc_exists_def first_document_def)
  note ok = first_document_checks [OF l(3) x]
  have opt: "optional env' n d = optional env n d" if "n \<notin> set persisted" for n d using keeps_optional [OF assms(3) that] .
  have "setting env' (part (first_document c) ''server'') ''device_id_length'' ''DEVICE_ID_LENGTH'' ''16'' as_int
      = setting env (part (JObj []) ''server'') ''device_id_length'' ''DEVICE_ID_LENGTH'' ''16'' as_int"
    by (simp add: setting_def first_sections first_lookup opt persisted_def)
  moreover obtain a where a: "setting env (JObj []) ''device_id_length'' ''DEVICE_ID_LENGTH'' ''16'' as_int = Inr a" "int_within a 1 64" "n = int_of_json a"
    using l(1) by (auto simp: check_data_def)
  ultimately have id: "check_data env' (first_document c) = Inr n" using ok by (simp add: check_data_def check_def)
  define c1 where "c1 = first_settings env (JObj []) n"
  obtain c2 c3 c4 where c2: "speech_settings_of env c1 = Inr c2" "server_settings env (JObj []) c2 = Inr c3"
      "realtime_settings lib env (JObj []) c3 = Inr c4" "last_settings lib env (JObj []) c4 = Inr c"
    using l(2) by (auto simp: all_settings_def c1_def)
  obtain w h i where c3: "c3 = c2\<lparr>cf_ws_port := w, cf_http_port := h, cf_idle_ms := i\<rparr>" using c2(2) by (auto simp: server_settings_def)
  obtain en esp ho st off g where c4: "c4 = c3\<lparr>cf_rt_enabled := en, cf_rt_esp32 := esp, cf_rt_host := ho, cf_rt_stun := st, cf_rt_offer := off, cf_rt_gain := g\<rparr>"
    using c2(3) by (auto simp: realtime_settings_def)
  obtain t where c: "c = c4\<lparr>cf_log_level := lower x, cf_tls := t\<rparr>" "load_tls_config lib env (optional env ''DATA_DIR'' ''/data'') = Some t"
    using c2(4) x by (auto simp: last_settings_def split: option.splits)
  have url: "cf_openclaw_url c = cf_openclaw_url c1" "cf_data_dir c = optional env ''DATA_DIR'' ''/data''"
    using c2(1) c(1) c3 c4 by (auto simp: speech_settings_of_def c1_def first_settings_def)
  have "first_settings env' (part (first_document c) ''openclaw'') n = c1"
    by (simp add: first_settings_def first_sections first_lookup opt persisted_def url) (simp add: c1_def first_settings_def first_lookup)
  moreover have "speech_settings_of env' c1 = Inr c2" using c2(1) keeps_speech [OF assms(3)] by simp
  moreover have "server_settings env' (part (first_document c) ''server'') c2 = Inr c3"
    by (simp add: server_settings_def first_sections setting_def first_lookup int_of_json_def c(1) c3 c4)
  moreover have "realtime_settings lib env' (part (first_document c) ''realtime'') c3 = Inr c4"
    by (simp add: realtime_settings_def first_sections setting_def first_lookup c(1) c4)
  moreover have "last_settings lib env' (part (first_document c) ''server'') c4 = Inr c"
    using assms(4) url(2) c opt [of "''DATA_DIR''"] lower_idem by (simp add: last_settings_def first_sections first_lookup persisted_def)
  ultimately have "all_settings lib env' (first_document c) n = Inr c" by (simp add: all_settings_def)
  then show ?thesis using f id l(3) first_document_unique [OF fin] by (simp add: load_config_def doc_exists_def read_json_def)
qed


subsection \<open>Origins\<close>

lemma split_text_join: "concat (map (\<lambda>f. sep # f) (split_text sep s)) = sep # s"
proof (induction sep s rule: split_text.induct)
  case (2 sep c cs)
  then show ?case by (cases "split_text sep cs") auto
qed simp

lemma split_text_chars: "f \<in> set (split_text sep s) \<Longrightarrow> sep \<notin> set f"
proof (induction sep s arbitrary: f rule: split_text.induct)
  case (2 sep c cs)
  have "split_text sep cs \<noteq> []" by (induction cs) auto
  then show ?case using 2 by (cases "split_text sep cs") (auto split: if_splits)
qed simp

lemma dns_host_chars:
  assumes "list_all dns_label (split_text CHR ''.'' host)"
  shows "list_all (\<lambda>c. host_char c \<or> c \<in> {CHR ''-'', CHR ''.''}) host"
proof -
  have "host_char c \<or> c \<in> {CHR ''-'', CHR ''.''}" if "c \<in> set host" for c
  proof -
    have "c \<in> set (concat (map (\<lambda>f. CHR ''.'' # f) (split_text CHR ''.'' host)))" using that unfolding split_text_join by simp
    then have "c = CHR ''.'' \<or> (\<exists>f \<in> set (split_text CHR ''.'' host). c \<in> set f)" by (auto split: if_split_asm)
    then show ?thesis
    proof
      assume "\<exists>f \<in> set (split_text CHR ''.'' host). c \<in> set f"
      then obtain f where f: "f \<in> set (split_text CHR ''.'' host)" "c \<in> set f" by blast
      then have "dns_label f" using assms unfolding list_all_iff by blast
      then show ?thesis using f(2) unfolding dns_label_def list_all_iff by blast
    qed simp
  qed
  then show ?thesis by (simp add: list_all_iff)
qed

text \<open>Only a canonical origin is ever trusted: it is the scheme, a host and, if need be, a port that is neither zero nor the
  one browsers leave out, and nothing else, no user, path or query; the host is an address in its canonical form, or a
  name of lower-case labels, at most 253 characters, whose last label no browser would read as a number.\<close>

theorem trusted_origin_is_canonical:
  assumes "trusted_origin lib value scheme = Inr origin"
  shows "origin = value \<and> (\<exists>host port. value = scheme @ ''://'' @ host @ port_suffix port \<and> port \<notin> {Some 0, Some (default_port scheme)}
    \<and> ((\<exists>name a. lib_address lib name = Some a \<and> host = (if fst a = 6 then ''['' @ snd a @ '']'' else snd a))
       \<or> host \<noteq> [] \<and> length host \<le> 253 \<and> list_all dns_label (split_text CHR ''.'' host) \<and> \<not> numeric_label (last (split_text CHR ''.'' host))
         \<and> list_all (\<lambda>c. host_char c \<or> c \<in> {CHR ''-'', CHR ''.''}) host))"
proof -
  obtain u where s: "lib_urlsplit lib value = Some u" using assms by (cases "lib_urlsplit lib value") (auto simp: trusted_origin_def)
  obtain host port where hp: "canonical_host lib (the (up_host u)) = Some host" "up_port u = Some port"
    using assms s by (auto simp: trusted_origin_def split: option.splits if_splits)
  have u: "origin = value" "given (up_host u)" "value = scheme @ ''://'' @ up_netloc u" "canonical_host lib (the (up_host u)) = Some host"
      "up_netloc u = host @ port_suffix port" "port \<notin> {Some 0, Some (default_port scheme)}"
    using assms s hp by (auto simp: trusted_origin_def split: if_splits)
  have "(\<exists>name a. lib_address lib name = Some a \<and> host = (if fst a = 6 then ''['' @ snd a @ '']'' else snd a))
       \<or> host \<noteq> [] \<and> length host \<le> 253 \<and> list_all dns_label (split_text CHR ''.'' host) \<and> \<not> numeric_label (last (split_text CHR ''.'' host))
         \<and> list_all (\<lambda>c. host_char c \<or> c \<in> {CHR ''-'', CHR ''.''}) host"
  proof (cases "lib_address lib (the (up_host u))")
    case None
    then have "host = the (up_host u)" "length host \<le> 253" "list_all dns_label (split_text CHR ''.'' host)" "\<not> numeric_label (last (split_text CHR ''.'' host))"
      using u(4) by (auto simp: canonical_host_def split: if_splits)
    then show ?thesis using u(2) dns_host_chars by (auto simp: given_def)
  next
    case (Some a)
    then have "host = (if fst a = 6 then ''['' @ snd a @ '']'' else snd a)" using u(4) by (cases a) (auto simp: canonical_host_def)
    then show ?thesis using Some by blast
  qed
  moreover have "value = scheme @ ''://'' @ host @ port_suffix port" using u(3,5) by simp
  ultimately show ?thesis using u(1,6) by blast
qed

section \<open>Examples\<close>

text \<open>A server without settings, and a library that knows the origin \<open>https://box.local:8443\<close>\<close>

definition example_lib :: text_lib where
  "example_lib = \<lparr>
     lib_urlsplit = (\<lambda>v. if v = ''https://box.local:8443'' then Some \<lparr> up_scheme = ''https'', up_netloc = ''box.local:8443'', up_path = [], up_query = [],
       up_fragment = [], up_host = Some ''box.local'', up_user = None, up_password = None, up_port = Some (Some 8443) \<rparr> else None),
     lib_address = (\<lambda>_. None), lib_network = (\<lambda>_. False), lib_float = (\<lambda>t. if t = ''6'' then Some (JFloat 6) else None), lib_join = concat \<rparr>"

lemma example_loads: "case load_config example_lib [] No_file of Inl _ \<Rightarrow> False | Inr c \<Rightarrow> cf_ws_port c = 8765 \<and> cf_data_dir c = ''/data''"
  by code_simp

lemma example_origin: "trusted_origin example_lib ''https://box.local:8443'' ''https'' = Inr ''https://box.local:8443''"
  by code_simp

lemma loaded_config_can_be_served_witness: "\<exists>c. load_config example_lib [] No_file = Inr c \<and> cf_ws_port c \<noteq> cf_http_port c \<and> 1 \<le> cf_id_length c"
proof -
  obtain c where c: "load_config example_lib [] No_file = Inr c" using example_loads by (auto split: sum.splits)
  then show ?thesis using loaded_config_can_be_served [OF c] by blast
qed

lemma first_start_is_kept_witness:
  "\<exists>c. load_config example_lib [] No_file = Inr c \<and> load_config example_lib [(''WS_PORT'', ''9000'')] (snd (initialize_config c Write_ok No_file)) = Inr c"
proof -
  obtain c where c: "load_config example_lib [] No_file = Inr c" "cf_data_dir c = ''/data''" using example_loads by (auto split: sum.splits)
  obtain r f where f: "initialize_config c Write_ok No_file = (r, f)" by force
  have k: "keeps_rest [] [(''WS_PORT'', ''9000'')]" by (simp add: keeps_rest_def persisted_def dict_get_def)
  have "load_tls_config example_lib [(''WS_PORT'', ''9000'')] (cf_data_dir c) = load_tls_config example_lib [] (cf_data_dir c)"
    unfolding c(2) by code_simp
  from first_start_is_kept [OF c(1) f k this] show ?thesis using c(1) f by simp
qed

lemma trusted_origin_is_canonical_witness:
  "\<exists>host port. ''https://box.local:8443'' = ''https'' @ ''://'' @ host @ port_suffix port \<and> port \<notin> {Some 0, Some (default_port ''https'')}"
  using trusted_origin_is_canonical [OF example_origin] by blast

end
