(* ===== verification/Tls_Service.thy ===== *)
theory Tls_Service
  imports Start_Config
begin

text \<open>
  \<open>tls.py\<close>: the certificate that HTTPS listeners serve. A snapshot is the bytes of the certificate file and of the key
  file, as they were read; a context that serves is the snapshot it was built from. Reading PEM, the extensions of a
  certificate, whether a key belongs to a chain, Certbot and the lock file are answered by the environment: a read that
  fails is \<open>None\<close>, and \<open>run_certbot\<close> ends well or not.
\<close>

type_synonym pem_files = "byte list \<times> byte list"

record certificate =
  ce_from :: time
  ce_until :: time
  ce_names :: "(string list \<times> string list) option"

record pem_lib =
  pem_chain :: "byte list \<Rightarrow> certificate list option"
  pem_pair :: "byte list \<Rightarrow> byte list \<Rightarrow> bool"
  pem_address :: "string \<Rightarrow> string option"

record cert_context =
  cx_active :: "pem_files option"
  cx_expires :: "time option"
  cx_snapshot :: "pem_files option"

definition no_context :: cert_context where
  "no_context = \<lparr> cx_active = None, cx_expires = None, cx_snapshot = None \<rparr>"

section \<open>Names\<close>

definition count_dots :: "string \<Rightarrow> nat" where "count_dots s = length (filter (\<lambda>c. c = CHR ''.'') s)"

definition name_covers :: "string \<Rightarrow> string \<Rightarrow> bool" where
  "name_covers name host \<longleftrightarrow> name = host
     \<or> starts_with ''*.'' name \<and> count_dots host = count_dots name \<and> drop (length host - length (tl name)) host = tl name \<and> length (tl name) \<le> length host"

text \<open>\<open>_matches\<close>; a certificate without alternative names raises.\<close>

definition cert_matches :: "pem_lib \<Rightarrow> certificate \<Rightarrow> string \<Rightarrow> bool option" where
  "cert_matches lib c hostname = (case ce_names c of
     None \<Rightarrow> None
   | Some (dns, ips) \<Rightarrow> Some (case pem_address lib hostname of
       None \<Rightarrow> list_ex (\<lambda>n. name_covers (lower n) (lower hostname)) dns
     | Some a \<Rightarrow> a \<in> set ips))"

section \<open>The context\<close>

definition select_context :: "time \<Rightarrow> cert_context \<Rightarrow> pem_files option" where
  "select_context now s = (case (cx_active s, cx_expires s) of
     (Some a, Some e) \<Rightarrow> if now \<ge> e then None else Some a
   | _ \<Rightarrow> None)"

definition valid_at :: "time \<Rightarrow> certificate \<Rightarrow> bool" where
  "valid_at now c \<longleftrightarrow> ce_from c \<le> now \<and> now < ce_until c"

fun earliest :: "time list \<Rightarrow> time" where
  "earliest [] = 0"
| "earliest [t] = t"
| "earliest (t # ts) = min t (earliest ts)"

text \<open>\<open>reload\<close>: \<open>None\<close> where it raises, otherwise whether it published a new context\<close>

definition reload_context :: "pem_lib \<Rightarrow> string \<Rightarrow> byte list option \<Rightarrow> byte list option \<Rightarrow> time \<Rightarrow> cert_context \<Rightarrow> bool option \<times> cert_context" where
  "reload_context lib hostname cert key now s = (case (cert, key) of
     (Some c, Some k) \<Rightarrow>
       if cx_snapshot s = Some (c, k) then (Some False, s)
       else (case pem_chain lib c of
           None \<Rightarrow> (None, s)
         | Some [] \<Rightarrow> (None, s)
         | Some (leaf # rest) \<Rightarrow>
             if \<not> list_all (valid_at now) (leaf # rest) then (None, s)
             else if cert_matches lib leaf hostname \<noteq> Some True then (None, s)
             else if \<not> pem_pair lib c k then (None, s)
             else (Some True, \<lparr> cx_active = Some (c, k), cx_expires = Some (earliest (map ce_until (leaf # rest))), cx_snapshot = Some (c, k) \<rparr>))
   | _ \<Rightarrow> (None, s))"

section \<open>The service\<close>

record tls_service =
  sv_acme :: bool
  sv_hostname :: string
  sv_context :: cert_context
  sv_lock :: bool
  sv_task :: bool
  sv_renewal :: time

definition new_service :: "tls_config \<Rightarrow> tls_service" where
  "new_service c = \<lparr> sv_acme = tl_acme c, sv_hostname = tl_hostname c, sv_context = no_context, sv_lock = False, sv_task = False, sv_renewal = 0 \<rparr>"

type_synonym file_read = "byte list option \<times> byte list option \<times> time"

definition service_reloads :: "pem_lib \<Rightarrow> file_read \<Rightarrow> tls_service \<Rightarrow> bool option \<times> tls_service" where
  "service_reloads lib r s = (case r of (cert, key, now) \<Rightarrow>
     case reload_context lib (sv_hostname s) cert key now (sv_context s) of (res, x) \<Rightarrow> (res, s\<lparr>sv_context := x\<rparr>))"

text \<open>\<open>prepare\<close>: whether the lock file is free, the first read, how Certbot ends, the second read\<close>

definition prepare_tls :: "pem_lib \<Rightarrow> bool \<Rightarrow> file_read \<Rightarrow> bool \<Rightarrow> file_read \<Rightarrow> tls_service \<Rightarrow> (exn + unit) \<times> tls_service" where
  "prepare_tls lib lock_free first certbot again s =
    (if sv_acme s \<and> \<not> sv_lock s \<and> \<not> lock_free then (Inl (RuntimeError ''Route53 worker already owns this state directory''), s)
     else case service_reloads lib first (s\<lparr>sv_lock := sv_lock s \<or> sv_acme s\<rparr>) of
       (Some _, s) \<Rightarrow> (Inr (), s)
     | (None, s) \<Rightarrow>
         if \<not> sv_acme s then (Inl ValueError, s)
         else if \<not> certbot then (Inl (RuntimeError ''Certbot failed; inspect protected Certbot logs''), s)
         else (case service_reloads lib again s of (Some _, s) \<Rightarrow> (Inr (), s) | (None, s) \<Rightarrow> (Inl ValueError, s)))"

definition start_tls :: "tls_service \<Rightarrow> (exn + unit) \<times> tls_service" where
  "start_tls s = (if cx_active (sv_context s) = None then (Inl (RuntimeError ''TLS certificate is not ready''), s) else (Inr (), if sv_task s then s else s\<lparr>sv_task := True, sv_renewal := 0\<rparr>))"

text \<open>One round of the worker: a renewal when it is due, which ends some time later, whatever comes of it, then a reload that may be rejected\<close>

definition worker_round :: "pem_lib \<Rightarrow> time \<Rightarrow> time \<Rightarrow> time \<Rightarrow> file_read \<Rightarrow> tls_service \<Rightarrow> tls_service" where
  "worker_round lib begun over interval r s =
    (if \<not> sv_task s then s
     else snd (service_reloads lib r (if sv_acme s \<and> begun \<ge> sv_renewal s then s\<lparr>sv_renewal := over + interval\<rparr> else s)))"

definition close_tls :: "tls_service \<Rightarrow> tls_service" where
  "close_tls s = s\<lparr>sv_task := False, sv_lock := False\<rparr>"

datatype tls_event = Prepare_tls bool file_read bool file_read | Start_tls | Worker_round time time time file_read | Close_tls

fun tls_step :: "pem_lib \<Rightarrow> tls_event \<Rightarrow> tls_service \<Rightarrow> tls_service" where
  "tls_step lib (Prepare_tls free first cb again) s = snd (prepare_tls lib free first cb again s)"
| "tls_step lib Start_tls s = snd (start_tls s)"
| "tls_step lib (Worker_round b v i r) s = worker_round lib b v i r s"
| "tls_step lib Close_tls s = close_tls s"

definition tls_run :: "pem_lib \<Rightarrow> tls_event list \<Rightarrow> tls_service \<Rightarrow> tls_service" where
  "tls_run lib evs s = fold (tls_step lib) evs s"

section \<open>What is served\<close>

definition read_times :: "tls_event \<Rightarrow> time set" where
  "read_times ev = (case ev of
     Prepare_tls _ (_, _, t) _ (_, _, u) \<Rightarrow> {t, u}
   | Worker_round _ _ _ (_, _, t) \<Rightarrow> {t}
   | _ \<Rightarrow> {})"

text \<open>A context that serves has been built from a chain that was valid when it was read, for the host, with its key.\<close>

definition context_ok :: "pem_lib \<Rightarrow> string \<Rightarrow> time set \<Rightarrow> cert_context \<Rightarrow> bool" where
  "context_ok lib hostname T s \<longleftrightarrow> cx_active s = cx_snapshot s \<and> (case cx_active s of
     None \<Rightarrow> True
   | Some (c, k) \<Rightarrow> \<exists>leaf rest t. pem_chain lib c = Some (leaf # rest) \<and> t \<in> T \<and> list_all (valid_at t) (leaf # rest)
       \<and> cert_matches lib leaf hostname = Some True \<and> pem_pair lib c k \<and> cx_expires s = Some (earliest (map ce_until (leaf # rest))))"

lemma earliest_le: "t \<in> set ts \<Longrightarrow> earliest ts \<le> t"
  by (induction ts rule: earliest.induct) (auto simp: min_le_iff_disj)

lemma context_ok_mono: "context_ok lib h T s \<Longrightarrow> T \<subseteq> U \<Longrightarrow> context_ok lib h U s"
  unfolding context_ok_def by (auto split: option.splits)

lemma context_ok_reload:
  assumes "context_ok lib h T s" shows "context_ok lib h (insert now T) (snd (reload_context lib h cert key now s))"
proof (cases "snd (reload_context lib h cert key now s) = s")
  case True
  then show ?thesis using context_ok_mono [OF assms, of "insert now T"] by auto
next
  case False
  then show ?thesis
    by (auto simp: reload_context_def context_ok_def split: option.splits list.splits if_splits)
qed

lemma rejected_reload_changes_nothing: "fst (reload_context lib h cert key now s) \<noteq> Some True \<Longrightarrow> snd (reload_context lib h cert key now s) = s"
  by (auto simp: reload_context_def split: option.splits list.splits if_splits)


definition service_ok :: "pem_lib \<Rightarrow> string \<Rightarrow> time set \<Rightarrow> tls_service \<Rightarrow> bool" where
  "service_ok lib h T s \<longleftrightarrow> sv_hostname s = h \<and> context_ok lib h T (sv_context s)"

lemma service_ok_reloads:
  assumes "service_ok lib h T s" shows "service_ok lib h (insert now T) (snd (service_reloads lib (cert, key, now) s))"
  using assms context_ok_reload [of lib h T "sv_context s" now cert key]
  by (cases "reload_context lib h cert key now (sv_context s)") (simp add: service_ok_def service_reloads_def)

lemma service_ok_fields [simp]:
  "service_ok lib h T (s\<lparr>sv_lock := b\<rparr>) = service_ok lib h T s" "service_ok lib h T (s\<lparr>sv_task := b\<rparr>) = service_ok lib h T s"
  "service_ok lib h T (s\<lparr>sv_renewal := t\<rparr>) = service_ok lib h T s"
  by (simp_all add: service_ok_def)

lemma service_ok_mono: "service_ok lib h T s \<Longrightarrow> T \<subseteq> U \<Longrightarrow> service_ok lib h U s"
  using context_ok_mono by (auto simp: service_ok_def)

lemma service_ok_prepare:
  assumes "service_ok lib h T s"
  shows "service_ok lib h (T \<union> {t, u}) (snd (prepare_tls lib free (c, k, t) cb (c', k', u) s))"
proof -
  let ?s = "s\<lparr>sv_lock := sv_lock s \<or> sv_acme s\<rparr>"
  have 1: "service_ok lib h (insert t T) (snd (service_reloads lib (c, k, t) ?s))" using service_ok_reloads assms by simp
  then have 2: "service_ok lib h (insert u (insert t T)) (snd (service_reloads lib (c', k', u) (snd (service_reloads lib (c, k, t) ?s))))"
    by (rule service_ok_reloads)
  have sub: "insert t T \<subseteq> T \<union> {t, u}" "insert u (insert t T) = T \<union> {t, u}" "T \<subseteq> T \<union> {t, u}" by auto
  show ?thesis using service_ok_mono [OF 1 sub(1)] 2 [unfolded sub(2)] service_ok_mono [OF assms sub(3)]
    by (auto simp: prepare_tls_def split: prod.splits option.splits)
qed

lemma service_ok_step: "service_ok lib h T s \<Longrightarrow> service_ok lib h (T \<union> read_times ev) (tls_step lib ev s)"
proof (cases ev)
  case (Prepare_tls free r cb r')
  assume "service_ok lib h T s"
  obtain c k t c' k' u where r: "r = (c, k, t)" "r' = (c', k', u)" by (cases r; cases r')
  show ?thesis using service_ok_prepare [OF \<open>service_ok lib h T s\<close>, of t u free c k cb c' k'] Prepare_tls r by (simp add: read_times_def)
next
  case (Worker_round b v i r)
  assume s: "service_ok lib h T s"
  obtain c k t where r: "r = (c, k, t)" by (cases r)
  have "service_ok lib h (insert t T) (snd (service_reloads lib (c, k, t) s))"
    "service_ok lib h (insert t T) (snd (service_reloads lib (c, k, t) (s\<lparr>sv_renewal := x\<rparr>)))" for x
    using service_ok_reloads s by simp_all
  then show ?thesis using Worker_round r service_ok_mono [OF s, of "insert t T"] by (auto simp: worker_round_def read_times_def)
qed (auto simp: read_times_def start_tls_def close_tls_def)

lemma service_ok_run: "service_ok lib h T s \<Longrightarrow> service_ok lib h (T \<union> \<Union> (read_times ` set evs)) (tls_run lib evs s)"
proof (induction evs arbitrary: T s)
  case (Cons ev evs)
  from Cons.IH [OF service_ok_step [OF Cons.prems, of ev]] show ?case by (simp add: tls_run_def Un_assoc)
qed (simp add: tls_run_def)

lemma prepared_has_context:
  assumes "prepare_tls lib free r cb r' s = (Inr (), s')" "context_ok lib h T (sv_context s)" shows "cx_active (sv_context s') \<noteq> None"
proof -
  have reloaded: "cx_active x \<noteq> None" if "reload_context lib g c k t y = (Some b, x)" "context_ok lib h T y" for g c k t y b x
    using that by (auto simp: reload_context_def context_ok_def split: option.splits list.splits if_splits)
  have kept: "x = y" if "reload_context lib g c k t y = (None, x)" for g c k t y x
    using rejected_reload_changes_nothing [of lib g c k t y] that by simp
  have "\<exists>c k t g b. reload_context lib g c k t (sv_context s) = (Some b, sv_context s')"
    using assms(1) kept by (auto simp: prepare_tls_def service_reloads_def split: if_splits prod.splits option.splits) blast+
  then show ?thesis using reloaded assms(2) by blast
qed

text \<open>C37: A listener only ever serves a certificate that is good: whatever is read, rejected, renewed or raced between the two
  files, the certificate a client gets at some time was read together with its own key, its chain names the owner's
  host, and every certificate of it is valid at that time; and once \<open>prepare\<close> has returned there is one to serve, so
  no listener opens without.\<close>

theorem served_certificate_is_valid:
  assumes "s = tls_run lib evs (new_service config)" and "\<forall>ev \<in> set evs. \<forall>t \<in> read_times ev. t \<le> now"
  shows "(\<forall>c k. select_context now (sv_context s) = Some (c, k) \<longrightarrow>
      (\<exists>leaf rest. pem_chain lib c = Some (leaf # rest) \<and> list_all (valid_at now) (leaf # rest)
         \<and> cert_matches lib leaf (tl_hostname config) = Some True \<and> pem_pair lib c k))
    \<and> (\<forall>free r cb r' s'. prepare_tls lib free r cb r' s = (Inr (), s') \<longrightarrow> fst (start_tls s') = Inr ())"
proof (intro conjI allI impI)
  have "service_ok lib (tl_hostname config) {} (new_service config)" by (simp add: service_ok_def context_ok_def new_service_def no_context_def)
  from service_ok_run [OF this, of evs] have o: "context_ok lib (tl_hostname config) (\<Union> (read_times ` set evs)) (sv_context s)"
    using assms(1) by (simp add: service_ok_def)
  fix c k assume sel: "select_context now (sv_context s) = Some (c, k)"
  then obtain e where e: "cx_active (sv_context s) = Some (c, k)" "cx_expires (sv_context s) = Some e" "now < e"
    by (auto simp: select_context_def split: option.splits if_splits)
  then obtain leaf rest t where l: "pem_chain lib c = Some (leaf # rest)" "t \<in> \<Union> (read_times ` set evs)" "list_all (valid_at t) (leaf # rest)"
    "cert_matches lib leaf (tl_hostname config) = Some True" "pem_pair lib c k" "e = earliest (map ce_until (leaf # rest))"
    using o by (auto simp: context_ok_def)
  have "valid_at now x" if "x \<in> set (leaf # rest)" for x
  proof -
    have "earliest (map ce_until (leaf # rest)) \<le> ce_until x" using that by (intro earliest_le) auto
    moreover have "ce_from x \<le> t" "t \<le> now" using l(2,3) that assms(2) by (auto simp: list_all_iff valid_at_def)
    ultimately show ?thesis using e(3) l(6) by (simp add: valid_at_def)
  qed
  then show "\<exists>leaf rest. pem_chain lib c = Some (leaf # rest) \<and> list_all (valid_at now) (leaf # rest)
         \<and> cert_matches lib leaf (tl_hostname config) = Some True \<and> pem_pair lib c k"
    using l by (intro exI [of _ leaf] exI [of _ rest]) (simp add: list_all_iff)
next
  have "service_ok lib (tl_hostname config) {} (new_service config)" by (simp add: service_ok_def context_ok_def new_service_def no_context_def)
  from service_ok_run [OF this, of evs] have o: "context_ok lib (tl_hostname config) (\<Union> (read_times ` set evs)) (sv_context s)"
    using assms(1) by (simp add: service_ok_def)
  fix free r cb r' s' assume "prepare_tls lib free r cb r' s = (Inr (), s')"
  from prepared_has_context [OF this o] show "fst (start_tls s') = Inr ()" by (simp add: start_tls_def)
qed

section \<open>An example\<close>

definition example_pem :: pem_lib where
  "example_pem = \<lparr> pem_chain = (\<lambda>c. if c = [1] then Some [\<lparr> ce_from = 0, ce_until = 100, ce_names = Some ([''*.local''], []) \<rparr>] else None),
     pem_pair = (=), pem_address = (\<lambda>_. None) \<rparr>"

definition example_tls :: tls_config where
  "example_tls = no_tls\<lparr>tl_enabled := True, tl_hostname := ''Box.local''\<rparr>"

lemma served_certificate_is_valid_witness:
  "select_context 50 (sv_context (tls_run example_pem [Prepare_tls True (Some [1], Some [1], 10) False (None, None, 10)] (new_service example_tls))) = Some ([1], [1])
   \<and> (\<exists>leaf rest. pem_chain example_pem [1] = Some (leaf # rest) \<and> list_all (valid_at 50) (leaf # rest)
        \<and> cert_matches example_pem leaf ''Box.local'' = Some True \<and> pem_pair example_pem [1] [1])"
proof -
  have covers: "name_covers (lower ''*.local'') (lower ''Box.local'')" by code_simp
  let ?evs = "[Prepare_tls True (Some [1], Some [1], 10) False (None, None, 10)]"
  have sel: "select_context 50 (sv_context (tls_run example_pem ?evs (new_service example_tls))) = Some ([1], [1])"
    by (simp add: tls_run_def prepare_tls_def service_reloads_def reload_context_def new_service_def example_tls_def no_tls_def no_context_def example_pem_def
        valid_at_def cert_matches_def covers select_context_def)
  have times: "\<forall>ev \<in> set ?evs. \<forall>t \<in> read_times ev. t \<le> 50" by (simp add: read_times_def)
  show ?thesis using served_certificate_is_valid [OF refl times, of example_pem example_tls] sel by (simp add: example_tls_def)
qed

end
