(* ===== verification/Device_Activity.thy ===== *)
theory Device_Activity
  imports Event_Machine Vauxr_Prelude
begin

text \<open>
  \<open>realtime/device_activity.py\<close>: what a physical device shows of a live session. The activity of the session is
  one of five states; a tick, under a lock, moves it on and tells the device with the control messages its firmware
  knows. Everything else that happens (audio in, transcripts, provider audio, delegations, writes to the output, frames
  taken from its track, an interruption, a stop) runs between the two halves of a tick. Every step runs from one await to
  the next and reads the clock once; \<open>None\<close> for a moment is the time before everything. Voice detection and the
  loudness of a frame are arguments of the events.
\<close>

datatype activity = Startup | Listening | Hears_user | Processing | Speaks
datatype shown = Audio_end bool | Audio_start | Speech_start
datatype tick = No_tick | Sends shown nat time | Gives_up
datatype vad = Vad_speaking | Vad_quiet | Vad_other

record session_view =
  vw_closed :: bool
  vw_ended :: bool
  vw_control :: bool
  vw_started :: bool
  vw_paused :: bool

record device_activity =
  da_session :: session_view
  da_state :: activity
  da_changed :: time
  da_sent :: "time option"
  da_output :: "time option"
  da_input :: "time option"
  da_user :: bool
  da_processing :: bool
  da_closed :: bool
  da_ready :: bool
  da_delegations :: "string list"
  da_writes :: int
  da_epoch :: nat
  da_revision :: nat
  da_had :: bool
  da_tick :: tick
  da_stops :: nat
  da_running :: "nat list"
  da_listens :: "nat list"
  da_receives :: "nat list"
  da_told :: "shown list"
  da_touched :: "time option"
  da_ending :: bool

definition quiet_gap :: time where "quiet_gap = 1"
definition work_limit :: time where "work_limit = 300"
definition start_limit :: time where "start_limit = 15"

definition new_activity :: "session_view \<Rightarrow> time \<Rightarrow> device_activity" where
  "new_activity v now = \<lparr> da_session = v, da_state = Startup, da_changed = now, da_sent = None, da_output = None, da_input = None,
     da_user = False, da_processing = False, da_closed = False, da_ready = False, da_delegations = [], da_writes = 0, da_epoch = 0,
     da_revision = 0, da_had = False, da_tick = No_tick, da_stops = 0, da_running = [], da_listens = [], da_receives = [], da_told = [],
     da_touched = None, da_ending = False \<rparr>"

definition owns :: "device_activity \<Rightarrow> bool" where
  "owns s \<longleftrightarrow> \<not> da_closed s \<and> \<not> vw_closed (da_session s) \<and> \<not> vw_ended (da_session s) \<and> vw_control (da_session s)"

definition admitted :: "device_activity \<Rightarrow> bool" where
  "admitted s \<longleftrightarrow> owns s \<and> vw_started (da_session s) \<and> \<not> vw_paused (da_session s)"

definition set_activity :: "activity \<Rightarrow> time \<Rightarrow> device_activity \<Rightarrow> device_activity" where
  "set_activity a now s =
    (if da_state s = a then s else s\<lparr>da_state := a, da_revision := da_revision s + 1, da_changed := now, da_sent := None\<rparr>)"

text \<open>\<open>now - moment\<close> is at least, or more than, the gap\<close>

definition quiet_for :: "time \<Rightarrow> time \<Rightarrow> time option \<Rightarrow> bool" where
  "quiet_for gap now m \<longleftrightarrow> (case m of None \<Rightarrow> True | Some t \<Rightarrow> now - t \<ge> gap)"

definition quiet_over :: "time \<Rightarrow> time \<Rightarrow> time option \<Rightarrow> bool" where
  "quiet_over gap now m \<longleftrightarrow> (case m of None \<Rightarrow> True | Some t \<Rightarrow> now - t > gap)"

section \<open>What happens in the session\<close>

definition listen_begins :: "device_activity \<Rightarrow> device_activity" where
  "listen_begins s = (if admitted s then s\<lparr>da_listens := da_epoch s # da_listens s\<rparr> else s)"

definition heard :: "time \<Rightarrow> vad \<Rightarrow> device_activity \<Rightarrow> device_activity" where
  "heard now v s =
    (if v = Vad_speaking then
       (let s = s\<lparr>da_input := Some now\<rparr> in
        if \<not> da_user s then set_activity Hears_user now (s\<lparr>da_user := True, da_processing := False\<rparr>) else s)
     else if v = Vad_quiet \<and> da_user s then
       (let s = s\<lparr>da_user := False\<rparr> in
        if da_state s \<noteq> Speaks then set_activity Processing now (s\<lparr>da_processing := True\<rparr>) else s)
     else s)"

definition listen_ends :: "nat \<Rightarrow> time \<Rightarrow> vad \<Rightarrow> device_activity \<Rightarrow> device_activity" where
  "listen_ends e now v s =
    (if e \<notin> set (da_listens s) then s
     else let s = s\<lparr>da_listens := remove1 e (da_listens s)\<rparr> in
       if e \<noteq> da_epoch s \<or> \<not> admitted s then s else heard now v s)"

definition transcript_comes :: "bool \<Rightarrow> string \<Rightarrow> time \<Rightarrow> device_activity \<Rightarrow> device_activity" where
  "transcript_comes user delta now s =
    (if strip delta = [] \<or> \<not> admitted s then s
     else if user then set_activity (if da_user s then Hears_user else Processing) now (s\<lparr>da_input := Some now, da_processing := True\<rparr>)
     else set_activity Speaks now (s\<lparr>da_output := Some now, da_processing := False\<rparr>))"

definition provider_audio :: "bool \<Rightarrow> time \<Rightarrow> device_activity \<Rightarrow> device_activity" where
  "provider_audio loud now s =
    (if admitted s \<and> loud then set_activity Speaks now (s\<lparr>da_processing := False, da_output := Some now\<rparr>) else s)"

definition delegation :: "string \<Rightarrow> bool \<Rightarrow> time \<Rightarrow> device_activity \<Rightarrow> device_activity" where
  "delegation key active now s =
    (if \<not> admitted s then s
     else if active then
       (let s = s\<lparr>da_delegations := List.insert key (da_delegations s)\<rparr> in
        if da_state s \<noteq> Speaks then set_activity Processing now s else s)
     else
       (let s = s\<lparr>da_delegations := removeAll key (da_delegations s)\<rparr> in
        if da_delegations s = [] then s\<lparr>da_processing := False\<rparr> else s))"

definition write_begins :: "bool \<Rightarrow> device_activity \<Rightarrow> device_activity" where
  "write_begins loud s =
    (if admitted s \<and> loud then s\<lparr>da_writes := da_writes s + 1, da_running := da_epoch s # da_running s\<rparr> else s)"

definition write_ends :: "nat \<Rightarrow> device_activity \<Rightarrow> device_activity" where
  "write_ends e s =
    (if e \<notin> set (da_running s) then s
     else s\<lparr>da_running := remove1 e (da_running s), da_writes := (if e = da_epoch s then da_writes s - 1 else da_writes s)\<rparr>)"

definition receive_begins :: "device_activity \<Rightarrow> device_activity" where
  "receive_begins s = s\<lparr>da_receives := da_epoch s # da_receives s\<rparr>"

definition receive_ends :: "nat \<Rightarrow> bool \<Rightarrow> time \<Rightarrow> device_activity \<Rightarrow> device_activity" where
  "receive_ends e loud now s =
    (if e \<notin> set (da_receives s) then s
     else let s = s\<lparr>da_receives := remove1 e (da_receives s)\<rparr> in
       if e = da_epoch s \<and> admitted s \<and> loud then set_activity Speaks now (s\<lparr>da_output := Some now, da_processing := False\<rparr>) else s)"

section \<open>Stopping\<close>

definition close_activity :: "device_activity \<Rightarrow> device_activity" where
  "close_activity s = s\<lparr>da_closed := True, da_epoch := da_epoch s + 1\<rparr>"

definition stop_begins :: "device_activity \<Rightarrow> device_activity" where
  "stop_begins s = (if da_closed s then s else if owns s then s\<lparr>da_stops := da_stops s + 1\<rparr> else close_activity s)"

definition after_stop :: "bool \<Rightarrow> device_activity \<Rightarrow> device_activity" where
  "after_stop ok s = (close_activity (s\<lparr>da_told := da_told s @ (if ok then [Audio_end False] else [])\<rparr>))\<lparr>da_ending := True\<rparr>"

definition stop_ends :: "bool \<Rightarrow> device_activity \<Rightarrow> device_activity" where
  "stop_ends ok s = (if da_stops s = 0 then s else after_stop ok (s\<lparr>da_stops := da_stops s - 1\<rparr>))"

section \<open>Ticks\<close>

text \<open>The message of a state; the one for transcripts would mute the microphone.\<close>

fun control_of :: "activity \<Rightarrow> shown" where
  "control_of Listening = Audio_end True"
| "control_of Speaks = Audio_start"
| "control_of _ = Speech_start"

text \<open>A stop within a tick keeps the lock.\<close>

definition tick_stops :: "device_activity \<Rightarrow> device_activity" where
  "tick_stops s =
    (if da_closed s then s\<lparr>da_tick := No_tick\<rparr>
     else if owns s then s\<lparr>da_tick := Gives_up\<rparr>
     else (close_activity s)\<lparr>da_tick := No_tick\<rparr>)"

definition after_speech :: "time \<Rightarrow> device_activity \<Rightarrow> device_activity" where
  "after_speech now s =
    (if da_state s = Hears_user \<and> quiet_over quiet_gap now (da_input s)
     then set_activity Processing now (s\<lparr>da_user := False, da_processing := True\<rparr>) else s)"

definition after_output :: "time \<Rightarrow> device_activity \<Rightarrow> device_activity" where
  "after_output now s =
    (if da_state s = Speaks \<and> da_writes s = 0 \<and> quiet_for quiet_gap now (da_output s)
     then set_activity (if da_user s then Hears_user else if da_delegations s \<noteq> [] \<or> da_processing s then Processing else Listening) now s
     else s)"

definition after_work :: "time \<Rightarrow> device_activity \<Rightarrow> device_activity" where
  "after_work now s =
    (if da_state s = Processing \<and> \<not> da_processing s \<and> da_delegations s = [] then set_activity Listening now s else s)"

definition tick_tells :: "time \<Rightarrow> device_activity \<Rightarrow> device_activity" where
  "tick_tells now s =
    (if da_state s \<noteq> Listening \<and> now - da_changed s \<ge> work_limit then tick_stops s
     else if da_state s = Listening then
       (if da_sent s \<noteq> None then s else s\<lparr>da_tick := Sends (control_of Listening) (da_revision s) now\<rparr>)
     else if \<not> quiet_for 1 now (da_sent s) then s
     else s\<lparr>da_tick := Sends (control_of (da_state s)) (da_revision s) now\<rparr>)"

definition tick_begins :: "time \<Rightarrow> device_activity \<Rightarrow> device_activity" where
  "tick_begins now s =
    (if da_tick s \<noteq> No_tick \<or> \<not> admitted s then s
     else if da_state s = Startup \<and> \<not> da_ready s \<and> now - da_changed s \<ge> start_limit then tick_stops s
     else
       tick_tells now (after_work now (after_output now (after_speech now
         (if da_state s = Startup \<and> da_ready s then set_activity Listening now s else s)))))"

definition tick_ends :: "bool \<Rightarrow> device_activity \<Rightarrow> device_activity" where
  "tick_ends ok s = (case da_tick s of
     No_tick \<Rightarrow> s
   | Gives_up \<Rightarrow> after_stop ok (s\<lparr>da_tick := No_tick\<rparr>)
   | Sends m r now \<Rightarrow>
       if \<not> ok then tick_stops s
       else let s = s\<lparr>da_tick := No_tick, da_told := da_told s @ [m]\<rparr> in
         if r = da_revision s \<and> admitted s then s\<lparr>da_sent := Some now, da_touched := Some now\<rparr> else s)"

definition tick_cancelled :: "device_activity \<Rightarrow> device_activity" where
  "tick_cancelled s = s\<lparr>da_tick := No_tick\<rparr>"

text \<open>A round of the loop: the session is registered after the loop has begun.\<close>

definition run_round :: "time \<Rightarrow> device_activity \<Rightarrow> device_activity" where
  "run_round now s =
    (if da_closed s \<or> vw_closed (da_session s) then s
     else if owns s then tick_begins now (s\<lparr>da_had := True\<rparr>)
     else if da_had s then close_activity s else s)"

definition interrupted :: "time \<Rightarrow> device_activity \<Rightarrow> device_activity" where
  "interrupted now s =
    (if \<not> admitted s then s
     else tick_begins now (set_activity Listening now (s\<lparr>da_epoch := da_epoch s + 1, da_writes := 0, da_processing := False, da_user := False,
       da_output := None\<rparr>)))"

section \<open>Events of the provider\<close>

datatype provider_event = Session_started | Session_over | Delegation_created string | Response_over string | Other_event

fun provider_comes :: "provider_event \<Rightarrow> time \<Rightarrow> device_activity \<Rightarrow> device_activity" where
  "provider_comes Session_started now s = s\<lparr>da_ready := True\<rparr>"
| "provider_comes Session_over now s = stop_begins s"
| "provider_comes (Delegation_created key) now s = delegation key True now s"
| "provider_comes (Response_over key) now s = delegation key False now s"
| "provider_comes Other_event now s = s"

section \<open>Runs\<close>

datatype activity_event = Session_is session_view | Listen_begins | Listen_ends nat time vad | Transcript_comes bool string time
  | Provider_audio bool time | Write_begins bool | Write_ends nat | Receive_begins | Receive_ends nat bool time
  | Run_round time | Tick_waited time | Tick_ends bool | Tick_cancelled | Interrupted time | Stop_ends bool | Closes | Provider provider_event time

fun activity_step :: "activity_event \<Rightarrow> device_activity \<Rightarrow> device_activity" where
  "activity_step (Session_is v) s = s\<lparr>da_session := v\<rparr>"
| "activity_step Listen_begins s = listen_begins s"
| "activity_step (Listen_ends e now v) s = listen_ends e now v s"
| "activity_step (Transcript_comes u d now) s = transcript_comes u d now s"
| "activity_step (Provider_audio loud now) s = provider_audio loud now s"
| "activity_step (Write_begins loud) s = write_begins loud s"
| "activity_step (Write_ends e) s = write_ends e s"
| "activity_step Receive_begins s = receive_begins s"
| "activity_step (Receive_ends e loud now) s = receive_ends e loud now s"
| "activity_step (Run_round now) s = run_round now s"
| "activity_step (Tick_waited now) s = tick_begins now s"
| "activity_step (Tick_ends ok) s = tick_ends ok s"
| "activity_step Tick_cancelled s = tick_cancelled s"
| "activity_step (Interrupted now) s = interrupted now s"
| "activity_step (Stop_ends ok) s = stop_ends ok s"
| "activity_step Closes s = close_activity s"
| "activity_step (Provider ev now) s = provider_comes ev now s"

definition activity_run :: "activity_event list \<Rightarrow> device_activity \<Rightarrow> device_activity" where
  "activity_run evs s = fold activity_step evs s"

lemma activity_run_simps [simp]: "activity_run [] s = s" "activity_run (ev # evs) s = activity_run evs (activity_step ev s)"
  by (simp_all add: activity_run_def)


lemmas activity_defs = listen_begins_def listen_ends_def heard_def transcript_comes_def provider_audio_def delegation_def write_begins_def
  write_ends_def receive_begins_def receive_ends_def run_round_def tick_begins_def tick_tells_def after_work_def after_output_def
  after_speech_def tick_cancelled_def interrupted_def Let_def

section \<open>Counting the writes\<close>

definition writes_ok :: "device_activity \<Rightarrow> bool" where
  "writes_ok s \<longleftrightarrow> (\<forall>e \<in> set (da_running s). e \<le> da_epoch s)
     \<and> (\<not> da_closed s \<longrightarrow> da_writes s = int (count_list (da_running s) (da_epoch s)))"

text \<open>What is told is the activity, what is being told too unless the activity has changed since.\<close>

definition told_ok :: "device_activity \<Rightarrow> bool" where
  "told_ok s \<longleftrightarrow> (\<not> da_closed s \<and> da_sent s \<noteq> None \<longrightarrow> da_told s \<noteq> [] \<and> last (da_told s) = control_of (da_state s))
     \<and> (case da_tick s of
          Sends m r _ \<Rightarrow> r \<le> da_revision s \<and> (if r = da_revision s then m = control_of (da_state s) else da_sent s = None)
        | _ \<Rightarrow> True)
     \<and> (da_state s = Hears_user \<longrightarrow> da_user s)"

lemma set_activity_fields [simp]:
  "da_session (set_activity a now s) = da_session s" "da_closed (set_activity a now s) = da_closed s" "da_running (set_activity a now s) = da_running s"
  "da_epoch (set_activity a now s) = da_epoch s" "da_writes (set_activity a now s) = da_writes s" "da_tick (set_activity a now s) = da_tick s"
  "da_told (set_activity a now s) = da_told s" "da_state (set_activity a now s) = a" "da_user (set_activity a now s) = da_user s"
  "da_processing (set_activity a now s) = da_processing s" "da_delegations (set_activity a now s) = da_delegations s"
  "da_output (set_activity a now s) = da_output s" "da_input (set_activity a now s) = da_input s" "da_ready (set_activity a now s) = da_ready s"
  by (auto simp: set_activity_def)

lemma writes_ok_set_activity [simp]: "writes_ok (set_activity a now s) = writes_ok s" by (simp add: writes_ok_def)

lemma writes_fields [simp]:
  "writes_ok (s\<lparr>da_session := v\<rparr>) = writes_ok s" "writes_ok (s\<lparr>da_listens := es\<rparr>) = writes_ok s" "writes_ok (s\<lparr>da_receives := es\<rparr>) = writes_ok s"
  "writes_ok (s\<lparr>da_input := t\<rparr>) = writes_ok s" "writes_ok (s\<lparr>da_output := t\<rparr>) = writes_ok s" "writes_ok (s\<lparr>da_user := b\<rparr>) = writes_ok s"
  "writes_ok (s\<lparr>da_processing := b\<rparr>) = writes_ok s" "writes_ok (s\<lparr>da_delegations := ks\<rparr>) = writes_ok s" "writes_ok (s\<lparr>da_tick := k\<rparr>) = writes_ok s"
  "writes_ok (s\<lparr>da_sent := t\<rparr>) = writes_ok s" "writes_ok (s\<lparr>da_touched := t\<rparr>) = writes_ok s" "writes_ok (s\<lparr>da_told := ts\<rparr>) = writes_ok s"
  "writes_ok (s\<lparr>da_had := b\<rparr>) = writes_ok s" "writes_ok (s\<lparr>da_ready := b\<rparr>) = writes_ok s" "writes_ok (s\<lparr>da_stops := n\<rparr>) = writes_ok s"
  "writes_ok (s\<lparr>da_ending := b\<rparr>) = writes_ok s"
  by (simp_all add: writes_ok_def)

lemma writes_ok_close [simp]: "writes_ok s \<Longrightarrow> writes_ok (close_activity s)"
  by (auto simp: close_activity_def writes_ok_def)

lemma writes_ok_stops: "writes_ok s \<Longrightarrow> writes_ok (stop_begins s)" "writes_ok s \<Longrightarrow> writes_ok (after_stop ok s)"
  "writes_ok s \<Longrightarrow> writes_ok (stop_ends ok s)" "writes_ok s \<Longrightarrow> writes_ok (tick_stops s)"
  by (auto simp: stop_begins_def after_stop_def stop_ends_def tick_stops_def)

lemma writes_ok_tick: "writes_ok s \<Longrightarrow> writes_ok (tick_begins now s)" "writes_ok s \<Longrightarrow> writes_ok (tick_ends ok s)"
  by (auto simp: tick_begins_def tick_tells_def after_work_def after_output_def after_speech_def tick_ends_def Let_def writes_ok_stops split: tick.splits)

lemma writes_ok_interrupted: "writes_ok s \<Longrightarrow> writes_ok (interrupted now s)"
proof -
  assume w: "writes_ok s"
  then have "count_list (da_running s) (Suc (da_epoch s)) = 0" unfolding writes_ok_def by (auto simp: count_list_0_iff)
  then have "writes_ok (s\<lparr>da_epoch := da_epoch s + 1, da_writes := 0, da_processing := False, da_user := False, da_output := None\<rparr>)"
    using w by (auto simp: writes_ok_def)
  then show ?thesis using w by (simp add: interrupted_def writes_ok_tick)
qed

lemma count_minus: "x \<in> set xs \<Longrightarrow> int (count_list xs x - Suc 0) = int (count_list xs x) - 1"
  using count_list_0_iff [of xs x] by (cases "count_list xs x") auto

lemma writes_ok_writes: "writes_ok s \<Longrightarrow> writes_ok (write_begins loud s)" "writes_ok s \<Longrightarrow> writes_ok (write_ends e s)"
  by (auto simp: write_begins_def write_ends_def writes_ok_def count_minus dest: set_remove1_subset [THEN subsetD])

lemma writes_ok_step: "writes_ok s \<Longrightarrow> writes_ok (activity_step ev s)"
proof (cases ev)
  case (Provider p now)
  assume "writes_ok s" then show ?thesis using Provider by (cases p) (auto simp: delegation_def Let_def writes_ok_stops)
qed (auto simp: listen_begins_def listen_ends_def heard_def transcript_comes_def provider_audio_def delegation_def receive_begins_def receive_ends_def
   run_round_def tick_cancelled_def Let_def writes_ok_tick writes_ok_stops writes_ok_interrupted writes_ok_writes)


interpretation writing: event_machine activity_step writes_ok
  by unfold_locales (rule writes_ok_step)

lemma writes_ok_run: "writes_ok s \<Longrightarrow> writes_ok (activity_run evs s)"
  unfolding activity_run_def by (rule writing.every_run)

section \<open>What the device shows\<close>

lemma told_ok_set_activity: "told_ok s \<Longrightarrow> (a = Hears_user \<Longrightarrow> da_user s) \<Longrightarrow> told_ok (set_activity a now s)"
  by (auto simp: told_ok_def set_activity_def split: tick.splits)

lemma told_fields [simp]:
  "told_ok (s\<lparr>da_session := v\<rparr>) = told_ok s" "told_ok (s\<lparr>da_listens := es\<rparr>) = told_ok s" "told_ok (s\<lparr>da_receives := es\<rparr>) = told_ok s"
  "told_ok (s\<lparr>da_input := t\<rparr>) = told_ok s" "told_ok (s\<lparr>da_output := t\<rparr>) = told_ok s" "told_ok (s\<lparr>da_processing := b\<rparr>) = told_ok s"
  "told_ok (s\<lparr>da_delegations := ks\<rparr>) = told_ok s" "told_ok (s\<lparr>da_touched := t\<rparr>) = told_ok s" "told_ok (s\<lparr>da_had := b\<rparr>) = told_ok s"
  "told_ok (s\<lparr>da_ready := b\<rparr>) = told_ok s" "told_ok (s\<lparr>da_stops := n\<rparr>) = told_ok s" "told_ok (s\<lparr>da_ending := b\<rparr>) = told_ok s"
  "told_ok (s\<lparr>da_running := es\<rparr>) = told_ok s" "told_ok (s\<lparr>da_writes := i\<rparr>) = told_ok s" "told_ok (s\<lparr>da_epoch := n\<rparr>) = told_ok s"
  by (simp_all add: told_ok_def split: tick.splits)

lemma told_ok_user: "told_ok s \<Longrightarrow> told_ok (s\<lparr>da_user := True\<rparr>)"
  "told_ok s \<Longrightarrow> a \<noteq> Hears_user \<Longrightarrow> told_ok (set_activity a now (s\<lparr>da_user := b\<rparr>))"
  "told_ok s \<Longrightarrow> da_state s \<noteq> Hears_user \<Longrightarrow> told_ok (s\<lparr>da_user := b\<rparr>)"
  by (auto simp: told_ok_def set_activity_def split: tick.splits)

lemma told_ok_turns:
  assumes "told_ok s" "a \<noteq> Hears_user" "da_state s' = da_state s" "da_revision s' = da_revision s" "da_sent s' = da_sent s"
    "da_closed s' = da_closed s" "da_told s' = da_told s" "da_tick s' = da_tick s"
  shows "told_ok (set_activity a now s')"
  using assms by (auto simp: told_ok_def set_activity_def split: tick.splits)

lemma told_ok_free [simp]: "told_ok s \<Longrightarrow> told_ok (s\<lparr>da_tick := No_tick\<rparr>)" "told_ok s \<Longrightarrow> told_ok (s\<lparr>da_tick := Gives_up\<rparr>)"
  by (auto simp: told_ok_def)

lemma told_ok_close [simp]: "told_ok s \<Longrightarrow> told_ok (close_activity s)" "told_ok s \<Longrightarrow> told_ok (after_stop ok s)"
  by (auto simp: close_activity_def after_stop_def told_ok_def split: tick.splits)

lemma told_ok_stops: "told_ok s \<Longrightarrow> told_ok (stop_begins s)" "told_ok s \<Longrightarrow> told_ok (stop_ends ok s)" "told_ok s \<Longrightarrow> told_ok (tick_stops s)"
  by (auto simp: stop_begins_def stop_ends_def tick_stops_def)

lemma told_ok_tells: "told_ok s \<Longrightarrow> told_ok (tick_tells now s)"
  unfolding tick_tells_def using told_ok_stops(3) by (auto simp: told_ok_def split: tick.splits)

lemma told_ok_after_speech: "told_ok s \<Longrightarrow> told_ok (after_speech now s)"
  by (auto simp: after_speech_def intro!: told_ok_turns [of s])

lemma told_ok_moves: "told_ok s \<Longrightarrow> told_ok (after_output now s)" "told_ok s \<Longrightarrow> told_ok (after_work now s)"
  by (auto simp: after_output_def after_work_def intro!: told_ok_set_activity)

lemma told_ok_begins: "told_ok s \<Longrightarrow> told_ok (tick_begins now s)"
  by (auto simp: tick_begins_def intro!: told_ok_stops told_ok_tells told_ok_moves told_ok_after_speech told_ok_set_activity)

lemma told_ok_ends: "told_ok s \<Longrightarrow> told_ok (tick_ends ok s)"
proof (cases "da_tick s")
  case (Sends m r now)
  assume t: "told_ok s"
  show ?thesis
  proof (cases "ok \<and> r = da_revision s")
    case True
    then show ?thesis using t Sends by (auto simp: tick_ends_def told_ok_def Let_def)
  next
    case False
    then show ?thesis using t Sends told_ok_stops(3) [OF t] by (auto simp: tick_ends_def told_ok_def Let_def)
  qed
qed (simp_all add: tick_ends_def)

lemma told_ok_interrupted: "told_ok s \<Longrightarrow> told_ok (interrupted now s)"
  by (auto simp: interrupted_def intro!: told_ok_begins told_ok_turns [of s])

lemma told_ok_delegation: "told_ok s \<Longrightarrow> told_ok (delegation key active now s)"
  by (auto simp: delegation_def Let_def intro!: told_ok_set_activity)

lemma told_ok_heard: "told_ok s \<Longrightarrow> told_ok (heard now v s)"
proof (cases "v = Vad_speaking")
  case True
  assume "told_ok s" then show ?thesis using True by (auto simp: heard_def Let_def intro!: told_ok_set_activity told_ok_user(1))
next
  case False
  assume "told_ok s" then show ?thesis using False by (auto simp: heard_def Let_def intro!: told_ok_turns [of s] told_ok_user(3))
qed

lemma told_ok_step: "told_ok s \<Longrightarrow> told_ok (activity_step ev s)"
proof (cases ev)
  case (Provider p now)
  assume "told_ok s" then show ?thesis using Provider by (cases p) (auto simp: told_ok_stops told_ok_delegation)
qed (auto simp: listen_begins_def listen_ends_def transcript_comes_def provider_audio_def receive_begins_def receive_ends_def write_begins_def write_ends_def
   run_round_def tick_cancelled_def Let_def told_ok_begins told_ok_ends told_ok_stops told_ok_interrupted told_ok_heard intro!: told_ok_set_activity)

interpretation telling: event_machine activity_step told_ok
  by unfold_locales (rule told_ok_step)

lemma told_ok_run: "told_ok s \<Longrightarrow> told_ok (activity_run evs s)"
  unfolding activity_run_def by (rule telling.every_run)

lemma activity_begins: "writes_ok (new_activity v now)" "told_ok (new_activity v now)"
  by (simp_all add: new_activity_def writes_ok_def told_ok_def)


text \<open>Nothing is going on: nobody speaks, nothing is written or worked on, and the output has been quiet for a second.\<close>

definition idle :: "time \<Rightarrow> device_activity \<Rightarrow> bool" where
  "idle now s \<longleftrightarrow> \<not> da_user s \<and> \<not> da_processing s \<and> da_delegations s = [] \<and> da_epoch s \<notin> set (da_running s)
     \<and> quiet_for quiet_gap now (da_output s) \<and> (da_state s = Startup \<longrightarrow> da_ready s)"

definition moved :: "time \<Rightarrow> device_activity \<Rightarrow> device_activity" where
  "moved now s = after_work now (after_output now (after_speech now (if da_state s = Startup \<and> da_ready s then set_activity Listening now s else s)))"

lemma moved_fields: "da_session (moved now s) = da_session s" "da_closed (moved now s) = da_closed s" "da_tick (moved now s) = da_tick s"
  by (simp_all add: moved_def after_work_def after_output_def after_speech_def)

lemma moved_idle: "told_ok s \<Longrightarrow> idle now s \<Longrightarrow> da_writes s = 0 \<Longrightarrow> da_state (moved now s) = Listening"
  by (cases "da_state s") (auto simp: moved_def idle_def after_work_def after_output_def after_speech_def told_ok_def)

definition tells_now :: "time \<Rightarrow> device_activity \<Rightarrow> bool" where
  "tells_now now m \<longleftrightarrow> (if da_state m = Listening then da_sent m = None else quiet_for 1 now (da_sent m))"

lemma tells_cases:
  assumes "\<not> (da_state m \<noteq> Listening \<and> now - da_changed m \<ge> work_limit)"
  shows "tick_tells now m = (if tells_now now m then m\<lparr>da_tick := Sends (control_of (da_state m)) (da_revision m) now\<rparr> else m)"
  using assms by (cases "da_state m = Listening") (simp_all add: tick_tells_def tells_now_def)

lemma sent_before: "\<not> tells_now now m \<Longrightarrow> da_sent m \<noteq> None"
  by (cases "da_sent m") (simp_all add: tells_now_def quiet_for_def split: if_splits)

lemma sent_ends: "admitted m \<Longrightarrow> tick_ends True (m\<lparr>da_tick := Sends c (da_revision m) now\<rparr>)
    = m\<lparr>da_tick := No_tick, da_told := da_told m @ [c], da_sent := Some now, da_touched := Some now\<rparr>"
  by (simp add: tick_ends_def admitted_def owns_def Let_def)

lemma tick_ends_free: "da_tick m = No_tick \<Longrightarrow> tick_ends ok m = m" by (simp add: tick_ends_def)

text \<open>C33: A device shows what its session does. Whatever happened before, when a tick of an admitted session begins and what
  it sends arrives, the last control the device got is the one of the activity the session is in now; only an activity
  other than listening that has lasted for five minutes, or a start-up of fifteen seconds, ends the session, and the
  device is told that. When nothing goes on any more, the tick gives the microphone back.\<close>

theorem device_shows_its_activity:
  assumes "s = activity_run evs (new_activity v t0)" and "da_tick s = No_tick" and "admitted s"
    and "s' = tick_ends True (tick_begins now s)"
  shows "if da_closed s'
    then last (da_told s') = Audio_end False \<and> da_ending s' \<and> da_state s' \<noteq> Listening \<and> \<not> idle now s
      \<and> (now - da_changed s' \<ge> work_limit \<or> da_state s' = Startup \<and> now - da_changed s' \<ge> start_limit)
    else da_told s' \<noteq> [] \<and> last (da_told s') = control_of (da_state s') \<and> (idle now s \<longrightarrow> da_state s' = Listening)"
proof -
  have t: "told_ok s" and w: "writes_ok s" unfolding assms(1) by (auto intro: told_ok_run writes_ok_run activity_begins)
  have o: "owns s" "\<not> da_closed s" using assms(3) by (auto simp: admitted_def owns_def)
  show ?thesis
  proof (cases "da_state s = Startup \<and> \<not> da_ready s \<and> now - da_changed s \<ge> start_limit")
    case True
    then have "s' = after_stop True (s\<lparr>da_tick := No_tick\<rparr>)" using assms(2-4) o by (simp add: tick_begins_def tick_stops_def tick_ends_def)
    then show ?thesis using True by (simp add: after_stop_def close_activity_def idle_def)
  next
    case False
    let ?m = "moved now s"
    have m: "told_ok ?m" using t by (auto simp: moved_def intro!: told_ok_moves told_ok_after_speech told_ok_set_activity)
    have m': "owns ?m" "admitted ?m" "\<not> da_closed ?m" "da_tick ?m = No_tick"
      using o assms(2,3) by (simp_all add: owns_def admitted_def moved_fields)
    have b: "tick_begins now s = tick_tells now ?m" using False assms(2,3) by (auto simp: tick_begins_def moved_def)
    have i: "idle now s \<Longrightarrow> da_state ?m = Listening"
      using moved_idle [OF t] w o by (auto simp: idle_def writes_ok_def count_list_0_iff)
    show ?thesis
    proof (cases "da_state ?m \<noteq> Listening \<and> now - da_changed ?m \<ge> work_limit")
      case True
      then have "s' = after_stop True (?m\<lparr>da_tick := No_tick\<rparr>)" using assms(4) b m' by (simp add: tick_tells_def tick_stops_def tick_ends_def)
      then show ?thesis using True i by (auto simp: after_stop_def close_activity_def)
    next
      case False
      then consider "s' = ?m" "da_sent ?m \<noteq> None" | "s' = ?m\<lparr>da_tick := No_tick, da_told := da_told ?m @ [control_of (da_state ?m)],
          da_sent := Some now, da_touched := Some now\<rparr>"
        using tells_cases [OF False] sent_ends [OF m'(2), of "control_of (da_state ?m)" now] tick_ends_free [OF m'(4)] assms(4) b
          sent_before [of now ?m] by (cases "tells_now now ?m") simp_all
      then show ?thesis
      proof cases
        case 1
        have "da_told ?m \<noteq> [] \<and> last (da_told ?m) = control_of (da_state ?m)" using m 1(2) m'(3) unfolding told_ok_def by blast
        then show ?thesis unfolding 1(1) using m'(3) i by simp
      next
        case 2
        show ?thesis unfolding 2 using m'(3) i by simp
      qed
    qed
  qed
qed


text \<open>What was begun before an interruption changes nothing of the activity after it.\<close>

lemma stale_work_changes_nothing:
  assumes "e < da_epoch s"
  shows "da_state (listen_ends e now v s) = da_state s" "da_state (receive_ends e loud now s) = da_state s"
    "da_writes (write_ends e s) = da_writes s" "da_processing (receive_ends e loud now s) = da_processing s"
  using assms by (simp_all add: listen_ends_def receive_ends_def write_ends_def Let_def)

lemma writes_are_counted: "\<not> da_closed (activity_run evs (new_activity v t0)) \<Longrightarrow> da_writes (activity_run evs (new_activity v t0)) \<ge> 0"
  using writes_ok_run [OF activity_begins(1), of evs v t0] by (simp add: writes_ok_def)

section \<open>An example\<close>

text \<open>A user speaks, the agent answers, its audio is written and the session is quiet again.\<close>

definition example_view :: session_view where
  "example_view = \<lparr> vw_closed = False, vw_ended = False, vw_control = True, vw_started = True, vw_paused = False \<rparr>"

definition example_activity :: "activity_event list" where
  "example_activity = [Provider Session_started 1, Run_round 1, Tick_ends True, Transcript_comes True ''hello'' 2, Run_round 2, Tick_ends True,
     Provider_audio True 3, Write_begins True, Run_round 3, Tick_ends True, Write_ends 0]"

lemmas example_activity_runs = example_activity_def example_view_def new_activity_def owns_def admitted_def set_activity_def
  tick_ends_def quiet_for_def quiet_over_def quiet_gap_def work_limit_def start_limit_def idle_def after_stop_def close_activity_def tick_stops_def

lemma device_shows_its_activity_witness:
  "da_told (activity_run example_activity (new_activity example_view 0)) = [Audio_end True, Speech_start, Audio_start]
   \<and> idle 5 (activity_run example_activity (new_activity example_view 0))
   \<and> last (da_told (tick_ends True (tick_begins 5 (activity_run example_activity (new_activity example_view 0))))) = Audio_end True"
proof -
  let ?s = "activity_run example_activity (new_activity example_view 0)"
  have s: "da_told ?s = [Audio_end True, Speech_start, Audio_start]" "idle 5 ?s" "da_tick ?s = No_tick" "admitted ?s" "\<not> da_closed (tick_ends True (tick_begins 5 ?s))"
    by (code_simp, code_simp, code_simp, code_simp, code_simp)
  show ?thesis using device_shows_its_activity [OF refl s(3,4) refl, of 5] s by simp
qed

end
