(* ===== verification/Realtime_Offer.thy ===== *)
theory Realtime_Offer
  imports Event_Machine Http_Server Authority_Teardown Connection_Laws
begin

text \<open>
  \<open>realtime/app.py\<close>: the request that opens the media of a device, and what stops the media when an authority it
  rests on is revoked. The handler is two steps, before and after it waits for the manager to build the peer
  (\<open>offer_begin\<close> to \<open>offer_started\<close> of \<open>Realtime_Manager\<close>); \<open>close_revoked\<close> is the close of every connection that the
  media holds, again two steps around \<open>manager.stop\<close>. Other connections, closes, teardowns, credentials and the manager
  change freely in between; a connection of the media is released by the code here only, and its close does not return
  before the step that ends it.
\<close>

record admission =
  ad_device :: string
  ad_principal :: principal
  ad_dependencies :: "principal list"
  ad_wake :: "nat option"

record media_world =
  md_auth :: world
  md_manager :: manager
  md_authority :: authority
  md_media :: "(string, nat list) dict"
  md_next :: nat
  md_offers :: "(nat, admission) dict"
  md_stops :: "(nat list \<times> string \<times> pending_stop) list"

section \<open>Before the peer is built\<close>

definition str_of :: "json \<Rightarrow> string option" where
  "str_of j = (case j of JStr s \<Rightarrow> Some s | _ \<Rightarrow> None)"

definition offer_token :: "http_request \<Rightarrow> json \<Rightarrow> json" where
  "offer_token rq body = (if header_or rq ''authorization'' [] \<noteq> [] then bearer rq else jat body ''token'')"

text \<open>The device says who it is once; a header and a token that name different credentials are refused.\<close>

definition offer_principal :: "world \<Rightarrow> http_request \<Rightarrow> json \<Rightarrow> response + principal" where
  "offer_principal A rq body =
    (let p = authenticate A (offer_token rq body); token = jat body ''token'' in
     if \<not> allowed p (Some REALTIME_OFFER) (str_of (jat body ''device_id'')) False
        \<or> header_or rq ''authorization'' [] \<noteq> [] \<and> token \<noteq> JNull \<and> authenticate A token \<noteq> p
     then Inl (if p = None then failure 401 ''unauthorized'' else failure 403 ''forbidden'')
     else Inr (the p))"

definition offer_dependencies :: "world \<Rightarrow> agent option \<Rightarrow> principal list option" where
  "offer_dependencies A active = (case active of
     None \<Rightarrow> Some []
   | Some a \<Rightarrow> if ag_type a \<noteq> Openclaw then Some []
       else let ps = map (principal_of (w_sha256 A)) (filter (\<lambda>r. cr_role r = INTEGRATION \<and> cr_subject r = ag_id a \<and> usable (w_now A) (w_store A) r)
               (sn_records (w_store A))) in
         if ps = [] then None else Some ps)"

definition offer_request :: "http_request \<Rightarrow> media_world \<Rightarrow> (exn + (response + admission)) \<times> media_world" where
  "offer_request rq s = (case rq_json rq of
     Inl _ \<Rightarrow> (Inr (Inl (failure 400 ''Invalid JSON'')), s)
   | Inr body \<Rightarrow>
       if \<not> is_obj body \<or> \<not> has_key body ''sdp'' \<or> \<not> has_key body ''type'' then (Inr (Inl (failure 400 ''Missing sdp/type'')), s)
       else (case offer_principal (md_auth s) rq body of
           Inl r \<Rightarrow> (Inr (Inl r), s)
         | Inr p \<Rightarrow>
             if jat body ''pc_id'' \<noteq> JNull \<or> truthy (jat body ''restart_pc'') then (Inr (Inl (failure 403 ''forbidden'')), s)
             else let device = pr_subject p in
               if \<not> can_accept_offer (md_manager s) device then (Inr (Inl (failure 403 ''No active realtime session'')), s)
               else (case get_active (md_auth s) of
                   (Inl e, A) \<Rightarrow> (Inl e, s\<lparr>md_auth := A\<rparr>)
                 | (Inr active, A) \<Rightarrow> (case offer_dependencies A active of
                       None \<Rightarrow> (Inr (Inl (failure 401 ''unauthorized'')), s\<lparr>md_auth := A\<rparr>)
                     | Some ps \<Rightarrow> (Inr (Inr \<lparr> ad_device = device, ad_principal = p, ad_dependencies = ps,
                         ad_wake = dict_get (rm_wakes (md_manager s)) device \<rparr>), s\<lparr>md_auth := A\<rparr>)))))"

section \<open>After it\<close>

text \<open>What \<open>handle_offer\<close> ended with\<close>

datatype offer_outcome = Offer_conflict | Offer_failed | Offer_answer "json option"

definition retains :: "principal list \<Rightarrow> media_world \<Rightarrow> nat list \<times> media_world" where
  "retains ps s = (let ids = [md_next s ..< md_next s + length ps] in
     (ids, s\<lparr>md_next := md_next s + length ps, md_authority := fold (\<lambda>(i, p). retain i p) (zip ids ps) (md_authority s)\<rparr>))"

definition releases :: "nat list \<Rightarrow> authority \<Rightarrow> authority" where
  "releases ids a = fold release ids a"

definition still_admitted :: "world \<Rightarrow> admission \<Rightarrow> bool" where
  "still_admitted A ad \<longleftrightarrow> current A (Some (ad_principal ad))
     \<and> (ad_dependencies ad = [] \<or> list_ex (\<lambda>p. current A (Some p)) (ad_dependencies ad))"

definition abort_offer :: "admission \<Rightarrow> media_world \<Rightarrow> media_world" where
  "abort_offer ad s = s\<lparr>md_manager := snd (abort_wake_begin (ad_device ad) (ad_wake ad) (md_manager s))\<rparr>"

text \<open>An admission that has lost its authority is retained as well, until its media has been torn down.\<close>

definition offer_lost :: "admission \<Rightarrow> bool \<Rightarrow> media_world \<Rightarrow> response \<times> media_world" where
  "offer_lost ad torn_down s =
    (if torn_down then failure 401 ''unauthorized'' else failure 503 ''transport_teardown_unavailable'',
     snd (retains (filter (\<lambda>p. \<not> current (md_auth s) (Some p)) (ad_principal ad # ad_dependencies ad)) s))"

definition media_of :: "media_world \<Rightarrow> string \<Rightarrow> nat list" where
  "media_of s device = (case dict_get (md_media s) device of None \<Rightarrow> [] | Some ids \<Rightarrow> ids)"

definition offer_admitted :: "admission \<Rightarrow> media_world \<Rightarrow> media_world" where
  "offer_admitted ad s =
    (let d = ad_device ad in
     case retains (ad_principal ad # ad_dependencies ad)
         (s\<lparr>md_media := dict_pop d (md_media s), md_authority := releases (media_of s d) (md_authority s)\<rparr>) of
       (ids, s) \<Rightarrow> s\<lparr>md_media := dict_put d ids (md_media s)\<rparr>)"

definition offer_concludes :: "admission \<Rightarrow> offer_outcome \<Rightarrow> bool \<Rightarrow> media_world \<Rightarrow> response \<times> media_world" where
  "offer_concludes ad out torn_down s = (case out of
     Offer_conflict \<Rightarrow> (failure 409 ''Realtime wake superseded or already connected'', s)
   | Offer_failed \<Rightarrow> (failure 500 ''realtime offer failed'', abort_offer ad s)
   | Offer_answer sdp \<Rightarrow>
       if \<not> still_admitted (md_auth s) ad then offer_lost ad torn_down s
       else (case sdp of
           None \<Rightarrow> (failure 500 ''No SDP answer'', abort_offer ad s)
         | Some a \<Rightarrow> (\<lparr> rs_status = 200, rs_body = Json a, rs_headers = [], rs_cookie = Keep_cookie \<rparr>, offer_admitted ad s)))"

section \<open>Revocation\<close>

definition revoked_begins :: "string \<Rightarrow> nat list \<Rightarrow> media_world \<Rightarrow> media_world" where
  "revoked_begins d ids s =
    (if dict_get (md_media s) d \<noteq> Some ids \<or> ids \<in> fst ` set (md_stops s) then s
     else case stop_begin d (md_manager s) of (p, m) \<Rightarrow> s\<lparr>md_manager := m, md_stops := md_stops s @ [(ids, d, p)]\<rparr>)"

definition revoked_ends :: "nat list \<times> string \<times> pending_stop \<Rightarrow> media_world \<Rightarrow> media_world" where
  "revoked_ends x s =
    (if x \<notin> set (md_stops s) then s
     else case x of (ids, d, p) \<Rightarrow>
       s\<lparr>md_manager := stop_finish p (md_manager s), md_stops := removeAll x (md_stops s),
         md_media := (if dict_get (md_media s) d = Some ids then dict_pop d (md_media s) else md_media s),
         md_authority := releases ids (md_authority s)\<rparr>)"

section \<open>Runs\<close>

definition in_media :: "nat \<Rightarrow> media_world \<Rightarrow> bool" where
  "in_media i s \<longleftrightarrow> (\<exists>ids \<in> set (dict_values (md_media s)). i \<in> set ids)"

text \<open>The registry of connections: another connection is retained or released, or a teardown goes on. The close of a
  connection of the media returns once the media is gone.\<close>

fun authority_goes_on :: "authority_event \<Rightarrow> media_world \<Rightarrow> media_world" where
  "authority_goes_on (Retain i p) s = snd (retains [p] s)"
| "authority_goes_on (Release i) s = (if in_media i s then s else s\<lparr>md_authority := release i (md_authority s)\<rparr>)"
| "authority_goes_on (Task_ends t ok) s =
    (if ok \<and> (case dict_get (au_tasks (md_authority s)) t of None \<Rightarrow> False | Some (i, _) \<Rightarrow> in_media i s) then s
     else s\<lparr>md_authority := task_ends t ok (md_authority s)\<rparr>)"
| "authority_goes_on ev s = s\<lparr>md_authority := authority_step ev (md_authority s)\<rparr>"

datatype media_event = Offer_comes nat http_request | Offer_concludes nat offer_outcome bool
  | Revoked_begins string "nat list" | Revoked_ends "nat list \<times> string \<times> pending_stop"
  | Authority authority_event | Credentials world | Managed manager

fun media_step :: "media_event \<Rightarrow> media_world \<Rightarrow> media_world" where
  "media_step (Offer_comes k rq) s = (case offer_request rq s of
     (Inr (Inr ad), u) \<Rightarrow> u\<lparr>md_offers := dict_put k ad (md_offers u)\<rparr> | (_, u) \<Rightarrow> u)"
| "media_step (Offer_concludes k out torn) s = (case dict_get (md_offers s) k of
     None \<Rightarrow> s
   | Some ad \<Rightarrow> snd (offer_concludes ad out torn (s\<lparr>md_offers := dict_pop k (md_offers s)\<rparr>)))"
| "media_step (Revoked_begins d ids) s = revoked_begins d ids s"
| "media_step (Revoked_ends x) s = revoked_ends x s"
| "media_step (Authority ev) s = authority_goes_on ev s"
| "media_step (Credentials A) s = s\<lparr>md_auth := A\<rparr>"
| "media_step (Managed m) s = s\<lparr>md_manager := m\<rparr>"

definition media_run :: "media_event list \<Rightarrow> media_world \<Rightarrow> media_world" where
  "media_run evs s = fold media_step evs s"

definition no_media :: "world \<Rightarrow> manager \<Rightarrow> media_world" where
  "no_media A m = \<lparr> md_auth = A, md_manager = m, md_authority = no_authority, md_media = [], md_next = 0, md_offers = [], md_stops = [] \<rparr>"

lemma media_run_simps [simp]: "media_run [] s = s" "media_run (ev # evs) s = media_run evs (media_step ev s)"
  by (simp_all add: media_run_def)


section \<open>What the media rests on\<close>

lemma kept_step:
  assumes "authority_ok a" "i \<in> au_held a" "i \<notin> au_closed a" "dict_get (au_conns a) i = Some c" "ev \<noteq> Release i"
    and "\<And>t x. ev = Task_ends t True \<Longrightarrow> dict_get (au_tasks a) t \<noteq> Some (i, x)"
  shows "i \<in> au_held (authority_step ev a) \<and> i \<notin> au_closed (authority_step ev a)
    \<and> (\<exists>c'. dict_get (au_conns (authority_step ev a)) i = Some c' \<and> hc_principal c' = hc_principal c)"
proof (cases ev)
  case (Retain j p)
  then show ?thesis using assms(2-4) by (auto simp: retain_def)
next
  case (Release j)
  then show ?thesis using assms(2-5) by (auto simp: release_def split: option.splits)
next
  case (Disconnect k A)
  then show ?thesis using assms(2-4) by (auto simp: disconnect_begin_def)
next
  case (Attempt_starts k j)
  then show ?thesis using assms(2-4) by (auto simp: attempt_starts_def split: option.splits)
next
  case (Task_ends t ok)
  then show ?thesis using assms(2-4,6) by (auto simp: task_ends_def split: option.splits prod.splits close_task.splits)
next
  case (Attempt_sees k j)
  show ?thesis
  proof (cases rule: sees_cases [of k j a])
    case (over t n ok)
    have "j = n" using assms(1) over(1,2) by (fastforce simp: authority_ok_def attempts_ok_def)
    then have "ok \<Longrightarrow> j \<noteq> i" using assms(1,3) over(2) by (auto simp: authority_ok_def tasks_ok_def given_out_def)
    then show ?thesis using Attempt_sees over(3) assms(2-4) by (auto simp: forget_task_def split: option.splits)
  qed (use Attempt_sees assms in simp)
next
  case (Attempt_late k j)
  show ?thesis
  proof (cases rule: late_cases [of k j a])
    case (late t n b)
    then show ?thesis using Attempt_late assms(2-4) by simp
  qed (use Attempt_late assms in simp)
qed

text \<open>The connections of some media, none of which is closed or let go\<close>

definition holds :: "authority \<Rightarrow> nat list \<Rightarrow> bool" where
  "holds a ids \<longleftrightarrow> (\<forall>i \<in> set ids. i \<in> au_held a \<and> i \<notin> au_closed a \<and> dict_get (au_conns a) i \<noteq> None)"

definition conn_principals :: "authority \<Rightarrow> nat list \<Rightarrow> principal option list" where
  "conn_principals a ids = map (\<lambda>i. map_option hc_principal (dict_get (au_conns a) i)) ids"

lemma holds_step:
  assumes "authority_ok a" "holds a ids" "\<And>i. ev = Release i \<Longrightarrow> i \<notin> set ids"
    and "\<And>t i x. ev = Task_ends t True \<Longrightarrow> dict_get (au_tasks a) t = Some (i, x) \<Longrightarrow> i \<notin> set ids"
  shows "holds (authority_step ev a) ids \<and> conn_principals (authority_step ev a) ids = conn_principals a ids"
proof -
  have "i \<in> au_held (authority_step ev a) \<and> i \<notin> au_closed (authority_step ev a)
    \<and> (\<exists>c'. dict_get (au_conns (authority_step ev a)) i = Some c' \<and> map_option hc_principal (dict_get (au_conns a) i) = Some (hc_principal c'))"
    if i: "i \<in> set ids" for i
  proof -
    obtain c where "i \<in> au_held a" "i \<notin> au_closed a" "dict_get (au_conns a) i = Some c" using assms(2) i by (auto simp: holds_def)
    then show ?thesis using kept_step [OF assms(1), of i c ev] assms(3,4) i by fastforce
  qed
  then show ?thesis by (fastforce simp: holds_def conn_principals_def)
qed

lemma holds_run:
  assumes "authority_ok a" "holds a ids" "\<And>i. Release i \<in> set evs \<Longrightarrow> i \<notin> set ids" "\<And>t ok. Task_ends t ok \<notin> set evs"
  shows "holds (authority_run evs a) ids \<and> conn_principals (authority_run evs a) ids = conn_principals a ids"
  using assms
proof (induction evs arbitrary: a)
  case (Cons ev evs)
  have "holds (authority_step ev a) ids \<and> conn_principals (authority_step ev a) ids = conn_principals a ids"
    using Cons.prems by (intro holds_step) auto
  then show ?case using Cons.IH [of "authority_step ev a"] Cons.prems authority_ok_step [of a ev] by (auto simp: authority_run_def)
qed (simp add: authority_run_def)

lemma fold_retain: "fold (\<lambda>(i, p). retain i p) ips a = authority_run (map (\<lambda>(i, p). Retain i p) ips) a"
  by (induction ips arbitrary: a) (auto simp: authority_run_def)

lemma fold_release: "releases ids a = authority_run (map Release ids) a"
  by (induction ids arbitrary: a) (auto simp: releases_def authority_run_def)

lemma retained_holds: "authority_ok a \<Longrightarrow> holds a ids \<Longrightarrow> holds (authority_run (map (\<lambda>(i, p). Retain i p) xs) a) ids
    \<and> conn_principals (authority_run (map (\<lambda>(i, p). Retain i p) xs) a) ids = conn_principals a ids"
  by (rule holds_run) auto

definition numbered :: "nat \<Rightarrow> authority \<Rightarrow> bool" where
  "numbered n a \<longleftrightarrow> (\<forall>i. dict_get (au_conns a) i \<noteq> None \<longrightarrow> i < n) \<and> (\<forall>i \<in> au_closed a. i < n)"

lemma numbered_step:
  assumes "authority_ok a" "numbered n a" "\<And>i p. ev = Retain i p \<Longrightarrow> i < n"
  shows "numbered n (authority_step ev a)"
proof (cases ev)
  case (Task_ends t ok)
  have "i < n" if "dict_get (au_tasks a) t = Some (i, Close_running b)" for i b
    using assms(1,2) that by (fastforce simp: authority_ok_def tasks_ok_def running_ok_def numbered_def)
  then show ?thesis using assms(2) Task_ends by (auto simp: numbered_def task_ends_def split: option.splits prod.splits close_task.splits)
next
  case (Attempt_sees k j)
  show ?thesis using assms(2) Attempt_sees
    by (cases rule: sees_cases [of k j a]) (auto simp: numbered_def forget_task_def split: option.splits if_splits)
next
  case (Attempt_late k j)
  show ?thesis using assms(2) Attempt_late by (cases rule: late_cases [of k j a]) (auto simp: numbered_def)
qed (use assms(2,3) in \<open>auto simp: numbered_def retain_def release_def disconnect_begin_def attempt_starts_def split: option.splits if_splits\<close>)

lemma numbered_run:
  assumes "authority_ok a" "numbered n a" "\<And>i p. Retain i p \<in> set evs \<Longrightarrow> i < n"
  shows "numbered n (authority_run evs a)"
  using assms
proof (induction evs arbitrary: a)
  case (Cons ev evs)
  then have "numbered n (authority_step ev a)" by (intro numbered_step) auto
  then show ?case using Cons.IH [of "authority_step ev a"] Cons.prems authority_ok_step [of a ev] by (auto simp: authority_run_def)
qed (simp add: authority_run_def)


lemma fresh_retained:
  assumes "authority_ok a" "numbered n a"
  shows "holds (fold (\<lambda>(i, p). retain i p) (zip [n..<n + length ps] ps) a) [n..<n + length ps]
    \<and> conn_principals (fold (\<lambda>(i, p). retain i p) (zip [n..<n + length ps] ps) a) [n..<n + length ps] = map Some ps"
  using assms
proof (induction ps arbitrary: n a)
  case (Cons p ps)
  let ?b = "retain n p a" and ?rest = "zip [Suc n..<Suc n + length ps] ps"
  have ids: "[n..<n + length (p # ps)] = n # [Suc n..<Suc n + length ps]" using upt_conv_Cons [of n "n + length (p # ps)"] by simp
  have b: "?b = authority_step (Retain n p) a" by simp
  have "dict_get (au_conns a) n = None" "n \<notin> au_closed a" using Cons.prems(2) by (auto simp: numbered_def)
  then have n: "holds ?b [n]" "conn_principals ?b [n] = [Some p]" by (simp_all add: holds_def conn_principals_def retain_def)
  have ok: "authority_ok ?b" "numbered (Suc n) ?b"
    using Cons.prems authority_ok_step [of a "Retain n p"] numbered_step [of a "Suc n" "Retain n p"] by (auto simp: numbered_def less_Suc_eq)
  have "holds (authority_run (map (\<lambda>(i, p). Retain i p) ?rest) ?b) [n] \<and> conn_principals (authority_run (map (\<lambda>(i, p). Retain i p) ?rest) ?b) [n] = [Some p]"
    using retained_holds [OF ok(1) n(1), of ?rest] unfolding n(2) .
  then show ?case using Cons.IH [OF ok] unfolding ids by (simp add: fold_retain holds_def conn_principals_def)
qed (simp add: holds_def conn_principals_def)

definition device_media :: "authority \<Rightarrow> string \<Rightarrow> nat list \<Rightarrow> bool" where
  "device_media a d ids \<longleftrightarrow> ids \<noteq> [] \<and> holds a ids \<and> (\<exists>p. hd (conn_principals a ids) = Some p \<and> pr_role p = DEVICE \<and> pr_subject p = d)"

definition apart :: "media_world \<Rightarrow> bool" where
  "apart s \<longleftrightarrow> (\<forall>d ids d' ids' i. dict_get (md_media s) d = Some ids \<longrightarrow> dict_get (md_media s) d' = Some ids' \<longrightarrow> i \<in> set ids \<longrightarrow> i \<in> set ids' \<longrightarrow> d = d')"

definition stops_ok :: "media_world \<Rightarrow> bool" where
  "stops_ok s \<longleftrightarrow> (\<forall>ids d p i. (ids, d, p) \<in> set (md_stops s) \<longrightarrow> i \<in> set ids \<longrightarrow> i < md_next s
     \<and> (\<forall>d' ids'. dict_get (md_media s) d' = Some ids' \<longrightarrow> i \<in> set ids' \<longrightarrow> d' = d \<and> ids' = ids))"

definition of_its_device :: "admission \<Rightarrow> bool" where
  "of_its_device ad \<longleftrightarrow> pr_role (ad_principal ad) = DEVICE \<and> pr_subject (ad_principal ad) = ad_device ad"

definition registry_ok :: "media_world \<Rightarrow> bool" where
  "registry_ok s \<longleftrightarrow> authority_ok (md_authority s) \<and> numbered (md_next s) (md_authority s)"

definition media_ok :: "media_world \<Rightarrow> bool" where
  "media_ok s \<longleftrightarrow> registry_ok s \<and> apart s \<and> stops_ok s
     \<and> (\<forall>d ids. dict_get (md_media s) d = Some ids \<longrightarrow> device_media (md_authority s) d ids)
     \<and> (\<forall>k ad. dict_get (md_offers s) k = Some ad \<longrightarrow> of_its_device ad)"

lemma device_media_kept: "device_media a d ids \<Longrightarrow> holds b ids \<Longrightarrow> conn_principals b ids = conn_principals a ids \<Longrightarrow> device_media b d ids"
  by (simp add: device_media_def)

lemma media_ok_change:
  assumes "media_ok s" "md_media s' = md_media s" "md_next s \<le> md_next s'" "md_stops s' = md_stops s" "md_offers s' = md_offers s"
    and "registry_ok s'"
    and "\<And>d ids. dict_get (md_media s) d = Some ids \<Longrightarrow>
      holds (md_authority s') ids \<and> conn_principals (md_authority s') ids = conn_principals (md_authority s) ids"
  shows "media_ok s'"
proof -
  have "apart s'" "stops_ok s'" using assms(1-4) by (fastforce simp: media_ok_def apart_def stops_ok_def)+
  moreover have "device_media (md_authority s') d ids" if "dict_get (md_media s') d = Some ids" for d ids
    using that assms(1,2,7) device_media_kept unfolding media_ok_def by metis
  ultimately show ?thesis using assms(1,2,5,6) by (simp add: media_ok_def)
qed

lemma media_holds: "media_ok s \<Longrightarrow> dict_get (md_media s) d = Some ids \<Longrightarrow> holds (md_authority s) ids"
  by (auto simp: media_ok_def device_media_def)

lemma in_mediaI: "dict_get (md_media s) d = Some ids \<Longrightarrow> i \<in> set ids \<Longrightarrow> in_media i s"
  using dict_get_in [of "md_media s" d ids] image_eqI [of ids snd "(d, ids)" "set (md_media s)"] by (auto simp: in_media_def dict_values_def)

lemma retains_eq: "retains ps s = ([md_next s..<md_next s + length ps],
    s\<lparr>md_next := md_next s + length ps, md_authority := authority_run (map (\<lambda>(i, p). Retain i p) (zip [md_next s..<md_next s + length ps] ps)) (md_authority s)\<rparr>)"
  by (simp add: retains_def Let_def fold_retain)

lemma registry_retains:
  assumes "registry_ok s"
  shows "registry_ok (snd (retains ps s)) \<and> (holds (md_authority s) ids \<longrightarrow> holds (md_authority (snd (retains ps s))) ids
    \<and> conn_principals (md_authority (snd (retains ps s))) ids = conn_principals (md_authority s) ids)"
proof -
  let ?evs = "map (\<lambda>(i, p). Retain i p) (zip [md_next s..<md_next s + length ps] ps)"
  have n: "numbered (md_next s + length ps) (md_authority s)" and a: "authority_ok (md_authority s)"
    using assms by (auto simp: registry_ok_def numbered_def)
  have "numbered (md_next s + length ps) (authority_run ?evs (md_authority s))" by (rule numbered_run [OF a n]) (auto dest!: set_zip_leftD)
  moreover have "holds (md_authority s) ids \<Longrightarrow> holds (authority_run ?evs (md_authority s)) ids
    \<and> conn_principals (authority_run ?evs (md_authority s)) ids = conn_principals (md_authority s) ids" by (rule retained_holds [OF a])
  ultimately show ?thesis using authority_ok_run [OF a] by (simp add: retains_eq registry_ok_def)
qed

lemma media_ok_retains: "media_ok s \<Longrightarrow> media_ok (snd (retains ps s))"
  using registry_retains [of s ps] media_holds [of s]
  by (intro media_ok_change [of s "snd (retains ps s)"]) (auto simp: media_ok_def retains_eq)

lemma media_fields [simp]:
  "media_ok (s\<lparr>md_manager := m\<rparr>) = media_ok s" "media_ok (s\<lparr>md_auth := A\<rparr>) = media_ok s"
  by (simp_all add: media_ok_def registry_ok_def apart_def stops_ok_def)

lemma media_ok_offers: "media_ok s \<Longrightarrow> media_ok (s\<lparr>md_offers := dict_pop k (md_offers s)\<rparr>)"
  "media_ok s \<Longrightarrow> of_its_device ad \<Longrightarrow> media_ok (s\<lparr>md_offers := dict_put k ad (md_offers s)\<rparr>)"
  by (auto simp: media_ok_def registry_ok_def apart_def stops_ok_def)


lemma media_ok_goes_on: "media_ok s \<Longrightarrow> media_ok (authority_goes_on ev s)"
proof -
  assume s: "media_ok s"
  have change: "media_ok (s\<lparr>md_authority := authority_step ev (md_authority s)\<rparr>)"
    if "\<And>i p. ev \<noteq> Retain i p" "\<And>i. ev = Release i \<Longrightarrow> \<not> in_media i s"
      "\<And>t i x. ev = Task_ends t True \<Longrightarrow> dict_get (au_tasks (md_authority s)) t = Some (i, x) \<Longrightarrow> \<not> in_media i s"
  proof (rule media_ok_change [OF s])
    show "registry_ok (s\<lparr>md_authority := authority_step ev (md_authority s)\<rparr>)"
    proof -
      have "authority_ok (md_authority s)" "numbered (md_next s) (md_authority s)" using s by (simp_all add: media_ok_def registry_ok_def)
      then have "numbered (md_next s) (authority_step ev (md_authority s))" "authority_ok (authority_step ev (md_authority s))"
        using that(1) by (auto intro: numbered_step authority_ok_step)
      then show ?thesis by (simp add: registry_ok_def)
    qed
    fix d ids assume d: "dict_get (md_media s) d = Some ids"
    have "authority_ok (md_authority s)" using s by (simp add: media_ok_def registry_ok_def)
    then have "holds (authority_step ev (md_authority s)) ids
        \<and> conn_principals (authority_step ev (md_authority s)) ids = conn_principals (md_authority s) ids"
      by (rule holds_step [OF _ media_holds [OF s d]]) (use that(2,3) in_mediaI [OF d] in blast)+
    then show "holds (md_authority (s\<lparr>md_authority := authority_step ev (md_authority s)\<rparr>)) ids
        \<and> conn_principals (md_authority (s\<lparr>md_authority := authority_step ev (md_authority s)\<rparr>)) ids = conn_principals (md_authority s) ids"
      by simp
  qed simp_all
  show ?thesis
  proof (cases ev)
    case (Retain i p)
    then show ?thesis using media_ok_retains [OF s] by simp
  next
    case (Release i)
    then show ?thesis using s change by auto
  next
    case (Task_ends t ok)
    show ?thesis
    proof (cases "ok \<and> (case dict_get (au_tasks (md_authority s)) t of None \<Rightarrow> False | Some (i, _) \<Rightarrow> in_media i s)")
      case False
      then have "media_ok (s\<lparr>md_authority := authority_step ev (md_authority s)\<rparr>)" by (intro change) (auto simp: Task_ends)
      then show ?thesis using False Task_ends by auto
    qed (use s Task_ends in auto)
  qed (use change in auto)
qed

lemma media_ok_forgets:
  assumes "media_ok s" "\<And>i d' ids'. i \<in> set ids \<Longrightarrow> d' \<noteq> d \<Longrightarrow> dict_get (md_media s) d' = Some ids' \<Longrightarrow> i \<notin> set ids'"
  shows "media_ok (s\<lparr>md_media := dict_pop d (md_media s), md_authority := releases ids (md_authority s)\<rparr>)"
proof -
  have a: "authority_ok (md_authority s)" "numbered (md_next s) (md_authority s)" using assms(1) by (simp_all add: media_ok_def registry_ok_def)
  have "holds (releases ids (md_authority s)) ids' \<and> conn_principals (releases ids (md_authority s)) ids' = conn_principals (md_authority s) ids'"
    if "dict_get (md_media s) d' = Some ids'" "d' \<noteq> d" for d' ids'
    unfolding fold_release by (rule holds_run [OF a(1) media_holds [OF assms(1) that(1)]]) (use assms(2) that in auto)
  then have "device_media (releases ids (md_authority s)) d' ids'" if "dict_get (md_media s) d' = Some ids'" "d' \<noteq> d" for d' ids'
    using that assms(1) device_media_kept unfolding media_ok_def by metis
  moreover have "authority_ok (releases ids (md_authority s))" "numbered (md_next s) (releases ids (md_authority s))"
    unfolding fold_release by (rule authority_ok_run [OF a(1)], rule numbered_run [OF a]) auto
  ultimately show ?thesis using assms(1) by (simp add: media_ok_def registry_ok_def apart_def stops_ok_def)
qed

lemma media_ok_gains:
  assumes "media_ok s" "dict_get (md_media s) d = None" "ps \<noteq> []" "pr_role (hd ps) = DEVICE" "pr_subject (hd ps) = d"
  shows "media_ok (case retains ps s of (ids, u) \<Rightarrow> u\<lparr>md_media := dict_put d ids (md_media u)\<rparr>)"
proof -
  let ?ids = "[md_next s..<md_next s + length ps]" and ?u = "snd (retains ps s)"
  have u: "media_ok ?u" "md_media ?u = md_media s" "md_next ?u = md_next s + length ps" "md_stops ?u = md_stops s"
    using media_ok_retains [OF assms(1)] by (simp_all add: retains_eq)
  have "device_media (md_authority ?u) d ?ids"
    using fresh_retained [of "md_authority s" "md_next s" ps] assms by (simp add: device_media_def retains_def Let_def media_ok_def registry_ok_def hd_map)
  moreover have old: "i < md_next s" if "dict_get (md_media s) d' = Some ids'" "i \<in> set ids'" for d' ids' i
    using media_holds [OF assms(1) that(1)] that(2) assms(1) by (auto simp: holds_def media_ok_def registry_ok_def numbered_def)
  moreover have "i < md_next s" if "(ids', d', p) \<in> set (md_stops s)" "i \<in> set ids'" for ids' d' p i
    using assms(1) that by (auto simp: media_ok_def stops_ok_def)
  ultimately have new: "device_media (md_authority ?u) d ?ids"
    "\<And>d' ids' i. dict_get (md_media s) d' = Some ids' \<Longrightarrow> i \<in> set ids' \<Longrightarrow> i < md_next s"
    "\<And>ids' d' p i. (ids', d', p) \<in> set (md_stops s) \<Longrightarrow> i \<in> set ids' \<Longrightarrow> i < md_next s" by blast+
  let ?v = "?u\<lparr>md_media := dict_put d ?ids (md_media ?u)\<rparr>"
  have get: "dict_get (md_media ?v) x = (if x = d then Some ?ids else dict_get (md_media s) x)" for x using u(2) by simp
  have "apart s" "stops_ok s" using assms(1) by (simp_all add: media_ok_def)
  have "apart ?v" unfolding apart_def get
  proof (intro allI impI)
    fix x xs y ys i
    assume "(if x = d then Some ?ids else dict_get (md_media s) x) = Some xs" "(if y = d then Some ?ids else dict_get (md_media s) y) = Some ys"
      "i \<in> set xs" "i \<in> set ys"
    then show "x = y" using new(2) [of x xs i] new(2) [of y ys i] \<open>apart s\<close> unfolding apart_def by (auto split: if_splits)
  qed
  moreover have "stops_ok ?v" unfolding stops_ok_def get
  proof (intro allI impI)
    fix ids' d' p i
    assume "(ids', d', p) \<in> set (md_stops ?v)" "i \<in> set ids'"
    then have o: "(ids', d', p) \<in> set (md_stops s)" "i \<in> set ids'" using u(4) by auto
    then have i: "i < md_next s" by (rule new(3))
    have "y = d' \<and> ys = ids'" if "(if y = d then Some ?ids else dict_get (md_media s) y) = Some ys" "i \<in> set ys" for y ys
    proof (cases "y = d")
      case True
      then show ?thesis using that i by auto
    next
      case False
      then show ?thesis using that o \<open>stops_ok s\<close> unfolding stops_ok_def by (metis (full_types))
    qed
    then show "i < md_next ?v \<and> (\<forall>y ys. (if y = d then Some ?ids else dict_get (md_media s) y) = Some ys \<longrightarrow> i \<in> set ys \<longrightarrow> y = d' \<and> ys = ids')"
      using i u(3) by simp
  qed
  moreover have "registry_ok ?v" "\<And>k ad. dict_get (md_offers ?v) k = Some ad \<Longrightarrow> of_its_device ad"
    using u(1) by (simp_all add: media_ok_def registry_ok_def)
  moreover have "device_media (md_authority ?v) x xs" if "dict_get (md_media ?v) x = Some xs" for x xs
    using that new(1) u(1,2) by (cases "x = d") (auto simp: media_ok_def)
  ultimately have "media_ok ?v" by (simp add: media_ok_def)
  then show ?thesis by (simp add: retains_eq)
qed


lemma offer_request_admits:
  assumes "offer_request rq s = (Inr (Inr ad), u)"
  shows "of_its_device ad \<and> (\<exists>A. u = s\<lparr>md_auth := A\<rparr>)"
proof -
  have "offer_principal (md_auth s) rq body = Inr p \<Longrightarrow> pr_role p = DEVICE" for body p
    by (auto simp: offer_principal_def Let_def allowed_def owner_grants_def integration_grants_def split: if_splits option.splits)
  then show ?thesis using assms
    by (auto simp: offer_request_def of_its_device_def Let_def split: sum.splits if_splits option.splits prod.splits)
qed

lemma offer_request_refuses: "offer_request rq s = (r, u) \<Longrightarrow> \<exists>A. u = s\<lparr>md_auth := A\<rparr>"
proof -
  have "\<exists>A. s = s\<lparr>md_auth := A\<rparr>" by (intro exI [of _ "md_auth s"]) simp
  then show "offer_request rq s = (r, u) \<Longrightarrow> \<exists>A. u = s\<lparr>md_auth := A\<rparr>"
    by (auto simp: offer_request_def Let_def split: sum.splits if_splits option.splits prod.splits)
qed

lemma media_ok_admitted: "media_ok s \<Longrightarrow> of_its_device ad \<Longrightarrow> media_ok (offer_admitted ad s)"
proof -
  assume s: "media_ok s" "of_its_device ad"
  let ?d = "ad_device ad"
  let ?t = "s\<lparr>md_media := dict_pop ?d (md_media s), md_authority := releases (media_of s ?d) (md_authority s)\<rparr>"
  have "i \<notin> set ids'" if "i \<in> set (media_of s ?d)" "d' \<noteq> ?d" "dict_get (md_media s) d' = Some ids'" for i d' ids'
  proof (cases "dict_get (md_media s) ?d")
    case (Some ids)
    then show ?thesis using s(1) that unfolding media_ok_def apart_def media_of_def by fastforce
  qed (use that in \<open>simp add: media_of_def\<close>)
  then have "media_ok ?t" by (rule media_ok_forgets [OF s(1)])
  then show ?thesis using media_ok_gains [of ?t ?d "ad_principal ad # ad_dependencies ad"] s(2)
    by (simp add: offer_admitted_def Let_def of_its_device_def)
qed

lemma media_ok_concludes: "media_ok s \<Longrightarrow> of_its_device ad \<Longrightarrow> media_ok (snd (offer_concludes ad out torn s))"
  by (auto simp: offer_concludes_def abort_offer_def offer_lost_def media_ok_retains media_ok_admitted split: offer_outcome.splits option.splits)

lemma media_ok_revoked: "media_ok s \<Longrightarrow> media_ok (revoked_begins d ids s)"
proof (cases "dict_get (md_media s) d \<noteq> Some ids \<or> ids \<in> fst ` set (md_stops s)")
  case False
  assume s: "media_ok s"
  obtain p m where p: "stop_begin d (md_manager s) = (p, m)" by (cases "stop_begin d (md_manager s)")
  have "i < md_next s" if "i \<in> set ids" for i
    using media_holds [OF s, of d ids] False that s by (auto simp: holds_def media_ok_def registry_ok_def numbered_def)
  moreover have "d' = d \<and> ids' = ids" if "i \<in> set ids" "dict_get (md_media s) d' = Some ids'" "i \<in> set ids'" for i d' ids'
    using s False that unfolding media_ok_def apart_def by (metis option.inject)
  ultimately have "stops_ok (s\<lparr>md_manager := m, md_stops := md_stops s @ [(ids, d, p)]\<rparr>)"
    using s unfolding media_ok_def stops_ok_def by auto
  then show ?thesis using s False p by (auto simp: revoked_begins_def media_ok_def registry_ok_def apart_def)
qed (auto simp: revoked_begins_def)

lemma media_ok_over: "media_ok t \<Longrightarrow> media_ok (t\<lparr>md_manager := m, md_stops := removeAll x (md_stops t)\<rparr>)"
proof -
  assume t: "media_ok t"
  let ?t = "t\<lparr>md_manager := m, md_stops := removeAll x (md_stops t)\<rparr>"
  have "stops_ok ?t" unfolding stops_ok_def
  proof (intro allI impI)
    fix ids d p i assume a: "(ids, d, p) \<in> set (md_stops ?t)" "i \<in> set ids"
    have "stops_ok t" "(ids, d, p) \<in> set (md_stops t)" using t a(1) by (simp_all add: media_ok_def)
    then have "i < md_next t \<and> (\<forall>d' ids'. dict_get (md_media t) d' = Some ids' \<longrightarrow> i \<in> set ids' \<longrightarrow> d' = d \<and> ids' = ids)"
      using a(2) unfolding stops_ok_def by blast
    then show "i < md_next ?t \<and> (\<forall>d' ids'. dict_get (md_media ?t) d' = Some ids' \<longrightarrow> i \<in> set ids' \<longrightarrow> d' = d \<and> ids' = ids)" by simp
  qed
  then show ?thesis using t by (simp add: media_ok_def registry_ok_def apart_def)
qed

lemma media_ok_revoked_ends: "media_ok s \<Longrightarrow> media_ok (revoked_ends x s)"
proof (cases "x \<in> set (md_stops s)")
  case True
  assume s: "media_ok s"
  obtain ids d p where x: "x = (ids, d, p)" by (cases x)
  have o: "d' = d \<and> ids' = ids" if "i \<in> set ids" "dict_get (md_media s) d' = Some ids'" "i \<in> set ids'" for i d' ids'
    using s True x that unfolding media_ok_def stops_ok_def by blast
  let ?t = "s\<lparr>md_media := (if dict_get (md_media s) d = Some ids then dict_pop d (md_media s) else md_media s), md_authority := releases ids (md_authority s)\<rparr>"
  have "media_ok ?t"
  proof (cases "dict_get (md_media s) d = Some ids")
    case True
    have "media_ok (s\<lparr>md_media := dict_pop d (md_media s), md_authority := releases ids (md_authority s)\<rparr>)"
      by (rule media_ok_forgets [OF s]) (use o in blast)
    then show ?thesis using True by simp
  next
    case False
    have a: "authority_ok (md_authority s)" "numbered (md_next s) (md_authority s)" using s by (simp_all add: media_ok_def registry_ok_def)
    show ?thesis
    proof (rule media_ok_change [OF s])
      have "numbered (md_next s) (releases ids (md_authority s))" unfolding fold_release by (rule numbered_run [OF a]) auto
      moreover have "authority_ok (releases ids (md_authority s))" unfolding fold_release by (rule authority_ok_run [OF a(1)])
      ultimately show "registry_ok ?t" by (simp add: registry_ok_def)
      fix d' ids' assume m: "dict_get (md_media s) d' = Some ids'"
      have "i \<notin> set ids'" if "i \<in> set ids" for i using o [OF that m] m False by blast
      then have "holds (releases ids (md_authority s)) ids' \<and> conn_principals (releases ids (md_authority s)) ids' = conn_principals (md_authority s) ids'"
        unfolding fold_release by (intro holds_run [OF a(1) media_holds [OF s m]]) auto
      then show "holds (md_authority ?t) ids' \<and> conn_principals (md_authority ?t) ids' = conn_principals (md_authority s) ids'" by simp
    qed (use False in simp_all)
  qed
  then have "media_ok (?t\<lparr>md_manager := stop_finish p (md_manager s), md_stops := removeAll x (md_stops ?t)\<rparr>)" by (rule media_ok_over)
  moreover have "revoked_ends x s = ?t\<lparr>md_manager := stop_finish p (md_manager s), md_stops := removeAll x (md_stops ?t)\<rparr>"
    using True x by (simp add: revoked_ends_def)
  ultimately show ?thesis by (simp only:)
qed (simp add: revoked_ends_def)

lemma media_ok_step: "media_ok s \<Longrightarrow> media_ok (media_step ev s)"
proof (cases ev)
  case (Offer_comes k rq)
  assume s: "media_ok s"
  obtain r u where r: "offer_request rq s = (r, u)" by (cases "offer_request rq s")
  obtain A where u: "u = s\<lparr>md_auth := A\<rparr>" using offer_request_refuses [OF r] by blast
  have "media_ok u" using s u by simp
  then show ?thesis using Offer_comes r offer_request_admits [of rq s _ u] by (auto split: sum.splits intro: media_ok_offers(2))
next
  case (Offer_concludes k out torn)
  assume s: "media_ok s"
  then have "of_its_device ad" if "dict_get (md_offers s) k = Some ad" for ad using that by (auto simp: media_ok_def)
  then show ?thesis using Offer_concludes s media_ok_concludes [OF media_ok_offers(1) [OF s]] by (auto split: option.splits)
qed (simp_all add: media_ok_goes_on media_ok_revoked media_ok_revoked_ends)

interpretation media: event_machine media_step media_ok
  by unfold_locales (rule media_ok_step)

lemma media_ok_run: "media_ok s \<Longrightarrow> media_ok (media_run evs s)"
  unfolding media_run_def by (rule media.every_run)

lemma media_ok_none: "media_ok (no_media A m)"
  using authority_ok_none
  by (simp add: media_ok_def registry_ok_def apart_def stops_ok_def no_media_def numbered_def no_authority_def dict_get_def)


text \<open>What a request needs to come as far as the manager, and an answer to be given\<close>

lemma offer_needs_its_device:
  assumes "offer_request rq s = (Inr (Inr ad), u)"
  shows "\<exists>body. rq_json rq = Inr body \<and> authenticate (md_auth s) (offer_token rq body) = Some (ad_principal ad)
    \<and> current (md_auth s) (Some (ad_principal ad)) \<and> jat body ''device_id'' = JStr (ad_device ad)
    \<and> jat body ''pc_id'' = JNull \<and> \<not> truthy (jat body ''restart_pc'') \<and> can_accept_offer (md_manager s) (ad_device ad)"
proof -
  obtain body p where b: "rq_json rq = Inr body" "offer_principal (md_auth s) rq body = Inr p" "ad_principal ad = p" "ad_device ad = pr_subject p"
    "jat body ''pc_id'' = JNull" "\<not> truthy (jat body ''restart_pc'')" "can_accept_offer (md_manager s) (ad_device ad)"
    using assms by (auto simp: offer_request_def Let_def split: sum.splits if_splits option.splits prod.splits)
  then have al: "allowed (authenticate (md_auth s) (offer_token rq body)) (Some REALTIME_OFFER) (str_of (jat body ''device_id'')) False"
    "p = the (authenticate (md_auth s) (offer_token rq body))" by (auto simp: offer_principal_def Let_def split: if_splits)
  then have a: "authenticate (md_auth s) (offer_token rq body) = Some p" by (cases "authenticate (md_auth s) (offer_token rq body)") (simp_all add: allowed_def)
  have "str_of (jat body ''device_id'') = Some (pr_subject p)"
    using al(1) unfolding a by (auto simp: allowed_def owner_grants_def integration_grants_def split: if_splits option.splits)
  then have "jat body ''device_id'' = JStr (pr_subject p)" by (auto simp: str_of_def split: json.splits)
  then show ?thesis using b a authenticate_current [OF a] by auto
qed

lemma answered_offer_is_admitted:
  assumes "rs_status (fst (offer_concludes ad out torn s)) = 200"
  shows "still_admitted (md_auth s) ad \<and> snd (offer_concludes ad out torn s) = offer_admitted ad s"
  using assms by (auto simp: offer_concludes_def offer_lost_def failure_def answer_def split: offer_outcome.splits option.splits if_splits)

lemma authority_runs: "\<exists>es. md_authority (media_step ev s) = authority_run es (md_authority s)"
proof -
  have none: "\<exists>es. a = authority_run es a" for a by (intro exI [of _ "[]"]) (simp add: authority_run_def)
  have one: "\<exists>es. authority_step ev a = authority_run es a" for ev a by (intro exI [of _ "[ev]"]) (simp add: authority_run_def)
  have two: "\<exists>es. authority_run xs (authority_run ys a) = authority_run es a" for xs ys a
    by (intro exI [of _ "ys @ xs"]) (simp add: authority_run_def)
  have kept: "\<exists>es. md_authority (snd (retains ps s)) = authority_run es (md_authority s)" for ps s by (auto simp: retains_eq)
  show ?thesis
  proof (cases ev)
    case (Offer_comes k rq)
    obtain r u where r: "offer_request rq s = (r, u)" by (cases "offer_request rq s")
    then have "md_authority u = md_authority s" using offer_request_refuses [OF r] by auto
    then have "md_authority (media_step ev s) = md_authority s" using Offer_comes r by (auto split: sum.splits)
    then show ?thesis using none by simp
  next
    case (Offer_concludes k out torn)
    have "\<exists>es. md_authority (snd (offer_concludes ad out torn t)) = authority_run es (md_authority t)" for ad t
      using none kept by (auto simp: offer_concludes_def abort_offer_def offer_lost_def offer_admitted_def Let_def retains_eq fold_release two
        split: offer_outcome.splits option.splits)
    note concludes = this
    show ?thesis
    proof (cases "dict_get (md_offers s) k")
      case None
      then show ?thesis using Offer_concludes none by simp
    next
      case (Some ad)
      then show ?thesis using Offer_concludes concludes [of ad "s\<lparr>md_offers := dict_pop k (md_offers s)\<rparr>"] by simp
    qed
  next
    case (Revoked_begins d ids)
    then show ?thesis using none by (auto simp: revoked_begins_def split: prod.splits)
  next
    case (Revoked_ends x)
    then show ?thesis using none by (auto simp: revoked_ends_def fold_release split: prod.splits)
  next
    case (Authority e)
    then show ?thesis using none one [of e "md_authority s"] kept by (cases e) auto
  qed (use none in simp_all)
qed

lemma authority_runs_on: "\<exists>es. md_authority (media_run evs s) = authority_run es (md_authority s)"
proof (induction evs arbitrary: s)
  case Nil
  then show ?case by (intro exI [of _ "[]"]) (simp add: authority_run_def)
next
  case (Cons ev evs)
  obtain es es' where "md_authority (media_step ev s) = authority_run es (md_authority s)"
    "md_authority (media_run evs (media_step ev s)) = authority_run es' (md_authority (media_step ev s))"
    using authority_runs Cons.IH by meson
  then have "md_authority (media_run (ev # evs) s) = authority_run (es @ es') (md_authority s)" by (simp add: authority_run_def)
  then show ?case by blast
qed



section \<open>An example\<close>

definition offer_body :: json where
  "offer_body = JObj [(''type'', JStr ''offer''), (''sdp'', JStr ''v=0''), (''device_id'', JStr ''dev_1''), (''token'', JStr ''vx_dev_token'')]"

definition offer_rq :: http_request where
  "offer_rq = \<lparr> rq_method = ''POST'', rq_path = ''/api/offer'', rq_query = [], rq_secure = False, rq_peer = None, rq_headers = [], rq_cookies = [],
     rq_type = ''application/json'', rq_chunks = [], rq_stalls = False, rq_json = Inr offer_body, rq_params = [] \<rparr>"

definition quiet_world :: "bool \<Rightarrow> world" where
  "quiet_world b = (running (demo_snapshot b []))\<lparr>w_agents_loaded := True\<rparr>"

definition awake :: manager where "awake = (empty_manager demo_registry)\<lparr>rm_live := [''dev_1'']\<rparr>"

definition offer_made :: "media_event list" where
  "offer_made = [Offer_comes 0 offer_rq, Offer_concludes 0 (Offer_answer (Some JNull)) True]"

definition device_stop :: pending_stop where
  "device_stop = \<lparr> ps_device = ''dev_1'', ps_session = None, ps_wake = None, ps_ws = device_ws awake ''dev_1'' \<rparr>"

definition offer_revoked :: "media_event list" where
  "offer_revoked = [Authority (Attempt_starts 1 0), Revoked_begins ''dev_1'' [0], Revoked_ends ([0], ''dev_1'', device_stop),
     Authority (Task_ends 0 True), Authority (Attempt_sees 1 0)]"

lemma offer_body_simps: "is_obj offer_body" "has_key offer_body ''sdp''" "has_key offer_body ''type''" "jat offer_body ''device_id'' = JStr ''dev_1''"
  "jat offer_body ''token'' = JStr ''vx_dev_token''" "jat offer_body ''pc_id'' = JNull" "jat offer_body ''restart_pc'' = JNull"
  by (simp_all add: offer_body_def has_key_def jkeys_def jat_def dict_get_def)

lemma quiet_token: "authenticate (quiet_world True) (JStr ''vx_dev_token'') = Some demo_principal"
  using demo_token by (simp add: quiet_world_def authenticate_def)

lemma quiet_current: "current (quiet_world True) (Some demo_principal)" "\<not> current (quiet_world False) (Some demo_principal)"
  using demo_current demo_stale by (simp_all add: quiet_world_def current_def)

lemma quiet_active: "get_active (quiet_world True) = (Inr None, quiet_world True)"
  by (simp add: get_active_def get_all_def ensure_loaded_def run_bnd run_andthen run_reads run_when_do run_ret visible_agents_def quiet_world_def running_def demo_world_def)

definition media_offered :: media_world where
  "media_offered = (no_media (quiet_world True) awake)\<lparr>md_media := [(''dev_1'', [0])], md_next := 1, md_offers := [],
     md_authority := retain 0 demo_principal no_authority\<rparr>"

lemma offer_is_made: "media_run offer_made (no_media (quiet_world True) awake) = media_offered"
proof -
  let ?s = "no_media (quiet_world True) awake"
  let ?ad = "\<lparr> ad_device = ''dev_1'', ad_principal = demo_principal, ad_dependencies = [], ad_wake = None \<rparr>"
  have p: "offer_principal (quiet_world True) offer_rq offer_body = Inr demo_principal"
    by (simp add: offer_principal_def offer_token_def offer_body_simps quiet_token header_or_def headers_def offer_rq_def str_of_def Let_def
        allowed_device demo_principal_simps device_grants_def)
  have r: "offer_request offer_rq ?s = (Inr (Inr ?ad), ?s)"
    using p by (simp add: offer_request_def offer_rq_def [THEN arg_cong, of rq_json] offer_body_simps no_media_def quiet_active offer_dependencies_def
        demo_principal_simps awake_def can_accept_offer_def empty_manager_def dict_get_def Let_def)
  have k: "still_admitted (quiet_world True) ?ad" by (simp add: still_admitted_def quiet_current)
  show ?thesis using r k
    by (simp add: offer_made_def media_offered_def offer_concludes_def offer_admitted_def Let_def retains_def media_of_def no_media_def releases_def
        dict_get_def dict_put_def dict_pop_def)
qed


lemma offer_is_revoked:
  "call_ends 1 (md_authority (media_run offer_revoked (media_step (Authority (Disconnect 1 (quiet_world False))) media_offered))) = Some True"
  using quiet_current(2)
  by (simp add: offer_revoked_def media_offered_def no_media_def no_authority_def retain_def disconnect_begin_def stale_conns_def dict_get_def dict_put_def
      dict_pop_def dict_keys_def attempt_starts_def attempt_of_def set_attempt_def revoked_begins_def revoked_ends_def stop_begin_def Let_def device_stop_def
      awake_def empty_manager_def device_ws_def releases_def release_def in_media_def dict_values_def task_ends_def attempt_sees_def forget_task_def call_ends_def)


end
