(* ===== verification/Voice_Frames.thy ===== *)
theory Voice_Frames
  imports Event_Machine Realtime_Manager Speech_Store
begin

text \<open>
  What the realtime pipeline does with the frames of the user's voice: the strategies that open and close a user turn
  (\<open>realtime/turn.py\<close>), the gate and the tap of \<open>RealtimeSession.start\<close> that silence the microphone and tell the device
  what was heard, and the seeding of a buffered utterance (\<open>seed_buffered_turn\<close>, \<open>handle_cold_voice_end\<close>). Pipecat,
  which produces the frames and calls the strategies, is not modelled: its calls are the events.
\<close>

section \<open>The end of a user turn\<close>

text \<open>\<open>VADStopUserTurnStopStrategy\<close>. \<open>ts_fallback\<close> is the time at which the sleep of the fallback task ends, \<open>ts_ends\<close>
  the times at which \<open>trigger_user_turn_stopped\<close> was called.\<close>

record turn_stop =
  ts_stopped :: bool
  ts_fallback :: "time option"
  ts_ends :: "time list"

datatype turn_frame = Vad_started | Vad_stopped | Heard string | Other_frame

definition new_turn_stop :: turn_stop where
  "new_turn_stop = \<lparr> ts_stopped = False, ts_fallback = None, ts_ends = [] \<rparr>"

definition cancel_fallback :: "turn_stop \<Rightarrow> turn_stop" where
  "cancel_fallback s = s\<lparr>ts_fallback := None\<rparr>"

definition start_fallback :: "time \<Rightarrow> time \<Rightarrow> turn_stop \<Rightarrow> turn_stop" where
  "start_fallback timeout now s = (cancel_fallback s)\<lparr>ts_fallback := Some (now + timeout)\<rparr>"

definition finalize_turn :: "time \<Rightarrow> turn_stop \<Rightarrow> turn_stop" where
  "finalize_turn now s = (if \<not> ts_stopped s then s
     else let t = cancel_fallback (s\<lparr>ts_stopped := False\<rparr>) in t\<lparr>ts_ends := ts_ends t @ [now]\<rparr>)"

text \<open>\<open>_fallback_handler\<close> after its sleep\<close>

definition fallback_handler :: "time \<Rightarrow> turn_stop \<Rightarrow> turn_stop" where
  "fallback_handler now s = finalize_turn now (s\<lparr>ts_fallback := None\<rparr>)"

fun stop_frame :: "time \<Rightarrow> time \<Rightarrow> turn_frame \<Rightarrow> turn_stop \<Rightarrow> turn_stop" where
  "stop_frame timeout now Vad_started s = cancel_fallback (s\<lparr>ts_stopped := False\<rparr>)"
| "stop_frame timeout now Vad_stopped s = start_fallback timeout now (s\<lparr>ts_stopped := True\<rparr>)"
| "stop_frame timeout now (Heard said) s = (if ts_stopped s \<and> strip said \<noteq> [] then finalize_turn now s else s)"
| "stop_frame timeout now Other_frame s = s"

definition reset_turn :: "turn_stop \<Rightarrow> turn_stop" where
  "reset_turn s = cancel_fallback (s\<lparr>ts_stopped := False\<rparr>)"

datatype stop_event = Frame_in time turn_frame | Fallback_due time | Turn_reset | Turn_cleanup

fun stop_step :: "time \<Rightarrow> stop_event \<Rightarrow> turn_stop \<Rightarrow> turn_stop" where
  "stop_step timeout (Frame_in now f) s = stop_frame timeout now f s"
| "stop_step timeout (Fallback_due now) s = (case ts_fallback s of None \<Rightarrow> s | Some due \<Rightarrow> if due \<le> now then fallback_handler now s else s)"
| "stop_step timeout Turn_reset s = reset_turn s"
| "stop_step timeout Turn_cleanup s = cancel_fallback s"

definition stop_run :: "time \<Rightarrow> stop_event list \<Rightarrow> turn_stop \<Rightarrow> turn_stop" where
  "stop_run timeout es s = fold (stop_step timeout) es s"

text \<open>\<open>SuppressibleVADUserTurnStartStrategy.process_frame\<close>: whether the frame reaches the strategy of Pipecat, which
  opens a turn.\<close>

definition start_frame :: "bool \<Rightarrow> turn_frame \<Rightarrow> bool" where
  "start_frame suppressed f \<longleftrightarrow> \<not> (f = Vad_started \<and> suppressed)"

section \<open>The gate and the tap\<close>

datatype voice_frame =
    Interruption_frame
  | User_started
  | User_stopped
  | Transcription string
  | Bot_started_frame
  | Bot_stopped_frame
  | Input_audio "byte list"
  | Passing

record voice_peer =
  vp_session :: peer_session
  vp_selection :: "selection option"

definition on_session :: "(peer_session \<Rightarrow> peer_session) \<Rightarrow> voice_peer \<Rightarrow> voice_peer" where
  "on_session f v = v\<lparr>vp_session := f (vp_session v)\<rparr>"

text \<open>\<open>_MicGate.process_frame\<close>\<close>

fun mic_gate :: "bool \<Rightarrow> bool \<Rightarrow> voice_frame \<Rightarrow> peer_session \<Rightarrow> voice_frame" where
  "mic_gate barge_in downstream (Input_audio pcm) s =
     Input_audio (if downstream \<and> turns_suppressed barge_in s \<and> pcm \<noteq> [] then replicate (length pcm) 0 else pcm)"
| "mic_gate barge_in downstream f s = f"

text \<open>\<open>_require_speech_selection\<close>\<close>

definition require_selection :: "voice_peer \<Rightarrow> exn + selection" where
  "require_selection v = (case vp_selection v of None \<Rightarrow> Inl ValueError | Some sel \<Rightarrow> Inr sel)"

text \<open>What the tap does with the frame: pass it on, or, when the speech of the turn cannot be selected, drop it after
  telling the device; \<open>Raises\<close> is an exception that no handler of the tap takes.\<close>

datatype tap = Pushes | Refuses | Raises exn

text \<open>\<open>_snapshot_speech_selection\<close> up to its first await; \<open>found\<close> is the answer of \<open>resolve\<close>.\<close>

definition snapshot_selection :: "bool \<Rightarrow> exn + selection \<Rightarrow> voice_peer \<Rightarrow> tap \<times> voice_peer" where
  "snapshot_selection owns found v =
    (let w = v\<lparr>vp_selection := None\<rparr> in
     case found of
       Inr sel \<Rightarrow> (Pushes, w\<lparr>vp_selection := Some sel\<rparr>)
     | Inl e \<Rightarrow> if (case e of KeyError \<Rightarrow> True | ValueError \<Rightarrow> True | ConfigError _ \<Rightarrow> True | _ \<Rightarrow> False)
         then (Refuses, on_session (\<lambda>s. send_control owns (Control_error ''SPEECH_UNAVAILABLE'') (s\<lparr>se_turn_active := False\<rparr>)) w)
         else (Raises e, w))"

text \<open>The rest of it, after the error was sent\<close>

definition refuse_turn :: "bool \<Rightarrow> voice_peer \<Rightarrow> voice_peer" where
  "refuse_turn owns v = on_session (start_audio_end owns False False False) v"

definition begin_user_turn :: "time \<Rightarrow> bool \<Rightarrow> peer_session \<Rightarrow> peer_session" where
  "begin_user_turn now owns s = send_control owns Control_speech_start
     (touch_activity now (s\<lparr>se_generation := se_generation s + 1, se_turn_active := True\<rparr>))"

definition user_started :: "time \<Rightarrow> bool \<Rightarrow> bool \<Rightarrow> exn + selection \<Rightarrow> voice_peer \<Rightarrow> tap \<times> voice_peer" where
  "user_started now owns barge_in found v =
    (if turns_suppressed barge_in (vp_session v) then (Pushes, v)
     else case snapshot_selection owns found (on_session (set_input_expected True) v) of
       (Pushes, w) \<Rightarrow> (Pushes, on_session (begin_user_turn now owns) w)
     | (t, w) \<Rightarrow> (t, w))"

definition relay_transcript :: "time \<Rightarrow> bool \<Rightarrow> string \<Rightarrow> peer_session \<Rightarrow> peer_session" where
  "relay_transcript now owns said s =
    (if strip said = [] \<or> \<not> se_turn_active s then s
     else send_control owns (Control_transcript (strip said)) (touch_activity now (s\<lparr>se_turn_active := False, se_awaiting := True\<rparr>)))"

text \<open>\<open>_ControlTap.process_frame\<close>\<close>

fun control_tap :: "time \<Rightarrow> bool \<Rightarrow> bool \<Rightarrow> exn + selection \<Rightarrow> voice_frame \<Rightarrow> voice_peer \<Rightarrow> tap \<times> voice_peer" where
  "control_tap now owns barge_in found Interruption_frame v = (Pushes, on_session on_interruption v)"
| "control_tap now owns barge_in found User_started v = user_started now owns barge_in found v"
| "control_tap now owns barge_in found (Transcription said) v = (Pushes, on_session (relay_transcript now owns said) v)"
| "control_tap now owns barge_in found Bot_started_frame v =
     (Pushes, on_session (\<lambda>s. send_control owns Control_audio_start (on_bot_started barge_in s)) v)"
| "control_tap now owns barge_in found Bot_stopped_frame v = (Pushes, on_session (on_bot_stopped barge_in) v)"
| "control_tap now owns barge_in found f v = (Pushes, v)"

text \<open>\<open>_on_connected\<close>, and \<open>_on_disconnected\<close> before the session is closed\<close>

definition client_connected :: "bool \<Rightarrow> peer_session \<Rightarrow> peer_session" where
  "client_connected owns s = send_control owns Control_ready (s\<lparr>se_ready := True\<rparr>)"

definition client_disconnected :: "bool \<Rightarrow> peer_session \<Rightarrow> peer_session" where
  "client_disconnected owns s = (if se_closed s then s else notify_ended owns s)"

section \<open>A buffered utterance\<close>

text \<open>\<open>seed_buffered_turn\<close>, cut at its awaits: the wait for the pipeline, and the transcription. \<open>True\<close> means that it
  goes on.\<close>

definition seed_begin :: "bool \<Rightarrow> byte list \<Rightarrow> voice_peer \<Rightarrow> bool \<times> voice_peer" where
  "seed_begin owns pcm v =
    (if se_closed (vp_session v) then (False, v)
     else if pcm = [] then (False, on_session (release_failed_turn owns) v)
     else (True, v))"

definition seed_ready :: "bool \<Rightarrow> bool \<Rightarrow> selection option \<Rightarrow> exn + selection \<Rightarrow> voice_peer \<Rightarrow> bool \<times> voice_peer" where
  "seed_ready owns ready given found v =
    (if \<not> ready \<or> \<not> is_peer_live (vp_session v) then (False, on_session (release_failed_turn owns) v)
     else case (case given of Some sel \<Rightarrow> Inr sel | None \<Rightarrow> found) of
       Inl e \<Rightarrow> (False, on_session (release_failed_turn owns) v)
     | Inr sel \<Rightarrow> (True, v\<lparr>vp_selection := Some sel\<rparr>))"

text \<open>\<open>said\<close> is what was understood; None when the transcription raised.\<close>

definition seed_heard :: "time \<Rightarrow> bool \<Rightarrow> string option \<Rightarrow> voice_peer \<Rightarrow> voice_peer" where
  "seed_heard now owns said v = on_session (case said of
       None \<Rightarrow> release_failed_turn owns
     | Some t \<Rightarrow> (if strip t = [] \<or> \<not> is_peer_live (vp_session v) then release_failed_turn owns
         else seed_user_text now owns (strip t))) v"

text \<open>\<open>handle_cold_voice_end\<close> up to its first await\<close>

datatype cold_turn =
    Not_waiting
  | Released
  | Seeds nat "byte list" "selection option"
  | Runs_turn "byte list" "selection option"

record cold_wait =
  cw_manager :: manager
  cw_speech :: "(string, selection) dict"

definition take_selection :: "string \<Rightarrow> cold_wait \<Rightarrow> cold_wait" where
  "take_selection device c = c\<lparr>cw_speech := dict_pop device (cw_speech c)\<rparr>"

definition cold_voice_end :: "string \<Rightarrow> bool \<Rightarrow> cold_wait \<Rightarrow> cold_turn \<times> cold_wait" where
  "cold_voice_end device webrtc c =
    (if device \<notin> set (rm_cold (cw_manager c)) then (Not_waiting, c)
     else
       let m = cw_manager c;
           (pcm, m1) = take_preroll device (m\<lparr>rm_cold := filter (\<lambda>d. d \<noteq> device) (rm_cold m)\<rparr>);
           c1 = c\<lparr>cw_manager := m1\<rparr>
       in if webrtc then
            (case dict_get (rm_sessions m1) device of
               None \<Rightarrow> (Released, c1)
             | Some i \<Rightarrow>
                 if (case dict_get (rm_peers m1) i of None \<Rightarrow> True | Some p \<Rightarrow> se_closed (pr_session p)) \<or> pcm = [] then (Released, c1)
                 else (Seeds i pcm (dict_get (cw_speech c) device), take_selection device c1))
          else if pcm = [] then (Released, c1)
          else (Runs_turn pcm (dict_get (cw_speech c) device), take_selection device c1))"

text \<open>After the device was sent its \<open>audio.end\<close>\<close>

definition cold_released :: "string \<Rightarrow> cold_wait \<Rightarrow> cold_wait" where
  "cold_released device c = c\<lparr>cw_manager := device_state device Idle (cw_manager c)\<rparr>"

text \<open>\<open>RealtimeManager.begin_preroll\<close> with its selection; it raises what \<open>resolve\<close> raises, after the new wake.\<close>

definition arm_cold_wait :: "string \<Rightarrow> selection option \<Rightarrow> exn + selection \<Rightarrow> cold_wait \<Rightarrow> (exn + unit) \<times> cold_wait" where
  "arm_cold_wait device given found c =
    (case (case given of Some sel \<Rightarrow> Inr sel | None \<Rightarrow> found) of
       Inl e \<Rightarrow> (Inl e, c\<lparr>cw_manager := (cw_manager c)\<lparr>rm_next := Suc (rm_next (cw_manager c)),
         rm_wakes := dict_put device (rm_next (cw_manager c)) (rm_wakes (cw_manager c))\<rparr>\<rparr>)
     | Inr sel \<Rightarrow> (Inr (), c\<lparr>cw_manager := begin_preroll device (cw_manager c), cw_speech := dict_put device sel (cw_speech c)\<rparr>))"

text \<open>The turn over the WebSocket has ended: unless it was aborted, the device waits for the next utterance.\<close>

definition cold_turn_done :: "string \<Rightarrow> bool \<Rightarrow> exn + selection \<Rightarrow> cold_wait \<Rightarrow> (exn + unit) \<times> cold_wait" where
  "cold_turn_done device aborted found c = (if aborted then (Inr (), c) else arm_cold_wait device None found c)"

section \<open>Events\<close>

datatype voice_event =
    Session_does session_event
  | Tapped time bool bool "exn + selection" voice_frame
  | Turn_refused bool
  | Buffer_heard time bool "string option"
  | Client_connected bool
  | Client_disconnected bool

fun voice_step :: "voice_event \<Rightarrow> voice_peer \<Rightarrow> voice_peer" where
  "voice_step (Session_does e) v = on_session (session_step e) v"
| "voice_step (Tapped now owns barge_in found f) v = snd (control_tap now owns barge_in found f v)"
| "voice_step (Turn_refused owns) v = refuse_turn owns v"
| "voice_step (Buffer_heard now owns said) v = seed_heard now owns said v"
| "voice_step (Client_connected owns) v = on_session (client_connected owns) v"
| "voice_step (Client_disconnected owns) v = on_session (client_disconnected owns) v"

definition voice_run :: "voice_event list \<Rightarrow> voice_peer \<Rightarrow> voice_peer" where
  "voice_run es v = fold voice_step es v"

definition new_voice :: "time \<Rightarrow> voice_peer" where
  "new_voice now = \<lparr> vp_session = new_session now, vp_selection = None \<rparr>"

section \<open>A user turn ends once\<close>

fun vad_stops :: "stop_event list \<Rightarrow> nat" where
  "vad_stops [] = 0"
| "vad_stops (Frame_in _ Vad_stopped # es) = Suc (vad_stops es)"
| "vad_stops (_ # es) = vad_stops es"

text \<open>What leaves the end of a turn alone, and what brings it when the fallback is due at \<open>due\<close>\<close>

fun leaves_turn :: "stop_event \<Rightarrow> bool" where
  "leaves_turn (Frame_in now f) = (f \<noteq> Vad_started \<and> f \<noteq> Vad_stopped)"
| "leaves_turn (Fallback_due now) = True"
| "leaves_turn e = False"

fun ends_turn :: "time \<Rightarrow> stop_event \<Rightarrow> bool" where
  "ends_turn due (Frame_in now (Heard said)) = (strip said \<noteq> [])"
| "ends_turn due (Fallback_due now) = (due \<le> now)"
| "ends_turn due e = False"

lemmas turn_defs = cancel_fallback_def start_fallback_def finalize_turn_def fallback_handler_def reset_turn_def

lemma stop_step_count:
  "length (ts_ends (stop_step timeout e s)) + of_bool (ts_stopped (stop_step timeout e s))
     \<le> length (ts_ends s) + of_bool (ts_stopped s) + vad_stops [e]"
proof (cases e)
  case (Frame_in now f)
  then show ?thesis by (cases f) (simp_all add: turn_defs Let_def)
qed (simp_all add: turn_defs Let_def split: option.split)

lemma vad_stops_cons: "vad_stops (e # es) = vad_stops [e] + vad_stops es"
  by (cases "e # es" rule: vad_stops.cases) auto

lemma stop_run_count:
  "length (ts_ends (stop_run timeout es s)) + of_bool (ts_stopped (stop_run timeout es s))
     \<le> length (ts_ends s) + of_bool (ts_stopped s) + vad_stops es"
proof (induction es arbitrary: s)
  case (Cons e es)
  show ?case
    using Cons.IH [of "stop_step timeout e s"] stop_step_count [of timeout e s] vad_stops_cons [of e es]
    by (simp add: stop_run_def)
qed (simp add: stop_run_def)

text \<open>Once the voice has stopped, the first transcript or the fallback ends the turn, and nothing ends it again.\<close>

lemma leaves_turn_ended:
  "list_all leaves_turn es \<Longrightarrow> \<not> ts_stopped s \<Longrightarrow> ts_ends (stop_run timeout es s) = ts_ends s"
proof (induction es arbitrary: s)
  case (Cons e es)
  have "ts_ends (stop_step timeout e s) = ts_ends s \<and> \<not> ts_stopped (stop_step timeout e s)"
  proof (cases e)
    case (Frame_in now f)
    then show ?thesis using Cons.prems by (cases f) (simp_all add: turn_defs)
  qed (use Cons.prems in \<open>simp_all add: turn_defs split: option.split\<close>)
  then show ?case using Cons by (simp add: stop_run_def)
qed (simp add: stop_run_def)

lemma leaves_turn_step:
  assumes "leaves_turn e" "ts_stopped s" "ts_fallback s = Some due"
  shows "if ends_turn due e then length (ts_ends (stop_step timeout e s)) = Suc (length (ts_ends s)) \<and> \<not> ts_stopped (stop_step timeout e s)
    else stop_step timeout e s = s"
proof (cases e)
  case (Frame_in now f)
  then show ?thesis using assms by (cases f) (auto simp: turn_defs Let_def)
qed (use assms in \<open>auto simp: turn_defs Let_def\<close>)

lemma leaves_turn_run:
  "list_all leaves_turn es \<Longrightarrow> ts_stopped s \<Longrightarrow> ts_fallback s = Some due \<Longrightarrow>
    length (ts_ends (stop_run timeout es s)) = length (ts_ends s) + of_bool (list_ex (ends_turn due) es)"
proof (induction es arbitrary: s)
  case (Cons e es)
  show ?case
  proof (cases "ends_turn due e")
    case True
    then show ?thesis
      using leaves_turn_step [of e s due timeout] leaves_turn_ended [of es "stop_step timeout e s" timeout] Cons.prems by (simp add: stop_run_def)
  next
    case False
    then have "stop_step timeout e s = s" using leaves_turn_step [of e s due timeout] Cons.prems by simp
    then show ?thesis using Cons False by (simp add: stop_run_def)
  qed
qed (simp add: stop_run_def)

text \<open>The turn machine never wedges and never ends a turn twice. When the voice stops at \<open>t\<close>, whatever happened
  before, and is quiet from then on, the turn is ended exactly once if a transcript arrives or the fallback becomes due
  at \<open>t + timeout\<close>, and not before that; over any events there are never more ends than stops of the voice.\<close>

theorem user_turn_ends_once:
  assumes "list_all leaves_turn es"
  shows "length (ts_ends (stop_run timeout (before @ Frame_in t Vad_stopped # es) new_turn_stop))
      = length (ts_ends (stop_run timeout before new_turn_stop)) + of_bool (list_ex (ends_turn (t + timeout)) es)
    \<and> length (ts_ends (stop_run timeout before new_turn_stop)) \<le> vad_stops before"
proof -
  let ?s = "stop_run timeout before new_turn_stop"
  let ?u = "stop_step timeout (Frame_in t Vad_stopped) ?s"
  have "stop_run timeout (before @ Frame_in t Vad_stopped # es) new_turn_stop = stop_run timeout es ?u"
    by (simp add: stop_run_def)
  moreover have "ts_stopped ?u" "ts_fallback ?u = Some (t + timeout)" "ts_ends ?u = ts_ends ?s"
    by (simp_all add: turn_defs)
  ultimately show ?thesis
    using leaves_turn_run [of es ?u "t + timeout" timeout] assms stop_run_count [of timeout before new_turn_stop]
    by (simp add: new_turn_stop_def)
qed

theorem user_turn_ends_once_witness:
  "length (ts_ends (stop_run 2 ([Frame_in 0 Vad_started] @ Frame_in 1 Vad_stopped # [Frame_in 2 (Heard '' ''), Fallback_due 3, Frame_in 4 (Heard ''late'')])
     new_turn_stop)) = 1"
  using user_turn_ends_once [of "[Frame_in 2 (Heard '' ''), Fallback_due 3, Frame_in 4 (Heard ''late'')]" 2 "[Frame_in 0 Vad_started]" 1]
  by (simp add: stop_run_def turn_defs new_turn_stop_def strip_def lstrip_def rstrip_def)

section \<open>Every transcript has its turn\<close>

definition transcripts :: "peer_session \<Rightarrow> nat" where
  "transcripts s = length (filter (\<lambda>m. case m of Control_transcript _ \<Rightarrow> True | _ \<Rightarrow> False) (se_sent s))"

definition own_turns :: "peer_session \<Rightarrow> bool" where
  "own_turns s \<longleftrightarrow> int (transcripts s) + (if se_turn_active s then 1 else 0) \<le> se_generation s"

text \<open>What neither opens a turn nor relays a transcript\<close>

definition no_talk :: "peer_session \<Rightarrow> peer_session \<Rightarrow> bool" where
  "no_talk s t \<longleftrightarrow> transcripts t = transcripts s \<and> se_generation t = se_generation s \<and> (se_turn_active t \<longrightarrow> se_turn_active s)"

lemma no_talk_own: "no_talk s t \<Longrightarrow> own_turns s \<Longrightarrow> own_turns t"
  by (auto simp: no_talk_def own_turns_def split: if_splits)

lemma no_talk_refl [simp]: "no_talk s s"
  by (simp add: no_talk_def)

lemma no_talk_trans: "no_talk s t \<Longrightarrow> no_talk t u \<Longrightarrow> no_talk s u"
  by (auto simp: no_talk_def)

lemmas talk_defs = no_talk_def transcripts_def start_audio_end_def set_input_expected_def set_mic_paused_def touch_activity_def
  send_control_def release_media_def take_end_def emit_end_def schedule_drain_timer_def cancel_drain_timer_def apply_vad_profile_def
  on_interruption_def on_turn_skipped_def on_bot_started_def on_bot_stopped_def close_begin_def close_finish_def notify_ended_def
  finish_notify_def release_failed_turn_def

lemma no_talk_drain: "no_talk s (drain_ends owns s)"
proof (induction owns s rule: drain_ends.induct)
  case (1 owns s)
  have t: "no_talk s (take_end e s)" for e by (simp add: talk_defs split: option.split)
  have "no_talk u (emit_end e u)" for e u by (simp add: talk_defs Let_def)
  then have e: "no_talk s (emit_end e (take_end e s))" for e using t no_talk_trans by blast
  show ?case
    using 1 t e by (subst drain_ends.simps) (auto split: list.split intro: no_talk_trans)
qed

lemma no_talk_into_drain: "no_talk s t \<Longrightarrow> no_talk s (drain_ends owns t)"
  using no_talk_drain no_talk_trans by blast

lemma no_talk_finish_end: "no_talk s (finish_audio_end now owns delivered same f s)"
  by (simp add: finish_audio_end_def talk_defs Let_def)

lemma no_talk_step:
  assumes "\<And>now owns ready said. e \<noteq> Seed now owns ready said"
  shows "no_talk s (session_step e s)"
proof (cases e)
  case (Seed now owns ready said)
  then show ?thesis using assms by blast
next
  case (Turn_complete now owns follow reply g m)
  then show ?thesis by (auto simp: on_turn_complete_def Let_def intro!: no_talk_into_drain) (simp_all add: talk_defs)
next
  case (Idle_timer owns barge_in)
  then show ?thesis by (auto simp: drain_after_idle_def Let_def intro!: no_talk_into_drain) (simp_all add: talk_defs)
next
  case (Drained owns k)
  then show ?thesis by (auto simp: output_drained_def intro!: no_talk_into_drain) (simp_all add: talk_defs)
next
  case (New_agent_turn active k)
  then show ?thesis by (auto simp: agent_turn_callback_def talk_defs split: option.split)
next
  case (Send_done i now owns delivered same)
  have "no_talk s (s\<lparr>se_flights := fs\<rparr>)" for fs by (simp add: talk_defs)
  then have "no_talk s (finish_audio_end now owns delivered same f (s\<lparr>se_flights := fs\<rparr>))" for f fs
    using no_talk_finish_end no_talk_trans by blast
  then show ?thesis using Send_done by (auto simp: Let_def intro!: no_talk_into_drain)
qed (simp_all add: talk_defs Let_def)

lemma own_seed_text: "own_turns s \<Longrightarrow> own_turns (seed_user_text now owns said s)"
  by (auto simp: own_turns_def seed_user_text_def talk_defs split: if_splits)

lemma own_released: "own_turns s \<Longrightarrow> own_turns (release_failed_turn owns s)"
  by (rule no_talk_own) (simp_all add: talk_defs Let_def)

lemma own_session_step: "own_turns s \<Longrightarrow> own_turns (session_step e s)"
proof (cases e)
  case (Seed now owns ready said)
  then show "own_turns s \<Longrightarrow> own_turns (session_step e s)" by (simp add: seed_text_turn_def Let_def own_released own_seed_text)
qed (use no_talk_step no_talk_own in blast)+

lemma own_begin_turn: "own_turns s \<Longrightarrow> own_turns (begin_user_turn now owns s)"
  by (auto simp: own_turns_def begin_user_turn_def talk_defs split: if_splits)

lemma own_relay: "own_turns s \<Longrightarrow> own_turns (relay_transcript now owns said s)"
  by (auto simp: own_turns_def relay_transcript_def talk_defs split: if_splits)

definition voice_ok :: "voice_peer \<Rightarrow> bool" where
  "voice_ok v \<longleftrightarrow> own_turns (vp_session v)"

lemma voice_ok_on: "voice_ok (on_session f v) \<longleftrightarrow> own_turns (f (vp_session v))"
  by (simp add: voice_ok_def on_session_def)

lemma user_started_ok:
  assumes "voice_ok v"
  shows "voice_ok (snd (user_started now owns barge_in found v))"
proof -
  have i: "own_turns (set_input_expected True (vp_session v))"
    using assms by (auto simp: voice_ok_def own_turns_def set_input_expected_def transcripts_def)
  moreover have "own_turns (send_control owns (Control_error c) ((set_input_expected True (vp_session v))\<lparr>se_turn_active := False\<rparr>))" for c
    using i by (rule no_talk_own [rotated]) (simp add: talk_defs)
  ultimately show ?thesis
    using assms by (auto simp: user_started_def snapshot_selection_def on_session_def voice_ok_def Let_def own_begin_turn split: sum.split)
qed

lemma voice_step_ok: "voice_ok v \<Longrightarrow> voice_ok (voice_step e v)"
proof (induction e v rule: voice_step.induct)
  case (2 now owns barge_in found f v)
  have "own_turns (vp_session v) \<Longrightarrow> own_turns (send_control owns Control_audio_start (on_bot_started barge_in (vp_session v)))"
    by (erule no_talk_own [rotated]) (simp add: talk_defs)
  moreover have "own_turns (vp_session v) \<Longrightarrow> own_turns (on_bot_stopped barge_in (vp_session v))"
    by (erule no_talk_own [rotated]) (simp add: talk_defs Let_def)
  moreover have "own_turns (vp_session v) \<Longrightarrow> own_turns (on_interruption (vp_session v))"
    by (erule no_talk_own [rotated]) (simp add: talk_defs)
  ultimately show ?case
    using 2 user_started_ok [of v now owns barge_in found] by (cases f) (simp_all add: voice_ok_def on_session_def own_relay)
next
  case (3 owns v)
  then show ?case unfolding voice_step.simps refuse_turn_def voice_ok_on
    by (simp add: voice_ok_def) (erule no_talk_own [rotated], simp add: talk_defs Let_def)
next
  case (4 now owns said v)
  then show ?case by (simp add: seed_heard_def voice_ok_def on_session_def own_released own_seed_text split: option.split)
next
  case (5 owns v)
  then show ?case unfolding voice_step.simps voice_ok_on client_connected_def
    by (simp add: voice_ok_def) (erule no_talk_own [rotated], simp add: talk_defs)
next
  case (6 owns v)
  then show ?case unfolding voice_step.simps voice_ok_on client_disconnected_def
    by (simp add: voice_ok_def) (intro impI, erule no_talk_own [rotated], simp add: talk_defs Let_def)
qed (simp add: voice_ok_def on_session_def own_session_step)

interpretation voice: event_machine voice_step voice_ok
  by unfold_locales (rule voice_step_ok)

lemma voice_ok_new: "voice_ok (new_voice now)"
  by (simp add: voice_ok_def new_voice_def own_turns_def new_session_def transcripts_def)

text \<open>C30: No orphaned transcript reaches the device. Whatever frames, callbacks and messages interleave, the device was
  sent at most one transcript for each turn that was opened: by an accepted start of speech, or by a seeded utterance;
  and a turn that is open has not sent its transcript.\<close>

theorem transcripts_have_turns:
  "own_turns (vp_session (voice_run es (new_voice now)))"
  using voice.every_run [OF voice_ok_new, of es now] by (simp add: voice_ok_def voice_run_def)

section \<open>A pending reply is not disturbed\<close>

text \<open>The events that may end the wait for the reply to turn \<open>g\<close>, or that put another text to the model\<close>

fun answers_turn :: "int \<Rightarrow> voice_event \<Rightarrow> bool" where
  "answers_turn g (Session_does (Turn_complete now owns follow reply h m)) = (h = None \<or> h = Some g)"
| "answers_turn g (Session_does (Bot_started b)) = True"
| "answers_turn g (Session_does (Seed now owns ready said)) = True"
| "answers_turn g (Tapped now owns b found Bot_started_frame) = True"
| "answers_turn g (Buffer_heard now owns said) = True"
| "answers_turn g e = False"

definition speech_starts :: "peer_session \<Rightarrow> nat" where
  "speech_starts s = length (filter (\<lambda>m. m = Control_speech_start) (se_sent s))"

text \<open>The reply to turn \<open>g\<close> is awaited, and \<open>n\<close> starts of speech were told to the device.\<close>

definition awaits :: "int \<Rightarrow> nat \<Rightarrow> peer_session \<Rightarrow> bool" where
  "awaits g n s \<longleftrightarrow> se_awaiting s \<and> se_generation s = g \<and> speech_starts s = n"

lemma awaits_drain: "awaits g n s \<Longrightarrow> awaits g n (drain_ends owns s)"
proof (induction owns s rule: drain_ends.induct)
  case (1 owns s)
  have t: "awaits g n (take_end e s)" for e
    using "1.prems" by (simp add: awaits_def speech_starts_def talk_defs split: option.split)
  have e: "awaits g n u \<Longrightarrow> awaits g n (emit_end e u)" for e u by (simp add: awaits_def speech_starts_def talk_defs Let_def)
  show ?case using 1 t e by (subst drain_ends.simps) (auto split: list.split)
qed

lemma awaits_session:
  assumes "awaits g n s" "\<not> answers_turn g (Session_does e)"
  shows "awaits g n (session_step e s)"
proof (cases e)
  case (Turn_complete now owns follow reply h m)
  with assms show ?thesis
    by (auto simp: on_turn_complete_def Let_def intro!: awaits_drain) (auto simp: awaits_def speech_starts_def talk_defs)
next
  case (Idle_timer owns barge_in)
  with assms show ?thesis
    by (auto simp: drain_after_idle_def Let_def intro!: awaits_drain) (auto simp: awaits_def speech_starts_def talk_defs)
next
  case (Drained owns k)
  with assms show ?thesis by (auto simp: output_drained_def intro!: awaits_drain) (auto simp: awaits_def speech_starts_def talk_defs)
next
  case (New_agent_turn active k)
  with assms show ?thesis by (auto simp: agent_turn_callback_def awaits_def speech_starts_def talk_defs split: option.split)
next
  case (Send_done i now owns delivered same)
  have "awaits g n (finish_audio_end now owns delivered same f (s\<lparr>se_flights := fs\<rparr>))" for f fs
    using assms(1) by (simp add: finish_audio_end_def awaits_def speech_starts_def talk_defs Let_def)
  with Send_done assms show ?thesis by (auto simp: Let_def intro!: awaits_drain)
qed (use assms in \<open>simp_all add: awaits_def speech_starts_def talk_defs Let_def\<close>)

lemma awaits_suppressed: "awaits g n s \<Longrightarrow> turns_suppressed barge_in s"
  by (simp add: awaits_def turns_suppressed_def)

lemma awaits_voice:
  assumes "awaits g n (vp_session v)" "\<not> answers_turn g e"
  shows "awaits g n (vp_session (voice_step e v))"
proof (cases e)
  case (Tapped now owns barge_in found f)
  have "awaits g n (relay_transcript now owns said (vp_session v))" for said
    using assms(1) by (simp add: awaits_def speech_starts_def relay_transcript_def talk_defs)
  then show ?thesis using assms Tapped awaits_suppressed [OF assms(1), of barge_in]
    by (cases f) (auto simp: on_session_def user_started_def awaits_def speech_starts_def talk_defs Let_def)
qed (use assms in \<open>simp_all add: awaits_session on_session_def, simp_all add: awaits_def speech_starts_def refuse_turn_def
    on_session_def client_connected_def client_disconnected_def talk_defs Let_def\<close>)

interpretation waiting: guarded_machine voice_step "\<lambda>e. \<not> answers_turn g e" "\<lambda>v. awaits g n (vp_session v)" for g n
  by unfold_locales (rule awaits_voice)

text \<open>C31: Noise cannot cut off a reply that is being prepared. From a transcript until the bot speaks, the turn completes
  or another text is seeded, whatever else happens: no start of speech opens a turn or is told to the device, and all
  the sound of the microphone is passed on as silence of the same length.\<close>

theorem pending_reply_is_undisturbed:
  assumes "se_awaiting (vp_session v)" "list_all (\<lambda>e. \<not> answers_turn (se_generation (vp_session v)) e) es"
  shows "se_generation (vp_session (voice_run es v)) = se_generation (vp_session v)
    \<and> speech_starts (vp_session (voice_run es v)) = speech_starts (vp_session v)
    \<and> mic_gate barge_in True (Input_audio pcm) (vp_session (voice_run es v)) = Input_audio (replicate (length pcm) 0)"
proof -
  have "awaits (se_generation (vp_session v)) (speech_starts (vp_session v)) (vp_session (voice_run es v))"
    using assms unfolding voice_run_def by (intro waiting.run_keeps) (simp_all add: awaits_def)
  then show ?thesis using awaits_suppressed by (auto simp: awaits_def)
qed

definition seeded_voice :: voice_peer where
  "seeded_voice = voice_run [Client_connected True, Buffer_heard 1 True (Some ''hi'')] (new_voice 0)"

lemma seeded_voice: "se_awaiting (vp_session seeded_voice)" "se_generation (vp_session seeded_voice) = 1"
  by (simp_all add: seeded_voice_def voice_run_def new_voice_def new_session_def client_connected_def seed_heard_def on_session_def
      send_control_def is_peer_live_def seed_user_text_def touch_activity_def strip_def lstrip_def rstrip_def is_space_def char_between_def)

theorem pending_reply_is_undisturbed_witness:
  "mic_gate True True (Input_audio [1, 2])
     (vp_session (voice_run [Tapped 2 True True (Inl KeyError) User_started, Session_does (Turn_complete 3 True False [] (Some 0) None)] seeded_voice))
   = Input_audio [0, 0]"
  using pending_reply_is_undisturbed [of seeded_voice
      "[Tapped 2 True True (Inl KeyError) User_started, Session_does (Turn_complete 3 True False [] (Some 0) None)]" True "[1, 2]"] seeded_voice
  by simp

section \<open>A buffered utterance is answered\<close>

text \<open>The device was told that the turn is over, or what was understood.\<close>

definition answered :: "voice_peer \<Rightarrow> voice_peer \<Rightarrow> bool" where
  "answered v w \<longleftrightarrow> se_sent (vp_session w) = se_sent (vp_session v) @ [Control_end False]
     \<or> (\<exists>t. t \<noteq> [] \<and> se_sent (vp_session w) = se_sent (vp_session v) @ [Control_transcript t] \<and> se_awaiting (vp_session w))"

text \<open>No utterance that was buffered during a cold wake leaves the device waiting. While the session is open and owns
  the device, each part of the seeding either goes on, without a message, or answers with exactly one: the end of
  the turn or the transcript of the turn that it opened; it goes on only with sound and a selection, and its last part
  always answers.\<close>

theorem buffered_utterance_is_answered:
  assumes "\<not> se_closed (vp_session v)" "\<not> se_ended (vp_session v)"
  shows "(if fst (seed_begin True pcm v) then pcm \<noteq> [] \<and> snd (seed_begin True pcm v) = v else answered v (snd (seed_begin True pcm v)))
    \<and> (if fst (seed_ready True ready given found v)
       then (\<exists>sel. vp_selection (snd (seed_ready True ready given found v)) = Some sel \<and> (given = Some sel \<or> given = None \<and> found = Inr sel))
         \<and> vp_session (snd (seed_ready True ready given found v)) = vp_session v
       else answered v (snd (seed_ready True ready given found v)))
    \<and> answered v (seed_heard now True said v)"
proof -
  have r: "answered v (on_session (release_failed_turn True) v)"
    using assms by (simp add: answered_def on_session_def release_failed_turn_def start_audio_end_def set_input_expected_def)
  have "answered v (on_session (seed_user_text now True (strip t)) v)" if "strip t \<noteq> []" for t
    using assms that by (simp add: answered_def on_session_def seed_user_text_def send_control_def touch_activity_def)
  then show ?thesis using r assms
    by (auto simp: seed_begin_def seed_ready_def seed_heard_def split: option.split sum.split)
qed

theorem buffered_utterance_is_answered_witness:
  "answered (new_voice 0) (seed_heard 1 True (Some '' '') (new_voice 0))"
  using buffered_utterance_is_answered [of "new_voice 0" "[]" True None "Inl KeyError" 1 "Some '' ''"]
  by (simp add: new_voice_def new_session_def)

lemma take_preroll_facts:
  "fst (take_preroll d m) = (case dict_get (rm_preroll m) d of None \<Rightarrow> [] | Some b \<Rightarrow> b)"
  "dict_get (rm_preroll (snd (take_preroll d m))) d = None"
  "rm_cold (snd (take_preroll d m)) = rm_cold m" "rm_sessions (snd (take_preroll d m)) = rm_sessions m"
  "rm_peers (snd (take_preroll d m)) = rm_peers m"
  by (simp_all add: take_preroll_def split: option.split)

text \<open>Whether the session that the device has can take the utterance\<close>

definition open_peer :: "manager \<Rightarrow> string \<Rightarrow> bool" where
  "open_peer m device \<longleftrightarrow> (case peer_of_device m device of None \<Rightarrow> False | Some p \<Rightarrow> \<not> se_closed (pr_session p))"

definition buffered :: "manager \<Rightarrow> string \<Rightarrow> byte list" where
  "buffered m device = (case dict_get (rm_preroll m) device of None \<Rightarrow> [] | Some b \<Rightarrow> b)"

lemma cold_voice_end_cases:
  assumes "device \<in> set (rm_cold (cw_manager c))"
  shows "device \<notin> set (rm_cold (cw_manager (snd (cold_voice_end device webrtc c))))"
    "dict_get (rm_preroll (cw_manager (snd (cold_voice_end device webrtc c)))) device = None"
    "fst (cold_voice_end device webrtc c) =
      (if buffered (cw_manager c) device = [] \<or> webrtc \<and> \<not> open_peer (cw_manager c) device then Released
       else if webrtc then Seeds (the (dict_get (rm_sessions (cw_manager c)) device)) (buffered (cw_manager c) device) (dict_get (cw_speech c) device)
       else Runs_turn (buffered (cw_manager c) device) (dict_get (cw_speech c) device))"
proof -
  let ?m = "(cw_manager c)\<lparr>rm_cold := filter (\<lambda>d. d \<noteq> device) (rm_cold (cw_manager c))\<rparr>"
  obtain pcm m1 where t: "take_preroll device ?m = (pcm, m1)" by fastforce
  have f: "pcm = buffered (cw_manager c) device" "dict_get (rm_preroll m1) device = None" "device \<notin> set (rm_cold m1)"
    "rm_sessions m1 = rm_sessions (cw_manager c)" "rm_peers m1 = rm_peers (cw_manager c)"
    using take_preroll_facts [of device ?m] t by (auto simp: buffered_def)
  note unfolds = cold_voice_end_def assms t take_selection_def f Let_def
  show "device \<notin> set (rm_cold (cw_manager (snd (cold_voice_end device webrtc c))))"
    by (simp add: unfolds split: option.split)
  show "dict_get (rm_preroll (cw_manager (snd (cold_voice_end device webrtc c)))) device = None"
    by (simp add: unfolds split: option.split)
  show "fst (cold_voice_end device webrtc c) =
      (if buffered (cw_manager c) device = [] \<or> webrtc \<and> \<not> open_peer (cw_manager c) device then Released
       else if webrtc then Seeds (the (dict_get (rm_sessions (cw_manager c)) device)) (buffered (cw_manager c) device) (dict_get (cw_speech c) device)
       else Runs_turn (buffered (cw_manager c) device) (dict_get (cw_speech c) device))"
    by (simp add: unfolds open_peer_def peer_of_device_def split: option.split)
qed

text \<open>The end of a cold utterance is handled once. It consumes the wait and the buffered sound, so that the same end again
  finds nothing; the sound goes whole, with the selection of the wake, to the open session of the device or, without
  WebRTC, into one turn over the WebSocket; only an empty buffer or a lost session releases the device instead.\<close>

theorem cold_utterance_is_handled_once:
  assumes "device \<in> set (rm_cold (cw_manager c))" "cold_voice_end device webrtc c = (r, d)"
  shows "fst (cold_voice_end device again d) = Not_waiting \<and> dict_get (rm_preroll (cw_manager d)) device = None
    \<and> r = (if buffered (cw_manager c) device = [] \<or> webrtc \<and> \<not> open_peer (cw_manager c) device then Released
       else if webrtc then Seeds (the (dict_get (rm_sessions (cw_manager c)) device)) (buffered (cw_manager c) device) (dict_get (cw_speech c) device)
       else Runs_turn (buffered (cw_manager c) device) (dict_get (cw_speech c) device))"
  using cold_voice_end_cases [OF assms(1), of webrtc] assms(2) by (simp add: cold_voice_end_def [of device again])

definition demo_cold :: "device_world \<Rightarrow> cold_wait" where
  "demo_cold w = \<lparr> cw_manager = add_preroll ''kitchen'' [1, 2] (begin_preroll ''kitchen'' (empty_manager w)), cw_speech = [] \<rparr>"

lemma demo_cold: "\<exists>d. cold_voice_end ''kitchen'' False (demo_cold w) = (Runs_turn [1, 2] None, d)"
  by (simp add: cold_voice_end_def demo_cold_def begin_preroll_def add_preroll_def empty_manager_def take_preroll_def list_insert_def
      dict_put_def dict_get_def max_preroll_bytes_def Let_def)

lemma demo_waits: "''kitchen'' \<in> set (rm_cold (cw_manager (demo_cold w)))"
  by (simp add: demo_cold_def begin_preroll_def add_preroll_def empty_manager_def list_insert_def split: option.split)

theorem cold_utterance_is_handled_once_witness:
  "\<forall>w. \<exists>d. cold_voice_end ''kitchen'' False (demo_cold w) = (Runs_turn [1, 2] None, d) \<and> fst (cold_voice_end ''kitchen'' True d) = Not_waiting"
proof
  fix w
  obtain d where d: "cold_voice_end ''kitchen'' False (demo_cold w) = (Runs_turn [1, 2] None, d)" using demo_cold by blast
  then show "\<exists>d. cold_voice_end ''kitchen'' False (demo_cold w) = (Runs_turn [1, 2] None, d) \<and> fst (cold_voice_end ''kitchen'' True d) = Not_waiting"
    using cold_utterance_is_handled_once [OF demo_waits d, of True] by blast
qed

end
