(* ===== verification/Reply_Media.thy ===== *)
theory Reply_Media
  imports Event_Machine Speech_Output
begin

text \<open>
  The sound of a reply in the realtime pipeline: which selection speaks it (\<open>realtime/wyoming.py\<close>), its gain
  (\<open>realtime/gain.py\<close>), and how the server knows that it was played (\<open>AudioConsumption\<close> in \<open>realtime/transport.py\<close>,
  \<open>OutputDrainTap\<close> in \<open>realtime/llm.py\<close>). The Pipecat services and the track are not modelled: their calls and the
  futures of the track are events. Floating point numbers are rationals, and \<open>math.tanh\<close> is a parameter.
\<close>

section \<open>Consumption\<close>

datatype play_outcome = Unresolved | Result bool | Broken | Was_cancelled

text \<open>\<open>ac_callbacks\<close> are the futures that are done and whose \<open>_consumed\<close> has not run yet; \<open>ac_written\<close> and \<open>ac_refused\<close>
  are the history: the futures of the frames that were given to the track, and whether one was not.\<close>

record consumption =
  ac_futures :: "(nat, play_outcome) dict"
  ac_pending :: "nat list"
  ac_failed :: bool
  ac_callbacks :: "nat list"
  ac_written :: "nat list"
  ac_refused :: bool

definition new_consumption :: consumption where
  "new_consumption = \<lparr> ac_futures = [], ac_pending = [], ac_failed = False, ac_callbacks = [], ac_written = [], ac_refused = False \<rparr>"

definition outcome_of :: "consumption \<Rightarrow> nat \<Rightarrow> play_outcome" where
  "outcome_of c f = (case dict_get (ac_futures c) f of None \<Rightarrow> Unresolved | Some r \<Rightarrow> r)"

text \<open>\<open>write_audio_frame\<close> up to its await; the track answers with a new future, or raises.\<close>

datatype written = Says bool | Fails | Awaits nat

definition write_audio :: "bool \<Rightarrow> bool \<Rightarrow> byte list \<Rightarrow> nat option \<Rightarrow> consumption \<Rightarrow> written \<times> consumption" where
  "write_audio can_send has_track audio added c =
    (if \<not> can_send \<or> \<not> has_track then (Says False, c\<lparr>ac_failed := True, ac_refused := True\<rparr>)
     else if audio = [] then (Says True, c)
     else case added of
       None \<Rightarrow> (Fails, c\<lparr>ac_failed := True, ac_refused := True\<rparr>)
     | Some f \<Rightarrow> (Awaits f, c\<lparr>ac_futures := dict_put f Unresolved (ac_futures c), ac_pending := ac_pending c @ [f],
         ac_written := ac_written c @ [f]\<rparr>))"

text \<open>\<open>_consumed\<close>\<close>

definition consumed :: "nat \<Rightarrow> consumption \<Rightarrow> consumption" where
  "consumed f c = (if outcome_of c f = Result True then c\<lparr>ac_pending := filter (\<lambda>g. g \<noteq> f) (ac_pending c)\<rparr>
     else c\<lparr>ac_failed := True\<rparr>)"

text \<open>\<open>drained\<close>: the futures it still has to look at, of which it waits for the first; \<open>Breaks\<close> when that await raises.\<close>

datatype drain_state = Waits "nat list" | Answers bool | Breaks

fun drain_loop :: "consumption \<Rightarrow> nat list \<Rightarrow> drain_state" where
  "drain_loop c [] = Answers (\<not> ac_failed c)"
| "drain_loop c (f # fs) = (case outcome_of c f of
     Was_cancelled \<Rightarrow> Answers False
   | Unresolved \<Rightarrow> Waits (f # fs)
   | Broken \<Rightarrow> Breaks
   | Result r \<Rightarrow> if r then drain_loop c fs else Answers False)"

definition drain_resume :: "consumption \<Rightarrow> drain_state \<Rightarrow> drain_state" where
  "drain_resume c d = (case d of
     Waits (f # fs) \<Rightarrow> (case outcome_of c f of
         Unresolved \<Rightarrow> d
       | Result r \<Rightarrow> if r then drain_loop c fs else Answers False
       | _ \<Rightarrow> Breaks)
   | _ \<Rightarrow> d)"

definition drain_start :: "consumption \<Rightarrow> drain_state" where
  "drain_start c = drain_loop c (ac_pending c)"

text \<open>What may happen while a drain waits; a future is resolved once, and its callback runs after that.\<close>

datatype playback_event = Writes bool bool "byte list" "nat option" | Resolves nat play_outcome | Callback nat

fun playback_step :: "playback_event \<Rightarrow> consumption \<Rightarrow> consumption" where
  "playback_step (Writes can_send has_track audio added) c =
     (if (case added of None \<Rightarrow> False | Some f \<Rightarrow> f \<in> set (ac_written c)) then c else snd (write_audio can_send has_track audio added c))"
| "playback_step (Resolves f r) c =
     (if f \<in> set (ac_written c) \<and> outcome_of c f = Unresolved \<and> r \<noteq> Unresolved
      then c\<lparr>ac_futures := dict_put f r (ac_futures c), ac_callbacks := ac_callbacks c @ [f]\<rparr> else c)"
| "playback_step (Callback f) c = (if f \<in> set (ac_callbacks c) then consumed f (c\<lparr>ac_callbacks := remove1 f (ac_callbacks c)\<rparr>) else c)"

definition playback_run :: "playback_event list \<Rightarrow> consumption \<Rightarrow> consumption" where
  "playback_run es c = fold playback_step es c"

fun drain_run :: "playback_event list \<Rightarrow> consumption \<Rightarrow> drain_state \<Rightarrow> drain_state \<times> consumption" where
  "drain_run [] c d = (d, c)"
| "drain_run (e # es) c d = drain_run es (playback_step e c) (drain_resume (playback_step e c) d)"

text \<open>\<open>OutputDrainTap.process_frame\<close>: the marker whose turn is acknowledged\<close>

definition drain_tap :: "bool \<Rightarrow> bool \<Rightarrow> 'a option \<Rightarrow> bool \<Rightarrow> 'a option" where
  "drain_tap downstream response_end marker answer = (if downstream \<and> response_end \<and> answer then marker else None)"

section \<open>Voices\<close>

text \<open>\<open>WyomingSTTService.run_stt\<close>; \<open>heard\<close> is the answer of \<open>transcribe\<close>. None is no frame.\<close>

datatype stt_frame = Stt_transcript string | Stt_error

definition stt_minimum :: "int \<Rightarrow> int" where
  "stt_minimum rate = \<lfloor>4 / 10 * rat_of_int rate * 2\<rfloor>"

definition run_stt :: "int \<Rightarrow> byte list \<Rightarrow> exn + selection \<Rightarrow> (selection \<Rightarrow> exn + string) \<Rightarrow> stt_frame option" where
  "run_stt rate audio found heard =
    (if int (length audio) < stt_minimum rate then None
     else case found of
       Inl e \<Rightarrow> Some Stt_error
     | Inr sel \<Rightarrow> (case heard sel of
         Inl e \<Rightarrow> Some Stt_error
       | Inr t \<Rightarrow> if strip t \<noteq> [] then Some (Stt_transcript (strip t)) else None))"

record tts_service =
  tt_selections :: "(string, selection) dict"
  tt_context :: "string option"

definition tts_interrupted :: "tts_service \<Rightarrow> tts_service" where
  "tts_interrupted s = s\<lparr>tt_selections := []\<rparr>"

definition context_created :: "string \<Rightarrow> exn + selection \<Rightarrow> tts_service \<Rightarrow> (exn + unit) \<times> tts_service" where
  "context_created k found s = (case found of
     Inl e \<Rightarrow> (Inl e, s)
   | Inr sel \<Rightarrow> (Inr (), s\<lparr>tt_selections := dict_put k sel (tt_selections s)\<rparr>))"

text \<open>The context was read before Pipecat's own part, which may change it to \<open>after\<close>.\<close>

definition context_completed :: "string option \<Rightarrow> tts_service \<Rightarrow> tts_service" where
  "context_completed after s = (case tt_context s of
     None \<Rightarrow> s\<lparr>tt_context := after\<rparr>
   | Some k \<Rightarrow> s\<lparr>tt_context := after, tt_selections := dict_pop k (tt_selections s)\<rparr>)"

text \<open>\<open>run_tts\<close>; \<open>synth\<close> is \<open>synthesize\<close> with the selection.\<close>

datatype tts_result = Tts_error | Sound int "byte list list"

fun chunks_of :: "synth_event list \<Rightarrow> byte list list" where
  "chunks_of [] = []"
| "chunks_of (Rate _ # es) = chunks_of es"
| "chunks_of (Chunk c # es) = c # chunks_of es"

fun last_rate :: "int \<Rightarrow> synth_event list \<Rightarrow> int" where
  "last_rate r [] = r"
| "last_rate r (Rate n # es) = last_rate n es"
| "last_rate r (Chunk _ # es) = last_rate r es"

definition run_tts :: "string \<Rightarrow> string \<Rightarrow> (string \<Rightarrow> selection \<Rightarrow> synth_event list \<times> exn option) \<Rightarrow> tts_service \<Rightarrow> tts_result" where
  "run_tts said k synth s = (case dict_get (tt_selections s) k of
     None \<Rightarrow> Tts_error
   | Some sel \<Rightarrow> (case synth said sel of
       (es, Some e) \<Rightarrow> Tts_error
     | (es, None) \<Rightarrow> Sound (last_rate 22050 es) (chunks_of es)))"

datatype tts_event = Created string "exn + selection" | Completed "string option" | Interrupted | Turns_to "string option"

fun tts_step :: "tts_event \<Rightarrow> tts_service \<Rightarrow> tts_service" where
  "tts_step (Created k found) s = snd (context_created k found s)"
| "tts_step (Completed after) s = context_completed after s"
| "tts_step Interrupted s = tts_interrupted s"
| "tts_step (Turns_to k) s = s\<lparr>tt_context := k\<rparr>"

definition tts_run :: "tts_event list \<Rightarrow> tts_service \<Rightarrow> tts_service" where
  "tts_run es s = fold tts_step es s"

section \<open>Gain\<close>

definition full_scale :: rat where "full_scale = 32767"
definition knee :: rat where "knee = 85 / 100"

definition soft_clip :: "(rat \<Rightarrow> rat) \<Rightarrow> rat \<Rightarrow> rat" where
  "soft_clip tnh sample =
    (let magnitude = \<bar>sample\<bar> in
     if magnitude \<le> knee then sample
     else let headroom = 1 - knee; compressed = knee + headroom * tnh ((magnitude - knee) / headroom)
       in if 0 \<le> sample then \<bar>compressed\<bar> else - \<bar>compressed\<bar>)"

text \<open>\<open>int\<close> cuts towards zero.\<close>

definition cut_off :: "rat \<Rightarrow> int" where
  "cut_off r = (if 0 \<le> r then \<lfloor>r\<rfloor> else \<lceil>r\<rceil>)"

definition gained :: "(rat \<Rightarrow> rat) \<Rightarrow> rat \<Rightarrow> int \<Rightarrow> int" where
  "gained tnh gain sample =
     cut_off (max (-32768) (min 32767 (soft_clip tnh (of_int sample * gain / full_scale) * full_scale)))"

definition apply_gain :: "(rat \<Rightarrow> rat) \<Rightarrow> byte list \<Rightarrow> rat \<Rightarrow> exn + byte list" where
  "apply_gain tnh pcm gain =
    (if gain = 1 \<or> pcm = [] then Inr pcm
     else let usable = length pcm - length pcm mod 2 in
       case pack_all (map (gained tnh gain) (samples (take usable pcm))) of
         Inl e \<Rightarrow> Inl e
       | Inr out \<Rightarrow> Inr (out @ drop usable pcm))"

section \<open>Playback is not claimed early\<close>

text \<open>Whatever was written and is not pending any more was played.\<close>

definition accounted :: "consumption \<Rightarrow> bool" where
  "accounted c \<longleftrightarrow> (\<forall>f \<in> set (ac_written c). f \<in> set (ac_pending c) \<or> outcome_of c f = Result True)
     \<and> (ac_refused c \<longrightarrow> ac_failed c)"

text \<open>A later state remembers how futures were resolved, what was written and what failed.\<close>

definition later :: "consumption \<Rightarrow> consumption \<Rightarrow> bool" where
  "later c d \<longleftrightarrow> (\<forall>f \<in> set (ac_written c). f \<in> set (ac_written d) \<and> (outcome_of c f \<noteq> Unresolved \<longrightarrow> outcome_of d f = outcome_of c f))
     \<and> (ac_failed c \<longrightarrow> ac_failed d)"

lemma later_refl [simp]: "later c c"
  by (simp add: later_def)

lemma later_trans: "later c d \<Longrightarrow> later d e \<Longrightarrow> later c e"
  unfolding later_def by metis

lemma outcome_put:
  "outcome_of (c\<lparr>ac_futures := dict_put f r (ac_futures c)\<rparr>) g = (if g = f then r else outcome_of c g)"
  by (simp add: outcome_of_def)

lemma later_step: "later c (playback_step e c)"
proof (cases e)
  case (Writes can_send has_track audio added)
  then show ?thesis
    by (auto simp: later_def write_audio_def outcome_of_def split: option.split)
next
  case (Resolves f r)
  then show ?thesis by (auto simp: later_def outcome_of_def)
next
  case (Callback f)
  then show ?thesis by (auto simp: later_def consumed_def outcome_of_def)
qed

lemma accounted_step:
  assumes "accounted c"
  shows "accounted (playback_step e c)"
proof (cases e)
  case (Writes can_send has_track audio added)
  then show ?thesis using assms
    by (auto simp: accounted_def write_audio_def outcome_of_def split: option.split)
next
  case (Resolves f r)
  then show ?thesis using assms by (auto simp: accounted_def outcome_of_def)
next
  case (Callback f)
  then show ?thesis using assms by (auto simp: accounted_def consumed_def outcome_of_def)
qed

interpretation playback: event_machine playback_step accounted
  by unfold_locales (rule accounted_step)

lemma accounted_run: "accounted c \<Longrightarrow> accounted (playback_run es c)"
  unfolding playback_run_def by (rule playback.every_run)

lemma accounted_new: "accounted new_consumption"
  by (simp add: accounted_def new_consumption_def)

definition looked_at :: "nat set \<Rightarrow> consumption \<Rightarrow> nat list \<Rightarrow> bool" where
  "looked_at S c fs \<longleftrightarrow> (\<forall>f \<in> S. f \<in> set fs \<or> outcome_of c f = Result True)"

lemma looked_at_next: "looked_at S c (f # fs) \<Longrightarrow> outcome_of c f = Result True \<Longrightarrow> looked_at S c fs"
  by (auto simp: looked_at_def)

text \<open>The futures in \<open>S\<close> are played when the drain answers yes, and until then are played or still looked at.\<close>

definition drain_sound :: "nat set \<Rightarrow> consumption \<Rightarrow> drain_state \<Rightarrow> bool" where
  "drain_sound S c d \<longleftrightarrow> (case d of
     Waits fs \<Rightarrow> looked_at S c fs
   | Answers b \<Rightarrow> b \<longrightarrow> looked_at S c []
   | Breaks \<Rightarrow> True)"

lemma drain_loop_sound:
  "looked_at S c fs \<Longrightarrow> drain_sound S c (drain_loop c fs) \<and> (drain_loop c fs = Answers True \<longrightarrow> \<not> ac_failed c)"
  by (induction c fs rule: drain_loop.induct) (auto simp: drain_sound_def looked_at_next split: play_outcome.split)

lemma drain_resume_sound:
  assumes "drain_sound S c d"
  shows "drain_sound S c (drain_resume c d) \<and> (drain_resume c d = Answers True \<and> d \<noteq> Answers True \<longrightarrow> \<not> ac_failed c)"
proof (cases d)
  case (Waits left)
  show ?thesis
  proof (cases left)
    case (Cons f fs)
    then show ?thesis using assms Waits drain_loop_sound [of S c fs]
      by (auto simp: drain_resume_def drain_sound_def looked_at_next split: play_outcome.split)
  qed (use assms Waits in \<open>simp add: drain_resume_def\<close>)
qed (use assms in \<open>simp_all add: drain_resume_def\<close>)

lemma drain_sound_later:
  "drain_sound S c d \<Longrightarrow> S \<subseteq> set (ac_written c) \<Longrightarrow> later c c' \<Longrightarrow> drain_sound S c' d"
  unfolding drain_sound_def later_def looked_at_def by (auto split: drain_state.splits) (metis play_outcome.distinct(1) subsetD)+

lemma drain_run_sound:
  assumes "drain_run es c d = (Answers True, c')" "drain_sound S c d" "S \<subseteq> set (ac_written c)"
  shows "(\<forall>f \<in> S. outcome_of c' f = Result True) \<and> (d \<noteq> Answers True \<longrightarrow> \<not> ac_failed c)"
  using assms
proof (induction es arbitrary: c d)
  case Nil
  then show ?case by (simp add: drain_sound_def looked_at_def)
next
  case (Cons e es)
  let ?c = "playback_step e c"
  have l: "later c ?c" by (rule later_step)
  then have s: "drain_sound S ?c d" using drain_sound_later Cons.prems by blast
  moreover have "S \<subseteq> set (ac_written ?c)" using Cons.prems(3) l by (auto simp: later_def)
  ultimately have "(\<forall>f \<in> S. outcome_of c' f = Result True) \<and> (drain_resume ?c d \<noteq> Answers True \<longrightarrow> \<not> ac_failed ?c)"
    using Cons.IH [of ?c "drain_resume ?c d"] Cons.prems(1) drain_resume_sound [OF s] by simp
  then show ?case using drain_resume_sound [OF s] l by (auto simp: later_def)
qed

text \<open>C32: The end of a reply is never acknowledged before it was played. When a drain that began at any point answers yes,
  whatever was written, resolved, cancelled or interrupted before and meanwhile, then every frame given to the track
  before it began has been consumed, and none of them had been refused.\<close>

theorem acknowledged_output_was_played:
  assumes "drain_run es (playback_run before new_consumption) (drain_start (playback_run before new_consumption)) = (Answers True, c)"
  shows "(\<forall>f \<in> set (ac_written (playback_run before new_consumption)). outcome_of c f = Result True)
    \<and> \<not> ac_refused (playback_run before new_consumption)"
proof -
  let ?c = "playback_run before new_consumption"
  have a: "accounted ?c" by (rule accounted_run [OF accounted_new])
  then have s: "drain_sound (set (ac_written ?c)) ?c (drain_start ?c) \<and> (drain_start ?c = Answers True \<longrightarrow> \<not> ac_failed ?c)"
    unfolding drain_start_def by (intro drain_loop_sound) (auto simp: accounted_def looked_at_def)
  then have "(\<forall>f \<in> set (ac_written ?c). outcome_of c f = Result True) \<and> \<not> ac_failed ?c"
    using drain_run_sound [OF assms] by blast
  then show ?thesis using a by (auto simp: accounted_def)
qed

theorem acknowledged_output_was_played_witness:
  "\<exists>c. drain_run [Resolves 2 (Result True)] (playback_run [Writes True True [1] (Some 1), Resolves 1 (Result True), Callback 1, Writes True True [2] (Some 2)] new_consumption)
      (Waits [2]) = (Answers True, c) \<and> outcome_of c 1 = Result True \<and> outcome_of c 2 = Result True"
proof -
  let ?before = "[Writes True True [1] (Some 1), Resolves 1 (Result True), Callback 1, Writes True True [2] (Some 2)]"
  let ?c = "playback_run ?before new_consumption"
  have s: "drain_start ?c = Waits [2]" "set (ac_written ?c) = {1, 2}" by code_simp+
  obtain c where c: "drain_run [Resolves 2 (Result True)] ?c (drain_start ?c) = (Answers True, c)"
    unfolding s(1) by (simp add: playback_run_def new_consumption_def write_audio_def consumed_def outcome_of_def drain_resume_def dict_put_def dict_get_def)
  show ?thesis using acknowledged_output_was_played [OF c] c s by auto
qed

section \<open>A reply keeps its voice\<close>

text \<open>Whether the events, from the given current context on, take the selection of context \<open>k\<close> away or replace it\<close>

fun completes :: "string \<Rightarrow> tts_event list \<Rightarrow> string option \<Rightarrow> bool" where
  "completes k [] current = False"
| "completes k (Completed after # es) current = (current = Some k \<or> completes k es after)"
| "completes k (Turns_to j # es) current = completes k es j"
| "completes k (Created j found # es) current = (j = k \<or> completes k es current)"
| "completes k (Interrupted # es) current = True"

lemma selection_kept:
  "\<not> completes k es (tt_context s) \<Longrightarrow> dict_get (tt_selections (tts_run es s)) k = dict_get (tt_selections s) k"
proof (induction es arbitrary: s)
  case (Cons e es)
  have "tt_context (tts_step e s) = (case e of Completed after \<Rightarrow> after | Turns_to j \<Rightarrow> j | _ \<Rightarrow> tt_context s)"
    by (cases e) (auto simp: context_created_def context_completed_def tts_interrupted_def split: sum.split option.split)
  moreover have "dict_get (tt_selections (tts_step e s)) k = dict_get (tt_selections s) k" using Cons.prems
    by (cases e) (auto simp: context_created_def context_completed_def split: sum.split option.split)
  ultimately show ?case using Cons by (cases e) (simp_all add: tts_run_def)
qed (simp add: tts_run_def)

text \<open>One voice speaks a whole reply. The selection that was in force when its context was created speaks all of its
  text, whatever is selected, created or completed for other contexts meanwhile, at the rate that the synthesis gave;
  a context without a selection is never spoken.\<close>

theorem reply_keeps_its_voice:
  assumes "\<not> completes k es (tt_context s)"
  shows "run_tts said k synth (tts_run es (snd (context_created k (Inr sel) s)))
      = (case synth said sel of (out, None) \<Rightarrow> Sound (last_rate 22050 out) (chunks_of out) | (out, Some e) \<Rightarrow> Tts_error)
    \<and> (dict_get (tt_selections s) k = None \<longrightarrow> run_tts said k synth (tts_run es s) = Tts_error)"
  using selection_kept [of k es s] selection_kept [of k es "snd (context_created k (Inr sel) s)"] assms
  by (auto simp: run_tts_def context_created_def split: prod.split option.split)

theorem reply_keeps_its_voice_witness:
  "run_tts ''hi'' ''a'' (\<lambda>t sel. ([Rate 16000, Chunk [1, 2]], None)) (tts_run [Turns_to (Some ''b''), Created ''b'' (Inl KeyError), Completed None] \<lparr> tt_selections = [], tt_context = Some ''a'' \<rparr>)
   = Tts_error"
  using reply_keeps_its_voice [of "''a''" "[Turns_to (Some ''b''), Created ''b'' (Inl KeyError), Completed None]" "\<lparr> tt_selections = [], tt_context = Some ''a'' \<rparr>"]
  by (simp add: dict_get_def)

section \<open>Gain does not clip\<close>

lemma soft_clip_range:
  assumes "\<And>x. 0 \<le> x \<Longrightarrow> 0 \<le> tnh x \<and> tnh x \<le> 1"
  shows "\<bar>soft_clip tnh r\<bar> \<le> 1 \<and> (0 \<le> r \<longrightarrow> 0 \<le> soft_clip tnh r) \<and> (r \<le> 0 \<longrightarrow> soft_clip tnh r \<le> 0)"
proof (cases "\<bar>r\<bar> \<le> knee")
  case True
  then show ?thesis by (auto simp: soft_clip_def knee_def)
next
  case False
  let ?t = "tnh ((\<bar>r\<bar> - knee) / (1 - knee))"
  have "0 \<le> (\<bar>r\<bar> - knee) / (1 - knee)" using False by (simp add: knee_def)
  then have "0 \<le> ?t" "?t \<le> 1" using assms by blast+
  then have "0 \<le> knee + (1 - knee) * ?t" "knee + (1 - knee) * ?t \<le> 1" by (simp_all add: knee_def)
  then show ?thesis using False by (auto simp: soft_clip_def Let_def knee_def)
qed

lemma cut_off_range: "-32767 \<le> r \<Longrightarrow> r \<le> 32767 \<Longrightarrow> -32767 \<le> cut_off r \<and> cut_off r \<le> 32767"
  by (auto simp: cut_off_def le_floor_iff floor_le_iff ceiling_le_iff le_ceiling_iff)

definition fits_gain :: "rat \<Rightarrow> int \<Rightarrow> int \<Rightarrow> bool" where
  "fits_gain gain sample v \<longleftrightarrow> -32767 \<le> v \<and> v \<le> 32767
     \<and> (\<bar>of_int sample * gain\<bar> \<le> knee * full_scale \<longrightarrow> v = cut_off (of_int sample * gain))"

lemma gained_fits:
  assumes "\<And>x. 0 \<le> x \<Longrightarrow> 0 \<le> tnh x \<and> tnh x \<le> 1"
  shows "fits_gain gain sample (gained tnh gain sample)"
proof -
  let ?r = "of_int sample * gain / full_scale"
  let ?x = "soft_clip tnh ?r * full_scale"
  have "\<bar>soft_clip tnh ?r\<bar> \<le> 1" using soft_clip_range [of tnh ?r] assms by blast
  then have x: "-32767 \<le> ?x" "?x \<le> 32767" by (simp_all add: full_scale_def abs_le_iff)
  then have "gained tnh gain sample = cut_off ?x" by (simp add: gained_def)
  moreover have "?x = of_int sample * gain" if "\<bar>of_int sample * gain\<bar> \<le> knee * full_scale"
  proof -
    have "\<bar>?r\<bar> \<le> knee" using that by (simp add: abs_divide full_scale_def divide_le_eq)
    then show ?thesis by (simp add: soft_clip_def full_scale_def)
  qed
  ultimately show ?thesis using cut_off_range [OF x] by (simp add: fits_gain_def)
qed

lemma samples_append: "even (length xs) \<Longrightarrow> samples (xs @ ys) = samples xs @ samples ys"
  by (induction xs rule: samples.induct) auto

lemma length_samples: "length (samples xs) = length xs div 2"
  by (induction xs rule: samples.induct) auto

lemma samples_usable:
  "samples (take (length pcm - length pcm mod 2) pcm) = samples pcm" "samples (drop (length pcm - length pcm mod 2) pcm) = []"
proof -
  let ?n = "length pcm - length pcm mod 2"
  show d: "samples (drop ?n pcm) = []" using length_samples [of "drop ?n pcm"] by simp
  have "even (length (take ?n pcm))" by simp
  then show "samples (take ?n pcm) = samples pcm"
    using samples_append [of "take ?n pcm" "drop ?n pcm"] d by simp
qed

text \<open>The gain cannot clip or wrap. For any gain and any sound it gives a sound of the same length; every sample is
  within full scale although nothing was cut there, and below the knee it is the sample times the gain, cut towards
  zero. All that is used of \<open>tanh\<close> is that it maps positive numbers between zero and one.\<close>

theorem gain_never_clips:
  assumes "\<And>x. 0 \<le> x \<Longrightarrow> 0 \<le> tnh x \<and> tnh x \<le> 1" "gain \<noteq> 1"
  shows "\<exists>out. apply_gain tnh pcm gain = Inr out \<and> length out = length pcm
    \<and> list_all2 (fits_gain gain) (samples pcm) (samples out)"
proof (cases "pcm = []")
  case False
  let ?n = "length pcm - length pcm mod 2"
  let ?vs = "map (gained tnh gain) (samples pcm)"
  have fit: "fits_gain gain s (gained tnh gain s)" for s using gained_fits [of tnh] assms(1) by blast
  have "-32768 \<le> gained tnh gain s \<and> gained tnh gain s \<le> 32767" for s using fit [of s] by (simp add: fits_gain_def)
  then have "list_all (\<lambda>v. -32768 \<le> v \<and> v \<le> 32767) ?vs" by (simp add: list_all_iff)
  then obtain bs where bs: "pack_all ?vs = Inr bs" "length bs = 2 * length ?vs" "samples bs = ?vs" using pack_all_ok by blast
  have r: "apply_gain tnh pcm gain = Inr (bs @ drop ?n pcm)"
    using False assms(2) bs(1) by (simp add: apply_gain_def samples_usable Let_def)
  moreover have "length (bs @ drop ?n pcm) = length pcm" using bs(2) by (simp add: length_samples)
  moreover have "samples (bs @ drop ?n pcm) = ?vs" using bs samples_usable(2) [of pcm] by (simp add: samples_append)
  moreover have "list_all2 (fits_gain gain) (samples pcm) ?vs" using fit by (simp add: list_all2_conv_all_nth)
  ultimately show ?thesis by auto
qed (simp add: apply_gain_def)

theorem gain_never_clips_witness:
  "\<exists>out. apply_gain (\<lambda>x. x / (1 + x)) [255, 127, 7] 4 = Inr out \<and> length out = 3"
  using gain_never_clips [of "\<lambda>x. x / (1 + x)" 4 "[255, 127, 7]"] by (auto simp: divide_le_eq)

end
