(* ===== verification/Device_Identity.thy ===== *)
theory Device_Identity
  imports Event_Machine Start_Config Wire_Text Credential_Store
begin

text \<open>
  The identity of the server towards the OpenClaw gateway: \<open>devices/identity.py\<close> and the connect message of
  \<open>agents/openclaw.py\<close>. Ed25519 is a parameter: \<open>gen\<close> is the new identity and \<open>sign\<close> signs bytes, written as
  characters below 256, with a stored private key; an identity file that repeats a key counts as not JSON.
\<close>

section \<open>The identity file\<close>

text \<open>\<open>base64.urlsafe_b64encode\<close> without its padding\<close>

definition b64_char :: "nat \<Rightarrow> char" where
  "b64_char n = ''ABCDEFGHIJKLMNOPQRSTUVWXYZabcdefghijklmnopqrstuvwxyz0123456789-_'' ! (n mod 64)"

fun b64url_no_pad :: "string \<Rightarrow> string" where
  "b64url_no_pad [] = []"
| "b64url_no_pad [a] = (let n = of_char a in [b64_char (n div 4), b64_char (n * 16)])"
| "b64url_no_pad [a, b] = (let n = 256 * of_char a + of_char b in [b64_char (n div 1024), b64_char (n div 16), b64_char (n * 4)])"
| "b64url_no_pad (a # b # c # rest) = (let n = 65536 * of_char a + 256 * of_char b + of_char c in
     [b64_char (n div 262144), b64_char (n div 4096), b64_char (n div 64), b64_char n] @ b64url_no_pad rest)"

text \<open>The raw public key, the private key in base64 and the hash of the raw key come from the libraries.\<close>

definition generated_identity :: "string \<Rightarrow> string \<Rightarrow> string \<Rightarrow> json" where
  "generated_identity raw_pub priv_b64 hash = JObj [(''publicKeyRaw'', JStr (b64url_no_pad raw_pub)), (''privateKeyDer'', JStr priv_b64),
     (''fingerprint'', JStr hash)]"

record identity_world =
  iw_cached :: "json option"
  iw_file :: doc_file

text \<open>\<open>open(path, "w")\<close> empties the file before the document is written to it.\<close>

datatype rewrite = Written | Not_opened | Torn

definition rewrite_file :: "rewrite \<Rightarrow> json \<Rightarrow> identity_world \<Rightarrow> (exn + unit) \<times> identity_world" where
  "rewrite_file oc data w = (case oc of
     Written \<Rightarrow> (Inr (), w\<lparr>iw_file := Doc data\<rparr>)
   | Not_opened \<Rightarrow> (Inl OSError, w)
   | Torn \<Rightarrow> (Inl OSError, w\<lparr>iw_file := Not_json\<rparr>))"

text \<open>\<open>value[key]\<close>\<close>

definition subscript :: "json \<Rightarrow> string \<Rightarrow> exn + json" where
  "subscript v k = (if is_obj v then (case jget v k of None \<Rightarrow> Inl KeyError | Some x \<Rightarrow> Inr x) else Inl TypeError)"

definition nested :: "json \<Rightarrow> string \<Rightarrow> string \<Rightarrow> exn + json" where
  "nested v k j = (case subscript v k of Inl e \<Rightarrow> Inl e | Inr x \<Rightarrow> subscript x j)"

definition load_document :: "doc_file \<Rightarrow> exn + json" where
  "load_document f = (case f of Doc v \<Rightarrow> Inr v | Not_readable \<Rightarrow> Inl OSError | No_file \<Rightarrow> Inl OSError | _ \<Rightarrow> Inl ValueError)"

definition load_or_create_identity :: "json \<Rightarrow> rewrite \<Rightarrow> identity_world \<Rightarrow> (exn + json) \<times> identity_world" where
  "load_or_create_identity gen oc w = (case iw_cached w of
     Some data \<Rightarrow> (Inr data, w)
   | None \<Rightarrow>
       if doc_exists (iw_file w) then
         (case load_document (iw_file w) of
            Inl e \<Rightarrow> (Inl e, w)
          | Inr data \<Rightarrow> (case nested data ''identity'' ''fingerprint'' of
              Inl e \<Rightarrow> (Inl e, w\<lparr>iw_cached := Some data\<rparr>)
            | Inr _ \<Rightarrow> (Inr data, w\<lparr>iw_cached := Some data\<rparr>)))
       else
         (let data = JObj [(''identity'', gen)] in
          case rewrite_file oc data (w\<lparr>iw_cached := Some data\<rparr>) of
            (Inl e, w1) \<Rightarrow> (Inl e, w1)
          | (Inr _, w1) \<Rightarrow> (Inr data, w1)))"

text \<open>\<open>data["deviceToken"] = token\<close>, in the document that is also the cache\<close>

definition with_token :: "string \<Rightarrow> json \<Rightarrow> exn + json" where
  "with_token token data = (case data of JObj ps \<Rightarrow> Inr (JObj (dict_put ''deviceToken'' (JStr token) ps)) | _ \<Rightarrow> Inl TypeError)"

definition save_device_token :: "json \<Rightarrow> rewrite \<Rightarrow> rewrite \<Rightarrow> string \<Rightarrow> identity_world \<Rightarrow> (exn + unit) \<times> identity_world" where
  "save_device_token gen first oc token w = (case load_or_create_identity gen first w of
     (Inl e, w1) \<Rightarrow> (Inl e, w1)
   | (Inr data, w1) \<Rightarrow> (case with_token token data of
       Inl e \<Rightarrow> (Inl e, w1)
     | Inr new \<Rightarrow> rewrite_file oc new (w1\<lparr>iw_cached := Some new\<rparr>)))"

definition get_device_token :: "json \<Rightarrow> rewrite \<Rightarrow> identity_world \<Rightarrow> (exn + json) \<times> identity_world" where
  "get_device_token gen oc w = (case load_or_create_identity gen oc w of
     (Inl e, w1) \<Rightarrow> (Inl e, w1)
   | (Inr data, w1) \<Rightarrow> ((if is_obj data then Inr (jat data ''deviceToken'') else Inl AttributeError), w1))"

text \<open>A new process begins without the cache; \<open>reset_cache\<close> does the same in the tests.\<close>

definition reset_cache :: "identity_world \<Rightarrow> identity_world" where
  "reset_cache w = w\<lparr>iw_cached := None\<rparr>"

section \<open>The signed connect message\<close>

record sign_params =
  sp_nonce :: string
  sp_token :: string
  sp_client_id :: string
  sp_client_mode :: string
  sp_role :: string
  sp_scopes :: "string list"
  sp_platform :: string
  sp_family :: string

fun bar_joined :: "string list \<Rightarrow> string" where
  "bar_joined [] = []"
| "bar_joined [s] = s"
| "bar_joined (s # t # ts) = s @ CHR 0x7C # bar_joined (t # ts)"

definition payload_fields :: "string \<Rightarrow> int \<Rightarrow> sign_params \<Rightarrow> string list" where
  "payload_fields fingerprint signed_at p =
     [''v3'', fingerprint, sp_client_id p, sp_client_mode p, sp_role p, comma_joined (sp_scopes p), int_text signed_at, sp_token p,
      sp_nonce p, strip (lower (sp_platform p)), strip (lower (sp_family p))]"

record signed_connect =
  sc_signature :: string
  sc_at :: int

text \<open>\<open>sign_connect_payload\<close> with the document it has loaded; \<open>now\<close> is \<open>time.time()\<close>.\<close>

definition text_of :: "exn + json \<Rightarrow> exn + string" where
  "text_of r = (case r of Inl e \<Rightarrow> Inl e | Inr v \<Rightarrow> if is_str v then Inr (str_value v) else Inl TypeError)"

definition sign_connect :: "(string \<Rightarrow> string \<Rightarrow> exn + string) \<Rightarrow> time \<Rightarrow> json \<Rightarrow> sign_params \<Rightarrow> exn + signed_connect" where
  "sign_connect sign now data p =
    (let signed_at = \<lfloor>now * 1000\<rfloor> in
     case text_of (nested data ''identity'' ''privateKeyDer'') of
       Inl e \<Rightarrow> Inl e
     | Inr key \<Rightarrow> (case text_of (nested data ''identity'' ''fingerprint'') of
         Inl e \<Rightarrow> Inl e
       | Inr fingerprint \<Rightarrow> (case sign key (utf8 (bar_joined (payload_fields fingerprint signed_at p))) of
           Inl e \<Rightarrow> Inl e
         | Inr signature \<Rightarrow> Inr \<lparr> sc_signature = b64url_no_pad signature, sc_at = signed_at \<rparr>)))"

definition connect_params :: "string \<Rightarrow> string \<Rightarrow> string option \<Rightarrow> sign_params" where
  "connect_params nonce token device_token =
    \<lparr> sp_nonce = nonce, sp_token = (case device_token of Some d \<Rightarrow> if d \<noteq> [] then d else token | None \<Rightarrow> token),
      sp_client_id = ''gateway-client'', sp_client_mode = ''backend'', sp_role = ''operator'',
      sp_scopes = [''operator.read'', ''operator.write''], sp_platform = ''node'', sp_family = [] \<rparr>"

definition build_connect :: "(string \<Rightarrow> string \<Rightarrow> exn + string) \<Rightarrow> time \<Rightarrow> string \<Rightarrow> string \<Rightarrow> string \<Rightarrow> string option \<Rightarrow> json \<Rightarrow> exn + json" where
  "build_connect sign now req nonce token device_token data =
    (let p = connect_params nonce token device_token in
     case sign_connect sign now data p of
       Inl e \<Rightarrow> Inl e
     | Inr mark \<Rightarrow> (case nested data ''identity'' ''fingerprint'' of
         Inl e \<Rightarrow> Inl e
       | Inr fingerprint \<Rightarrow> (case nested data ''identity'' ''publicKeyRaw'' of
           Inl e \<Rightarrow> Inl e
         | Inr public_key \<Rightarrow> Inr (JObj [(''type'', JStr ''req''), (''id'', JStr req), (''method'', JStr ''connect''),
             (''params'', JObj [(''minProtocol'', JInt 4), (''maxProtocol'', JInt 4),
                (''client'', JObj [(''id'', JStr (sp_client_id p)), (''displayName'', JStr ''Vauxr''), (''version'', JStr ''0.1.0''),
                   (''platform'', JStr ''node''), (''mode'', JStr (sp_client_mode p))]),
                (''role'', JStr (sp_role p)), (''scopes'', JList (map JStr (sp_scopes p))), (''caps'', JList [JStr ''tool-events'']),
                (''auth'', case device_token of
                    Some d \<Rightarrow> if d \<noteq> [] then JObj [(''deviceToken'', JStr d)] else JObj [(''token'', JStr token)]
                  | None \<Rightarrow> JObj [(''token'', JStr token)]),
                (''device'', JObj [(''id'', fingerprint), (''publicKey'', public_key), (''signature'', JStr (sc_signature mark)),
                   (''signedAt'', JInt (sc_at mark)), (''nonce'', JStr nonce)])])]))))"

section \<open>Events\<close>

datatype identity_event =
    Loads json rewrite
  | Saves json rewrite rewrite string
  | Restarts

fun identity_step :: "identity_event \<Rightarrow> identity_world \<Rightarrow> identity_world" where
  "identity_step (Loads gen oc) w = snd (load_or_create_identity gen oc w)"
| "identity_step (Saves gen first oc token) w = snd (save_device_token gen first oc token w)"
| "identity_step Restarts w = reset_cache w"

definition identity_run :: "identity_event list \<Rightarrow> identity_world \<Rightarrow> identity_world" where
  "identity_run es w = fold identity_step es w"

section \<open>The identity is kept\<close>

text \<open>The server has identity \<open>i\<close>, on disk and in memory.\<close>

definition has_identity :: "json \<Rightarrow> json \<Rightarrow> bool" where
  "has_identity i data \<longleftrightarrow> is_obj data \<and> jget data ''identity'' = Some i \<and> is_obj i \<and> jget i ''fingerprint'' \<noteq> None"

definition keeps_identity :: "json \<Rightarrow> identity_world \<Rightarrow> bool" where
  "keeps_identity i w \<longleftrightarrow> (\<exists>d. iw_file w = Doc d \<and> has_identity i d) \<and> (case iw_cached w of None \<Rightarrow> True | Some c \<Rightarrow> has_identity i c)"

fun in_one_piece :: "identity_event \<Rightarrow> bool" where
  "in_one_piece (Loads gen oc) = (oc \<noteq> Torn)"
| "in_one_piece (Saves gen first oc token) = (first \<noteq> Torn \<and> oc \<noteq> Torn)"
| "in_one_piece Restarts = True"

lemma fingerprint_there: "has_identity i d \<Longrightarrow> \<exists>f. nested d ''identity'' ''fingerprint'' = Inr f"
  by (auto simp: has_identity_def nested_def subscript_def split: option.split)

lemma load_identity:
  assumes "keeps_identity i w"
  shows "\<exists>d. load_or_create_identity gen oc w = (Inr d, w\<lparr>iw_cached := Some d\<rparr>) \<and> has_identity i d"
proof (cases "iw_cached w")
  case None
  obtain d where d: "iw_file w = Doc d" "has_identity i d" using assms by (auto simp: keeps_identity_def)
  then show ?thesis using None fingerprint_there [OF d(2)]
    by (auto simp: load_or_create_identity_def doc_exists_def load_document_def)
next
  case (Some c)
  then show ?thesis using assms by (auto simp: load_or_create_identity_def keeps_identity_def)
qed

lemma with_token_identity:
  assumes "has_identity i d"
  shows "\<exists>e. with_token token d = Inr e \<and> has_identity i e \<and> jat e ''deviceToken'' = JStr token"
proof (cases d)
  case (JObj ps)
  then show ?thesis using assms by (simp add: with_token_def has_identity_def jat_def flip: dict_get_def)
qed (use assms in \<open>simp_all add: has_identity_def\<close>)

lemma rewrite_identity:
  "has_identity i new \<Longrightarrow> keeps_identity i w \<Longrightarrow> oc \<noteq> Torn \<Longrightarrow> keeps_identity i (snd (rewrite_file oc new (w\<lparr>iw_cached := Some new\<rparr>)))"
  by (cases oc) (auto simp: rewrite_file_def keeps_identity_def)

lemma identity_step_keeps:
  assumes "keeps_identity i w" "in_one_piece e"
  shows "keeps_identity i (identity_step e w)"
proof (cases e)
  case (Loads gen oc)
  then show ?thesis using load_identity [OF assms(1), of gen oc] assms(1) by (auto simp: keeps_identity_def)
next
  case (Saves gen first oc token)
  obtain d where d: "load_or_create_identity gen first w = (Inr d, w\<lparr>iw_cached := Some d\<rparr>)" "has_identity i d"
    using load_identity [OF assms(1)] by blast
  obtain n where n: "with_token token d = Inr n" "has_identity i n" using with_token_identity [OF d(2)] by blast
  have "keeps_identity i (w\<lparr>iw_cached := Some d\<rparr>)" using assms(1) d(2) by (simp add: keeps_identity_def)
  from rewrite_identity [OF n(2) this, of oc] show ?thesis
    using Saves assms(2) d(1) n(1) by (simp add: save_device_token_def)
next
  case Restarts
  then show ?thesis using assms(1) by (simp add: keeps_identity_def reset_cache_def)
qed

interpretation identity_machine: guarded_machine identity_step in_one_piece "keeps_identity i" for i
  by unfold_locales (rule identity_step_keeps)

lemma identity_run_keeps:
  "keeps_identity i w \<Longrightarrow> list_all in_one_piece es \<Longrightarrow> keeps_identity i (identity_run es w)"
  unfolding identity_run_def by (rule identity_machine.run_keeps)

text \<open>The server keeps the identity that the gateway has paired. Through any sequence of loads, saved tokens and
  restarts, some of whose writes may fail to open the file, every load returns the same key pair; and a token that was
  saved is what the next process reads.\<close>

theorem identity_is_permanent:
  assumes "keeps_identity i w" "list_all in_one_piece es"
  shows "(\<exists>d. fst (load_or_create_identity gen oc (identity_run es w)) = Inr d \<and> jget d ''identity'' = Some i)
    \<and> fst (get_device_token gen oc (reset_cache (snd (save_device_token gen oc Written token (identity_run es w))))) = Inr (JStr token)"
proof -
  let ?v = "identity_run es w"
  have k: "keeps_identity i ?v" by (rule identity_run_keeps [OF assms])
  obtain d where d: "load_or_create_identity gen oc ?v = (Inr d, ?v\<lparr>iw_cached := Some d\<rparr>)" "has_identity i d"
    using load_identity [OF k] by blast
  obtain n where n: "with_token token d = Inr n" "has_identity i n" "jat n ''deviceToken'' = JStr token"
    using with_token_identity [OF d(2)] by blast
  let ?u = "reset_cache (snd (save_device_token gen oc Written token ?v))"
  have u: "iw_file ?u = Doc n" "iw_cached ?u = None"
    using d(1) n(1) by (simp_all add: save_device_token_def rewrite_file_def reset_cache_def)
  then have "keeps_identity i ?u" using n(2) by (simp add: keeps_identity_def)
  from load_identity [OF this, of gen oc] have "load_or_create_identity gen oc ?u = (Inr n, ?u\<lparr>iw_cached := Some n\<rparr>)"
    using u by (auto simp: load_or_create_identity_def doc_exists_def load_document_def split: sum.splits)
  moreover have "is_obj n" using n(2) by (simp add: has_identity_def)
  ultimately show ?thesis using d n(3) by (auto simp: get_device_token_def has_identity_def)
qed

definition new_world :: identity_world where
  "new_world = \<lparr> iw_cached = None, iw_file = No_file \<rparr>"

definition demo_identity :: json where
  "demo_identity = generated_identity ''key'' ''secret'' ''hash''"

lemma first_load_creates: "keeps_identity demo_identity (identity_run [Loads demo_identity Written] new_world)"
  by (simp add: keeps_identity_def identity_run_def load_or_create_identity_def new_world_def doc_exists_def rewrite_file_def
      has_identity_def demo_identity_def generated_identity_def dict_get_def Let_def)

theorem identity_is_permanent_witness:
  "\<exists>d. fst (load_or_create_identity JNull Written (identity_run [Saves JNull Written Not_opened ''t'', Restarts]
      (identity_run [Loads demo_identity Written] new_world))) = Inr d \<and> jget d ''identity'' = Some demo_identity"
  using identity_is_permanent [OF first_load_creates, of "[Saves JNull Written Not_opened ''t'', Restarts]" JNull Written] by simp

text \<open>A write that is interrupted is another matter: the file is rewritten in place, and the key pair is lost with it.\<close>

lemma torn_write_loses_identity:
  "fst (load_or_create_identity gen oc (identity_run [Saves gen Written Torn ''t'', Restarts]
      (identity_run [Loads demo_identity Written] new_world))) = Inl ValueError"
  by (simp add: identity_run_def load_or_create_identity_def new_world_def doc_exists_def rewrite_file_def save_device_token_def
      with_token_def reset_cache_def load_document_def Let_def)

section \<open>The signature covers every field\<close>

lemma bar_joined_inj:
  "bar_joined xs = bar_joined ys \<Longrightarrow> length xs = length ys \<Longrightarrow> list_all (\<lambda>f. CHR 0x7C \<notin> set f) xs \<Longrightarrow>
    list_all (\<lambda>f. CHR 0x7C \<notin> set f) ys \<Longrightarrow> xs = ys"
proof (induction xs arbitrary: ys rule: bar_joined.induct)
  case (3 s t ts)
  obtain s' t' ts' where ys: "ys = s' # t' # ts'" using "3.prems"(2) by (cases ys; cases "tl ys") auto
  have "s = s' \<and> bar_joined (t # ts) = bar_joined (t' # ts')"
    using "3.prems" ys by (auto simp: append_eq_append_conv2 Cons_eq_append_conv append_eq_Cons_conv)
  then show ?case using "3.IH" [of "t' # ts'"] "3.prems" ys by auto
next
  case (2 s)
  then show ?case by (cases ys rule: bar_joined.cases) auto
qed simp

lemma utf8_cons: "utf8 (c # cs) = (if (of_char c :: nat) < 128 then [c] else [char_of (192 + (of_char c :: nat) div 64), char_of (128 + (of_char c :: nat) mod 64)]) @ utf8 cs"
  by (simp add: utf8_def Let_def)

lemma utf8_nil [simp]: "utf8 [] = []"
  by (simp add: utf8_def)

lemma char_of_small: "(a :: nat) < 256 \<Longrightarrow> b < 256 \<Longrightarrow> char_of a = char_of b \<longleftrightarrow> a = b"
  by (metis mod_less of_char_of)

lemma utf8_first:
  assumes "utf8 (c # cs) = utf8 (d # ds)"
  shows "c = d \<and> utf8 cs = utf8 ds"
proof -
  let ?n = "of_char c :: nat" and ?m = "of_char d :: nat"
  have b: "?n < 256" "?m < 256" by simp_all
  then have s: "192 + ?n div 64 < 256" "192 + ?m div 64 < 256" "128 + ?n mod 64 < 256" "128 + ?m mod 64 < 256"
    using less_mult_imp_div_less [of ?n 4 64] less_mult_imp_div_less [of ?m 4 64] by simp_all
  have far: "x \<noteq> char_of (192 + k div 64)" if "(of_char x :: nat) < 128" "192 + k div 64 < 256" for x and k :: nat
  proof
    assume "x = char_of (192 + k div 64)"
    then have "(of_char x :: nat) = 192 + k div 64" using that(2) by (simp add: of_char_of)
    then show False using that(1) by simp
  qed
  have "?n = ?m" if "?n div 64 = ?m div 64" "?n mod 64 = ?m mod 64" using that by (metis div_mult_mod_eq)
  then show ?thesis
    using assms far [of c ?m] far [of d ?n] s
    by (auto simp: utf8_cons char_of_small of_char_eq_iff split: if_splits)
qed

lemma utf8_inj: "utf8 xs = utf8 ys \<Longrightarrow> xs = ys"
proof (induction xs arbitrary: ys)
  case Nil
  then show ?case by (cases ys) (simp_all add: utf8_cons split: if_splits)
next
  case (Cons c cs)
  show ?case
  proof (cases ys)
    case ys: (Cons d ds)
    then have "c = d \<and> utf8 cs = utf8 ds" using Cons.prems utf8_first [of c cs d ds] by simp
    then show ?thesis using Cons.IH [of ds] ys by simp
  qed (use Cons.prems in \<open>simp add: utf8_cons split: if_splits\<close>)
qed

text \<open>A signed connect message cannot be used for another. When the bytes that are signed are the same and no field
  contains the separator, then so are the identity, the time, the token, the challenge and every other field; and what
  the message shows is what was signed.\<close>

theorem connect_signature_binds:
  assumes "utf8 (bar_joined (payload_fields fingerprint time p)) = utf8 (bar_joined (payload_fields fingerprint' time' p'))"
    "list_all (\<lambda>f. CHR 0x7C \<notin> set f) (payload_fields fingerprint time p)"
    "list_all (\<lambda>f. CHR 0x7C \<notin> set f) (payload_fields fingerprint' time' p')"
  shows "fingerprint = fingerprint' \<and> time = time' \<and> sp_token p = sp_token p' \<and> sp_nonce p = sp_nonce p' \<and> sp_role p = sp_role p'
    \<and> sp_client_id p = sp_client_id p' \<and> sp_client_mode p = sp_client_mode p' \<and> comma_joined (sp_scopes p) = comma_joined (sp_scopes p')"
proof -
  have "payload_fields fingerprint time p = payload_fields fingerprint' time' p'"
    using bar_joined_inj [OF utf8_inj [OF assms(1)] _ assms(2,3)] by (simp add: payload_fields_def)
  then show ?thesis using int_text_inj by (simp add: payload_fields_def)
qed

lemma int_text_no_bar: "CHR 0x7C \<notin> set (int_text n)"
proof -
  have "\<not> is_digit (CHR 0x7C)" by (simp add: is_digit_def char_between_def)
  then show ?thesis using nat_text_digits by (auto simp: int_text_def list_all_iff)
qed

theorem connect_signature_binds_witness:
  "\<not> utf8 (bar_joined (payload_fields ''f'' 1 (connect_params ''n1'' ''t'' None))) = utf8 (bar_joined (payload_fields ''f'' 1 (connect_params ''n2'' ''t'' None)))"
  using connect_signature_binds [of "''f''" 1 "connect_params ''n1'' ''t'' None" "''f''" 1 "connect_params ''n2'' ''t'' None"] int_text_no_bar [of 1]
  by (auto simp: payload_fields_def connect_params_def strip_def lstrip_def rstrip_def lower_def is_space_def char_between_def is_upper_def)

end
