(* ===== verification/Device_Settings.thy ===== *)
theory Device_Settings
  imports Json_Value Realtime_Session
begin

text \<open>
  \<open>devices/settings.py\<close>: the segmentation, taper and voice activity settings of a device, which are the same for every
  device, and what the device is told of them in its hello.
\<close>

record segmentation_settings =
  sg_idle :: bool
  sg_sentence :: bool
  sg_pause_ms :: int

record taper_settings =
  tp_idle1_ms :: int
  tp_idle2_ms :: int

record vad_settings =
  vs_confidence :: rat
  vs_start_secs :: rat
  vs_stop_secs :: rat
  vs_min_volume :: rat

record device_realtime =
  rd_segmentation :: segmentation_settings
  rd_taper :: taper_settings
  rd_vad :: vad_settings
  rd_barge_in :: vad_settings

definition default_segmentation :: segmentation_settings where
  "default_segmentation = \<lparr> sg_idle = True, sg_sentence = False, sg_pause_ms = 1000 \<rparr>"

definition default_taper :: taper_settings where
  "default_taper = \<lparr> tp_idle1_ms = 8000, tp_idle2_ms = 180000 \<rparr>"

definition default_vad :: vad_settings where
  "default_vad = \<lparr> vs_confidence = 6 / 10, vs_start_secs = 4 / 10, vs_stop_secs = 2, vs_min_volume = 1 / 10 \<rparr>"

definition default_barge_in :: vad_settings where
  "default_barge_in = \<lparr> vs_confidence = 8 / 10, vs_start_secs = 5 / 10, vs_stop_secs = 2, vs_min_volume = 4 / 10 \<rparr>"

definition default_realtime :: device_realtime where
  "default_realtime = \<lparr> rd_segmentation = default_segmentation, rd_taper = default_taper, rd_vad = default_vad, rd_barge_in = default_barge_in \<rparr>"

definition get_realtime_settings :: "string \<Rightarrow> device_realtime" where
  "get_realtime_settings device = default_realtime"

definition get_segmentation :: "string \<Rightarrow> segmentation_settings" where
  "get_segmentation device = rd_segmentation (get_realtime_settings device)"

definition get_taper :: "string \<Rightarrow> taper_settings" where
  "get_taper device = rd_taper (get_realtime_settings device)"

definition get_vad :: "bool \<Rightarrow> string \<Rightarrow> vad_settings" where
  "get_vad strict device = (if strict then rd_barge_in else rd_vad) (get_realtime_settings device)"

definition realtime_policy_extras :: "string \<Rightarrow> json" where
  "realtime_policy_extras device =
    (let rt = get_realtime_settings device in
     JObj [(''taper'', JObj [(''t_idle1_ms'', JInt (tp_idle1_ms (rd_taper rt))), (''t_idle2_ms'', JInt (tp_idle2_ms (rd_taper rt)))]),
       (''vad'', JObj [(''confidence'', JFloat (vs_confidence (rd_vad rt))), (''start_secs'', JFloat (vs_start_secs (rd_vad rt))),
          (''stop_secs'', JFloat (vs_stop_secs (rd_vad rt))), (''min_volume'', JFloat (vs_min_volume (rd_vad rt)))])])"

text \<open>What \<open>RealtimeManager\<close> checks when it is made: a warning when the backstop of the server is not longer than the time
  after which the device itself drops its peer.\<close>

definition backstop_too_short :: bool where
  "backstop_too_short \<longleftrightarrow> 600 * 1000 \<le> tp_idle1_ms (get_taper []) + tp_idle2_ms (get_taper [])"

lemmas device_settings_defs = get_realtime_settings_def get_segmentation_def get_taper_def get_vad_def default_realtime_def
  default_segmentation_def default_taper_def default_vad_def default_barge_in_def

text \<open>Speech over a reply needs more evidence than speech in silence.\<close>

lemma barge_in_is_stricter:
  "vs_confidence (get_vad False d) \<le> vs_confidence (get_vad True d) \<and> vs_start_secs (get_vad False d) \<le> vs_start_secs (get_vad True d)
    \<and> vs_min_volume (get_vad False d) \<le> vs_min_volume (get_vad True d)"
  by (simp add: device_settings_defs)

lemma one_segmentation: "\<not> (sg_idle (get_segmentation d) \<and> sg_sentence (get_segmentation d))"
  by (simp add: device_settings_defs)

text \<open>The server never reaps a session whose device is still waiting: a device that was told its taper, and has done
  nothing since, has dropped its peer before the backstop fires.\<close>

lemma device_drops_first:
  "safety_backstop now s = None \<Longrightarrow> of_int (tp_idle1_ms (get_taper d) + tp_idle2_ms (get_taper d)) / 1000 < now - se_last s"
  "\<not> backstop_too_short"
  by (simp_all add: safety_backstop_def backstop_too_short_def device_settings_defs Let_def split: if_splits)

end
