(* ===== verification/Server_Start.thy ===== *)
theory Server_Start
  imports Tls_Service Http_Laws
begin

text \<open>
  The life of the server process (\<open>server.py\<close>): \<open>_startup\<close>, which reads every store in its order before a listener
  opens, \<open>run_server\<close>, which opens the listeners and takes everything down again on every way out, and the check of the
  origin in front of the agent socket. Removing obsolete files, logging and the event loop are left out.
\<close>

section \<open>Start-up\<close>

definition load_prompts_first :: "prompts http" where
  "load_prompts_first = bnd (reads hw_config) (\<lambda>f. case load_prompts f of Inl e \<Rightarrow> raise (Raised e) | Inr p \<Rightarrow> ret p)"

text \<open>Whether the OpenClaw gateway is dialled; when it cannot be reached, the server starts all the same.\<close>

definition dials_openclaw :: "server_config \<Rightarrow> agent option \<Rightarrow> bool" where
  "dials_openclaw c active \<longleftrightarrow> cf_openclaw_url c \<noteq> [] \<and> (case active of None \<Rightarrow> False | Some a \<Rightarrow> ag_type a = Openclaw_direct)"

definition server_startup :: "server_config \<Rightarrow> backend list \<Rightarrow> bool http" where
  "server_startup c bs =
     andthen (in_config (initialize_config c))
     (andthen load_prompts_first
     (andthen (in_auth load)
     (andthen (in_devices (open_speech bs))
     (andthen (in_auth registry_load)
     (andthen (in_auth validate_authority)
     (andthen (in_devices (load_configs True))
     (andthen (in_hooks load_hooks)
     (bnd (in_auth get_active) (\<lambda>active. ret (dials_openclaw c active))))))))))"

section \<open>The process\<close>

datatype listener = Ws_listener | Http_listener | Https_listener
datatype process_act = Signals_on | Tls_prepare | Starts_up | Listens listener | Tls_start | Waits | Tls_close | Cleans_up | Signals_off

text \<open>The acts of a block of statements, of which the first that raises is the last\<close>

fun attempted :: "(process_act \<Rightarrow> bool) \<Rightarrow> process_act list \<Rightarrow> process_act list" where
  "attempted ok [] = []"
| "attempted ok (a # acts) = a # (if ok a then attempted ok acts else [])"

definition main_block :: "bool \<Rightarrow> process_act list" where
  "main_block tls = (if tls then [Tls_prepare] else []) @ [Starts_up, Listens Ws_listener, Listens Http_listener]
     @ (if tls then [Listens Https_listener, Tls_start] else []) @ [Waits]"

text \<open>Each of the nested \<open>finally\<close> runs, whatever was raised before.\<close>

definition last_block :: "bool \<Rightarrow> process_act list" where
  "last_block tls = (if tls then [Tls_close] else []) @ [Cleans_up, Signals_off]"

definition run_server :: "bool \<Rightarrow> (process_act \<Rightarrow> bool) \<Rightarrow> process_act list" where
  "run_server tls ok = Signals_on # attempted ok (main_block tls) @ last_block tls"

section \<open>The agent socket\<close>

definition agent_socket_opens :: "http_app \<Rightarrow> http_request \<Rightarrow> bool" where
  "agent_socket_opens app rq \<longleftrightarrow>
     \<not> (rq_query rq \<noteq> [] \<or> length (headers rq ''origin'') > 1 \<or> header_or rq ''origin'' (ap_origin app) \<noteq> ap_origin app
        \<or> is_tls app \<and> \<not> secure_request app rq)"

section \<open>The owner's console\<close>

text \<open>\<open>auth/cli.py\<close>: nothing is printed unless a terminal is on both ends. \<open>Exits\<close> is the exit with status 2, which takes
  the errors of values, of the owner state and of the operating system; \<open>Shows\<close> tells whether the origin is HTTPS.\<close>

datatype console_command = Generates_token | Claims bool
datatype console_result = Shows "bool option" string | Exits | Crashes exn

definition console_answer :: "bool option \<Rightarrow> (exn + string) \<times> world \<Rightarrow> console_result \<times> world" where
  "console_answer secure r = (case r of
     (Inr shown, w) \<Rightarrow> (Shows secure shown, w)
   | (Inl e, w) \<Rightarrow> ((case e of ValueError \<Rightarrow> Exits | ConfigError _ \<Rightarrow> Exits | OSError \<Rightarrow> Exits | OwnerError _ \<Rightarrow> Exits | _ \<Rightarrow> Crashes e), w))"

definition console_main :: "text_lib \<Rightarrow> env \<Rightarrow> bool \<Rightarrow> console_command \<Rightarrow> world \<Rightarrow> console_result \<times> world" where
  "console_main lib env terminal c w =
    (if \<not> terminal then (Exits, w)
     else case c of
       Generates_token \<Rightarrow> console_answer None (generate_token w)
     | Claims recover \<Rightarrow> (case configured_origin lib env of
         Inl e \<Rightarrow> console_answer None (Inl e, w)
       | Inr origin \<Rightarrow> (case environment_token (dict_get env ''OPERATOR_TOKEN'') of
           Inl e \<Rightarrow> console_answer None (Inl e, w)
         | Inr token \<Rightarrow> console_answer (Some (starts_with ''https://'' origin))
             (console_claim recover (w\<lparr>w_override := map_option (token_verifier (w_sha256 w)) token\<rparr>)))))"

section \<open>Laws\<close>

lemma console_needs_a_terminal: "console_main lib env False c w = (Exits, w)"
  by (simp add: console_main_def)

lemma attempted_before: "attempted ok (xs @ ys) = attempted ok xs @ (if list_all ok xs then attempted ok ys else [])"
  by (induction xs) auto

lemma attempted_in: "a \<in> set (attempted ok acts) \<Longrightarrow> a \<in> set acts"
  by (induction acts) (auto split: if_splits)

text \<open>No listener opens before the stores have been read and, with TLS, a certificate is ready; and whatever fails, the
  signal handlers go last, after the connections and, before them, the certificate worker.\<close>

lemma listeners_open_last:
  assumes "run_server tls ok = before @ Listens l # after"
  shows "Starts_up \<in> set before \<and> ok Starts_up \<and> (tls \<longrightarrow> Tls_prepare \<in> set before \<and> ok Tls_prepare)
    \<and> (l = Https_listener \<longrightarrow> tls)"
  using assms unfolding run_server_def main_block_def last_block_def
  by (cases before; cases tls) (auto simp: Cons_eq_append_conv append_eq_Cons_conv split: if_splits)

lemma process_is_taken_down: "\<exists>acts. run_server tls ok = acts @ (if tls then [Tls_close, Cleans_up, Signals_off] else [Cleans_up, Signals_off])"
  by (simp add: run_server_def last_block_def)

lemma agent_socket_needs_the_origin:
  "agent_socket_opens app rq \<Longrightarrow> (headers rq ''origin'' = [] \<or> headers rq ''origin'' = [ap_origin app]) \<and> (is_tls app \<longrightarrow> secure_request app rq)"
  by (cases "headers rq ''origin''") (auto simp: agent_socket_opens_def header_or_def)

lemma ok_andthen: "andthen m n s = (Inr x, t) \<longleftrightarrow> (\<exists>y u. m s = (Inr y, u) \<and> n u = (Inr x, t))"
  by (cases "m s") (auto simp: run_andthen split: sum.splits)

lemma ok_bnd: "bnd m n s = (Inr x, t) \<longleftrightarrow> (\<exists>y u. m s = (Inr y, u) \<and> n y u = (Inr x, t))"
  by (cases "m s") (auto simp: run_bnd split: sum.splits)

lemma ok_in:
  "in_auth ma s = (Inr a, t) \<longleftrightarrow> (\<exists>w. ma (hw_auth s) = (Inr a, w) \<and> t = s\<lparr>hw_auth := w\<rparr>)"
  "in_devices md s = (Inr b, t) \<longleftrightarrow> (\<exists>w. md (hw_devices s) = (Inr b, w) \<and> t = s\<lparr>hw_devices := w\<rparr>)"
  "in_hooks mh s = (Inr c, t) \<longleftrightarrow> (\<exists>w. mh (hw_hooks s) = (Inr c, w) \<and> t = s\<lparr>hw_hooks := w\<rparr>)"
  by (auto simp: in_auth_def in_devices_def in_hooks_def split: prod.splits sum.splits)


lemma ok_config: "in_config m s = (Inr x, t) \<Longrightarrow> \<exists>f fs. t = s\<lparr>hw_config := f, hw_config_faults := fs\<rparr>"
  by (auto simp: in_config_def Let_def split: prod.splits sum.splits)

lemma ok_prompts: "load_prompts_first s = (Inr p, t) \<Longrightarrow> load_prompts (hw_config s) = Inr p \<and> t = s"
  by (auto simp: load_prompts_first_def run_bnd run_reads run_ret raise_def split: sum.splits)

lemma ok_load: "load w = (Inr x, u) \<Longrightarrow> read_snapshot (w_authz u) = Inr (w_store u)"
  by (auto simp: load_def split: sum.splits)

lemma ok_speech: "open_speech bs d = (Inr x, e) \<Longrightarrow> \<exists>data. accepted data (parts_of e)"
proof -
  have "load_speech data d = (Inr (), e) \<Longrightarrow> accepted data (parts_of e)" for data d e
    unfolding load_speech_accepted by auto
  then show "open_speech bs d = (Inr x, e) \<Longrightarrow> \<exists>data. accepted data (parts_of e)"
    by (fastforce simp: open_speech_def ok_bnd ok_andthen run_reads split: if_splits)
qed

text \<open>An action after which, if it returns, the routing table is loaded\<close>

definition loads_agents :: "'a op \<Rightarrow> bool" where
  "loads_agents m \<longleftrightarrow> (\<forall>w x u. m w = (Inr x, u) \<longrightarrow> w_agents_loaded u)"

lemma loads_bnd: "(\<And>y. loads_agents (f y)) \<Longrightarrow> loads_agents (bnd m f)"
  unfolding loads_agents_def ok_bnd by blast

lemma loads_andthen: "loads_agents n \<Longrightarrow> loads_agents (andthen m n)"
  unfolding loads_agents_def ok_andthen by blast

lemma loads_publish: "loads_agents (publish_agents data)"
  by (auto simp: loads_agents_def publish_agents_def split: sum.splits prod.splits)

lemma loads_registry: "loads_agents registry_load"
  unfolding registry_load_def by (auto intro!: loads_bnd loads_andthen loads_publish split: if_splits prod.splits)

lemma ok_registry: "registry_load w = (Inr x, u) \<Longrightarrow> same_authority w u \<and> w_agents_loaded u"
  using loads_registry registry_load_authority unfolding obeys_def loads_agents_def by (metis snd_conv)

lemma loaded_active: "w_agents_loaded w \<Longrightarrow> get_active w = (Inr (find ag_active (visible_agents w)), w)"
  by (simp add: get_active_def get_all_def ensure_loaded_def run_bnd run_andthen run_reads run_when_do run_ret)

lemma ok_validate:
  assumes "validate_authority w = (Inr x, u)" "w_agents_loaded w"
  shows "u = w \<and> set (valid_agent_ids (w_now w) (w_store w)) \<subseteq> set (map ag_id (filter ag_integration (w_agents w)))
    \<and> (w_active_agent w \<noteq> [] \<longrightarrow> (\<exists>a. find ag_active (visible_agents w) = Some a))"
  using assms loaded_active [OF assms(2)]
  by (auto simp: validate_authority_def ok_bnd ok_andthen run_reads run_raise_if run_when_do run_bnd split: if_splits)

lemma ok_configs:
  assumes "load_configs True d = (Inr x, e)"
  shows "parts_of e = parts_of d \<and> dv_loaded e \<and> fst (load_strict Write_ok (dv_file e)) = Inr (dv_configs e)"
proof -
  obtain cs f where l: "load_strict (next_outcome d) (dv_file d) = (Inr cs, f)" "dv_file e = f" "dv_configs e = cs" "dv_loaded e" "parts_of e = parts_of d"
    using assms by (auto simp: load_configs_def ok_bnd run_modifies parts_of_def split: prod.splits)
  have "fst (load_strict Write_ok f) = Inr cs"
  proof (cases "doc_exists (dv_file d)")
    case True
    then have "f = dv_file d" "fst (load_strict (next_outcome d) f) = fst (load_strict Write_ok f)"
      using l(1) by (auto simp: load_strict_def split: sum.splits option.splits if_splits)
    then show ?thesis using l(1) by simp
  next
    case False
    then have "f = Doc (JObj [])" "cs = []"
      using l(1) by (auto simp: load_strict_def write_json_def split: sum.splits prod.splits write_outcome.splits)
    then show ?thesis by (simp add: doc_exists_def read_json_def load_strict_def)
  qed
  then show ?thesis using l by simp
qed

lemma ok_hooks: "load_hooks h = (Inr x, g) \<Longrightarrow> read_hooks (hk_file g) = Inr (hk_list g) \<and> hk_loaded g"
  by (auto simp: load_hooks_def ok_bnd run_reads run_modifies lift_result_def ret_def raise_def split: sum.splits)




section \<open>An example\<close>

definition sleeping_house :: http_world where
  "sleeping_house = house\<lparr>hw_auth := stored (demo_snapshot True []), hw_devices := demo_devices, hw_hooks := no_hooks, hw_config := house_file\<rparr>"

definition house_config :: server_config where
  "house_config = \<lparr> cf_openclaw_url = [], cf_openclaw_token = [], cf_device_token = [], cf_data_dir = ''/data'', cf_stt = (''stt'', 1), cf_tts = (''tts'', 2),
     cf_tts_voice = ''v'', cf_ws_port = 8765, cf_http_port = 8080, cf_idle_ms = 1000, cf_rt_enabled = False, cf_rt_esp32 = True, cf_rt_host = [],
     cf_rt_stun = [], cf_rt_offer = ''/api/offer'', cf_rt_gain = JInt 6, cf_log_level = ''info'', cf_tls = no_tls, cf_id_length = 16 \<rparr>"

lemma house_prompts: "load_prompts house_file = Inr default_prompts" by code_simp

lemma house_agents: "registry_load (running (demo_snapshot True [])) =
    (Inr (), (running (demo_snapshot True []))\<lparr>w_agents_file := Doc (encode_agents [] []), w_agents_loaded := True\<rparr>)"
proof -
  have d: "decode_agents (encode_agents [] []) = Inr ([], [])" by code_simp
  have n: "\<not> same_json (encode_agents [] []) (JObj [])" by code_simp
  show ?thesis
    by (simp add: registry_load_def action_simps reset_agents_def running_def demo_world_def doc_exists_def update_agents_file_def next_fault_def
        update_json_def first_table_def write_json_def publish_agents_def d)
qed

lemma house_startup: "\<exists>t. server_startup house_config [] sleeping_house = (Inr False, t)"
proof -
  let ?w = "(running (demo_snapshot True []))\<lparr>w_agents_file := Doc (encode_agents [] []), w_agents_loaded := True\<rparr>"
  have fine: "validate_authority ?w = (Inr (), ?w)" "get_active ?w = (Inr None, ?w)"
    by (simp_all add: validate_authority_def get_active_def get_all_def ensure_loaded_def action_simps valid_agent_ids_def integration_requests_def
        dict_values_def visible_agents_def running_def demo_world_def)
  have f: "ss_file demo_devices = Doc demo_speech" by (simp add: demo_devices_def speech_state.defs demo_speech_state_def)
  have g: "dv_file demo_devices = Doc (saved_configs [(''kitchen'', demo_config)])" by (simp add: demo_devices_def speech_state.defs device_world.defs)
  have "dv_file (set_parts P d) = dv_file d" for P and d :: device_world by (simp add: set_parts_def split: prod.split)
  then have speech: "\<exists>d. open_speech [] demo_devices = (Inr (), d) \<and> dv_file d = dv_file demo_devices"
    using load_accepted [OF demo_accepted, of demo_devices] demo_unique f
    by (simp add: open_speech_def action_simps doc_exists_def read_json_def)
  then obtain d where d: "open_speech [] demo_devices = (Inr (), d)" "dv_file d = Doc (saved_configs [(''kitchen'', demo_config)])"
    using g by auto
  have "load_strict oc (Doc (saved_configs [(''kitchen'', demo_config)])) = load_strict Write_ok (Doc (saved_configs [(''kitchen'', demo_config)]))" for oc
    by (simp add: load_strict_def doc_exists_def)
  moreover have "case fst (load_strict Write_ok (Doc (saved_configs [(''kitchen'', demo_config)]))) of Inl e \<Rightarrow> False | Inr cs \<Rightarrow> True" by code_simp
  then have "\<exists>cs f. load_strict Write_ok (Doc (saved_configs [(''kitchen'', demo_config)])) = (Inr cs, f)"
    by (cases "load_strict Write_ok (Doc (saved_configs [(''kitchen'', demo_config)]))") (auto split: sum.splits)
  ultimately have configs: "\<exists>e. load_configs True d = (Inr (), e)" using d(2) by (auto simp: load_configs_def action_simps)
  have hooks: "\<exists>h. load_hooks no_hooks = (Inr (), h)"
    by (simp add: load_hooks_def action_simps no_hooks_def read_hooks_def load_lenient_def)
  have l: "load (stored (demo_snapshot True [])) = (Inr (), running (demo_snapshot True []))" by (simp add: load_stored)
  have exists: "doc_exists house_file" by (simp add: house_file_def doc_exists_def)
  show ?thesis using d(1) configs hooks
    by (auto simp: server_startup_def ok_andthen ok_bnd ok_in run_ret sleeping_house_def load_prompts_first_def run_reads house_prompts in_config_def Let_def
        initialize_config_def exists l house_agents fine dials_openclaw_def house_config_def)
qed


end
